(* ===== verification/Go_Prelude.thy ===== *)
theory Go_Prelude
  imports Main "HOL-Library.Sublist"
begin

text \<open>
  What the components share of Go and its standard library: byte strings and the functions of
  package \<open>strings\<close> the code calls, time values, the result type, the state-passing sequencing of
  fallible steps, and the collections of rewrite rules the component theories extend.

  A Go string is a byte sequence, here \<^typ>\<open>string\<close> (a \<^typ>\<open>char\<close> is a byte). Case mapping and
  the notion of white space are the ASCII ones: the bytes above 127 are neither letters nor spaces
  (Go's Unicode tables are not modelled). Loops over the runes of a string that only compare with
  ASCII ranges are loops over its bytes, because a multi-byte rune has no ASCII byte in it.
\<close>

named_theorems go_eval "unfolding rules that evaluate the string functions on literals"
named_theorems go_norm "normal forms are fixed points: idempotence of the normalisers"

section \<open>Time\<close>

text \<open>
  A \<open>time.Time\<close> is \<^term>\<open>None\<close> when it is the zero time and otherwise an instant in nanoseconds;
  a \<open>time.Duration\<close> is a number of nanoseconds.
\<close>

type_synonym instant = int
type_synonym time = "instant option"
type_synonym duration = int

abbreviation IsZero :: "time \<Rightarrow> bool" where
  "IsZero t \<equiv> t = None"

section \<open>Package strings\<close>

definition is_space :: "char \<Rightarrow> bool" where
  "is_space c \<longleftrightarrow> c = CHR 0x20 \<or> c = CHR 0x09 \<or> c = CHR 0x0A \<or> c = CHR 0x0B \<or> c = CHR 0x0C \<or> c = CHR 0x0D"

definition is_digit :: "char \<Rightarrow> bool" where
  "is_digit c \<longleftrightarrow> 48 \<le> (of_char c :: nat) \<and> (of_char c :: nat) \<le> 57"

definition is_lower :: "char \<Rightarrow> bool" where
  "is_lower c \<longleftrightarrow> 97 \<le> (of_char c :: nat) \<and> (of_char c :: nat) \<le> 122"

definition is_upper :: "char \<Rightarrow> bool" where
  "is_upper c \<longleftrightarrow> 65 \<le> (of_char c :: nat) \<and> (of_char c :: nat) \<le> 90"

definition lower_char :: "char \<Rightarrow> char" where
  "lower_char c = (if is_upper c then char_of ((of_char c :: nat) + 32) else c)"

definition upper_char :: "char \<Rightarrow> char" where
  "upper_char c = (if is_lower c then char_of ((of_char c :: nat) - 32) else c)"

definition ToLower :: "string \<Rightarrow> string" where
  "ToLower s = map lower_char s"

definition ToUpper :: "string \<Rightarrow> string" where
  "ToUpper s = map upper_char s"

definition TrimLeftFunc :: "(char \<Rightarrow> bool) \<Rightarrow> string \<Rightarrow> string" where
  "TrimLeftFunc p s = dropWhile p s"

definition TrimRightFunc :: "(char \<Rightarrow> bool) \<Rightarrow> string \<Rightarrow> string" where
  "TrimRightFunc p s = rev (dropWhile p (rev s))"

definition TrimSpace :: "string \<Rightarrow> string" where
  "TrimSpace s = TrimRightFunc is_space (TrimLeftFunc is_space s)"

definition HasPrefix :: "string \<Rightarrow> string \<Rightarrow> bool" where
  "HasPrefix s p \<longleftrightarrow> take (length p) s = p"

definition HasSuffix :: "string \<Rightarrow> string \<Rightarrow> bool" where
  "HasSuffix s p \<longleftrightarrow> length p \<le> length s \<and> drop (length s - length p) s = p"

definition TrimPrefix :: "string \<Rightarrow> string \<Rightarrow> string" where
  "TrimPrefix s p = (if HasPrefix s p then drop (length p) s else s)"

definition TrimSuffix :: "string \<Rightarrow> string \<Rightarrow> string" where
  "TrimSuffix s p = (if HasSuffix s p then take (length s - length p) s else s)"

fun Contains :: "string \<Rightarrow> string \<Rightarrow> bool" where
  "Contains [] p \<longleftrightarrow> p = []"
| "Contains (c # s) p \<longleftrightarrow> HasPrefix (c # s) p \<or> Contains s p"

text \<open>\<open>strings.Cut\<close> at a one-byte separator: what precedes it, what follows it, whether it is there.\<close>

definition Cut :: "string \<Rightarrow> char \<Rightarrow> string \<times> string \<times> bool" where
  "Cut s c = (takeWhile (\<lambda>x. x \<noteq> c) s, drop 1 (dropWhile (\<lambda>x. x \<noteq> c) s), c \<in> set s)"

text \<open>\<open>strings.Split\<close> at a one-byte separator.\<close>

fun Split :: "char \<Rightarrow> string \<Rightarrow> string list" where
  "Split c [] = [[]]"
| "Split c (x # xs) =
     (if x = c then [] # Split c xs
      else (case Split c xs of [] \<Rightarrow> [[x]] | l # ls \<Rightarrow> (x # l) # ls))"

fun Join :: "string list \<Rightarrow> string \<Rightarrow> string" where
  "Join [] sep = []"
| "Join [x] sep = x"
| "Join (x # y # ys) sep = x @ sep @ Join (y # ys) sep"

function Fields :: "string \<Rightarrow> string list" where
  "Fields [] = []"
| "Fields (x # xs) =
     (if is_space x then Fields xs
      else (x # takeWhile (\<lambda>c. \<not> is_space c) xs) # Fields (dropWhile (\<lambda>c. \<not> is_space c) xs))"
  by pat_completeness auto
termination
  by (relation "measure length") (auto simp: le_imp_less_Suc length_dropWhile_le)

declare Fields.simps(2) [simp del]

text \<open>The verb \<open>%d\<close> and \<open>strconv.Itoa\<close>.\<close>

fun decimal :: "nat \<Rightarrow> string" where
  "decimal n = (if n < 10 then [char_of (48 + n)] else decimal (n div 10) @ [char_of (48 + n mod 10)])"

declare decimal.simps [simp del]

definition Itoa :: "int \<Rightarrow> string" where
  "Itoa i = (if i < 0 then CHR ''-'' # decimal (nat (- i)) else decimal (nat i))"

lemmas go_string_defs =
  is_space_def is_digit_def is_lower_def is_upper_def lower_char_def upper_char_def ToLower_def
  ToUpper_def TrimLeftFunc_def TrimRightFunc_def TrimSpace_def HasPrefix_def HasSuffix_def
  TrimPrefix_def TrimSuffix_def Cut_def char_of_def Fields.simps

declare go_string_defs [go_eval]

subsection \<open>Characters\<close>

lemma of_char_lower_char:
  "(of_char (lower_char c) :: nat) = (if is_upper c then of_char c + 32 else of_char c)"
  by (auto simp: lower_char_def is_upper_def)

lemma char_eq_nat: "c = d \<longleftrightarrow> (of_char c :: nat) = of_char d"
  by (simp only: of_char_eq_iff)

lemma is_upper_lower_char [simp]: "\<not> is_upper (lower_char c)"
  using of_char_lower_char [of c] by (auto simp: is_upper_def split: if_splits)

lemma lower_char_idem [simp]: "lower_char (lower_char c) = lower_char c"
  by (subst lower_char_def) simp

lemma lower_char_fixed: "\<not> is_upper c \<Longrightarrow> lower_char c = c"
  by (simp add: lower_char_def)

lemma is_space_nat:
  "is_space c \<longleftrightarrow> (of_char c :: nat) = 32 \<or> 9 \<le> (of_char c :: nat) \<and> (of_char c :: nat) \<le> 13"
  unfolding is_space_def char_eq_nat by auto

lemma is_space_lower_char [simp]: "is_space (lower_char c) \<longleftrightarrow> is_space c"
  unfolding is_space_nat of_char_lower_char by (auto simp: is_upper_def)

lemma lower_char_eq_symbol:
  assumes "\<not> is_lower d" and "\<not> is_upper d"
  shows "lower_char c = d \<longleftrightarrow> c = d"
  using assms unfolding char_eq_nat of_char_lower_char by (auto simp: is_upper_def is_lower_def)

lemma lower_char_dot [simp]: "lower_char c = CHR ''.'' \<longleftrightarrow> c = CHR ''.''"
  by (rule lower_char_eq_symbol) (simp_all add: is_lower_def is_upper_def)

subsection \<open>Trimming and case\<close>

lemma ToLower_idem [simp, go_norm]: "ToLower (ToLower s) = ToLower s"
  by (simp add: ToLower_def)

lemma ToLower_append [simp]: "ToLower (s @ t) = ToLower s @ ToLower t"
  by (simp add: ToLower_def)

lemma length_ToLower [simp]: "length (ToLower s) = length s"
  by (simp add: ToLower_def)

lemma ToLower_Nil [simp]: "ToLower [] = []"
  by (simp add: ToLower_def)

lemma ToLower_eq_Nil [simp]: "ToLower s = [] \<longleftrightarrow> s = []"
  by (simp add: ToLower_def)

lemma ToLower_fixed: "\<forall>c \<in> set s. \<not> is_upper c \<Longrightarrow> ToLower s = s"
  by (simp add: ToLower_def lower_char_fixed map_idI)

lemma no_upper_ToLower [simp]: "c \<in> set (ToLower s) \<Longrightarrow> \<not> is_upper c"
  by (auto simp: ToLower_def)

lemma dropWhile_ToLower: "(\<And>c. p (lower_char c) = p c) \<Longrightarrow> dropWhile p (ToLower s) = ToLower (dropWhile p s)"
  by (induction s) (auto simp: ToLower_def)

lemma TrimLeftFunc_ToLower:
  "(\<And>c. p (lower_char c) = p c) \<Longrightarrow> TrimLeftFunc p (ToLower s) = ToLower (TrimLeftFunc p s)"
  by (simp add: TrimLeftFunc_def dropWhile_ToLower)

lemma TrimRightFunc_ToLower:
  "(\<And>c. p (lower_char c) = p c) \<Longrightarrow> TrimRightFunc p (ToLower s) = ToLower (TrimRightFunc p s)"
  using dropWhile_ToLower [of p "rev s"] by (simp add: TrimRightFunc_def ToLower_def rev_map)

lemma TrimSpace_ToLower: "TrimSpace (ToLower s) = ToLower (TrimSpace s)"
  by (simp add: TrimSpace_def TrimLeftFunc_ToLower TrimRightFunc_ToLower)

lemma TrimLeftFunc_fixed: "s = [] \<or> \<not> p (hd s) \<Longrightarrow> TrimLeftFunc p s = s"
  by (cases s) (auto simp: TrimLeftFunc_def)

lemma TrimRightFunc_fixed: "s = [] \<or> \<not> p (last s) \<Longrightarrow> TrimRightFunc p s = s"
  by (cases s rule: rev_cases) (auto simp: TrimRightFunc_def)

lemma TrimRightFunc_prefix: "\<exists>t. s = TrimRightFunc p s @ t \<and> (\<forall>c \<in> set t. p c)"
proof -
  have "s = rev (takeWhile p (rev s) @ dropWhile p (rev s))" by simp
  then have "s = TrimRightFunc p s @ rev (takeWhile p (rev s))"
    by (metis TrimRightFunc_def rev_append)
  moreover have "\<forall>c \<in> set (rev (takeWhile p (rev s))). p c"
    using set_takeWhileD by fastforce
  ultimately show ?thesis by blast
qed

lemma last_TrimRightFunc: "TrimRightFunc p s \<noteq> [] \<Longrightarrow> \<not> p (last (TrimRightFunc p s))"
  by (metis TrimRightFunc_def hd_dropWhile last_rev rev_is_Nil_conv)

lemma hd_TrimLeftFunc: "TrimLeftFunc p s \<noteq> [] \<Longrightarrow> \<not> p (hd (TrimLeftFunc p s))"
  by (simp add: TrimLeftFunc_def hd_dropWhile)

lemma hd_TrimRightFunc: "TrimRightFunc p s \<noteq> [] \<Longrightarrow> hd (TrimRightFunc p s) = hd s"
  by (metis TrimRightFunc_prefix hd_append2)

lemma hd_TrimSpace: "TrimSpace s \<noteq> [] \<Longrightarrow> \<not> is_space (hd (TrimSpace s))"
proof -
  assume ne: "TrimSpace s \<noteq> []"
  then have "hd (TrimSpace s) = hd (TrimLeftFunc is_space s)"
    by (simp add: TrimSpace_def hd_TrimRightFunc)
  moreover have "TrimLeftFunc is_space s \<noteq> []"
    using ne by (auto simp: TrimSpace_def TrimRightFunc_def)
  ultimately show ?thesis using hd_TrimLeftFunc by metis
qed

lemma last_TrimSpace: "TrimSpace s \<noteq> [] \<Longrightarrow> \<not> is_space (last (TrimSpace s))"
  by (simp add: TrimSpace_def last_TrimRightFunc)

lemma TrimSpace_fixed: "s = [] \<or> \<not> is_space (hd s) \<and> \<not> is_space (last s) \<Longrightarrow> TrimSpace s = s"
  by (auto simp: TrimSpace_def TrimLeftFunc_fixed TrimRightFunc_fixed)

lemma TrimSpace_idem [simp, go_norm]: "TrimSpace (TrimSpace s) = TrimSpace s"
  using hd_TrimSpace last_TrimSpace by (intro TrimSpace_fixed) blast

lemma TrimSpace_no_space: "\<forall>c \<in> set s. \<not> is_space c \<Longrightarrow> TrimSpace s = s"
  by (intro TrimSpace_fixed) (cases "s = []", auto)

subsection \<open>Prefixes, suffixes and splitting\<close>

lemma HasPrefix_iff: "HasPrefix s p \<longleftrightarrow> (\<exists>t. s = p @ t)"
  unfolding HasPrefix_def by (metis append_eq_conv_conj append_take_drop_id)

lemma HasSuffix_iff: "HasSuffix s p \<longleftrightarrow> (\<exists>t. s = t @ p)"
  unfolding HasSuffix_def
  by (metis append_take_drop_id diff_diff_cancel diff_le_self length_append length_drop le_add2
      append_eq_conv_conj add_diff_cancel_right')

lemma TrimSuffix_append [simp]: "TrimSuffix (s @ p) p = s"
  by (simp add: TrimSuffix_def HasSuffix_def)

lemma TrimPrefix_append [simp]: "TrimPrefix (p @ s) p = s"
  by (simp add: TrimPrefix_def HasPrefix_def)

lemma TrimSuffix_fixed: "\<not> HasSuffix s p \<Longrightarrow> TrimSuffix s p = s"
  by (simp add: TrimSuffix_def)

lemma TrimPrefix_fixed: "\<not> HasPrefix s p \<Longrightarrow> TrimPrefix s p = s"
  by (simp add: TrimPrefix_def)

lemma HasSuffix_single: "HasSuffix s [c] \<longleftrightarrow> s \<noteq> [] \<and> last s = c"
  by (cases s rule: rev_cases) (auto simp: HasSuffix_def)

lemma Cut_none: "c \<notin> set s \<Longrightarrow> Cut s c = (s, [], False)"
proof -
  assume c: "c \<notin> set s"
  then have "takeWhile (\<lambda>x. x \<noteq> c) s = s" "dropWhile (\<lambda>x. x \<noteq> c) s = []" by (simp_all add: takeWhile_eq_all_conv dropWhile_eq_Nil_conv) blast+
  then show ?thesis using c by (simp only: Cut_def) simp
qed

lemma Cut_at: "c \<notin> set s \<Longrightarrow> Cut (s @ c # t) c = (s, t, True)"
  by (auto simp: Cut_def takeWhile_append dropWhile_append)

lemma Contains_iff: "Contains s p \<longleftrightarrow> (\<exists>a b. s = a @ p @ b)"
proof (induction s)
  case Nil
  then show ?case by simp
next
  case (Cons c s)
  show ?case
    unfolding Contains.simps Cons.IH HasPrefix_iff
    by (metis (no_types, opaque_lifting) append.left_neutral append_Cons append_eq_Cons_conv)
qed

lemma Split_not_Nil [simp]: "Split c s \<noteq> []"
  by (cases s) (auto split: list.splits)

lemma Split_no_sep: "c \<notin> set s \<Longrightarrow> Split c s = [s]"
  by (induction s) auto

lemma Split_append_sep: "Split c (s @ c # t) = Split c s @ Split c t"
  by (induction s) (auto split: list.splits)

lemma Split_parts_no_sep: "l \<in> set (Split c s) \<Longrightarrow> c \<notin> set l"
  by (induction s arbitrary: l) (auto split: list.splits if_splits)

lemma Join_Cons: "Join (x # xs) sep = (if xs = [] then x else x @ sep @ Join xs sep)"
  by (cases xs) auto

lemma Join_append: "xs \<noteq> [] \<Longrightarrow> ys \<noteq> [] \<Longrightarrow> Join (xs @ ys) sep = Join xs sep @ sep @ Join ys sep"
  by (induction xs) (auto simp: Join_Cons)

lemma Join_Split [simp]: "Join (Split c s) [c] = s"
proof (induction s)
  case (Cons x s)
  then show ?case by (cases "Split c s") (auto simp: Join_Cons)
qed simp

lemma Split_inj: "Split c s = Split c t \<longleftrightarrow> s = t"
  by (metis Join_Split)

lemma suffix_Split:
  "suffix (Split c d) (Split c n) \<longleftrightarrow> n = d \<or> (\<exists>t. n = t @ c # d)"
proof
  assume "suffix (Split c d) (Split c n)"
  then obtain xs where xs: "Split c n = xs @ Split c d" by (auto simp: suffix_def)
  show "n = d \<or> (\<exists>t. n = t @ c # d)"
  proof (cases "xs = []")
    case True
    then show ?thesis using xs by (simp add: Split_inj)
  next
    case False
    then have "Join (Split c n) [c] = Join xs [c] @ [c] @ d"
      unfolding xs by (simp add: Join_append)
    then show ?thesis by auto
  qed
next
  assume "n = d \<or> (\<exists>t. n = t @ c # d)"
  then show "suffix (Split c d) (Split c n)" by (auto simp: Split_append_sep suffix_def)
qed

end
