(* ===== verification/Netip.thy ===== *)
theory Netip
  imports Go_Prelude "HOL-Library.Word"
begin

text \<open>
  Package \<open>net/netip\<close> as far as the code uses it: \<open>ParseAddr\<close> with its IPv4 and IPv6 scanners,
  \<open>Addr.String\<close>, \<open>Is4\<close>, \<open>Is6\<close>, \<open>Unmap\<close>, and \<open>net.ParseIP\<close>, which refuses zones. An address is
  the zero \<open>Addr\<close>, four octets, or eight groups with a zone (empty when there is none).
\<close>

datatype addr =
    AddrInvalid
  | Addr4 "8 word" "8 word" "8 word" "8 word"
  | Addr6 "16 word list" string

fun addr_IsValid :: "addr \<Rightarrow> bool" where
  "addr_IsValid AddrInvalid = False"
| "addr_IsValid _ = True"

fun addr_Is4 :: "addr \<Rightarrow> bool" where
  "addr_Is4 (Addr4 _ _ _ _) = True"
| "addr_Is4 _ = False"

fun addr_Is6 :: "addr \<Rightarrow> bool" where
  "addr_Is6 (Addr6 _ _) = True"
| "addr_Is6 _ = False"

fun addr_Zone :: "addr \<Rightarrow> string" where
  "addr_Zone (Addr6 _ z) = z"
| "addr_Zone _ = []"

section \<open>Parsing\<close>

definition digit_val :: "char \<Rightarrow> nat" where
  "digit_val c = of_char c - 48"

text \<open>
  The loop of \<open>parseIPv4Fields\<close>: the previous byte (none at the start), the value and the number
  of digits of the current octet, and the octets already complete.
\<close>

fun parseIPv4Fields :: "char option \<Rightarrow> nat \<Rightarrow> nat \<Rightarrow> nat list \<Rightarrow> string \<Rightarrow> nat list option" where
  "parseIPv4Fields prev val digLen fs [] = (if length fs < 3 then None else Some (fs @ [val]))"
| "parseIPv4Fields prev val digLen fs (c # cs) =
     (if is_digit c then
        (if digLen = 1 \<and> val = 0 then None
         else (let v = val * 10 + digit_val c in
               if v > 255 then None else parseIPv4Fields (Some c) v (Suc digLen) fs cs))
      else if c = CHR ''.'' then
        (if prev = None \<or> cs = [] \<or> prev = Some (CHR ''.'') then None
         else if length fs = 3 then None
         else parseIPv4Fields (Some c) 0 0 (fs @ [val]) cs)
      else None)"

fun addr4_of :: "nat list \<Rightarrow> addr option" where
  "addr4_of [a, b, c, d] = Some (Addr4 (of_nat a) (of_nat b) (of_nat c) (of_nat d))"
| "addr4_of _ = None"

definition parseIPv4 :: "string \<Rightarrow> addr option" where
  "parseIPv4 s = Option.bind (parseIPv4Fields None 0 0 [] s) addr4_of"

definition hex_val :: "char \<Rightarrow> nat option" where
  "hex_val c = (let n = (of_char c :: nat) in
     if 48 \<le> n \<and> n \<le> 57 then Some (n - 48)
     else if 97 \<le> n \<and> n \<le> 102 then Some (n - 87)
     else if 65 \<le> n \<and> n \<le> 70 then Some (n - 55)
     else None)"

text \<open>One hexadecimal group: its value, its number of digits and the rest; none when it is too long.\<close>

fun hex_group :: "nat \<Rightarrow> nat \<Rightarrow> string \<Rightarrow> (nat \<times> nat \<times> string) option" where
  "hex_group acc off [] = Some (acc, off, [])"
| "hex_group acc off (c # cs) =
     (case hex_val c of
        None \<Rightarrow> Some (acc, off, c # cs)
      | Some v \<Rightarrow>
          (let acc' = acc * 16 + v in
           if off > 3 then None
           else if acc' > 65535 then None
           else hex_group acc' (Suc off) cs))"

text \<open>
  The loop of \<open>parseIPv6\<close> over the groups: the groups read, the position of the ellipsis, the text
  left. The result is the state in which the loop of the source is left.
\<close>

function parse6_loop :: "nat list \<Rightarrow> nat option \<Rightarrow> string \<Rightarrow> (nat list \<times> nat option \<times> string) option" where
  "parse6_loop gs ell s =
     (if 8 \<le> length gs then Some (gs, ell, s)
      else case hex_group 0 0 s of
        None \<Rightarrow> None
      | Some (acc, off, rest) \<Rightarrow>
          if off = 0 then None
          else (case rest of
              [] \<Rightarrow> Some (gs @ [acc], ell, [])
            | c # r \<Rightarrow>
                if c = CHR ''.'' then
                  (if ell = None \<and> length gs \<noteq> 6 then None
                   else if 6 < length gs then None
                   else (case parseIPv4Fields None 0 0 [] s of
                       Some [a, b, d, e] \<Rightarrow> Some (gs @ [a * 256 + b, d * 256 + e], ell, [])
                     | _ \<Rightarrow> None))
                else if c \<noteq> CHR '':'' then None
                else (case r of
                    [] \<Rightarrow> None
                  | x # r' \<Rightarrow>
                      if x = CHR '':'' then
                        (if ell \<noteq> None then None
                         else if r' = [] then Some (gs @ [acc], Some (Suc (length gs)), [])
                         else parse6_loop (gs @ [acc]) (Some (Suc (length gs))) r')
                      else parse6_loop (gs @ [acc]) ell r)))"
  by pat_completeness auto
termination
  by (relation "measure (\<lambda>(gs, ell, s). 8 - length gs)") auto

declare parse6_loop.simps [simp del]

definition expand6 :: "nat list \<times> nat option \<times> string \<Rightarrow> nat list option" where
  "expand6 st = (case st of (gs, ell, s) \<Rightarrow>
     if s \<noteq> [] then None
     else if length gs < 8 then
       (case ell of
          None \<Rightarrow> None
        | Some e \<Rightarrow> Some (take e gs @ replicate (8 - length gs) 0 @ drop e gs))
     else if ell \<noteq> None then None
     else Some gs)"

definition parseIPv6 :: "string \<Rightarrow> addr option" where
  "parseIPv6 inp =
     (case Cut inp (CHR ''%'') of (s, zone, has) \<Rightarrow>
        if has \<and> zone = [] then None
        else
          let zone = (if has then zone else []) in
          if HasPrefix s ''::'' then
            (if length s = 2 then Some (Addr6 (replicate 8 0) zone)
             else map_option (\<lambda>gs. Addr6 (map of_nat gs) zone)
                    (Option.bind (parse6_loop [] (Some 0) (drop 2 s)) expand6))
          else map_option (\<lambda>gs. Addr6 (map of_nat gs) zone)
                 (Option.bind (parse6_loop [] None s) expand6))"

text \<open>\<open>netip.ParseAddr\<close>: the first of \<open>.\<close>, \<open>:\<close> and \<open>%\<close> decides the scanner.\<close>

fun first_special :: "string \<Rightarrow> char option" where
  "first_special [] = None"
| "first_special (c # s) =
     (if c = CHR ''.'' \<or> c = CHR '':'' \<or> c = CHR ''%'' then Some c else first_special s)"

definition ParseAddr :: "string \<Rightarrow> addr option" where
  "ParseAddr s =
     (case first_special s of
        Some c \<Rightarrow> (if c = CHR ''.'' then parseIPv4 s else if c = CHR '':'' then parseIPv6 s else None)
      | None \<Rightarrow> None)"

text \<open>\<open>net.ParseIP\<close> accepts what \<open>netip.ParseAddr\<close> accepts, zones excepted.\<close>

definition ParseIP :: "string \<Rightarrow> addr option" where
  "ParseIP s = (case ParseAddr s of None \<Rightarrow> None | Some a \<Rightarrow> if addr_Zone a \<noteq> [] then None else Some a)"

section \<open>Printing\<close>

definition dig :: "nat \<Rightarrow> char" where
  "dig n = char_of (48 + n)"

definition octet_string :: "nat \<Rightarrow> string" where
  "octet_string n =
     (if 100 \<le> n then [dig (n div 100)] else []) @
     (if 10 \<le> n then [dig (n div 10 mod 10)] else []) @ [dig (n mod 10)]"

definition hexdig :: "nat \<Rightarrow> char" where
  "hexdig n = (if n < 10 then char_of (48 + n) else char_of (87 + n))"

definition hex_string :: "nat \<Rightarrow> string" where
  "hex_string n =
     (if 4096 \<le> n then [hexdig (n div 4096)] else []) @
     (if 256 \<le> n then [hexdig (n div 256 mod 16)] else []) @
     (if 16 \<le> n then [hexdig (n div 16 mod 16)] else []) @ [hexdig (n mod 16)]"

definition string4 :: "8 word \<Rightarrow> 8 word \<Rightarrow> 8 word \<Rightarrow> 8 word \<Rightarrow> string" where
  "string4 a b c d =
     octet_string (unat a) @ ''.'' @ octet_string (unat b) @ ''.'' @
     octet_string (unat c) @ ''.'' @ octet_string (unat d)"

fun zero_run :: "nat list \<Rightarrow> nat" where
  "zero_run [] = 0"
| "zero_run (g # gs) = (if g = 0 then Suc (zero_run gs) else 0)"

text \<open>The first of the longest runs of at least two zero groups: its start and its length.\<close>

fun best_run :: "nat \<Rightarrow> nat \<times> nat \<Rightarrow> nat list \<Rightarrow> nat \<times> nat" where
  "best_run i best [] = best"
| "best_run i best (g # gs) =
     (let l = zero_run (g # gs) in
      best_run (Suc i) (if 2 \<le> l \<and> snd best < l then (i, l) else best) gs)"

fun join_colon :: "string list \<Rightarrow> string" where
  "join_colon [] = []"
| "join_colon [x] = x"
| "join_colon (x # y # ys) = x @ '':'' @ join_colon (y # ys)"

definition string6 :: "nat list \<Rightarrow> string" where
  "string6 gs =
     (case best_run 0 (0, 0) gs of (st, l) \<Rightarrow>
        if l = 0 then join_colon (map hex_string gs)
        else join_colon (map hex_string (take st gs)) @ ''::'' @
             join_colon (map hex_string (drop (st + l) gs)))"

definition zone_suffix :: "string \<Rightarrow> string" where
  "zone_suffix z = (if z = [] then [] else ''%'' @ z)"

definition Is4In6 :: "16 word list \<Rightarrow> bool" where
  "Is4In6 gs \<longleftrightarrow> length gs = 8 \<and> take 6 gs = [0, 0, 0, 0, 0, 0xFFFF]"

definition unmap_groups :: "16 word list \<Rightarrow> addr" where
  "unmap_groups gs =
     (let h = unat (gs ! 6); l = unat (gs ! 7) in
      Addr4 (of_nat (h div 256)) (of_nat (h mod 256)) (of_nat (l div 256)) (of_nat (l mod 256)))"

fun Unmap :: "addr \<Rightarrow> addr" where
  "Unmap (Addr6 gs z) = (if Is4In6 gs then unmap_groups gs else Addr6 gs z)"
| "Unmap a = a"

fun addr_String :: "addr \<Rightarrow> string" where
  "addr_String AddrInvalid = ''invalid IP''"
| "addr_String (Addr4 a b c d) = string4 a b c d"
| "addr_String (Addr6 gs z) =
     (if Is4In6 gs then
        (case unmap_groups gs of
           Addr4 a b c d \<Rightarrow> ''::ffff:'' @ string4 a b c d @ zone_suffix z
         | _ \<Rightarrow> [])
      else string6 (map unat gs) @ zone_suffix z)"

text \<open>\<open>parse6_loop\<close> has to be unfolded by hand: its equation does not terminate as a rewrite rule.\<close>

declare digit_val_def [go_eval] parseIPv4_def [go_eval] hex_val_def [go_eval] expand6_def [go_eval]
  parseIPv6_def [go_eval] ParseAddr_def [go_eval] ParseIP_def [go_eval] dig_def [go_eval]
  octet_string_def [go_eval] hexdig_def [go_eval] hex_string_def [go_eval] string4_def [go_eval]
  string6_def [go_eval] zone_suffix_def [go_eval] Is4In6_def [go_eval] unmap_groups_def [go_eval]

end
