(* ===== verification/Dns_Decision.thy ===== *)
theory Dns_Decision
  imports Netip
begin

text \<open>
  Package \<open>internal/dns\<close>: the query a decider is asked about, the decision it returns, and the
  \<open>Decider\<close> interface as a locale. \<open>decide st q\<close> is \<^term>\<open>None\<close> when the Go method panics; the
  contract of the interface is that from a state with the provider's invariant it returns, with
  one of the two actions. The lemmas of the locale are what the callers in \<open>internal/coreplugin\<close>
  and \<open>internal/filter\<close> rest on.
\<close>

definition ActionAllow :: string where
  "ActionAllow = ''allow''"

definition ActionBlock :: string where
  "ActionBlock = ''block''"

definition BlockingResponseNXDOMAIN :: string where
  "BlockingResponseNXDOMAIN = ''nxdomain''"

definition BlockingResponseNullIP :: string where
  "BlockingResponseNullIP = ''null-ip''"

definition BlockingResponseRefused :: string where
  "BlockingResponseRefused = ''refused''"

record query =
  q_Name :: string
  q_Type :: "16 word"
  q_ClientIP :: addr
  q_Timestamp :: time

record decision =
  d_Action :: string
  d_Reason :: string
  d_RuleID :: int
  d_BlocklistID :: int

text \<open>The composite literals of the source leave the ids they do not name at zero.\<close>

definition Decision :: "string \<Rightarrow> string \<Rightarrow> decision" where
  "Decision a r = \<lparr>d_Action = a, d_Reason = r, d_RuleID = 0, d_BlocklistID = 0\<rparr>"

lemma action_distinct [simp]: "ActionAllow \<noteq> ActionBlock" "ActionBlock \<noteq> ActionAllow"
  by (simp_all add: ActionAllow_def ActionBlock_def)

lemma Decision_sel [simp]:
  "d_Action (Decision a r) = a" "d_Reason (Decision a r) = r"
  "d_RuleID (Decision a r) = 0" "d_BlocklistID (Decision a r) = 0"
  by (simp_all add: Decision_def)

definition action_ok :: "decision \<Rightarrow> bool" where
  "action_ok d \<longleftrightarrow> d_Action d = ActionAllow \<or> d_Action d = ActionBlock"

lemma action_ok_Decision [simp]: "action_ok (Decision ActionAllow r)" "action_ok (Decision ActionBlock r)"
  by (simp_all add: action_ok_def)

locale decider =
  fixes decide :: "'st \<Rightarrow> query \<Rightarrow> decision option"
    and ready :: "'st \<Rightarrow> bool"
  assumes decides: "ready st \<Longrightarrow> \<exists>d. decide st q = Some d \<and> action_ok d"
begin

definition blocks :: "'st \<Rightarrow> query \<Rightarrow> bool" where
  "blocks st q \<longleftrightarrow> (\<exists>d. decide st q = Some d \<and> d_Action d = ActionBlock)"

lemma no_panic: "ready st \<Longrightarrow> decide st q \<noteq> None"
  using decides by fastforce

lemma action_cases:
  assumes "ready st"
  obtains (allow) d where "decide st q = Some d" and "d_Action d = ActionAllow" and "\<not> blocks st q"
  | (block) d where "decide st q = Some d" and "d_Action d = ActionBlock" and "blocks st q"
  using decides [OF assms, of q] by (auto simp: action_ok_def blocks_def)

lemma not_block_allow: "ready st \<Longrightarrow> decide st q = Some d \<Longrightarrow> \<not> blocks st q \<longleftrightarrow> d_Action d = ActionAllow"
  by (rule action_cases [of st q]) auto

end

end
