(* ===== verification/Go_Effects.thy ===== *)
theory Go_Effects
  imports Go_Prelude
begin

text \<open>
  Errors and effects. A Go \<open>error\<close> is an \<open>errors.New\<close> value or a value wrapped by \<open>fmt.Errorf\<close>
  with \<open>%w\<close>, after its text or before it; \<open>errors.Is\<close> walks the chain. A function that may fail
  and changes a state is a \<open>step\<close>: from a state to a result and the next state, where an error
  keeps the changes made before it, as in Go. The inputs that the environment decides (a cancelled
  context, a failing statement of the database) are a list of booleans in the state, one of which
  is consumed by each poll; \<^term>\<open>True\<close> is a failure and an exhausted list never fails.

  \<open>hoare P m Q E\<close> states what a step does from a state with \<open>P\<close>: on success \<open>Q\<close> holds of the value
  and the state, on error \<open>E\<close>; the rules for sequencing are in the collection \<open>step_rules\<close>.
\<close>

named_theorems step_rules "rules of hoare triples for the sequencing of steps"

section \<open>Errors\<close>

datatype go_error =
    ErrorString string
  | Wrapf string go_error
  | Wrapw go_error string

fun err_text :: "go_error \<Rightarrow> string" where
  "err_text (ErrorString s) = s"
| "err_text (Wrapf s e) = s @ '': '' @ err_text e"
| "err_text (Wrapw e s) = err_text e @ '': '' @ s"

fun errors_Is :: "go_error \<Rightarrow> go_error \<Rightarrow> bool" where
  "errors_Is (ErrorString s) t \<longleftrightarrow> ErrorString s = t"
| "errors_Is (Wrapf s e) t \<longleftrightarrow> Wrapf s e = t \<or> errors_Is e t"
| "errors_Is (Wrapw e s) t \<longleftrightarrow> Wrapw e s = t \<or> errors_Is e t"

definition context_Canceled :: go_error where
  "context_Canceled = ErrorString ''context canceled''"

type_synonym 'a result = "go_error + 'a"

fun is_ok :: "'a result \<Rightarrow> bool" where
  "is_ok (Inr _) = True"
| "is_ok (Inl _) = False"

section \<open>Steps\<close>

type_synonym ('s, 'a) step = "'s \<Rightarrow> 'a result \<times> 's"

definition ret :: "'a \<Rightarrow> ('s, 'a) step" where
  "ret a = (\<lambda>s. (Inr a, s))"

definition fail :: "go_error \<Rightarrow> ('s, 'a) step" where
  "fail e = (\<lambda>s. (Inl e, s))"

definition then_do :: "('s, 'a) step \<Rightarrow> ('a \<Rightarrow> ('s, 'b) step) \<Rightarrow> ('s, 'b) step" where
  "then_do m f = (\<lambda>s. case m s of (Inl e, s') \<Rightarrow> (Inl e, s') | (Inr a, s') \<Rightarrow> f a s')"

text \<open>\<open>if err != nil { return fmt.Errorf("...: %w", err) }\<close>\<close>

definition wrap_err :: "(go_error \<Rightarrow> go_error) \<Rightarrow> ('s, 'a) step \<Rightarrow> ('s, 'a) step" where
  "wrap_err w m = (\<lambda>s. case m s of (Inl e, s') \<Rightarrow> (Inl (w e), s') | (Inr a, s') \<Rightarrow> (Inr a, s'))"

definition lift_result :: "'a result \<Rightarrow> ('s, 'a) step" where
  "lift_result r = (\<lambda>s. (r, s))"

definition get_state :: "('s \<Rightarrow> 'a) \<Rightarrow> ('s, 'a) step" where
  "get_state f = (\<lambda>s. (Inr (f s), s))"

text \<open>The loop over a slice that stops at the first error; the values are collected in order.\<close>

fun for_each :: "('a \<Rightarrow> ('s, 'b) step) \<Rightarrow> 'a list \<Rightarrow> ('s, 'b list) step" where
  "for_each f [] = ret []"
| "for_each f (x # xs) = then_do (f x) (\<lambda>y. then_do (for_each f xs) (\<lambda>ys. ret (y # ys)))"

lemma ret_apply [simp]: "ret a s = (Inr a, s)"
  by (simp add: ret_def)

lemma fail_apply [simp]: "fail e s = (Inl e, s)"
  by (simp add: fail_def)

lemma lift_result_apply [simp]: "lift_result r s = (r, s)"
  by (simp add: lift_result_def)

lemma get_state_apply [simp]: "get_state f s = (Inr (f s), s)"
  by (simp add: get_state_def)

lemma then_do_Inl: "m s = (Inl e, s') \<Longrightarrow> then_do m f s = (Inl e, s')"
  by (simp add: then_do_def)

lemma then_do_Inr: "m s = (Inr a, s') \<Longrightarrow> then_do m f s = f a s'"
  by (simp add: then_do_def)

lemma then_do_ret [simp]: "then_do (ret a) f = f a"
  by (simp add: then_do_def ret_def)

lemma then_do_fail [simp]: "then_do (fail e) f = fail e"
  by (simp add: then_do_def fail_def)

lemma then_do_assoc: "then_do (then_do m f) g = then_do m (\<lambda>a. then_do (f a) g)"
  by (rule ext) (simp add: then_do_def split: prod.splits sum.splits)

lemma then_do_eq_Inr:
  "then_do m f s = (Inr b, s') \<longleftrightarrow> (\<exists>a t. m s = (Inr a, t) \<and> f a t = (Inr b, s'))"
  by (auto simp: then_do_def split: prod.splits sum.splits)

lemma wrap_err_Inr [simp]: "wrap_err w m s = (Inr a, s') \<longleftrightarrow> m s = (Inr a, s')"
  by (auto simp: wrap_err_def split: prod.splits sum.splits)

section \<open>Triples\<close>

definition hoare :: "('s \<Rightarrow> bool) \<Rightarrow> ('s, 'a) step \<Rightarrow> ('a \<Rightarrow> 's \<Rightarrow> bool) \<Rightarrow> ('s \<Rightarrow> bool) \<Rightarrow> bool" where
  "hoare P m Q E \<longleftrightarrow> (\<forall>s. P s \<longrightarrow> (case m s of (Inr a, s') \<Rightarrow> Q a s' | (Inl e, s') \<Rightarrow> E s'))"

text \<open>A step keeps a property of the state, whether it succeeds or fails.\<close>

definition keeps :: "('s \<Rightarrow> bool) \<Rightarrow> ('s, 'a) step \<Rightarrow> bool" where
  "keeps I m \<longleftrightarrow> (\<forall>s. I s \<longrightarrow> I (snd (m s)))"

lemma hoareD_ok: "hoare P m Q E \<Longrightarrow> P s \<Longrightarrow> m s = (Inr a, s') \<Longrightarrow> Q a s'"
  by (auto simp: hoare_def dest!: spec [of _ s])

lemma hoareD_err: "hoare P m Q E \<Longrightarrow> P s \<Longrightarrow> m s = (Inl e, s') \<Longrightarrow> E s'"
  by (auto simp: hoare_def dest!: spec [of _ s])

lemma hoare_then_do [step_rules]:
  "hoare P m R E \<Longrightarrow> (\<And>a. hoare (R a) (f a) Q E) \<Longrightarrow> hoare P (then_do m f) Q E"
  unfolding hoare_def then_do_def by (fastforce split: prod.splits sum.splits)

lemma hoare_ret [step_rules]: "(\<And>s. P s \<Longrightarrow> Q a s) \<Longrightarrow> hoare P (ret a) Q E"
  by (simp add: hoare_def)

lemma hoare_fail [step_rules]: "(\<And>s. P s \<Longrightarrow> E s) \<Longrightarrow> hoare P (fail e) Q E"
  by (simp add: hoare_def)

lemma hoare_lift [step_rules]:
  "(\<And>s a. P s \<Longrightarrow> r = Inr a \<Longrightarrow> Q a s) \<Longrightarrow> (\<And>s. P s \<Longrightarrow> E s) \<Longrightarrow> hoare P (lift_result r) Q E"
  by (cases r) (auto simp: hoare_def)

lemma hoare_wrap_err [step_rules]: "hoare P m Q E \<Longrightarrow> hoare P (wrap_err w m) Q E"
  unfolding hoare_def wrap_err_def by (fastforce split: prod.splits sum.splits)

lemma hoare_weaken:
  "hoare P' m Q' E' \<Longrightarrow> (\<And>s. P s \<Longrightarrow> P' s) \<Longrightarrow> (\<And>a s. Q' a s \<Longrightarrow> Q a s) \<Longrightarrow> (\<And>s. E' s \<Longrightarrow> E s)
   \<Longrightarrow> hoare P m Q E"
  unfolding hoare_def by (fastforce split: prod.splits sum.splits)

lemma keeps_hoare: "keeps I m \<longleftrightarrow> hoare I m (\<lambda>_. I) I"
  unfolding keeps_def hoare_def by (fastforce split: prod.splits sum.splits)

lemma keeps_then_do [step_rules]:
  "keeps I m \<Longrightarrow> (\<And>a. keeps I (f a)) \<Longrightarrow> keeps I (then_do m f)"
  unfolding keeps_def then_do_def by (fastforce split: prod.splits sum.splits)

lemma keeps_ret [step_rules, simp]: "keeps I (ret a)"
  by (simp add: keeps_def)

lemma keeps_fail [step_rules, simp]: "keeps I (fail e)"
  by (simp add: keeps_def)

lemma keeps_lift [step_rules, simp]: "keeps I (lift_result r)"
  by (simp add: keeps_def)

lemma keeps_get [step_rules, simp]: "keeps I (get_state f)"
  by (simp add: keeps_def)

lemma keeps_wrap_err [step_rules]: "keeps I m \<Longrightarrow> keeps I (wrap_err w m)"
  unfolding keeps_def wrap_err_def by (fastforce split: prod.splits sum.splits)

lemma keeps_for_each [step_rules]: "(\<And>x. keeps I (f x)) \<Longrightarrow> keeps I (for_each f xs)"
  by (induction xs) (auto intro!: step_rules)

lemma keeps_lift_then:
  "(\<And>a. r = Inr a \<Longrightarrow> keeps I (f a)) \<Longrightarrow> keeps I (then_do (lift_result r) f)"
  by (cases r) (simp_all add: keeps_def then_do_def)

lemma keeps_if [step_rules]: "(c \<Longrightarrow> keeps I m) \<Longrightarrow> (\<not> c \<Longrightarrow> keeps I n) \<Longrightarrow> keeps I (if c then m else n)"
  by simp

section \<open>Polling\<close>

definition poll :: "bool list \<Rightarrow> bool \<times> bool list" where
  "poll fs = (case fs of [] \<Rightarrow> (False, []) | f # fs' \<Rightarrow> (f, fs'))"

text \<open>\<open>if err := ctx.Err(); err != nil { return ..., err }\<close> on a state that is the list of polls.\<close>

definition ctx_err :: "(bool list, unit) step" where
  "ctx_err fs = (case poll fs of (b, fs') \<Rightarrow> (if b then (Inl context_Canceled, fs') else (Inr (), fs')))"

lemma poll_Nil [simp]: "poll [] = (False, [])"
  by (simp add: poll_def)

lemma poll_Cons [simp]: "poll (f # fs) = (f, fs)"
  by (simp add: poll_def)

lemma ctx_err_Nil [simp]: "ctx_err [] = (Inr (), [])"
  by (simp add: ctx_err_def)

lemma ctx_err_Cons [simp]: "ctx_err (b # fs) = (if b then (Inl context_Canceled, fs) else (Inr (), fs))"
  by (simp add: ctx_err_def)

section \<open>Sources\<close>

text \<open>
  A source that is read: reading changes nothing of what the source is about, its \<open>contents\<close>, and a
  successful read returns what the contents stand for. The sources of blocklist entries and of
  local DNS records extend this interface.
\<close>

locale read_source =
  fixes read :: "('w, 'a) step"
    and contents :: "'w \<Rightarrow> 'c"
    and listing :: "'c \<Rightarrow> 'a"
  assumes read_listing: "read w = (Inr a, w') \<Longrightarrow> a = listing (contents w)"
    and read_contents: "contents (snd (read w)) = contents w"
begin

lemma read_ok: "read w = (Inr a, w') \<Longrightarrow> a = listing (contents w) \<and> contents w' = contents w"
  using read_listing read_contents [of w] by auto

lemma read_error: "read w = (Inl e, w') \<Longrightarrow> contents w' = contents w"
  using read_contents [of w] by auto

lemma read_twice: "read w = (Inr a, w') \<Longrightarrow> read w' = (Inr b, w'') \<Longrightarrow> b = a"
  using read_ok by metis

end

end
