(* ===== verification/Blocklist_Parser.thy ===== *)
theory Blocklist_Parser
  imports Dns_Decision Go_Effects
begin

text \<open>
  \<open>internal/blocklist/blocklist.go\<close> and \<open>parser.go\<close>: blocklist entries, the normal forms of domain
  names, and the parser of plain domain lists, hosts files and domain-wide Adblock filters. A
  result \<open>(x, ok)\<close> of the source is an option. \<open>scan_lines\<close> is \<open>bufio.Scanner\<close> with its default
  split function and buffer. The lemmas show the normal forms: what the parser keeps is a valid
  domain, a fixed point of the normalisation.
\<close>

definition EntryExact :: string where
  "EntryExact = ''exact''"

definition EntrySuffix :: string where
  "EntrySuffix = ''suffix''"

definition EntryRegex :: string where
  "EntryRegex = ''regex''"

lemma entry_kind_distinct [simp]:
  "EntryExact \<noteq> EntrySuffix" "EntrySuffix \<noteq> EntryExact" "EntryRegex \<noteq> EntryExact" "EntryRegex \<noteq> EntrySuffix"
  by (simp_all add: EntryExact_def EntrySuffix_def EntryRegex_def)

record entry =
  e_Domain :: string
  e_Kind :: string
  e_Allow :: bool
  e_Source :: string

section \<open>Domain names\<close>

definition valid_label :: "string \<Rightarrow> bool" where
  "valid_label l \<longleftrightarrow>
     l \<noteq> [] \<and> length l \<le> 63 \<and> hd l \<noteq> CHR ''-'' \<and> last l \<noteq> CHR ''-'' \<and>
     (\<forall>c \<in> set l. is_lower c \<or> is_digit c \<or> c = CHR ''-'')"

definition validDomain :: "string \<Rightarrow> bool" where
  "validDomain domain \<longleftrightarrow>
     domain \<noteq> [] \<and> length domain \<le> 253 \<and> ParseAddr domain = None \<and>
     \<not> Contains domain ''..'' \<and> list_all valid_label (Split (CHR ''.'') domain)"

definition local_hosts_aliases :: "string list" where
  "local_hosts_aliases =
     [''localhost'', ''localhost.localdomain'', ''localhost6'', ''localhost6.localdomain6'',
      ''local'', ''broadcasthost'', ''ip6-localhost'', ''ip6-loopback'', ''ip6-localnet'',
      ''ip6-mcastprefix'', ''ip6-allnodes'', ''ip6-allrouters'', ''ip6-allhosts'']"

definition isLocalHostsAlias :: "string \<Rightarrow> bool" where
  "isLocalHostsAlias domain \<longleftrightarrow> domain \<in> set local_hosts_aliases"

definition validBlocklistDomain :: "string \<Rightarrow> bool" where
  "validBlocklistDomain domain \<longleftrightarrow> validDomain domain \<and> \<not> isLocalHostsAlias domain"

definition isHostsAddress :: "string \<Rightarrow> bool" where
  "isHostsAddress field \<longleftrightarrow>
     ParseAddr field \<noteq> None \<or>
     (case Cut field (CHR ''%'') of (ad, _, ok) \<Rightarrow> ok \<and> ParseAddr ad \<noteq> None)"

definition normalizeDomainText :: "string \<Rightarrow> string" where
  "normalizeDomainText raw =
     (let domain = ToLower (TrimSpace raw) in TrimRightFunc (\<lambda>c. c = CHR ''.'') domain)"

definition normalizeDomain :: "string \<Rightarrow> string option" where
  "normalizeDomain raw =
     (let domain = normalizeDomainText raw in if \<not> validDomain domain then None else Some domain)"

definition normalizeEntryDomain :: "string \<Rightarrow> (string \<times> string) option" where
  "normalizeEntryDomain raw =
     (let domain = normalizeDomainText raw in
      if HasPrefix domain ''||'' \<and> HasSuffix domain ''^'' then
        let domain = TrimSuffix (TrimPrefix domain ''||'') ''^'' in
        if \<not> validBlocklistDomain domain then None else Some (domain, EntrySuffix)
      else if HasPrefix domain ''*.'' then
        let domain = TrimPrefix domain ''*.'' in
        if \<not> validBlocklistDomain domain then None else Some (domain, EntrySuffix)
      else if \<not> validBlocklistDomain domain then None
      else Some (domain, EntryExact))"

section \<open>The parser\<close>

definition cosmetic_separators :: "string list" where
  "cosmetic_separators = [''##'', ''#@#'', ''#$#'', ''#?#'', ''#%#'']"

definition field_entries :: "string \<Rightarrow> string \<Rightarrow> entry list" where
  "field_entries source field =
     (case normalizeEntryDomain field of
        None \<Rightarrow> []
      | Some (domain, kind) \<Rightarrow>
          [\<lparr>e_Domain = domain, e_Kind = kind, e_Allow = False, e_Source = source\<rparr>])"

definition parseLine :: "string \<Rightarrow> string \<Rightarrow> entry list" where
  "parseLine line source =
     (if list_ex (Contains line) cosmetic_separators then []
      else
        let line = (case Cut line (CHR ''#'') of (beforeComment, _, ok) \<Rightarrow> if ok then beforeComment else line);
            line = TrimSpace line
        in if line = [] then []
           else
             let fields = Fields line in
             if length fields = 0 then []
             else
               let start = (if isHostsAddress (fields ! 0) then 1 else 0) in
               if start \<ge> length fields then []
               else if start = 0 \<and> length fields \<noteq> 1 then []
               else concat (map (field_entries source) (drop start fields)))"

text \<open>
  \<open>bufio.Scanner\<close>: lines end at a newline, a final carriage return is dropped, an empty last line
  is no token, and the scan stops with \<open>ErrTooLong\<close> at a line that does not fit the 64 KiB buffer.
\<close>

definition MaxScanTokenSize :: nat where
  "MaxScanTokenSize = 65536"

definition ErrTooLong :: go_error where
  "ErrTooLong = ErrorString ''bufio.Scanner: token too long''"

definition newline :: char where
  "newline = CHR 0x0A"

definition raw_lines :: "string \<Rightarrow> string list" where
  "raw_lines text =
     (let ls = Split newline text in if last ls = [] then butlast ls else ls)"

definition dropCR :: "string \<Rightarrow> string" where
  "dropCR l = (if l \<noteq> [] \<and> last l = CHR 0x0D then butlast l else l)"

fun scan_lines :: "string list \<Rightarrow> (string list \<times> bool)" where
  "scan_lines [] = ([], False)"
| "scan_lines (l # ls) =
     (if length l \<ge> MaxScanTokenSize then ([], True)
      else (case scan_lines ls of (ts, e) \<Rightarrow> (dropCR l # ts, e)))"

text \<open>The loop of \<open>Parse\<close> over the tokens; the state is the outcomes of \<open>ctx.Err()\<close>.\<close>

fun parse_tokens :: "string \<Rightarrow> string list \<Rightarrow> (bool list, entry list) step" where
  "parse_tokens source [] = ret []"
| "parse_tokens source (t # ts) =
     then_do ctx_err (\<lambda>_.
     then_do (parse_tokens source ts) (\<lambda>es. ret (parseLine t source @ es)))"

text \<open>An \<open>io.Reader\<close>: the bytes it delivers and the error it then ends with, if not end of file.\<close>

record reader =
  r_text :: string
  r_err :: "go_error option"

definition NewReader :: "string \<Rightarrow> reader" where
  "NewReader s = \<lparr>r_text = s, r_err = None\<rparr>"

definition Parse :: "reader \<Rightarrow> string \<Rightarrow> (bool list, entry list) step" where
  "Parse r source =
     (case scan_lines (raw_lines (r_text r)) of (tokens, too_long) \<Rightarrow>
        then_do (parse_tokens source tokens) (\<lambda>entries.
          case (if too_long then Some ErrTooLong else r_err r) of
            Some err \<Rightarrow> fail err
          | None \<Rightarrow> ret entries))"

declare newline_def [go_eval] dropCR_def [go_eval] raw_lines_def [go_eval]
  normalizeDomainText_def [go_eval] normalizeDomain_def [go_eval] normalizeEntryDomain_def [go_eval]
  validDomain_def [go_eval] valid_label_def [go_eval] validBlocklistDomain_def [go_eval]
  isLocalHostsAlias_def [go_eval] local_hosts_aliases_def [go_eval] isHostsAddress_def [go_eval]
  cosmetic_separators_def [go_eval] field_entries_def [go_eval] parseLine_def [go_eval]

section \<open>Normal forms\<close>

lemma valid_label_chars: "valid_label l \<Longrightarrow> c \<in> set l \<Longrightarrow> is_lower c \<or> is_digit c \<or> c = CHR ''-''"
  by (auto simp: valid_label_def)

lemma set_Split: "set s \<subseteq> insert c (\<Union> (set ` set (Split c s)))"
proof (induction s)
  case (Cons a s)
  then show ?case by (cases "Split c s") (auto simp: subset_iff)
qed simp

lemma validDomain_chars:
  assumes "validDomain d" and "c \<in> set d"
  shows "is_lower c \<or> is_digit c \<or> c = CHR ''-'' \<or> c = CHR ''.''"
  using assms set_Split [of d "CHR ''.''"] valid_label_chars
  by (fastforce simp: validDomain_def list_all_iff)

lemma name_char_not_space: "is_lower c \<or> is_digit c \<or> c = CHR ''-'' \<or> c = CHR ''.'' \<Longrightarrow> \<not> is_space c"
  by (auto simp: is_lower_def is_digit_def is_space_nat)

lemma name_char_not_upper: "is_lower c \<or> is_digit c \<or> c = CHR ''-'' \<or> c = CHR ''.'' \<Longrightarrow> \<not> is_upper c"
  by (auto simp: is_lower_def is_digit_def is_upper_def)

lemma name_char_not_symbol:
  "is_lower c \<or> is_digit c \<or> c = CHR ''-'' \<or> c = CHR ''.'' \<Longrightarrow> c \<noteq> CHR ''*'' \<and> c \<noteq> CHR ''|'' \<and> c \<noteq> CHR ''^''"
  by (auto simp: is_lower_def is_digit_def)

lemma Split_last_Nil: "s \<noteq> [] \<Longrightarrow> last s = c \<Longrightarrow> [] \<in> set (Split c s)"
proof -
  assume "s \<noteq> []" and "last s = c"
  then obtain t where "s = t @ [c]" by (metis append_butlast_last_id)
  then show ?thesis by (simp add: Split_append_sep)
qed

lemma validDomain_last: "validDomain d \<Longrightarrow> last d \<noteq> CHR ''.''"
  using Split_last_Nil [of d "CHR ''.''"] by (auto simp: validDomain_def list_all_iff valid_label_def)

lemma validDomain_not_Nil [simp]: "validDomain d \<Longrightarrow> d \<noteq> []"
  by (auto simp: validDomain_def)

lemma normalizeDomainText_valid:
  assumes "validDomain d" shows "normalizeDomainText d = d"
proof -
  have cs: "\<forall>c \<in> set d. is_lower c \<or> is_digit c \<or> c = CHR ''-'' \<or> c = CHR ''.''"
    using validDomain_chars [OF assms] by blast
  then have "TrimSpace d = d" using name_char_not_space by (intro TrimSpace_no_space) meson
  moreover have "ToLower d = d" using cs name_char_not_upper by (intro ToLower_fixed) meson
  ultimately show ?thesis
    using validDomain_last [OF assms] by (simp add: normalizeDomainText_def TrimRightFunc_fixed)
qed

lemma normalizeDomain_valid [go_norm]: "validDomain d \<Longrightarrow> normalizeDomain d = Some d"
  by (simp add: normalizeDomain_def normalizeDomainText_valid)

lemma normalizeDomain_SomeD: "normalizeDomain raw = Some d \<Longrightarrow> validDomain d \<and> d = normalizeDomainText raw"
  by (auto simp: normalizeDomain_def Let_def split: if_splits)

lemma validDomain_not_pattern:
  assumes "validDomain d" shows "\<not> HasPrefix d ''*.''" and "\<not> HasPrefix d ''||''"
  using validDomain_chars [OF assms] name_char_not_symbol by (fastforce simp: HasPrefix_iff)+

lemma normalizeEntryDomain_SomeD:
  "normalizeEntryDomain raw = Some (d, k) \<Longrightarrow> validBlocklistDomain d \<and> (k = EntryExact \<or> k = EntrySuffix)"
  by (auto simp: normalizeEntryDomain_def Let_def split: if_splits)

lemma normalizeEntryDomain_valid:
  "validBlocklistDomain d \<Longrightarrow> normalizeEntryDomain d = Some (d, EntryExact)"
  by (simp add: normalizeEntryDomain_def validBlocklistDomain_def normalizeDomainText_valid validDomain_not_pattern)

lemma field_entries_entry:
  assumes "e \<in> set (field_entries source f)"
  shows "validBlocklistDomain (e_Domain e) \<and> (e_Kind e = EntryExact \<or> e_Kind e = EntrySuffix) \<and>
         \<not> e_Allow e \<and> e_Source e = source"
proof -
  obtain d k where n: "normalizeEntryDomain f = Some (d, k)"
    and e: "e = \<lparr>e_Domain = d, e_Kind = k, e_Allow = False, e_Source = source\<rparr>"
    using assms by (cases "normalizeEntryDomain f") (auto simp: field_entries_def)
  show ?thesis using normalizeEntryDomain_SomeD [OF n] by (simp add: e)
qed

lemma parseLine_entry:
  assumes "e \<in> set (parseLine line source)"
  shows "validBlocklistDomain (e_Domain e) \<and> (e_Kind e = EntryExact \<or> e_Kind e = EntrySuffix) \<and>
         \<not> e_Allow e \<and> e_Source e = source"
proof -
  obtain f where "e \<in> set (field_entries source f)"
    using assms by (auto simp: parseLine_def Let_def split: if_splits prod.splits)
  then show ?thesis by (rule field_entries_entry)
qed

lemma parseLine_cosmetic:
  "sep \<in> set cosmetic_separators \<Longrightarrow> parseLine (before @ sep @ after) source = []"
  by (auto simp: parseLine_def list_ex_iff Contains_iff)

section \<open>The loop\<close>

lemma parse_tokens_no_fault:
  "parse_tokens source ts [] = (Inr (concat (map (\<lambda>t. parseLine t source) ts)), [])"
  by (induction ts) (simp_all add: then_do_def)

lemma parse_tokens_ok:
  "parse_tokens source ts fs = (Inr es, fs') \<Longrightarrow> es = concat (map (\<lambda>t. parseLine t source) ts)"
  by (induction ts arbitrary: fs es fs') (auto simp: then_do_eq_Inr)

lemma scan_lines_short:
  "\<forall>l \<in> set ls. length l < MaxScanTokenSize \<Longrightarrow> scan_lines ls = (map dropCR ls, False)"
  by (induction ls) auto

lemma scan_lines_long: "snd (scan_lines ls) \<longleftrightarrow> (\<exists>l \<in> set ls. length l \<ge> MaxScanTokenSize)"
  by (induction ls) (auto split: prod.splits)

lemma Parse_no_fault:
  assumes "\<forall>l \<in> set (raw_lines text). length l < MaxScanTokenSize"
  shows "Parse (NewReader text) source [] =
         (Inr (concat (map (\<lambda>l. parseLine (dropCR l) source) (raw_lines text))), [])"
  using assms
  by (simp add: Parse_def NewReader_def scan_lines_short then_do_def parse_tokens_no_fault comp_def)

lemma Parse_too_long:
  assumes "\<exists>l \<in> set (raw_lines (r_text r)). length l \<ge> MaxScanTokenSize"
  shows "\<not> is_ok (fst (Parse r source fs))"
  using assms scan_lines_long [of "raw_lines (r_text r)"]
  by (auto simp: Parse_def then_do_def split: prod.splits sum.splits)

lemma Parse_entries:
  assumes "Parse r source fs = (Inr es, fs')" and "e \<in> set es"
  shows "validBlocklistDomain (e_Domain e) \<and> (e_Kind e = EntryExact \<or> e_Kind e = EntrySuffix) \<and>
         \<not> e_Allow e \<and> e_Source e = source"
proof -
  obtain ts where "parse_tokens source ts fs = (Inr es, fs')"
    using assms(1)
    by (auto simp: Parse_def then_do_eq_Inr split: prod.splits if_splits option.splits)
  then have "es = concat (map (\<lambda>t. parseLine t source) ts)" by (rule parse_tokens_ok)
  then obtain t where "e \<in> set (parseLine t source)" using assms(2) by auto
  then show ?thesis by (rule parseLine_entry)
qed

section \<open>Properties\<close>

text \<open>The spellings of a field that stand for the domain \<open>d\<close> with the kind \<open>k\<close>.\<close>

definition spelled :: "string \<Rightarrow> string \<Rightarrow> string \<Rightarrow> bool" where
  "spelled field d k \<longleftrightarrow>
     (k = EntryExact \<and> normalizeDomainText field = d) \<or>
     (k = EntrySuffix \<and> (normalizeDomainText field = ''*.'' @ d \<or> normalizeDomainText field = ''||'' @ d @ ''^''))"

lemma TrimSuffix_SomeD: "HasSuffix s p \<Longrightarrow> s = TrimSuffix s p @ p"
  by (auto simp: HasSuffix_iff)

lemma TrimPrefix_SomeD: "HasPrefix s p \<Longrightarrow> s = p @ TrimPrefix s p"
  by (auto simp: HasPrefix_iff)

lemma adblock_spelling:
  assumes "HasPrefix s ''||''" and "HasSuffix s ''^''"
  shows "s = ''||'' @ TrimSuffix (TrimPrefix s ''||'') ''^'' @ ''^''"
proof -
  obtain t where t: "s = ''||'' @ t" using assms(1) by (auto simp: HasPrefix_iff)
  obtain u where "t = u @ ''^''"
    using assms(2) unfolding t by (cases t rule: rev_cases) (auto simp: HasSuffix_single)
  then show ?thesis using t by (metis TrimPrefix_append TrimSuffix_append)
qed

lemma normalizeEntryDomain_spelled: "normalizeEntryDomain raw = Some (d, k) \<Longrightarrow> spelled raw d k"
  using adblock_spelling [of "normalizeDomainText raw"] TrimPrefix_SomeD [of "normalizeDomainText raw"]
  by (fastforce simp: normalizeEntryDomain_def spelled_def Let_def split: if_splits)

lemma field_entries_spelled: "e \<in> set (field_entries source f) \<Longrightarrow> spelled f (e_Domain e) (e_Kind e)"
  using normalizeEntryDomain_spelled by (cases "normalizeEntryDomain f") (fastforce simp: field_entries_def)+

text \<open>What is left of a line before its comment.\<close>

definition uncommented :: "string \<Rightarrow> string" where
  "uncommented line = takeWhile (\<lambda>c. c \<noteq> CHR ''#'') line"

lemma uncommented_Cut:
  "(case Cut line (CHR ''#'') of (beforeComment, x, ok) \<Rightarrow> if ok then beforeComment else line) = uncommented line"
  by (auto simp: Cut_def uncommented_def takeWhile_eq_all_conv [THEN iffD2] intro!: sym [OF takeWhile_eq_all_conv [THEN iffD2]])

text \<open>
  C10: The parser never broadens a filter: an entry of a line comes from a field of its uncommented
  part that spells exactly that domain, plainly (an exact entry), as \<open>*.d\<close> or as \<open>||d^\<close> (a suffix
  entry); the domain is valid and no local alias, the entry denies, and the line holds none of the
  separators of cosmetic filters.
\<close>

theorem parse_no_broadening:
  assumes "e \<in> set (parseLine line source)"
  shows "(\<exists>field \<in> set (Fields (TrimSpace (uncommented line))). spelled field (e_Domain e) (e_Kind e)) \<and>
         validBlocklistDomain (e_Domain e) \<and> \<not> e_Allow e \<and> e_Source e = source \<and>
         (\<forall>sep \<in> set cosmetic_separators. \<not> Contains line sep)"
proof -
  have sep: "\<forall>sep \<in> set cosmetic_separators. \<not> Contains line sep"
    using assms by (auto simp: parseLine_def list_ex_iff split: if_splits)
  obtain f where "f \<in> set (Fields (TrimSpace (uncommented line)))" and f: "e \<in> set (field_entries source f)"
    using assms unfolding parseLine_def uncommented_Cut
    by (auto simp: Let_def split: if_splits dest: in_set_dropD)
  then have "\<exists>field \<in> set (Fields (TrimSpace (uncommented line))). spelled field (e_Domain e) (e_Kind e)"
    using field_entries_spelled by blast
  then show ?thesis using sep field_entries_entry [OF f] by blast
qed

theorem parse_no_broadening_witness:
  "parseLine ''||ads.example^'' ''l'' =
     [\<lparr>e_Domain = ''ads.example'', e_Kind = EntrySuffix, e_Allow = False, e_Source = ''l''\<rparr>] \<and>
   validBlocklistDomain ''ads.example''"
proof -
  have p: "parseLine ''||ads.example^'' ''l'' =
     [\<lparr>e_Domain = ''ads.example'', e_Kind = EntrySuffix, e_Allow = False, e_Source = ''l''\<rparr>]"
    by code_simp
  show ?thesis using parse_no_broadening [of _ "''||ads.example^''" "''l''"] by (simp add: p)
qed

end
