(* ===== verification/Filter_Types.thy ===== *)
theory Filter_Types
  imports Blocklist_Parser
begin

text \<open>
  \<open>internal/filter/types.go\<close>: the records of the filter database, their normal forms and the
  matching of a domain against a pattern. The \<open>regexp\<close> package is the parameter \<open>rx\<close>:
  \<open>rx pattern\<close> is \<^term>\<open>None\<close> when \<open>regexp.Compile\<close> fails and otherwise the \<open>MatchString\<close> of the
  compiled pattern. The \<open>validate\<close> functions of the source take a pointer and normalise in place;
  here they return the normalised record. Every caller passes the address of a variable, so the
  branches for nil are unreachable.
\<close>

type_synonym regexp_engine = "string \<Rightarrow> (string \<Rightarrow> bool) option"

definition KindAllow :: string where
  "KindAllow = ''allow''"

definition KindDeny :: string where
  "KindDeny = ''deny''"

definition MatchExact :: string where
  "MatchExact = ''exact''"

definition MatchSuffix :: string where
  "MatchSuffix = ''suffix''"

definition MatchRegex :: string where
  "MatchRegex = ''regex''"

definition FActionAllow :: string where
  "FActionAllow = ''allow''"

definition FActionDeny :: string where
  "FActionDeny = ''deny''"

definition FActionNone :: string where
  "FActionNone = ''none''"

lemmas filter_const_defs =
  KindAllow_def KindDeny_def MatchExact_def MatchSuffix_def MatchRegex_def FActionAllow_def
  FActionDeny_def FActionNone_def

lemma filter_const_distinct [simp]:
  "KindAllow \<noteq> KindDeny" "KindDeny \<noteq> KindAllow" "MatchExact \<noteq> MatchSuffix" "MatchSuffix \<noteq> MatchExact"
  "MatchExact \<noteq> MatchRegex" "MatchRegex \<noteq> MatchExact" "MatchSuffix \<noteq> MatchRegex" "MatchRegex \<noteq> MatchSuffix"
  by (simp_all add: filter_const_defs)

definition ErrInvalidInput :: go_error where
  "ErrInvalidInput = ErrorString ''invalid filter input''"

definition ErrNotFound :: go_error where
  "ErrNotFound = ErrorString ''filter record not found''"

definition invalid :: "string \<Rightarrow> 'a result" where
  "invalid msg = Inl (Wrapw ErrInvalidInput msg)"

record filter_list =
  l_ID :: int
  l_URL :: string
  l_Path :: string
  l_Kind :: string
  l_Enabled :: bool
  l_LastUpdatedAt :: time
  l_LastError :: string

record list_entry =
  le_ID :: int
  le_ListID :: int
  le_Pattern :: string
  le_MatchType :: string
  le_Enabled :: bool

record rule =
  ru_ID :: int
  ru_Pattern :: string
  ru_Kind :: string
  ru_MatchType :: string
  ru_Enabled :: bool
  ru_Comment :: string

record client =
  c_ID :: int
  c_Name :: string
  c_Address :: string
  c_Comment :: string
  c_Enabled :: bool

record group =
  g_ID :: int
  g_Name :: string
  g_Comment :: string
  g_Enabled :: bool

record decision_request =
  dr_Domain :: string
  dr_ClientAddress :: string

record filter_decision =
  fd_Action :: string
  fd_Reason :: string
  fd_RuleID :: int
  fd_ListID :: int
  fd_EntryID :: int
  fd_Pattern :: string
  fd_MatchType :: string

record runtime_stats =
  EnabledLists :: nat
  ImportedEnabledLists :: nat
  EnabledEntries :: nat

section \<open>Normal forms\<close>

definition normalizeKind :: "string \<Rightarrow> string result" where
  "normalizeKind kind =
     (let k = ToLower (TrimSpace kind) in
      if k = KindAllow then Inr KindAllow
      else if k = KindDeny then Inr KindDeny
      else invalid ''kind must be allow or deny'')"

definition normalizeMatchType :: "string \<Rightarrow> string result" where
  "normalizeMatchType matchType =
     (let m = ToLower (TrimSpace matchType) in
      if m = MatchExact then Inr MatchExact
      else if m = MatchSuffix then Inr MatchSuffix
      else if m = MatchRegex then Inr MatchRegex
      else invalid ''match_type must be exact, suffix, or regex'')"

definition normalizePattern :: "regexp_engine \<Rightarrow> string \<Rightarrow> string \<Rightarrow> string result" where
  "normalizePattern rx pattern matchType =
     (let pattern = TrimSpace (TrimSuffix pattern ''.'') in
      if pattern = [] then invalid ''pattern is required''
      else if matchType = MatchRegex then
        (if rx pattern = None then invalid ''invalid regex pattern'' else Inr pattern)
      else Inr (ToLower pattern))"

definition filter_normalizeDomain :: "string \<Rightarrow> string" where
  "filter_normalizeDomain domain = ToLower (TrimSpace (TrimSuffix domain ''.''))"

definition bind_result :: "'a result \<Rightarrow> ('a \<Rightarrow> 'b result) \<Rightarrow> 'b result" where
  "bind_result r f = (case r of Inl e \<Rightarrow> Inl e | Inr a \<Rightarrow> f a)"

lemma bind_result_simps [simp]: "bind_result (Inr a) f = f a" "bind_result (Inl e) f = Inl e"
  by (simp_all add: bind_result_def)

lemma bind_result_eq_Inr: "bind_result r f = Inr b \<longleftrightarrow> (\<exists>a. r = Inr a \<and> f a = Inr b)"
  by (cases r) auto

lemma invalid_not_Inr [simp]: "invalid msg \<noteq> Inr a"
  by (simp add: invalid_def)

definition validateList :: "filter_list \<Rightarrow> filter_list result" where
  "validateList list =
     bind_result (normalizeKind (l_Kind list)) (\<lambda>kind.
       let list = list\<lparr>l_Kind := kind, l_URL := TrimSpace (l_URL list), l_Path := TrimSpace (l_Path list),
                       l_LastError := TrimSpace (l_LastError list)\<rparr>
       in if l_URL list = [] \<and> l_Path list = [] then invalid ''url or path is required'' else Inr list)"

definition validateRule :: "regexp_engine \<Rightarrow> rule \<Rightarrow> rule result" where
  "validateRule rx rule =
     bind_result (normalizeKind (ru_Kind rule)) (\<lambda>kind.
     bind_result (normalizeMatchType (ru_MatchType rule)) (\<lambda>matchType.
     bind_result (normalizePattern rx (ru_Pattern rule) matchType) (\<lambda>pattern.
       Inr (rule\<lparr>ru_Kind := kind, ru_MatchType := matchType, ru_Pattern := pattern,
                 ru_Comment := TrimSpace (ru_Comment rule)\<rparr>))))"

definition validateListEntry :: "regexp_engine \<Rightarrow> list_entry \<Rightarrow> list_entry result" where
  "validateListEntry rx entry =
     (if le_ListID entry \<le> 0 then invalid ''list_id is required''
      else
        bind_result (normalizeMatchType (le_MatchType entry)) (\<lambda>matchType.
        bind_result (normalizePattern rx (le_Pattern entry) matchType) (\<lambda>pattern.
          Inr (entry\<lparr>le_MatchType := matchType, le_Pattern := pattern\<rparr>))))"

definition validateClient :: "client \<Rightarrow> client result" where
  "validateClient client =
     (let client = client\<lparr>c_Name := TrimSpace (c_Name client), c_Address := TrimSpace (c_Address client),
                          c_Comment := TrimSpace (c_Comment client)\<rparr>
      in if c_Name client = [] then invalid ''client name is required''
         else if c_Address client = [] then invalid ''client address is required''
         else if ParseAddr (c_Address client) = None then invalid ''invalid client address''
         else Inr client)"

definition validateGroup :: "group \<Rightarrow> group result" where
  "validateGroup grp =
     (let grp = grp\<lparr>g_Name := TrimSpace (g_Name grp), g_Comment := TrimSpace (g_Comment grp)\<rparr>
      in if g_Name grp = [] then invalid ''group name is required'' else Inr grp)"

section \<open>Matching\<close>

definition regexp_MatchString :: "regexp_engine \<Rightarrow> string \<Rightarrow> string \<Rightarrow> bool" where
  "regexp_MatchString rx pattern s = (case rx pattern of None \<Rightarrow> False | Some m \<Rightarrow> m s)"

definition matchesPattern :: "regexp_engine \<Rightarrow> string \<Rightarrow> string \<Rightarrow> string \<Rightarrow> bool" where
  "matchesPattern rx domain pattern matchType =
     (if matchType = MatchExact then domain = filter_normalizeDomain pattern
      else if matchType = MatchSuffix then
        (let pattern = filter_normalizeDomain (TrimPrefix pattern ''*.'') in
         domain = pattern \<or> HasSuffix domain (''.'' @ pattern))
      else if matchType = MatchRegex then regexp_MatchString rx pattern domain
      else False)"

section \<open>Lemmas on the normal forms\<close>

lemma normalizeKind_Inr: "normalizeKind k = Inr k' \<Longrightarrow> k' = KindAllow \<or> k' = KindDeny"
  by (auto simp: normalizeKind_def Let_def split: if_splits)

lemma normalizeKind_fixed [simp]: "normalizeKind KindAllow = Inr KindAllow" "normalizeKind KindDeny = Inr KindDeny"
  by (simp_all add: normalizeKind_def Let_def KindAllow_def KindDeny_def go_eval)

lemma normalizeMatchType_Inr: "normalizeMatchType k = Inr k' \<Longrightarrow> k' = MatchExact \<or> k' = MatchSuffix \<or> k' = MatchRegex"
  by (auto simp: normalizeMatchType_def Let_def split: if_splits)

lemma normalizeMatchType_fixed [simp]:
  "normalizeMatchType MatchExact = Inr MatchExact" "normalizeMatchType MatchSuffix = Inr MatchSuffix"
  "normalizeMatchType MatchRegex = Inr MatchRegex"
  by (simp_all add: normalizeMatchType_def Let_def MatchExact_def MatchSuffix_def MatchRegex_def go_eval)

lemma normalizePattern_Inr:
  assumes "normalizePattern rx p k = Inr p'"
  shows "p' \<noteq> []" and "TrimSpace p' = p'" and "k = MatchRegex \<Longrightarrow> rx p' \<noteq> None"
    and "k \<noteq> MatchRegex \<Longrightarrow> ToLower p' = p'"
  using assms by (auto simp: normalizePattern_def Let_def TrimSpace_ToLower split: if_splits)

lemma normalizePattern_idem:
  assumes "normalizePattern rx p k = Inr p'" and "\<not> HasSuffix p' ''.''"
  shows "normalizePattern rx p' k = Inr p'"
  using normalizePattern_Inr [OF assms(1)] assms(2)
  by (auto simp: normalizePattern_def TrimSuffix_fixed)

definition valid_list :: "filter_list \<Rightarrow> bool" where
  "valid_list l \<longleftrightarrow> (l_Kind l = KindAllow \<or> l_Kind l = KindDeny) \<and> (l_URL l \<noteq> [] \<or> l_Path l \<noteq> []) \<and>
     TrimSpace (l_URL l) = l_URL l \<and> TrimSpace (l_Path l) = l_Path l"

definition valid_pattern :: "regexp_engine \<Rightarrow> string \<Rightarrow> string \<Rightarrow> bool" where
  "valid_pattern rx p k \<longleftrightarrow> (k = MatchExact \<or> k = MatchSuffix \<or> k = MatchRegex) \<and> p \<noteq> [] \<and>
     TrimSpace p = p \<and> (if k = MatchRegex then rx p \<noteq> None else ToLower p = p)"

definition valid_rule :: "regexp_engine \<Rightarrow> rule \<Rightarrow> bool" where
  "valid_rule rx r \<longleftrightarrow> (ru_Kind r = KindAllow \<or> ru_Kind r = KindDeny) \<and>
     valid_pattern rx (ru_Pattern r) (ru_MatchType r) \<and> TrimSpace (ru_Comment r) = ru_Comment r"

definition valid_entry :: "regexp_engine \<Rightarrow> list_entry \<Rightarrow> bool" where
  "valid_entry rx e \<longleftrightarrow> 0 < le_ListID e \<and> valid_pattern rx (le_Pattern e) (le_MatchType e)"

definition valid_client :: "client \<Rightarrow> bool" where
  "valid_client c \<longleftrightarrow> c_Name c \<noteq> [] \<and> TrimSpace (c_Name c) = c_Name c \<and>
     TrimSpace (c_Address c) = c_Address c \<and> ParseAddr (c_Address c) \<noteq> None"

definition valid_group :: "group \<Rightarrow> bool" where
  "valid_group g \<longleftrightarrow> g_Name g \<noteq> [] \<and> TrimSpace (g_Name g) = g_Name g"

lemma valid_patternI:
  assumes "normalizeMatchType m = Inr k" and "normalizePattern rx p k = Inr p'"
  shows "valid_pattern rx p' k"
  using normalizeMatchType_Inr [OF assms(1)] normalizePattern_Inr [OF assms(2)]
  unfolding valid_pattern_def by auto

lemma validateList_Inr:
  assumes "validateList l = Inr l'"
  shows "valid_list l'" and "l_ID l' = l_ID l"
  using assms normalizeKind_Inr [of "l_Kind l"]
  by (auto simp: validateList_def valid_list_def Let_def bind_result_eq_Inr split: if_splits)

lemma validateRule_Inr:
  assumes "validateRule rx r = Inr r'"
  shows "valid_rule rx r'" and "ru_ID r' = ru_ID r" and "ru_Enabled r' = ru_Enabled r"
proof -
  obtain k m p where k: "normalizeKind (ru_Kind r) = Inr k" and m: "normalizeMatchType (ru_MatchType r) = Inr m"
    and p: "normalizePattern rx (ru_Pattern r) m = Inr p"
    and r': "r' = r\<lparr>ru_Kind := k, ru_MatchType := m, ru_Pattern := p, ru_Comment := TrimSpace (ru_Comment r)\<rparr>"
    using assms by (auto simp: validateRule_def bind_result_eq_Inr)
  show "valid_rule rx r'" using normalizeKind_Inr [OF k] valid_patternI [OF m p] by (simp add: valid_rule_def r')
  show "ru_ID r' = ru_ID r" and "ru_Enabled r' = ru_Enabled r" by (simp_all add: r')
qed

lemma validateListEntry_Inr:
  assumes "validateListEntry rx e = Inr e'"
  shows "valid_entry rx e'" and "le_ID e' = le_ID e" and "le_ListID e' = le_ListID e" and "le_Enabled e' = le_Enabled e"
proof -
  obtain m p where l: "0 < le_ListID e" and m: "normalizeMatchType (le_MatchType e) = Inr m"
    and p: "normalizePattern rx (le_Pattern e) m = Inr p" and e': "e' = e\<lparr>le_MatchType := m, le_Pattern := p\<rparr>"
    using assms by (auto simp: validateListEntry_def bind_result_eq_Inr split: if_splits)
  show "valid_entry rx e'" using l valid_patternI [OF m p] by (simp add: valid_entry_def e')
  show "le_ID e' = le_ID e" and "le_ListID e' = le_ListID e" and "le_Enabled e' = le_Enabled e" by (simp_all add: e')
qed

lemma validateClient_Inr:
  assumes "validateClient c = Inr c'"
  shows "valid_client c'" and "c_ID c' = c_ID c"
  using assms by (auto simp: validateClient_def valid_client_def Let_def split: if_splits)

lemma validateGroup_Inr:
  assumes "validateGroup g = Inr g'"
  shows "valid_group g'" and "g_ID g' = g_ID g"
  using assms by (auto simp: validateGroup_def valid_group_def Let_def split: if_splits)

lemma validateRule_fixed:
  assumes "valid_rule rx r" and "\<not> HasSuffix (ru_Pattern r) ''.''"
  shows "validateRule rx r = Inr r"
proof -
  have "normalizePattern rx (ru_Pattern r) (ru_MatchType r) = Inr (ru_Pattern r)"
    using assms by (auto simp: valid_rule_def valid_pattern_def normalizePattern_def TrimSuffix_fixed split: if_splits)
  moreover have "normalizeKind (ru_Kind r) = Inr (ru_Kind r)" using assms(1) by (auto simp: valid_rule_def)
  moreover have "normalizeMatchType (ru_MatchType r) = Inr (ru_MatchType r)"
    using assms(1) by (auto simp: valid_rule_def valid_pattern_def)
  ultimately show ?thesis using assms(1) by (simp add: validateRule_def valid_rule_def)
qed

section \<open>Properties\<close>

text \<open>
  Validation is a normalisation: an accepted rule has one of the two kinds and one of the three match
  types, a pattern that is not empty, has no outer white space and compiles when it is a regular
  expression and is lower case otherwise, the identifier and the enabled flag it came with; and
  validating it again changes nothing, unless its pattern still ends with a dot.
\<close>

theorem validateRule_normalises:
  assumes "validateRule rx r = Inr r'"
  shows "valid_rule rx r' \<and> ru_ID r' = ru_ID r \<and> ru_Enabled r' = ru_Enabled r \<and>
         (\<not> HasSuffix (ru_Pattern r') ''.'' \<longrightarrow> validateRule rx r' = Inr r')"
  using validateRule_Inr [OF assms] validateRule_fixed [of rx r'] by blast

theorem validateRule_normalises_witness:
  "valid_rule (\<lambda>_. None) \<lparr>ru_ID = 3, ru_Pattern = ''ads.example'', ru_Kind = KindDeny, ru_MatchType = MatchSuffix,
     ru_Enabled = True, ru_Comment = ''x''\<rparr>"
proof -
  have "validateRule (\<lambda>_. None) \<lparr>ru_ID = 3, ru_Pattern = ''Ads.Example.'', ru_Kind = '' DENY '', ru_MatchType = ''Suffix'',
      ru_Enabled = True, ru_Comment = '' x''\<rparr> =
    Inr \<lparr>ru_ID = 3, ru_Pattern = ''ads.example'', ru_Kind = KindDeny, ru_MatchType = MatchSuffix, ru_Enabled = True,
      ru_Comment = ''x''\<rparr>"
    by code_simp
  from validateRule_normalises [OF this] show ?thesis by blast
qed

text \<open>
  A regular expression loses a final dot before it is compiled, as if it were a domain name: when the
  pattern without it does not compile, the rule is rejected although the pattern given compiles.
\<close>

theorem regex_final_dot_is_stripped:
  assumes "rx (TrimSpace p) = None" and "normalizeKind (ru_Kind r) = Inr k" and "ru_MatchType r = MatchRegex"
    and "ru_Pattern r = p @ ''.''" and "TrimSpace p \<noteq> []"
  shows "validateRule rx r = Inl (Wrapw ErrInvalidInput ''invalid regex pattern'')"
  using assms by (simp add: validateRule_def normalizePattern_def invalid_def)

theorem regex_final_dot_is_stripped_witness:
  "validateRule (\<lambda>p. if p = ''^ads'' @ [CHR 0x5C] @ ''.'' then Some (\<lambda>s. HasPrefix s ''ads.'') else None)
      \<lparr>ru_ID = 0, ru_Pattern = ''^ads'' @ [CHR 0x5C] @ ''.'', ru_Kind = ''deny'', ru_MatchType = ''regex'', ru_Enabled = True, ru_Comment = []\<rparr> =
     Inl (Wrapw ErrInvalidInput ''invalid regex pattern'')"
  by (rule regex_final_dot_is_stripped [where p = "''^ads'' @ [CHR 0x5C]" and k = KindDeny])
    (simp_all add: go_eval normalizeKind_def filter_const_defs Let_def)

end
