(* ===== verification/Sql_Table.thy ===== *)
theory Sql_Table
  imports Go_Effects
begin

text \<open>
  What the repositories use of the SQLite database: tables with an \<open>INTEGER PRIMARY KEY
  AUTOINCREMENT\<close>, the statements over them, and connections. A table is its rows in the order of
  insertion and the last identifier handed out; a database is its tables and the outcomes of the
  driver calls to come, one of which each call consumes. A statement that fails leaves the tables
  as they were; a transaction that does not commit is rolled back.

  The locale \<open>id_table\<close> is the interface of a table of rows with an identifier; it is interpreted
  for each kind of row in the theories of the repositories.
\<close>

section \<open>Tables\<close>

record 'r sql_table =
  t_rows :: "'r list"
  t_seq :: int

definition empty_table :: "'r sql_table" where
  "empty_table = \<lparr>t_rows = [], t_seq = 0\<rparr>"

definition tbl_insert :: "(int \<Rightarrow> 'r \<Rightarrow> 'r) \<Rightarrow> 'r \<Rightarrow> 'r sql_table \<Rightarrow> int \<times> 'r sql_table" where
  "tbl_insert set_id r t =
     (t_seq t + 1, \<lparr>t_rows = t_rows t @ [set_id (t_seq t + 1) r], t_seq = t_seq t + 1\<rparr>)"

definition tbl_find :: "('r \<Rightarrow> bool) \<Rightarrow> 'r sql_table \<Rightarrow> 'r option" where
  "tbl_find p t = find p (t_rows t)"

text \<open>\<open>UPDATE ... WHERE p\<close> and \<open>DELETE ... WHERE p\<close> return the number of affected rows.\<close>

definition tbl_update :: "('r \<Rightarrow> bool) \<Rightarrow> ('r \<Rightarrow> 'r) \<Rightarrow> 'r sql_table \<Rightarrow> nat \<times> 'r sql_table" where
  "tbl_update p f t =
     (length (filter p (t_rows t)), t\<lparr>t_rows := map (\<lambda>r. if p r then f r else r) (t_rows t)\<rparr>)"

definition tbl_delete :: "('r \<Rightarrow> bool) \<Rightarrow> 'r sql_table \<Rightarrow> nat \<times> 'r sql_table" where
  "tbl_delete p t = (length (filter p (t_rows t)), t\<lparr>t_rows := filter (\<lambda>r. \<not> p r) (t_rows t)\<rparr>)"

definition tbl_select :: "('r \<Rightarrow> bool) \<Rightarrow> ('r \<Rightarrow> 'k::linorder) \<Rightarrow> 'r sql_table \<Rightarrow> 'r list" where
  "tbl_select p key t = sort_key key (filter p (t_rows t))"

section \<open>Connections\<close>

record 'tb db =
  db_tables :: 'tb
  db_faults :: "bool list"

definition db_error :: go_error where
  "db_error = ErrorString ''sqlite error''"

definition constraint_error :: "string \<Rightarrow> go_error" where
  "constraint_error what = ErrorString (''constraint failed: '' @ what)"

text \<open>A driver call that has no effect on the tables: reading a result, beginning a transaction.\<close>

definition sql_poll :: "go_error \<Rightarrow> ('tb db, unit) step" where
  "sql_poll err d = (case poll (db_faults d) of (b, fs) \<Rightarrow>
     (if b then Inl err else Inr (), d\<lparr>db_faults := fs\<rparr>))"

definition sql_run :: "('tb \<Rightarrow> ('a \<times> 'tb) result) \<Rightarrow> ('tb db, 'a) step" where
  "sql_run stmt = then_do (sql_poll db_error) (\<lambda>_ d.
     case stmt (db_tables d) of
       Inl e \<Rightarrow> (Inl e, d)
     | Inr (a, tb) \<Rightarrow> (Inr a, d\<lparr>db_tables := tb\<rparr>))"

definition sql_query :: "string \<Rightarrow> string \<Rightarrow> ('tb \<Rightarrow> 'a) \<Rightarrow> ('tb db, 'a) step" where
  "sql_query msg iter_msg q =
     then_do (wrap_err (Wrapf msg) (sql_poll db_error)) (\<lambda>_.
     then_do (get_state (\<lambda>d. q (db_tables d))) (\<lambda>rows.
     then_do (wrap_err (Wrapf iter_msg) (sql_poll db_error)) (\<lambda>_.
       ret rows)))"

definition sql_query_row :: "('tb \<Rightarrow> 'a) \<Rightarrow> ('tb db, 'a) step" where
  "sql_query_row q = then_do (sql_poll db_error) (\<lambda>_. get_state (\<lambda>d. q (db_tables d)))"

text \<open>
  A transaction: the tables are those at its beginning unless it ran to its end and committed; then
  they are the ones it built.
\<close>

definition sql_tx :: "string \<Rightarrow> string \<Rightarrow> ('tb db, 'a) step \<Rightarrow> ('tb db, 'a) step" where
  "sql_tx begin_msg commit_msg body =
     then_do (wrap_err (Wrapf begin_msg) (sql_poll db_error)) (\<lambda>_ d.
       case then_do body (\<lambda>a. then_do (wrap_err (Wrapf commit_msg) (sql_poll db_error)) (\<lambda>_. ret a)) d of
         (Inl e, d') \<Rightarrow> (Inl e, d'\<lparr>db_tables := db_tables d\<rparr>)
       | (Inr a, d') \<Rightarrow> (Inr a, d'))"

section \<open>Steps on the database\<close>

text \<open>A step that only reads the tables.\<close>

definition reads :: "('tb db, 'a) step \<Rightarrow> bool" where
  "reads m \<longleftrightarrow> (\<forall>d. db_tables (snd (m d)) = db_tables d)"

named_theorems reads_rules "steps that leave the tables alone"

lemma reads_poll [reads_rules, simp]: "reads (sql_poll e)"
  by (auto simp: reads_def sql_poll_def split: prod.splits)

lemma readsI: "(\<And>d r d'. m d = (r, d') \<Longrightarrow> db_tables d' = db_tables d) \<Longrightarrow> reads m"
  unfolding reads_def by (metis prod.collapse)

lemma readsD: "reads m \<Longrightarrow> m d = (r, d') \<Longrightarrow> db_tables d' = db_tables d"
  unfolding reads_def by (metis snd_conv)

lemma reads_then_do [reads_rules]:
  assumes "reads m" and "\<And>a. reads (f a)"
  shows "reads (then_do m f)"
proof (rule readsI)
  fix d r d' assume s: "then_do m f d = (r, d')"
  obtain r1 d1 where m: "m d = (r1, d1)" by fastforce
  show "db_tables d' = db_tables d"
    using s readsD [OF assms(1) m] readsD [OF assms(2)]
    by (cases r1) (auto simp: then_do_def m)
qed

lemma reads_ret [reads_rules, simp]: "reads (ret a)" "reads (fail e)" "reads (lift_result r)" "reads (get_state g)"
  by (simp_all add: reads_def)

lemma reads_wrap_err [reads_rules]: "reads m \<Longrightarrow> reads (wrap_err w m)"
  by (rule readsI) (auto simp: wrap_err_def dest: readsD split: prod.splits sum.splits)

lemma reads_query [reads_rules, simp]: "reads (sql_query a b q)" "reads (sql_query_row q)"
  unfolding sql_query_def sql_query_row_def by (intro reads_rules)+

lemma reads_if [reads_rules]: "reads m \<Longrightarrow> reads n \<Longrightarrow> reads (if c then m else n)"
  by simp

lemma reads_for_each [reads_rules]: "(\<And>x. reads (f x)) \<Longrightarrow> reads (for_each f xs)"
  by (induction xs) (auto intro!: reads_rules)

lemma reads_keeps: "reads m \<Longrightarrow> keeps (\<lambda>d. I (db_tables d)) m"
  by (simp add: reads_def keeps_def)

lemma sql_run_keeps:
  assumes "\<And>tb a tb'. I tb \<Longrightarrow> stmt tb = Inr (a, tb') \<Longrightarrow> I tb'"
  shows "keeps (\<lambda>d. I (db_tables d)) (sql_run stmt)"
  unfolding sql_run_def keeps_def then_do_def sql_poll_def
  using assms by (auto split: prod.splits sum.splits if_splits)

lemma keeps_tables_ret [step_rules]: "keeps I m \<Longrightarrow> keeps I (then_do m (\<lambda>_. ret a))"
  by (intro keeps_then_do) simp_all

lemma sql_tx_cases:
  fixes d :: "'tb db"
  assumes "sql_tx a b body d = (r, d')"
  obtains (error) e where "r = Inl e" and "db_tables d' = db_tables d"
  | (commit) x d1 d2 where "r = Inr x" and "db_tables d1 = db_tables d" and "body d1 = (Inr x, d2)"
      and "db_tables d' = db_tables d2"
proof -
  let ?start = "wrap_err (Wrapf a) (sql_poll db_error) :: ('tb db, unit) step"
  let ?commit = "wrap_err (Wrapf b) (sql_poll db_error) :: ('tb db, unit) step"
  obtain r1 d1 where b: "?start d = (r1, d1)" by fastforce
  have d1: "db_tables d1 = db_tables d" using readsD [OF reads_wrap_err [OF reads_poll] b] .
  obtain r2 d2 where c: "then_do body (\<lambda>x. then_do ?commit (\<lambda>_. ret x)) d1 = (r2, d2)" by fastforce
  show thesis
  proof (cases "\<exists>x. r1 = Inr () \<and> r2 = Inr x")
    case True
    then obtain x where r1: "r1 = Inr ()" and r2: "r2 = Inr x" by blast
    then obtain d3 d4 where body: "body d1 = (Inr x, d3)" and com: "?commit d3 = (Inr (), d2)"
      using c by (auto simp: then_do_eq_Inr)
    have "db_tables d2 = db_tables d3" using readsD [OF reads_wrap_err [OF reads_poll] com] .
    moreover have "r = Inr x" "d' = d2" using assms b c r1 r2 by (auto simp: sql_tx_def then_do_def)
    ultimately show thesis using commit d1 body by blast
  next
    case False
    then show thesis
      using assms b c d1 error by (cases r1; cases r2) (auto simp: sql_tx_def then_do_def)
  qed
qed

lemma sql_tx_keeps:
  assumes "keeps (\<lambda>d. I (db_tables d)) body"
  shows "keeps (\<lambda>d. I (db_tables d)) (sql_tx a b body)"
  unfolding keeps_def
proof (intro allI impI)
  fix d :: "'a db" assume I: "I (db_tables d)"
  obtain r d' where tx: "sql_tx a b body d = (r, d')" by fastforce
  then show "I (db_tables (snd (sql_tx a b body d)))"
  proof (cases rule: sql_tx_cases)
    case (commit x d1 d2)
    then show ?thesis using assms I tx unfolding keeps_def by (metis snd_conv)
  qed (use I tx in simp)
qed

text \<open>A failed transaction leaves the tables as they were.\<close>

lemma sql_tx_error:
  assumes "sql_tx a b body d = (Inl e, d')" shows "db_tables d' = db_tables d"
  using assms by (cases rule: sql_tx_cases) auto

lemma sql_run_ok:
  "sql_run stmt d = (Inr a, d') \<Longrightarrow> stmt (db_tables d) = Inr (a, db_tables d')"
  by (auto simp: sql_run_def then_do_def sql_poll_def split: prod.splits sum.splits if_splits)

lemma sql_query_ok: "sql_query m1 m2 q d = (Inr rows, d') \<Longrightarrow> rows = q (db_tables d) \<and> db_tables d' = db_tables d"
  by (auto simp: sql_query_def then_do_eq_Inr sql_poll_def split: prod.splits if_splits)

lemma sql_query_row_ok: "sql_query_row q d = (Inr row, d') \<Longrightarrow> row = q (db_tables d) \<and> db_tables d' = db_tables d"
  by (auto simp: sql_query_row_def then_do_eq_Inr sql_poll_def split: prod.splits if_splits)

lemma sql_poll_no_fault [simp]: "db_faults d = [] \<Longrightarrow> sql_poll e d = (Inr (), d)"
  by (cases d) (simp add: sql_poll_def)

lemma sql_run_no_fault:
  "db_faults d = [] \<Longrightarrow> sql_run stmt d =
     (case stmt (db_tables d) of Inl e \<Rightarrow> (Inl e, d) | Inr (a, tb) \<Rightarrow> (Inr a, d\<lparr>db_tables := tb\<rparr>))"
  by (simp add: sql_run_def then_do_def)

lemma sql_query_no_fault [simp]: "db_faults d = [] \<Longrightarrow> sql_query m1 m2 q d = (Inr (q (db_tables d)), d)"
  by (simp add: sql_query_def then_do_def wrap_err_def)

lemma sql_query_row_no_fault [simp]: "db_faults d = [] \<Longrightarrow> sql_query_row q d = (Inr (q (db_tables d)), d)"
  by (simp add: sql_query_row_def then_do_def)

section \<open>Tables with identifiers\<close>

definition table_ok :: "('r \<Rightarrow> int) \<Rightarrow> 'r sql_table \<Rightarrow> bool" where
  "table_ok id_of t \<longleftrightarrow> sorted_wrt (<) (map id_of (t_rows t)) \<and> (\<forall>r \<in> set (t_rows t). 0 < id_of r \<and> id_of r \<le> t_seq t) \<and>
     0 \<le> t_seq t"

text \<open>The statements on one row by its identifier.\<close>

definition row_by :: "('r \<Rightarrow> int) \<Rightarrow> int \<Rightarrow> 'r sql_table \<Rightarrow> 'r option" where
  "row_by id_of i t = tbl_find (\<lambda>r. id_of r = i) t"

locale id_table =
  fixes id_of :: "'r \<Rightarrow> int" and set_id :: "int \<Rightarrow> 'r \<Rightarrow> 'r"
  assumes id_set [simp]: "id_of (set_id i r) = i"
    and set_set [simp]: "set_id i (set_id j r) = set_id i r"
begin

lemma empty_ok: "table_ok id_of empty_table"
  by (simp add: table_ok_def empty_table_def)

lemma insert_ok: "table_ok id_of t \<Longrightarrow> table_ok id_of (snd (tbl_insert set_id r t))"
  by (fastforce simp: table_ok_def tbl_insert_def sorted_wrt_append)

lemma insert_fresh: "table_ok id_of t \<Longrightarrow> row_by id_of (fst (tbl_insert set_id r t)) t = None"
  by (fastforce simp: table_ok_def tbl_insert_def row_by_def tbl_find_def find_None_iff)

lemma insert_id_pos: "table_ok id_of t \<Longrightarrow> 0 < fst (tbl_insert set_id r t)"
  by (simp add: table_ok_def tbl_insert_def)

lemma row_by_insert:
  assumes "table_ok id_of t"
  shows "row_by id_of i (snd (tbl_insert set_id r t)) =
    (if i = fst (tbl_insert set_id r t) then Some (set_id i r) else row_by id_of i t)"
proof -
  have f: "find p (xs @ [x]) = (case find p xs of Some y \<Rightarrow> Some y | None \<Rightarrow> if p x then Some x else None)" for p xs and x :: 'r
    by (induction xs) auto
  show ?thesis
    using insert_fresh [OF assms, of r] unfolding row_by_def tbl_find_def
    by (auto simp: tbl_insert_def f split: option.splits)
qed

lemma update_ok:
  assumes "table_ok id_of t" and "\<And>r. r \<in> set (t_rows t) \<Longrightarrow> p r \<Longrightarrow> id_of (f r) = id_of r"
  shows "table_ok id_of (snd (tbl_update p f t))"
proof -
  have m: "map id_of (map (\<lambda>r. if p r then f r else r) (t_rows t)) = map id_of (t_rows t)"
    using assms(2) by auto
  have "\<forall>r \<in> set (map (\<lambda>r. if p r then f r else r) (t_rows t)). 0 < id_of r \<and> id_of r \<le> t_seq t"
    using assms by (auto simp: table_ok_def)
  then show ?thesis
    using assms(1) by (simp add: table_ok_def tbl_update_def m del: map_map set_map list.set_map)
qed

lemma sorted_wrt_filter_map: "sorted_wrt (<) (map id_of xs) \<Longrightarrow> sorted_wrt (<) (map id_of (filter p xs))"
  by (induction xs) auto

lemma delete_ok: "table_ok id_of t \<Longrightarrow> table_ok id_of (snd (tbl_delete p t))"
  by (auto simp: table_ok_def tbl_delete_def sorted_wrt_filter_map)

lemma row_by_Some: "row_by id_of i t = Some r \<Longrightarrow> r \<in> set (t_rows t) \<and> id_of r = i"
  by (auto simp: row_by_def tbl_find_def find_Some_iff)

lemma row_by_unique:
  assumes "table_ok id_of t" and "r \<in> set (t_rows t)"
  shows "row_by id_of (id_of r) t = Some r"
proof -
  have d: "distinct (map id_of (t_rows t))"
    using assms(1) by (simp add: table_ok_def strict_sorted_iff)
  obtain r' where r': "row_by id_of (id_of r) t = Some r'"
    using assms(2) by (cases "row_by id_of (id_of r) t") (auto simp: row_by_def tbl_find_def find_None_iff)
  then have "r' = r"
    using row_by_Some [OF r'] d assms(2) by (auto simp: distinct_map dest: inj_onD)
  then show ?thesis using r' by simp
qed

lemma update_count: "fst (tbl_update (\<lambda>r. id_of r = i) f t) = 0 \<longleftrightarrow> row_by id_of i t = None"
  by (auto simp: tbl_update_def row_by_def tbl_find_def find_None_iff filter_empty_conv)

lemma delete_count: "fst (tbl_delete (\<lambda>r. id_of r = i) t) = 0 \<longleftrightarrow> row_by id_of i t = None"
  by (auto simp: tbl_delete_def row_by_def tbl_find_def find_None_iff filter_empty_conv)

lemma row_by_update:
  assumes "\<And>r. id_of r = i \<Longrightarrow> id_of (f r) = i"
  shows "row_by id_of j (snd (tbl_update (\<lambda>r. id_of r = i) f t)) =
    (if j = i then map_option f (row_by id_of i t) else row_by id_of j t)"
proof -
  have "find (\<lambda>r. id_of r = j) (map (\<lambda>r. if id_of r = i then f r else r) xs) =
      (if j = i then map_option f (find (\<lambda>r. id_of r = i) xs) else find (\<lambda>r. id_of r = j) xs)" for xs
    using assms by (induction xs) auto
  then show ?thesis by (simp add: row_by_def tbl_find_def tbl_update_def)
qed

lemma row_by_delete:
  "row_by id_of j (snd (tbl_delete (\<lambda>r. id_of r = i) t)) = (if j = i then None else row_by id_of j t)"
proof -
  have "find (\<lambda>r. id_of r = j) (filter (\<lambda>r. id_of r \<noteq> i) xs) =
      (if j = i then None else find (\<lambda>r. id_of r = j) xs)" for xs
    by (induction xs) auto
  then show ?thesis by (simp add: row_by_def tbl_find_def tbl_delete_def)
qed

text \<open>Ordering by the identifier is the order of the rows.\<close>

lemma select_all: "table_ok id_of t \<Longrightarrow> tbl_select p id_of t = filter p (t_rows t)"
  unfolding tbl_select_def
  by (rule sort_key_id_if_sorted) (simp add: table_ok_def sorted_wrt_filter_map strict_sorted_imp_sorted)

lemma set_rows_insert [simp]:
  "set (t_rows (snd (tbl_insert set_id r t))) = insert (set_id (t_seq t + 1) r) (set (t_rows t))"
  by (simp add: tbl_insert_def)

end

text \<open>The identifiers in use.\<close>

definition ids :: "('r \<Rightarrow> int) \<Rightarrow> 'r sql_table \<Rightarrow> int set" where
  "ids id_of t = id_of ` set (t_rows t)"

lemma row_by_ids: "row_by id_of i t \<noteq> None \<longleftrightarrow> i \<in> ids id_of t"
  by (auto simp: row_by_def tbl_find_def find_None_iff ids_def image_iff)

lemma set_rows_update [simp]:
  "set (t_rows (snd (tbl_update p f t))) = (\<lambda>r. if p r then f r else r) ` set (t_rows t)"
  by (simp add: tbl_update_def)

lemma set_rows_delete [simp]: "set (t_rows (snd (tbl_delete p t))) = {r \<in> set (t_rows t). \<not> p r}"
  by (auto simp: tbl_delete_def)

lemma ids_update: "(\<And>r. p r \<Longrightarrow> id_of (f r) = id_of r) \<Longrightarrow> ids id_of (snd (tbl_update p f t)) = ids id_of t"
  unfolding ids_def set_rows_update image_image by (intro image_cong) auto

lemma ids_delete: "ids id_of (snd (tbl_delete (\<lambda>r. id_of r = i) t)) = ids id_of t - {i}"
  by (auto simp: ids_def)

context id_table begin

lemma ids_insert: "ids id_of (snd (tbl_insert set_id r t)) = insert (t_seq t + 1) (ids id_of t)"
  by (simp add: ids_def)

end

lemma delete_none: "fst (tbl_delete p t) = 0 \<Longrightarrow> snd (tbl_delete p t) = t"
  by (cases t) (auto simp: tbl_delete_def filter_empty_conv)

lemma distinct_map_filter_rows:
  "distinct (map f (t_rows t)) \<Longrightarrow> distinct (map f (t_rows (snd (tbl_delete p t))))"
  by (simp add: tbl_delete_def distinct_map_filter)

end
