(* ===== verification/Blocklist_Matcher.thy ===== *)
theory Blocklist_Matcher
  imports Blocklist_Parser "HOL-Library.Sublist"
begin

text \<open>
  \<open>internal/blocklist/matcher.go\<close> and \<open>bundled.go\<close>: the in-memory matcher, four sets of domains,
  and the bundled seed list it may include. The abstract specification at the end,
  \<open>spec_action\<close>, says by labels when a list of entries allows or blocks a name; the matcher
  implements it.
\<close>

definition normalizeStoredEntry :: "entry \<Rightarrow> (string \<times> string) option" where
  "normalizeStoredEntry entry =
     (if e_Kind entry = EntryExact then
        (case normalizeDomain (e_Domain entry) of
           None \<Rightarrow> None
         | Some domain \<Rightarrow>
             if HasPrefix domain ''*.'' \<or> isLocalHostsAlias domain then None
             else Some (domain, EntryExact))
      else if e_Kind entry = EntrySuffix then
        (let domain = TrimPrefix (normalizeDomainText (e_Domain entry)) ''*.'' in
         if \<not> validBlocklistDomain domain then None else Some (domain, EntrySuffix))
      else None)"

section \<open>The bundled list\<close>

definition BundledSeedSource :: string where
  "BundledSeedSource = ''builtin:seed''"

definition bundledSeed :: string where
  "bundledSeed = concat (map (\<lambda>l. l @ [newline])
     [''# Corehole bundled seed blocklist.'',
      ''# This is intentionally small and deterministic. It is not copied from a'',
      ''# third-party blocklist.'',
      ''blocked.example'', ''ads.google.com'', ''pagead2.googlesyndication.com'',
      ''googleads.g.doubleclick.net'', ''ad.doubleclick.net'', ''static.doubleclick.net'',
      ''www.google-analytics.com'', ''ssl.google-analytics.com'', ''analytics.google.com'',
      ''connect.facebook.net'', ''pixel.facebook.com'', ''sb.scorecardresearch.com''])"

text \<open>The package variable is initialised by this call, which panics on an error.\<close>

definition mustParseBundledEntries :: "entry list option" where
  "mustParseBundledEntries =
     (case fst (Parse (NewReader bundledSeed) BundledSeedSource []) of Inr entries \<Rightarrow> Some entries | Inl _ \<Rightarrow> None)"

definition parsedBundledEntries :: "entry list" where
  "parsedBundledEntries = the mustParseBundledEntries"

definition BundledEntries :: "entry list" where
  "BundledEntries = [] @ parsedBundledEntries"

definition EntriesWithBundled :: "entry list \<Rightarrow> entry list" where
  "EntriesWithBundled entries = parsedBundledEntries @ entries"

definition bundledEntryCount :: "bool \<Rightarrow> nat" where
  "bundledEntryCount enabled = (if \<not> enabled then 0 else length parsedBundledEntries)"

section \<open>The matcher\<close>

record memory_matcher =
  allowExact :: "string set"
  allowSuffix :: "string set"
  denyExact :: "string set"
  denySuffix :: "string set"

definition empty_matcher :: memory_matcher where
  "empty_matcher = \<lparr>allowExact = {}, allowSuffix = {}, denyExact = {}, denySuffix = {}\<rparr>"

text \<open>One round of the loop of \<open>NewMatcherWithBundled\<close>.\<close>

definition add_entry :: "entry \<Rightarrow> memory_matcher \<Rightarrow> memory_matcher" where
  "add_entry entry m =
     (case normalizeStoredEntry entry of
        None \<Rightarrow> m
      | Some (domain, kind) \<Rightarrow>
          if kind = EntrySuffix then
            (if e_Allow entry then m\<lparr>allowSuffix := insert domain (allowSuffix m)\<rparr>
             else m\<lparr>denySuffix := insert domain (denySuffix m)\<rparr>)
          else
            (if e_Allow entry then m\<lparr>allowExact := insert domain (allowExact m)\<rparr>
             else m\<lparr>denyExact := insert domain (denyExact m)\<rparr>))"

definition NewMatcherWithBundled :: "entry list \<Rightarrow> bool \<Rightarrow> memory_matcher" where
  "NewMatcherWithBundled entries bundled =
     (let entries = (if bundled then EntriesWithBundled entries else entries) in
      fold add_entry entries empty_matcher)"

text \<open>\<open>NewMatcher\<close> reads the package's default flag, an argument here.\<close>

definition NewMatcher :: "bool \<Rightarrow> entry list \<Rightarrow> memory_matcher" where
  "NewMatcher bundledDefault entries = NewMatcherWithBundled entries bundledDefault"

text \<open>The loop over the runes of the name: at each dot the rest of the name is looked up.\<close>

fun suffix_loop :: "string set \<Rightarrow> string \<Rightarrow> bool" where
  "suffix_loop suff [] = False"
| "suffix_loop suff (r # rest) =
     (if r \<noteq> CHR ''.'' then suffix_loop suff rest
      else if rest \<in> suff then True
      else suffix_loop suff rest)"

definition matches :: "string set \<Rightarrow> string set \<Rightarrow> string \<Rightarrow> bool" where
  "matches exact suff name =
     (if name \<in> exact then True else if name \<in> suff then True else suffix_loop suff name)"

definition Decide :: "memory_matcher \<Rightarrow> query \<Rightarrow> decision" where
  "Decide m q =
     (case normalizeDomain (q_Name q) of
        None \<Rightarrow> Decision ActionAllow ''invalid query name''
      | Some name \<Rightarrow>
          if matches (allowExact m) (allowSuffix m) name then Decision ActionAllow ''blocklist allow match''
          else if matches (denyExact m) (denySuffix m) name then Decision ActionBlock ''blocklist deny match''
          else Decision ActionAllow ''no blocklist match'')"

declare normalizeStoredEntry_def [go_eval] add_entry_def [go_eval] empty_matcher_def [go_eval]
  matches_def [go_eval]

interpretation matcher: decider "\<lambda>m q. Some (Decide m q)" "\<lambda>_. True"
  by unfold_locales (simp add: Decide_def split: option.split)

section \<open>The specification\<close>

text \<open>
  An entry covers a name when the name has the entry's labels, for an exact entry, or ends with
  them, for a suffix entry.
\<close>

definition covers :: "string \<Rightarrow> string \<Rightarrow> string \<Rightarrow> bool" where
  "covers kind domain name \<longleftrightarrow>
     (if kind = EntrySuffix then suffix (Split (CHR ''.'') domain) (Split (CHR ''.'') name)
      else Split (CHR ''.'') domain = Split (CHR ''.'') name)"

definition listed :: "bool \<Rightarrow> entry list \<Rightarrow> string \<Rightarrow> bool" where
  "listed allow entries name \<longleftrightarrow>
     (\<exists>e \<in> set entries. e_Allow e = allow \<and>
        (case normalizeStoredEntry e of None \<Rightarrow> False | Some (domain, kind) \<Rightarrow> covers kind domain name))"

definition spec_action :: "entry list \<Rightarrow> string \<Rightarrow> string" where
  "spec_action entries raw =
     (case normalizeDomain raw of
        None \<Rightarrow> ActionAllow
      | Some name \<Rightarrow>
          if listed True entries name then ActionAllow
          else if listed False entries name then ActionBlock
          else ActionAllow)"

section \<open>The matcher implements it\<close>

lemma suffix_loop_iff: "suffix_loop suff name \<longleftrightarrow> (\<exists>t d. name = t @ CHR ''.'' # d \<and> d \<in> suff)"
proof (induction name)
  case (Cons r rest)
  show ?case
    unfolding suffix_loop.simps Cons.IH by (auto simp: Cons_eq_append_conv)
qed simp

lemma matches_iff:
  "matches exact suff name \<longleftrightarrow>
     (\<exists>d \<in> exact. covers EntryExact d name) \<or> (\<exists>d \<in> suff. covers EntrySuffix d name)"
  unfolding matches_def suffix_loop_iff covers_def by (auto simp: Split_inj suffix_Split)

lemma normalizeStoredEntry_kind:
  "normalizeStoredEntry e = Some (d, k) \<Longrightarrow> k = e_Kind e \<and> (k = EntryExact \<or> k = EntrySuffix)"
  by (auto simp: normalizeStoredEntry_def Let_def split: if_splits option.splits)

lemma normalizeStoredEntry_valid:
  "normalizeStoredEntry e = Some (d, k) \<Longrightarrow> validBlocklistDomain d"
  by (auto simp: normalizeStoredEntry_def Let_def validBlocklistDomain_def
      dest: normalizeDomain_SomeD split: if_splits option.splits)

lemma normalizeStoredEntry_fixed:
  assumes "validBlocklistDomain (e_Domain e)" and "e_Kind e = EntryExact \<or> e_Kind e = EntrySuffix"
  shows "normalizeStoredEntry e = Some (e_Domain e, e_Kind e)"
  using assms validDomain_not_pattern [of "e_Domain e"]
  by (auto simp: normalizeStoredEntry_def validBlocklistDomain_def normalizeDomain_valid
      normalizeDomainText_valid TrimPrefix_fixed)

text \<open>The domains that a list of entries contributes to one of the four sets.\<close>

definition stored :: "bool \<Rightarrow> string \<Rightarrow> entry list \<Rightarrow> string set" where
  "stored allow kind entries =
     {d. \<exists>e \<in> set entries. e_Allow e = allow \<and> normalizeStoredEntry e = Some (d, kind)}"

lemma stored_Nil [simp]: "stored allow kind [] = {}"
  by (simp add: stored_def)

lemma stored_Cons:
  "stored allow kind (e # es) =
     (if e_Allow e = allow then {d. normalizeStoredEntry e = Some (d, kind)} else {}) \<union> stored allow kind es"
  by (auto simp: stored_def)

lemma fold_add_entry:
  "fold add_entry es m =
     \<lparr>allowExact = allowExact m \<union> stored True EntryExact es,
      allowSuffix = allowSuffix m \<union> stored True EntrySuffix es,
      denyExact = denyExact m \<union> stored False EntryExact es,
      denySuffix = denySuffix m \<union> stored False EntrySuffix es\<rparr>"
proof (induction es arbitrary: m)
  case (Cons e es)
  show ?case
  proof (cases "normalizeStoredEntry e")
    case None
    then have "add_entry e m = m" by (simp add: add_entry_def)
    then show ?thesis using None by (simp add: Cons.IH stored_Cons)
  next
    case (Some dk)
    obtain d k where dk: "dk = (d, k)" by (cases dk)
    have k: "k = EntryExact \<or> k = EntrySuffix" using normalizeStoredEntry_kind Some dk by blast
    have step: "fold add_entry (e # es) m = fold add_entry es (add_entry e m)" by simp
    show ?thesis
      unfolding step Cons.IH using k by (auto simp: add_entry_def stored_Cons Some dk)
  qed
qed simp

lemma stored_kind: "d \<in> stored allow k es \<Longrightarrow> k = EntryExact \<or> k = EntrySuffix"
  using normalizeStoredEntry_kind by (fastforce simp: stored_def)

lemma listed_stored:
  "listed allow entries name \<longleftrightarrow>
     (\<exists>d \<in> stored allow EntryExact entries. covers EntryExact d name) \<or>
     (\<exists>d \<in> stored allow EntrySuffix entries. covers EntrySuffix d name)"
proof -
  have "listed allow entries name \<longleftrightarrow>
          (\<exists>e \<in> set entries. e_Allow e = allow \<and>
             (\<exists>d k. normalizeStoredEntry e = Some (d, k) \<and> covers k d name))"
    unfolding listed_def by (intro bex_cong refl) (auto split: option.splits)
  also have "\<dots> \<longleftrightarrow> (\<exists>k d. d \<in> stored allow k entries \<and> covers k d name)"
    unfolding stored_def by blast
  finally show ?thesis using stored_kind [of _ allow _ entries] by metis
qed

lemma NewMatcher_matches:
  "matches (allowExact (NewMatcherWithBundled es False)) (allowSuffix (NewMatcherWithBundled es False)) name
     \<longleftrightarrow> listed True es name"
  "matches (denyExact (NewMatcherWithBundled es False)) (denySuffix (NewMatcherWithBundled es False)) name
     \<longleftrightarrow> listed False es name"
  by (simp_all add: NewMatcherWithBundled_def fold_add_entry empty_matcher_def matches_iff listed_stored)

lemma NewMatcher_bundled:
  "NewMatcherWithBundled es True = NewMatcherWithBundled (EntriesWithBundled es) False"
  by (simp add: NewMatcherWithBundled_def)

lemma d_Action_Decide:
  "d_Action (Decide (NewMatcherWithBundled es bundled) q) =
     spec_action (if bundled then EntriesWithBundled es else es) (q_Name q)"
  by (cases bundled)
    (simp_all add: NewMatcher_bundled Decide_def spec_action_def NewMatcher_matches split: option.split)

lemma spec_action_cong:
  "set es = set es' \<Longrightarrow> spec_action es raw = spec_action es' raw"
proof -
  assume "set es = set es'"
  then have "listed a es = listed a es'" for a by (simp add: listed_def fun_eq_iff)
  then show ?thesis by (simp only: spec_action_def)
qed

section \<open>Properties\<close>

lemma matcher_spec:
  "d_Action (Decide (NewMatcherWithBundled es bundled) q) =
     spec_action ((if bundled then parsedBundledEntries else []) @ es) (q_Name q)"
  by (simp add: d_Action_Decide EntriesWithBundled_def)

text \<open>
  C1: The matcher implements the specification by labels: for any list of entries in any order, with
  or without the bundled list, the action of \<open>Decide\<close> is the one of \<open>spec_action\<close>: an allow entry
  that covers the name wins over every deny entry, a deny entry that covers it blocks it, and
  everything else, an invalid name included, is allowed.
\<close>

theorem matcher_implements_spec:
  "d_Action (Decide (NewMatcherWithBundled es bundled) q) =
     spec_action ((if bundled then parsedBundledEntries else []) @ es) (q_Name q)"
  by (rule matcher_spec)

lemma bundled_lines:
  "raw_lines bundledSeed =
     [''# Corehole bundled seed blocklist.'',
      ''# This is intentionally small and deterministic. It is not copied from a'',
      ''# third-party blocklist.'',
      ''blocked.example'', ''ads.google.com'', ''pagead2.googlesyndication.com'',
      ''googleads.g.doubleclick.net'', ''ad.doubleclick.net'', ''static.doubleclick.net'',
      ''www.google-analytics.com'', ''ssl.google-analytics.com'', ''analytics.google.com'',
      ''connect.facebook.net'', ''pixel.facebook.com'', ''sb.scorecardresearch.com'']"
  by (simp add: bundledSeed_def raw_lines_def newline_def)

definition bundled_entry :: "string \<Rightarrow> entry" where
  "bundled_entry d = \<lparr>e_Domain = d, e_Kind = EntryExact, e_Allow = False, e_Source = BundledSeedSource\<rparr>"

lemma bundled_parses:
  "mustParseBundledEntries =
     Some (map bundled_entry
       [''blocked.example'', ''ads.google.com'', ''pagead2.googlesyndication.com'',
        ''googleads.g.doubleclick.net'', ''ad.doubleclick.net'', ''static.doubleclick.net'',
        ''www.google-analytics.com'', ''ssl.google-analytics.com'', ''analytics.google.com'',
        ''connect.facebook.net'', ''pixel.facebook.com'', ''sb.scorecardresearch.com''])"
proof -
  have "\<forall>l \<in> set (raw_lines bundledSeed). length l < MaxScanTokenSize"
    by (simp add: bundled_lines MaxScanTokenSize_def)
  then have "mustParseBundledEntries =
      Some (concat (map (\<lambda>l. parseLine (dropCR l) BundledSeedSource) (raw_lines bundledSeed)))"
    by (simp add: mustParseBundledEntries_def Parse_no_fault)
  then show ?thesis
    by (simp only: bundled_lines list.map concat.simps)
      (simp add: go_eval Let_def bundled_entry_def del: raw_lines_def)
qed

lemma parsed_not_allow: "Parse r source fs = (Inr es, fs') \<Longrightarrow> \<not> listed True es name"
  using Parse_entries by (auto simp: listed_def)

lemma bundled_Parse: "Parse (NewReader bundledSeed) BundledSeedSource [] = (Inr parsedBundledEntries, snd (Parse (NewReader bundledSeed) BundledSeedSource []))"
  using bundled_parses unfolding parsedBundledEntries_def
  by (auto simp: mustParseBundledEntries_def prod_eq_iff split: sum.splits)

lemma listed_Nil [simp]: "\<not> listed a [] name"
  by (simp add: listed_def)

lemma listed_append: "listed a (es @ es') name \<longleftrightarrow> listed a es name \<or> listed a es' name"
  by (auto simp: listed_def)

text \<open>
  What the parser reads, the matcher enforces: when a list parses, every name that one of its
  entries covers is blocked by the matcher built from it, whether or not the bundled list is included.
\<close>

theorem parsed_entry_blocks:
  assumes "Parse r source fs = (Inr es, fs')" and "e \<in> set es"
    and "normalizeDomain (q_Name q) = Some name" and "covers (e_Kind e) (e_Domain e) name"
  shows "Decide (NewMatcherWithBundled es bundled) q = Decision ActionBlock ''blocklist deny match''"
proof -
  let ?es = "(if bundled then parsedBundledEntries else []) @ es"
  have e: "validBlocklistDomain (e_Domain e)" "e_Kind e = EntryExact \<or> e_Kind e = EntrySuffix" "\<not> e_Allow e"
    using Parse_entries [OF assms(1,2)] by auto
  have "listed False es name"
    unfolding listed_def using normalizeStoredEntry_fixed [OF e(1,2)] e(3) assms(2,4)
    by (intro bexI [of _ e]) simp_all
  moreover have "\<not> listed True ?es name"
    using parsed_not_allow [OF assms(1)] parsed_not_allow [OF bundled_Parse] by (simp add: listed_append)
  ultimately have "d_Action (Decide (NewMatcherWithBundled es bundled) q) = ActionBlock"
    using assms(3) unfolding matcher_spec by (simp add: spec_action_def listed_append)
  then show ?thesis by (auto simp: Decide_def split: option.splits if_splits)
qed

theorem parsed_entry_blocks_witness:
  "Decide (NewMatcherWithBundled
      [\<lparr>e_Domain = ''ads.example'', e_Kind = EntrySuffix, e_Allow = False, e_Source = ''l''\<rparr>] True)
      \<lparr>q_Name = ''Tracker.ADS.example.'', q_Type = 1, q_ClientIP = AddrInvalid, q_Timestamp = None\<rparr> =
   Decision ActionBlock ''blocklist deny match''"
proof (rule parsed_entry_blocks [where r = "NewReader ''||ads.example^''" and fs = "[]" and fs' = "[]"])
  show "Parse (NewReader ''||ads.example^'') ''l'' [] =
      (Inr [\<lparr>e_Domain = ''ads.example'', e_Kind = EntrySuffix, e_Allow = False, e_Source = ''l''\<rparr>], [])"
    by code_simp
  show "normalizeDomain (q_Name \<lparr>q_Name = ''Tracker.ADS.example.'', q_Type = 1,
      q_ClientIP = AddrInvalid, q_Timestamp = None\<rparr>) = Some ''tracker.ads.example''"
    by code_simp
  show "covers (e_Kind \<lparr>e_Domain = ''ads.example'', e_Kind = EntrySuffix, e_Allow = False, e_Source = ''l''\<rparr>)
      (e_Domain \<lparr>e_Domain = ''ads.example'', e_Kind = EntrySuffix, e_Allow = False, e_Source = ''l''\<rparr>)
      ''tracker.ads.example''"
    by code_simp
qed simp

text \<open>
  The package initialisation does not panic: the bundled seed parses to its twelve domains,
  as exact deny entries, and a matcher with the bundled list blocks each of them.
\<close>

theorem bundled_list_loads:
  "mustParseBundledEntries = Some parsedBundledEntries \<and> bundledEntryCount True = 12 \<and>
   list_all (\<lambda>d. spec_action parsedBundledEntries d = ActionBlock) (map e_Domain parsedBundledEntries)"
  unfolding list_all_iff
proof (intro conjI ballI)
  show some: "mustParseBundledEntries = Some parsedBundledEntries"
    by (simp add: bundled_parses parsedBundledEntries_def)
  show "bundledEntryCount True = 12"
    by (simp add: bundledEntryCount_def parsedBundledEntries_def bundled_parses)
  fix d assume "d \<in> set (map e_Domain parsedBundledEntries)"
  then obtain e where e: "e \<in> set parsedBundledEntries" and d: "d = e_Domain e" by auto
  have v: "validBlocklistDomain d" "e_Kind e = EntryExact \<or> e_Kind e = EntrySuffix" "\<not> e_Allow e"
    using Parse_entries [OF bundled_Parse e] d by auto
  then have "normalizeDomain d = Some d" by (simp add: normalizeDomain_valid validBlocklistDomain_def)
  moreover have "listed False parsedBundledEntries d"
    unfolding listed_def using normalizeStoredEntry_fixed [of e] v e d
    by (intro bexI [of _ e]) (auto simp: covers_def)
  moreover have "\<not> listed True parsedBundledEntries d" by (rule parsed_not_allow [OF bundled_Parse])
  ultimately show "spec_action parsedBundledEntries d = ActionBlock" by (simp add: spec_action_def)
qed

end
