(* ===== verification/Blocklist_Manager.thy ===== *)
theory Blocklist_Manager
  imports Blocklist_Matcher
begin

text \<open>
  \<open>internal/blocklist/manager.go\<close>: the manager keeps the matcher that answers queries and the
  metadata of the last reload. \<open>Reload\<close> reads every path and every source, and replaces the
  matcher only when all of them succeeded. The environment is a record: the files (none when
  \<open>os.Open\<close> fails), the outcomes of the context's polls, and the state the sources act on. The
  locks serialise the operations; an operation is one step here.
\<close>

record disk_file =
  f_reader :: reader
  f_close_err :: "go_error option"

record 'w io =
  io_files :: "string \<Rightarrow> go_error + disk_file"
  io_faults :: "bool list"
  io_world :: 'w

definition on_faults :: "(bool list, 'a) step \<Rightarrow> ('w io, 'a) step" where
  "on_faults m w = (case m (io_faults w) of (r, fs) \<Rightarrow> (r, w\<lparr>io_faults := fs\<rparr>))"

definition on_world :: "('w, 'a) step \<Rightarrow> ('w io, 'a) step" where
  "on_world m w = (case m (io_world w) of (r, s) \<Rightarrow> (r, w\<lparr>io_world := s\<rparr>))"

datatype reload_status = ReloadStatusNeverLoaded | ReloadStatusOK | ReloadStatusError

record snapshot =
  sn_Paths :: "string list"
  sn_Bundled :: bool
  sn_EntryCount :: nat
  sn_LastReload :: time
  sn_LastError :: string
  sn_Status :: reload_status

type_synonym parser = "reader \<Rightarrow> string \<Rightarrow> (bool list, entry list) step"
type_synonym 'w entry_source = "('w, entry list) step"

record 'w manager =
  m_paths :: "string list"
  m_parser :: parser
  m_bundled :: bool
  m_sources :: "'w entry_source list"
  m_current :: memory_matcher
  m_meta :: snapshot

definition newManager :: "string list \<Rightarrow> parser option \<Rightarrow> bool \<Rightarrow> 'w entry_source list \<Rightarrow> 'w manager" where
  "newManager paths parser bundled sources =
     \<lparr>m_paths = paths,
      m_parser = (case parser of None \<Rightarrow> Parse | Some p \<Rightarrow> p),
      m_bundled = bundled,
      m_sources = sources,
      m_current = NewMatcherWithBundled [] bundled,
      m_meta = \<lparr>sn_Paths = paths, sn_Bundled = bundled, sn_EntryCount = 0, sn_LastReload = None,
                sn_LastError = [], sn_Status = ReloadStatusNeverLoaded\<rparr>\<rparr>"

definition NewManagerWithBundledAndSources :: "string list \<Rightarrow> bool \<Rightarrow> 'w entry_source list \<Rightarrow> 'w manager" where
  "NewManagerWithBundledAndSources paths bundled sources = newManager paths None bundled sources"

definition NewManagerWithBundled :: "string list \<Rightarrow> bool \<Rightarrow> 'w manager" where
  "NewManagerWithBundled paths bundled = newManager paths None bundled []"

definition manager_Decide :: "'w manager \<Rightarrow> query \<Rightarrow> decision" where
  "manager_Decide m q = Decide (m_current m) q"

section \<open>Reloading\<close>

definition load_path :: "'w manager \<Rightarrow> string \<Rightarrow> ('w io, entry list) step" where
  "load_path m path =
     then_do (on_faults ctx_err) (\<lambda>_.
     then_do (get_state (\<lambda>w. io_files w path)) (\<lambda>opened.
       case opened of
         Inl err \<Rightarrow> fail (Wrapf (''open blocklist '' @ path) err)
       | Inr f \<Rightarrow>
           then_do (wrap_err (Wrapf (''parse blocklist '' @ path))
                     (on_faults (m_parser m (f_reader f) path))) (\<lambda>parsed.
             case f_close_err f of
               Some closeErr \<Rightarrow> fail (Wrapf (''close blocklist '' @ path) closeErr)
             | None \<Rightarrow> ret parsed)))"

definition load_source :: "'w entry_source \<Rightarrow> ('w io, entry list) step" where
  "load_source source = then_do (on_faults ctx_err) (\<lambda>_. on_world source)"

definition loadEntries :: "'w manager \<Rightarrow> ('w io, entry list) step" where
  "loadEntries m =
     then_do (for_each (load_path m) (m_paths m)) (\<lambda>from_paths.
     then_do (for_each load_source (m_sources m)) (\<lambda>from_sources.
       ret (concat from_paths @ concat from_sources)))"

definition recordReloadSuccess :: "nat \<Rightarrow> time \<Rightarrow> snapshot \<Rightarrow> snapshot" where
  "recordReloadSuccess entryCount at meta =
     meta\<lparr>sn_EntryCount := entryCount, sn_LastReload := at, sn_LastError := [], sn_Status := ReloadStatusOK\<rparr>"

definition recordReloadError :: "go_error \<Rightarrow> time \<Rightarrow> snapshot \<Rightarrow> snapshot" where
  "recordReloadError err at meta =
     meta\<lparr>sn_LastReload := at, sn_LastError := err_text err, sn_Status := ReloadStatusError\<rparr>"

definition manager_Reload :: "time \<Rightarrow> 'w manager \<Rightarrow> 'w io \<Rightarrow> unit result \<times> 'w manager \<times> 'w io" where
  "manager_Reload now m w =
     (case loadEntries m w of
        (Inl err, w') \<Rightarrow> (Inl err, m\<lparr>m_meta := recordReloadError err now (m_meta m)\<rparr>, w')
      | (Inr entries, w') \<Rightarrow>
          (Inr (),
           m\<lparr>m_current := NewMatcherWithBundled entries (m_bundled m),
             m_meta := recordReloadSuccess (length entries + bundledEntryCount (m_bundled m)) now (m_meta m)\<rparr>,
           w'))"

definition manager_Snapshot :: "'w manager \<Rightarrow> snapshot" where
  "manager_Snapshot m = m_meta m"

interpretation manager: decider "\<lambda>m q. Some (manager_Decide m q)" "\<lambda>_. True"
  using matcher.decides by unfold_locales (simp add: manager_Decide_def)

section \<open>Entry sources\<close>

text \<open>
  The \<open>EntrySource\<close> interface: reading the entries does not change what the source is about, and
  a successful read returns the entries that its contents stand for.
\<close>

locale entry_source = read_source Entries contents listing
  for Entries :: "('w, entry list) step" and contents :: "'w \<Rightarrow> 'c" and listing :: "'c \<Rightarrow> entry list"
begin

lemma load_source_ok:
  assumes "load_source Entries w = (Inr es, w')"
  shows "es = listing (contents (io_world w))" and "contents (io_world w') = contents (io_world w)"
    and "io_files w' = io_files w"
proof -
  obtain fs where e: "Entries (io_world w) = (Inr es, io_world w')" and f: "io_files w' = io_files w"
    using assms
    by (auto simp: load_source_def then_do_eq_Inr on_faults_def on_world_def split: prod.splits)
  show "es = listing (contents (io_world w))" by (rule read_listing [OF e])
  show "contents (io_world w') = contents (io_world w)" using read_contents [of "io_world w"] e by simp
  show "io_files w' = io_files w" by (rule f)
qed

text \<open>A manager without paths and with this source: what it loads is the source's listing.\<close>

lemma loadEntries_source:
  assumes "m_paths m = []" and "m_sources m = [Entries]" and "loadEntries m w = (Inr es, w')"
  shows "es = listing (contents (io_world w))"
  using assms load_source_ok(1) by (auto simp: loadEntries_def then_do_eq_Inr)

lemma reload_source_decides:
  assumes "m_paths m = []" and "m_sources m = [Entries]"
    and "manager_Reload now m w = (Inr (), m', w')"
  shows "d_Action (manager_Decide m' q) =
         spec_action ((if m_bundled m then parsedBundledEntries else []) @ listing (contents (io_world w))) (q_Name q)"
proof -
  obtain es where es: "loadEntries m w = (Inr es, w')"
    and m': "m_current m' = NewMatcherWithBundled es (m_bundled m)"
    using assms(3) by (auto simp: manager_Reload_def split: prod.splits sum.splits)
  show ?thesis
    using loadEntries_source [OF assms(1,2) es]
    by (simp add: manager_Decide_def m' d_Action_Decide EntriesWithBundled_def)
qed

end

section \<open>Facts\<close>

lemma manager_Reload_error:
  assumes "manager_Reload now m w = (Inl err, m', w')"
  shows "m' = m\<lparr>m_meta := recordReloadError err now (m_meta m)\<rparr>"
  using assms by (auto simp: manager_Reload_def split: prod.splits sum.splits)

lemma manager_Reload_ok:
  assumes "manager_Reload now m w = (Inr u, m', w')"
  obtains entries where "loadEntries m w = (Inr entries, w')"
    and "m' = m\<lparr>m_current := NewMatcherWithBundled entries (m_bundled m),
                m_meta := recordReloadSuccess (length entries + bundledEntryCount (m_bundled m)) now (m_meta m)\<rparr>"
  using assms by (auto simp: manager_Reload_def split: prod.splits sum.splits)

section \<open>Properties\<close>

text \<open>
  A failed reload is atomic: whatever path, parse, close, source or context error stops it, every
  query is decided as before, the count of entries stays that of the matcher in use, and the
  metadata report the error and its time.
\<close>

theorem reload_error_keeps_matcher:
  assumes "manager_Reload now m w = (Inl err, m', w')"
  shows "(\<forall>q. manager_Decide m' q = manager_Decide m q) \<and>
         sn_EntryCount (manager_Snapshot m') = sn_EntryCount (manager_Snapshot m) \<and>
         sn_Status (manager_Snapshot m') = ReloadStatusError \<and>
         sn_LastError (manager_Snapshot m') = err_text err \<and>
         sn_LastReload (manager_Snapshot m') = now \<and>
         m_paths m' = m_paths m \<and> m_sources m' = m_sources m \<and> m_bundled m' = m_bundled m"
  using manager_Reload_error [OF assms]
  by (simp add: manager_Decide_def manager_Snapshot_def recordReloadError_def)

definition witness_manager :: "unit manager" where
  "witness_manager = NewManagerWithBundled [''/etc/hosts.block''] False"

theorem reload_error_keeps_matcher_witness:
  "sn_Status (manager_Snapshot (witness_manager\<lparr>m_meta :=
      recordReloadError (Wrapf ''open blocklist /etc/hosts.block'' (ErrorString ''permission denied'')) (Some 7)
        (m_meta witness_manager)\<rparr>)) = ReloadStatusError"
proof -
  let ?w = "\<lparr>io_files = \<lambda>_. Inl (ErrorString ''permission denied''), io_faults = [], io_world = ()\<rparr>"
  have "manager_Reload (Some 7) witness_manager ?w =
     (Inl (Wrapf ''open blocklist /etc/hosts.block'' (ErrorString ''permission denied'')),
      witness_manager\<lparr>m_meta :=
        recordReloadError (Wrapf ''open blocklist /etc/hosts.block'' (ErrorString ''permission denied'')) (Some 7)
          (m_meta witness_manager)\<rparr>, ?w)"
    by (simp add: manager_Reload_def loadEntries_def load_path_def on_faults_def then_do_def
        witness_manager_def NewManagerWithBundled_def newManager_def)
  from reload_error_keeps_matcher [OF this] show ?thesis by blast
qed

text \<open>The entries of a text file, and a file that opens, reads and closes without an error.\<close>

definition text_entries :: "string \<Rightarrow> string \<Rightarrow> entry list" where
  "text_entries path text = concat (map (\<lambda>l. parseLine (dropCR l) path) (raw_lines text))"

definition readable :: "disk_file \<Rightarrow> bool" where
  "readable f \<longleftrightarrow> r_err (f_reader f) = None \<and> f_close_err f = None \<and>
     (\<forall>l \<in> set (raw_lines (r_text (f_reader f))). length l < MaxScanTokenSize)"

lemma load_path_ok:
  assumes "m_parser m = Parse" and "io_faults w = []" and "io_files w path = Inr f" and "readable f"
  shows "load_path m path w = (Inr (text_entries path (r_text (f_reader f))), w)"
proof -
  have r: "f_reader f = NewReader (r_text (f_reader f))"
    using assms(4) by (simp add: readable_def NewReader_def)
  have "Parse (f_reader f) path [] = (Inr (text_entries path (r_text (f_reader f))), [])"
    by (subst r) (use assms(4) Parse_no_fault in \<open>simp add: readable_def text_entries_def\<close>)
  then show ?thesis
    using assms by (simp add: load_path_def then_do_def on_faults_def wrap_err_def readable_def)
qed

lemma load_paths_ok:
  assumes "m_parser m = Parse" and "io_faults w = []"
    and "\<forall>p \<in> set ps. io_files w p = Inr (files p) \<and> readable (files p)"
  shows "for_each (load_path m) ps w =
         (Inr (map (\<lambda>p. text_entries p (r_text (f_reader (files p)))) ps), w)"
  using assms(3)
proof (induction ps)
  case (Cons p ps)
  have "load_path m p w = (Inr (text_entries p (r_text (f_reader (files p)))), w)"
    by (rule load_path_ok) (use assms Cons.prems in simp_all)
  moreover have "for_each (load_path m) ps w =
      (Inr (map (\<lambda>p. text_entries p (r_text (f_reader (files p)))) ps), w)"
    using Cons by simp
  ultimately show ?case by (simp add: then_do_def)
qed simp

text \<open>
  A reload succeeds whenever every configured file opens, reads and closes, no line overflows the
  scanner's buffer and the context is live; it then decides by the specification over the entries
  of all files in the order of the paths, after the bundled ones, and reports their number.
\<close>

theorem reload_reads_every_path:
  assumes "m_parser m = Parse" and "m_sources m = []" and "io_faults w = []"
    and "\<forall>p \<in> set (m_paths m). io_files w p = Inr (files p) \<and> readable (files p)"
    and "es = concat (map (\<lambda>p. text_entries p (r_text (f_reader (files p)))) (m_paths m))"
  shows "\<exists>m'. manager_Reload now m w = (Inr (), m', w) \<and>
           (\<forall>q. d_Action (manager_Decide m' q) =
              spec_action ((if m_bundled m then parsedBundledEntries else []) @ es) (q_Name q)) \<and>
           sn_Status (manager_Snapshot m') = ReloadStatusOK \<and> sn_LastError (manager_Snapshot m') = [] \<and>
           sn_EntryCount (manager_Snapshot m') = length es + bundledEntryCount (m_bundled m)"
proof -
  have "loadEntries m w = (Inr es, w)"
    using load_paths_ok [OF assms(1,3,4)] assms(2,5) by (simp add: loadEntries_def then_do_def)
  then show ?thesis
    by (simp add: manager_Reload_def manager_Decide_def manager_Snapshot_def recordReloadSuccess_def
        d_Action_Decide EntriesWithBundled_def)
qed

theorem reload_reads_every_path_witness:
  "\<exists>m'. manager_Reload (Some 7) witness_manager
       \<lparr>io_files = \<lambda>_. Inr \<lparr>f_reader = NewReader ''0.0.0.0 ads.example'', f_close_err = None\<rparr>,
        io_faults = [], io_world = ()\<rparr> =
     (Inr (), m', \<lparr>io_files = \<lambda>_. Inr \<lparr>f_reader = NewReader ''0.0.0.0 ads.example'', f_close_err = None\<rparr>,
        io_faults = [], io_world = ()\<rparr>) \<and>
     sn_EntryCount (manager_Snapshot m') = 1"
proof -
  let ?f = "\<lparr>f_reader = NewReader ''0.0.0.0 ads.example'', f_close_err = None\<rparr>"
  let ?es = "[\<lparr>e_Domain = ''ads.example'', e_Kind = EntryExact, e_Allow = False, e_Source = ''/etc/hosts.block''\<rparr>]"
  have len: "length (''0.0.0.0 ads.example'') < MaxScanTokenSize" by (simp add: MaxScanTokenSize_def)
  have lines: "raw_lines ''0.0.0.0 ads.example'' = [''0.0.0.0 ads.example'']" by code_simp
  have es: "text_entries ''/etc/hosts.block'' ''0.0.0.0 ads.example'' = ?es" by code_simp
  show ?thesis
    using reload_reads_every_path [of witness_manager
        "\<lparr>io_files = \<lambda>_. Inr ?f, io_faults = [], io_world = ()\<rparr>" "\<lambda>_. ?f" ?es "Some 7"] es lines len
    by (auto simp: witness_manager_def NewManagerWithBundled_def newManager_def readable_def NewReader_def
        bundledEntryCount_def)
qed

end
