(* ===== verification/Filter_Repository.thy ===== *)
theory Filter_Repository
  imports Filter_Types Sql_Table Blocklist_Manager
begin

text \<open>
  \<open>internal/filter/repository.go\<close> over the tables of \<open>internal/storage/storage.go\<close> (migration 5).
  Each method is a step on the database: its validation, its SQL statement with the constraints of
  the schema (\<open>CHECK\<close>, \<open>UNIQUE\<close>, foreign keys with \<open>ON DELETE CASCADE\<close>), the errors of the driver
  at every call, and the row it reads back. Times are stored as values (\<open>formatNullableTime\<close> and the
  parsing in \<open>scanList\<close> are inverse); booleans likewise. The join tables are lists of pairs
  \<open>(owner id, group id)\<close>.
\<close>

record filter_db =
  f_lists :: "filter_list sql_table"
  f_entries :: "list_entry sql_table"
  f_rules :: "rule sql_table"
  f_clients :: "client sql_table"
  f_groups :: "group sql_table"
  f_client_groups :: "(int \<times> int) list"
  f_list_groups :: "(int \<times> int) list"
  f_rule_groups :: "(int \<times> int) list"

definition empty_filter_db :: filter_db where
  "empty_filter_db =
     \<lparr>f_lists = empty_table, f_entries = empty_table, f_rules = empty_table, f_clients = empty_table,
      f_groups = empty_table, f_client_groups = [], f_list_groups = [], f_rule_groups = []\<rparr>"

definition set_l_ID :: "int \<Rightarrow> filter_list \<Rightarrow> filter_list" where
  "set_l_ID i r = r\<lparr>l_ID := i\<rparr>"

definition set_le_ID :: "int \<Rightarrow> list_entry \<Rightarrow> list_entry" where
  "set_le_ID i r = r\<lparr>le_ID := i\<rparr>"

definition set_ru_ID :: "int \<Rightarrow> rule \<Rightarrow> rule" where
  "set_ru_ID i r = r\<lparr>ru_ID := i\<rparr>"

definition set_c_ID :: "int \<Rightarrow> client \<Rightarrow> client" where
  "set_c_ID i r = r\<lparr>c_ID := i\<rparr>"

definition set_g_ID :: "int \<Rightarrow> group \<Rightarrow> group" where
  "set_g_ID i r = r\<lparr>g_ID := i\<rparr>"

interpretation lists: id_table l_ID set_l_ID
  by unfold_locales (simp_all add: set_l_ID_def)

interpretation entries: id_table le_ID set_le_ID
  by unfold_locales (simp_all add: set_le_ID_def)

interpretation rules: id_table ru_ID set_ru_ID
  by unfold_locales (simp_all add: set_ru_ID_def)

interpretation clients: id_table c_ID set_c_ID
  by unfold_locales (simp_all add: set_c_ID_def)

interpretation groups: id_table g_ID set_g_ID
  by unfold_locales (simp_all add: set_g_ID_def)

type_synonym 'a repo = "(filter_db db, 'a) step"

section \<open>Shared steps\<close>

definition requireAffected :: "nat \<Rightarrow> unit repo" where
  "requireAffected rows =
     then_do (wrap_err (Wrapf ''check affected filter rows'') (sql_poll db_error)) (\<lambda>_.
       if rows = 0 then fail ErrNotFound else ret ())"

text \<open>\<open>ExecContext\<close> of an insertion followed by \<open>LastInsertId\<close>.\<close>

definition exec_insert :: "string \<Rightarrow> string \<Rightarrow> (filter_db \<Rightarrow> (int \<times> filter_db) result) \<Rightarrow> int repo" where
  "exec_insert msg id_msg stmt =
     then_do (wrap_err (Wrapf msg) (sql_run stmt)) (\<lambda>id.
     then_do (wrap_err (Wrapf id_msg) (sql_poll db_error)) (\<lambda>_. ret id))"

text \<open>\<open>ExecContext\<close> of an update or a deletion followed by \<open>requireAffected\<close>.\<close>

definition exec_affecting :: "string \<Rightarrow> (filter_db \<Rightarrow> (nat \<times> filter_db) result) \<Rightarrow> unit repo" where
  "exec_affecting msg stmt = then_do (wrap_err (Wrapf msg) (sql_run stmt)) requireAffected"

definition query_one :: "(filter_db \<Rightarrow> 'a option) \<Rightarrow> 'a repo" where
  "query_one q = then_do (sql_query_row q) (\<lambda>row.
     case row of None \<Rightarrow> fail ErrNotFound | Some x \<Rightarrow> ret x)"

definition row_exists :: "('r \<Rightarrow> int) \<Rightarrow> int \<Rightarrow> 'r sql_table \<Rightarrow> bool" where
  "row_exists id_of i t \<longleftrightarrow> row_by id_of i t \<noteq> None"

section \<open>Lists\<close>

definition check_list :: "filter_list \<Rightarrow> bool" where
  "check_list l \<longleftrightarrow> (l_Kind l = ''allow'' \<or> l_Kind l = ''deny'') \<and> (l_URL l \<noteq> [] \<or> l_Path l \<noteq> [])"

definition insert_list_stmt :: "filter_list \<Rightarrow> filter_db \<Rightarrow> (int \<times> filter_db) result" where
  "insert_list_stmt l tb =
     (if \<not> check_list l then Inl (constraint_error ''filter_lists'')
      else case tbl_insert set_l_ID l (f_lists tb) of (i, t) \<Rightarrow> Inr (i, tb\<lparr>f_lists := t\<rparr>))"

definition update_list_stmt :: "int \<Rightarrow> (filter_list \<Rightarrow> filter_list) \<Rightarrow> filter_db \<Rightarrow> (nat \<times> filter_db) result" where
  "update_list_stmt i f tb =
     (case tbl_update (\<lambda>r. l_ID r = i) f (f_lists tb) of (n, t) \<Rightarrow>
        if \<not> list_all check_list (filter (\<lambda>r. l_ID r = i) (t_rows t)) then Inl (constraint_error ''filter_lists'')
        else Inr (n, tb\<lparr>f_lists := t\<rparr>))"

definition delete_list_stmt :: "int \<Rightarrow> filter_db \<Rightarrow> (nat \<times> filter_db) result" where
  "delete_list_stmt i tb =
     (case tbl_delete (\<lambda>r. l_ID r = i) (f_lists tb) of (n, t) \<Rightarrow>
        if n = 0 then Inr (0, tb)
        else Inr (n, tb\<lparr>f_lists := t,
                        f_entries := snd (tbl_delete (\<lambda>e. le_ListID e = i) (f_entries tb)),
                        f_list_groups := filter (\<lambda>(l, g). l \<noteq> i) (f_list_groups tb)\<rparr>))"

definition GetList :: "int \<Rightarrow> filter_list repo" where
  "GetList i = query_one (\<lambda>tb. row_by l_ID i (f_lists tb))"

definition ListLists :: "filter_list list repo" where
  "ListLists = sql_query ''list filter lists'' ''iterate filter lists''
     (\<lambda>tb. tbl_select (\<lambda>_. True) l_ID (f_lists tb))"

definition CreateList :: "filter_list \<Rightarrow> filter_list repo" where
  "CreateList lst =
     then_do (lift_result (validateList lst)) (\<lambda>lst.
     then_do (exec_insert ''create filter list'' ''read created filter list id'' (insert_list_stmt lst)) GetList)"

definition UpdateList :: "filter_list \<Rightarrow> filter_list repo" where
  "UpdateList lst =
     (if l_ID lst \<le> 0 then lift_result (invalid ''list id is required'')
      else
        then_do (lift_result (validateList lst)) (\<lambda>lst.
        then_do (exec_affecting ''update filter list'' (update_list_stmt (l_ID lst) (\<lambda>_. lst))) (\<lambda>_.
          GetList (l_ID lst))))"

definition DeleteList :: "int \<Rightarrow> unit repo" where
  "DeleteList i = exec_affecting ''delete filter list'' (delete_list_stmt i)"

definition MarkListRefreshError :: "int \<Rightarrow> go_error option \<Rightarrow> filter_list repo" where
  "MarkListRefreshError listID refreshErr =
     (if listID \<le> 0 then lift_result (invalid ''list id is required'')
      else
        let message = (case refreshErr of None \<Rightarrow> [] | Some e \<Rightarrow> err_text e) in
        then_do (exec_affecting ''mark filter list refresh error''
                   (update_list_stmt listID (\<lambda>l. l\<lparr>l_LastError := message\<rparr>))) (\<lambda>_.
          GetList listID))"

section \<open>List entries\<close>

definition same_entry :: "list_entry \<Rightarrow> list_entry \<Rightarrow> bool" where
  "same_entry e e' \<longleftrightarrow> le_ListID e = le_ListID e' \<and> le_Pattern e = le_Pattern e' \<and> le_MatchType e = le_MatchType e'"

definition check_entry :: "list_entry \<Rightarrow> bool" where
  "check_entry e \<longleftrightarrow> le_MatchType e \<in> {''exact'', ''suffix'', ''regex''}"

definition insert_entry_stmt :: "bool \<Rightarrow> list_entry \<Rightarrow> filter_db \<Rightarrow> (int \<times> filter_db) result" where
  "insert_entry_stmt or_ignore e tb =
     (if \<not> check_entry e \<or> list_ex (same_entry e) (t_rows (f_entries tb)) then
        (if or_ignore then Inr (0, tb) else Inl (constraint_error ''filter_list_entries''))
      else if \<not> row_exists l_ID (le_ListID e) (f_lists tb) then
        Inl (constraint_error ''foreign key filter_list_entries.list_id'')
      else case tbl_insert set_le_ID e (f_entries tb) of (i, t) \<Rightarrow> Inr (i, tb\<lparr>f_entries := t\<rparr>))"

definition update_entry_stmt :: "list_entry \<Rightarrow> filter_db \<Rightarrow> (nat \<times> filter_db) result" where
  "update_entry_stmt e tb =
     (if \<not> row_exists le_ID (le_ID e) (f_entries tb) then Inr (0, tb)
      else if \<not> check_entry e \<or> list_ex (\<lambda>r. le_ID r \<noteq> le_ID e \<and> same_entry e r) (t_rows (f_entries tb)) then
        Inl (constraint_error ''filter_list_entries'')
      else if \<not> row_exists l_ID (le_ListID e) (f_lists tb) then
        Inl (constraint_error ''foreign key filter_list_entries.list_id'')
      else case tbl_update (\<lambda>r. le_ID r = le_ID e) (\<lambda>_. e) (f_entries tb) of
             (n, t) \<Rightarrow> Inr (n, tb\<lparr>f_entries := t\<rparr>))"

definition delete_entries_stmt :: "(list_entry \<Rightarrow> bool) \<Rightarrow> filter_db \<Rightarrow> (nat \<times> filter_db) result" where
  "delete_entries_stmt p tb =
     (case tbl_delete p (f_entries tb) of (n, t) \<Rightarrow> Inr (n, tb\<lparr>f_entries := t\<rparr>))"

definition GetListEntry :: "int \<Rightarrow> list_entry repo" where
  "GetListEntry i = query_one (\<lambda>tb. row_by le_ID i (f_entries tb))"

definition ListListEntries :: "int \<Rightarrow> list_entry list repo" where
  "ListListEntries listID = sql_query ''list filter list entries'' ''iterate filter list entries''
     (\<lambda>tb. tbl_select (\<lambda>e. le_ListID e = listID) le_ID (f_entries tb))"

definition CreateListEntry :: "regexp_engine \<Rightarrow> list_entry \<Rightarrow> list_entry repo" where
  "CreateListEntry rx entry =
     then_do (lift_result (validateListEntry rx entry)) (\<lambda>entry.
     then_do (exec_insert ''create filter list entry'' ''read created filter list entry id''
                (insert_entry_stmt False entry)) GetListEntry)"

definition UpdateListEntry :: "regexp_engine \<Rightarrow> list_entry \<Rightarrow> list_entry repo" where
  "UpdateListEntry rx entry =
     (if le_ID entry \<le> 0 then lift_result (invalid ''list entry id is required'')
      else
        then_do (lift_result (validateListEntry rx entry)) (\<lambda>entry.
        then_do (exec_affecting ''update filter list entry'' (update_entry_stmt entry)) (\<lambda>_.
          GetListEntry (le_ID entry))))"

definition DeleteListEntry :: "int \<Rightarrow> unit repo" where
  "DeleteListEntry i = exec_affecting ''delete filter list entry'' (delete_entries_stmt (\<lambda>e. le_ID e = i))"

text \<open>The loop that validates the entries for the list, stopping at the first invalid one.\<close>

fun validate_all :: "regexp_engine \<Rightarrow> int \<Rightarrow> list_entry list \<Rightarrow> list_entry list result" where
  "validate_all rx listID [] = Inr []"
| "validate_all rx listID (e # es) =
     bind_result (validateListEntry rx (e\<lparr>le_ListID := listID\<rparr>)) (\<lambda>e'.
     bind_result (validate_all rx listID es) (\<lambda>es'. Inr (e' # es')))"

definition insert_round :: "list_entry \<Rightarrow> unit repo" where
  "insert_round entry =
     then_do (sql_poll context_Canceled) (\<lambda>_.
     then_do (wrap_err (Wrapf ''replace filter list entry'') (sql_run (insert_entry_stmt True entry))) (\<lambda>_. ret ()))"

definition replace_body :: "int \<Rightarrow> list_entry list \<Rightarrow> time \<Rightarrow> unit repo" where
  "replace_body listID entries updatedAt =
     then_do (wrap_err (Wrapf ''clear filter list entries'')
                (sql_run (delete_entries_stmt (\<lambda>e. le_ListID e = listID)))) (\<lambda>_.
     then_do (wrap_err (Wrapf ''prepare filter list entry replace'') (sql_poll db_error)) (\<lambda>_.
     then_do (for_each insert_round entries) (\<lambda>_.
       exec_affecting ''mark filter list refreshed''
         (update_list_stmt listID (\<lambda>l. l\<lparr>l_LastUpdatedAt := updatedAt, l_LastError := []\<rparr>)))))"

definition ReplaceListEntries :: "regexp_engine \<Rightarrow> int \<Rightarrow> list_entry list \<Rightarrow> time \<Rightarrow> filter_list repo" where
  "ReplaceListEntries rx listID entries updatedAt =
     (if listID \<le> 0 then lift_result (invalid ''list id is required'')
      else
        then_do (lift_result (validate_all rx listID entries)) (\<lambda>entries.
        then_do (sql_tx ''begin filter list refresh'' ''commit filter list refresh''
                   (replace_body listID entries updatedAt)) (\<lambda>_.
          GetList listID)))"

section \<open>Rules\<close>

definition check_rule :: "rule \<Rightarrow> bool" where
  "check_rule r \<longleftrightarrow> ru_Kind r \<in> {''allow'', ''deny''} \<and> ru_MatchType r \<in> {''exact'', ''suffix'', ''regex''}"

definition insert_rule_stmt :: "rule \<Rightarrow> filter_db \<Rightarrow> (int \<times> filter_db) result" where
  "insert_rule_stmt r tb =
     (if \<not> check_rule r then Inl (constraint_error ''filter_rules'')
      else case tbl_insert set_ru_ID r (f_rules tb) of (i, t) \<Rightarrow> Inr (i, tb\<lparr>f_rules := t\<rparr>))"

definition update_rule_stmt :: "rule \<Rightarrow> filter_db \<Rightarrow> (nat \<times> filter_db) result" where
  "update_rule_stmt r tb =
     (if \<not> row_exists ru_ID (ru_ID r) (f_rules tb) then Inr (0, tb)
      else if \<not> check_rule r then Inl (constraint_error ''filter_rules'')
      else case tbl_update (\<lambda>x. ru_ID x = ru_ID r) (\<lambda>_. r) (f_rules tb) of
             (n, t) \<Rightarrow> Inr (n, tb\<lparr>f_rules := t\<rparr>))"

definition delete_rule_stmt :: "int \<Rightarrow> filter_db \<Rightarrow> (nat \<times> filter_db) result" where
  "delete_rule_stmt i tb =
     (case tbl_delete (\<lambda>r. ru_ID r = i) (f_rules tb) of (n, t) \<Rightarrow>
        if n = 0 then Inr (0, tb)
        else Inr (n, tb\<lparr>f_rules := t, f_rule_groups := filter (\<lambda>(r, g). r \<noteq> i) (f_rule_groups tb)\<rparr>))"

definition GetRule :: "int \<Rightarrow> rule repo" where
  "GetRule i = query_one (\<lambda>tb. row_by ru_ID i (f_rules tb))"

definition ListRules :: "rule list repo" where
  "ListRules = sql_query ''list filter rules'' ''iterate filter rules''
     (\<lambda>tb. tbl_select (\<lambda>_. True) ru_ID (f_rules tb))"

definition CreateRule :: "regexp_engine \<Rightarrow> rule \<Rightarrow> rule repo" where
  "CreateRule rx rule =
     then_do (lift_result (validateRule rx rule)) (\<lambda>rule.
     then_do (exec_insert ''create filter rule'' ''read created filter rule id'' (insert_rule_stmt rule)) GetRule)"

definition UpdateRule :: "regexp_engine \<Rightarrow> rule \<Rightarrow> rule repo" where
  "UpdateRule rx rule =
     (if ru_ID rule \<le> 0 then lift_result (invalid ''rule id is required'')
      else
        then_do (lift_result (validateRule rx rule)) (\<lambda>rule.
        then_do (exec_affecting ''update filter rule'' (update_rule_stmt rule)) (\<lambda>_.
          GetRule (ru_ID rule))))"

definition DeleteRule :: "int \<Rightarrow> unit repo" where
  "DeleteRule i = exec_affecting ''delete filter rule'' (delete_rule_stmt i)"

section \<open>Clients\<close>

definition insert_client_stmt :: "client \<Rightarrow> filter_db \<Rightarrow> (int \<times> filter_db) result" where
  "insert_client_stmt c tb =
     (if list_ex (\<lambda>r. c_Address r = c_Address c) (t_rows (f_clients tb)) then
        Inl (constraint_error ''unique filter_clients.address'')
      else case tbl_insert set_c_ID c (f_clients tb) of (i, t) \<Rightarrow> Inr (i, tb\<lparr>f_clients := t\<rparr>))"

definition update_client_stmt :: "client \<Rightarrow> filter_db \<Rightarrow> (nat \<times> filter_db) result" where
  "update_client_stmt c tb =
     (if \<not> row_exists c_ID (c_ID c) (f_clients tb) then Inr (0, tb)
      else if list_ex (\<lambda>r. c_ID r \<noteq> c_ID c \<and> c_Address r = c_Address c) (t_rows (f_clients tb)) then
        Inl (constraint_error ''unique filter_clients.address'')
      else case tbl_update (\<lambda>x. c_ID x = c_ID c) (\<lambda>_. c) (f_clients tb) of
             (n, t) \<Rightarrow> Inr (n, tb\<lparr>f_clients := t\<rparr>))"

definition delete_client_stmt :: "int \<Rightarrow> filter_db \<Rightarrow> (nat \<times> filter_db) result" where
  "delete_client_stmt i tb =
     (case tbl_delete (\<lambda>r. c_ID r = i) (f_clients tb) of (n, t) \<Rightarrow>
        if n = 0 then Inr (0, tb)
        else Inr (n, tb\<lparr>f_clients := t, f_client_groups := filter (\<lambda>(c, g). c \<noteq> i) (f_client_groups tb)\<rparr>))"

definition GetClient :: "int \<Rightarrow> client repo" where
  "GetClient i = query_one (\<lambda>tb. row_by c_ID i (f_clients tb))"

definition ListClients :: "client list repo" where
  "ListClients = sql_query ''list filter clients'' ''iterate filter clients''
     (\<lambda>tb. tbl_select (\<lambda>_. True) c_ID (f_clients tb))"

definition CreateClient :: "client \<Rightarrow> client repo" where
  "CreateClient client =
     then_do (lift_result (validateClient client)) (\<lambda>client.
     then_do (exec_insert ''create filter client'' ''read created filter client id''
                (insert_client_stmt client)) GetClient)"

definition UpdateClient :: "client \<Rightarrow> client repo" where
  "UpdateClient client =
     (if c_ID client \<le> 0 then lift_result (invalid ''client id is required'')
      else
        then_do (lift_result (validateClient client)) (\<lambda>client.
        then_do (exec_affecting ''update filter client'' (update_client_stmt client)) (\<lambda>_.
          GetClient (c_ID client))))"

definition DeleteClient :: "int \<Rightarrow> unit repo" where
  "DeleteClient i = exec_affecting ''delete filter client'' (delete_client_stmt i)"

section \<open>Groups\<close>

definition insert_group_stmt :: "group \<Rightarrow> filter_db \<Rightarrow> (int \<times> filter_db) result" where
  "insert_group_stmt g tb =
     (if list_ex (\<lambda>r. g_Name r = g_Name g) (t_rows (f_groups tb)) then
        Inl (constraint_error ''unique filter_groups.name'')
      else case tbl_insert set_g_ID g (f_groups tb) of (i, t) \<Rightarrow> Inr (i, tb\<lparr>f_groups := t\<rparr>))"

definition update_group_stmt :: "group \<Rightarrow> filter_db \<Rightarrow> (nat \<times> filter_db) result" where
  "update_group_stmt g tb =
     (if \<not> row_exists g_ID (g_ID g) (f_groups tb) then Inr (0, tb)
      else if list_ex (\<lambda>r. g_ID r \<noteq> g_ID g \<and> g_Name r = g_Name g) (t_rows (f_groups tb)) then
        Inl (constraint_error ''unique filter_groups.name'')
      else case tbl_update (\<lambda>x. g_ID x = g_ID g) (\<lambda>_. g) (f_groups tb) of
             (n, t) \<Rightarrow> Inr (n, tb\<lparr>f_groups := t\<rparr>))"

definition delete_group_stmt :: "int \<Rightarrow> filter_db \<Rightarrow> (nat \<times> filter_db) result" where
  "delete_group_stmt i tb =
     (case tbl_delete (\<lambda>r. g_ID r = i) (f_groups tb) of (n, t) \<Rightarrow>
        if n = 0 then Inr (0, tb)
        else Inr (n, tb\<lparr>f_groups := t,
                        f_client_groups := filter (\<lambda>(c, g). g \<noteq> i) (f_client_groups tb),
                        f_list_groups := filter (\<lambda>(l, g). g \<noteq> i) (f_list_groups tb),
                        f_rule_groups := filter (\<lambda>(r, g). g \<noteq> i) (f_rule_groups tb)\<rparr>))"

definition GetGroup :: "int \<Rightarrow> group repo" where
  "GetGroup i = query_one (\<lambda>tb. row_by g_ID i (f_groups tb))"

definition ListGroups :: "group list repo" where
  "ListGroups = sql_query ''list filter groups'' ''iterate filter groups''
     (\<lambda>tb. tbl_select (\<lambda>_. True) g_ID (f_groups tb))"

definition CreateGroup :: "group \<Rightarrow> group repo" where
  "CreateGroup grp =
     then_do (lift_result (validateGroup grp)) (\<lambda>grp.
     then_do (exec_insert ''create filter group'' ''read created filter group id''
                (insert_group_stmt grp)) GetGroup)"

definition UpdateGroup :: "group \<Rightarrow> group repo" where
  "UpdateGroup grp =
     (if g_ID grp \<le> 0 then lift_result (invalid ''group id is required'')
      else
        then_do (lift_result (validateGroup grp)) (\<lambda>grp.
        then_do (exec_affecting ''update filter group'' (update_group_stmt grp)) (\<lambda>_.
          GetGroup (g_ID grp))))"

definition DeleteGroup :: "int \<Rightarrow> unit repo" where
  "DeleteGroup i = exec_affecting ''delete filter group'' (delete_group_stmt i)"

section \<open>Mappings\<close>

text \<open>The three join tables, named in the source by the table name and the owner's column.\<close>

datatype mapping_table = filter_client_groups | filter_list_groups | filter_rule_groups

fun mappings :: "mapping_table \<Rightarrow> filter_db \<Rightarrow> (int \<times> int) list" where
  "mappings filter_client_groups tb = f_client_groups tb"
| "mappings filter_list_groups tb = f_list_groups tb"
| "mappings filter_rule_groups tb = f_rule_groups tb"

fun set_mappings :: "mapping_table \<Rightarrow> (int \<times> int) list \<Rightarrow> filter_db \<Rightarrow> filter_db" where
  "set_mappings filter_client_groups ms tb = tb\<lparr>f_client_groups := ms\<rparr>"
| "set_mappings filter_list_groups ms tb = tb\<lparr>f_list_groups := ms\<rparr>"
| "set_mappings filter_rule_groups ms tb = tb\<lparr>f_rule_groups := ms\<rparr>"

fun owner_exists :: "mapping_table \<Rightarrow> int \<Rightarrow> filter_db \<Rightarrow> bool" where
  "owner_exists filter_client_groups i tb = row_exists c_ID i (f_clients tb)"
| "owner_exists filter_list_groups i tb = row_exists l_ID i (f_lists tb)"
| "owner_exists filter_rule_groups i tb = row_exists ru_ID i (f_rules tb)"

definition insert_mapping_stmt :: "mapping_table \<Rightarrow> int \<Rightarrow> int \<Rightarrow> filter_db \<Rightarrow> (nat \<times> filter_db) result" where
  "insert_mapping_stmt table ownerID groupID tb =
     (if (ownerID, groupID) \<in> set (mappings table tb) then Inr (0, tb)
      else if \<not> owner_exists table ownerID tb \<or> \<not> row_exists g_ID groupID (f_groups tb) then
        Inl (constraint_error ''foreign key'')
      else Inr (1, set_mappings table (mappings table tb @ [(ownerID, groupID)]) tb))"

definition delete_mapping_stmt :: "mapping_table \<Rightarrow> int \<Rightarrow> int \<Rightarrow> filter_db \<Rightarrow> (nat \<times> filter_db) result" where
  "delete_mapping_stmt table ownerID groupID tb =
     Inr (length (filter (\<lambda>m. m = (ownerID, groupID)) (mappings table tb)),
          set_mappings table (filter (\<lambda>m. m \<noteq> (ownerID, groupID)) (mappings table tb)) tb)"

definition addMapping :: "mapping_table \<Rightarrow> int \<Rightarrow> int \<Rightarrow> unit repo" where
  "addMapping table ownerID groupID =
     (if ownerID \<le> 0 \<or> groupID \<le> 0 then lift_result (invalid ''mapping ids are required'')
      else
        then_do (wrap_err (Wrapf ''add filter group mapping'')
                   (sql_run (insert_mapping_stmt table ownerID groupID))) (\<lambda>_. ret ()))"

definition removeMapping :: "mapping_table \<Rightarrow> int \<Rightarrow> int \<Rightarrow> unit repo" where
  "removeMapping table ownerID groupID =
     (if ownerID \<le> 0 \<or> groupID \<le> 0 then lift_result (invalid ''mapping ids are required'')
      else exec_affecting ''remove filter group mapping'' (delete_mapping_stmt table ownerID groupID))"

definition groups_of :: "mapping_table \<Rightarrow> int \<Rightarrow> filter_db \<Rightarrow> group list" where
  "groups_of table ownerID tb =
     concat (map (\<lambda>g. map (\<lambda>_. g) (filter (\<lambda>m. snd m = g_ID g \<and> fst m = ownerID) (mappings table tb)))
       (tbl_select (\<lambda>_. True) g_ID (f_groups tb)))"

definition groupsForOwner :: "mapping_table \<Rightarrow> int \<Rightarrow> group list repo" where
  "groupsForOwner table ownerID =
     sql_query ''list filter group mappings'' ''iterate filter group mappings'' (groups_of table ownerID)"

definition AddClientGroup :: "int \<Rightarrow> int \<Rightarrow> unit repo" where
  "AddClientGroup clientID groupID = addMapping filter_client_groups clientID groupID"

definition RemoveClientGroup :: "int \<Rightarrow> int \<Rightarrow> unit repo" where
  "RemoveClientGroup clientID groupID = removeMapping filter_client_groups clientID groupID"

definition ListClientGroups :: "int \<Rightarrow> group list repo" where
  "ListClientGroups clientID = groupsForOwner filter_client_groups clientID"

definition AddListGroup :: "int \<Rightarrow> int \<Rightarrow> unit repo" where
  "AddListGroup listID groupID = addMapping filter_list_groups listID groupID"

definition RemoveListGroup :: "int \<Rightarrow> int \<Rightarrow> unit repo" where
  "RemoveListGroup listID groupID = removeMapping filter_list_groups listID groupID"

definition ListListGroups :: "int \<Rightarrow> group list repo" where
  "ListListGroups listID = groupsForOwner filter_list_groups listID"

definition AddRuleGroup :: "int \<Rightarrow> int \<Rightarrow> unit repo" where
  "AddRuleGroup ruleID groupID = addMapping filter_rule_groups ruleID groupID"

definition RemoveRuleGroup :: "int \<Rightarrow> int \<Rightarrow> unit repo" where
  "RemoveRuleGroup ruleID groupID = removeMapping filter_rule_groups ruleID groupID"

definition ListRuleGroups :: "int \<Rightarrow> group list repo" where
  "ListRuleGroups ruleID = groupsForOwner filter_rule_groups ruleID"

section \<open>What the deciders read\<close>

text \<open>A rule or an entry with one of its groups; the group is 0 when it has none (\<open>NULL\<close>).\<close>

record scoped_rule =
  sr_Rule :: rule
  sr_GroupID :: int

record scoped_list_entry =
  se_Entry :: list_entry
  se_Kind :: string
  se_Enabled :: bool
  se_GroupID :: int

definition left_join_groups :: "mapping_table \<Rightarrow> int \<Rightarrow> filter_db \<Rightarrow> int list" where
  "left_join_groups table ownerID tb =
     (case sort (map snd (filter (\<lambda>m. fst m = ownerID) (mappings table tb))) of
        [] \<Rightarrow> [0]
      | gs \<Rightarrow> gs)"

definition client_group_ids :: "string \<Rightarrow> filter_db \<Rightarrow> int set" where
  "client_group_ids address tb =
     set (concat (map (\<lambda>c.
       map snd (filter (\<lambda>m. fst m = c_ID c \<and>
           list_ex (\<lambda>g. g_ID g = snd m \<and> g_Enabled g) (t_rows (f_groups tb)))
         (f_client_groups tb)))
       (filter (\<lambda>c. c_Address c = address \<and> c_Enabled c) (t_rows (f_clients tb)))))"

definition clientGroupIDs :: "string \<Rightarrow> int set repo" where
  "clientGroupIDs address =
     sql_query ''list client filter groups'' ''iterate client filter groups'' (client_group_ids address)"

definition decision_rules :: "filter_db \<Rightarrow> scoped_rule list" where
  "decision_rules tb =
     concat (map (\<lambda>r. map (\<lambda>g. \<lparr>sr_Rule = r, sr_GroupID = g\<rparr>) (left_join_groups filter_rule_groups (ru_ID r) tb))
       (tbl_select (\<lambda>_. True) ru_ID (f_rules tb)))"

definition decisionRules :: "scoped_rule list repo" where
  "decisionRules = sql_query ''list decision filter rules'' ''iterate decision filter rules'' decision_rules"

definition decision_entries :: "filter_db \<Rightarrow> scoped_list_entry list" where
  "decision_entries tb =
     concat (map (\<lambda>l.
       concat (map (\<lambda>e.
         map (\<lambda>g. \<lparr>se_Entry = e, se_Kind = l_Kind l, se_Enabled = (le_Enabled e \<and> l_Enabled l), se_GroupID = g\<rparr>)
           (left_join_groups filter_list_groups (l_ID l) tb))
         (tbl_select (\<lambda>e. le_ListID e = l_ID l) le_ID (f_entries tb))))
       (tbl_select (\<lambda>_. True) l_ID (f_lists tb)))"

definition decisionEntries :: "scoped_list_entry list repo" where
  "decisionEntries =
     sql_query ''list decision filter list entries'' ''iterate decision filter list entries'' decision_entries"

definition blocklistEntryKind :: "string \<Rightarrow> string option" where
  "blocklistEntryKind matchType =
     (if matchType = MatchExact then Some EntryExact
      else if matchType = MatchSuffix then Some EntrySuffix
      else None)"

text \<open>The rows of the query of \<open>BlocklistEntries\<close>, a list's entries after those of the lists before it.\<close>

definition enabled_entries :: "filter_db \<Rightarrow> (filter_list \<times> list_entry) list" where
  "enabled_entries tb =
     concat (map (\<lambda>l. map (\<lambda>e. (l, e)) (tbl_select (\<lambda>e. le_ListID e = l_ID l \<and> le_Enabled e) le_ID (f_entries tb)))
       (tbl_select l_Enabled l_ID (f_lists tb)))"

definition runtime_entry :: "filter_list \<times> list_entry \<Rightarrow> entry list" where
  "runtime_entry row =
     (case row of (l, e) \<Rightarrow>
        (case blocklistEntryKind (le_MatchType e) of
           None \<Rightarrow> []
         | Some k \<Rightarrow> [\<lparr>e_Domain = le_Pattern e, e_Kind = k, e_Allow = (l_Kind l = KindAllow),
                      e_Source = ''filter_list:'' @ Itoa (l_ID l)\<rparr>]))"

definition runtime_entries :: "filter_db \<Rightarrow> entry list" where
  "runtime_entries tb = concat (map runtime_entry (enabled_entries tb))"

definition BlocklistEntries :: "entry list repo" where
  "BlocklistEntries =
     sql_query ''list runtime filter blocklist entries'' ''iterate runtime filter blocklist entries'' runtime_entries"

definition BlocklistRuntimeStats :: "runtime_stats repo" where
  "BlocklistRuntimeStats =
     wrap_err (Wrapf ''count runtime filter blocklist stats'') (sql_query_row (\<lambda>tb.
       let ls = filter l_Enabled (t_rows (f_lists tb));
           es = (\<lambda>l. filter (\<lambda>e. le_ListID e = l_ID l \<and> le_Enabled e) (t_rows (f_entries tb)))
       in \<lparr>EnabledLists = length (remdups (map l_ID ls)),
           ImportedEnabledLists = length (remdups (map l_ID (filter (\<lambda>l. es l \<noteq> []) ls))),
           EnabledEntries = sum_list (map (\<lambda>l. length (es l)) ls)\<rparr>))"

text \<open>\<open>BlocklistSource\<close>, the entry source of the blocklist manager.\<close>

definition BlocklistSource_Entries :: "entry list repo" where
  "BlocklistSource_Entries = BlocklistEntries"

interpretation blocklist_source: entry_source BlocklistSource_Entries db_tables runtime_entries
proof unfold_locales
  show "BlocklistSource_Entries w = (Inr es, w') \<Longrightarrow> es = runtime_entries (db_tables w)" for w es w'
    by (auto simp: BlocklistSource_Entries_def BlocklistEntries_def dest: sql_query_ok)
  show "db_tables (snd (BlocklistSource_Entries w)) = db_tables w" for w
    using reads_query(1) unfolding BlocklistSource_Entries_def BlocklistEntries_def reads_def by blast
qed

end
