(* ===== verification/Filter_Invariant.thy ===== *)
theory Filter_Invariant
  imports Filter_Repository
begin

text \<open>
  The well-formedness of the filter database and its preservation by every statement of
  \<open>internal/filter/repository.go\<close>: identifiers are distinct, positive and increasing, every row is in
  the normal form of its validation, the unique constraints and the foreign keys hold.
\<close>

definition entry_key :: "list_entry \<Rightarrow> int \<times> string \<times> string" where
  "entry_key e = (le_ListID e, le_Pattern e, le_MatchType e)"

lemma same_entry_key: "same_entry e e' \<longleftrightarrow> entry_key e = entry_key e'"
  by (auto simp: same_entry_def entry_key_def)

definition tables_ok :: "filter_db \<Rightarrow> bool" where
  "tables_ok tb \<longleftrightarrow> table_ok l_ID (f_lists tb) \<and> table_ok le_ID (f_entries tb) \<and> table_ok ru_ID (f_rules tb) \<and>
     table_ok c_ID (f_clients tb) \<and> table_ok g_ID (f_groups tb)"

definition rows_ok :: "regexp_engine \<Rightarrow> filter_db \<Rightarrow> bool" where
  "rows_ok rx tb \<longleftrightarrow> (\<forall>l \<in> set (t_rows (f_lists tb)). valid_list l) \<and>
     (\<forall>e \<in> set (t_rows (f_entries tb)). valid_entry rx e) \<and>
     (\<forall>r \<in> set (t_rows (f_rules tb)). valid_rule rx r) \<and>
     (\<forall>c \<in> set (t_rows (f_clients tb)). valid_client c) \<and>
     (\<forall>g \<in> set (t_rows (f_groups tb)). valid_group g)"

definition unique_ok :: "filter_db \<Rightarrow> bool" where
  "unique_ok tb \<longleftrightarrow> distinct (map entry_key (t_rows (f_entries tb))) \<and>
     distinct (map c_Address (t_rows (f_clients tb))) \<and> distinct (map g_Name (t_rows (f_groups tb))) \<and>
     distinct (f_client_groups tb) \<and> distinct (f_list_groups tb) \<and> distinct (f_rule_groups tb)"

definition refs_ok :: "filter_db \<Rightarrow> bool" where
  "refs_ok tb \<longleftrightarrow> (\<forall>e \<in> set (t_rows (f_entries tb)). le_ListID e \<in> ids l_ID (f_lists tb)) \<and>
     (\<forall>(c, g) \<in> set (f_client_groups tb). c \<in> ids c_ID (f_clients tb) \<and> g \<in> ids g_ID (f_groups tb)) \<and>
     (\<forall>(l, g) \<in> set (f_list_groups tb). l \<in> ids l_ID (f_lists tb) \<and> g \<in> ids g_ID (f_groups tb)) \<and>
     (\<forall>(r, g) \<in> set (f_rule_groups tb). r \<in> ids ru_ID (f_rules tb) \<and> g \<in> ids g_ID (f_groups tb))"

definition filter_ok :: "regexp_engine \<Rightarrow> filter_db \<Rightarrow> bool" where
  "filter_ok rx tb \<longleftrightarrow> tables_ok tb \<and> rows_ok rx tb \<and> unique_ok tb \<and> refs_ok tb"

lemma filter_okI: "tables_ok tb \<Longrightarrow> rows_ok rx tb \<Longrightarrow> unique_ok tb \<Longrightarrow> refs_ok tb \<Longrightarrow> filter_ok rx tb"
  by (simp add: filter_ok_def)

lemma empty_filter_ok: "filter_ok rx empty_filter_db"
  by (simp add: filter_ok_def tables_ok_def rows_ok_def unique_ok_def refs_ok_def empty_filter_db_def
      lists.empty_ok entries.empty_ok rules.empty_ok clients.empty_ok groups.empty_ok)
     (simp add: empty_table_def)

lemma row_exists_ids: "row_exists id_of i t \<longleftrightarrow> i \<in> ids id_of t"
  unfolding row_exists_def by (rule row_by_ids)

lemma valid_set_ID [simp]:
  "valid_list (set_l_ID i l) = valid_list l" "valid_entry rx (set_le_ID i e) = valid_entry rx e"
  "valid_rule rx (set_ru_ID i r) = valid_rule rx r" "valid_client (set_c_ID i c) = valid_client c"
  "valid_group (set_g_ID i g) = valid_group g"
  by (simp_all add: set_l_ID_def set_le_ID_def set_ru_ID_def set_c_ID_def set_g_ID_def
      valid_list_def valid_entry_def valid_rule_def valid_client_def valid_group_def)

lemma keys_set_ID [simp]:
  "entry_key (set_le_ID i e) = entry_key e" "le_ListID (set_le_ID i e) = le_ListID e"
  "c_Address (set_c_ID i c) = c_Address c" "g_Name (set_g_ID i g) = g_Name g"
  by (simp_all add: entry_key_def set_le_ID_def set_c_ID_def set_g_ID_def)

lemmas filter_parts = filter_ok_def tables_ok_def rows_ok_def unique_ok_def refs_ok_def

text \<open>A key stays unique: under an insertion of a new key, and under the update of one row.\<close>

lemma distinct_insert_key:
  assumes "distinct (map k (t_rows t))" and "\<And>i. k (sid i r) = k r" and "\<not> list_ex (\<lambda>x. k x = k r) (t_rows t)"
  shows "distinct (map k (t_rows (snd (tbl_insert sid r t))))"
  using assms by (auto simp: tbl_insert_def list_ex_iff)

lemma distinct_update_key:
  assumes "distinct (map k (t_rows t))" and "distinct (map id_of (t_rows t))"
    and "\<not> list_ex (\<lambda>x. id_of x \<noteq> i \<and> k x = k r) (t_rows t)"
  shows "distinct (map k (t_rows (snd (tbl_update (\<lambda>x. id_of x = i) (\<lambda>_. r) t))))"
proof -
  have "distinct (map k xs) \<Longrightarrow> distinct (map id_of xs) \<Longrightarrow> \<forall>x \<in> set xs. id_of x \<noteq> i \<longrightarrow> k x \<noteq> k r \<Longrightarrow>
      distinct (map (\<lambda>x. k (if id_of x = i then r else x)) xs)" for xs
  proof (induction xs)
    case (Cons x xs)
    show ?case
    proof (cases "id_of x = i")
      case True
      then have "\<forall>y \<in> set xs. id_of y \<noteq> i" using Cons.prems(2) by (auto simp: image_iff)
      then have "map (\<lambda>x. k (if id_of x = i then r else x)) xs = map k xs"
        and "k r \<notin> k ` set xs" using Cons.prems(3) by (auto simp: image_iff)
      then show ?thesis using True Cons.prems(1) by (simp del: map_eq_conv)
    next
      case False
      then have "k x \<notin> (\<lambda>x. k (if id_of x = i then r else x)) ` set xs"
        using Cons.prems by (auto simp: image_iff)
      then show ?thesis using False Cons by simp
    qed
  qed simp
  from this [OF assms(1,2)] show ?thesis using assms(3) by (auto simp: tbl_update_def comp_def list_ex_iff)
qed

lemma table_ok_distinct: "table_ok id_of t \<Longrightarrow> distinct (map id_of (t_rows t))"
  by (simp add: table_ok_def strict_sorted_iff)

section \<open>The statements\<close>

text \<open>
  Each statement changes one table, or deletes a row with the rows that refer to it. What has to be
  shown of the changed tables is collected in the facts of the interpreted \<open>id_table\<close>s.
\<close>

lemmas table_facts =
  lists.insert_ok lists.delete_ok lists.ids_insert entries.insert_ok entries.delete_ok entries.ids_insert
  rules.insert_ok rules.delete_ok rules.ids_insert clients.insert_ok clients.delete_ok clients.ids_insert
  groups.insert_ok groups.delete_ok groups.ids_insert ids_delete ids_update
  distinct_map_filter_rows

lemma insert_list_keeps:
  assumes "filter_ok rx tb" and "valid_list l" and "insert_list_stmt l tb = Inr (i, tb')"
  shows "filter_ok rx tb'"
proof -
  have "tb' = tb\<lparr>f_lists := snd (tbl_insert set_l_ID l (f_lists tb))\<rparr>"
    using assms(3) by (auto simp: insert_list_stmt_def split: if_splits prod.splits)
  then show ?thesis
    using assms(1,2) by (auto simp: filter_parts table_facts)
qed

lemma update_list_keeps:
  assumes "filter_ok rx tb" and "\<And>l. l_ID l = i \<Longrightarrow> valid_list l \<Longrightarrow> valid_list (f l) \<and> l_ID (f l) = i"
    and "update_list_stmt i f tb = Inr (n, tb')"
  shows "filter_ok rx tb'"
proof -
  let ?t = "snd (tbl_update (\<lambda>r. l_ID r = i) f (f_lists tb))"
  have tb': "tb' = tb\<lparr>f_lists := ?t\<rparr>"
    using assms(3) by (auto simp: update_list_stmt_def split: if_splits prod.splits)
  have f: "l_ID (f l) = i" if "l \<in> set (t_rows (f_lists tb))" and "l_ID l = i" for l
    using assms(1,2) that by (auto simp: filter_parts)
  have "table_ok l_ID ?t" using assms(1) f by (intro lists.update_ok) (auto simp: filter_parts)
  moreover have "ids l_ID ?t = ids l_ID (f_lists tb)"
    unfolding ids_def set_rows_update image_image using f by (intro image_cong) auto
  ultimately show ?thesis using assms(1,2) unfolding tb' by (auto simp: filter_parts)
qed

lemma delete_list_keeps:
  assumes "filter_ok rx tb" and "delete_list_stmt i tb = Inr (n, tb')"
  shows "filter_ok rx tb'"
proof (cases "fst (tbl_delete (\<lambda>r. l_ID r = i) (f_lists tb)) = 0")
  case True
  then show ?thesis using assms by (auto simp: delete_list_stmt_def split: prod.splits)
next
  case False
  then have "tb' = tb\<lparr>f_lists := snd (tbl_delete (\<lambda>r. l_ID r = i) (f_lists tb)),
      f_entries := snd (tbl_delete (\<lambda>e. le_ListID e = i) (f_entries tb)),
      f_list_groups := filter (\<lambda>(l, g). l \<noteq> i) (f_list_groups tb)\<rparr>"
    using assms(2) by (auto simp: delete_list_stmt_def split: prod.splits)
  then show ?thesis
    using assms(1) by (auto simp: filter_parts table_facts)
qed

lemma insert_entry_keeps:
  assumes "filter_ok rx tb" and "valid_entry rx e" and "insert_entry_stmt ign e tb = Inr (i, tb')"
  shows "filter_ok rx tb'"
proof (cases "tb' = tb")
  case False
  then have tb': "tb' = tb\<lparr>f_entries := snd (tbl_insert set_le_ID e (f_entries tb))\<rparr>"
    and u: "\<not> list_ex (\<lambda>x. entry_key x = entry_key e) (t_rows (f_entries tb))"
    and r: "le_ListID e \<in> ids l_ID (f_lists tb)"
    using assms(3)
    by (auto simp: insert_entry_stmt_def same_entry_key row_exists_ids list_ex_iff split: if_splits prod.splits)
  have "distinct (map entry_key (t_rows (snd (tbl_insert set_le_ID e (f_entries tb)))))"
    by (rule distinct_insert_key) (use assms(1) u in \<open>auto simp: filter_parts\<close>)
  then show ?thesis
    using assms(1,2) r unfolding tb' by (auto simp: filter_parts table_facts)
qed (use assms in simp)

lemma update_entry_keeps:
  assumes "filter_ok rx tb" and "valid_entry rx e" and "update_entry_stmt e tb = Inr (n, tb')"
  shows "filter_ok rx tb'"
proof (cases "tb' = tb")
  case False
  let ?t = "snd (tbl_update (\<lambda>r. le_ID r = le_ID e) (\<lambda>_. e) (f_entries tb))"
  have tb': "tb' = tb\<lparr>f_entries := ?t\<rparr>" and r: "le_ListID e \<in> ids l_ID (f_lists tb)"
    and u: "\<not> list_ex (\<lambda>x. le_ID x \<noteq> le_ID e \<and> entry_key x = entry_key e) (t_rows (f_entries tb))"
    using assms(3) False
    by (auto simp: update_entry_stmt_def same_entry_key row_exists_ids list_ex_iff split: if_splits prod.splits)
  have "table_ok le_ID ?t" using assms(1) by (intro entries.update_ok) (auto simp: filter_parts)
  moreover have "distinct (map entry_key (t_rows ?t))"
    by (rule distinct_update_key) (use assms(1) u in \<open>auto simp: filter_parts dest: table_ok_distinct\<close>)
  ultimately show ?thesis using assms(1,2) r unfolding tb' by (auto simp: filter_parts)
qed (use assms in simp)

lemma delete_entries_keeps:
  assumes "filter_ok rx tb" and "delete_entries_stmt p tb = Inr (n, tb')"
  shows "filter_ok rx tb'"
proof -
  have "tb' = tb\<lparr>f_entries := snd (tbl_delete p (f_entries tb))\<rparr>"
    using assms(2) by (auto simp: delete_entries_stmt_def split: prod.splits)
  then show ?thesis using assms(1) by (auto simp: filter_parts table_facts)
qed

lemma insert_rule_keeps:
  assumes "filter_ok rx tb" and "valid_rule rx r" and "insert_rule_stmt r tb = Inr (i, tb')"
  shows "filter_ok rx tb'"
proof -
  have "tb' = tb\<lparr>f_rules := snd (tbl_insert set_ru_ID r (f_rules tb))\<rparr>"
    using assms(3) by (auto simp: insert_rule_stmt_def split: if_splits prod.splits)
  then show ?thesis using assms(1,2) by (auto simp: filter_parts table_facts)
qed

lemma update_rule_keeps:
  assumes "filter_ok rx tb" and "valid_rule rx r" and "update_rule_stmt r tb = Inr (n, tb')"
  shows "filter_ok rx tb'"
proof (cases "tb' = tb")
  case False
  let ?t = "snd (tbl_update (\<lambda>x. ru_ID x = ru_ID r) (\<lambda>_. r) (f_rules tb))"
  have tb': "tb' = tb\<lparr>f_rules := ?t\<rparr>"
    using assms(3) False by (auto simp: update_rule_stmt_def split: if_splits prod.splits)
  have "table_ok ru_ID ?t" using assms(1) by (intro rules.update_ok) (auto simp: filter_parts)
  moreover have "ids ru_ID ?t = ids ru_ID (f_rules tb)" by (rule ids_update) simp
  ultimately show ?thesis using assms(1,2) unfolding tb' by (auto simp: filter_parts)
qed (use assms in simp)

lemma delete_rule_keeps:
  assumes "filter_ok rx tb" and "delete_rule_stmt i tb = Inr (n, tb')"
  shows "filter_ok rx tb'"
proof (cases "tb' = tb")
  case False
  then have "tb' = tb\<lparr>f_rules := snd (tbl_delete (\<lambda>r. ru_ID r = i) (f_rules tb)),
      f_rule_groups := filter (\<lambda>(r, g). r \<noteq> i) (f_rule_groups tb)\<rparr>"
    using assms(2) by (auto simp: delete_rule_stmt_def split: prod.splits if_splits)
  then show ?thesis using assms(1) by (auto simp: filter_parts table_facts)
qed (use assms in simp)

lemma insert_client_keeps:
  assumes "filter_ok rx tb" and "valid_client c" and "insert_client_stmt c tb = Inr (i, tb')"
  shows "filter_ok rx tb'"
proof -
  have tb': "tb' = tb\<lparr>f_clients := snd (tbl_insert set_c_ID c (f_clients tb))\<rparr>"
    and u: "\<not> list_ex (\<lambda>r. c_Address r = c_Address c) (t_rows (f_clients tb))"
    using assms(3) by (auto simp: insert_client_stmt_def split: if_splits prod.splits)
  have "distinct (map c_Address (t_rows (snd (tbl_insert set_c_ID c (f_clients tb)))))"
    by (rule distinct_insert_key) (use assms(1) u in \<open>auto simp: filter_parts\<close>)
  then show ?thesis using assms(1,2) unfolding tb' by (auto simp: filter_parts table_facts)
qed

lemma update_client_keeps:
  assumes "filter_ok rx tb" and "valid_client c" and "update_client_stmt c tb = Inr (n, tb')"
  shows "filter_ok rx tb'"
proof (cases "tb' = tb")
  case False
  let ?t = "snd (tbl_update (\<lambda>x. c_ID x = c_ID c) (\<lambda>_. c) (f_clients tb))"
  have tb': "tb' = tb\<lparr>f_clients := ?t\<rparr>"
    and u: "\<not> list_ex (\<lambda>r. c_ID r \<noteq> c_ID c \<and> c_Address r = c_Address c) (t_rows (f_clients tb))"
    using assms(3) False by (auto simp: update_client_stmt_def split: if_splits prod.splits)
  have "table_ok c_ID ?t" using assms(1) by (intro clients.update_ok) (auto simp: filter_parts)
  moreover have "ids c_ID ?t = ids c_ID (f_clients tb)" by (rule ids_update) simp
  moreover have "distinct (map c_Address (t_rows ?t))"
    by (rule distinct_update_key) (use assms(1) u in \<open>auto simp: filter_parts dest: table_ok_distinct\<close>)
  ultimately show ?thesis using assms(1,2) unfolding tb' by (auto simp: filter_parts)
qed (use assms in simp)

lemma delete_client_keeps:
  assumes "filter_ok rx tb" and "delete_client_stmt i tb = Inr (n, tb')"
  shows "filter_ok rx tb'"
proof (cases "tb' = tb")
  case False
  then have "tb' = tb\<lparr>f_clients := snd (tbl_delete (\<lambda>r. c_ID r = i) (f_clients tb)),
      f_client_groups := filter (\<lambda>(c, g). c \<noteq> i) (f_client_groups tb)\<rparr>"
    using assms(2) by (auto simp: delete_client_stmt_def split: prod.splits if_splits)
  then show ?thesis using assms(1) by (auto simp: filter_parts table_facts)
qed (use assms in simp)

lemma insert_group_keeps:
  assumes "filter_ok rx tb" and "valid_group g" and "insert_group_stmt g tb = Inr (i, tb')"
  shows "filter_ok rx tb'"
proof -
  have tb': "tb' = tb\<lparr>f_groups := snd (tbl_insert set_g_ID g (f_groups tb))\<rparr>"
    and u: "\<not> list_ex (\<lambda>r. g_Name r = g_Name g) (t_rows (f_groups tb))"
    using assms(3) by (auto simp: insert_group_stmt_def split: if_splits prod.splits)
  have "distinct (map g_Name (t_rows (snd (tbl_insert set_g_ID g (f_groups tb)))))"
    by (rule distinct_insert_key) (use assms(1) u in \<open>auto simp: filter_parts\<close>)
  then show ?thesis using assms(1,2) unfolding tb' by (auto simp: filter_parts table_facts)
qed

lemma update_group_keeps:
  assumes "filter_ok rx tb" and "valid_group g" and "update_group_stmt g tb = Inr (n, tb')"
  shows "filter_ok rx tb'"
proof (cases "tb' = tb")
  case False
  let ?t = "snd (tbl_update (\<lambda>x. g_ID x = g_ID g) (\<lambda>_. g) (f_groups tb))"
  have tb': "tb' = tb\<lparr>f_groups := ?t\<rparr>"
    and u: "\<not> list_ex (\<lambda>r. g_ID r \<noteq> g_ID g \<and> g_Name r = g_Name g) (t_rows (f_groups tb))"
    using assms(3) False by (auto simp: update_group_stmt_def split: if_splits prod.splits)
  have "table_ok g_ID ?t" using assms(1) by (intro groups.update_ok) (auto simp: filter_parts)
  moreover have "ids g_ID ?t = ids g_ID (f_groups tb)" by (rule ids_update) simp
  moreover have "distinct (map g_Name (t_rows ?t))"
    by (rule distinct_update_key) (use assms(1) u in \<open>auto simp: filter_parts dest: table_ok_distinct\<close>)
  ultimately show ?thesis using assms(1,2) unfolding tb' by (auto simp: filter_parts)
qed (use assms in simp)

lemma delete_group_keeps:
  assumes "filter_ok rx tb" and "delete_group_stmt i tb = Inr (n, tb')"
  shows "filter_ok rx tb'"
proof (cases "tb' = tb")
  case False
  then have "tb' = tb\<lparr>f_groups := snd (tbl_delete (\<lambda>r. g_ID r = i) (f_groups tb)),
      f_client_groups := filter (\<lambda>(c, g). g \<noteq> i) (f_client_groups tb),
      f_list_groups := filter (\<lambda>(l, g). g \<noteq> i) (f_list_groups tb),
      f_rule_groups := filter (\<lambda>(r, g). g \<noteq> i) (f_rule_groups tb)\<rparr>"
    using assms(2) by (auto simp: delete_group_stmt_def split: prod.splits if_splits)
  then show ?thesis using assms(1) by (auto simp: filter_parts table_facts)
qed (use assms in simp)

lemma insert_mapping_keeps:
  assumes "filter_ok rx tb" and "insert_mapping_stmt tab own grp tb = Inr (n, tb')"
  shows "filter_ok rx tb'"
  using assms
  by (cases tab) (auto simp: insert_mapping_stmt_def filter_parts row_exists_ids split: if_splits)

lemma delete_mapping_keeps:
  assumes "filter_ok rx tb" and "delete_mapping_stmt tab own grp tb = Inr (n, tb')"
  shows "filter_ok rx tb'"
  using assms by (cases tab) (auto simp: delete_mapping_stmt_def filter_parts)

end
