(* ===== verification/Filter_Reachable.thy ===== *)
theory Filter_Reachable
  imports Filter_Invariant
begin

text \<open>
  The methods of the repository as the transitions of a state machine: from any database, one
  method call with any arguments, or the environment deciding which driver calls are to fail. The
  well-formedness of the tables is an invariant of every reachable state.
\<close>

abbreviation filter_inv :: "regexp_engine \<Rightarrow> filter_db db \<Rightarrow> bool" where
  "filter_inv rx d \<equiv> filter_ok rx (db_tables d)"



lemma reads_filter [simp]: "reads m \<Longrightarrow> keeps (filter_inv rx) m"
  by (rule reads_keeps)

lemma reads_query_one [reads_rules, simp]: "reads (query_one q)"
  unfolding query_one_def by (intro reads_rules) (simp split: option.split)

lemma reads_requireAffected [reads_rules, simp]: "reads (requireAffected n)"
  unfolding requireAffected_def by (intro reads_rules)

lemma exec_insert_keeps:
  assumes "\<And>tb i tb'. filter_ok rx tb \<Longrightarrow> stmt tb = Inr (i, tb') \<Longrightarrow> filter_ok rx tb'"
  shows "keeps (filter_inv rx) (exec_insert m m' stmt)"
  unfolding exec_insert_def
  by (intro step_rules sql_run_keeps reads_filter reads_rules) (rule assms)

lemma exec_affecting_keeps:
  assumes "\<And>tb n tb'. filter_ok rx tb \<Longrightarrow> stmt tb = Inr (n, tb') \<Longrightarrow> filter_ok rx tb'"
  shows "keeps (filter_inv rx) (exec_affecting m stmt)"
  unfolding exec_affecting_def
  by (intro step_rules sql_run_keeps reads_filter reads_rules) (rule assms)

named_theorems filter_keeps "the operations keep the invariant"

lemma reads_getters [reads_rules, filter_keeps, simp]:
  "reads (GetList i)" "reads (GetListEntry i)" "reads (GetRule i)" "reads (GetClient i)" "reads (GetGroup i)"
  by (simp_all add: GetList_def GetListEntry_def GetRule_def GetClient_def GetGroup_def)

lemma CreateList_keeps [filter_keeps]: "keeps (filter_inv rx) (CreateList l)"
  unfolding CreateList_def
  by (intro keeps_lift_then keeps_then_do exec_insert_keeps)
    (auto intro: insert_list_keeps dest: validateList_Inr)

lemma UpdateList_keeps [filter_keeps]: "keeps (filter_inv rx) (UpdateList l)"
  unfolding UpdateList_def
  by (intro keeps_if keeps_lift keeps_lift_then keeps_then_do exec_affecting_keeps)
    (auto intro: update_list_keeps dest: validateList_Inr)

lemma DeleteList_keeps [filter_keeps]: "keeps (filter_inv rx) (DeleteList i)"
  unfolding DeleteList_def by (intro exec_affecting_keeps) (rule delete_list_keeps)

lemma MarkListRefreshError_keeps [filter_keeps]: "keeps (filter_inv rx) (MarkListRefreshError i e)"
  unfolding MarkListRefreshError_def Let_def
  by (intro keeps_if keeps_lift keeps_then_do exec_affecting_keeps, erule update_list_keeps)
    (simp_all add: valid_list_def)

lemma CreateListEntry_keeps [filter_keeps]: "keeps (filter_inv rx) (CreateListEntry rx e)"
  unfolding CreateListEntry_def
  by (intro keeps_lift_then keeps_then_do exec_insert_keeps)
    (auto intro: insert_entry_keeps dest: validateListEntry_Inr)

lemma UpdateListEntry_keeps [filter_keeps]: "keeps (filter_inv rx) (UpdateListEntry rx e)"
  unfolding UpdateListEntry_def
  by (intro keeps_if keeps_lift keeps_lift_then keeps_then_do exec_affecting_keeps)
    (auto intro: update_entry_keeps dest: validateListEntry_Inr)

lemma DeleteListEntry_keeps [filter_keeps]: "keeps (filter_inv rx) (DeleteListEntry i)"
  unfolding DeleteListEntry_def by (intro exec_affecting_keeps) (rule delete_entries_keeps)

lemma validate_all_Inr:
  "validate_all rx listID es = Inr es' \<Longrightarrow>
     \<forall>e \<in> set es'. valid_entry rx e \<and> le_ListID e = listID"
proof (induction es arbitrary: es')
  case (Cons e es)
  then obtain e1 es1 where e1: "validateListEntry rx (e\<lparr>le_ListID := listID\<rparr>) = Inr e1"
    and "validate_all rx listID es = Inr es1" and "es' = e1 # es1"
    by (auto simp: bind_result_eq_Inr)
  then show ?case using Cons.IH validateListEntry_Inr [OF e1] by simp
qed simp

lemma keeps_for_each_in: "(\<And>x. x \<in> set xs \<Longrightarrow> keeps I (f x)) \<Longrightarrow> keeps I (for_each f xs)"
  by (induction xs) (auto intro!: step_rules)

lemma insert_round_keeps: "valid_entry rx e \<Longrightarrow> keeps (filter_inv rx) (insert_round e)"
  unfolding insert_round_def
  by (intro step_rules sql_run_keeps reads_filter reads_rules) (rule insert_entry_keeps)

lemma replace_body_keeps:
  assumes "\<forall>e \<in> set es. valid_entry rx e"
  shows "keeps (filter_inv rx) (replace_body listID es t)"
  unfolding replace_body_def
proof (intro keeps_then_do keeps_wrap_err)
  show "keeps (filter_inv rx) (sql_run (delete_entries_stmt (\<lambda>e. le_ListID e = listID)))"
    by (rule sql_run_keeps) (rule delete_entries_keeps)
  show "keeps (filter_inv rx) (for_each insert_round es)"
    using assms by (intro keeps_for_each_in insert_round_keeps) simp
  show "keeps (filter_inv rx) (exec_affecting ''mark filter list refreshed''
      (update_list_stmt listID (\<lambda>l. l\<lparr>l_LastUpdatedAt := t, l_LastError := []\<rparr>)))"
    by (rule exec_affecting_keeps, erule update_list_keeps) (simp_all add: valid_list_def)
qed simp

lemma ReplaceListEntries_keeps [filter_keeps]: "keeps (filter_inv rx) (ReplaceListEntries rx i es t)"
  unfolding ReplaceListEntries_def
  by (intro keeps_if keeps_lift keeps_lift_then keeps_then_do sql_tx_keeps replace_body_keeps)
    (auto dest: validate_all_Inr)

lemma CreateRule_keeps [filter_keeps]: "keeps (filter_inv rx) (CreateRule rx r)"
  unfolding CreateRule_def
  by (intro keeps_lift_then keeps_then_do exec_insert_keeps)
    (auto intro: insert_rule_keeps dest: validateRule_Inr)

lemma UpdateRule_keeps [filter_keeps]: "keeps (filter_inv rx) (UpdateRule rx r)"
  unfolding UpdateRule_def
  by (intro keeps_if keeps_lift keeps_lift_then keeps_then_do exec_affecting_keeps)
    (auto intro: update_rule_keeps dest: validateRule_Inr)

lemma DeleteRule_keeps [filter_keeps]: "keeps (filter_inv rx) (DeleteRule i)"
  unfolding DeleteRule_def by (intro exec_affecting_keeps) (rule delete_rule_keeps)

lemma CreateClient_keeps [filter_keeps]: "keeps (filter_inv rx) (CreateClient c)"
  unfolding CreateClient_def
  by (intro keeps_lift_then keeps_then_do exec_insert_keeps)
    (auto intro: insert_client_keeps dest: validateClient_Inr)

lemma UpdateClient_keeps [filter_keeps]: "keeps (filter_inv rx) (UpdateClient c)"
  unfolding UpdateClient_def
  by (intro keeps_if keeps_lift keeps_lift_then keeps_then_do exec_affecting_keeps)
    (auto intro: update_client_keeps dest: validateClient_Inr)

lemma DeleteClient_keeps [filter_keeps]: "keeps (filter_inv rx) (DeleteClient i)"
  unfolding DeleteClient_def by (intro exec_affecting_keeps) (rule delete_client_keeps)

lemma CreateGroup_keeps [filter_keeps]: "keeps (filter_inv rx) (CreateGroup g)"
  unfolding CreateGroup_def
  by (intro keeps_lift_then keeps_then_do exec_insert_keeps)
    (auto intro: insert_group_keeps dest: validateGroup_Inr)

lemma UpdateGroup_keeps [filter_keeps]: "keeps (filter_inv rx) (UpdateGroup g)"
  unfolding UpdateGroup_def
  by (intro keeps_if keeps_lift keeps_lift_then keeps_then_do exec_affecting_keeps)
    (auto intro: update_group_keeps dest: validateGroup_Inr)

lemma DeleteGroup_keeps [filter_keeps]: "keeps (filter_inv rx) (DeleteGroup i)"
  unfolding DeleteGroup_def by (intro exec_affecting_keeps) (rule delete_group_keeps)

lemma addMapping_keeps [filter_keeps]: "keeps (filter_inv rx) (addMapping tab own grp)"
  unfolding addMapping_def
  by (intro keeps_if keeps_lift keeps_then_do keeps_wrap_err sql_run_keeps keeps_ret) (rule insert_mapping_keeps)

lemma removeMapping_keeps [filter_keeps]: "keeps (filter_inv rx) (removeMapping tab own grp)"
  unfolding removeMapping_def
  by (intro keeps_if keeps_lift exec_affecting_keeps) (rule delete_mapping_keeps)

section \<open>The state machine\<close>

inductive filter_step :: "regexp_engine \<Rightarrow> filter_db db \<Rightarrow> filter_db db \<Rightarrow> bool" for rx where
  faults: "filter_step rx d (d\<lparr>db_faults := fs\<rparr>)"
| create_list: "filter_step rx d (snd (CreateList l d))"
| update_list: "filter_step rx d (snd (UpdateList l d))"
| delete_list: "filter_step rx d (snd (DeleteList i d))"
| mark_error: "filter_step rx d (snd (MarkListRefreshError i err d))"
| create_entry: "filter_step rx d (snd (CreateListEntry rx e d))"
| update_entry: "filter_step rx d (snd (UpdateListEntry rx e d))"
| delete_entry: "filter_step rx d (snd (DeleteListEntry i d))"
| replace_entries: "filter_step rx d (snd (ReplaceListEntries rx i es t d))"
| create_rule: "filter_step rx d (snd (CreateRule rx r d))"
| update_rule: "filter_step rx d (snd (UpdateRule rx r d))"
| delete_rule: "filter_step rx d (snd (DeleteRule i d))"
| create_client: "filter_step rx d (snd (CreateClient c d))"
| update_client: "filter_step rx d (snd (UpdateClient c d))"
| delete_client: "filter_step rx d (snd (DeleteClient i d))"
| create_group: "filter_step rx d (snd (CreateGroup g d))"
| update_group: "filter_step rx d (snd (UpdateGroup g d))"
| delete_group: "filter_step rx d (snd (DeleteGroup i d))"
| add_mapping: "filter_step rx d (snd (addMapping tab own grp d))"
| remove_mapping: "filter_step rx d (snd (removeMapping tab own grp d))"

lemma filter_step_keeps: "filter_step rx d d' \<Longrightarrow> filter_inv rx d \<Longrightarrow> filter_inv rx d'"
  by (induction rule: filter_step.induct)
    (use filter_keeps in \<open>simp_all add: keeps_def\<close>)

inductive filter_reachable :: "regexp_engine \<Rightarrow> filter_db db \<Rightarrow> bool" for rx where
  init: "filter_reachable rx \<lparr>db_tables = empty_filter_db, db_faults = fs\<rparr>"
| step: "filter_reachable rx d \<Longrightarrow> filter_step rx d d' \<Longrightarrow> filter_reachable rx d'"

text \<open>
  C7: Every reachable filter database is well formed, whatever methods were called with whatever
  arguments and whatever driver calls failed: identifiers are positive, distinct and increasing,
  every list, entry, rule, client and group is in the normal form of its validation (regular
  expressions compile, addresses parse), entries are unique per list, addresses and group names are
  unique, and every entry and mapping refers to existing rows.
\<close>

theorem filter_reachable_ok:
  assumes "filter_reachable rx d"
  shows "filter_ok rx (db_tables d)"
  using assms
proof (induction rule: filter_reachable.induct)
  case (init fs)
  then show ?case using empty_filter_ok by simp
next
  case (step d d')
  then show ?case using filter_step_keeps by blast
qed

theorem filter_reachable_ok_witness:
  "filter_ok (\<lambda>_. None) (db_tables (snd (CreateGroup \<lparr>g_ID = 0, g_Name = '' kids '', g_Comment = [], g_Enabled = True\<rparr>
      \<lparr>db_tables = empty_filter_db, db_faults = []\<rparr>)))"
  by (rule filter_reachable_ok [OF filter_reachable.step [OF filter_reachable.init filter_step.create_group]])

end
