(* ===== verification/Filter_Service.thy ===== *)
theory Filter_Service
  imports Filter_Reachable
begin

text \<open>
  \<open>internal/filter/service.go\<close>: the import and refresh of subscribed lists, the group mappings with
  their existence checks, and \<open>Decide\<close>, which answers what the filters say of a domain. The methods
  of the service that only call the repository's method of the same name are not repeated. The
  outside world of an import is the record \<open>env\<close>: \<open>url.Parse\<close> (scheme and host), the construction
  of the request, the HTTP exchange (status and body) and \<open>os.Open\<close>.
\<close>

record env =
  env_url :: "string \<Rightarrow> (string \<times> string) option"
  env_request :: "string \<Rightarrow> go_error option"
  env_get :: "string \<Rightarrow> go_error + (nat \<times> reader)"
  env_open :: "string \<Rightarrow> go_error + reader"

text \<open>The verb \<open>%q\<close>, up to printable runes above ASCII, which are kept.\<close>

definition quote_char :: "char \<Rightarrow> string" where
  "quote_char c = (let n = (of_char c :: nat) in
     if n = 34 \<or> n = 92 then [CHR 0x5C, c]
     else if n = 7 then [CHR 0x5C, CHR ''a''] else if n = 8 then [CHR 0x5C, CHR ''b'']
     else if n = 12 then [CHR 0x5C, CHR ''f''] else if n = 10 then [CHR 0x5C, CHR ''n'']
     else if n = 13 then [CHR 0x5C, CHR ''r''] else if n = 9 then [CHR 0x5C, CHR ''t'']
     else if n = 11 then [CHR 0x5C, CHR ''v'']
     else if n < 32 \<or> n = 127 then [CHR 0x5C, CHR ''x'', hexdig (n div 16), hexdig (n mod 16)]
     else [c])"

definition Quote :: "string \<Rightarrow> string" where
  "Quote s = [CHR 0x22] @ concat (map quote_char s) @ [CHR 0x22]"

section \<open>Importing a list\<close>

definition openListSource :: "env \<Rightarrow> filter_list \<Rightarrow> (reader \<times> string) result" where
  "openListSource w lst =
     (if l_URL lst \<noteq> [] then
        (case env_url w (l_URL lst) of
           None \<Rightarrow> Inl (ErrorString (''invalid filter list url '' @ Quote (l_URL lst)))
         | Some (scheme, host) \<Rightarrow>
             if (scheme \<noteq> ''http'' \<and> scheme \<noteq> ''https'') \<or> host = [] then
               Inl (ErrorString (''invalid filter list url '' @ Quote (l_URL lst)))
             else case env_request w (l_URL lst) of
               Some err \<Rightarrow> Inl (Wrapf ''create filter list request'' err)
             | None \<Rightarrow>
                 (case env_get w (l_URL lst) of
                    Inl err \<Rightarrow> Inl (Wrapf (''fetch filter list '' @ l_URL lst) err)
                  | Inr (status, body) \<Rightarrow>
                      if status < 200 \<or> status \<ge> 300 then
                        Inl (ErrorString (''fetch filter list '' @ l_URL lst @ '': status '' @ Itoa (int status)))
                      else Inr (body, l_URL lst)))
      else if l_Path lst = [] then invalid ''url or path is required''
      else case env_open w (l_Path lst) of
        Inl err \<Rightarrow> Inl (Wrapf (''open filter list '' @ l_Path lst) err)
      | Inr f \<Rightarrow> Inr (f, l_Path lst))"

definition matchTypeForBlocklistEntry :: "string \<Rightarrow> string option" where
  "matchTypeForBlocklistEntry kind =
     (if kind = EntryExact then Some MatchExact
      else if kind = EntrySuffix then Some MatchSuffix
      else None)"

definition import_key :: "list_entry \<Rightarrow> string" where
  "import_key e = le_MatchType e @ [CHR 0x00] @ le_Pattern e"

text \<open>The loop of \<open>importListEntries\<close> over the parsed entries, with the keys seen so far.\<close>

fun import_loop :: "regexp_engine \<Rightarrow> int \<Rightarrow> string set \<Rightarrow> entry list \<Rightarrow> list_entry list" where
  "import_loop rx listID seen [] = []"
| "import_loop rx listID seen (en # ens) =
     (case matchTypeForBlocklistEntry (e_Kind en) of
        None \<Rightarrow> import_loop rx listID seen ens
      | Some matchType \<Rightarrow>
          (case validateListEntry rx \<lparr>le_ID = 0, le_ListID = listID, le_Pattern = e_Domain en,
                                     le_MatchType = matchType, le_Enabled = True\<rparr> of
             Inl _ \<Rightarrow> import_loop rx listID seen ens
           | Inr listEntry \<Rightarrow>
               let key = import_key listEntry in
               if key \<in> seen then import_loop rx listID seen ens
               else listEntry # import_loop rx listID (insert key seen) ens))"

definition on_db_faults :: "(bool list, 'a) step \<Rightarrow> ('tb db, 'a) step" where
  "on_db_faults m d = (case m (db_faults d) of (r, fs) \<Rightarrow> (r, d\<lparr>db_faults := fs\<rparr>))"

definition importListEntries :: "regexp_engine \<Rightarrow> env \<Rightarrow> filter_list \<Rightarrow> list_entry list repo" where
  "importListEntries rx w lst =
     then_do (lift_result (openListSource w lst)) (\<lambda>(r, source).
     then_do (wrap_err (Wrapf (''parse filter list '' @ source)) (on_db_faults (Parse r source))) (\<lambda>parsed.
       let entries = import_loop rx (l_ID lst) {} parsed in
       if length entries = 0 then
         fail (ErrorString (''filter list '' @ source @ '' contains no supported domains; previous entries retained''))
       else ret entries))"

definition zero_list :: filter_list where
  "zero_list = \<lparr>l_ID = 0, l_URL = [], l_Path = [], l_Kind = [], l_Enabled = False, l_LastUpdatedAt = None, l_LastError = []\<rparr>"

text \<open>\<open>RefreshList\<close> returns a list and an error; on a failed import both.\<close>

definition RefreshList ::
  "regexp_engine \<Rightarrow> env \<Rightarrow> time \<Rightarrow> int \<Rightarrow> filter_db db \<Rightarrow> (filter_list \<times> go_error option) \<times> filter_db db" where
  "RefreshList rx w now i d =
     (case GetList i d of
        (Inl err, d1) \<Rightarrow> ((zero_list, Some err), d1)
      | (Inr lst, d1) \<Rightarrow>
          (case importListEntries rx w lst d1 of
             (Inl err, d2) \<Rightarrow>
               (case MarkListRefreshError i (Some err) d2 of
                  (Inl markErr, d3) \<Rightarrow> ((zero_list, Some markErr), d3)
                | (Inr marked, d3) \<Rightarrow> ((marked, Some err), d3))
           | (Inr entries, d2) \<Rightarrow>
               (case ReplaceListEntries rx i entries now d2 of
                  (Inl err, d3) \<Rightarrow> ((zero_list, Some err), d3)
                | (Inr lst', d3) \<Rightarrow> ((lst', None), d3))))"

section \<open>Group mappings\<close>

definition service_AddClientGroup :: "int \<Rightarrow> int \<Rightarrow> unit repo" where
  "service_AddClientGroup clientID groupID =
     then_do (GetClient clientID) (\<lambda>_. then_do (GetGroup groupID) (\<lambda>_. AddClientGroup clientID groupID))"

definition service_RemoveClientGroup :: "int \<Rightarrow> int \<Rightarrow> unit repo" where
  "service_RemoveClientGroup clientID groupID =
     then_do (GetClient clientID) (\<lambda>_. then_do (GetGroup groupID) (\<lambda>_. RemoveClientGroup clientID groupID))"

definition service_AddListGroup :: "int \<Rightarrow> int \<Rightarrow> unit repo" where
  "service_AddListGroup listID groupID =
     then_do (GetList listID) (\<lambda>_. then_do (GetGroup groupID) (\<lambda>_. AddListGroup listID groupID))"

definition service_RemoveListGroup :: "int \<Rightarrow> int \<Rightarrow> unit repo" where
  "service_RemoveListGroup listID groupID =
     then_do (GetList listID) (\<lambda>_. then_do (GetGroup groupID) (\<lambda>_. RemoveListGroup listID groupID))"

definition service_AddRuleGroup :: "int \<Rightarrow> int \<Rightarrow> unit repo" where
  "service_AddRuleGroup ruleID groupID =
     then_do (GetRule ruleID) (\<lambda>_. then_do (GetGroup groupID) (\<lambda>_. AddRuleGroup ruleID groupID))"

definition service_RemoveRuleGroup :: "int \<Rightarrow> int \<Rightarrow> unit repo" where
  "service_RemoveRuleGroup ruleID groupID =
     then_do (GetRule ruleID) (\<lambda>_. then_do (GetGroup groupID) (\<lambda>_. RemoveRuleGroup ruleID groupID))"

section \<open>Deciding\<close>

definition inScope :: "int \<Rightarrow> int set \<Rightarrow> bool" where
  "inScope groupID clientGroups \<longleftrightarrow> (if groupID = 0 then True else groupID \<in> clientGroups)"

definition actionForKind :: "string \<Rightarrow> string" where
  "actionForKind kind = (if kind = KindAllow then FActionAllow else FActionDeny)"

text \<open>The loops keep the identifiers already seen, as the source does.\<close>

fun rule_loop ::
  "regexp_engine \<Rightarrow> string \<Rightarrow> int set \<Rightarrow> string \<Rightarrow> string \<Rightarrow> string \<Rightarrow> int set \<Rightarrow> scoped_rule list \<Rightarrow> filter_decision option" where
  "rule_loop rx domain groupIDs kind matchType reason seen [] = None"
| "rule_loop rx domain groupIDs kind matchType reason seen (sr # rest) =
     (let r = sr_Rule sr in
      if ru_ID r \<in> seen \<and> sr_GroupID sr = 0 then rule_loop rx domain groupIDs kind matchType reason seen rest
      else if \<not> ru_Enabled r \<or> ru_Kind r \<noteq> kind \<or> ru_MatchType r \<noteq> matchType \<or> \<not> inScope (sr_GroupID sr) groupIDs then
        rule_loop rx domain groupIDs kind matchType reason seen rest
      else if \<not> matchesPattern rx domain (ru_Pattern r) (ru_MatchType r) then
        rule_loop rx domain groupIDs kind matchType reason seen rest
      else Some \<lparr>fd_Action = actionForKind kind, fd_Reason = reason, fd_RuleID = ru_ID r, fd_ListID = 0,
                 fd_EntryID = 0, fd_Pattern = ru_Pattern r, fd_MatchType = ru_MatchType r\<rparr>)"

definition firstMatchingRule ::
  "regexp_engine \<Rightarrow> string \<Rightarrow> int set \<Rightarrow> scoped_rule list \<Rightarrow> string \<Rightarrow> string \<Rightarrow> string \<Rightarrow> filter_decision option" where
  "firstMatchingRule rx domain groupIDs rules kind matchType reason =
     rule_loop rx domain groupIDs kind matchType reason {} rules"

fun entry_loop ::
  "regexp_engine \<Rightarrow> string \<Rightarrow> int set \<Rightarrow> string \<Rightarrow> string \<Rightarrow> int set \<Rightarrow> scoped_list_entry list \<Rightarrow> filter_decision option" where
  "entry_loop rx domain groupIDs kind reason seen [] = None"
| "entry_loop rx domain groupIDs kind reason seen (se # rest) =
     (let e = se_Entry se in
      if le_ID e \<in> seen \<and> se_GroupID se = 0 then entry_loop rx domain groupIDs kind reason seen rest
      else if \<not> se_Enabled se \<or> se_Kind se \<noteq> kind \<or> \<not> inScope (se_GroupID se) groupIDs then
        entry_loop rx domain groupIDs kind reason seen rest
      else if \<not> matchesPattern rx domain (le_Pattern e) (le_MatchType e) then
        entry_loop rx domain groupIDs kind reason seen rest
      else Some \<lparr>fd_Action = actionForKind kind, fd_Reason = reason, fd_RuleID = 0, fd_ListID = le_ListID e,
                 fd_EntryID = le_ID e, fd_Pattern = le_Pattern e, fd_MatchType = le_MatchType e\<rparr>)"

definition firstMatchingEntry ::
  "regexp_engine \<Rightarrow> string \<Rightarrow> int set \<Rightarrow> scoped_list_entry list \<Rightarrow> string \<Rightarrow> string \<Rightarrow> filter_decision option" where
  "firstMatchingEntry rx domain groupIDs entries kind reason =
     entry_loop rx domain groupIDs kind reason {} entries"

text \<open>The cascade of \<open>Decide\<close> once the rules, the entries and the client's groups are read.\<close>

definition decide_among ::
  "regexp_engine \<Rightarrow> string \<Rightarrow> int set \<Rightarrow> scoped_rule list \<Rightarrow> scoped_list_entry list \<Rightarrow> filter_decision" where
  "decide_among rx domain groupIDs rules entries =
     (case firstMatchingRule rx domain groupIDs rules KindAllow MatchExact ''exact allow rule'' of Some d \<Rightarrow> d | None \<Rightarrow>
     (case firstMatchingRule rx domain groupIDs rules KindAllow MatchRegex ''regex allow rule'' of Some d \<Rightarrow> d | None \<Rightarrow>
     (case firstMatchingRule rx domain groupIDs rules KindAllow MatchSuffix ''suffix allow rule'' of Some d \<Rightarrow> d | None \<Rightarrow>
     (case firstMatchingRule rx domain groupIDs rules KindDeny MatchExact ''exact deny rule'' of Some d \<Rightarrow> d | None \<Rightarrow>
     (case firstMatchingEntry rx domain groupIDs entries KindAllow ''subscribed allow list'' of Some d \<Rightarrow> d | None \<Rightarrow>
     (case firstMatchingEntry rx domain groupIDs entries KindDeny ''subscribed deny list'' of Some d \<Rightarrow> d | None \<Rightarrow>
     (case firstMatchingRule rx domain groupIDs rules KindDeny MatchRegex ''regex deny rule'' of Some d \<Rightarrow> d | None \<Rightarrow>
     (case firstMatchingRule rx domain groupIDs rules KindDeny MatchSuffix ''suffix deny rule'' of Some d \<Rightarrow> d | None \<Rightarrow>
       \<lparr>fd_Action = FActionNone, fd_Reason = ''no filter match'', fd_RuleID = 0, fd_ListID = 0, fd_EntryID = 0,
        fd_Pattern = [], fd_MatchType = []\<rparr>))))))))"

definition service_Decide :: "regexp_engine \<Rightarrow> decision_request \<Rightarrow> filter_decision repo" where
  "service_Decide rx req =
     (let domain = filter_normalizeDomain (dr_Domain req) in
      if domain = [] then lift_result (invalid ''domain is required'')
      else
        then_do
          (if dr_ClientAddress req \<noteq> [] then
             (case ParseAddr (dr_ClientAddress req) of
                None \<Rightarrow> lift_result (invalid ''invalid client address'')
              | Some address \<Rightarrow> clientGroupIDs (addr_String address))
           else ret {}) (\<lambda>groupIDs.
        then_do decisionRules (\<lambda>rules.
        then_do decisionEntries (\<lambda>entries.
          ret (decide_among rx domain groupIDs rules entries)))))"

section \<open>The specification of a decision\<close>

definition rule_applies :: "regexp_engine \<Rightarrow> string \<Rightarrow> int set \<Rightarrow> string \<Rightarrow> string \<Rightarrow> scoped_rule \<Rightarrow> bool" where
  "rule_applies rx domain groupIDs kind matchType sr \<longleftrightarrow>
     ru_Enabled (sr_Rule sr) \<and> ru_Kind (sr_Rule sr) = kind \<and> ru_MatchType (sr_Rule sr) = matchType \<and>
     inScope (sr_GroupID sr) groupIDs \<and> matchesPattern rx domain (ru_Pattern (sr_Rule sr)) matchType"

definition entry_applies :: "regexp_engine \<Rightarrow> string \<Rightarrow> int set \<Rightarrow> string \<Rightarrow> scoped_list_entry \<Rightarrow> bool" where
  "entry_applies rx domain groupIDs kind se \<longleftrightarrow>
     se_Enabled se \<and> se_Kind se = kind \<and> inScope (se_GroupID se) groupIDs \<and>
     matchesPattern rx domain (le_Pattern (se_Entry se)) (le_MatchType (se_Entry se))"

definition rule_decision :: "string \<Rightarrow> string \<Rightarrow> scoped_rule \<Rightarrow> filter_decision" where
  "rule_decision kind reason sr =
     \<lparr>fd_Action = actionForKind kind, fd_Reason = reason, fd_RuleID = ru_ID (sr_Rule sr), fd_ListID = 0,
      fd_EntryID = 0, fd_Pattern = ru_Pattern (sr_Rule sr), fd_MatchType = ru_MatchType (sr_Rule sr)\<rparr>"

definition entry_decision :: "string \<Rightarrow> string \<Rightarrow> scoped_list_entry \<Rightarrow> filter_decision" where
  "entry_decision kind reason se =
     \<lparr>fd_Action = actionForKind kind, fd_Reason = reason, fd_RuleID = 0, fd_ListID = le_ListID (se_Entry se),
      fd_EntryID = le_ID (se_Entry se), fd_Pattern = le_Pattern (se_Entry se), fd_MatchType = le_MatchType (se_Entry se)\<rparr>"

definition no_match :: filter_decision where
  "no_match = \<lparr>fd_Action = FActionNone, fd_Reason = ''no filter match'', fd_RuleID = 0, fd_ListID = 0,
     fd_EntryID = 0, fd_Pattern = [], fd_MatchType = []\<rparr>"

text \<open>All that applies to a domain, in the order of priority; the decision is its first element.\<close>

definition ranked_rules ::
  "regexp_engine \<Rightarrow> string \<Rightarrow> int set \<Rightarrow> scoped_rule list \<Rightarrow> (string \<times> string \<times> string) list \<Rightarrow> filter_decision list" where
  "ranked_rules rx domain groupIDs rules tiers =
     concat (map (\<lambda>(kind, matchType, reason).
       map (rule_decision kind reason) (filter (rule_applies rx domain groupIDs kind matchType) rules)) tiers)"

definition ranked_entries ::
  "regexp_engine \<Rightarrow> string \<Rightarrow> int set \<Rightarrow> scoped_list_entry list \<Rightarrow> (string \<times> string) list \<Rightarrow> filter_decision list" where
  "ranked_entries rx domain groupIDs entries tiers =
     concat (map (\<lambda>(kind, reason).
       map (entry_decision kind reason) (filter (entry_applies rx domain groupIDs kind) entries)) tiers)"

definition ranked :: "regexp_engine \<Rightarrow> string \<Rightarrow> int set \<Rightarrow> scoped_rule list \<Rightarrow> scoped_list_entry list \<Rightarrow> filter_decision list" where
  "ranked rx domain groupIDs rules entries =
     ranked_rules rx domain groupIDs rules
       [(KindAllow, MatchExact, ''exact allow rule''), (KindAllow, MatchRegex, ''regex allow rule''),
        (KindAllow, MatchSuffix, ''suffix allow rule''), (KindDeny, MatchExact, ''exact deny rule'')] @
     ranked_entries rx domain groupIDs entries
       [(KindAllow, ''subscribed allow list''), (KindDeny, ''subscribed deny list'')] @
     ranked_rules rx domain groupIDs rules
       [(KindDeny, MatchRegex, ''regex deny rule''), (KindDeny, MatchSuffix, ''suffix deny rule'')]"

definition first_of :: "'a list \<Rightarrow> 'a option" where
  "first_of xs = (case xs of [] \<Rightarrow> None | x # _ \<Rightarrow> Some x)"

lemma first_of_append: "first_of (xs @ ys) = (case first_of xs of Some x \<Rightarrow> Some x | None \<Rightarrow> first_of ys)"
  by (cases xs) (auto simp: first_of_def)

lemma first_of_append_case:
  "(case first_of (xs @ ys) of None \<Rightarrow> n | Some d \<Rightarrow> d) =
     (case first_of xs of None \<Rightarrow> (case first_of ys of None \<Rightarrow> n | Some d \<Rightarrow> d) | Some d \<Rightarrow> d)"
  by (simp add: first_of_append split: option.split)

lemma first_of_simps [simp]: "first_of [] = None" "first_of (x # xs) = Some x"
  by (simp_all add: first_of_def)

text \<open>The loops return at the first match, before an identifier could be seen again.\<close>

lemma firstMatchingRule_first_of:
  "firstMatchingRule rx domain groupIDs rules kind matchType reason =
     first_of (map (rule_decision kind reason) (filter (rule_applies rx domain groupIDs kind matchType) rules))"
  unfolding firstMatchingRule_def
  by (induction rules) (auto simp: rule_applies_def rule_decision_def Let_def)

lemma firstMatchingEntry_first_of:
  "firstMatchingEntry rx domain groupIDs entries kind reason =
     first_of (map (entry_decision kind reason) (filter (entry_applies rx domain groupIDs kind) entries))"
  unfolding firstMatchingEntry_def
  by (induction entries) (auto simp: entry_applies_def entry_decision_def Let_def)

lemma decide_among_ranked:
  "decide_among rx domain groupIDs rules entries =
     (case first_of (ranked rx domain groupIDs rules entries) of Some d \<Rightarrow> d | None \<Rightarrow> no_match)"
  unfolding decide_among_def ranked_def ranked_rules_def ranked_entries_def no_match_def
    firstMatchingRule_first_of firstMatchingEntry_first_of
  by (simp only: list.map concat.simps prod.case append_assoc append_Nil append_Nil2 first_of_append_case)

text \<open>
  C5: \<open>Decide\<close> implements the documented priorities: its answer is the first of everything that
  applies, ranked exact, regex and suffix allow rules, exact deny rules, allow lists, deny lists,
  regex deny rules, suffix deny rules, and by identifier within a rank, over the rules and entries
  as stored, each in the scope of the client's enabled groups; an answer of no match when nothing applies.
\<close>

theorem service_Decide_ranked:
  assumes "service_Decide rx req d = (Inr dec, d')"
  shows "\<exists>groupIDs. dec = (case first_of (ranked rx (filter_normalizeDomain (dr_Domain req)) groupIDs
             (decision_rules (db_tables d)) (decision_entries (db_tables d))) of Some x \<Rightarrow> x | None \<Rightarrow> no_match) \<and>
           (dr_ClientAddress req = [] \<longrightarrow> groupIDs = {}) \<and>
           (\<forall>a. dr_ClientAddress req \<noteq> [] \<and> ParseAddr (dr_ClientAddress req) = Some a \<longrightarrow>
              groupIDs = client_group_ids (addr_String a) (db_tables d)) \<and>
           db_tables d' = db_tables d"
proof -
  let ?groups = "if dr_ClientAddress req \<noteq> [] then
       (case ParseAddr (dr_ClientAddress req) of
          None \<Rightarrow> lift_result (invalid ''invalid client address'')
        | Some address \<Rightarrow> clientGroupIDs (addr_String address))
     else ret {}"
  obtain gs d1 rules d2 entries where g: "?groups d = (Inr gs, d1)" and r: "decisionRules d1 = (Inr rules, d2)"
    and e: "decisionEntries d2 = (Inr entries, d')"
    and dec: "dec = decide_among rx (filter_normalizeDomain (dr_Domain req)) gs rules entries"
    using assms by (auto simp: service_Decide_def Let_def then_do_eq_Inr split: if_splits)
  have d1: "db_tables d1 = db_tables d"
    and gs: "(dr_ClientAddress req = [] \<longrightarrow> gs = {}) \<and>
       (\<forall>a. dr_ClientAddress req \<noteq> [] \<and> ParseAddr (dr_ClientAddress req) = Some a \<longrightarrow>
          gs = client_group_ids (addr_String a) (db_tables d))"
    using g by (auto simp: clientGroupIDs_def dest: sql_query_ok split: if_splits option.splits)
  have "rules = decision_rules (db_tables d)" and d2: "db_tables d2 = db_tables d"
    using sql_query_ok [OF r [unfolded decisionRules_def]] d1 by simp_all
  moreover have "entries = decision_entries (db_tables d)" and "db_tables d' = db_tables d"
    using sql_query_ok [OF e [unfolded decisionEntries_def]] d2 by simp_all
  ultimately show ?thesis using dec gs by (intro exI [of _ gs]) (simp add: decide_among_ranked)
qed

theorem service_Decide_ranked_witness:
  "\<exists>groupIDs. no_match = (case first_of (ranked (\<lambda>_. None) ''a.example'' groupIDs
       (decision_rules empty_filter_db) (decision_entries empty_filter_db)) of Some x \<Rightarrow> x | None \<Rightarrow> no_match)"
proof -
  let ?d = "\<lparr>db_tables = empty_filter_db, db_faults = []\<rparr>"
  let ?req = "\<lparr>dr_Domain = ''A.example.'', dr_ClientAddress = []\<rparr>"
  have n: "filter_normalizeDomain ''A.example.'' = ''a.example''" by code_simp
  have "service_Decide (\<lambda>_. None) ?req ?d = (Inr no_match, ?d)"
    by (simp add: service_Decide_def n then_do_def decisionRules_def decisionEntries_def decide_among_ranked)
      (simp add: decision_rules_def decision_entries_def empty_filter_db_def empty_table_def tbl_select_def
        ranked_def ranked_rules_def ranked_entries_def)
  from service_Decide_ranked [OF this] show ?thesis by (auto simp: n)
qed

end
