(* ===== verification/Filter_Refresh.thy ===== *)
theory Filter_Refresh
  imports Filter_Service
begin

text \<open>
  The refresh of a subscribed list: what the transaction of \<open>ReplaceListEntries\<close> builds, that it is
  all or nothing under every failure of the driver, and that a failed import keeps the entries.
\<close>

definition strip_id :: "list_entry \<Rightarrow> list_entry" where
  "strip_id e = set_le_ID 0 e"

text \<open>The entries without repeated keys, the first of each kept.\<close>

fun dedup :: "(int \<times> string \<times> string) set \<Rightarrow> list_entry list \<Rightarrow> list_entry list" where
  "dedup seen [] = []"
| "dedup seen (e # es) =
     (if entry_key e \<in> seen then dedup seen es else e # dedup (insert (entry_key e) seen) es)"

text \<open>The tables after a complete refresh of the list \<open>i\<close> with the entries \<open>es\<close> at the time \<open>at\<close>.\<close>

definition refreshed :: "int \<Rightarrow> list_entry list \<Rightarrow> time \<Rightarrow> filter_db \<Rightarrow> filter_db \<Rightarrow> bool" where
  "refreshed i es at tb tb' \<longleftrightarrow>
     row_exists l_ID i (f_lists tb) \<and>
     f_lists tb' = snd (tbl_update (\<lambda>r. l_ID r = i) (\<lambda>l. l\<lparr>l_LastUpdatedAt := at, l_LastError := []\<rparr>) (f_lists tb)) \<and>
     filter (\<lambda>e. le_ListID e \<noteq> i) (t_rows (f_entries tb')) = filter (\<lambda>e. le_ListID e \<noteq> i) (t_rows (f_entries tb)) \<and>
     map strip_id (filter (\<lambda>e. le_ListID e = i) (t_rows (f_entries tb'))) = map strip_id (dedup {} es) \<and>
     tb' = tb\<lparr>f_lists := f_lists tb', f_entries := f_entries tb'\<rparr>"

fun ins_all :: "list_entry list \<Rightarrow> list_entry sql_table \<Rightarrow> list_entry sql_table" where
  "ins_all [] t = t"
| "ins_all (e # es) t =
     ins_all es (if list_ex (same_entry e) (t_rows t) then t else snd (tbl_insert set_le_ID e t))"

lemma list_ex_same_entry: "list_ex (same_entry e) xs \<longleftrightarrow> entry_key e \<in> entry_key ` set xs"
  by (auto simp: list_ex_iff same_entry_key)

lemma strip_simps [simp]:
  "entry_key (strip_id e) = entry_key e" "le_ListID (strip_id e) = le_ListID e"
  "strip_id (set_le_ID i e) = strip_id e"
  by (simp_all add: strip_id_def)

lemma ins_all_rows:
  "\<exists>new. t_rows (ins_all es t) = t_rows t @ new \<and>
         map strip_id new = map strip_id (dedup (entry_key ` set (t_rows t)) es)"
proof (induction es arbitrary: t)
  case (Cons e es)
  show ?case
  proof (cases "entry_key e \<in> entry_key ` set (t_rows t)")
    case True
    then show ?thesis using Cons.IH [of t] by (simp add: list_ex_same_entry)
  next
    case False
    let ?t = "snd (tbl_insert set_le_ID e t)"
    obtain new where rows: "t_rows (ins_all es ?t) = t_rows ?t @ new"
      and new: "map strip_id new = map strip_id (dedup (entry_key ` set (t_rows ?t)) es)"
      using Cons.IH by blast
    have k: "entry_key ` set (t_rows ?t) = insert (entry_key e) (entry_key ` set (t_rows t))" by simp
    have "t_rows ?t = t_rows t @ [set_le_ID (t_seq t + 1) e]" by (simp add: tbl_insert_def)
    then show ?thesis
      using False rows new unfolding k
      by (intro exI [of _ "set_le_ID (t_seq t + 1) e # new"]) (simp add: list_ex_same_entry)
  qed
qed simp

lemma dedup_disjoint: "\<forall>e \<in> set es. entry_key e \<notin> K \<Longrightarrow> dedup (K \<union> S) es = dedup S es"
  by (induction es arbitrary: S) (auto simp flip: Un_insert_right)

lemma dedup_subset: "set (dedup S es) \<subseteq> set es"
  by (induction es arbitrary: S) auto

lemma check_entry_valid: "valid_entry rx e \<Longrightarrow> check_entry e"
  by (auto simp: valid_entry_def valid_pattern_def check_entry_def filter_const_defs)

lemma insert_round_ok:
  assumes "insert_round e d = (Inr u, d')" and "check_entry e"
  shows "db_tables d' = (db_tables d)\<lparr>f_entries := ins_all [e] (f_entries (db_tables d))\<rparr>"
proof -
  obtain d1 i where p: "sql_poll context_Canceled d = (Inr (), d1)"
    and r: "sql_run (insert_entry_stmt True e) d1 = (Inr i, d')"
    using assms(1) by (auto simp: insert_round_def then_do_eq_Inr)
  have "db_tables d1 = db_tables d" by (rule readsD [OF reads_poll p])
  then have "insert_entry_stmt True e (db_tables d) = Inr (i, db_tables d')" using sql_run_ok [OF r] by simp
  then show ?thesis
    using assms(2) by (auto simp: insert_entry_stmt_def split: if_splits prod.splits)
qed

lemma insert_loop_ok:
  assumes "for_each insert_round es d = (Inr u, d')" and "\<forall>e \<in> set es. check_entry e"
  shows "db_tables d' = (db_tables d)\<lparr>f_entries := ins_all es (f_entries (db_tables d))\<rparr>"
  using assms
proof (induction es arbitrary: d u)
  case (Cons e es)
  then obtain v d1 w where h: "insert_round e d = (Inr v, d1)" and t: "for_each insert_round es d1 = (Inr w, d')"
    by (auto simp: then_do_eq_Inr)
  show ?case using insert_round_ok [OF h] Cons.IH [OF t] Cons.prems(2) by simp
qed simp

lemma exec_affecting_ok:
  assumes "exec_affecting m stmt d = (Inr u, d')"
  shows "\<exists>n. n \<noteq> 0 \<and> stmt (db_tables d) = Inr (n, db_tables d')"
proof -
  obtain n d1 where r: "sql_run stmt d = (Inr n, d1)" and a: "requireAffected n d1 = (Inr u, d')"
    using assms by (auto simp: exec_affecting_def then_do_eq_Inr)
  have "db_tables d' = db_tables d1" by (rule readsD [OF reads_requireAffected a])
  moreover have "n \<noteq> 0" using a by (auto simp: requireAffected_def then_do_eq_Inr split: if_splits)
  ultimately show ?thesis using sql_run_ok [OF r] by auto
qed

lemma update_list_ok:
  assumes "exec_affecting m (update_list_stmt i f) d = (Inr u, d')"
  shows "db_tables d' = (db_tables d)\<lparr>f_lists := snd (tbl_update (\<lambda>r. l_ID r = i) f (f_lists (db_tables d)))\<rparr>"
    and "row_exists l_ID i (f_lists (db_tables d))"
proof -
  obtain n where n: "n \<noteq> 0" and s: "update_list_stmt i f (db_tables d) = Inr (n, db_tables d')"
    using exec_affecting_ok [OF assms] by blast
  have "n = fst (tbl_update (\<lambda>r. l_ID r = i) f (f_lists (db_tables d)))"
    and t: "db_tables d' = (db_tables d)\<lparr>f_lists := snd (tbl_update (\<lambda>r. l_ID r = i) f (f_lists (db_tables d)))\<rparr>"
    using s by (simp_all add: update_list_stmt_def split: prod.splits if_splits)
  then show "row_exists l_ID i (f_lists (db_tables d))"
    using n lists.update_count [of i f "f_lists (db_tables d)"] by (simp add: row_exists_def)
  show "db_tables d' = (db_tables d)\<lparr>f_lists := snd (tbl_update (\<lambda>r. l_ID r = i) f (f_lists (db_tables d)))\<rparr>"
    by (rule t)
qed

lemma replace_body_ok:
  assumes "replace_body i es at d = (Inr u, d')" and "\<forall>e \<in> set es. valid_entry rx e \<and> le_ListID e = i"
  shows "refreshed i es at (db_tables d) (db_tables d')"
proof -
  let ?tb = "db_tables d"
  let ?cleared = "snd (tbl_delete (\<lambda>e. le_ListID e = i) (f_entries ?tb))"
  obtain n d1 d2 d3 v where del: "sql_run (delete_entries_stmt (\<lambda>e. le_ListID e = i)) d = (Inr n, d1)"
    and prep: "wrap_err (Wrapf ''prepare filter list entry replace'') (sql_poll db_error) d1 = (Inr (), d2)"
    and loop: "for_each insert_round es d2 = (Inr v, d3)"
    and upd: "exec_affecting ''mark filter list refreshed''
         (update_list_stmt i (\<lambda>l. l\<lparr>l_LastUpdatedAt := at, l_LastError := []\<rparr>)) d3 = (Inr u, d')"
    using assms(1) by (auto simp: replace_body_def then_do_eq_Inr)
  have d1: "db_tables d1 = ?tb\<lparr>f_entries := ?cleared\<rparr>"
    using sql_run_ok [OF del] by (auto simp: delete_entries_stmt_def split: prod.splits)
  have "db_tables d2 = db_tables d1" by (rule readsD [OF reads_wrap_err [OF reads_poll] prep])
  moreover have "\<forall>e \<in> set es. check_entry e" using assms(2) check_entry_valid by blast
  ultimately have d3: "db_tables d3 = ?tb\<lparr>f_entries := ins_all es ?cleared\<rparr>"
    using insert_loop_ok [OF loop] d1 by simp
  have d': "db_tables d' = ?tb\<lparr>f_entries := ins_all es ?cleared,
        f_lists := snd (tbl_update (\<lambda>r. l_ID r = i) (\<lambda>l. l\<lparr>l_LastUpdatedAt := at, l_LastError := []\<rparr>) (f_lists ?tb))\<rparr>"
    and ex: "row_exists l_ID i (f_lists ?tb)"
    using update_list_ok [OF upd] by (simp_all add: d3)
  obtain new where rows: "t_rows (ins_all es ?cleared) = t_rows ?cleared @ new"
    and new: "map strip_id new = map strip_id (dedup (entry_key ` set (t_rows ?cleared)) es)"
    using ins_all_rows by blast
  have "\<forall>e \<in> set es. entry_key e \<notin> entry_key ` set (t_rows ?cleared)"
    using assms(2) by (auto simp: entry_key_def)
  then have new': "map strip_id new = map strip_id (dedup {} es)"
    using new dedup_disjoint [of es "entry_key ` set (t_rows ?cleared)" "{}"] by simp
  have "le_ListID ` set new = le_ListID ` strip_id ` set new" by (simp add: image_image)
  also have "\<dots> = le_ListID ` strip_id ` set (dedup {} es)" using new' by (metis list.set_map)
  finally have "\<forall>e \<in> set new. le_ListID e = i"
    using dedup_subset [of "{}" es] assms(2) by (fastforce simp: image_image)
  then have "filter (\<lambda>e. le_ListID e = i) new = new" "filter (\<lambda>e. le_ListID e \<noteq> i) new = []"
    by (simp_all add: filter_empty_conv)
  moreover have "t_rows ?cleared = filter (\<lambda>e. le_ListID e \<noteq> i) (t_rows (f_entries ?tb))"
    by (simp add: tbl_delete_def)
  ultimately show ?thesis
    using ex new' rows unfolding refreshed_def d' by simp
qed

section \<open>All or nothing\<close>

lemma ReplaceListEntries_cases:
  assumes "ReplaceListEntries rx i es at d = (r, d')"
  shows "db_tables d' = db_tables d \<and> \<not> is_ok r \<or>
         (\<exists>es'. validate_all rx i es = Inr es' \<and> refreshed i es' at (db_tables d) (db_tables d'))"
proof (cases "i \<le> 0 \<or> (\<exists>e. validate_all rx i es = Inl e)")
  case True
  then show ?thesis
    using assms by (auto simp: ReplaceListEntries_def invalid_def then_do_def split: if_splits)
next
  case False
  then obtain es' where v: "validate_all rx i es = Inr es'" by (cases "validate_all rx i es") auto
  let ?tx = "sql_tx ''begin filter list refresh'' ''commit filter list refresh'' (replace_body i es' at)"
  obtain r1 d1 where tx: "?tx d = (r1, d1)" by fastforce
  have run: "then_do ?tx (\<lambda>_. GetList i) d = (r, d')"
    using assms False v by (simp add: ReplaceListEntries_def then_do_def)
  show ?thesis
  proof (cases r1)
    case (Inl e)
    then show ?thesis using run tx sql_tx_error [of _ _ _ d e d1] by (auto simp: then_do_def)
  next
    case (Inr u)
    have "db_tables d' = db_tables d1"
      using run tx Inr readsD [OF reads_getters(1)] by (fastforce simp: then_do_def)
    moreover have "refreshed i es' at (db_tables d) (db_tables d1)"
      using tx unfolding Inr
    proof (cases rule: sql_tx_cases)
      case (commit x e1 e2)
      have "refreshed i es' at (db_tables e1) (db_tables e2)"
        by (rule replace_body_ok [OF commit(3), of rx]) (use validate_all_Inr [OF v] in simp)
      then show ?thesis using commit(2,4) by simp
    qed simp
    ultimately show ?thesis using v by auto
  qed
qed

text \<open>
  C8: Replacing a list's entries is all or nothing: under every sequence of driver failures and
  context cancellations, either the call fails and the tables are untouched, or the tables are
  completely refreshed: the list's entries are the validated ones without duplicates, in order,
  its update time is set and its error cleared, and no other row of any table has changed.
\<close>

theorem replace_all_or_nothing:
  assumes "ReplaceListEntries rx i es at d = (r, d')"
  shows "db_tables d' = db_tables d \<and> \<not> is_ok r \<or>
         (\<exists>es'. validate_all rx i es = Inr es' \<and> refreshed i es' at (db_tables d) (db_tables d'))"
  by (rule ReplaceListEntries_cases [OF assms])

definition demo_db :: "bool list \<Rightarrow> filter_db db" where
  "demo_db fs =
     \<lparr>db_tables = empty_filter_db\<lparr>f_lists := \<lparr>t_rows =
        [\<lparr>l_ID = 1, l_URL = [], l_Path = ''/lists/ads'', l_Kind = ''deny'', l_Enabled = True,
          l_LastUpdatedAt = None, l_LastError = []\<rparr>], t_seq = 1\<rparr>\<rparr>,
      db_faults = fs\<rparr>"

theorem replace_all_or_nothing_witness:
  "db_tables (snd (ReplaceListEntries (\<lambda>_. None) 1 [] (Some 5) (demo_db [False, True]))) = db_tables (demo_db []) \<or>
   refreshed 1 [] (Some 5) (db_tables (demo_db []))
     (db_tables (snd (ReplaceListEntries (\<lambda>_. None) 1 [] (Some 5) (demo_db [False, True]))))"
  using replace_all_or_nothing [of "\<lambda>_. None" 1 "[]" "Some 5" "demo_db [False, True]", OF prod.collapse [symmetric]]
  by (auto simp: demo_db_def)

section \<open>A refresh without failures succeeds\<close>

lemma insert_round_no_fault:
  assumes "db_faults d = []" and "check_entry e" and "row_exists l_ID (le_ListID e) (f_lists (db_tables d))"
  shows "insert_round e d = (Inr (), d\<lparr>db_tables := (db_tables d)\<lparr>f_entries := ins_all [e] (f_entries (db_tables d))\<rparr>\<rparr>)"
  using assms
  by (cases d) (auto simp: insert_round_def then_do_def wrap_err_def sql_run_no_fault insert_entry_stmt_def
      split: prod.splits)

lemma insert_loop_no_fault:
  assumes "db_faults d = []" and "\<forall>e \<in> set es. check_entry e \<and> row_exists l_ID (le_ListID e) (f_lists (db_tables d))"
  shows "fst (for_each insert_round es d) = Inr (map (\<lambda>_. ()) es) \<and>
         db_faults (snd (for_each insert_round es d)) = [] \<and>
         f_lists (db_tables (snd (for_each insert_round es d))) = f_lists (db_tables d)"
  using assms
proof (induction es arbitrary: d)
  case (Cons e es)
  let ?d = "d\<lparr>db_tables := (db_tables d)\<lparr>f_entries := ins_all [e] (f_entries (db_tables d))\<rparr>\<rparr>"
  have h: "insert_round e d = (Inr (), ?d)" by (rule insert_round_no_fault) (use Cons.prems in simp_all)
  have "fst (for_each insert_round es ?d) = Inr (map (\<lambda>_. ()) es) \<and>
      db_faults (snd (for_each insert_round es ?d)) = [] \<and>
      f_lists (db_tables (snd (for_each insert_round es ?d))) = f_lists (db_tables ?d)"
    by (rule Cons.IH) (use Cons.prems in simp_all)
  then show ?case by (cases "for_each insert_round es ?d") (auto simp: then_do_def h)
qed simp

lemma exec_affecting_no_fault:
  assumes "db_faults d = []" and "stmt (db_tables d) = Inr (n, tb)" and "n \<noteq> 0"
  shows "exec_affecting m stmt d = (Inr (), d\<lparr>db_tables := tb\<rparr>)"
  using assms
  by (cases d) (simp add: exec_affecting_def requireAffected_def then_do_def wrap_err_def sql_run_no_fault)

lemma query_one_no_fault:
  "db_faults d = [] \<Longrightarrow> query_one q d = (case q (db_tables d) of None \<Rightarrow> Inl ErrNotFound | Some x \<Rightarrow> Inr x, d)"
  by (simp add: query_one_def then_do_def split: option.split)

lemma update_list_no_fault:
  assumes "table_ok l_ID (f_lists tb)" and "row_by l_ID i (f_lists tb) = Some l" and "check_list (f l)"
  shows "\<exists>n. n \<noteq> 0 \<and> update_list_stmt i f tb = Inr (n, tb\<lparr>f_lists := snd (tbl_update (\<lambda>r. l_ID r = i) f (f_lists tb))\<rparr>)"
proof -
  let ?t = "snd (tbl_update (\<lambda>r. l_ID r = i) f (f_lists tb))"
  have "check_list r" if mem: "r \<in> set (t_rows ?t)" and id: "l_ID r = i" for r
  proof -
    obtain l0 where l0: "l0 \<in> set (t_rows (f_lists tb))" and r: "r = (if l_ID l0 = i then f l0 else l0)"
      using mem unfolding set_rows_update by blast
    then have "l_ID l0 = i" using id by (auto split: if_splits)
    then have "l0 = l" using lists.row_by_unique [OF assms(1) l0] assms(2) by simp
    then show ?thesis using r \<open>l_ID l0 = i\<close> assms(3) by simp
  qed
  then have "list_all check_list (filter (\<lambda>r. l_ID r = i) (t_rows ?t))" unfolding list_all_iff set_filter by blast
  moreover have "fst (tbl_update (\<lambda>r. l_ID r = i) f (f_lists tb)) \<noteq> 0"
    using lists.update_count [of i f "f_lists tb"] assms(2) by simp
  ultimately show ?thesis by (simp add: update_list_stmt_def case_prod_beta)
qed

lemma check_list_valid: "valid_list l \<Longrightarrow> check_list l"
  by (auto simp: valid_list_def check_list_def KindAllow_def KindDeny_def)

lemma row_by_set: "row_by id_of i t = Some r \<Longrightarrow> r \<in> set (t_rows t) \<and> id_of r = i"
  by (auto simp: row_by_def tbl_find_def find_Some_iff)

lemma replace_body_no_fault:
  assumes "db_faults d = []" and "filter_ok rx (db_tables d)" and "row_by l_ID i (f_lists (db_tables d)) = Some l"
    and "\<forall>e \<in> set es. valid_entry rx e \<and> le_ListID e = i"
  shows "\<exists>d'. replace_body i es at d = (Inr (), d') \<and> db_faults d' = []"
proof -
  let ?d1 = "d\<lparr>db_tables := (db_tables d)\<lparr>f_entries := snd (tbl_delete (\<lambda>e. le_ListID e = i) (f_entries (db_tables d)))\<rparr>\<rparr>"
  let ?f = "\<lambda>l. l\<lparr>l_LastUpdatedAt := at, l_LastError := []\<rparr>"
  have del: "sql_run (delete_entries_stmt (\<lambda>e. le_ListID e = i)) d =
      (Inr (fst (tbl_delete (\<lambda>e. le_ListID e = i) (f_entries (db_tables d)))), ?d1)"
    using assms(1) by (simp add: sql_run_no_fault delete_entries_stmt_def split: prod.split)
  obtain d2 where loop: "for_each insert_round es ?d1 = (Inr (map (\<lambda>_. ()) es), d2)" and f2: "db_faults d2 = []"
    and l2: "f_lists (db_tables d2) = f_lists (db_tables d)"
    using insert_loop_no_fault [of ?d1 es] assms check_entry_valid
    by (cases "for_each insert_round es ?d1") (auto simp: row_exists_def)
  have l: "valid_list l" "table_ok l_ID (f_lists (db_tables d))"
    using assms(2) row_by_set [OF assms(3)] by (auto simp: filter_parts)
  then have "check_list (?f l)" by (intro check_list_valid) (simp add: valid_list_def)
  then obtain n where n: "n \<noteq> 0"
    and u: "update_list_stmt i ?f (db_tables d2) =
      Inr (n, (db_tables d2)\<lparr>f_lists := snd (tbl_update (\<lambda>r. l_ID r = i) ?f (f_lists (db_tables d2)))\<rparr>)"
    using update_list_no_fault [of "db_tables d2" i l ?f] l(2) l2 assms(3) by auto
  show ?thesis
    using exec_affecting_no_fault [where m = "''mark filter list refreshed''" and d = d2 and n = n and stmt = "update_list_stmt i ?f",
        OF f2 u n] loop assms(1) f2
    by (simp add: replace_body_def then_do_def del wrap_err_def)
qed

lemma replace_no_fault:
  assumes "filter_ok rx (db_tables d)" and "db_faults d = []" and "row_by l_ID i (f_lists (db_tables d)) = Some l"
    and "validate_all rx i es = Inr es'"
  shows "\<exists>d'. ReplaceListEntries rx i es at d = (Inr (l\<lparr>l_LastUpdatedAt := at, l_LastError := []\<rparr>), d') \<and>
              refreshed i es' at (db_tables d) (db_tables d') \<and> db_faults d' = []"
proof -
  have v: "\<forall>e \<in> set es'. valid_entry rx e \<and> le_ListID e = i" by (rule validate_all_Inr [OF assms(4)])
  have i: "0 < i" using assms(1) row_by_set [OF assms(3)] by (auto simp: filter_parts table_ok_def)
  obtain d' where b: "replace_body i es' at d = (Inr (), d')" and f: "db_faults d' = []"
    using replace_body_no_fault [OF assms(2,1,3) v] by blast
  have ref: "refreshed i es' at (db_tables d) (db_tables d')" by (rule replace_body_ok [OF b v])
  have "row_by l_ID i (f_lists (db_tables d')) = Some (l\<lparr>l_LastUpdatedAt := at, l_LastError := []\<rparr>)"
  proof -
    have "f_lists (db_tables d') =
        snd (tbl_update (\<lambda>r. l_ID r = i) (\<lambda>l. l\<lparr>l_LastUpdatedAt := at, l_LastError := []\<rparr>) (f_lists (db_tables d)))"
      using ref by (simp add: refreshed_def)
    then show ?thesis using lists.row_by_update [of i "\<lambda>l. l\<lparr>l_LastUpdatedAt := at, l_LastError := []\<rparr>" i] assms(3) by simp
  qed
  then have "ReplaceListEntries rx i es at d = (Inr (l\<lparr>l_LastUpdatedAt := at, l_LastError := []\<rparr>), d')"
    using i assms(2,4) b f
    by (simp add: ReplaceListEntries_def then_do_def sql_tx_def wrap_err_def GetList_def query_one_no_fault)
  then show ?thesis using ref f by blast
qed

text \<open>
  A refresh that meets no failure succeeds: in a well-formed database, for an existing list and
  entries that all validate, the call returns the list with the new update time and no error, and
  the tables are completely refreshed.
\<close>

theorem replace_succeeds:
  assumes "filter_ok rx (db_tables d)" and "db_faults d = []" and "row_by l_ID i (f_lists (db_tables d)) = Some l"
    and "validate_all rx i es = Inr es'"
  shows "\<exists>d'. ReplaceListEntries rx i es at d = (Inr (l\<lparr>l_LastUpdatedAt := at, l_LastError := []\<rparr>), d') \<and>
              refreshed i es' at (db_tables d) (db_tables d')"
  using replace_no_fault [OF assms] by blast

lemma demo_db_ok: "filter_ok rx (db_tables (demo_db fs))"
  by (simp add: demo_db_def filter_parts empty_filter_db_def empty_table_def table_ok_def valid_list_def
      KindAllow_def KindDeny_def go_eval)

theorem replace_succeeds_witness:
  "\<exists>d'. ReplaceListEntries (\<lambda>_. None) 1
      [\<lparr>le_ID = 0, le_ListID = 0, le_Pattern = ''Ads.Example'', le_MatchType = '' exact'', le_Enabled = True\<rparr>] (Some 5)
      (demo_db []) =
     (Inr \<lparr>l_ID = 1, l_URL = [], l_Path = ''/lists/ads'', l_Kind = ''deny'', l_Enabled = True,
           l_LastUpdatedAt = Some 5, l_LastError = []\<rparr>, d')"
proof -
  have v: "validate_all (\<lambda>_. None) 1
      [\<lparr>le_ID = 0, le_ListID = 0, le_Pattern = ''Ads.Example'', le_MatchType = '' exact'', le_Enabled = True\<rparr>] =
     Inr [\<lparr>le_ID = 0, le_ListID = 1, le_Pattern = ''ads.example'', le_MatchType = ''exact'', le_Enabled = True\<rparr>]"
    by code_simp
  show ?thesis
    using replace_succeeds [OF demo_db_ok, of "[]" 1 _ "\<lambda>_. None" _ _ "Some 5", OF _ _ v]
    by (force simp: demo_db_def row_by_def tbl_find_def)
qed

section \<open>A failed import keeps the entries\<close>

lemma importListEntries_reads: "importListEntries rx w lst d = (r, d') \<Longrightarrow> db_tables d' = db_tables d"
proof -
  have f: "reads (on_db_faults m)" for m :: "(bool list, 'x) step"
    by (auto simp: reads_def on_db_faults_def split: prod.splits)
  have "reads (importListEntries rx w lst)"
    unfolding importListEntries_def
    by (intro reads_rules) (auto intro!: reads_rules f simp: Let_def split: prod.split)
  then show "importListEntries rx w lst d = (r, d') \<Longrightarrow> db_tables d' = db_tables d" by (rule readsD)
qed

lemma MarkListRefreshError_ok:
  assumes "MarkListRefreshError i err d = (r, d')"
  shows "\<exists>t. db_tables d' = (db_tables d)\<lparr>f_lists := t\<rparr>"
proof -
  let ?I = "\<lambda>tb. \<exists>t. tb = (db_tables d)\<lparr>f_lists := t\<rparr>"
  have upd: "keeps (\<lambda>x. ?I (db_tables x)) (sql_run (update_list_stmt i f))" for f
    by (rule sql_run_keeps) (auto simp: update_list_stmt_def split: prod.splits if_splits)
  have rd: "keeps (\<lambda>x. ?I (db_tables x)) m" if "reads m" for m :: "(filter_db db, 'x) step"
    by (rule reads_keeps [OF that])
  have "keeps (\<lambda>x. ?I (db_tables x)) (MarkListRefreshError i err)"
    unfolding MarkListRefreshError_def Let_def exec_affecting_def
    by (intro keeps_if keeps_lift keeps_then_do keeps_wrap_err upd rd reads_requireAffected reads_getters)
  moreover have "?I (db_tables d)" by (intro exI [of _ "f_lists (db_tables d)"]) simp
  ultimately show ?thesis using assms unfolding keeps_def by (metis snd_conv)
qed

lemma MarkListRefreshError_no_fault:
  assumes "db_faults d = []" and "filter_ok rx (db_tables d)" and "row_by l_ID i (f_lists (db_tables d)) = Some l"
  shows "\<exists>d'. MarkListRefreshError i (Some err) d = (Inr (l\<lparr>l_LastError := err_text err\<rparr>), d') \<and>
              row_by l_ID i (f_lists (db_tables d')) = Some (l\<lparr>l_LastError := err_text err\<rparr>)"
proof -
  let ?f = "\<lambda>l. l\<lparr>l_LastError := err_text err\<rparr>"
  have i: "0 < i" and ok: "table_ok l_ID (f_lists (db_tables d))" and v: "valid_list l"
    using assms(2) row_by_set [OF assms(3)] by (auto simp: filter_parts table_ok_def)
  have c: "check_list (?f l)" by (rule check_list_valid) (use v in \<open>simp add: valid_list_def\<close>)
  obtain n where n: "n \<noteq> 0" and u: "update_list_stmt i ?f (db_tables d) =
      Inr (n, (db_tables d)\<lparr>f_lists := snd (tbl_update (\<lambda>r. l_ID r = i) ?f (f_lists (db_tables d)))\<rparr>)"
    using update_list_no_fault [where f = ?f, OF ok assms(3) c] by blast
  have "row_by l_ID i (snd (tbl_update (\<lambda>r. l_ID r = i) ?f (f_lists (db_tables d)))) = Some (?f l)"
    using lists.row_by_update [of i ?f i] assms(3) by simp
  then obtain tb where tb: "update_list_stmt i ?f (db_tables d) = Inr (n, tb)"
    and row: "row_by l_ID i (f_lists tb) = Some (?f l)"
    using u by simp
  have "exec_affecting ''mark filter list refresh error'' (update_list_stmt i ?f) d = (Inr (), d\<lparr>db_tables := tb\<rparr>)"
    using exec_affecting_no_fault [where d = d and stmt = "update_list_stmt i ?f" and n = n, OF assms(1)] tb n by simp
  moreover have "GetList i (d\<lparr>db_tables := tb\<rparr>) = (Inr (?f l), d\<lparr>db_tables := tb\<rparr>)"
    using row assms(1) by (simp add: GetList_def query_one_no_fault)
  ultimately have "MarkListRefreshError i (Some err) d = (Inr (?f l), d\<lparr>db_tables := tb\<rparr>)"
    using i by (simp add: MarkListRefreshError_def then_do_Inr)
  then show ?thesis using row by (intro exI [of _ "d\<lparr>db_tables := tb\<rparr>"] conjI) simp_all
qed

lemma query_one_ok:
  assumes "query_one q d = (Inr x, d1)" shows "q (db_tables d) = Some x \<and> db_tables d1 = db_tables d"
proof -
  obtain row d2 where r: "sql_query_row q d = (Inr row, d2)"
    and x: "(case row of None \<Rightarrow> fail ErrNotFound | Some x \<Rightarrow> ret x) d2 = (Inr x, d1)"
    using assms by (auto simp: query_one_def then_do_eq_Inr)
  show ?thesis using sql_query_row_ok [OF r] x by (cases "q (db_tables d)") auto
qed

lemma GetList_ok: "GetList i d = (Inr l, d1) \<Longrightarrow> row_by l_ID i (f_lists (db_tables d)) = Some l \<and> db_tables d1 = db_tables d"
  unfolding GetList_def by (rule query_one_ok)

text \<open>
  A failed import never loses a list: when the source cannot be opened, fetched or parsed, or holds
  no supported domain, \<open>RefreshList\<close> returns an error and every entry of every list stays as it was,
  whatever else fails; when the driver works it returns that error with the list, and the list now
  carries the error's text and is otherwise unchanged.
\<close>

theorem import_failure_keeps_entries:
  assumes "filter_ok rx (db_tables d)" and "GetList i d = (Inr lst, d1)"
    and "importListEntries rx w lst d1 = (Inl err, d2)"
    and "RefreshList rx w now i d = ((l, e), d')"
  shows "e \<noteq> None \<and> f_entries (db_tables d') = f_entries (db_tables d) \<and>
         db_tables d' = (db_tables d)\<lparr>f_lists := f_lists (db_tables d')\<rparr> \<and>
         (db_faults d2 = [] \<longrightarrow> e = Some err \<and> l = lst\<lparr>l_LastError := err_text err\<rparr> \<and>
            row_by l_ID i (f_lists (db_tables d')) = Some l)"
proof -
  have d2: "db_tables d2 = db_tables d"
    using importListEntries_reads [OF assms(3)] GetList_ok [OF assms(2)] by simp
  obtain r where m: "MarkListRefreshError i (Some err) d2 = (r, d')"
    and le: "(l, e) = (case r of Inl markErr \<Rightarrow> (zero_list, Some markErr) | Inr marked \<Rightarrow> (marked, Some err))"
    using assms(2-4) by (auto simp: RefreshList_def split: prod.splits sum.splits)
  have "l = lst\<lparr>l_LastError := err_text err\<rparr> \<and> e = Some err \<and> row_by l_ID i (f_lists (db_tables d')) = Some l"
    if f: "db_faults d2 = []"
    using MarkListRefreshError_no_fault [OF f, of rx i lst err] m le assms(1) d2 GetList_ok [OF assms(2)] by auto
  moreover have "e \<noteq> None" using le by (auto split: sum.splits)
  ultimately show ?thesis using MarkListRefreshError_ok [OF m] d2 by auto
qed

definition demo_env :: env where
  "demo_env = \<lparr>env_url = \<lambda>_. None, env_request = \<lambda>_. None,
     env_get = \<lambda>_. Inl (ErrorString ''no network''), env_open = \<lambda>_. Inl (ErrorString ''no such file'')\<rparr>"

theorem import_failure_keeps_entries_witness:
  "f_entries (db_tables (snd (RefreshList (\<lambda>_. None) demo_env (Some 9) 1 (demo_db [])))) = f_entries (db_tables (demo_db []))"
proof -
  let ?l = "\<lparr>l_ID = 1, l_URL = [], l_Path = ''/lists/ads'', l_Kind = ''deny'', l_Enabled = True,
      l_LastUpdatedAt = None, l_LastError = []\<rparr>"
  let ?err = "Wrapf (''open filter list '' @ ''/lists/ads'') (ErrorString ''no such file'')"
  have g: "GetList 1 (demo_db []) = (Inr ?l, demo_db [])"
    by (simp add: GetList_def query_one_no_fault demo_db_def row_by_def tbl_find_def)
  have i: "importListEntries (\<lambda>_. None) demo_env ?l (demo_db []) = (Inl ?err, demo_db [])"
    by (simp add: importListEntries_def openListSource_def demo_env_def then_do_def)
  show ?thesis
    using import_failure_keeps_entries [OF demo_db_ok g i]
    by (cases "RefreshList (\<lambda>_. None) demo_env (Some 9) 1 (demo_db [])"; cases "fst (RefreshList (\<lambda>_. None) demo_env (Some 9) 1 (demo_db []))") auto
qed

section \<open>From a subscribed list to a blocked query\<close>

definition imported :: "int \<Rightarrow> entry \<Rightarrow> list_entry" where
  "imported i e =
     \<lparr>le_ID = 0, le_ListID = i, le_Pattern = e_Domain e,
      le_MatchType = (if e_Kind e = EntryExact then MatchExact else MatchSuffix), le_Enabled = True\<rparr>"

definition parsed_ok :: "entry \<Rightarrow> bool" where
  "parsed_ok e \<longleftrightarrow> validBlocklistDomain (e_Domain e) \<and> (e_Kind e = EntryExact \<or> e_Kind e = EntrySuffix)"

lemma normalizePattern_domain:
  assumes "validDomain d" and "k \<noteq> MatchRegex"
  shows "normalizePattern rx d k = Inr d"
proof -
  have cs: "\<forall>c \<in> set d. is_lower c \<or> is_digit c \<or> c = CHR ''-'' \<or> c = CHR ''.''"
    using validDomain_chars [OF assms(1)] by blast
  then have "TrimSpace d = d" using name_char_not_space by (intro TrimSpace_no_space) meson
  moreover have "ToLower d = d" using cs name_char_not_upper by (intro ToLower_fixed) meson
  moreover have "\<not> HasSuffix d ''.''" using validDomain_last [OF assms(1)] by (simp add: HasSuffix_single)
  ultimately show ?thesis
    using assms by (simp add: normalizePattern_def TrimSuffix_fixed)
qed

lemma validate_imported: "parsed_ok e \<Longrightarrow> 0 < i \<Longrightarrow> validateListEntry rx (imported i e) = Inr (imported i e)"
  by (auto simp: validateListEntry_def imported_def parsed_ok_def validBlocklistDomain_def normalizePattern_domain)

lemma import_key_inj:
  assumes "parsed_ok e" and "parsed_ok e'"
  shows "import_key (imported i e) = import_key (imported i e') \<longleftrightarrow> imported i e = imported i e'"
  using assms by (auto simp: import_key_def imported_def parsed_ok_def MatchExact_def MatchSuffix_def)

lemma import_loop_Cons:
  assumes "parsed_ok e" and "0 < i"
  shows "import_loop rx i seen (e # es) =
    (if import_key (imported i e) \<in> seen then import_loop rx i seen es
     else imported i e # import_loop rx i (insert (import_key (imported i e)) seen) es)"
proof -
  have "\<lparr>le_ID = 0, le_ListID = i, le_Pattern = e_Domain e,
      le_MatchType = (if e_Kind e = EntryExact then MatchExact else MatchSuffix), le_Enabled = True\<rparr> = imported i e"
    by (simp add: imported_def)
  moreover have "matchTypeForBlocklistEntry (e_Kind e) = Some (if e_Kind e = EntryExact then MatchExact else MatchSuffix)"
    using assms(1) by (auto simp: matchTypeForBlocklistEntry_def parsed_ok_def)
  ultimately show ?thesis using validate_imported [OF assms, of rx] by (simp add: Let_def)
qed

lemma import_loop_set:
  assumes "\<forall>e \<in> set es. parsed_ok e" and "0 < i"
  shows "set (import_loop rx i seen es) = {x \<in> imported i ` set es. import_key x \<notin> seen}"
  using assms(1)
proof (induction es arbitrary: seen)
  case (Cons e es)
  then have e: "parsed_ok e" and es: "\<forall>x \<in> set es. parsed_ok x" by auto
  have eq: "\<forall>x \<in> set es. import_key (imported i x) = import_key (imported i e) \<longleftrightarrow> imported i x = imported i e"
    using import_key_inj e es by blast
  show ?case
    unfolding import_loop_Cons [OF e assms(2)] using Cons.IH [OF es] eq by auto
qed simp

lemma validate_all_fixed:
  "\<forall>e \<in> set es. \<exists>x. parsed_ok x \<and> e = imported i x \<Longrightarrow> 0 < i \<Longrightarrow> validate_all rx i es = Inr es"
proof (induction es)
  case (Cons e es)
  then obtain x where "parsed_ok x" and e: "e = imported i x" by auto
  then have "validateListEntry rx (e\<lparr>le_ListID := i\<rparr>) = Inr e"
    using validate_imported [of x i rx] Cons.prems(2) by (simp add: imported_def)
  then show ?case using Cons by simp
qed simp

lemma dedup_keys: "entry_key ` set (dedup S es) = entry_key ` set es - S"
  by (induction es arbitrary: S) auto

lemma refreshed_row:
  assumes "refreshed i es at tb tb'" and "imported i x \<in> set es"
    and "\<forall>e \<in> set es. \<exists>y. e = imported i y"
  obtains r where "r \<in> set (t_rows (f_entries tb'))" and "le_ListID r = i" and "le_Pattern r = e_Domain x"
    and "le_MatchType r = le_MatchType (imported i x)" and "le_Enabled r"
proof -
  have "entry_key (imported i x) \<in> entry_key ` set (dedup {} es)" using assms(2) by (auto simp: dedup_keys)
  then obtain e where e: "e \<in> set (dedup {} es)" and k: "entry_key e = entry_key (imported i x)" by (metis imageE)
  then obtain y where y: "e = imported i y" using assms(3) dedup_subset by blast
  have "strip_id e \<in> strip_id ` set (filter (\<lambda>e. le_ListID e = i) (t_rows (f_entries tb')))"
    using assms(1) e unfolding refreshed_def by (metis image_eqI list.set_map)
  then obtain r where r: "r \<in> set (t_rows (f_entries tb'))" "le_ListID r = i" and s: "strip_id r = strip_id e" by auto
  have "le_Enabled r = le_Enabled (strip_id r)" "le_Enabled (strip_id e) = le_Enabled e"
    by (simp_all add: strip_id_def set_le_ID_def)
  then have "le_Enabled r" using s y by (simp add: imported_def)
  moreover have "entry_key r = entry_key (imported i x)" using s k by (metis strip_simps(1))
  then have "le_Pattern r = e_Domain x" and "le_MatchType r = le_MatchType (imported i x)"
    by (simp_all add: entry_key_def imported_def)
  ultimately show thesis using that r by blast
qed

lemma runtime_entriesI:
  assumes "l \<in> set (t_rows (f_lists tb))" and "l_Enabled l" and "r \<in> set (t_rows (f_entries tb))"
    and "le_ListID r = l_ID l" and "le_Enabled r" and "blocklistEntryKind (le_MatchType r) = Some k"
  shows "\<exists>e \<in> set (runtime_entries tb). e_Domain e = le_Pattern r \<and> e_Kind e = k \<and> e_Allow e = (l_Kind l = KindAllow)"
proof -
  have "(l, r) \<in> set (enabled_entries tb)"
    using assms by (auto simp: enabled_entries_def tbl_select_def)
  then show ?thesis
    unfolding runtime_entries_def set_concat set_map
    by (intro bexI [of _ "hd (runtime_entry (l, r))"]) (use assms(6) in \<open>auto simp: runtime_entry_def intro!: bexI [of _ "(l, r)"]\<close>)
qed

lemma importListEntries_ok:
  assumes "importListEntries rx w lst d = (Inr es, d')"
  obtains r source parsed fs' where "openListSource w lst = Inr (r, source)"
    and "Parse r source (db_faults d) = (Inr parsed, fs')" and "es = import_loop rx (l_ID lst) {} parsed"
proof -
  obtain r source where op: "openListSource w lst = Inr (r, source)"
    using assms by (cases "openListSource w lst") (auto simp: importListEntries_def then_do_def)
  obtain res fs' where pa: "Parse r source (db_faults d) = (res, fs')" by fastforce
  then obtain parsed where res: "res = Inr parsed"
    using assms by (cases res) (auto simp: importListEntries_def then_do_def op wrap_err_def on_db_faults_def)
  have "es = import_loop rx (l_ID lst) {} parsed"
    using assms by (auto simp: importListEntries_def then_do_def op wrap_err_def on_db_faults_def pa res Let_def split: if_splits)
  then show thesis using that op pa res by blast
qed

lemma RefreshList_ok:
  assumes "RefreshList rx w now i d = ((l, None), d')"
  obtains lst r source parsed fs fs' es es' where "row_by l_ID i (f_lists (db_tables d)) = Some lst"
    and "openListSource w lst = Inr (r, source)" and "Parse r source fs = (Inr parsed, fs')"
    and "es = import_loop rx i {} parsed" and "0 < i" and "validate_all rx i es = Inr es'"
    and "refreshed i es' now (db_tables d) (db_tables d')" and "row_by l_ID i (f_lists (db_tables d')) = Some l"
proof -
  obtain lst d1 es d2 where g: "GetList i d = (Inr lst, d1)" and im: "importListEntries rx w lst d1 = (Inr es, d2)"
    and rep: "ReplaceListEntries rx i es now d2 = (Inr l, d')"
    using assms by (auto simp: RefreshList_def split: prod.splits sum.splits)
  have lst: "row_by l_ID i (f_lists (db_tables d)) = Some lst" and "l_ID lst = i"
    using GetList_ok [OF g] row_by_set [of l_ID i _ lst] by auto
  have d2: "db_tables d2 = db_tables d" using importListEntries_reads [OF im] GetList_ok [OF g] by simp
  obtain r source parsed fs' where op: "openListSource w lst = Inr (r, source)"
    and pa: "Parse r source (db_faults d1) = (Inr parsed, fs')" and es: "es = import_loop rx i {} parsed"
    using importListEntries_ok [OF im] \<open>l_ID lst = i\<close> by blast
  have i: "0 < i" using rep by (auto simp: ReplaceListEntries_def invalid_def split: if_splits)
  obtain es' where v: "validate_all rx i es = Inr es'" and ref: "refreshed i es' now (db_tables d) (db_tables d')"
    using ReplaceListEntries_cases [OF rep] d2 by auto
  have "\<exists>d3. GetList i d3 = (Inr l, d')"
    using rep i by (auto simp: ReplaceListEntries_def then_do_eq_Inr)
  then have "row_by l_ID i (f_lists (db_tables d')) = Some l" using GetList_ok by fastforce
  then show thesis using that lst op pa es i v ref by blast
qed

lemma refreshed_entry_runtime:
  assumes "refreshed i es at tb tb'" and "row_by l_ID i (f_lists tb') = Some l" and "l_Enabled l" and "l_Kind l \<noteq> KindAllow"
    and "\<forall>x \<in> set parsed. parsed_ok x" and "0 < i" and "es = import_loop rx i {} parsed" and "e \<in> set parsed"
  shows "\<exists>x \<in> set (runtime_entries tb'). e_Domain x = e_Domain e \<and> e_Kind x = e_Kind e \<and> \<not> e_Allow x"
proof -
  have es: "set es = imported i ` set parsed" using import_loop_set [OF assms(5,6)] assms(7) by simp
  obtain r where r: "r \<in> set (t_rows (f_entries tb'))" "le_ListID r = i" "le_Pattern r = e_Domain e"
      "le_MatchType r = le_MatchType (imported i e)" "le_Enabled r"
    by (rule refreshed_row [OF assms(1), of e]) (use es assms(8) in auto)
  have l: "l \<in> set (t_rows (f_lists tb'))" "l_ID l = i" using row_by_set [OF assms(2)] by auto
  have "blocklistEntryKind (le_MatchType r) = Some (e_Kind e)"
    using assms(5,8) r(4) by (auto simp: blocklistEntryKind_def imported_def parsed_ok_def)
  then show ?thesis
    using runtime_entriesI [OF l(1) assms(3) r(1) _ r(5)] r(2,3) l(2) assms(4) by auto
qed

text \<open>
  C9: From a subscription to a blocked query: after a successful refresh of an enabled deny list and a
  successful reload of the blocklist manager whose source is the filter database, every query whose
  name is covered by an entry parsed from the list is blocked, unless an allow entry covers the name.
\<close>

theorem refreshed_list_blocks:
  assumes "RefreshList rx w now i d = ((l, None), d')" and "l_Enabled l" and "l_Kind l \<noteq> KindAllow"
    and "m_paths m = []" and "m_sources m = [BlocklistSource_Entries]" and "io_world io = d'"
    and "manager_Reload t m io = (Inr (), m', io')"
  shows "\<exists>lst r source parsed fs fs'.
           row_by l_ID i (f_lists (db_tables d)) = Some lst \<and> openListSource w lst = Inr (r, source) \<and>
           Parse r source fs = (Inr parsed, fs') \<and>
           (\<forall>q name e. e \<in> set parsed \<and> normalizeDomain (q_Name q) = Some name \<and>
              covers (e_Kind e) (e_Domain e) name \<and>
              \<not> listed True ((if m_bundled m then parsedBundledEntries else []) @ runtime_entries (db_tables d')) name \<longrightarrow>
              d_Action (manager_Decide m' q) = ActionBlock)"
proof -
  obtain lst r source parsed fs fs' es es' where lst: "row_by l_ID i (f_lists (db_tables d)) = Some lst"
    and op: "openListSource w lst = Inr (r, source)" and pa: "Parse r source fs = (Inr parsed, fs')"
    and es: "es = import_loop rx i {} parsed" and i: "0 < i" and v: "validate_all rx i es = Inr es'"
    and ref: "refreshed i es' now (db_tables d) (db_tables d')" and l: "row_by l_ID i (f_lists (db_tables d')) = Some l"
    by (rule RefreshList_ok [OF assms(1)])
  have ok: "\<forall>x \<in> set parsed. parsed_ok x" using Parse_entries [OF pa] by (auto simp: parsed_ok_def)
  have "\<forall>e \<in> set es. \<exists>x. parsed_ok x \<and> e = imported i x"
    using import_loop_set [OF ok i] es ok by auto
  then have "es' = import_loop rx i {} parsed" using validate_all_fixed [of es i rx] v i es by simp
  note entry = refreshed_entry_runtime [OF ref l assms(2,3) ok i this]
  have "d_Action (manager_Decide m' q) = ActionBlock"
    if e: "e \<in> set parsed" and n: "normalizeDomain (q_Name q) = Some name" and c: "covers (e_Kind e) (e_Domain e) name"
      and a: "\<not> listed True ((if m_bundled m then parsedBundledEntries else []) @ runtime_entries (db_tables d')) name"
    for q name e
  proof -
    obtain x where x: "x \<in> set (runtime_entries (db_tables d'))" "e_Domain x = e_Domain e" "e_Kind x = e_Kind e" "\<not> e_Allow x"
      using entry [OF e] by blast
    have "normalizeStoredEntry x = Some (e_Domain e, e_Kind e)"
      using normalizeStoredEntry_fixed [of x] ok e x by (simp add: parsed_ok_def)
    then have "listed False (runtime_entries (db_tables d')) name"
      unfolding listed_def using x c by (intro bexI [of _ x]) simp_all
    then show ?thesis
      using blocklist_source.reload_source_decides [OF assms(4,5,7)] n a assms(6)
      by (simp add: spec_action_def listed_append)
  qed
  then show ?thesis using lst op pa by blast
qed

lemma Parse_content:
  assumes "Parse r source fs = (Inr es, fs')"
  shows "es = concat (map (\<lambda>t. parseLine t source) (fst (scan_lines (raw_lines (r_text r)))))"
proof -
  obtain ts e where sc: "scan_lines (raw_lines (r_text r)) = (ts, e)" by fastforce
  obtain es' fs1 where "parse_tokens source ts fs = (Inr es', fs1)" and "es' = es"
    using assms by (auto simp: Parse_def sc then_do_eq_Inr split: option.splits if_splits)
  then show ?thesis using parse_tokens_ok by (simp add: sc)
qed

lemma Parse_deterministic:
  "Parse r source fs = (Inr a, fs1) \<Longrightarrow> Parse r source fs' = (Inr b, fs2) \<Longrightarrow> a = b"
  using Parse_content [of r source fs a fs1] Parse_content [of r source fs' b fs2] by simp

lemma runtime_no_allow:
  assumes "\<forall>l \<in> set (t_rows (f_lists tb)). l_Kind l \<noteq> KindAllow"
  shows "\<not> listed True (runtime_entries tb) name"
  using assms unfolding listed_def runtime_entries_def enabled_entries_def
  by (auto simp: runtime_entry_def tbl_select_def split: option.splits)

definition list_env :: env where
  "list_env = demo_env\<lparr>env_open := \<lambda>_. Inr (NewReader ''||ads.example^'')\<rparr>"

definition demo_manager :: "filter_db db manager" where
  "demo_manager = NewManagerWithBundledAndSources [] False [BlocklistSource_Entries]"

theorem refreshed_list_blocks_witness:
  "\<exists>m d'. (\<exists>io'. manager_Reload (Some 9) demo_manager \<lparr>io_files = \<lambda>_. Inl db_error, io_faults = [], io_world = d'\<rparr> =
      (Inr (), m, io')) \<and> snd (RefreshList (\<lambda>_. None) list_env (Some 9) 1 (demo_db [])) = d' \<and>
    d_Action (manager_Decide m \<lparr>q_Name = ''x.ads.example.'', q_Type = 1, q_ClientIP = AddrInvalid, q_Timestamp = None\<rparr>) = ActionBlock"
proof -
  let ?l = "\<lparr>l_ID = 1, l_URL = [], l_Path = ''/lists/ads'', l_Kind = ''deny'', l_Enabled = True,
      l_LastUpdatedAt = None, l_LastError = []\<rparr>"
  let ?l' = "?l\<lparr>l_LastUpdatedAt := Some 9, l_LastError := []\<rparr>"
  let ?q = "\<lparr>q_Name = ''x.ads.example.'', q_Type = 1, q_ClientIP = AddrInvalid, q_Timestamp = None\<rparr>"
  let ?e = "\<lparr>e_Domain = ''ads.example'', e_Kind = EntrySuffix, e_Allow = False, e_Source = ''/lists/ads''\<rparr>"
  have row: "row_by l_ID 1 (f_lists (db_tables (demo_db []))) = Some ?l"
    by (simp add: demo_db_def row_by_def tbl_find_def)
  have g: "GetList 1 (demo_db []) = (Inr ?l, demo_db [])"
    using row by (simp add: GetList_def query_one_no_fault demo_db_def)
  have op: "openListSource list_env ?l = Inr (NewReader ''||ads.example^'', ''/lists/ads'')"
    by (simp add: openListSource_def list_env_def)
  have pa: "Parse (NewReader ''||ads.example^'') ''/lists/ads'' [] = (Inr [?e], [])"
  proof (subst Parse_no_fault)
    have "parseLine ''||ads.example^'' ''/lists/ads'' = [?e]" by (simp add: go_eval Let_def)
    then show "(Inr (concat (map (\<lambda>l. parseLine (dropCR l) ''/lists/ads'') (raw_lines ''||ads.example^''))), []) = (Inr [?e], [])"
      by (simp add: raw_lines_def newline_def dropCR_def)
  qed (simp add: raw_lines_def newline_def MaxScanTokenSize_def)
  have "parsed_ok ?e" using Parse_entries [OF pa] by (auto simp: parsed_ok_def)
  then have loop: "import_loop (\<lambda>_. None) 1 {} [?e] = [imported 1 ?e]"
    using import_loop_Cons [of ?e 1 "\<lambda>_. None" "{}" "[]"] by simp
  have v: "validate_all (\<lambda>_. None) 1 [imported 1 ?e] = Inr [imported 1 ?e]"
    by (rule validate_all_fixed) (use \<open>parsed_ok ?e\<close> in auto)
  have im: "importListEntries (\<lambda>_. None) list_env ?l (demo_db []) = (Inr [imported 1 ?e], demo_db [])"
    by (simp add: importListEntries_def op then_do_def wrap_err_def on_db_faults_def demo_db_def pa loop Let_def
        del: import_loop.simps)
  obtain d' where rep: "ReplaceListEntries (\<lambda>_. None) 1 [imported 1 ?e] (Some 9) (demo_db []) = (Inr ?l', d')"
    and ref: "refreshed 1 [imported 1 ?e] (Some 9) (db_tables (demo_db [])) (db_tables d')" and f: "db_faults d' = []"
    using replace_no_fault [OF demo_db_ok _ row v, of "Some 9"] by (auto simp: demo_db_def)
  have run: "RefreshList (\<lambda>_. None) list_env (Some 9) 1 (demo_db []) = ((?l', None), d')"
    by (simp add: RefreshList_def g im rep)
  let ?io = "\<lparr>io_files = \<lambda>_. Inl db_error, io_faults = [], io_world = d'\<rparr> :: filter_db db io"
  have m: "m_paths demo_manager = []" "m_sources demo_manager = [BlocklistSource_Entries]" "m_bundled demo_manager = False"
    by (simp_all add: demo_manager_def NewManagerWithBundledAndSources_def newManager_def)
  obtain m' io' where rel: "manager_Reload (Some 9) demo_manager ?io = (Inr (), m', io')"
    by (simp add: manager_Reload_def loadEntries_def m load_source_def on_faults_def on_world_def then_do_def
        BlocklistSource_Entries_def BlocklistEntries_def f)
  have n: "normalizeDomain (q_Name ?q) = Some ''x.ads.example''" by code_simp
  have c: "covers (e_Kind ?e) (e_Domain ?e) ''x.ads.example''" by code_simp
  have a: "\<not> listed True (runtime_entries (db_tables d')) ''x.ads.example''"
    using ref by (intro runtime_no_allow) (auto simp: refreshed_def demo_db_def KindAllow_def tbl_update_def)
  obtain lst r source parsed fs fs' where "row_by l_ID 1 (f_lists (db_tables (demo_db []))) = Some lst"
      and "openListSource list_env lst = Inr (r, source)" and p: "Parse r source fs = (Inr parsed, fs')"
      and all: "\<forall>q name e. e \<in> set parsed \<and> normalizeDomain (q_Name q) = Some name \<and> covers (e_Kind e) (e_Domain e) name \<and>
          \<not> listed True ((if m_bundled demo_manager then parsedBundledEntries else []) @ runtime_entries (db_tables d')) name \<longrightarrow>
          d_Action (manager_Decide m' q) = ActionBlock"
    using refreshed_list_blocks [OF run _ _ m(1,2) _ rel] by (auto simp: KindAllow_def)
  then have "r = NewReader ''||ads.example^''" and "source = ''/lists/ads''" using row op by auto
  then have "parsed = [?e]" using Parse_deterministic p pa by blast
  then have "d_Action (manager_Decide m' ?q) = ActionBlock"
    using all [rule_format, of ?e ?q "''x.ads.example''"] n c a m(3) by simp
  then show ?thesis using rel run by auto
qed

end
