(* ===== verification/Filter_Crud.thy ===== *)
theory Filter_Crud
  imports Filter_Refresh
begin

text \<open>
  What the operations on single rows promise: a created rule is read back as validated, under a
  fresh identifier and with a global scope; and what the deletion of a group does to the rules it
  scoped.
\<close>

lemma exec_insert_ok:
  assumes "exec_insert m m' stmt d = (Inr i, d')"
  shows "stmt (db_tables d) = Inr (i, db_tables d')"
proof -
  obtain d1 where r: "sql_run stmt d = (Inr i, d1)" and p: "wrap_err (Wrapf m') (sql_poll db_error) d1 = (Inr (), d')"
    using assms by (auto simp: exec_insert_def then_do_eq_Inr)
  have "db_tables d' = db_tables d1" by (rule readsD [OF reads_wrap_err [OF reads_poll] p])
  then show ?thesis using sql_run_ok [OF r] by simp
qed

lemma left_join_none: "\<forall>m \<in> set (mappings tab tb). fst m \<noteq> i \<Longrightarrow> left_join_groups tab i tb = [0]"
proof -
  assume "\<forall>m \<in> set (mappings tab tb). fst m \<noteq> i"
  then have "filter (\<lambda>m. fst m = i) (mappings tab tb) = []" by (simp add: filter_empty_conv)
  then show ?thesis by (simp add: left_join_groups_def)
qed

lemma global_decision_rule:
  assumes "r \<in> set (t_rows (f_rules tb))" and "\<forall>m \<in> set (f_rule_groups tb). fst m \<noteq> ru_ID r"
  shows "\<lparr>sr_Rule = r, sr_GroupID = 0\<rparr> \<in> set (decision_rules tb)"
proof -
  have "left_join_groups filter_rule_groups (ru_ID r) tb = [0]" by (rule left_join_none) (use assms(2) in simp)
  then show ?thesis using assms(1) by (auto simp: decision_rules_def tbl_select_def intro!: bexI [of _ r])
qed

text \<open>
  A created rule round-trips: the returned rule is the validated one under a fresh positive
  identifier, it is what \<open>GetRule\<close> finds under it, every other row is untouched, and the deciders see
  it at once, enabled as given, in global scope.
\<close>

theorem create_rule_roundtrip:
  assumes "filter_ok rx (db_tables d)" and "CreateRule rx r d = (Inr r', d')"
  shows "validateRule rx r = Inr (r'\<lparr>ru_ID := ru_ID r\<rparr>) \<and> 0 < ru_ID r' \<and>
         row_by ru_ID (ru_ID r') (f_rules (db_tables d)) = None \<and>
         (\<forall>i. row_by ru_ID i (f_rules (db_tables d')) =
            (if i = ru_ID r' then Some r' else row_by ru_ID i (f_rules (db_tables d)))) \<and>
         db_tables d' = (db_tables d)\<lparr>f_rules := f_rules (db_tables d')\<rparr> \<and>
         \<lparr>sr_Rule = r', sr_GroupID = 0\<rparr> \<in> set (decision_rules (db_tables d'))"
proof -
  let ?tb = "db_tables d"
  obtain v i d1 where v: "validateRule rx r = Inr v"
    and ins: "exec_insert ''create filter rule'' ''read created filter rule id'' (insert_rule_stmt v) d = (Inr i, d1)"
    and get: "GetRule i d1 = (Inr r', d')"
    using assms(2) by (cases "validateRule rx r") (auto simp: CreateRule_def then_do_eq_Inr)
  let ?t = "snd (tbl_insert set_ru_ID v (f_rules ?tb))"
  have i: "i = fst (tbl_insert set_ru_ID v (f_rules ?tb))" and d1: "db_tables d1 = ?tb\<lparr>f_rules := ?t\<rparr>"
    using exec_insert_ok [OF ins] by (auto simp: insert_rule_stmt_def split: if_splits prod.splits)
  have ok: "table_ok ru_ID (f_rules ?tb)" using assms(1) by (simp add: filter_parts)
  have g: "row_by ru_ID i (f_rules (db_tables d1)) = Some r'" and d': "db_tables d' = db_tables d1"
    using query_one_ok [OF get [unfolded GetRule_def]] by simp_all
  have rows: "row_by ru_ID j ?t = (if j = i then Some (set_ru_ID i v) else row_by ru_ID j (f_rules ?tb))" for j
    using rules.row_by_insert [OF ok, of j v] i by auto
  have r': "r' = set_ru_ID i v" using g rows [of i] by (simp add: d1)
  then have id: "ru_ID r' = i" by (simp add: set_ru_ID_def)
  have fresh: "row_by ru_ID i (f_rules ?tb) = None" using rules.insert_fresh [OF ok, of v] i by simp
  have "i \<notin> ids ru_ID (f_rules ?tb)" using fresh row_by_ids [of ru_ID i "f_rules ?tb"] by simp
  then have "\<forall>m \<in> set (f_rule_groups (db_tables d')). fst m \<noteq> ru_ID r'"
    using assms(1) by (auto simp: filter_parts d' d1 id)
  moreover have "r' \<in> set (t_rows (f_rules (db_tables d')))" using g d' row_by_set [of ru_ID i _ r'] by simp
  ultimately have "\<lparr>sr_Rule = r', sr_GroupID = 0\<rparr> \<in> set (decision_rules (db_tables d'))"
    by (intro global_decision_rule)
  moreover have "validateRule rx r = Inr (r'\<lparr>ru_ID := ru_ID r\<rparr>)"
    using v validateRule_Inr(2) [OF v] by (simp add: r' set_ru_ID_def)
  moreover have "0 < i" using rules.insert_id_pos [OF ok, of v] i by simp
  ultimately show ?thesis using fresh rows id r' d' d1 by simp
qed

theorem create_rule_roundtrip_witness:
  "\<exists>r' d'. CreateRule (\<lambda>_. None) \<lparr>ru_ID = 0, ru_Pattern = ''Ads.Example.'', ru_Kind = ''Deny'', ru_MatchType = ''suffix'',
        ru_Enabled = True, ru_Comment = []\<rparr> \<lparr>db_tables = empty_filter_db, db_faults = []\<rparr> = (Inr r', d') \<and>
      \<lparr>sr_Rule = r', sr_GroupID = 0\<rparr> \<in> set (decision_rules (db_tables d')) \<and> ru_Pattern r' = ''ads.example''"
proof -
  let ?r = "\<lparr>ru_ID = 0, ru_Pattern = ''Ads.Example.'', ru_Kind = ''Deny'', ru_MatchType = ''suffix'', ru_Enabled = True, ru_Comment = []\<rparr>"
  let ?d = "\<lparr>db_tables = empty_filter_db, db_faults = []\<rparr>"
  let ?v = "\<lparr>ru_ID = 0, ru_Pattern = ''ads.example'', ru_Kind = KindDeny, ru_MatchType = MatchSuffix, ru_Enabled = True, ru_Comment = []\<rparr>"
  have v: "validateRule (\<lambda>_. None) ?r = Inr ?v" by code_simp
  have c: "check_rule ?v" by (simp add: check_rule_def filter_const_defs)
  obtain r' d' where cr: "CreateRule (\<lambda>_. None) ?r ?d = (Inr r', d')"
    by (simp add: CreateRule_def v then_do_def exec_insert_def wrap_err_def sql_run_no_fault insert_rule_stmt_def c
        tbl_insert_def empty_filter_db_def empty_table_def GetRule_def query_one_no_fault row_by_def tbl_find_def set_ru_ID_def)
  have "r'\<lparr>ru_ID := 0\<rparr> = ?v" using create_rule_roundtrip [OF _ cr] empty_filter_ok v by simp
  then have "ru_Pattern (r'\<lparr>ru_ID := 0\<rparr>) = ''ads.example''" by simp
  then have "ru_Pattern r' = ''ads.example''" by simp
  then show ?thesis using create_rule_roundtrip [OF _ cr] empty_filter_ok cr by auto
qed

text \<open>
  Deleting a group silently widens the rules it scoped: when a group that was the only group of a
  rule is deleted, the deciders see that rule in global scope, for every client.
\<close>

theorem delete_group_widens_rule:
  assumes "filter_ok rx (db_tables d)" and "r \<in> set (t_rows (f_rules (db_tables d)))"
    and "\<forall>m \<in> set (f_rule_groups (db_tables d)). fst m = ru_ID r \<longrightarrow> snd m = g"
    and "DeleteGroup g d = (Inr (), d')"
  shows "\<lparr>sr_Rule = r, sr_GroupID = 0\<rparr> \<in> set (decision_rules (db_tables d'))"
proof -
  obtain n tb' where "n \<noteq> 0" and "delete_group_stmt g (db_tables d) = Inr (n, tb')" and tb': "db_tables d' = tb'"
    using exec_affecting_ok [OF assms(4) [unfolded DeleteGroup_def]] by blast
  then have "f_rules (db_tables d') = f_rules (db_tables d)"
    and "f_rule_groups (db_tables d') = filter (\<lambda>(r, h). h \<noteq> g) (f_rule_groups (db_tables d))"
    unfolding tb' by (auto simp: delete_group_stmt_def split: prod.splits if_splits)
  then show ?thesis using assms(2,3) by (intro global_decision_rule) auto
qed

definition scoped_db :: "filter_db db" where
  "scoped_db =
     \<lparr>db_tables = empty_filter_db\<lparr>
        f_rules := \<lparr>t_rows = [\<lparr>ru_ID = 1, ru_Pattern = ''games.example'', ru_Kind = KindDeny, ru_MatchType = MatchExact,
          ru_Enabled = True, ru_Comment = []\<rparr>], t_seq = 1\<rparr>,
        f_groups := \<lparr>t_rows = [\<lparr>g_ID = 1, g_Name = ''kids'', g_Comment = [], g_Enabled = True\<rparr>], t_seq = 1\<rparr>,
        f_rule_groups := [(1, 1)]\<rparr>,
      db_faults = []\<rparr>"

theorem delete_group_widens_rule_witness:
  "\<exists>d'. DeleteGroup 1 scoped_db = (Inr (), d') \<and>
     decision_rules (db_tables scoped_db) = [\<lparr>sr_Rule = hd (t_rows (f_rules (db_tables scoped_db))), sr_GroupID = 1\<rparr>] \<and>
     \<lparr>sr_Rule = hd (t_rows (f_rules (db_tables scoped_db))), sr_GroupID = 0\<rparr> \<in> set (decision_rules (db_tables d'))"
proof -
  have ok: "filter_ok (\<lambda>_. None) (db_tables scoped_db)"
    by (simp add: scoped_db_def filter_parts empty_filter_db_def empty_table_def table_ok_def valid_rule_def
        valid_pattern_def valid_group_def ids_def filter_const_defs go_eval)
  obtain d' where del: "DeleteGroup 1 scoped_db = (Inr (), d')"
    by (simp add: DeleteGroup_def exec_affecting_def requireAffected_def delete_group_stmt_def then_do_def wrap_err_def
        sql_run_no_fault scoped_db_def tbl_delete_def)
  have "decision_rules (db_tables scoped_db) = [\<lparr>sr_Rule = hd (t_rows (f_rules (db_tables scoped_db))), sr_GroupID = 1\<rparr>]"
    by (simp add: decision_rules_def scoped_db_def tbl_select_def left_join_groups_def)
  moreover have "\<lparr>sr_Rule = hd (t_rows (f_rules (db_tables scoped_db))), sr_GroupID = 0\<rparr> \<in> set (decision_rules (db_tables d'))"
    using delete_group_widens_rule [OF ok _ _ del] by (simp add: scoped_db_def)
  ultimately show ?thesis using del by blast
qed

end
