(* ===== verification/Netip_Facts.thy ===== *)
theory Netip_Facts
  imports Netip
begin

text \<open>
  Facts on addresses and their text: every address, IPv4 or IPv6, compressed, IPv4-mapped or with a zone, is read back
  from what \<open>String\<close> prints; the address kinds of what the parsers accept; and that IPv4 addresses hold no white space.
\<close>

lemma of_char_dig: "n < 10 \<Longrightarrow> (of_char (dig n) :: nat) = 48 + n"
  by (simp add: dig_def)

lemma is_digit_dig [simp]: "n < 10 \<Longrightarrow> is_digit (dig n)"
  by (simp add: is_digit_def of_char_dig)

lemma digit_val_dig [simp]: "n < 10 \<Longrightarrow> digit_val (dig n) = n"
  by (simp add: digit_val_def of_char_dig)

lemma dig_not_special: "n < 10 \<Longrightarrow> dig n \<noteq> CHR ''.'' \<and> dig n \<noteq> CHR '':'' \<and> dig n \<noteq> CHR ''%''"
  unfolding char_eq_nat by (simp add: of_char_dig)

lemma octet_cases:
  assumes "n < 256"
  obtains (one) a where "a < 10" and "n = a" and "octet_string n = [dig a]"
  | (two) a b where "0 < a" and "a < 10" and "b < 10" and "n = a * 10 + b" and "octet_string n = [dig a, dig b]"
  | (three) a b c where "0 < a" and "a < 10" and "b < 10" and "c < 10" and "n = (a * 10 + b) * 10 + c"
      and "octet_string n = [dig a, dig b, dig c]"
proof -
  consider "n < 10" | "10 \<le> n" "n < 100" | "100 \<le> n" by linarith
  then show thesis
  proof cases
    case 1
    then show ?thesis by (intro one [of n]) (simp_all add: octet_string_def)
  next
    case 2
    have "n = n div 10 * 10 + n mod 10" by simp
    moreover have "n div 10 mod 10 = n div 10" using 2 by simp
    ultimately show ?thesis using 2 by (intro two [of "n div 10" "n mod 10"]) (simp_all add: octet_string_def)
  next
    case 3
    have "n = (n div 100 * 10 + n div 10 mod 10) * 10 + n mod 10"
      using div_mult_mod_eq [of n 10] div_mult_mod_eq [of "n div 10" 10] by (simp add: div_mult2_eq [symmetric] algebra_simps)
    then show ?thesis using 3 assms
      by (intro three [of "n div 100" "n div 10 mod 10" "n mod 10"]) (simp_all add: octet_string_def)
  qed
qed

lemma parse_octet_dot:
  assumes "n < 256" and "length fs < 3" and "cs \<noteq> []"
  shows "parseIPv4Fields p 0 0 fs (octet_string n @ CHR ''.'' # cs) = parseIPv4Fields (Some (CHR ''.'')) 0 0 (fs @ [n]) cs"
proof -
  have dot: "\<not> is_digit (CHR ''.'')" by (simp add: is_digit_def)
  show ?thesis
    using assms(1)
  proof (cases n rule: octet_cases)
    case (one a)
    then show ?thesis using assms dig_not_special [of a] by (simp add: Let_def dot)
  next
    case (two a b)
    then show ?thesis using assms dig_not_special [of b] by (simp add: Let_def dot)
  next
    case (three a b c)
    then show ?thesis using assms dig_not_special [of c] by (simp add: Let_def dot)
  qed
qed

lemma parse_octet_end:
  assumes "n < 256" and "length fs = 3"
  shows "parseIPv4Fields p 0 0 fs (octet_string n) = Some (fs @ [n])"
  using assms(1)
proof (cases n rule: octet_cases)
  case (one a)
  then show ?thesis using assms by (simp add: Let_def)
next
  case (two a b)
  then show ?thesis using assms by (simp add: Let_def)
next
  case (three a b c)
  then show ?thesis using assms by (simp add: Let_def)
qed

lemma octet_not_Nil [simp]: "octet_string n \<noteq> []"
  by (simp add: octet_string_def)

lemma first_special_octet: "n < 256 \<Longrightarrow> first_special (octet_string n @ CHR ''.'' # cs) = Some (CHR ''.'')"
  by (cases n rule: octet_cases) (simp_all add: dig_not_special)

lemma unat_octet [simp]: "unat (w :: 8 word) < 256"
proof -
  have "unat w < 2 ^ LENGTH(8)" by (rule unsigned_less)
  then show ?thesis by simp
qed

lemma ParseAddr_string4 [simp]: "ParseAddr (string4 a b c d) = Some (Addr4 a b c d)"
proof -
  have "parseIPv4Fields None 0 0 [] (string4 a b c d) = Some [unat a, unat b, unat c, unat d]"
    by (simp add: string4_def parse_octet_dot parse_octet_end)
  then show ?thesis
    by (simp add: ParseAddr_def parseIPv4_def string4_def first_special_octet)
qed

lemma parseIPv4_Is4: "parseIPv4 s = Some a \<Longrightarrow> addr_Is4 a"
  unfolding parseIPv4_def by (auto simp: bind_eq_Some_conv elim!: addr4_of.elims)

lemma parseIPv6_Is6: "parseIPv6 s = Some a \<Longrightarrow> addr_Is6 a"
  unfolding parseIPv6_def by (auto simp: Let_def split: if_splits prod.splits)

lemma addr_Is4_cases: "addr_Is4 a \<longleftrightarrow> (\<exists>w x y z. a = Addr4 w x y z)"
  by (cases a) auto

lemma addr_Is6_cases: "addr_Is6 a \<longleftrightarrow> (\<exists>gs z. a = Addr6 gs z)"
  by (cases a) auto

lemma octet_chars: "n < 256 \<Longrightarrow> \<forall>c \<in> set (octet_string n). \<not> is_space c"
  by (cases n rule: octet_cases) (auto simp: is_space_nat of_char_dig)

lemma string4_no_space: "\<forall>c \<in> set (string4 a b c' d). \<not> is_space c"
  using octet_chars [OF unat_octet, of a] octet_chars [OF unat_octet, of b] octet_chars [OF unat_octet, of c']
    octet_chars [OF unat_octet, of d]
  by (auto simp: string4_def is_space_nat)

section \<open>IPv6\<close>

lemma hex_val_hexdig [simp]: "n < 16 \<Longrightarrow> hex_val (hexdig n) = Some n"
  by (cases "n < 10") (simp_all add: hex_val_def hexdig_def)

lemma hex_val_special [simp]: "hex_val (CHR '':'') = None" "hex_val (CHR ''.'') = None" "hex_val (CHR ''%'') = None"
  by (simp_all add: hex_val_def)

lemma hexdig_not_special: "n < 16 \<Longrightarrow> hexdig n \<noteq> CHR ''.'' \<and> hexdig n \<noteq> CHR '':'' \<and> hexdig n \<noteq> CHR ''%''"
  by (metis hex_val_hexdig hex_val_special option.distinct(1))

lemma hex_cases:
  assumes "n < 65536"
  obtains (one) a where "a < 16" and "n = a" and "hex_string n = [hexdig a]"
  | (two) a b where "a < 16" and "b < 16" and "n = a * 16 + b" and "hex_string n = [hexdig a, hexdig b]"
  | (three) a b c where "a < 16" and "b < 16" and "c < 16" and "n = (a * 16 + b) * 16 + c"
      and "hex_string n = [hexdig a, hexdig b, hexdig c]"
  | (four) a b c d where "a < 16" and "b < 16" and "c < 16" and "d < 16" and "n = ((a * 16 + b) * 16 + c) * 16 + d"
      and "hex_string n = [hexdig a, hexdig b, hexdig c, hexdig d]"
proof -
  have two': "n = n div 16 * 16 + n mod 16" by simp
  have three': "n = (n div 256 * 16 + n div 16 mod 16) * 16 + n mod 16"
    using div_mult_mod_eq [of n 16] div_mult_mod_eq [of "n div 16" 16] by (simp add: div_mult2_eq [symmetric] algebra_simps)
  have four': "n = ((n div 4096 * 16 + n div 256 mod 16) * 16 + n div 16 mod 16) * 16 + n mod 16"
    using three' div_mult_mod_eq [of "n div 256" 16] by (simp add: div_mult2_eq [symmetric] algebra_simps)
  consider "n < 16" | "16 \<le> n" "n < 256" | "256 \<le> n" "n < 4096" | "4096 \<le> n" by linarith
  then show thesis
  proof cases
    case 1
    then show ?thesis by (intro one [of n]) (simp_all add: hex_string_def)
  next
    case 2
    then have "n div 16 < 16" "n div 16 mod 16 = n div 16" by simp_all
    then show ?thesis using 2 two' by (intro two [of "n div 16" "n mod 16"]) (simp_all add: hex_string_def)
  next
    case 3
    then have "n div 256 < 16" "n div 256 mod 16 = n div 256" by simp_all
    then show ?thesis using 3 three'
      by (intro three [of "n div 256" "n div 16 mod 16" "n mod 16"]) (simp_all add: hex_string_def)
  next
    case 4
    have "n div 4096 < 16" using assms by simp
    then show ?thesis using 4 four'
      by (intro four [of "n div 4096" "n div 256 mod 16" "n div 16 mod 16" "n mod 16"]) (simp_all add: hex_string_def)
  qed
qed

lemma hex_group_string:
  assumes "n < 65536" and "\<forall>c cs. s = c # cs \<longrightarrow> hex_val c = None"
  shows "hex_group 0 0 (hex_string n @ s) = Some (n, length (hex_string n), s)"
proof -
  have s: "hex_group acc off s = Some (acc, off, s)" for acc off
    using assms(2) by (cases s) simp_all
  show ?thesis using assms(1) by (cases n rule: hex_cases) (simp_all add: Let_def s)
qed

lemma hex_chars:
  "n < 65536 \<Longrightarrow> \<forall>x \<in> set (hex_string n). x \<noteq> CHR ''.'' \<and> x \<noteq> CHR '':'' \<and> x \<noteq> CHR ''%''"
  by (cases n rule: hex_cases) (auto simp: hexdig_not_special)

lemma first_special_skip: "\<forall>x \<in> set s. x \<noteq> CHR ''.'' \<and> x \<noteq> CHR '':'' \<and> x \<noteq> CHR ''%'' \<Longrightarrow> first_special (s @ t) = first_special t"
  by (induction s) simp_all

lemma hex_not_Nil [simp]: "hex_string n \<noteq> []"
  by (simp add: hex_string_def)

lemma parse6_end:
  assumes "length gs < 8" and "n < 65536"
  shows "parse6_loop gs ell (hex_string n) = Some (gs @ [n], ell, [])"
proof -
  have "hex_group 0 0 (hex_string n) = Some (n, length (hex_string n), [])" using hex_group_string [of n "[]"] assms(2) by simp
  then show ?thesis using assms(1) by (subst parse6_loop.simps) simp
qed

lemma parse6_next:
  assumes "length gs < 8" and "n < 65536" and "c \<noteq> CHR '':''"
  shows "parse6_loop gs ell (hex_string n @ CHR '':'' # c # r) = parse6_loop (gs @ [n]) ell (c # r)"
proof -
  have "hex_group 0 0 (hex_string n @ CHR '':'' # c # r) = Some (n, length (hex_string n), CHR '':'' # c # r)"
    using hex_group_string assms(2) by simp
  then show ?thesis using assms(1,3) by (subst parse6_loop.simps) simp
qed

lemma parse6_ellipsis:
  assumes "length gs < 8" and "n < 65536"
  shows "parse6_loop gs None (hex_string n @ CHR '':'' # CHR '':'' # r) =
    (if r = [] then Some (gs @ [n], Some (Suc (length gs)), []) else parse6_loop (gs @ [n]) (Some (Suc (length gs))) r)"
proof -
  have "hex_group 0 0 (hex_string n @ CHR '':'' # CHR '':'' # r) = Some (n, length (hex_string n), CHR '':'' # CHR '':'' # r)"
    using hex_group_string assms(2) by simp
  then show ?thesis using assms(1) by (subst parse6_loop.simps) simp
qed

abbreviation joined :: "nat list \<Rightarrow> string" where
  "joined hs \<equiv> join_colon (map hex_string hs)"

lemma joined_Cons:
  assumes "hs \<noteq> []" and "\<forall>h \<in> set hs. h < 65536"
  shows "\<exists>c cs. joined hs = c # cs \<and> c \<noteq> CHR '':''"
proof -
  obtain h hs' where hs: "hs = h # hs'" using assms(1) by (cases hs) simp_all
  obtain c cs where "hex_string h = c # cs" "c \<noteq> CHR '':''"
    using hex_chars [of h] assms(2) hs by (cases "hex_string h") simp_all
  then show ?thesis using hs by (cases hs') simp_all
qed

lemma joined_chars: "\<forall>h \<in> set hs. h < 65536 \<Longrightarrow> \<forall>x \<in> set (joined hs). x \<noteq> CHR ''.'' \<and> x \<noteq> CHR ''%''"
proof (induction hs)
  case (Cons h hs)
  have "\<forall>x \<in> set (hex_string h). x \<noteq> CHR ''.'' \<and> x \<noteq> CHR ''%''" using hex_chars [of h] Cons.prems by simp
  then show ?case using Cons by (cases hs) (simp_all add: ball_Un)
qed simp

lemma first_special_joined: "h < 65536 \<Longrightarrow> hs \<noteq> [] \<Longrightarrow> first_special (joined (h # hs) @ s) = Some (CHR '':'')"
  using hex_chars [of h] by (cases hs) (simp_all add: first_special_skip)

lemma first_special_ellipsis:
  "\<forall>h \<in> set hs. h < 65536 \<Longrightarrow> first_special (joined hs @ CHR '':'' # s) = Some (CHR '':'')"
  using hex_chars [of "hd hs"] first_special_joined [of "hd hs" "tl hs"] by (cases hs; cases "tl hs") (simp_all add: first_special_skip)

lemma parse6_joined:
  assumes "hs \<noteq> []" and "\<forall>h \<in> set hs. h < 65536" and "length gs + length hs \<le> 8"
  shows "parse6_loop gs ell (joined hs) = Some (gs @ hs, ell, [])"
  using assms
proof (induction hs arbitrary: gs)
  case (Cons h hs)
  show ?case
  proof (cases hs)
    case Nil
    then show ?thesis using Cons.prems by (simp add: parse6_end)
  next
    case (Cons h' hs')
    obtain c cs where "joined hs = c # cs" "c \<noteq> CHR '':''" using joined_Cons [of hs] Cons Cons.prems by auto
    then show ?thesis using Cons Cons.prems Cons.IH [of "gs @ [h]"] by (simp add: parse6_next)
  qed
qed simp

lemma parse6_compressed:
  assumes "hs \<noteq> []" and "\<forall>h \<in> set (hs @ ts). h < 65536" and "length gs + length hs + length ts < 8"
  shows "parse6_loop gs None (joined hs @ ''::'' @ joined ts) = Some (gs @ hs @ ts, Some (length gs + length hs), [])"
  using assms
proof (induction hs arbitrary: gs)
  case (Cons h hs)
  show ?case
  proof (cases hs)
    case Nil
    have "joined ts = [] \<longleftrightarrow> ts = []" using joined_Cons [of ts] Cons.prems(2) by (metis UnCI join_colon.simps(1) list.simps(8) list.distinct(1) set_append)
    then show ?thesis using Nil Cons.prems parse6_joined [of ts] by (auto simp: parse6_ellipsis)
  next
    case (Cons h' hs')
    obtain c cs where "joined hs = c # cs" "c \<noteq> CHR '':''" using joined_Cons [of hs] Cons Cons.prems by auto
    then show ?thesis using Cons Cons.prems Cons.IH [of "gs @ [h]"] by (simp add: parse6_next)
  qed
qed simp

text \<open>The run that is left out is one of zeros.\<close>

lemma zero_run_take: "take (zero_run gs) gs = replicate (zero_run gs) 0" and zero_run_length: "zero_run gs \<le> length gs"
  by (induction gs) simp_all

lemma best_run_zeros:
  assumes "best_run i best (drop i gs) = (st, l)" and "i \<le> length gs"
    and "\<And>st l. best = (st, l) \<Longrightarrow> l \<noteq> 1 \<and> st + l \<le> length gs \<and> take l (drop st gs) = replicate l 0"
  shows "l \<noteq> 1 \<and> st + l \<le> length gs \<and> take l (drop st gs) = replicate l 0"
  using assms
proof (induction "drop i gs" arbitrary: i best)
  case (Cons g rest)
  have i: "i < length gs" using Cons.hyps(2) by (metis drop_all leI list.distinct(1))
  let ?l = "zero_run (drop i gs)"
  have rest: "rest = drop (Suc i) gs" using Cons.hyps(2) by (metis drop_Suc list.sel(3) tl_drop)
  have step: "best_run (Suc i) (if 2 \<le> ?l \<and> snd best < ?l then (i, ?l) else best) rest = (st, l)"
    using Cons.prems(1) best_run.simps(2) [of i best g rest] unfolding Let_def Cons.hyps(2) by simp
  have better: "l' \<noteq> 1 \<and> st' + l' \<le> length gs \<and> take l' (drop st' gs) = replicate l' 0"
    if "(if 2 \<le> ?l \<and> snd best < ?l then (i, ?l) else best) = (st', l')" for st' l'
    using that Cons.prems(3) zero_run_take [of "drop i gs"] zero_run_length [of "drop i gs"] i by (auto split: if_splits)
  show ?case
  proof (rule Cons.hyps(1) [OF rest])
    show "best_run (Suc i) (if 2 \<le> ?l \<and> snd best < ?l then (i, ?l) else best) (drop (Suc i) gs) = (st, l)"
      using step unfolding rest .
  qed (use i better in auto)
qed auto

lemma best_run_first: "best_run 0 (0, 0) gs = (st, l) \<Longrightarrow> l \<noteq> 1 \<and> st + l \<le> length gs \<and> take l (drop st gs) = replicate l 0"
  using best_run_zeros [of 0 "(0, 0)" gs st l] by simp

lemma parseIPv6_zone:
  assumes "CHR ''%'' \<notin> set s"
  shows "parseIPv6 (s @ zone_suffix z) =
    (if HasPrefix s ''::'' then
       (if length s = 2 then Some (Addr6 (replicate 8 0) z)
        else map_option (\<lambda>gs. Addr6 (map of_nat gs) z) (Option.bind (parse6_loop [] (Some 0) (drop 2 s)) expand6))
     else map_option (\<lambda>gs. Addr6 (map of_nat gs) z) (Option.bind (parse6_loop [] None s) expand6))"
  using Cut_none [OF assms] Cut_at [OF assms, of z] by (cases "z = []") (simp_all add: parseIPv6_def zone_suffix_def Let_def)

lemma string6_parts:
  assumes "\<forall>g \<in> set gs. g < 65536" and "length gs = 8"
  obtains (plain) "string6 gs = joined gs"
    | (left) hs ts where "string6 gs = joined hs @ ''::'' @ joined ts" and "gs = hs @ replicate (8 - length (hs @ ts)) 0 @ ts" and "length (hs @ ts) < 8"
proof -
  obtain st l where b: "best_run 0 (0, 0) gs = (st, l)" by fastforce
  have z: "st + l \<le> 8" "take l (drop st gs) = replicate l 0" using best_run_first [OF b] assms(2) by simp_all
  show thesis
  proof (cases "l = 0")
    case True
    then show ?thesis using b plain by (simp add: string6_def)
  next
    case False
    have "gs = take st gs @ take l (drop st gs) @ drop (st + l) gs"
      by (metis add.commute append_take_drop_id drop_drop)
    then have "gs = take st gs @ replicate l 0 @ drop (st + l) gs" using z(2) by simp
    moreover have "8 - length (take st gs @ drop (st + l) gs) = l" "length (take st gs @ drop (st + l) gs) < 8"
      using z(1) assms(2) False by simp_all
    moreover have "string6 gs = joined (take st gs) @ ''::'' @ joined (drop (st + l) gs)" using b False by (simp add: string6_def)
    ultimately show ?thesis using left by metis
  qed
qed

lemma parse_string6:
  assumes "\<forall>g \<in> set gs. g < 65536" and "length gs = 8"
  shows "ParseAddr (string6 gs @ zone_suffix z) = Some (Addr6 (map of_nat gs) z)"
  using assms
proof (cases gs rule: string6_parts)
  case plain
  obtain g gs' where gs: "gs = g # gs'" "gs' \<noteq> []" using assms(2) by (cases gs; cases "tl gs") auto
  obtain c cs where j: "joined gs = c # cs" "c \<noteq> CHR '':''" using joined_Cons [of gs] assms gs by blast
  have "CHR ''%'' \<notin> set (joined gs)" using joined_chars [OF assms(1)] by blast
  moreover have "first_special (joined gs @ zone_suffix z) = Some (CHR '':'')" using first_special_joined gs assms(1) by simp
  moreover have "\<not> HasPrefix (joined gs) ''::''" using j by (simp add: HasPrefix_def)
  moreover have "parse6_loop [] None (joined gs) = Some (gs, None, [])" using parse6_joined [of gs "[]"] assms gs by simp
  ultimately show ?thesis using assms(2) by (simp add: plain ParseAddr_def parseIPv6_zone expand6_def)
next
  case (left hs ts)
  have lt: "\<forall>h \<in> set hs. h < 65536" "\<forall>h \<in> set ts. h < 65536" using assms(1) left(2) by (metis UnCI set_append)+
  let ?s = "joined hs @ ''::'' @ joined ts"
  have pc: "CHR ''%'' \<notin> set ?s" using joined_chars [OF lt(1)] joined_chars [OF lt(2)] by auto
  have sp: "first_special (?s @ zone_suffix z) = Some (CHR '':'')" using first_special_ellipsis [OF lt(1)] by simp
  have ex: "expand6 (hs @ ts, Some (length hs), []) = Some gs" using left(2,3) by (simp add: expand6_def)
  have nil: "joined ts = [] \<longleftrightarrow> ts = []" using joined_Cons [of ts] lt(2) by (metis join_colon.simps(1) list.simps(8) list.distinct(1))
  have "(if HasPrefix ?s ''::'' then
       (if length ?s = 2 then Some (Addr6 (replicate 8 0) z)
        else map_option (\<lambda>gs. Addr6 (map of_nat gs) z) (Option.bind (parse6_loop [] (Some 0) (drop 2 ?s)) expand6))
     else map_option (\<lambda>gs. Addr6 (map of_nat gs) z) (Option.bind (parse6_loop [] None ?s) expand6)) = Some (Addr6 (map of_nat gs) z)"
  proof (cases "hs = []")
    case True
    then show ?thesis using left(2,3) ex nil parse6_joined [of ts "[]" "Some 0"] lt(2) by (cases "ts = []") (simp_all add: HasPrefix_def)
  next
    case False
    obtain c cs where "joined hs = c # cs" "c \<noteq> CHR '':''" using joined_Cons [OF False lt(1)] by blast
    then show ?thesis using ex parse6_compressed [OF False, of ts "[]"] lt left(3) by (auto simp: HasPrefix_def ball_Un)
  qed
  then have "parseIPv6 (?s @ zone_suffix z) = Some (Addr6 (map of_nat gs) z)" unfolding parseIPv6_zone [OF pc] .
  then show ?thesis using sp unfolding left(1) ParseAddr_def by (simp only: option.case char.inject) simp
qed

text \<open>The IPv4-mapped addresses are printed with their last two groups as an IPv4 address.\<close>

lemma octet_hex:
  assumes "n < 256" and "\<forall>c cs. s = c # cs \<longrightarrow> hex_val c = None"
  shows "\<exists>v off. hex_group 0 0 (octet_string n @ s) = Some (v, Suc off, s)"
proof -
  have h: "hex_val (dig k) = Some k" if "k < 10" for k using that by (simp add: hex_val_def of_char_dig)
  have s: "hex_group acc off s = Some (acc, off, s)" for acc off using assms(2) by (cases s) simp_all
  show ?thesis using assms(1) by (cases n rule: octet_cases) (simp_all add: Let_def h s)
qed

lemma parse6_dotted:
  assumes "length gs \<le> 6"
  shows "parse6_loop gs (Some e) (string4 a b c d) =
    Some (gs @ [unat a * 256 + unat b, unat c * 256 + unat d], Some e, [])"
proof -
  let ?rest = "octet_string (unat b) @ ''.'' @ octet_string (unat c) @ ''.'' @ octet_string (unat d)"
  have s: "string4 a b c d = octet_string (unat a) @ CHR ''.'' # ?rest" by (simp add: string4_def)
  obtain v off where h: "hex_group 0 0 (string4 a b c d) = Some (v, Suc off, CHR ''.'' # ?rest)"
    using octet_hex [of "unat a" "CHR ''.'' # ?rest"] unfolding s by auto
  have "parseIPv4Fields None 0 0 [] (string4 a b c d) = Some [unat a, unat b, unat c, unat d]"
    by (simp add: string4_def parse_octet_dot parse_octet_end)
  then show ?thesis using h assms by (subst parse6_loop.simps) simp
qed

lemma split_group: "(of_nat (unat ((of_nat (unat g div 256)) :: 8 word) * 256 + unat ((of_nat (unat g mod 256)) :: 8 word)) :: 16 word) = g"
proof -
  have "unat g < 65536" using unsigned_less [of g] by simp
  then have "unat g div 256 < 256" by simp
  then have "unat ((of_nat (unat g div 256)) :: 8 word) = unat g div 256" "unat ((of_nat (unat g mod 256)) :: 8 word) = unat g mod 256"
    by (simp_all add: unat_of_nat)
  then show ?thesis by simp
qed

lemma octet_no_percent: "n < 256 \<Longrightarrow> \<forall>c \<in> set (octet_string n). c \<noteq> CHR ''%''"
  by (cases n rule: octet_cases) (auto simp: dig_not_special)

lemma string4_no_percent: "CHR ''%'' \<notin> set (string4 a b c d)"
  using octet_no_percent [of "unat a"] octet_no_percent [of "unat b"] octet_no_percent [of "unat c"] octet_no_percent [of "unat d"]
  by (auto simp: string4_def)

lemma five: "replicate 5 x = [x, x, x, x, x]"
  by (simp add: numeral_eq_Suc)

lemma parse_mapped:
  "ParseAddr (''::ffff:'' @ string4 a b c d @ zone_suffix z) =
     Some (Addr6 [0, 0, 0, 0, 0, 0xFFFF, of_nat (unat a * 256 + unat b), of_nat (unat c * 256 + unat d)] z)"
proof -
  let ?s = "''::ffff:'' @ string4 a b c d"
  have pc: "CHR ''%'' \<notin> set ?s" using string4_no_percent by simp
  obtain x xs where x: "string4 a b c d = x # xs" "x \<noteq> CHR '':''"
  proof -
    have "octet_string (unat a) \<noteq> [] \<and> hd (octet_string (unat a)) \<noteq> CHR '':''"
      using unat_octet [of a] by (cases "unat a" rule: octet_cases) (simp_all add: dig_not_special)
    then show ?thesis using that by (cases "octet_string (unat a)") (simp_all add: string4_def)
  qed
  have f: "''ffff'' = hex_string 65535" by (simp add: hex_string_def hexdig_def char_of_def bit_0)
  have "parse6_loop [] (Some 0) (hex_string 65535 @ CHR '':'' # x # xs) = parse6_loop [65535] (Some 0) (x # xs)"
    using parse6_next [of "[]" 65535 x "Some 0" xs] x by simp
  then have "parse6_loop [] (Some 0) (drop 2 ?s) = parse6_loop [65535] (Some 0) (string4 a b c d)"
    unfolding f [symmetric] by (simp add: x)
  also have "\<dots> = Some ([65535, unat a * 256 + unat b, unat c * 256 + unat d], Some 0, [])"
    by (simp add: parse6_dotted)
  finally have l: "parse6_loop [] (Some 0) (drop 2 ?s) = Some ([65535, unat a * 256 + unat b, unat c * 256 + unat d], Some 0, [])" .
  have "expand6 ([65535, unat a * 256 + unat b, unat c * 256 + unat d], Some 0, []) =
      Some [0, 0, 0, 0, 0, 65535, unat a * 256 + unat b, unat c * 256 + unat d]"
    by (simp add: expand6_def five)
  then have "parseIPv6 (?s @ zone_suffix z) =
      Some (Addr6 [0, 0, 0, 0, 0, 0xFFFF, of_nat (unat a * 256 + unat b), of_nat (unat c * 256 + unat d)] z)"
    using l unfolding parseIPv6_zone [OF pc] by (simp add: HasPrefix_def x)
  then show ?thesis by (simp add: ParseAddr_def)
qed

text \<open>An address that \<open>net/netip\<close> can hold: an IPv6 address has eight groups.\<close>

fun addr_wf :: "addr \<Rightarrow> bool" where
  "addr_wf (Addr6 gs z) = (length gs = 8)"
| "addr_wf a = True"

lemma ParseAddr_String:
  assumes "addr_wf a" and "addr_IsValid a"
  shows "ParseAddr (addr_String a) = Some a"
proof (cases a)
  case (Addr6 gs z)
  have l: "length gs = 8" using assms(1) Addr6 by simp
  show ?thesis
  proof (cases "Is4In6 gs")
    case True
    have "drop 6 gs = [gs ! 6, gs ! 7]" using l by (simp add: list_eq_iff_nth_eq less_Suc_eq numeral_eq_Suc)
    then have "gs = [0, 0, 0, 0, 0, 0xFFFF, gs ! 6, gs ! 7]"
      using True append_take_drop_id [of 6 gs] by (simp add: Is4In6_def)
    moreover have "ParseAddr (addr_String a) = Some (Addr6 [0, 0, 0, 0, 0, 0xFFFF, gs ! 6, gs ! 7] z)"
      using True Addr6 parse_mapped split_group [of "gs ! 6"] split_group [of "gs ! 7"] by (simp add: unmap_groups_def Let_def)
    ultimately show ?thesis using Addr6 by simp
  next
    case False
    have "unat g < 65536" for g :: "16 word" using unsigned_less [of g] by simp
    then have "\<forall>g \<in> set (map unat gs). g < 65536" by simp
    moreover have "map of_nat (map unat gs) = gs" by (simp add: comp_def)
    ultimately show ?thesis using False Addr6 l parse_string6 [of "map unat gs" z] by simp
  qed
qed (use assms in simp_all)

end
