(* ===== verification/Local_Records.thy ===== *)
theory Local_Records
  imports Blocklist_Parser Netip_Facts
begin

text \<open>
  \<open>internal/localdns/record.go\<close>: local DNS records and the normal form of their input. The theorem
  on \<open>NormalizeInput\<close> says which records can be stored.
\<close>

definition TypeA :: string where
  "TypeA = ''A''"

definition TypeAAAA :: string where
  "TypeAAAA = ''AAAA''"

definition TypeCNAME :: string where
  "TypeCNAME = ''CNAME''"

definition TypePTR :: string where
  "TypePTR = ''PTR''"

lemmas record_type_defs = TypeA_def TypeAAAA_def TypeCNAME_def TypePTR_def

lemma record_type_distinct [simp]:
  "TypeA \<noteq> TypeAAAA" "TypeA \<noteq> TypeCNAME" "TypeA \<noteq> TypePTR" "TypeAAAA \<noteq> TypeA" "TypeAAAA \<noteq> TypeCNAME"
  "TypeAAAA \<noteq> TypePTR" "TypeCNAME \<noteq> TypeA" "TypeCNAME \<noteq> TypeAAAA" "TypeCNAME \<noteq> TypePTR" "TypePTR \<noteq> TypeA"
  "TypePTR \<noteq> TypeAAAA" "TypePTR \<noteq> TypeCNAME"
  by (simp_all add: record_type_defs)

definition DefaultTTL :: "32 word" where
  "DefaultTTL = 300"

definition MaxTTL :: "32 word" where
  "MaxTTL = 604800"

definition ErrInvalidRecord :: go_error where
  "ErrInvalidRecord = ErrorString ''invalid local dns record''"

definition ErrRecordNotFound :: go_error where
  "ErrRecordNotFound = ErrorString ''local dns record not found''"

definition invalid_record :: "string \<Rightarrow> 'a result" where
  "invalid_record msg = Inl (Wrapw ErrInvalidRecord msg)"

record local_record =
  lr_ID :: int
  lr_Name :: string
  lr_Type :: string
  lr_Value :: string
  lr_TTL :: "32 word"
  lr_Enabled :: bool
  lr_Comment :: string
  lr_CreatedAt :: time
  lr_UpdatedAt :: time

record record_input =
  ri_Name :: string
  ri_Type :: string
  ri_Value :: string
  ri_TTL :: "32 word"
  ri_Enabled :: "bool option"
  ri_Comment :: string

definition valid_name_label :: "string \<Rightarrow> bool" where
  "valid_name_label label \<longleftrightarrow>
     label \<noteq> [] \<and> length label \<le> 63 \<and> hd label \<noteq> CHR ''-'' \<and> last label \<noteq> CHR ''-'' \<and>
     (\<forall>c \<in> set label. is_lower c \<or> is_digit c \<or> c = CHR ''-'')"

definition validDomainName :: "string \<Rightarrow> bool" where
  "validDomainName name \<longleftrightarrow>
     name \<noteq> [] \<and> length name \<le> 253 \<and> list_all valid_name_label (Split (CHR ''.'') name)"

definition normalizeDomainName :: "string \<Rightarrow> string result" where
  "normalizeDomainName name =
     (let name = TrimSuffix (TrimSpace (ToLower name)) ''.'' in
      if \<not> validDomainName name then invalid_record ''invalid domain name'' else Inr name)"

definition normalizeIPValue :: "string \<Rightarrow> bool \<Rightarrow> string result" where
  "normalizeIPValue val wantIPv6 =
     (case ParseAddr val of
        None \<Rightarrow> invalid_record ''invalid ip value''
      | Some a \<Rightarrow>
          if wantIPv6 \<and> \<not> addr_Is6 a then invalid_record ''AAAA value must be IPv6''
          else if \<not> wantIPv6 \<and> \<not> addr_Is4 a then invalid_record ''A value must be IPv4''
          else Inr (addr_String a))"

definition isPTRName :: "string \<Rightarrow> bool" where
  "isPTRName name \<longleftrightarrow> HasSuffix name ''.in-addr.arpa'' \<or> HasSuffix name ''.ip6.arpa''"

definition fqdn :: "string \<Rightarrow> string" where
  "fqdn name = TrimSuffix name ''.'' @ ''.''"

definition normalized_value :: "string \<Rightarrow> string \<Rightarrow> string \<Rightarrow> string result" where
  "normalized_value recordType name val =
     (if recordType = TypeA then normalizeIPValue val False
      else if recordType = TypeAAAA then normalizeIPValue val True
      else if recordType = TypeCNAME then normalizeDomainName val
      else if recordType = TypePTR then
        (if \<not> isPTRName name then invalid_record ''ptr name must be under in-addr.arpa or ip6.arpa''
         else normalizeDomainName val)
      else invalid_record ''unsupported type'')"

definition NormalizeInput :: "record_input \<Rightarrow> record_input result" where
  "NormalizeInput i =
     (let recordType = ToUpper (TrimSpace (ri_Type i)) in
      if recordType = [] then invalid_record ''type is required''
      else case normalizeDomainName (ri_Name i) of
        Inl _ \<Rightarrow> invalid_record ''invalid name''
      | Inr name \<Rightarrow>
          (case normalized_value recordType name (TrimSpace (ri_Value i)) of
             Inl err \<Rightarrow> Inl err
           | Inr val \<Rightarrow>
               let ttl = (if ri_TTL i = 0 then DefaultTTL else ri_TTL i) in
               if ttl > MaxTTL then invalid_record ''ttl out of range''
               else Inr \<lparr>ri_Name = name, ri_Type = recordType, ri_Value = val, ri_TTL = ttl,
                         ri_Enabled = ri_Enabled i, ri_Comment = TrimSpace (ri_Comment i)\<rparr>))"

definition input_enabled :: "record_input \<Rightarrow> bool" where
  "input_enabled i = (case ri_Enabled i of None \<Rightarrow> True | Some b \<Rightarrow> b)"

definition NewRecord :: "record_input \<Rightarrow> local_record result" where
  "NewRecord i =
     (case NormalizeInput i of
        Inl err \<Rightarrow> Inl err
      | Inr n \<Rightarrow> Inr \<lparr>lr_ID = 0, lr_Name = ri_Name n, lr_Type = ri_Type n, lr_Value = ri_Value n, lr_TTL = ri_TTL n,
                     lr_Enabled = input_enabled n, lr_Comment = ri_Comment n, lr_CreatedAt = None, lr_UpdatedAt = None\<rparr>)"

section \<open>Normal forms\<close>

lemma invalid_record_not_Inr [simp]: "invalid_record msg \<noteq> Inr a"
  by (simp add: invalid_record_def)

lemma valid_name_label_eq: "valid_name_label = valid_label"
  by (simp add: fun_eq_iff valid_name_label_def valid_label_def)

lemma validDomainName_chars:
  assumes "validDomainName d" and "c \<in> set d"
  shows "is_lower c \<or> is_digit c \<or> c = CHR ''-'' \<or> c = CHR ''.''"
  using assms set_Split [of d "CHR ''.''"] valid_label_chars
  by (fastforce simp: validDomainName_def list_all_iff valid_name_label_eq)

lemma validDomainName_last: "validDomainName d \<Longrightarrow> last d \<noteq> CHR ''.''"
  using Split_last_Nil [of d "CHR ''.''"]
  by (auto simp: validDomainName_def list_all_iff valid_name_label_def)

lemma normalizeDomainName_Inr: "normalizeDomainName raw = Inr d \<Longrightarrow> validDomainName d"
  by (auto simp: normalizeDomainName_def Let_def split: if_splits)

lemma validDomainName_fixed:
  assumes "validDomainName d"
  shows "TrimSpace d = d" and "ToLower d = d" and "TrimSuffix d ''.'' = d"
proof -
  have cs: "\<forall>c \<in> set d. is_lower c \<or> is_digit c \<or> c = CHR ''-'' \<or> c = CHR ''.''"
    using validDomainName_chars [OF assms] by blast
  show "TrimSpace d = d" using cs name_char_not_space by (intro TrimSpace_no_space) meson
  show "ToLower d = d" using cs name_char_not_upper by (intro ToLower_fixed) meson
  show "TrimSuffix d ''.'' = d"
    using validDomainName_last [OF assms] assms by (intro TrimSuffix_fixed) (auto simp: HasSuffix_single validDomainName_def)
qed

lemma normalizeDomainName_fixed [go_norm]: "validDomainName d \<Longrightarrow> normalizeDomainName d = Inr d"
  by (simp add: normalizeDomainName_def validDomainName_fixed)

lemma fqdn_valid: "validDomainName d \<Longrightarrow> fqdn d = d @ ''.''"
  by (simp add: fqdn_def validDomainName_fixed)

definition valid_value :: "string \<Rightarrow> string \<Rightarrow> string \<Rightarrow> bool" where
  "valid_value t name v \<longleftrightarrow>
     (t = TypeA \<and> (\<exists>a b c d. v = string4 a b c d)) \<or>
     (t = TypeAAAA \<and> (\<exists>gs z. v = addr_String (Addr6 gs z))) \<or>
     (t = TypeCNAME \<and> validDomainName v) \<or>
     (t = TypePTR \<and> validDomainName v \<and> isPTRName name)"

lemma normalized_value_Inr:
  assumes "normalized_value t name val = Inr v"
  shows "valid_value t name v"
proof -
  have ip: "normalizeIPValue val w = Inr v \<Longrightarrow> \<exists>a. v = addr_String a \<and> (if w then addr_Is6 a else addr_Is4 a)" for w
    by (auto simp: normalizeIPValue_def split: option.splits if_splits)
  consider (a) "t = TypeA" "normalizeIPValue val False = Inr v" | (aaaa) "t = TypeAAAA" "normalizeIPValue val True = Inr v"
    | (cname) "t = TypeCNAME" "normalizeDomainName val = Inr v"
    | (ptr) "t = TypePTR" "isPTRName name" "normalizeDomainName val = Inr v"
    using assms by (auto simp: normalized_value_def split: if_splits)
  then show ?thesis
  proof cases
    case a
    then obtain w x y z where "v = addr_String (Addr4 w x y z)" using ip [of False] by (auto simp: addr_Is4_cases)
    then have "\<exists>a b c d. v = string4 a b c d" by auto
    then show ?thesis using a(1) by (simp add: valid_value_def)
  next
    case aaaa
    then obtain gs z where "v = addr_String (Addr6 gs z)" using ip [of True] by (metis addr_Is6_cases)
    then have "\<exists>gs z. v = addr_String (Addr6 gs z)" by blast
    then show ?thesis using aaaa(1) unfolding valid_value_def by blast
  qed (auto simp: valid_value_def dest: normalizeDomainName_Inr)
qed

lemma NormalizeInput_props:
  assumes "NormalizeInput i = Inr j"
  shows "validDomainName (ri_Name j) \<and> valid_value (ri_Type j) (ri_Name j) (ri_Value j) \<and>
         0 < ri_TTL j \<and> ri_TTL j \<le> MaxTTL \<and> (ri_TTL i \<noteq> 0 \<longrightarrow> ri_TTL j = ri_TTL i) \<and> ri_Enabled j = ri_Enabled i"
proof -
  obtain name val where n: "normalizeDomainName (ri_Name i) = Inr name"
    and v: "normalized_value (ToUpper (TrimSpace (ri_Type i))) name (TrimSpace (ri_Value i)) = Inr val"
    and t: "\<not> (if ri_TTL i = 0 then DefaultTTL else ri_TTL i) > MaxTTL"
    and j: "j = \<lparr>ri_Name = name, ri_Type = ToUpper (TrimSpace (ri_Type i)), ri_Value = val,
              ri_TTL = (if ri_TTL i = 0 then DefaultTTL else ri_TTL i), ri_Enabled = ri_Enabled i,
              ri_Comment = TrimSpace (ri_Comment i)\<rparr>"
    using assms by (auto simp: NormalizeInput_def Let_def split: sum.splits if_splits)
  have "0 < (if ri_TTL i = 0 then DefaultTTL else ri_TTL i)" by (simp add: DefaultTTL_def word_neq_0_conv)
  then show ?thesis
    using normalizeDomainName_Inr [OF n] normalized_value_Inr [OF v] t by (simp add: j not_less)
qed

text \<open>
  What \<open>NormalizeInput\<close> accepts can be served: the name is a valid domain name, the type is one of the
  four, an A value is the canonical text of an IPv4 address, an AAAA value that of an IPv6 address, a
  CNAME or PTR value is a valid domain name and a PTR name lies under a reverse zone, and the time to
  live is between one second and a week.
\<close>

theorem NormalizeInput_valid:
  assumes "NormalizeInput i = Inr j"
  shows "validDomainName (ri_Name j) \<and> valid_value (ri_Type j) (ri_Name j) (ri_Value j) \<and>
         0 < ri_TTL j \<and> ri_TTL j \<le> MaxTTL \<and> (ri_TTL i \<noteq> 0 \<longrightarrow> ri_TTL j = ri_TTL i) \<and> ri_Enabled j = ri_Enabled i"
  by (rule NormalizeInput_props [OF assms])

theorem NormalizeInput_valid_witness:
  "validDomainName ''nas.home'' \<and> valid_value TypeA ''nas.home'' ''192.168.1.20''"
proof -
  have "NormalizeInput \<lparr>ri_Name = '' NAS.Home.'', ri_Type = ''a'', ri_Value = ''192.168.1.20'', ri_TTL = 0,
      ri_Enabled = None, ri_Comment = []\<rparr> =
    Inr \<lparr>ri_Name = ''nas.home'', ri_Type = TypeA, ri_Value = ''192.168.1.20'', ri_TTL = 300, ri_Enabled = None, ri_Comment = []\<rparr>"
    by code_simp
  from NormalizeInput_valid [OF this] show ?thesis by simp
qed

lemma normalizeIPValue_string4: "normalizeIPValue (string4 a b c d) False = Inr (string4 a b c d)"
  by (simp add: normalizeIPValue_def)

lemma ToUpper_record_type:
  "t = TypeA \<or> t = TypeCNAME \<or> t = TypePTR \<Longrightarrow> ToUpper (TrimSpace t) = t \<and> t \<noteq> []"
  by (auto simp: record_type_defs go_eval)

text \<open>
  Normalising is idempotent: the normal form of an A, CNAME or PTR record is accepted unchanged, so
  that a record that is read back and saved again stays the same.
\<close>

theorem NormalizeInput_idempotent:
  assumes "NormalizeInput i = Inr j" and "ri_Type j \<noteq> TypeAAAA"
  shows "NormalizeInput j = Inr j"
proof -
  note v = NormalizeInput_props [OF assms(1)]
  have name: "normalizeDomainName (ri_Name j) = Inr (ri_Name j)" using v normalizeDomainName_fixed by blast
  have comment: "TrimSpace (ri_Comment j) = ri_Comment j"
    using assms(1) by (auto simp: NormalizeInput_def Let_def split: sum.splits if_splits)
  consider (a) a b c d where "ri_Type j = TypeA" "ri_Value j = string4 a b c d"
    | (dom) "ri_Type j = TypeCNAME \<or> ri_Type j = TypePTR \<and> isPTRName (ri_Name j)" "validDomainName (ri_Value j)"
    using v assms(2) by (auto simp: valid_value_def)
  then have "normalized_value (ri_Type j) (ri_Name j) (TrimSpace (ri_Value j)) = Inr (ri_Value j) \<and>
      (ri_Type j = TypeA \<or> ri_Type j = TypeCNAME \<or> ri_Type j = TypePTR)"
  proof cases
    case a
    have "TrimSpace (string4 a b c d) = string4 a b c d" by (rule TrimSpace_no_space) (rule string4_no_space)
    then show ?thesis using a by (simp add: normalized_value_def normalizeIPValue_string4)
  next
    case dom
    then show ?thesis by (auto simp: normalized_value_def validDomainName_fixed normalizeDomainName_fixed)
  qed
  moreover have "ri_TTL j \<noteq> 0" and "\<not> ri_TTL j > MaxTTL" using v by auto
  ultimately show ?thesis
    using name comment ToUpper_record_type [of "ri_Type j"] by (simp add: NormalizeInput_def Let_def)
qed

theorem NormalizeInput_idempotent_witness:
  "NormalizeInput \<lparr>ri_Name = ''nas.home'', ri_Type = TypeA, ri_Value = ''192.168.1.20'', ri_TTL = 300, ri_Enabled = None, ri_Comment = []\<rparr> =
     Inr \<lparr>ri_Name = ''nas.home'', ri_Type = TypeA, ri_Value = ''192.168.1.20'', ri_TTL = 300, ri_Enabled = None, ri_Comment = []\<rparr>"
proof (rule NormalizeInput_idempotent)
  show "NormalizeInput \<lparr>ri_Name = '' NAS.Home.'', ri_Type = ''a'', ri_Value = ''192.168.1.20'', ri_TTL = 0,
      ri_Enabled = None, ri_Comment = []\<rparr> =
    Inr \<lparr>ri_Name = ''nas.home'', ri_Type = TypeA, ri_Value = ''192.168.1.20'', ri_TTL = 300, ri_Enabled = None, ri_Comment = []\<rparr>"
    by code_simp
qed simp

end
