(* ===== verification/Local_Repository.thy ===== *)
theory Local_Repository
  imports Local_Records Sql_Table "HOL-Library.List_Lexorder" "HOL-Library.Char_ord" "HOL-Library.Product_Lexorder"
begin

text \<open>
  \<open>internal/localdns/repository.go\<close> over the table \<open>local_dns_records\<close> (migration 4 of
  \<open>internal/storage/storage.go\<close>). SQLite compares text bytewise, which is the lexicographic order
  of strings here.
\<close>

type_synonym 'a local_repo = "(local_record sql_table db, 'a) step"

definition set_lr_ID :: "int \<Rightarrow> local_record \<Rightarrow> local_record" where
  "set_lr_ID i r = r\<lparr>lr_ID := i\<rparr>"

interpretation records: id_table lr_ID set_lr_ID
  by unfold_locales (simp_all add: set_lr_ID_def)

definition check_record :: "local_record \<Rightarrow> bool" where
  "check_record r \<longleftrightarrow> lr_Type r \<in> {''A'', ''AAAA'', ''CNAME'', ''PTR''} \<and> lr_TTL r \<le> 604800"

definition insert_record_stmt :: "local_record \<Rightarrow> local_record sql_table \<Rightarrow> (int \<times> local_record sql_table) result" where
  "insert_record_stmt r t =
     (if \<not> check_record r then Inl (constraint_error ''local_dns_records'') else Inr (tbl_insert set_lr_ID r t))"

text \<open>The columns that the update sets; the creation time is not one of them.\<close>

definition update_record_stmt :: "int \<Rightarrow> local_record \<Rightarrow> local_record sql_table \<Rightarrow> (nat \<times> local_record sql_table) result" where
  "update_record_stmt i r t =
     (if \<not> check_record r \<and> row_by lr_ID i t \<noteq> None then Inl (constraint_error ''local_dns_records'')
      else Inr (tbl_update (\<lambda>x. lr_ID x = i)
        (\<lambda>x. x\<lparr>lr_Name := lr_Name r, lr_Type := lr_Type r, lr_Value := lr_Value r, lr_TTL := lr_TTL r,
               lr_Enabled := lr_Enabled r, lr_Comment := lr_Comment r, lr_UpdatedAt := lr_UpdatedAt r\<rparr>) t))"

definition record_order :: "local_record \<Rightarrow> string \<times> string \<times> string \<times> int" where
  "record_order r = (lr_Name r, lr_Type r, lr_Value r, lr_ID r)"

definition list_records :: "(local_record \<Rightarrow> bool) \<Rightarrow> local_record sql_table \<Rightarrow> local_record list" where
  "list_records p t = tbl_select p record_order t"

definition local_Get :: "int \<Rightarrow> local_record local_repo" where
  "local_Get i = then_do (sql_query_row (row_by lr_ID i)) (\<lambda>row.
     case row of None \<Rightarrow> fail ErrRecordNotFound | Some r \<Rightarrow> ret r)"

definition local_Create :: "time \<Rightarrow> record_input \<Rightarrow> local_record local_repo" where
  "local_Create now i =
     then_do (lift_result (NewRecord i)) (\<lambda>r.
     then_do (wrap_err (Wrapf ''create local dns record'')
        (sql_run (insert_record_stmt (r\<lparr>lr_CreatedAt := now, lr_UpdatedAt := now\<rparr>)))) (\<lambda>id.
     then_do (wrap_err (Wrapf ''read local dns record id'') (sql_poll db_error)) (\<lambda>_.
       local_Get id)))"

definition local_list :: "(local_record \<Rightarrow> bool) \<Rightarrow> local_record list local_repo" where
  "local_list p = sql_query ''list local dns records'' ''list local dns records'' (list_records p)"

definition local_List :: "local_record list local_repo" where
  "local_List = local_list (\<lambda>_. True)"

definition local_ListEnabled :: "local_record list local_repo" where
  "local_ListEnabled = local_list lr_Enabled"

definition local_Update :: "time \<Rightarrow> int \<Rightarrow> record_input \<Rightarrow> local_record local_repo" where
  "local_Update now i inp =
     then_do (lift_result (NewRecord inp)) (\<lambda>r.
     then_do (wrap_err (Wrapf ''update local dns record'')
        (sql_run (update_record_stmt i (r\<lparr>lr_UpdatedAt := now\<rparr>)))) (\<lambda>rows.
     then_do (wrap_err (Wrapf ''check local dns record update'') (sql_poll db_error)) (\<lambda>_.
       if rows = 0 then fail ErrRecordNotFound else local_Get i)))"

definition local_Delete :: "int \<Rightarrow> unit local_repo" where
  "local_Delete i =
     then_do (wrap_err (Wrapf ''delete local dns record'')
        (sql_run (\<lambda>t. Inr (tbl_delete (\<lambda>x. lr_ID x = i) t)))) (\<lambda>rows.
     then_do (wrap_err (Wrapf ''check local dns record delete'') (sql_poll db_error)) (\<lambda>_.
       if rows = 0 then fail ErrRecordNotFound else ret ()))"

interpretation record_source: read_source local_ListEnabled db_tables "list_records lr_Enabled"
proof unfold_locales
  show "local_ListEnabled w = (Inr a, w') \<Longrightarrow> a = list_records lr_Enabled (db_tables w)" for w a w'
    by (auto simp: local_ListEnabled_def local_list_def dest: sql_query_ok)
  show "db_tables (snd (local_ListEnabled w)) = db_tables w" for w
    using reads_query(1) unfolding local_ListEnabled_def local_list_def reads_def by blast
qed

section \<open>The invariant\<close>

definition valid_record :: "local_record \<Rightarrow> bool" where
  "valid_record r \<longleftrightarrow> validDomainName (lr_Name r) \<and> valid_value (lr_Type r) (lr_Name r) (lr_Value r) \<and>
     0 < lr_TTL r \<and> lr_TTL r \<le> MaxTTL"

definition local_ok :: "local_record sql_table \<Rightarrow> bool" where
  "local_ok t \<longleftrightarrow> table_ok lr_ID t \<and> (\<forall>r \<in> set (t_rows t). valid_record r)"

lemma NewRecord_valid: "NewRecord i = Inr r \<Longrightarrow> valid_record r"
  using NormalizeInput_props [of i] by (auto simp: NewRecord_def valid_record_def split: sum.splits)

lemma valid_record_check: "valid_record r \<Longrightarrow> check_record r"
  by (auto simp: valid_record_def check_record_def valid_value_def record_type_defs MaxTTL_def)

abbreviation local_inv :: "local_record sql_table db \<Rightarrow> bool" where
  "local_inv d \<equiv> local_ok (db_tables d)"

lemma reads_local_Get [reads_rules, simp]: "reads (local_Get i)"
  unfolding local_Get_def by (intro reads_rules) (simp split: option.split)

lemma insert_record_keeps:
  assumes "local_ok t" and "valid_record r" and "insert_record_stmt r t = Inr (i, t')"
  shows "local_ok t'"
proof -
  have "t' = snd (tbl_insert set_lr_ID r t)" using assms(3) by (auto simp: insert_record_stmt_def split: if_splits)
  moreover have "valid_record (set_lr_ID j r)" for j using assms(2) by (simp add: valid_record_def set_lr_ID_def)
  ultimately show ?thesis using assms(1) by (auto simp: local_ok_def records.insert_ok)
qed

lemma update_record_keeps:
  assumes "local_ok t" and "valid_record r" and "update_record_stmt i r t = Inr (n, t')"
  shows "local_ok t'"
proof -
  have "t' = snd (tbl_update (\<lambda>x. lr_ID x = i)
        (\<lambda>x. x\<lparr>lr_Name := lr_Name r, lr_Type := lr_Type r, lr_Value := lr_Value r, lr_TTL := lr_TTL r,
               lr_Enabled := lr_Enabled r, lr_Comment := lr_Comment r, lr_UpdatedAt := lr_UpdatedAt r\<rparr>) t)"
    using assms(3) by (auto simp: update_record_stmt_def split: if_splits)
  then show ?thesis
    using assms(1,2) by (auto simp: local_ok_def valid_record_def intro!: records.update_ok)
qed

lemma local_Create_keeps: "keeps local_inv (local_Create now i)"
proof -
  have "keeps local_inv (sql_run (insert_record_stmt (r\<lparr>lr_CreatedAt := now, lr_UpdatedAt := now\<rparr>)))"
    if "NewRecord i = Inr r" for r
    using NewRecord_valid [OF that]
    by (intro sql_run_keeps, elim insert_record_keeps) (simp_all add: valid_record_def)
  then show ?thesis
    unfolding local_Create_def
    by (intro keeps_lift_then keeps_then_do keeps_wrap_err reads_keeps [OF reads_poll] reads_keeps [OF reads_local_Get])
qed

lemma local_Update_keeps: "keeps local_inv (local_Update now i inp)"
proof -
  have "keeps local_inv (sql_run (update_record_stmt i (r\<lparr>lr_UpdatedAt := now\<rparr>)))"
    if "NewRecord inp = Inr r" for r
    using NewRecord_valid [OF that]
    by (intro sql_run_keeps, elim update_record_keeps) (simp_all add: valid_record_def)
  then show ?thesis
    unfolding local_Update_def
    by (intro keeps_lift_then keeps_then_do keeps_if keeps_fail keeps_wrap_err reads_keeps [OF reads_poll] reads_keeps [OF reads_local_Get])
qed

lemma local_Delete_keeps: "keeps local_inv (local_Delete i)"
proof -
  have "local_ok t'" if "local_ok t" and "tbl_delete (\<lambda>x. lr_ID x = i) t = (n, t')" for t n t'
  proof -
    have "t' = snd (tbl_delete (\<lambda>x. lr_ID x = i) t)" using that(2) by simp
    then show ?thesis using that(1) by (simp add: local_ok_def records.delete_ok)
  qed
  then have "keeps local_inv (sql_run (\<lambda>t. Inr (tbl_delete (\<lambda>x. lr_ID x = i) t)))"
    by (intro sql_run_keeps) blast
  then show ?thesis
    unfolding local_Delete_def
    by (intro keeps_then_do keeps_if keeps_fail keeps_ret keeps_wrap_err reads_keeps [OF reads_poll])
qed

section \<open>The state machine\<close>

inductive local_step :: "local_record sql_table db \<Rightarrow> local_record sql_table db \<Rightarrow> bool" where
  faults: "local_step d (d\<lparr>db_faults := fs\<rparr>)"
| create: "local_step d (snd (local_Create now i d))"
| update: "local_step d (snd (local_Update now k i d))"
| delete: "local_step d (snd (local_Delete k d))"

inductive local_reachable :: "local_record sql_table db \<Rightarrow> bool" where
  init: "local_reachable \<lparr>db_tables = empty_table, db_faults = fs\<rparr>"
| step: "local_reachable d \<Longrightarrow> local_step d d' \<Longrightarrow> local_reachable d'"

lemma local_reachable_inv: "local_reachable d \<Longrightarrow> local_inv d"
proof (induction rule: local_reachable.induct)
  case (init fs)
  then show ?case by (simp add: local_ok_def records.empty_ok) (simp add: empty_table_def)
next
  case (step d d')
  from step.hyps(2) step.IH show ?case
    using local_Create_keeps local_Update_keeps local_Delete_keeps
    by (cases rule: local_step.cases) (auto simp: keeps_def)
qed

text \<open>
  C12: In every reachable database of local records, reading the enabled ones returns exactly the enabled
  rows, each a valid record, sorted by name, type, value and identifier, and changes nothing.
\<close>

theorem ListEnabled_reachable:
  assumes "local_reachable d" and "local_ListEnabled d = (Inr rs, d')"
  shows "set rs = {r \<in> set (t_rows (db_tables d)). lr_Enabled r} \<and> list_all valid_record rs \<and>
         sorted (map record_order rs) \<and> db_tables d' = db_tables d"
proof -
  have rs: "rs = list_records lr_Enabled (db_tables d)" and t: "db_tables d' = db_tables d"
    using record_source.read_ok [OF assms(2)] by auto
  have "set rs = {r \<in> set (t_rows (db_tables d)). lr_Enabled r}"
    by (auto simp: rs list_records_def tbl_select_def)
  then show ?thesis
    using local_reachable_inv [OF assms(1)] t
    by (auto simp: local_ok_def list_all_iff rs list_records_def tbl_select_def)
qed

definition local_demo :: "local_record sql_table db" where
  "local_demo = snd (local_Create (Some 1) \<lparr>ri_Name = ''nas.home'', ri_Type = ''A'', ri_Value = ''192.168.1.20'', ri_TTL = 0,
     ri_Enabled = None, ri_Comment = []\<rparr> \<lparr>db_tables = empty_table, db_faults = []\<rparr>)"

theorem ListEnabled_reachable_witness:
  "\<exists>rs d'. local_ListEnabled (local_demo\<lparr>db_faults := []\<rparr>) = (Inr rs, d') \<and> list_all valid_record rs"
proof -
  let ?d = "local_demo\<lparr>db_faults := []\<rparr>"
  have r: "local_reachable ?d"
    unfolding local_demo_def
    by (rule local_reachable.step [OF local_reachable.step [OF local_reachable.init local_step.create] local_step.faults])
  obtain rs where l: "local_ListEnabled ?d = (Inr rs, ?d)" by (simp add: local_ListEnabled_def local_list_def)
  show ?thesis using ListEnabled_reachable [OF r l] l by blast
qed

end
