(* ===== verification/Local_Resolver.thy ===== *)
theory Local_Resolver
  imports Local_Repository
begin

text \<open>
  \<open>internal/localdns/resolver.go\<close>: the DNS messages of \<open>github.com/miekg/dns\<close> as far as the code
  builds and reads them, and the resolver that answers from local records, following CNAME chains.
  \<open>Msg.SetReply\<close> is the parameter \<open>set_reply\<close>: the reply to a request. The constants are the numbers
  of the DNS registry. Class \<open>ANY\<close> and type \<open>ANY\<close> are both 255.
\<close>

definition dns_TypeA :: "16 word" where "dns_TypeA = 1"
definition dns_TypeAAAA :: "16 word" where "dns_TypeAAAA = 28"
definition dns_TypeCNAME :: "16 word" where "dns_TypeCNAME = 5"
definition dns_TypePTR :: "16 word" where "dns_TypePTR = 12"
definition dns_TypeANY :: "16 word" where "dns_TypeANY = 255"
definition dns_ClassINET :: "16 word" where "dns_ClassINET = 1"
definition dns_ClassANY :: "16 word" where "dns_ClassANY = 255"

lemmas dns_consts = dns_TypeA_def dns_TypeAAAA_def dns_TypeCNAME_def dns_TypePTR_def dns_TypeANY_def
  dns_ClassINET_def dns_ClassANY_def

record question =
  qn_Name :: string
  qn_Qtype :: "16 word"
  qn_Qclass :: "16 word"

record rr_header =
  h_Name :: string
  h_Rrtype :: "16 word"
  h_Class :: "16 word"
  h_Ttl :: "32 word"

text \<open>An address field is a \<open>net.IP\<close>, which is nil when it could not be converted.\<close>

datatype rr =
    RR_A rr_header "addr option"
  | RR_AAAA rr_header "addr option"
  | RR_CNAME rr_header string
  | RR_PTR rr_header string

record msg =
  m_Question :: "question list"
  m_Answer :: "rr list"
  m_Rcode :: int
  m_Authoritative :: bool

definition To4 :: "addr option \<Rightarrow> addr option" where
  "To4 ip = (case ip of
       Some (Addr4 a b c d) \<Rightarrow> ip
     | Some (Addr6 gs z) \<Rightarrow> (if Is4In6 gs then Some (unmap_groups gs) else None)
     | _ \<Rightarrow> None)"

definition map4in6 :: "8 word \<Rightarrow> 8 word \<Rightarrow> 8 word \<Rightarrow> 8 word \<Rightarrow> addr" where
  "map4in6 a b c d =
     Addr6 [0, 0, 0, 0, 0, 0xFFFF, of_nat (unat a * 256 + unat b), of_nat (unat c * 256 + unat d)] []"

definition To16 :: "addr option \<Rightarrow> addr option" where
  "To16 ip = (case ip of
       Some (Addr4 a b c d) \<Rightarrow> Some (map4in6 a b c d)
     | Some (Addr6 gs z) \<Rightarrow> ip
     | _ \<Rightarrow> None)"

definition maxCNAMEChain :: nat where
  "maxCNAMEChain = 8"

section \<open>Answers\<close>

definition cnameRR :: "question \<Rightarrow> local_record \<Rightarrow> rr" where
  "cnameRR q r =
     RR_CNAME \<lparr>h_Name = fqdn (lr_Name r), h_Rrtype = dns_TypeCNAME, h_Class = qn_Qclass q, h_Ttl = lr_TTL r\<rparr>
       (fqdn (lr_Value r))"

definition recordMatchesQuestion :: "local_record \<Rightarrow> 16 word \<Rightarrow> bool" where
  "recordMatchesQuestion r qtype =
     (if qtype = dns_TypeANY then True
      else if lr_Type r = TypeA then qtype = dns_TypeA
      else if lr_Type r = TypeAAAA then qtype = dns_TypeAAAA
      else if lr_Type r = TypeCNAME then qtype = dns_TypeCNAME
      else if lr_Type r = TypePTR then qtype = dns_TypePTR
      else False)"

definition rrForRecord :: "question \<Rightarrow> local_record \<Rightarrow> string \<Rightarrow> rr option" where
  "rrForRecord q r owner =
     (if lr_Type r = TypeA then
        Some (RR_A \<lparr>h_Name = fqdn owner, h_Rrtype = dns_TypeA, h_Class = qn_Qclass q, h_Ttl = lr_TTL r\<rparr>
          (To4 (ParseIP (lr_Value r))))
      else if lr_Type r = TypeAAAA then
        Some (RR_AAAA \<lparr>h_Name = fqdn owner, h_Rrtype = dns_TypeAAAA, h_Class = qn_Qclass q, h_Ttl = lr_TTL r\<rparr>
          (To16 (ParseIP (lr_Value r))))
      else if lr_Type r = TypeCNAME then Some (cnameRR q r)
      else if lr_Type r = TypePTR then
        Some (RR_PTR \<lparr>h_Name = fqdn owner, h_Rrtype = dns_TypePTR, h_Class = qn_Qclass q, h_Ttl = lr_TTL r\<rparr>
          (fqdn (lr_Value r)))
      else None)"

text \<open>The answers that \<open>addMatchingAnswers\<close> appends; it returns whether there are any.\<close>

fun matching_answers :: "question \<Rightarrow> local_record list \<Rightarrow> string \<Rightarrow> rr list" where
  "matching_answers q [] owner = []"
| "matching_answers q (r # rs) owner =
     (if \<not> recordMatchesQuestion r (qn_Qtype q) then matching_answers q rs owner
      else case rrForRecord q r owner of
        None \<Rightarrow> matching_answers q rs owner
      | Some x \<Rightarrow> x # matching_answers q rs owner)"

definition addMatchingAnswers :: "rr list \<Rightarrow> question \<Rightarrow> local_record list \<Rightarrow> string \<Rightarrow> rr list \<times> bool" where
  "addMatchingAnswers ans q rs owner =
     (ans @ matching_answers q rs owner, matching_answers q rs owner \<noteq> [])"

definition firstCNAME :: "local_record list \<Rightarrow> local_record option" where
  "firstCNAME rs = find (\<lambda>r. lr_Type r = TypeCNAME) rs"

text \<open>A map from names to records; a name without records has the empty slice.\<close>

type_synonym index = "string \<Rightarrow> local_record list"

definition index_add :: "local_record \<Rightarrow> index \<Rightarrow> index" where
  "index_add r idx =
     (if \<not> lr_Enabled r then idx
      else let name = TrimSuffix (ToLower (lr_Name r)) ''.'' in idx(name := idx name @ [r]))"

definition indexRecords :: "local_record list \<Rightarrow> index" where
  "indexRecords rs = fold index_add rs (\<lambda>_. [])"

definition follows_cname :: "16 word \<Rightarrow> bool" where
  "follows_cname qtype \<longleftrightarrow> \<not> (qtype \<noteq> dns_TypeA \<and> qtype \<noteq> dns_TypeAAAA \<and> qtype \<noteq> dns_TypeANY)"

text \<open>
  The loop of \<open>answerName\<close> with the rounds left, the names seen, the answers and \<open>addedAny\<close>.
\<close>

fun answer_loop :: "nat \<Rightarrow> question \<Rightarrow> index \<Rightarrow> string set \<Rightarrow> rr list \<Rightarrow> bool \<Rightarrow> string \<Rightarrow> rr list \<times> bool" where
  "answer_loop 0 q idx seen ans addedAny current = (ans, addedAny)"
| "answer_loop (Suc n) q idx seen ans addedAny current =
     (if current \<in> seen then (ans, addedAny)
      else
        let records = idx current in
        case addMatchingAnswers ans q records current of (ans', addedDirect) \<Rightarrow>
          if addedDirect then (ans', True)
          else if \<not> follows_cname (qn_Qtype q) then (ans', addedAny)
          else case firstCNAME records of
            None \<Rightarrow> (ans', addedAny)
          | Some cname \<Rightarrow>
              answer_loop n q idx (insert current seen) (ans' @ [cnameRR q cname]) True (lr_Value cname))"

definition answerName :: "rr list \<Rightarrow> question \<Rightarrow> index \<Rightarrow> string \<Rightarrow> rr list \<times> bool" where
  "answerName ans q idx name = answer_loop maxCNAMEChain q idx {} ans False name"

section \<open>Resolve\<close>

record 'w dns_resolver =
  res_source :: "('w, local_record list) step option"
  res_index :: "index option"

definition NewDNSResolver :: "('w, local_record list) step \<Rightarrow> 'w dns_resolver" where
  "NewDNSResolver s = \<lparr>res_source = Some s, res_index = None\<rparr>"

definition NewStaticResolver :: "local_record list \<Rightarrow> 'w dns_resolver" where
  "NewStaticResolver rs = \<lparr>res_source = None, res_index = Some (indexRecords rs)\<rparr>"

text \<open>The result is the response when the flag of the source is true.\<close>

definition Resolve :: "(msg \<Rightarrow> msg) \<Rightarrow> 'w dns_resolver option \<Rightarrow> msg option \<Rightarrow> ('w, msg option) step" where
  "Resolve set_reply res req =
     (case res of
        None \<Rightarrow> ret None
      | Some r \<Rightarrow>
          if res_source r = None \<and> res_index r = None then ret None
          else case req of
            None \<Rightarrow> ret None
          | Some rq \<Rightarrow>
              if length (m_Question rq) = 0 then ret None
              else
                let q = m_Question rq ! 0 in
                if qn_Qclass q \<noteq> dns_ClassINET \<and> qn_Qclass q \<noteq> dns_ClassANY then ret None
                else case normalizeDomainName (qn_Name q) of
                  Inl _ \<Rightarrow> ret None
                | Inr name \<Rightarrow>
                    then_do
                      (case res_index r of
                         Some idx \<Rightarrow> ret idx
                       | None \<Rightarrow>
                           (case res_source r of
                              None \<Rightarrow> ret (\<lambda>_. [])
                            | Some src \<Rightarrow> then_do src (\<lambda>records. ret (indexRecords records)))) (\<lambda>idx.
                    let m = (set_reply rq)\<lparr>m_Authoritative := True\<rparr> in
                    case answerName (m_Answer m) q idx name of (ans, answered) \<Rightarrow>
                      if \<not> answered then ret None else ret (Some (m\<lparr>m_Answer := ans\<rparr>))))"

section \<open>The chain of names\<close>

text \<open>
  The records \<open>cs\<close> lead from the name \<open>n\<close> to the name \<open>m\<close>: each is the first CNAME of its owner and no
  owner has an answer of its own.
\<close>

fun cname_chain :: "question \<Rightarrow> index \<Rightarrow> string \<Rightarrow> local_record list \<Rightarrow> string \<Rightarrow> bool" where
  "cname_chain q idx n [] m \<longleftrightarrow> n = m"
| "cname_chain q idx n (c # cs) m \<longleftrightarrow>
     matching_answers q (idx n) n = [] \<and> firstCNAME (idx n) = Some c \<and> cname_chain q idx (lr_Value c) cs m"

text \<open>The owners of the records of a chain.\<close>

fun owners :: "string \<Rightarrow> local_record list \<Rightarrow> string list" where
  "owners n [] = []"
| "owners n (c # cs) = n # owners (lr_Value c) cs"

text \<open>Where the loop stops: the rounds are used up, the name was seen before, or it has answers or no alias to follow.\<close>

definition chain_direct :: "nat \<Rightarrow> question \<Rightarrow> index \<Rightarrow> string set \<Rightarrow> string \<Rightarrow> local_record list \<Rightarrow> string \<Rightarrow> rr list" where
  "chain_direct k q idx seen n cs m = (if length cs = k \<or> m \<in> set (owners n cs) \<union> seen then [] else matching_answers q (idx m) m)"

lemma answer_loop_exact:
  assumes "answer_loop k q idx seen ans added n = (ans', ok)"
  shows "\<exists>cs m. ans' = ans @ map (cnameRR q) cs @ chain_direct k q idx seen n cs m \<and> cname_chain q idx n cs m \<and> length cs \<le> k \<and>
           distinct (owners n cs) \<and> set (owners n cs) \<inter> seen = {} \<and> (cs \<noteq> [] \<longrightarrow> follows_cname (qn_Qtype q)) \<and>
           ok = (added \<or> cs \<noteq> [] \<or> chain_direct k q idx seen n cs m \<noteq> []) \<and>
           (length cs = k \<or> m \<in> set (owners n cs) \<union> seen \<or> matching_answers q (idx m) m \<noteq> [] \<or> \<not> follows_cname (qn_Qtype q) \<or>
              firstCNAME (idx m) = None)"
  using assms
proof (induction k arbitrary: seen ans added n)
  case 0
  then show ?case by (intro exI [of _ "[]"] exI [of _ n]) (auto simp: chain_direct_def)
next
  case (Suc k)
  show ?case
  proof (cases "n \<in> seen \<or> matching_answers q (idx n) n \<noteq> [] \<or> \<not> follows_cname (qn_Qtype q) \<or> firstCNAME (idx n) = None")
    case True
    then show ?thesis
      using Suc.prems
      by (intro exI [of _ "[]"] exI [of _ n]) (auto simp: chain_direct_def addMatchingAnswers_def Let_def split: if_splits option.splits)
  next
    case False
    then obtain c where c: "firstCNAME (idx n) = Some c" and no: "matching_answers q (idx n) n = []"
      and f: "follows_cname (qn_Qtype q)" and s: "n \<notin> seen" by auto
    have "answer_loop k q idx (insert n seen) (ans @ [cnameRR q c]) True (lr_Value c) = (ans', ok)"
      using Suc.prems c no f s by (simp add: addMatchingAnswers_def)
    from Suc.IH [OF this] obtain cs m where
      cs: "ans' = (ans @ [cnameRR q c]) @ map (cnameRR q) cs @ chain_direct k q idx (insert n seen) (lr_Value c) cs m"
        "cname_chain q idx (lr_Value c) cs m" "length cs \<le> k" "distinct (owners (lr_Value c) cs)"
        "set (owners (lr_Value c) cs) \<inter> insert n seen = {}" "ok"
        "length cs = k \<or> m \<in> set (owners (lr_Value c) cs) \<union> insert n seen \<or> matching_answers q (idx m) m \<noteq> [] \<or> firstCNAME (idx m) = None"
      using f by auto
    moreover have "chain_direct (Suc k) q idx seen n (c # cs) m = chain_direct k q idx (insert n seen) (lr_Value c) cs m"
      by (simp add: chain_direct_def)
    ultimately show ?thesis using c no f s by (intro exI [of _ "c # cs"] exI [of _ m]) auto
  qed
qed

lemma answer_loop_chain:
  assumes "answer_loop k q idx seen ans added n = (ans', ok)"
  shows "\<exists>cs m direct. ans' = ans @ map (cnameRR q) cs @ direct \<and> cname_chain q idx n cs m \<and> length cs \<le> k \<and>
           distinct (owners n cs) \<and> set (owners n cs) \<inter> seen = {} \<and>
           (direct = [] \<or> direct = matching_answers q (idx m) m) \<and> ok = (added \<or> cs \<noteq> [] \<or> direct \<noteq> []) \<and>
           (cs \<noteq> [] \<longrightarrow> follows_cname (qn_Qtype q))"
proof -
  obtain cs m where "ans' = ans @ map (cnameRR q) cs @ chain_direct k q idx seen n cs m" "cname_chain q idx n cs m" "length cs \<le> k"
    "distinct (owners n cs)" "set (owners n cs) \<inter> seen = {}" "cs \<noteq> [] \<longrightarrow> follows_cname (qn_Qtype q)"
    "ok = (added \<or> cs \<noteq> [] \<or> chain_direct k q idx seen n cs m \<noteq> [])"
    using answer_loop_exact [OF assms] by blast
  moreover have "chain_direct k q idx seen n cs m = [] \<or> chain_direct k q idx seen n cs m = matching_answers q (idx m) m"
    by (simp add: chain_direct_def)
  ultimately show ?thesis by blast
qed

lemma answer_loop_complete:
  assumes "cname_chain q idx n cs m" and "length cs < k" and "distinct (owners n cs @ [m])"
    and "set (owners n cs @ [m]) \<inter> seen = {}" and "matching_answers q (idx m) m \<noteq> []"
    and "cs \<noteq> [] \<longrightarrow> follows_cname (qn_Qtype q)"
  shows "answer_loop k q idx seen ans added n = (ans @ map (cnameRR q) cs @ matching_answers q (idx m) m, True)"
  using assms
proof (induction cs arbitrary: n k seen ans added)
  case Nil
  then obtain k' where "k = Suc k'" by (cases k) auto
  then show ?case using Nil by (simp add: addMatchingAnswers_def)
next
  case (Cons c cs)
  then obtain k' where k: "k = Suc k'" by (cases k) auto
  have "answer_loop k' q idx (insert n seen) (ans @ [cnameRR q c]) True (lr_Value c) =
      ((ans @ [cnameRR q c]) @ map (cnameRR q) cs @ matching_answers q (idx m) m, True)"
    by (rule Cons.IH) (use Cons.prems k in auto)
  then show ?case using Cons.prems k by (simp add: addMatchingAnswers_def)
qed

lemma answer_loop_prefix: "\<exists>new. fst (answer_loop k q idx seen ans added n) = ans @ new"
proof -
  obtain ans' ok where l: "answer_loop k q idx seen ans added n = (ans', ok)" by fastforce
  show ?thesis using answer_loop_chain [OF l] l by auto
qed

lemma Resolve_answer:
  assumes "Resolve set_reply res (Some rq) w = (Inr (Some m), w')"
  obtains q name idx ans where "q = m_Question rq ! 0" and "m_Question rq \<noteq> []"
    and "qn_Qclass q = dns_ClassINET \<or> qn_Qclass q = dns_ClassANY" and "normalizeDomainName (qn_Name q) = Inr name"
    and "answerName (m_Answer (set_reply rq)) q idx name = (ans, True)"
    and "m = (set_reply rq)\<lparr>m_Authoritative := True, m_Answer := ans\<rparr>"
    and "\<And>r i. res = Some r \<Longrightarrow> res_index r = Some i \<Longrightarrow> idx = i"
proof -
  obtain r where r: "res = Some r" using assms by (auto simp: Resolve_def split: option.splits)
  let ?q = "m_Question rq ! 0"
  let ?get = "case res_index r of Some idx \<Rightarrow> ret idx
     | None \<Rightarrow> (case res_source r of None \<Rightarrow> ret (\<lambda>_. []) | Some src \<Rightarrow> then_do src (\<lambda>records. ret (indexRecords records)))"
  have ne: "m_Question rq \<noteq> []" and cl: "qn_Qclass ?q = dns_ClassINET \<or> qn_Qclass ?q = dns_ClassANY"
    using assms r by (auto simp: Resolve_def Let_def split: if_splits)
  obtain name where n: "normalizeDomainName (qn_Name ?q) = Inr name"
    using assms r ne cl by (auto simp: Resolve_def Let_def split: if_splits sum.splits)
  obtain idx w1 where g: "?get w = (Inr idx, w1)"
    and a: "(case answerName (m_Answer (set_reply rq)) ?q idx name of (ans, answered) \<Rightarrow>
        if \<not> answered then ret None else ret (Some ((set_reply rq)\<lparr>m_Authoritative := True, m_Answer := ans\<rparr>))) w1 = (Inr (Some m), w')"
    using assms r ne cl n by (auto simp: Resolve_def Let_def then_do_eq_Inr split: if_splits)
  obtain ans ok where an: "answerName (m_Answer (set_reply rq)) ?q idx name = (ans, ok)" by fastforce
  then have "ok" and "m = (set_reply rq)\<lparr>m_Authoritative := True, m_Answer := ans\<rparr>"
    using a by (auto split: if_splits)
  moreover have "idx = i" if "res = Some r'" and "res_index r' = Some i" for r' i using g that r by auto
  ultimately show thesis using an by (intro that [OF refl ne cl n]) auto
qed

section \<open>Properties\<close>

text \<open>The enabled records of a name, and those of them that a question asks for.\<close>

definition owned :: "local_record list \<Rightarrow> index" where
  "owned rs n = filter (\<lambda>r. lr_Enabled r \<and> TrimSuffix (ToLower (lr_Name r)) ''.'' = n) rs"

lemma indexRecords_owned: "indexRecords rs = owned rs"
proof -
  have "fold index_add rs idx n = idx n @ owned rs n" for idx n
    by (induction rs arbitrary: idx) (auto simp: index_add_def owned_def Let_def)
  then show ?thesis by (simp add: indexRecords_def fun_eq_iff)
qed

definition asked_for :: "16 word \<Rightarrow> local_record \<Rightarrow> bool" where
  "asked_for qtype r \<longleftrightarrow> qtype = 255 \<or>
     (lr_Type r, qtype) \<in> {(''A'', 1), (''AAAA'', 28), (''CNAME'', 5), (''PTR'', 12)}"

lemma matching_answers_asked:
  "matching_answers q rs owner = List.map_filter (\<lambda>r. rrForRecord q r owner) (filter (asked_for (qn_Qtype q)) rs)"
proof (induction rs)
  case (Cons r rs)
  have "recordMatchesQuestion r (qn_Qtype q) = asked_for (qn_Qtype q) r"
    by (auto simp: recordMatchesQuestion_def asked_for_def record_type_defs dns_consts)
  then show ?case using Cons by (simp add: map_filter_simps split: option.split)
qed (simp add: map_filter_simps)

lemma firstCNAME_None: "firstCNAME rs = None \<longleftrightarrow> (\<forall>r \<in> set rs. lr_Type r \<noteq> TypeCNAME)"
  by (auto simp: firstCNAME_def find_None_iff)

text \<open>
  C11: Every query is answered by the records. For a question of class IN or ANY for a valid name there is a path of at
  most eight aliases, each the first CNAME record of its owner, from the asked name through distinct owners without answers
  of their own, followed for A, AAAA and ANY questions only. The path is followed to its end: it stops only after eight aliases, at a
  name that was met before, at a name with records that the question asks for, or where there is no alias to follow. The response is
  the reply to the request, made authoritative, with the aliases and then all enabled records of the last name that the
  question asks for, in their order; only after eight aliases or in a loop are there none. When there is neither an alias nor a record the
  query is not answered.
\<close>

theorem resolve_answers_chain:
  assumes "m_Question rq = q # qs" and "qn_Qclass q = dns_ClassINET \<or> qn_Qclass q = dns_ClassANY"
    and "normalizeDomainName (qn_Name q) = Inr name"
  shows "\<exists>cs end direct. cname_chain q (owned rs) name cs end \<and> length cs \<le> 8 \<and> distinct (owners name cs) \<and>
     (cs \<noteq> [] \<longrightarrow> qn_Qtype q \<in> {1, 28, 255}) \<and>
     (length cs = 8 \<or> end \<in> set (owners name cs) \<or> direct \<noteq> [] \<or> qn_Qtype q \<notin> {1, 28, 255} \<or> (\<forall>r \<in> set (owned rs end). lr_Type r \<noteq> TypeCNAME)) \<and>
     direct = (if length cs = 8 \<or> end \<in> set (owners name cs) then []
               else List.map_filter (\<lambda>r. rrForRecord q r end) (filter (asked_for (qn_Qtype q)) (owned rs end))) \<and>
     Resolve set_reply (Some (NewStaticResolver rs)) (Some rq) w =
       (Inr (if cs = [] \<and> direct = [] then None
             else Some ((set_reply rq)\<lparr>m_Authoritative := True, m_Answer := m_Answer (set_reply rq) @ map (cnameRR q) cs @ direct\<rparr>)), w)"
proof -
  have f: "follows_cname (qn_Qtype q) = (qn_Qtype q \<in> {1, 28, 255})"
    by (auto simp: follows_cname_def dns_TypeA_def dns_TypeAAAA_def dns_TypeANY_def)
  obtain ans ok where an: "answerName (m_Answer (set_reply rq)) q (owned rs) name = (ans, ok)" by fastforce
  from answer_loop_exact [OF an [unfolded answerName_def]] obtain cs e where
    cs: "ans = m_Answer (set_reply rq) @ map (cnameRR q) cs @ chain_direct maxCNAMEChain q (owned rs) {} name cs e" "cname_chain q (owned rs) name cs e"
      "length cs \<le> maxCNAMEChain" "distinct (owners name cs)" "cs \<noteq> [] \<longrightarrow> follows_cname (qn_Qtype q)"
      "ok = (cs \<noteq> [] \<or> chain_direct maxCNAMEChain q (owned rs) {} name cs e \<noteq> [])"
      "length cs = maxCNAMEChain \<or> e \<in> set (owners name cs) \<or> matching_answers q (owned rs e) e \<noteq> [] \<or> \<not> follows_cname (qn_Qtype q) \<or>
        firstCNAME (owned rs e) = None"
    by auto
  define direct where "direct = (if length cs = 8 \<or> e \<in> set (owners name cs) then []
     else List.map_filter (\<lambda>r. rrForRecord q r e) (filter (asked_for (qn_Qtype q)) (owned rs e)))"
  have d: "chain_direct maxCNAMEChain q (owned rs) {} name cs e = direct"
    by (simp add: chain_direct_def maxCNAMEChain_def matching_answers_asked direct_def)
  have "\<not> (qn_Qclass q \<noteq> dns_ClassINET \<and> qn_Qclass q \<noteq> dns_ClassANY)" using assms(2) by blast
  then have "Resolve set_reply (Some (NewStaticResolver rs)) (Some rq) w =
      (Inr (if cs = [] \<and> direct = [] then None
            else Some ((set_reply rq)\<lparr>m_Authoritative := True, m_Answer := m_Answer (set_reply rq) @ map (cnameRR q) cs @ direct\<rparr>)), w)"
    using assms(1,3) an cs(1,6) unfolding d by (simp add: Resolve_def NewStaticResolver_def indexRecords_owned)
  moreover have "length cs = 8 \<or> e \<in> set (owners name cs) \<or> direct \<noteq> [] \<or> qn_Qtype q \<notin> {1, 28, 255} \<or> (\<forall>r \<in> set (owned rs e). lr_Type r \<noteq> TypeCNAME)"
    using cs(7) unfolding f firstCNAME_None matching_answers_asked maxCNAMEChain_def direct_def by auto
  ultimately show ?thesis
    using cs(2-5) direct_def unfolding f maxCNAMEChain_def by (intro exI [of _ cs] exI [of _ e] exI [of _ direct]) blast
qed

definition demo_records :: "local_record list" where
  "demo_records =
     [\<lparr>lr_ID = 1, lr_Name = ''www.home'', lr_Type = TypeCNAME, lr_Value = ''nas.home'', lr_TTL = 60, lr_Enabled = True,
       lr_Comment = [], lr_CreatedAt = None, lr_UpdatedAt = None\<rparr>,
      \<lparr>lr_ID = 2, lr_Name = ''nas.home'', lr_Type = TypeA, lr_Value = ''192.168.1.20'', lr_TTL = 60, lr_Enabled = True,
       lr_Comment = [], lr_CreatedAt = None, lr_UpdatedAt = None\<rparr>]"

definition demo_request :: msg where
  "demo_request = \<lparr>m_Question = [\<lparr>qn_Name = ''WWW.home.'', qn_Qtype = dns_TypeA, qn_Qclass = dns_ClassINET\<rparr>],
     m_Answer = [], m_Rcode = 0, m_Authoritative = False\<rparr>"

lemma demo_chain:
  "answerName [] (m_Question demo_request ! 0) (indexRecords demo_records) ''www.home'' =
     ([RR_CNAME \<lparr>h_Name = ''www.home.'', h_Rrtype = 5, h_Class = 1, h_Ttl = 60\<rparr> ''nas.home.'',
       RR_A \<lparr>h_Name = ''nas.home.'', h_Rrtype = 1, h_Class = 1, h_Ttl = 60\<rparr> (Some (Addr4 192 168 1 20))], True)"
  by code_simp

lemma demo_Resolve:
  "Resolve (\<lambda>r. r) (Some (NewStaticResolver demo_records)) (Some demo_request) w =
     (Inr (Some (demo_request\<lparr>m_Authoritative := True,
        m_Answer := [RR_CNAME \<lparr>h_Name = ''www.home.'', h_Rrtype = 5, h_Class = 1, h_Ttl = 60\<rparr> ''nas.home.'',
          RR_A \<lparr>h_Name = ''nas.home.'', h_Rrtype = 1, h_Class = 1, h_Ttl = 60\<rparr> (Some (Addr4 192 168 1 20))]\<rparr>)), w)"
proof -
  have n: "normalizeDomainName (qn_Name (m_Question demo_request ! 0)) = Inr ''www.home''" by code_simp
  have c: "qn_Qclass (m_Question demo_request ! 0) = dns_ClassINET" "m_Question demo_request \<noteq> []" "m_Answer demo_request = []"
    by (simp_all add: demo_request_def)
  show ?thesis
    by (simp add: Resolve_def NewStaticResolver_def c n demo_chain)
qed

text \<open>An alias and the address it leads to.\<close>

theorem resolve_answers_chain_witness:
  "\<exists>cs end direct. cname_chain (m_Question demo_request ! 0) (owned demo_records) ''www.home'' cs end \<and>
     Resolve (\<lambda>r. r) (Some (NewStaticResolver demo_records)) (Some demo_request) () =
       (Inr (Some (demo_request\<lparr>m_Authoritative := True, m_Answer := map (cnameRR (m_Question demo_request ! 0)) cs @ direct\<rparr>)), ()) \<and>
     map (cnameRR (m_Question demo_request ! 0)) cs @ direct =
       [RR_CNAME \<lparr>h_Name = ''www.home.'', h_Rrtype = 5, h_Class = 1, h_Ttl = 60\<rparr> ''nas.home.'',
        RR_A \<lparr>h_Name = ''nas.home.'', h_Rrtype = 1, h_Class = 1, h_Ttl = 60\<rparr> (Some (Addr4 192 168 1 20))]"
proof -
  let ?q = "m_Question demo_request ! 0"
  have q: "m_Question demo_request = ?q # []" "qn_Qclass ?q = dns_ClassINET" "m_Answer demo_request = []" by (simp_all add: demo_request_def)
  have n: "normalizeDomainName (qn_Name ?q) = Inr ''www.home''" by code_simp
  from resolve_answers_chain [OF q(1) disjI1 [OF q(2)] n, of demo_records "\<lambda>r. r" "()"]
  obtain cs e direct where c: "cname_chain ?q (owned demo_records) ''www.home'' cs e"
    and r: "Resolve (\<lambda>r. r) (Some (NewStaticResolver demo_records)) (Some demo_request) () =
       (Inr (if cs = [] \<and> direct = [] then None
             else Some (demo_request\<lparr>m_Authoritative := True, m_Answer := m_Answer demo_request @ map (cnameRR ?q) cs @ direct\<rparr>)), ())"
    by blast
  have "(if cs = [] \<and> direct = [] then None
         else Some (demo_request\<lparr>m_Authoritative := True, m_Answer := m_Answer demo_request @ map (cnameRR ?q) cs @ direct\<rparr>)) =
      Some (demo_request\<lparr>m_Authoritative := True,
        m_Answer := [RR_CNAME \<lparr>h_Name = ''www.home.'', h_Rrtype = 5, h_Class = 1, h_Ttl = 60\<rparr> ''nas.home.'',
          RR_A \<lparr>h_Name = ''nas.home.'', h_Rrtype = 1, h_Class = 1, h_Ttl = 60\<rparr> (Some (Addr4 192 168 1 20))]\<rparr>)"
    using r demo_Resolve [of "()"] by simp
  then have "map (cnameRR ?q) cs @ direct = [RR_CNAME \<lparr>h_Name = ''www.home.'', h_Rrtype = 5, h_Class = 1, h_Ttl = 60\<rparr> ''nas.home.'',
          RR_A \<lparr>h_Name = ''nas.home.'', h_Rrtype = 1, h_Class = 1, h_Ttl = 60\<rparr> (Some (Addr4 192 168 1 20))]"
    using q(3) by (auto split: if_splits dest: arg_cong [of _ _ m_Answer])
  then show ?thesis using c demo_Resolve [of "()"] by (intro exI [of _ cs] exI [of _ e] exI [of _ direct]) simp
qed

text \<open>
  A chain of fewer than eight aliases is followed to its end: when the enabled records lead from the
  asked name through distinct owners without answers of their own to a name with matching records, an
  A, AAAA or ANY query (or, with no alias, any query) is answered with exactly the aliases and those
  records.
\<close>

theorem resolve_follows_chain:
  assumes "m_Question rq = q # qs" and "qn_Qclass q = dns_ClassINET \<or> qn_Qclass q = dns_ClassANY"
    and "normalizeDomainName (qn_Name q) = Inr name"
    and "cname_chain q (indexRecords rs) name cs end" and "length cs < 8" and "distinct (owners name cs @ [end])"
    and "matching_answers q (indexRecords rs end) end \<noteq> []" and "cs \<noteq> [] \<longrightarrow> follows_cname (qn_Qtype q)"
  shows "Resolve set_reply (Some (NewStaticResolver rs)) (Some rq) w =
    (Inr (Some ((set_reply rq)\<lparr>m_Authoritative := True,
        m_Answer := m_Answer (set_reply rq) @ map (cnameRR q) cs @ matching_answers q (indexRecords rs end) end\<rparr>)), w)"
proof -
  have "answerName (m_Answer (set_reply rq)) q (indexRecords rs) name =
      (m_Answer (set_reply rq) @ map (cnameRR q) cs @ matching_answers q (indexRecords rs end) end, True)"
    unfolding answerName_def maxCNAMEChain_def by (rule answer_loop_complete) (use assms in auto)
  moreover have "\<not> (qn_Qclass q \<noteq> dns_ClassINET \<and> qn_Qclass q \<noteq> dns_ClassANY)" using assms(2) by blast
  ultimately show ?thesis
    using assms(1,3) by (simp add: Resolve_def NewStaticResolver_def)
qed

theorem resolve_follows_chain_witness:
  "m_Answer (the (projr (fst (Resolve (\<lambda>r. r) (Some (NewStaticResolver demo_records)) (Some demo_request) ())))) =
     map (cnameRR (m_Question demo_request ! 0)) [hd demo_records] @
     matching_answers (m_Question demo_request ! 0) (indexRecords demo_records ''nas.home'') ''nas.home''"
proof -
  let ?q = "m_Question demo_request ! 0"
  have 1: "m_Question demo_request = ?q # []" by (simp add: demo_request_def)
  have 2: "qn_Qclass ?q = dns_ClassINET" by (simp add: demo_request_def)
  have 3: "normalizeDomainName (qn_Name ?q) = Inr ''www.home''" by code_simp
  have 4: "cname_chain ?q (indexRecords demo_records) ''www.home'' [hd demo_records] ''nas.home''" by code_simp
  have 5: "matching_answers ?q (indexRecords demo_records ''nas.home'') ''nas.home'' \<noteq> []" by code_simp
  have 6: "follows_cname (qn_Qtype ?q)" by (simp add: demo_request_def follows_cname_def)
  show ?thesis
    using resolve_follows_chain [OF 1 disjI1 [OF 2] 3 4 _ _ 5, of "\<lambda>r. r" "()"] 6
    by (simp add: demo_request_def)
qed

text \<open>
  An A record is served with the address it stores: for every valid record of type A the resource record
  carries the IPv4 address whose text is the stored value, never nil, under the owner's absolute name.
\<close>

theorem a_record_served:
  assumes "valid_record r" and "lr_Type r = TypeA" and "validDomainName owner"
  shows "\<exists>a b c d. lr_Value r = string4 a b c d \<and>
     rrForRecord q r owner = Some (RR_A \<lparr>h_Name = owner @ ''.'', h_Rrtype = dns_TypeA, h_Class = qn_Qclass q, h_Ttl = lr_TTL r\<rparr>
       (Some (Addr4 a b c d)))"
proof -
  obtain a b c d where v: "lr_Value r = string4 a b c d"
    using assms(1,2) by (auto simp: valid_record_def valid_value_def)
  then have "To4 (ParseIP (lr_Value r)) = Some (Addr4 a b c d)" by (simp add: ParseIP_def To4_def)
  then show ?thesis using v assms(2,3) by (intro exI conjI [OF v]) (simp add: rrForRecord_def fqdn_valid)
qed

theorem a_record_served_witness:
  "\<exists>a b c d. rrForRecord (m_Question demo_request ! 0) (demo_records ! 1) ''nas.home'' =
     Some (RR_A \<lparr>h_Name = ''nas.home.'', h_Rrtype = dns_TypeA, h_Class = 1, h_Ttl = 60\<rparr> (Some (Addr4 a b c d)))"
proof -
  have v: "validDomainName ''nas.home''" by code_simp
  have t: "lr_Type (demo_records ! 1) = TypeA" by (simp add: demo_records_def)
  have "''192.168.1.20'' = string4 192 168 1 20" by code_simp
  then have "valid_record (demo_records ! 1)"
    using v by (auto simp: valid_record_def demo_records_def valid_value_def MaxTTL_def)
  from a_record_served [OF this t v, of "m_Question demo_request ! 0"] show ?thesis
    by (force simp: demo_records_def demo_request_def dns_ClassINET_def)
qed

lemma zoned_ParseAddr: "ParseAddr ''::1%e'' = Some (Addr6 [0, 0, 0, 0, 0, 0, 0, 1] ''e'')"
proof -
  have "parse6_loop [] (Some 0) ''1'' = Some ([1], Some 0, [])"
    by (subst parse6_loop.simps) (simp add: hex_val_def)
  then show ?thesis
    by (simp add: ParseAddr_def parseIPv6_def expand6_def Cut_def HasPrefix_def numeral_eq_Suc Let_def)
qed

text \<open>
  An AAAA value with a zone is accepted and stored, and then served as an AAAA record without an address:
  \<open>netip.ParseAddr\<close> takes the zone that \<open>net.ParseIP\<close> refuses.
\<close>

theorem aaaa_zone_served_without_address:
  "(case NewRecord \<lparr>ri_Name = ''nas.home'', ri_Type = ''AAAA'', ri_Value = ''::1%e'', ri_TTL = 0, ri_Enabled = None, ri_Comment = []\<rparr> of
      Inr r \<Rightarrow> rrForRecord \<lparr>qn_Name = ''nas.home.'', qn_Qtype = dns_TypeAAAA, qn_Qclass = dns_ClassINET\<rparr> r ''nas.home'' =
        Some (RR_AAAA \<lparr>h_Name = ''nas.home.'', h_Rrtype = dns_TypeAAAA, h_Class = dns_ClassINET, h_Ttl = 300\<rparr> None)
    | Inl _ \<Rightarrow> False)"
proof -
  have a: "addr_String (Addr6 [0, 0, 0, 0, 0, 0, 0, 1] ''e'') = ''::1%e''" by code_simp
  have n: "normalizeDomainName ''nas.home'' = Inr ''nas.home''" by code_simp
  have t: "TrimSpace ''::1%e'' = ''::1%e''" "ToUpper (TrimSpace ''AAAA'') = ''AAAA''" by code_simp+
  have f: "fqdn ''nas.home'' = ''nas.home.''" by code_simp
  have p: "ParseIP ''::1%e'' = None" by (simp add: ParseIP_def zoned_ParseAddr)
  have v: "normalizeIPValue ''::1%e'' True = Inr ''::1%e''" by (simp add: normalizeIPValue_def zoned_ParseAddr a del: addr_String.simps)
  show ?thesis
    by (simp add: NewRecord_def NormalizeInput_def t n v Let_def normalized_value_def DefaultTTL_def MaxTTL_def
        rrForRecord_def f p To16_def input_enabled_def TypeA_def TypeAAAA_def TypeCNAME_def TypePTR_def)
qed

end
