(* ===== verification/Net_Hostport.thy ===== *)
theory Net_Hostport
  imports Go_Prelude
begin

text \<open>
  \<open>net.SplitHostPort\<close> and \<open>net.JoinHostPort\<close> of the standard library, which \<open>internal/coreplugin\<close> uses for the
  peer of a query and \<open>internal/coredns\<close> for addresses in the Corefile.
\<close>

text \<open>\<open>net.SplitHostPort\<close>: the host and the port, none on an error.\<close>

definition LastColon :: "string \<Rightarrow> (string \<times> string) option" where
  "LastColon s = (if CHR '':'' \<notin> set s then None
     else let r = takeWhile (\<lambda>c. c \<noteq> CHR '':'') (rev s) in
       Some (take (length s - length r - 1) s, rev r))"

definition SplitHostPort :: "string \<Rightarrow> (string \<times> string) option" where
  "SplitHostPort hostport =
     (case LastColon hostport of
        None \<Rightarrow> None
      | Some (before, port) \<Rightarrow>
          if hd hostport = CHR ''['' then
            (case Cut hostport (CHR '']'') of (inner, after, has) \<Rightarrow>
               if \<not> has then None
               else if after \<noteq> '':'' @ port then None
               else if CHR ''['' \<in> set (tl hostport) then None
               else if CHR '']'' \<in> set after then None
               else Some (tl inner, port))
          else if CHR '':'' \<in> set before then None
          else if CHR ''['' \<in> set hostport then None
          else if CHR '']'' \<in> set hostport then None
          else Some (before, port))"

definition JoinHostPort :: "string \<Rightarrow> string \<Rightarrow> string" where
  "JoinHostPort host port =
     (if CHR '':'' \<in> set host then ''['' @ host @ '']:'' @ port else host @ '':'' @ port)"

lemma LastColon_append: "CHR '':'' \<notin> set port \<Longrightarrow> LastColon (host @ '':'' @ port) = Some (host, port)"
  by (simp add: LastColon_def Let_def takeWhile_append)

definition plain_text :: "string \<Rightarrow> bool" where
  "plain_text s \<longleftrightarrow> list_all (\<lambda>c. c \<noteq> CHR '':'' \<and> c \<noteq> CHR ''['' \<and> c \<noteq> CHR '']'') s"

lemma SplitHostPort_plain:
  "plain_text host \<Longrightarrow> plain_text port \<Longrightarrow> SplitHostPort (host @ '':'' @ port) = Some (host, port)"
proof -
  assume h: "plain_text host" and p: "plain_text port"
  have n: "c \<notin> set host \<and> c \<notin> set port" if "c \<in> {CHR '':'', CHR ''['', CHR '']''}" for c
    using that h p by (auto simp: plain_text_def list_all_iff)
  have l: "LastColon (host @ '':'' @ port) = Some (host, port)" using n by (intro LastColon_append) simp
  have "hd (host @ '':'' @ port) \<noteq> CHR ''[''" using n [of "CHR ''[''"] by (cases host) auto
  then show ?thesis unfolding SplitHostPort_def l using n by simp
qed

lemma SplitHostPort_brackets:
  assumes "CHR ''['' \<notin> set host" and "CHR '']'' \<notin> set host" and "plain_text port"
  shows "SplitHostPort (''['' @ host @ '']:'' @ port) = Some (host, port)"
proof -
  have p: "CHR '':'' \<notin> set port" using assms(3) by (auto simp: plain_text_def list_all_iff)
  have l: "LastColon (''['' @ host @ '']:'' @ port) = Some (''['' @ host @ '']'', port)"
    using LastColon_append [OF p, of "''['' @ host @ '']''"] by simp
  have c: "Cut (''['' @ host @ '']:'' @ port) (CHR '']'') = (''['' @ host, '':'' @ port, True)"
    using Cut_at [of "CHR '']''" "''['' @ host" "'':'' @ port"] assms(2) by simp
  have b: "CHR '']'' \<notin> set port" using assms(3) by (auto simp: plain_text_def list_all_iff)
  have h: "hd (''['' @ host @ '']:'' @ port) = CHR ''[''" "tl (''['' @ host @ '']:'' @ port) = host @ '']:'' @ port"
    "tl (''['' @ host) = host" by simp_all
  have n: "CHR ''['' \<notin> set (host @ '']:'' @ port)" using assms by (auto simp: plain_text_def list_all_iff)
  have e: "CHR '']'' \<notin> set ('':'' @ port)" using b by simp
  show ?thesis
    unfolding SplitHostPort_def l option.case prod.case c h if_P [OF refl]
    using n e by (simp only: simp_thms if_True if_False refl not_False_eq_True)
qed

lemma LastColon_parts:
  assumes "LastColon s = Some (a, b)"
  shows "s = a @ '':'' @ b"
proof -
  let ?r = "takeWhile (\<lambda>c. c \<noteq> CHR '':'') (rev s)"
  have m: "CHR '':'' \<in> set s" and a: "a = take (length s - length ?r - 1) s" and b: "b = rev ?r"
    using assms by (auto simp: LastColon_def Let_def split: if_splits)
  obtain u v where s: "s = u @ CHR '':'' # v" and v: "CHR '':'' \<notin> set v" using split_list_last [OF m] by blast
  then have "?r = rev v" by (simp add: takeWhile_append)
  then show ?thesis using a b s by simp
qed

lemma SplitHostPort_port:
  assumes "SplitHostPort s = Some (host, port)"
  shows "set port \<subseteq> set s"
proof -
  obtain before where "LastColon s = Some (before, port)"
    using assms by (auto simp: SplitHostPort_def split: option.splits prod.splits if_splits)
  from LastColon_parts [OF this] show ?thesis by auto
qed

end
