(* ===== verification/Core_Plugin.thy ===== *)
theory Core_Plugin
  imports Dns_Decision Local_Resolver Net_Hostport
begin

text \<open>
  \<open>internal/coreplugin\<close>: the CoreDNS plugin. The runtime is a record of atomic cells; \<open>Current()\<close> is
  the one runtime of the process, part of the world here. Other goroutines store into the cells between
  the atomic operations of a query: the world carries a list of changes (\<open>pw_env\<close>), one of which is made
  before each atomic load or store, so a statement for every list holds for every interleaving. The clock
  advances by the next of a list of ticks at each \<open>time.Now\<close>.

  Not under \<open>src\<close>, and so parameters (\<open>server\<close>): \<open>Msg.SetReply\<close> and \<open>RcodeToString\<close> of
  \<open>miekg/dns\<close>, the \<open>QName\<close> and \<open>QType\<close> of a CoreDNS request, the next plugin of the chain and the
  \<open>forward/upstream\<close> metadata it leaves. The decider and the local resolver are interfaces: their method
  is a parameter applied to the value the runtime holds.
\<close>

section \<open>The pause\<close>

record blocking_pause =
  bp_Enabled :: bool
  bp_Until :: time

definition no_pause :: blocking_pause where
  "no_pause = \<lparr>bp_Enabled = False, bp_Until = None\<rparr>"

definition Indefinite :: "blocking_pause \<Rightarrow> bool" where
  "Indefinite p \<longleftrightarrow> bp_Enabled p \<and> IsZero (bp_Until p)"

definition pause_Reason :: "blocking_pause \<Rightarrow> string" where
  "pause_Reason p = (if Indefinite p then ''blocking paused indefinitely'' else ''blocking paused'')"

section \<open>The runtime and the world\<close>

text \<open>A decider the runtime can hold: the default of \<open>SetDecider(nil)\<close> or one that was installed.\<close>

datatype 'st held_decider = AllowAll | Installed 'st

datatype audit_sink = NoopSink | InstalledSink

record ('st, 'r) plugin_runtime =
  rt_decider :: "'st held_decider"
  rt_audit :: audit_sink
  rt_mode :: string
  rt_local :: "'r option"
  rt_pause :: blocking_pause
  rt_cache :: bool

record audit_event =
  ev_Timestamp :: time
  ev_ClientIP :: addr
  ev_QueryName :: string
  ev_QueryType :: "16 word"
  ev_Action :: string
  ev_Reason :: string
  ev_RuleID :: int
  ev_BlocklistID :: int
  ev_Response :: string
  ev_Duration :: duration
  ev_Upstream :: string
  ev_CacheStatus :: string
  ev_ForwardDuration :: duration
  ev_RetryCount :: int
  ev_ForwardError :: string

record ('st, 'r, 'w) plugin_world =
  pw_runtime :: "('st, 'r) plugin_runtime"
  pw_env :: "(('st, 'r) plugin_runtime \<Rightarrow> ('st, 'r) plugin_runtime) list"
  pw_now :: instant
  pw_ticks :: "nat list"
  pw_written :: "msg list"
  pw_forwarded :: "msg list"
  pw_audit :: "audit_event list"
  pw_local :: 'w

record server =
  sv_set_reply :: "msg \<Rightarrow> msg"
  sv_RcodeToString :: "int \<Rightarrow> string"
  sv_QName :: "msg \<Rightarrow> string"
  sv_QType :: "msg \<Rightarrow> 16 word"
  sv_remote :: string
  sv_next :: "msg \<Rightarrow> int \<times> go_error option \<times> string"

text \<open>The change another goroutine makes before an atomic operation, and the atomic operations.\<close>

definition interfere :: "('st, 'r, 'w) plugin_world \<Rightarrow> ('st, 'r, 'w) plugin_world" where
  "interfere w = (case pw_env w of [] \<Rightarrow> w | f # fs \<Rightarrow> w\<lparr>pw_runtime := f (pw_runtime w), pw_env := fs\<rparr>)"

definition load :: "(('st, 'r) plugin_runtime \<Rightarrow> 'a) \<Rightarrow> ('st, 'r, 'w) plugin_world \<Rightarrow> 'a \<times> ('st, 'r, 'w) plugin_world" where
  "load f w = (let w = interfere w in (f (pw_runtime w), w))"

definition store ::
  "(('st, 'r) plugin_runtime \<Rightarrow> ('st, 'r) plugin_runtime) \<Rightarrow> ('st, 'r, 'w) plugin_world \<Rightarrow> ('st, 'r, 'w) plugin_world" where
  "store f w = (let w = interfere w in w\<lparr>pw_runtime := f (pw_runtime w)\<rparr>)"

definition time_Now :: "('st, 'r, 'w) plugin_world \<Rightarrow> instant \<times> ('st, 'r, 'w) plugin_world" where
  "time_Now w =
     (case pw_ticks w of
        [] \<Rightarrow> (pw_now w, w)
      | d # ds \<Rightarrow> (pw_now w + int d, w\<lparr>pw_now := pw_now w + int d, pw_ticks := ds\<rparr>))"

section \<open>Operations of the runtime\<close>

definition SetDecider :: "'st option \<Rightarrow> ('st, 'r, 'w) plugin_world \<Rightarrow> ('st, 'r, 'w) plugin_world" where
  "SetDecider d = store (\<lambda>rt. rt\<lparr>rt_decider := (case d of None \<Rightarrow> AllowAll | Some x \<Rightarrow> Installed x)\<rparr>)"

definition SetAudit :: "audit_sink option \<Rightarrow> ('st, 'r, 'w) plugin_world \<Rightarrow> ('st, 'r, 'w) plugin_world" where
  "SetAudit s = store (\<lambda>rt. rt\<lparr>rt_audit := (case s of None \<Rightarrow> NoopSink | Some x \<Rightarrow> x)\<rparr>)"

definition SetBlockingResponse :: "string \<Rightarrow> ('st, 'r, 'w) plugin_world \<Rightarrow> ('st, 'r, 'w) plugin_world" where
  "SetBlockingResponse mode = store (\<lambda>rt. rt\<lparr>rt_mode := (if mode = [] then BlockingResponseNullIP else mode)\<rparr>)"

definition SetLocalResolver :: "'r option \<Rightarrow> ('st, 'r, 'w) plugin_world \<Rightarrow> ('st, 'r, 'w) plugin_world" where
  "SetLocalResolver r = store (\<lambda>rt. rt\<lparr>rt_local := r\<rparr>)"

definition SetCacheEnabled :: "bool \<Rightarrow> ('st, 'r, 'w) plugin_world \<Rightarrow> ('st, 'r, 'w) plugin_world" where
  "SetCacheEnabled b = store (\<lambda>rt. rt\<lparr>rt_cache := b\<rparr>)"

definition PauseBlocking :: "time \<Rightarrow> ('st, 'r, 'w) plugin_world \<Rightarrow> ('st, 'r, 'w) plugin_world" where
  "PauseBlocking until = store (\<lambda>rt. rt\<lparr>rt_pause := \<lparr>bp_Enabled = True, bp_Until = until\<rparr>\<rparr>)"

definition ResumeBlocking :: "('st, 'r, 'w) plugin_world \<Rightarrow> ('st, 'r, 'w) plugin_world" where
  "ResumeBlocking = store (\<lambda>rt. rt\<lparr>rt_pause := no_pause\<rparr>)"

definition NewRuntime :: "('st, 'r) plugin_runtime" where
  "NewRuntime = \<lparr>rt_decider = AllowAll, rt_audit = NoopSink, rt_mode = BlockingResponseNullIP, rt_local = None,
     rt_pause = no_pause, rt_cache = False\<rparr>"

text \<open>The pause that is in force: an expired one is taken back by whoever reads it.\<close>

definition BlockingPause :: "('st, 'r, 'w) plugin_world \<Rightarrow> blocking_pause \<times> ('st, 'r, 'w) plugin_world" where
  "BlockingPause w =
     (case load rt_pause w of (pause, w) \<Rightarrow>
        (case bp_Until pause of
           Some u \<Rightarrow>
             if bp_Enabled pause then
               (case time_Now w of (now, w) \<Rightarrow>
                  if \<not> u > now then (no_pause, ResumeBlocking w) else (pause, w))
             else (pause, w)
         | None \<Rightarrow> (pause, w)))"

definition Active :: "blocking_pause \<Rightarrow> time \<Rightarrow> ('st, 'r, 'w) plugin_world \<Rightarrow> bool \<times> ('st, 'r, 'w) plugin_world" where
  "Active p now w =
     (if \<not> bp_Enabled p then (False, w)
      else case bp_Until p of
        None \<Rightarrow> (True, w)
      | Some u \<Rightarrow>
          (case (case now of None \<Rightarrow> time_Now w | Some t \<Rightarrow> (t, w)) of (t, w) \<Rightarrow> (u > t, w)))"

fun held_Decide :: "('st \<Rightarrow> query \<Rightarrow> decision option) \<Rightarrow> 'st held_decider \<Rightarrow> query \<Rightarrow> decision option" where
  "held_Decide decide AllowAll q = Some (Decision ActionAllow [])"
| "held_Decide decide (Installed d) q = decide d q"

definition runtime_Decide ::
  "('st \<Rightarrow> query \<Rightarrow> decision option) \<Rightarrow> query \<Rightarrow> ('st, 'r, 'w) plugin_world \<Rightarrow> decision option \<times> ('st, 'r, 'w) plugin_world" where
  "runtime_Decide decide q w =
     (case BlockingPause w of (pause, w) \<Rightarrow>
      case Active pause (q_Timestamp q) w of (active, w) \<Rightarrow>
        if active then (Some (Decision ActionAllow (pause_Reason pause)), w)
        else case load rt_decider w of (d, w) \<Rightarrow> (held_Decide decide d q, w))"

definition ResolveLocal ::
  "('r \<Rightarrow> msg \<Rightarrow> ('w, msg option) step) \<Rightarrow> msg \<Rightarrow> ('st, 'r, 'w) plugin_world
     \<Rightarrow> msg option result \<times> ('st, 'r, 'w) plugin_world" where
  "ResolveLocal resolve r w =
     (case load rt_local w of (resolver, w) \<Rightarrow>
        case resolver of
          None \<Rightarrow> (Inr None, w)
        | Some res \<Rightarrow> (case resolve res r (pw_local w) of (x, l) \<Rightarrow> (x, w\<lparr>pw_local := l\<rparr>)))"

section \<open>Serving a query\<close>

definition client_addr :: "string \<Rightarrow> addr" where
  "client_addr remote =
     (case SplitHostPort remote of
        None \<Rightarrow> AddrInvalid
      | Some (host, _) \<Rightarrow> (case ParseAddr host of None \<Rightarrow> AddrInvalid | Some a \<Rightarrow> a))"

definition toQuery :: "server \<Rightarrow> msg \<Rightarrow> instant \<Rightarrow> query" where
  "toQuery sv r now =
     \<lparr>q_Name = sv_QName sv r, q_Type = sv_QType sv r, q_ClientIP = client_addr (sv_remote sv), q_Timestamp = Some now\<rparr>"

definition cacheStatus :: "bool \<Rightarrow> string \<Rightarrow> go_error option \<Rightarrow> string" where
  "cacheStatus cacheEnabled upstream err =
     (if \<not> cacheEnabled then ''disabled''
      else if upstream \<noteq> [] then ''miss''
      else if err = None then ''hit''
      else ''unknown'')"

definition RcodeRefused :: int where "RcodeRefused = 5"
definition RcodeNameError :: int where "RcodeNameError = 3"

definition addNullAnswers :: "msg \<Rightarrow> msg \<Rightarrow> msg" where
  "addNullAnswers m r =
     (if length (m_Question r) = 0 then m
      else let q = m_Question r ! 0 in
        if qn_Qtype q = dns_TypeA then
          m\<lparr>m_Answer := m_Answer m @ [RR_A \<lparr>h_Name = qn_Name q, h_Rrtype = dns_TypeA, h_Class = qn_Qclass q, h_Ttl = 0\<rparr>
              (Some (Addr4 0 0 0 0))]\<rparr>
        else if qn_Qtype q = dns_TypeAAAA then
          m\<lparr>m_Answer := m_Answer m @ [RR_AAAA \<lparr>h_Name = qn_Name q, h_Rrtype = dns_TypeAAAA, h_Class = qn_Qclass q, h_Ttl = 0\<rparr>
              (Some (Addr6 [0, 0, 0, 0, 0, 0, 0, 0] []))]\<rparr>
        else m\<lparr>m_Rcode := RcodeNameError\<rparr>)"

definition blocked_response :: "(msg \<Rightarrow> msg) \<Rightarrow> msg \<Rightarrow> string \<Rightarrow> msg" where
  "blocked_response set_reply r mode =
     (let m = (set_reply r)\<lparr>m_Authoritative := True\<rparr> in
      if mode = BlockingResponseRefused then m\<lparr>m_Rcode := RcodeRefused\<rparr>
      else if mode = BlockingResponseNullIP then addNullAnswers m r
      else m\<lparr>m_Rcode := RcodeNameError\<rparr>)"

definition WriteMsg :: "msg \<Rightarrow> ('st, 'r, 'w) plugin_world \<Rightarrow> ('st, 'r, 'w) plugin_world" where
  "WriteMsg m w = w\<lparr>pw_written := pw_written w @ [m]\<rparr>"

definition writeBlockedResponse ::
  "server \<Rightarrow> msg \<Rightarrow> string \<Rightarrow> ('st, 'r, 'w) plugin_world \<Rightarrow> (int \<times> string) \<times> ('st, 'r, 'w) plugin_world" where
  "writeBlockedResponse sv r mode w =
     (let m = blocked_response (sv_set_reply sv) r mode in
      ((m_Rcode m, sv_RcodeToString sv (m_Rcode m)), WriteMsg m w))"

definition Record :: "audit_sink \<Rightarrow> audit_event \<Rightarrow> ('st, 'r, 'w) plugin_world \<Rightarrow> ('st, 'r, 'w) plugin_world" where
  "Record sink ev w = (case sink of NoopSink \<Rightarrow> w | InstalledSink \<Rightarrow> w\<lparr>pw_audit := pw_audit w @ [ev]\<rparr>)"

definition plugin_event :: "query \<Rightarrow> string \<Rightarrow> string \<Rightarrow> string \<Rightarrow> duration \<Rightarrow> string \<Rightarrow> audit_event" where
  "plugin_event q action reason response dur cache =
     \<lparr>ev_Timestamp = q_Timestamp q, ev_ClientIP = q_ClientIP q, ev_QueryName = q_Name q, ev_QueryType = q_Type q,
      ev_Action = action, ev_Reason = reason, ev_RuleID = 0, ev_BlocklistID = 0, ev_Response = response,
      ev_Duration = dur, ev_Upstream = [], ev_CacheStatus = cache, ev_ForwardDuration = 0, ev_RetryCount = -1,
      ev_ForwardError = []\<rparr>"

definition serve_local ::
  "server \<Rightarrow> query \<Rightarrow> instant \<Rightarrow> msg \<Rightarrow> ('st, 'r, 'w) plugin_world \<Rightarrow> (int \<times> go_error option) \<times> ('st, 'r, 'w) plugin_world" where
  "serve_local sv q started response w =
     (case load rt_audit (WriteMsg response w) of (sink, w) \<Rightarrow>
      case time_Now w of (t, w) \<Rightarrow>
        ((m_Rcode response, None),
         Record sink (plugin_event q ActionAllow ''local dns match'' (sv_RcodeToString sv (m_Rcode response)) (t - started) ''bypass'') w))"

definition serve_blocked ::
  "server \<Rightarrow> query \<Rightarrow> instant \<Rightarrow> decision \<Rightarrow> msg \<Rightarrow> ('st, 'r, 'w) plugin_world
     \<Rightarrow> (int \<times> go_error option) \<times> ('st, 'r, 'w) plugin_world" where
  "serve_blocked sv q started d r w =
     (case load rt_mode w of (mode, w) \<Rightarrow>
      case writeBlockedResponse sv r mode w of ((rcode, response), w) \<Rightarrow>
      case load rt_audit w of (sink, w) \<Rightarrow>
      case time_Now w of (t, w) \<Rightarrow>
        ((rcode, None),
         Record sink ((plugin_event q (d_Action d) (d_Reason d) response (t - started) ''bypass'')
           \<lparr>ev_RuleID := d_RuleID d, ev_BlocklistID := d_BlocklistID d\<rparr>) w))"

definition forward_error :: "go_error option \<Rightarrow> string" where
  "forward_error err = (case err of None \<Rightarrow> [] | Some e \<Rightarrow> err_text e)"

definition serve_forward ::
  "server \<Rightarrow> query \<Rightarrow> instant \<Rightarrow> decision \<Rightarrow> msg \<Rightarrow> ('st, 'r, 'w) plugin_world
     \<Rightarrow> (int \<times> go_error option) \<times> ('st, 'r, 'w) plugin_world" where
  "serve_forward sv q started d r w =
     (case time_Now w of (forwardStarted, w) \<Rightarrow>
      case sv_next sv r of (rcode, err, upstream) \<Rightarrow>
      case time_Now (w\<lparr>pw_forwarded := pw_forwarded w @ [r]\<rparr>) of (forwarded, w) \<Rightarrow>
      case load rt_audit w of (sink, w) \<Rightarrow>
      case time_Now w of (t, w) \<Rightarrow>
      case load rt_cache w of (cache, w) \<Rightarrow>
        ((rcode, err),
         Record sink ((plugin_event q ActionAllow (d_Reason d) (sv_RcodeToString sv rcode) (t - started) (cacheStatus cache upstream err))
           \<lparr>ev_RuleID := d_RuleID d, ev_BlocklistID := d_BlocklistID d, ev_Upstream := upstream,
            ev_ForwardDuration := forwarded - forwardStarted, ev_ForwardError := forward_error err\<rparr>) w))"

text \<open>The handler after the local lookup; the result is none when the decider panics.\<close>

definition serve_decided ::
  "server \<Rightarrow> ('st \<Rightarrow> query \<Rightarrow> decision option) \<Rightarrow> query \<Rightarrow> instant \<Rightarrow> bool \<Rightarrow> msg
     \<Rightarrow> ('st, 'r, 'w) plugin_world \<Rightarrow> (int \<times> go_error option) option \<times> ('st, 'r, 'w) plugin_world" where
  "serve_decided sv decide q started localLookupFailed r w =
     (case runtime_Decide decide q w of
        (None, w) \<Rightarrow> (None, w)
      | (Some decision, w) \<Rightarrow>
          let d = (if localLookupFailed
                   then decision\<lparr>d_Reason := d_Reason decision @ ''; local dns lookup failed (fail open)''\<rparr>
                   else decision) in
          if d_Action d = ActionBlock
          then (case serve_blocked sv q started d r w of (x, w) \<Rightarrow> (Some x, w))
          else (case serve_forward sv q started d r w of (x, w) \<Rightarrow> (Some x, w)))"

definition ServeDNS ::
  "server \<Rightarrow> ('st \<Rightarrow> query \<Rightarrow> decision option) \<Rightarrow> ('r \<Rightarrow> msg \<Rightarrow> ('w, msg option) step) \<Rightarrow> msg
     \<Rightarrow> ('st, 'r, 'w) plugin_world \<Rightarrow> (int \<times> go_error option) option \<times> ('st, 'r, 'w) plugin_world" where
  "ServeDNS sv decide resolve r w =
     (case time_Now w of (started, w) \<Rightarrow>
      let q = toQuery sv r started in
      case ResolveLocal resolve r w of
        (Inl err, w) \<Rightarrow> serve_decided sv decide q started True r w
      | (Inr None, w) \<Rightarrow> serve_decided sv decide q started False r w
      | (Inr (Some response), w) \<Rightarrow> (case serve_local sv q started response w of (x, w) \<Rightarrow> (Some x, w)))"

section \<open>The place of the plugin in the chain\<close>

fun insert_before :: "string \<Rightarrow> string \<Rightarrow> string list \<Rightarrow> string list option" where
  "insert_before name before [] = None"
| "insert_before name before (d # ds) =
     (if d = before then Some (name # d # ds) else map_option ((#) d) (insert_before name before ds))"

definition insertDirectiveBefore :: "string \<Rightarrow> string \<Rightarrow> string list \<Rightarrow> string list" where
  "insertDirectiveBefore name before directives =
     (if name \<in> set directives then directives
      else case insert_before name before directives of
        Some ds \<Rightarrow> ds
      | None \<Rightarrow> directives @ [name])"

section \<open>What the operations leave alone\<close>

text \<open>
  The messages written, the requests passed on and the audit events: \<open>traffic\<close>. A property of the
  runtime that every change of the other goroutines keeps is kept by every operation of a query
  (\<open>stable\<close>): \<open>quiet\<close> worlds have no such changes.
\<close>

definition traffic :: "('st, 'r, 'w) plugin_world \<Rightarrow> msg list \<times> msg list \<times> audit_event list" where
  "traffic w = (pw_written w, pw_forwarded w, pw_audit w)"

definition stable :: "(('st, 'r) plugin_runtime \<Rightarrow> bool) \<Rightarrow> ('st, 'r, 'w) plugin_world \<Rightarrow> bool" where
  "stable I w \<longleftrightarrow> I (pw_runtime w) \<and> (\<forall>f \<in> set (pw_env w). \<forall>rt. I rt \<longrightarrow> I (f rt))"

lemma traffic_interfere [simp]: "traffic (interfere w) = traffic w"
  by (simp add: interfere_def traffic_def split: list.split)

lemma traffic_load [simp]: "traffic (snd (load f w)) = traffic w"
  by (simp add: load_def Let_def)

lemma traffic_store [simp]: "traffic (store f w) = traffic w"
  unfolding store_def Let_def by (metis traffic_def traffic_interfere plugin_world.select_convs plugin_world.surjective plugin_world.update_convs(1))

lemma traffic_now [simp]: "traffic (snd (time_Now w)) = traffic w"
  by (simp add: time_Now_def traffic_def split: list.split)

lemma stable_interfere: "stable I w \<Longrightarrow> stable I (interfere w)"
  by (auto simp: stable_def interfere_def split: list.split)

lemma stable_load: "stable I w \<Longrightarrow> stable I (snd (load f w))"
  by (simp add: load_def Let_def stable_interfere)

lemma stable_load_value: "stable I w \<Longrightarrow> \<exists>rt. I rt \<and> fst (load f w) = f rt"
  using stable_interfere [of I w] by (auto simp: load_def Let_def stable_def)

lemma stable_store: "stable I w \<Longrightarrow> (\<And>rt. I rt \<Longrightarrow> I (f rt)) \<Longrightarrow> stable I (store f w)"
  using stable_interfere [of I w] by (auto simp: store_def Let_def stable_def)

lemma stable_now: "stable I w \<Longrightarrow> stable I (snd (time_Now w))"
  by (simp add: time_Now_def stable_def split: list.split)

lemma BlockingPause_cases:
  obtains (kept) p w' where "BlockingPause w = (p, w')" and "traffic w' = traffic w"
    and "\<And>I. stable I w \<Longrightarrow> stable I w' \<and> (\<exists>rt. I rt \<and> rt_pause rt = p)"
  | (expired) w' where "BlockingPause w = (no_pause, w')" and "traffic w' = traffic w"
    and "\<And>I. stable I w \<Longrightarrow> (\<And>rt. I rt \<Longrightarrow> I (rt\<lparr>rt_pause := no_pause\<rparr>)) \<Longrightarrow> stable I w'"
proof -
  obtain pause w1 where l: "load rt_pause w = (pause, w1)" by fastforce
  have t1: "traffic w1 = traffic w" using traffic_load [of rt_pause w] l by simp
  have s1: "stable I w1 \<and> (\<exists>rt. I rt \<and> rt_pause rt = pause)" if "stable I w" for I
    using stable_load [OF that, of rt_pause] stable_load_value [OF that, of rt_pause] l by auto
  show thesis
  proof (cases "bp_Enabled pause \<and> bp_Until pause \<noteq> None")
    case True
    then obtain u where u: "bp_Until pause = Some u" by blast
    obtain now w2 where n: "time_Now w1 = (now, w2)" by fastforce
    have t2: "traffic w2 = traffic w" using traffic_now [of w1] n t1 by simp
    have s2: "stable I w1 \<Longrightarrow> stable I w2" for I using stable_now [of I w1] n by simp
    show ?thesis
    proof (cases "u > now")
      case later: True
      have "BlockingPause w = (pause, w2)" using l u True n later by (simp add: BlockingPause_def)
      then show ?thesis using kept t2 s1 s2 by blast
    next
      case past: False
      have "BlockingPause w = (no_pause, ResumeBlocking w2)" using l u True n past by (simp add: BlockingPause_def)
      moreover have "traffic (ResumeBlocking w2) = traffic w" using t2 by (simp add: ResumeBlocking_def)
      moreover have "stable I (ResumeBlocking w2)"
        if "stable I w" "\<And>rt. I rt \<Longrightarrow> I (rt\<lparr>rt_pause := no_pause\<rparr>)" for I
        unfolding ResumeBlocking_def using stable_store s2 s1 that by blast
      ultimately show ?thesis by (rule expired)
    qed
  next
    case False
    then have "BlockingPause w = (pause, w1)" using l by (auto simp: BlockingPause_def split: option.split)
    then show ?thesis using kept t1 s1 by blast
  qed
qed

lemma Active_frame: "traffic (snd (Active p now w)) = traffic w" "stable I w \<Longrightarrow> stable I (snd (Active p now w))"
  using traffic_now [of w] stable_now [of I w]
  by (auto simp: Active_def case_prod_beta split: option.split)

lemma Active_no_pause [simp]: "Active no_pause now w = (False, w)"
  by (simp add: Active_def no_pause_def)

lemma ResolveLocal_frame: "traffic (snd (ResolveLocal resolve r w)) = traffic w"
  "stable I w \<Longrightarrow> stable I (snd (ResolveLocal resolve r w))"
  using traffic_load [of rt_local w] stable_load [of I w rt_local]
  by (auto simp: ResolveLocal_def traffic_def stable_def case_prod_beta split: option.split)

lemma runtime_Decide_traffic: "traffic (snd (runtime_Decide decide q w)) = traffic w"
  by (rule BlockingPause_cases [of w])
    (auto simp: runtime_Decide_def case_prod_beta Active_frame)

section \<open>One query\<close>

definition sink_installed :: "('st, 'r) plugin_runtime \<Rightarrow> bool" where
  "sink_installed rt \<longleftrightarrow> rt_audit rt = InstalledSink"

text \<open>The event of a served query: whose query it was and which response the client got.\<close>

definition event_for :: "server \<Rightarrow> msg \<Rightarrow> int \<Rightarrow> audit_event \<Rightarrow> bool" where
  "event_for sv r rcode ev \<longleftrightarrow> ev_QueryName ev = sv_QName sv r \<and> ev_QueryType ev = sv_QType sv r \<and>
     ev_ClientIP ev = client_addr (sv_remote sv) \<and> ev_Response ev = sv_RcodeToString sv rcode"

lemma stable_Decide:
  assumes "stable I w" and "\<And>rt. I rt \<Longrightarrow> I (rt\<lparr>rt_pause := no_pause\<rparr>)"
  shows "stable I (snd (runtime_Decide decide q w))"
  by (rule BlockingPause_cases [of w])
    (use assms in \<open>auto simp: runtime_Decide_def case_prod_beta intro!: stable_load Active_frame\<close>)

lemma event_for_plugin_event [simp]:
  "event_for sv r rcode (plugin_event (toQuery sv r t) a reason (sv_RcodeToString sv rcode) dur c)"
  by (simp add: event_for_def plugin_event_def toQuery_def)

lemma traffic_Record: "traffic (Record InstalledSink ev w) = (pw_written w, pw_forwarded w, pw_audit w @ [ev])"
  by (simp add: Record_def traffic_def)

lemma sink_loaded: "stable sink_installed w \<Longrightarrow> fst (load rt_audit w) = InstalledSink"
  using stable_load_value [of sink_installed w rt_audit] by (auto simp: sink_installed_def)

lemma traffic_parts: "traffic w = (a, b, c) \<Longrightarrow> pw_written w = a \<and> pw_forwarded w = b \<and> pw_audit w = c"
  by (simp add: traffic_def)

lemma serve_local_outcome:
  assumes "stable sink_installed w" and "serve_local sv (toQuery sv r t) started m w = ((rcode, err), w')"
  shows "err = None \<and> rcode = m_Rcode m \<and> (\<exists>ev. event_for sv r rcode ev \<and> ev_Action ev = ActionAllow \<and>
     traffic w' = (pw_written w @ [m], pw_forwarded w, pw_audit w @ [ev]))"
proof -
  let ?w1 = "WriteMsg m w"
  have s: "stable sink_installed ?w1" using assms(1) by (simp add: stable_def WriteMsg_def)
  obtain w2 where l: "load rt_audit ?w1 = (InstalledSink, w2)"
    using sink_loaded [OF s] by (metis prod.collapse)
  obtain u w3 where n: "time_Now w2 = (u, w3)" by fastforce
  have "traffic w3 = traffic ?w1" using traffic_load [of rt_audit ?w1] traffic_now [of w2] l n by simp
  then have t: "traffic w3 = (pw_written w @ [m], pw_forwarded w, pw_audit w)" by (simp add: WriteMsg_def traffic_def)
  let ?ev = "plugin_event (toQuery sv r t) ActionAllow ''local dns match'' (sv_RcodeToString sv (m_Rcode m)) (u - started) ''bypass''"
  have "w' = Record InstalledSink ?ev w3" "rcode = m_Rcode m" "err = None"
    using assms(2) by (auto simp: serve_local_def l n)
  moreover have "ev_Action ?ev = ActionAllow" by (simp add: plugin_event_def)
  ultimately show ?thesis using traffic_parts [OF t] by (auto simp: traffic_Record)
qed

lemma serve_blocked_outcome:
  assumes "stable sink_installed w" and "serve_blocked sv (toQuery sv r t) started d r w = ((rcode, err), w')"
  shows "err = None \<and> (\<exists>mode ev. rcode = m_Rcode (blocked_response (sv_set_reply sv) r mode) \<and> event_for sv r rcode ev \<and>
     ev_Action ev = d_Action d \<and> ev_Reason ev = d_Reason d \<and> ev_RuleID ev = d_RuleID d \<and> ev_BlocklistID ev = d_BlocklistID d \<and>
     mode = fst (load rt_mode w) \<and>
     traffic w' = (pw_written w @ [blocked_response (sv_set_reply sv) r mode], pw_forwarded w, pw_audit w @ [ev]))"
proof -
  obtain mode w1 where m: "load rt_mode w = (mode, w1)" by fastforce
  let ?m = "blocked_response (sv_set_reply sv) r mode"
  let ?w1 = "WriteMsg ?m w1"
  have s: "stable sink_installed ?w1" using stable_load [OF assms(1), of rt_mode] m by (simp add: stable_def WriteMsg_def)
  obtain w2 where l: "load rt_audit ?w1 = (InstalledSink, w2)"
    using sink_loaded [OF s] by (metis prod.collapse)
  obtain u w3 where n: "time_Now w2 = (u, w3)" by fastforce
  have "traffic w3 = traffic ?w1" using traffic_load [of rt_audit ?w1] traffic_now [of w2] l n by simp
  moreover have "traffic w1 = traffic w" using traffic_load [of rt_mode w] m by simp
  ultimately have t: "traffic w3 = (pw_written w @ [?m], pw_forwarded w, pw_audit w)" by (simp add: WriteMsg_def traffic_def)
  let ?ev = "(plugin_event (toQuery sv r t) (d_Action d) (d_Reason d) (sv_RcodeToString sv (m_Rcode ?m)) (u - started) ''bypass'')
    \<lparr>ev_RuleID := d_RuleID d, ev_BlocklistID := d_BlocklistID d\<rparr>"
  have r: "w' = Record InstalledSink ?ev w3" "rcode = m_Rcode ?m" "err = None"
    using assms(2) by (auto simp: serve_blocked_def writeBlockedResponse_def Let_def m l n)
  have "event_for sv r rcode ?ev" using r(2) by (simp add: event_for_def plugin_event_def toQuery_def)
  moreover have "ev_Action ?ev = d_Action d" "ev_Reason ?ev = d_Reason d" "ev_RuleID ?ev = d_RuleID d" "ev_BlocklistID ?ev = d_BlocklistID d"
    by (simp_all add: plugin_event_def)
  moreover have "traffic w' = (pw_written w @ [?m], pw_forwarded w, pw_audit w @ [?ev])"
    using traffic_parts [OF t] r(1) by (simp add: traffic_Record)
  ultimately show ?thesis using r(2,3) m by (metis fst_conv)
qed

lemma serve_forward_outcome:
  assumes "stable sink_installed w" and "serve_forward sv (toQuery sv r t) started d r w = ((rcode, err), w')"
  shows "(\<exists>upstream ev. sv_next sv r = (rcode, err, upstream) \<and> event_for sv r rcode ev \<and> ev_Action ev = ActionAllow \<and>
     ev_Reason ev = d_Reason d \<and> ev_ForwardError ev = forward_error err \<and>
     traffic w' = (pw_written w, pw_forwarded w @ [r], pw_audit w @ [ev]))"
proof -
  obtain fs w1 where n1: "time_Now w = (fs, w1)" by fastforce
  obtain rc er up where nx: "sv_next sv r = (rc, er, up)" using prod_cases3 by blast
  let ?w1 = "w1\<lparr>pw_forwarded := pw_forwarded w1 @ [r]\<rparr>"
  obtain fd w2 where n2: "time_Now ?w1 = (fd, w2)" by fastforce
  have s1: "stable sink_installed w1" using stable_now [OF assms(1)] n1 by simp
  then have "stable sink_installed ?w1" by (simp add: stable_def)
  then have s: "stable sink_installed w2" using stable_now [of sink_installed ?w1] n2 by simp
  obtain w3 where l: "load rt_audit w2 = (InstalledSink, w3)"
    using sink_loaded [OF s] by (metis prod.collapse)
  obtain u w4 where n: "time_Now w3 = (u, w4)" by fastforce
  obtain ch w5 where c: "load rt_cache w4 = (ch, w5)" by fastforce
  have "traffic w5 = traffic ?w1"
    using traffic_load [of rt_cache w4] traffic_now [of w3] traffic_load [of rt_audit w2] traffic_now [of ?w1] n2 l n c by simp
  moreover have "traffic w1 = traffic w" using traffic_now [of w] n1 by simp
  ultimately have t: "traffic w5 = (pw_written w, pw_forwarded w @ [r], pw_audit w)" by (simp add: traffic_def)
  let ?ev = "(plugin_event (toQuery sv r t) ActionAllow (d_Reason d) (sv_RcodeToString sv rc) (u - started) (cacheStatus ch up er))
           \<lparr>ev_RuleID := d_RuleID d, ev_BlocklistID := d_BlocklistID d, ev_Upstream := up,
            ev_ForwardDuration := fd - fs, ev_ForwardError := forward_error er\<rparr>"
  have r: "w' = Record InstalledSink ?ev w5" "rcode = rc" "err = er"
    using assms(2) by (auto simp: serve_forward_def n1 nx n2 l n c)
  have "event_for sv r rcode ?ev" using r(2) by (simp add: event_for_def plugin_event_def toQuery_def)
  moreover have "ev_Action ?ev = ActionAllow" "ev_Reason ?ev = d_Reason d" "ev_ForwardError ?ev = forward_error err"
    using r(3) by (simp_all add: plugin_event_def)
  moreover have "traffic w' = (pw_written w, pw_forwarded w @ [r], pw_audit w @ [?ev])"
    using traffic_parts [OF t] r(1) by (simp add: traffic_Record)
  ultimately show ?thesis using nx r(2,3) by metis
qed

text \<open>
  The three ways a query is served, for every interleaving that keeps the audit sink installed.
\<close>

lemma ServeDNS_cases:
  assumes "stable sink_installed w" and "ServeDNS sv decide resolve r w = (Some (rcode, err), w')"
  obtains (local) m ev where "err = None" and "rcode = m_Rcode m" and "event_for sv r rcode ev" and "ev_Action ev = ActionAllow"
      and "\<exists>res l l'. resolve res r l = (Inr (Some m), l')"
      and "traffic w' = (pw_written w @ [m], pw_forwarded w, pw_audit w @ [ev])"
  | (blocked) mode ev where "err = None" and "rcode = m_Rcode (blocked_response (sv_set_reply sv) r mode)" and "event_for sv r rcode ev"
      and "ev_Action ev = ActionBlock"
      and "traffic w' = (pw_written w @ [blocked_response (sv_set_reply sv) r mode], pw_forwarded w, pw_audit w @ [ev])"
  | (forwarded) upstream ev where "sv_next sv r = (rcode, err, upstream)" and "event_for sv r rcode ev" and "ev_Action ev = ActionAllow"
      and "ev_ForwardError ev = forward_error err"
      and "traffic w' = (pw_written w, pw_forwarded w @ [r], pw_audit w @ [ev])"
proof -
  obtain started w1 where n: "time_Now w = (started, w1)" by fastforce
  let ?q = "toQuery sv r started"
  obtain found w2 where f: "ResolveLocal resolve r w1 = (found, w2)" by fastforce
  have s1: "stable sink_installed w1" using stable_now [OF assms(1)] n by simp
  have s2: "stable sink_installed w2" using ResolveLocal_frame(2) [OF s1, of resolve r] f by simp
  have t2: "traffic w2 = traffic w"
    using traffic_now [of w] n ResolveLocal_frame(1) [of resolve r w1] f by simp
  note p2 = traffic_parts [OF t2 [unfolded traffic_def [of w]]]
  show thesis
  proof (cases "\<exists>m. found = Inr (Some m)")
    case True
    then obtain m where m: "found = Inr (Some m)" by blast
    have "serve_local sv ?q started m w2 = ((rcode, err), w')"
      using assms(2) by (auto simp: ServeDNS_def n f m Let_def split: prod.splits)
    from serve_local_outcome [OF s2 this] p2
    obtain ev where ev: "err = None" "rcode = m_Rcode m" "event_for sv r rcode ev" "ev_Action ev = ActionAllow"
      "traffic w' = (pw_written w @ [m], pw_forwarded w, pw_audit w @ [ev])" by auto
    have "\<exists>res l l'. resolve res r l = (Inr (Some m), l')"
      using f m by (auto simp: ResolveLocal_def split: prod.splits option.splits)
    then show ?thesis using local [OF ev(1-4) _ ev(5)] by blast
  next
    case False
    obtain decided w3 where d: "runtime_Decide decide ?q w2 = (decided, w3)" by fastforce
    have s3: "stable sink_installed w3"
      using stable_Decide [OF s2, of decide ?q] d by (simp add: sink_installed_def)
    have t3: "traffic w3 = traffic w" using runtime_Decide_traffic [of decide ?q w2] d t2 by simp
    note p3 = traffic_parts [OF t3 [unfolded traffic_def [of w]]]
    obtain failed where "serve_decided sv decide ?q started failed r w2 = (Some (rcode, err), w')"
      using assms(2) False by (auto simp: ServeDNS_def n f Let_def split: sum.splits option.splits)
    then obtain dec where e: "(if d_Action dec = ActionBlock then (case serve_blocked sv ?q started dec r w3 of (x, w) \<Rightarrow> (Some x, w))
       else (case serve_forward sv ?q started dec r w3 of (x, w) \<Rightarrow> (Some x, w))) = (Some (rcode, err), w')"
      by (cases decided) (auto simp only: serve_decided_def d Let_def option.case prod.case prod.inject option.distinct)
    show ?thesis
    proof (cases "d_Action dec = ActionBlock")
      case True
      then have "serve_blocked sv ?q started dec r w3 = ((rcode, err), w')" using e by (simp split: prod.splits)
      from serve_blocked_outcome [OF s3 this] show ?thesis using p3 blocked True by auto
    next
      case False
      then have "serve_forward sv ?q started dec r w3 = ((rcode, err), w')" using e by (simp split: prod.splits)
      from serve_forward_outcome [OF s3 this] show ?thesis using p3 forwarded by auto
    qed
  qed
qed

text \<open>
  What the plugin relies on of a decider: a query is answered without a panic, for every interleaving that
  installs only deciders that are ready.
\<close>

definition decider_ready :: "('st \<Rightarrow> bool) \<Rightarrow> ('st, 'r) plugin_runtime \<Rightarrow> bool" where
  "decider_ready ready rt \<longleftrightarrow> (case rt_decider rt of AllowAll \<Rightarrow> True | Installed d \<Rightarrow> ready d)"

lemma decider_ready_pause [simp]: "decider_ready ready (rt\<lparr>rt_pause := p\<rparr>) = decider_ready ready rt"
  by (simp add: decider_ready_def)

context decider begin

lemma held_decides: "decider_ready ready rt \<Longrightarrow> \<exists>d. held_Decide decide (rt_decider rt) q = Some d \<and> action_ok d"
  using decides by (auto simp: decider_ready_def split: held_decider.splits)

lemma runtime_decides:
  fixes w :: "('st, 'x, 'y) plugin_world"
  assumes "stable (decider_ready ready) w"
  shows "\<exists>d. fst (runtime_Decide decide q w) = Some d \<and> action_ok d"
proof -
  have loaded: "\<exists>d. held_Decide decide (fst (load rt_decider w1)) q = Some d \<and> action_ok d"
    if "stable (decider_ready ready) w1" for w1 :: "('st, 'x, 'y) plugin_world"
    using stable_load_value [OF that, of rt_decider] held_decides by auto
  show ?thesis
    by (rule BlockingPause_cases [of w])
      (use assms loaded Active_frame(2) in \<open>fastforce simp: runtime_Decide_def case_prod_beta\<close>)+
qed

lemma serves:
  assumes "stable (decider_ready ready) w"
  shows "\<exists>rcode err w'. ServeDNS sv decide resolve r w = (Some (rcode, err), w')"
proof -
  obtain started w1 where n: "time_Now w = (started, w1)" by fastforce
  obtain found w2 where f: "ResolveLocal resolve r w1 = (found, w2)" by fastforce
  have "stable (decider_ready ready) w1" using stable_now [OF assms] n by simp
  then have "stable (decider_ready ready) w2" using ResolveLocal_frame(2) [of "decider_ready ready" w1 resolve r] f by simp
  then obtain d w3 where "runtime_Decide decide (toQuery sv r started) w2 = (Some d, w3)"
    using runtime_decides by (metis prod.collapse)
  then show ?thesis
    by (auto simp: ServeDNS_def serve_decided_def n f Let_def case_prod_beta split: sum.split option.split prod.split)
qed

end

end
