(* ===== verification/Plugin_Serving.thy ===== *)
theory Plugin_Serving
  imports Core_Plugin
begin

text \<open>
  The properties of \<open>internal/coreplugin\<close>: the \<open>LocalResolver\<close> interface as a locale with the resolver of
  \<open>internal/localdns\<close> as its instance, what one query does for every interleaving with the other
  goroutines, the pause of blocking, the place of the plugin in the chain and the client's address.
\<close>

section \<open>The local resolver\<close>

text \<open>The contract of the interface: a response is authoritative and has at least one answer.\<close>

locale local_resolver =
  fixes resolve :: "'r \<Rightarrow> msg \<Rightarrow> ('w, msg option) step"
  assumes answers: "resolve res rq l = (Inr (Some m), l') \<Longrightarrow> m_Authoritative m \<and> m_Answer m \<noteq> []"
begin

lemma served_message:
  assumes "stable sink_installed w" and "ServeDNS sv decide resolve r w = (Some (rcode, err), w')"
  shows "(\<exists>m. pw_written w' = pw_written w @ [m] \<and> pw_forwarded w' = pw_forwarded w \<and> err = None \<and> rcode = m_Rcode m \<and>
            m_Authoritative m \<and> (m_Answer m \<noteq> [] \<or> (\<exists>mode. m = blocked_response (sv_set_reply sv) r mode))) \<or>
         pw_written w' = pw_written w \<and> pw_forwarded w' = pw_forwarded w @ [r] \<and> (\<exists>upstream. sv_next sv r = (rcode, err, upstream))"
  using assms
proof (cases rule: ServeDNS_cases)
  case (local m ev)
  then show ?thesis using answers traffic_parts by blast
next
  case (blocked mode ev)
  moreover have "m_Authoritative (blocked_response (sv_set_reply sv) r mode)"
    by (simp add: blocked_response_def addNullAnswers_def Let_def)
  ultimately show ?thesis using traffic_parts by blast
next
  case (forwarded upstream ev)
  then show ?thesis using traffic_parts by blast
qed

end

definition plugin_resolve :: "(msg \<Rightarrow> msg) \<Rightarrow> 'w dns_resolver \<Rightarrow> msg \<Rightarrow> ('w, msg option) step" where
  "plugin_resolve set_reply res rq = Resolve set_reply (Some res) (Some rq)"

interpretation dns_resolver: local_resolver "plugin_resolve set_reply"
proof
  fix res :: "'a dns_resolver" and rq l m l'
  assume "plugin_resolve set_reply res rq l = (Inr (Some m), l')"
  then have "Resolve set_reply (Some res) (Some rq) l = (Inr (Some m), l')" by (simp add: plugin_resolve_def)
  then obtain q name idx ans where a: "answerName (m_Answer (set_reply rq)) q idx name = (ans, True)"
    and m: "m = (set_reply rq)\<lparr>m_Authoritative := True, m_Answer := ans\<rparr>"
    by (rule Resolve_answer)
  have "ans \<noteq> []" using answer_loop_chain [OF a [unfolded answerName_def]] by auto
  then show "m_Authoritative m \<and> m_Answer m \<noteq> []" by (simp add: m)
qed

section \<open>The pause\<close>

lemma quiet_load: "pw_env w = [] \<Longrightarrow> load f w = (f (pw_runtime w), w)"
  by (simp add: load_def interfere_def)

lemma stable_paused:
  assumes "stable (\<lambda>rt. Indefinite (rt_pause rt)) w"
  shows "\<exists>w'. runtime_Decide decide q w = (Some (Decision ActionAllow ''blocking paused indefinitely''), w')"
proof -
  obtain p w1 where l: "load rt_pause w = (p, w1)" by fastforce
  have "Indefinite p" using stable_load_value [OF assms, of rt_pause] l by auto
  then show ?thesis
    by (simp add: runtime_Decide_def BlockingPause_def l Active_def Indefinite_def pause_Reason_def)
qed

lemma ServeDNS_allowed:
  assumes "\<And>q w1 started. time_Now w = (started, w1) \<Longrightarrow>
      \<exists>d w3. runtime_Decide decide q (snd (ResolveLocal resolve r w1)) = (Some d, w3) \<and> d_Action d = ActionAllow"
    and "stable sink_installed w"
  shows "\<exists>rcode err w'. ServeDNS sv decide resolve r w = (Some (rcode, err), w') \<and>
    (\<exists>ev. pw_audit w' = pw_audit w @ [ev] \<and> ev_Action ev = ActionAllow)"
proof -
  obtain started w1 where n: "time_Now w = (started, w1)" by fastforce
  let ?q = "toQuery sv r started"
  obtain found w2 where f: "ResolveLocal resolve r w1 = (found, w2)" by fastforce
  obtain d w3 where d: "runtime_Decide decide ?q w2 = (Some d, w3)" "d_Action d = ActionAllow"
    using assms(1) [OF n, of ?q] f by auto
  have s1: "stable sink_installed w1" using stable_now [OF assms(2)] n by simp
  have s2: "stable sink_installed w2" using ResolveLocal_frame(2) [OF s1, of resolve r] f by simp
  have s3: "stable sink_installed w3" using stable_Decide [OF s2, of decide ?q] d by (simp add: sink_installed_def)
  have t2: "traffic w2 = traffic w"
    using traffic_now [of w] n ResolveLocal_frame(1) [of resolve r w1] f by simp
  have t3: "traffic w3 = traffic w" using runtime_Decide_traffic [of decide ?q w2] d t2 by simp
  have a: "pw_audit w2 = pw_audit w" "pw_audit w3 = pw_audit w" using t2 t3 by (simp_all add: traffic_def)
  show ?thesis
  proof (cases "\<exists>m. found = Inr (Some m)")
    case True
    then obtain m where m: "found = Inr (Some m)" by blast
    obtain x w4 where l: "serve_local sv ?q started m w2 = (x, w4)" by fastforce
    obtain rcode err where "x = (rcode, err)" by fastforce
    with serve_local_outcome [OF s2, of sv r started started m rcode err w4] l traffic_parts a
    show ?thesis by (fastforce simp: ServeDNS_def n f m)
  next
    case False
    let ?d = "\<lambda>failed. if failed then d\<lparr>d_Reason := d_Reason d @ ''; local dns lookup failed (fail open)''\<rparr> else d"
    have e: "\<exists>rcode err w'. serve_decided sv decide ?q started failed r w2 = (Some (rcode, err), w') \<and>
        (\<exists>ev. pw_audit w' = pw_audit w @ [ev] \<and> ev_Action ev = ActionAllow)" for failed
    proof -
      obtain x w4 where l: "serve_forward sv ?q started (?d failed) r w3 = (x, w4)" by fastforce
      obtain rcode err where x: "x = (rcode, err)" by fastforce
      from serve_forward_outcome [OF s3 l [unfolded x]] traffic_parts a
      obtain ev where "pw_audit w4 = pw_audit w @ [ev] \<and> ev_Action ev = ActionAllow" by metis
      then show ?thesis using d l x by (auto simp: serve_decided_def Let_def)
    qed
    then show ?thesis using False e [of True] e [of False]
      by (auto simp: ServeDNS_def n f Let_def split: sum.split option.split)
  qed
qed

section \<open>The client's address\<close>

lemma string4_plain: "plain_text (string4 a b c d)"
proof -
  have "of_char ch \<le> (57::nat)" if "ch \<in> set (octet_string n)" "n < 256" for ch n
    using that(2,1) by (cases n rule: octet_cases) (auto simp: of_char_dig)
  note o = this [OF _ unat_octet]
  have "of_char ch \<le> (57::nat)" if "ch \<in> set (string4 a b c d)" for ch
    using that o by (auto simp: string4_def)
  then show ?thesis unfolding plain_text_def list_all_iff by fastforce
qed

text \<open>
  The client of a query is the peer of its socket: an IPv4 peer, written \<open>host:port\<close>, and a peer
  whose address has colons, written in brackets, are the address of the query.
\<close>

theorem client_addr_of_peer:
  assumes "plain_text port" and "CHR ''['' \<notin> set host" and "CHR '']'' \<notin> set host" and "ParseAddr host = Some a"
  shows "client_addr (string4 b c d e @ '':'' @ port) = Addr4 b c d e \<and> client_addr (''['' @ host @ '']:'' @ port) = a"
  using SplitHostPort_plain [OF string4_plain assms(1)] SplitHostPort_brackets [OF assms(2,3,1)] assms(4)
  by (simp add: client_addr_def)

theorem client_addr_of_peer_witness:
  "client_addr (string4 10 0 0 7 @ '':53211'') = Addr4 10 0 0 7 \<and>
   client_addr ''[::1%e]:53211'' = Addr6 [0, 0, 0, 0, 0, 0, 0, 1] ''e''"
proof -
  have "plain_text ''53211''" by code_simp
  then show ?thesis using client_addr_of_peer [OF _ _ _ zoned_ParseAddr, of "''53211''" 10 0 0 7] by simp
qed

section \<open>The chain of directives\<close>

lemma insert_before_Some:
  "before \<notin> set xs \<Longrightarrow> insert_before name before (xs @ before # ys) = Some (xs @ name # before # ys)"
  by (induction xs) auto

lemma insert_before_None: "before \<notin> set xs \<Longrightarrow> insert_before name before xs = None"
  by (induction xs) auto

text \<open>
  Registering the plugin puts its directive right before the cache, so that a cached answer never bypasses
  the decision, and registering it again changes nothing.
\<close>

theorem directive_before_cache:
  assumes "name \<notin> set (xs @ before # ys)" and "before \<notin> set xs"
  shows "insertDirectiveBefore name before (xs @ before # ys) = xs @ name # before # ys \<and>
    insertDirectiveBefore name before (insertDirectiveBefore name before (xs @ before # ys)) =
      insertDirectiveBefore name before (xs @ before # ys)"
  using assms by (simp add: insertDirectiveBefore_def insert_before_Some)

theorem directive_before_cache_witness:
  "insertDirectiveBefore ''corehole'' ''cache'' [''metadata'', ''errors'', ''cache'', ''forward''] =
     [''metadata'', ''errors'', ''corehole'', ''cache'', ''forward'']"
  using directive_before_cache [of "''corehole''" "[''metadata'', ''errors'']" "''cache''" "[''forward'']"] by simp

section \<open>Properties of serving\<close>

lemma load_kept:
  "load f w = (x, w') \<Longrightarrow> stable I w \<Longrightarrow> stable I w' \<and> traffic w' = traffic w \<and> (\<exists>rt. I rt \<and> x = f rt)"
  using stable_load [of I w f] stable_load_value [of I w f] traffic_load [of f w] by auto

lemma now_kept: "time_Now w = (t, w') \<Longrightarrow> stable I w \<Longrightarrow> stable I w' \<and> traffic w' = traffic w"
  using stable_now [of I w] traffic_now [of w] by auto

text \<open>
  C2: Every query that is served is served exactly once, for every interleaving of the query with changes of the
  runtime: either one message is written, which is an authoritative local answer or the blocked response,
  or the request goes to the next plugin once; and exactly one audit event is recorded, with the client,
  the name and the response code of that outcome, and with the action block exactly for a blocked
  response.
\<close>

theorem served_exactly_once:
  assumes "stable sink_installed w"
    and "ServeDNS sv decide (plugin_resolve (sv_set_reply sv)) r w = (Some (rcode, err), w')"
  shows "\<exists>ev. pw_audit w' = pw_audit w @ [ev] \<and> event_for sv r rcode ev \<and>
    ((\<exists>m. pw_written w' = pw_written w @ [m] \<and> pw_forwarded w' = pw_forwarded w \<and> err = None \<and> rcode = m_Rcode m \<and>
        m_Authoritative m \<and>
        (ev_Action ev = ActionBlock \<and> (\<exists>mode. m = blocked_response (sv_set_reply sv) r mode) \<or>
         ev_Action ev = ActionAllow \<and> m_Answer m \<noteq> [])) \<or>
     pw_written w' = pw_written w \<and> pw_forwarded w' = pw_forwarded w @ [r] \<and> ev_Action ev = ActionAllow \<and>
       ev_ForwardError ev = forward_error err \<and> (\<exists>upstream. sv_next sv r = (rcode, err, upstream)))"
  using assms
proof (cases rule: ServeDNS_cases)
  case (local m ev)
  have "m_Authoritative m \<and> m_Answer m \<noteq> []" using local(5) by (elim exE) (rule dns_resolver.answers)
  then show ?thesis using traffic_parts [OF local(6)] local(1-4) by (intro exI [of _ ev]) simp
next
  case (blocked mode ev)
  have "m_Authoritative (blocked_response (sv_set_reply sv) r mode)"
    by (simp add: blocked_response_def addNullAnswers_def Let_def)
  then show ?thesis using traffic_parts [OF blocked(5)] blocked(1-4) by (intro exI [of _ ev]) auto
next
  case (forwarded upstream ev)
  then show ?thesis using traffic_parts [OF forwarded(5)] by (intro exI [of _ ev]) simp
qed

definition demo_server :: server where
  "demo_server = \<lparr>sv_set_reply = \<lambda>r. r, sv_RcodeToString = \<lambda>c. if c = 0 then ''NOERROR'' else ''NXDOMAIN'',
     sv_QName = \<lambda>r. ''ads.example.'', sv_QType = \<lambda>r. dns_TypeA, sv_remote = ''10.0.0.7:53211'', sv_next = \<lambda>r. (0, None, ''1.1.1.1'')\<rparr>"

definition demo_runtime :: "blocking_pause \<Rightarrow> (unit, 'r) plugin_runtime" where
  "demo_runtime p = NewRuntime\<lparr>rt_decider := Installed (), rt_audit := InstalledSink, rt_pause := p\<rparr>"

definition demo_world :: "blocking_pause \<Rightarrow> (unit, 'r, unit) plugin_world" where
  "demo_world p = \<lparr>pw_runtime = demo_runtime p, pw_env = [\<lambda>rt. rt\<lparr>rt_mode := BlockingResponseNXDOMAIN\<rparr>], pw_now = 100, pw_ticks = [],
     pw_written = [], pw_forwarded = [], pw_audit = [], pw_local = ()\<rparr>"

lemma demo_sink: "stable sink_installed (demo_world p)"
  by (simp add: stable_def demo_world_def demo_runtime_def sink_installed_def)

lemma demo_blocked:
  "ServeDNS demo_server (\<lambda>_ q. Some (Decision ActionBlock ''deny'')) (plugin_resolve (\<lambda>r. r)) demo_request (demo_world no_pause) =
     (Some (3, None),
      (demo_world no_pause)
        \<lparr>pw_runtime := (demo_runtime no_pause)\<lparr>rt_mode := BlockingResponseNXDOMAIN\<rparr>, pw_env := [],
         pw_written := [demo_request\<lparr>m_Authoritative := True, m_Rcode := 3\<rparr>],
         pw_audit := [plugin_event (toQuery demo_server demo_request 100) ActionBlock ''deny'' ''NXDOMAIN'' 0 ''bypass'']\<rparr>)"
  by (simp add: ServeDNS_def serve_decided_def serve_blocked_def ResolveLocal_def runtime_Decide_def BlockingPause_def
      demo_world_def demo_runtime_def NewRuntime_def demo_server_def load_def interfere_def Let_def time_Now_def no_pause_def Active_def
      writeBlockedResponse_def blocked_response_def WriteMsg_def Record_def plugin_event_def RcodeNameError_def
      BlockingResponseNXDOMAIN_def BlockingResponseRefused_def BlockingResponseNullIP_def)

theorem served_exactly_once_witness:
  "\<exists>ev. event_for demo_server demo_request 3 ev \<and> ev_Action ev = ActionBlock \<and>
    (\<exists>mode. demo_request\<lparr>m_Authoritative := True, m_Rcode := 3\<rparr> = blocked_response (\<lambda>r. r) demo_request mode)"
proof -
  have r: "sv_set_reply demo_server = (\<lambda>r. r)" by (simp add: demo_server_def)
  from served_exactly_once [OF demo_sink, of demo_server, unfolded r, OF demo_blocked]
  show ?thesis by (auto simp: demo_world_def demo_request_def plugin_event_def)
qed

text \<open>
  A pause without an end is in force for every query: while it is set, whatever else changes, no query is
  blocked, the audit event of the query says allow and the decider is not asked (it may even panic).
\<close>

theorem paused_never_blocks:
  assumes "stable (\<lambda>rt. Indefinite (rt_pause rt)) w" and "stable sink_installed w"
  shows "\<exists>rcode err w'. ServeDNS sv decide resolve r w = (Some (rcode, err), w') \<and>
    (\<exists>ev. pw_audit w' = pw_audit w @ [ev] \<and> ev_Action ev = ActionAllow)"
proof (rule ServeDNS_allowed)
  show "stable sink_installed w" by (rule assms(2))
next
  fix q w1 started assume n: "time_Now w = (started, w1)"
  have "stable (\<lambda>rt. Indefinite (rt_pause rt)) (snd (ResolveLocal resolve r w1))"
    using stable_now [OF assms(1)] n by (intro ResolveLocal_frame(2)) simp
  from stable_paused [OF this, of decide q]
  show "\<exists>d w3. runtime_Decide decide q (snd (ResolveLocal resolve r w1)) = (Some d, w3) \<and> d_Action d = ActionAllow"
    by fastforce
qed

theorem paused_never_blocks_witness:
  "\<exists>ev. pw_audit (snd (ServeDNS demo_server (\<lambda>_ _. None) (plugin_resolve (\<lambda>r. r)) demo_request
      (demo_world \<lparr>bp_Enabled = True, bp_Until = None\<rparr>))) = [ev] \<and> ev_Action ev = ActionAllow"
proof -
  let ?w = "demo_world \<lparr>bp_Enabled = True, bp_Until = None\<rparr> :: (unit, unit dns_resolver, unit) plugin_world"
  have "stable (\<lambda>rt. Indefinite (rt_pause rt)) ?w"
    by (simp add: stable_def demo_world_def demo_runtime_def Indefinite_def)
  from paused_never_blocks [OF this demo_sink, of demo_server "\<lambda>_ _. None" "plugin_resolve (\<lambda>r. r)" demo_request]
  show ?thesis by (auto simp: demo_world_def)
qed

text \<open>A blocking decision that is in force for the query, whatever the local lookup did before.\<close>

lemma serve_decided_blocks:
  assumes "stable I w" and "\<And>rt. I rt \<Longrightarrow> rt_decider rt = Installed d \<and> rt_mode rt = mode \<and> rt_pause rt = no_pause \<and> rt_audit rt = InstalledSink"
    and "decide d q = Some dec" and "d_Action dec = ActionBlock"
  shows "\<exists>ev w'. serve_decided sv decide q started failed r w = (Some (m_Rcode (blocked_response (sv_set_reply sv) r mode), None), w') \<and>
    traffic w' = (pw_written w @ [blocked_response (sv_set_reply sv) r mode], pw_forwarded w, pw_audit w @ [ev]) \<and> ev_Action ev = ActionBlock"
proof -
  note keep = load_kept [where I = I] and tick = now_kept [where I = I]
  let ?m = "blocked_response (sv_set_reply sv) r mode"
  obtain p w1 where p: "load rt_pause w = (p, w1)" by fastforce
  note k1 = keep [OF p assms(1)]
  obtain h w2 where h: "load rt_decider w1 = (h, w2)" by fastforce
  note k2 = keep [OF h conjunct1 [OF k1]]
  have "p = no_pause" "h = Installed d" using k1 k2 assms(2) by auto
  then have D: "runtime_Decide decide q w = (Some dec, w2)"
    using assms(3) by (simp add: runtime_Decide_def BlockingPause_def p h no_pause_def Active_def)
  let ?d = "if failed then dec\<lparr>d_Reason := d_Reason dec @ ''; local dns lookup failed (fail open)''\<rparr> else dec"
  obtain md w3 where ld: "load rt_mode w2 = (md, w3)" by fastforce
  note k3 = keep [OF ld conjunct1 [OF k2]]
  have "stable I (WriteMsg ?m w3)" using k3 by (simp add: stable_def WriteMsg_def)
  obtain a w4 where la: "load rt_audit (WriteMsg ?m w3) = (a, w4)" by fastforce
  note k4 = keep [OF la \<open>stable I (WriteMsg ?m w3)\<close>]
  obtain t w5 where nt: "time_Now w4 = (t, w5)" by fastforce
  note k5 = tick [OF nt conjunct1 [OF k4]]
  have "md = mode" "a = InstalledSink" using k3 k4 assms(2) by auto
  let ?ev = "(plugin_event q (d_Action ?d) (d_Reason ?d) (sv_RcodeToString sv (m_Rcode ?m)) (t - started) ''bypass'')
      \<lparr>ev_RuleID := d_RuleID ?d, ev_BlocklistID := d_BlocklistID ?d\<rparr>"
  have "serve_decided sv decide q started failed r w = (Some (m_Rcode ?m, None), w5\<lparr>pw_audit := pw_audit w5 @ [?ev]\<rparr>)"
    using \<open>md = mode\<close> \<open>a = InstalledSink\<close> assms(4)
    by (simp add: serve_decided_def D serve_blocked_def writeBlockedResponse_def ld la nt Let_def Record_def)
  moreover have "traffic w5 = (pw_written w @ [?m], pw_forwarded w, pw_audit w)"
    using k5 k4 k3 k2 k1 by (simp add: traffic_def WriteMsg_def)
  moreover have "ev_Action ?ev = ActionBlock" using assms(4) by (simp add: plugin_event_def)
  ultimately show ?thesis by (intro exI [of _ ?ev] exI [of _ "w5\<lparr>pw_audit := pw_audit w5 @ [?ev]\<rparr>"]) (simp add: traffic_def)
qed

lemma ServeDNS_blocks:
  assumes "stable I w" and "\<And>rt. I rt \<Longrightarrow> rt_decider rt = Installed d \<and> rt_mode rt = mode \<and> rt_pause rt = no_pause \<and> rt_audit rt = InstalledSink"
    and "\<And>t. \<exists>dec. decide d (toQuery sv r t) = Some dec \<and> d_Action dec = ActionBlock"
    and "m = (case fst (ResolveLocal resolve r (snd (time_Now w))) of Inr (Some local) \<Rightarrow> local | _ \<Rightarrow> blocked_response (sv_set_reply sv) r mode)"
    and "act = (case fst (ResolveLocal resolve r (snd (time_Now w))) of Inr (Some local) \<Rightarrow> ActionAllow | _ \<Rightarrow> ActionBlock)"
  shows "\<exists>ev w'. ServeDNS sv decide resolve r w = (Some (m_Rcode m, None), w') \<and>
    traffic w' = (pw_written w @ [m], pw_forwarded w, pw_audit w @ [ev]) \<and> ev_Action ev = act"
proof -
  obtain started w1 where n: "time_Now w = (started, w1)" by fastforce
  note k1 = now_kept [OF n assms(1)]
  obtain found w2 where f: "ResolveLocal resolve r w1 = (found, w2)" by fastforce
  have k2: "stable I w2" and t2: "traffic w2 = traffic w"
    using ResolveLocal_frame(1) [of resolve r w1] ResolveLocal_frame(2) [of I w1 resolve r] k1 f by simp_all
  obtain dec where dec: "decide d (toQuery sv r started) = Some dec" "d_Action dec = ActionBlock" using assms(3) by blast
  show ?thesis
  proof (cases "\<exists>local. found = Inr (Some local)")
    case True
    then obtain local where l: "found = Inr (Some local)" by blast
    have "stable I (WriteMsg local w2)" using k2 by (simp add: stable_def WriteMsg_def)
    obtain a w3 where la: "load rt_audit (WriteMsg local w2) = (a, w3)" by fastforce
    note k3 = load_kept [OF la \<open>stable I (WriteMsg local w2)\<close>]
    obtain t w4 where nt: "time_Now w3 = (t, w4)" by fastforce
    note k4 = now_kept [OF nt conjunct1 [OF k3]]
    let ?ev = "plugin_event (toQuery sv r started) ActionAllow ''local dns match'' (sv_RcodeToString sv (m_Rcode local)) (t - started) ''bypass''"
    have "a = InstalledSink" using k3 assms(2) by auto
    then have "ServeDNS sv decide resolve r w = (Some (m_Rcode local, None), w4\<lparr>pw_audit := pw_audit w4 @ [?ev]\<rparr>)"
      by (simp add: ServeDNS_def n f l Let_def serve_local_def la nt Record_def)
    moreover have "traffic w4 = (pw_written w @ [local], pw_forwarded w, pw_audit w)"
      using k4 k3 t2 by (simp add: traffic_def WriteMsg_def)
    moreover have "ev_Action ?ev = ActionAllow" by (simp add: plugin_event_def)
    ultimately show ?thesis using assms(4,5) n f l
      by (intro exI [of _ ?ev] exI [of _ "w4\<lparr>pw_audit := pw_audit w4 @ [?ev]\<rparr>"]) (simp add: traffic_def)
  next
    case False
    then have m: "m = blocked_response (sv_set_reply sv) r mode" "act = ActionBlock"
      using assms(4,5) n f by (auto split: sum.splits option.splits)
    obtain failed where s: "ServeDNS sv decide resolve r w = serve_decided sv decide (toQuery sv r started) started failed r w2"
    proof (cases found)
      case (Inl e)
      then show ?thesis by (intro that [of True]) (simp add: ServeDNS_def n f Let_def)
    next
      case (Inr x)
      then show ?thesis using False by (intro that [of False]) (cases x; simp add: ServeDNS_def n f Let_def)
    qed
    obtain ev w' where "serve_decided sv decide (toQuery sv r started) started failed r w2 = (Some (m_Rcode m, None), w')"
      "traffic w' = (pw_written w2 @ [m], pw_forwarded w2, pw_audit w2 @ [ev])" "ev_Action ev = ActionBlock"
      using serve_decided_blocks [where I = I and d = d and mode = mode and decide = decide and sv = sv and r = r, OF k2 assms(2) dec]
      unfolding m(1) by blast
    then show ?thesis using s m(2) t2 by (intro exI [of _ ev] exI [of _ w']) (simp add: traffic_def)
  qed
qed

lemma blocked_not_forwarded:
  assumes "stable (\<lambda>rt. rt_decider rt = Installed d \<and> rt_mode rt = mode \<and> rt_pause rt = no_pause \<and> rt_local rt = None \<and>
      rt_audit rt = InstalledSink) w"
    and "\<And>t. \<exists>dec. decide d (toQuery sv r t) = Some dec \<and> d_Action dec = ActionBlock"
  shows "\<exists>w'. ServeDNS sv decide resolve r w = (Some (m_Rcode (blocked_response (sv_set_reply sv) r mode), None), w') \<and>
    pw_written w' = pw_written w @ [blocked_response (sv_set_reply sv) r mode] \<and> pw_forwarded w' = pw_forwarded w"
proof -
  obtain t w1 where n: "time_Now w = (t, w1)" by fastforce
  obtain l w2 where l: "load rt_local w1 = (l, w2)" by fastforce
  have "l = None" using load_kept [OF l conjunct1 [OF now_kept [OF n assms(1)]]] by auto
  then have "fst (ResolveLocal resolve r (snd (time_Now w))) = Inr None" by (simp add: n ResolveLocal_def l)
  then show ?thesis
    using ServeDNS_blocks [where d = d and mode = mode and resolve = resolve and decide = decide and sv = sv and r = r, OF assms(1) _ assms(2) refl refl] by (fastforce simp: traffic_def)
qed

text \<open>
  What a blocked query is answered with, by the mode and the first question: a response code, where it is not the one of the reply, and the records of
  the answer. An address that leads nowhere is given for the questions for addresses only.
\<close>

definition blocked_outcome :: "string \<Rightarrow> question list \<Rightarrow> int option \<times> rr list" where
  "blocked_outcome mode questions =
     (if mode = ''refused'' then (Some 5, [])
      else if mode = ''null-ip'' then
        (case questions of
           [] \<Rightarrow> (None, [])
         | q # _ \<Rightarrow>
             if qn_Qtype q = 1 then (None, [RR_A \<lparr>h_Name = qn_Name q, h_Rrtype = 1, h_Class = qn_Qclass q, h_Ttl = 0\<rparr> (ParseAddr ''0.0.0.0'')])
             else if qn_Qtype q = 28 then (None, [RR_AAAA \<lparr>h_Name = qn_Name q, h_Rrtype = 28, h_Class = qn_Qclass q, h_Ttl = 0\<rparr> (ParseAddr ''::'')])
             else (Some 3, []))
      else (Some 3, []))"

lemma blocked_response_outcome:
  assumes "blocked_outcome mode (m_Question r) = (code, records)"
  shows "blocked_response set_reply r mode =
    (set_reply r)\<lparr>m_Authoritative := True, m_Rcode := (case code of None \<Rightarrow> m_Rcode (set_reply r) | Some c \<Rightarrow> c),
       m_Answer := m_Answer (set_reply r) @ records\<rparr>"
proof -
  have z: "ParseAddr ''0.0.0.0'' = Some (Addr4 0 0 0 0)" "ParseAddr ''::'' = Some (Addr6 [0, 0, 0, 0, 0, 0, 0, 0] [])"
    by code_simp+
  show ?thesis
    using assms
    by (cases "m_Question r")
      (auto simp: blocked_response_def blocked_outcome_def addNullAnswers_def Let_def z BlockingResponseRefused_def BlockingResponseNullIP_def
        RcodeRefused_def RcodeNameError_def dns_TypeA_def dns_TypeAAAA_def split: if_splits)
qed



text \<open>
  A pause ends by itself: with no other change of the runtime, before its end every query is allowed and the
  decider is not asked; from its end on the decider decides again and the pause is taken off the
  runtime.
\<close>

theorem pause_ends:
  assumes "pw_env w = []" and "rt_pause (pw_runtime w) = \<lparr>bp_Enabled = True, bp_Until = Some u\<rparr>"
    and "q_Timestamp q = Some t" and "t \<le> pw_now w" and "time_Now w = (now, w1)"
  shows "runtime_Decide decide q w =
    (if now < u then (Some (Decision ActionAllow ''blocking paused''), w1)
     else (held_Decide decide (rt_decider (pw_runtime w)) q, w1\<lparr>pw_runtime := (pw_runtime w)\<lparr>rt_pause := no_pause\<rparr>\<rparr>))"
proof -
  have w1: "pw_env w1 = []" "pw_runtime w1 = pw_runtime w" "t \<le> now"
    using assms(1,4,5) by (auto simp: time_Now_def split: list.splits)
  have r: "ResumeBlocking w1 = w1\<lparr>pw_runtime := (pw_runtime w)\<lparr>rt_pause := no_pause\<rparr>\<rparr>"
    using w1 by (simp add: ResumeBlocking_def store_def interfere_def Let_def)
  have b: "BlockingPause w = (if now < u then (rt_pause (pw_runtime w), w1) else (no_pause, ResumeBlocking w1))"
    using assms by (simp add: BlockingPause_def quiet_load)
  show ?thesis
  proof (cases "now < u")
    case True
    then show ?thesis
      using b w1 assms(2,3) by (simp add: runtime_Decide_def Active_def pause_Reason_def Indefinite_def)
  next
    case False
    then show ?thesis using b w1 r by (simp add: runtime_Decide_def quiet_load)
  qed
qed

theorem pause_ends_witness:
  "fst (runtime_Decide (\<lambda>_ q. Some (Decision ActionBlock ''deny'')) (toQuery demo_server demo_request 100)
     ((demo_world \<lparr>bp_Enabled = True, bp_Until = Some 100\<rparr>)\<lparr>pw_env := []\<rparr>)) = Some (Decision ActionBlock ''deny'')"
  by (subst pause_ends [where u = 100 and t = 100 and now = 100])
    (auto simp: demo_world_def demo_runtime_def NewRuntime_def toQuery_def time_Now_def)

text \<open>
  A pause that is set while a query finds the previous one expired can be lost: the reader stores its
  \<open>ResumeBlocking\<close> over the pause another goroutine stored after the reader's load, although that pause
  has no end.
\<close>

theorem new_pause_can_be_lost:
  assumes "pw_env w = [\<lambda>rt. rt, \<lambda>rt. rt\<lparr>rt_pause := \<lparr>bp_Enabled = True, bp_Until = None\<rparr>\<rparr>]"
    and "rt_pause (pw_runtime w) = \<lparr>bp_Enabled = True, bp_Until = Some u\<rparr>" and "time_Now (w\<lparr>pw_env := []\<rparr>) = (now, w1)" and "u \<le> now"
  shows "fst (BlockingPause w) = no_pause \<and> rt_pause (pw_runtime (snd (BlockingPause w))) = no_pause"
  using assms by (auto simp: BlockingPause_def load_def interfere_def Let_def time_Now_def ResumeBlocking_def store_def split: list.splits)

theorem new_pause_can_be_lost_witness:
  "rt_pause (pw_runtime (snd (BlockingPause ((demo_world \<lparr>bp_Enabled = True, bp_Until = Some 50\<rparr>)
     \<lparr>pw_env := [\<lambda>rt. rt, \<lambda>rt. rt\<lparr>rt_pause := \<lparr>bp_Enabled = True, bp_Until = None\<rparr>\<rparr>]\<rparr>)))) = no_pause"
  by (rule conjunct2 [OF new_pause_can_be_lost [where u = 50 and now = 100]])
    (simp_all add: demo_world_def demo_runtime_def time_Now_def)

end
