(* ===== verification/Go_Time.thy ===== *)
theory Go_Time
  imports Go_Prelude
begin

text \<open>
  Package \<open>time\<close> as far as the code uses its text form: \<open>Format(time.RFC3339)\<close> of a time in UTC and
  \<open>time.Parse\<close> with the layouts \<open>RFC3339\<close> and \<open>RFC3339Nano\<close>. An instant counts nanoseconds from
  1970-01-01T00:00:00Z. \<open>time.Parse\<close> first tries the strict scanner \<open>parseRFC3339\<close>; a text that it refuses
  goes to the general layout scanner, which is the parameter \<open>lenient\<close>: it accepts a few more texts, such as an
  hour of one digit.
\<close>

section \<open>The calendar\<close>

definition is_leap :: "int \<Rightarrow> bool" where
  "is_leap y \<longleftrightarrow> y mod 4 = 0 \<and> (y mod 100 \<noteq> 0 \<or> y mod 400 = 0)"

definition month_lengths :: "bool \<Rightarrow> int list" where
  "month_lengths leap = [31, if leap then 29 else 28, 31, 30, 31, 30, 31, 31, 30, 31, 30, 31]"

text \<open>\<open>daysIn\<close>, for a month from 1 to 12.\<close>

definition days_in :: "int \<Rightarrow> int \<Rightarrow> int" where
  "days_in m y = month_lengths (is_leap y) ! nat (m - 1)"

text \<open>Days from 0001-01-01 to the first day of a year, and to a date.\<close>

definition year_start :: "int \<Rightarrow> int" where
  "year_start y = 365 * (y - 1) + (y - 1) div 4 - (y - 1) div 100 + (y - 1) div 400"

definition month_start :: "bool \<Rightarrow> int \<Rightarrow> int" where
  "month_start leap m = sum_list (take (nat (m - 1)) (month_lengths leap))"

definition days_of_date :: "int \<Rightarrow> int \<Rightarrow> int \<Rightarrow> int" where
  "days_of_date y m d = year_start y + month_start (is_leap y) m + (d - 1)"

definition epoch_days :: int where
  "epoch_days = 719162"

text \<open>The year of a day and the day within it, by cycles of 400, 100, 4 and 1 years.\<close>

definition year_of_days :: "int \<Rightarrow> int \<times> int" where
  "year_of_days d0 =
     (let n400 = d0 div 146097; d1 = d0 mod 146097;
          n100 = d1 div 36524 - d1 div 36524 div 4; d2 = d1 - 36524 * n100;
          n4 = d2 div 1461; d3 = d2 mod 1461;
          n1 = d3 div 365 - d3 div 365 div 4
      in (400 * n400 + 100 * n100 + 4 * n4 + n1 + 1, d3 - 365 * n1))"

fun month_of_day :: "int \<Rightarrow> int list \<Rightarrow> int \<Rightarrow> int \<times> int" where
  "month_of_day m [] d = (m, d + 1)"
| "month_of_day m (l # ls) d = (if d < l then (m, d + 1) else month_of_day (m + 1) ls (d - l))"

definition date_of_days :: "int \<Rightarrow> int \<times> int \<times> int" where
  "date_of_days n =
     (case year_of_days n of (y, yd) \<Rightarrow>
      case month_of_day 1 (month_lengths (is_leap y)) yd of (m, d) \<Rightarrow> (y, m, d))"

section \<open>Formatting\<close>

definition digit :: "int \<Rightarrow> char" where
  "digit n = char_of (48 + nat n)"

definition digits2 :: "int \<Rightarrow> string" where
  "digits2 n = [digit (n div 10), digit (n mod 10)]"

text \<open>\<open>appendInt(b, year, 4)\<close>\<close>

definition year_text :: "int \<Rightarrow> string" where
  "year_text y =
     (let s = decimal (nat \<bar>y\<bar>) in (if y < 0 then ''-'' else []) @ replicate (4 - length s) (CHR ''0'') @ s)"

definition second_ns :: int where
  "second_ns = 1000000000"

definition format_RFC3339 :: "instant \<Rightarrow> string" where
  "format_RFC3339 t =
     (let secs = t div second_ns; s = secs mod 86400 in
      case date_of_days (secs div 86400 + epoch_days) of (y, m, d) \<Rightarrow>
        year_text y @ ''-'' @ digits2 m @ ''-'' @ digits2 d @ ''T'' @
        digits2 (s div 3600) @ '':'' @ digits2 (s div 60 mod 60) @ '':'' @ digits2 (s mod 60) @ ''Z'')"

section \<open>Parsing\<close>

fun parse_digits :: "int \<Rightarrow> string \<Rightarrow> int option" where
  "parse_digits x [] = Some x"
| "parse_digits x (c # cs) = (if is_digit c then parse_digits (x * 10 + int (of_char c) - 48) cs else None)"

definition parseUint :: "string \<Rightarrow> int \<Rightarrow> int \<Rightarrow> int option" where
  "parseUint s lo hi = (case parse_digits 0 s of None \<Rightarrow> None | Some x \<Rightarrow> if x < lo \<or> hi < x then None else Some x)"

definition slice :: "nat \<Rightarrow> nat \<Rightarrow> string \<Rightarrow> string" where
  "slice i j s = take (j - i) (drop i s)"

text \<open>\<open>parseNanoseconds\<close>: nine digits count, further ones are dropped.\<close>

definition fraction_ns :: "string \<Rightarrow> int" where
  "fraction_ns ds = (case parse_digits 0 (take 9 ds) of None \<Rightarrow> 0 | Some x \<Rightarrow> x * 10 ^ (9 - length (take 9 ds)))"

definition split_fraction :: "string \<Rightarrow> int \<times> string" where
  "split_fraction s =
     (if 2 \<le> length s \<and> s ! 0 = CHR ''.'' \<and> is_digit (s ! 1)
      then (fraction_ns (takeWhile is_digit (tl s)), dropWhile is_digit (tl s))
      else (0, s))"

text \<open>The offset from UTC in seconds.\<close>

definition parse_zone :: "string \<Rightarrow> int option" where
  "parse_zone s =
     (if s = ''Z'' then Some 0
      else if length s \<noteq> 6 then None
      else case (parseUint (slice 1 3 s) 0 23, parseUint (slice 4 6 s) 0 59) of
        (Some hr, Some mm) \<Rightarrow>
          if (s ! 0 = CHR ''-'' \<or> s ! 0 = CHR ''+'') \<and> s ! 3 = CHR '':''
          then Some ((if s ! 0 = CHR ''-'' then -1 else 1) * (hr * 60 + mm) * 60) else None
      | _ \<Rightarrow> None)"

definition parse_date_time :: "string \<Rightarrow> int option" where
  "parse_date_time s =
     (case (parseUint (slice 0 4 s) 0 9999, parseUint (slice 5 7 s) 1 12) of
        (Some y, Some m) \<Rightarrow>
          (case (parseUint (slice 8 10 s) 1 (days_in m y), parseUint (slice 11 13 s) 0 23,
                 parseUint (slice 14 16 s) 0 59, parseUint (slice 17 19 s) 0 59) of
             (Some d, Some h, Some mi, Some sec) \<Rightarrow>
               if s ! 4 = CHR ''-'' \<and> s ! 7 = CHR ''-'' \<and> s ! 10 = CHR ''T'' \<and> s ! 13 = CHR '':'' \<and> s ! 16 = CHR '':''
               then Some ((days_of_date y m d - epoch_days) * 86400 + h * 3600 + mi * 60 + sec) else None
           | _ \<Rightarrow> None)
      | _ \<Rightarrow> None)"

definition parseRFC3339 :: "string \<Rightarrow> instant option" where
  "parseRFC3339 s =
     (if length s < 19 then None
      else case parse_date_time s of
        None \<Rightarrow> None
      | Some secs \<Rightarrow>
          (case split_fraction (drop 19 s) of (ns, rest) \<Rightarrow>
           case parse_zone rest of None \<Rightarrow> None | Some off \<Rightarrow> Some ((secs - off) * second_ns + ns)))"

text \<open>The instant of the zero time is \<^term>\<open>None\<close>.\<close>

definition time_of :: "instant \<Rightarrow> time" where
  "time_of t = (if t = - epoch_days * 86400 * second_ns then None else Some t)"

definition time_Parse :: "(string \<Rightarrow> instant option) \<Rightarrow> string \<Rightarrow> time option" where
  "time_Parse lenient s = map_option time_of (case parseRFC3339 s of Some t \<Rightarrow> Some t | None \<Rightarrow> lenient s)"

section \<open>Dates and days\<close>

lemma div_rest: "(0::int) \<le> r \<Longrightarrow> r < k \<Longrightarrow> (k * q + r) div k = q \<and> (k * q + r) mod k = r"
  by simp

lemma cycle_bound:
  fixes d :: int
  assumes "0 \<le> d" and "0 < l" and "d \<le> 4 * l"
  shows "0 \<le> d div l - d div l div 4" and "d div l - d div l div 4 \<le> 3"
    and "0 \<le> d - l * (d div l - d div l div 4)" and "d - l * (d div l - d div l div 4) \<le> l"
    and "d div l - d div l div 4 < 3 \<Longrightarrow> d - l * (d div l - d div l div 4) < l"
proof -
  have q: "d = l * (d div l) + d mod l" "0 \<le> d mod l" "d mod l < l" using assms by simp_all
  have lo: "0 \<le> d div l" using assms by (simp add: pos_imp_zdiv_nonneg_iff)
  have hi: "d div l \<le> 4" using zdiv_mono1 [OF assms(3,2)] assms(2) by simp
  consider (last) "d div l = 4" | (less) "d div l \<le> 3" using hi by linarith
  then have "0 \<le> d div l - d div l div 4 \<and> d div l - d div l div 4 \<le> 3 \<and>
    0 \<le> d - l * (d div l - d div l div 4) \<and> d - l * (d div l - d div l div 4) \<le> l \<and>
    (d div l - d div l div 4 < 3 \<longrightarrow> d - l * (d div l - d div l div 4) < l)"
  proof cases
    case last
    then have "d = l * 4" using q(1,2) assms(3) by simp
    then show ?thesis using last assms(2) by simp
  next
    case less
    then have z: "d div l div 4 = 0" using lo by simp
    have "d - l * (d div l) = d mod l" by (simp add: minus_mult_div_eq_mod)
    then show ?thesis using less lo q(2,3) unfolding z by simp
  qed
  then show "0 \<le> d div l - d div l div 4" "d div l - d div l div 4 \<le> 3"
    and "0 \<le> d - l * (d div l - d div l div 4)" "d - l * (d div l - d div l div 4) \<le> l"
    and "d div l - d div l div 4 < 3 \<Longrightarrow> d - l * (d div l - d div l div 4) < l"
    by blast+
qed

lemma year_of_days_spec:
  assumes "year_of_days n = (y, yd)"
  shows "year_start y + yd = n" and "0 \<le> yd" and "yd < (if is_leap y then 366 else 365)"
proof -
  define a where "a = n div 146097"
  define d1 where "d1 = n mod 146097"
  define b where "b = d1 div 36524 - d1 div 36524 div 4"
  define d2 where "d2 = d1 - 36524 * b"
  define c where "c = d2 div 1461"
  define d3 where "d3 = d2 mod 1461"
  define e where "e = d3 div 365 - d3 div 365 div 4"
  have y: "y = 400 * a + 100 * b + 4 * c + e + 1" and yd: "yd = d3 - 365 * e"
    using assms by (simp_all add: year_of_days_def Let_def a_def d1_def b_def d2_def c_def d3_def e_def)
  have n: "n = 146097 * a + d1" by (simp add: a_def d1_def)
  have "0 \<le> d1" "d1 < 146097" by (simp_all add: d1_def)
  note cb = cycle_bound [of d1 36524, folded b_def d2_def]
  have b: "0 \<le> b" "b \<le> 3" "0 \<le> d2" "b < 3 \<Longrightarrow> d2 < 36524" "d2 \<le> 36524"
    using cb \<open>0 \<le> d1\<close> \<open>d1 < 146097\<close> by simp_all
  have d2: "d2 = 1461 * c + d3" "0 \<le> d3" "d3 < 1461" by (simp_all add: c_def d3_def)
  then have c: "0 \<le> c" "c \<le> 24" using b(3,5) by linarith+
  note ce = cycle_bound [of d3 365, folded e_def yd]
  have e: "0 \<le> e" "e \<le> 3" "0 \<le> yd" "yd \<le> 365" "e < 3 \<Longrightarrow> yd < 365"
    using ce d2 by simp_all
  have div4: "(y - 1) div 4 = 100 * a + 25 * b + c"
    using div_rest [of e 4 "100 * a + 25 * b + c"] e(1,2) y by (simp add: algebra_simps)
  have div100: "(y - 1) div 100 = 4 * a + b"
    using div_rest [of "4 * c + e" 100 "4 * a + b"] e(1,2) c y by (simp add: algebra_simps)
  have div400: "(y - 1) div 400 = a"
    using div_rest [of "100 * b + 4 * c + e" 400 a] e(1,2) c b(1,2) y by (simp add: algebra_simps)
  show "year_start y + yd = n" unfolding year_start_def div4 div100 div400 using y yd n d2 d2_def by simp
  show "0 \<le> yd" by (rule e(3))
  have "yd < 365" if nl: "\<not> is_leap y"
  proof (cases "e = 3")
    case True
    have m4: "y mod 4 = 0" using y True by presburger
    have "\<not> (c < 24)"
    proof
      assume "c < 24"
      then have "y mod 100 = 4 * (c + 1)"
        using div_rest [of "4 * (c + 1)" 100 "4 * a + b"] c y True by (simp add: algebra_simps)
      then show False using nl m4 c by (simp add: is_leap_def)
    qed
    then have c24: "c = 24" using c by simp
    have "b \<noteq> 3"
    proof
      assume "b = 3"
      then have "y = 400 * (a + 1)" using y c24 True by simp
      then show False using nl m4 by (simp add: is_leap_def)
    qed
    then have "d2 < 36524" using b by simp
    then show ?thesis using d2 c24 yd True by simp
  next
    case False then show ?thesis using e by simp
  qed
  then show "yd < (if is_leap y then 366 else 365)" using e(4) by simp
qed

lemma month_of_day_spec:
  assumes "month_of_day m0 ls d = (m, dd)" and "0 \<le> d" and "d < sum_list ls"
  shows "\<exists>k < length ls. m = m0 + int k \<and> 1 \<le> dd \<and> dd \<le> ls ! k \<and> sum_list (take k ls) + (dd - 1) = d"
  using assms
proof (induction m0 ls d rule: month_of_day.induct)
  case (2 m0 l ls d)
  show ?case
  proof (cases "d < l")
    case True
    then show ?thesis using 2 by (intro exI [of _ 0]) auto
  next
    case False
    then obtain k where "k < length ls" "m = m0 + 1 + int k" "1 \<le> dd" "dd \<le> ls ! k" "sum_list (take k ls) + (dd - 1) = d - l"
      using 2 by auto
    then show ?thesis by (intro exI [of _ "Suc k"]) auto
  qed
qed simp

lemma date_of_days_spec:
  assumes "date_of_days n = (y, m, d)"
  shows "days_of_date y m d = n" and "1 \<le> m" and "m \<le> 12" and "1 \<le> d" and "d \<le> days_in m y"
proof -
  obtain yd where y: "year_of_days n = (y, yd)" and m: "month_of_day 1 (month_lengths (is_leap y)) yd = (m, d)"
    using assms by (auto simp: date_of_days_def split: prod.splits)
  have "sum_list (month_lengths (is_leap y)) = (if is_leap y then 366 else 365)" by (simp add: month_lengths_def)
  then obtain k where k: "k < length (month_lengths (is_leap y))" "m = 1 + int k" "1 \<le> d" "d \<le> month_lengths (is_leap y) ! k"
    "sum_list (take k (month_lengths (is_leap y))) + (d - 1) = yd"
    using month_of_day_spec [OF m] year_of_days_spec [OF y] by auto
  have l: "length (month_lengths (is_leap y)) = 12" by (simp add: month_lengths_def)
  show "days_of_date y m d = n" using k year_of_days_spec(1) [OF y] by (simp add: days_of_date_def month_start_def)
  show "1 \<le> m" "m \<le> 12" using k l by simp_all
  show "1 \<le> d" "d \<le> days_in m y" using k by (simp_all add: days_in_def)
qed

section \<open>The round trip\<close>

lemma of_char_digit: "0 \<le> n \<Longrightarrow> n < 10 \<Longrightarrow> int (of_char (digit n)) = 48 + n"
  by (simp add: digit_def)

lemma is_digit_digit: "0 \<le> n \<Longrightarrow> n < 10 \<Longrightarrow> is_digit (digit n)"
  by (simp add: digit_def is_digit_def)

lemma parseUint_digits2:
  assumes "lo \<le> n" and "n \<le> hi" and "0 \<le> n" and "n < 100"
  shows "parseUint (digits2 n) lo hi = Some n"
proof -
  have "0 \<le> n div 10" "n div 10 < 10" "0 \<le> n mod 10" "n mod 10 < 10" using assms by auto
  then have "parse_digits 0 (digits2 n) = Some n" by (simp add: digits2_def is_digit_digit of_char_digit)
  then show ?thesis using assms by (simp add: parseUint_def)
qed

lemma decimal_digit: "n < 10 \<Longrightarrow> decimal n = [digit (int n)]"
  by (subst decimal.simps) (simp add: digit_def)

lemma decimal_more: "10 \<le> n \<Longrightarrow> decimal n = decimal (n div 10) @ [digit (int (n mod 10))]"
  by (subst decimal.simps) (simp add: digit_def)

lemma parse_digits_append:
  "parse_digits x (s @ t) = (case parse_digits x s of None \<Rightarrow> None | Some y \<Rightarrow> parse_digits y t)"
  by (induction x s rule: parse_digits.induct) auto

lemma parse_decimal: "parse_digits 0 (decimal n) = Some (int n)"
proof (induction n rule: decimal.induct)
  case (1 n)
  show ?case
  proof (cases "n < 10")
    case True
    then show ?thesis by (simp add: decimal_digit is_digit_digit of_char_digit)
  next
    case False
    have "int (n div 10) * 10 + int n mod 10 = int n" by (simp add: zdiv_int)
    with False show ?thesis using 1
      by (simp add: decimal_more parse_digits_append is_digit_digit of_char_digit zmod_int)
  qed
qed

lemma parse_zeros: "parse_digits 0 (replicate k (CHR ''0'') @ s) = parse_digits 0 s"
  by (induction k) (simp_all add: is_digit_def)

lemma length_decimal: "n < 10 ^ Suc k \<Longrightarrow> length (decimal n) \<le> Suc k"
proof (induction k arbitrary: n)
  case 0 then show ?case by (simp add: decimal_digit)
next
  case (Suc k)
  then show ?case by (cases "n < 10") (simp_all add: decimal_digit decimal_more less_mult_imp_div_less)
qed

lemma year_text4:
  assumes "0 \<le> y" and "y \<le> 9999"
  shows "length (year_text y) = 4 \<and> parseUint (year_text y) 0 9999 = Some y"
proof -
  have "length (decimal (nat y)) \<le> 4" using length_decimal [of "nat y" 3] assms by simp
  then show ?thesis using assms
    by (simp add: year_text_def Let_def parseUint_def parse_zeros parse_decimal)
qed

text \<open>The date and the time of day of an instant, and the text parsed back.\<close>

lemma parse_date_time_text:
  assumes ymd: "0 \<le> y" "y \<le> 9999" "1 \<le> m" "m \<le> 12" "1 \<le> d" "d \<le> days_in m y"
    and hms: "0 \<le> h" "h \<le> 23" "0 \<le> mi" "mi \<le> 59" "0 \<le> sec" "sec \<le> 59"
  shows "parse_date_time (year_text y @ ''-'' @ digits2 m @ ''-'' @ digits2 d @ ''T'' @ digits2 h @ '':'' @ digits2 mi @ '':'' @ digits2 sec @ tl') =
    Some ((days_of_date y m d - epoch_days) * 86400 + h * 3600 + mi * 60 + sec)"
proof -
  have "length (year_text y) = 4" using year_text4 [OF ymd(1,2)] by simp
  then obtain a b c e where yt: "year_text y = [a, b, c, e]" by (auto simp: numeral_eq_Suc length_Suc_conv)
  have d: "d \<le> 31" using ymd(3-6) by (auto simp: days_in_def month_lengths_def nth_Cons' split: if_splits)
  have m2: "parseUint [digit (m div 10), digit (m mod 10)] 1 12 = Some m" using parseUint_digits2 [of 1 m 12] ymd by (simp add: digits2_def)
  have d2: "parseUint [digit (d div 10), digit (d mod 10)] 1 (days_in m y) = Some d"
    using parseUint_digits2 [of 1 d "days_in m y"] ymd d by (simp add: digits2_def)
  have h2: "parseUint [digit (h div 10), digit (h mod 10)] 0 23 = Some h" using parseUint_digits2 [of 0 h 23] hms by (simp add: digits2_def)
  have mi2: "parseUint [digit (mi div 10), digit (mi mod 10)] 0 59 = Some mi" using parseUint_digits2 [of 0 mi 59] hms by (simp add: digits2_def)
  have s2: "parseUint [digit (sec div 10), digit (sec mod 10)] 0 59 = Some sec" using parseUint_digits2 [of 0 sec 59] hms by (simp add: digits2_def)
  have y4: "parseUint [a, b, c, e] 0 9999 = Some y" using year_text4 [OF ymd(1,2)] yt by simp
  show ?thesis
    by (simp add: parse_date_time_def slice_def yt digits2_def y4 m2 d2 h2 mi2 s2)
qed

definition year_of :: "instant \<Rightarrow> int" where
  "year_of t = fst (date_of_days (t div second_ns div 86400 + epoch_days))"

text \<open>The first nineteen characters of the text spell the second of the instant, whatever follows them.\<close>

lemma stamp_of_instant:
  assumes "0 \<le> year_of t" and "year_of t \<le> 9999"
  shows "\<exists>stamp. format_RFC3339 t = stamp @ ''Z'' \<and> length stamp = 19 \<and>
    (\<forall>tl'. parse_date_time (stamp @ tl') = Some (t div second_ns))"
proof -
  define secs where "secs = t div second_ns"
  define s where "s = secs mod 86400"
  obtain y m d where date: "date_of_days (secs div 86400 + epoch_days) = (y, m, d)" using prod_cases3 by blast
  note ds = date_of_days_spec [OF date]
  have y: "0 \<le> y" "y \<le> 9999" using assms date by (simp_all add: year_of_def secs_def)
  have s: "0 \<le> s" "s < 86400" by (simp_all add: s_def)
  have h: "0 \<le> s div 3600" "s div 3600 \<le> 23" "0 \<le> s div 60 mod 60" "s div 60 mod 60 \<le> 59" "0 \<le> s mod 60" "s mod 60 \<le> 59"
    using s by (simp_all add: pos_imp_zdiv_nonneg_iff)
  have "s div 3600 = s div 60 div 60" by (simp add: zdiv_zmult2_eq)
  then have hms: "s div 3600 * 3600 + s div 60 mod 60 * 60 + s mod 60 = s" by presburger
  have "secs div 86400 * 86400 + s = secs" by (simp add: s_def)
  then have total: "(days_of_date y m d - epoch_days) * 86400 + s div 3600 * 3600 + s div 60 mod 60 * 60 + s mod 60 = secs"
    using ds(1) hms by simp
  define stamp where "stamp = year_text y @ ''-'' @ digits2 m @ ''-'' @ digits2 d @ ''T'' @ digits2 (s div 3600) @ '':'' @
      digits2 (s div 60 mod 60) @ '':'' @ digits2 (s mod 60)"
  have f: "format_RFC3339 t = stamp @ ''Z''"
    by (simp add: format_RFC3339_def Let_def date s_def [symmetric] secs_def [symmetric] stamp_def)
  have l: "length stamp = 19" using year_text4 [OF y] by (simp add: stamp_def digits2_def)
  have "parse_date_time (stamp @ tl') = Some secs" for tl'
    using parse_date_time_text [OF y ds(2-5) h, of tl'] total by (simp add: stamp_def)
  then show ?thesis using f l by (auto simp: secs_def)
qed

lemma parse_format_RFC3339:
  assumes "0 \<le> year_of t" and "year_of t \<le> 9999"
  shows "parseRFC3339 (format_RFC3339 t) = Some (t div second_ns * second_ns)"
proof -
  obtain stamp where "format_RFC3339 t = stamp @ ''Z''" "length stamp = 19"
    "\<And>tl'. parse_date_time (stamp @ tl') = Some (t div second_ns)"
    using stamp_of_instant [OF assms] by blast
  then show ?thesis by (simp add: parseRFC3339_def split_fraction_def parse_zone_def)
qed

end
