(* ===== verification/Config.thy ===== *)
theory Config
  imports Go_Effects Go_Time Dns_Decision "HOL-Library.Word"
begin

text \<open>
  \<open>internal/config/config.go\<close>: the configuration, its defaults, its normalisation and \<open>Validate\<close>. The
  validators return the first error. Not under \<open>src\<close>, and so parameters (\<open>config_lib\<close>): the tables
  \<open>StringToType\<close>, \<open>StringToRcode\<close> and \<open>RcodeToString\<close> of \<open>miekg/dns\<close>, as membership tests; which patterns
  \<open>regexp.Compile\<close> takes; the general layout scanner of \<open>time.Parse\<close>
  for its two layouts; \<open>yaml.Unmarshal\<close>. A Go \<open>int\<close> has 64 bits: the fields
  of the configuration are only compared, and are integers here; \<open>mustAtoi\<close> computes, on 64-bit words.
\<close>

section \<open>The types\<close>

record rewrite_rule =
  rw_Enabled :: bool
  rw_Mode :: string
  rw_Field :: string
  rw_Match :: string
  rw_From :: string
  rw_To :: string
  rw_RCodeFrom :: string
  rw_RCodeTo :: string
  rw_AnswerMode :: string
  rw_AnswerFrom :: string
  rw_AnswerTo :: string
  rw_Comment :: string

definition DNSSECModeOff :: string where "DNSSECModeOff = ''off''"
definition DNSSECModeUpstream :: string where "DNSSECModeUpstream = ''upstream''"

record dnssec_config =
  ds_Enabled :: bool
  ds_Mode :: string

record resolver =
  rs_Name :: string
  rs_Address :: string
  rs_Protocol :: string
  rs_TLSServerName :: string
  rs_Enabled :: bool

record conditional_forwarding =
  cf_Enabled :: bool
  cf_Domain :: string
  cf_Resolver :: string
  cf_Protocol :: string
  cf_TLSServerName :: string

record dns_config =
  dc_Listen :: string
  dc_Resolvers :: "resolver list"
  dc_CacheTTL :: int
  dc_CacheSuccessTTL :: int
  dc_CacheDenialTTL :: int
  dc_CacheSuccessCapacity :: int
  dc_CacheDenialCapacity :: int
  dc_CachePrefetchAmount :: int
  dc_CachePrefetchDuration :: int
  dc_CachePrefetchPercent :: int
  dc_DNSSEC :: dnssec_config
  dc_ConditionalForwarding :: conditional_forwarding
  dc_Rewrites :: "rewrite_rule list"

record storage_config =
  sc_Path :: string
  sc_AuditPath :: string
  sc_MainReadConnections :: int
  sc_AuditReadConnections :: int
  sc_SessionReadConnections :: int

record blocking_config =
  bc_Response :: string
  bc_Bundled :: bool
  bc_Paused :: bool
  bc_PauseUntil :: string
  bc_Blocklists :: "string list"

definition LoggingLevelDebug :: string where "LoggingLevelDebug = ''debug''"
definition LoggingLevelInfo :: string where "LoggingLevelInfo = ''info''"
definition LoggingLevelWarn :: string where "LoggingLevelWarn = ''warn''"
definition LoggingLevelError :: string where "LoggingLevelError = ''error''"
definition LoggingFormatText :: string where "LoggingFormatText = ''text''"
definition LoggingFormatJSON :: string where "LoggingFormatJSON = ''json''"

record logging_config =
  lc_Level :: string
  lc_Format :: string

record config =
  cfg_DNS :: dns_config
  cfg_AdminListen :: string
  cfg_Storage :: storage_config
  cfg_Blocking :: blocking_config
  cfg_Logging :: logging_config

record config_lib =
  lib_StringToType :: "string \<Rightarrow> bool"
  lib_StringToRcode :: "string \<Rightarrow> bool"
  lib_RcodeToString :: "int \<Rightarrow> bool"
  lib_Compile :: "string \<Rightarrow> bool"
  lib_lenientNano :: "string \<Rightarrow> instant option"
  lib_lenient :: "string \<Rightarrow> instant option"

section \<open>Defaults\<close>

definition DefaultReadConnections :: int where "DefaultReadConnections = 10"
definition MaxCacheSuccessTTL :: int where "MaxCacheSuccessTTL = 3600"
definition MaxCacheDenialTTL :: int where "MaxCacheDenialTTL = 1800"
definition DefaultCacheDenialTTL :: int where "DefaultCacheDenialTTL = 30"
definition MinCacheCapacity :: int where "MinCacheCapacity = 1024"
definition MaxCachePrefetchPercent :: int where "MaxCachePrefetchPercent = 100"

lemmas config_consts = DefaultReadConnections_def MaxCacheSuccessTTL_def MaxCacheDenialTTL_def DefaultCacheDenialTTL_def
  MinCacheCapacity_def MaxCachePrefetchPercent_def
lemmas logging_consts = LoggingLevelDebug_def LoggingLevelInfo_def LoggingLevelWarn_def LoggingLevelError_def
  LoggingFormatText_def LoggingFormatJSON_def
lemmas dnssec_consts = DNSSECModeOff_def DNSSECModeUpstream_def

definition default_dns :: dns_config where
  "default_dns =
     \<lparr>dc_Listen = '':53'',
      dc_Resolvers = [\<lparr>rs_Name = ''cloudflare'', rs_Address = ''1.1.1.1:53'', rs_Protocol = ''udp'', rs_TLSServerName = [], rs_Enabled = True\<rparr>],
      dc_CacheTTL = 0, dc_CacheSuccessTTL = MaxCacheSuccessTTL, dc_CacheDenialTTL = DefaultCacheDenialTTL,
      dc_CacheSuccessCapacity = 32768, dc_CacheDenialCapacity = 4096, dc_CachePrefetchAmount = 5,
      dc_CachePrefetchDuration = 60, dc_CachePrefetchPercent = 10,
      dc_DNSSEC = \<lparr>ds_Enabled = False, ds_Mode = DNSSECModeOff\<rparr>,
      dc_ConditionalForwarding = \<lparr>cf_Enabled = False, cf_Domain = [], cf_Resolver = [], cf_Protocol = [], cf_TLSServerName = []\<rparr>,
      dc_Rewrites = []\<rparr>"

definition Default :: config where
  "Default =
     \<lparr>cfg_DNS = default_dns,
      cfg_AdminListen = ''127.0.0.1:8080'',
      cfg_Storage = \<lparr>sc_Path = ''corehole.db'', sc_AuditPath = ''corehole-audit.db'', sc_MainReadConnections = DefaultReadConnections,
                     sc_AuditReadConnections = DefaultReadConnections, sc_SessionReadConnections = DefaultReadConnections\<rparr>,
      cfg_Blocking = \<lparr>bc_Response = BlockingResponseNullIP, bc_Bundled = True, bc_Paused = False, bc_PauseUntil = [], bc_Blocklists = []\<rparr>,
      cfg_Logging = \<lparr>lc_Level = LoggingLevelInfo, lc_Format = LoggingFormatText\<rparr>\<rparr>"

section \<open>Effective values\<close>

definition EffectiveCacheSuccessTTL :: "dns_config \<Rightarrow> int" where
  "EffectiveCacheSuccessTTL c =
     (if dc_CacheSuccessTTL c > 0 \<or> dc_CacheDenialTTL c > 0 then dc_CacheSuccessTTL c else dc_CacheTTL c)"

definition EffectiveCacheDenialTTL :: "dns_config \<Rightarrow> int" where
  "EffectiveCacheDenialTTL c =
     (if dc_CacheSuccessTTL c > 0 \<or> dc_CacheDenialTTL c > 0 then dc_CacheDenialTTL c else dc_CacheTTL c)"

definition CacheEnabled :: "dns_config \<Rightarrow> bool" where
  "CacheEnabled c \<longleftrightarrow> EffectiveCacheSuccessTTL c > 0 \<or> EffectiveCacheDenialTTL c > 0"

definition lower_trim :: "string \<Rightarrow> string" where
  "lower_trim s = ToLower (TrimSpace s)"

definition NormalizedMode :: "dnssec_config \<Rightarrow> string" where
  "NormalizedMode d = lower_trim (ds_Mode d)"

definition dnssec_EffectiveMode :: "dnssec_config \<Rightarrow> string" where
  "dnssec_EffectiveMode d =
     (if \<not> ds_Enabled d then DNSSECModeOff
      else if NormalizedMode d = [] then DNSSECModeUpstream else NormalizedMode d)"

definition EffectiveLevel :: "logging_config \<Rightarrow> string" where
  "EffectiveLevel l =
     (let v = lower_trim (lc_Level l) in
      if v = LoggingLevelDebug then LoggingLevelDebug
      else if v = LoggingLevelWarn \<or> v = ''warning'' then LoggingLevelWarn
      else if v = LoggingLevelError then LoggingLevelError
      else LoggingLevelInfo)"

definition EffectiveFormat :: "logging_config \<Rightarrow> string" where
  "EffectiveFormat l = (if lower_trim (lc_Format l) = LoggingFormatJSON then LoggingFormatJSON else LoggingFormatText)"

definition EffectiveMode :: "rewrite_rule \<Rightarrow> string" where
  "EffectiveMode r = (let mode = lower_trim (rw_Mode r) in if mode = [] then ''stop'' else mode)"

definition EffectiveMatch :: "rewrite_rule \<Rightarrow> string" where
  "EffectiveMatch r = (let m = lower_trim (rw_Match r) in if m = [] then ''exact'' else m)"

definition supportedLoggingLevel :: "string \<Rightarrow> bool" where
  "supportedLoggingLevel level \<longleftrightarrow>
     lower_trim level \<in> {[], LoggingLevelDebug, LoggingLevelInfo, LoggingLevelWarn, ''warning'', LoggingLevelError}"

definition supportedLoggingFormat :: "string \<Rightarrow> bool" where
  "supportedLoggingFormat format \<longleftrightarrow> lower_trim format \<in> {[], LoggingFormatText, LoggingFormatJSON}"

definition normalizedResolverProtocol :: "string \<Rightarrow> string" where
  "normalizedResolverProtocol protocol = lower_trim protocol"

definition supportedResolverProtocol :: "string \<Rightarrow> bool" where
  "supportedResolverProtocol protocol \<longleftrightarrow> protocol \<in> {[], ''udp'', ''tcp'', ''tls'', ''https'', ''dns''}"

definition token_breakers :: "char set" where
  "token_breakers = {CHR '' '', CHR 0x09, CHR 0x0D, CHR 0x0A, CHR 0x7B, CHR 0x7D}"

definition validCorefileToken :: "string \<Rightarrow> bool" where
  "validCorefileToken val \<longleftrightarrow> \<not> list_ex (\<lambda>c. c \<in> token_breakers) val"

section \<open>Rewrite rules\<close>

type_synonym check = "unit result"

definition fails :: "string \<Rightarrow> check" where
  "fails msg = Inl (ErrorString msg)"

abbreviation ok :: check where
  "ok \<equiv> Inr ()"

text \<open>\<open>if err := f(); err != nil { return err }\<close>\<close>

definition and_then :: "check \<Rightarrow> check \<Rightarrow> check" where
  "and_then c d = (case c of Inl e \<Rightarrow> Inl e | Inr _ \<Rightarrow> d)"

text \<open>\<open>if b { return errors.New(msg) }\<close>, then the rest.\<close>

definition reject_if :: "bool \<Rightarrow> string \<Rightarrow> check \<Rightarrow> check" where
  "reject_if b msg d = (if b then fails msg else d)"

definition supportedRewriteMode :: "string \<Rightarrow> bool" where
  "supportedRewriteMode mode \<longleftrightarrow> mode = ''stop'' \<or> mode = ''continue''"

definition validateRewriteMatch :: "string \<Rightarrow> check" where
  "validateRewriteMatch m =
     (if m \<in> {''exact'', ''prefix'', ''suffix'', ''substring'', ''regex''} then ok
      else fails ''dns.rewrites[].match must be exact, prefix, suffix, substring, regex, or empty'')"

definition validateRewriteRegex :: "config_lib \<Rightarrow> string \<Rightarrow> string \<Rightarrow> check" where
  "validateRewriteRegex lib m pattern =
     (if m \<noteq> ''regex'' then ok
      else if length pattern > 10000 then fails ''dns.rewrites[].from regex must be 10000 characters or fewer''
      else if \<not> lib_Compile lib pattern then fails ''dns.rewrites[].from regex must compile''
      else ok)"

definition validateRewriteToken :: "string \<Rightarrow> string \<Rightarrow> check" where
  "validateRewriteToken field raw =
     (let val = TrimSpace raw in
      if val = [] then fails (field @ '' is required'')
      else if val = [CHR 0x7B] \<or> val = [CHR 0x7D] then fails (field @ '' must not be a Corefile block delimiter'')
      else if list_ex is_space val then fails (field @ '' must not contain whitespace'')
      else ok)"

definition validTTLNumber :: "string \<Rightarrow> bool" where
  "validTTLNumber val \<longleftrightarrow> val \<noteq> [] \<and> list_all is_digit val"

definition atoi_step :: "char \<Rightarrow> 64 word \<Rightarrow> 64 word" where
  "atoi_step r n = n * 10 + of_int (int (of_char r) - 48)"

definition mustAtoi :: "string \<Rightarrow> 64 word" where
  "mustAtoi val = fold atoi_step val 0"

definition validTTLRewriteValue :: "string \<Rightarrow> bool" where
  "validTTLRewriteValue raw =
     (let val = TrimSpace raw in
      if val = [] then False
      else let parts = Split (CHR ''-'') val in
        if length parts = 1 then validTTLNumber (parts ! 0)
        else if length parts \<noteq> 2 \<or> parts ! 0 = [] \<and> parts ! 1 = [] then False
        else if parts ! 0 \<noteq> [] \<and> \<not> validTTLNumber (parts ! 0) then False
        else if parts ! 1 \<noteq> [] \<and> \<not> validTTLNumber (parts ! 1) then False
        else if parts ! 0 \<noteq> [] \<and> parts ! 1 \<noteq> [] \<and> sint (mustAtoi (parts ! 0)) > sint (mustAtoi (parts ! 1)) then False
        else True)"

definition validRCodeRewriteValue :: "config_lib \<Rightarrow> string \<Rightarrow> bool" where
  "validRCodeRewriteValue lib raw =
     (let val = ToUpper (TrimSpace raw) in
      if val = [] then False
      else if lib_StringToRcode lib val then True
      else if \<not> list_all is_digit val then False
      else lib_RcodeToString lib (sint (mustAtoi val)))"

definition validateNameRewrite :: "config_lib \<Rightarrow> rewrite_rule \<Rightarrow> check" where
  "validateNameRewrite lib r =
     and_then (validateRewriteMatch (EffectiveMatch r))
     (and_then (validateRewriteToken ''dns.rewrites[].from'' (rw_From r))
     (and_then (validateRewriteToken ''dns.rewrites[].to'' (rw_To r))
     (and_then (validateRewriteRegex lib (EffectiveMatch r) (rw_From r))
       (let answerMode = lower_trim (rw_AnswerMode r) in
        if answerMode = [] \<or> answerMode = ''none'' then ok
        else if answerMode = ''auto'' then ok
        else if answerMode = ''name'' \<or> answerMode = ''value'' then
          and_then (validateRewriteToken ''dns.rewrites[].answer_from'' (rw_AnswerFrom r))
          (and_then (validateRewriteToken ''dns.rewrites[].answer_to'' (rw_AnswerTo r))
            (validateRewriteRegex lib ''regex'' (rw_AnswerFrom r)))
        else fails ''dns.rewrites[].answer_mode must be none, auto, name, or value''))))"

definition validateTypeRewrite :: "config_lib \<Rightarrow> rewrite_rule \<Rightarrow> check" where
  "validateTypeRewrite lib r =
     reject_if (\<not> lib_StringToType lib (ToUpper (TrimSpace (rw_From r)))) ''dns.rewrites[].from must be a DNS record type for type rewrites''
     (reject_if (\<not> lib_StringToType lib (ToUpper (TrimSpace (rw_To r)))) ''dns.rewrites[].to must be a DNS record type for type rewrites''
      ok)"

definition validateTTLRewrite :: "config_lib \<Rightarrow> rewrite_rule \<Rightarrow> check" where
  "validateTTLRewrite lib r =
     and_then (validateRewriteMatch (EffectiveMatch r))
     (and_then (validateRewriteToken ''dns.rewrites[].from'' (rw_From r))
     (and_then (validateRewriteRegex lib (EffectiveMatch r) (rw_From r))
     (reject_if (\<not> validTTLRewriteValue (TrimSpace (rw_To r))) ''dns.rewrites[].to must be TTL seconds or a MIN-MAX TTL range for ttl rewrites''
      ok)))"

definition validateRCodeRewrite :: "config_lib \<Rightarrow> rewrite_rule \<Rightarrow> check" where
  "validateRCodeRewrite lib r =
     and_then (validateRewriteMatch (EffectiveMatch r))
     (and_then (validateRewriteToken ''dns.rewrites[].from'' (rw_From r))
     (and_then (validateRewriteRegex lib (EffectiveMatch r) (rw_From r))
     (reject_if (\<not> validRCodeRewriteValue lib (rw_RCodeFrom r)) ''dns.rewrites[].rcode_from must be a supported DNS RCODE''
     (reject_if (\<not> validRCodeRewriteValue lib (rw_RCodeTo r)) ''dns.rewrites[].rcode_to must be a supported DNS RCODE''
      ok))))"

definition rewrite_Validate :: "config_lib \<Rightarrow> rewrite_rule \<Rightarrow> check" where
  "rewrite_Validate lib r =
     (if \<not> rw_Enabled r then ok
      else reject_if (\<not> supportedRewriteMode (EffectiveMode r)) ''dns.rewrites[].mode must be stop, continue, or empty''
        (let field = lower_trim (rw_Field r) in
         if field = ''name'' then validateNameRewrite lib r
         else if field = ''type'' then validateTypeRewrite lib r
         else if field = ''ttl'' then validateTTLRewrite lib r
         else if field = ''rcode'' then validateRCodeRewrite lib r
         else fails ''dns.rewrites[].field must be name, type, ttl, or rcode''))"

section \<open>Validate\<close>

definition dnssec_Validate :: "dnssec_config \<Rightarrow> check" where
  "dnssec_Validate d =
     (let mode = NormalizedMode d in
      if mode \<notin> {[], DNSSECModeOff, DNSSECModeUpstream} then fails ''dns.dnssec.mode must be off, upstream, or empty''
      else if ds_Enabled d then
        (if mode = DNSSECModeOff then fails ''dns.dnssec.mode must be upstream when dns.dnssec.enabled is true'' else ok)
      else if mode = DNSSECModeUpstream then fails ''dns.dnssec.enabled must be true when dns.dnssec.mode is upstream''
      else ok)"

definition validate_required :: "config \<Rightarrow> check \<Rightarrow> check" where
  "validate_required c rest =
     reject_if (dc_Listen (cfg_DNS c) = []) ''dns.listen is required''
     (reject_if (cfg_AdminListen c = []) ''admin.listen is required''
     (reject_if (sc_Path (cfg_Storage c) = []) ''storage.path is required''
     (reject_if (sc_AuditPath (cfg_Storage c) = []) ''storage.audit_path is required''
     (reject_if (sc_MainReadConnections (cfg_Storage c) < 1) ''storage.main_read_connections must be positive''
     (reject_if (sc_AuditReadConnections (cfg_Storage c) < 1) ''storage.audit_read_connections must be positive''
     (reject_if (sc_SessionReadConnections (cfg_Storage c) < 1) ''storage.session_read_connections must be positive''
     (reject_if (\<not> supportedLoggingLevel (lc_Level (cfg_Logging c))) ''logging.level must be debug, info, warn, warning, error, or empty''
     (reject_if (\<not> supportedLoggingFormat (lc_Format (cfg_Logging c))) ''logging.format must be text, json, or empty''
      rest))))))))"

definition validate_cache :: "dns_config \<Rightarrow> check \<Rightarrow> check" where
  "validate_cache d rest =
     reject_if (dc_CacheTTL d < 0) ''dns.cache_ttl must be 0 or greater''
     (reject_if (dc_CacheTTL d > MaxCacheDenialTTL) ''dns.cache_ttl must be 1800 or less''
     (reject_if (EffectiveCacheSuccessTTL d < 0) ''dns.cache_success_ttl must be 0 or greater''
     (reject_if (EffectiveCacheDenialTTL d < 0) ''dns.cache_denial_ttl must be 0 or greater''
     (reject_if (EffectiveCacheSuccessTTL d > MaxCacheSuccessTTL) ''dns.cache_success_ttl must be 3600 or less''
     (reject_if (EffectiveCacheDenialTTL d > MaxCacheDenialTTL) ''dns.cache_denial_ttl must be 1800 or less''
     (reject_if (dc_CachePrefetchAmount d < 0) ''dns.cache_prefetch_amount must be 0 or greater''
     (reject_if (dc_CachePrefetchDuration d < 0) ''dns.cache_prefetch_duration must be 0 or greater''
     (reject_if (dc_CachePrefetchPercent d < 0 \<or> dc_CachePrefetchPercent d > MaxCachePrefetchPercent) ''dns.cache_prefetch_percent must be between 0 and 100''
     (reject_if (CacheEnabled d \<and> EffectiveCacheSuccessTTL d = 0) ''dns.cache_success_ttl must be greater than 0 when cache is enabled''
     (reject_if (CacheEnabled d \<and> EffectiveCacheDenialTTL d = 0) ''dns.cache_denial_ttl must be greater than 0 when cache is enabled''
     (reject_if (CacheEnabled d \<and> dc_CacheSuccessCapacity d < MinCacheCapacity) ''dns.cache_success_capacity must be at least 1024 when cache is enabled''
     (reject_if (CacheEnabled d \<and> dc_CacheDenialCapacity d < MinCacheCapacity) ''dns.cache_denial_capacity must be at least 1024 when cache is enabled''
      rest))))))))))))"

text \<open>The checks of one enabled resolver, and the loop with its three flags.\<close>

definition validate_resolver :: "resolver \<Rightarrow> check" where
  "validate_resolver r =
     reject_if (rs_Address r = []) ''enabled resolver address is required''
     (reject_if (\<not> validCorefileToken (rs_Address r)) ''enabled resolver address must not contain whitespace or braces''
     (reject_if (\<not> supportedResolverProtocol (normalizedResolverProtocol (rs_Protocol r))) ''enabled resolver protocol must be udp, tcp, tls, https, dns, or empty''
     (reject_if (rs_TLSServerName r \<noteq> [] \<and> \<not> validCorefileToken (rs_TLSServerName r)) ''resolver tls_server_name must not contain whitespace or braces''
      ok)))"

fun resolver_loop :: "bool \<Rightarrow> bool \<Rightarrow> bool \<Rightarrow> resolver list \<Rightarrow> (bool \<times> bool \<times> bool) result" where
  "resolver_loop enabled tcp nontcp [] = Inr (enabled, tcp, nontcp)"
| "resolver_loop enabled tcp nontcp (r # rs) =
     (if \<not> rs_Enabled r then resolver_loop enabled tcp nontcp rs
      else case validate_resolver r of
        Inl e \<Rightarrow> Inl e
      | Inr _ \<Rightarrow>
          let is_tcp = (normalizedResolverProtocol (rs_Protocol r) = ''tcp'') in
          resolver_loop True (tcp \<or> is_tcp) (nontcp \<or> \<not> is_tcp) rs)"

definition validate_resolvers :: "dns_config \<Rightarrow> check \<Rightarrow> check" where
  "validate_resolvers d rest =
     (case resolver_loop False False False (dc_Resolvers d) of
        Inl e \<Rightarrow> Inl e
      | Inr (enabled, tcp, nontcp) \<Rightarrow>
          reject_if (\<not> enabled) ''at least one resolver must be enabled''
          (reject_if (tcp \<and> nontcp) ''tcp resolvers cannot be mixed with udp, tls, https, dns, or empty-protocol resolvers''
           rest))"

definition validate_conditional :: "conditional_forwarding \<Rightarrow> check \<Rightarrow> check" where
  "validate_conditional f rest =
     (if \<not> cf_Enabled f then rest
      else
       reject_if (cf_Domain f = []) ''dns.conditional_forwarding.domain is required when enabled''
       (reject_if (cf_Resolver f = []) ''dns.conditional_forwarding.resolver is required when enabled''
       (reject_if (\<not> validCorefileToken (cf_Domain f)) ''dns.conditional_forwarding.domain must not contain whitespace or braces''
       (reject_if (\<not> validCorefileToken (cf_Resolver f)) ''dns.conditional_forwarding.resolver must not contain whitespace or braces''
       (reject_if (\<not> supportedResolverProtocol (normalizedResolverProtocol (cf_Protocol f))) ''dns.conditional_forwarding.protocol must be udp, tcp, tls, https, dns, or empty''
       (reject_if (cf_TLSServerName f \<noteq> [] \<and> \<not> validCorefileToken (cf_TLSServerName f)) ''dns.conditional_forwarding.tls_server_name must not contain whitespace or braces''
        rest))))))"

fun validate_rewrites :: "config_lib \<Rightarrow> rewrite_rule list \<Rightarrow> check" where
  "validate_rewrites lib [] = ok"
| "validate_rewrites lib (r # rs) = and_then (rewrite_Validate lib r) (validate_rewrites lib rs)"

definition validate_blocking :: "config_lib \<Rightarrow> blocking_config \<Rightarrow> check" where
  "validate_blocking lib b =
     reject_if (bc_Response b = []) ''blocking.response is required''
     (reject_if (bc_Response b \<notin> {BlockingResponseNXDOMAIN, BlockingResponseNullIP, BlockingResponseRefused}) ''blocking.response must be nxdomain, null-ip, or refused''
     (reject_if (bc_PauseUntil b \<noteq> [] \<and> time_Parse (lib_lenientNano lib) (bc_PauseUntil b) = None \<and> time_Parse (lib_lenient lib) (bc_PauseUntil b) = None)
        ''blocking.pause_until must be an RFC3339 timestamp''
      ok))"

definition Validate :: "config_lib \<Rightarrow> config \<Rightarrow> check" where
  "Validate lib c =
     validate_required c
     (validate_cache (cfg_DNS c)
     (and_then (dnssec_Validate (dc_DNSSEC (cfg_DNS c)))
     (validate_resolvers (cfg_DNS c)
     (validate_conditional (dc_ConditionalForwarding (cfg_DNS c))
     (and_then (validate_rewrites lib (dc_Rewrites (cfg_DNS c)))
       (validate_blocking lib (cfg_Blocking c)))))))"

section \<open>Normalisation of a loaded configuration\<close>

text \<open>\<open>filepath.Ext\<close>: from the last dot of the last element of the path.\<close>

definition filepath_Ext :: "string \<Rightarrow> string" where
  "filepath_Ext path =
     (let r = takeWhile (\<lambda>c. c \<noteq> CHR ''/'') (rev path) in
      if CHR ''.'' \<in> set r then CHR ''.'' # rev (takeWhile (\<lambda>c. c \<noteq> CHR ''.'') r) else [])"

definition DefaultAuditPath :: "string \<Rightarrow> string" where
  "DefaultAuditPath path =
     (if TrimSpace path = [] then ''corehole-audit.db''
      else if path = '':memory:'' then path
      else if HasPrefix path ''file:'' then path @ ''-audit''
      else if filepath_Ext path = [] then path @ ''-audit''
      else TrimSuffix path (filepath_Ext path) @ ''-audit'' @ filepath_Ext path)"

definition normalizeLegacyCacheConfig :: "config \<Rightarrow> string \<Rightarrow> config" where
  "normalizeLegacyCacheConfig cfg payload =
     (if \<not> Contains payload ''cache_ttl'' \<or> Contains payload ''cache_success_ttl'' \<or> Contains payload ''cache_denial_ttl'' then cfg
      else cfg\<lparr>cfg_DNS := (cfg_DNS cfg)\<lparr>dc_CacheSuccessTTL := dc_CacheTTL (cfg_DNS cfg), dc_CacheDenialTTL := dc_CacheTTL (cfg_DNS cfg)\<rparr>\<rparr>)"

definition normalizeStorageConfig :: "config \<Rightarrow> string \<Rightarrow> config" where
  "normalizeStorageConfig cfg payload =
     (if sc_AuditPath (cfg_Storage cfg) \<noteq> [] \<and> Contains payload ''audit_path'' then cfg
      else cfg\<lparr>cfg_Storage := (cfg_Storage cfg)\<lparr>sc_AuditPath := DefaultAuditPath (sc_Path (cfg_Storage cfg))\<rparr>\<rparr>)"

text \<open>
  \<open>Load\<close>: reading the file gives the bytes, no file, or another error; \<open>unmarshal\<close> decodes over the defaults.
  The second component of the result is the package flag \<open>bundledDefault\<close> of the blocklists.
\<close>

datatype file_read = FileBytes string | FileMissing | FileError go_error

definition config_Load ::
  "config_lib \<Rightarrow> (string \<Rightarrow> config \<Rightarrow> config result) \<Rightarrow> file_read \<Rightarrow> bool \<Rightarrow> config result \<times> bool" where
  "config_Load lib unmarshal file_content bundledDefault =
     (case file_content of
        FileMissing \<Rightarrow> (Inr Default, bc_Bundled (cfg_Blocking Default))
      | FileError e \<Rightarrow> (Inl e, bundledDefault)
      | FileBytes b \<Rightarrow>
          (case unmarshal b Default of
             Inl e \<Rightarrow> (Inl e, bundledDefault)
           | Inr cfg \<Rightarrow>
               let cfg = normalizeStorageConfig (normalizeLegacyCacheConfig cfg b) b in
               (case Validate lib cfg of
                  Inl e \<Rightarrow> (Inl e, bundledDefault)
                | Inr _ \<Rightarrow> (Inr cfg, bc_Bundled (cfg_Blocking cfg)))))"

section \<open>What validation gives\<close>

text \<open>The checks collected; what they mean is \<open>config_ok\<close> below.\<close>

lemma reject_if_ok [simp]: "reject_if b msg d = Inr u \<longleftrightarrow> \<not> b \<and> d = Inr u"
  by (simp add: reject_if_def fails_def)

lemma and_then_ok [simp]: "and_then c d = Inr u \<longleftrightarrow> c = ok \<and> d = Inr u"
  by (cases c) (simp_all add: and_then_def)

lemma fails_not_ok [simp]: "fails msg \<noteq> Inr u"
  by (simp add: fails_def)

lemma lower_trim_idem [go_norm]: "lower_trim (lower_trim s) = lower_trim s"
  by (simp add: lower_trim_def TrimSpace_ToLower)

definition cache_ok :: "dns_config \<Rightarrow> bool" where
  "cache_ok d \<longleftrightarrow> 0 \<le> EffectiveCacheSuccessTTL d \<and> EffectiveCacheSuccessTTL d \<le> 3600 \<and>
     0 \<le> EffectiveCacheDenialTTL d \<and> EffectiveCacheDenialTTL d \<le> 1800 \<and>
     0 \<le> dc_CachePrefetchAmount d \<and> 0 \<le> dc_CachePrefetchDuration d \<and> dc_CachePrefetchPercent d \<in> {0..100} \<and>
     (CacheEnabled d \<longrightarrow> 0 < EffectiveCacheSuccessTTL d \<and> 0 < EffectiveCacheDenialTTL d \<and>
        1024 \<le> dc_CacheSuccessCapacity d \<and> 1024 \<le> dc_CacheDenialCapacity d)"

definition resolver_ok :: "resolver \<Rightarrow> bool" where
  "resolver_ok r \<longleftrightarrow> rs_Address r \<noteq> [] \<and> validCorefileToken (rs_Address r) \<and>
     supportedResolverProtocol (normalizedResolverProtocol (rs_Protocol r)) \<and>
     (rs_TLSServerName r \<noteq> [] \<longrightarrow> validCorefileToken (rs_TLSServerName r))"

definition is_tcp :: "resolver \<Rightarrow> bool" where
  "is_tcp r \<longleftrightarrow> normalizedResolverProtocol (rs_Protocol r) = ''tcp''"

definition resolvers_ok :: "resolver list \<Rightarrow> bool" where
  "resolvers_ok rs \<longleftrightarrow> (let e = filter rs_Enabled rs in
     e \<noteq> [] \<and> list_all resolver_ok e \<and> (list_all is_tcp e \<or> list_all (\<lambda>r. \<not> is_tcp r) e))"

definition conditional_ok :: "conditional_forwarding \<Rightarrow> bool" where
  "conditional_ok f \<longleftrightarrow> (cf_Enabled f \<longrightarrow> cf_Domain f \<noteq> [] \<and> cf_Resolver f \<noteq> [] \<and> validCorefileToken (cf_Domain f) \<and>
     validCorefileToken (cf_Resolver f) \<and> supportedResolverProtocol (normalizedResolverProtocol (cf_Protocol f)) \<and>
     (cf_TLSServerName f \<noteq> [] \<longrightarrow> validCorefileToken (cf_TLSServerName f)))"

definition config_checks :: "config_lib \<Rightarrow> config \<Rightarrow> bool" where
  "config_checks lib c \<longleftrightarrow>
     dc_Listen (cfg_DNS c) \<noteq> [] \<and> cfg_AdminListen c \<noteq> [] \<and> sc_Path (cfg_Storage c) \<noteq> [] \<and> sc_AuditPath (cfg_Storage c) \<noteq> [] \<and>
     1 \<le> sc_MainReadConnections (cfg_Storage c) \<and> 1 \<le> sc_AuditReadConnections (cfg_Storage c) \<and> 1 \<le> sc_SessionReadConnections (cfg_Storage c) \<and>
     supportedLoggingLevel (lc_Level (cfg_Logging c)) \<and> supportedLoggingFormat (lc_Format (cfg_Logging c)) \<and>
     0 \<le> dc_CacheTTL (cfg_DNS c) \<and> dc_CacheTTL (cfg_DNS c) \<le> 1800 \<and> cache_ok (cfg_DNS c) \<and>
     dnssec_Validate (dc_DNSSEC (cfg_DNS c)) = ok \<and> resolvers_ok (dc_Resolvers (cfg_DNS c)) \<and>
     conditional_ok (dc_ConditionalForwarding (cfg_DNS c)) \<and> list_all (\<lambda>r. rewrite_Validate lib r = ok) (dc_Rewrites (cfg_DNS c)) \<and>
     bc_Response (cfg_Blocking c) \<in> {BlockingResponseNXDOMAIN, BlockingResponseNullIP, BlockingResponseRefused} \<and>
     (bc_PauseUntil (cfg_Blocking c) \<noteq> [] \<longrightarrow>
        time_Parse (lib_lenientNano lib) (bc_PauseUntil (cfg_Blocking c)) \<noteq> None \<or> time_Parse (lib_lenient lib) (bc_PauseUntil (cfg_Blocking c)) \<noteq> None)"

lemma validate_resolver_ok: "validate_resolver r = ok \<longleftrightarrow> resolver_ok r"
  by (auto simp: validate_resolver_def resolver_ok_def)

lemma resolver_loop_Inr:
  "resolver_loop a t n rs = Inr (a', t', n') \<longleftrightarrow>
     list_all resolver_ok (filter rs_Enabled rs) \<and> a' = (a \<or> filter rs_Enabled rs \<noteq> []) \<and>
     t' = (t \<or> list_ex is_tcp (filter rs_Enabled rs)) \<and> n' = (n \<or> list_ex (\<lambda>r. \<not> is_tcp r) (filter rs_Enabled rs))"
proof (induction rs arbitrary: a t n)
  case (Cons r rs)
  have "validate_resolver r = Inr u \<longleftrightarrow> resolver_ok r" for u using validate_resolver_ok by (cases u) simp
  then show ?case using Cons.IH
    by (cases "validate_resolver r") (auto simp: Let_def is_tcp_def)
qed auto

lemma validate_resolvers_ok: "validate_resolvers d rest = ok \<longleftrightarrow> resolvers_ok (dc_Resolvers d) \<and> rest = ok"
proof (cases "resolver_loop False False False (dc_Resolvers d)")
  case (Inl e)
  then have "\<not> list_all resolver_ok (filter rs_Enabled (dc_Resolvers d))"
    using resolver_loop_Inr [of False False False "dc_Resolvers d" "filter rs_Enabled (dc_Resolvers d) \<noteq> []"
        "list_ex is_tcp (filter rs_Enabled (dc_Resolvers d))" "list_ex (\<lambda>r. \<not> is_tcp r) (filter rs_Enabled (dc_Resolvers d))"] by simp
  then show ?thesis using Inl by (simp add: validate_resolvers_def resolvers_ok_def Let_def)
next
  case (Inr x)
  obtain a t n where x: "x = (a, t, n)" by (cases x)
  show ?thesis using Inr [unfolded x, THEN resolver_loop_Inr [THEN iffD1]] Inr x
    by (auto simp: validate_resolvers_def resolvers_ok_def Let_def list_all_iff list_ex_iff)
qed

lemma validate_rewrites_ok: "validate_rewrites lib rs = ok \<longleftrightarrow> list_all (\<lambda>r. rewrite_Validate lib r = ok) rs"
  by (induction rs) auto

lemma validate_cache_ok:
  "validate_cache d rest = ok \<longleftrightarrow> 0 \<le> dc_CacheTTL d \<and> dc_CacheTTL d \<le> 1800 \<and> cache_ok d \<and> rest = ok"
  unfolding validate_cache_def cache_ok_def reject_if_ok config_consts by auto

lemma validate_conditional_ok: "validate_conditional f rest = ok \<longleftrightarrow> conditional_ok f \<and> rest = ok"
  by (auto simp: validate_conditional_def conditional_ok_def)

lemma Validate_ok_iff: "Validate lib c = ok \<longleftrightarrow> config_checks lib c"
  unfolding Validate_def validate_required_def reject_if_ok and_then_ok validate_cache_ok validate_resolvers_ok validate_conditional_ok
    validate_rewrites_ok validate_blocking_def config_checks_def
  by (auto simp: BlockingResponseNXDOMAIN_def BlockingResponseNullIP_def BlockingResponseRefused_def)

section \<open>Numbers of rewrite rules\<close>

definition digits_value :: "string \<Rightarrow> int" where
  "digits_value s = fold (\<lambda>r n. n * 10 + (int (of_char r) - 48)) s 0"

lemma fold_atoi: "fold atoi_step s (of_int n) = of_int (fold (\<lambda>r n. n * 10 + (int (of_char r) - 48)) s n)"
proof (induction s arbitrary: n)
  case (Cons c s)
  have "atoi_step c (of_int n) = of_int (n * 10 + (int (of_char c) - 48))" by (simp add: atoi_step_def)
  then show ?case using Cons.IH [of "n * 10 + (int (of_char c) - 48)"] by (simp only: fold.simps o_apply)
qed simp

lemma mustAtoi_value: "mustAtoi s = of_int (digits_value s)"
  using fold_atoi [of s 0] by (simp add: mustAtoi_def digits_value_def)

lemma digits_value_bound:
  "list_all is_digit s \<Longrightarrow> 0 \<le> digits_value s \<and> digits_value s < 10 ^ length s"
proof (induction s rule: rev_induct)
  case (snoc c s)
  then have "0 \<le> digits_value s" "digits_value s < 10 ^ length s" "48 \<le> (of_char c :: nat)" "(of_char c :: nat) \<le> 57"
    by (auto simp: is_digit_def)
  moreover have "digits_value (s @ [c]) = digits_value s * 10 + (int (of_char c) - 48)" by (simp add: digits_value_def)
  ultimately show ?case by simp
qed (simp add: digits_value_def)

lemma sint_mustAtoi:
  assumes "list_all is_digit s" and "length s \<le> 18"
  shows "sint (mustAtoi s) = digits_value s"
proof -
  have "digits_value s < 10 ^ 18"
    using digits_value_bound [OF assms(1)] power_increasing [OF assms(2), of "10 :: int"] by simp
  then show ?thesis
    using digits_value_bound [OF assms(1)]
    by (simp add: mustAtoi_value sint_sbintrunc' signed_take_bit_int_eq_self)
qed

lemma digit_not_space: "is_digit c \<Longrightarrow> \<not> is_space c"
  by (auto simp: is_digit_def is_space_nat)

lemma validTTL_range:
  assumes "list_all is_digit a" and "list_all is_digit b" and "a \<noteq> []" and "b \<noteq> []"
  shows "validTTLRewriteValue (a @ ''-'' @ b) \<longleftrightarrow> sint (mustAtoi a) \<le> sint (mustAtoi b)"
proof -
  have n: "CHR ''-'' \<notin> set a" "CHR ''-'' \<notin> set b" using assms(1,2) by (auto simp: list_all_iff is_digit_def)
  have sp: "\<not> is_space (CHR ''-'')" by (simp add: is_space_def)
  have "TrimSpace (a @ ''-'' @ b) = a @ ''-'' @ b"
    by (rule TrimSpace_no_space) (use assms(1,2) sp in \<open>auto simp: list_all_iff digit_not_space\<close>)
  moreover have "Split (CHR ''-'') (a @ ''-'' @ b) = [a, b]"
    using n by (simp add: Split_append_sep Split_no_sep)
  ultimately show ?thesis using assms by (auto simp: validTTLRewriteValue_def validTTLNumber_def Let_def)
qed

section \<open>Valid configurations\<close>

text \<open>
  What a valid configuration is, stated on the fields alone. Settings with a few values are read without case and surrounding white space, and may be empty.
\<close>

definition setting_in :: "string \<Rightarrow> string set \<Rightarrow> bool" where
  "setting_in s values \<longleftrightarrow> ToLower (TrimSpace s) \<in> insert [] values"

text \<open>Text that stands for one token of the Corefile, as far as \<open>validCorefileToken\<close> goes.\<close>

definition one_token :: "string \<Rightarrow> bool" where
  "one_token s \<longleftrightarrow> set s \<inter> set [CHR '' '', CHR 0x09, CHR 0x0A, CHR 0x0D, CHR ''{'', CHR ''}''] = {}"

text \<open>A token of a rewrite rule: not empty, no white space inside, and not a brace alone.\<close>

definition rewrite_token :: "string \<Rightarrow> bool" where
  "rewrite_token s \<longleftrightarrow> TrimSpace s \<notin> {[], ''{'', ''}''} \<and> (\<forall>ch \<in> set (TrimSpace s). \<not> is_space ch)"

definition number_text :: "string \<Rightarrow> bool" where
  "number_text s \<longleftrightarrow> s \<noteq> [] \<and> (\<forall>ch \<in> set s. ch \<in> set ''0123456789'')"

text \<open>The value of a number as a Go \<open>int\<close>: it wraps around at 64 bits.\<close>

definition go_int_of :: "string \<Rightarrow> int" where
  "go_int_of s = sint (of_int (digits_value s) :: 64 word)"

definition ttl_text :: "string \<Rightarrow> bool" where
  "ttl_text s \<longleftrightarrow> number_text s \<or>
     (\<exists>a b. s = a @ CHR ''-'' # b \<and> (a = [] \<or> number_text a) \<and> (b = [] \<or> number_text b) \<and> (a \<noteq> [] \<or> b \<noteq> []) \<and>
        (a \<noteq> [] \<and> b \<noteq> [] \<longrightarrow> go_int_of a \<le> go_int_of b))"

definition rcode_text :: "config_lib \<Rightarrow> string \<Rightarrow> bool" where
  "rcode_text lib s \<longleftrightarrow> s \<noteq> [] \<and> (lib_StringToRcode lib s \<or> number_text s \<and> lib_RcodeToString lib (go_int_of s))"

definition regex_ok :: "config_lib \<Rightarrow> string \<Rightarrow> bool" where
  "regex_ok lib pattern \<longleftrightarrow> length pattern \<le> 10000 \<and> lib_Compile lib pattern"

definition match_ok :: "config_lib \<Rightarrow> rewrite_rule \<Rightarrow> bool" where
  "match_ok lib r \<longleftrightarrow> setting_in (rw_Match r) {''exact'', ''prefix'', ''suffix'', ''substring'', ''regex''} \<and> rewrite_token (rw_From r) \<and>
     (ToLower (TrimSpace (rw_Match r)) = ''regex'' \<longrightarrow> regex_ok lib (rw_From r))"

definition answer_ok :: "config_lib \<Rightarrow> rewrite_rule \<Rightarrow> bool" where
  "answer_ok lib r \<longleftrightarrow> setting_in (rw_AnswerMode r) {''none'', ''auto'', ''name'', ''value''} \<and>
     (ToLower (TrimSpace (rw_AnswerMode r)) \<in> {''name'', ''value''} \<longrightarrow>
        rewrite_token (rw_AnswerFrom r) \<and> rewrite_token (rw_AnswerTo r) \<and> regex_ok lib (rw_AnswerFrom r))"

definition rewrite_ok :: "config_lib \<Rightarrow> rewrite_rule \<Rightarrow> bool" where
  "rewrite_ok lib r \<longleftrightarrow> setting_in (rw_Mode r) {''stop'', ''continue''} \<and>
     (ToLower (TrimSpace (rw_Field r)) = ''name'' \<and> match_ok lib r \<and> rewrite_token (rw_To r) \<and> answer_ok lib r \<or>
      ToLower (TrimSpace (rw_Field r)) = ''type'' \<and>
        lib_StringToType lib (ToUpper (TrimSpace (rw_From r))) \<and> lib_StringToType lib (ToUpper (TrimSpace (rw_To r))) \<or>
      ToLower (TrimSpace (rw_Field r)) = ''ttl'' \<and> match_ok lib r \<and> ttl_text (TrimSpace (rw_To r)) \<or>
      ToLower (TrimSpace (rw_Field r)) = ''rcode'' \<and> match_ok lib r \<and>
        rcode_text lib (ToUpper (TrimSpace (rw_RCodeFrom r))) \<and> rcode_text lib (ToUpper (TrimSpace (rw_RCodeTo r))))"

definition server_ok :: "string \<Rightarrow> string \<Rightarrow> string \<Rightarrow> bool" where
  "server_ok address protocol tls_name \<longleftrightarrow>
     address \<noteq> [] \<and> one_token address \<and> setting_in protocol {''udp'', ''tcp'', ''tls'', ''https'', ''dns''} \<and> one_token tls_name"

definition cache_valid :: "dns_config \<Rightarrow> bool" where
  "cache_valid d \<longleftrightarrow>
     dc_CacheTTL d \<in> {0..1800} \<and> 0 \<le> dc_CachePrefetchAmount d \<and> 0 \<le> dc_CachePrefetchDuration d \<and> dc_CachePrefetchPercent d \<in> {0..100} \<and>
     (let legacy = dc_CacheSuccessTTL d \<le> 0 \<and> dc_CacheDenialTTL d \<le> 0;
          success = (if legacy then dc_CacheTTL d else dc_CacheSuccessTTL d);
          denial = (if legacy then dc_CacheTTL d else dc_CacheDenialTTL d) in
      success = 0 \<and> denial = 0 \<or>
      success \<in> {1..3600} \<and> denial \<in> {1..1800} \<and> 1024 \<le> dc_CacheSuccessCapacity d \<and> 1024 \<le> dc_CacheDenialCapacity d)"

definition dns_valid :: "config_lib \<Rightarrow> dns_config \<Rightarrow> bool" where
  "dns_valid lib d \<longleftrightarrow>
     dc_Listen d \<noteq> [] \<and> cache_valid d \<and>
     setting_in (ds_Mode (dc_DNSSEC d)) (if ds_Enabled (dc_DNSSEC d) then {''upstream''} else {''off''}) \<and>
     (\<exists>r \<in> set (dc_Resolvers d). rs_Enabled r) \<and>
     (\<forall>r \<in> set (dc_Resolvers d). rs_Enabled r \<longrightarrow> server_ok (rs_Address r) (rs_Protocol r) (rs_TLSServerName r)) \<and>
     (\<forall>r \<in> set (dc_Resolvers d). \<forall>r' \<in> set (dc_Resolvers d). rs_Enabled r \<and> rs_Enabled r' \<longrightarrow>
        (ToLower (TrimSpace (rs_Protocol r)) = ''tcp'') = (ToLower (TrimSpace (rs_Protocol r')) = ''tcp'')) \<and>
     (let f = dc_ConditionalForwarding d in cf_Enabled f \<longrightarrow>
        cf_Domain f \<noteq> [] \<and> one_token (cf_Domain f) \<and> server_ok (cf_Resolver f) (cf_Protocol f) (cf_TLSServerName f)) \<and>
     (\<forall>r \<in> set (dc_Rewrites d). rw_Enabled r \<longrightarrow> rewrite_ok lib r)"

definition config_ok :: "config_lib \<Rightarrow> config \<Rightarrow> bool" where
  "config_ok lib c \<longleftrightarrow>
     dns_valid lib (cfg_DNS c) \<and> cfg_AdminListen c \<noteq> [] \<and> sc_Path (cfg_Storage c) \<noteq> [] \<and> sc_AuditPath (cfg_Storage c) \<noteq> [] \<and>
     1 \<le> sc_MainReadConnections (cfg_Storage c) \<and> 1 \<le> sc_AuditReadConnections (cfg_Storage c) \<and> 1 \<le> sc_SessionReadConnections (cfg_Storage c) \<and>
     setting_in (lc_Level (cfg_Logging c)) {''debug'', ''info'', ''warn'', ''warning'', ''error''} \<and>
     setting_in (lc_Format (cfg_Logging c)) {''text'', ''json''} \<and>
     bc_Response (cfg_Blocking c) \<in> {''nxdomain'', ''null-ip'', ''refused''} \<and>
     (bc_PauseUntil (cfg_Blocking c) = [] \<or> time_Parse (lib_lenientNano lib) (bc_PauseUntil (cfg_Blocking c)) \<noteq> None \<or>
        time_Parse (lib_lenient lib) (bc_PauseUntil (cfg_Blocking c)) \<noteq> None)"

subsection \<open>The checks decide it\<close>

lemma Split_one: "Split c s = [a] \<longleftrightarrow> s = a \<and> c \<notin> set a"
  by (metis Split_no_sep Split_append_sep Split_not_Nil append_is_Nil_conv append_eq_Cons_conv in_set_conv_decomp list.inject)

lemma Split_two: "Split c s = [a, b] \<longleftrightarrow> s = a @ c # b \<and> c \<notin> set a \<and> c \<notin> set b"
proof
  assume sp: "Split c s = [a, b]"
  then have "c \<in> set s" using Split_no_sep [of c s] by fastforce
  then obtain x y where s: "s = x @ c # y" and x: "c \<notin> set x" by (metis split_list_first)
  then have "[a, b] = x # Split c y" using sp by (simp add: Split_append_sep Split_no_sep)
  then show "s = a @ c # b \<and> c \<notin> set a \<and> c \<notin> set b" using s x by (simp add: eq_commute [of "[b]"] Split_one)
qed (simp add: Split_append_sep Split_no_sep)

lemma is_digit_set: "is_digit ch \<longleftrightarrow> ch \<in> set ''0123456789''"
proof -
  have digits: "(x \<le> 57 \<and> 48 \<le> x) = (x \<in> {48, 49, 50, 51, 52, 53, 54, 55, 56, 57})" for x :: nat by simp presburger
  have "ch \<in> set ''0123456789'' \<longleftrightarrow> (of_char ch :: nat) \<in> {48, 49, 50, 51, 52, 53, 54, 55, 56, 57}"
    unfolding list.set insert_iff empty_iff char_eq_nat by simp
  then show ?thesis using digits [of "of_char ch"] by (auto simp: is_digit_def)
qed

lemma number_text: "number_text s \<longleftrightarrow> validTTLNumber s"
  by (simp add: number_text_def validTTLNumber_def list_all_iff is_digit_set)

lemma ttl_text:
  assumes "TrimSpace v = v"
  shows "validTTLRewriteValue v \<longleftrightarrow> ttl_text v"
proof -
  let ?parts = "Split (CHR ''-'') v"
  have dash: "number_text a \<Longrightarrow> CHR ''-'' \<notin> set a" for a by (auto simp: number_text validTTLNumber_def list_all_iff is_digit_def)
  have part: "a = [] \<or> number_text a \<Longrightarrow> CHR ''-'' \<notin> set a" for a using dash by auto
  have two: "ttl_text v \<longleftrightarrow> number_text v \<or> (\<exists>a b. ?parts = [a, b] \<and> (a = [] \<or> number_text a) \<and> (b = [] \<or> number_text b) \<and>
      (a \<noteq> [] \<or> b \<noteq> []) \<and> (a \<noteq> [] \<and> b \<noteq> [] \<longrightarrow> go_int_of a \<le> go_int_of b))"
    unfolding ttl_text_def Split_two using part by blast
  have val: "go_int_of a = sint (mustAtoi a)" for a by (simp add: go_int_of_def mustAtoi_value)
  note code = validTTLRewriteValue_def [of v, unfolded assms Let_def]
  consider "v = []" | a where "v \<noteq> []" "?parts = [a]" | a b where "v \<noteq> []" "?parts = [a, b]"
    | a b c cs where "v \<noteq> []" "?parts = a # b # c # cs"
    by (metis Split_not_Nil neq_Nil_conv)
  then show ?thesis
  proof cases
    case 1
    then show ?thesis unfolding code two by (simp add: number_text_def)
  next
    case (2 a)
    moreover have "a = v" using 2(2) Split_one by metis
    ultimately show ?thesis by (simp add: code two number_text)
  next
    case (3 a b)
    have "CHR ''-'' \<in> set v" using 3(2) by (simp add: Split_two)
    then have "\<not> number_text v" using dash by blast
    then show ?thesis using 3 by (auto simp: code two number_text val)
  next
    case (4 a b c cs)
    have "\<not> number_text v" using 4(2) dash Split_no_sep by fastforce
    then show ?thesis using 4 by (simp add: code two)
  qed
qed

lemma rcode_text: "validRCodeRewriteValue lib s \<longleftrightarrow> rcode_text lib (ToUpper (TrimSpace s))"
  by (auto simp: validRCodeRewriteValue_def rcode_text_def Let_def number_text validTTLNumber_def go_int_of_def mustAtoi_value)

lemma rewrite_token: "validateRewriteToken field s = ok \<longleftrightarrow> rewrite_token s"
  by (auto simp: validateRewriteToken_def rewrite_token_def Let_def list_ex_iff)

lemma regex_ok: "validateRewriteRegex lib m pattern = ok \<longleftrightarrow> (m = ''regex'' \<longrightarrow> regex_ok lib pattern)"
  by (auto simp: validateRewriteRegex_def regex_ok_def)

lemma rewrite_match:
  "validateRewriteMatch (EffectiveMatch r) = ok \<longleftrightarrow> setting_in (rw_Match r) {''exact'', ''prefix'', ''suffix'', ''substring'', ''regex''}"
  "EffectiveMatch r = ''regex'' \<longleftrightarrow> ToLower (TrimSpace (rw_Match r)) = ''regex''"
  by (auto simp: validateRewriteMatch_def EffectiveMatch_def setting_in_def lower_trim_def Let_def)

lemma name_rewrite: "validateNameRewrite lib r = ok \<longleftrightarrow> match_ok lib r \<and> rewrite_token (rw_To r) \<and> answer_ok lib r"
  by (auto simp: validateNameRewrite_def match_ok_def answer_ok_def rewrite_match rewrite_token regex_ok Let_def lower_trim_def setting_in_def)

lemma type_rewrite: "validateTypeRewrite lib r = ok \<longleftrightarrow>
    lib_StringToType lib (ToUpper (TrimSpace (rw_From r))) \<and> lib_StringToType lib (ToUpper (TrimSpace (rw_To r)))"
  by (simp add: validateTypeRewrite_def)

lemma ttl_rewrite: "validateTTLRewrite lib r = ok \<longleftrightarrow> match_ok lib r \<and> ttl_text (TrimSpace (rw_To r))"
  by (auto simp: validateTTLRewrite_def match_ok_def rewrite_match rewrite_token regex_ok ttl_text [OF TrimSpace_idem])

lemma rcode_rewrite: "validateRCodeRewrite lib r = ok \<longleftrightarrow> match_ok lib r \<and>
    rcode_text lib (ToUpper (TrimSpace (rw_RCodeFrom r))) \<and> rcode_text lib (ToUpper (TrimSpace (rw_RCodeTo r)))"
  by (auto simp: validateRCodeRewrite_def match_ok_def rewrite_match rewrite_token regex_ok rcode_text)

lemma rewrite_ok: "rewrite_Validate lib r = ok \<longleftrightarrow> (rw_Enabled r \<longrightarrow> rewrite_ok lib r)"
proof -
  have mode: "supportedRewriteMode (EffectiveMode r) \<longleftrightarrow> setting_in (rw_Mode r) {''stop'', ''continue''}"
    by (auto simp: supportedRewriteMode_def EffectiveMode_def setting_in_def lower_trim_def Let_def)
  show ?thesis
    unfolding rewrite_Validate_def rewrite_ok_def mode [symmetric] Let_def lower_trim_def
    by (simp add: name_rewrite type_rewrite ttl_rewrite rcode_rewrite split: if_split)
qed

lemma one_token: "validCorefileToken s \<longleftrightarrow> one_token s"
  by (auto simp: validCorefileToken_def one_token_def token_breakers_def list_ex_iff)

lemma server_ok:
  "address \<noteq> [] \<and> validCorefileToken address \<and> supportedResolverProtocol (normalizedResolverProtocol protocol) \<and>
     (name \<noteq> [] \<longrightarrow> validCorefileToken name) \<longleftrightarrow> server_ok address protocol name"
  by (auto simp: server_ok_def one_token supportedResolverProtocol_def normalizedResolverProtocol_def lower_trim_def setting_in_def one_token_def)

lemma resolvers_valid:
  "resolvers_ok rs \<longleftrightarrow> (\<exists>r \<in> set rs. rs_Enabled r) \<and>
     (\<forall>r \<in> set rs. rs_Enabled r \<longrightarrow> server_ok (rs_Address r) (rs_Protocol r) (rs_TLSServerName r)) \<and>
     (\<forall>r \<in> set rs. \<forall>r' \<in> set rs. rs_Enabled r \<and> rs_Enabled r' \<longrightarrow>
        (ToLower (TrimSpace (rs_Protocol r)) = ''tcp'') = (ToLower (TrimSpace (rs_Protocol r')) = ''tcp''))"
proof -
  have r: "resolver_ok r = server_ok (rs_Address r) (rs_Protocol r) (rs_TLSServerName r)" for r
    unfolding resolver_ok_def by (rule server_ok)
  have t: "is_tcp r = (ToLower (TrimSpace (rs_Protocol r)) = ''tcp'')" for r
    by (simp add: is_tcp_def normalizedResolverProtocol_def lower_trim_def)
  show ?thesis by (auto simp: resolvers_ok_def Let_def filter_empty_conv list_all_iff r t)
qed

lemma conditional_valid:
  "conditional_ok f \<longleftrightarrow> (cf_Enabled f \<longrightarrow>
     cf_Domain f \<noteq> [] \<and> one_token (cf_Domain f) \<and> server_ok (cf_Resolver f) (cf_Protocol f) (cf_TLSServerName f))"
  by (auto simp: conditional_ok_def one_token server_ok [symmetric])

lemma cache_valid: "0 \<le> dc_CacheTTL d \<and> dc_CacheTTL d \<le> 1800 \<and> cache_ok d \<longleftrightarrow> cache_valid d"
  by (auto simp: cache_ok_def cache_valid_def EffectiveCacheSuccessTTL_def EffectiveCacheDenialTTL_def CacheEnabled_def Let_def)

lemma dnssec_valid:
  "dnssec_Validate d = ok \<longleftrightarrow> setting_in (ds_Mode d) (if ds_Enabled d then {''upstream''} else {''off''})"
  by (auto simp: dnssec_Validate_def NormalizedMode_def setting_in_def lower_trim_def dnssec_consts Let_def)

lemma logging_valid:
  "supportedLoggingLevel s \<longleftrightarrow> setting_in s {''debug'', ''info'', ''warn'', ''warning'', ''error''}"
  "supportedLoggingFormat s \<longleftrightarrow> setting_in s {''text'', ''json''}"
  by (simp_all add: supportedLoggingLevel_def supportedLoggingFormat_def setting_in_def logging_consts lower_trim_def)

lemma Validate_config_ok: "Validate lib c = ok \<longleftrightarrow> config_ok lib c"
  unfolding Validate_ok_iff config_checks_def config_ok_def dns_valid_def dnssec_valid resolvers_valid conditional_valid logging_valid
    cache_valid [symmetric] rewrite_ok list_all_iff Let_def BlockingResponseNXDOMAIN_def BlockingResponseNullIP_def BlockingResponseRefused_def
  by blast

section \<open>Properties\<close>

text \<open>
  C14: \<open>Validate\<close> accepts exactly the valid configurations: required fields, positive pools, TTLs, capacities and prefetch
  within their bounds, a DNSSEC mode that agrees with its switch, an enabled resolver, resolvers that are all TCP or none, known protocols and tokens
  without white space or braces, rewrite rules whose mode, field, match, tokens, patterns, TTL ranges and response codes are valid,
  known log settings, one of three blocking responses and a timestamp for the end of a pause. Numbers in rewrite rules are read as 64-bit integers.
\<close>

theorem Validate_iff_config_ok:
  "Validate lib c = Inr () \<longleftrightarrow> config_ok lib c"
  by (rule Validate_config_ok)

text \<open>
  The bounds of a TTL rewrite are compared as numbers: a range of two numbers of at most eighteen digits is
  accepted exactly when its minimum does not exceed its maximum.
\<close>

theorem ttl_range_compares_numbers:
  assumes "list_all is_digit a" and "list_all is_digit b" and "a \<noteq> []" and "b \<noteq> []" and "length a \<le> 18" and "length b \<le> 18"
  shows "validTTLRewriteValue (a @ ''-'' @ b) \<longleftrightarrow> digits_value a \<le> digits_value b"
  using validTTL_range [OF assms(1-4)] sint_mustAtoi [OF assms(1,5)] sint_mustAtoi [OF assms(2,6)] by simp

theorem ttl_range_compares_numbers_witness:
  "validTTLRewriteValue ''30-3600'' \<and> \<not> validTTLRewriteValue ''3600-30''"
proof -
  have d: "list_all is_digit ''30''" "list_all is_digit ''3600''" by (simp_all add: is_digit_def)
  have v: "digits_value ''30'' = 30" "digits_value ''3600'' = 3600" by (simp_all add: digits_value_def)
  show ?thesis
    using ttl_range_compares_numbers [OF d] ttl_range_compares_numbers [OF d(2,1)] v by simp
qed

text \<open>
  Longer numbers wrap around: the minimum 2 to the 64 counts as zero, so a TTL range whose minimum exceeds
  its maximum is accepted, and the same number is accepted as the response code zero.
\<close>

theorem ttl_range_wraps_around:
  "validTTLRewriteValue ''18446744073709551616-5'' \<and>
   validRCodeRewriteValue \<lparr>lib_StringToType = \<lambda>_. False, lib_StringToRcode = \<lambda>_. False, lib_RcodeToString = \<lambda>n. n = 0,
     lib_Compile = \<lambda>_. True, lib_lenientNano = \<lambda>_. None, lib_lenient = \<lambda>_. None\<rparr> ''18446744073709551616''"
proof -
  have d: "list_all is_digit ''18446744073709551616''" "list_all is_digit ''5''" by (simp_all add: is_digit_def)
  have v: "digits_value ''18446744073709551616'' = 2 ^ 64" "digits_value ''5'' = 5" by (simp_all add: digits_value_def)
  have z: "mustAtoi ''18446744073709551616'' = 0" "mustAtoi ''5'' = 5" by (simp_all add: mustAtoi_value v)
  have t: "TrimSpace ''18446744073709551616'' = ''18446744073709551616''"
    by (rule TrimSpace_no_space) (simp add: is_space_def)
  have u: "ToUpper ''18446744073709551616'' = ''18446744073709551616''" by code_simp
  show ?thesis using validTTL_range [OF d] z d(1) by (simp add: validRCodeRewriteValue_def t u Let_def)
qed

text \<open>A library for the examples, with which the defaults are valid.\<close>

definition demo_lib :: config_lib where
  "demo_lib = \<lparr>lib_StringToType = \<lambda>t. t \<in> {''A'', ''AAAA''}, lib_StringToRcode = \<lambda>t. t \<in> {''NXDOMAIN'', ''REFUSED''},
     lib_RcodeToString = \<lambda>n. 0 \<le> n \<and> n \<le> 5, lib_Compile = \<lambda>_. True, lib_lenientNano = \<lambda>_. None, lib_lenient = \<lambda>_. None\<rparr>"

lemma Default_valid: "Validate lib Default = Inr ()"
proof -
  have "lower_trim ''info'' = ''info''" "lower_trim ''text'' = ''text''" "lower_trim ''udp'' = ''udp''" "lower_trim ''off'' = ''off''"
    by code_simp+
  then show ?thesis
    unfolding Validate_ok_iff config_checks_def
    by (simp add: Default_def default_dns_def config_consts logging_consts dnssec_consts supportedLoggingLevel_def
        supportedLoggingFormat_def cache_ok_def EffectiveCacheSuccessTTL_def EffectiveCacheDenialTTL_def dnssec_Validate_def
        NormalizedMode_def resolvers_ok_def resolver_ok_def is_tcp_def conditional_ok_def validCorefileToken_def token_breakers_def
        normalizedResolverProtocol_def supportedResolverProtocol_def)
qed

end
