(* ===== verification/Corefile.thy ===== *)
theory Corefile
  imports Config Net_Hostport Netip
begin

text \<open>
  \<open>internal/coredns/corefile.go\<close>: the text of the Corefile that CoreDNS is started with. The writers append to
  a \<open>strings.Builder\<close>; here each returns what it appends. \<open>corefile_lines\<close> is the configuration that the text
  is meant to be, as indented lines of tokens: the text is its rendering, and reading the text back by
  lines and white space, as the Caddy lexer does for unquoted tokens, gives the same tokens.
\<close>

definition nl :: string where
  "nl = [CHR 0x0A]"

definition open_block :: string where
  "open_block = [CHR 0x7B]"

definition close_block :: string where
  "close_block = [CHR 0x7D]"

section \<open>The writers\<close>

text \<open>The verb \<open>%q\<close> of a text of printable ASCII characters.\<close>

definition quoted :: "string \<Rightarrow> string" where
  "quoted s = [CHR 0x22] @ concat (map (\<lambda>c. if c = CHR 0x22 \<or> c = CHR 0x5C then [CHR 0x5C, c] else [c]) s) @ [CHR 0x22]"

definition json_field :: "string \<Rightarrow> string \<Rightarrow> string" where
  "json_field key val = [CHR 0x22] @ key @ [CHR 0x22] @ '':'' @ [CHR 0x22] @ val @ [CHR 0x22]"

definition braces :: "string \<Rightarrow> string" where
  "braces s = open_block @ s @ close_block"

definition coreDNSJSONLogFormat :: string where
  "coreDNSJSONLogFormat = braces (Join
     [json_field ''component'' ''coredns'', json_field ''msg'' ''dns_query'', json_field ''remote'' (braces ''remote''),
      json_field ''port'' (braces ''port''), json_field ''id'' (braces ''>id''), json_field ''type'' (braces ''type''),
      json_field ''class'' (braces ''class''), json_field ''name'' (braces ''name''), json_field ''proto'' (braces ''proto''),
      json_field ''size'' (braces ''size''), json_field ''dnssec_do'' (braces ''>do''), json_field ''bufsize'' (braces ''>bufsize''),
      json_field ''rcode'' (braces ''rcode''), json_field ''rflags'' (braces ''>rflags''), json_field ''response_size'' (braces ''rsize''),
      json_field ''duration'' (braces ''duration''), json_field ''response_class'' (braces ''/log/class''),
      json_field ''response_type'' (braces ''/log/type'')] '','')"

definition writeQueryLogging :: "bool \<Rightarrow> string" where
  "writeQueryLogging jsonFormat =
     (if jsonFormat then ''    log . '' @ quoted coreDNSJSONLogFormat @ nl else ''    log'' @ nl)"

definition writeErrorLogging :: "bool \<Rightarrow> string" where
  "writeErrorLogging debug =
     (if debug then ''    errors '' @ open_block @ nl @ ''        stacktrace'' @ nl @ ''    '' @ close_block @ nl
      else ''    errors'' @ nl)"

record forward_resolver =
  fr_Address :: string
  fr_Protocol :: string
  fr_TLSServerName :: string
  fr_Enabled :: bool

definition forwardResolversFromConfig :: "resolver list \<Rightarrow> forward_resolver list" where
  "forwardResolversFromConfig rs =
     map (\<lambda>r. \<lparr>fr_Address = rs_Address r, fr_Protocol = rs_Protocol r, fr_TLSServerName = rs_TLSServerName r, fr_Enabled = rs_Enabled r\<rparr>) rs"

definition tlsTarget :: "string \<Rightarrow> string \<Rightarrow> string" where
  "tlsTarget address serverName =
     (if serverName = [] \<or> Contains address ''%'' then address
      else
        let closing = takeWhile (\<lambda>c. c \<noteq> CHR '']'') address in
        if HasPrefix address ''['' \<and> CHR '']'' \<in> set address \<and> length closing > 0 then
          closing @ ''%'' @ serverName @ drop (length closing) address
        else case SplitHostPort address of
          Some (host, port) \<Rightarrow> JoinHostPort (host @ ''%'' @ serverName) port
        | None \<Rightarrow>
            (if (case ParseAddr address of None \<Rightarrow> False | Some a \<Rightarrow> addr_Is6 a)
             then ''['' @ address @ ''%'' @ serverName @ '']''
             else address @ ''%'' @ serverName))"

definition resolverTarget :: "forward_resolver \<Rightarrow> string" where
  "resolverTarget r =
     (if Contains (fr_Address r) ''://'' then fr_Address r
      else let p = lower_trim (fr_Protocol r) in
        if p = ''tls'' then ''tls://'' @ tlsTarget (fr_Address r) (fr_TLSServerName r)
        else if p = ''https'' then ''https://'' @ fr_Address r
        else if p = ''dns'' then ''dns://'' @ fr_Address r
        else fr_Address r)"

text \<open>The loop of \<open>writeForward\<close>: what it appends and \<open>forceTCP\<close>.\<close>

fun forward_loop :: "bool \<Rightarrow> forward_resolver list \<Rightarrow> string \<times> bool" where
  "forward_loop forceTCP [] = ([], forceTCP)"
| "forward_loop forceTCP (r # rs) =
     (if \<not> fr_Enabled r then forward_loop forceTCP rs
      else case forward_loop (forceTCP \<or> lower_trim (fr_Protocol r) = ''tcp'') rs of
        (b, tcp) \<Rightarrow> ('' '' @ resolverTarget r @ b, tcp))"

definition writeForward :: "string \<Rightarrow> forward_resolver list \<Rightarrow> string" where
  "writeForward from rs =
     (case forward_loop False rs of (b, forceTCP) \<Rightarrow>
        ''    forward '' @ from @ b @
        (if forceTCP then '' '' @ open_block @ nl @ ''        force_tcp'' @ nl @ ''    '' @ close_block @ nl else nl))"

definition writeNameRewrite :: "rewrite_rule \<Rightarrow> string" where
  "writeNameRewrite r =
     ''    rewrite '' @ EffectiveMode r @ '' name '' @ EffectiveMatch r @ '' '' @ TrimSpace (rw_From r) @ '' '' @ TrimSpace (rw_To r) @
     (let mode = lower_trim (rw_AnswerMode r) in
      if mode = ''auto'' then '' answer auto''
      else if mode = ''name'' \<or> mode = ''value'' then
        '' answer '' @ mode @ '' '' @ TrimSpace (rw_AnswerFrom r) @ '' '' @ TrimSpace (rw_AnswerTo r)
      else []) @ nl"

definition writeRewrite :: "rewrite_rule \<Rightarrow> string" where
  "writeRewrite r =
     (if \<not> rw_Enabled r then []
      else let field = lower_trim (rw_Field r) in
        if field = ''name'' then writeNameRewrite r
        else if field = ''type'' then
          ''    rewrite '' @ EffectiveMode r @ '' type '' @ ToUpper (TrimSpace (rw_From r)) @ '' '' @ ToUpper (TrimSpace (rw_To r)) @ nl
        else if field = ''ttl'' then
          ''    rewrite '' @ EffectiveMode r @ '' ttl '' @ EffectiveMatch r @ '' '' @ TrimSpace (rw_From r) @ '' '' @ TrimSpace (rw_To r) @ nl
        else if field = ''rcode'' then
          ''    rewrite '' @ EffectiveMode r @ '' rcode '' @ EffectiveMatch r @ '' '' @ TrimSpace (rw_From r) @ '' '' @
            ToUpper (TrimSpace (rw_RCodeFrom r)) @ '' '' @ ToUpper (TrimSpace (rw_RCodeTo r)) @ nl
        else [])"

definition writeRewrites :: "rewrite_rule list \<Rightarrow> string" where
  "writeRewrites rs = concat (map writeRewrite rs)"

definition zoneAddress :: "string \<Rightarrow> string" where
  "zoneAddress listen =
     (if HasPrefix listen '':'' then ''.'' @ listen
      else case SplitHostPort listen of
        None \<Rightarrow> ''.:'' @ listen
      | Some (host, port) \<Rightarrow> if port = [] then ''.:'' @ listen else ''.:'' @ port)"

definition writeCache :: "dns_config \<Rightarrow> string" where
  "writeCache d =
     (if \<not> CacheEnabled d then []
      else ''    cache '' @ open_block @ nl @
        ''        success '' @ Itoa (dc_CacheSuccessCapacity d) @ '' '' @ Itoa (EffectiveCacheSuccessTTL d) @ nl @
        ''        denial '' @ Itoa (dc_CacheDenialCapacity d) @ '' '' @ Itoa (EffectiveCacheDenialTTL d) @ nl @
        (if dc_CachePrefetchAmount d > 0 then
           ''        prefetch '' @ Itoa (dc_CachePrefetchAmount d) @ '' '' @ Itoa (dc_CachePrefetchDuration d) @ ''s '' @
             Itoa (dc_CachePrefetchPercent d) @ ''%'' @ nl
         else []) @
        ''    '' @ close_block @ nl)"

definition Corefile :: "config \<Rightarrow> string" where
  "Corefile cfg =
     (let d = cfg_DNS cfg; debug = (EffectiveLevel (cfg_Logging cfg) = LoggingLevelDebug) in
      zoneAddress (dc_Listen d) @ '' '' @ open_block @ nl @
      writeErrorLogging debug @
      (if debug then writeQueryLogging (EffectiveFormat (cfg_Logging cfg) = LoggingFormatJSON) else []) @
      ''    metadata'' @ nl @
      ''    corehole'' @ nl @
      writeCache d @
      (if dnssec_EffectiveMode (dc_DNSSEC d) = DNSSECModeUpstream then ''    corehole_dnssec upstream'' @ nl else []) @
      (if cf_Enabled (dc_ConditionalForwarding d) then
         writeForward (cf_Domain (dc_ConditionalForwarding d))
           [\<lparr>fr_Address = cf_Resolver (dc_ConditionalForwarding d), fr_Protocol = cf_Protocol (dc_ConditionalForwarding d),
             fr_TLSServerName = cf_TLSServerName (dc_ConditionalForwarding d), fr_Enabled = True\<rparr>]
       else []) @
      writeRewrites (dc_Rewrites d) @
      writeForward ''.'' (forwardResolversFromConfig (dc_Resolvers d)) @
      close_block @ nl)"

section \<open>Lines of tokens\<close>

type_synonym corefile_line = "nat \<times> string list"

definition render_line :: "corefile_line \<Rightarrow> string" where
  "render_line l = (case l of (indent, toks) \<Rightarrow> replicate indent (CHR '' '') @ Join toks '' '' @ nl)"

definition render :: "corefile_line list \<Rightarrow> string" where
  "render ls = concat (map render_line ls)"

definition error_lines :: "bool \<Rightarrow> corefile_line list" where
  "error_lines debug = (if debug then [(4, [''errors'', open_block]), (8, [''stacktrace'']), (4, [close_block])] else [(4, [''errors''])])"

definition query_lines :: "bool \<Rightarrow> bool \<Rightarrow> corefile_line list" where
  "query_lines debug json = (if \<not> debug then [] else if json then [(4, [''log'', ''.'', quoted coreDNSJSONLogFormat])] else [(4, [''log''])])"

definition cache_lines :: "dns_config \<Rightarrow> corefile_line list" where
  "cache_lines d =
     (if \<not> CacheEnabled d then []
      else [(4, [''cache'', open_block]),
            (8, [''success'', Itoa (dc_CacheSuccessCapacity d), Itoa (EffectiveCacheSuccessTTL d)]),
            (8, [''denial'', Itoa (dc_CacheDenialCapacity d), Itoa (EffectiveCacheDenialTTL d)])] @
           (if dc_CachePrefetchAmount d > 0
            then [(8, [''prefetch'', Itoa (dc_CachePrefetchAmount d), Itoa (dc_CachePrefetchDuration d) @ ''s'', Itoa (dc_CachePrefetchPercent d) @ ''%''])]
            else []) @
           [(4, [close_block])])"

text \<open>
  An upstream as the \<open>forward\<close> directive names it: the scheme of its protocol, unless the address brings one, and for TLS the name to verify, written
  behind the host and a percent sign, inside the brackets of an IPv6 host.
\<close>

definition is_ip6 :: "string \<Rightarrow> bool" where
  "is_ip6 s \<longleftrightarrow> (case ParseAddr s of Some (Addr6 gs zone) \<Rightarrow> True | _ \<Rightarrow> False)"

definition with_server_name :: "string \<Rightarrow> string \<Rightarrow> string" where
  "with_server_name address name =
     (let bare = (if is_ip6 address then ''['' @ address @ ''%'' @ name @ '']'' else address @ ''%'' @ name) in
      if name = [] \<or> CHR ''%'' \<in> set address then address
      else case Split (CHR '']'') address of
        host # rest # others \<Rightarrow>
          if HasPrefix host ''['' then Join ((host @ ''%'' @ name) # rest # others) '']'' else bare
      | _ \<Rightarrow>
          (case Split (CHR '':'') address of
             [host, port] \<Rightarrow> if CHR ''['' \<in> set address then bare else JoinHostPort (host @ ''%'' @ name) port
           | _ \<Rightarrow> bare))"

definition upstream_target :: "forward_resolver \<Rightarrow> string" where
  "upstream_target r =
     (if Contains (fr_Address r) ''://'' then fr_Address r
      else case map_of [(''tls'', (''tls://'', fr_TLSServerName r)), (''https'', (''https://'', [])), (''dns'', (''dns://'', []))]
             (ToLower (TrimSpace (fr_Protocol r))) of
        Some (scheme, name) \<Rightarrow> scheme @ with_server_name (fr_Address r) name
      | None \<Rightarrow> fr_Address r)"

text \<open>The zone is the root on the port of the listening address; an address without a port counts as a port.\<close>

definition listen_zone :: "string \<Rightarrow> string" where
  "listen_zone listen =
     ''.:'' @
     (case listen of
        c # rest \<Rightarrow> if c = CHR '':'' then rest
          else (case SplitHostPort listen of Some (host, p # port) \<Rightarrow> p # port | _ \<Rightarrow> listen)
      | [] \<Rightarrow> [])"

definition forward_targets :: "forward_resolver list \<Rightarrow> string list" where
  "forward_targets rs = map upstream_target (filter fr_Enabled rs)"

definition forward_lines :: "string \<Rightarrow> forward_resolver list \<Rightarrow> corefile_line list" where
  "forward_lines from rs =
     (if list_ex (\<lambda>r. lower_trim (fr_Protocol r) = ''tcp'') (filter fr_Enabled rs)
      then [(4, [''forward'', from] @ forward_targets rs @ [open_block]), (8, [''force_tcp'']), (4, [close_block])]
      else [(4, [''forward'', from] @ forward_targets rs)])"

definition rewrite_args :: "rewrite_rule \<Rightarrow> string list" where
  "rewrite_args r =
     (let field = lower_trim (rw_Field r) in
      if field = ''name'' then
        [''name'', EffectiveMatch r, TrimSpace (rw_From r), TrimSpace (rw_To r)] @
        (let mode = lower_trim (rw_AnswerMode r) in
         if mode = ''auto'' then [''answer'', ''auto'']
         else if mode = ''name'' \<or> mode = ''value'' then [''answer'', mode, TrimSpace (rw_AnswerFrom r), TrimSpace (rw_AnswerTo r)]
         else [])
      else if field = ''type'' then [''type'', ToUpper (TrimSpace (rw_From r)), ToUpper (TrimSpace (rw_To r))]
      else if field = ''ttl'' then [''ttl'', EffectiveMatch r, TrimSpace (rw_From r), TrimSpace (rw_To r)]
      else if field = ''rcode'' then
        [''rcode'', EffectiveMatch r, TrimSpace (rw_From r), ToUpper (TrimSpace (rw_RCodeFrom r)), ToUpper (TrimSpace (rw_RCodeTo r))]
      else [])"

definition rewrite_lines :: "rewrite_rule list \<Rightarrow> corefile_line list" where
  "rewrite_lines rs =
     map (\<lambda>r. (4, [''rewrite'', EffectiveMode r] @ rewrite_args r)) (filter (\<lambda>r. rw_Enabled r \<and> rewrite_args r \<noteq> []) rs)"

definition corefile_lines :: "config \<Rightarrow> corefile_line list" where
  "corefile_lines cfg =
     (let d = cfg_DNS cfg; debug = (EffectiveLevel (cfg_Logging cfg) = LoggingLevelDebug); f = dc_ConditionalForwarding d in
      [(0, [listen_zone (dc_Listen d), open_block])] @ error_lines debug @
      query_lines debug (EffectiveFormat (cfg_Logging cfg) = LoggingFormatJSON) @
      [(4, [''metadata'']), (4, [''corehole''])] @ cache_lines d @
      (if dnssec_EffectiveMode (dc_DNSSEC d) = DNSSECModeUpstream then [(4, [''corehole_dnssec'', ''upstream''])] else []) @
      (if cf_Enabled f then
         forward_lines (cf_Domain f)
           [\<lparr>fr_Address = cf_Resolver f, fr_Protocol = cf_Protocol f, fr_TLSServerName = cf_TLSServerName f, fr_Enabled = True\<rparr>]
       else []) @
      rewrite_lines (dc_Rewrites d) @ forward_lines ''.'' (forwardResolversFromConfig (dc_Resolvers d)) @ [(0, [close_block])])"

lemma render_simps [simp]: "render [] = []" "render (l # ls) = render_line l @ render ls" "render (ls @ ms) = render ls @ render ms"
  by (simp_all add: render_def)

lemma listen_zone: "zoneAddress listen = listen_zone listen"
  proof (cases listen)
  case Nil
  then show ?thesis by (simp add: zoneAddress_def listen_zone_def HasPrefix_def SplitHostPort_def LastColon_def)
qed (auto simp: zoneAddress_def listen_zone_def HasPrefix_def split: option.split prod.split list.split)

lemma SplitHostPort_colon:
  assumes "\<not> (HasPrefix s ''['' \<and> CHR '']'' \<in> set s)"
  shows "SplitHostPort s = (case Split (CHR '':'') s of [h, p] \<Rightarrow> if CHR ''['' \<in> set s \<or> CHR '']'' \<in> set s then None else Some (h, p) | _ \<Rightarrow> None)"
proof (cases "CHR '':'' \<in> set s")
  case False
  then show ?thesis by (simp add: SplitHostPort_def LastColon_def Split_no_sep)
next
  case True
  then obtain a b where s: "s = a @ CHR '':'' # b" and b: "CHR '':'' \<notin> set b" by (meson split_list_last)
  have l: "LastColon s = Some (a, b)" using LastColon_append [OF b, of a] s by simp
  have sp: "Split (CHR '':'') s = Split (CHR '':'') a @ [b]" using b by (simp add: s Split_append_sep Split_no_sep)
  have br: "HasPrefix s ''[''" if "hd s = CHR ''[''" using that True by (cases s) (auto simp: HasPrefix_def)
  have none: "SplitHostPort s = None" if "hd s = CHR ''[''"
    using that assms br by (simp add: SplitHostPort_def l Cut_def)
  have brs: "CHR ''['' \<in> set s" if "hd s = CHR ''[''" using that True by (cases s) auto
  show ?thesis
  proof (cases "CHR '':'' \<in> set a")
    case True
    then obtain x y where "a = x @ CHR '':'' # y" by (meson split_list)
    then obtain u us v vs where "Split (CHR '':'') a = (u # us) @ (v # vs)"
      using Split_append_sep [of "CHR '':''" x y] by (metis Split_not_Nil neq_Nil_conv)
    then have "(case Split (CHR '':'') s of [h, p] \<Rightarrow> if CHR ''['' \<in> set s \<or> CHR '']'' \<in> set s then None else Some (h, p) | _ \<Rightarrow> None) = None"
      unfolding sp by (cases us) (simp_all split: list.split)
    moreover have "SplitHostPort s = None" using True none by (cases "hd s = CHR ''[''") (simp_all add: SplitHostPort_def l)
    ultimately show ?thesis by simp
  next
    case False
    then have "Split (CHR '':'') s = [a, b]" by (simp add: sp Split_no_sep)
    then show ?thesis using False none brs by (cases "hd s = CHR ''[''") (simp_all add: SplitHostPort_def l)
  qed
qed

lemma with_server_name: "tlsTarget address name = with_server_name address name"
proof (cases "name = [] \<or> CHR ''%'' \<in> set address")
  case True
  moreover have "Contains address ''%'' \<longleftrightarrow> CHR ''%'' \<in> set address" unfolding Contains_iff by (auto dest: split_list)
  ultimately show ?thesis by (simp add: tlsTarget_def with_server_name_def)
next
  case plain: False
  have c: "\<not> Contains address ''%''" using plain unfolding Contains_iff by auto
  let ?bare = "if is_ip6 address then ''['' @ address @ ''%'' @ name @ '']'' else address @ ''%'' @ name"
  have bare: "(if (case ParseAddr address of None \<Rightarrow> False | Some a \<Rightarrow> addr_Is6 a) then ''['' @ address @ ''%'' @ name @ '']'' else address @ ''%'' @ name) = ?bare"
    by (auto simp: is_ip6_def split: option.splits addr.splits)
  show ?thesis
  proof (cases "HasPrefix address ''['' \<and> CHR '']'' \<in> set address")
    case True
    let ?h = "takeWhile (\<lambda>c. c \<noteq> CHR '']'') address"
    obtain x rest where x: "address = x @ CHR '']'' # rest" "CHR '']'' \<notin> set x" using True by (meson split_list_first)
    then have hx: "?h = x" by (simp add: takeWhile_append)
    have a: "address = ?h @ CHR '']'' # rest" unfolding hx by (rule x(1))
    have h: "?h \<noteq> []" "HasPrefix ?h ''[''" using True x unfolding hx by (cases x; auto simp: HasPrefix_def)+
    have "Split (CHR '']'') address = ?h # Split (CHR '']'') rest"
      unfolding hx using x(2) by (simp add: x(1) Split_append_sep Split_no_sep)
    moreover obtain r rs where r: "Split (CHR '']'') rest = r # rs" using Split_not_Nil by (metis neq_Nil_conv)
    ultimately have "with_server_name address name = (?h @ ''%'' @ name) @ '']'' @ Join (r # rs) '']''"
      using plain h by (simp add: with_server_name_def)
    also have "Join (r # rs) '']'' = rest" using Join_Split [of "CHR '']''" rest] r by simp
    finally have spec: "with_server_name address name = (?h @ ''%'' @ name) @ '']'' @ rest" .
    have "drop (length ?h) address = '']'' @ rest" unfolding hx by (simp add: x(1))
    then show ?thesis unfolding spec using plain c True h by (simp add: tlsTarget_def Let_def)
  next
    case False
    have code: "tlsTarget address name = (case SplitHostPort address of
         Some (host, port) \<Rightarrow> JoinHostPort (host @ ''%'' @ name) port | None \<Rightarrow> ?bare)"
      using plain c False bare by (auto simp: tlsTarget_def Let_def split: option.split)
    show ?thesis
    proof (cases "CHR '']'' \<in> set address")
      case True
      then obtain x y where "address = x @ CHR '']'' # y" and x: "CHR '']'' \<notin> set x" by (metis split_list_first)
      then obtain r rs where "Split (CHR '']'') address = x # r # rs"
        by (metis Split_append_sep Split_no_sep Split_not_Nil append_Cons append_Nil neq_Nil_conv)
      moreover have "\<not> HasPrefix x ''[''" using False True \<open>address = x @ CHR '']'' # y\<close> by (cases x) (simp_all add: HasPrefix_def)
      moreover have "SplitHostPort address = None" unfolding SplitHostPort_colon [OF False] using True by (simp split: list.split)
      ultimately show ?thesis using plain code by (simp add: with_server_name_def)
    next
      case nb: False
      then have "Split (CHR '']'') address = [address]" by (simp add: Split_no_sep)
      then show ?thesis using plain nb unfolding code SplitHostPort_colon [OF False] by (simp add: with_server_name_def split: list.split)
    qed
  qed
qed

lemma upstream_target: "resolverTarget r = upstream_target r"
  by (auto simp: resolverTarget_def upstream_target_def with_server_name [symmetric] lower_trim_def Let_def tlsTarget_def)

lemma forward_loop_spec:
  "forward_loop t rs = (concat (map (\<lambda>x. '' '' @ x) (forward_targets rs)), t \<or> list_ex (\<lambda>r. lower_trim (fr_Protocol r) = ''tcp'') (filter fr_Enabled rs))"
  by (induction t rs rule: forward_loop.induct) (auto simp: forward_targets_def upstream_target)

lemma Join_spaced: "Join (x # xs) '' '' = x @ concat (map (\<lambda>y. '' '' @ y) xs)"
  by (induction xs arbitrary: x) simp_all

lemma spaces [simp]: "replicate 4 (CHR '' '') = ''    ''" "replicate 8 (CHR '' '') = ''        ''"
  by (simp_all add: numeral_eq_Suc)

lemma writeForward_render: "writeForward from rs = render (forward_lines from rs)"
  by (simp add: writeForward_def forward_lines_def forward_loop_spec render_line_def Join_spaced)

lemma writeCache_render: "writeCache d = render (cache_lines d)"
  by (simp add: writeCache_def cache_lines_def render_line_def)

lemma writeRewrites_render: "writeRewrites rs = render (rewrite_lines rs)"
proof (induction rs)
  case (Cons r rs)
  have "writeRewrite r = render (rewrite_lines [r])"
    unfolding writeRewrite_def writeNameRewrite_def rewrite_lines_def rewrite_args_def Let_def
    by (simp add: render_line_def)
  moreover have "rewrite_lines (r # rs) = rewrite_lines [r] @ rewrite_lines rs" by (simp add: rewrite_lines_def)
  ultimately show ?case using Cons by (simp add: writeRewrites_def)
qed (simp add: writeRewrites_def rewrite_lines_def)

lemma Corefile_render: "Corefile cfg = render (corefile_lines cfg)"
  unfolding Corefile_def corefile_lines_def Let_def
  by (simp add: writeErrorLogging_def error_lines_def writeQueryLogging_def query_lines_def writeForward_render writeCache_render
      writeRewrites_render render_line_def listen_zone)

section \<open>Reading the text back\<close>

definition token :: "string \<Rightarrow> bool" where
  "token s \<longleftrightarrow> s \<noteq> [] \<and> list_all (\<lambda>c. \<not> is_space c) s"

lemma Fields_spaces: "list_all is_space i \<Longrightarrow> Fields (i @ s) = Fields s"
  by (induction i) (simp_all add: Fields.simps(2))

lemma Fields_token_end: "token s \<Longrightarrow> Fields s = [s]"
proof (cases s)
  case (Cons c t)
  assume t: "token s"
  have e: "takeWhile (\<lambda>c. \<not> is_space c) t = t" "dropWhile (\<lambda>c. \<not> is_space c) t = []"
    using t Cons by (auto simp: token_def list_all_iff takeWhile_eq_all_conv dropWhile_eq_Nil_conv)
  have "\<not> is_space c" using t Cons by (simp add: token_def)
  then show ?thesis unfolding Cons Fields.simps(2) e by simp
qed (simp add: token_def)

lemma Fields_token: "token s \<Longrightarrow> is_space c \<Longrightarrow> Fields (s @ c # rest) = s # Fields rest"
proof (cases s)
  case (Cons x t)
  assume t: "token s" and c: "is_space c"
  have n: "\<And>y. y \<in> set t \<Longrightarrow> \<not> is_space y" "\<not> is_space x" using t Cons by (auto simp: token_def list_all_iff)
  have "takeWhile (\<lambda>c. \<not> is_space c) (t @ c # rest) = t" using n c by (simp add: takeWhile_append)
  moreover have "dropWhile (\<lambda>c. \<not> is_space c) (t @ c # rest) = c # rest" using n c by (simp add: dropWhile_append)
  ultimately show ?thesis using Cons n c by (simp add: Fields.simps(2))
qed (simp add: token_def)

lemma is_space_blank [simp]: "is_space (CHR '' '')"
  by (simp add: is_space_def)

lemma Fields_Join: "list_all token toks \<Longrightarrow> Fields (Join toks '' '') = toks"
  by (induction toks rule: induct_list012) (simp_all add: Fields_token_end Fields_token)

lemma token_no_newline: "token s \<Longrightarrow> CHR 0x0A \<notin> set s"
  by (auto simp: token_def list_all_iff is_space_def)

lemma set_Join: "set (Join toks sep) \<subseteq> \<Union> (set ` set toks) \<union> set sep"
  by (induction toks rule: induct_list012) auto

definition line_ok :: "corefile_line \<Rightarrow> bool" where
  "line_ok l \<longleftrightarrow> list_all token (snd l)"

lemma Split_render:
  assumes "list_all line_ok ls"
  shows "map Fields (Split (CHR 0x0A) (render ls)) = map snd ls @ [[]]"
  using assms
proof (induction ls)
  case (Cons l ls)
  obtain i toks where l: "l = (i, toks)" by (cases l)
  have t: "list_all token toks" using Cons.prems l by (simp add: line_ok_def)
  let ?s = "replicate i (CHR '' '') @ Join toks '' ''"
  have no_nl: "CHR 0x0A \<notin> set ?s" using set_Join [of toks "'' ''"] t token_no_newline by (fastforce simp: list_all_iff)
  have "Split (CHR 0x0A) (?s @ CHR 0x0A # render ls) = ?s # Split (CHR 0x0A) (render ls)"
    unfolding Split_append_sep [of "CHR 0x0A" ?s] Split_no_sep [OF no_nl] by (simp only: append_Cons append_Nil)
  moreover have "Fields ?s = toks" using t by (simp add: Fields_spaces list_all_iff Fields_Join)
  ultimately show ?case using Cons by (simp add: l render_line_def nl_def)
qed (simp add: nl_def)

section \<open>The tokens of a validated configuration\<close>

text \<open>
  \<open>validCorefileToken\<close> looks for blanks, tabs and line ends, but not for the vertical tab and the form feed,
  which are white space for the lexer too.
\<close>

definition no_vt :: "string \<Rightarrow> bool" where
  "no_vt s \<longleftrightarrow> list_all (\<lambda>c. c \<noteq> CHR 0x0B \<and> c \<noteq> CHR 0x0C) s"

lemma token_valid: "validCorefileToken s \<Longrightarrow> no_vt s \<Longrightarrow> s \<noteq> [] \<Longrightarrow> token s"
  by (auto simp: token_def no_vt_def validCorefileToken_def token_breakers_def list_all_iff list_ex_iff is_space_def)

lemma token_append [simp]: "token s \<Longrightarrow> list_all (\<lambda>c. \<not> is_space c) t \<Longrightarrow> token (s @ t)"
  "list_all (\<lambda>c. \<not> is_space c) t \<Longrightarrow> token s \<Longrightarrow> token (t @ s)"
  by (auto simp: token_def)

lemma token_text: "token s \<Longrightarrow> list_all (\<lambda>c. \<not> is_space c) s"
  by (simp add: token_def)

lemma decimal_chars: "list_all (\<lambda>c. \<not> is_space c) (decimal n) \<and> decimal n \<noteq> []"
proof (induction n rule: decimal.induct)
  case (1 n)
  have d: "\<not> is_space (digit (int k))" if "k < 10" for k using is_digit_digit [of "int k"] that digit_not_space by auto
  show ?case using 1 d [of n] d [of "n mod 10"]
    by (cases "n < 10") (simp_all add: decimal_digit decimal_more)
qed

lemma token_Itoa [simp]: "token (Itoa i)"
  using decimal_chars by (auto simp: token_def Itoa_def is_space_def)

lemma set_decide_text: "set t \<subseteq> set s \<Longrightarrow> list_all P s \<Longrightarrow> list_all P t"
  by (auto simp: list_all_iff)

lemma validateRewriteToken_token: "validateRewriteToken field s = ok \<Longrightarrow> token (TrimSpace s)"
  by (auto simp: validateRewriteToken_def Let_def token_def list_ex_iff list_all_iff split: if_splits)

lemma upper_space: "is_space (upper_char c) \<longleftrightarrow> is_space c"
  unfolding upper_char_def is_lower_def is_space_nat by auto

lemma token_ToUpper [simp]: "token (ToUpper s) \<longleftrightarrow> token s"
  by (simp add: token_def ToUpper_def list_all_iff upper_space)

lemma tlsTarget_token:
  assumes "token a" and "list_all (\<lambda>c. \<not> is_space c) n"
  shows "token (tlsTarget a n)"
proof -
  have sub: "set (takeWhile P a) \<subseteq> set a" "set (drop k a) \<subseteq> set a" for P k
    using set_takeWhileD by (fastforce, simp add: set_drop_subset)
  have hp: "set h \<subseteq> set a \<and> set p \<subseteq> set a" if split: "SplitHostPort a = Some (h, p)" for h p
  proof -
    obtain before where l: "LastColon a = Some (before, p)"
      using split by (cases "LastColon a") (auto simp: SplitHostPort_def split: prod.splits if_splits)
    have h: "h = before \<or> (\<exists>inner x. Cut a (CHR '']'') = (inner, x, True) \<and> h = tl inner)"
      using split l by (auto simp: SplitHostPort_def split: prod.splits if_splits)
    have "set before \<subseteq> set a" "set p \<subseteq> set a" using LastColon_parts [OF l] by auto
    moreover have "set (tl inner) \<subseteq> set a" if "Cut a (CHR '']'') = (inner, x, True)" for inner x
    proof -
      have "set (tl inner) \<subseteq> set inner" by (cases inner) auto
      also have "set inner \<subseteq> set a" using that sub(1) by (auto simp: Cut_def)
      finally show ?thesis .
    qed
    ultimately show ?thesis using h by auto
  qed
  have a: "list_all (\<lambda>c. \<not> is_space c) a" "a \<noteq> []" using assms by (auto simp: token_def)
  have parts: "list_all (\<lambda>c. \<not> is_space c) (takeWhile P a)" "list_all (\<lambda>c. \<not> is_space c) (drop k a)" for P k
    using set_decide_text [OF _ a(1)] sub by blast+
  have split: "list_all (\<lambda>c. \<not> is_space c) h" "list_all (\<lambda>c. \<not> is_space c) p" if "SplitHostPort a = Some (h, p)" for h p
    using set_decide_text [OF _ a(1)] hp [OF that] by blast+
  have sp: "\<not> is_space (CHR ''%'')" "\<not> is_space (CHR ''['')" "\<not> is_space (CHR '']'')" "\<not> is_space (CHR '':'')" by (simp_all add: is_space_def)
  have "list_all (\<lambda>c. \<not> is_space c) (tlsTarget a n)"
    unfolding tlsTarget_def Let_def JoinHostPort_def
    using a(1) assms(2) sp parts split by (simp split: option.split)
  moreover have "tlsTarget a n \<noteq> []"
    unfolding tlsTarget_def Let_def JoinHostPort_def using a(2) by (auto split: option.splits if_splits)
  ultimately show ?thesis by (simp add: token_def)
qed

lemma resolverTarget_token:
  assumes "token (fr_Address r)" and "list_all (\<lambda>c. \<not> is_space c) (fr_TLSServerName r)"
  shows "token (resolverTarget r)"
proof -
  have c: "token (c # s)" if "token s" "\<not> is_space c" for c s using that by (simp add: token_def)
  show ?thesis
    unfolding resolverTarget_def Let_def
    using assms(1) tlsTarget_token [OF assms] by (auto simp: is_space_def intro!: c)
qed

lemma zoneAddress_token:
  assumes "token listen"
  shows "token (zoneAddress listen)"
proof -
  have d: "list_all (\<lambda>c. \<not> is_space c) (''.:'')" "list_all (\<lambda>c. \<not> is_space c) (''.'')" by (simp_all add: is_space_def)
  have p: "token port" if "SplitHostPort listen = Some (host, port)" "port \<noteq> []" for host port
    using SplitHostPort_port [OF that(1)] that(2) assms by (auto simp: token_def list_all_iff)
  show ?thesis
    unfolding zoneAddress_def using assms p token_append(2) [OF d(1)] token_append(2) [OF d(2)] by (auto split: option.splits)
qed

lemma token_literals:
  "token ''errors''" "token open_block" "token close_block" "token ''stacktrace''" "token ''log''" "token ''.''" "token ''metadata''"
  "token ''corehole''" "token ''cache''" "token ''success''" "token ''denial''" "token ''prefetch''" "token ''forward''" "token ''force_tcp''"
  "token ''corehole_dnssec''" "token ''upstream''" "token ''rewrite''" "token ''name''" "token ''type''" "token ''ttl''" "token ''rcode''"
  "token ''answer''" "token ''auto''" "token ''value''" "token ''stop''" "token ''continue''" "token ''exact''" "token ''prefix''"
  "token ''suffix''" "token ''substring''" "token ''regex''"
  by (simp_all add: token_def is_space_def open_block_def close_block_def)

lemma log_format_token: "token (quoted coreDNSJSONLogFormat)"
  by (simp add: coreDNSJSONLogFormat_def json_field_def braces_def open_block_def close_block_def quoted_def token_def is_space_def)

lemma forward_lines_ok:
  assumes "token from" and "list_all (\<lambda>r. token (fr_Address r) \<and> list_all (\<lambda>c. \<not> is_space c) (fr_TLSServerName r)) (filter fr_Enabled rs)"
  shows "list_all line_ok (forward_lines from rs)"
proof -
  have "list_all token (forward_targets rs)"
    using assms(2) resolverTarget_token by (simp add: forward_targets_def list_all_iff upstream_target [symmetric])
  then show ?thesis using assms(1) token_literals by (simp add: forward_lines_def line_ok_def)
qed

lemma cache_lines_ok: "list_all line_ok (cache_lines d)"
proof -
  have "token (Itoa i @ ''s'')" "token (Itoa i @ ''%'')" for i by (simp_all add: is_space_def)
  then show ?thesis using token_literals by (simp add: cache_lines_def line_ok_def)
qed

lemma EffectiveMatch_token: "validateRewriteMatch (EffectiveMatch r) = ok \<Longrightarrow> token (EffectiveMatch r)"
  using token_literals by (auto simp: validateRewriteMatch_def split: if_splits)

lemma digits_token: "list_all is_digit s \<Longrightarrow> s \<noteq> [] \<Longrightarrow> token s"
  by (auto simp: token_def list_all_iff digit_not_space)

lemma validTTL_token:
  assumes "validTTLRewriteValue s"
  shows "token (TrimSpace s)"
proof -
  let ?parts = "Split (CHR ''-'') (TrimSpace s)"
  have v: "TrimSpace s \<noteq> []" and p: "\<forall>x \<in> set ?parts. x = [] \<or> validTTLNumber x"
  proof -
    show "TrimSpace s \<noteq> []" using assms by (auto simp: validTTLRewriteValue_def)
    show "\<forall>x \<in> set ?parts. x = [] \<or> validTTLNumber x"
    proof (cases "length ?parts = 1")
      case True
      then obtain a where "?parts = [a]" by (auto simp: length_Suc_conv)
      then show ?thesis using assms by (auto simp: validTTLRewriteValue_def Let_def split: if_splits)
    next
      case False
      then have "length ?parts = 2" using assms by (auto simp: validTTLRewriteValue_def Let_def split: if_splits)
      then obtain a b where "?parts = [a, b]" by (auto simp: numeral_eq_Suc length_Suc_conv)
      then show ?thesis using assms by (auto simp: validTTLRewriteValue_def Let_def split: if_splits)
    qed
  qed
  have "\<not> is_space c" if "c \<in> set (TrimSpace s)" for c
  proof (cases "c = CHR ''-''")
    case True then show ?thesis by (simp add: is_space_def)
  next
    case False
    have "c \<in> set (Join ?parts ''-'')" using that by simp
    then obtain x where "x \<in> set ?parts" "c \<in> set x" using set_Join [of ?parts "''-''"] False by auto
    then show ?thesis using p digit_not_space by (fastforce simp: validTTLNumber_def list_all_iff)
  qed
  then show ?thesis using v by (simp add: token_def list_all_iff)
qed

lemma validRCode_token:
  assumes "validRCodeRewriteValue lib s" and "\<And>t. lib_StringToRcode lib t \<Longrightarrow> token t"
  shows "token (TrimSpace s)"
proof -
  have "token (ToUpper (TrimSpace s))"
    using assms digits_token by (auto simp: validRCodeRewriteValue_def Let_def simp del: token_ToUpper split: if_splits)
  then show ?thesis by simp
qed

lemma rewrite_tokens:
  assumes "rewrite_Validate lib r = ok" and "rw_Enabled r"
    and "\<And>t. lib_StringToType lib t \<Longrightarrow> token t" and "\<And>t. lib_StringToRcode lib t \<Longrightarrow> token t"
  shows "token (EffectiveMode r) \<and> list_all token (rewrite_args r)"
proof
  let ?field = "lower_trim (rw_Field r)"
  show "token (EffectiveMode r)"
    using assms(1,2) token_literals by (auto simp: rewrite_Validate_def supportedRewriteMode_def)
  have ty: "token (ToUpper (TrimSpace t))" if "lib_StringToType lib (ToUpper (TrimSpace t))" for t
    using assms(3) [OF that] .
  consider (name) "?field = ''name''" "validateNameRewrite lib r = ok" | (type) "?field = ''type''" "validateTypeRewrite lib r = ok"
    | (ttl) "?field = ''ttl''" "validateTTLRewrite lib r = ok" | (rcode) "?field = ''rcode''" "validateRCodeRewrite lib r = ok"
    using assms(1,2) by (auto simp: rewrite_Validate_def Let_def split: if_splits)
  then show "list_all token (rewrite_args r)"
  proof cases
    case name
    then show ?thesis using token_literals validateRewriteToken_token EffectiveMatch_token
      by (auto simp: rewrite_args_def Let_def validateNameRewrite_def split: if_splits)
  next
    case type
    then show ?thesis using token_literals ty by (simp add: rewrite_args_def validateTypeRewrite_def)
  next
    case ttl
    then show ?thesis using token_literals validateRewriteToken_token EffectiveMatch_token validTTL_token [of "TrimSpace (rw_To r)"]
      by (auto simp: rewrite_args_def validateTTLRewrite_def)
  next
    case rcode
    then show ?thesis using token_literals validateRewriteToken_token EffectiveMatch_token validRCode_token [OF _ assms(4)]
      by (auto simp: rewrite_args_def validateRCodeRewrite_def)
  qed
qed

section \<open>Properties\<close>

text \<open>What the text needs beyond validation: no white space in the listen address, no vertical tab or form feed in a token.\<close>

definition spaceless :: "config \<Rightarrow> bool" where
  "spaceless cfg \<longleftrightarrow> token (dc_Listen (cfg_DNS cfg)) \<and>
     list_all (\<lambda>r. no_vt (rs_Address r) \<and> no_vt (rs_TLSServerName r)) (dc_Resolvers (cfg_DNS cfg)) \<and>
     no_vt (cf_Domain (dc_ConditionalForwarding (cfg_DNS cfg))) \<and> no_vt (cf_Resolver (dc_ConditionalForwarding (cfg_DNS cfg))) \<and>
     no_vt (cf_TLSServerName (dc_ConditionalForwarding (cfg_DNS cfg)))"

lemma tls_name_ok: "(n \<noteq> [] \<longrightarrow> validCorefileToken n) \<Longrightarrow> no_vt n \<Longrightarrow> list_all (\<lambda>c. \<not> is_space c) n"
  using token_text [OF token_valid [of n]] by (cases "n = []") auto

lemma corefile_lines_ok:
  assumes c: "config_checks lib cfg" and s: "spaceless cfg"
    and lib: "\<And>t. lib_StringToType lib t \<Longrightarrow> token t" "\<And>t. lib_StringToRcode lib t \<Longrightarrow> token t"
  shows "list_all line_ok (corefile_lines cfg)"
proof -
  let ?d = "cfg_DNS cfg" and ?f = "dc_ConditionalForwarding (cfg_DNS cfg)"
  have "list_all line_ok (rewrite_lines (dc_Rewrites ?d))"
  proof -
    have "token (EffectiveMode r) \<and> list_all token (rewrite_args r)" if "r \<in> set (dc_Rewrites ?d)" "rw_Enabled r" for r
      using c that by (intro rewrite_tokens [OF _ that(2) lib]) (auto simp: config_checks_def list_all_iff)
    then show ?thesis using token_literals(17) by (auto simp: rewrite_lines_def line_ok_def list_all_iff)
  qed
  moreover have "list_all line_ok (forward_lines ''.'' (forwardResolversFromConfig (dc_Resolvers ?d)))"
  proof (rule forward_lines_ok)
    have "token (rs_Address r) \<and> list_all (\<lambda>c. \<not> is_space c) (rs_TLSServerName r)" if "r \<in> set (dc_Resolvers ?d)" "rs_Enabled r" for r
    proof -
      have "resolver_ok r" "no_vt (rs_Address r)" "no_vt (rs_TLSServerName r)"
        using c s that by (auto simp: config_checks_def resolvers_ok_def Let_def spaceless_def list_all_iff)
      then show ?thesis using token_valid tls_name_ok by (simp add: resolver_ok_def)
    qed
    then show "list_all (\<lambda>r. token (fr_Address r) \<and> list_all (\<lambda>c. \<not> is_space c) (fr_TLSServerName r))
       (filter fr_Enabled (forwardResolversFromConfig (dc_Resolvers ?d)))"
      by (auto simp: forwardResolversFromConfig_def list_all_iff)
  qed (simp add: token_literals)
  moreover have "list_all line_ok (forward_lines (cf_Domain ?f)
      [\<lparr>fr_Address = cf_Resolver ?f, fr_Protocol = cf_Protocol ?f, fr_TLSServerName = cf_TLSServerName ?f, fr_Enabled = True\<rparr>])" if e: "cf_Enabled ?f"
  proof (rule forward_lines_ok)
    have f: "conditional_ok ?f" using c by (simp add: config_checks_def)
    then show "token (cf_Domain ?f)" using e s token_valid by (simp add: conditional_ok_def spaceless_def)
    show "list_all (\<lambda>r. token (fr_Address r) \<and> list_all (\<lambda>c. \<not> is_space c) (fr_TLSServerName r)) (filter fr_Enabled
       [\<lparr>fr_Address = cf_Resolver ?f, fr_Protocol = cf_Protocol ?f, fr_TLSServerName = cf_TLSServerName ?f, fr_Enabled = True\<rparr>])"
      using f e s token_valid tls_name_ok by (simp add: conditional_ok_def spaceless_def)
  qed
  moreover have "list_all line_ok (error_lines debug)" "list_all line_ok (query_lines debug json)" for debug json
    using token_literals(1-6) log_format_token by (simp_all add: error_lines_def query_lines_def line_ok_def)
  moreover have "line_ok (4, [''metadata''])" "line_ok (4, [''corehole''])" "line_ok (4, [''corehole_dnssec'', ''upstream''])" "line_ok (0, [close_block])"
    using token_literals by (simp_all add: line_ok_def)
  moreover have "line_ok (0, [listen_zone (dc_Listen ?d), open_block])"
    using s zoneAddress_token token_literals(2) by (simp add: spaceless_def line_ok_def listen_zone [symmetric])
  ultimately show ?thesis
    unfolding corefile_lines_def Let_def list_all_append using cache_lines_ok by (simp split: if_split)
qed

text \<open>
  C15: The Corefile says what the configuration says, where its addresses are free of vertical tabs and form feeds: the text written for a
  valid configuration whose listening address has no white space and whose resolver addresses, domains and server names have no vertical tab and no
  form feed (which \<open>Validate\<close> lets through), read back line by line and split at white space, is exactly the intended directives,
  in their order and with their arguments, so no address, server name or rewrite argument adds a directive or an argument of its own.
  The names of record types and response codes that the DNS library knows are taken to be single words.
\<close>

theorem corefile_reads_back:
  assumes "Validate lib cfg = Inr ()" and "spaceless cfg"
    and "\<And>t. lib_StringToType lib t \<Longrightarrow> token t" and "\<And>t. lib_StringToRcode lib t \<Longrightarrow> token t"
  shows "map Fields (Split (CHR 0x0A) (Corefile cfg)) = map snd (corefile_lines cfg) @ [[]]"
  unfolding Corefile_render
  by (rule Split_render, rule corefile_lines_ok) (use assms Validate_ok_iff in auto)

theorem corefile_reads_back_witness:
  "map Fields (Split (CHR 0x0A) (Corefile Default)) ! 0 = [''.:53'', open_block] \<and>
   [''forward'', ''.'', ''1.1.1.1:53''] \<in> set (map Fields (Split (CHR 0x0A) (Corefile Default)))"
proof -
  have s: "spaceless Default"
    by (simp add: spaceless_def Default_def default_dns_def token_def no_vt_def is_space_def)
  have l: "token ''A''" "token ''AAAA''" "token ''NXDOMAIN''" "token ''REFUSED''" by (simp_all add: token_def is_space_def)
  have r: "map Fields (Split (CHR 0x0A) (Corefile Default)) = map snd (corefile_lines Default) @ [[]]"
    by (rule corefile_reads_back [OF Default_valid [of demo_lib] s]) (use l in \<open>auto simp: demo_lib_def\<close>)
  have f: "forward_lines ''.'' (forwardResolversFromConfig (dc_Resolvers default_dns)) = [(4, [''forward'', ''.'', ''1.1.1.1:53''])]"
    by code_simp
  show ?thesis
    unfolding r by (simp add: corefile_lines_def Let_def Default_def f) (simp add: default_dns_def listen_zone_def)
qed

text \<open>
  A vertical tab passes the check for white space in an address, but separates tokens: a validated resolver can
  add a second upstream to the forward directive.
\<close>

theorem vertical_tab_adds_upstream:
  "validCorefileToken (''1.1.1.1'' @ [CHR 0x0B] @ ''6.6.6.6'') \<and>
   Fields (writeForward ''.'' [\<lparr>fr_Address = ''1.1.1.1'' @ [CHR 0x0B] @ ''6.6.6.6'', fr_Protocol = ''udp'', fr_TLSServerName = [], fr_Enabled = True\<rparr>]) =
     [''forward'', ''.'', ''1.1.1.1'', ''6.6.6.6'']"
proof
  show "validCorefileToken (''1.1.1.1'' @ [CHR 0x0B] @ ''6.6.6.6'')" by (simp add: validCorefileToken_def token_breakers_def)
  have w: "writeForward ''.'' [\<lparr>fr_Address = ''1.1.1.1'' @ [CHR 0x0B] @ ''6.6.6.6'', fr_Protocol = ''udp'', fr_TLSServerName = [], fr_Enabled = True\<rparr>] =
      ''    '' @ ''forward'' @ CHR '' '' # ''.'' @ CHR '' '' # ''1.1.1.1'' @ CHR 0x0B # ''6.6.6.6'' @ CHR 0x0A # []" by code_simp
  have sp: "is_space (CHR 0x0B)" "is_space (CHR 0x0A)" "list_all is_space ''    ''" by (simp_all add: is_space_def)
  have t: "token ''forward''" "token ''.''" "token ''1.1.1.1''" "token ''6.6.6.6''" by (simp_all add: token_def is_space_def)
  show "Fields (writeForward ''.'' [\<lparr>fr_Address = ''1.1.1.1'' @ [CHR 0x0B] @ ''6.6.6.6'', fr_Protocol = ''udp'', fr_TLSServerName = [], fr_Enabled = True\<rparr>]) =
     [''forward'', ''.'', ''1.1.1.1'', ''6.6.6.6'']"
    unfolding w Fields_spaces [OF sp(3)] Fields_token [OF t(1) is_space_blank] Fields_token [OF t(2) is_space_blank]
      Fields_token [OF t(3) sp(1)] Fields_token [OF t(4) sp(2)] by simp
qed

end
