(* ===== verification/Dnssec_Upstream.thy ===== *)
theory Dnssec_Upstream
  imports Go_Effects "HOL-Library.Word"
begin

text \<open>
  \<open>internal/coredns/dnssec_upstream.go\<close>: the plugin that asks the resolvers for DNSSEC data and takes it out of
  the answers for clients that did not ask for it. A message has its question types, three sections of
  records (a nil record is \<^term>\<open>None\<close>) and two flags. Of \<open>miekg/dns\<close> the code uses \<open>IsEdns0\<close>, which finds the OPT record
  among the additional records: the parameter \<open>find_opt\<close> is its position, and \<open>edns_law\<close> what its documentation
  says; \<open>SetEdns0\<close> appends the record \<open>new_opt size do\<close>.
\<close>

record dns_rr =
  d_Rrtype :: "16 word"
  d_Data :: string
  d_Do :: bool
  d_UDPSize :: "16 word"

record dns_message =
  dm_Question :: "16 word list"
  dm_Answer :: "dns_rr option list"
  dm_Ns :: "dns_rr option list"
  dm_Extra :: "dns_rr option list"
  dm_AuthenticatedData :: bool
  dm_CheckingDisabled :: bool

definition TypeOPT :: "16 word" where "TypeOPT = 41"
definition TypeRRSIG :: "16 word" where "TypeRRSIG = 46"
definition TypeNSEC :: "16 word" where "TypeNSEC = 47"
definition TypeNSEC3 :: "16 word" where "TypeNSEC3 = 50"
definition TypeNSEC3PARAM :: "16 word" where "TypeNSEC3PARAM = 51"

lemmas dnssec_types = TypeOPT_def TypeRRSIG_def TypeNSEC_def TypeNSEC3_def TypeNSEC3PARAM_def

type_synonym opt_finder = "dns_rr option list \<Rightarrow> nat option"

definition is_opt :: "dns_rr option \<Rightarrow> bool" where
  "is_opt r \<longleftrightarrow> (case r of None \<Rightarrow> False | Some x \<Rightarrow> d_Rrtype x = TypeOPT)"

definition edns_law :: "opt_finder \<Rightarrow> bool" where
  "edns_law find_opt \<longleftrightarrow>
     (\<forall>xs i. find_opt xs = Some i \<longrightarrow> i < length xs \<and> is_opt (xs ! i)) \<and>
     (\<forall>xs. find_opt xs = None \<longrightarrow> \<not> list_ex is_opt xs) \<and>
     (\<forall>xs ys. map (map_option d_Rrtype) xs = map (map_option d_Rrtype) ys \<longrightarrow> find_opt xs = find_opt ys)"

section \<open>The code\<close>

definition isDNSSECProofRecord :: "16 word \<Rightarrow> bool" where
  "isDNSSECProofRecord t \<longleftrightarrow> t = TypeRRSIG \<or> t = TypeNSEC \<or> t = TypeNSEC3 \<or> t = TypeNSEC3PARAM"

fun stripDNSSECRRSet :: "dns_rr option list \<Rightarrow> dns_rr option list" where
  "stripDNSSECRRSet [] = []"
| "stripDNSSECRRSet (None # rrs) = stripDNSSECRRSet rrs"
| "stripDNSSECRRSet (Some r # rrs) =
     (if isDNSSECProofRecord (d_Rrtype r) then stripDNSSECRRSet rrs else Some r # stripDNSSECRRSet rrs)"

fun stripDNSSECExtra :: "dns_rr option list \<Rightarrow> dns_rr option list" where
  "stripDNSSECExtra [] = []"
| "stripDNSSECExtra (None # rrs) = stripDNSSECExtra rrs"
| "stripDNSSECExtra (Some r # rrs) =
     (if d_Rrtype r = TypeOPT \<or> \<not> isDNSSECProofRecord (d_Rrtype r) then Some r # stripDNSSECExtra rrs
      else stripDNSSECExtra rrs)"

definition stripDNSSECRecords :: "dns_message \<Rightarrow> dns_message" where
  "stripDNSSECRecords m =
     m\<lparr>dm_Answer := stripDNSSECRRSet (dm_Answer m), dm_Ns := stripDNSSECRRSet (dm_Ns m), dm_Extra := stripDNSSECExtra (dm_Extra m)\<rparr>"

definition update_opt :: "opt_finder \<Rightarrow> (dns_rr \<Rightarrow> dns_rr) \<Rightarrow> dns_message \<Rightarrow> dns_message" where
  "update_opt find_opt f m =
     (case find_opt (dm_Extra m) of
        None \<Rightarrow> m
      | Some i \<Rightarrow> m\<lparr>dm_Extra := (dm_Extra m)[i := map_option f (dm_Extra m ! i)]\<rparr>)"

definition clearDO :: "opt_finder \<Rightarrow> dns_message \<Rightarrow> dns_message" where
  "clearDO find_opt = update_opt find_opt (\<lambda>r. r\<lparr>d_Do := False\<rparr>)"

definition edns0_Do :: "opt_finder \<Rightarrow> dns_message \<Rightarrow> bool" where
  "edns0_Do find_opt m \<longleftrightarrow>
     (case find_opt (dm_Extra m) of None \<Rightarrow> False | Some i \<Rightarrow> (case dm_Extra m ! i of None \<Rightarrow> False | Some r \<Rightarrow> d_Do r))"

definition clientRequestsDNSSEC :: "opt_finder \<Rightarrow> dns_message \<Rightarrow> bool" where
  "clientRequestsDNSSEC find_opt r \<longleftrightarrow> edns0_Do find_opt r \<or> list_ex isDNSSECProofRecord (dm_Question r)"

definition upstreamDNSSECRequest ::
  "opt_finder \<Rightarrow> (16 word \<Rightarrow> bool \<Rightarrow> dns_rr) \<Rightarrow> dns_message \<Rightarrow> dns_message \<times> bool \<times> bool" where
  "upstreamDNSSECRequest find_opt new_opt r =
     (let upstream = r\<lparr>dm_CheckingDisabled := False, dm_AuthenticatedData := True\<rparr> in
      (case find_opt (dm_Extra upstream) of
         Some i \<Rightarrow> update_opt find_opt (\<lambda>opt. let opt = opt\<lparr>d_Do := True\<rparr> in if d_UDPSize opt < 1232 then opt\<lparr>d_UDPSize := 1232\<rparr> else opt) upstream
       | None \<Rightarrow> upstream\<lparr>dm_Extra := dm_Extra upstream @ [Some (new_opt 1232 True)]\<rparr>,
       clientRequestsDNSSEC find_opt r, dm_AuthenticatedData r))"

record dnssec_writer =
  dw_clientRequestedDNSSEC :: bool
  dw_clientRequestedAD :: bool

text \<open>What is written to the client; a nil message is written as it is.\<close>

definition dnssec_WriteMsg :: "opt_finder \<Rightarrow> dnssec_writer \<Rightarrow> dns_message option \<Rightarrow> dns_message option" where
  "dnssec_WriteMsg find_opt w msg =
     (case msg of
        None \<Rightarrow> None
      | Some m \<Rightarrow>
          let m = (if \<not> dw_clientRequestedDNSSEC w then clearDO find_opt (stripDNSSECRecords m) else m) in
          Some (if \<not> dw_clientRequestedAD w \<and> \<not> dw_clientRequestedDNSSEC w then m\<lparr>dm_AuthenticatedData := False\<rparr> else m))"

text \<open>
  \<open>ServeDNS\<close>: the next plugin gets the changed request and a writer that changes what it writes; \<open>next\<close> is the
  message it writes, if any, its response code and error.
\<close>

definition dnssec_ServeDNS ::
  "opt_finder \<Rightarrow> (16 word \<Rightarrow> bool \<Rightarrow> dns_rr) \<Rightarrow> (dns_message \<Rightarrow> dns_message option \<times> int \<times> go_error option) \<Rightarrow> dns_message
     \<Rightarrow> dns_message option \<times> int \<times> go_error option" where
  "dnssec_ServeDNS find_opt new_opt nxt r =
     (case upstreamDNSSECRequest find_opt new_opt r of (upstream, dnssec, ad) \<Rightarrow>
      case nxt upstream of (written, rcode, err) \<Rightarrow>
        (dnssec_WriteMsg find_opt \<lparr>dw_clientRequestedDNSSEC = dnssec, dw_clientRequestedAD = ad\<rparr> written, rcode, err))"

section \<open>Properties\<close>

definition keeps_rr :: "dns_rr option \<Rightarrow> bool" where
  "keeps_rr r \<longleftrightarrow> (case r of None \<Rightarrow> False | Some x \<Rightarrow> \<not> isDNSSECProofRecord (d_Rrtype x))"

lemma opt_not_proof [simp]: "\<not> isDNSSECProofRecord TypeOPT"
  by (simp add: isDNSSECProofRecord_def dnssec_types)

lemma strip_filter: "stripDNSSECRRSet rrs = filter keeps_rr rrs" "stripDNSSECExtra rrs = filter keeps_rr rrs"
proof -
  show "stripDNSSECRRSet rrs = filter keeps_rr rrs"
    by (induction rrs rule: stripDNSSECRRSet.induct) (auto simp: keeps_rr_def)
  show "stripDNSSECExtra rrs = filter keeps_rr rrs"
    by (induction rrs rule: stripDNSSECExtra.induct) (auto simp: keeps_rr_def)
qed

lemma update_opt_types:
  assumes "edns_law find_opt" and "\<And>x. d_Rrtype (f x) = d_Rrtype x"
  shows "find_opt (dm_Extra (update_opt find_opt f m)) = find_opt (dm_Extra m)"
proof (cases "find_opt (dm_Extra m)")
  case (Some i)
  have "map (map_option d_Rrtype) ((dm_Extra m)[i := map_option f (dm_Extra m ! i)]) = map (map_option d_Rrtype) (dm_Extra m)"
    using assms(2) by (simp add: map_update option.map_comp comp_def list_update_same_conv)
      (metis (no_types) list_update_beyond list_update_id linorder_not_less length_map nth_map)
  then have "find_opt ((dm_Extra m)[i := map_option f (dm_Extra m ! i)]) = find_opt (dm_Extra m)"
    using assms(1) unfolding edns_law_def by blast
  then show ?thesis by (simp add: update_opt_def Some)
qed (simp add: update_opt_def)

lemma clearDO_Do:
  assumes "edns_law find_opt"
  shows "\<not> edns0_Do find_opt (clearDO find_opt m)"
proof (cases "find_opt (dm_Extra m)")
  case None
  then show ?thesis by (simp add: edns0_Do_def clearDO_def update_opt_def)
next
  case (Some i)
  have f: "find_opt (dm_Extra (clearDO find_opt m)) = Some i"
    unfolding clearDO_def using update_opt_types [OF assms] Some by simp
  have "i < length (dm_Extra m)" using assms Some unfolding edns_law_def by blast
  then show ?thesis
    using f Some by (simp add: edns0_Do_def clearDO_def update_opt_def split: option.split)
qed

text \<open>
  C16: A client that did not ask for DNSSEC gets none of it: whatever the next plugins write, the message the client
  receives has in each section exactly the other records in order, its OPT record does not have the DO bit,
  and the AD bit is kept only for a client that set it.
\<close>

theorem no_dnssec_unless_asked:
  assumes "edns_law find_opt" and "\<not> clientRequestsDNSSEC find_opt r"
    and "nxt (fst (upstreamDNSSECRequest find_opt new_opt r)) = (Some m, rcode, err)"
  shows "\<exists>m'. dnssec_ServeDNS find_opt new_opt nxt r = (Some m', rcode, err) \<and>
    dm_Answer m' = filter keeps_rr (dm_Answer m) \<and> dm_Ns m' = filter keeps_rr (dm_Ns m) \<and>
    map (map_option d_Rrtype) (dm_Extra m') = map (map_option d_Rrtype) (filter keeps_rr (dm_Extra m)) \<and>
    \<not> edns0_Do find_opt m' \<and> dm_AuthenticatedData m' = (dm_AuthenticatedData m \<and> dm_AuthenticatedData r)"
proof -
  let ?m = "clearDO find_opt (stripDNSSECRecords m)"
  obtain up where u: "upstreamDNSSECRequest find_opt new_opt r = (up, False, dm_AuthenticatedData r)"
    using assms(2) by (simp add: upstreamDNSSECRequest_def Let_def)
  have other: "dm_Answer ?m = filter keeps_rr (dm_Answer m)" "dm_Ns ?m = filter keeps_rr (dm_Ns m)"
    "dm_AuthenticatedData ?m = dm_AuthenticatedData m"
    by (simp_all add: clearDO_def update_opt_def stripDNSSECRecords_def strip_filter split: option.split)
  have extra: "map (map_option d_Rrtype) (dm_Extra ?m) = map (map_option d_Rrtype) (filter keeps_rr (dm_Extra m))"
  proof (cases "find_opt (filter keeps_rr (dm_Extra m))")
    case (Some i)
    then show ?thesis
      by (simp add: clearDO_def update_opt_def stripDNSSECRecords_def strip_filter map_update option.map_comp comp_def)
        (metis (no_types) list_update_beyond list_update_id linorder_not_less length_map nth_map)
  qed (simp add: clearDO_def update_opt_def stripDNSSECRecords_def strip_filter)
  have ad: "edns0_Do find_opt (?m\<lparr>dm_AuthenticatedData := b\<rparr>) = edns0_Do find_opt ?m" for b
    by (cases "find_opt (dm_Extra ?m)") (simp_all add: edns0_Do_def)
  show ?thesis
    using assms(3) u other extra clearDO_Do [OF assms(1), of "stripDNSSECRecords m"] ad
    by (auto simp: dnssec_ServeDNS_def dnssec_WriteMsg_def Let_def)
qed

text \<open>A finder that satisfies the law: the last OPT record.\<close>

definition last_opt :: opt_finder where
  "last_opt xs = (case filter (\<lambda>i. is_opt (xs ! i)) (rev [0..<length xs]) of [] \<Rightarrow> None | i # _ \<Rightarrow> Some i)"

lemma last_opt_law: "edns_law last_opt"
proof -
  have some: "i < length xs \<and> is_opt (xs ! i)" if found: "last_opt xs = Some i" for xs i
  proof -
    obtain rest where "filter (\<lambda>i. is_opt (xs ! i)) (rev [0..<length xs]) = i # rest"
      using found by (auto simp: last_opt_def split: list.splits)
    then have "i \<in> set (filter (\<lambda>i. is_opt (xs ! i)) (rev [0..<length xs]))" by (metis list.set_intros(1))
    then show ?thesis by simp
  qed
  have none: "\<not> list_ex is_opt xs" if "last_opt xs = None" for xs
    using that by (auto simp: last_opt_def list_ex_length filter_empty_conv split: list.splits)
  have types: "last_opt xs = last_opt ys" if t: "map (map_option d_Rrtype) xs = map (map_option d_Rrtype) ys" for xs ys
  proof -
    have l: "length xs = length ys" using map_eq_imp_length_eq [OF t] .
    have "is_opt (xs ! i) = is_opt (ys ! i)" if "i < length ys" for i
    proof -
      have "map_option d_Rrtype (xs ! i) = map_option d_Rrtype (ys ! i)" using t that l by (metis nth_map)
      then show ?thesis by (cases "xs ! i"; cases "ys ! i") (simp_all add: is_opt_def)
    qed
    then have "filter (\<lambda>i. is_opt (xs ! i)) (rev [0..<length xs]) = filter (\<lambda>i. is_opt (ys ! i)) (rev [0..<length ys])"
      unfolding l by (intro filter_cong) auto
    then show ?thesis by (simp only: last_opt_def)
  qed
  show ?thesis unfolding edns_law_def using some none types by blast
qed

definition demo_rr :: "16 word \<Rightarrow> dns_rr" where
  "demo_rr t = \<lparr>d_Rrtype = t, d_Data = [], d_Do = True, d_UDPSize = 512\<rparr>"

definition demo_query :: dns_message where
  "demo_query = \<lparr>dm_Question = [1], dm_Answer = [], dm_Ns = [], dm_Extra = [], dm_AuthenticatedData = False, dm_CheckingDisabled = True\<rparr>"

theorem no_dnssec_unless_asked_witness:
  "\<exists>m'. fst (dnssec_ServeDNS last_opt (\<lambda>size d. demo_rr TypeOPT)
      (\<lambda>r. (Some \<lparr>dm_Question = [1], dm_Answer = [Some (demo_rr 1), Some (demo_rr TypeRRSIG)], dm_Ns = [Some (demo_rr TypeNSEC)],
        dm_Extra = [None, Some (demo_rr TypeOPT)], dm_AuthenticatedData = True, dm_CheckingDisabled = False\<rparr>, 0, None)) demo_query) = Some m' \<and>
    dm_Answer m' = [Some (demo_rr 1)] \<and> dm_Ns m' = [] \<and> \<not> dm_AuthenticatedData m'"
proof -
  let ?m = "\<lparr>dm_Question = [1], dm_Answer = [Some (demo_rr 1), Some (demo_rr TypeRRSIG)], dm_Ns = [Some (demo_rr TypeNSEC)],
        dm_Extra = [None, Some (demo_rr TypeOPT)], dm_AuthenticatedData = True, dm_CheckingDisabled = False\<rparr>"
  have n: "\<not> clientRequestsDNSSEC last_opt demo_query"
    by (simp add: clientRequestsDNSSEC_def edns0_Do_def demo_query_def last_opt_def isDNSSECProofRecord_def dnssec_types)
  have k: "filter keeps_rr [Some (demo_rr 1), Some (demo_rr TypeRRSIG)] = [Some (demo_rr 1)]" "filter keeps_rr [Some (demo_rr TypeNSEC)] = []"
    by (simp_all add: keeps_rr_def isDNSSECProofRecord_def dnssec_types demo_rr_def)
  show ?thesis
    using no_dnssec_unless_asked [OF last_opt_law n, of "\<lambda>r. (Some ?m, 0, None)" "\<lambda>size d. demo_rr TypeOPT" ?m 0 None] k
    by (auto simp: demo_query_def)
qed

text \<open>
  The resolvers are always asked for DNSSEC: the request passed on has the AD bit, no CD bit and an OPT record with
  the DO bit and room for at least 1232 bytes, and otherwise the client's records; a client that asked for
  DNSSEC itself gets what the next plugins write, unchanged.
\<close>

theorem upstream_asked_for_dnssec:
  assumes "edns_law find_opt" and "d_Rrtype (new_opt 1232 True) = TypeOPT" and "d_Do (new_opt 1232 True)"
    and "d_UDPSize (new_opt 1232 True) = 1232"
    and "up = fst (upstreamDNSSECRequest find_opt new_opt r)"
  shows "dm_AuthenticatedData up \<and> \<not> dm_CheckingDisabled up \<and> dm_Question up = dm_Question r \<and> dm_Answer up = dm_Answer r \<and>
    (\<exists>opt. Some opt \<in> set (dm_Extra up) \<and> d_Rrtype opt = TypeOPT \<and> d_Do opt \<and> 1232 \<le> d_UDPSize opt) \<and>
    (clientRequestsDNSSEC find_opt r \<longrightarrow> dnssec_ServeDNS find_opt new_opt nxt r = nxt up)"
proof -
  have same: "dnssec_ServeDNS find_opt new_opt nxt r = nxt up" if "clientRequestsDNSSEC find_opt r"
  proof -
    have "upstreamDNSSECRequest find_opt new_opt r = (up, True, dm_AuthenticatedData r)"
      using that assms(5) by (simp add: upstreamDNSSECRequest_def Let_def)
    then show ?thesis
      by (simp add: dnssec_ServeDNS_def dnssec_WriteMsg_def split: prod.split option.split)
  qed
  show ?thesis
  proof (cases "find_opt (dm_Extra r)")
    case None
    then have "up = r\<lparr>dm_CheckingDisabled := False, dm_AuthenticatedData := True, dm_Extra := dm_Extra r @ [Some (new_opt 1232 True)]\<rparr>"
      using assms(5) by (simp add: upstreamDNSSECRequest_def Let_def)
    then show ?thesis using same assms(2-4) by auto
  next
    case (Some i)
    have i: "i < length (dm_Extra r)" "is_opt (dm_Extra r ! i)" using assms(1) Some unfolding edns_law_def by blast+
    then obtain x where x: "dm_Extra r ! i = Some x" "d_Rrtype x = TypeOPT" by (auto simp: is_opt_def split: option.splits)
    define y where "y = (let opt = x\<lparr>d_Do := True\<rparr> in if d_UDPSize opt < 1232 then opt\<lparr>d_UDPSize := 1232\<rparr> else opt)"
    have y: "d_Rrtype y = TypeOPT" "d_Do y" "1232 \<le> d_UDPSize y" using x(2) by (simp_all add: y_def Let_def linorder_not_less)
    have u: "up = r\<lparr>dm_CheckingDisabled := False, dm_AuthenticatedData := True, dm_Extra := (dm_Extra r)[i := Some y]\<rparr>"
      using assms(5) Some x by (simp add: upstreamDNSSECRequest_def update_opt_def y_def Let_def)
    have "Some y \<in> set (dm_Extra up)" using u i(1) by (simp add: set_update_memI)
    then show ?thesis using same u y by auto
  qed
qed

theorem upstream_asked_for_dnssec_witness:
  "dm_AuthenticatedData (fst (upstreamDNSSECRequest last_opt (\<lambda>size d. (demo_rr TypeOPT)\<lparr>d_UDPSize := size, d_Do := d\<rparr>) demo_query)) \<and>
   (\<exists>opt. Some opt \<in> set (dm_Extra (fst (upstreamDNSSECRequest last_opt (\<lambda>size d. (demo_rr TypeOPT)\<lparr>d_UDPSize := size, d_Do := d\<rparr>) demo_query))) \<and> d_Do opt)"
  using upstream_asked_for_dnssec [OF last_opt_law, of "\<lambda>size d. (demo_rr TypeOPT)\<lparr>d_UDPSize := size, d_Do := d\<rparr>" _ demo_query]
  by (fastforce simp: demo_rr_def)

end
