(* ===== verification/Go_Json.thy ===== *)
theory Go_Json
  imports Go_Time
begin

text \<open>
  Package \<open>encoding/json\<close> as far as the code uses it: values as trees, \<open>Marshal\<close> of a tree and the scanner of
  \<open>Unmarshal\<close>. A number is its literal. Text is bytes: those above 127 are copied (well-formed UTF-8 without the
  two line separators that Go escapes). The scanner has fuel; the length of the text is enough for
  every text that \<open>Marshal\<close> writes.
\<close>

datatype json =
    JNull
  | JBool bool
  | JNum string
  | JStr string
  | JArr "json list"
  | JObj "(string \<times> json) list"

definition DQ :: char where "DQ = CHR 0x22"
definition BS :: char where "BS = CHR 0x5C"

section \<open>Writing\<close>

definition hex_digit :: "nat \<Rightarrow> char" where
  "hex_digit n = (if n < 10 then char_of (48 + n) else char_of (87 + n))"

definition escape_char :: "char \<Rightarrow> string" where
  "escape_char c =
     (let n = (of_char c :: nat) in
      if c = DQ \<or> c = BS then [BS, c]
      else if n = 8 then [BS, CHR ''b'']
      else if n = 12 then [BS, CHR ''f'']
      else if n = 10 then [BS, CHR ''n'']
      else if n = 13 then [BS, CHR ''r'']
      else if n = 9 then [BS, CHR ''t'']
      else if n < 32 \<or> c = CHR ''<'' \<or> c = CHR ''>'' \<or> c = CHR ''&''
        then [BS, CHR ''u'', CHR ''0'', CHR ''0'', hex_digit (n div 16), hex_digit (n mod 16)]
      else [c])"

definition json_string :: "string \<Rightarrow> string" where
  "json_string s = [DQ] @ concat (map escape_char s) @ [DQ]"

fun Marshal :: "json \<Rightarrow> string" where
  "Marshal JNull = ''null''"
| "Marshal (JBool b) = (if b then ''true'' else ''false'')"
| "Marshal (JNum lit) = lit"
| "Marshal (JStr s) = json_string s"
| "Marshal (JArr vs) = ''['' @ Join (map Marshal vs) '','' @ '']''"
| "Marshal (JObj ms) = [CHR 0x7B] @ Join (map (\<lambda>(k, v). json_string k @ '':'' @ Marshal v) ms) '','' @ [CHR 0x7D]"

section \<open>Reading\<close>

definition json_space :: "char \<Rightarrow> bool" where
  "json_space c \<longleftrightarrow> c = CHR 0x20 \<or> c = CHR 0x09 \<or> c = CHR 0x0A \<or> c = CHR 0x0D"

definition skip_space :: "string \<Rightarrow> string" where
  "skip_space s = dropWhile json_space s"

definition hex_value :: "char \<Rightarrow> nat option" where
  "hex_value c = (let n = (of_char c :: nat) in
     if 48 \<le> n \<and> n \<le> 57 then Some (n - 48)
     else if 97 \<le> n \<and> n \<le> 102 then Some (n - 87)
     else if 65 \<le> n \<and> n \<le> 70 then Some (n - 55)
     else None)"

fun hex4 :: "string \<Rightarrow> (nat \<times> string) option" where
  "hex4 (a # b # c # d # r) =
     (case (hex_value a, hex_value b, hex_value c, hex_value d) of
        (Some p, Some q, Some x, Some y) \<Rightarrow> Some (p * 4096 + q * 256 + x * 16 + y, r)
      | _ \<Rightarrow> None)"
| "hex4 _ = None"

definition utf8 :: "nat \<Rightarrow> string" where
  "utf8 n =
     (if n < 128 then [char_of n]
      else if n < 2048 then [char_of (192 + n div 64), char_of (128 + n mod 64)]
      else if n < 65536 then [char_of (224 + n div 4096), char_of (128 + n div 64 mod 64), char_of (128 + n mod 64)]
      else [char_of (240 + n div 262144), char_of (128 + n div 4096 mod 64), char_of (128 + n div 64 mod 64), char_of (128 + n mod 64)])"

text \<open>A \<open>\u\<close> escape; a surrogate that does not pair is the replacement character.\<close>

definition unicode_escape :: "string \<Rightarrow> (string \<times> string) option" where
  "unicode_escape s =
     (case hex4 s of
        None \<Rightarrow> None
      | Some (n, r) \<Rightarrow>
          if n < 55296 \<or> 57343 < n then Some (utf8 n, r)
          else (case (if take 2 r = [BS, CHR ''u''] then hex4 (drop 2 r) else None) of
              Some (m, r') \<Rightarrow>
                if n < 56320 \<and> 56320 \<le> m \<and> m < 57344
                then Some (utf8 (65536 + (n - 55296) * 1024 + (m - 56320)), r')
                else Some (utf8 65533, r)
            | None \<Rightarrow> Some (utf8 65533, r)))"

definition simple_escape :: "char \<Rightarrow> char option" where
  "simple_escape c =
     (if c = DQ \<or> c = BS \<or> c = CHR ''/'' then Some c
      else if c = CHR ''b'' then Some (CHR 0x08)
      else if c = CHR ''f'' then Some (CHR 0x0C)
      else if c = CHR ''n'' then Some (CHR 0x0A)
      else if c = CHR ''r'' then Some (CHR 0x0D)
      else if c = CHR ''t'' then Some (CHR 0x09)
      else None)"

text \<open>The rest of a string after its opening quote.\<close>

fun scan_string :: "nat \<Rightarrow> string \<Rightarrow> (string \<times> string) option" where
  "scan_string 0 s = None"
| "scan_string (Suc n) [] = None"
| "scan_string (Suc n) (c # r) =
     (if c = DQ then Some ([], r)
      else if c = BS then
        (case r of
           [] \<Rightarrow> None
         | e # r' \<Rightarrow>
             if e = CHR ''u'' then
               (case unicode_escape r' of
                  None \<Rightarrow> None
                | Some (t, r'') \<Rightarrow> map_option (\<lambda>(u, q). (t @ u, q)) (scan_string n r''))
             else (case simple_escape e of
                 None \<Rightarrow> None
               | Some x \<Rightarrow> map_option (\<lambda>(u, q). (x # u, q)) (scan_string n r')))
      else if (of_char c :: nat) < 32 then None
      else map_option (\<lambda>(u, q). (c # u, q)) (scan_string n r))"

text \<open>A number literal.\<close>

definition scan_digits :: "string \<Rightarrow> (string \<times> string) option" where
  "scan_digits s = (let d = takeWhile is_digit s in if d = [] then None else Some (d, drop (length d) s))"

definition scan_int :: "string \<Rightarrow> (string \<times> string) option" where
  "scan_int s =
     (case s of
        [] \<Rightarrow> None
      | c # r \<Rightarrow> if c = CHR ''0'' then Some ([c], r) else scan_digits s)"

definition scan_fraction :: "string \<Rightarrow> (string \<times> string) option" where
  "scan_fraction s =
     (if s \<noteq> [] \<and> hd s = CHR ''.'' then map_option (\<lambda>(d, r). (CHR ''.'' # d, r)) (scan_digits (tl s)) else Some ([], s))"

definition scan_exponent :: "string \<Rightarrow> (string \<times> string) option" where
  "scan_exponent s =
     (if s \<noteq> [] \<and> (hd s = CHR ''e'' \<or> hd s = CHR ''E'') then
        (let r = tl s in
         if r \<noteq> [] \<and> (hd r = CHR ''+'' \<or> hd r = CHR ''-'')
         then map_option (\<lambda>(d, q). (hd s # hd r # d, q)) (scan_digits (tl r))
         else map_option (\<lambda>(d, q). (hd s # d, q)) (scan_digits r))
      else Some ([], s))"

definition scan_unsigned :: "string \<Rightarrow> (string \<times> string) option" where
  "scan_unsigned s =
     (case scan_int s of None \<Rightarrow> None | Some (a, r) \<Rightarrow>
      case scan_fraction r of None \<Rightarrow> None | Some (b, r) \<Rightarrow>
      case scan_exponent r of None \<Rightarrow> None | Some (c, r) \<Rightarrow> Some (a @ b @ c, r))"

definition scan_number :: "string \<Rightarrow> (string \<times> string) option" where
  "scan_number s =
     (if s \<noteq> [] \<and> hd s = CHR ''-'' then map_option (\<lambda>(d, r). (CHR ''-'' # d, r)) (scan_unsigned (tl s)) else scan_unsigned s)"

definition scan_literal :: "string \<Rightarrow> (json \<times> string) option" where
  "scan_literal s =
     (if HasPrefix s ''true'' then Some (JBool True, drop 4 s)
      else if HasPrefix s ''false'' then Some (JBool False, drop 5 s)
      else if HasPrefix s ''null'' then Some (JNull, drop 4 s)
      else map_option (\<lambda>(l, r). (JNum l, r)) (scan_number s))"

fun scan_value :: "nat \<Rightarrow> string \<Rightarrow> (json \<times> string) option"
  and scan_elements :: "nat \<Rightarrow> string \<Rightarrow> (json list \<times> string) option"
  and scan_members :: "nat \<Rightarrow> string \<Rightarrow> ((string \<times> json) list \<times> string) option"
where
  "scan_value 0 s = None"
| "scan_value (Suc n) s0 =
     (let s = skip_space s0 in
      case s of
        [] \<Rightarrow> None
      | c # r \<Rightarrow>
          if c = DQ then map_option (\<lambda>(t, q). (JStr t, q)) (scan_string (length r) r)
          else if c = CHR ''['' then
            (if skip_space r \<noteq> [] \<and> hd (skip_space r) = CHR '']'' then Some (JArr [], tl (skip_space r))
             else map_option (\<lambda>(vs, q). (JArr vs, q)) (scan_elements n r))
          else if c = CHR 0x7B then
            (if skip_space r \<noteq> [] \<and> hd (skip_space r) = CHR 0x7D then Some (JObj [], tl (skip_space r))
             else map_option (\<lambda>(ms, q). (JObj ms, q)) (scan_members n r))
          else scan_literal s)"
| "scan_elements 0 s = None"
| "scan_elements (Suc n) s =
     (case scan_value n s of
        None \<Rightarrow> None
      | Some (v, r) \<Rightarrow>
          (case skip_space r of
             [] \<Rightarrow> None
           | c # q \<Rightarrow>
               if c = CHR '','' then map_option (\<lambda>(vs, p). (v # vs, p)) (scan_elements n q)
               else if c = CHR '']'' then Some ([v], q)
               else None))"
| "scan_members 0 s = None"
| "scan_members (Suc n) s =
     (case skip_space s of
        [] \<Rightarrow> None
      | c # r \<Rightarrow>
          if c \<noteq> DQ then None
          else case scan_string (length r) r of
            None \<Rightarrow> None
          | Some (k, r) \<Rightarrow>
              (case skip_space r of
                 [] \<Rightarrow> None
               | c # r \<Rightarrow>
                   if c \<noteq> CHR '':'' then None
                   else case scan_value n r of
                     None \<Rightarrow> None
                   | Some (v, r) \<Rightarrow>
                       (case skip_space r of
                          [] \<Rightarrow> None
                        | c # q \<Rightarrow>
                            if c = CHR '','' then map_option (\<lambda>(ms, p). ((k, v) # ms, p)) (scan_members n q)
                            else if c = CHR 0x7D then Some ([(k, v)], q)
                            else None)))"

text \<open>One value and nothing but white space after it.\<close>

definition Parse_json :: "string \<Rightarrow> json option" where
  "Parse_json s =
     (case scan_value (length s) s of
        None \<Rightarrow> None
      | Some (v, r) \<Rightarrow> if skip_space r = [] then Some v else None)"

section \<open>The round trip\<close>

text \<open>A byte after a value ends it.\<close>

definition ends :: "string \<Rightarrow> bool" where
  "ends rest \<longleftrightarrow> rest = [] \<or> hd rest = CHR '','' \<or> hd rest = CHR '']'' \<or> hd rest = CHR 0x7D"

lemma of_char_small: "n < 256 \<Longrightarrow> (of_char (char_of n :: char) :: nat) = n"
  by simp

lemma hex_value_digit: "n < 16 \<Longrightarrow> hex_value (hex_digit n) = Some n"
  by (auto simp: hex_value_def hex_digit_def Let_def)

lemma hex_digit_not_special: "n < 16 \<Longrightarrow> hex_digit n \<noteq> DQ"
  by (auto simp: hex_digit_def DQ_def char_eq_nat)

lemma escape_char_cases:
  obtains (quote) "c = DQ \<or> c = BS" | (b) "c = CHR 0x08" | (f) "c = CHR 0x0C" | (n) "c = CHR 0x0A" | (r) "c = CHR 0x0D" | (t) "c = CHR 0x09"
    | (hex) "escape_char c = [BS, CHR ''u'', CHR ''0'', CHR ''0'', hex_digit ((of_char c :: nat) div 16), hex_digit ((of_char c :: nat) mod 16)]"
        "(of_char c :: nat) < 128"
    | (plain) "escape_char c = [c]" "c \<noteq> DQ" "c \<noteq> BS" "\<not> (of_char c :: nat) < 32"
proof -
  let ?n = "of_char c :: nat"
  let ?h = "c = CHR ''<'' \<or> c = CHR ''>'' \<or> c = CHR ''&''"
  have controls: "(?n = 8) = (c = CHR 0x08)" "(?n = 12) = (c = CHR 0x0C)" "(?n = 10) = (c = CHR 0x0A)" "(?n = 13) = (c = CHR 0x0D)" "(?n = 9) = (c = CHR 0x09)"
    by (simp_all add: char_eq_nat)
  have small: "?h \<Longrightarrow> ?n < 128" by auto
  note e = escape_char_def [of c, unfolded Let_def controls]
  show thesis
  proof (cases "c = DQ \<or> c = BS \<or> c = CHR 0x08 \<or> c = CHR 0x0C \<or> c = CHR 0x0A \<or> c = CHR 0x0D \<or> c = CHR 0x09")
    case True then show thesis using quote b f n r t by blast
  next
    case other: False
    show thesis
    proof (cases "?n < 32 \<or> ?h")
      case True
      have "?n < 128" using True small by force
      moreover have "escape_char c = [BS, CHR ''u'', CHR ''0'', CHR ''0'', hex_digit (?n div 16), hex_digit (?n mod 16)]"
        by (subst e) (use other True in simp)
      ultimately show thesis by (rule hex [rotated])
    next
      case False
      moreover have "escape_char c = [c]" by (subst e) (use other False in simp)
      ultimately show thesis using plain other by blast
    qed
  qed
qed

lemma scan_string_escape:
  assumes "length (escape_char c) \<le> k"
  shows "\<exists>m < k. k \<le> m + length (escape_char c) \<and>
    scan_string k (escape_char c @ rest) = map_option (\<lambda>(u, q). (c # u, q)) (scan_string m rest)"
proof -
  let ?n = "of_char c :: nat"
  have lt: "?n < 256" by simp
  obtain k1 where k: "k = Suc k1" using assms by (cases k) (auto simp: escape_char_def Let_def split: if_splits)
  have simple: ?thesis if "escape_char c = [BS, x]" "simple_escape x = Some c" "x \<noteq> CHR ''u''" for x
    using that k by (intro exI [of _ k1]) (simp add: BS_def DQ_def)
  have u: ?thesis if e: "escape_char c = [BS, CHR ''u'', CHR ''0'', CHR ''0'', hex_digit (?n div 16), hex_digit (?n mod 16)]" and small: "?n < 128"
  proof -
    have "hex_value (CHR ''0'') = Some 0" by (simp add: hex_value_def)
    moreover have "hex_value (hex_digit (?n div 16)) = Some (?n div 16)" "hex_value (hex_digit (?n mod 16)) = Some (?n mod 16)"
      using lt by (auto intro!: hex_value_digit, linarith)
    ultimately have "unicode_escape (CHR ''0'' # CHR ''0'' # hex_digit (?n div 16) # hex_digit (?n mod 16) # rest) = Some ([c], rest)"
      using small by (simp add: unicode_escape_def utf8_def)
    then show ?thesis using e k by (intro exI [of _ k1]) (simp add: BS_def DQ_def)
  qed
  show ?thesis
  proof (cases c rule: escape_char_cases)
    case quote
    then show ?thesis using simple [of c] by (auto simp: escape_char_def simple_escape_def DQ_def BS_def)
  next
    case b
    then show ?thesis by (intro simple [of "CHR ''b''"]) (simp_all add: escape_char_def simple_escape_def DQ_def BS_def)
  next
    case f
    then show ?thesis by (intro simple [of "CHR ''f''"]) (simp_all add: escape_char_def simple_escape_def DQ_def BS_def)
  next
    case n
    then show ?thesis by (intro simple [of "CHR ''n''"]) (simp_all add: escape_char_def simple_escape_def DQ_def BS_def)
  next
    case r
    then show ?thesis by (intro simple [of "CHR ''r''"]) (simp_all add: escape_char_def simple_escape_def DQ_def BS_def)
  next
    case t
    then show ?thesis by (intro simple [of "CHR ''t''"]) (simp_all add: escape_char_def simple_escape_def DQ_def BS_def)
  next
    case hex then show ?thesis by (rule u)
  next
    case plain then show ?thesis using k by (intro exI [of _ k1]) simp
  qed
qed

lemma scan_string_text:
  "length (concat (map escape_char s)) < k \<Longrightarrow> scan_string k (concat (map escape_char s) @ DQ # rest) = Some (s, rest)"
proof (induction s arbitrary: k)
  case Nil
  then show ?case by (cases k) simp_all
next
  case (Cons c s)
  then obtain m where "m < k" "k \<le> m + length (escape_char c)"
    "scan_string k (escape_char c @ concat (map escape_char s) @ DQ # rest) = map_option (\<lambda>(u, q). (c # u, q)) (scan_string m (concat (map escape_char s) @ DQ # rest))"
    using scan_string_escape [of c k "concat (map escape_char s) @ DQ # rest"] by auto
  then show ?case using Cons by simp
qed

lemma takeWhile_digits: "list_all is_digit d \<Longrightarrow> rest = [] \<or> \<not> is_digit (hd rest) \<Longrightarrow> takeWhile is_digit (d @ rest) = d"
  by (cases rest) (auto simp: list_all_iff takeWhile_append)

lemma decimal_digits: "list_all is_digit (decimal n) \<and> decimal n \<noteq> [] \<and> (hd (decimal n) = CHR ''0'' \<longrightarrow> n = 0)"
proof (induction n rule: decimal.induct)
  case (1 n)
  have d: "is_digit (digit (int k))" if "k < 10" for k using that by (simp add: is_digit_digit)
  have z: "digit (int k) = CHR ''0'' \<Longrightarrow> k = 0" if "k < 10" for k
    using that of_char_digit [of "int k"] by (auto simp: char_eq_nat)
  show ?case
  proof (cases "n < 10")
    case True
    then show ?thesis using d [of n] z [of n] by (simp add: decimal_digit)
  next
    case False
    then have "n div 10 \<noteq> 0" by simp
    then show ?thesis using False 1 d [of "n mod 10"] by (simp add: decimal_more)
  qed
qed

lemma ends_not_number:
  "ends rest \<Longrightarrow> rest = [] \<or> \<not> is_digit (hd rest) \<and> hd rest \<noteq> CHR ''.'' \<and> hd rest \<noteq> CHR ''e'' \<and> hd rest \<noteq> CHR ''E''"
  by (auto simp: ends_def is_digit_def)

lemma scan_unsigned_decimal:
  assumes "ends rest"
  shows "scan_unsigned (decimal n @ rest) = Some (decimal n, rest)"
proof -
  note e = ends_not_number [OF assms] and d = decimal_digits [of n]
  have "scan_int (decimal n @ rest) = Some (decimal n, rest)"
  proof (cases "n = 0")
    case True
    have "digit 0 = CHR ''0''" by (simp add: digit_def char_eq_nat)
    with True show ?thesis by (simp add: scan_int_def decimal_digit)
  next
    case False
    then obtain c r where c: "decimal n = c # r" "c \<noteq> CHR ''0''" using d by (cases "decimal n") auto
    have "takeWhile is_digit (decimal n @ rest) = decimal n" using d e by (intro takeWhile_digits) auto
    then have "scan_digits (decimal n @ rest) = Some (decimal n, rest)" using d by (simp add: scan_digits_def Let_def)
    then show ?thesis using c by (simp add: scan_int_def)
  qed
  moreover have "scan_fraction rest = Some ([], rest)" "scan_exponent rest = Some ([], rest)"
    using e by (auto simp: scan_fraction_def scan_exponent_def)
  ultimately show ?thesis by (simp add: scan_unsigned_def)
qed

lemma scan_number_Itoa:
  assumes "ends rest"
  shows "scan_number (Itoa i @ rest) = Some (Itoa i, rest)"
proof (cases "i < 0")
  case True
  then show ?thesis using scan_unsigned_decimal [OF assms] by (simp add: scan_number_def Itoa_def)
next
  case False
  have "decimal (nat i) \<noteq> []" "is_digit (hd (decimal (nat i)))"
    using decimal_digits [of "nat i"] hd_in_set [of "decimal (nat i)"] by (auto simp: list_all_iff)
  then have "hd (decimal (nat i)) \<noteq> CHR ''-''" by (auto simp: is_digit_def)
  then show ?thesis using False scan_unsigned_decimal [OF assms] decimal_digits [of "nat i"] by (simp add: scan_number_def Itoa_def)
qed

lemma Itoa_hd: "\<exists>c r. Itoa i = c # r \<and> (c = CHR ''-'' \<or> is_digit c)"
  using decimal_digits [of "nat i"] by (cases "decimal (nat i)") (auto simp: Itoa_def)

text \<open>The trees that the code writes: their numbers are integers.\<close>

fun json_ok :: "json \<Rightarrow> bool" where
  "json_ok (JNum l) = (\<exists>i. l = Itoa i)"
| "json_ok (JArr vs) = list_all json_ok vs"
| "json_ok (JObj ms) = list_all (\<lambda>(k, v). json_ok v) ms"
| "json_ok _ = True"

lemma skip_not_space: "\<not> json_space c \<Longrightarrow> skip_space (c # r) = c # r"
  by (simp add: skip_space_def)

lemma digit_not_json_space: "is_digit c \<Longrightarrow> \<not> json_space c"
  by (auto simp: is_digit_def json_space_def)

lemma Marshal_hd:
  assumes "json_ok v"
  shows "\<exists>c r. Marshal v = c # r \<and> \<not> json_space c \<and> c \<noteq> CHR '']'' \<and> c \<noteq> CHR 0x7D"
proof (cases v)
  case (JNum l)
  then show ?thesis using assms Itoa_hd digit_not_json_space by (fastforce simp: json_space_def is_digit_def)
qed (use assms in \<open>auto simp: json_string_def DQ_def json_space_def\<close>)

lemma ends_skip: "ends (c # r) \<Longrightarrow> skip_space (c # r) = c # r"
  by (rule skip_not_space) (auto simp: ends_def json_space_def)

lemma scan_literal_number:
  assumes "ends rest"
  shows "scan_literal (Itoa i @ rest) = Some (JNum (Itoa i), rest)"
proof -
  obtain c r where c: "Itoa i = c # r" "c = CHR ''-'' \<or> is_digit c" using Itoa_hd by blast
  then have "c \<noteq> CHR ''t''" "c \<noteq> CHR ''f''" "c \<noteq> CHR ''n''" by (auto simp: is_digit_def)
  then have "\<not> HasPrefix (Itoa i @ rest) ''true''" "\<not> HasPrefix (Itoa i @ rest) ''false''" "\<not> HasPrefix (Itoa i @ rest) ''null''"
    using c(1) by (auto simp: HasPrefix_iff)
  then show ?thesis using scan_number_Itoa [OF assms] by (simp add: scan_literal_def)
qed

lemma json_string_scan:
  "scan_string (length (concat (map escape_char s) @ DQ # rest)) (concat (map escape_char s) @ DQ # rest) = Some (s, rest)"
  by (rule scan_string_text) simp

lemma DQ_not [simp]: "CHR ''['' \<noteq> DQ" "CHR 0x7B \<noteq> DQ" "CHR '']'' \<noteq> DQ" "CHR 0x7D \<noteq> DQ" "CHR '','' \<noteq> DQ" "DQ \<noteq> CHR ''[''" "DQ \<noteq> CHR 0x7B" "DQ \<noteq> CHR '']''" "DQ \<noteq> CHR 0x7D" "DQ \<noteq> CHR '',''" "\<not> json_space DQ"
  by (simp_all add: DQ_def json_space_def)

lemma punctuation_not_space [simp]:
  "\<not> json_space (CHR ''['')" "\<not> json_space (CHR 0x7B)" "\<not> json_space (CHR '','')" "\<not> json_space (CHR '']'')" "\<not> json_space (CHR 0x7D)"
  "\<not> json_space (CHR '':'')"
  by (simp_all add: json_space_def)

text \<open>What remains to be proved of the three scanners with fuel \<open>n\<close>.\<close>

definition scans_values :: "nat \<Rightarrow> bool" where
  "scans_values n \<longleftrightarrow> (\<forall>v rest. json_ok v \<and> length (Marshal v) \<le> n \<and> ends rest \<longrightarrow> scan_value n (Marshal v @ rest) = Some (v, rest))"

definition scans_elements :: "nat \<Rightarrow> bool" where
  "scans_elements n \<longleftrightarrow> (\<forall>vs rest. vs \<noteq> [] \<and> list_all json_ok vs \<and> length (Join (map Marshal vs) '','') < n \<longrightarrow>
     scan_elements n (Join (map Marshal vs) '','' @ CHR '']'' # rest) = Some (vs, rest))"

definition member_text :: "string \<times> json \<Rightarrow> string" where
  "member_text m = json_string (fst m) @ '':'' @ Marshal (snd m)"

definition scans_members :: "nat \<Rightarrow> bool" where
  "scans_members n \<longleftrightarrow> (\<forall>ms rest. ms \<noteq> [] \<and> list_all (json_ok \<circ> snd) ms \<and> length (Join (map member_text ms) '','') < n \<longrightarrow>
     scan_members n (Join (map member_text ms) '','' @ CHR 0x7D # rest) = Some (ms, rest))"

lemma Marshal_members: "Marshal (JObj ms) = [CHR 0x7B] @ Join (map member_text ms) '','' @ [CHR 0x7D]"
  by (simp add: member_text_def [abs_def] case_prod_beta')

lemma json_ok_members: "json_ok (JObj ms) = list_all (json_ok \<circ> snd) ms"
  by (simp add: case_prod_beta' comp_def)

lemma number_start: "c = CHR ''-'' \<or> is_digit c \<Longrightarrow> \<not> json_space c \<and> c \<noteq> DQ \<and> c \<noteq> CHR ''['' \<and> c \<noteq> CHR 0x7B"
  by (auto simp: json_space_def DQ_def is_digit_def)

lemma Join_hd: "vs \<noteq> [] \<Longrightarrow> f (hd vs) = c # r \<Longrightarrow> \<exists>q. Join (map f vs) sep = c # q"
  by (induction vs rule: induct_list012) simp_all

lemma scans_values_Suc:
  assumes "scans_elements n" "scans_members n"
  shows "scans_values (Suc n)"
  unfolding scans_values_def
proof (intro allI impI; elim conjE)
  fix v rest assume v: "json_ok v" and len: "length (Marshal v) \<le> Suc n" and rest: "ends rest"
  show "scan_value (Suc n) (Marshal v @ rest) = Some (v, rest)"
  proof (cases v)
    case (JNum l)
    then obtain i where i: "l = Itoa i" using v by auto
    obtain c r where c: "Itoa i = c # r" "c = CHR ''-'' \<or> is_digit c" using Itoa_hd by blast
    have "\<not> json_space c \<and> c \<noteq> DQ \<and> c \<noteq> CHR ''['' \<and> c \<noteq> CHR 0x7B" using c(2) by (rule number_start)
    then show ?thesis using JNum i c(1) scan_literal_number [OF rest, of i] by (simp add: skip_not_space)
  next
    case (JStr s)
    then show ?thesis using json_string_scan [of s rest] by (simp add: json_string_def skip_not_space)
  next
    case (JArr vs)
    show ?thesis
    proof (cases "vs = []")
      case False
      obtain c r where "Marshal (hd vs) = c # r" "\<not> json_space c" "c \<noteq> CHR '']''"
        using v JArr False Marshal_hd [of "hd vs"] by (auto simp: list_all_iff)
      then obtain q where "Join (map Marshal vs) '','' = c # q" "\<not> json_space c" "c \<noteq> CHR '']''"
        using Join_hd [OF False] by blast
      moreover have "scan_elements n (Join (map Marshal vs) '','' @ CHR '']'' # rest) = Some (vs, rest)"
        using assms(1) v JArr False len by (simp add: scans_elements_def)
      ultimately show ?thesis using JArr by (simp add: skip_not_space DQ_def)
    qed (use JArr in \<open>simp add: skip_not_space DQ_def\<close>)
  next
    case (JObj ms)
    show ?thesis
    proof (cases "ms = []")
      case False
      obtain q where "Join (map member_text ms) '','' = DQ # q"
        using Join_hd [OF False, of member_text DQ] by (auto simp: member_text_def json_string_def)
      moreover have "scan_members n (Join (map member_text ms) '','' @ CHR 0x7D # rest) = Some (ms, rest)"
        using assms(2) v JObj False len unfolding scans_members_def json_ok_members Marshal_members JObj by (simp del: Marshal.simps)
      ultimately show ?thesis using JObj by (simp add: Marshal_members skip_not_space del: Marshal.simps)
    qed (use JObj in \<open>simp add: skip_not_space\<close>)
  qed (auto simp: skip_not_space json_space_def DQ_def scan_literal_def HasPrefix_iff)
qed

lemma scans_elements_Suc:
  assumes "scans_values n" "scans_elements n"
  shows "scans_elements (Suc n)"
  unfolding scans_elements_def
proof (intro allI impI; elim conjE)
  fix vs rest assume vs: "vs \<noteq> []" "list_all json_ok vs" and len: "length (Join (map Marshal vs) '','') < Suc n"
  obtain v us where cons: "vs = v # us" using vs(1) by (cases vs) auto
  show "scan_elements (Suc n) (Join (map Marshal vs) '','' @ CHR '']'' # rest) = Some (vs, rest)"
  proof (cases "us = []")
    case True
    then have "scan_value n (Marshal v @ CHR '']'' # rest) = Some (v, CHR '']'' # rest)"
      using assms(1) vs len cons by (simp add: scans_values_def ends_def)
    then show ?thesis using True cons by (simp add: skip_not_space)
  next
    case False
    have j: "Join (map Marshal vs) '','' = Marshal v @ CHR '','' # Join (map Marshal us) '',''"
      using cons False by (cases us) auto
    let ?more = "Join (map Marshal us) '','' @ CHR '']'' # rest"
    have "scan_value n (Marshal v @ CHR '','' # ?more) = Some (v, CHR '','' # ?more)"
      using assms(1) vs len cons j by (simp add: scans_values_def ends_def)
    moreover have "scan_elements n ?more = Some (us, rest)"
      using assms(2) vs len cons j False by (simp add: scans_elements_def)
    ultimately show ?thesis using cons j by (simp add: skip_not_space)
  qed
qed

lemma scan_members_member:
  "scan_members (Suc n) (member_text (k, v) @ r) =
     (case scan_value n (Marshal v @ r) of
        None \<Rightarrow> None
      | Some (v, r) \<Rightarrow>
          (case skip_space r of
             [] \<Rightarrow> None
           | c # q \<Rightarrow>
               if c = CHR '','' then map_option (\<lambda>(ms, p). ((k, v) # ms, p)) (scan_members n q)
               else if c = CHR 0x7D then Some ([(k, v)], q)
               else None))"
  using json_string_scan [of k "CHR '':'' # Marshal v @ r"]
  by (simp add: member_text_def json_string_def skip_not_space)

lemma scans_members_Suc:
  assumes "scans_values n" "scans_members n"
  shows "scans_members (Suc n)"
  unfolding scans_members_def
proof (intro allI impI; elim conjE)
  fix ms rest assume ms: "ms \<noteq> []" "list_all (json_ok \<circ> snd) ms" and len: "length (Join (map member_text ms) '','') < Suc n"
  obtain k v us where cons: "ms = (k, v) # us" using ms(1) by (cases ms) auto
  have shorter: "length (Marshal v) < length (member_text (k, v))" by (simp add: member_text_def json_string_def)
  show "scan_members (Suc n) (Join (map member_text ms) '','' @ CHR 0x7D # rest) = Some (ms, rest)"
  proof (cases "us = []")
    case True
    then have "scan_value n (Marshal v @ CHR 0x7D # rest) = Some (v, CHR 0x7D # rest)"
      using assms(1) ms len cons shorter by (simp add: scans_values_def ends_def)
    then show ?thesis using True cons by (simp add: skip_not_space scan_members_member del: scan_members.simps)
  next
    case False
    have j: "Join (map member_text ms) '','' = member_text (k, v) @ CHR '','' # Join (map member_text us) '',''"
      using cons False by (cases us) auto
    let ?more = "Join (map member_text us) '','' @ CHR 0x7D # rest"
    have "scan_value n (Marshal v @ CHR '','' # ?more) = Some (v, CHR '','' # ?more)"
      using assms(1) ms len cons j shorter by (simp add: scans_values_def ends_def)
    moreover have "scan_members n ?more = Some (us, rest)"
      using assms(2) ms len cons j False by (simp add: scans_members_def)
    ultimately show ?thesis using cons j by (simp add: skip_not_space scan_members_member del: scan_members.simps)
  qed
qed

lemma Marshal_not_Nil: "json_ok v \<Longrightarrow> Marshal v \<noteq> []"
  using Marshal_hd by fastforce

lemma scans_all: "scans_values n \<and> scans_elements n \<and> scans_members n"
proof (induction n)
  case 0
  then show ?case using Marshal_not_Nil by (auto simp: scans_values_def scans_elements_def scans_members_def)
next
  case (Suc n)
  then show ?case by (simp add: scans_values_Suc scans_elements_Suc scans_members_Suc)
qed

lemma scan_value_Marshal:
  "json_ok v \<Longrightarrow> length (Marshal v) \<le> n \<Longrightarrow> ends rest \<Longrightarrow> scan_value n (Marshal v @ rest) = Some (v, rest)"
  using scans_all [of n] by (simp add: scans_values_def)

lemma Parse_Marshal: "json_ok v \<Longrightarrow> Parse_json (Marshal v) = Some v"
  using scan_value_Marshal [of v "length (Marshal v)" "[]"] by (simp add: Parse_json_def ends_def skip_space_def)

end
