(* ===== verification/Json_Fields.thy ===== *)
theory Json_Fields
  imports Go_Json Go_Effects
begin

text \<open>
  How \<open>encoding/json\<close> maps structs: a struct is described by the fields of its tags, each with its name, whether
  \<open>omitempty\<close> leaves it out, its encoding and its decoding over the value that is there. \<open>Unmarshal\<close> goes through the
  members of the object in order, matches names without regard to case, skips unknown names, and
  stops here at the first type error, which is the error it returns. A null changes nothing, except that it clears a slice.
\<close>

section \<open>Descriptions of structs\<close>

record 'a json_field =
  jf_name :: string
  jf_omit :: "'a \<Rightarrow> bool"
  jf_enc :: "'a \<Rightarrow> json"
  jf_dec :: "json \<Rightarrow> 'a \<Rightarrow> 'a result"

definition type_error :: go_error where
  "type_error = ErrorString ''json: cannot unmarshal value into Go struct field''"

definition encode_struct :: "'a json_field list \<Rightarrow> 'a \<Rightarrow> json" where
  "encode_struct fs x = JObj (map (\<lambda>f. (jf_name f, jf_enc f x)) (filter (\<lambda>f. \<not> jf_omit f x) fs))"

definition field_named :: "'a json_field list \<Rightarrow> string \<Rightarrow> 'a json_field option" where
  "field_named fs k = find (\<lambda>f. jf_name f = ToLower k) fs"

fun decode_members :: "'a json_field list \<Rightarrow> (string \<times> json) list \<Rightarrow> 'a \<Rightarrow> 'a result" where
  "decode_members fs [] x = Inr x"
| "decode_members fs ((k, v) # ms) x =
     (case field_named fs k of
        None \<Rightarrow> decode_members fs ms x
      | Some f \<Rightarrow> (case jf_dec f v x of Inl e \<Rightarrow> Inl e | Inr y \<Rightarrow> decode_members fs ms y))"

definition decode_struct :: "'a json_field list \<Rightarrow> json \<Rightarrow> 'a \<Rightarrow> 'a result" where
  "decode_struct fs v x =
     (case v of
        JObj ms \<Rightarrow> decode_members fs ms x
      | JNull \<Rightarrow> Inr x
      | _ \<Rightarrow> Inl type_error)"

definition field ::
  "string \<Rightarrow> bool \<Rightarrow> ('v \<Rightarrow> bool) \<Rightarrow> ('v \<Rightarrow> json) \<Rightarrow> (json \<Rightarrow> 'v \<Rightarrow> 'v result) \<Rightarrow> ('a \<Rightarrow> 'v) \<Rightarrow> ('v \<Rightarrow> 'a \<Rightarrow> 'a) \<Rightarrow> 'a json_field" where
  "field name omitempty zero enc dec get put =
     \<lparr>jf_name = name, jf_omit = (\<lambda>x. omitempty \<and> zero (get x)), jf_enc = (\<lambda>x. enc (get x)),
      jf_dec = (\<lambda>v x. map_sum id (\<lambda>y. put y x) (dec v (get x)))\<rparr>"

section \<open>Values\<close>

definition decode_string :: "json \<Rightarrow> string \<Rightarrow> string result" where
  "decode_string v old = (case v of JStr s \<Rightarrow> Inr s | JNull \<Rightarrow> Inr old | _ \<Rightarrow> Inl type_error)"

definition decode_bool :: "json \<Rightarrow> bool \<Rightarrow> bool result" where
  "decode_bool v old = (case v of JBool b \<Rightarrow> Inr b | JNull \<Rightarrow> Inr old | _ \<Rightarrow> Inl type_error)"

text \<open>\<open>strconv.ParseInt\<close> of a literal that the scanner took, and its range for an \<open>int\<close>.\<close>

definition int64_range :: "int \<Rightarrow> bool" where
  "int64_range i \<longleftrightarrow> - (2 ^ 63) \<le> i \<and> i < 2 ^ 63"

definition parse_int :: "string \<Rightarrow> int option" where
  "parse_int s =
     (case (if s \<noteq> [] \<and> hd s = CHR ''-'' then map_option uminus (parse_digits 0 (tl s)) else parse_digits 0 s) of
        None \<Rightarrow> None
      | Some i \<Rightarrow> if int64_range i then Some i else None)"

definition decode_int :: "json \<Rightarrow> int \<Rightarrow> int result" where
  "decode_int v old =
     (case v of
        JNum l \<Rightarrow> (case parse_int l of None \<Rightarrow> Inl type_error | Some i \<Rightarrow> Inr i)
      | JNull \<Rightarrow> Inr old
      | _ \<Rightarrow> Inl type_error)"

text \<open>A slice is decoded over the elements that it has; further elements are decoded over the zero value.\<close>

fun decode_elements :: "(json \<Rightarrow> 'v \<Rightarrow> 'v result) \<Rightarrow> 'v \<Rightarrow> json list \<Rightarrow> 'v list \<Rightarrow> 'v list result" where
  "decode_elements dec zero [] olds = Inr []"
| "decode_elements dec zero (v # vs) olds =
     (case dec v (case olds of [] \<Rightarrow> zero | x # _ \<Rightarrow> x) of
        Inl e \<Rightarrow> Inl e
      | Inr y \<Rightarrow> map_sum id ((#) y) (decode_elements dec zero vs (tl olds)))"

definition decode_slice :: "(json \<Rightarrow> 'v \<Rightarrow> 'v result) \<Rightarrow> 'v \<Rightarrow> json \<Rightarrow> 'v list \<Rightarrow> 'v list result" where
  "decode_slice dec zero v olds =
     (case v of
        JArr vs \<Rightarrow> decode_elements dec zero vs olds
      | JNull \<Rightarrow> Inr []
      | _ \<Rightarrow> Inl type_error)"

text \<open>An empty slice is written as null when it is nil.\<close>

definition encode_slice :: "bool \<Rightarrow> ('v \<Rightarrow> json) \<Rightarrow> 'v list \<Rightarrow> json" where
  "encode_slice is_nil enc xs = (if xs = [] \<and> is_nil then JNull else JArr (map enc xs))"

section \<open>Facts\<close>

lemma decode_string_enc [simp]: "decode_string (JStr s) old = Inr s"
  by (simp add: decode_string_def)

lemma decode_bool_enc [simp]: "decode_bool (JBool b) old = Inr b"
  by (simp add: decode_bool_def)

lemma parse_digits_decimal: "parse_digits 0 (decimal n) = Some (int n)"
  by (rule parse_decimal)

lemma parse_int_Itoa: "int64_range i \<Longrightarrow> parse_int (Itoa i) = Some i"
proof (cases "i < 0")
  case False
  have "hd (decimal (nat i)) \<noteq> CHR ''-''"
    using Itoa_hd [of i] False decimal_digits [of "nat i"] by (cases "decimal (nat i)") (auto simp: is_digit_def)
  then show "int64_range i \<Longrightarrow> ?thesis" using False by (simp add: parse_int_def Itoa_def parse_digits_decimal)
qed (simp add: parse_int_def Itoa_def parse_digits_decimal)

lemma decode_int_enc [simp]: "int64_range i \<Longrightarrow> decode_int (JNum (Itoa i)) old = Inr i"
  by (simp add: decode_int_def parse_int_Itoa)

lemma decode_slice_enc:
  assumes "\<And>x old. x \<in> set xs \<Longrightarrow> old = zero \<or> old \<in> set olds \<Longrightarrow> dec (enc x) old = Inr x"
  shows "decode_slice dec zero (encode_slice n enc xs) olds = Inr xs"
proof -
  have "decode_elements dec zero (map enc xs) olds = Inr xs"
    using assms
  proof (induction xs arbitrary: olds)
    case (Cons x xs)
    have "dec (enc x) (case olds of [] \<Rightarrow> zero | y # _ \<Rightarrow> y) = Inr x" using Cons.prems by (auto split: list.split)
    moreover have "decode_elements dec zero (map enc xs) (tl olds) = Inr xs"
      using Cons.prems by (intro Cons.IH; cases olds) auto
    ultimately show ?case by simp
  qed simp
  then show ?thesis by (simp add: decode_slice_def encode_slice_def)
qed

lemma Join_part: "x \<in> set xs \<Longrightarrow> \<exists>a b. Join xs sep = a @ x @ b"
proof (induction xs sep rule: Join.induct)
  case (2 x' sep)
  then show ?case by (rule_tac x = "[]" in exI, rule_tac x = "[]" in exI) simp
next
  case (3 x' y ys sep)
  show ?case
  proof (cases "x = x'")
    case True then show ?thesis by (rule_tac x = "[]" in exI, rule_tac x = "sep @ Join (y # ys) sep" in exI) simp
  next
    case False
    then obtain a b where "Join (y # ys) sep = a @ x @ b" using 3 by auto
    then show ?thesis by (rule_tac x = "x' @ sep @ a" in exI, rule_tac x = b in exI) simp
  qed
qed simp_all

text \<open>The text of an object contains its keys and whatever the texts of its members contain.\<close>

lemma Contains_part: "Contains p k \<Longrightarrow> Contains (a @ p @ b) k"
  unfolding Contains_iff by (metis append.assoc)

lemma Contains_key:
  assumes "(k, v) \<in> set ms" and "\<forall>c \<in> set k. escape_char c = [c]"
  shows "Contains (Marshal (JObj ms)) k"
proof -
  have "concat (map escape_char k) = k" using assms(2) by (induction k) auto
  then have "member_text (k, v) = [DQ] @ k @ (DQ # '':'' @ Marshal v)" by (simp add: member_text_def json_string_def)
  moreover obtain a b where "Join (map member_text ms) '','' = a @ member_text (k, v) @ b"
    using Join_part [of "member_text (k, v)" "map member_text ms" "'',''"] assms(1) by force
  ultimately have "Marshal (JObj ms) = (CHR 0x7B # a @ [DQ]) @ k @ (DQ # '':'' @ Marshal v @ b @ [CHR 0x7D])"
    by (simp add: Marshal_members del: Marshal.simps)
  then show ?thesis unfolding Contains_iff by blast
qed

lemma Contains_member:
  assumes "(k, v) \<in> set ms" and "Contains (Marshal v) p"
  shows "Contains (Marshal (JObj ms)) p"
proof -
  obtain a b where "Join (map member_text ms) '','' = a @ member_text (k, v) @ b"
    using Join_part [of "member_text (k, v)" "map member_text ms" "'',''"] assms(1) by force
  then have "Marshal (JObj ms) = (CHR 0x7B # a @ json_string k @ '':'') @ Marshal v @ (b @ [CHR 0x7D])"
    by (simp add: Marshal_members member_text_def del: Marshal.simps)
  then show ?thesis using Contains_part [OF assms(2)] by metis
qed

text \<open>
  Decoding what was encoded, field by field: each written field is decoded to its value, and a field that
  was left out has that value already.
\<close>

fun run_fields :: "'a json_field list \<Rightarrow> 'a \<Rightarrow> 'a \<Rightarrow> 'a option" where
  "run_fields [] x b = Some b"
| "run_fields (f # fs) x b =
     (case jf_dec f (jf_enc f x) b of
        Inl _ \<Rightarrow> None
      | Inr y \<Rightarrow> if jf_omit f x \<and> y \<noteq> b then None else run_fields fs x y)"

definition names_ok :: "'a json_field list \<Rightarrow> bool" where
  "names_ok fs \<longleftrightarrow> distinct (map jf_name fs) \<and> (\<forall>f \<in> set fs. ToLower (jf_name f) = jf_name f)"

lemma field_named_own:
  assumes "names_ok fs" and "f \<in> set fs"
  shows "field_named fs (jf_name f) = Some f"
proof -
  have "find (\<lambda>g. jf_name g = jf_name f) fs = Some f"
    using assms by (induction fs) (auto simp: names_ok_def)
  then show ?thesis using assms by (simp add: field_named_def names_ok_def)
qed

lemma decode_struct_enc:
  assumes "names_ok fs" and "run_fields fs x b = Some x"
  shows "decode_struct fs (encode_struct fs x) b = Inr x"
proof -
  have "decode_members fs (map (\<lambda>f. (jf_name f, jf_enc f x)) (filter (\<lambda>f. \<not> jf_omit f x) gs)) b = Inr y"
    if "set gs \<subseteq> set fs" "run_fields gs x b = Some y" for gs y
    using that
  proof (induction gs arbitrary: b)
    case (Cons g gs)
    then show ?case
      using field_named_own [OF assms(1), of g] by (cases "jf_dec g (jf_enc g x) b") (auto split: if_splits)
  qed simp
  then show ?thesis using assms(2) by (simp add: decode_struct_def encode_struct_def)
qed

text \<open>Decoding looks at the names and the decoders only.\<close>

lemma decode_struct_cong:
  assumes "map (\<lambda>f. (jf_name f, jf_dec f)) fs = map (\<lambda>f. (jf_name f, jf_dec f)) gs"
  shows "decode_struct fs = decode_struct gs"
proof -
  have "map_option jf_dec (field_named fs k) = map_option jf_dec (field_named gs k)" for k
    using assms unfolding field_named_def
  proof (induction fs arbitrary: gs)
    case (Cons f fs)
    then show ?case by (cases gs) auto
  qed simp
  then have "decode_members fs ms x = decode_members gs ms x" for ms x
  proof (induction ms arbitrary: x)
    case (Cons m ms)
    obtain k v where "m = (k, v)" by (cases m)
    then show ?case using Cons.IH [OF Cons.prems] Cons.prems [of k]
      by (cases "field_named fs k"; cases "field_named gs k") (auto split: sum.split)
  qed simp
  then show ?thesis by (intro ext) (simp add: decode_struct_def split: json.split)
qed

text \<open>Decoding keeps what every decoder of a field keeps.\<close>

lemma decode_struct_keeps:
  assumes "\<And>f v x y. f \<in> set fs \<Longrightarrow> I x \<Longrightarrow> jf_dec f v x = Inr y \<Longrightarrow> I y" and "I x" and "decode_struct fs v x = Inr y"
  shows "I y"
proof -
  have "I y" if "decode_members fs ms x = Inr y" "I x" for ms x
    using that
  proof (induction ms arbitrary: x)
    case (Cons m ms)
    obtain k v where m: "m = (k, v)" by (cases m)
    show ?case
    proof (cases "field_named fs k")
      case (Some f)
      then have "f \<in> set fs" by (auto simp: field_named_def find_Some_iff)
      then show ?thesis using Cons assms(1) [of f] Some m by (auto split: sum.splits)
    qed (use Cons m in auto)
  qed simp
  then show ?thesis using assms(2,3) by (auto simp: decode_struct_def split: json.splits)
qed

lemma decode_int_range: "decode_int v old = Inr i \<Longrightarrow> int64_range old \<Longrightarrow> int64_range i"
  by (auto simp: decode_int_def parse_int_def split: json.splits option.splits if_splits)

end
