(* ===== verification/Config_Store.thy ===== *)
theory Config_Store
  imports Config Json_Fields Sql_Table
begin

text \<open>
  \<open>internal/config/store.go\<close>: the configuration in the database, as the JSON that \<open>encoding/json\<close> makes of the struct
  tags of \<open>config.go\<close>, in the one row of \<open>app_config\<close>. \<open>InitializeStoreWithSource\<close> works on the \<open>Store\<close>
  interface, the locale \<open>config_store\<close>, which is interpreted on \<open>SQLiteStore\<close>. Whether an empty slice of the
  configuration is nil is not part of the model: the encoder has it as the parameter \<open>nils\<close>.
\<close>

section \<open>The struct tags\<close>

abbreviation string_field :: "string \<Rightarrow> ('a \<Rightarrow> string) \<Rightarrow> (string \<Rightarrow> 'a \<Rightarrow> 'a) \<Rightarrow> 'a json_field" where
  "string_field name get put \<equiv> field name False (\<lambda>s. s = []) JStr decode_string get put"

abbreviation string_opt :: "string \<Rightarrow> ('a \<Rightarrow> string) \<Rightarrow> (string \<Rightarrow> 'a \<Rightarrow> 'a) \<Rightarrow> 'a json_field" where
  "string_opt name get put \<equiv> field name True (\<lambda>s. s = []) JStr decode_string get put"

abbreviation bool_field :: "string \<Rightarrow> ('a \<Rightarrow> bool) \<Rightarrow> (bool \<Rightarrow> 'a \<Rightarrow> 'a) \<Rightarrow> 'a json_field" where
  "bool_field name get put \<equiv> field name False Not JBool decode_bool get put"

abbreviation int_field :: "string \<Rightarrow> ('a \<Rightarrow> int) \<Rightarrow> (int \<Rightarrow> 'a \<Rightarrow> 'a) \<Rightarrow> 'a json_field" where
  "int_field name get put \<equiv> field name False (\<lambda>i. i = 0) (\<lambda>i. JNum (Itoa i)) decode_int get put"

abbreviation int_opt :: "string \<Rightarrow> ('a \<Rightarrow> int) \<Rightarrow> (int \<Rightarrow> 'a \<Rightarrow> 'a) \<Rightarrow> 'a json_field" where
  "int_opt name get put \<equiv> field name True (\<lambda>i. i = 0) (\<lambda>i. JNum (Itoa i)) decode_int get put"

abbreviation struct_field :: "string \<Rightarrow> 'v json_field list \<Rightarrow> ('a \<Rightarrow> 'v) \<Rightarrow> ('v \<Rightarrow> 'a \<Rightarrow> 'a) \<Rightarrow> 'a json_field" where
  "struct_field name fs get put \<equiv> field name False (\<lambda>_. False) (encode_struct fs) (decode_struct fs) get put"

abbreviation slice_field ::
  "string \<Rightarrow> bool \<Rightarrow> 'v \<Rightarrow> ('v \<Rightarrow> json) \<Rightarrow> (json \<Rightarrow> 'v \<Rightarrow> 'v result) \<Rightarrow> ('a \<Rightarrow> 'v list) \<Rightarrow> ('v list \<Rightarrow> 'a \<Rightarrow> 'a) \<Rightarrow> 'a json_field" where
  "slice_field name is_nil zero enc dec get put \<equiv>
     field name False (\<lambda>xs. xs = []) (encode_slice is_nil enc) (decode_slice dec zero) get put"

definition zero_rewrite :: rewrite_rule where
  "zero_rewrite = \<lparr>rw_Enabled = False, rw_Mode = [], rw_Field = [], rw_Match = [], rw_From = [], rw_To = [], rw_RCodeFrom = [],
     rw_RCodeTo = [], rw_AnswerMode = [], rw_AnswerFrom = [], rw_AnswerTo = [], rw_Comment = []\<rparr>"

definition rewrite_fields :: "rewrite_rule json_field list" where
  "rewrite_fields =
     [bool_field ''enabled'' rw_Enabled (\<lambda>v r. r\<lparr>rw_Enabled := v\<rparr>),
      string_field ''mode'' rw_Mode (\<lambda>v r. r\<lparr>rw_Mode := v\<rparr>),
      string_field ''field'' rw_Field (\<lambda>v r. r\<lparr>rw_Field := v\<rparr>),
      string_opt ''match'' rw_Match (\<lambda>v r. r\<lparr>rw_Match := v\<rparr>),
      string_field ''from'' rw_From (\<lambda>v r. r\<lparr>rw_From := v\<rparr>),
      string_opt ''to'' rw_To (\<lambda>v r. r\<lparr>rw_To := v\<rparr>),
      string_opt ''rcode_from'' rw_RCodeFrom (\<lambda>v r. r\<lparr>rw_RCodeFrom := v\<rparr>),
      string_opt ''rcode_to'' rw_RCodeTo (\<lambda>v r. r\<lparr>rw_RCodeTo := v\<rparr>),
      string_opt ''answer_mode'' rw_AnswerMode (\<lambda>v r. r\<lparr>rw_AnswerMode := v\<rparr>),
      string_opt ''answer_from'' rw_AnswerFrom (\<lambda>v r. r\<lparr>rw_AnswerFrom := v\<rparr>),
      string_opt ''answer_to'' rw_AnswerTo (\<lambda>v r. r\<lparr>rw_AnswerTo := v\<rparr>),
      string_opt ''comment'' rw_Comment (\<lambda>v r. r\<lparr>rw_Comment := v\<rparr>)]"

definition dnssec_fields :: "dnssec_config json_field list" where
  "dnssec_fields =
     [bool_field ''enabled'' ds_Enabled (\<lambda>v d. d\<lparr>ds_Enabled := v\<rparr>),
      string_field ''mode'' ds_Mode (\<lambda>v d. d\<lparr>ds_Mode := v\<rparr>)]"

definition zero_resolver :: resolver where
  "zero_resolver = \<lparr>rs_Name = [], rs_Address = [], rs_Protocol = [], rs_TLSServerName = [], rs_Enabled = False\<rparr>"

definition resolver_fields :: "resolver json_field list" where
  "resolver_fields =
     [string_field ''name'' rs_Name (\<lambda>v r. r\<lparr>rs_Name := v\<rparr>),
      string_field ''address'' rs_Address (\<lambda>v r. r\<lparr>rs_Address := v\<rparr>),
      string_field ''protocol'' rs_Protocol (\<lambda>v r. r\<lparr>rs_Protocol := v\<rparr>),
      string_opt ''tls_server_name'' rs_TLSServerName (\<lambda>v r. r\<lparr>rs_TLSServerName := v\<rparr>),
      bool_field ''enabled'' rs_Enabled (\<lambda>v r. r\<lparr>rs_Enabled := v\<rparr>)]"

definition conditional_fields :: "conditional_forwarding json_field list" where
  "conditional_fields =
     [bool_field ''enabled'' cf_Enabled (\<lambda>v f. f\<lparr>cf_Enabled := v\<rparr>),
      string_field ''domain'' cf_Domain (\<lambda>v f. f\<lparr>cf_Domain := v\<rparr>),
      string_field ''resolver'' cf_Resolver (\<lambda>v f. f\<lparr>cf_Resolver := v\<rparr>),
      string_opt ''protocol'' cf_Protocol (\<lambda>v f. f\<lparr>cf_Protocol := v\<rparr>),
      string_opt ''tls_server_name'' cf_TLSServerName (\<lambda>v f. f\<lparr>cf_TLSServerName := v\<rparr>)]"

text \<open>Which of the three slices are nil when they are empty.\<close>

record nil_slices =
  nil_Resolvers :: bool
  nil_Rewrites :: bool
  nil_Blocklists :: bool

definition dns_fields :: "nil_slices \<Rightarrow> dns_config json_field list" where
  "dns_fields nils =
     [string_field ''listen'' dc_Listen (\<lambda>v d. d\<lparr>dc_Listen := v\<rparr>),
      slice_field ''resolvers'' (nil_Resolvers nils) zero_resolver (encode_struct resolver_fields) (decode_struct resolver_fields)
        dc_Resolvers (\<lambda>v d. d\<lparr>dc_Resolvers := v\<rparr>),
      int_opt ''cache_ttl'' dc_CacheTTL (\<lambda>v d. d\<lparr>dc_CacheTTL := v\<rparr>),
      int_field ''cache_success_ttl'' dc_CacheSuccessTTL (\<lambda>v d. d\<lparr>dc_CacheSuccessTTL := v\<rparr>),
      int_field ''cache_denial_ttl'' dc_CacheDenialTTL (\<lambda>v d. d\<lparr>dc_CacheDenialTTL := v\<rparr>),
      int_field ''cache_success_capacity'' dc_CacheSuccessCapacity (\<lambda>v d. d\<lparr>dc_CacheSuccessCapacity := v\<rparr>),
      int_field ''cache_denial_capacity'' dc_CacheDenialCapacity (\<lambda>v d. d\<lparr>dc_CacheDenialCapacity := v\<rparr>),
      int_field ''cache_prefetch_amount'' dc_CachePrefetchAmount (\<lambda>v d. d\<lparr>dc_CachePrefetchAmount := v\<rparr>),
      int_field ''cache_prefetch_duration'' dc_CachePrefetchDuration (\<lambda>v d. d\<lparr>dc_CachePrefetchDuration := v\<rparr>),
      int_field ''cache_prefetch_percent'' dc_CachePrefetchPercent (\<lambda>v d. d\<lparr>dc_CachePrefetchPercent := v\<rparr>),
      struct_field ''dnssec'' dnssec_fields dc_DNSSEC (\<lambda>v d. d\<lparr>dc_DNSSEC := v\<rparr>),
      struct_field ''conditional_forwarding'' conditional_fields dc_ConditionalForwarding (\<lambda>v d. d\<lparr>dc_ConditionalForwarding := v\<rparr>),
      slice_field ''rewrites'' (nil_Rewrites nils) zero_rewrite (encode_struct rewrite_fields) (decode_struct rewrite_fields)
        dc_Rewrites (\<lambda>v d. d\<lparr>dc_Rewrites := v\<rparr>)]"

definition storage_fields :: "storage_config json_field list" where
  "storage_fields =
     [string_field ''path'' sc_Path (\<lambda>v s. s\<lparr>sc_Path := v\<rparr>),
      string_field ''audit_path'' sc_AuditPath (\<lambda>v s. s\<lparr>sc_AuditPath := v\<rparr>),
      int_field ''main_read_connections'' sc_MainReadConnections (\<lambda>v s. s\<lparr>sc_MainReadConnections := v\<rparr>),
      int_field ''audit_read_connections'' sc_AuditReadConnections (\<lambda>v s. s\<lparr>sc_AuditReadConnections := v\<rparr>),
      int_field ''session_read_connections'' sc_SessionReadConnections (\<lambda>v s. s\<lparr>sc_SessionReadConnections := v\<rparr>)]"

definition blocking_fields :: "nil_slices \<Rightarrow> blocking_config json_field list" where
  "blocking_fields nils =
     [string_field ''response'' bc_Response (\<lambda>v b. b\<lparr>bc_Response := v\<rparr>),
      bool_field ''bundled'' bc_Bundled (\<lambda>v b. b\<lparr>bc_Bundled := v\<rparr>),
      bool_field ''paused'' bc_Paused (\<lambda>v b. b\<lparr>bc_Paused := v\<rparr>),
      string_opt ''pause_until'' bc_PauseUntil (\<lambda>v b. b\<lparr>bc_PauseUntil := v\<rparr>),
      slice_field ''blocklists'' (nil_Blocklists nils) [] JStr decode_string bc_Blocklists (\<lambda>v b. b\<lparr>bc_Blocklists := v\<rparr>)]"

definition logging_fields :: "logging_config json_field list" where
  "logging_fields =
     [string_field ''level'' lc_Level (\<lambda>v l. l\<lparr>lc_Level := v\<rparr>),
      string_field ''format'' lc_Format (\<lambda>v l. l\<lparr>lc_Format := v\<rparr>)]"

text \<open>\<open>AdminConfig\<close> has one field, which the record of the configuration holds directly.\<close>

definition admin_fields :: "config json_field list" where
  "admin_fields = [string_field ''listen'' cfg_AdminListen (\<lambda>v c. c\<lparr>cfg_AdminListen := v\<rparr>)]"

definition config_fields :: "nil_slices \<Rightarrow> config json_field list" where
  "config_fields nils =
     [struct_field ''dns'' (dns_fields nils) cfg_DNS (\<lambda>v c. c\<lparr>cfg_DNS := v\<rparr>),
      struct_field ''admin'' admin_fields id (\<lambda>v c. v),
      struct_field ''storage'' storage_fields cfg_Storage (\<lambda>v c. c\<lparr>cfg_Storage := v\<rparr>),
      struct_field ''blocking'' (blocking_fields nils) cfg_Blocking (\<lambda>v c. c\<lparr>cfg_Blocking := v\<rparr>),
      struct_field ''logging'' logging_fields cfg_Logging (\<lambda>v c. c\<lparr>cfg_Logging := v\<rparr>)]"

section \<open>The store\<close>

record app_config =
  ac_payload :: string
  ac_updated_at :: string

definition config_ErrNotFound :: go_error where
  "config_ErrNotFound = ErrorString ''persisted config not found''"

type_synonym config_db = "app_config option db"

definition syntax_error :: go_error where
  "syntax_error = ErrorString ''invalid character in JSON text''"

text \<open>Which empty slices are nil matters only for encoding.\<close>

definition no_nils :: nil_slices where
  "no_nils = \<lparr>nil_Resolvers = False, nil_Rewrites = False, nil_Blocklists = False\<rparr>"

definition Unmarshal_config :: "string \<Rightarrow> config \<Rightarrow> config result" where
  "Unmarshal_config payload cfg =
     (case Parse_json payload of None \<Rightarrow> Inl syntax_error | Some v \<Rightarrow> decode_struct (config_fields no_nils) v cfg)"

definition decode_payload :: "config_lib \<Rightarrow> string \<Rightarrow> config result" where
  "decode_payload lib payload =
     (case Unmarshal_config payload Default of
        Inl e \<Rightarrow> Inl (Wrapf ''decode persisted config'' e)
      | Inr cfg \<Rightarrow>
          let cfg = normalizeStorageConfig (normalizeLegacyCacheConfig cfg payload) payload in
          (case Validate lib cfg of
             Inl e \<Rightarrow> Inl (Wrapf ''validate persisted config'' e)
           | Inr _ \<Rightarrow> Inr cfg))"

text \<open>\<open>has_db\<close>: the store was made with a database.\<close>

definition no_database :: go_error where
  "no_database = ErrorString ''config sqlite store requires a database''"

definition store_Load :: "config_lib \<Rightarrow> bool \<Rightarrow> (config_db, config) step" where
  "store_Load lib has_db =
     (if \<not> has_db then fail no_database else
      then_do (wrap_err (Wrapf ''load persisted config'') (sql_query_row id)) (\<lambda>row.
       case row of
         None \<Rightarrow> fail config_ErrNotFound
       | Some r \<Rightarrow> lift_result (decode_payload lib (ac_payload r))))"

definition encode_config :: "nil_slices \<Rightarrow> config \<Rightarrow> string" where
  "encode_config nils cfg = Marshal (encode_struct (config_fields nils) cfg)"

definition store_Save :: "config_lib \<Rightarrow> nil_slices \<Rightarrow> bool \<Rightarrow> string \<Rightarrow> config \<Rightarrow> (config_db, unit) step" where
  "store_Save lib nils has_db now cfg =
     (if \<not> has_db then fail no_database else
      then_do (wrap_err (Wrapf ''validate persisted config'') (lift_result (Validate lib cfg))) (\<lambda>_.
       wrap_err (Wrapf ''save persisted config'')
         (sql_run (\<lambda>_. Inr ((), Some \<lparr>ac_payload = encode_config nils cfg, ac_updated_at = now\<rparr>)))))"

datatype config_source = SourceBootstrap | SourcePersisted

definition InitializeStoreWithSource ::
  "config_lib \<Rightarrow> ('s, config) step \<Rightarrow> (config \<Rightarrow> ('s, unit) step) \<Rightarrow> config \<Rightarrow> ('s, config \<times> config_source) step" where
  "InitializeStoreWithSource lib Load Save bootstrap s =
     (case Load s of
        (Inr cfg, s) \<Rightarrow> (Inr (cfg, SourcePersisted), s)
      | (Inl err, s) \<Rightarrow>
          if \<not> errors_Is err config_ErrNotFound then (Inl err, s)
          else then_do (wrap_err (Wrapf ''validate bootstrap config'') (lift_result (Validate lib bootstrap))) (\<lambda>_.
               then_do (Save bootstrap) (\<lambda>_. ret (bootstrap, SourceBootstrap))) s)"

definition InitializeStore ::
  "config_lib \<Rightarrow> ('s, config) step \<Rightarrow> (config \<Rightarrow> ('s, unit) step) \<Rightarrow> config \<Rightarrow> ('s, config) step" where
  "InitializeStore lib Load Save bootstrap = then_do (InitializeStoreWithSource lib Load Save bootstrap) (\<lambda>r. ret (fst r))"

section \<open>The round trip\<close>

definition ints_ok :: "config \<Rightarrow> bool" where
  "ints_ok c \<longleftrightarrow> (let d = cfg_DNS c; s = cfg_Storage c in
     list_all int64_range [dc_CacheTTL d, dc_CacheSuccessTTL d, dc_CacheDenialTTL d, dc_CacheSuccessCapacity d, dc_CacheDenialCapacity d,
       dc_CachePrefetchAmount d, dc_CachePrefetchDuration d, dc_CachePrefetchPercent d, sc_MainReadConnections s,
       sc_AuditReadConnections s, sc_SessionReadConnections s])"

lemma field_sel [simp]:
  "jf_name (field n om z e d g p) = n"
  "jf_omit (field n om z e d g p) x = (om \<and> z (g x))"
  "jf_enc (field n om z e d g p) x = e (g x)"
  "jf_dec (field n om z e d g p) v x = map_sum id (\<lambda>y. p y x) (d v (g x))"
  by (simp_all add: field_def)

lemma lower_names:
  "list_all (\<lambda>k. ToLower k = k)
    [''enabled'', ''mode'', ''field'', ''match'', ''from'', ''to'', ''rcode_from'', ''rcode_to'', ''answer_mode'', ''answer_from'', ''answer_to'',
     ''comment'', ''name'', ''address'', ''protocol'', ''tls_server_name'', ''domain'', ''resolver'', ''listen'', ''resolvers'', ''cache_ttl'',
     ''cache_success_ttl'', ''cache_denial_ttl'', ''cache_success_capacity'', ''cache_denial_capacity'', ''cache_prefetch_amount'',
     ''cache_prefetch_duration'', ''cache_prefetch_percent'', ''dnssec'', ''conditional_forwarding'', ''rewrites'', ''path'', ''audit_path'',
     ''main_read_connections'', ''audit_read_connections'', ''session_read_connections'', ''response'', ''bundled'', ''paused'',
     ''pause_until'', ''blocklists'', ''level'', ''format'', ''dns'', ''admin'', ''storage'', ''blocking'', ''logging'']"
  by code_simp

lemmas lower_name = lower_names [unfolded list.pred_inject simp_thms]

lemma names: "names_ok rewrite_fields" "names_ok dnssec_fields" "names_ok resolver_fields" "names_ok conditional_fields"
  "names_ok (dns_fields nils)" "names_ok storage_fields" "names_ok (blocking_fields nils)" "names_ok logging_fields"
  "names_ok admin_fields" "names_ok (config_fields nils)"
  by (simp_all add: names_ok_def rewrite_fields_def dnssec_fields_def resolver_fields_def conditional_fields_def dns_fields_def
      storage_fields_def blocking_fields_def logging_fields_def admin_fields_def config_fields_def lower_name)

lemma decode_rewrite:
  assumes "rw_Match b = []" "rw_To b = []" "rw_RCodeFrom b = []" "rw_RCodeTo b = []" "rw_AnswerMode b = []" "rw_AnswerFrom b = []"
    "rw_AnswerTo b = []" "rw_Comment b = []"
  shows "decode_struct rewrite_fields (encode_struct rewrite_fields r) b = Inr r"
  by (rule decode_struct_enc [OF names(1)]) (use assms in \<open>cases r; cases b; simp add: rewrite_fields_def\<close>)

lemma decode_dnssec: "decode_struct dnssec_fields (encode_struct dnssec_fields d) b = Inr d"
  by (rule decode_struct_enc [OF names(2)]) (cases d; cases b; simp add: dnssec_fields_def)

lemma decode_resolver:
  "rs_TLSServerName b = [] \<Longrightarrow> decode_struct resolver_fields (encode_struct resolver_fields r) b = Inr r"
  by (rule decode_struct_enc [OF names(3)]) (cases r; cases b; simp add: resolver_fields_def)

lemma decode_conditional:
  "cf_Protocol b = [] \<Longrightarrow> cf_TLSServerName b = [] \<Longrightarrow>
   decode_struct conditional_fields (encode_struct conditional_fields f) b = Inr f"
  by (rule decode_struct_enc [OF names(4)]) (cases f; cases b; simp add: conditional_fields_def)

lemma decode_logging: "decode_struct logging_fields (encode_struct logging_fields l) b = Inr l"
  by (rule decode_struct_enc [OF names(8)]) (cases l; cases b; simp add: logging_fields_def)

lemma decode_resolvers:
  "\<forall>y \<in> set olds. rs_TLSServerName y = [] \<Longrightarrow>
   decode_slice (decode_struct resolver_fields) zero_resolver (encode_slice n (encode_struct resolver_fields) rs) olds = Inr rs"
  by (rule decode_slice_enc) (auto simp: decode_resolver zero_resolver_def)

lemma decode_rewrites:
  "decode_slice (decode_struct rewrite_fields) zero_rewrite (encode_slice n (encode_struct rewrite_fields) rs) [] = Inr rs"
  by (rule decode_slice_enc) (simp add: decode_rewrite zero_rewrite_def)

lemma decode_strings: "decode_slice decode_string [] (encode_slice n JStr xs) olds = Inr xs"
  by (rule decode_slice_enc) simp

lemma decode_dns:
  assumes "ints_ok c" and "cfg_DNS c = d"
  shows "decode_struct (dns_fields nils) (encode_struct (dns_fields nils) d) default_dns = Inr d"
  by (rule decode_struct_enc [OF names(5)])
    (use assms in \<open>cases d; simp add: dns_fields_def ints_ok_def Let_def default_dns_def decode_resolvers decode_rewrites decode_dnssec
       decode_conditional\<close>)

lemma decode_storage:
  assumes "ints_ok c" and "cfg_Storage c = s"
  shows "decode_struct storage_fields (encode_struct storage_fields s) b = Inr s"
  by (rule decode_struct_enc [OF names(6)])
    (use assms in \<open>cases s; cases b; simp add: storage_fields_def ints_ok_def Let_def\<close>)

lemma decode_blocking:
  "bc_PauseUntil b = [] \<Longrightarrow> decode_struct (blocking_fields nils) (encode_struct (blocking_fields nils) x) b = Inr x"
  by (rule decode_struct_enc [OF names(7)])
    (cases x; cases b; simp add: blocking_fields_def decode_strings)

lemma decode_admin:
  "decode_struct admin_fields (encode_struct admin_fields c) b = Inr (b\<lparr>cfg_AdminListen := cfg_AdminListen c\<rparr>)"
  by (simp add: decode_struct_def encode_struct_def admin_fields_def field_named_def lower_name)

lemma decode_config:
  assumes "ints_ok c"
  shows "decode_struct (config_fields nils) (encode_struct (config_fields nils) c) Default = Inr c"
proof (rule decode_struct_enc [OF names(10)])
  have "cfg_DNS Default = default_dns" "bc_PauseUntil (cfg_Blocking Default) = []" by (simp_all add: Default_def)
  then show "run_fields (config_fields nils) c Default = Some c"
    by (simp add: config_fields_def decode_dns [OF assms refl] decode_storage [OF assms refl] decode_blocking decode_logging decode_admin)
qed

text \<open>The text of a configuration is read back as the tree it was made from.\<close>

lemma json_ok_struct: "(\<And>f. f \<in> set fs \<Longrightarrow> json_ok (jf_enc f x)) \<Longrightarrow> json_ok (encode_struct fs x)"
  by (auto simp: encode_struct_def list_all_iff)

lemma json_ok_slice: "(\<And>x. json_ok (enc x)) \<Longrightarrow> json_ok (encode_slice n enc xs)"
  by (auto simp: encode_slice_def list_all_iff)

lemma literal_exists [simp]: "\<exists>i. Itoa k = Itoa i"
  by blast

lemma json_ok_config: "json_ok (encode_struct (config_fields nils) c)"
proof -
  have "json_ok (encode_struct (dns_fields nils) d)" for d
    by (intro json_ok_struct)
      (auto simp: dns_fields_def dnssec_fields_def conditional_fields_def resolver_fields_def rewrite_fields_def
        intro!: json_ok_struct json_ok_slice)
  then show ?thesis
    by (intro json_ok_struct)
      (auto simp: config_fields_def admin_fields_def storage_fields_def blocking_fields_def logging_fields_def
        intro!: json_ok_struct json_ok_slice)
qed

lemma encode_config_keys:
  "Contains (encode_config nils c) ''cache_success_ttl''" "Contains (encode_config nils c) ''audit_path''"
proof -
  have esc: "\<forall>c \<in> set ''cache_success_ttl''. escape_char c = [c]" "\<forall>c \<in> set ''audit_path''. escape_char c = [c]" by code_simp+
  let ?d = "cfg_DNS c" and ?s = "cfg_Storage c"
  have "(''cache_success_ttl'', JNum (Itoa (dc_CacheSuccessTTL ?d))) \<in>
      set (map (\<lambda>f. (jf_name f, jf_enc f ?d)) (filter (\<lambda>f. \<not> jf_omit f ?d) (dns_fields nils)))"
    by (simp add: dns_fields_def)
  from Contains_key [OF this esc(1)] have d: "Contains (Marshal (encode_struct (dns_fields nils) ?d)) ''cache_success_ttl''"
    by (simp only: encode_struct_def)
  have "(''audit_path'', JStr (sc_AuditPath ?s)) \<in>
      set (map (\<lambda>f. (jf_name f, jf_enc f ?s)) (filter (\<lambda>f. \<not> jf_omit f ?s) storage_fields))"
    by (simp add: storage_fields_def)
  from Contains_key [OF this esc(2)] have s: "Contains (Marshal (encode_struct storage_fields ?s)) ''audit_path''"
    by (simp only: encode_struct_def)
  have m: "(''dns'', encode_struct (dns_fields nils) ?d) \<in>
      set (map (\<lambda>f. (jf_name f, jf_enc f c)) (filter (\<lambda>f. \<not> jf_omit f c) (config_fields nils)))"
    "(''storage'', encode_struct storage_fields ?s) \<in>
      set (map (\<lambda>f. (jf_name f, jf_enc f c)) (filter (\<lambda>f. \<not> jf_omit f c) (config_fields nils)))"
    by (simp_all add: config_fields_def)
  show "Contains (encode_config nils c) ''cache_success_ttl''" "Contains (encode_config nils c) ''audit_path''"
    using Contains_member [OF m(1) d] Contains_member [OF m(2) s] unfolding encode_config_def encode_struct_def by blast+
qed

lemma decode_fields_nils: "decode_struct (config_fields n) = decode_struct (config_fields m)"
proof -
  have d: "decode_struct (dns_fields n) = decode_struct (dns_fields m)" and b: "decode_struct (blocking_fields n) = decode_struct (blocking_fields m)"
    by (rule decode_struct_cong; simp add: dns_fields_def blocking_fields_def field_def)+
  show ?thesis by (rule decode_struct_cong) (simp add: config_fields_def field_def d b)
qed

lemma decode_encode_payload:
  assumes "Validate lib c = ok" and "ints_ok c"
  shows "decode_payload lib (encode_config nils c) = Inr c"
proof -
  have "Unmarshal_config (encode_config nils c) Default = Inr c"
    using decode_config [OF assms(2)] decode_fields_nils [of no_nils nils] by (simp add: Unmarshal_config_def encode_config_def Parse_Marshal [OF json_ok_config])
  moreover have "sc_AuditPath (cfg_Storage c) \<noteq> []" using assms(1) by (simp add: Validate_ok_iff config_checks_def)
  ultimately show ?thesis
    using assms(1) encode_config_keys [of nils c]
    by (simp add: decode_payload_def normalizeLegacyCacheConfig_def normalizeStorageConfig_def)
qed

text \<open>The numbers of a stored configuration fit in an \<open>int\<close>.\<close>

definition dns_ints_ok :: "dns_config \<Rightarrow> bool" where
  "dns_ints_ok d \<longleftrightarrow> list_all int64_range [dc_CacheTTL d, dc_CacheSuccessTTL d, dc_CacheDenialTTL d, dc_CacheSuccessCapacity d,
     dc_CacheDenialCapacity d, dc_CachePrefetchAmount d, dc_CachePrefetchDuration d, dc_CachePrefetchPercent d]"

definition storage_ints_ok :: "storage_config \<Rightarrow> bool" where
  "storage_ints_ok s \<longleftrightarrow> list_all int64_range [sc_MainReadConnections s, sc_AuditReadConnections s, sc_SessionReadConnections s]"

lemma ints_ok_parts: "ints_ok c \<longleftrightarrow> dns_ints_ok (cfg_DNS c) \<and> storage_ints_ok (cfg_Storage c)"
  by (auto simp: ints_ok_def dns_ints_ok_def storage_ints_ok_def Let_def)

lemma map_sum_Inr: "map_sum id f x = Inr y \<longleftrightarrow> (\<exists>z. x = Inr z \<and> y = f z)"
  by (cases x) auto

lemma decode_dns_ints:
  assumes "dns_ints_ok d" and "decode_struct (dns_fields n) v d = Inr d'"
  shows "dns_ints_ok d'"
proof (rule decode_struct_keeps [where I = dns_ints_ok, OF _ assms])
  show "dns_ints_ok y" if "f \<in> set (dns_fields n)" "dns_ints_ok x" "jf_dec f v x = Inr y" for f v x y
    using that by (auto simp: dns_fields_def dns_ints_ok_def map_sum_Inr) (erule decode_int_range, assumption)+
qed

lemma decode_storage_ints:
  assumes "storage_ints_ok s" and "decode_struct storage_fields v s = Inr s'"
  shows "storage_ints_ok s'"
proof (rule decode_struct_keeps [where I = storage_ints_ok, OF _ assms])
  show "storage_ints_ok y" if "f \<in> set storage_fields" "storage_ints_ok x" "jf_dec f v x = Inr y" for f v x y
    using that by (auto simp: storage_fields_def storage_ints_ok_def map_sum_Inr) (erule decode_int_range, assumption)+
qed

lemma decode_admin_ints:
  assumes "ints_ok c" and "decode_struct admin_fields v c = Inr c'"
  shows "ints_ok c'"
proof (rule decode_struct_keeps [where I = ints_ok, OF _ assms])
  show "ints_ok y" if "f \<in> set admin_fields" "ints_ok x" "jf_dec f v x = Inr y" for f v x y
    using that by (auto simp: admin_fields_def ints_ok_parts map_sum_Inr)
qed

lemma decode_config_ints:
  assumes "ints_ok c" and "decode_struct (config_fields n) v c = Inr c'"
  shows "ints_ok c'"
proof (rule decode_struct_keeps [where I = ints_ok, OF _ assms])
  show "ints_ok y" if "f \<in> set (config_fields n)" "ints_ok x" "jf_dec f v x = Inr y" for f v x y
    using that decode_dns_ints [of "cfg_DNS x" n v] decode_storage_ints [of "cfg_Storage x" v] decode_admin_ints [of x v]
    by (auto simp: config_fields_def map_sum_Inr ints_ok_parts)
qed

lemma decode_payload_ints: "decode_payload lib p = Inr c \<Longrightarrow> ints_ok c"
proof -
  assume a: "decode_payload lib p = Inr c"
  then obtain v c1 where "decode_struct (config_fields no_nils) v Default = Inr c1"
    and c: "c = normalizeStorageConfig (normalizeLegacyCacheConfig c1 p) p"
    by (auto simp: decode_payload_def Unmarshal_config_def Let_def split: option.splits sum.splits)
  moreover have "ints_ok Default" by code_simp
  ultimately have "ints_ok c1" using decode_config_ints by blast
  then show ?thesis unfolding c by (auto simp: normalizeStorageConfig_def normalizeLegacyCacheConfig_def ints_ok_def Let_def)
qed

section \<open>The interface and its provider\<close>

text \<open>
  A \<open>Store\<close>: what it holds is a configuration or nothing that loads; a load changes nothing and, when a
  configuration is there, never reports that none was found; a failed save changes nothing.
\<close>

locale config_store =
  fixes Load :: "('s, config) step" and Save :: "config \<Rightarrow> ('s, unit) step"
    and stored :: "'s \<Rightarrow> config option" and storable :: "config \<Rightarrow> bool"
  assumes load_ok: "Load s = (Inr c, s') \<Longrightarrow> stored s = Some c"
    and load_same: "stored (snd (Load s)) = stored s"
    and load_found: "stored s = Some c \<Longrightarrow> Load s = (Inl e, s') \<Longrightarrow> \<not> errors_Is e config_ErrNotFound"
    and save_ok: "Save c s = (Inr u, s') \<Longrightarrow> storable c \<Longrightarrow> stored s' = Some c"
    and save_error: "Save c s = (Inl e, s') \<Longrightarrow> stored s' = stored s"
begin

text \<open>What is stored wins over the bootstrap configuration and is never overwritten by it.\<close>

lemma initialize_keeps:
  assumes "stored s = Some c" and "InitializeStoreWithSource lib Load Save bootstrap s = (r, s')"
  shows "stored s' = Some c \<and> ((\<exists>e. r = Inl e) \<or> r = Inr (c, SourcePersisted))"
proof -
  obtain x s1 where l: "Load s = (x, s1)" by fastforce
  have "stored s1 = Some c" using load_same [of s] l assms(1) by simp
  then show ?thesis using assms l load_ok [of s] load_found [of s c]
    by (cases x) (auto simp: InitializeStoreWithSource_def)
qed

lemma initialize_stores:
  assumes "InitializeStoreWithSource lib Load Save bootstrap s = (Inr (c, src), s')" and "storable bootstrap"
  shows "stored s' = Some c \<and> (src = SourceBootstrap \<longrightarrow> c = bootstrap)"
proof -
  obtain x s1 where l: "Load s = (x, s1)" by fastforce
  show ?thesis
  proof (cases x)
    case (Inr cfg)
    then show ?thesis using assms l load_ok [of s] load_same [of s] by (auto simp: InitializeStoreWithSource_def)
  next
    case (Inl e)
    then show ?thesis using assms l save_ok
      by (auto simp: InitializeStoreWithSource_def then_do_eq_Inr split: if_splits)
  qed
qed

text \<open>A change of the stored configuration: load, modify, save.\<close>

lemma modify_stores:
  assumes "then_do Load (\<lambda>c. Save (f c)) s = (Inr u, s')" and "\<And>c. stored s = Some c \<Longrightarrow> storable (f c)"
  shows "\<exists>c. stored s = Some c \<and> stored s' = Some (f c)"
  using assms load_ok save_ok by (fastforce simp: then_do_eq_Inr)

end

definition stored_config :: "config_lib \<Rightarrow> config_db \<Rightarrow> config option" where
  "stored_config lib d =
     (case db_tables d of
        None \<Rightarrow> None
      | Some r \<Rightarrow> (case decode_payload lib (ac_payload r) of Inl _ \<Rightarrow> None | Inr c \<Rightarrow> Some c))"

lemma store_Load_cases:
  assumes "store_Load lib has_db d = (r, d')"
  shows "db_tables d' = db_tables d \<and>
    (case r of
       Inr c \<Rightarrow> stored_config lib d = Some c
     | Inl e \<Rightarrow> stored_config lib d \<noteq> None \<longrightarrow> e = no_database \<or> e = Wrapf ''load persisted config'' db_error)"
proof -
  obtain b fs where p: "poll (db_faults d) = (b, fs)" by fastforce
  note eval = store_Load_def then_do_def wrap_err_def sql_query_row_def sql_poll_def p
  show ?thesis
  proof (cases "has_db \<and> \<not> b")
    case False
    then show ?thesis using assms by (cases has_db) (auto simp: eval)
  next
    case True
    then show ?thesis using assms
      by (cases "db_tables d"; cases "decode_payload lib (ac_payload (the (db_tables d)))") (auto simp: eval stored_config_def)
  qed
qed

lemma store_Save_cases:
  assumes "store_Save lib nils has_db now c d = (r, d')"
  shows "case r of
      Inr _ \<Rightarrow> has_db \<and> Validate lib c = ok \<and> db_tables d' = Some \<lparr>ac_payload = encode_config nils c, ac_updated_at = now\<rparr>
    | Inl e \<Rightarrow> db_tables d' = db_tables d"
proof -
  obtain b fs where p: "poll (db_faults d) = (b, fs)" by fastforce
  note eval = store_Save_def then_do_def wrap_err_def sql_run_def sql_poll_def p
  show ?thesis
  proof (cases "Validate lib c")
    case (Inl e)
    then show ?thesis using assms by (cases has_db) (auto simp: eval)
  next
    case (Inr u)
    then have v: "Validate lib c = ok" by simp
    show ?thesis using assms by (cases has_db; cases b) (auto simp: eval v)
  qed
qed

interpretation sqlite_config: config_store "store_Load lib has_db" "store_Save lib nils has_db now" "stored_config lib" ints_ok
proof unfold_locales
  fix c :: config and d d' :: config_db and e u
  show "store_Load lib has_db d = (Inr c, d') \<Longrightarrow> stored_config lib d = Some c"
    using store_Load_cases by fastforce
  show "stored_config lib (snd (store_Load lib has_db d)) = stored_config lib d"
    using store_Load_cases [of lib has_db d] by (cases "store_Load lib has_db d") (simp add: stored_config_def)
  show "stored_config lib d = Some c \<Longrightarrow> store_Load lib has_db d = (Inl e, d') \<Longrightarrow> \<not> errors_Is e config_ErrNotFound"
    using store_Load_cases [of lib has_db d "Inl e" d']
    by (auto simp: no_database_def config_ErrNotFound_def db_error_def)
  show "store_Save lib nils has_db now c d = (Inr u, d') \<Longrightarrow> ints_ok c \<Longrightarrow> stored_config lib d' = Some c"
    using store_Save_cases [of lib nils has_db now c d "Inr u" d'] by (simp add: stored_config_def decode_encode_payload)
  show "store_Save lib nils has_db now c d = (Inl e, d') \<Longrightarrow> stored_config lib d' = stored_config lib d"
    using store_Save_cases [of lib nils has_db now c d "Inl e" d'] by (simp add: stored_config_def)
qed

lemma stored_ints: "stored_config lib d = Some c \<Longrightarrow> ints_ok c"
  using decode_payload_ints by (auto simp: stored_config_def split: option.splits sum.splits)

lemma sqlite_Load_saved:
  assumes "store_Save lib nils has_db now c d = (Inr u, d')" and "ints_ok c" and "db_faults d' = []"
  shows "store_Load lib True d' = (Inr c, d')"
proof -
  have v: "Validate lib c = ok" and t: "db_tables d' = Some \<lparr>ac_payload = encode_config nils c, ac_updated_at = now\<rparr>"
    using store_Save_cases [OF assms(1)] by simp_all
  show ?thesis using assms(3)
    by (simp add: store_Load_def then_do_def wrap_err_def t decode_encode_payload [OF v assms(2)])
qed

section \<open>Properties\<close>

definition ascii :: "string \<Rightarrow> bool" where
  "ascii s \<longleftrightarrow> list_all (\<lambda>c. (of_char c :: nat) < 128) s"

text \<open>The strings of a configuration.\<close>

definition config_strings :: "config \<Rightarrow> string list" where
  "config_strings c =
     (let d = cfg_DNS c; s = cfg_Storage c; b = cfg_Blocking c; f = dc_ConditionalForwarding d in
      [dc_Listen d, ds_Mode (dc_DNSSEC d), cf_Domain f, cf_Resolver f, cf_Protocol f, cf_TLSServerName f, cfg_AdminListen c,
       sc_Path s, sc_AuditPath s, bc_Response b, bc_PauseUntil b, lc_Level (cfg_Logging c), lc_Format (cfg_Logging c)] @
      concat (map (\<lambda>r. [rs_Name r, rs_Address r, rs_Protocol r, rs_TLSServerName r]) (dc_Resolvers d)) @
      concat (map (\<lambda>r. [rw_Mode r, rw_Field r, rw_Match r, rw_From r, rw_To r, rw_RCodeFrom r, rw_RCodeTo r, rw_AnswerMode r,
         rw_AnswerFrom r, rw_AnswerTo r, rw_Comment r]) (dc_Rewrites d)) @
      bc_Blocklists b)"

text \<open>
  C17: A configuration that was saved survives a restart: whatever was stored before, whichever of its empty slices are nil, and whatever
  the configuration file of the next start says, the next \<open>InitializeStoreWithSource\<close> returns exactly
  the saved configuration, and the database is left alone. The strings of the configuration are ASCII text, the part of \<open>encoding/json\<close> that
  the model of its strings covers.
\<close>

theorem saved_config_survives_restart:
  assumes "store_Save lib nils has_db now c d = (Inr (), d')" and "ints_ok c" and "list_all ascii (config_strings c)" and "db_faults d' = []"
  shows "InitializeStoreWithSource lib (store_Load lib True) (store_Save lib nils' True now') bootstrap d' =
           (Inr (c, SourcePersisted), d')"
  using sqlite_Load_saved [OF assms(1,2,4)] by (simp add: InitializeStoreWithSource_def)

definition empty_config_db :: config_db where
  "empty_config_db = \<lparr>db_tables = None, db_faults = []\<rparr>"

theorem saved_config_survives_restart_witness:
  "\<exists>d'. store_Save demo_lib no_nils True ''2026-01-01T00:00:00Z'' Default empty_config_db = (Inr (), d') \<and>
     InitializeStoreWithSource demo_lib (store_Load demo_lib True) (store_Save demo_lib no_nils True []) Default d' =
       (Inr (Default, SourcePersisted), d')"
proof -
  let ?d = "empty_config_db\<lparr>db_tables := Some \<lparr>ac_payload = encode_config no_nils Default, ac_updated_at = ''2026-01-01T00:00:00Z''\<rparr>\<rparr>"
  have s: "store_Save demo_lib no_nils True ''2026-01-01T00:00:00Z'' Default empty_config_db = (Inr (), ?d)"
    by (simp add: store_Save_def then_do_def wrap_err_def Default_valid empty_config_db_def sql_run_no_fault)
  have "ints_ok Default" by code_simp
  moreover have "list_all ascii (config_strings Default)" by code_simp
  ultimately show ?thesis
    using saved_config_survives_restart [OF s, of no_nils "[]" Default] s by (simp add: empty_config_db_def)
qed

end
