(* ===== verification/Filter_Runtime.thy ===== *)
theory Filter_Runtime
  imports Filter_Service
begin

text \<open>
  \<open>internal/filter/runtime.go\<close>: the decider that overlays the rules on the blocklist matcher. Its
  snapshot is read from the database by \<open>Reload\<close> only; \<open>Decide\<close> looks a regular expression up in
  the snapshot and would dereference nil if it were missing, which is the value \<open>Panic\<close> of a round
  and \<^term>\<open>None\<close> of a decision. The invariant \<open>snapshot_ok\<close> excludes it.
\<close>

record rule_snapshot =
  rs_rules :: "scoped_rule list"
  rs_clients :: "string \<Rightarrow> int set option"
  rs_regexps :: "string \<Rightarrow> (string \<Rightarrow> bool) option"

section \<open>Reload\<close>

definition client_entry :: "client \<Rightarrow> (string \<times> int set) option repo" where
  "client_entry client =
     (if \<not> c_Enabled client then ret None
      else then_do (clientGroupIDs (c_Address client)) (\<lambda>groups. ret (Some (c_Address client, groups))))"

fun client_map :: "(string \<times> int set) option list \<Rightarrow> (string \<Rightarrow> int set option) \<Rightarrow> string \<Rightarrow> int set option" where
  "client_map [] m = m"
| "client_map (None # xs) m = client_map xs m"
| "client_map (Some (address, groups) # xs) m = client_map xs (m(address := Some groups))"

definition regexp_error :: "string \<Rightarrow> go_error" where
  "regexp_error pattern = ErrorString (''error parsing regexp: '' @ pattern)"

fun compile_rules ::
  "regexp_engine \<Rightarrow> scoped_rule list \<Rightarrow> (string \<Rightarrow> (string \<Rightarrow> bool) option) \<Rightarrow> (string \<Rightarrow> (string \<Rightarrow> bool) option) result" where
  "compile_rules rx [] m = Inr m"
| "compile_rules rx (sr # rest) m =
     (let r = sr_Rule sr in
      if ru_Enabled r \<and> ru_MatchType r = MatchRegex then
        (case rx (ru_Pattern r) of
           None \<Rightarrow> Inl (regexp_error (ru_Pattern r))
         | Some re \<Rightarrow> compile_rules rx rest (m(ru_Pattern r := Some re)))
      else compile_rules rx rest m)"

definition load_snapshot :: "regexp_engine \<Rightarrow> rule_snapshot repo" where
  "load_snapshot rx =
     then_do decisionRules (\<lambda>rules.
     then_do ListClients (\<lambda>clients.
     then_do (for_each client_entry clients) (\<lambda>found.
     then_do (lift_result (compile_rules rx rules (\<lambda>_. None))) (\<lambda>regexps.
       ret \<lparr>rs_rules = rules, rs_clients = client_map found (\<lambda>_. None), rs_regexps = regexps\<rparr>))))"

text \<open>\<open>Reload\<close> stores the snapshot only when it was read completely.\<close>

definition RuleDecider_Reload ::
  "regexp_engine \<Rightarrow> rule_snapshot option \<Rightarrow> filter_db db \<Rightarrow> (unit result \<times> rule_snapshot option) \<times> filter_db db" where
  "RuleDecider_Reload rx current d =
     (case load_snapshot rx d of
        (Inl err, d') \<Rightarrow> ((Inl err, current), d')
      | (Inr snapshot, d') \<Rightarrow> ((Inr (), Some snapshot), d'))"

section \<open>Decide\<close>

datatype match_outcome = Panic | NoMatch | Match decision

fun match_rules ::
  "rule_snapshot \<Rightarrow> string \<Rightarrow> int set \<Rightarrow> string \<Rightarrow> string \<Rightarrow> string \<Rightarrow> scoped_rule list \<Rightarrow> match_outcome" where
  "match_rules s domain groups kind matchType reason [] = NoMatch"
| "match_rules s domain groups kind matchType reason (sr # rest) =
     (let r = sr_Rule sr in
      if \<not> ru_Enabled r \<or> ru_Kind r \<noteq> kind \<or> ru_MatchType r \<noteq> matchType \<or> \<not> inScope (sr_GroupID sr) groups then
        match_rules s domain groups kind matchType reason rest
      else
        (case (if matchType = MatchRegex then
                 (case rs_regexps s (ru_Pattern r) of None \<Rightarrow> None | Some re \<Rightarrow> Some (re domain))
               else Some (matchesPattern (\<lambda>_. None) domain (ru_Pattern r) matchType)) of
           None \<Rightarrow> Panic
         | Some matched \<Rightarrow>
             if matched then
               Match \<lparr>d_Action = (if kind = KindDeny then ActionBlock else ActionAllow), d_Reason = reason,
                      d_RuleID = ru_ID r, d_BlocklistID = 0\<rparr>
             else match_rules s domain groups kind matchType reason rest))"

definition first_tiers :: "(string \<times> string \<times> string) list" where
  "first_tiers =
     [(KindAllow, MatchExact, ''exact allow rule''), (KindAllow, MatchRegex, ''regex allow rule''),
      (KindAllow, MatchSuffix, ''suffix allow rule''), (KindDeny, MatchExact, ''exact deny rule'')]"

definition last_tiers :: "(string \<times> string \<times> string) list" where
  "last_tiers =
     [(KindDeny, MatchRegex, ''regex deny rule''), (KindDeny, MatchSuffix, ''suffix deny rule'')]"

fun match_tiers :: "rule_snapshot \<Rightarrow> string \<Rightarrow> int set \<Rightarrow> (string \<times> string \<times> string) list \<Rightarrow> match_outcome" where
  "match_tiers s domain groups [] = NoMatch"
| "match_tiers s domain groups ((kind, matchType, reason) # tiers) =
     (case match_rules s domain groups kind matchType reason (rs_rules s) of
        NoMatch \<Rightarrow> match_tiers s domain groups tiers
      | out \<Rightarrow> out)"

definition client_groups :: "rule_snapshot \<Rightarrow> addr \<Rightarrow> int set" where
  "client_groups s ip = (case rs_clients s (addr_String (Unmap ip)) of None \<Rightarrow> {} | Some g \<Rightarrow> g)"

definition RuleDecider_Decide :: "(query \<Rightarrow> decision option) \<Rightarrow> rule_snapshot option \<Rightarrow> query \<Rightarrow> decision option" where
  "RuleDecider_Decide fallback current q =
     (case current of
        None \<Rightarrow> fallback q
      | Some s \<Rightarrow>
          let domain = filter_normalizeDomain (q_Name q);
              groups = client_groups s (q_ClientIP q)
          in case match_tiers s domain groups first_tiers of
               Panic \<Rightarrow> None
             | Match d \<Rightarrow> Some d
             | NoMatch \<Rightarrow>
                 (case fallback q of
                    None \<Rightarrow> None
                  | Some decision \<Rightarrow>
                      if d_Action decision = ActionBlock \<or> d_Reason decision = ''blocklist allow match'' then Some decision
                      else (case match_tiers s domain groups last_tiers of
                              Panic \<Rightarrow> None
                            | Match d \<Rightarrow> Some d
                            | NoMatch \<Rightarrow> Some decision)))"

section \<open>No panic\<close>

definition snapshot_ok :: "rule_snapshot \<Rightarrow> bool" where
  "snapshot_ok s \<longleftrightarrow> list_all (\<lambda>sr. ru_Enabled (sr_Rule sr) \<and> ru_MatchType (sr_Rule sr) = MatchRegex \<longrightarrow>
     rs_regexps s (ru_Pattern (sr_Rule sr)) \<noteq> None) (rs_rules s)"

lemma match_rules_ok:
  assumes "\<forall>sr \<in> set rules. ru_Enabled (sr_Rule sr) \<and> ru_MatchType (sr_Rule sr) = MatchRegex \<longrightarrow>
      rs_regexps s (ru_Pattern (sr_Rule sr)) \<noteq> None"
  shows "match_rules s domain groups kind matchType reason rules \<noteq> Panic"
    and "match_rules s domain groups kind matchType reason rules = Match d \<Longrightarrow> action_ok d"
  using assms by (induction rules) (auto simp: Let_def action_ok_def split: option.splits if_splits)

lemma match_tiers_ok:
  assumes "snapshot_ok s"
  shows "match_tiers s domain groups tiers \<noteq> Panic"
    and "match_tiers s domain groups tiers = Match d \<Longrightarrow> action_ok d"
proof -
  have ok: "\<forall>sr \<in> set (rs_rules s). ru_Enabled (sr_Rule sr) \<and> ru_MatchType (sr_Rule sr) = MatchRegex \<longrightarrow>
      rs_regexps s (ru_Pattern (sr_Rule sr)) \<noteq> None"
    using assms by (auto simp: snapshot_ok_def list_all_iff)
  note m = match_rules_ok [OF ok]
  show "match_tiers s domain groups tiers \<noteq> Panic"
    and "match_tiers s domain groups tiers = Match d \<Longrightarrow> action_ok d"
    using m by (induction tiers) (auto split: match_outcome.splits)
qed

context decider begin

text \<open>The overlay of rules over any decider is a decider.\<close>

lemma overlay_decides:
  assumes "\<forall>s. current = Some s \<longrightarrow> snapshot_ok s" and "ready st"
  shows "\<exists>d. RuleDecider_Decide (decide st) current q = Some d \<and> action_ok d"
proof (cases current)
  case None
  then show ?thesis using decides [OF assms(2)] by (simp add: RuleDecider_Decide_def)
next
  case (Some s)
  obtain d where d: "decide st q = Some d" "action_ok d" using decides [OF assms(2)] by blast
  have ok: "snapshot_ok s" using assms(1) Some by simp
  show ?thesis
    using match_tiers_ok [OF ok] d
    by (auto simp: RuleDecider_Decide_def Some Let_def split: match_outcome.split)
qed

text \<open>Without a snapshot the fallback decides.\<close>

lemma overlay_none: "RuleDecider_Decide (decide st) None q = decide st q"
  by (simp add: RuleDecider_Decide_def)

end

interpretation rule_decider: decider
  "\<lambda>(current, m) q. RuleDecider_Decide (\<lambda>q. Some (manager_Decide m q)) current q"
  "\<lambda>(current, m). \<forall>s. current = Some s \<longrightarrow> snapshot_ok s"
  using manager.overlay_decides by unfold_locales auto

section \<open>What a reload reads\<close>

lemma compile_rules_Inr:
  assumes "compile_rules rx rules m = Inr m'" and "\<forall>p f. m p = Some f \<longrightarrow> rx p = Some f"
  shows "(\<forall>p f. m' p = Some f \<longrightarrow> rx p = Some f) \<and> (\<forall>p. m p \<noteq> None \<longrightarrow> m' p \<noteq> None) \<and>
         (\<forall>sr \<in> set rules. ru_Enabled (sr_Rule sr) \<and> ru_MatchType (sr_Rule sr) = MatchRegex \<longrightarrow>
            m' (ru_Pattern (sr_Rule sr)) \<noteq> None)"
  using assms
proof (induction rules arbitrary: m)
  case (Cons sr rest)
  show ?case
  proof (cases "ru_Enabled (sr_Rule sr) \<and> ru_MatchType (sr_Rule sr) = MatchRegex")
    case True
    then obtain f where f: "rx (ru_Pattern (sr_Rule sr)) = Some f"
      using Cons.prems(1) by (auto simp: Let_def split: option.splits)
    let ?m = "m(ru_Pattern (sr_Rule sr) := Some f)"
    have c: "compile_rules rx rest ?m = Inr m'" using Cons.prems(1) True f by (simp add: Let_def)
    have m: "\<forall>p f. ?m p = Some f \<longrightarrow> rx p = Some f" using Cons.prems(2) f by auto
    note ih = Cons.IH [OF c m]
    have "?m (ru_Pattern (sr_Rule sr)) \<noteq> None" and "\<And>p. m p \<noteq> None \<Longrightarrow> ?m p \<noteq> None" by simp_all
    then show ?thesis using ih by (metis (no_types, lifting) set_ConsD)
  next
    case False
    then show ?thesis using Cons.IH [of m] Cons.prems by (auto simp: Let_def)
  qed
qed simp

definition client_result :: "filter_db \<Rightarrow> client \<Rightarrow> (string \<times> int set) option" where
  "client_result tb c = (if c_Enabled c then Some (c_Address c, client_group_ids (c_Address c) tb) else None)"

lemma client_entry_ok:
  "client_entry c d = (Inr x, d') \<Longrightarrow> x = client_result (db_tables d) c \<and> db_tables d' = db_tables d"
  by (auto simp: client_entry_def client_result_def clientGroupIDs_def then_do_eq_Inr dest: sql_query_ok split: if_splits)

lemma client_entries_ok:
  "for_each client_entry cs d = (Inr xs, d') \<Longrightarrow> xs = map (client_result (db_tables d)) cs \<and> db_tables d' = db_tables d"
proof (induction cs arbitrary: d xs)
  case (Cons c cs)
  then obtain x d1 xs' where h: "client_entry c d = (Inr x, d1)" and t: "for_each client_entry cs d1 = (Inr xs', d')"
    and xs: "xs = x # xs'"
    by (auto simp: then_do_eq_Inr)
  show ?case using client_entry_ok [OF h] Cons.IH [OF t] xs by simp
qed simp

lemma client_map_results:
  "client_map (map (client_result tb) cs) m a =
     (if \<exists>c \<in> set cs. c_Enabled c \<and> c_Address c = a then Some (client_group_ids a tb) else m a)"
  by (induction cs arbitrary: m) (auto simp: client_result_def)

lemma client_group_ids_none:
  "\<not> (\<exists>c \<in> set (t_rows (f_clients tb)). c_Enabled c \<and> c_Address c = a) \<Longrightarrow> client_group_ids a tb = {}"
  by (auto simp: client_group_ids_def)

lemma load_snapshot_ok:
  assumes "load_snapshot rx d = (Inr s, d')"
  shows "rs_rules s = decision_rules (db_tables d)" and "db_tables d' = db_tables d"
    and "client_groups s ip = client_group_ids (addr_String (Unmap ip)) (db_tables d)"
    and "snapshot_ok s" and "rs_regexps s p = Some f \<Longrightarrow> rx p = Some f"
proof -
  obtain rules d1 clients d2 found d3 regexps where r: "decisionRules d = (Inr rules, d1)"
    and c: "ListClients d1 = (Inr clients, d2)" and f: "for_each client_entry clients d2 = (Inr found, d3)"
    and re: "compile_rules rx rules (\<lambda>_. None) = Inr regexps" and d': "d' = d3"
    and s: "s = \<lparr>rs_rules = rules, rs_clients = client_map found (\<lambda>_. None), rs_regexps = regexps\<rparr>"
    using assms by (auto simp: load_snapshot_def then_do_eq_Inr)
  have rules: "rules = decision_rules (db_tables d)" and d1: "db_tables d1 = db_tables d"
    using sql_query_ok [OF r [unfolded decisionRules_def]] by simp_all
  have clients: "set clients = set (t_rows (f_clients (db_tables d)))" and d2: "db_tables d2 = db_tables d"
    using sql_query_ok [OF c [unfolded ListClients_def]] d1 by (simp_all add: tbl_select_def)
  have found: "found = map (client_result (db_tables d)) clients" and d3: "db_tables d3 = db_tables d"
    using client_entries_ok [OF f] d2 by simp_all
  show "rs_rules s = decision_rules (db_tables d)" by (simp add: s rules)
  show "db_tables d' = db_tables d" using d' d3 by simp
  show "client_groups s ip = client_group_ids (addr_String (Unmap ip)) (db_tables d)"
    using client_group_ids_none [of "db_tables d"] by (auto simp: client_groups_def s found client_map_results clients)
  show "snapshot_ok s" using compile_rules_Inr [OF re] by (auto simp: snapshot_ok_def s list_all_iff)
  show "rs_regexps s p = Some f \<Longrightarrow> rx p = Some f" using compile_rules_Inr [OF re] by (simp add: s)
qed

section \<open>The overlay implements the ranking\<close>

definition runtime_decision :: "filter_decision \<Rightarrow> decision" where
  "runtime_decision dec =
     \<lparr>d_Action = (if fd_Action dec = FActionDeny then ActionBlock else ActionAllow), d_Reason = fd_Reason dec,
      d_RuleID = fd_RuleID dec, d_BlocklistID = 0\<rparr>"

definition outcome_of :: "filter_decision option \<Rightarrow> match_outcome" where
  "outcome_of x = (case x of None \<Rightarrow> NoMatch | Some dec \<Rightarrow> Match (runtime_decision dec))"

lemma matchesPattern_no_regex: "k \<noteq> MatchRegex \<Longrightarrow> matchesPattern rx domain p k = matchesPattern rx' domain p k"
  by (simp add: matchesPattern_def)

lemma match_rules_ranked:
  assumes "\<And>p f. rs_regexps s p = Some f \<Longrightarrow> rx p = Some f"
    and "\<forall>sr \<in> set rules. ru_Enabled (sr_Rule sr) \<and> ru_MatchType (sr_Rule sr) = MatchRegex \<longrightarrow>
      rs_regexps s (ru_Pattern (sr_Rule sr)) \<noteq> None"
    and "kind = KindAllow \<or> kind = KindDeny"
  shows "match_rules s domain groups kind matchType reason rules =
    outcome_of (first_of (map (rule_decision kind reason) (filter (rule_applies rx domain groups kind matchType) rules)))"
  using assms(2)
proof (induction rules)
  case (Cons sr rest)
  have re: "rs_regexps s (ru_Pattern (sr_Rule sr)) = rx (ru_Pattern (sr_Rule sr))"
    if "ru_Enabled (sr_Rule sr)" and "ru_MatchType (sr_Rule sr) = MatchRegex"
    using Cons.prems that assms(1) by fastforce
  have "FActionAllow \<noteq> FActionDeny" by (simp add: filter_const_defs)
  then have act: "runtime_decision (rule_decision kind reason sr) =
      \<lparr>d_Action = (if kind = KindDeny then ActionBlock else ActionAllow), d_Reason = reason,
       d_RuleID = ru_ID (sr_Rule sr), d_BlocklistID = 0\<rparr>"
    using assms(3) by (auto simp: runtime_decision_def rule_decision_def actionForKind_def)
  have IH: "match_rules s domain groups kind matchType reason rest =
      outcome_of (first_of (map (rule_decision kind reason) (filter (rule_applies rx domain groups kind matchType) rest)))"
    using Cons by simp
  note ap = rule_applies_def [of rx domain groups kind matchType sr]
  show ?case
  proof (cases "\<not> ru_Enabled (sr_Rule sr) \<or> ru_Kind (sr_Rule sr) \<noteq> kind \<or> ru_MatchType (sr_Rule sr) \<noteq> matchType \<or>
      \<not> inScope (sr_GroupID sr) groups")
    case True
    then show ?thesis using IH by (auto simp: Let_def ap)
  next
    case False
    show ?thesis
    proof (cases "matchType = MatchRegex")
      case True
      then obtain m where "rs_regexps s (ru_Pattern (sr_Rule sr)) = Some m" and "rx (ru_Pattern (sr_Rule sr)) = Some m"
        using re False Cons.prems by fastforce
      moreover have "rule_applies rx domain groups kind matchType sr = m domain"
        unfolding ap using False True calculation by (simp add: matchesPattern_def regexp_MatchString_def)
      ultimately show ?thesis
        using False IH act True by (cases "m domain") (simp_all add: Let_def outcome_of_def split del: if_split)
    next
      case nr: False
      let ?m = "matchesPattern rx domain (ru_Pattern (sr_Rule sr)) matchType"
      have "rule_applies rx domain groups kind matchType sr = ?m" using False by (simp add: ap)
      moreover have "matchesPattern (\<lambda>_. None) domain (ru_Pattern (sr_Rule sr)) matchType = ?m"
        by (rule matchesPattern_no_regex [OF nr])
      ultimately show ?thesis
        using False IH act nr by (cases ?m) (simp_all add: Let_def outcome_of_def split del: if_split)
    qed
  qed
qed (simp add: outcome_of_def)

lemma match_tiers_ranked:
  assumes "load_snapshot rx d = (Inr s, d')" and "\<forall>(k, m, r) \<in> set tiers. k = KindAllow \<or> k = KindDeny"
  shows "match_tiers s domain groups tiers =
    outcome_of (first_of (ranked_rules rx domain groups (decision_rules (db_tables d)) tiers))"
  using assms(2)
proof (induction tiers)
  case (Cons t tiers)
  obtain k m r where t: "t = (k, m, r)" by (cases t)
  have ok: "\<forall>sr \<in> set (rs_rules s). ru_Enabled (sr_Rule sr) \<and> ru_MatchType (sr_Rule sr) = MatchRegex \<longrightarrow>
      rs_regexps s (ru_Pattern (sr_Rule sr)) \<noteq> None"
    using load_snapshot_ok(4) [OF assms(1)] by (auto simp: snapshot_ok_def list_all_iff)
  have "match_rules s domain groups k m r (rs_rules s) = outcome_of (first_of (map (rule_decision k r)
      (filter (rule_applies rx domain groups k m) (decision_rules (db_tables d)))))"
    using match_rules_ranked [OF load_snapshot_ok(5) [OF assms(1)] ok] Cons.prems load_snapshot_ok(1) [OF assms(1)]
    by (auto simp: t)
  then show ?case
    using Cons by (auto simp: t ranked_rules_def first_of_append outcome_of_def split: option.splits)
qed (simp add: ranked_rules_def outcome_of_def)

section \<open>Properties\<close>

text \<open>
  The DNS path never dereferences a missing regular expression: whatever databases the decider is
  reloaded from and whatever reloads fail, every query gets a decision, allow or block, from the
  rules over the blocklist manager.
\<close>

theorem rule_decider_never_panics:
  "\<exists>dec. RuleDecider_Decide (\<lambda>q. Some (manager_Decide m q))
       (fold (\<lambda>d current. snd (fst (RuleDecider_Reload rx current d))) ds None) q = Some dec \<and> action_ok dec"
proof -
  have "\<forall>s. fold (\<lambda>d current. snd (fst (RuleDecider_Reload rx current d))) ds current = Some s \<longrightarrow> snapshot_ok s"
    if "\<forall>s. current = Some s \<longrightarrow> snapshot_ok s" for current
    using that
  proof (induction ds arbitrary: current)
    case (Cons d ds)
    have "\<forall>s. snd (fst (RuleDecider_Reload rx current d)) = Some s \<longrightarrow> snapshot_ok s"
      using Cons.prems load_snapshot_ok(4) [of rx d] by (auto simp: RuleDecider_Reload_def split: prod.splits sum.splits)
    then show ?case using Cons.IH by simp
  qed simp
  then show ?thesis by (intro manager.overlay_decides) auto
qed

text \<open>
  The ranking, stated without the tables of the code: \<open>hit kind matchType\<close> is the first rule of that kind and match type that applies, and \<open>answer\<close> is what the
  blocklist says. Allow rules and exact deny rules go before the blocklist, the other deny rules after it, and only over a name that the blocklist neither
  blocks nor allows by an entry.
\<close>

definition rule_verdict :: "string \<Rightarrow> string \<Rightarrow> scoped_rule \<Rightarrow> decision" where
  "rule_verdict action reason sr = \<lparr>d_Action = action, d_Reason = reason, d_RuleID = ru_ID (sr_Rule sr), d_BlocklistID = 0\<rparr>"

definition overlay_ranking :: "(string \<Rightarrow> string \<Rightarrow> scoped_rule option) \<Rightarrow> decision \<Rightarrow> decision" where
  "overlay_ranking hit answer =
     (case hit KindAllow MatchExact of Some sr \<Rightarrow> rule_verdict ActionAllow ''exact allow rule'' sr | None \<Rightarrow>
     (case hit KindAllow MatchRegex of Some sr \<Rightarrow> rule_verdict ActionAllow ''regex allow rule'' sr | None \<Rightarrow>
     (case hit KindAllow MatchSuffix of Some sr \<Rightarrow> rule_verdict ActionAllow ''suffix allow rule'' sr | None \<Rightarrow>
     (case hit KindDeny MatchExact of Some sr \<Rightarrow> rule_verdict ActionBlock ''exact deny rule'' sr | None \<Rightarrow>
      if d_Action answer = ActionBlock \<or> d_Reason answer = ''blocklist allow match'' then answer
      else
     (case hit KindDeny MatchRegex of Some sr \<Rightarrow> rule_verdict ActionBlock ''regex deny rule'' sr | None \<Rightarrow>
     (case hit KindDeny MatchSuffix of Some sr \<Rightarrow> rule_verdict ActionBlock ''suffix deny rule'' sr | None \<Rightarrow> answer))))))"

definition first_rule :: "regexp_engine \<Rightarrow> string \<Rightarrow> int set \<Rightarrow> scoped_rule list \<Rightarrow> string \<Rightarrow> string \<Rightarrow> scoped_rule option" where
  "first_rule rx domain groups rules kind matchType = List.find (rule_applies rx domain groups kind matchType) rules"

lemma find_first_of: "List.find P xs = first_of (filter P xs)"
  by (induction xs) simp_all

lemma first_of_map: "first_of (map f xs) = map_option f (first_of xs)"
  by (cases xs) simp_all

lemma ranked_rules_Cons:
  "first_of (ranked_rules rx domain groups rules ((kind, matchType, reason) # tiers)) =
     (case first_rule rx domain groups rules kind matchType of
        Some sr \<Rightarrow> Some (rule_decision kind reason sr)
      | None \<Rightarrow> first_of (ranked_rules rx domain groups rules tiers))"
  by (simp add: ranked_rules_def first_rule_def find_first_of first_of_append first_of_map split: option.split)

lemma runtime_rule_decision:
  "runtime_decision (rule_decision KindAllow reason sr) = rule_verdict ActionAllow reason sr"
  "runtime_decision (rule_decision KindDeny reason sr) = rule_verdict ActionBlock reason sr"
  by (simp_all add: runtime_decision_def rule_decision_def rule_verdict_def actionForKind_def filter_const_defs)

lemma RuleDecider_ranked:
  assumes "load_snapshot rx d = (Inr s, d')"
    and "domain = filter_normalizeDomain (q_Name q)"
    and "groups = client_group_ids (addr_String (Unmap (q_ClientIP q))) (db_tables d)"
    and "fallback q = Some answer"
  shows "RuleDecider_Decide fallback (Some s) q =
    Some (overlay_ranking (first_rule rx domain groups (decision_rules (db_tables d))) answer)"
proof -
  have g: "client_groups s (q_ClientIP q) = groups" using load_snapshot_ok(3) [OF assms(1)] assms(3) by simp
  have t1: "\<forall>(k, m, r) \<in> set first_tiers. k = KindAllow \<or> k = KindDeny"
    and t2: "\<forall>(k, m, r) \<in> set last_tiers. k = KindAllow \<or> k = KindDeny"
    by (simp_all add: first_tiers_def last_tiers_def)
  have none: "first_of (ranked_rules rx domain groups rules []) = None" for rules by (simp add: ranked_rules_def)
  show ?thesis
    unfolding RuleDecider_Decide_def option.case Let_def g assms(2) [symmetric]
      match_tiers_ranked [OF assms(1) t1] match_tiers_ranked [OF assms(1) t2]
    unfolding first_tiers_def last_tiers_def ranked_rules_Cons none
    by (simp add: outcome_of_def assms(4) overlay_ranking_def runtime_rule_decision split: option.split)
qed

text \<open>
  C3: After a successful reload the runtime decider implements the ranking over the database it was loaded from: the first
  applying rule in the client's scope decides, exact allow before regex allow before suffix allow before exact deny; when there
  is none the blocklist's answer stands if it blocks or is an explicit allow; otherwise the first regex deny rule and then the
  first suffix deny rule blocks; otherwise the blocklist's answer stands.
\<close>

theorem runtime_implements_ranking:
  assumes "load_snapshot rx d = (Inr s, d')"
    and "domain = filter_normalizeDomain (q_Name q)"
    and "groups = client_group_ids (addr_String (Unmap (q_ClientIP q))) (db_tables d)"
    and "fallback q = Some answer"
    and "hit = (\<lambda>kind matchType. List.find (rule_applies rx domain groups kind matchType) (decision_rules (db_tables d)))"
  shows "RuleDecider_Decide fallback (Some s) q = Some
     (case hit KindAllow MatchExact of Some sr \<Rightarrow> rule_verdict ActionAllow ''exact allow rule'' sr | None \<Rightarrow>
     (case hit KindAllow MatchRegex of Some sr \<Rightarrow> rule_verdict ActionAllow ''regex allow rule'' sr | None \<Rightarrow>
     (case hit KindAllow MatchSuffix of Some sr \<Rightarrow> rule_verdict ActionAllow ''suffix allow rule'' sr | None \<Rightarrow>
     (case hit KindDeny MatchExact of Some sr \<Rightarrow> rule_verdict ActionBlock ''exact deny rule'' sr | None \<Rightarrow>
      if d_Action answer = ActionBlock \<or> d_Reason answer = ''blocklist allow match'' then answer
      else
     (case hit KindDeny MatchRegex of Some sr \<Rightarrow> rule_verdict ActionBlock ''regex deny rule'' sr | None \<Rightarrow>
     (case hit KindDeny MatchSuffix of Some sr \<Rightarrow> rule_verdict ActionBlock ''suffix deny rule'' sr | None \<Rightarrow> answer))))))"
proof -
  have "hit = first_rule rx domain groups (decision_rules (db_tables d))" by (intro ext) (simp add: assms(5) first_rule_def)
  then show ?thesis using RuleDecider_ranked [where fallback = fallback and q = q, OF assms(1-4)] by (simp only: overlay_ranking_def)
qed

text \<open>
  Three rules match one name, and a fourth an other one. The name goes by the regex allow rule although an exact deny rule, entered before it, matches as well;
  the other name is blocked by the suffix rule.
\<close>

definition rules_db :: "filter_db db" where
  "rules_db =
     \<lparr>db_tables = empty_filter_db\<lparr>f_rules := \<lparr>t_rows =
        [\<lparr>ru_ID = 7, ru_Pattern = ''ads.example'', ru_Kind = KindDeny, ru_MatchType = MatchSuffix, ru_Enabled = True, ru_Comment = []\<rparr>,
         \<lparr>ru_ID = 8, ru_Pattern = ''x.ads.example'', ru_Kind = KindDeny, ru_MatchType = MatchExact, ru_Enabled = True, ru_Comment = []\<rparr>,
         \<lparr>ru_ID = 9, ru_Pattern = ''^x'', ru_Kind = KindAllow, ru_MatchType = MatchRegex, ru_Enabled = True, ru_Comment = []\<rparr>],
        t_seq = 9\<rparr>\<rparr>,
      db_faults = []\<rparr>"

definition starts_with_x :: regexp_engine where
  "starts_with_x pattern = (if pattern = ''^x'' then Some (\<lambda>domain. HasPrefix domain ''x'') else None)"

lemma rules_db_rules: "decision_rules (db_tables rules_db) = map (\<lambda>r. \<lparr>sr_Rule = r, sr_GroupID = 0\<rparr>) (t_rows (f_rules (db_tables rules_db)))"
  by (simp add: rules_db_def decision_rules_def left_join_groups_def empty_filter_db_def empty_table_def tbl_select_def Let_def)

theorem runtime_implements_ranking_witness:
  "\<exists>s. load_snapshot starts_with_x rules_db = (Inr s, rules_db) \<and>
     RuleDecider_Decide (\<lambda>q. Some (Decision ActionAllow ''no blocklist match'')) (Some s)
       \<lparr>q_Name = ''x.ads.example.'', q_Type = 1, q_ClientIP = AddrInvalid, q_Timestamp = None\<rparr> =
     Some \<lparr>d_Action = ActionAllow, d_Reason = ''regex allow rule'', d_RuleID = 9, d_BlocklistID = 0\<rparr> \<and>
     RuleDecider_Decide (\<lambda>q. Some (Decision ActionAllow ''no blocklist match'')) (Some s)
       \<lparr>q_Name = ''y.ads.example.'', q_Type = 1, q_ClientIP = AddrInvalid, q_Timestamp = None\<rparr> =
     Some \<lparr>d_Action = ActionBlock, d_Reason = ''suffix deny rule'', d_RuleID = 7, d_BlocklistID = 0\<rparr>"
proof -
  let ?q = "\<lambda>name. \<lparr>q_Name = name, q_Type = 1, q_ClientIP = AddrInvalid, q_Timestamp = None\<rparr>"
  let ?fb = "\<lambda>q :: query. Some (Decision ActionAllow ''no blocklist match'')"
  obtain s where load: "load_snapshot starts_with_x rules_db = (Inr s, rules_db)"
    by (simp add: load_snapshot_def then_do_def decisionRules_def ListClients_def rules_db_def empty_filter_db_def starts_with_x_def
        empty_table_def tbl_select_def decision_rules_def left_join_groups_def Let_def filter_const_defs)
  have g: "client_group_ids a (db_tables rules_db) = {}" for a
    by (simp add: rules_db_def empty_filter_db_def empty_table_def client_group_ids_def)
  have n: "filter_normalizeDomain ''x.ads.example.'' = ''x.ads.example''" "filter_normalizeDomain ''y.ads.example.'' = ''y.ads.example''" by code_simp+
  have hit: "overlay_ranking (first_rule starts_with_x ''x.ads.example'' {} (decision_rules (db_tables rules_db))) (Decision ActionAllow ''no blocklist match'') =
      \<lparr>d_Action = ActionAllow, d_Reason = ''regex allow rule'', d_RuleID = 9, d_BlocklistID = 0\<rparr>"
    "overlay_ranking (first_rule starts_with_x ''y.ads.example'' {} (decision_rules (db_tables rules_db))) (Decision ActionAllow ''no blocklist match'') =
      \<lparr>d_Action = ActionBlock, d_Reason = ''suffix deny rule'', d_RuleID = 7, d_BlocklistID = 0\<rparr>"
    unfolding rules_db_rules by code_simp+
  have run: "RuleDecider_Decide ?fb (Some s) (?q name) =
      Some (overlay_ranking (first_rule starts_with_x domain {} (decision_rules (db_tables rules_db))) (Decision ActionAllow ''no blocklist match''))"
    if "filter_normalizeDomain name = domain" for name domain
    unfolding overlay_ranking_def
    by (rule runtime_implements_ranking [OF load, where domain = domain and groups = "{}"])
      (use that in \<open>simp_all add: g first_rule_def [abs_def]\<close>)
  have "RuleDecider_Decide ?fb (Some s) (?q ''x.ads.example.'') = Some \<lparr>d_Action = ActionAllow, d_Reason = ''regex allow rule'', d_RuleID = 9, d_BlocklistID = 0\<rparr>"
    unfolding run [OF n(1)] hit ..
  moreover have "RuleDecider_Decide ?fb (Some s) (?q ''y.ads.example.'') = Some \<lparr>d_Action = ActionBlock, d_Reason = ''suffix deny rule'', d_RuleID = 7, d_BlocklistID = 0\<rparr>"
    unfolding run [OF n(2)] hit ..
  ultimately show ?thesis using load by blast
qed

end
