(* ===== verification/App_Runtime.thy ===== *)
theory App_Runtime
  imports Plugin_Serving Config_Store Corefile Filter_Runtime Local_Repository
begin

text \<open>
  \<open>internal/app/app.go\<close> and \<open>internal/coredns/server.go\<close>: how the stored configuration, the blocklist manager, the rules
  and the local records reach the runtime of the plugin. \<open>SetDecider\<close> installs a pointer: the runtime
  holds a reference, and what it decides is read from the reloader's current manager and rules. Starting and stopping CoreDNS is
  a call of caddy, a parameter.
\<close>

section \<open>The CoreDNS server\<close>

record 'i dns_server =
  ds_instance :: "'i option"

record caddyfile =
  cd_Contents :: string
  cd_Filepath :: string
  cd_ServerTypeName :: string

definition caddyfileInput :: "config \<Rightarrow> caddyfile" where
  "caddyfileInput cfg = \<lparr>cd_Contents = Corefile cfg, cd_Filepath = ''generated Corefile'', cd_ServerTypeName = ''dns''\<rparr>"

definition server_Start :: "(caddyfile \<Rightarrow> 'i result) \<Rightarrow> config \<Rightarrow> 'i dns_server result" where
  "server_Start start cfg = (case start (caddyfileInput cfg) of Inl err \<Rightarrow> Inl err | Inr i \<Rightarrow> Inr \<lparr>ds_instance = Some i\<rparr>)"

text \<open>\<open>Reload\<close> of a server, which may be nil, with the poll of the context; a failed restart keeps the instance.\<close>

definition server_Reload ::
  "('i \<Rightarrow> caddyfile \<Rightarrow> 'i result) \<Rightarrow> bool \<Rightarrow> config \<Rightarrow> 'i dns_server option \<Rightarrow> unit result \<times> 'i dns_server option" where
  "server_Reload restart cancelled cfg s =
     (case s of
        None \<Rightarrow> (Inl (ErrorString ''coredns server is nil''), s)
      | Some sv \<Rightarrow>
          if cancelled then (Inl context_Canceled, s)
          else (case ds_instance sv of
              None \<Rightarrow> (Inl (ErrorString ''coredns server is not running''), s)
            | Some i \<Rightarrow>
                (case restart i (caddyfileInput cfg) of
                   Inl err \<Rightarrow> (Inl err, s)
                 | Inr i' \<Rightarrow> (Inr (), Some (sv\<lparr>ds_instance := Some i'\<rparr>)))))"

text \<open>What the select of \<open>Stop\<close> receives first.\<close>

datatype stop_event = Done "go_error option" | ContextDone go_error

definition server_Stop :: "stop_event \<Rightarrow> 'i dns_server option \<Rightarrow> unit result \<times> 'i dns_server option" where
  "server_Stop received s =
     (case s of
        None \<Rightarrow> (Inr (), s)
      | Some sv \<Rightarrow>
          (case ds_instance sv of
             None \<Rightarrow> (Inr (), s)
           | Some _ \<Rightarrow>
               (case received of
                  Done None \<Rightarrow> (Inr (), Some (sv\<lparr>ds_instance := None\<rparr>))
                | Done (Some err) \<Rightarrow> (Inl err, s)
                | ContextDone err \<Rightarrow> (Inl err, s))))"

text \<open>The reloader holds an interface value: none, or the server.\<close>

definition ReloadDNS ::
  "(config \<Rightarrow> 'sv \<Rightarrow> unit result \<times> 'sv) \<Rightarrow> config \<Rightarrow> 'sv option \<Rightarrow> ('st, 'r, 'w) plugin_world
     \<Rightarrow> unit result \<times> 'sv option \<times> ('st, 'r, 'w) plugin_world" where
  "ReloadDNS reload cfg server pw =
     (case server of
        None \<Rightarrow> (Inr (), server, pw)
      | Some s \<Rightarrow>
          (case reload cfg s of
             (Inl err, s') \<Rightarrow> (Inl err, Some s', pw)
           | (Inr _, s') \<Rightarrow> (Inr (), Some s', SetCacheEnabled (CacheEnabled (cfg_DNS cfg)) pw)))"

definition ApplyRuntimeConfig :: "config \<Rightarrow> ('st, 'r, 'w) plugin_world \<Rightarrow> unit result \<times> ('st, 'r, 'w) plugin_world" where
  "ApplyRuntimeConfig cfg pw = (Inr (), SetBlockingResponse (bc_Response (cfg_Blocking cfg)) pw)"

section \<open>Reloading the filters\<close>

datatype decider_ref = RulesDecider | ManagerDecider

record reloader =
  rl_manager :: "filter_db db manager option"
  rl_rules :: "rule_snapshot option option"

type_synonym 'r app_plugin = "(decider_ref, 'r, unit) plugin_world"

text \<open>What an installed decider answers, given what the reloader holds.\<close>

definition decide_ref :: "reloader \<Rightarrow> decider_ref \<Rightarrow> query \<Rightarrow> decision option" where
  "decide_ref rl ref q =
     (case rl_manager rl of
        None \<Rightarrow> None
      | Some m \<Rightarrow>
          (case ref of
             ManagerDecider \<Rightarrow> Some (manager_Decide m q)
           | RulesDecider \<Rightarrow>
               (case rl_rules rl of
                  None \<Rightarrow> None
                | Some current \<Rightarrow> RuleDecider_Decide (\<lambda>q. Some (manager_Decide m q)) current q)))"

definition filters_Reload ::
  "regexp_engine \<Rightarrow> time \<Rightarrow> reloader \<Rightarrow> filter_db db io \<Rightarrow> (decider_ref, 'r, 'w) plugin_world
     \<Rightarrow> unit result \<times> reloader \<times> filter_db db io \<times> (decider_ref, 'r, 'w) plugin_world" where
  "filters_Reload rx now rl io pw =
     (case on_faults ctx_err io of
        (Inl err, io) \<Rightarrow> (Inl err, rl, io, pw)
      | (Inr _, io) \<Rightarrow>
          (case rl_manager rl of
             None \<Rightarrow> (Inr (), rl, io, pw)
           | Some m \<Rightarrow>
               (case manager_Reload now m io of
                  (Inl err, m', io) \<Rightarrow> (Inl err, rl\<lparr>rl_manager := Some m'\<rparr>, io, pw)
                | (Inr _, m', io) \<Rightarrow>
                    let rl = rl\<lparr>rl_manager := Some m'\<rparr> in
                    (case rl_rules rl of
                       Some current \<Rightarrow>
                         (case RuleDecider_Reload rx current (io_world io) of
                            ((Inl err, current'), d) \<Rightarrow> (Inl err, rl\<lparr>rl_rules := Some current'\<rparr>, io\<lparr>io_world := d\<rparr>, pw)
                          | ((Inr _, current'), d) \<Rightarrow>
                              (Inr (), rl\<lparr>rl_rules := Some current'\<rparr>, io\<lparr>io_world := d\<rparr>, SetDecider (Some RulesDecider) pw))
                     | None \<Rightarrow> (Inr (), rl, io, SetDecider (Some ManagerDecider) pw)))))"

section \<open>The blocking controller\<close>

record blocking_status =
  bs_Paused :: bool
  bs_Indefinite :: bool
  bs_PauseUntil :: string
  bs_RemainingSeconds :: int

definition no_status :: blocking_status where
  "no_status = \<lparr>bs_Paused = False, bs_Indefinite = False, bs_PauseUntil = [], bs_RemainingSeconds = 0\<rparr>"

text \<open>A zero \<open>now\<close> is replaced by the clock; the difference is positive, so its seconds are the quotient.\<close>

definition BlockingStatusFromPause :: "bool \<Rightarrow> time \<Rightarrow> time \<Rightarrow> instant \<Rightarrow> blocking_status" where
  "BlockingStatusFromPause paused until now clock =
     (let now = (case now of None \<Rightarrow> clock | Some t \<Rightarrow> t) in
      if \<not> paused then no_status
      else (case until of
          None \<Rightarrow> no_status\<lparr>bs_Paused := True, bs_Indefinite := True\<rparr>
        | Some u \<Rightarrow>
            if \<not> u > now then no_status
            else no_status\<lparr>bs_Paused := True, bs_PauseUntil := format_RFC3339 u, bs_RemainingSeconds := (u - now) div second_ns\<rparr>))"

definition controller_Status :: "time \<Rightarrow> ('st, 'r, 'w) plugin_world \<Rightarrow> blocking_status \<times> ('st, 'r, 'w) plugin_world" where
  "controller_Status now pw =
     (case BlockingPause pw of (pause, pw) \<Rightarrow> (BlockingStatusFromPause (bp_Enabled pause) (bp_Until pause) now (pw_now pw), pw))"

definition set_pause :: "bool \<Rightarrow> string \<Rightarrow> config \<Rightarrow> config" where
  "set_pause paused until cfg = cfg\<lparr>cfg_Blocking := (cfg_Blocking cfg)\<lparr>bc_Paused := paused, bc_PauseUntil := until\<rparr>\<rparr>"

definition pause_text :: "time \<Rightarrow> string" where
  "pause_text until = (case until of None \<Rightarrow> [] | Some u \<Rightarrow> format_RFC3339 u)"

text \<open>The store is none when the controller has no store.\<close>

type_synonym 's store_ops = "(('s, config) step \<times> (config \<Rightarrow> ('s, unit) step)) option"

definition controller_update ::
  "string \<Rightarrow> 's store_ops \<Rightarrow> (config \<Rightarrow> config) \<Rightarrow> (('st, 'r, 'w) plugin_world \<Rightarrow> ('st, 'r, 'w) plugin_world)
     \<Rightarrow> 's \<Rightarrow> ('st, 'r, 'w) plugin_world \<Rightarrow> blocking_status result \<times> 's \<times> ('st, 'r, 'w) plugin_world" where
  "controller_update missing ops change apply s pw =
     (case ops of
        None \<Rightarrow> (Inl (ErrorString missing), s, pw)
      | Some (Load, Save) \<Rightarrow>
          (case then_do Load (\<lambda>cfg. Save (change cfg)) s of
             (Inl err, s) \<Rightarrow> (Inl err, s, pw)
           | (Inr _, s) \<Rightarrow>
               (case time_Now (apply pw) of (now, pw) \<Rightarrow>
                case controller_Status (Some now) pw of (status, pw) \<Rightarrow> (Inr status, s, pw))))"

definition controller_Pause ::
  "'s store_ops \<Rightarrow> time \<Rightarrow> 's \<Rightarrow> ('st, 'r, 'w) plugin_world \<Rightarrow> blocking_status result \<times> 's \<times> ('st, 'r, 'w) plugin_world" where
  "controller_Pause ops until =
     controller_update ''blocking pause requires config store'' ops (set_pause True (pause_text until)) (PauseBlocking until)"

definition controller_Resume ::
  "'s store_ops \<Rightarrow> 's \<Rightarrow> ('st, 'r, 'w) plugin_world \<Rightarrow> blocking_status result \<times> 's \<times> ('st, 'r, 'w) plugin_world" where
  "controller_Resume ops =
     controller_update ''blocking resume requires config store'' ops (set_pause False []) ResumeBlocking"

section \<open>Starting\<close>

definition applyBlockingPause ::
  "config_lib \<Rightarrow> blocking_config \<Rightarrow> ('st, 'r, 'w) plugin_world \<Rightarrow> ('st, 'r, 'w) plugin_world" where
  "applyBlockingPause lib cfg pw =
     (if \<not> bc_Paused cfg then ResumeBlocking pw
      else if bc_PauseUntil cfg = [] then PauseBlocking None pw
      else (case time_Parse (lib_lenientNano lib) (bc_PauseUntil cfg) of
          None \<Rightarrow> ResumeBlocking pw
        | Some until \<Rightarrow>
            (case time_Now pw of (now, pw) \<Rightarrow>
               if (case until of None \<Rightarrow> False | Some u \<Rightarrow> u > now) then PauseBlocking until pw else ResumeBlocking pw)))"

text \<open>The part of \<open>Serve\<close> that prepares the runtime before the listeners start.\<close>

definition prepare_runtime ::
  "config_lib \<Rightarrow> config \<Rightarrow> ('st, 'r, 'w) plugin_world \<Rightarrow> ('st, 'r, 'w) plugin_world" where
  "prepare_runtime lib cfg pw =
     (let pw = SetBlockingResponse (bc_Response (cfg_Blocking cfg)) pw;
          pw = applyBlockingPause lib (cfg_Blocking cfg) pw;
          pw = SetCacheEnabled (CacheEnabled (cfg_DNS cfg)) pw;
          pw = SetDecider None pw
      in SetLocalResolver None pw)"

definition ReloadLocalDNS ::
  "('s, local_record list) step option \<Rightarrow> 's \<Rightarrow> ('st, 'w dns_resolver, 'w) plugin_world
     \<Rightarrow> unit result \<times> 's \<times> ('st, 'w dns_resolver, 'w) plugin_world" where
  "ReloadLocalDNS ListEnabled s pw =
     (case ListEnabled of
        None \<Rightarrow> (Inr (), s, pw)
      | Some listing \<Rightarrow>
          (case listing s of
             (Inl err, s) \<Rightarrow> (Inl err, s, pw)
           | (Inr records, s) \<Rightarrow> (Inr (), s, SetLocalResolver (Some (NewStaticResolver records)) pw)))"

end
