(* ===== verification/App_Properties.thy ===== *)
theory App_Properties
  imports App_Runtime
begin

text \<open>
  What the parts guarantee together: a pause that was persisted is in force after a restart, a
  reload of the filters decides the queries on the wire by what the database holds, and a reload that fails leaves
  the plugin as it was.
\<close>

section \<open>A runtime that nobody else changes\<close>

lemma quiet_store: "pw_env w = [] \<Longrightarrow> store f w = w\<lparr>pw_runtime := f (pw_runtime w)\<rparr>"
  by (simp add: store_def interfere_def Let_def)

lemma time_Now_runtime:
  "time_Now (w\<lparr>pw_runtime := rt\<rparr>) = (fst (time_Now w), (snd (time_Now w))\<lparr>pw_runtime := rt\<rparr>)"
  by (simp add: time_Now_def split: list.split)

lemma time_Now_keeps: "pw_env (snd (time_Now w)) = pw_env w" "pw_runtime (snd (time_Now w)) = pw_runtime w"
  by (simp_all add: time_Now_def split: list.split)

lemmas runtime_ops = SetBlockingResponse_def SetDecider_def SetLocalResolver_def SetCacheEnabled_def PauseBlocking_def ResumeBlocking_def

section \<open>The pause\<close>

definition pause_until :: "instant \<Rightarrow> blocking_pause" where
  "pause_until u = \<lparr>bp_Enabled = True, bp_Until = Some u\<rparr>"

lemma controller_update_ok:
  assumes "controller_update missing (Some (Load, Save)) change apply s pw = (Inr st, s', pw')"
  obtains c s1 where "Load s = (Inr c, s1)" and "Save (change c) s1 = (Inr (), s')"
  using assms by (auto simp: controller_update_def then_do_def split: prod.splits sum.splits)

lemma prepared_pause:
  assumes "pw_env pw = []" and "bc_Paused (cfg_Blocking c)" and "bc_PauseUntil (cfg_Blocking c) = format_RFC3339 u"
    and "0 \<le> u" and "0 \<le> year_of u" and "year_of u \<le> 9999"
  shows "rt_pause (pw_runtime (prepare_runtime lib c pw)) =
    (if fst (time_Now pw) < u div second_ns * second_ns then pause_until (u div second_ns * second_ns) else no_pause)"
proof -
  let ?u = "u div second_ns * second_ns"
  have "0 \<le> ?u" using assms(4) by (simp add: second_ns_def pos_imp_zdiv_nonneg_iff)
  then have "time_of ?u = Some ?u" by (simp add: time_of_def epoch_days_def second_ns_def)
  then have p: "time_Parse (lib_lenientNano lib) (format_RFC3339 u) = Some (Some ?u)"
    using parse_format_RFC3339 [OF assms(5,6)] by (simp add: time_Parse_def)
  have "format_RFC3339 u \<noteq> []" by (simp add: format_RFC3339_def Let_def split: prod.split)
  then show ?thesis
    using assms(1-3) p
    by (simp add: prepare_runtime_def applyBlockingPause_def runtime_ops quiet_store time_Now_runtime time_Now_keeps Let_def pause_until_def
        case_prod_beta)
qed

text \<open>
  C18: A pause with an end survives a restart: after the controller has paused blocking until \<open>u\<close> and reported success, the next
  start of the process with any bootstrap configuration reads the pause from the database, and the runtime is prepared with
  exactly that pause, to the second, or with none when its end has passed by then.
\<close>

theorem pause_survives_restart:
  assumes "controller_Pause (Some (store_Load lib has_db, store_Save lib nils has_db stamp)) (Some u) d pw = (Inr st, d', pw')"
    and "\<And>c. stored_config lib d = Some c \<Longrightarrow> list_all ascii (config_strings c)"
    and "0 \<le> u" and "0 \<le> year_of u" and "year_of u \<le> 9999" and "db_faults d' = []"
  shows "\<exists>c. InitializeStoreWithSource lib (store_Load lib True) (store_Save lib nils' True stamp') bootstrap d' =
           (Inr (c, SourcePersisted), d') \<and>
         (\<forall>w. pw_env w = [] \<longrightarrow> rt_pause (pw_runtime (prepare_runtime lib c w)) =
           (if fst (time_Now w) < u div second_ns * second_ns then pause_until (u div second_ns * second_ns) else no_pause))"
proof -
  obtain c s1 where l: "store_Load lib has_db d = (Inr c, s1)"
    and s: "store_Save lib nils has_db stamp (set_pause True (pause_text (Some u)) c) s1 = (Inr (), d')"
    using assms(1) unfolding controller_Pause_def by (rule controller_update_ok)
  let ?c = "set_pause True (pause_text (Some u)) c"
  have "ints_ok c" using sqlite_config.load_ok [OF l] stored_ints by blast
  then have "ints_ok ?c" by (simp add: ints_ok_parts set_pause_def)
  from sqlite_Load_saved [OF s this assms(6)]
  have "InitializeStoreWithSource lib (store_Load lib True) (store_Save lib nils' True stamp') bootstrap d' = (Inr (?c, SourcePersisted), d')"
    by (simp add: InitializeStoreWithSource_def)
  moreover have "bc_Paused (cfg_Blocking ?c)" "bc_PauseUntil (cfg_Blocking ?c) = format_RFC3339 u"
    by (simp_all add: set_pause_def pause_text_def)
  ultimately show ?thesis using prepared_pause [OF _ _ _ assms(3-5)] by blast
qed

lemma validate_pause:
  assumes "Validate lib c = ok" and "0 \<le> year_of u" and "year_of u \<le> 9999"
  shows "Validate lib (set_pause b (format_RFC3339 u) c) = ok"
  using assms(1) parse_format_RFC3339 [OF assms(2,3)] unfolding Validate_ok_iff
  by (simp add: config_checks_def set_pause_def time_Parse_def)

definition quiet_world :: "('st, 'r, unit) plugin_world" where
  "quiet_world = \<lparr>pw_runtime = NewRuntime\<lparr>rt_audit := InstalledSink\<rparr>, pw_env = [], pw_now = 100, pw_ticks = [],
     pw_written = [], pw_forwarded = [], pw_audit = [], pw_local = ()\<rparr>"

theorem pause_survives_restart_witness:
  "\<exists>d' c. InitializeStoreWithSource demo_lib (store_Load demo_lib True) (store_Save demo_lib no_nils True []) Default d' =
       (Inr (c, SourcePersisted), d') \<and>
     rt_pause (pw_runtime (prepare_runtime demo_lib c (quiet_world :: (unit, unit, unit) plugin_world))) = pause_until 7000000000"
proof -
  let ?row = "\<lambda>c. Some \<lparr>ac_payload = encode_config no_nils c, ac_updated_at = []\<rparr>"
  let ?d = "\<lparr>db_tables = ?row Default, db_faults = []\<rparr> :: config_db"
  let ?c = "set_pause True (format_RFC3339 7000000009) Default"
  let ?d' = "?d\<lparr>db_tables := ?row ?c\<rparr>"
  have ints: "ints_ok Default" by code_simp
  have y: "year_of 7000000009 = 1970" by code_simp
  have sel: "stored_config demo_lib ?d = Some Default"
    by (simp add: stored_config_def decode_encode_payload [OF Default_valid ints])
  have l: "store_Load demo_lib True ?d = (Inr Default, ?d)"
    by (simp add: store_Load_def then_do_def wrap_err_def decode_encode_payload [OF Default_valid ints])
  have "Validate demo_lib ?c = ok" by (rule validate_pause [OF Default_valid]) (simp_all add: y)
  then have sv: "store_Save demo_lib no_nils True [] ?c ?d = (Inr (), ?d')"
    by (simp add: store_Save_def then_do_def wrap_err_def sql_run_no_fault)
  obtain st pw' where p: "controller_Pause (Some (store_Load demo_lib True, store_Save demo_lib no_nils True [])) (Some 7000000009) ?d
      (quiet_world :: (unit, unit, unit) plugin_world) = (Inr st, ?d', pw')"
    by (simp add: controller_Pause_def controller_update_def then_do_def l sv pause_text_def case_prod_beta)
  have "list_all ascii (config_strings Default)" by code_simp
  then obtain c where c: "InitializeStoreWithSource demo_lib (store_Load demo_lib True) (store_Save demo_lib no_nils True []) Default ?d' =
       (Inr (c, SourcePersisted), ?d')"
    and w: "\<forall>w :: (unit, unit, unit) plugin_world. pw_env w = [] \<longrightarrow> rt_pause (pw_runtime (prepare_runtime demo_lib c w)) =
           (if fst (time_Now w) < 7000000009 div second_ns * second_ns then pause_until (7000000009 div second_ns * second_ns) else no_pause)"
    using pause_survives_restart [OF p, of no_nils "[]" Default] sel y by auto
  have q: "pw_env (quiet_world :: (unit, unit, unit) plugin_world) = []" "fst (time_Now (quiet_world :: (unit, unit, unit) plugin_world)) = 100"
    by (simp_all add: quiet_world_def time_Now_def)
  have "7000000009 div second_ns * second_ns = 7000000000" by (simp add: second_ns_def)
  then have "rt_pause (pw_runtime (prepare_runtime demo_lib c (quiet_world :: (unit, unit, unit) plugin_world))) = pause_until 7000000000"
    using w q by simp
  then show ?thesis using c by blast
qed

section \<open>The filters\<close>

definition rl_ok :: "reloader \<Rightarrow> decider_ref \<Rightarrow> bool" where
  "rl_ok rl ref \<longleftrightarrow> rl_manager rl \<noteq> None \<and>
     (ref = RulesDecider \<longrightarrow> (\<exists>current. rl_rules rl = Some current \<and> (\<forall>s. current = Some s \<longrightarrow> snapshot_ok s)))"

interpretation reloaded: decider "\<lambda>(rl, ref). decide_ref rl ref" "\<lambda>(rl, ref). rl_ok rl ref"
proof (unfold_locales, clarify)
  fix rl ref q assume ok: "rl_ok rl ref"
  then obtain m where m: "rl_manager rl = Some m" by (auto simp: rl_ok_def)
  show "\<exists>d. decide_ref rl ref q = Some d \<and> action_ok d"
  proof (cases ref)
    case ManagerDecider
    then show ?thesis using m manager.decides by (simp add: decide_ref_def)
  next
    case RulesDecider
    then obtain current where c: "rl_rules rl = Some current" "\<forall>s. current = Some s \<longrightarrow> snapshot_ok s"
      using ok by (auto simp: rl_ok_def)
    then show ?thesis using manager.overlay_decides [of current m q] RulesDecider m by (simp add: decide_ref_def)
  qed
qed

lemma filters_Reload_cases:
  assumes "filters_Reload rx now rl io pw = (r, rl', io', pw')"
  obtains (idle) "r = Inr ()" and "rl_manager rl = None" and "rl' = rl" and "pw' = pw"
  | (cancelled) err where "r = Inl err" and "rl' = rl" and "pw' = pw"
  | (lists_failed) err m m' io1 where "r = Inl err" and "rl_manager rl = Some m" and "rl' = rl\<lparr>rl_manager := Some m'\<rparr>" and "pw' = pw"
      and "manager_Reload now m io1 = (Inl err, m', io')" and "io_world io1 = io_world io"
  | (rules_failed) err m m' current io1 io2 where "r = Inl err" and "rl_manager rl = Some m" and "rl_rules rl = Some current"
      and "rl' = rl\<lparr>rl_manager := Some m', rl_rules := Some current\<rparr>" and "pw' = pw" and "manager_Reload now m io1 = (Inr (), m', io2)"
  | (rules) m m' current s io1 io2 d where "r = Inr ()" and "rl_manager rl = Some m" and "rl_rules rl = Some current"
      and "rl' = rl\<lparr>rl_manager := Some m', rl_rules := Some (Some s)\<rparr>" and "pw' = SetDecider (Some RulesDecider) pw"
      and "manager_Reload now m io1 = (Inr (), m', io2)" and "load_snapshot rx (io_world io2) = (Inr s, d)"
      and "io_world io1 = io_world io"
  | (lists_only) m m' io1 where "r = Inr ()" and "rl_manager rl = Some m" and "rl_rules rl = None"
      and "rl' = rl\<lparr>rl_manager := Some m'\<rparr>" and "pw' = SetDecider (Some ManagerDecider) pw"
      and "manager_Reload now m io1 = (Inr (), m', io')" and "io_world io1 = io_world io"
proof -
  obtain p io1 where f: "on_faults ctx_err io = (p, io1)" by fastforce
  have w: "io_world io1 = io_world io" using f by (auto simp: on_faults_def split: prod.splits)
  note run = assms [unfolded filters_Reload_def f prod.case]
  show thesis
  proof (cases p)
    case (Inl e)
    show thesis by (rule cancelled [of e]) (use run Inl in simp_all)
  next
    case p: (Inr u)
    show thesis
    proof (cases "rl_manager rl")
      case None
      show thesis by (rule idle) (use run p None in simp_all)
    next
      case m: (Some m)
      obtain q m' io2 where rel: "manager_Reload now m io1 = (q, m', io2)" using prod_cases3 by blast
      show thesis
      proof (cases q)
        case (Inl e)
        show thesis by (rule lists_failed [of e m m' io1]) (use run p m rel w Inl in simp_all)
      next
        case q: (Inr u')
        show thesis
        proof (cases "rl_rules rl")
          case None
          show thesis by (rule lists_only [of m m' io1]) (use run p m rel q w None in \<open>simp_all add: Let_def\<close>)
        next
          case c: (Some current)
          obtain sr d where ls: "load_snapshot rx (io_world io2) = (sr, d)" by fastforce
          have rel': "manager_Reload now m io1 = (Inr (), m', io2)" using rel q by simp
          show thesis
          proof (cases sr)
            case (Inl e)
            have r: "r = Inl e"
              using run p m rel q c ls Inl by (simp add: Let_def RuleDecider_Reload_def)
            show thesis
              by (rule rules_failed [OF r m c _ _ rel'])
                (use run p m rel q c ls Inl in \<open>simp_all add: Let_def RuleDecider_Reload_def\<close>)
          next
            case (Inr sn)
            then have ls': "load_snapshot rx (io_world io2) = (Inr sn, d)" using ls by simp
            show thesis
              by (rule rules [OF _ m c _ _ rel' ls' w])
                (use run p m rel q c ls Inr in \<open>simp_all add: Let_def RuleDecider_Reload_def\<close>)
          qed
        qed
      qed
    qed
  qed
qed

text \<open>
  A reload of the filters that fails changes nothing of the plugin: the installed decider, and with it the
  fail-open default before the first reload, stays. When the lists fail, every query is decided as before; when the rules fail after the lists
  were read, the old rules decide over the new lists. A decider that was able to decide every query still is.
\<close>

theorem failed_reload_keeps_plugin:
  assumes "filters_Reload rx now rl io pw = (Inl err, rl', io', pw')"
  shows "pw' = pw \<and> rl_rules rl' = rl_rules rl \<and> (rl_ok rl ref \<longrightarrow> rl_ok rl' ref) \<and>
    ((\<forall>q. decide_ref rl' ref q = decide_ref rl ref q) \<or>
     (\<exists>m m' io1 io2. rl_manager rl = Some m \<and> manager_Reload now m io1 = (Inr (), m', io2) \<and> rl' = rl\<lparr>rl_manager := Some m'\<rparr>))"
  using assms
proof (cases rule: filters_Reload_cases)
  case (lists_failed e m m' io1)
  have each: "manager_Decide m' q = manager_Decide m q" for q
    using manager_Reload_error [OF lists_failed(5)] by (simp add: manager_Decide_def)
  have "decide_ref rl' ref q = decide_ref rl ref q" for q
    using lists_failed(2,3) by (simp add: decide_ref_def each split: decider_ref.split option.split)
  then show ?thesis using lists_failed by (simp add: rl_ok_def)
next
  case (rules_failed e m m' current io1 io2)
  then have "rl' = rl\<lparr>rl_manager := Some m'\<rparr>" by simp
  moreover have "rl_rules rl' = rl_rules rl" "rl_ok rl ref \<longrightarrow> rl_ok rl' ref" using rules_failed by (auto simp: rl_ok_def)
  ultimately show ?thesis using rules_failed(2,5,6) by blast
qed simp_all

definition unreadable_reloader :: reloader where
  "unreadable_reloader = \<lparr>rl_manager = Some (NewManagerWithBundled [''/etc/hosts.block''] False), rl_rules = Some None\<rparr>"

theorem failed_reload_keeps_plugin_witness:
  "\<exists>err rl' io'. filters_Reload (\<lambda>_. None) (Some 7) unreadable_reloader
       \<lparr>io_files = \<lambda>_. Inl (ErrorString ''permission denied''), io_faults = [], io_world = rules_db\<rparr> (quiet_world :: (decider_ref, unit, unit) plugin_world) =
     (Inl err, rl', io', quiet_world) \<and> rl_ok rl' RulesDecider"
proof -
  let ?io = "\<lparr>io_files = \<lambda>_. Inl (ErrorString ''permission denied''), io_faults = [], io_world = rules_db\<rparr>"
  obtain err rl' io' and pw' :: "(decider_ref, unit, unit) plugin_world" where
    r: "filters_Reload (\<lambda>_. None) (Some 7) unreadable_reloader ?io quiet_world = (Inl err, rl', io', pw')"
    by (simp add: filters_Reload_def unreadable_reloader_def manager_Reload_def loadEntries_def load_path_def on_faults_def then_do_def
        NewManagerWithBundled_def newManager_def)
  have "rl_ok unreadable_reloader RulesDecider" by (simp add: rl_ok_def unreadable_reloader_def)
  then show ?thesis using failed_reload_keeps_plugin [OF r, of RulesDecider] r by blast
qed

text \<open>Whether an allow rule of any kind applies to a domain in the scope of some groups.\<close>

definition allow_rule_applies :: "regexp_engine \<Rightarrow> string \<Rightarrow> int set \<Rightarrow> scoped_rule list \<Rightarrow> bool" where
  "allow_rule_applies rx domain groups rules \<longleftrightarrow>
     list_ex (\<lambda>sr. list_ex (\<lambda>t. rule_applies rx domain groups KindAllow t sr) [MatchExact, MatchRegex, MatchSuffix]) rules"

lemma overlay_blocks:
  assumes "\<not> allow_rule_applies rx domain groups rules" and "d_Action answer = ActionBlock"
  shows "d_Action (overlay_ranking (first_rule rx domain groups rules) answer) = ActionBlock"
proof -
  have "first_rule rx domain groups rules KindAllow t = None" if "t \<in> {MatchExact, MatchRegex, MatchSuffix}" for t
    using assms(1) that by (auto simp: first_rule_def allow_rule_applies_def list_ex_iff find_None_iff)
  then show ?thesis using assms(2) by (simp add: overlay_ranking_def rule_verdict_def split: option.split)
qed

lemma reload_source_tables:
  assumes "m_paths m = []" and "m_sources m = [BlocklistSource_Entries]" and "manager_Reload now m io = (Inr u, m', io')"
  shows "db_tables (io_world io') = db_tables (io_world io)"
proof -
  obtain es where "loadEntries m io = (Inr es, io')" using manager_Reload_ok [OF assms(3)] by blast
  then obtain es' where "load_source BlocklistSource_Entries io = (Inr es', io')"
    using assms(1,2) by (auto simp: loadEntries_def then_do_eq_Inr)
  then show ?thesis by (rule blocklist_source.load_source_ok(2))
qed

text \<open>
  From the database to the wire: after a successful reload of the filters a query whose name is covered by a deny entry of an enabled
  list (or of the bundled one), by no allow entry, and to which no allow rule of the client's groups applies, is answered with the blocked
  response of the configured mode and is not forwarded, when blocking is not paused and no local record answers.
\<close>

theorem reloaded_filters_block:
  assumes "filters_Reload rx now rl io pw = (Inr (), rl', io', pw')"
    and "rl_manager rl = Some m" and "m_paths m = []" and "m_sources m = [BlocklistSource_Entries]" and "rl_rules rl = Some current"
    and "pw_env pw = []" and "rt_pause (pw_runtime pw) = no_pause" and "rt_local (pw_runtime pw) = None"
    and "rt_audit (pw_runtime pw) = InstalledSink" and "rt_mode (pw_runtime pw) = mode"
    and "tb = db_tables (io_world io)" and "es = (if m_bundled m then parsedBundledEntries else []) @ runtime_entries tb"
    and "normalizeDomain (sv_QName sv r) = Some name" and "listed False es name" and "\<not> listed True es name"
    and "\<not> allow_rule_applies rx (filter_normalizeDomain (sv_QName sv r))
           (client_group_ids (addr_String (Unmap (client_addr (sv_remote sv)))) tb) (decision_rules tb)"
  shows "\<exists>w'. ServeDNS sv (decide_ref rl') resolve r pw' = (Some (m_Rcode (blocked_response (sv_set_reply sv) r mode), None), w') \<and>
     pw_written w' = pw_written pw @ [blocked_response (sv_set_reply sv) r mode] \<and> pw_forwarded w' = pw_forwarded pw"
  using assms(1)
proof (cases rule: filters_Reload_cases)
  case (rules m0 m' current' s io1 io2 d)
  then have rel: "manager_Reload now m io1 = (Inr (), m', io2)" and pw': "pw' = pw\<lparr>pw_runtime := (pw_runtime pw)\<lparr>rt_decider := Installed RulesDecider\<rparr>\<rparr>"
    using assms(2,6) by (simp_all add: SetDecider_def quiet_store)
  have tb: "db_tables (io_world io2) = tb"
    using reload_source_tables [OF assms(3,4) rel] rules(8) assms(11) by simp
  have "\<exists>dec. decide_ref rl' RulesDecider (toQuery sv r t) = Some dec \<and> d_Action dec = ActionBlock" for t
  proof -
    let ?q = "toQuery sv r t"
    have a: "d_Action (manager_Decide m' ?q) = ActionBlock"
      using blocklist_source.reload_source_decides [OF assms(3,4) rel, of ?q] assms(11-15) rules(8)
      by (simp add: toQuery_def spec_action_def)
    have "decide_ref rl' RulesDecider ?q = RuleDecider_Decide (\<lambda>q. Some (manager_Decide m' q)) (Some s) ?q"
      using rules by (simp add: decide_ref_def)
    then show ?thesis
      using RuleDecider_ranked [OF rules(7) refl refl, of "\<lambda>q. Some (manager_Decide m' q)" ?q] a assms(16) overlay_blocks
      by (simp add: tb toQuery_def)
  qed
  then have "\<exists>w'. ServeDNS sv (decide_ref rl') resolve r pw' = (Some (m_Rcode (blocked_response (sv_set_reply sv) r mode), None), w') \<and>
      pw_written w' = pw_written pw' @ [blocked_response (sv_set_reply sv) r mode] \<and> pw_forwarded w' = pw_forwarded pw'"
    by (intro blocked_not_forwarded [of RulesDecider]) (use assms(6-10) pw' in \<open>simp_all add: stable_def\<close>)
  then show ?thesis using pw' by simp
qed (use assms in simp_all)

definition listed_db :: "filter_db db" where
  "listed_db =
     \<lparr>db_tables = empty_filter_db
        \<lparr>f_lists := \<lparr>t_rows = [\<lparr>l_ID = 1, l_URL = [], l_Path = ''/lists/ads'', l_Kind = ''deny'', l_Enabled = True, l_LastUpdatedAt = None,
            l_LastError = []\<rparr>], t_seq = 1\<rparr>,
         f_entries := \<lparr>t_rows = [\<lparr>le_ID = 1, le_ListID = 1, le_Pattern = ''ads.example'', le_MatchType = MatchSuffix, le_Enabled = True\<rparr>],
            t_seq = 1\<rparr>\<rparr>,
      db_faults = []\<rparr>"

definition listed_reloader :: reloader where
  "listed_reloader = \<lparr>rl_manager = Some (NewManagerWithBundledAndSources [] False [BlocklistSource_Entries]), rl_rules = Some None\<rparr>"

theorem reloaded_filters_block_witness:
  "\<exists>rl' io' pw' w'. filters_Reload (\<lambda>_. None) (Some 7) listed_reloader \<lparr>io_files = \<lambda>_. Inl db_error, io_faults = [], io_world = listed_db\<rparr>
       (quiet_world :: (decider_ref, unit, unit) plugin_world) = (Inr (), rl', io', pw') \<and>
     ServeDNS demo_server (decide_ref rl') (\<lambda>_ _ w. (Inr None, w)) demo_request pw' =
       (Some (m_Rcode (blocked_response (\<lambda>r. r) demo_request BlockingResponseNullIP), None), w') \<and> pw_forwarded w' = []"
proof -
  let ?io = "\<lparr>io_files = \<lambda>_. Inl db_error, io_faults = [], io_world = listed_db\<rparr>"
  let ?m = "NewManagerWithBundledAndSources [] False [BlocklistSource_Entries]"
  let ?es = "[\<lparr>e_Domain = ''ads.example'', e_Kind = EntrySuffix, e_Allow = False, e_Source = ''filter_list:1''\<rparr>]"
  let ?w = "quiet_world :: (decider_ref, unit, unit) plugin_world"
  have m: "rl_manager listed_reloader = Some ?m" "m_paths ?m = []" "m_sources ?m = [BlocklistSource_Entries]" "rl_rules listed_reloader = Some None"
    "m_bundled ?m = False"
    by (simp_all add: listed_reloader_def NewManagerWithBundledAndSources_def newManager_def)
  have faults: "db_faults listed_db = []" by (simp add: listed_db_def)
  have none: "decision_rules (db_tables listed_db) = []" by code_simp
  have es: "runtime_entries (db_tables listed_db) = ?es" by code_simp
  obtain s where "load_snapshot (\<lambda>_. None) listed_db = (Inr s, listed_db)"
    using faults by (simp add: load_snapshot_def then_do_def decisionRules_def ListClients_def none)
      (simp add: listed_db_def empty_filter_db_def empty_table_def tbl_select_def)
  then obtain rl' io' pw' where r: "filters_Reload (\<lambda>_. None) (Some 7) listed_reloader ?io ?w = (Inr (), rl', io', pw')"
    using faults m
    by (simp add: filters_Reload_def manager_Reload_def loadEntries_def load_source_def on_faults_def on_world_def then_do_def
        BlocklistSource_Entries_def BlocklistEntries_def RuleDecider_Reload_def Let_def)
  have n: "normalizeDomain (sv_QName demo_server demo_request) = Some ''ads.example''" by code_simp
  have l: "listed False ?es ''ads.example''" "\<not> listed True ?es ''ads.example''" by code_simp+
  have w: "pw_env ?w = []" "rt_pause (pw_runtime ?w) = no_pause" "rt_local (pw_runtime ?w) = None" "rt_audit (pw_runtime ?w) = InstalledSink"
    "rt_mode (pw_runtime ?w) = BlockingResponseNullIP" "pw_forwarded ?w = []"
    by (simp_all add: quiet_world_def NewRuntime_def)
  have reply: "sv_set_reply demo_server = (\<lambda>r. r)" by (simp add: demo_server_def)
  from reloaded_filters_block [OF r m(1-4) w(1-5) refl refl n] l
  obtain w' where "ServeDNS demo_server (decide_ref rl') (\<lambda>_ _ w. (Inr None, w)) demo_request pw' =
       (Some (m_Rcode (blocked_response (\<lambda>r. r) demo_request BlockingResponseNullIP), None), w')" "pw_forwarded w' = []"
    unfolding reply by (fastforce simp: m(5) es none allow_rule_applies_def w(6))
  then show ?thesis using r by blast
qed

end
