(* ===== verification/Go_Time_Nano.thy ===== *)
theory Go_Time_Nano
  imports Go_Time
begin

text \<open>
  The layout \<open>time.RFC3339Nano\<close> of an instant in UTC: the fraction of the second has as many digits as it needs, and none when it is zero.
  The text is parsed back to the instant.
\<close>

definition nine_digits :: "nat \<Rightarrow> string" where
  "nine_digits n = replicate (9 - length (decimal n)) (CHR ''0'') @ decimal n"

definition trim_zeros :: "string \<Rightarrow> string" where
  "trim_zeros s = rev (dropWhile (\<lambda>c. c = CHR ''0'') (rev s))"

definition fraction_text :: "int \<Rightarrow> string" where
  "fraction_text ns = (if ns = 0 then [] else CHR ''.'' # trim_zeros (nine_digits (nat ns)))"

definition format_RFC3339Nano :: "instant \<Rightarrow> string" where
  "format_RFC3339Nano t = butlast (format_RFC3339 t) @ fraction_text (t mod second_ns) @ ''Z''"

section \<open>Parsing it back\<close>

lemma trim_zeros_split: "\<exists>k. s = trim_zeros s @ replicate k (CHR ''0'')"
proof -
  let ?p = "\<lambda>c. c = CHR ''0''"
  have "\<And>c. c \<in> set (takeWhile ?p (rev s)) \<Longrightarrow> c = CHR ''0''" by (drule set_takeWhileD) simp
  then have "takeWhile ?p (rev s) = replicate (length (takeWhile ?p (rev s))) (CHR ''0'')"
    by (metis replicate_length_same)
  moreover have "s = trim_zeros s @ rev (takeWhile ?p (rev s))"
    unfolding trim_zeros_def by (metis rev_append rev_rev_ident takeWhile_dropWhile_id)
  ultimately show ?thesis by (metis rev_replicate)
qed

lemma trim_zeros_Cons: "trim_zeros s = c # r \<Longrightarrow> c \<in> set s"
  using trim_zeros_split [of s] by auto

lemma parse_append_zeros:
  "parse_digits x s = Some y \<Longrightarrow> parse_digits x (s @ replicate k (CHR ''0'')) = Some (y * 10 ^ k)"
proof (induction s arbitrary: x)
  case Nil
  then show ?case by (induction k arbitrary: x y) (auto simp: is_digit_def mult.assoc)
next
  case (Cons c s)
  then show ?case by (auto split: if_splits)
qed

lemma parse_prefix: "parse_digits x (s @ t) = Some y \<Longrightarrow> \<exists>z. parse_digits x s = Some z"
  by (induction s arbitrary: x) (auto split: if_splits)

lemma nine_digits_props:
  assumes "n < 1000000000"
  shows "length (nine_digits n) = 9" and "parse_digits 0 (nine_digits n) = Some (int n)" and "list_all is_digit (nine_digits n)"
proof -
  have l: "length (decimal n) \<le> 9" using length_decimal [of n 8] assms by simp
  then show "length (nine_digits n) = 9" by (simp add: nine_digits_def)
  show p: "parse_digits 0 (nine_digits n) = Some (int n)" by (simp add: nine_digits_def parse_zeros parse_decimal)
  have "list_all is_digit s" if "parse_digits x s = Some y" for s x y
    using that by (induction s arbitrary: x) (auto split: if_splits)
  then show "list_all is_digit (nine_digits n)" using p by blast
qed

lemma fraction_back:
  assumes "0 \<le> ns" and "ns < second_ns"
  shows "split_fraction (fraction_text ns @ ''Z'') = (ns, ''Z'')"
proof (cases "ns = 0")
  case True
  then show ?thesis by (simp add: fraction_text_def split_fraction_def)
next
  case False
  let ?n = "nat ns"
  let ?t = "trim_zeros (nine_digits ?n)"
  have "?n < 1000000000" using assms by (simp add: second_ns_def)
  note nd = nine_digits_props [OF this]
  obtain k where k: "nine_digits ?n = ?t @ replicate k (CHR ''0'')" using trim_zeros_split by blast
  have len: "length ?t + k = 9" using nd(1) arg_cong [OF k, of length] by simp
  obtain z where z: "parse_digits 0 ?t = Some z" using parse_prefix [of 0 ?t "replicate k (CHR ''0'')"] nd(2) k by auto
  have zk: "z * 10 ^ k = ns" using parse_append_zeros [OF z, of k] nd(2) k assms(1) by simp
  then have "?t \<noteq> []" using z False by auto
  then obtain c r where c: "?t = c # r" by (cases ?t) auto
  have digits: "\<forall>x \<in> set ?t. is_digit x"
  proof
    fix x assume "x \<in> set ?t"
    then have "x \<in> set (nine_digits ?n)" by (subst k) simp
    then show "is_digit x" using nd(3) by (simp add: list_all_iff)
  qed
  have "\<not> is_digit (CHR ''Z'')" by (simp add: is_digit_def)
  then have "takeWhile is_digit (?t @ ''Z'') = ?t" "dropWhile is_digit (?t @ ''Z'') = ''Z''"
    using digits by (simp_all add: takeWhile_append2 dropWhile_append2)
  moreover have "fraction_ns ?t = ns" using z zk len by (simp add: fraction_ns_def) (metis add_diff_cancel_left')
  ultimately show ?thesis using False digits c by (simp add: fraction_text_def split_fraction_def)
qed

text \<open>The text of an instant of a year from 0 to 9999 parses back to the instant, to the nanosecond.\<close>

lemma parse_format_RFC3339Nano:
  assumes "0 \<le> year_of t" and "year_of t \<le> 9999"
  shows "parseRFC3339 (format_RFC3339Nano t) = Some t"
proof -
  obtain stamp where f: "format_RFC3339 t = stamp @ ''Z''" and l: "length stamp = 19"
    and p: "\<And>tl'. parse_date_time (stamp @ tl') = Some (t div second_ns)"
    using stamp_of_instant [OF assms] by blast
  have b: "0 \<le> t mod second_ns" "t mod second_ns < second_ns" by (simp_all add: second_ns_def)
  have "format_RFC3339Nano t = stamp @ fraction_text (t mod second_ns) @ ''Z''"
    by (simp add: format_RFC3339Nano_def f)
  then show ?thesis
    using l p fraction_back [OF b] by (simp add: parseRFC3339_def parse_zone_def)
qed

end
