(* ===== verification/Audit_Log.thy ===== *)
theory Audit_Log
  imports Core_Plugin Sql_Table Go_Time_Nano "HOL-Library.Multiset"
begin

text \<open>
  Package \<open>internal/audit\<close>, writing: the tables of the audit database, the transaction that stores a batch of
  events and counts them by action, the settings, and the removal of expired events. Text columns hold the text that the
  code writes, so that the comparisons of times are the comparisons of their texts that SQLite makes.
\<close>

section \<open>Tables\<close>

record audit_row =
  ar_id :: int
  ar_timestamp :: string
  ar_client_ip :: string
  ar_query_name :: string
  ar_query_type :: int
  ar_action :: string
  ar_reason :: string
  ar_rule_id :: int
  ar_blocklist_id :: int
  ar_response :: string
  ar_duration_ns :: int
  ar_upstream_resolver :: string
  ar_cache_status :: string
  ar_forward_duration_ns :: int
  ar_retry_count :: int
  ar_forward_error :: string

record action_total =
  at_action :: string
  at_count :: int
  at_updated_at :: string

record settings_row =
  as_retention_duration_ns :: int
  as_privacy_level :: int
  as_updated_at :: string

record audit_tables =
  au_events :: "audit_row sql_table"
  au_totals :: "action_total list"
  au_settings :: "settings_row option"

type_synonym audit_db = "audit_tables db"

definition set_row_id :: "int \<Rightarrow> audit_row \<Rightarrow> audit_row" where
  "set_row_id i r = r\<lparr>ar_id := i\<rparr>"

interpretation audit_table: id_table ar_id set_row_id
  by unfold_locales (simp_all add: set_row_id_def)

section \<open>Storing a batch\<close>

definition addrString :: "addr \<Rightarrow> string" where
  "addrString a = (if \<not> addr_IsValid a then [] else addr_String a)"

text \<open>A zero time is replaced by the reading of the clock.\<close>

definition stamped :: "instant \<Rightarrow> time \<Rightarrow> instant" where
  "stamped clock t = (case t of None \<Rightarrow> clock | Some i \<Rightarrow> i)"

definition event_row :: "instant \<Rightarrow> audit_event \<Rightarrow> audit_row" where
  "event_row clock event =
     \<lparr>ar_id = 0,
      ar_timestamp = format_RFC3339Nano (stamped clock (ev_Timestamp event)),
      ar_client_ip = addrString (ev_ClientIP event),
      ar_query_name = ToLower (ev_QueryName event),
      ar_query_type = uint (ev_QueryType event),
      ar_action = ev_Action event,
      ar_reason = ev_Reason event,
      ar_rule_id = ev_RuleID event,
      ar_blocklist_id = ev_BlocklistID event,
      ar_response = ev_Response event,
      ar_duration_ns = ev_Duration event,
      ar_upstream_resolver = ev_Upstream event,
      ar_cache_status = ev_CacheStatus event,
      ar_forward_duration_ns = ev_ForwardDuration event,
      ar_retry_count = ev_RetryCount event,
      ar_forward_error = ev_ForwardError event\<rparr>"

definition insert_event_stmt :: "instant \<Rightarrow> audit_event \<Rightarrow> (audit_db, unit) step" where
  "insert_event_stmt clock event =
     wrap_err (Wrapf ''insert audit event'')
       (sql_run (\<lambda>tb. case tbl_insert set_row_id (event_row clock event) (au_events tb) of
          (_, t) \<Rightarrow> Inr ((), tb\<lparr>au_events := t\<rparr>)))"

text \<open>\<open>counts[string(event.Action)]++\<close> over the batch; the statement adds the count to the row of the action.\<close>

definition action_count :: "audit_event list \<Rightarrow> string \<Rightarrow> nat" where
  "action_count events a = length (filter (\<lambda>event. ev_Action event = a) events)"

fun upsert_total :: "string \<Rightarrow> int \<Rightarrow> string \<Rightarrow> action_total list \<Rightarrow> action_total list" where
  "upsert_total a n now [] = [\<lparr>at_action = a, at_count = n, at_updated_at = now\<rparr>]"
| "upsert_total a n now (t # ts) =
     (if at_action t = a then t\<lparr>at_count := at_count t + n, at_updated_at := now\<rparr> # ts else t # upsert_total a n now ts)"

definition update_total_stmt :: "instant \<Rightarrow> audit_event list \<Rightarrow> string \<Rightarrow> (audit_db, unit) step" where
  "update_total_stmt clock events a =
     wrap_err (Wrapf ''update audit action total'')
       (sql_run (\<lambda>tb. Inr ((), tb\<lparr>au_totals :=
          upsert_total a (int (action_count events a)) (format_RFC3339Nano clock) (au_totals tb)\<rparr>)))"

text \<open>The map is walked in an order that Go does not fix: \<open>order\<close> lists its keys.\<close>

definition map_order :: "audit_event list \<Rightarrow> string list \<Rightarrow> bool" where
  "map_order events order \<longleftrightarrow> distinct order \<and> set order = ev_Action ` set events"

definition incrementActionTotals :: "instant \<Rightarrow> string list \<Rightarrow> audit_event list \<Rightarrow> (audit_db, unit) step" where
  "incrementActionTotals clock order events =
     (if events = [] then ret () else
      then_do (wrap_err (Wrapf ''prepare audit action total update'') (sql_poll db_error)) (\<lambda>_.
      then_do (for_each (update_total_stmt clock events) order) (\<lambda>_. ret ())))"

definition insert_body :: "instant \<Rightarrow> string list \<Rightarrow> audit_event list \<Rightarrow> (audit_db, unit) step" where
  "insert_body clock order events =
     then_do (wrap_err (Wrapf ''prepare audit insert'') (sql_poll db_error)) (\<lambda>_.
     then_do (for_each (insert_event_stmt clock) events) (\<lambda>_.
       incrementActionTotals clock order events))"

definition insertBatch :: "instant \<Rightarrow> string list \<Rightarrow> audit_event list \<Rightarrow> (audit_db, unit) step" where
  "insertBatch clock order events = sql_tx ''begin audit insert'' ''commit audit insert'' (insert_body clock order events)"

section \<open>Settings\<close>

definition PrivacyLevelFull :: int where
  "PrivacyLevelFull = 0"

definition PrivacyLevelHideClient :: int where
  "PrivacyLevelHideClient = 1"

definition PrivacyLevelHideClientAndDomain :: int where
  "PrivacyLevelHideClientAndDomain = 2"

definition DefaultRetentionDuration :: duration where
  "DefaultRetentionDuration = 48 * 3600 * second_ns"

definition cleanupBatchSize :: nat where
  "cleanupBatchSize = 5000"

record settings =
  st_RetentionDuration :: duration
  st_PrivacyLevel :: int

definition DefaultSettings :: settings where
  "DefaultSettings = \<lparr>st_RetentionDuration = DefaultRetentionDuration, st_PrivacyLevel = 0\<rparr>"

definition validateSettings :: "settings \<Rightarrow> unit result" where
  "validateSettings s =
     (if st_RetentionDuration s < 0 then Inl (ErrorString ''audit retention duration cannot be negative'')
      else if st_PrivacyLevel s < PrivacyLevelFull \<or> st_PrivacyLevel s > PrivacyLevelHideClientAndDomain
      then Inl (ErrorString ''invalid audit privacy level'')
      else Inr ())"

definition SettingsFromDB :: "bool \<Rightarrow> (audit_db, settings) step" where
  "SettingsFromDB has_db =
     (if \<not> has_db then fail (ErrorString ''audit settings requires a database'') else
      then_do (wrap_err (Wrapf ''query audit settings'') (sql_query_row au_settings)) (\<lambda>row.
        case row of
          None \<Rightarrow> ret DefaultSettings
        | Some r \<Rightarrow>
            let s = \<lparr>st_RetentionDuration = as_retention_duration_ns r, st_PrivacyLevel = as_privacy_level r\<rparr> in
            then_do (lift_result (validateSettings s)) (\<lambda>_. ret s)))"

text \<open>The constraints of the table.\<close>

definition check_settings :: "settings_row \<Rightarrow> bool" where
  "check_settings r \<longleftrightarrow> as_retention_duration_ns r \<ge> 0 \<and> as_privacy_level r \<ge> 0 \<and> as_privacy_level r \<le> 2"

definition SetSettings :: "bool \<Rightarrow> instant \<Rightarrow> settings \<Rightarrow> (audit_db, unit) step" where
  "SetSettings has_db clock s =
     (if \<not> has_db then fail (ErrorString ''audit settings requires a database'') else
      then_do (lift_result (validateSettings s)) (\<lambda>_.
       wrap_err (Wrapf ''save audit settings'')
         (sql_run (\<lambda>tb.
            let r = \<lparr>as_retention_duration_ns = st_RetentionDuration s, as_privacy_level = st_PrivacyLevel s,
                     as_updated_at = format_RFC3339Nano clock\<rparr> in
            if check_settings r then Inr ((), tb\<lparr>au_settings := Some r\<rparr>)
            else Inl (constraint_error ''audit_settings'')))))"

section \<open>What a batch stores\<close>

fun numbered :: "int \<Rightarrow> audit_row list \<Rightarrow> audit_row list" where
  "numbered n [] = []"
| "numbered n (r # rs) = set_row_id (n + 1) r # numbered (n + 1) rs"

definition append_rows :: "audit_row list \<Rightarrow> audit_row sql_table \<Rightarrow> audit_row sql_table" where
  "append_rows rs t = \<lparr>t_rows = t_rows t @ numbered (t_seq t) rs, t_seq = t_seq t + int (length rs)\<rparr>"

lemma append_rows_Nil [simp]: "append_rows [] t = t"
  by (simp add: append_rows_def)

lemma append_rows_Cons:
  "append_rows (r # rs) t = append_rows rs (snd (tbl_insert set_row_id r t))"
  by (simp add: append_rows_def tbl_insert_def)

lemma append_rows_ok: "table_ok ar_id t \<Longrightarrow> table_ok ar_id (append_rows rs t)"
  by (induction rs arbitrary: t) (simp_all add: append_rows_Cons audit_table.insert_ok)

lemma numbered_set: "r \<in> set (numbered n rs) \<Longrightarrow> \<exists>x \<in> set rs. \<exists>i. r = set_row_id i x"
  by (induction rs arbitrary: n) auto

lemma length_numbered [simp]: "length (numbered n rs) = length rs"
  by (induction rs arbitrary: n) auto

definition total_of :: "string \<Rightarrow> action_total list \<Rightarrow> int" where
  "total_of a ts = sum_list (map at_count (filter (\<lambda>t. at_action t = a) ts))"

lemma total_upsert: "distinct (map at_action ts) \<Longrightarrow>
  total_of b (upsert_total a n now ts) = total_of b ts + (if a = b then n else 0)"
  by (induction ts) (auto simp: total_of_def)

lemma upsert_actions: "map at_action (upsert_total a n now ts) =
  (if a \<in> at_action ` set ts then map at_action ts else map at_action ts @ [a])"
  by (induction ts) auto

definition totals_ok :: "action_total list \<Rightarrow> bool" where
  "totals_ok ts \<longleftrightarrow> distinct (map at_action ts) \<and> (\<forall>t \<in> set ts. 0 \<le> at_count t)"

lemma upsert_ok: "totals_ok ts \<Longrightarrow> 0 \<le> n \<Longrightarrow> totals_ok (upsert_total a n now ts)"
  unfolding totals_ok_def upsert_actions by (induction ts) (auto simp: image_iff)

fun upsert_all :: "instant \<Rightarrow> audit_event list \<Rightarrow> string list \<Rightarrow> action_total list \<Rightarrow> action_total list" where
  "upsert_all clock events [] ts = ts"
| "upsert_all clock events (a # order) ts =
     upsert_all clock events order (upsert_total a (int (action_count events a)) (format_RFC3339Nano clock) ts)"

lemma upsert_all_ok: "totals_ok ts \<Longrightarrow> totals_ok (upsert_all clock events order ts)"
  by (induction order arbitrary: ts) (simp_all add: upsert_ok)

lemma total_upsert_all: "totals_ok ts \<Longrightarrow> distinct order \<Longrightarrow>
  total_of b (upsert_all clock events order ts) = total_of b ts + (if b \<in> set order then int (action_count events b) else 0)"
proof (induction order arbitrary: ts)
  case (Cons a order)
  have "totals_ok (upsert_total a (int (action_count events a)) (format_RFC3339Nano clock) ts)"
    using Cons.prems by (simp add: upsert_ok)
  then show ?case using Cons total_upsert [of ts b a] by (auto simp: totals_ok_def)
qed simp

lemma action_count_absent: "a \<notin> ev_Action ` set events \<Longrightarrow> action_count events a = 0"
  by (auto simp: action_count_def filter_empty_conv)

definition batch_tables :: "instant \<Rightarrow> string list \<Rightarrow> audit_event list \<Rightarrow> audit_tables \<Rightarrow> audit_tables" where
  "batch_tables clock order events tb =
     tb\<lparr>au_events := append_rows (map (event_row clock) events) (au_events tb),
        au_totals := (if events = [] then au_totals tb else upsert_all clock events order (au_totals tb))\<rparr>"

lemma sql_run_tables:
  "wrap_err w (sql_run (\<lambda>tb. Inr ((), f tb))) d = (Inr u, d') \<Longrightarrow> db_tables d' = f (db_tables d)"
  by (auto dest: sql_run_ok)

lemma insert_loop_tables:
  "for_each (insert_event_stmt clock) events d = (Inr us, d') \<Longrightarrow>
     db_tables d' = (db_tables d)\<lparr>au_events := append_rows (map (event_row clock) events) (au_events (db_tables d))\<rparr>"
proof (induction events arbitrary: d us)
  case (Cons e es)
  then obtain d1 vs where 1: "insert_event_stmt clock e d = (Inr (), d1)" and 2: "for_each (insert_event_stmt clock) es d1 = (Inr vs, d')"
    by (auto simp: then_do_eq_Inr)
  have "db_tables d1 = (db_tables d)\<lparr>au_events := snd (tbl_insert set_row_id (event_row clock e) (au_events (db_tables d)))\<rparr>"
    using 1 by (auto simp: insert_event_stmt_def split_def dest: sql_run_ok)
  then show ?case using Cons.IH [OF 2] by (simp add: append_rows_Cons)
qed simp

lemma update_loop_tables:
  "for_each (update_total_stmt clock events) order d = (Inr us, d') \<Longrightarrow>
     db_tables d' = (db_tables d)\<lparr>au_totals := upsert_all clock events order (au_totals (db_tables d))\<rparr>"
proof (induction order arbitrary: d us)
  case (Cons a as)
  then obtain d1 vs where 1: "update_total_stmt clock events a d = (Inr (), d1)" and 2: "for_each (update_total_stmt clock events) as d1 = (Inr vs, d')"
    by (auto simp: then_do_eq_Inr)
  show ?case using Cons.IH [OF 2] sql_run_tables [OF 1 [unfolded update_total_stmt_def]] by simp
qed simp

lemma insert_body_tables:
  assumes "insert_body clock order events d = (Inr u, d')"
  shows "db_tables d' = batch_tables clock order events (db_tables d)"
proof -
  obtain d1 d2 us where 1: "wrap_err (Wrapf ''prepare audit insert'') (sql_poll db_error) d = (Inr (), d1)"
    and 2: "for_each (insert_event_stmt clock) events d1 = (Inr us, d2)" and 3: "incrementActionTotals clock order events d2 = (Inr u, d')"
    using assms unfolding insert_body_def by (auto simp: then_do_eq_Inr)
  have d1: "db_tables d1 = db_tables d" using readsD [OF reads_wrap_err [OF reads_poll] 1] .
  show ?thesis
  proof (cases "events = []")
    case True
    then show ?thesis using insert_loop_tables [OF 2] 3 d1 by (simp add: incrementActionTotals_def batch_tables_def)
  next
    case False
    then obtain d3 vs where 4: "wrap_err (Wrapf ''prepare audit action total update'') (sql_poll db_error) d2 = (Inr (), d3)"
      and 5: "for_each (update_total_stmt clock events) order d3 = (Inr vs, d')"
      using 3 unfolding incrementActionTotals_def by (auto simp: then_do_eq_Inr)
    have "db_tables d3 = db_tables d2" using readsD [OF reads_wrap_err [OF reads_poll] 4] .
    then show ?thesis
      using insert_loop_tables [OF 2] update_loop_tables [OF 5] d1 False by (simp add: batch_tables_def)
  qed
qed

text \<open>A batch is stored as a whole or not at all.\<close>

lemma insertBatch_cases:
  assumes "insertBatch clock order events d = (r, d')"
  obtains (error) e where "r = Inl e" and "db_tables d' = db_tables d"
  | (stored) "r = Inr ()" and "db_tables d' = batch_tables clock order events (db_tables d)"
  using assms unfolding insertBatch_def
proof (cases rule: sql_tx_cases)
  case (commit x d1 d2)
  then show thesis using stored insert_body_tables [of clock order events d1 x d2] by simp
qed (use error in blast)

lemma batch_totals:
  assumes "totals_ok (au_totals tb)" and "map_order events order"
  shows "totals_ok (au_totals (batch_tables clock order events tb))"
    and "total_of a (au_totals (batch_tables clock order events tb)) = total_of a (au_totals tb) + int (action_count events a)"
  using assms action_count_absent [of a events]
  by (auto simp: batch_tables_def upsert_all_ok total_upsert_all map_order_def action_count_def)

end
