(* ===== verification/Go_Time_Order.thy ===== *)
theory Go_Time_Order
  imports Go_Time_Nano "HOL-Library.List_Lexorder" "HOL-Library.Char_ord"
begin

text \<open>
  The order of the texts of instants. The first nineteen characters order as the seconds they spell; the fraction
  of \<open>RFC3339Nano\<close> breaks the order within a second, and the nine digits of a boundary text restore it for whole seconds.
\<close>

section \<open>Texts of one length\<close>

lemma append_less:
  fixes a b :: "'a::linorder list"
  assumes "length a = length b"
  shows "a @ c < b @ d \<longleftrightarrow> a < b \<or> a = b \<and> c < d"
  using assms by (induction a b rule: list_induct2) (auto simp: less_imp_neq)

lemma digit_char_less:
  "is_digit c \<Longrightarrow> is_digit d \<Longrightarrow> c < d \<longleftrightarrow> int (of_char c) - 48 < int (of_char d) - 48"
  by (simp add: less_char_def)

lemma parse_digits_bounds:
  "parse_digits x s = Some a \<Longrightarrow> x * 10 ^ length s \<le> a \<and> a < (x + 1) * 10 ^ length s"
proof (induction s arbitrary: x)
  case (Cons c s)
  obtain v where d: "0 \<le> v" "v \<le> 9" and p: "parse_digits (x * 10 + v) s = Some a"
  proof
    show "0 \<le> int (of_char c) - 48" "int (of_char c) - 48 \<le> 9" "parse_digits (x * 10 + (int (of_char c) - 48)) s = Some a"
      using Cons.prems by (auto simp: is_digit_def algebra_simps split: if_splits)
  qed
  define P :: int where "P = 10 ^ length s"
  have P: "0 \<le> P" by (simp add: P_def)
  have "x * 10 * P \<le> (x * 10 + v) * P" using d P by (intro mult_right_mono) simp_all
  moreover have "(x * 10 + v + 1) * P \<le> ((x + 1) * 10) * P" using d P by (intro mult_right_mono) simp_all
  moreover have "(x * 10 + v) * P \<le> a" "a < (x * 10 + v + 1) * P" using Cons.IH [OF p] by (simp_all add: P_def)
  ultimately have "x * 10 * P \<le> a" "a < ((x + 1) * 10) * P" by linarith+
  then show ?case by (simp add: P_def algebra_simps)
qed simp

lemma parse_digits_less:
  "length s = length t \<Longrightarrow> parse_digits x s = Some a \<Longrightarrow> parse_digits x t = Some b \<Longrightarrow> s < t \<longleftrightarrow> a < b"
proof (induction s t arbitrary: x rule: list_induct2)
  case (Cons c s d t)
  let ?v = "\<lambda>c. int (of_char c) - 48"
  have p: "parse_digits (x * 10 + ?v c) s = Some a" "parse_digits (x * 10 + ?v d) t = Some b" and g: "is_digit c" "is_digit d"
    using Cons.prems by (auto simp: algebra_simps split: if_splits)
  have less: "a' < b'"
    if "?v c < ?v d" "parse_digits (x * 10 + ?v c) s = Some a'" "parse_digits (x * 10 + ?v d) t = Some b'" "length s = length t"
    for c d a' b' and s t :: string
  proof -
    have "(x * 10 + ?v c + 1) * 10 ^ length s \<le> (x * 10 + ?v d) * 10 ^ length t"
      unfolding \<open>length s = length t\<close> using \<open>?v c < ?v d\<close> by (intro mult_right_mono) simp_all
    moreover note parse_digits_bounds [OF \<open>parse_digits (x * 10 + ?v c) s = Some a'\<close>]
      parse_digits_bounds [OF \<open>parse_digits (x * 10 + ?v d) t = Some b'\<close>]
    ultimately show ?thesis by linarith
  qed
  consider "c = d" | "c < d" | "d < c" by fastforce
  then show ?case
  proof cases
    case 1
    then show ?thesis using Cons.IH p by simp
  next
    case 2
    then show ?thesis using less [OF _ p] Cons.hyps digit_char_less [OF g] by simp
  next
    case 3
    then show ?thesis using less [OF _ p(2,1)] Cons.hyps digit_char_less [OF g(2,1)] by fastforce
  qed
qed simp

lemma digits2_less:
  assumes "0 \<le> a" "a < 100" "0 \<le> b" "b < 100"
  shows "digits2 a < digits2 b \<longleftrightarrow> a < b" and "digits2 a = digits2 b \<longleftrightarrow> a = b"
proof -
  have p: "parse_digits 0 (digits2 n) = Some n" if "0 \<le> n" "n < 100" for n
    using that parseUint_digits2 [of n n n] by (auto simp: parseUint_def split: option.splits if_splits)
  show "digits2 a < digits2 b \<longleftrightarrow> a < b"
    using parse_digits_less [of "digits2 a" "digits2 b" 0 a b] p assms by (simp add: digits2_def)
  show "digits2 a = digits2 b \<longleftrightarrow> a = b" using p assms by (metis option.inject)
qed

lemma year_text_less:
  assumes "0 \<le> a" "a \<le> 9999" "0 \<le> b" "b \<le> 9999"
  shows "year_text a < year_text b \<longleftrightarrow> a < b" and "year_text a = year_text b \<longleftrightarrow> a = b"
proof -
  have p: "length (year_text n) = 4 \<and> parse_digits 0 (year_text n) = Some n" if "0 \<le> n" "n \<le> 9999" for n
    using year_text4 [OF that] by (auto simp: parseUint_def split: option.splits if_splits)
  show "year_text a < year_text b \<longleftrightarrow> a < b"
    using parse_digits_less [of "year_text a" "year_text b" 0 a b] p assms by simp
  show "year_text a = year_text b \<longleftrightarrow> a = b" using p assms by (metis option.inject)
qed

section \<open>Dates in order\<close>

lemma year_start_step: "year_start (y + 1) = year_start y + (if is_leap y then 366 else 365)"
proof -
  have step: "y div k = (y - 1) div k + (if y mod k = 0 then 1 else 0)" if k: "1 < k" for k :: int
  proof -
    define q r where "q = y div k" and "r = y mod k"
    have y: "y = k * q + r" "0 \<le> r" "r < k" using k by (simp_all add: q_def r_def)
    have "(y - 1) div k = (if r = 0 then q - 1 else q)"
    proof (cases "r = 0")
      case True
      then have "y - 1 = k * (q - 1) + (k - 1)" using y by (simp add: algebra_simps)
      then show ?thesis using div_rest [of "k - 1" k "q - 1"] k True by (metis diff_ge_0_iff_ge less_imp_le less_add_one diff_less_eq)
    next
      case False
      then have "y - 1 = k * q + (r - 1)" using y by simp
      moreover have "(k * q + (r - 1)) div k = q" using div_rest [of "r - 1" k q] y False by simp
      ultimately show ?thesis using False by (simp only: if_False)
    qed
    then show ?thesis by (simp add: q_def r_def)
  qed
  have s: "y div 4 = (y - 1) div 4 + (if y mod 4 = 0 then 1 else 0)" "y div 100 = (y - 1) div 100 + (if y mod 100 = 0 then 1 else 0)"
    "y div 400 = (y - 1) div 400 + (if y mod 400 = 0 then 1 else 0)" by (rule step, simp)+
  have imp: "y mod 100 = 0 \<Longrightarrow> y mod 4 = 0" "y mod 400 = 0 \<Longrightarrow> y mod 100 = 0" by presburger+
  have leap: "365 + (if P then 1 else 0) - (if Q then 1 else 0) + (if R then 1 else 0) = (if P \<and> (\<not> Q \<or> R) then 366 else 365 :: int)"
    if "Q \<Longrightarrow> P" "R \<Longrightarrow> Q" for P Q R
    by (cases P; cases Q; cases R) (use that in simp_all)
  have sum: "365 * y + (A + i) - (B + j) + (C + k) = 365 * (y - 1) + A - B + C + (365 + i - j + k)" for A B C i j k :: int
    by (simp only: algebra_simps)
  have "year_start (y + 1) = 365 * y + y div 4 - y div 100 + y div 400" by (simp add: year_start_def)
  also have "\<dots> = year_start y + (365 + (if y mod 4 = 0 then 1 else 0) - (if y mod 100 = 0 then 1 else 0) + (if y mod 400 = 0 then 1 else 0))"
    unfolding s year_start_def sum ..
  also have "365 + (if y mod 4 = 0 then 1 else 0) - (if y mod 100 = 0 then 1 else 0) + (if y mod 400 = 0 then 1 else 0) = (if is_leap y then 366 else 365 :: int)"
    unfolding is_leap_def by (rule leap) (erule imp(1), erule imp(2))
  finally show ?thesis .
qed

lemma year_start_mono: "y \<le> y' \<Longrightarrow> year_start y \<le> year_start y'"
proof (induction y' rule: int_ge_induct)
  case (step i)
  then show ?case using year_start_step [of i] by auto
qed simp

lemma year_of_days_less:
  assumes "n < n'" and "year_of_days n = (y, yd)" and "year_of_days n' = (y', yd')"
  shows "y < y' \<or> y = y' \<and> yd < yd'"
proof (rule ccontr)
  assume not: "\<not> ?thesis"
  note s = year_of_days_spec [OF assms(2)] year_of_days_spec [OF assms(3)]
  show False
  proof (cases "y = y'")
    case True
    then show False using not s assms(1) by simp
  next
    case False
    then have "y' + 1 \<le> y" using not by simp
    then have "year_start y' + (if is_leap y' then 366 else 365) \<le> year_start y" using year_start_mono year_start_step by metis
    then show False using s assms(1) by (auto split: if_splits)
  qed
qed

lemma sum_take_less:
  assumes "j < i" and "i \<le> length ls" and "\<forall>l \<in> set ls. (0::int) \<le> l"
  shows "sum_list (take j ls) + ls ! j \<le> sum_list (take i ls)"
proof -
  have "take i ls = take (Suc j) ls @ take (i - Suc j) (drop (Suc j) ls)"
    using assms(1) by (metis Suc_leI le_add_diff_inverse take_add)
  moreover have "0 \<le> sum_list (take (i - Suc j) (drop (Suc j) ls))"
    using assms(3) by (intro sum_list_nonneg) (auto dest!: in_set_takeD in_set_dropD)
  ultimately show ?thesis using assms by (simp add: take_Suc_conv_app_nth)
qed

lemma month_of_day_less:
  assumes "yd < yd'" and "0 \<le> yd" and "yd' < sum_list ls" and "\<forall>l \<in> set ls. 0 \<le> l"
    and "month_of_day 1 ls yd = (m, d)" and "month_of_day 1 ls yd' = (m', d')"
  shows "m < m' \<or> m = m' \<and> d < d'"
proof -
  obtain k where k: "k < length ls" "m = 1 + int k" "1 \<le> d" "d \<le> ls ! k" "sum_list (take k ls) + (d - 1) = yd"
    using month_of_day_spec [OF assms(5)] assms by auto
  obtain k' where k': "k' < length ls" "m' = 1 + int k'" "1 \<le> d'" "d' \<le> ls ! k'" "sum_list (take k' ls) + (d' - 1) = yd'"
    using month_of_day_spec [OF assms(6)] assms by auto
  have "\<not> k' < k"
  proof
    assume "k' < k"
    then have "sum_list (take k' ls) + ls ! k' \<le> sum_list (take k ls)" using k(1) assms(4) by (intro sum_take_less) simp_all
    then show False using k k' assms(1) by simp
  qed
  then show ?thesis using k k' assms(1) by (cases "k = k'") auto
qed

lemma date_less:
  assumes "n < n'" and "date_of_days n = (y, m, d)" and "date_of_days n' = (y', m', d')"
  shows "y < y' \<or> y = y' \<and> (m < m' \<or> m = m' \<and> d < d')"
proof -
  obtain yd where y: "year_of_days n = (y, yd)" and m: "month_of_day 1 (month_lengths (is_leap y)) yd = (m, d)"
    using assms(2) by (auto simp: date_of_days_def split: prod.splits)
  obtain yd' where y': "year_of_days n' = (y', yd')" and m': "month_of_day 1 (month_lengths (is_leap y')) yd' = (m', d')"
    using assms(3) by (auto simp: date_of_days_def split: prod.splits)
  have "sum_list (month_lengths (is_leap y)) = (if is_leap y then 366 else 365)" "\<forall>l \<in> set (month_lengths (is_leap y)). 0 \<le> l"
    by (simp_all add: month_lengths_def)
  then show ?thesis
    using year_of_days_less [OF assms(1) y y'] year_of_days_spec [OF y] year_of_days_spec [OF y']
      month_of_day_less [OF _ _ _ _ m] m' by fastforce
qed

section \<open>Texts of instants in order\<close>

definition in_range :: "instant \<Rightarrow> bool" where
  "in_range t \<longleftrightarrow> 0 \<le> year_of t \<and> year_of t \<le> 9999"

definition stamp :: "instant \<Rightarrow> string" where
  "stamp t = butlast (format_RFC3339 t)"

lemma digits60_less:
  fixes h mi sec :: int
  assumes "h * 3600 + mi * 60 + sec < h' * 3600 + mi' * 60 + sec'"
    and "0 \<le> mi" "mi < 60" "0 \<le> sec" "sec < 60" "0 \<le> mi'" "mi' < 60" "0 \<le> sec'" "sec' < 60"
  shows "h < h' \<or> h = h' \<and> (mi < mi' \<or> mi = mi' \<and> sec < sec')"
proof (rule ccontr)
  assume not: "\<not> ?thesis"
  consider "h' < h" | "h = h'" "mi' < mi" | "h = h'" "mi = mi'" "sec' \<le> sec" using not by fastforce
  then show False using assms by cases linarith+
qed

lemma clock_parts: "s div 3600 * 3600 + s div 60 mod 60 * 60 + s mod 60 = (s::int)"
proof -
  have "s div 3600 * 60 + s div 60 mod 60 = s div 60"
    using div_mult_mod_eq [of "s div 60" 60] zdiv_zmult2_eq [of 60 s 60] by simp
  then have "s div 3600 * 3600 + s div 60 mod 60 * 60 = s div 60 * 60" by linarith
  then show ?thesis using div_mult_mod_eq [of s 60] by linarith
qed

lemma clock_less:
  fixes s s' :: int
  assumes "s < s'"
  shows "s div 3600 < s' div 3600 \<or> s div 3600 = s' div 3600 \<and>
    (s div 60 mod 60 < s' div 60 mod 60 \<or> s div 60 mod 60 = s' div 60 mod 60 \<and> s mod 60 < s' mod 60)"
  by (rule digits60_less, unfold clock_parts) (use assms in simp_all)

text \<open>The date and the time of day spelled with fixed widths order as texts the way they order as numbers.\<close>

lemma date_text_less:
  assumes "0 \<le> y" "y \<le> 9999" "0 \<le> y'" "y' \<le> 9999"
    and "0 \<le> m" "m < 100" "0 \<le> m'" "m' < 100" "0 \<le> d" "d < 100" "0 \<le> d'" "d' < 100"
    and "0 \<le> h" "h < 100" "0 \<le> h'" "h' < 100" "0 \<le> i" "i < 100" "0 \<le> i'" "i' < 100" "0 \<le> s" "s < 100" "0 \<le> s'" "s' < 100"
    and "y < y' \<or> y = y' \<and> (m < m' \<or> m = m' \<and> (d < d' \<or> d = d' \<and> (h < h' \<or> h = h' \<and> (i < i' \<or> i = i' \<and> s < s'))))"
  shows "year_text y @ ''-'' @ digits2 m @ ''-'' @ digits2 d @ ''T'' @ digits2 h @ '':'' @ digits2 i @ '':'' @ digits2 s
    < year_text y' @ ''-'' @ digits2 m' @ ''-'' @ digits2 d' @ ''T'' @ digits2 h' @ '':'' @ digits2 i' @ '':'' @ digits2 s'"
proof -
  have l: "length (digits2 a) = length (digits2 b)" for a b by (simp add: digits2_def)
  have ly: "length (year_text y) = length (year_text y')" using year_text4 assms(1-4) by simp
  show ?thesis
    using assms by (auto simp: append_less [OF l] append_less [OF ly] year_text_less digits2_less)
qed

lemma stamp_length: "in_range t \<Longrightarrow> length (stamp t) = 19"
  using stamp_of_instant [of t] by (auto simp: in_range_def stamp_def)

lemma format_stamp: "in_range t \<Longrightarrow> format_RFC3339Nano t = stamp t @ fraction_text (t mod second_ns) @ ''Z''"
  by (simp add: format_RFC3339Nano_def stamp_def)

lemma stamp_second: "t div second_ns = u div second_ns \<Longrightarrow> stamp t = stamp u"
  by (simp add: stamp_def format_RFC3339_def Let_def)

lemma stamp_less:
  assumes "t div second_ns < u div second_ns" and "in_range t" and "in_range u"
  shows "stamp t < stamp u"
proof -
  define a where "a = t div second_ns"
  define b where "b = u div second_ns"
  obtain y m d where date: "date_of_days (a div 86400 + epoch_days) = (y, m, d)" using prod_cases3 by blast
  obtain y' m' d' where date': "date_of_days (b div 86400 + epoch_days) = (y', m', d')" using prod_cases3 by blast
  have y: "0 \<le> y" "y \<le> 9999" "0 \<le> y'" "y' \<le> 9999"
    using assms(2,3) date date' by (simp_all add: in_range_def year_of_def a_def b_def)
  have small: "1 \<le> m \<and> m \<le> 12 \<and> 1 \<le> d \<and> d \<le> 31"
    if "date_of_days n = (y, m, d)" for n y m d
    using date_of_days_spec(2-5) [OF that] by (auto simp: days_in_def month_lengths_def nth_Cons' split: if_splits)
  define s where "s = a mod 86400"
  define s' where "s' = b mod 86400"
  have s: "0 \<le> s" "s < 86400" "0 \<le> s'" "s' < 86400" by (simp_all add: s_def s'_def)
  have h: "0 \<le> x div 3600" "x div 3600 < 100" "0 \<le> x div 60 mod 60" "x div 60 mod 60 < 100" "0 \<le> x mod 60" "x mod 60 < 100"
    if "0 \<le> x" "x < 86400" for x :: int
    using that by (simp_all add: pos_imp_zdiv_nonneg_iff)
  have st: "stamp t = year_text y @ ''-'' @ digits2 m @ ''-'' @ digits2 d @ ''T'' @ digits2 (s div 3600) @ '':'' @ digits2 (s div 60 mod 60) @ '':'' @ digits2 (s mod 60)"
    "stamp u = year_text y' @ ''-'' @ digits2 m' @ ''-'' @ digits2 d' @ ''T'' @ digits2 (s' div 3600) @ '':'' @ digits2 (s' div 60 mod 60) @ '':'' @ digits2 (s' mod 60)"
    by (simp_all add: stamp_def format_RFC3339_def Let_def date date' a_def [symmetric] b_def [symmetric] s_def [symmetric] s'_def [symmetric] butlast_append)
  have order: "y < y' \<or> y = y' \<and> (m < m' \<or> m = m' \<and> (d < d' \<or> d = d' \<and>
      (s div 3600 < s' div 3600 \<or> s div 3600 = s' div 3600 \<and>
        (s div 60 mod 60 < s' div 60 mod 60 \<or> s div 60 mod 60 = s' div 60 mod 60 \<and> s mod 60 < s' mod 60))))"
  proof (cases "a div 86400 = b div 86400")
    case True
    then have "s < s'" using assms(1) by (simp add: s_def s'_def a_def b_def) (metis mult_div_mod_eq add_less_cancel_left)
    then show ?thesis using clock_less [of s s'] True date date' by simp
  next
    case False
    then have "a div 86400 + epoch_days < b div 86400 + epoch_days"
      using assms(1) zdiv_mono1 [of a b 86400] by (simp add: a_def b_def)
    then show ?thesis using date_less [OF _ date date'] by blast
  qed
  show ?thesis
    unfolding st using small [OF date] small [OF date']
    by (intro date_text_less order y h s) simp_all
qed

text \<open>
  The texts of two instants order as the instants do as soon as they are of different seconds; within a second
  only the seconds are known to be ordered.
\<close>

lemma text_less_of_second:
  assumes "t div second_ns < u div second_ns" and "in_range t" and "in_range u"
  shows "format_RFC3339Nano t < format_RFC3339Nano u"
  unfolding format_stamp [OF assms(2)] format_stamp [OF assms(3)]
  using append_less [of "stamp t" "stamp u"] stamp_length assms stamp_less [OF assms] by simp

lemma second_of_text_less:
  assumes "format_RFC3339Nano t < format_RFC3339Nano u" and "in_range t" and "in_range u"
  shows "t div second_ns \<le> u div second_ns"
  using assms text_less_of_second [of u t] by (metis less_asym not_le)

section \<open>Boundaries of whole seconds\<close>

definition format_boundary :: "instant \<Rightarrow> string" where
  "format_boundary t = stamp t @ ''.'' @ nine_digits (nat (t mod second_ns)) @ ''Z''"

lemma zeros_least:
  "\<forall>c \<in> set s. is_digit c \<Longrightarrow> length s \<le> n \<Longrightarrow> \<not> s @ ''Z'' < replicate n (CHR ''0'') @ ''Z''"
proof (induction n arbitrary: s)
  case (Suc n)
  show ?case
  proof (cases s)
    case Nil then show ?thesis by (simp add: less_char_def)
  next
    case (Cons c s')
    have "\<not> c < CHR ''0''" using Suc.prems Cons by (auto simp: less_char_def is_digit_def)
    then show ?thesis using Suc Cons by simp
  qed
qed simp

lemma fraction_not_below: "0 \<le> ns \<Longrightarrow> ns < second_ns \<Longrightarrow>
  \<not> fraction_text ns @ ''Z'' < CHR ''.'' # replicate 9 (CHR ''0'') @ ''Z''"
proof (cases "ns = 0")
  case True
  then show ?thesis by (simp add: fraction_text_def less_char_def)
next
  case False
  assume "0 \<le> ns" "ns < second_ns"
  then have n: "nat ns < 1000000000" by (simp add: second_ns_def)
  obtain k where k: "nine_digits (nat ns) = trim_zeros (nine_digits (nat ns)) @ replicate k (CHR ''0'')" using trim_zeros_split by blast
  have "set (trim_zeros (nine_digits (nat ns))) \<subseteq> set (nine_digits (nat ns))" by (subst (2) k) simp
  then have "\<forall>c \<in> set (trim_zeros (nine_digits (nat ns))). is_digit c"
    using nine_digits_props(3) [OF n] by (auto simp: list_all_iff)
  moreover have "length (trim_zeros (nine_digits (nat ns))) \<le> 9"
    using nine_digits_props(1) [OF n] arg_cong [OF k, of length] by simp
  ultimately show ?thesis using False zeros_least [of "trim_zeros (nine_digits (nat ns))" 9] by (simp add: fraction_text_def)
qed

lemma nine_digits_zero: "nine_digits 0 = replicate 9 (CHR ''0'')"
  by code_simp

text \<open>Against the boundary of a whole second the comparison of the texts is the comparison of the instants.\<close>

lemma boundary_exact:
  assumes "u mod second_ns = 0" and "in_range t" and "in_range u"
  shows "format_RFC3339Nano t < format_boundary u \<longleftrightarrow> t < u"
proof -
  have b: "format_boundary u = stamp u @ CHR ''.'' # replicate 9 (CHR ''0'') @ ''Z''"
    unfolding format_boundary_def assms(1) nat_0 nine_digits_zero by (simp only: append.simps)
  have l: "length (stamp t) = length (stamp u)" using stamp_length assms by simp
  have u: "u = u div second_ns * second_ns" using div_mult_mod_eq [of u second_ns] assms(1) by linarith
  have t: "t = t div second_ns * second_ns + t mod second_ns" "0 \<le> t mod second_ns" "t mod second_ns < second_ns"
    using div_mult_mod_eq [of t second_ns] by (simp_all add: second_ns_def)
  have s: "0 < second_ns" by (simp add: second_ns_def)
  consider "t div second_ns < u div second_ns" | "t div second_ns = u div second_ns" | "u div second_ns < t div second_ns" by linarith
  then show ?thesis
  proof cases
    case 1
    then have "t < u" by (metis not_le zdiv_mono1 [OF _ s])
    then show ?thesis unfolding b format_stamp [OF assms(2)] append_less [OF l] using stamp_less [OF 1 assms(2,3)] by simp
  next
    case 2
    have "u = t div second_ns * second_ns" unfolding 2 by (rule u)
    then have "\<not> t < u" using t(1,2) by linarith
    then show ?thesis unfolding b format_stamp [OF assms(2)] append_less [OF l]
      using stamp_second [OF 2] fraction_not_below [OF t(2,3)] by simp
  next
    case 3
    then have "\<not> t < u" by (metis not_le zdiv_mono1 [OF less_imp_le s])
    moreover have "stamp u < stamp t" using stamp_less [OF 3 assms(3,2)] .
    ultimately show ?thesis unfolding b format_stamp [OF assms(2)] append_less [OF l] by auto
  qed
qed

end
