(* ===== verification/Audit_Cleanup.thy ===== *)
theory Audit_Cleanup
  imports Audit_Log Go_Time_Order "HOL-Library.Product_Lexorder"
begin

text \<open>
  The removal of expired events: a loop of statements that delete at most \<open>cleanupBatchSize\<close> rows each. The results
  are those of the code, the number of rows deleted together with an error. The times are compared as texts; the
  last section says what this means for the instants.
\<close>

section \<open>The loop\<close>

definition expired_ids :: "string \<Rightarrow> audit_row sql_table \<Rightarrow> int list" where
  "expired_ids cutoff t =
     map ar_id (take cleanupBatchSize
       (tbl_select (\<lambda>r. ar_timestamp r < cutoff) (\<lambda>r. (ar_timestamp r, ar_id r)) t))"

definition delete_expired :: "string \<Rightarrow> audit_tables \<Rightarrow> (nat \<times> audit_tables) result" where
  "delete_expired cutoff tb =
     (let ids = expired_ids cutoff (au_events tb) in
      case tbl_delete (\<lambda>r. ar_id r \<in> set ids) (au_events tb) of (n, t) \<Rightarrow> Inr (n, tb\<lparr>au_events := t\<rparr>))"

type_synonym cleanup_result = "(int \<times> go_error option) \<times> audit_db"

definition event_rows :: "audit_db \<Rightarrow> audit_row list" where
  "event_rows d = t_rows (au_events (db_tables d))"

definition cleanup_stmt :: "string \<Rightarrow> (audit_db, nat) step" where
  "cleanup_stmt cutoff =
     then_do (wrap_err (Wrapf ''cleanup audit events'') (sql_run (delete_expired cutoff))) (\<lambda>n.
     then_do (wrap_err (Wrapf ''count cleaned audit events'') (sql_poll db_error)) (\<lambda>_. ret n))"

lemma cleanup_stmt_ok:
  assumes "cleanup_stmt cutoff d = (Inr n, d')"
  shows "delete_expired cutoff (db_tables d) = Inr (n, db_tables d')"
proof -
  obtain d1 where 1: "sql_run (delete_expired cutoff) d = (Inr n, d1)"
    and 2: "wrap_err (Wrapf ''count cleaned audit events'') (sql_poll db_error) d1 = (Inr (), d')"
    using assms by (auto simp: cleanup_stmt_def then_do_eq_Inr)
  show ?thesis using sql_run_ok [OF 1] readsD [OF reads_wrap_err [OF reads_poll] 2] by simp
qed

lemma cleanup_stmt_rows:
  assumes "cleanup_stmt cutoff d = (Inr n, d')"
  shows "event_rows d' = filter (\<lambda>r. ar_id r \<notin> set (expired_ids cutoff (au_events (db_tables d)))) (event_rows d)"
    and "n + length (event_rows d') = length (event_rows d)"
    and "db_tables d' = (db_tables d)\<lparr>au_events := au_events (db_tables d')\<rparr>"
proof -
  let ?p = "\<lambda>r. ar_id r \<in> set (expired_ids cutoff (au_events (db_tables d)))"
  have d': "db_tables d' = (db_tables d)\<lparr>au_events := (au_events (db_tables d))\<lparr>t_rows := filter (\<lambda>r. \<not> ?p r) (event_rows d)\<rparr>\<rparr>"
    and n: "n = length (filter ?p (event_rows d))"
    using cleanup_stmt_ok [OF assms] by (simp_all add: delete_expired_def tbl_delete_def event_rows_def Let_def)
  show rows: "event_rows d' = filter (\<lambda>r. \<not> ?p r) (event_rows d)"
    unfolding event_rows_def [of d'] d' by simp
  show "n + length (event_rows d') = length (event_rows d)"
    unfolding rows n by (rule sum_length_filter_compl)
  show "db_tables d' = (db_tables d)\<lparr>au_events := au_events (db_tables d')\<rparr>"
    unfolding d' by simp
qed

function cleanup_loop :: "string \<Rightarrow> int \<Rightarrow> int \<Rightarrow> audit_db \<Rightarrow> cleanup_result" where
  "cleanup_loop cutoff maxRows deleted d =
     (case cleanup_stmt cutoff d of
        (Inl err, d) \<Rightarrow> ((deleted, Some err), d)
      | (Inr rows, d) \<Rightarrow>
          if maxRows > 0 then ((deleted + int rows, None), d)
          else if rows < cleanupBatchSize then ((deleted + int rows, None), d)
          else (case sql_poll context_Canceled d of
              (Inl err, d) \<Rightarrow> ((deleted + int rows, Some err), d)
            | (Inr _, d) \<Rightarrow> cleanup_loop cutoff maxRows (deleted + int rows) d))"
  by pat_completeness auto

text \<open>Every round that goes on has deleted a full batch of rows.\<close>

lemma cleanup_round_deletes:
  assumes "cleanup_stmt cutoff d = (Inr rows, d1)" and "\<not> rows < cleanupBatchSize" and "sql_poll e d1 = (Inr u, d2)"
  shows "length (event_rows d2) < length (event_rows d)"
proof -
  have "event_rows d2 = event_rows d1" using readsD [OF reads_poll assms(3)] by (simp add: event_rows_def)
  then show ?thesis using cleanup_stmt_rows(2) [OF assms(1)] assms(2) by (simp add: cleanupBatchSize_def)
qed

termination cleanup_loop
proof (relation "measure (\<lambda>(cutoff, maxRows, deleted, d). length (event_rows d))", goal_cases)
  case 1
  show ?case by simp
next
  case 2
  then show ?case by (auto intro: cleanup_round_deletes [OF sym _ sym])
qed

declare cleanup_loop.simps [simp del]


text \<open>\<open>now\<close> may be zero; \<open>clock\<close> is the reading that then replaces it.\<close>

definition cleanupOlderThan :: "bool \<Rightarrow> instant \<Rightarrow> duration \<Rightarrow> time \<Rightarrow> int \<Rightarrow> audit_db \<Rightarrow> cleanup_result" where
  "cleanupOlderThan has_db clock maxAge now maxRows d =
     (if \<not> has_db then ((0, Some (ErrorString ''audit cleanup requires a database'')), d)
      else if maxAge \<le> 0 then ((0, None), d)
      else cleanup_loop (format_RFC3339Nano (stamped clock now - maxAge)) maxRows 0 d)"

definition CleanupOlderThan :: "bool \<Rightarrow> instant \<Rightarrow> duration \<Rightarrow> time \<Rightarrow> audit_db \<Rightarrow> cleanup_result" where
  "CleanupOlderThan has_db clock maxAge now d = cleanupOlderThan has_db clock maxAge now 0 d"

definition CleanupExpired :: "bool \<Rightarrow> instant \<Rightarrow> time \<Rightarrow> audit_db \<Rightarrow> cleanup_result" where
  "CleanupExpired has_db clock now d =
     (case SettingsFromDB has_db d of
        (Inl err, d) \<Rightarrow> ((0, Some err), d)
      | (Inr s, d) \<Rightarrow> CleanupOlderThan has_db clock (st_RetentionDuration s) now d)"

definition CleanupExpiredBatch :: "bool \<Rightarrow> instant \<Rightarrow> time \<Rightarrow> audit_db \<Rightarrow> cleanup_result" where
  "CleanupExpiredBatch has_db clock now d =
     (case SettingsFromDB has_db d of
        (Inl err, d) \<Rightarrow> ((0, Some err), d)
      | (Inr s, d) \<Rightarrow> cleanupOlderThan has_db clock (st_RetentionDuration s) now (int cleanupBatchSize) d)"

section \<open>What the loop deletes\<close>

text \<open>Between two states only expired events were deleted, and nothing else changed.\<close>

definition cleaned :: "string \<Rightarrow> audit_db \<Rightarrow> audit_db \<Rightarrow> bool" where
  "cleaned cutoff d d' \<longleftrightarrow>
     (\<exists>keep. event_rows d' = filter keep (event_rows d) \<and> (\<forall>r \<in> set (event_rows d). \<not> keep r \<longrightarrow> ar_timestamp r < cutoff)) \<and>
     au_totals (db_tables d') = au_totals (db_tables d) \<and> au_settings (db_tables d') = au_settings (db_tables d) \<and>
     t_seq (au_events (db_tables d')) = t_seq (au_events (db_tables d))"

lemma cleaned_refl: "db_tables d' = db_tables d \<Longrightarrow> cleaned cutoff d d'"
  unfolding cleaned_def event_rows_def by (auto intro!: exI [of _ "\<lambda>r. True"])

lemma cleaned_trans: "cleaned cutoff d d1 \<Longrightarrow> cleaned cutoff d1 d2 \<Longrightarrow> cleaned cutoff d d2"
proof -
  assume "cleaned cutoff d d1" "cleaned cutoff d1 d2"
  then obtain k1 k2 where "event_rows d1 = filter k1 (event_rows d)" "\<forall>r \<in> set (event_rows d). \<not> k1 r \<longrightarrow> ar_timestamp r < cutoff"
    "event_rows d2 = filter k2 (event_rows d1)" "\<forall>r \<in> set (event_rows d1). \<not> k2 r \<longrightarrow> ar_timestamp r < cutoff"
    and "au_totals (db_tables d2) = au_totals (db_tables d)" "au_settings (db_tables d2) = au_settings (db_tables d)"
    "t_seq (au_events (db_tables d2)) = t_seq (au_events (db_tables d))"
    unfolding cleaned_def by auto
  then show ?thesis
    unfolding cleaned_def by (intro conjI exI [of _ "\<lambda>r. k1 r \<and> k2 r"]) (auto simp: conj_commute)
qed

lemma cleanup_stmt_cleaned:
  assumes "cleanup_stmt cutoff d = (r, d')" and "table_ok ar_id (au_events (db_tables d))"
  shows "cleaned cutoff d d'"
proof -
  have d: "distinct (map ar_id (event_rows d))" using assms(2) by (simp add: event_rows_def table_ok_def strict_sorted_iff)
  have young: "ar_timestamp r < cutoff"
    if m: "r \<in> set (event_rows d)" and e: "ar_id r \<in> set (expired_ids cutoff (au_events (db_tables d)))" for r
  proof -
    obtain x where "x \<in> set (event_rows d)" "ar_timestamp x < cutoff" "ar_id x = ar_id r"
      using e by (auto simp: expired_ids_def tbl_select_def event_rows_def dest!: in_set_takeD)
    then show ?thesis using d m by (metis distinct_map inj_onD)
  qed
  obtain r1 d1 where 1: "sql_run (delete_expired cutoff) d = (r1, d1)" by fastforce
  have "db_tables d' = db_tables d1"
  proof (cases r1)
    case (Inl e) then show ?thesis using assms(1) 1 by (auto simp: cleanup_stmt_def then_do_def wrap_err_def)
  next
    case (Inr n)
    have "wrap_err (Wrapf ''cleanup audit events'') (sql_run (delete_expired cutoff)) d = (Inr n, d1)" using 1 Inr by simp
    then have "then_do (wrap_err (Wrapf ''count cleaned audit events'') (sql_poll db_error)) (\<lambda>_. ret n) d1 = (r, d')"
      using assms(1) by (simp add: cleanup_stmt_def then_do_Inr)
    moreover have "reads (then_do (wrap_err (Wrapf ''count cleaned audit events'') (sql_poll db_error)) (\<lambda>_. ret n) :: (audit_db, nat) step)"
      by (intro reads_rules)
    ultimately show ?thesis using readsD by blast
  qed
  moreover have "cleaned cutoff d d1"
  proof (cases r1)
    case (Inl e)
    then show ?thesis using 1 by (auto intro!: cleaned_refl simp: sql_run_def then_do_def sql_poll_def delete_expired_def Let_def tbl_delete_def
      split: prod.splits if_splits)
  next
    case (Inr n)
    then show ?thesis using sql_run_ok [OF 1 [unfolded Inr]] young unfolding cleaned_def
      by (auto simp: delete_expired_def tbl_delete_def event_rows_def Let_def
        intro!: exI [of _ "\<lambda>r. ar_id r \<notin> set (expired_ids cutoff (au_events (db_tables d)))"] dest!: sym [of _ "db_tables d1"])
  qed
  ultimately show ?thesis by (simp add: cleaned_def event_rows_def)
qed

lemma cleaned_ok: "cleaned cutoff d d' \<Longrightarrow> table_ok ar_id (au_events (db_tables d)) \<Longrightarrow> table_ok ar_id (au_events (db_tables d'))"
  unfolding cleaned_def table_ok_def event_rows_def
  by (auto simp: audit_table.sorted_wrt_filter_map)


text \<open>A round that deletes less than a full batch has deleted every expired event.\<close>

lemma last_round:
  assumes "cleanup_stmt cutoff d = (Inr n, d')" and ok: "table_ok ar_id (au_events (db_tables d))" and "n < cleanupBatchSize"
    and r: "r \<in> set (event_rows d')"
  shows "\<not> ar_timestamp r < cutoff"
proof
  assume young: "ar_timestamp r < cutoff"
  let ?sel = "tbl_select (\<lambda>r. ar_timestamp r < cutoff) (\<lambda>r. (ar_timestamp r, ar_id r)) (au_events (db_tables d))"
  let ?ids = "set (expired_ids cutoff (au_events (db_tables d)))"
  have rows: "event_rows d' = filter (\<lambda>r. ar_id r \<notin> ?ids) (event_rows d)" and n: "n + length (event_rows d') = length (event_rows d)"
    using cleanup_stmt_rows [OF assms(1)] by auto
  have d: "distinct (map ar_id (event_rows d))" using ok by (simp add: event_rows_def table_ok_def strict_sorted_iff)
  have sel: "set ?sel \<subseteq> set (event_rows d)" "distinct (map ar_id ?sel)"
    using d by (auto simp: tbl_select_def event_rows_def distinct_map inj_on_def)
  have "r \<in> set ?sel" "ar_id r \<notin> ?ids" using r young unfolding rows by (auto simp: tbl_select_def event_rows_def)
  then have "r \<notin> set (take cleanupBatchSize ?sel)" by (force simp: expired_ids_def)
  then have full: "cleanupBatchSize \<le> length ?sel" using \<open>r \<in> set ?sel\<close> by (metis le_cases take_all)
  have "length (take cleanupBatchSize ?sel) = card ?ids"
    using distinct_card [OF distinct_take [OF sel(2)], of cleanupBatchSize] by (simp add: expired_ids_def take_map)
  also have "\<dots> \<le> card (ar_id ` set (filter (\<lambda>r. ar_id r \<in> ?ids) (event_rows d)))"
    using sel(1) by (intro card_mono) (force simp: expired_ids_def dest: in_set_takeD)+
  also have "\<dots> \<le> length (filter (\<lambda>r. ar_id r \<in> ?ids) (event_rows d))"
    by (metis card_length length_map set_map)
  also have "\<dots> = n" using n sum_length_filter_compl [of "\<lambda>r. ar_id r \<in> ?ids" "event_rows d"] by (simp add: rows)
  finally show False using full assms(3) by simp
qed

lemma cleanup_loop_spec:
  assumes "cleanup_loop cutoff maxRows deleted d = ((n, err), d')" and "table_ok ar_id (au_events (db_tables d))"
  shows "cleaned cutoff d d'"
    and "err = None \<Longrightarrow> n = deleted + int (length (event_rows d)) - int (length (event_rows d'))"
    and "err = None \<Longrightarrow> maxRows \<le> 0 \<Longrightarrow> r \<in> set (event_rows d') \<Longrightarrow> \<not> ar_timestamp r < cutoff"
proof -
  have "cleaned cutoff d d' \<and> (err = None \<longrightarrow> n = deleted + int (length (event_rows d)) - int (length (event_rows d'))) \<and>
    (err = None \<and> maxRows \<le> 0 \<longrightarrow> (\<forall>r \<in> set (event_rows d'). \<not> ar_timestamp r < cutoff))"
    using assms
  proof (induction cutoff maxRows deleted d rule: cleanup_loop.induct)
    case (1 cutoff maxRows deleted d)
    obtain r1 d1 where s: "cleanup_stmt cutoff d = (r1, d1)" by fastforce
    have c: "cleaned cutoff d d1" by (rule cleanup_stmt_cleaned [OF s "1.prems"(2)])
    show ?case
    proof (cases r1)
      case (Inl e)
      then show ?thesis using "1.prems"(1) c by (auto simp: cleanup_loop.simps [of cutoff maxRows deleted d] s)
    next
      case (Inr rows)
      note s = s [unfolded Inr]
      have n: "rows + length (event_rows d1) = length (event_rows d)" by (rule cleanup_stmt_rows(2) [OF s])
      consider (stop) "0 < maxRows" | (final) "\<not> 0 < maxRows" "rows < cleanupBatchSize" | (again) "\<not> 0 < maxRows" "\<not> rows < cleanupBatchSize" by blast
      then show ?thesis
      proof cases
        case stop
        then show ?thesis using "1.prems"(1) c n by (auto simp: cleanup_loop.simps [of cutoff maxRows deleted d] s)
      next
        case final
        then show ?thesis using "1.prems"(1) c n last_round [OF s "1.prems"(2)] by (auto simp: cleanup_loop.simps [of cutoff maxRows deleted d] s)
      next
        case again
        obtain r2 d2 where p: "sql_poll context_Canceled d1 = (r2, d2)" by fastforce
        have t: "db_tables d2 = db_tables d1" by (rule readsD [OF reads_poll p])
        then have e: "event_rows d2 = event_rows d1" by (simp add: event_rows_def)
        have c2: "cleaned cutoff d d2" using c t by (simp add: cleaned_def e)
        show ?thesis
        proof (cases r2)
          case (Inl x)
          then show ?thesis using "1.prems"(1) c2 again by (auto simp: cleanup_loop.simps [of cutoff maxRows deleted d] s p)
        next
          case (Inr u)
          then have l: "cleanup_loop cutoff maxRows (deleted + int rows) d2 = ((n, err), d')"
            using "1.prems"(1) again by (simp add: cleanup_loop.simps [of cutoff maxRows deleted d] s p)
          have "table_ok ar_id (au_events (db_tables d2))" by (rule cleaned_ok [OF c2 "1.prems"(2)])
          then have "cleaned cutoff d2 d' \<and> (err = None \<longrightarrow> n = deleted + int rows + int (length (event_rows d2)) - int (length (event_rows d'))) \<and>
            (err = None \<and> maxRows \<le> 0 \<longrightarrow> (\<forall>r \<in> set (event_rows d'). \<not> ar_timestamp r < cutoff))"
            using "1.IH" [OF s [symmetric] refl again p [symmetric] Inr l] by simp
          then show ?thesis using cleaned_trans [OF c2] n e by auto
        qed
      qed
    qed
  qed
  then show "cleaned cutoff d d'"
    and "err = None \<Longrightarrow> n = deleted + int (length (event_rows d)) - int (length (event_rows d'))"
    and "err = None \<Longrightarrow> maxRows \<le> 0 \<Longrightarrow> r \<in> set (event_rows d') \<Longrightarrow> \<not> ar_timestamp r < cutoff" by blast+
qed

section \<open>Properties\<close>

lemma cleanup_loop_no_fault:
  assumes "db_faults d = []"
  shows "\<exists>n d'. cleanup_loop cutoff 0 deleted d = ((n, None), d') \<and> db_faults d' = []"
  using assms
proof (induction cutoff "0 :: int" deleted d rule: cleanup_loop.induct)
  case (1 cutoff deleted d)
  obtain n d1 where s: "cleanup_stmt cutoff d = (Inr n, d1)" and f: "db_faults d1 = []"
    using 1(2) by (auto simp: cleanup_stmt_def then_do_def sql_run_no_fault wrap_err_def delete_expired_def Let_def tbl_delete_def)
  show ?case
  proof (cases "n < cleanupBatchSize")
    case True
    then show ?thesis using f by (simp add: cleanup_loop.simps [of cutoff 0 deleted d] s)
  next
    case False
    have "\<exists>n' d'. cleanup_loop cutoff 0 (deleted + int n) d1 = ((n', None), d') \<and> db_faults d' = []"
      by (rule "1.hyps" [OF s [symmetric] refl _ False]) (use f in simp_all)
    then show ?thesis using False f by (simp add: cleanup_loop.simps [of cutoff 0 deleted d] s)
  qed
qed

text \<open>
  C27: The removal of expired events ends: when no call of the driver fails it returns without an error, whatever the
  number of expired events, and then exactly the events whose time text is not below the text of the cutoff are left, in
  their order, and the number reported is the number of events deleted.
\<close>

theorem cleanup_removes_expired:
  assumes "table_ok ar_id (au_events (db_tables d))" and "db_faults d = []" and "0 < maxAge"
  shows "\<exists>n d'. CleanupOlderThan True clock maxAge now d = ((n, None), d') \<and>
    event_rows d' = filter (\<lambda>r. \<not> ar_timestamp r < format_RFC3339Nano (stamped clock now - maxAge)) (event_rows d) \<and>
    n = int (length (event_rows d)) - int (length (event_rows d'))"
proof -
  let ?cutoff = "format_RFC3339Nano (stamped clock now - maxAge)"
  obtain n d' where l: "cleanup_loop ?cutoff 0 0 d = ((n, None), d')" using cleanup_loop_no_fault [OF assms(2)] by blast
  note spec = cleanup_loop_spec [OF l assms(1)]
  obtain keep where "event_rows d' = filter keep (event_rows d)" "\<forall>r \<in> set (event_rows d). \<not> keep r \<longrightarrow> ar_timestamp r < ?cutoff"
    using spec(1) by (auto simp: cleaned_def)
  moreover from this have "\<forall>r \<in> set (event_rows d). keep r \<longrightarrow> \<not> ar_timestamp r < ?cutoff" using spec(3) by auto
  ultimately have "event_rows d' = filter (\<lambda>r. \<not> ar_timestamp r < ?cutoff) (event_rows d)" by (metis (mono_tags, lifting) filter_cong)
  then show ?thesis using l spec(2) assms(3) by (simp add: CleanupOlderThan_def cleanupOlderThan_def)
qed

definition sample_row :: "int \<Rightarrow> instant \<Rightarrow> audit_row" where
  "sample_row i t = set_row_id i (event_row t
     \<lparr>ev_Timestamp = None, ev_ClientIP = Addr4 10 0 0 1, ev_QueryName = ''a.test.'', ev_QueryType = 1, ev_Action = ''allow'',
      ev_Reason = [], ev_RuleID = 0, ev_BlocklistID = 0, ev_Response = ''NOERROR'', ev_Duration = 5, ev_Upstream = [],
      ev_CacheStatus = [], ev_ForwardDuration = 0, ev_RetryCount = -1, ev_ForwardError = []\<rparr>)"

definition sample_db :: "instant list \<Rightarrow> audit_db" where
  "sample_db ts = \<lparr>db_tables = \<lparr>au_events = \<lparr>t_rows = map (\<lambda>(i, t). sample_row (int i) t) (enumerate 1 ts), t_seq = int (length ts)\<rparr>,
     au_totals = [], au_settings = None\<rparr>, db_faults = []\<rparr>"

lemma sample_db_ok: "table_ok ar_id (au_events (db_tables (sample_db [s, t])))" "db_faults (sample_db ts) = []"
  by (simp_all add: sample_db_def table_ok_def sample_row_def set_row_id_def)

theorem cleanup_removes_expired_witness:
  "\<exists>n d'. CleanupOlderThan True 0 second_ns (Some (3 * second_ns)) (sample_db [second_ns, 5 * second_ns]) = ((n, None), d') \<and>
    event_rows d' = filter (\<lambda>r. \<not> ar_timestamp r < format_RFC3339Nano (stamped 0 (Some (3 * second_ns)) - second_ns))
      (event_rows (sample_db [second_ns, 5 * second_ns])) \<and>
    n = int (length (event_rows (sample_db [second_ns, 5 * second_ns]))) - int (length (event_rows d'))"
  by (rule cleanup_removes_expired) (simp_all add: sample_db_ok second_ns_def)

text \<open>The instants of the rows: what the texts mean.\<close>

definition row_at :: "audit_row \<Rightarrow> instant \<Rightarrow> bool" where
  "row_at r t \<longleftrightarrow> in_range t \<and> ar_timestamp r = format_RFC3339Nano t"

text \<open>
  The retention is kept to the second: after a successful removal every event of a second before the second of the
  cutoff is gone, and every event of a later second is still there.
\<close>

theorem cleanup_keeps_retention:
  assumes ok: "table_ok ar_id (au_events (db_tables d))" and run: "CleanupOlderThan True clock maxAge now d = ((n, None), d')"
    and "0 < maxAge" and c: "c = stamped clock now - maxAge" "in_range c" and r: "r \<in> set (event_rows d)" "row_at r t"
  shows "(t div second_ns < c div second_ns \<longrightarrow> r \<notin> set (event_rows d')) \<and>
    (c div second_ns < t div second_ns \<longrightarrow> r \<in> set (event_rows d'))"
proof -
  have l: "cleanup_loop (format_RFC3339Nano c) 0 0 d = ((n, None), d')"
    using run assms(3) c by (simp add: CleanupOlderThan_def cleanupOlderThan_def)
  note spec = cleanup_loop_spec [OF l ok]
  have "r \<notin> set (event_rows d')" if "t div second_ns < c div second_ns"
    using spec(3) [OF refl order_refl, of r] text_less_of_second [OF that] r(2) c(2) by (auto simp: row_at_def)
  moreover have "r \<in> set (event_rows d')" if "c div second_ns < t div second_ns"
    using spec(1) second_of_text_less [of t c] r c(2) that by (fastforce simp: cleaned_def row_at_def)
  ultimately show ?thesis by blast
qed

lemma sample_cleanup:
  "\<exists>n d'. CleanupOlderThan True 0 second_ns (Some (3 * second_ns)) (sample_db [s, t]) = ((n, None), d')"
  using cleanup_loop_no_fault [OF sample_db_ok(2)]
  by (fastforce simp: CleanupOlderThan_def cleanupOlderThan_def second_ns_def)

text \<open>
  Within the second of the cutoff the comparison of the texts goes wrong: when the cutoff is a whole second, an event of
  that second with a fraction is younger than the cutoff and is deleted nevertheless.
\<close>

theorem cleanup_deletes_younger_event:
  assumes "table_ok ar_id (au_events (db_tables d))" and "CleanupOlderThan True clock maxAge now d = ((n, None), d')"
    and "0 < maxAge" and "c = stamped clock now - maxAge" and "in_range c" and "c mod second_ns = 0"
    and "row_at r t" and "c < t" and "t div second_ns = c div second_ns"
  shows "r \<notin> set (event_rows d')"
proof -
  have l: "cleanup_loop (format_RFC3339Nano c) 0 0 d = ((n, None), d')"
    using assms(2-4) by (simp add: CleanupOlderThan_def cleanupOlderThan_def)
  have "t mod second_ns \<noteq> 0" using assms(6,8,9) by (metis div_mult_mod_eq order.irrefl)
  then have "format_RFC3339Nano t < format_RFC3339Nano c"
    using assms(5-7) stamp_second [OF assms(9)] stamp_length append_less [of "stamp t" "stamp c"]
    by (simp add: row_at_def format_stamp fraction_text_def less_char_def)
  then show ?thesis using cleanup_loop_spec(3) [OF l assms(1) refl order_refl, of r] assms(7) by (auto simp: row_at_def)
qed

theorem cleanup_keeps_retention_witness:
  "\<exists>n d'. CleanupOlderThan True 0 second_ns (Some (3 * second_ns)) (sample_db [second_ns, 5 * second_ns]) = ((n, None), d') \<and>
    sample_row 1 second_ns \<notin> set (event_rows d') \<and> sample_row 2 (5 * second_ns) \<in> set (event_rows d')"
proof -
  let ?d = "sample_db [second_ns, 5 * second_ns]"
  obtain n d' where run: "CleanupOlderThan True 0 second_ns (Some (3 * second_ns)) ?d = ((n, None), d')"
    using sample_cleanup by blast
  have rows: "sample_row 1 second_ns \<in> set (event_rows ?d)" "sample_row 2 (5 * second_ns) \<in> set (event_rows ?d)"
    by (simp_all add: sample_db_def event_rows_def)
  have at: "row_at (sample_row i t) t" if "in_range t" for i t
    using that by (simp add: row_at_def sample_row_def event_row_def set_row_id_def stamped_def)
  have range: "in_range second_ns" "in_range (2 * second_ns)" "in_range (5 * second_ns)" by code_simp+
  have c: "2 * second_ns = stamped 0 (Some (3 * second_ns)) - second_ns" by (simp add: stamped_def)
  show ?thesis
    using run cleanup_keeps_retention [OF sample_db_ok(1) run _ c range(2) rows(1) at [OF range(1)]]
      cleanup_keeps_retention [OF sample_db_ok(1) run _ c range(2) rows(2) at [OF range(3)]]
    by (auto simp: second_ns_def)
qed

theorem cleanup_deletes_younger_event_witness:
  "\<exists>n d'. CleanupOlderThan True 0 second_ns (Some (3 * second_ns)) (sample_db [2 * second_ns + 500000000, 5 * second_ns]) = ((n, None), d') \<and>
    sample_row 1 (2 * second_ns + 500000000) \<notin> set (event_rows d')"
proof -
  let ?t = "2 * second_ns + 500000000"
  obtain n d' where run: "CleanupOlderThan True 0 second_ns (Some (3 * second_ns)) (sample_db [?t, 5 * second_ns]) = ((n, None), d')"
    using sample_cleanup by blast
  have range: "in_range ?t" "in_range (2 * second_ns)" by code_simp+
  have "row_at (sample_row 1 ?t) ?t"
    using range by (simp add: row_at_def sample_row_def event_row_def set_row_id_def stamped_def)
  moreover have "2 * second_ns = stamped 0 (Some (3 * second_ns)) - second_ns" by (simp add: stamped_def)
  ultimately have "sample_row 1 ?t \<notin> set (event_rows d')"
    using cleanup_deletes_younger_event [OF sample_db_ok(1) run] range by (simp add: second_ns_def)
  then show ?thesis using run by blast
qed

end
