(* ===== verification/Audit_Query.thy ===== *)
theory Audit_Query
  imports Audit_Log Go_Time_Order "HOL-Library.Product_Lexorder"
begin

text \<open>
  Package \<open>internal/audit\<close>, reading the query log: the conditions, the sort order and the page of \<open>QueryEvents\<close>, and the
  conversion of the rows back into events.
\<close>

section \<open>The order of column values\<close>

text \<open>SQLite orders integers before texts and texts by their bytes.\<close>

datatype sql_value = SqlInt int | SqlText string

instantiation sql_value :: linorder
begin

fun less_eq_sql_value :: "sql_value \<Rightarrow> sql_value \<Rightarrow> bool" where
  "less_eq_sql_value (SqlInt a) (SqlInt b) = (a \<le> b)"
| "less_eq_sql_value (SqlInt a) (SqlText t) = True"
| "less_eq_sql_value (SqlText s) (SqlInt b) = False"
| "less_eq_sql_value (SqlText s) (SqlText t) = (s \<le> t)"

definition less_sql_value :: "sql_value \<Rightarrow> sql_value \<Rightarrow> bool" where
  "less_sql_value a b \<longleftrightarrow> a \<le> b \<and> \<not> b \<le> a"

instance
proof
  fix a b c :: sql_value
  show "a < b \<longleftrightarrow> a \<le> b \<and> \<not> b \<le> a" by (rule less_sql_value_def)
  show "a \<le> a" by (cases a) simp_all
  show "a \<le> b \<Longrightarrow> b \<le> c \<Longrightarrow> a \<le> c" by (cases a; cases b; cases c) auto
  show "a \<le> b \<Longrightarrow> b \<le> a \<Longrightarrow> a = b" by (cases a; cases b) auto
  show "a \<le> b \<or> b \<le> a" by (cases a; cases b) auto
qed

end

section \<open>Query options\<close>

record query_options =
  qo_Limit :: int
  qo_Offset :: int
  qo_Sort :: string
  qo_Order :: string
  qo_From :: time
  qo_To :: time
  qo_ClientIP :: string
  qo_QueryName :: string
  qo_QueryType :: "16 word"
  qo_HasQueryType :: bool
  qo_Action :: string
  qo_Response :: string
  qo_RuleID :: int
  qo_HasRuleID :: bool
  qo_BlocklistID :: int
  qo_HasBlocklistID :: bool
  qo_DurationNS :: int
  qo_HasDurationNS :: bool
  qo_DurationMinNS :: int
  qo_HasDurationMin :: bool
  qo_DurationMaxNS :: int
  qo_HasDurationMax :: bool
  qo_Upstream :: string
  qo_CacheStatus :: string
  qo_ForwardMinNS :: int
  qo_HasForwardMin :: bool
  qo_ForwardMaxNS :: int
  qo_HasForwardMax :: bool
  qo_RetryCount :: int
  qo_HasRetryCount :: bool
  qo_ForwardError :: string

definition no_options :: query_options where
  "no_options = \<lparr>qo_Limit = 0, qo_Offset = 0, qo_Sort = [], qo_Order = [], qo_From = None, qo_To = None,
     qo_ClientIP = [], qo_QueryName = [], qo_QueryType = 0, qo_HasQueryType = False, qo_Action = [], qo_Response = [],
     qo_RuleID = 0, qo_HasRuleID = False, qo_BlocklistID = 0, qo_HasBlocklistID = False,
     qo_DurationNS = 0, qo_HasDurationNS = False, qo_DurationMinNS = 0, qo_HasDurationMin = False,
     qo_DurationMaxNS = 0, qo_HasDurationMax = False, qo_Upstream = [], qo_CacheStatus = [],
     qo_ForwardMinNS = 0, qo_HasForwardMin = False, qo_ForwardMaxNS = 0, qo_HasForwardMax = False,
     qo_RetryCount = 0, qo_HasRetryCount = False, qo_ForwardError = []\<rparr>"

text \<open>The columns by which the log can be sorted.\<close>

definition sort_columns :: "(string \<times> string) list" where
  "sort_columns =
     [(''timestamp'', ''timestamp''), (''client_ip'', ''client_ip''), (''query_name'', ''query_name''),
      (''query_type'', ''query_type''), (''action'', ''action''), (''response'', ''response''),
      (''rule_id'', ''rule_id''), (''blocklist_id'', ''blocklist_id''), (''duration_ns'', ''duration_ns''),
      (''duration_ms'', ''duration_ns''), (''upstream_resolver'', ''upstream_resolver''),
      (''cache_status'', ''cache_status''), (''forward_duration_ns'', ''forward_duration_ns''),
      (''forward_duration_ms'', ''forward_duration_ns''), (''retry_count'', ''retry_count''),
      (''forward_error'', ''forward_error'')]"

definition querySortColumn :: "string \<Rightarrow> string result" where
  "querySortColumn s =
     (case map_of sort_columns (if s = [] then ''timestamp'' else s) of
        None \<Rightarrow> Inl (ErrorString (''unsupported audit query sort field '' @ s))
      | Some column \<Rightarrow> Inr column)"

definition querySortOrder :: "string \<Rightarrow> string result" where
  "querySortOrder s =
     (let order = (if s = [] then ''desc'' else s) in
      if order = ''asc'' then Inr ''ASC''
      else if order = ''desc'' then Inr ''DESC''
      else Inl (ErrorString (''unsupported audit query sort order '' @ s)))"

definition column_values :: "audit_row \<Rightarrow> (string \<times> sql_value) list" where
  "column_values r =
     [(''timestamp'', SqlText (ar_timestamp r)), (''client_ip'', SqlText (ar_client_ip r)),
      (''query_name'', SqlText (ar_query_name r)), (''query_type'', SqlInt (ar_query_type r)),
      (''action'', SqlText (ar_action r)), (''response'', SqlText (ar_response r)),
      (''rule_id'', SqlInt (ar_rule_id r)), (''blocklist_id'', SqlInt (ar_blocklist_id r)),
      (''duration_ns'', SqlInt (ar_duration_ns r)), (''upstream_resolver'', SqlText (ar_upstream_resolver r)),
      (''cache_status'', SqlText (ar_cache_status r)), (''forward_duration_ns'', SqlInt (ar_forward_duration_ns r)),
      (''retry_count'', SqlInt (ar_retry_count r)), (''forward_error'', SqlText (ar_forward_error r))]"

definition column_value :: "string \<Rightarrow> audit_row \<Rightarrow> sql_value" where
  "column_value column r = the (map_of (column_values r) column)"

section \<open>The conditions\<close>

definition condition :: "bool \<Rightarrow> (audit_row \<Rightarrow> bool) \<Rightarrow> (audit_row \<Rightarrow> bool) list" where
  "condition given p = (if given then [p] else [])"

definition query_name_forms :: "string \<Rightarrow> string list" where
  "query_name_forms s =
     (let name = ToLower (TrimRightFunc (\<lambda>c. c = CHR ''.'') (TrimSpace s)) in [name, name @ ''.''])"

definition conditions :: "query_options \<Rightarrow> (audit_row \<Rightarrow> bool) list" where
  "conditions qo =
     condition (qo_From qo \<noteq> None) (\<lambda>r. format_RFC3339Nano (the (qo_From qo)) \<le> ar_timestamp r) @
     condition (qo_To qo \<noteq> None) (\<lambda>r. ar_timestamp r \<le> format_RFC3339Nano (the (qo_To qo))) @
     condition (qo_ClientIP qo \<noteq> []) (\<lambda>r. ar_client_ip r = qo_ClientIP qo) @
     condition (qo_QueryName qo \<noteq> []) (\<lambda>r. ar_query_name r \<in> set (query_name_forms (qo_QueryName qo))) @
     condition (qo_HasQueryType qo) (\<lambda>r. ar_query_type r = uint (qo_QueryType qo)) @
     condition (qo_Action qo \<noteq> []) (\<lambda>r. ar_action r = qo_Action qo) @
     condition (qo_Response qo \<noteq> []) (\<lambda>r. ar_response r = qo_Response qo) @
     condition (qo_HasRuleID qo) (\<lambda>r. ar_rule_id r = qo_RuleID qo) @
     condition (qo_HasBlocklistID qo) (\<lambda>r. ar_blocklist_id r = qo_BlocklistID qo) @
     condition (qo_HasDurationNS qo) (\<lambda>r. ar_duration_ns r = qo_DurationNS qo) @
     condition (qo_HasDurationMin qo) (\<lambda>r. ar_duration_ns r \<ge> qo_DurationMinNS qo) @
     condition (qo_HasDurationMax qo) (\<lambda>r. ar_duration_ns r \<le> qo_DurationMaxNS qo) @
     condition (qo_Upstream qo \<noteq> []) (\<lambda>r. ar_upstream_resolver r = qo_Upstream qo) @
     condition (qo_CacheStatus qo \<noteq> []) (\<lambda>r. ar_cache_status r = qo_CacheStatus qo) @
     condition (qo_HasForwardMin qo) (\<lambda>r. ar_forward_duration_ns r \<ge> qo_ForwardMinNS qo) @
     condition (qo_HasForwardMax qo) (\<lambda>r. ar_forward_duration_ns r \<le> qo_ForwardMaxNS qo) @
     condition (qo_HasRetryCount qo) (\<lambda>r. ar_retry_count r = qo_RetryCount qo) @
     condition (qo_ForwardError qo \<noteq> []) (\<lambda>r. ar_forward_error r = qo_ForwardError qo)"

definition selected :: "query_options \<Rightarrow> audit_row \<Rightarrow> bool" where
  "selected qo r \<longleftrightarrow> list_all (\<lambda>p. p r) (conditions qo)"

text \<open>\<open>ORDER BY column order, id order LIMIT limit OFFSET offset\<close>\<close>

definition ordered :: "string \<Rightarrow> string \<Rightarrow> audit_row list \<Rightarrow> audit_row list" where
  "ordered column order rows =
     (let rows = sort_key (\<lambda>r. (column_value column r, ar_id r)) rows in if order = ''ASC'' then rows else rev rows)"

definition page :: "int \<Rightarrow> int \<Rightarrow> 'a list \<Rightarrow> 'a list" where
  "page limit offset rows = take (nat limit) (if offset > 0 then drop (nat offset) rows else rows)"

section \<open>Rows as events\<close>

definition scan_error :: go_error where
  "scan_error = ErrorString ''converting driver.Value type: value out of range''"

definition scanEventRow :: "(string \<Rightarrow> instant option) \<Rightarrow> audit_row \<Rightarrow> audit_event result" where
  "scanEventRow lenient r =
     (if ar_query_type r < 0 \<or> ar_query_type r > 65535 then Inl (Wrapf ''scan audit event'' scan_error)
      else case time_Parse lenient (ar_timestamp r) of
        None \<Rightarrow> Inl (Wrapf ''parse audit timestamp'' (ErrorString ''parsing time''))
      | Some timestamp \<Rightarrow>
          (case (if ar_client_ip r = [] then Some AddrInvalid else ParseAddr (ar_client_ip r)) of
             None \<Rightarrow> Inl (Wrapf ''parse audit client ip'' (ErrorString ''ParseAddr''))
           | Some client \<Rightarrow>
               Inr \<lparr>ev_Timestamp = timestamp, ev_ClientIP = client, ev_QueryName = ar_query_name r,
                    ev_QueryType = word_of_int (ar_query_type r), ev_Action = ar_action r, ev_Reason = ar_reason r,
                    ev_RuleID = ar_rule_id r, ev_BlocklistID = ar_blocklist_id r, ev_Response = ar_response r,
                    ev_Duration = ar_duration_ns r, ev_Upstream = ar_upstream_resolver r,
                    ev_CacheStatus = ar_cache_status r, ev_ForwardDuration = ar_forward_duration_ns r,
                    ev_RetryCount = ar_retry_count r, ev_ForwardError = ar_forward_error r\<rparr>))"

fun scanEventRows :: "(string \<Rightarrow> instant option) \<Rightarrow> audit_row list \<Rightarrow> audit_event list result" where
  "scanEventRows lenient [] = Inr []"
| "scanEventRows lenient (r # rs) =
     (case scanEventRow lenient r of
        Inl err \<Rightarrow> Inl err
      | Inr event \<Rightarrow> (case scanEventRows lenient rs of Inl err \<Rightarrow> Inl err | Inr events \<Rightarrow> Inr (event # events)))"

definition query_rows :: "string \<Rightarrow> string \<Rightarrow> query_options \<Rightarrow> audit_tables \<Rightarrow> audit_row list" where
  "query_rows column order qo tb =
     page (qo_Limit qo) (qo_Offset qo) (ordered column order (filter (selected qo) (t_rows (au_events tb))))"

definition QueryEvents :: "(string \<Rightarrow> instant option) \<Rightarrow> bool \<Rightarrow> query_options \<Rightarrow> (audit_db, audit_event list) step" where
  "QueryEvents lenient has_db qo =
     (if \<not> has_db then fail (ErrorString ''audit query events requires a database'')
      else if qo_Limit qo \<le> 0 then ret []
      else if qo_Offset qo < 0 then fail (ErrorString ''audit query events offset must be non-negative'')
      else
        then_do (lift_result (querySortColumn (qo_Sort qo))) (\<lambda>column.
        then_do (lift_result (querySortOrder (qo_Order qo))) (\<lambda>order.
        then_do (wrap_err (Wrapf ''query audit events'') (sql_poll db_error)) (\<lambda>_.
        then_do (get_state (\<lambda>d. query_rows column order qo (db_tables d))) (\<lambda>rows.
        then_do (lift_result (scanEventRows lenient rows)) (\<lambda>events.
        then_do (wrap_err (Wrapf ''read audit events'') (sql_poll db_error)) (\<lambda>_.
          ret events)))))))"

definition RecentEvents :: "(string \<Rightarrow> instant option) \<Rightarrow> bool \<Rightarrow> int \<Rightarrow> (audit_db, audit_event list) step" where
  "RecentEvents lenient has_db limit = QueryEvents lenient has_db (no_options\<lparr>qo_Limit := limit\<rparr>)"

section \<open>Rows that are read\<close>

definition row_event :: "(string \<Rightarrow> instant option) \<Rightarrow> audit_row \<Rightarrow> audit_event" where
  "row_event lenient r = projr (scanEventRow lenient r)"

definition readable :: "(string \<Rightarrow> instant option) \<Rightarrow> audit_row \<Rightarrow> bool" where
  "readable lenient r \<longleftrightarrow> is_ok (scanEventRow lenient r)"

lemma scanEventRows_ok: "list_all (readable lenient) rows \<Longrightarrow> scanEventRows lenient rows = Inr (map (row_event lenient) rows)"
proof (induction rows)
  case (Cons r rows)
  then show ?case by (cases "scanEventRow lenient r") (simp_all add: readable_def row_event_def)
qed simp

lemma scanEventRows_Inr: "scanEventRows lenient rows = Inr events \<Longrightarrow> list_all (readable lenient) rows \<and> events = map (row_event lenient) rows"
  by (induction rows arbitrary: events) (auto simp: readable_def row_event_def split: sum.splits)

lemma QueryEvents_no_fault:
  assumes "db_faults d = []" and "0 < qo_Limit qo" and "0 \<le> qo_Offset qo"
    and "querySortColumn (qo_Sort qo) = Inr column" and "querySortOrder (qo_Order qo) = Inr order"
  shows "QueryEvents lenient True qo d =
    (case scanEventRows lenient (query_rows column order qo (db_tables d)) of Inl e \<Rightarrow> (Inl e, d) | Inr events \<Rightarrow> (Inr events, d))"
  using assms by (simp add: QueryEvents_def then_do_def wrap_err_def split: sum.split)

lemma set_query_rows: "set (query_rows column order qo tb) \<subseteq> set (t_rows (au_events tb))"
proof -
  have "set (ordered column order rows) = set rows" for rows by (simp add: ordered_def Let_def)
  then show ?thesis unfolding query_rows_def page_def by (auto dest!: in_set_takeD in_set_dropD split: if_splits)
qed

lemma QueryEvents_readable:
  assumes "db_faults d = []" and "0 < qo_Limit qo" and "0 \<le> qo_Offset qo"
    and "querySortColumn (qo_Sort qo) = Inr column" and "querySortOrder (qo_Order qo) = Inr order"
    and "list_all (readable lenient) (t_rows (au_events (db_tables d)))"
  shows "QueryEvents lenient True qo d = (Inr (map (row_event lenient) (query_rows column order qo (db_tables d))), d)"
proof -
  have "list_all (readable lenient) (query_rows column order qo (db_tables d))"
    using assms(6) set_query_rows [of column order qo "db_tables d"] by (auto simp: list_all_iff)
  then show ?thesis using QueryEvents_no_fault [OF assms(1-5)] by (simp add: scanEventRows_ok)
qed

section \<open>What is stored is read back\<close>

text \<open>The form in which an event is read back: its time is set, its name in lower case.\<close>

definition stored_event :: "instant \<Rightarrow> audit_event \<Rightarrow> audit_event" where
  "stored_event clock e = e\<lparr>ev_Timestamp := time_of (stamped clock (ev_Timestamp e)), ev_QueryName := ToLower (ev_QueryName e)\<rparr>"

text \<open>An event whose time, stamped where it has none, falls in the years RFC 3339 can write, and whose client is none or an address.\<close>

definition storable :: "instant \<Rightarrow> audit_event \<Rightarrow> bool" where
  "storable clock e \<longleftrightarrow> in_range (stamped clock (ev_Timestamp e)) \<and> addr_wf (ev_ClientIP e)"

lemma ParseAddr_Nil: "ParseAddr [] = None"
  by (simp add: ParseAddr_def)

lemma scan_stored:
  assumes "storable clock e"
  shows "scanEventRow lenient (set_row_id i (event_row clock e)) = Inr (stored_event clock e)"
proof -
  have t: "time_Parse lenient (format_RFC3339Nano (stamped clock (ev_Timestamp e))) = Some (time_of (stamped clock (ev_Timestamp e)))"
    using assms by (simp add: storable_def in_range_def time_Parse_def parse_format_RFC3339Nano)
  have a: "(if addrString (ev_ClientIP e) = [] then Some AddrInvalid else ParseAddr (addrString (ev_ClientIP e))) = Some (ev_ClientIP e)"
    using assms ParseAddr_String [of "ev_ClientIP e"] ParseAddr_Nil by (cases "ev_ClientIP e") (auto simp: storable_def addrString_def simp del: addr_String.simps)
  have w: "0 \<le> uint (ev_QueryType e)" "uint (ev_QueryType e) \<le> 65535" using uint_range_size [of "ev_QueryType e"] by (simp_all add: word_size)
  let ?r = "set_row_id i (event_row clock e)"
  have f: "ar_timestamp ?r = format_RFC3339Nano (stamped clock (ev_Timestamp e))" "ar_client_ip ?r = addrString (ev_ClientIP e)"
    "ar_query_type ?r = uint (ev_QueryType e)"
    by (simp_all add: set_row_id_def event_row_def)
  have "scanEventRow lenient ?r = Inr (stored_event clock e)
      \<longleftrightarrow> \<lparr>ev_Timestamp = time_of (stamped clock (ev_Timestamp e)), ev_ClientIP = ev_ClientIP e, ev_QueryName = ar_query_name ?r,
           ev_QueryType = ev_QueryType e, ev_Action = ar_action ?r, ev_Reason = ar_reason ?r, ev_RuleID = ar_rule_id ?r,
           ev_BlocklistID = ar_blocklist_id ?r, ev_Response = ar_response ?r, ev_Duration = ar_duration_ns ?r,
           ev_Upstream = ar_upstream_resolver ?r, ev_CacheStatus = ar_cache_status ?r,
           ev_ForwardDuration = ar_forward_duration_ns ?r, ev_RetryCount = ar_retry_count ?r,
           ev_ForwardError = ar_forward_error ?r\<rparr> = stored_event clock e"
    unfolding scanEventRow_def f t a using w by simp
  then show ?thesis by (cases e) (simp add: set_row_id_def event_row_def stored_event_def)
qed

lemma numbered_events:
  "list_all (storable clock) events \<Longrightarrow> list_all (readable lenient) (numbered n (map (event_row clock) events)) \<and>
    map (row_event lenient) (numbered n (map (event_row clock) events)) = map (stored_event clock) events"
  by (induction events arbitrary: n) (simp_all add: readable_def row_event_def scan_stored)

lemma mset_ordered [simp]: "mset (ordered column order rows) = mset rows"
  by (simp add: ordered_def Let_def)

text \<open>
  C28: What is stored is read back: after a batch was stored, a query of the whole log returns, besides the events that
  were in the log, exactly the events of the batch, each as often as it was recorded, with its time to the nanosecond,
  its client, an IPv4 address, an IPv6 address with its zone or none, its name in lower case and every other field as it
  was. The events are of the years RFC 3339 can write, the rows that were in the log can be read, and the limit of the
  query is not below the size of the log.
\<close>

theorem stored_events_read_back:
  assumes "insertBatch clock order events d = (Inr (), d1)" and "list_all (storable clock) events"
    and "scanEventRows lenient (t_rows (au_events (db_tables d))) = Inr log"
    and "db_faults d1 = []" and "0 < limit" and "int (length log + length events) \<le> limit"
  shows "\<exists>out. QueryEvents lenient True (no_options\<lparr>qo_Limit := limit\<rparr>) d1 = (Inr out, d1) \<and>
    mset out = mset log + mset (map (stored_event clock) events)"
proof -
  let ?qo = "no_options\<lparr>qo_Limit := limit\<rparr>"
  let ?old = "t_rows (au_events (db_tables d))"
  let ?new = "numbered (t_seq (au_events (db_tables d))) (map (event_row clock) events)"
  have "db_tables d1 = batch_tables clock order events (db_tables d)"
    using assms(1) by (cases rule: insertBatch_cases) auto
  then have rows: "t_rows (au_events (db_tables d1)) = ?old @ ?new" by (simp add: batch_tables_def append_rows_def)
  have old: "list_all (readable lenient) ?old" "log = map (row_event lenient) ?old" using scanEventRows_Inr [OF assms(3)] by blast+
  have all: "selected ?qo = (\<lambda>r. True)" by (simp add: fun_eq_iff selected_def conditions_def condition_def no_options_def)
  have offset: "qo_Offset no_options = 0" by (simp add: no_options_def)
  have len: "length (?old @ ?new) \<le> nat limit" using assms(6) old(2) by simp
  have "length (ordered ''timestamp'' ''DESC'' (?old @ ?new)) = length (?old @ ?new)" by (metis mset_ordered size_mset)
  then have q: "query_rows ''timestamp'' ''DESC'' ?qo (db_tables d1) = ordered ''timestamp'' ''DESC'' (?old @ ?new)"
    using len by (simp add: query_rows_def all rows page_def offset)
  have "list_all (readable lenient) (?old @ ?new)" using old(1) numbered_events [OF assms(2)] by simp
  moreover have "set (ordered ''timestamp'' ''DESC'' (?old @ ?new)) = set (?old @ ?new)" by (metis mset_ordered set_mset_mset)
  ultimately have ok: "list_all (readable lenient) (ordered ''timestamp'' ''DESC'' (?old @ ?new))" by (simp add: list_all_iff)
  let ?out = "map (row_event lenient) (ordered ''timestamp'' ''DESC'' (?old @ ?new))"
  have "QueryEvents lenient True ?qo d1 = (Inr ?out, d1)"
    using QueryEvents_no_fault [OF assms(4), of ?qo "''timestamp''" "''DESC''" lenient] assms(5) q scanEventRows_ok [OF ok]
    by (simp add: no_options_def querySortColumn_def sort_columns_def querySortOrder_def)
  moreover have "mset ?out = mset log + mset (map (stored_event clock) events)"
  proof -
    have "mset (map (row_event lenient) ?new) = mset (map (stored_event clock) events)"
      by (simp only: numbered_events [OF assms(2), THEN conjunct2])
    then show ?thesis using old(2) by simp
  qed
  ultimately show ?thesis by blast
qed

section \<open>Examples\<close>

definition demo_event :: "instant \<Rightarrow> string \<Rightarrow> audit_event" where
  "demo_event t name =
     \<lparr>ev_Timestamp = Some t, ev_ClientIP = Addr6 [0x2001, 0xDB8, 0, 0, 0, 0, 0, 1] [], ev_QueryName = name, ev_QueryType = 1, ev_Action = ''allow'',
      ev_Reason = [], ev_RuleID = 0, ev_BlocklistID = 0, ev_Response = ''NOERROR'', ev_Duration = 5, ev_Upstream = [],
      ev_CacheStatus = [], ev_ForwardDuration = 0, ev_RetryCount = -1, ev_ForwardError = []\<rparr>"

definition empty_audit :: audit_db where
  "empty_audit = \<lparr>db_tables = \<lparr>au_events = empty_table, au_totals = [], au_settings = None\<rparr>, db_faults = []\<rparr>"

definition demo_log :: audit_db where
  "demo_log = snd (insertBatch 7 [''allow''] [demo_event 1 ''A.test.'', demo_event 2 ''b.test.''] empty_audit)"

lemma demo_insert:
  "insertBatch 7 [''allow''] [demo_event 1 ''A.test.'', demo_event 2 ''b.test.''] empty_audit = (Inr (), demo_log) \<and> db_faults demo_log = []"
  by (simp add: demo_log_def insertBatch_def sql_tx_def insert_body_def then_do_def wrap_err_def empty_audit_def insert_event_stmt_def
    sql_run_no_fault tbl_insert_def incrementActionTotals_def update_total_stmt_def)

lemma demo_storable: "list_all (storable 7) [demo_event 1 ''A.test.'', demo_event 2 ''b.test.'']"
proof -
  have "in_range 1" "in_range 2" by code_simp+
  then show ?thesis by (simp add: storable_def stamped_def demo_event_def)
qed

lemma demo_empty: "scanEventRows lenient (t_rows (au_events (db_tables empty_audit))) = Inr []"
  by (simp add: empty_audit_def empty_table_def)

theorem stored_events_read_back_witness:
  "\<exists>out. QueryEvents (\<lambda>_. None) True (no_options\<lparr>qo_Limit := 10\<rparr>) demo_log = (Inr out, demo_log) \<and>
    mset out = mset [stored_event 7 (demo_event 1 ''A.test.''), stored_event 7 (demo_event 2 ''b.test.'')]"
  using stored_events_read_back [OF conjunct1 [OF demo_insert] demo_storable demo_empty [of "\<lambda>_. None"], of 10] demo_insert by simp

lemma demo_tables:
  "db_tables demo_log = batch_tables 7 [''allow''] [demo_event 1 ''A.test.'', demo_event 2 ''b.test.''] (db_tables empty_audit)"
  using conjunct1 [OF demo_insert] by (cases rule: insertBatch_cases) auto

lemma demo_readable: "list_all (readable (\<lambda>_. None)) (t_rows (au_events (db_tables demo_log)))"
  using demo_tables numbered_events [OF demo_storable, of "\<lambda>_. None" 0]
  by (simp add: batch_tables_def append_rows_def empty_audit_def empty_table_def)

end
