(* ===== verification/Audit_Analytics.thy ===== *)
theory Audit_Analytics
  imports Audit_Cleanup Audit_Query
begin

text \<open>
  Package \<open>internal/audit\<close>, analytics: the totals by action, the summary of a window of the query log with its time buckets,
  the recent clients, and the projections that hide clients and domains from a summary and from events.
\<close>

section \<open>Totals\<close>

record totals =
  tt_TotalQueries :: int
  tt_BlockedQueries :: int
  tt_AllowedQueries :: int

definition zero_totals :: totals where
  "zero_totals = \<lparr>tt_TotalQueries = 0, tt_BlockedQueries = 0, tt_AllowedQueries = 0\<rparr>"

definition add_total :: "totals \<Rightarrow> action_total \<Rightarrow> totals" where
  "add_total s t =
     (let s = s\<lparr>tt_TotalQueries := tt_TotalQueries s + at_count t\<rparr> in
      if at_action t = ''block'' then s\<lparr>tt_BlockedQueries := tt_BlockedQueries s + at_count t\<rparr>
      else if at_action t = ''allow'' then s\<lparr>tt_AllowedQueries := tt_AllowedQueries s + at_count t\<rparr>
      else s)"

definition QueryTotals :: "bool \<Rightarrow> (audit_db, totals) step" where
  "QueryTotals has_db =
     (if \<not> has_db then fail (ErrorString ''audit totals requires a database'') else
      then_do (sql_query ''query audit totals'' ''read audit totals'' au_totals) (\<lambda>rows.
        ret (foldl add_total zero_totals rows)))"

record audit_stats =
  ss_Totals :: totals
  ss_DroppedEvents :: "64 word"

text \<open>\<open>SELECT action, COUNT(*) FROM audit_events GROUP BY action\<close>\<close>

definition count_by :: "('r \<Rightarrow> 'k) \<Rightarrow> 'k \<Rightarrow> 'r list \<Rightarrow> int" where
  "count_by key k rows = int (length (filter (\<lambda>r. key r = k) rows))"

definition rebuilt_totals :: "instant \<Rightarrow> audit_row list \<Rightarrow> action_total list" where
  "rebuilt_totals clock rows =
     map (\<lambda>a. \<lparr>at_action = a, at_count = count_by ar_action a rows, at_updated_at = format_RFC3339Nano clock\<rparr>)
       (sort (remdups (map ar_action rows)))"

definition RebuildTotals :: "bool \<Rightarrow> instant \<Rightarrow> (audit_db, unit) step" where
  "RebuildTotals has_db clock =
     (if \<not> has_db then fail (ErrorString ''audit totals rebuild requires a database'') else
      sql_tx ''begin audit totals rebuild'' ''commit audit totals rebuild''
        (then_do (wrap_err (Wrapf ''clear audit totals'') (sql_run (\<lambda>tb. Inr ((), tb\<lparr>au_totals := []\<rparr>)))) (\<lambda>_.
           wrap_err (Wrapf ''rebuild audit totals'')
             (sql_run (\<lambda>tb. Inr ((), tb\<lparr>au_totals := rebuilt_totals clock (t_rows (au_events tb))\<rparr>))))))"

section \<open>The parts of a summary\<close>

record act_total =
  xt_Action :: string
  xt_Count :: int

record named_total =
  nt_Name :: string
  nt_Count :: int

record time_bucket =
  tb_Start :: instant
  tb_End :: instant
  tb_Total :: int
  tb_Allowed :: int
  tb_Blocked :: int

record client_bucket =
  cb_Start :: instant
  cb_End :: instant
  cb_Total :: int
  cb_Clients :: "named_total list"

record summary =
  sm_TotalQueryCount :: int
  sm_TotalsByAction :: "act_total list"
  sm_TotalsByCache :: "named_total list"
  sm_TopQueriedDomains :: "named_total list"
  sm_TopBlockedDomains :: "named_total list"
  sm_TopClients :: "named_total list"
  sm_TopBlockedClients :: "named_total list"
  sm_RecentTimeBuckets :: "time_bucket list"
  sm_ClientTimeBuckets :: "client_bucket list"

record summary_options =
  so_Since :: time
  so_TopLimit :: int
  so_BucketCount :: int
  so_BucketInterval :: duration
  so_Now :: time

definition defaultSummaryTopLimit :: int where
  "defaultSummaryTopLimit = 10"

definition defaultSummaryBucketCount :: int where
  "defaultSummaryBucketCount = 24"

definition defaultSummaryBucketInterval :: duration where
  "defaultSummaryBucketInterval = 3600 * second_ns"

definition normalizeSummaryOptions :: "instant \<Rightarrow> summary_options \<Rightarrow> summary_options" where
  "normalizeSummaryOptions clock so =
     (let so = so\<lparr>so_Now := Some (stamped clock (so_Now so))\<rparr>;
          so = (if so_TopLimit so \<le> 0 then so\<lparr>so_TopLimit := defaultSummaryTopLimit\<rparr> else so);
          so = (if so_TopLimit so > 100 then so\<lparr>so_TopLimit := 100\<rparr> else so);
          so = (if so_BucketCount so \<le> 0 then so\<lparr>so_BucketCount := defaultSummaryBucketCount\<rparr> else so);
          so = (if so_BucketCount so > 168 then so\<lparr>so_BucketCount := 168\<rparr> else so);
          so = (if so_BucketInterval so \<le> 0 then so\<lparr>so_BucketInterval := defaultSummaryBucketInterval\<rparr> else so)
      in if so_Since so = None
         then so\<lparr>so_Since := Some (the (so_Now so) - so_BucketCount so * so_BucketInterval so)\<rparr>
         else so)"

text \<open>The rows since a time, and \<open>GROUP BY key ORDER BY COUNT(*) DESC, key ASC\<close>.\<close>

definition rows_since :: "instant \<Rightarrow> audit_row list \<Rightarrow> audit_row list" where
  "rows_since since rows = filter (\<lambda>r. format_RFC3339Nano since \<le> ar_timestamp r) rows"

definition grouped :: "('r \<Rightarrow> 'k::linorder) \<Rightarrow> 'r list \<Rightarrow> ('k \<times> int) list" where
  "grouped key rows =
     sort_key (\<lambda>(k, n). (- n, k)) (map (\<lambda>k. (k, count_by key k rows)) (remdups (map key rows)))"

definition named :: "string \<times> int \<Rightarrow> named_total" where
  "named p = \<lparr>nt_Name = fst p, nt_Count = snd p\<rparr>"

definition actionTotals :: "instant \<Rightarrow> (audit_db, act_total list) step" where
  "actionTotals since =
     sql_query ''query action totals'' ''read action totals'' (\<lambda>tb.
       map (\<lambda>(a, n). \<lparr>xt_Action = a, xt_Count = n\<rparr>) (grouped ar_action (rows_since since (t_rows (au_events tb)))))"

definition cacheStatusTotals :: "instant \<Rightarrow> (audit_db, named_total list) step" where
  "cacheStatusTotals since =
     sql_query ''query cache status totals'' ''read cache status totals'' (\<lambda>tb.
       map named (grouped ar_cache_status (filter (\<lambda>r. ar_cache_status r \<noteq> []) (rows_since since (t_rows (au_events tb))))))"

text \<open>\<open>namedTotals\<close> with its query: the rows it selects and the column it groups by.\<close>

definition namedTotals ::
  "(audit_row \<Rightarrow> bool) \<Rightarrow> (audit_row \<Rightarrow> string) \<Rightarrow> instant \<Rightarrow> int \<Rightarrow> (audit_db, named_total list) step" where
  "namedTotals p key since limit =
     sql_query ''query named totals'' ''read named totals'' (\<lambda>tb.
       map named (take (nat limit) (grouped key (filter p (rows_since since (t_rows (au_events tb)))))))"

section \<open>Time buckets\<close>

text \<open>\<open>Truncate\<close> counts from the zero time. The layout of the boundaries is \<open>format_boundary\<close>.\<close>

definition Truncate :: "duration \<Rightarrow> instant \<Rightarrow> instant" where
  "Truncate d t = (if d \<le> 0 then t else t - (t + epoch_days * 86400 * second_ns) mod d)"

definition bucket_start :: "summary_options \<Rightarrow> nat \<Rightarrow> instant" where
  "bucket_start so i =
     Truncate (so_BucketInterval so) (the (so_Now so)) + so_BucketInterval so
       - so_BucketCount so * so_BucketInterval so + int i * so_BucketInterval so"

definition between :: "instant \<Rightarrow> instant \<Rightarrow> audit_row \<Rightarrow> bool" where
  "between start stop r \<longleftrightarrow> format_boundary start \<le> ar_timestamp r \<and> ar_timestamp r < format_boundary stop"

definition time_bucket_of :: "summary_options \<Rightarrow> audit_row list \<Rightarrow> nat \<Rightarrow> time_bucket" where
  "time_bucket_of so rows i =
     (let start = bucket_start so i; stop = start + so_BucketInterval so; inside = filter (between start stop) rows in
      \<lparr>tb_Start = start, tb_End = stop, tb_Total = int (length inside),
       tb_Allowed = count_by ar_action ''allow'' inside, tb_Blocked = count_by ar_action ''block'' inside\<rparr>)"

definition timeBuckets :: "summary_options \<Rightarrow> (audit_db, time_bucket list) step" where
  "timeBuckets so =
     sql_query ''query time buckets'' ''read time bucket events'' (\<lambda>tb.
       map (time_bucket_of so (t_rows (au_events tb))) [0..<nat (so_BucketCount so)])"

text \<open>The index of the last occurrence of each name, as \<open>clientIndexes\<close> has it.\<close>

fun client_indexes :: "nat \<Rightarrow> named_total list \<Rightarrow> (string \<rightharpoonup> nat) \<Rightarrow> (string \<rightharpoonup> nat)" where
  "client_indexes i [] m = m"
| "client_indexes i (c # cs) m = client_indexes (i + 1) cs (if nt_Name c \<noteq> [] then m(nt_Name c \<mapsto> i) else m)"

definition client_count :: "(string \<rightharpoonup> nat) \<Rightarrow> audit_row list \<Rightarrow> nat \<times> named_total \<Rightarrow> named_total list" where
  "client_count indexes inside = (\<lambda>(i, c).
     let n = (if indexes (nt_Name c) = Some i then count_by ar_client_ip (nt_Name c) inside else 0) in
     if n = 0 then [] else [\<lparr>nt_Name = nt_Name c, nt_Count = n\<rparr>])"

definition bucket_clients :: "named_total list \<Rightarrow> audit_row list \<Rightarrow> named_total list" where
  "bucket_clients topClients inside =
     concat (map (client_count (client_indexes 0 topClients Map.empty) inside) (enumerate 0 topClients))"

definition client_bucket_of :: "summary_options \<Rightarrow> time_bucket list \<Rightarrow> (audit_row list \<Rightarrow> named_total list) \<Rightarrow> audit_row list \<Rightarrow> nat \<Rightarrow> client_bucket" where
  "client_bucket_of so totals clients rows i =
     (let start = bucket_start so i; stop = start + so_BucketInterval so in
      \<lparr>cb_Start = start, cb_End = stop, cb_Total = (if i < length totals then tb_Total (totals ! i) else 0),
       cb_Clients = clients (filter (between start stop) rows)\<rparr>)"

definition clientTimeBuckets ::
  "summary_options \<Rightarrow> named_total list \<Rightarrow> time_bucket list \<Rightarrow> (audit_db, client_bucket list) step" where
  "clientTimeBuckets so topClients bucketTotals =
     (if topClients = [] \<or> list_all (\<lambda>c. nt_Name c = []) topClients
      then ret (map (client_bucket_of so bucketTotals (\<lambda>_. []) []) [0..<nat (so_BucketCount so)])
      else sql_query ''query client time buckets'' ''read client time bucket events'' (\<lambda>tb.
        map (client_bucket_of so bucketTotals (bucket_clients topClients) (t_rows (au_events tb))) [0..<nat (so_BucketCount so)]))"

section \<open>The summary\<close>

definition is_blocked :: "audit_row \<Rightarrow> bool" where
  "is_blocked r \<longleftrightarrow> ar_action r = ''block''"

definition has_client :: "audit_row \<Rightarrow> bool" where
  "has_client r \<longleftrightarrow> ar_client_ip r \<noteq> []"

definition QuerySummary :: "bool \<Rightarrow> instant \<Rightarrow> summary_options \<Rightarrow> (audit_db, summary) step" where
  "QuerySummary has_db clock so =
     (if \<not> has_db then fail (ErrorString ''audit summary requires a database'') else
      let so = normalizeSummaryOptions clock so; since = the (so_Since so); limit = so_TopLimit so in
      then_do (QueryTotals True) (\<lambda>allTimeTotals.
      then_do (actionTotals since) (\<lambda>byAction.
      then_do (cacheStatusTotals since) (\<lambda>byCache.
      then_do (namedTotals (\<lambda>_. True) ar_query_name since limit) (\<lambda>topQueries.
      then_do (namedTotals is_blocked ar_query_name since limit) (\<lambda>topBlocked.
      then_do (namedTotals has_client ar_client_ip since limit) (\<lambda>topClients.
      then_do (namedTotals (\<lambda>r. is_blocked r \<and> has_client r) ar_client_ip since limit) (\<lambda>topBlockedClients.
      then_do (timeBuckets so) (\<lambda>buckets.
      then_do (clientTimeBuckets so topClients buckets) (\<lambda>clientBuckets.
        ret \<lparr>sm_TotalQueryCount = tt_TotalQueries allTimeTotals, sm_TotalsByAction = byAction, sm_TotalsByCache = byCache,
             sm_TopQueriedDomains = topQueries, sm_TopBlockedDomains = topBlocked, sm_TopClients = topClients,
             sm_TopBlockedClients = topBlockedClients, sm_RecentTimeBuckets = buckets,
             sm_ClientTimeBuckets = clientBuckets\<rparr>))))))))))"

section \<open>Recent clients\<close>

record client_suggestion =
  cs_Address :: string
  cs_LastSeen :: time
  cs_Count :: int

text \<open>\<open>ORDER BY last_seen DESC, client_ip ASC\<close>\<close>

definition seen_clients :: "audit_row list \<Rightarrow> (string \<times> int \<times> string) list" where
  "seen_clients rows =
     (let known = filter has_client rows;
          groups = map (\<lambda>c. (c, count_by ar_client_ip c known, Max (ar_timestamp ` set (filter (\<lambda>r. ar_client_ip r = c) known))))
            (remdups (map ar_client_ip known))
      in rev (sort_key (\<lambda>(c, n, last). last) (rev (sort_key fst groups))))"

fun suggest :: "(string \<Rightarrow> instant option) \<Rightarrow> int \<Rightarrow> client_suggestion list \<Rightarrow> (string \<times> int \<times> string) list \<Rightarrow> client_suggestion list result" where
  "suggest lenient limit acc [] = Inr acc"
| "suggest lenient limit acc ((address, n, lastRaw) # rows) =
     (case ParseAddr address of
        None \<Rightarrow> suggest lenient limit acc rows
      | Some a \<Rightarrow>
          if \<not> addr_IsValid a then suggest lenient limit acc rows
          else (case time_Parse lenient lastRaw of
              None \<Rightarrow> Inl (Wrapf ''parse recent audit client timestamp'' (ErrorString ''parsing time''))
            | Some lastSeen \<Rightarrow>
                let acc = acc @ [\<lparr>cs_Address = addr_String a, cs_LastSeen = lastSeen, cs_Count = n\<rparr>] in
                if int (length acc) \<ge> limit then Inr acc else suggest lenient limit acc rows))"

definition scan_limit :: "int \<Rightarrow> int" where
  "scan_limit limit =
     (let scanLimit = limit * 10;
          scanLimit = (if scanLimit < 100 then 100 else scanLimit)
      in if scanLimit > 1000 then 1000 else scanLimit)"

definition RecentClients :: "(string \<Rightarrow> instant option) \<Rightarrow> bool \<Rightarrow> int \<Rightarrow> (audit_db, client_suggestion list) step" where
  "RecentClients lenient has_db limit =
     (if \<not> has_db then fail (ErrorString ''audit recent clients requires a database'')
      else if limit \<le> 0 then ret []
      else
        then_do (wrap_err (Wrapf ''query recent audit clients'') (sql_poll db_error)) (\<lambda>_.
        then_do (get_state (\<lambda>d. take (nat (scan_limit limit)) (seen_clients (event_rows d)))) (\<lambda>rows.
        then_do (lift_result (suggest lenient limit [] rows)) (\<lambda>suggestions.
        then_do (wrap_err (Wrapf ''read recent audit clients'') (sql_poll db_error)) (\<lambda>_.
          ret suggestions)))))"

section \<open>Projections\<close>

definition ProjectEvent :: "int \<Rightarrow> audit_event \<Rightarrow> audit_event" where
  "ProjectEvent level e =
     (let e = (if level \<ge> PrivacyLevelHideClient then e\<lparr>ev_ClientIP := AddrInvalid\<rparr> else e) in
      if level \<ge> PrivacyLevelHideClientAndDomain then e\<lparr>ev_QueryName := []\<rparr> else e)"

definition ProjectEvents :: "int \<Rightarrow> audit_event list \<Rightarrow> audit_event list" where
  "ProjectEvents level events = map (ProjectEvent level) events"

definition collapseNamedTotals :: "named_total list \<Rightarrow> named_total list" where
  "collapseNamedTotals ts =
     (if ts = [] then [] else [\<lparr>nt_Name = [], nt_Count = sum_list (map nt_Count ts)\<rparr>])"

definition hide_clients :: "summary \<Rightarrow> summary" where
  "hide_clients s = s
     \<lparr>sm_TopClients := collapseNamedTotals (sm_TopClients s),
      sm_TopBlockedClients := collapseNamedTotals (sm_TopBlockedClients s),
      sm_ClientTimeBuckets := map (\<lambda>b. b\<lparr>cb_Clients := collapseNamedTotals (cb_Clients b)\<rparr>) (sm_ClientTimeBuckets s)\<rparr>"

definition hide_domains :: "summary \<Rightarrow> summary" where
  "hide_domains s = s
     \<lparr>sm_TopQueriedDomains := collapseNamedTotals (sm_TopQueriedDomains s),
      sm_TopBlockedDomains := collapseNamedTotals (sm_TopBlockedDomains s)\<rparr>"

text \<open>The clones that the projection works on are values here.\<close>

definition ProjectSummary :: "int \<Rightarrow> summary \<Rightarrow> summary" where
  "ProjectSummary level s =
     (let s = (if level \<ge> PrivacyLevelHideClient then hide_clients s else s) in
      if level \<ge> PrivacyLevelHideClientAndDomain then hide_domains s else s)"

end
