(* ===== verification/Audit_Reports.thy ===== *)
theory Audit_Reports
  imports Audit_Analytics
begin

text \<open>
  What the analytics report: the time buckets count the events by their instants, the ranking lists name the most frequent
  values, the totals agree with the log they are rebuilt from, and the projections depend on nothing that they hide.
\<close>

section \<open>Time buckets\<close>

lemma bucket_start_Suc: "bucket_start so i + so_BucketInterval so = bucket_start so (Suc i)"
  by (simp add: bucket_start_def algebra_simps)

lemma whole_second_diff:
  "a mod second_ns = 0 \<Longrightarrow> b mod second_ns = 0 \<Longrightarrow> (a - b) mod second_ns = 0 \<and> (a + b) mod second_ns = 0"
  by (metis mod_0_imp_dvd dvd_diff dvd_add dvd_imp_mod_0)

lemma Truncate_whole:
  assumes "0 < d" and "d mod second_ns = 0"
  shows "Truncate d t mod second_ns = 0"
proof -
  define K where "K = epoch_days * 86400 * second_ns"
  have K: "K mod second_ns = 0" by (simp add: K_def)
  have "Truncate d t = (t + K) div d * d - K"
    using assms(1) div_mult_mod_eq [of "t + K" d] by (simp add: Truncate_def K_def algebra_simps)
  moreover have "((t + K) div d * d) mod second_ns = 0" using assms(2) by (simp add: mod_0_imp_dvd dvd_imp_mod_0)
  ultimately show ?thesis using whole_second_diff K by simp
qed

lemma bucket_start_whole:
  assumes "0 < so_BucketInterval so" and "so_BucketInterval so mod second_ns = 0"
  shows "bucket_start so i mod second_ns = 0"
proof -
  have m: "(n * so_BucketInterval so) mod second_ns = 0" for n using assms(2) by (simp add: mod_0_imp_dvd dvd_imp_mod_0)
  show ?thesis unfolding bucket_start_def
    using whole_second_diff Truncate_whole [OF assms] m assms(2) by simp
qed

lemma between_instants:
  assumes "row_at r t" and "in_range a" and "in_range b" and "a mod second_ns = 0" and "b mod second_ns = 0"
  shows "between a b r \<longleftrightarrow> a \<le> t \<and> t < b"
  using boundary_exact [OF assms(4), of t] boundary_exact [OF assms(5), of t] assms(1-3)
  by (auto simp: between_def row_at_def)

lemma count_between:
  assumes "list_all2 row_at rows ts" and "in_range a" and "in_range b" and "a mod second_ns = 0" and "b mod second_ns = 0"
  shows "length (filter (between a b) rows) = length (filter (\<lambda>t. a \<le> t \<and> t < b) ts)"
  using assms(1) by (induction rule: list_all2_induct) (simp_all add: between_instants [OF _ assms(2-5)])

text \<open>
  C29: The buckets of the summary count the events by their instants: when the interval is a whole number of seconds, bucket
  \<open>i\<close> starts where bucket \<open>i - 1\<close> ends, its total is the number of events from its start to before its end, and the
  last bucket holds the present.
\<close>

theorem time_buckets_count_instants:
  assumes "timeBuckets so d = (Inr buckets, d')" and "list_all2 row_at (event_rows d) ts"
    and "0 < so_BucketInterval so" and "so_BucketInterval so mod second_ns = 0" and "0 < so_BucketCount so"
    and "so_Now so = Some now" and "\<And>i. i \<le> nat (so_BucketCount so) \<Longrightarrow> in_range (bucket_start so i)"
  shows "map tb_Total buckets =
      map (\<lambda>i. int (length (filter (\<lambda>t. bucket_start so i \<le> t \<and> t < bucket_start so (Suc i)) ts))) [0..<nat (so_BucketCount so)] \<and>
    map tb_Start buckets = map (bucket_start so) [0..<nat (so_BucketCount so)] \<and>
    map tb_End buckets = map (bucket_start so) [1..<Suc (nat (so_BucketCount so))] \<and>
    tb_Start (last buckets) \<le> now \<and> now < tb_End (last buckets)"
proof -
  let ?n = "nat (so_BucketCount so)"
  have b: "buckets = map (time_bucket_of so (event_rows d)) [0..<?n]"
    using assms(1) by (auto simp: timeBuckets_def event_rows_def dest: sql_query_ok)
  have n: "0 < ?n" using assms(5) by simp
  have "tb_Total (time_bucket_of so (event_rows d) i) = int (length (filter (\<lambda>t. bucket_start so i \<le> t \<and> t < bucket_start so (Suc i)) ts))"
    if "i < ?n" for i
    using count_between [OF assms(2), of "bucket_start so i" "bucket_start so (Suc i)"] assms(7) bucket_start_whole [OF assms(3,4)] that
    by (simp add: time_bucket_of_def Let_def bucket_start_Suc)
  then have 1: "map tb_Total buckets =
      map (\<lambda>i. int (length (filter (\<lambda>t. bucket_start so i \<le> t \<and> t < bucket_start so (Suc i)) ts))) [0..<?n]"
    by (simp add: b)
  have 2: "map tb_Start buckets = map (bucket_start so) [0..<?n]"
    by (simp add: b time_bucket_of_def Let_def)
  have 3: "map tb_End buckets = map (bucket_start so) [1..<Suc ?n]"
    by (simp add: b time_bucket_of_def Let_def bucket_start_Suc map_Suc_upt [symmetric] comp_def del: upt_Suc)
  have last: "last buckets = time_bucket_of so (event_rows d) (?n - 1)" using n by (simp add: b last_map)
  have start: "bucket_start so (?n - 1) = Truncate (so_BucketInterval so) now"
    using n assms(6) by (simp add: bucket_start_def of_nat_diff algebra_simps)
  have "Truncate (so_BucketInterval so) now \<le> now" "now < Truncate (so_BucketInterval so) now + so_BucketInterval so"
    using assms(3) by (simp_all add: Truncate_def)
  then have 4: "tb_Start (last buckets) \<le> now" "now < tb_End (last buckets)"
    unfolding last by (simp_all only: time_bucket_of_def Let_def start time_bucket.select_convs)
  show ?thesis using 1 2 3 4 by blast
qed

definition demo_options :: summary_options where
  "demo_options = \<lparr>so_Since = None, so_TopLimit = 10, so_BucketCount = 2, so_BucketInterval = 3600 * second_ns,
     so_Now = Some (4000 * second_ns)\<rparr>"

lemma sample_rows: "in_range s \<Longrightarrow> in_range t \<Longrightarrow> list_all2 row_at (event_rows (sample_db [s, t])) [s, t]"
  by (simp add: event_rows_def sample_db_def sample_row_def row_at_def event_row_def set_row_id_def stamped_def)

theorem time_buckets_count_instants_witness:
  "\<exists>buckets d'. timeBuckets demo_options (sample_db [10 * second_ns, 3700 * second_ns]) = (Inr buckets, d') \<and>
    map tb_Total buckets = [1, 1]"
proof -
  let ?d = "sample_db [10 * second_ns, 3700 * second_ns]"
  obtain buckets where b: "timeBuckets demo_options ?d = (Inr buckets, ?d)"
    by (simp add: timeBuckets_def sample_db_ok)
  have ts: "list_all2 row_at (event_rows ?d) [10 * second_ns, 3700 * second_ns]"
    by (rule sample_rows) code_simp+
  have starts: "bucket_start demo_options 0 = 0" "bucket_start demo_options 1 = 3600 * second_ns" "bucket_start demo_options 2 = 7200 * second_ns"
    by code_simp+
  have "in_range 0" "in_range (3600 * second_ns)" "in_range (7200 * second_ns)" by code_simp+
  then have range: "in_range (bucket_start demo_options i)" if "i \<le> nat (so_BucketCount demo_options)" for i
    using that starts by (cases "i = 0"; cases "i = 1"; cases "i = 2") (auto simp: demo_options_def)
  have "map tb_Total buckets = [1, 1]"
    using time_buckets_count_instants [OF b ts _ _ _ _ range] starts
    by (simp add: demo_options_def upt_rec second_ns_def numeral_2_eq_2)
  then show ?thesis using b by (intro exI conjI)
qed

section \<open>Ranking lists\<close>

lemma set_grouped: "(k, n) \<in> set (grouped key rows) \<longleftrightarrow> k \<in> key ` set rows \<and> n = count_by key k rows"
  by (auto simp: grouped_def)

lemma sorted_take_drop: "sorted (map f xs) \<Longrightarrow> x \<in> set (take n xs) \<Longrightarrow> y \<in> set (drop n xs) \<Longrightarrow> f x \<le> f y"
proof -
  assume "sorted (map f xs)" and m: "x \<in> set (take n xs)" "y \<in> set (drop n xs)"
  then have "sorted (map f (take n xs) @ map f (drop n xs))" by (simp flip: map_append)
  then show ?thesis using m by (simp add: sorted_append)
qed

lemma top_grouped:
  fixes key :: "'r \<Rightarrow> 'k::linorder"
  assumes "(k, n) \<in> set (take L (grouped key rows))" and "x \<in> set rows"
    and "key x \<notin> fst ` set (take L (grouped key rows))"
  shows "n = count_by key k rows" and "count_by key (key x) rows \<le> n"
proof -
  have "(k, n) \<in> set (grouped key rows)" using assms(1) by (rule in_set_takeD)
  then show "n = count_by key k rows" by (simp add: set_grouped)
  have "(key x, count_by key (key x) rows) \<in> set (grouped key rows)" using assms(2) by (simp add: set_grouped)
  then have "(key x, count_by key (key x) rows) \<in> set (take L (grouped key rows)) \<union> set (drop L (grouped key rows))"
    by (metis append_take_drop_id set_append)
  then have dropped: "(key x, count_by key (key x) rows) \<in> set (drop L (grouped key rows))" using assms(3) by force
  have "sorted (map (\<lambda>(k, n). (- n, k)) (grouped key rows))" by (simp add: grouped_def)
  from sorted_take_drop [OF this assms(1) dropped] show "count_by key (key x) rows \<le> n" by auto
qed

lemma named_totals_rank:
  assumes "namedTotals p key since limit d = (Inr tops, d')"
    and "rows = filter p (rows_since since (event_rows d))"
  shows "length tops \<le> nat limit" and "c \<in> set tops \<Longrightarrow> nt_Count c = count_by key (nt_Name c) rows"
    and "c \<in> set tops \<Longrightarrow> x \<in> set rows \<Longrightarrow> key x \<notin> nt_Name ` set tops \<Longrightarrow> count_by key (key x) rows \<le> nt_Count c"
proof -
  have tops: "tops = map named (take (nat limit) (grouped key rows))"
    using assms by (auto simp: namedTotals_def event_rows_def dest: sql_query_ok)
  show "length tops \<le> nat limit" by (simp add: tops)
  have names: "nt_Name ` set tops = fst ` set (take (nat limit) (grouped key rows))" by (simp add: tops named_def image_image)
  show "nt_Count c = count_by key (nt_Name c) rows" if "c \<in> set tops"
    using that in_set_takeD [of _ "nat limit" "grouped key rows"] by (auto simp: tops named_def set_grouped)
  show "count_by key (key x) rows \<le> nt_Count c" if "c \<in> set tops" "x \<in> set rows" "key x \<notin> nt_Name ` set tops"
    using that top_grouped(2) [of _ _ "nat limit" key rows x] unfolding names by (auto simp: tops named_def)
qed

lemma reads_summary_parts:
  "reads (QueryTotals True)" "reads (actionTotals since)" "reads (cacheStatusTotals since)" "reads (namedTotals p key since limit)"
  "reads (timeBuckets so)" "reads (clientTimeBuckets so tops totals)"
  unfolding QueryTotals_def actionTotals_def cacheStatusTotals_def namedTotals_def timeBuckets_def clientTimeBuckets_def
  by (auto intro!: reads_rules)

lemma QuerySummary_tops:
  assumes "QuerySummary True clock so d = (Inr s, d')" and "so' = normalizeSummaryOptions clock so"
  obtains d1 d1' d2 d2' where "db_tables d1 = db_tables d" and "db_tables d2 = db_tables d"
    and "namedTotals (\<lambda>_. True) ar_query_name (the (so_Since so')) (so_TopLimit so') d1 = (Inr (sm_TopQueriedDomains s), d1')"
    and "namedTotals is_blocked ar_query_name (the (so_Since so')) (so_TopLimit so') d2 = (Inr (sm_TopBlockedDomains s), d2')"
proof -
  obtain tt xa xc tq tb e1 e2 e3 e4 e5 where
    "QueryTotals True d = (Inr tt, e1)" "actionTotals (the (so_Since so')) e1 = (Inr xa, e2)"
    "cacheStatusTotals (the (so_Since so')) e2 = (Inr xc, e3)"
    and 4: "namedTotals (\<lambda>_. True) ar_query_name (the (so_Since so')) (so_TopLimit so') e3 = (Inr tq, e4)"
    and 5: "namedTotals is_blocked ar_query_name (the (so_Since so')) (so_TopLimit so') e4 = (Inr tb, e5)"
    and "sm_TopQueriedDomains s = tq" "sm_TopBlockedDomains s = tb"
    using assms by (auto simp: QuerySummary_def Let_def then_do_eq_Inr)
  moreover from this have "db_tables e3 = db_tables d" "db_tables e4 = db_tables d"
    by (simp_all add: readsD [OF reads_summary_parts(1)] readsD [OF reads_summary_parts(2)] readsD [OF reads_summary_parts(3)]
      readsD [OF reads_summary_parts(4)])
  ultimately show thesis using that by blast
qed

definition ranks :: "named_total list \<Rightarrow> ('r \<Rightarrow> string) \<Rightarrow> 'r list \<Rightarrow> bool" where
  "ranks tops key rows \<longleftrightarrow>
     (\<forall>c \<in> set tops. nt_Count c = count_by key (nt_Name c) rows \<and>
       (\<forall>r \<in> set rows. key r \<notin> nt_Name ` set tops \<longrightarrow> count_by key (key r) rows \<le> nt_Count c))"

text \<open>
  The summary names the most frequent domains: each of the listed domains, queried or blocked, carries the number of its
  events since the start of the window, no domain that is left out has more, and there are at most as many as
  the limit, which is between 1 and 100.
\<close>

theorem summary_ranks_domains:
  assumes "QuerySummary True clock so d = (Inr s, d')" and "so' = normalizeSummaryOptions clock so"
    and "window = rows_since (the (so_Since so')) (event_rows d)"
  shows "ranks (sm_TopQueriedDomains s) ar_query_name window \<and> ranks (sm_TopBlockedDomains s) ar_query_name (filter is_blocked window) \<and>
    length (sm_TopQueriedDomains s) \<le> nat (so_TopLimit so') \<and> length (sm_TopBlockedDomains s) \<le> nat (so_TopLimit so') \<and>
    0 < so_TopLimit so' \<and> so_TopLimit so' \<le> 100"
  using assms(1,2)
proof (cases rule: QuerySummary_tops)
  case (1 d1 d1' d2 d2')
  have w: "event_rows d1 = event_rows d" "event_rows d2 = event_rows d" using 1(1,2) by (simp_all add: event_rows_def)
  have "0 < so_TopLimit so'" "so_TopLimit so' \<le> 100"
    unfolding assms(2) by (simp_all add: normalizeSummaryOptions_def Let_def defaultSummaryTopLimit_def)
  then show ?thesis
    using named_totals_rank [OF 1(3) refl, unfolded w] named_totals_rank [OF 1(4) refl, unfolded w] assms(3)
    by (auto simp: ranks_def)
qed

lemma client_buckets_no_fault:
  "db_faults d = [] \<Longrightarrow> \<exists>bs. clientTimeBuckets so tops totals d = (Inr bs, d)"
  by (simp add: clientTimeBuckets_def)

lemma summary_no_fault:
  assumes "db_faults d = []" shows "\<exists>s. QuerySummary True clock so d = (Inr s, d)"
proof -
  obtain bs where "\<And>so tops totals. clientTimeBuckets so tops totals d = (Inr (bs so tops totals), d)"
    using client_buckets_no_fault [OF assms] by metis
  then show ?thesis
    using assms by (simp add: QuerySummary_def Let_def then_do_def QueryTotals_def actionTotals_def cacheStatusTotals_def namedTotals_def timeBuckets_def)
qed

theorem summary_ranks_domains_witness:
  "\<exists>s. QuerySummary True 0 demo_options (sample_db [10 * second_ns, 3700 * second_ns]) = (Inr s, sample_db [10 * second_ns, 3700 * second_ns]) \<and>
    ranks (sm_TopQueriedDomains s) ar_query_name
      (rows_since (the (so_Since (normalizeSummaryOptions 0 demo_options))) (event_rows (sample_db [10 * second_ns, 3700 * second_ns])))"
proof -
  let ?d = "sample_db [10 * second_ns, 3700 * second_ns]"
  obtain s where s: "QuerySummary True 0 demo_options ?d = (Inr s, ?d)" using summary_no_fault sample_db_ok(2) by blast
  show ?thesis by (intro exI conjI, rule s, rule conjunct1 [OF summary_ranks_domains [OF s refl refl]])
qed

section \<open>Totals\<close>

lemma foldl_add_total:
  "foldl add_total s ts = \<lparr>tt_TotalQueries = tt_TotalQueries s + sum_list (map at_count ts),
     tt_BlockedQueries = tt_BlockedQueries s + total_of ''block'' ts, tt_AllowedQueries = tt_AllowedQueries s + total_of ''allow'' ts\<rparr>"
  by (induction ts arbitrary: s) (auto simp: add_total_def Let_def total_of_def)

lemma sum_counts: "finite A \<Longrightarrow> key ` set rows \<subseteq> A \<Longrightarrow> (\<Sum>k\<in>A. count_by key k rows) = int (length rows)"
proof (induction rows)
  case (Cons r rows)
  have "count_by key k (r # rows) = (if k = key r then 1 else 0) + count_by key k rows" for k
    by (simp add: count_by_def)
  then show ?case using Cons by (simp add: sum.distrib)
qed (simp add: count_by_def)

text \<open>
  Rebuilt totals are the totals of the log: after \<open>RebuildTotals\<close> the all-time counters are the number of events in the
  log, of the blocked ones and of the allowed ones.
\<close>

theorem rebuilt_totals_count_log:
  assumes "RebuildTotals True clock d = (Inr (), d1)" and "QueryTotals True d1 = (Inr t, d2)"
  shows "t = \<lparr>tt_TotalQueries = int (length (event_rows d)), tt_BlockedQueries = count_by ar_action ''block'' (event_rows d),
    tt_AllowedQueries = count_by ar_action ''allow'' (event_rows d)\<rparr> \<and> event_rows d1 = event_rows d"
proof -
  obtain e1 e2 where e: "db_tables e1 = db_tables d" "db_tables d1 = db_tables e2"
    and run: "then_do (wrap_err (Wrapf ''clear audit totals'') (sql_run (\<lambda>tb. Inr ((), tb\<lparr>au_totals := []\<rparr>)))) (\<lambda>_.
       wrap_err (Wrapf ''rebuild audit totals'')
         (sql_run (\<lambda>tb. Inr ((), tb\<lparr>au_totals := rebuilt_totals clock (t_rows (au_events tb))\<rparr>)))) e1 = (Inr (), e2)"
    using assms(1) by (auto simp: RebuildTotals_def elim!: sql_tx_cases)
  have d1: "db_tables d1 = (db_tables d)\<lparr>au_totals := rebuilt_totals clock (event_rows d)\<rparr>"
  proof -
    obtain e3 where 1: "sql_run (\<lambda>tb. Inr ((), tb\<lparr>au_totals := []\<rparr>)) e1 = (Inr (), e3)"
      and 2: "sql_run (\<lambda>tb. Inr ((), tb\<lparr>au_totals := rebuilt_totals clock (t_rows (au_events tb))\<rparr>)) e3 = (Inr (), e2)"
      using run by (auto simp: then_do_eq_Inr)
    have "db_tables e3 = (db_tables e1)\<lparr>au_totals := []\<rparr>" using sql_run_ok [OF 1] by simp
    then show ?thesis using sql_run_ok [OF 2] e by (simp add: event_rows_def)
  qed
  let ?ts = "rebuilt_totals clock (event_rows d)"
  have t: "t = foldl add_total zero_totals ?ts"
    using assms(2) d1 by (auto simp: QueryTotals_def then_do_eq_Inr dest!: sql_query_ok)
  have "sum_list (map at_count ?ts) = (\<Sum>k\<in>set (map ar_action (event_rows d)). count_by ar_action k (event_rows d))"
    by (simp add: rebuilt_totals_def comp_def sum_list_distinct_conv_sum_set)
  then have "sum_list (map at_count ?ts) = int (length (event_rows d))" using sum_counts [of "ar_action ` set (event_rows d)" ar_action "event_rows d"] by simp
  moreover have "total_of a ?ts = count_by ar_action a (event_rows d)" for a
  proof -
    have "total_of a ?ts = sum_list (map (\<lambda>k. count_by ar_action k (event_rows d)) (filter (\<lambda>k. k = a) (sort (remdups (map ar_action (event_rows d))))))"
      by (simp add: total_of_def rebuilt_totals_def filter_map comp_def)
    also have "\<dots> = (\<Sum>k\<in>{a} \<inter> ar_action ` set (event_rows d). count_by ar_action k (event_rows d))"
      by (simp add: sum_list_distinct_conv_sum_set) (rule sum.cong, auto)
    finally show ?thesis
      by (cases "a \<in> ar_action ` set (event_rows d)") (auto simp: count_by_def filter_empty_conv)
  qed
  ultimately show ?thesis using t d1 by (simp add: foldl_add_total zero_totals_def event_rows_def)
qed

theorem rebuilt_totals_count_log_witness:
  "\<exists>d1. RebuildTotals True 0 (sample_db [second_ns, 2 * second_ns]) = (Inr (), d1) \<and>
    QueryTotals True d1 = (Inr \<lparr>tt_TotalQueries = 2, tt_BlockedQueries = 0, tt_AllowedQueries = 2\<rparr>, d1)"
proof -
  let ?d = "sample_db [second_ns, 2 * second_ns]"
  obtain d1 where d1: "RebuildTotals True 0 ?d = (Inr (), d1)" and f: "db_faults d1 = []"
    by (simp add: RebuildTotals_def sql_tx_def then_do_def wrap_err_def sql_run_no_fault sample_db_def)
  obtain t where t: "QueryTotals True d1 = (Inr t, d1)" using f by (simp add: QueryTotals_def then_do_def)
  have "t = \<lparr>tt_TotalQueries = 2, tt_BlockedQueries = 0, tt_AllowedQueries = 2\<rparr>"
    using rebuilt_totals_count_log [OF d1 t]
    by (simp add: event_rows_def sample_db_def sample_row_def event_row_def set_row_id_def count_by_def)
  then show ?thesis using d1 t by (intro exI conjI) simp_all
qed

section \<open>Projections\<close>

text \<open>Two values that differ in nothing but the clients, or nothing but the domains.\<close>

definition rename_named :: "(string \<Rightarrow> string) \<Rightarrow> named_total \<Rightarrow> named_total" where
  "rename_named f c = c\<lparr>nt_Name := f (nt_Name c)\<rparr>"

definition rename_clients :: "(string \<Rightarrow> string) \<Rightarrow> summary \<Rightarrow> summary" where
  "rename_clients f s = s
     \<lparr>sm_TopClients := map (rename_named f) (sm_TopClients s),
      sm_TopBlockedClients := map (rename_named f) (sm_TopBlockedClients s),
      sm_ClientTimeBuckets := map (\<lambda>b. b\<lparr>cb_Clients := map (rename_named f) (cb_Clients b)\<rparr>) (sm_ClientTimeBuckets s)\<rparr>"

definition rename_domains :: "(string \<Rightarrow> string) \<Rightarrow> summary \<Rightarrow> summary" where
  "rename_domains f s = s
     \<lparr>sm_TopQueriedDomains := map (rename_named f) (sm_TopQueriedDomains s),
      sm_TopBlockedDomains := map (rename_named f) (sm_TopBlockedDomains s)\<rparr>"

lemma collapse_rename [simp]: "collapseNamedTotals (map (rename_named f) ts) = collapseNamedTotals ts"
  by (simp add: collapseNamedTotals_def rename_named_def comp_def)

text \<open>
  C30: The projections reveal nothing that they hide: at the level that hides clients, and above it, the projected events and the
  projected summary are the same whatever the clients are, and at the level that also hides domains they are
  the same whatever the queried names are.
\<close>

theorem projection_hides:
  assumes "PrivacyLevelHideClient \<le> level"
  shows "ProjectEvents level (map (\<lambda>e. e\<lparr>ev_ClientIP := client e\<rparr>) events) = ProjectEvents level events \<and>
    ProjectSummary level (rename_clients f s) = ProjectSummary level s \<and>
    (PrivacyLevelHideClientAndDomain \<le> level \<longrightarrow>
      ProjectEvents level (map (\<lambda>e. e\<lparr>ev_QueryName := name e\<rparr>) events) = ProjectEvents level events \<and>
      ProjectSummary level (rename_domains f s) = ProjectSummary level s)"
proof -
  have "ProjectSummary level (rename_clients f s) = ProjectSummary level s"
    using assms by (simp add: ProjectSummary_def rename_clients_def hide_clients_def hide_domains_def Let_def comp_def)
  moreover have "ProjectSummary level (rename_domains f s) = ProjectSummary level s" if "PrivacyLevelHideClientAndDomain \<le> level"
    using assms that by (simp add: ProjectSummary_def rename_domains_def hide_clients_def hide_domains_def Let_def)
  ultimately show ?thesis
    using assms by (simp add: ProjectEvents_def ProjectEvent_def Let_def)
qed

theorem projection_hides_witness:
  "ProjectEvents 2 [(demo_event 1 ''a.test.'')\<lparr>ev_ClientIP := Addr4 10 0 0 9\<rparr>] = ProjectEvents 2 [demo_event 1 ''a.test.''] \<and>
    ProjectEvents 2 [(demo_event 1 ''a.test.'')\<lparr>ev_QueryName := ''b.test.''\<rparr>] = ProjectEvents 2 [demo_event 1 ''a.test.'']"
  using projection_hides [of 2 "\<lambda>_. Addr4 10 0 0 9" "[demo_event 1 ''a.test.'']" id _ "\<lambda>_. ''b.test.''"]
  by (simp add: PrivacyLevelHideClient_def PrivacyLevelHideClientAndDomain_def)

end
