(* ===== verification/Audit_Cache.thy ===== *)
theory Audit_Cache
  imports Audit_Reports
begin

text \<open>
  \<open>internal/audit/summary_cache.go\<close>: one entry for the default summary. A pass of the loop of \<open>get\<close> and the end of a load are the two
  sections that the mutex protects; a step relation interleaves them with invalidations. The auxiliary variables of the relation
  count the invalidations and remember which load filled the entry.
\<close>

section \<open>The sections under the mutex\<close>

definition summaryCacheTTL :: duration where
  "summaryCacheTTL = 15 * second_ns"

record summary_cache =
  ca_value :: summary
  ca_expires :: time
  ca_flight :: bool
  ca_generation :: "64 word"

definition zero_summary :: summary where
  "zero_summary = \<lparr>sm_TotalQueryCount = 0, sm_TotalsByAction = [], sm_TotalsByCache = [], sm_TopQueriedDomains = [],
     sm_TopBlockedDomains = [], sm_TopClients = [], sm_TopBlockedClients = [], sm_RecentTimeBuckets = [], sm_ClientTimeBuckets = []\<rparr>"

definition zero_cache :: summary_cache where
  "zero_cache = \<lparr>ca_value = zero_summary, ca_expires = None, ca_flight = False, ca_generation = 0\<rparr>"

text \<open>What a pass of the loop finds: an error of the context, a value, a load of somebody else to wait for, or its turn to load.\<close>

datatype cache_answer = CacheError go_error | Hit summary | WaitForFlight | StartLoad "64 word"

definition cache_look :: "go_error option \<Rightarrow> instant \<Rightarrow> summary_cache \<Rightarrow> cache_answer \<times> summary_cache" where
  "cache_look cancelled now c =
     (case cancelled of
        Some e \<Rightarrow> (CacheError e, c)
      | None \<Rightarrow>
          if (case ca_expires c of None \<Rightarrow> False | Some e \<Rightarrow> now < e) then (Hit (ProjectSummary PrivacyLevelFull (ca_value c)), c)
          else if ca_flight c then (WaitForFlight, c)
          else (StartLoad (ca_generation c), c\<lparr>ca_flight := True\<rparr>))"

definition cache_loaded :: "instant \<Rightarrow> 64 word \<Rightarrow> summary result \<Rightarrow> summary_cache \<Rightarrow> summary_cache" where
  "cache_loaded now generation loaded c =
     (let c = (case loaded of
          Inr v \<Rightarrow>
            if generation = ca_generation c
            then c\<lparr>ca_value := ProjectSummary PrivacyLevelFull v, ca_expires := Some (now + summaryCacheTTL)\<rparr> else c
        | Inl _ \<Rightarrow> c)
      in c\<lparr>ca_flight := False\<rparr>)"

definition cache_invalidate :: "summary_cache \<Rightarrow> summary_cache" where
  "cache_invalidate c = c\<lparr>ca_generation := ca_generation c + 1, ca_expires := None, ca_value := zero_summary\<rparr>"

section \<open>Interleavings\<close>

record cache_world =
  cw_cache :: summary_cache
  cw_load :: "(64 word \<times> nat) option"
  cw_invalidations :: nat
  cw_origin :: "(summary \<times> nat) option"

definition cache_start :: cache_world where
  "cache_start = \<lparr>cw_cache = zero_cache, cw_load = None, cw_invalidations = 0, cw_origin = None\<rparr>"

inductive cache_step :: "cache_world \<Rightarrow> cache_world \<Rightarrow> bool" where
  look: "cache_look cancelled now (cw_cache w) = (StartLoad g, c) \<Longrightarrow>
    cache_step w (w\<lparr>cw_cache := c, cw_load := Some (g, cw_invalidations w)\<rparr>)"
| loaded: "cw_load w = Some (g, e) \<Longrightarrow>
    cache_step w (w\<lparr>cw_cache := cache_loaded now g r (cw_cache w), cw_load := None,
      cw_origin := (case r of Inr v \<Rightarrow> if g = ca_generation (cw_cache w) then Some (v, e) else cw_origin w | Inl _ \<Rightarrow> cw_origin w)\<rparr>)"
| invalidate: "cache_step w (w\<lparr>cw_cache := cache_invalidate (cw_cache w), cw_invalidations := cw_invalidations w + 1\<rparr>)"

inductive cache_reachable :: "cache_world \<Rightarrow> bool" where
  start: "cache_reachable cache_start"
| step: "cache_reachable w \<Longrightarrow> cache_step w w' \<Longrightarrow> cache_reachable w'"

definition cache_ok :: "cache_world \<Rightarrow> bool" where
  "cache_ok w \<longleftrightarrow>
     ca_generation (cw_cache w) = of_nat (cw_invalidations w) \<and>
     (ca_flight (cw_cache w) \<longleftrightarrow> cw_load w \<noteq> None) \<and>
     (\<forall>g e. cw_load w = Some (g, e) \<longrightarrow> g = of_nat e \<and> e \<le> cw_invalidations w) \<and>
     (ca_expires (cw_cache w) \<noteq> None \<longrightarrow>
        (\<exists>v. cw_origin w = Some (v, cw_invalidations w) \<and> ca_value (cw_cache w) = ProjectSummary PrivacyLevelFull v))"

lemma of_nat_64_inj: "of_nat a = (of_nat b :: 64 word) \<Longrightarrow> a < 2 ^ 64 \<Longrightarrow> b < 2 ^ 64 \<Longrightarrow> a = b"
  by (simp add: word_of_nat_eq_iff take_bit_nat_eq_self)

lemma cache_step_ok: "cache_step w w' \<Longrightarrow> cache_ok w \<Longrightarrow> cw_invalidations w' < 2 ^ 64 \<Longrightarrow> cache_ok w'"
proof (induction rule: cache_step.induct)
  case (look cancelled now w g c)
  then show ?case by (auto simp: cache_ok_def cache_look_def split: option.splits if_splits)
next
  case (loaded w g e now r)
  then have e: "g = of_nat e" "e \<le> cw_invalidations w" "ca_generation (cw_cache w) = of_nat (cw_invalidations w)"
    by (auto simp: cache_ok_def)
  then have "g = ca_generation (cw_cache w) \<Longrightarrow> e = cw_invalidations w"
    using of_nat_64_inj [of e "cw_invalidations w"] loaded.prems(2) by simp
  then show ?case
    using loaded by (auto simp: cache_ok_def cache_loaded_def Let_def split: sum.splits)
next
  case (invalidate w)
  then show ?case by (auto simp: cache_ok_def cache_invalidate_def)
qed

lemma cache_step_mono: "cache_step w w' \<Longrightarrow> cw_invalidations w \<le> cw_invalidations w'"
  by (induction rule: cache_step.induct) simp_all

lemma cache_reachable_ok: "cache_reachable w \<Longrightarrow> cw_invalidations w < 2 ^ 64 \<Longrightarrow> cache_ok w"
proof (induction rule: cache_reachable.induct)
  case start
  show ?case by (simp add: cache_ok_def cache_start_def zero_cache_def)
next
  case (step w w')
  then show ?case using cache_step_ok cache_step_mono le_less_trans by blast
qed

text \<open>
  C31: The cache never answers with a summary from before an invalidation: in every interleaving of loads and fewer than
  \<open>2 ^ 64\<close> invalidations, a hit is the summary of a load that began after the last invalidation, and at most one load is
  under way.
\<close>

theorem cached_summary_is_current:
  assumes "cache_reachable w" and "cw_invalidations w < 2 ^ 64" and "cache_look None now (cw_cache w) = (Hit s, c)"
  shows "cw_origin w = Some (s, cw_invalidations w) \<and> (ca_flight (cw_cache w) \<longleftrightarrow> cw_load w \<noteq> None)"
proof -
  have "ProjectSummary PrivacyLevelFull v = v" for v
    by (simp add: ProjectSummary_def PrivacyLevelFull_def PrivacyLevelHideClient_def PrivacyLevelHideClientAndDomain_def)
  then show ?thesis
    using cache_reachable_ok [OF assms(1,2)] assms(3)
    by (auto simp: cache_ok_def cache_look_def split: if_splits option.splits)
qed

definition demo_summary :: summary where
  "demo_summary = zero_summary\<lparr>sm_TotalQueryCount := 3\<rparr>"

theorem cached_summary_is_current_witness:
  "\<exists>w c. cache_reachable w \<and> cache_look None 5 (cw_cache w) = (Hit demo_summary, c) \<and>
    cw_origin w = Some (demo_summary, cw_invalidations w) \<and> cw_invalidations w = 1"
proof -
  define w1 where "w1 = cache_start\<lparr>cw_cache := cache_invalidate zero_cache, cw_invalidations := 1\<rparr>"
  have "cache_step cache_start w1" using cache_step.invalidate [of cache_start] by (simp add: w1_def cache_start_def)
  then have r1: "cache_reachable w1" using cache_reachable.intros by blast
  define w2 where "w2 = w1\<lparr>cw_cache := (cw_cache w1)\<lparr>ca_flight := True\<rparr>, cw_load := Some (1, 1)\<rparr>"
  have "cache_step w1 w2" using cache_step.look [of None 0 w1 1 "(cw_cache w1)\<lparr>ca_flight := True\<rparr>"]
    by (simp add: w1_def w2_def cache_look_def cache_invalidate_def zero_cache_def)
  then have r2: "cache_reachable w2" using r1 cache_reachable.step by blast
  define w3 where "w3 = w2\<lparr>cw_cache := cache_loaded 0 1 (Inr demo_summary) (cw_cache w2), cw_load := None, cw_origin := Some (demo_summary, 1)\<rparr>"
  have "cache_step w2 w3" using cache_step.loaded [where w = w2 and g = 1 and e = 1 and now = 0 and r = "Inr demo_summary"]
    by (simp add: w1_def w2_def w3_def cache_invalidate_def zero_cache_def)
  then have r3: "cache_reachable w3" using r2 cache_reachable.step by blast
  have hit: "cache_look None 5 (cw_cache w3) = (Hit demo_summary, cw_cache w3)"
    by (simp add: w1_def w2_def w3_def cache_look_def cache_loaded_def cache_invalidate_def zero_cache_def summaryCacheTTL_def second_ns_def
      ProjectSummary_def PrivacyLevelFull_def PrivacyLevelHideClient_def PrivacyLevelHideClientAndDomain_def)
  have n: "cw_invalidations w3 = 1" by (simp add: w1_def w2_def w3_def)
  show ?thesis using cached_summary_is_current [OF r3 _ hit] r3 hit n by (intro exI conjI) simp_all
qed

end
