(* ===== verification/Audit_Sink.thy ===== *)
theory Audit_Sink
  imports Audit_Cache
begin

text \<open>
  \<open>SQLiteSink\<close>: the queue between the callers of \<open>Record\<close> and the goroutine \<open>run\<close>, which gathers the events into batches, stores them,
  removes expired ones and, once \<open>Close\<close> was called, drains the queue and stops. The operations are functions on the sink; the
  relation \<open>sink_step\<close> interleaves them. \<open>Record\<close> is two steps, the test of \<open>closed\<close> and the send, because a \<open>Close\<close> can come
  between them. Auxiliary variables record which events were accepted, refused, stored and lost.
\<close>

section \<open>The sink\<close>

datatype worker_mode = Selecting | Draining | Stopped

record sqlite_sink =
  sk_cache :: summary_cache
  sk_db :: audit_db
  sk_events :: "audit_event list"
  sk_queueSize :: int
  sk_done :: bool
  sk_batchSize :: int
  sk_flushInterval :: duration
  sk_cleanupInterval :: duration
  sk_dropped :: "64 word"
  sk_closed :: bool
  sk_err :: "go_error option"
  sk_batch :: "audit_event list"
  sk_mode :: worker_mode

definition WithQueueSize :: "int \<Rightarrow> sqlite_sink \<Rightarrow> sqlite_sink" where
  "WithQueueSize n s = (if n > 0 then s\<lparr>sk_events := [], sk_queueSize := n\<rparr> else s)"

definition WithBatchSize :: "int \<Rightarrow> sqlite_sink \<Rightarrow> sqlite_sink" where
  "WithBatchSize n s = (if n > 0 then s\<lparr>sk_batchSize := n\<rparr> else s)"

definition WithFlushInterval :: "duration \<Rightarrow> sqlite_sink \<Rightarrow> sqlite_sink" where
  "WithFlushInterval interval s = (if interval > 0 then s\<lparr>sk_flushInterval := interval\<rparr> else s)"

definition WithRetentionCleanupInterval :: "duration \<Rightarrow> sqlite_sink \<Rightarrow> sqlite_sink" where
  "WithRetentionCleanupInterval interval s = s\<lparr>sk_cleanupInterval := interval\<rparr>"

definition NewSQLiteSink :: "audit_db option \<Rightarrow> (sqlite_sink \<Rightarrow> sqlite_sink) list \<Rightarrow> sqlite_sink result" where
  "NewSQLiteSink db opts =
     (case db of
        None \<Rightarrow> Inl (ErrorString ''audit sqlite sink requires a database'')
      | Some d \<Rightarrow>
          Inr (foldl (\<lambda>s opt. opt s)
            \<lparr>sk_cache = zero_cache, sk_db = d, sk_events = [], sk_queueSize = 1024, sk_done = False,
             sk_batchSize = 100, sk_flushInterval = second_ns, sk_cleanupInterval = 3600 * second_ns, sk_dropped = 0,
             sk_closed = False, sk_err = None, sk_batch = [], sk_mode = Selecting\<rparr> opts))"

definition drop_event :: "sqlite_sink \<Rightarrow> sqlite_sink" where
  "drop_event s = s\<lparr>sk_dropped := sk_dropped s + 1\<rparr>"

definition timestamped :: "instant \<Rightarrow> audit_event \<Rightarrow> audit_event" where
  "timestamped clock event = (if ev_Timestamp event = None then event\<lparr>ev_Timestamp := Some clock\<rparr> else event)"

text \<open>The non-blocking send of \<open>Record\<close>.\<close>

definition record_send :: "audit_event \<Rightarrow> sqlite_sink \<Rightarrow> sqlite_sink" where
  "record_send event s =
     (if int (length (sk_events s)) < sk_queueSize s then s\<lparr>sk_events := sk_events s @ [event]\<rparr> else drop_event s)"

text \<open>\<open>Record\<close> without interruption.\<close>

definition sink_Record :: "instant \<Rightarrow> audit_event \<Rightarrow> sqlite_sink \<Rightarrow> sqlite_sink" where
  "sink_Record clock event s = (if sk_closed s then drop_event s else record_send (timestamped clock event) s)"

definition setError :: "go_error \<Rightarrow> sqlite_sink \<Rightarrow> sqlite_sink" where
  "setError e s = (if sk_err s = None then s\<lparr>sk_err := Some e\<rparr> else s)"

definition sink_flush :: "instant \<Rightarrow> string list \<Rightarrow> sqlite_sink \<Rightarrow> sqlite_sink" where
  "sink_flush clock order s =
     (if sk_batch s = [] then s
      else (case insertBatch clock order (sk_batch s) (sk_db s) of
          (Inl e, d) \<Rightarrow> setError e (s\<lparr>sk_db := d, sk_batch := []\<rparr>)
        | (Inr _, d) \<Rightarrow> s\<lparr>sk_db := d, sk_batch := []\<rparr>))"

definition sink_CleanupExpired :: "instant \<Rightarrow> time \<Rightarrow> sqlite_sink \<Rightarrow> (int \<times> go_error option) \<times> sqlite_sink" where
  "sink_CleanupExpired clock now s =
     (case CleanupExpired True clock now (sk_db s) of
        ((deleted, err), d) \<Rightarrow>
          ((deleted, err), s\<lparr>sk_db := d, sk_cache := (if deleted > 0 then cache_invalidate (sk_cache s) else sk_cache s)\<rparr>))"

definition sink_CleanupExpiredBatch :: "instant \<Rightarrow> time \<Rightarrow> sqlite_sink \<Rightarrow> (int \<times> go_error option) \<times> sqlite_sink" where
  "sink_CleanupExpiredBatch clock now s =
     (case CleanupExpiredBatch True clock now (sk_db s) of
        ((deleted, err), d) \<Rightarrow>
          ((deleted, err), s\<lparr>sk_db := d, sk_cache := (if deleted > 0 then cache_invalidate (sk_cache s) else sk_cache s)\<rparr>))"

definition sink_cleanup :: "instant \<Rightarrow> sqlite_sink \<Rightarrow> sqlite_sink" where
  "sink_cleanup clock s =
     (case sink_CleanupExpiredBatch clock (Some clock) s of
        ((_, Some e), s) \<Rightarrow> setError e s
      | ((_, None), s) \<Rightarrow> s)"

definition sink_SetSettings :: "instant \<Rightarrow> settings \<Rightarrow> sqlite_sink \<Rightarrow> unit result \<times> sqlite_sink" where
  "sink_SetSettings clock st s =
     (case SetSettings True clock st (sk_db s) of
        (Inl e, d) \<Rightarrow> (Inl e, s\<lparr>sk_db := d\<rparr>)
      | (Inr _, d) \<Rightarrow> (Inr (), s\<lparr>sk_db := d, sk_cache := cache_invalidate (sk_cache s)\<rparr>))"

definition sink_Stats :: "sqlite_sink \<Rightarrow> audit_stats result \<times> sqlite_sink" where
  "sink_Stats s =
     (case QueryTotals True (sk_db s) of
        (Inl e, d) \<Rightarrow> (Inl e, s\<lparr>sk_db := d\<rparr>)
      | (Inr t, d) \<Rightarrow> (Inr \<lparr>ss_Totals = t, ss_DroppedEvents = sk_dropped s\<rparr>, s\<lparr>sk_db := d\<rparr>))"

section \<open>The worker\<close>

text \<open>An event is received: it joins the batch, and a full batch is stored.\<close>

definition sink_receive :: "instant \<Rightarrow> string list \<Rightarrow> sqlite_sink \<Rightarrow> sqlite_sink" where
  "sink_receive clock order s =
     (case sk_events s of
        [] \<Rightarrow> s
      | event # rest \<Rightarrow>
          let s = s\<lparr>sk_events := rest, sk_batch := sk_batch s @ [event]\<rparr> in
          if int (length (sk_batch s)) \<ge> sk_batchSize s then sink_flush clock order s else s)"

text \<open>What becomes of the events of a flush: those stored and those lost, because their transaction failed.\<close>

type_synonym outcome = "audit_event list \<times> audit_event list"

definition flush_outcome :: "instant \<Rightarrow> string list \<Rightarrow> sqlite_sink \<Rightarrow> outcome" where
  "flush_outcome clock order s =
     (if sk_batch s = [] then ([], [])
      else (case insertBatch clock order (sk_batch s) (sk_db s) of (Inl e, d) \<Rightarrow> ([], sk_batch s) | (Inr _, d) \<Rightarrow> (sk_batch s, [])))"

definition receive_outcome :: "instant \<Rightarrow> string list \<Rightarrow> sqlite_sink \<Rightarrow> outcome" where
  "receive_outcome clock order s =
     (case sk_events s of
        [] \<Rightarrow> ([], [])
      | event # rest \<Rightarrow>
          let s = s\<lparr>sk_events := rest, sk_batch := sk_batch s @ [event]\<rparr> in
          if int (length (sk_batch s)) \<ge> sk_batchSize s then flush_outcome clock order s else ([], []))"

text \<open>
  The iterations of the loop, one rule for each case of the two selects. Each flush walks the counts of the
  batch in an order of its own.
\<close>

inductive worker_step :: "sqlite_sink \<Rightarrow> outcome \<Rightarrow> sqlite_sink \<Rightarrow> bool" where
  receive: "sk_mode s = Selecting \<or> sk_mode s = Draining \<Longrightarrow> sk_events s = event # rest \<Longrightarrow> map_order (sk_batch s @ [event]) order \<Longrightarrow>
    worker_step s (receive_outcome clock order s) (sink_receive clock order s)"
| tick: "sk_mode s = Selecting \<Longrightarrow> map_order (sk_batch s) order \<Longrightarrow>
    worker_step s (flush_outcome clock order s) (sink_flush clock order s)"
| cleanup_tick: "sk_mode s = Selecting \<Longrightarrow> sk_cleanupInterval s > 0 \<Longrightarrow> map_order (sk_batch s) order \<Longrightarrow>
    worker_step s (flush_outcome clock order s) (sink_cleanup clock' (sink_flush clock order s))"
| see_done: "sk_mode s = Selecting \<Longrightarrow> sk_done s \<Longrightarrow> worker_step s ([], []) (s\<lparr>sk_mode := Draining\<rparr>)"
| drained: "sk_mode s = Draining \<Longrightarrow> sk_events s = [] \<Longrightarrow> map_order (sk_batch s) order \<Longrightarrow>
    worker_step s (flush_outcome clock order s) ((sink_flush clock order s)\<lparr>sk_mode := Stopped\<rparr>)"

inductive_cases worker_stepE: "worker_step s out s'"

text \<open>What \<open>Close\<close> returns once the worker has stopped.\<close>

definition close_result :: "sqlite_sink \<Rightarrow> unit result option" where
  "close_result s =
     (if sk_mode s = Stopped then Some (case sk_err s of None \<Rightarrow> Inr () | Some e \<Rightarrow> Inl e) else None)"

section \<open>Facts about the steps\<close>

lemma setError_fields [simp]:
  "sk_events (setError e s) = sk_events s" "sk_batch (setError e s) = sk_batch s" "sk_db (setError e s) = sk_db s"
  "sk_mode (setError e s) = sk_mode s" "sk_queueSize (setError e s) = sk_queueSize s" "sk_batchSize (setError e s) = sk_batchSize s"
  "sk_done (setError e s) = sk_done s" "sk_closed (setError e s) = sk_closed s" "sk_dropped (setError e s) = sk_dropped s"
  "sk_cleanupInterval (setError e s) = sk_cleanupInterval s"
  by (simp_all add: setError_def)

lemma flush_fields [simp]:
  "sk_events (sink_flush clock order s) = sk_events s" "sk_batch (sink_flush clock order s) = []"
  "sk_mode (sink_flush clock order s) = sk_mode s" "sk_queueSize (sink_flush clock order s) = sk_queueSize s"
  "sk_batchSize (sink_flush clock order s) = sk_batchSize s" "sk_done (sink_flush clock order s) = sk_done s"
  "sk_closed (sink_flush clock order s) = sk_closed s" "sk_dropped (sink_flush clock order s) = sk_dropped s"
  "sk_cleanupInterval (sink_flush clock order s) = sk_cleanupInterval s"
  by (simp_all add: sink_flush_def split: prod.split sum.split)

lemma cleanup_fields [simp]:
  "sk_events (sink_cleanup clock s) = sk_events s" "sk_batch (sink_cleanup clock s) = sk_batch s"
  "sk_mode (sink_cleanup clock s) = sk_mode s" "sk_queueSize (sink_cleanup clock s) = sk_queueSize s"
  "sk_batchSize (sink_cleanup clock s) = sk_batchSize s" "sk_done (sink_cleanup clock s) = sk_done s"
  "sk_closed (sink_cleanup clock s) = sk_closed s" "sk_dropped (sink_cleanup clock s) = sk_dropped s"
  by (simp_all add: sink_cleanup_def sink_CleanupExpiredBatch_def split: prod.split option.split)

section \<open>The database under the sink\<close>

text \<open>The totals of a database: what they were, and the events stored since.\<close>

definition log_ok :: "(string \<Rightarrow> int) \<Rightarrow> audit_event list \<Rightarrow> audit_db \<Rightarrow> bool" where
  "log_ok base events d \<longleftrightarrow>
     table_ok ar_id (au_events (db_tables d)) \<and> totals_ok (au_totals (db_tables d)) \<and>
     (\<forall>a. total_of a (au_totals (db_tables d)) = base a + int (action_count events a))"

lemma action_count_append [simp]: "action_count (xs @ ys) a = action_count xs a + action_count ys a"
  by (simp add: action_count_def)

lemma log_ok_insert:
  assumes "log_ok base events d" and "insertBatch clock order batch d = (r, d')" and "map_order batch order"
  shows "log_ok base (events @ (case r of Inl _ \<Rightarrow> [] | Inr _ \<Rightarrow> batch)) d'"
  using assms(2)
proof (cases rule: insertBatch_cases)
  case (error e)
  then show ?thesis using assms(1) by (simp add: log_ok_def)
next
  case stored
  then show ?thesis
    using assms(1) batch_totals [OF _ assms(3), of "db_tables d"] by (auto simp: log_ok_def batch_tables_def append_rows_ok)
qed

lemma log_ok_cleanup:
  assumes "log_ok base events d" and "CleanupExpiredBatch True clock now d = (r, d')"
  shows "log_ok base events d'"
proof -
  obtain x d1 where s: "SettingsFromDB True d = (x, d1)" by fastforce
  have "reads (SettingsFromDB True)"
    unfolding SettingsFromDB_def by (auto intro!: reads_rules split: option.split simp: Let_def)
  then have t: "db_tables d1 = db_tables d" using readsD s by blast
  show ?thesis
  proof (cases x)
    case (Inl e)
    then show ?thesis using assms s t by (simp add: CleanupExpiredBatch_def log_ok_def)
  next
    case (Inr st)
    then have c: "cleanupOlderThan True clock (st_RetentionDuration st) now (int cleanupBatchSize) d1 = (r, d')"
      using assms(2) s by (simp add: CleanupExpiredBatch_def)
    have ok: "table_ok ar_id (au_events (db_tables d1))" using assms(1) t by (simp add: log_ok_def)
    obtain n err where r: "r = (n, err)" by fastforce
    show ?thesis
    proof (cases "st_RetentionDuration st \<le> 0")
      case True
      then show ?thesis using c assms(1) t by (simp add: cleanupOlderThan_def log_ok_def)
    next
      case False
      then have "cleaned (format_RFC3339Nano (stamped clock now - st_RetentionDuration st)) d1 d'"
        using c cleanup_loop_spec(1) [OF _ ok] by (simp add: cleanupOlderThan_def r)
      then show ?thesis using assms(1) t cleaned_ok [OF _ ok] by (auto simp: log_ok_def cleaned_def [of _ d1])
    qed
  qed
qed

section \<open>Interleavings\<close>

record sink_world =
  sw_sink :: sqlite_sink
  sw_sending :: "audit_event list"
  sw_closing :: bool
  sw_recorded :: "audit_event list"
  sw_refused :: "audit_event list"
  sw_stored :: "audit_event list"
  sw_lost :: "audit_event list"

definition sink_start :: "sqlite_sink \<Rightarrow> sink_world" where
  "sink_start s = \<lparr>sw_sink = s, sw_sending = [], sw_closing = False, sw_recorded = [], sw_refused = [], sw_stored = [], sw_lost = []\<rparr>"

inductive sink_step :: "sink_world \<Rightarrow> sink_world \<Rightarrow> bool" where
  record_closed: "sk_closed (sw_sink w) \<Longrightarrow>
    sink_step w (w\<lparr>sw_sink := drop_event (sw_sink w), sw_recorded := event # sw_recorded w, sw_refused := event # sw_refused w\<rparr>)"
| record_open: "\<not> sk_closed (sw_sink w) \<Longrightarrow> event' = timestamped clock event \<Longrightarrow>
    sink_step w (w\<lparr>sw_sending := event' # sw_sending w, sw_recorded := event' # sw_recorded w\<rparr>)"
| record_send: "event \<in> set (sw_sending w) \<Longrightarrow>
    sink_step w (w\<lparr>sw_sink := record_send event (sw_sink w), sw_sending := remove1 event (sw_sending w),
      sw_refused := (if int (length (sk_events (sw_sink w))) < sk_queueSize (sw_sink w) then sw_refused w else event # sw_refused w)\<rparr>)"
| close_swap: "\<not> sk_closed (sw_sink w) \<Longrightarrow>
    sink_step w (w\<lparr>sw_sink := (sw_sink w)\<lparr>sk_closed := True\<rparr>, sw_closing := True\<rparr>)"
| close_done: "sw_closing w \<Longrightarrow>
    sink_step w (w\<lparr>sw_sink := (sw_sink w)\<lparr>sk_done := True\<rparr>, sw_closing := False\<rparr>)"
| settings: "sink_SetSettings clock st (sw_sink w) = (r, s') \<Longrightarrow> sink_step w (w\<lparr>sw_sink := s'\<rparr>)"
| worker: "worker_step (sw_sink w) (st, lo) s' \<Longrightarrow>
    sink_step w (w\<lparr>sw_sink := s', sw_stored := sw_stored w @ st, sw_lost := sw_lost w @ lo\<rparr>)"

inductive sink_reachable :: "sqlite_sink \<Rightarrow> sink_world \<Rightarrow> bool" for s0 :: sqlite_sink where
  start: "sink_reachable s0 (sink_start s0)"
| step: "sink_reachable s0 w \<Longrightarrow> sink_step w w' \<Longrightarrow> sink_reachable s0 w'"

text \<open>The invariant, one predicate for each of its parts.\<close>

definition accounted :: "sink_world \<Rightarrow> bool" where
  "accounted w \<longleftrightarrow> mset (sw_recorded w) =
     mset (sw_refused w) + mset (sw_sending w) + mset (sk_events (sw_sink w)) + mset (sk_batch (sw_sink w)) +
     mset (sw_stored w) + mset (sw_lost w)"

definition bounded :: "sqlite_sink \<Rightarrow> bool" where
  "bounded s \<longleftrightarrow> 0 < sk_queueSize s \<and> int (length (sk_events s)) \<le> sk_queueSize s \<and>
     0 < sk_batchSize s \<and> int (length (sk_batch s)) < sk_batchSize s"

definition phases_ok :: "sink_world \<Rightarrow> bool" where
  "phases_ok w \<longleftrightarrow>
     (sw_closing w \<or> sk_done (sw_sink w) \<longrightarrow> sk_closed (sw_sink w)) \<and>
     (sk_mode (sw_sink w) \<noteq> Selecting \<longrightarrow> sk_done (sw_sink w)) \<and>
     (sk_mode (sw_sink w) = Stopped \<longrightarrow> sk_batch (sw_sink w) = [])"

definition sink_ok :: "(string \<Rightarrow> int) \<Rightarrow> sink_world \<Rightarrow> bool" where
  "sink_ok base w \<longleftrightarrow> accounted w \<and> bounded (sw_sink w) \<and> phases_ok w \<and> log_ok base (sw_stored w) (sk_db (sw_sink w)) \<and>
     sk_dropped (sw_sink w) = of_nat (length (sw_refused w)) \<and> (sw_lost w \<noteq> [] \<longrightarrow> sk_err (sw_sink w) \<noteq> None)"

lemma flush_facts:
  assumes "log_ok base events (sk_db s)" and "map_order (sk_batch s) order" and "flush_outcome clock order s = (st, lo)"
  shows "log_ok base (events @ st) (sk_db (sink_flush clock order s))" and "mset (sk_batch s) = mset st + mset lo"
    and "lo \<noteq> [] \<or> sk_err s \<noteq> None \<Longrightarrow> sk_err (sink_flush clock order s) \<noteq> None"
proof -
  obtain r d where i: "insertBatch clock order (sk_batch s) (sk_db s) = (r, d)" by fastforce
  have l: "log_ok base (events @ (case r of Inl _ \<Rightarrow> [] | Inr _ \<Rightarrow> sk_batch s)) d" by (rule log_ok_insert [OF assms(1) i assms(2)])
  show "log_ok base (events @ st) (sk_db (sink_flush clock order s))" and "mset (sk_batch s) = mset st + mset lo"
    and "lo \<noteq> [] \<or> sk_err s \<noteq> None \<Longrightarrow> sk_err (sink_flush clock order s) \<noteq> None"
    using l assms(1,3) by (auto simp: flush_outcome_def sink_flush_def i setError_def split: if_splits sum.splits)
qed

lemma cleanup_facts:
  "log_ok base events (sk_db s) \<Longrightarrow> log_ok base events (sk_db (sink_cleanup clock s))"
  "sk_err s \<noteq> None \<Longrightarrow> sk_err (sink_cleanup clock s) \<noteq> None"
  by (auto simp: sink_cleanup_def sink_CleanupExpiredBatch_def setError_def dest: log_ok_cleanup split: prod.splits option.splits)

lemma receive_facts:
  assumes "sk_events s = event # rest" and "map_order (sk_batch s @ [event]) order" and "receive_outcome clock order s = (st, lo)"
    and "log_ok base events (sk_db s)" and "bounded s"
  shows "log_ok base (events @ st) (sk_db (sink_receive clock order s))"
    and "mset (sk_batch s) + mset (sk_events s) =
      mset (sk_batch (sink_receive clock order s)) + mset (sk_events (sink_receive clock order s)) + mset st + mset lo"
    and "lo \<noteq> [] \<or> sk_err s \<noteq> None \<Longrightarrow> sk_err (sink_receive clock order s) \<noteq> None"
    and "bounded (sink_receive clock order s)"
    and "sk_mode (sink_receive clock order s) = sk_mode s" and "sk_done (sink_receive clock order s) = sk_done s"
    and "sk_closed (sink_receive clock order s) = sk_closed s" and "sk_dropped (sink_receive clock order s) = sk_dropped s"
    and "sk_events (sink_receive clock order s) = rest"
proof -
  let ?s = "s\<lparr>sk_events := rest, sk_batch := sk_batch s @ [event]\<rparr>"
  have f: "flush_outcome clock order ?s = (st, lo) \<Longrightarrow> log_ok base (events @ st) (sk_db (sink_flush clock order ?s))"
    "flush_outcome clock order ?s = (st, lo) \<Longrightarrow> mset (sk_batch ?s) = mset st + mset lo"
    "flush_outcome clock order ?s = (st, lo) \<Longrightarrow> lo \<noteq> [] \<or> sk_err ?s \<noteq> None \<Longrightarrow> sk_err (sink_flush clock order ?s) \<noteq> None"
    using flush_facts [of base events ?s order clock st lo] assms(2,4) by simp_all
  show "log_ok base (events @ st) (sk_db (sink_receive clock order s))"
    and "mset (sk_batch s) + mset (sk_events s) =
      mset (sk_batch (sink_receive clock order s)) + mset (sk_events (sink_receive clock order s)) + mset st + mset lo"
    and "lo \<noteq> [] \<or> sk_err s \<noteq> None \<Longrightarrow> sk_err (sink_receive clock order s) \<noteq> None"
    and "bounded (sink_receive clock order s)"
    and "sk_mode (sink_receive clock order s) = sk_mode s" and "sk_done (sink_receive clock order s) = sk_done s"
    and "sk_closed (sink_receive clock order s) = sk_closed s" and "sk_dropped (sink_receive clock order s) = sk_dropped s"
    and "sk_events (sink_receive clock order s) = rest"
    using f assms(1,3-5) by (auto simp: sink_receive_def receive_outcome_def Let_def bounded_def split: if_splits)
qed

lemma worker_step_ok:
  assumes "worker_step (sw_sink w) (st, lo) s'" and ok: "sink_ok base w"
  shows "sink_ok base (w\<lparr>sw_sink := s', sw_stored := sw_stored w @ st, sw_lost := sw_lost w @ lo\<rparr>)"
proof -
  have l: "log_ok base (sw_stored w) (sk_db (sw_sink w))" and b: "bounded (sw_sink w)" using ok by (simp_all add: sink_ok_def)
  note parts = sink_ok_def accounted_def phases_ok_def
  from assms(1) show ?thesis
  proof (cases rule: worker_step.cases)
    case (receive event rest order clock)
    note f = receive_facts [OF receive(4,5) receive(1) [symmetric] l b]
    show ?thesis using f ok receive(3) unfolding receive(2) by (auto simp: parts ac_simps)
  next
    case (tick order clock)
    note f = flush_facts [OF l tick(4) tick(1) [symmetric]]
    show ?thesis using f ok tick(3) unfolding tick(2) by (auto simp: parts bounded_def ac_simps)
  next
    case (cleanup_tick order clock clock')
    note f = flush_facts [OF l cleanup_tick(5) cleanup_tick(1) [symmetric]]
    show ?thesis using f ok cleanup_tick(3) cleanup_facts [where clock = clock'] unfolding cleanup_tick(2)
      by (auto simp: parts bounded_def ac_simps)
  next
    case see_done
    then show ?thesis using ok by (auto simp: parts bounded_def)
  next
    case (drained order clock)
    note f = flush_facts [OF l drained(5) drained(1) [symmetric]]
    show ?thesis using f ok drained(3,4) unfolding drained(2) by (auto simp: parts bounded_def ac_simps)
  qed
qed

lemma SetSettings_log:
  assumes "log_ok base events d" and "SetSettings True clock st d = (r, d')"
  shows "log_ok base events d'"
proof -
  have "keeps (\<lambda>d. log_ok base events d) (SetSettings True clock st)"
    unfolding SetSettings_def log_ok_def
    by (auto intro!: step_rules sql_run_keeps simp: Let_def split: if_splits)
  then show ?thesis using assms unfolding keeps_def by (metis snd_conv)
qed

lemma sink_step_ok: "sink_step w w' \<Longrightarrow> sink_ok base w \<Longrightarrow> sink_ok base w'"
proof (induction rule: sink_step.induct)
  case (record_closed w event)
  then show ?case by (auto simp: sink_ok_def accounted_def phases_ok_def bounded_def drop_event_def)
next
  case (record_open w event' clock event)
  then show ?case by (auto simp: sink_ok_def accounted_def phases_ok_def)
next
  case (record_send event w)
  then have "mset (sw_sending w) = add_mset event (mset (remove1 event (sw_sending w)))" by simp
  then show ?case using record_send
    by (auto simp: sink_ok_def accounted_def phases_ok_def bounded_def record_send_def drop_event_def)
next
  case (close_swap w)
  then show ?case by (auto simp: sink_ok_def accounted_def phases_ok_def bounded_def)
next
  case (close_done w)
  then show ?case by (auto simp: sink_ok_def accounted_def phases_ok_def bounded_def)
next
  case (settings clock st w r s')
  obtain r1 d where e: "SetSettings True clock st (sk_db (sw_sink w)) = (r1, d)" by fastforce
  have l: "log_ok base (sw_stored w) d" using SetSettings_log [OF _ e] settings(2) by (simp add: sink_ok_def)
  have "sk_db s' = d \<and> sk_events s' = sk_events (sw_sink w) \<and> sk_batch s' = sk_batch (sw_sink w) \<and> sk_mode s' = sk_mode (sw_sink w) \<and>
      sk_queueSize s' = sk_queueSize (sw_sink w) \<and> sk_batchSize s' = sk_batchSize (sw_sink w) \<and> sk_done s' = sk_done (sw_sink w) \<and>
      sk_closed s' = sk_closed (sw_sink w) \<and> sk_dropped s' = sk_dropped (sw_sink w) \<and> sk_err s' = sk_err (sw_sink w)"
    using settings(1) by (cases r1) (auto simp: sink_SetSettings_def e)
  then show ?case using settings(2) l by (auto simp: sink_ok_def accounted_def phases_ok_def bounded_def)
next
  case (worker w st lo s')
  then show ?case by (rule worker_step_ok)
qed

definition sink_option :: "(sqlite_sink \<Rightarrow> sqlite_sink) \<Rightarrow> bool" where
  "sink_option opt \<longleftrightarrow> (\<exists>n. opt = WithQueueSize n) \<or> (\<exists>n. opt = WithBatchSize n) \<or> (\<exists>n. opt = WithFlushInterval n) \<or>
     (\<exists>n. opt = WithRetentionCleanupInterval n)"

definition fresh_sink :: "audit_db \<Rightarrow> sqlite_sink \<Rightarrow> bool" where
  "fresh_sink d s \<longleftrightarrow> sk_db s = d \<and> sk_events s = [] \<and> sk_batch s = [] \<and> \<not> sk_done s \<and> \<not> sk_closed s \<and> sk_mode s = Selecting \<and>
     sk_dropped s = 0 \<and> sk_err s = None \<and> 0 < sk_queueSize s \<and> 0 < sk_batchSize s"

lemma sink_option_fresh: "sink_option opt \<Longrightarrow> fresh_sink d s \<Longrightarrow> fresh_sink d (opt s)"
  by (auto simp: sink_option_def fresh_sink_def WithQueueSize_def WithBatchSize_def WithFlushInterval_def
      WithRetentionCleanupInterval_def split: if_splits)

lemma fold_options_fresh: "list_all sink_option opts \<Longrightarrow> fresh_sink d s \<Longrightarrow> fresh_sink d (foldl (\<lambda>s opt. opt s) s opts)"
  by (induction opts arbitrary: s) (simp_all add: sink_option_fresh)

lemma NewSQLiteSink_fresh:
  assumes "NewSQLiteSink (Some d) opts = Inr s" and "list_all sink_option opts"
  shows "fresh_sink d s"
proof -
  have "\<exists>s0. fresh_sink d s0 \<and> s = foldl (\<lambda>s opt. opt s) s0 opts"
    using assms(1) unfolding NewSQLiteSink_def by (intro exI conjI) (auto simp: fresh_sink_def)
  then show ?thesis using fold_options_fresh [OF assms(2)] by blast
qed

lemma sink_reachable_ok:
  assumes "sink_reachable s0 w" and "fresh_sink d s0" and "log_ok base [] d"
  shows "sink_ok base w"
  using assms(1)
proof (induction rule: sink_reachable.induct)
  case start
  show ?case using assms(2,3)
    by (simp add: sink_ok_def accounted_def bounded_def phases_ok_def sink_start_def fresh_sink_def)
next
  case (step w w')
  then show ?case using sink_step_ok by blast
qed

section \<open>Accounting for every event\<close>

text \<open>
  C19: However the callers of \<open>Record\<close> and \<open>SetSettings\<close>, a \<open>Close\<close> and the worker are interleaved, each recorded event is in exactly
  one place: refused and counted, about to be sent, in the queue, in the batch, stored, or lost with a failed transaction. The
  queue holds at most \<open>queueSize\<close> events and the batch fewer than \<open>batchSize\<close>, \<open>Dropped\<close> is the number of refused events
  modulo 2 to the 64, the totals of each action have grown by the stored events of this action, and when an event was lost an
  error is kept for \<open>Close\<close> to return.
\<close>

theorem sink_accounts_for_every_event:
  assumes "NewSQLiteSink (Some d) opts = Inr s0" and "list_all sink_option opts"
    and "table_ok ar_id (au_events (db_tables d))" and "totals_ok (au_totals (db_tables d))"
    and "sink_reachable s0 w"
  shows "mset (sw_recorded w) =
      mset (sw_refused w) + mset (sw_sending w) + mset (sk_events (sw_sink w)) + mset (sk_batch (sw_sink w)) +
      mset (sw_stored w) + mset (sw_lost w) \<and>
    int (length (sk_events (sw_sink w))) \<le> sk_queueSize (sw_sink w) \<and>
    int (length (sk_batch (sw_sink w))) < sk_batchSize (sw_sink w) \<and>
    sk_dropped (sw_sink w) = of_nat (length (sw_refused w)) \<and>
    (\<forall>a. total_of a (au_totals (db_tables (sk_db (sw_sink w)))) =
      total_of a (au_totals (db_tables d)) + int (action_count (sw_stored w) a)) \<and>
    (sw_lost w \<noteq> [] \<longrightarrow> sk_err (sw_sink w) \<noteq> None)"
proof -
  have "log_ok (\<lambda>a. total_of a (au_totals (db_tables d))) [] d" using assms(3,4) by (simp add: log_ok_def action_count_def)
  from sink_reachable_ok [OF assms(5) NewSQLiteSink_fresh [OF assms(1,2)] this] show ?thesis
    by (simp add: sink_ok_def accounted_def bounded_def log_ok_def)
qed

text \<open>A sink with a queue and batches of one event, and the interleaving in which \<open>Close\<close> comes between the two steps of \<open>Record\<close>.\<close>

definition small_sink :: sqlite_sink where
  "small_sink = \<lparr>sk_cache = zero_cache, sk_db = empty_audit, sk_events = [], sk_queueSize = 1, sk_done = False,
     sk_batchSize = 1, sk_flushInterval = second_ns, sk_cleanupInterval = 3600 * second_ns, sk_dropped = 0,
     sk_closed = False, sk_err = None, sk_batch = [], sk_mode = Selecting\<rparr>"

lemma small_sink_new: "NewSQLiteSink (Some empty_audit) [WithQueueSize 1, WithBatchSize 1] = Inr small_sink"
  by (simp add: NewSQLiteSink_def small_sink_def WithQueueSize_def WithBatchSize_def)

lemma small_sink_options: "list_all sink_option [WithQueueSize 1, WithBatchSize 1]"
  by (auto simp: sink_option_def)

lemma empty_audit_ok: "table_ok ar_id (au_events (db_tables empty_audit))" "totals_ok (au_totals (db_tables empty_audit))"
  by (simp_all add: empty_audit_def totals_ok_def empty_table_def table_ok_def)

definition late_world :: sink_world where
  "late_world = (let event = demo_event 1 ''a.test.'' in
     \<lparr>sw_sink = small_sink\<lparr>sk_closed := True, sk_done := True, sk_mode := Stopped, sk_events := [event]\<rparr>, sw_sending = [], sw_closing = False,
      sw_recorded = [event], sw_refused = [], sw_stored = [], sw_lost = []\<rparr>)"

lemma late_world_reachable: "sink_reachable small_sink late_world"
proof -
  let ?e = "demo_event 1 ''a.test.''"
  let ?w = "\<lambda>s sending closing. \<lparr>sw_sink = s, sw_sending = sending, sw_closing = closing, sw_recorded = [?e], sw_refused = [],
    sw_stored = [], sw_lost = []\<rparr>"
  let ?closed = "small_sink\<lparr>sk_closed := True\<rparr>"
  let ?done = "?closed\<lparr>sk_done := True\<rparr>"
  have "sink_reachable small_sink (sink_start small_sink)" by (rule sink_reachable.start)
  moreover have "sink_step (sink_start small_sink) (?w small_sink [?e] False)"
    using sink_step.record_open [of "sink_start small_sink" ?e 0 ?e] by (simp add: sink_start_def small_sink_def timestamped_def demo_event_def)
  moreover have "sink_step (?w small_sink [?e] False) (?w ?closed [?e] True)"
    using sink_step.close_swap [of "?w small_sink [?e] False"] by (simp add: small_sink_def)
  moreover have "sink_step (?w ?closed [?e] True) (?w ?done [?e] False)"
    using sink_step.close_done [of "?w ?closed [?e] True"] by simp
  moreover have "sink_step (?w ?done [?e] False) (?w (?done\<lparr>sk_mode := Draining\<rparr>) [?e] False)"
    using sink_step.worker [OF worker_step.see_done, of "?w ?done [?e] False"] by (simp add: small_sink_def)
  moreover have "sink_step (?w (?done\<lparr>sk_mode := Draining\<rparr>) [?e] False) (?w (?done\<lparr>sk_mode := Stopped\<rparr>) [?e] False)"
  proof -
    have "worker_step (?done\<lparr>sk_mode := Draining\<rparr>) ([], []) (?done\<lparr>sk_mode := Stopped\<rparr>)"
      using worker_step.drained [of "?done\<lparr>sk_mode := Draining\<rparr>" "[]" 0]
      by (simp add: small_sink_def map_order_def flush_outcome_def sink_flush_def)
    then show ?thesis
      using sink_step.worker [of "?w (?done\<lparr>sk_mode := Draining\<rparr>) [?e] False"] by fastforce
  qed
  moreover have "sink_step (?w (?done\<lparr>sk_mode := Stopped\<rparr>) [?e] False) late_world"
    using sink_step.record_send [of ?e "?w (?done\<lparr>sk_mode := Stopped\<rparr>) [?e] False"]
    by (simp add: late_world_def record_send_def small_sink_def Let_def)
  ultimately show ?thesis by (meson sink_reachable.step)
qed

theorem sink_accounts_for_every_event_witness:
  "mset [demo_event 1 ''a.test.''] = mset [] + mset [] + mset (sk_events (sw_sink late_world)) + mset [] + mset [] + mset []"
  using sink_accounts_for_every_event [OF small_sink_new small_sink_options empty_audit_ok late_world_reachable]
  by (simp add: late_world_def small_sink_def Let_def)

text \<open>
  An event can vanish without a trace: when \<open>Close\<close> runs between the test of \<open>closed\<close> and the send in \<open>Record\<close>, the
  worker may stop before the event is in the queue. In this reachable state \<open>Close\<close> has returned without an error,
  the event is neither stored nor counted as dropped, and no step of the worker will take it from the queue.
\<close>

theorem late_record_is_lost:
  "\<exists>w event. sink_reachable small_sink w \<and> sw_recorded w = [event] \<and> close_result (sw_sink w) = Some (Inr ()) \<and>
     event \<in> set (sk_events (sw_sink w)) \<and> sw_stored w = [] \<and> sk_dropped (sw_sink w) = 0 \<and>
     (\<nexists>out s'. worker_step (sw_sink w) out s')"
proof (intro exI [of _ late_world] exI [of _ "demo_event 1 ''a.test.''"] conjI late_world_reachable)
  show "\<nexists>out s'. worker_step (sw_sink late_world) out s'"
    by (auto simp: late_world_def Let_def elim!: worker_stepE)
qed (simp_all add: late_world_def small_sink_def close_result_def Let_def)

section \<open>Closing\<close>

text \<open>Several steps of the worker, with the events they stored and lost.\<close>

inductive worker_run :: "nat \<Rightarrow> sqlite_sink \<Rightarrow> outcome \<Rightarrow> sqlite_sink \<Rightarrow> bool" where
  no_step: "worker_run 0 s ([], []) s"
| one_more: "worker_run n s (st, lo) s' \<Longrightarrow> worker_step s' (st', lo') s'' \<Longrightarrow> worker_run (Suc n) s (st @ st', lo @ lo') s''"

lemma map_order_exists: "\<exists>order. map_order events order"
  by (intro exI [of _ "remdups (map ev_Action events)"]) (simp add: map_order_def)

lemma receive_outcome_one:
  assumes "sk_events s = event # rest" and "receive_outcome clock order s = (st, lo)"
  shows "mset (sk_batch s) + mset (sk_events s) =
      mset (sk_batch (sink_receive clock order s)) + mset (sk_events (sink_receive clock order s)) + mset st + mset lo"
    and "lo \<noteq> [] \<or> sk_err s \<noteq> None \<Longrightarrow> sk_err (sink_receive clock order s) \<noteq> None"
    and "sk_mode (sink_receive clock order s) = sk_mode s" and "sk_events (sink_receive clock order s) = rest"
  using assms
  by (auto simp: receive_outcome_def sink_receive_def flush_outcome_def sink_flush_def setError_def Let_def
    split: if_splits prod.splits sum.splits)

lemma flush_outcome_one:
  assumes "flush_outcome clock order s = (st, lo)"
  shows "mset (sk_batch s) = mset st + mset lo"
    and "lo \<noteq> [] \<or> sk_err s \<noteq> None \<Longrightarrow> sk_err (sink_flush clock order s) \<noteq> None"
  using assms by (auto simp: flush_outcome_def sink_flush_def setError_def split: if_splits prod.splits sum.splits)

lemma drain_step:
  assumes "worker_step s (st, lo) s'" and "sk_mode s = Draining"
  shows "mset (sk_batch s) + mset (sk_events s) = mset (sk_batch s') + mset (sk_events s') + mset st + mset lo"
    and "lo \<noteq> [] \<or> sk_err s \<noteq> None \<Longrightarrow> sk_err s' \<noteq> None"
    and "(sk_mode s' = Draining \<and> length (sk_events s) = Suc (length (sk_events s'))) \<or>
      (sk_mode s' = Stopped \<and> sk_events s = [] \<and> sk_events s' = [] \<and> sk_batch s' = [])"
proof -
  have "mset (sk_batch s) + mset (sk_events s) = mset (sk_batch s') + mset (sk_events s') + mset st + mset lo \<and>
    (lo \<noteq> [] \<or> sk_err s \<noteq> None \<longrightarrow> sk_err s' \<noteq> None) \<and>
    ((sk_mode s' = Draining \<and> length (sk_events s) = Suc (length (sk_events s'))) \<or>
      (sk_mode s' = Stopped \<and> sk_events s = [] \<and> sk_events s' = [] \<and> sk_batch s' = []))"
    using assms(1)
  proof (cases rule: worker_step.cases)
    case (receive event rest order clock)
    note r = receive_outcome_one [OF receive(4) receive(1) [symmetric]]
    show ?thesis using r assms(2) receive(4) unfolding receive(2) by auto
  next
    case (drained order clock)
    note r = flush_outcome_one [OF drained(1) [symmetric]]
    show ?thesis using r drained(4) unfolding drained(2) by auto
  qed (use assms(2) in simp_all)
  then show "mset (sk_batch s) + mset (sk_events s) = mset (sk_batch s') + mset (sk_events s') + mset st + mset lo"
    and "lo \<noteq> [] \<or> sk_err s \<noteq> None \<Longrightarrow> sk_err s' \<noteq> None"
    and "(sk_mode s' = Draining \<and> length (sk_events s) = Suc (length (sk_events s'))) \<or>
      (sk_mode s' = Stopped \<and> sk_events s = [] \<and> sk_events s' = [] \<and> sk_batch s' = [])" by auto
qed

lemma stopped_step: "worker_step s out s' \<Longrightarrow> sk_mode s \<noteq> Stopped"
  by (auto elim!: worker_stepE)

lemma drain_enabled: "sk_mode s = Draining \<Longrightarrow> \<exists>st lo s'. worker_step s (st, lo) s'"
proof (cases "sk_events s")
  case Nil
  assume "sk_mode s = Draining"
  with Nil worker_step.drained map_order_exists [of "sk_batch s"] show ?thesis by (metis surj_pair)
next
  case (Cons event rest)
  assume "sk_mode s = Draining"
  with Cons worker_step.receive map_order_exists [of "sk_batch s @ [event]"] show ?thesis by (metis surj_pair)
qed

lemma drain_run:
  assumes "worker_run n s out s'" and "sk_mode s = Draining"
  shows "mset (sk_batch s) + mset (sk_events s) =
      mset (sk_batch s') + mset (sk_events s') + mset (fst out) + mset (snd out)"
    and "snd out \<noteq> [] \<or> sk_err s \<noteq> None \<Longrightarrow> sk_err s' \<noteq> None"
    and "(sk_mode s' = Draining \<and> length (sk_events s) = n + length (sk_events s')) \<or>
      (sk_mode s' = Stopped \<and> n = Suc (length (sk_events s)) \<and> sk_events s' = [] \<and> sk_batch s' = [])"
proof -
  have "mset (sk_batch s) + mset (sk_events s) = mset (sk_batch s') + mset (sk_events s') + mset (fst out) + mset (snd out) \<and>
    (snd out \<noteq> [] \<or> sk_err s \<noteq> None \<longrightarrow> sk_err s' \<noteq> None) \<and>
    ((sk_mode s' = Draining \<and> length (sk_events s) = n + length (sk_events s')) \<or>
      (sk_mode s' = Stopped \<and> n = Suc (length (sk_events s)) \<and> sk_events s' = [] \<and> sk_batch s' = []))"
    using assms
  proof (induction rule: worker_run.induct)
    case (one_more n s st lo s' st' lo' s'')
    from one_more stopped_step have d: "sk_mode s' = Draining" by blast
    show ?case using one_more.IH [OF one_more.prems] drain_step [OF one_more(2) d] d by (auto simp: ac_simps)
  qed simp
  then show "mset (sk_batch s) + mset (sk_events s) =
      mset (sk_batch s') + mset (sk_events s') + mset (fst out) + mset (snd out)"
    and "snd out \<noteq> [] \<or> sk_err s \<noteq> None \<Longrightarrow> sk_err s' \<noteq> None"
    and "(sk_mode s' = Draining \<and> length (sk_events s) = n + length (sk_events s')) \<or>
      (sk_mode s' = Stopped \<and> n = Suc (length (sk_events s)) \<and> sk_events s' = [] \<and> sk_batch s' = [])" by auto
qed

text \<open>
  C20: From any state in which the worker has seen that the sink is closed and drains the queue, and with no \<open>Record\<close> in its send any more, so
  that only the worker moves, it comes to its end: it can always take a step, it stops after exactly one step for each event in the
  queue and one more, and every event that was in the batch or in the queue has then been stored or lost; \<open>Close\<close> returns, with an
  error if an event was lost. A \<open>Record\<close> that sends while the worker drains is outside the statement: its event can be left in the
  queue without an error (\<open>late_record_is_lost\<close>).
\<close>

theorem close_drains_queue:
  assumes "worker_run n s (st, lo) s'" and "sk_mode s = Draining"
  shows "n \<le> Suc (length (sk_events s)) \<and>
    (n \<le> length (sk_events s) \<longrightarrow> (\<exists>st' lo' s''. worker_step s' (st', lo') s'')) \<and>
    (n = Suc (length (sk_events s)) \<longrightarrow>
       mset st + mset lo = mset (sk_batch s) + mset (sk_events s) \<and>
       sk_events s' = [] \<and> sk_batch s' = [] \<and>
       close_result s' \<noteq> None \<and> (lo \<noteq> [] \<longrightarrow> close_result s' \<noteq> Some (Inr ())))"
proof (intro conjI impI)
  note d = drain_run [OF assms]
  show "n \<le> Suc (length (sk_events s))" using d(3) by auto
  show "\<exists>st' lo' s''. worker_step s' (st', lo') s''" if "n \<le> length (sk_events s)"
    using d(3) that drain_enabled [of s'] by auto
  assume n: "n = Suc (length (sk_events s))"
  then have s: "sk_mode s' = Stopped" "sk_events s' = []" "sk_batch s' = []" using d(3) by auto
  show "mset st + mset lo = mset (sk_batch s) + mset (sk_events s)" using d(1) s by simp
  show "sk_events s' = []" "sk_batch s' = []" by (rule s)+
  show "close_result s' \<noteq> None" using s by (simp add: close_result_def)
  show "close_result s' \<noteq> Some (Inr ())" if "lo \<noteq> []" using d(2) s that by (auto simp: close_result_def split: option.splits)
qed

definition closing_sink :: sqlite_sink where
  "closing_sink = small_sink\<lparr>sk_mode := Draining, sk_events := [demo_event 1 ''a.test.'']\<rparr>"

lemma closing_run: "\<exists>st lo s'. worker_run 2 closing_sink (st, lo) s'"
proof -
  let ?s = "sink_receive 7 [''allow''] closing_sink"
  have "worker_step closing_sink (receive_outcome 7 [''allow''] closing_sink) ?s"
    by (rule worker_step.receive) (auto simp: closing_sink_def small_sink_def map_order_def demo_event_def)
  moreover have "sk_mode ?s = Draining" "sk_events ?s = []" "sk_batch ?s = []"
    by (simp_all add: sink_receive_def closing_sink_def small_sink_def Let_def)
  then have "worker_step ?s (flush_outcome 8 [] ?s) ((sink_flush 8 [] ?s)\<lparr>sk_mode := Stopped\<rparr>)"
    by (intro worker_step.drained) (simp_all add: map_order_def)
  ultimately show ?thesis
    using worker_run.one_more [OF worker_run.one_more [OF worker_run.no_step]] numeral_2_eq_2 by (metis surj_pair)
qed

theorem close_drains_queue_witness:
  "\<exists>st lo s'. worker_run 2 closing_sink (st, lo) s' \<and> mset st + mset lo = {#demo_event 1 ''a.test.''#} \<and> close_result s' \<noteq> None"
proof -
  obtain st lo s' where r: "worker_run 2 closing_sink (st, lo) s'" using closing_run by blast
  have "sk_mode closing_sink = Draining" by (simp add: closing_sink_def)
  from close_drains_queue [OF r this] r show ?thesis by (force simp: closing_sink_def small_sink_def)
qed

end
