(* ===== verification/Refresh_Jobs.thy ===== *)
theory Refresh_Jobs
  imports Filter_Service Json_Fields Config_Store Go_Time_Nano
begin

text \<open>
  \<open>internal/admin/filter_jobs.go\<close>: the queue of list refreshes with its one worker. A job is persisted as JSON under its id. \<open>Submit\<close>
  and the updates of the worker run under the mutex and are single steps; the relation \<open>job_move\<close> has a rule for each
  stretch of the worker between two points where others can run, \<open>job_step\<close> adds the submissions and the cancellation. What the filter
  service and the reloader return is left open: any list and any error. Strings are taken to be text that JSON leaves intact.
\<close>

section \<open>Jobs and their JSON\<close>

record refresh_job =
  jb_ID :: string
  jb_ListID :: int
  jb_Status :: string
  jb_Phase :: string
  jb_StatusURL :: string
  jb_CreatedAt :: time
  jb_UpdatedAt :: time
  jb_Error :: string
  jb_Result :: "filter_list option"

definition zero_job :: refresh_job where
  "zero_job = \<lparr>jb_ID = [], jb_ListID = 0, jb_Status = [], jb_Phase = [], jb_StatusURL = [], jb_CreatedAt = None, jb_UpdatedAt = None,
     jb_Error = [], jb_Result = None\<rparr>"

definition job_active :: "refresh_job \<Rightarrow> bool" where
  "job_active job \<longleftrightarrow> jb_Status job = ''queued'' \<or> jb_Status job = ''running''"

definition zero_instant :: instant where
  "zero_instant = - epoch_days * 86400 * second_ns"

definition instant_of :: "time \<Rightarrow> instant" where
  "instant_of t = (case t of None \<Rightarrow> zero_instant | Some i \<Rightarrow> i)"

definition encode_time :: "time \<Rightarrow> json" where
  "encode_time t = JStr (format_RFC3339Nano (instant_of t))"

definition decode_instant :: "json \<Rightarrow> instant \<Rightarrow> instant result" where
  "decode_instant v old =
     (case v of
        JStr s \<Rightarrow> (case parseRFC3339 s of None \<Rightarrow> Inl type_error | Some i \<Rightarrow> Inr i)
      | JNull \<Rightarrow> Inr old
      | _ \<Rightarrow> Inl type_error)"

definition decode_time :: "json \<Rightarrow> time \<Rightarrow> time result" where
  "decode_time v old = map_sum id time_of (decode_instant v (instant_of old))"

text \<open>A pointer is set to nil by null; otherwise its target is decoded.\<close>

definition decode_pointer :: "(json \<Rightarrow> 'v \<Rightarrow> 'v result) \<Rightarrow> 'v \<Rightarrow> json \<Rightarrow> 'v option \<Rightarrow> 'v option result" where
  "decode_pointer dec zero v old =
     (if v = JNull then Inr None else map_sum id Some (dec v (case old of None \<Rightarrow> zero | Some x \<Rightarrow> x)))"

definition encode_pointer :: "('v \<Rightarrow> json) \<Rightarrow> 'v option \<Rightarrow> json" where
  "encode_pointer enc p = (case p of None \<Rightarrow> JNull | Some x \<Rightarrow> enc x)"

abbreviation pointer_opt ::
  "string \<Rightarrow> ('v \<Rightarrow> json) \<Rightarrow> (json \<Rightarrow> 'v \<Rightarrow> 'v result) \<Rightarrow> 'v \<Rightarrow> ('a \<Rightarrow> 'v option) \<Rightarrow> ('v option \<Rightarrow> 'a \<Rightarrow> 'a) \<Rightarrow> 'a json_field" where
  "pointer_opt name enc dec zero get put \<equiv> field name True (\<lambda>p. p = None) (encode_pointer enc) (decode_pointer dec zero) get put"

definition list_fields :: "filter_list json_field list" where
  "list_fields =
     [int_field ''id'' l_ID (\<lambda>v l. l\<lparr>l_ID := v\<rparr>),
      string_opt ''url'' l_URL (\<lambda>v l. l\<lparr>l_URL := v\<rparr>),
      string_opt ''path'' l_Path (\<lambda>v l. l\<lparr>l_Path := v\<rparr>),
      string_field ''kind'' l_Kind (\<lambda>v l. l\<lparr>l_Kind := v\<rparr>),
      bool_field ''enabled'' l_Enabled (\<lambda>v l. l\<lparr>l_Enabled := v\<rparr>),
      pointer_opt ''last_updated_at'' (\<lambda>i. encode_time (Some i)) decode_instant zero_instant
        l_LastUpdatedAt (\<lambda>v l. l\<lparr>l_LastUpdatedAt := v\<rparr>),
      string_opt ''last_error'' l_LastError (\<lambda>v l. l\<lparr>l_LastError := v\<rparr>)]"

definition job_fields :: "refresh_job json_field list" where
  "job_fields =
     [string_field ''id'' jb_ID (\<lambda>v r. r\<lparr>jb_ID := v\<rparr>),
      int_field ''list_id'' jb_ListID (\<lambda>v r. r\<lparr>jb_ListID := v\<rparr>),
      string_field ''status'' jb_Status (\<lambda>v r. r\<lparr>jb_Status := v\<rparr>),
      string_field ''phase'' jb_Phase (\<lambda>v r. r\<lparr>jb_Phase := v\<rparr>),
      string_field ''status_url'' jb_StatusURL (\<lambda>v r. r\<lparr>jb_StatusURL := v\<rparr>),
      field ''created_at'' False (\<lambda>_. False) encode_time decode_time jb_CreatedAt (\<lambda>v r. r\<lparr>jb_CreatedAt := v\<rparr>),
      field ''updated_at'' False (\<lambda>_. False) encode_time decode_time jb_UpdatedAt (\<lambda>v r. r\<lparr>jb_UpdatedAt := v\<rparr>),
      string_opt ''error'' jb_Error (\<lambda>v r. r\<lparr>jb_Error := v\<rparr>),
      pointer_opt ''result'' (encode_struct list_fields) (decode_struct list_fields) zero_list
        jb_Result (\<lambda>v r. r\<lparr>jb_Result := v\<rparr>)]"

text \<open>The times that \<open>Marshal\<close> writes: their year has four digits.\<close>

definition time_writable :: "time \<Rightarrow> bool" where
  "time_writable t \<longleftrightarrow> 0 \<le> year_of (instant_of t) \<and> year_of (instant_of t) \<le> 9999"

definition job_writable :: "refresh_job \<Rightarrow> bool" where
  "job_writable job \<longleftrightarrow> time_writable (jb_CreatedAt job) \<and> time_writable (jb_UpdatedAt job) \<and>
     (case jb_Result job of None \<Rightarrow> True | Some l \<Rightarrow> l_LastUpdatedAt l = None \<or> time_writable (l_LastUpdatedAt l))"

definition Marshal_job :: "refresh_job \<Rightarrow> string result" where
  "Marshal_job job =
     (if job_writable job then Inr (Marshal (encode_struct job_fields job))
      else Inl (ErrorString ''json: error calling MarshalJSON for type time.Time''))"

definition Unmarshal_job :: "string \<Rightarrow> refresh_job result" where
  "Unmarshal_job payload =
     (case Parse_json payload of None \<Rightarrow> Inl syntax_error | Some v \<Rightarrow> decode_struct job_fields v zero_job)"

section \<open>The queue\<close>

record job_row =
  jr_id :: string
  jr_payload :: string

type_synonym jobs_db = "job_row list db"

record refresh_jobs =
  rj_jobs :: "string \<rightharpoonup> refresh_job"
  rj_queue :: "string list"
  rj_wake :: bool
  rj_done :: bool
  rj_cancelled :: bool
  rj_db :: "jobs_db option"

fun upsert_job :: "string \<Rightarrow> string \<Rightarrow> job_row list \<Rightarrow> job_row list" where
  "upsert_job i payload [] = [\<lparr>jr_id = i, jr_payload = payload\<rparr>]"
| "upsert_job i payload (r # rs) = (if jr_id r = i then r\<lparr>jr_payload := payload\<rparr> # rs else r # upsert_job i payload rs)"

definition job_save :: "refresh_job \<Rightarrow> (jobs_db option, unit) step" where
  "job_save job db =
     (case db of
        None \<Rightarrow> (Inr (), None)
      | Some d \<Rightarrow>
          (case Marshal_job job of
             Inl err \<Rightarrow> (Inl err, Some d)
           | Inr data \<Rightarrow>
               (case sql_run (\<lambda>rows. Inr ((), upsert_job (jb_ID job) data rows)) d of (r, d) \<Rightarrow> (r, Some d))))"

definition delete_job :: "string \<Rightarrow> (jobs_db option, unit) step" where
  "delete_job i db =
     (case db of
        None \<Rightarrow> (Inr (), None)
      | Some d \<Rightarrow> (case sql_run (\<lambda>rows. Inr ((), filter (\<lambda>r. jr_id r \<noteq> i) rows)) d of (r, d) \<Rightarrow> (r, Some d)))"

text \<open>
  The loop over the stored payloads, and the saving of those that were put back; \<open>acc\<close> is the map, the queue
  and the recovered jobs so far. Every pass reads the clock; here they read the same time.
\<close>

definition requeued :: "instant \<Rightarrow> refresh_job \<Rightarrow> refresh_job" where
  "requeued clock job = job\<lparr>jb_Status := ''queued'', jb_Phase := ''queued'', jb_Error := [], jb_UpdatedAt := time_of clock\<rparr>"

fun recover_rows ::
  "instant \<Rightarrow> string list \<Rightarrow> (string \<rightharpoonup> refresh_job) \<times> string list \<times> refresh_job list
    \<Rightarrow> ((string \<rightharpoonup> refresh_job) \<times> string list \<times> refresh_job list) result" where
  "recover_rows clock [] acc = Inr acc"
| "recover_rows clock (payload # ps) (jobs, queue, recovered) =
     (case Unmarshal_job payload of
        Inl err \<Rightarrow> Inl err
      | Inr job \<Rightarrow>
          if job_active job
          then let job = requeued clock job in
            recover_rows clock ps (jobs(jb_ID job \<mapsto> job), queue @ [jb_ID job], recovered @ [job])
          else recover_rows clock ps (jobs(jb_ID job \<mapsto> job), queue, recovered))"

definition NewRefreshJobs :: "instant \<Rightarrow> jobs_db option \<Rightarrow> refresh_jobs result \<times> jobs_db option" where
  "NewRefreshJobs clock db =
     (let start = (\<lambda>jobs queue db. \<lparr>rj_jobs = jobs, rj_queue = queue, rj_wake = True, rj_done = False, rj_cancelled = False, rj_db = db\<rparr>) in
      case db of
        None \<Rightarrow> (Inr (start Map.empty [] None), None)
      | Some d \<Rightarrow>
          (case then_do (sql_poll db_error) (\<lambda>_.
                 then_do (get_state (\<lambda>d. map jr_payload (db_tables d))) (\<lambda>payloads.
                 then_do (lift_result (recover_rows clock payloads (Map.empty, [], []))) (\<lambda>acc.
                 then_do (sql_poll db_error) (\<lambda>_. ret acc)))) d of
             (Inl err, d) \<Rightarrow> (Inl err, Some d)
           | (Inr (jobs, queue, recovered), d) \<Rightarrow>
               (case for_each job_save recovered (Some d) of
                  (Inl err, db) \<Rightarrow> (Inl err, db)
                | (Inr _, db) \<Rightarrow> (Inr (start jobs queue db), db))))"

section \<open>Submitting\<close>

definition errRefreshQueueFull :: go_error where
  "errRefreshQueueFull = ErrorString ''refresh queue is full''"

text \<open>The jobs are visited in an order that Go does not fix: \<open>order\<close> lists them.\<close>

definition jobs_order :: "(string \<rightharpoonup> refresh_job) \<Rightarrow> refresh_job list \<Rightarrow> bool" where
  "jobs_order jobs order \<longleftrightarrow> distinct (map jb_ID order) \<and> set order = ran jobs"

fun scan_active :: "int \<Rightarrow> nat \<Rightarrow> refresh_job list \<Rightarrow> refresh_job + nat" where
  "scan_active listID active [] = Inr active"
| "scan_active listID active (job # jobs) =
     (if job_active job
      then (if jb_ListID job = listID then Inl job else scan_active listID (active + 1) jobs)
      else scan_active listID active jobs)"

fun find_oldest :: "refresh_job \<Rightarrow> refresh_job list \<Rightarrow> refresh_job" where
  "find_oldest oldest [] = oldest"
| "find_oldest oldest (job # jobs) =
     find_oldest
       (if \<not> job_active job \<and> (jb_ID oldest = [] \<or> instant_of (jb_CreatedAt job) < instant_of (jb_CreatedAt oldest)) then job else oldest)
       jobs"

definition evict :: "refresh_job list \<Rightarrow> (refresh_jobs, unit) step" where
  "evict order j =
     (if length order \<ge> 256 then
        let oldest = find_oldest zero_job order in
        if jb_ID oldest \<noteq> [] then
          (case delete_job (jb_ID oldest) (rj_db j) of
             (Inl err, db) \<Rightarrow> (Inl err, j\<lparr>rj_db := db\<rparr>)
           | (Inr _, db) \<Rightarrow> (Inr (), j\<lparr>rj_db := db, rj_jobs := (rj_jobs j)(jb_ID oldest := None)\<rparr>))
        else (Inr (), j)
      else (Inr (), j))"

definition EncodeToString :: "8 word list \<Rightarrow> string" where
  "EncodeToString bytes = concat (map (\<lambda>b. [hex_digit (unat b div 16), hex_digit (unat b mod 16)]) bytes)"

definition new_job :: "instant \<Rightarrow> string \<Rightarrow> int \<Rightarrow> refresh_job" where
  "new_job clock i listID =
     \<lparr>jb_ID = i, jb_ListID = listID, jb_Status = ''queued'', jb_Phase = ''queued'', jb_StatusURL = ''/api/filter/jobs/'' @ i,
      jb_CreatedAt = time_of clock, jb_UpdatedAt = time_of clock, jb_Error = [], jb_Result = None\<rparr>"

text \<open>\<open>random\<close> is what \<open>rand.Read\<close> yields: sixteen bytes or an error.\<close>

definition Submit :: "instant \<Rightarrow> 8 word list result \<Rightarrow> refresh_job list \<Rightarrow> int \<Rightarrow> (refresh_jobs, refresh_job) step" where
  "Submit clock random order listID j =
     (if rj_cancelled j then (Inl context_Canceled, j)
      else (case scan_active listID 0 order of
          Inl job \<Rightarrow> (Inr job, j)
        | Inr active \<Rightarrow>
            if active \<ge> 64 then (Inl errRefreshQueueFull, j)
            else then_do (evict order) (\<lambda>_.
                 then_do (lift_result random) (\<lambda>token j.
                   let job = new_job clock (EncodeToString token) listID in
                   (case job_save job (rj_db j) of
                      (Inl err, db) \<Rightarrow> (Inl err, j\<lparr>rj_db := db\<rparr>)
                    | (Inr _, db) \<Rightarrow>
                        (Inr job, j\<lparr>rj_db := db, rj_jobs := (rj_jobs j)(jb_ID job \<mapsto> job), rj_queue := rj_queue j @ [jb_ID job],
                           rj_wake := True\<rparr>)))) j))"

definition jobs_Get :: "string \<Rightarrow> refresh_jobs \<Rightarrow> refresh_job option" where
  "jobs_Get i j = rj_jobs j i"

text \<open>\<open>sort.Slice\<close> fixes no order among equal times; \<open>order\<close> decides it.\<close>

definition jobs_List :: "bool \<Rightarrow> refresh_job list \<Rightarrow> refresh_job list" where
  "jobs_List activeOnly order =
     rev (sort_key (\<lambda>job. instant_of (jb_CreatedAt job)) (filter (\<lambda>job. \<not> activeOnly \<or> job_active job) order))"

section \<open>The worker\<close>

definition job_update :: "instant \<Rightarrow> refresh_job \<Rightarrow> (refresh_jobs, unit) step" where
  "job_update clock job j =
     (let job = job\<lparr>jb_UpdatedAt := time_of clock\<rparr> in
      case job_save job (rj_db j) of
        (Inl err, db) \<Rightarrow> (Inl err, j\<lparr>rj_db := db\<rparr>)
      | (Inr _, db) \<Rightarrow> (Inr (), j\<lparr>rj_db := db, rj_jobs := (rj_jobs j)(jb_ID job \<mapsto> job)\<rparr>))"

definition job_fail :: "instant \<Rightarrow> refresh_job \<Rightarrow> go_error \<Rightarrow> refresh_jobs \<Rightarrow> refresh_jobs" where
  "job_fail clock job err j =
     (let job = job\<lparr>jb_Status := ''failed'', jb_Error := err_text err\<rparr> in
      case job_update clock job j of
        (Inr _, j) \<Rightarrow> j
      | (Inl saveErr, j) \<Rightarrow>
          let job = job\<lparr>jb_Error := jb_Error job @ ''; job persistence: '' @ err_text saveErr\<rparr> in
          j\<lparr>rj_jobs := (rj_jobs j)(jb_ID job \<mapsto> job)\<rparr>)"

text \<open>Where the worker is: at the select, at the head of the inner loop, before taking a job, or at a stage of the job that it holds.\<close>

datatype job_worker =
    AtSelect | AtLoop | AtPop | Taken refresh_job | Refreshing refresh_job | Reloading refresh_job
  | Finishing refresh_job "go_error option" | Exited

type_synonym job_state = "refresh_jobs \<times> job_worker"

definition job_taken :: "instant \<Rightarrow> refresh_job \<Rightarrow> refresh_jobs \<Rightarrow> job_state" where
  "job_taken clock job j =
     (let job = job\<lparr>jb_Status := ''running'', jb_Phase := ''refreshing''\<rparr> in
      case job_update clock job j of
        (Inl err, j) \<Rightarrow> (job_fail clock job err j, AtLoop)
      | (Inr _, j) \<Rightarrow> (j, Refreshing job))"

definition job_refreshed :: "instant \<Rightarrow> bool \<Rightarrow> refresh_job \<Rightarrow> filter_list \<times> go_error option \<Rightarrow> refresh_jobs \<Rightarrow> job_state" where
  "job_refreshed clock has_reloader job result j =
     (case result of
        (lst, Some err) \<Rightarrow> (j, Finishing job (Some err))
      | (lst, None) \<Rightarrow>
          let job = job\<lparr>jb_Result := Some lst, jb_Phase := ''reloading''\<rparr> in
          (case job_update clock job j of
             (Inl err, j) \<Rightarrow> (j, Finishing job (Some err))
           | (Inr _, j) \<Rightarrow> (j, if has_reloader then Reloading job else Finishing job None)))"

definition job_finished :: "instant \<Rightarrow> refresh_job \<Rightarrow> go_error option \<Rightarrow> refresh_jobs \<Rightarrow> job_state" where
  "job_finished clock job err j =
     (if rj_cancelled j then
        let job = job\<lparr>jb_Status := ''queued'', jb_Phase := ''queued'', jb_Error := []\<rparr> in
        ((snd (job_update clock job j))\<lparr>rj_done := True\<rparr>, Exited)
      else case err of
        Some e \<Rightarrow> (job_fail clock job e j, AtLoop)
      | None \<Rightarrow>
          let job = job\<lparr>jb_Status := ''succeeded'', jb_Phase := ''complete''\<rparr> in
          (case job_update clock job j of
             (Inl e, j) \<Rightarrow> (job_fail clock job e j, AtLoop)
           | (Inr _, j) \<Rightarrow> (j, AtLoop)))"

definition job_named :: "refresh_jobs \<Rightarrow> string \<Rightarrow> refresh_job" where
  "job_named j i = (case rj_jobs j i of None \<Rightarrow> zero_job | Some job \<Rightarrow> job)"

text \<open>An \<open>int64\<close> is in its range: the ids of the lists that the service returns and of those submitted.\<close>

inductive job_move :: "bool \<Rightarrow> job_state \<Rightarrow> job_state \<Rightarrow> bool" for has_reloader :: bool where
  select_done: "rj_cancelled j \<Longrightarrow> job_move has_reloader (j, AtSelect) (j\<lparr>rj_done := True\<rparr>, Exited)"
| select_wake: "rj_wake j \<Longrightarrow> job_move has_reloader (j, AtSelect) (j\<lparr>rj_wake := False\<rparr>, AtLoop)"
| loop_cancelled: "rj_cancelled j \<Longrightarrow> job_move has_reloader (j, AtLoop) (j, AtSelect)"
| loop_on: "\<not> rj_cancelled j \<Longrightarrow> job_move has_reloader (j, AtLoop) (j, AtPop)"
| pop_empty: "rj_queue j = [] \<Longrightarrow> job_move has_reloader (j, AtPop) (j, AtSelect)"
| pop: "rj_queue j = i # rest \<Longrightarrow> job_move has_reloader (j, AtPop) (j\<lparr>rj_queue := rest\<rparr>, Taken (job_named j i))"
| taken: "job_move has_reloader (j, Taken job) (job_taken clock job j)"
| refreshed: "int64_range (l_ID (fst result)) \<Longrightarrow> job_move has_reloader (j, Refreshing job) (job_refreshed clock has_reloader job result j)"
| reloaded: "job_move has_reloader (j, Reloading job) (j, Finishing job err)"
| finished: "job_move has_reloader (j, Finishing job err) (job_finished clock job err j)"

inductive job_step :: "bool \<Rightarrow> job_state \<Rightarrow> job_state \<Rightarrow> bool" for has_reloader :: bool where
  worker: "job_move has_reloader s s' \<Longrightarrow> job_step has_reloader s s'"
| submit: "jobs_order (rj_jobs j) order \<Longrightarrow> int64_range listID \<Longrightarrow>
    (\<forall>token. random = Inr token \<longrightarrow> token \<noteq> [] \<and> rj_jobs j (EncodeToString token) = None) \<Longrightarrow>
    Submit clock random order listID j = (r, j') \<Longrightarrow> job_step has_reloader (j, pc) (j', pc)"
| cancel: "job_step has_reloader (j, pc) (j\<lparr>rj_cancelled := True\<rparr>, pc)"

inductive job_reachable :: "bool \<Rightarrow> refresh_jobs \<Rightarrow> job_state \<Rightarrow> bool" for has_reloader :: bool and j0 :: refresh_jobs where
  start: "job_reachable has_reloader j0 (j0, AtSelect)"
| step: "job_reachable has_reloader j0 s \<Longrightarrow> job_step has_reloader s s' \<Longrightarrow> job_reachable has_reloader j0 s'"

end
