(* ===== verification/Refresh_Jobs_Invariant.thy ===== *)
theory Refresh_Jobs_Invariant
  imports Refresh_Jobs
begin

text \<open>
  The invariant of the refresh jobs: their JSON is read back, each active job is in the queue or held by the worker, no list has two,
  at most 64 are active and 256 kept, no wake-up is lost, and the database has each job as the map has it, except those whose failure could
  not be saved.
\<close>

section \<open>The JSON of a job is read back\<close>

definition time_normal :: "time \<Rightarrow> bool" where
  "time_normal t \<longleftrightarrow> t \<noteq> Some zero_instant"

definition job_typed :: "refresh_job \<Rightarrow> bool" where
  "job_typed job \<longleftrightarrow> int64_range (jb_ListID job) \<and> time_normal (jb_CreatedAt job) \<and> time_normal (jb_UpdatedAt job) \<and>
     (case jb_Result job of None \<Rightarrow> True | Some l \<Rightarrow> int64_range (l_ID l))"

lemma time_of_normal [simp]: "time_normal (time_of i)"
  by (simp add: time_normal_def time_of_def zero_instant_def)

lemma decode_instant_text: "0 \<le> year_of i \<Longrightarrow> year_of i \<le> 9999 \<Longrightarrow> decode_instant (JStr (format_RFC3339Nano i)) old = Inr i"
  by (simp add: decode_instant_def parse_format_RFC3339Nano)

lemma decode_encode_time: "time_writable t \<Longrightarrow> time_normal t \<Longrightarrow> decode_time (encode_time t) old = Inr t"
  by (cases t)
    (simp_all add: decode_time_def encode_time_def decode_instant_text time_writable_def instant_of_def time_normal_def time_of_def
      zero_instant_def)

lemma job_names:
  "list_all (\<lambda>k. ToLower k = k)
    [''id'', ''url'', ''path'', ''kind'', ''enabled'', ''last_updated_at'', ''last_error'', ''list_id'', ''status'', ''phase'', ''status_url'',
     ''created_at'', ''updated_at'', ''error'', ''result'']"
  by code_simp

lemma job_names_ok: "names_ok list_fields" "names_ok job_fields"
  using job_names by (simp_all add: names_ok_def list_fields_def job_fields_def)

lemma option_exhaust [simp]: "(\<exists>y. x = Some y) \<or> x = None"
  by (cases x) auto

lemma decode_list:
  assumes "int64_range (l_ID l)" and "l_LastUpdatedAt l = None \<or> time_writable (l_LastUpdatedAt l)"
    and "l_URL b = []" "l_Path b = []" "l_LastUpdatedAt b = None" "l_LastError b = []"
  shows "decode_struct list_fields (encode_struct list_fields l) b = Inr l"
proof (rule decode_struct_enc [OF job_names_ok(1)])
  have "decode_pointer decode_instant zero_instant (encode_pointer (\<lambda>i. encode_time (Some i)) (l_LastUpdatedAt l)) None = Inr (l_LastUpdatedAt l)"
    using assms(2)
    by (cases "l_LastUpdatedAt l")
      (simp_all add: decode_pointer_def encode_pointer_def encode_time_def decode_instant_text instant_of_def time_writable_def)
  then show "run_fields list_fields l b = Some l"
    using assms by (cases l; cases b) (simp add: list_fields_def)
qed

lemma encode_struct_not_null [simp]: "encode_struct fs x \<noteq> JNull"
  by (simp add: encode_struct_def)

lemma decode_job:
  assumes "job_writable job" and "job_typed job"
  shows "decode_struct job_fields (encode_struct job_fields job) zero_job = Inr job"
proof (rule decode_struct_enc [OF job_names_ok(2)])
  have "decode_pointer (decode_struct list_fields) zero_list (encode_pointer (encode_struct list_fields) (jb_Result job)) None = Inr (jb_Result job)"
    using assms
    by (cases "jb_Result job")
      (simp_all add: decode_pointer_def encode_pointer_def decode_list job_writable_def job_typed_def zero_list_def)
  then show "run_fields job_fields job zero_job = Some job"
    using assms by (cases job) (simp add: job_fields_def zero_job_def job_writable_def job_typed_def decode_encode_time)
qed

lemma json_ok_job: "json_ok (encode_struct job_fields job)"
proof -
  have "json_ok (encode_struct list_fields l)" for l
    by (intro json_ok_struct) (auto simp: list_fields_def encode_pointer_def encode_time_def split: option.split)
  then show ?thesis
    by (intro json_ok_struct) (auto simp: job_fields_def encode_pointer_def encode_time_def split: option.split)
qed

lemma Unmarshal_Marshal_job: "Marshal_job job = Inr data \<Longrightarrow> job_typed job \<Longrightarrow> Unmarshal_job data = Inr job"
  by (auto simp: Marshal_job_def Unmarshal_job_def Parse_Marshal [OF json_ok_job] decode_job split: if_splits)

section \<open>Parts of the invariant\<close>

definition rows_of :: "jobs_db option \<Rightarrow> job_row list option" where
  "rows_of db = map_option db_tables db"

definition map_ok :: "(string \<rightharpoonup> refresh_job) \<Rightarrow> bool" where
  "map_ok jobs \<longleftrightarrow> finite (dom jobs) \<and> (\<forall>i job. jobs i = Some job \<longrightarrow> jb_ID job = i \<and> i \<noteq> [] \<and> job_typed job)"

definition active_ids :: "(string \<rightharpoonup> refresh_job) \<Rightarrow> string set" where
  "active_ids jobs = {i. \<exists>job. jobs i = Some job \<and> job_active job}"

definition lists_ok :: "(string \<rightharpoonup> refresh_job) \<Rightarrow> bool" where
  "lists_ok jobs \<longleftrightarrow> inj_on (\<lambda>i. jb_ListID (the (jobs i))) (active_ids jobs)"

lemma lists_unique:
  assumes "lists_ok jobs" and "jobs i = Some job" and "jobs i' = Some job'" and "job_active job" and "job_active job'"
    and "jb_ListID job = jb_ListID job'"
  shows "i = i'"
proof -
  have "i \<in> active_ids jobs" "i' \<in> active_ids jobs" using assms(2-5) by (auto simp: active_ids_def)
  moreover have "jb_ListID (the (jobs i)) = jb_ListID (the (jobs i'))" using assms(2,3,6) by simp
  ultimately show ?thesis using assms(1) unfolding lists_ok_def inj_on_def by blast
qed

definition counts_ok :: "(string \<rightharpoonup> refresh_job) \<Rightarrow> bool" where
  "counts_ok jobs \<longleftrightarrow> card (active_ids jobs) \<le> 64 \<and> card (dom jobs) \<le> 256"

text \<open>A row holds the job of the map, unless its failure could not be saved.\<close>

definition row_ok :: "(string \<rightharpoonup> refresh_job) \<Rightarrow> job_row \<Rightarrow> bool" where
  "row_ok jobs r \<longleftrightarrow> (\<exists>saved job. Unmarshal_job (jr_payload r) = Inr saved \<and> jb_ID saved = jr_id r \<and> job_typed saved \<and>
     job_writable saved \<and> jobs (jr_id r) = Some job \<and> (saved = job \<or> jb_Status job = ''failed''))"

definition store_ok :: "(string \<rightharpoonup> refresh_job) \<Rightarrow> job_row list option \<Rightarrow> bool" where
  "store_ok jobs rows \<longleftrightarrow>
     (case rows of
        None \<Rightarrow> True
      | Some rs \<Rightarrow> distinct (map jr_id rs) \<and> jr_id ` set rs = dom jobs \<and> (\<forall>r \<in> set rs. row_ok jobs r))"

definition state_ok :: "(string \<rightharpoonup> refresh_job) \<Rightarrow> job_row list option \<Rightarrow> bool" where
  "state_ok jobs rows \<longleftrightarrow> map_ok jobs \<and> lists_ok jobs \<and> counts_ok jobs \<and> store_ok jobs rows"

fun held :: "job_worker \<Rightarrow> refresh_job option" where
  "held (Taken job) = Some job"
| "held (Refreshing job) = Some job"
| "held (Reloading job) = Some job"
| "held (Finishing job err) = Some job"
| "held pc = None"

definition held_ok :: "(string \<rightharpoonup> refresh_job) \<Rightarrow> string list \<Rightarrow> refresh_job \<Rightarrow> bool" where
  "held_ok jobs queue h \<longleftrightarrow> job_typed h \<and> job_active h \<and> jb_ID h \<notin> set queue \<and>
     (\<exists>job. jobs (jb_ID h) = Some job \<and> job_active job \<and> jb_ListID job = jb_ListID h)"

definition position_ok :: "(string \<rightharpoonup> refresh_job) \<Rightarrow> string list \<Rightarrow> job_worker \<Rightarrow> bool" where
  "position_ok jobs queue pc \<longleftrightarrow>
     distinct queue \<and> set queue \<subseteq> active_ids jobs \<and> (\<forall>h. held pc = Some h \<longrightarrow> held_ok jobs queue h) \<and>
     (pc \<noteq> Exited \<longrightarrow> active_ids jobs \<subseteq> set queue \<union> (case held pc of None \<Rightarrow> {} | Some h \<Rightarrow> {jb_ID h}))"

definition wake_ok :: "job_state \<Rightarrow> bool" where
  "wake_ok s \<longleftrightarrow> (case s of (j, pc) \<Rightarrow>
     (pc = AtSelect \<and> rj_queue j \<noteq> [] \<and> \<not> rj_cancelled j \<longrightarrow> rj_wake j) \<and> (pc = Exited \<longrightarrow> rj_cancelled j \<and> rj_done j))"

definition jobs_ok :: "job_state \<Rightarrow> bool" where
  "jobs_ok s \<longleftrightarrow> (case s of (j, pc) \<Rightarrow>
     state_ok (rj_jobs j) (rows_of (rj_db j)) \<and> position_ok (rj_jobs j) (rj_queue j) pc \<and> wake_ok (j, pc))"

section \<open>Changes of the map\<close>

lemma upsert_ids: "jr_id ` set (upsert_job i payload rs) = insert i (jr_id ` set rs)"
  by (induction rs) auto

lemma upsert_distinct: "distinct (map jr_id rs) \<Longrightarrow> distinct (map jr_id (upsert_job i payload rs))"
proof (induction rs)
  case (Cons r rs)
  have "set (map jr_id (upsert_job i payload rs)) = insert i (jr_id ` set rs)" using upsert_ids [of i payload rs] by simp
  then show ?case using Cons by auto
qed simp

lemma upsert_rows:
  "distinct (map jr_id rs) \<Longrightarrow> r \<in> set (upsert_job i payload rs) \<Longrightarrow> (r = \<lparr>jr_id = i, jr_payload = payload\<rparr>) \<or> (r \<in> set rs \<and> jr_id r \<noteq> i)"
  by (induction rs) (auto simp: image_iff split: if_splits)

lemma store_upsert:
  assumes "store_ok jobs rows" and "Marshal_job job = Inr data \<or> rows = None" and "job_typed job"
  shows "store_ok (jobs(jb_ID job \<mapsto> job)) (map_option (upsert_job (jb_ID job) data) rows)"
proof (cases rows)
  case (Some rs)
  then have d: "distinct (map jr_id rs)" and i: "jr_id ` set rs = dom jobs" and r: "\<forall>r \<in> set rs. row_ok jobs r"
    using assms(1) by (simp_all add: store_ok_def)
  have "Unmarshal_job data = Inr job" using assms(2,3) Some Unmarshal_Marshal_job by simp
  moreover have "job_writable job" using assms(2) Some by (auto simp: Marshal_job_def split: if_splits)
  ultimately have "row_ok (jobs(jb_ID job \<mapsto> job)) \<lparr>jr_id = jb_ID job, jr_payload = data\<rparr>" using assms(3) by (simp add: row_ok_def)
  moreover have "row_ok (jobs(jb_ID job \<mapsto> job)) r" if "r \<in> set rs" "jr_id r \<noteq> jb_ID job" for r
    using r that by (auto simp: row_ok_def)
  ultimately have "\<forall>r \<in> set (upsert_job (jb_ID job) data rs). row_ok (jobs(jb_ID job \<mapsto> job)) r"
    using upsert_rows [OF d] by blast
  then show ?thesis using Some upsert_distinct [OF d] upsert_ids [of "jb_ID job" data rs] i by (simp add: store_ok_def)
qed (simp add: store_ok_def)

lemma store_failed:
  assumes "store_ok jobs rows" and "jobs (jb_ID job) \<noteq> None" and "jb_Status job = ''failed''"
  shows "store_ok (jobs(jb_ID job \<mapsto> job)) rows"
proof (cases rows)
  case (Some rs)
  then show ?thesis using assms by (auto simp: store_ok_def row_ok_def dom_def)
qed (simp add: store_ok_def)

lemma map_replace: "map_ok jobs \<Longrightarrow> jb_ID job \<noteq> [] \<Longrightarrow> job_typed job \<Longrightarrow> map_ok (jobs(jb_ID job \<mapsto> job))"
  by (auto simp: map_ok_def)

lemma active_replace:
  "active_ids (jobs(jb_ID job \<mapsto> job)) = (if job_active job then insert (jb_ID job) (active_ids jobs) else active_ids jobs - {jb_ID job})"
  by (auto simp: active_ids_def)

text \<open>Replacing an active job by a job of the same list.\<close>

lemma lists_counts_replace:
  assumes "lists_ok jobs" and "counts_ok jobs" and "finite (dom jobs)"
    and "jobs (jb_ID job) = Some old" and "job_active old" and "jb_ListID job = jb_ListID old"
  shows "lists_ok (jobs(jb_ID job \<mapsto> job)) \<and> counts_ok (jobs(jb_ID job \<mapsto> job))"
proof -
  have o: "jb_ID job \<in> active_ids jobs" using assms(4,5) by (simp add: active_ids_def)
  have sub: "active_ids (jobs(jb_ID job \<mapsto> job)) \<subseteq> active_ids jobs" using o unfolding active_replace by auto
  have "inj_on (\<lambda>i. jb_ListID (the ((jobs(jb_ID job \<mapsto> job)) i))) (active_ids jobs)"
    using assms(1) unfolding lists_ok_def by (rule inj_on_cong [THEN iffD2, rotated]) (simp add: assms(4,6))
  then have l: "lists_ok (jobs(jb_ID job \<mapsto> job))" unfolding lists_ok_def by (rule inj_on_subset [OF _ sub])
  have f: "finite (active_ids jobs)" by (rule finite_subset [OF _ assms(3)]) (auto simp: active_ids_def)
  have "dom (jobs(jb_ID job \<mapsto> job)) = dom jobs" using assms(4) by auto
  then have "counts_ok (jobs(jb_ID job \<mapsto> job))" using assms(2) card_mono [OF f sub] by (simp add: counts_ok_def)
  with l show ?thesis by simp
qed

lemma state_replace:
  assumes "state_ok jobs rows" and "jobs (jb_ID job) = Some old" and "job_active old" and "jb_ListID job = jb_ListID old"
    and "job_typed job" and "Marshal_job job = Inr data \<or> rows = None"
  shows "state_ok (jobs(jb_ID job \<mapsto> job)) (map_option (upsert_job (jb_ID job) data) rows)"
proof -
  have m: "map_ok jobs" and l: "lists_ok jobs" and c: "counts_ok jobs" and s: "store_ok jobs rows"
    using assms(1) by (simp_all add: state_ok_def)
  have f: "finite (dom jobs)" using m by (simp add: map_ok_def)
  have "jb_ID job \<noteq> []" using m assms(2) by (auto simp: map_ok_def)
  then show ?thesis
    using map_replace [OF m _ assms(5)] lists_counts_replace [OF l c f assms(2-4)] store_upsert [OF s assms(6,5)]
    by (simp add: state_ok_def)
qed

lemma state_failed:
  assumes "state_ok jobs rows" and "jobs (jb_ID job) = Some old" and "job_active old" and "jb_ListID job = jb_ListID old"
    and "job_typed job" and "jb_Status job = ''failed''"
  shows "state_ok (jobs(jb_ID job \<mapsto> job)) rows"
proof -
  have m: "map_ok jobs" and l: "lists_ok jobs" and c: "counts_ok jobs" and s: "store_ok jobs rows"
    using assms(1) by (simp_all add: state_ok_def)
  have f: "finite (dom jobs)" using m by (simp add: map_ok_def)
  have "jb_ID job \<noteq> []" using m assms(2) by (auto simp: map_ok_def)
  then show ?thesis
    using map_replace [OF m _ assms(5)] lists_counts_replace [OF l c f assms(2-4)] store_failed [OF s _ assms(6)] assms(2)
    by (simp add: state_ok_def)
qed

lemma position_hold:
  assumes "position_ok jobs queue pc" and "held pc = Some h" and "jb_ID job = jb_ID h" and "jb_ListID job = jb_ListID h" and "job_active job"
    and "held pc' = Some h'" and "jb_ID h' = jb_ID h" and "jb_ListID h' = jb_ListID h" and "job_active h'" and "job_typed h'"
  shows "position_ok (jobs(jb_ID job \<mapsto> job)) queue pc'"
proof -
  have "pc \<noteq> Exited" using assms(2) by auto
  then show ?thesis
    using assms unfolding position_ok_def active_replace by (auto simp: held_ok_def)
qed

lemma position_release:
  assumes "position_ok jobs queue pc" and "held pc = Some h" and "jb_ID job = jb_ID h" and "\<not> job_active job \<or> pc' = Exited" and "held pc' = None"
  shows "position_ok (jobs(jb_ID job \<mapsto> job)) queue pc'"
proof -
  have "pc \<noteq> Exited" using assms(2) by auto
  then show ?thesis
    using assms unfolding position_ok_def active_replace by (auto simp: held_ok_def)
qed

section \<open>The operations\<close>

abbreviation stamped_job :: "instant \<Rightarrow> refresh_job \<Rightarrow> refresh_job" where
  "stamped_job clock job \<equiv> job\<lparr>jb_UpdatedAt := time_of clock\<rparr>"

lemma job_save_cases:
  assumes "job_save job db = (r, db')"
  obtains (failed) e where "r = Inl e" and "rows_of db' = rows_of db"
  | (saved) data where "r = Inr ()" and "rows_of db' = map_option (upsert_job (jb_ID job) data) (rows_of db)"
      and "Marshal_job job = Inr data \<or> rows_of db = None"
proof (cases db)
  case None
  then show thesis using assms saved [of "[]"] by (simp add: job_save_def rows_of_def)
next
  case (Some d)
  show thesis
  proof (cases "Marshal_job job")
    case (Inl e)
    then show thesis using assms failed [of e] Some by (auto simp: job_save_def rows_of_def)
  next
    case (Inr data)
    obtain b fs where "poll (db_faults d) = (b, fs)" by fastforce
    then show thesis
      using assms failed saved [of data] Some Inr
      by (cases b) (auto simp: job_save_def rows_of_def sql_run_def then_do_def sql_poll_def)
  qed
qed

lemma job_update_cases:
  assumes "job_update clock job j = (r, j')"
  obtains (failed) e db where "r = Inl e" and "j' = j\<lparr>rj_db := db\<rparr>" and "rows_of db = rows_of (rj_db j)"
  | (saved) db data where "r = Inr ()" and "j' = j\<lparr>rj_db := db, rj_jobs := (rj_jobs j)(jb_ID job \<mapsto> stamped_job clock job)\<rparr>"
      and "rows_of db = map_option (upsert_job (jb_ID job) data) (rows_of (rj_db j))"
      and "Marshal_job (stamped_job clock job) = Inr data \<or> rows_of (rj_db j) = None"
proof -
  obtain r1 db where s: "job_save (stamped_job clock job) (rj_db j) = (r1, db)" by fastforce
  from s show thesis
  proof (cases rule: job_save_cases)
    case (failed e)
    then show thesis using assms that(1) [of e db] s by (auto simp: job_update_def)
  next
    case (saved data)
    then show thesis using assms that(2) [of db data] s by (auto simp: job_update_def)
  qed
qed

text \<open>What a job in the hands of the worker is known to be.\<close>

definition in_hand :: "refresh_jobs \<Rightarrow> refresh_job \<Rightarrow> bool" where
  "in_hand j h \<longleftrightarrow> state_ok (rj_jobs j) (rows_of (rj_db j)) \<and> job_typed h \<and>
     (\<exists>old. rj_jobs j (jb_ID h) = Some old \<and> job_active old \<and> jb_ListID h = jb_ListID old)"

lemma typed_stamp: "job_typed job \<Longrightarrow> job_typed (stamped_job clock job)"
  by (simp add: job_typed_def)

lemma update_state:
  assumes "in_hand j job" and "job_update clock job j = (r, j')"
  shows "state_ok (rj_jobs j') (rows_of (rj_db j'))"
  using assms(2)
proof (cases rule: job_update_cases)
  case (failed e db)
  then show ?thesis using assms(1) by (simp add: in_hand_def)
next
  case (saved db data)
  obtain old where o: "rj_jobs j (jb_ID job) = Some old" "job_active old" "jb_ListID job = jb_ListID old" and t: "job_typed job"
    and s: "state_ok (rj_jobs j) (rows_of (rj_db j))" using assms(1) by (auto simp: in_hand_def)
  from state_replace [OF s, of "stamped_job clock job" old data] saved o typed_stamp [OF t] show ?thesis by simp
qed

lemma update_in_hand:
  assumes "in_hand j job" and "job_update clock job j = (r, j')" and "job_active job"
  shows "in_hand j' job"
  using assms(2)
proof (cases rule: job_update_cases)
  case (failed e db)
  then show ?thesis using assms(1) by (simp add: in_hand_def)
next
  case (saved db data)
  have "job_active (stamped_job clock job)" using assms(3) by (simp add: job_active_def)
  then show ?thesis using saved update_state [OF assms(1,2)] assms(1) by (auto simp: in_hand_def)
qed

lemma job_fail_cases:
  obtains (saved) db where
    "job_fail clock job err j = j\<lparr>rj_db := db, rj_jobs := (rj_jobs j)(jb_ID job \<mapsto>
       stamped_job clock (job\<lparr>jb_Status := ''failed'', jb_Error := err_text err\<rparr>))\<rparr>"
    "job_update clock (job\<lparr>jb_Status := ''failed'', jb_Error := err_text err\<rparr>) j = (Inr (), job_fail clock job err j)"
  | (unsaved) db msg where
    "job_fail clock job err j = j\<lparr>rj_db := db, rj_jobs := (rj_jobs j)(jb_ID job \<mapsto> job\<lparr>jb_Status := ''failed'', jb_Error := msg\<rparr>)\<rparr>"
    and "rows_of db = rows_of (rj_db j)"
proof -
  let ?job = "job\<lparr>jb_Status := ''failed'', jb_Error := err_text err\<rparr>"
  obtain r j1 where u: "job_update clock ?job j = (r, j1)" by fastforce
  from u show thesis
  proof (cases rule: job_update_cases)
    case (failed e db)
    then show thesis using u that(2) [where db = db and msg = "err_text err @ ''; job persistence: '' @ err_text e"] by (simp add: job_fail_def)
  next
    case (saved db data)
    then show thesis using u that(1) [of db] by (simp add: job_fail_def)
  qed
qed

lemma fail_state:
  assumes "in_hand j job"
  shows "state_ok (rj_jobs (job_fail clock job err j)) (rows_of (rj_db (job_fail clock job err j)))"
proof (cases clock job err j rule: job_fail_cases)
  case (saved db)
  have "in_hand j (job\<lparr>jb_Status := ''failed'', jb_Error := err_text err\<rparr>)"
    using assms by (auto simp: in_hand_def job_typed_def)
  from update_state [OF this saved(2)] show ?thesis .
next
  case (unsaved db msg)
  obtain old where o: "rj_jobs j (jb_ID job) = Some old" "job_active old" "jb_ListID job = jb_ListID old" and t: "job_typed job"
    and s: "state_ok (rj_jobs j) (rows_of (rj_db j))" using assms by (auto simp: in_hand_def)
  have "job_typed (job\<lparr>jb_Status := ''failed'', jb_Error := msg\<rparr>)" using t by (simp add: job_typed_def)
  from state_failed [OF s _ o(2) _ this] o unsaved show ?thesis by simp
qed

lemma fail_fields [simp]:
  "rj_queue (job_fail clock job err j) = rj_queue j" "rj_wake (job_fail clock job err j) = rj_wake j"
  "rj_cancelled (job_fail clock job err j) = rj_cancelled j" "rj_done (job_fail clock job err j) = rj_done j"
  "dom (rj_jobs (job_fail clock job err j)) = insert (jb_ID job) (dom (rj_jobs j))"
  by (cases clock job err j rule: job_fail_cases; simp)+

lemma update_fields:
  assumes "job_update clock job j = (r, j')"
  shows "rj_queue j' = rj_queue j" "rj_wake j' = rj_wake j" "rj_cancelled j' = rj_cancelled j" "rj_done j' = rj_done j"
    "dom (rj_jobs j') = dom (rj_jobs j) \<or> dom (rj_jobs j') = insert (jb_ID job) (dom (rj_jobs j))"
  using assms by (cases rule: job_update_cases; simp)+

lemma failed_release:
  assumes "position_ok (rj_jobs j) queue pc" and "held pc = Some h" and "jb_ID job = jb_ID h" and "held pc' = None"
  shows "position_ok (rj_jobs (job_fail clock job err j)) queue pc'"
proof (cases clock job err j rule: job_fail_cases)
  case (saved db)
  then show ?thesis
    using position_release [OF assms(1,2), of "stamped_job clock (job\<lparr>jb_Status := ''failed'', jb_Error := err_text err\<rparr>)" pc'] assms(3,4)
    by (simp add: job_active_def)
next
  case (unsaved db msg)
  then show ?thesis
    using position_release [OF assms(1,2), of "job\<lparr>jb_Status := ''failed'', jb_Error := msg\<rparr>" pc'] assms(3,4)
    by (simp add: job_active_def)
qed

end
