(* ===== verification/Refresh_Jobs_Runs.thy ===== *)
theory Refresh_Jobs_Runs
  imports Refresh_Jobs_Invariant
begin

text \<open>
  The steps of the refresh jobs keep the invariant; from any reachable state the worker comes to an end of its work, with every job
  succeeded or failed; after a restart the jobs that were active are queued again.
\<close>

section \<open>The moves of the worker\<close>

lemma jobs_okI:
  "state_ok (rj_jobs j) (rows_of (rj_db j)) \<Longrightarrow> position_ok (rj_jobs j) (rj_queue j) pc \<Longrightarrow> wake_ok (j, pc) \<Longrightarrow> jobs_ok (j, pc)"
  by (simp add: jobs_ok_def)

lemma jobs_okD:
  assumes "jobs_ok (j, pc)"
  shows "state_ok (rj_jobs j) (rows_of (rj_db j))" and "position_ok (rj_jobs j) (rj_queue j) pc" and "wake_ok (j, pc)"
  using assms by (simp_all add: jobs_ok_def)

lemma wake_busy: "pc \<noteq> AtSelect \<Longrightarrow> pc \<noteq> Exited \<Longrightarrow> wake_ok (j, pc)"
  by (simp add: wake_ok_def)

lemma position_same:
  "position_ok jobs queue pc \<Longrightarrow> held pc' = held pc \<Longrightarrow> pc \<noteq> Exited \<Longrightarrow> position_ok jobs queue pc'"
  by (auto simp: position_ok_def)

lemma held_in_hand:
  assumes "jobs_ok (j, pc)" and "held pc = Some h" and "jb_ID h' = jb_ID h" and "jb_ListID h' = jb_ListID h" and "job_typed h'"
  shows "in_hand j h'"
  using assms by (auto simp: in_hand_def jobs_ok_def position_ok_def held_ok_def)

lemma held_typed: "jobs_ok (j, pc) \<Longrightarrow> held pc = Some h \<Longrightarrow> job_typed h \<and> job_active h"
  by (auto simp: jobs_ok_def position_ok_def held_ok_def)

text \<open>An update that keeps the job in hand, and a failure that ends it.\<close>

lemma update_hold:
  assumes "jobs_ok (j, pc)" and "held pc = Some h" and "job_update clock job j = (r, j')"
    and "jb_ID job = jb_ID h" and "jb_ListID job = jb_ListID h" and "job_typed job" and "job_active job"
    and "held pc' = Some job"
  shows "jobs_ok (j', pc')"
proof -
  have p: "position_ok (rj_jobs j) (rj_queue j) pc" using jobs_okD(2) [OF assms(1)] .
  have st: "state_ok (rj_jobs j') (rows_of (rj_db j'))"
    using update_state [OF held_in_hand [OF assms(1,2,4-6)] assms(3)] .
  have pc': "pc' \<noteq> AtSelect" "pc' \<noteq> Exited" using assms(8) by auto
  have "held_ok (rj_jobs j) (rj_queue j) h" using p assms(2) by (simp add: position_ok_def)
  from assms(3) have "position_ok (rj_jobs j') (rj_queue j') pc'"
  proof (cases rule: job_update_cases)
    case (failed e db)
    moreover have "pc \<noteq> Exited" using assms(2) by auto
    ultimately show ?thesis using p assms(2,4-8) by (auto simp: position_ok_def held_ok_def)
  next
    case (saved db data)
    have "job_active (stamped_job clock job)" using assms(7) by (simp add: job_active_def)
    then show ?thesis using position_hold [OF p assms(2), of "stamped_job clock job" pc' job] assms(4-8) saved by simp
  qed
  with st show ?thesis using wake_busy [OF pc'] by (intro jobs_okI)
qed

lemma fail_release:
  assumes "jobs_ok (j, pc)" and "held pc = Some h" and "jb_ID job = jb_ID h" and "jb_ListID job = jb_ListID h" and "job_typed job"
  shows "jobs_ok (job_fail clock job err j, AtLoop)"
  using fail_state [OF held_in_hand [OF assms]] failed_release [OF jobs_okD(2) [OF assms(1)] assms(2,3), of AtLoop clock err]
    wake_busy [of AtLoop] by (simp add: jobs_okI)

lemma taken_ok:
  assumes "jobs_ok (j, Taken job)"
  shows "jobs_ok (job_taken clock job j)"
proof -
  let ?job = "job\<lparr>jb_Status := ''running'', jb_Phase := ''refreshing''\<rparr>"
  have t: "job_typed ?job" "job_active ?job" using held_typed [OF assms] by (simp_all add: job_typed_def job_active_def)
  obtain r j1 where u: "job_update clock ?job j = (r, j1)" by fastforce
  have ok: "jobs_ok (j1, Refreshing ?job)" by (rule update_hold [OF assms _ u]) (use t in simp_all)
  then show ?thesis
    using fail_release [OF ok _ refl refl t(1)] by (cases r) (simp_all add: job_taken_def u)
qed

lemma refreshed_ok:
  assumes "jobs_ok (j, Refreshing job)" and "int64_range (l_ID (fst result))"
  shows "jobs_ok (job_refreshed clock has_reloader job result j)"
proof -
  obtain lst err where res: "result = (lst, err)" by fastforce
  let ?job = "job\<lparr>jb_Result := Some lst, jb_Phase := ''reloading''\<rparr>"
  have t: "job_typed ?job" "job_active ?job" using held_typed [OF assms(1)] assms(2) by (simp_all add: res job_typed_def job_active_def)
  obtain r j1 where u: "job_update clock ?job j = (r, j1)" by fastforce
  have ok: "held pc' = Some ?job \<Longrightarrow> jobs_ok (j1, pc')" for pc'
    by (rule update_hold [OF assms(1) _ u]) (use t in simp_all)
  show ?thesis
  proof (cases err)
    case None
    then show ?thesis using ok by (cases r) (simp_all add: job_refreshed_def res u Let_def)
  next
    case (Some e)
    have "position_ok (rj_jobs j) (rj_queue j) (Finishing job (Some e))" using jobs_okD(2) [OF assms(1)] by (rule position_same) simp_all
    then show ?thesis using jobs_okD(1) [OF assms(1)] by (simp add: job_refreshed_def res Some jobs_okI wake_busy)
  qed
qed

lemma update_release:
  assumes "jobs_ok (j, pc)" and "held pc = Some h" and "job_update clock job j = (Inr u, j')"
    and "jb_ID job = jb_ID h" and "jb_ListID job = jb_ListID h" and "job_typed job" and "\<not> job_active job"
  shows "jobs_ok (j', AtLoop)"
proof (rule jobs_okI)
  show "state_ok (rj_jobs j') (rows_of (rj_db j'))" using update_state [OF held_in_hand [OF assms(1,2,4-6)] assms(3)] .
  show "position_ok (rj_jobs j') (rj_queue j') AtLoop"
    using assms(3)
  proof (cases rule: job_update_cases)
    case (saved db data)
    have "\<not> job_active (stamped_job clock job)" using assms(7) by (simp add: job_active_def)
    then show ?thesis using position_release [OF jobs_okD(2) [OF assms(1)] assms(2), of "stamped_job clock job" AtLoop] assms(4) saved by simp
  qed simp
qed (simp add: wake_busy)

lemma finished_ok:
  assumes "jobs_ok (j, Finishing job err)"
  shows "jobs_ok (job_finished clock job err j)"
proof -
  have t: "job_typed job" "job_active job" using held_typed [OF assms] by simp_all
  show ?thesis
  proof (cases "rj_cancelled j")
    case True
    let ?job = "job\<lparr>jb_Status := ''queued'', jb_Phase := ''queued'', jb_Error := []\<rparr>"
    have t': "job_typed ?job" "job_active ?job" using t by (simp_all add: job_typed_def job_active_def)
    obtain r j1 where u: "job_update clock ?job j = (r, j1)" by fastforce
    have ok: "jobs_ok (j1, Taken ?job)" by (rule update_hold [OF assms _ u]) (use t' in simp_all)
    then have "position_ok (rj_jobs j1) (rj_queue j1) Exited" by (auto simp: jobs_ok_def position_ok_def)
    then show ?thesis using ok True update_fields(3) [OF u] by (simp add: job_finished_def u jobs_ok_def wake_ok_def)
  next
    case False
    let ?job = "job\<lparr>jb_Status := ''succeeded'', jb_Phase := ''complete''\<rparr>"
    have t': "job_typed ?job" "\<not> job_active ?job" using t by (simp_all add: job_typed_def job_active_def)
    obtain r j1 where u: "job_update clock ?job j = (r, j1)" by fastforce
    show ?thesis
    proof (cases err)
      case (Some e)
      then show ?thesis using False fail_release [OF assms _ refl refl t(1)] by (simp add: job_finished_def)
    next
      case None
      show ?thesis
      proof (cases r)
        case (Inr v)
        have "jobs_ok (j1, AtLoop)" by (rule update_release [OF assms _ u [unfolded Inr]]) (use t' in simp_all)
        then show ?thesis using None False Inr by (simp add: job_finished_def u)
      next
        case (Inl e)
        have "jobs_ok (j1, Finishing job err)"
          using u unfolding Inl
        proof (cases rule: job_update_cases)
          case (failed e' db)
          then show ?thesis using assms by (simp add: jobs_ok_def wake_ok_def)
        qed simp
        from fail_release [OF this, of job ?job] have "jobs_ok (job_fail clock ?job e j1, AtLoop)" using t' by simp
        then show ?thesis using None False Inl by (simp add: job_finished_def u)
      qed
    qed
  qed
qed

lemma move_ok: "job_move has_reloader s s' \<Longrightarrow> jobs_ok s \<Longrightarrow> jobs_ok s'"
proof (induction rule: job_move.induct)
  case (select_done j)
  then show ?case by (auto simp: jobs_ok_def position_ok_def wake_ok_def)
next
  case (select_wake j)
  then show ?case by (auto simp: jobs_ok_def position_ok_def wake_ok_def)
next
  case (loop_cancelled j)
  then show ?case by (auto simp: jobs_ok_def position_ok_def wake_ok_def)
next
  case (loop_on j)
  then show ?case by (auto simp: jobs_ok_def position_ok_def wake_ok_def)
next
  case (pop_empty j)
  then show ?case by (auto simp: jobs_ok_def position_ok_def wake_ok_def)
next
  case (pop j i rest)
  then have p: "position_ok (rj_jobs j) (i # rest) AtPop" and st: "state_ok (rj_jobs j) (rows_of (rj_db j))"
    by (simp_all add: jobs_ok_def)
  then obtain job where job: "rj_jobs j i = Some job" "job_active job" by (auto simp: position_ok_def active_ids_def)
  moreover have "jb_ID job = i" "job_typed job" using st job(1) by (auto simp: state_ok_def map_ok_def)
  ultimately show ?case using p st by (auto simp: jobs_ok_def position_ok_def held_ok_def wake_ok_def job_named_def)
next
  case (taken j job clock)
  then show ?case by (rule taken_ok)
next
  case (refreshed result j job clock)
  then show ?case by (intro refreshed_ok)
next
  case (reloaded j job err)
  then show ?case by (auto simp: jobs_ok_def position_ok_def wake_ok_def)
next
  case (finished j job err clock)
  then show ?case by (intro finished_ok)
qed

section \<open>Submissions\<close>

lemma scan_active_Inr:
  "scan_active l n order = Inr a \<Longrightarrow> a = n + length (filter job_active order) \<and> (\<forall>job \<in> set order. job_active job \<longrightarrow> jb_ListID job \<noteq> l)"
proof (induction order arbitrary: n)
  case (Cons x xs)
  then show ?case using Cons.IH [of "n + 1"] Cons.IH [of n] by (auto split: if_splits)
qed simp

lemma scan_active_Inl:
  "scan_active l n order = Inl job \<Longrightarrow> job \<in> set order \<and> job_active job \<and> jb_ListID job = l"
proof (induction order arbitrary: n)
  case (Cons x xs)
  then show ?case by (cases "job_active x"; cases "jb_ListID x = l") auto
qed simp

lemma find_oldest_spec:
  "\<forall>job \<in> set order. jb_ID job \<noteq> [] \<Longrightarrow>
     (find_oldest old order = old \<or> (find_oldest old order \<in> set order \<and> \<not> job_active (find_oldest old order))) \<and>
     (jb_ID (find_oldest old order) = [] \<longrightarrow> jb_ID old = [] \<and> (\<forall>job \<in> set order. job_active job))"
proof (induction order arbitrary: old)
  case (Cons job jobs)
  let ?better = "\<not> job_active job \<and> (jb_ID old = [] \<or> instant_of (jb_CreatedAt job) < instant_of (jb_CreatedAt old))"
  show ?case
  proof (cases ?better)
    case True
    have e: "find_oldest old (job # jobs) = find_oldest job jobs" unfolding find_oldest.simps if_P [OF True] ..
    have "jb_ID job \<noteq> []" using Cons.prems by simp
    then show ?thesis unfolding e using Cons.IH [of job] Cons.prems True by (metis list.set_intros)
  next
    case False
    have e: "find_oldest old (job # jobs) = find_oldest old jobs" unfolding find_oldest.simps if_not_P [OF False] ..
    have "jb_ID old = [] \<longrightarrow> job_active job" using False by blast
    then show ?thesis unfolding e using Cons.IH [of old] Cons.prems by (metis list.set_intros set_ConsD)
  qed
qed simp

lemma order_facts:
  assumes "jobs_order jobs order" and "map_ok jobs"
  shows "set (map jb_ID order) = dom jobs" and "length order = card (dom jobs)" and "length (filter job_active order) = card (active_ids jobs)"
    and "\<forall>job \<in> set order. jb_ID job \<noteq> [] \<and> jobs (jb_ID job) = Some job"
proof -
  have d: "distinct (map jb_ID order)" and r: "set order = ran jobs" using assms(1) by (simp_all add: jobs_order_def)
  have id: "\<And>i job. jobs i = Some job \<Longrightarrow> jb_ID job = i \<and> i \<noteq> []" using assms(2) by (simp add: map_ok_def)
  have ids: "jb_ID ` {job \<in> ran jobs. P job} = {i. \<exists>job. jobs i = Some job \<and> P job}" for P
  proof (intro set_eqI iffI)
    fix i assume "i \<in> jb_ID ` {job \<in> ran jobs. P job}"
    then obtain job k where "i = jb_ID job" "jobs k = Some job" "P job" by (auto simp: ran_def)
    then show "i \<in> {i. \<exists>job. jobs i = Some job \<and> P job}" using id by blast
  next
    fix i assume "i \<in> {i. \<exists>job. jobs i = Some job \<and> P job}"
    then obtain job where "jobs i = Some job" "P job" by blast
    then have "job \<in> {job \<in> ran jobs. P job}" "jb_ID job = i" using id by (auto simp: ran_def)
    then show "i \<in> jb_ID ` {job \<in> ran jobs. P job}" by blast
  qed
  show dom: "set (map jb_ID order) = dom jobs" using r ids [of "\<lambda>_. True"] by (simp add: dom_def)
  show "length order = card (dom jobs)" using distinct_card [OF d] dom by simp
  have "distinct (map jb_ID (filter job_active order))" using d by (simp add: distinct_map inj_on_def)
  moreover have "set (map jb_ID (filter job_active order)) = active_ids jobs"
    using r ids [of job_active] by (simp add: active_ids_def Collect_conj_eq)
  ultimately show "length (filter job_active order) = card (active_ids jobs)" by (metis distinct_card length_map)
  show "\<forall>job \<in> set order. jb_ID job \<noteq> [] \<and> jobs (jb_ID job) = Some job"
  proof
    fix job assume "job \<in> set order"
    then obtain i where "jobs i = Some job" using r by (auto simp: ran_def)
    then show "jb_ID job \<noteq> [] \<and> jobs (jb_ID job) = Some job" using id by blast
  qed
qed

lemma state_delete:
  assumes "state_ok jobs rows" and "jobs i = Some old" and "\<not> job_active old"
  shows "state_ok (jobs(i := None)) (map_option (filter (\<lambda>r. jr_id r \<noteq> i)) rows)"
    and "active_ids (jobs(i := None)) = active_ids jobs" and "card (dom (jobs(i := None))) = card (dom jobs) - 1"
proof -
  have m: "map_ok jobs" and l: "lists_ok jobs" and c: "counts_ok jobs" and s: "store_ok jobs rows"
    using assms(1) by (simp_all add: state_ok_def)
  have f: "finite (dom jobs)" using m by (simp add: map_ok_def)
  have le: "card (dom jobs) - 1 \<le> 256" using c unfolding counts_ok_def by linarith
  show a: "active_ids (jobs(i := None)) = active_ids jobs" using assms(2,3) by (auto simp: active_ids_def)
  show d: "card (dom (jobs(i := None))) = card (dom jobs) - 1" using f assms(2) by (simp add: domI card_Diff_singleton del: fun_upd_apply)
  have "inj_on (\<lambda>k. jb_ListID (the ((jobs(i := None)) k))) (active_ids jobs)"
    using l unfolding lists_ok_def by (rule inj_on_cong [THEN iffD2, rotated]) (use assms(2,3) in \<open>auto simp: active_ids_def\<close>)
  then have "lists_ok (jobs(i := None))" by (simp add: lists_ok_def a)
  moreover have "map_ok (jobs(i := None))" using m by (simp add: map_ok_def)
  moreover have "counts_ok (jobs(i := None))" using c d le by (simp add: counts_ok_def a)
  moreover have "store_ok (jobs(i := None)) (map_option (filter (\<lambda>r. jr_id r \<noteq> i)) rows)"
    using s by (cases rows) (auto simp: store_ok_def row_ok_def distinct_map_filter)
  ultimately show "state_ok (jobs(i := None)) (map_option (filter (\<lambda>r. jr_id r \<noteq> i)) rows)" by (simp add: state_ok_def)
qed

lemma state_insert:
  assumes "state_ok jobs rows" and "jobs (jb_ID job) = None" and "jb_ID job \<noteq> []" and "job_typed job" and "job_active job"
    and "\<forall>i \<in> active_ids jobs. jb_ListID (the (jobs i)) \<noteq> jb_ListID job" and "card (active_ids jobs) < 64" and "card (dom jobs) < 256"
    and "Marshal_job job = Inr data \<or> rows = None"
  shows "state_ok (jobs(jb_ID job \<mapsto> job)) (map_option (upsert_job (jb_ID job) data) rows)"
proof -
  have m: "map_ok jobs" and l: "lists_ok jobs" and s: "store_ok jobs rows" using assms(1) by (simp_all add: state_ok_def)
  have f: "finite (dom jobs)" using m by (simp add: map_ok_def)
  have fa: "finite (active_ids jobs)" by (rule finite_subset [OF _ f]) (auto simp: active_ids_def)
  have new: "jb_ID job \<notin> active_ids jobs" using assms(2) by (simp add: active_ids_def)
  have a: "active_ids (jobs(jb_ID job \<mapsto> job)) = insert (jb_ID job) (active_ids jobs)" using assms(5) by (simp add: active_replace)
  have "inj_on (\<lambda>i. jb_ListID (the ((jobs(jb_ID job \<mapsto> job)) i))) (active_ids jobs)"
    using l unfolding lists_ok_def by (rule inj_on_cong [THEN iffD2, rotated]) (use new in auto)
  moreover have "jb_ListID job \<notin> (\<lambda>i. jb_ListID (the ((jobs(jb_ID job \<mapsto> job)) i))) ` (active_ids jobs - {jb_ID job})"
    using assms(6) by auto
  ultimately have "lists_ok (jobs(jb_ID job \<mapsto> job))" unfolding lists_ok_def a by simp
  moreover have "counts_ok (jobs(jb_ID job \<mapsto> job))"
    using assms(2,7,8) f fa new by (simp add: counts_ok_def a) (metis Suc_leI card_insert_disjoint domIff)
  ultimately show ?thesis
    using map_replace [OF m assms(3,4)] store_upsert [OF s assms(9,4)] by (simp add: state_ok_def)
qed

lemma evict_cases:
  assumes "evict order j = (r, j')" and "jobs_order (rj_jobs j) order" and "state_ok (rj_jobs j) (rows_of (rj_db j))"
  obtains (failed) e db where "r = Inl e" and "j' = j\<lparr>rj_db := db\<rparr>" and "rows_of db = rows_of (rj_db j)"
  | (kept) "r = Inr ()" and "j' = j" and "card (dom (rj_jobs j)) < 256 \<or> card (active_ids (rj_jobs j)) = card (dom (rj_jobs j))"
  | (evicted) i old db where "r = Inr ()" and "j' = j\<lparr>rj_db := db, rj_jobs := (rj_jobs j)(i := None)\<rparr>" and "rj_jobs j i = Some old"
      and "\<not> job_active old" and "rows_of db = map_option (filter (\<lambda>r. jr_id r \<noteq> i)) (rows_of (rj_db j))"
proof -
  have m: "map_ok (rj_jobs j)" using assms(3) by (simp add: state_ok_def)
  note o = order_facts [OF assms(2) m]
  let ?old = "find_oldest zero_job order"
  note old = find_oldest_spec [of order zero_job]
  show thesis
  proof (cases "length order \<ge> 256")
    case False
    then show thesis using assms(1) kept o(2) by (simp add: evict_def)
  next
    case True
    show thesis
    proof (cases "jb_ID ?old = []")
      case empty: True
      then have "filter job_active order = order" using old o(4) by (simp add: filter_id_conv)
      then show thesis using assms(1) True empty kept o(2,3) by (simp add: evict_def)
    next
      case False
      have in_map: "rj_jobs j (jb_ID ?old) = Some ?old" "\<not> job_active ?old"
        using old o(4) False by (auto simp: zero_job_def)
      obtain r1 db where d: "delete_job (jb_ID ?old) (rj_db j) = (r1, db)" by fastforce
      have rows: "case r1 of Inl _ \<Rightarrow> rows_of db = rows_of (rj_db j)
          | Inr _ \<Rightarrow> rows_of db = map_option (filter (\<lambda>r. jr_id r \<noteq> jb_ID ?old)) (rows_of (rj_db j))"
        using d by (cases "rj_db j") (auto simp: delete_job_def rows_of_def sql_run_def then_do_def sql_poll_def split: prod.splits if_splits)
      show thesis
      proof (cases r1)
        case (Inl e)
        then show thesis using failed [of e db] assms(1) True False rows by (auto simp: evict_def d Let_def)
      next
        case (Inr u)
        then show thesis using evicted [where i = "jb_ID ?old" and old = ?old and db = db] assms(1) True False in_map rows
          by (auto simp: evict_def d Let_def)
      qed
    qed
  qed
qed

text \<open>\<open>Submit\<close> keeps the invariant and does one of four things.\<close>

lemma id_text: "token \<noteq> [] \<Longrightarrow> EncodeToString token \<noteq> []"
  by (cases token) (simp_all add: EncodeToString_def)

lemma position_insert:
  assumes "position_ok jobs queue pc" and "jobs (jb_ID job) = None" and "job_active job"
  shows "position_ok (jobs(jb_ID job \<mapsto> job)) (queue @ [jb_ID job]) pc"
  using assms unfolding position_ok_def active_replace by (auto simp: held_ok_def active_ids_def)

lemma position_delete:
  assumes "position_ok jobs queue pc" and "jobs i = Some old" and "\<not> job_active old"
  shows "position_ok (jobs(i := None)) queue pc"
proof -
  have "active_ids (jobs(i := None)) = active_ids jobs" using assms(2,3) by (auto simp: active_ids_def)
  moreover have "held_ok jobs queue h \<Longrightarrow> held_ok (jobs(i := None)) queue h" for h using assms(2,3) by (auto simp: held_ok_def)
  ultimately show ?thesis using assms(1) by (simp add: position_ok_def)
qed

lemma evict_ok:
  assumes "evict order j = (r, j')" and "jobs_order (rj_jobs j) order" and "jobs_ok (j, pc)"
  shows "jobs_ok (j', pc)" and "active_ids (rj_jobs j') = active_ids (rj_jobs j)" and "\<forall>i \<in> active_ids (rj_jobs j). rj_jobs j' i = rj_jobs j i"
    and "dom (rj_jobs j') \<subseteq> dom (rj_jobs j)"
    and "r = Inr u \<Longrightarrow> card (active_ids (rj_jobs j)) < 64 \<Longrightarrow> card (dom (rj_jobs j')) < 256"
    and "rj_queue j' = rj_queue j" and "rj_cancelled j' = rj_cancelled j" and "rj_wake j' = rj_wake j" and "rj_done j' = rj_done j"
proof -
  have s: "state_ok (rj_jobs j) (rows_of (rj_db j))" and p: "position_ok (rj_jobs j) (rj_queue j) pc" and w: "wake_ok (j, pc)"
    using jobs_okD [OF assms(3)] by simp_all
  have c: "card (dom (rj_jobs j)) \<le> 256" using s by (simp add: state_ok_def counts_ok_def)
  have "jobs_ok (j', pc) \<and> active_ids (rj_jobs j') = active_ids (rj_jobs j) \<and> (\<forall>i \<in> active_ids (rj_jobs j). rj_jobs j' i = rj_jobs j i) \<and>
      dom (rj_jobs j') \<subseteq> dom (rj_jobs j) \<and>
      (is_ok r \<longrightarrow> card (active_ids (rj_jobs j)) < 64 \<longrightarrow> card (dom (rj_jobs j')) < 256) \<and>
      rj_queue j' = rj_queue j \<and> rj_cancelled j' = rj_cancelled j \<and> rj_wake j' = rj_wake j \<and> rj_done j' = rj_done j"
    using assms(1,2) s
  proof (cases rule: evict_cases)
    case (failed e db)
    then show ?thesis using assms(3) by (simp add: jobs_ok_def wake_ok_def)
  next
    case kept
    then show ?thesis using assms(3) by auto
  next
    case (evicted i old db)
    note d = state_delete [OF s evicted(3,4)]
    have i: "i \<in> dom (rj_jobs j)" using evicted(3) by blast
    then have "card (dom (rj_jobs j)) > 0" using s by (auto simp: state_ok_def map_ok_def card_gt_0_iff)
    then have "card (dom ((rj_jobs j)(i := None))) < 256" using d(3) c by linarith
    moreover have "\<forall>k \<in> active_ids (rj_jobs j). k \<noteq> i" using evicted(3,4) by (auto simp: active_ids_def)
    ultimately show ?thesis
      using evicted d position_delete [OF p evicted(3,4)] w by (auto simp: jobs_ok_def wake_ok_def)
  qed
  then show "jobs_ok (j', pc)" and "active_ids (rj_jobs j') = active_ids (rj_jobs j)" and "\<forall>i \<in> active_ids (rj_jobs j). rj_jobs j' i = rj_jobs j i"
    and "dom (rj_jobs j') \<subseteq> dom (rj_jobs j)"
    and "r = Inr u \<Longrightarrow> card (active_ids (rj_jobs j)) < 64 \<Longrightarrow> card (dom (rj_jobs j')) < 256"
    and "rj_queue j' = rj_queue j" and "rj_cancelled j' = rj_cancelled j" and "rj_wake j' = rj_wake j" and "rj_done j' = rj_done j"
    by auto
qed

lemma submit_new:
  assumes "jobs_ok (j, pc)" and "\<not> rj_cancelled j" and "job_active job" and "job_typed job" and "jb_ID job \<noteq> []" and "rj_jobs j (jb_ID job) = None"
    and "\<forall>i \<in> active_ids (rj_jobs j). jb_ListID (the (rj_jobs j i)) \<noteq> jb_ListID job"
    and "card (active_ids (rj_jobs j)) < 64" and "card (dom (rj_jobs j)) < 256"
    and "rows_of db = map_option (upsert_job (jb_ID job) data) (rows_of (rj_db j))"
    and "Marshal_job job = Inr data \<or> rows_of (rj_db j) = None"
  shows "jobs_ok (j\<lparr>rj_db := db, rj_jobs := (rj_jobs j)(jb_ID job \<mapsto> job), rj_queue := rj_queue j @ [jb_ID job], rj_wake := True\<rparr>, pc)"
proof (rule jobs_okI)
  show "wake_ok (j\<lparr>rj_db := db, rj_jobs := (rj_jobs j)(jb_ID job \<mapsto> job), rj_queue := rj_queue j @ [jb_ID job], rj_wake := True\<rparr>, pc)"
    using jobs_okD(3) [OF assms(1)] by (simp add: wake_ok_def)
qed (use state_insert [OF jobs_okD(1) [OF assms(1)] assms(6,5,4,3,7-9,11)] position_insert [OF jobs_okD(2) [OF assms(1)] assms(6,3)] assms(10) in simp_all)

text \<open>What a submission to a running queue comes to.\<close>

lemma Submit_cases:
  assumes "Submit clock random order listID j = (r, j')" and "jobs_ok (j, pc)" and "jobs_order (rj_jobs j) order" and "int64_range listID"
    and fresh: "\<forall>token. random = Inr token \<longrightarrow> token \<noteq> [] \<and> rj_jobs j (EncodeToString token) = None"
  obtains (cancelled) "rj_cancelled j" and "r = Inl context_Canceled" and "j' = j"
  | (present) job where "\<not> rj_cancelled j" and "r = Inr job" and "j' = j" and "jb_ListID job = listID" and "job_active job" and "rj_jobs j (jb_ID job) = Some job"
  | (full) "\<not> rj_cancelled j" and "r = Inl errRefreshQueueFull" and "j' = j" and "card (active_ids (rj_jobs j)) \<ge> 64"
      and "\<forall>i \<in> active_ids (rj_jobs j). jb_ListID (the (rj_jobs j i)) \<noteq> listID"
  | (refused) e where "\<not> rj_cancelled j" and "r = Inl e" and "jobs_ok (j', pc)" and "\<forall>i \<in> active_ids (rj_jobs j). rj_jobs j' i = rj_jobs j i"
      and "card (active_ids (rj_jobs j)) < 64" and "\<forall>i \<in> active_ids (rj_jobs j). jb_ListID (the (rj_jobs j i)) \<noteq> listID"
  | (accepted) job where "\<not> rj_cancelled j" and "r = Inr job" and "jobs_ok (j', pc)"
      and "jb_ListID job = listID" and "jb_Status job = ''queued''" and "rj_jobs j (jb_ID job) = None" and "rj_jobs j' (jb_ID job) = Some job"
      and "\<forall>i \<in> active_ids (rj_jobs j). rj_jobs j' i = rj_jobs j i" and "rj_queue j' = rj_queue j @ [jb_ID job]" and "rj_wake j'"
      and "card (active_ids (rj_jobs j)) < 64" and "\<forall>i \<in> active_ids (rj_jobs j). jb_ListID (the (rj_jobs j i)) \<noteq> listID"
proof (cases "rj_cancelled j")
  case True
  then have "r = Inl context_Canceled \<and> j' = j" using assms(1) by (auto simp: Submit_def)
  with True show thesis using cancelled by blast
next
  case False
  have m: "map_ok (rj_jobs j)" using jobs_okD(1) [OF assms(2)] by (simp add: state_ok_def)
  note o = order_facts [OF assms(3) m]
  show thesis
  proof (cases "scan_active listID 0 order")
    case (Inl job)
    then have "r = Inr job \<and> j' = j" using assms(1) False by (auto simp: Submit_def)
    then show thesis using present [of job] False scan_active_Inl [OF Inl] o(4) by blast
  next
    case (Inr active)
    have c: "active = card (active_ids (rj_jobs j))" and n: "\<forall>job \<in> set order. job_active job \<longrightarrow> jb_ListID job \<noteq> listID"
      using scan_active_Inr [OF Inr] o(3) by simp_all
    have other: "\<forall>i \<in> active_ids (rj_jobs j). jb_ListID (the (rj_jobs j i)) \<noteq> listID"
      using n assms(3) by (auto simp: active_ids_def jobs_order_def ran_def)
    show thesis
    proof (cases "active \<ge> 64")
      case True
      then have "r = Inl errRefreshQueueFull \<and> j' = j" using assms(1) False Inr by (auto simp: Submit_def)
      then show thesis using full False True c other by blast
    next
      case room: False
      then have few: "card (active_ids (rj_jobs j)) < 64" using c by simp
      obtain r1 j1 where e: "evict order j = (r1, j1)" by fastforce
      note ev = evict_ok [OF e assms(3,2)]
      show thesis
      proof (cases r1)
        case (Inl err)
        then have "r = Inl err \<and> j' = j1" using assms(1) False \<open>scan_active listID 0 order = Inr active\<close> room e by (auto simp: Submit_def then_do_def)
        then show thesis using refused [of err] False ev few other by blast
      next
        case (Inr u)
        show thesis
        proof (cases random)
          case (Inl err)
          then have "r = Inl err \<and> j' = j1"
            using assms(1) False \<open>scan_active listID 0 order = Inr active\<close> room e \<open>r1 = Inr u\<close> by (auto simp: Submit_def then_do_def)
          then show thesis using refused [of err] False ev few other by blast
        next
          case (Inr token)
          let ?job = "new_job clock (EncodeToString token) listID"
          obtain r2 db where s: "job_save ?job (rj_db j1) = (r2, db)" by fastforce
          have sub: "Submit clock random order listID j =
              (case r2 of Inl err \<Rightarrow> (Inl err, j1\<lparr>rj_db := db\<rparr>)
               | Inr _ \<Rightarrow> (Inr ?job, j1\<lparr>rj_db := db, rj_jobs := (rj_jobs j1)(jb_ID ?job \<mapsto> ?job), rj_queue := rj_queue j1 @ [jb_ID ?job], rj_wake := True\<rparr>))"
            using False \<open>scan_active listID 0 order = Inr active\<close> room e \<open>r1 = Inr u\<close> Inr s
            by (simp add: Submit_def then_do_def Let_def split: sum.split)
          from s show thesis
          proof (cases rule: job_save_cases)
            case (failed err)
            then have "jobs_ok (j1\<lparr>rj_db := db\<rparr>, pc)" using ev(1) by (simp add: jobs_ok_def wake_ok_def)
            moreover have "r = Inl err \<and> j' = j1\<lparr>rj_db := db\<rparr>" using assms(1) sub failed(1) by auto
            ultimately show thesis using refused [of err] False ev few other by auto
          next
            case (saved data)
            have t: "job_typed ?job" "job_active ?job" using assms(4) by (simp_all add: new_job_def job_typed_def job_active_def)
            have i: "jb_ID ?job \<noteq> []" "rj_jobs j (jb_ID ?job) = None" using fresh Inr id_text by (auto simp: new_job_def)
            then have i1: "rj_jobs j1 (jb_ID ?job) = None" using ev(4) by (metis domIff subsetD)
            have l: "\<forall>i \<in> active_ids (rj_jobs j1). jb_ListID (the (rj_jobs j1 i)) \<noteq> jb_ListID ?job"
              using other ev(2,3) by (simp add: new_job_def)
            have r: "r = Inr ?job" and j': "j' = j1\<lparr>rj_db := db, rj_jobs := (rj_jobs j1)(jb_ID ?job \<mapsto> ?job), rj_queue := rj_queue j1 @ [jb_ID ?job], rj_wake := True\<rparr>"
              using assms(1) sub saved(1) by auto
            have "jobs_ok (j', pc)" unfolding j'
              using submit_new [OF ev(1) _ t(2,1) i(1) i1 l _ _ saved(2,3)] ev(2,5,7) \<open>r1 = Inr u\<close> room c False by simp
            moreover have "\<forall>i \<in> active_ids (rj_jobs j). rj_jobs j' i = rj_jobs j i"
              unfolding j' using ev(3) i(2) by (auto simp: active_ids_def)
            moreover have "jb_ListID ?job = listID" "jb_Status ?job = ''queued''" by (simp_all add: new_job_def)
            moreover have "rj_jobs j' (jb_ID ?job) = Some ?job" "rj_queue j' = rj_queue j @ [jb_ID ?job]" "rj_wake j'"
              unfolding j' using ev(6) by simp_all
            ultimately show thesis using accepted [of ?job] False r i(2) few other by blast
          qed
        qed
      qed
    qed
  qed
qed

lemma step_ok: "job_step has_reloader s s' \<Longrightarrow> jobs_ok s \<Longrightarrow> jobs_ok s'"
proof (induction rule: job_step.induct)
  case (worker s s')
  then show ?case by (rule move_ok)
next
  case (submit j order listID random clock r j' pc)
  from submit(4,5,1,2,3) show ?case
    by (cases rule: Submit_cases) (use submit(5) in simp_all)
next
  case (cancel j pc)
  then show ?case by (auto simp: jobs_ok_def wake_ok_def)
qed

lemma reachable_ok: "job_reachable has_reloader j0 s \<Longrightarrow> jobs_ok (j0, AtSelect) \<Longrightarrow> jobs_ok s"
  by (induction rule: job_reachable.induct) (auto intro: step_ok)

section \<open>Starting\<close>

definition row_job :: "job_row \<Rightarrow> refresh_job" where
  "row_job r = (case Unmarshal_job (jr_payload r) of Inl _ \<Rightarrow> zero_job | Inr job \<Rightarrow> job)"

definition restored :: "instant \<Rightarrow> refresh_job \<Rightarrow> refresh_job" where
  "restored clock job = (if job_active job then requeued clock job else job)"

lemma add_update: "m i = None \<Longrightarrow> jobs(i \<mapsto> x) ++ m = jobs ++ m(i \<mapsto> x)"
  by (rule ext) (simp add: map_add_def split: option.split)

abbreviation restored_rows :: "instant \<Rightarrow> job_row list \<Rightarrow> string \<rightharpoonup> refresh_job" where
  "restored_rows clock rows \<equiv> map_of (map (\<lambda>r. (jr_id r, restored clock (row_job r))) rows)"

lemma recover_rows_ok:
  assumes "\<forall>r \<in> set rows. Unmarshal_job (jr_payload r) = Inr (row_job r) \<and> jb_ID (row_job r) = jr_id r" and "distinct (map jr_id rows)"
  shows "recover_rows clock (map jr_payload rows) (jobs, queue, recovered) =
    Inr (jobs ++ restored_rows clock rows, queue @ map jr_id (filter (\<lambda>r. job_active (row_job r)) rows),
      recovered @ map (\<lambda>r. requeued clock (row_job r)) (filter (\<lambda>r. job_active (row_job r)) rows))"
  using assms
proof (induction rows arbitrary: jobs queue recovered)
  case (Cons r rs)
  have r: "Unmarshal_job (jr_payload r) = Inr (row_job r)" "jb_ID (row_job r) = jr_id r" using Cons.prems(1) by simp_all
  have q: "jb_ID (restored clock (row_job r)) = jr_id r" using r(2) by (simp add: restored_def requeued_def)
  have "restored_rows clock rs (jr_id r) = None" using Cons.prems(2) by (auto simp: map_of_eq_None_iff)
  note a = add_update [where m = "restored_rows clock rs" and i = "jr_id r" and jobs = jobs and x = "restored clock (row_job r)", OF this]
  have e: "restored_rows clock (r # rs) = (restored_rows clock rs)(jr_id r \<mapsto> restored clock (row_job r))" by simp
  note IH = Cons.IH [of "jobs(jr_id r \<mapsto> restored clock (row_job r))"]
  show ?case
  proof (cases "job_active (row_job r)")
    case True
    then have "restored clock (row_job r) = requeued clock (row_job r)" by (simp add: restored_def)
    then show ?thesis using IH [of "queue @ [jr_id r]" "recovered @ [requeued clock (row_job r)]"] Cons.prems r q True
      unfolding e a [symmetric] by (simp add: Let_def fun_upd_def)
  next
    case False
    then have "restored clock (row_job r) = row_job r" by (simp add: restored_def)
    then show ?thesis using IH [of queue recovered] Cons.prems r q False
      unfolding e a [symmetric] by (simp add: fun_upd_def)
  qed
qed simp

lemma save_all:
  assumes "\<forall>job \<in> set js. job_writable job" and "db_faults d = []"
  shows "\<exists>us d'. for_each job_save js (Some d) = (Inr us, Some d') \<and> db_faults d' = []"
  using assms
proof (induction js arbitrary: d)
  case (Cons job js)
  let ?d = "d\<lparr>db_tables := upsert_job (jb_ID job) (Marshal (encode_struct job_fields job)) (db_tables d)\<rparr>"
  have "job_save job (Some d) = (Inr (), Some ?d)"
    using Cons.prems by (simp add: job_save_def Marshal_job_def sql_run_def then_do_def sql_poll_def)
  moreover obtain us d' where "for_each job_save js (Some ?d) = (Inr us, Some d')" "db_faults d' = []"
    using Cons.IH [of ?d] Cons.prems by auto
  ultimately show ?case by (simp add: then_do_def)
qed simp

text \<open>A start without failures of the driver, over rows whose payloads are read.\<close>

lemma NewRefreshJobs_rows:
  assumes "\<forall>r \<in> set rows. Unmarshal_job (jr_payload r) = Inr (row_job r) \<and> jb_ID (row_job r) = jr_id r \<and> job_writable (row_job r)"
    and "distinct (map jr_id rows)" and "time_writable (time_of clock)"
  shows "\<exists>j db. NewRefreshJobs clock (Some \<lparr>db_tables = rows, db_faults = []\<rparr>) = (Inr j, db) \<and>
    rj_jobs j = restored_rows clock rows \<and>
    rj_queue j = map jr_id (filter (\<lambda>r. job_active (row_job r)) rows) \<and> rj_wake j \<and> \<not> rj_cancelled j"
proof -
  let ?rec = "map (\<lambda>r. requeued clock (row_job r)) (filter (\<lambda>r. job_active (row_job r)) rows)"
  have "\<forall>job \<in> set ?rec. job_writable job" using assms(1,3) by (auto simp: requeued_def job_writable_def)
  then obtain us d' where s: "for_each job_save ?rec (Some \<lparr>db_tables = rows, db_faults = []\<rparr>) = (Inr us, Some d')"
    using save_all [of ?rec "\<lparr>db_tables = rows, db_faults = []\<rparr>"] by auto
  have "recover_rows clock (map jr_payload rows) (Map.empty, [], []) =
      Inr (restored_rows clock rows, map jr_id (filter (\<lambda>r. job_active (row_job r)) rows), ?rec)"
    using recover_rows_ok [of rows clock Map.empty "[]" "[]"] assms(1,2) by simp
  then show ?thesis using s by (simp add: NewRefreshJobs_def then_do_def sql_poll_def)
qed

lemma NewRefreshJobs_empty:
  assumes "NewRefreshJobs clock db = (Inr j0, db')" and "rows_of db = None \<or> rows_of db = Some []"
  shows "jobs_ok (j0, AtSelect)"
proof -
  have "rj_jobs j0 = Map.empty \<and> rj_queue j0 = [] \<and> (rows_of (rj_db j0) = None \<or> rows_of (rj_db j0) = Some []) \<and> \<not> rj_cancelled j0"
  proof (cases db)
    case None
    then show ?thesis using assms(1) by (auto simp: NewRefreshJobs_def rows_of_def)
  next
    case (Some d)
    then have "db_tables d = []" using assms(2) by (simp add: rows_of_def)
    then show ?thesis using assms(1) Some
      by (auto simp: NewRefreshJobs_def then_do_def sql_poll_def rows_of_def split: prod.splits sum.splits if_splits)
  qed
  then show ?thesis
    by (auto simp: jobs_ok_def state_ok_def map_ok_def lists_ok_def counts_ok_def store_ok_def active_ids_def position_ok_def wake_ok_def)
qed

text \<open>
  Rows as a run leaves them when the last save of each job went well: they are read back, no two active ones are of one list, and they keep the bounds.
\<close>

definition saved_ok :: "job_row list \<Rightarrow> bool" where
  "saved_ok rows \<longleftrightarrow> distinct (map jr_id rows) \<and>
     (\<forall>r \<in> set rows. jr_id r \<noteq> [] \<and> Unmarshal_job (jr_payload r) = Inr (row_job r) \<and> jb_ID (row_job r) = jr_id r \<and>
        job_typed (row_job r) \<and> job_writable (row_job r)) \<and>
     (\<forall>r \<in> set rows. \<forall>r' \<in> set rows. job_active (row_job r) \<and> job_active (row_job r') \<and>
        jb_ListID (row_job r) = jb_ListID (row_job r') \<longrightarrow> r = r') \<and>
     length (filter (\<lambda>r. job_active (row_job r)) rows) \<le> 64 \<and> length rows \<le> 256"

lemma requeued_fields [simp]:
  "job_active (requeued clock job)" "jb_ID (requeued clock job) = jb_ID job" "jb_ListID (requeued clock job) = jb_ListID job"
  "job_typed job \<Longrightarrow> job_typed (requeued clock job)"
  by (simp_all add: requeued_def job_active_def job_typed_def)

lemma restored_fields [simp]:
  "job_active (restored clock job) = job_active job" "jb_ID (restored clock job) = jb_ID job" "jb_ListID (restored clock job) = jb_ListID job"
  "job_typed job \<Longrightarrow> job_typed (restored clock job)"
  by (simp_all add: restored_def)

lemma map_of_override:
  "distinct (map k rows) \<Longrightarrow> map_of (map (\<lambda>r. (k r, f r)) rows) ++ map_of (map (\<lambda>r. (k r, g r)) (filter P rows)) =
     map_of (map (\<lambda>r. (k r, if P r then g r else f r)) rows)"
proof (induction rows)
  case (Cons r rows)
  have "map_of (map (\<lambda>r. (k r, g r)) (filter P rows)) (k r) = None" using Cons.prems by (auto simp: map_of_eq_None_iff)
  then show ?case using Cons by (auto simp: fun_eq_iff map_add_def split: option.splits)
qed simp

definition put_job :: "refresh_job \<Rightarrow> (string \<rightharpoonup> refresh_job) \<Rightarrow> string \<rightharpoonup> refresh_job" where
  "put_job job m = m(jb_ID job \<mapsto> job)"

lemma saves_store:
  assumes "for_each job_save js db = (Inr us, db')" and "\<forall>job \<in> set js. job_typed job" and "store_ok m (rows_of db)"
  shows "store_ok (fold put_job js m) (rows_of db')"
  using assms
proof (induction js arbitrary: us db m)
  case (Cons job js)
  obtain us' db1 where a: "job_save job db = (Inr (), db1)" and b: "for_each job_save js db1 = (Inr us', db')"
    using Cons.prems(1) by (auto simp: then_do_eq_Inr)
  obtain data where "rows_of db1 = map_option (upsert_job (jb_ID job) data) (rows_of db)" "Marshal_job job = Inr data \<or> rows_of db = None"
    using job_save_cases [OF a] by (metis Inl_Inr_False)
  then have "store_ok (put_job job m) (rows_of db1)" unfolding put_job_def using store_upsert Cons.prems(2,3) by auto
  then show ?case using Cons.IH [OF b] Cons.prems(2) by simp
qed simp

lemma fold_updates: "distinct (map jb_ID js) \<Longrightarrow> fold put_job js m = m ++ map_of (map (\<lambda>job. (jb_ID job, job)) js)"
proof (induction js arbitrary: m)
  case (Cons job js)
  have "map_of (map (\<lambda>job. (jb_ID job, job)) js) (jb_ID job) = None" using Cons.prems by (auto simp: map_of_eq_None_iff)
  note a = add_update [where m = "map_of (map (\<lambda>job. (jb_ID job, job)) js)", OF this, of m job]
  show ?case using Cons by (simp add: put_job_def a del: fun_upd_apply)
qed simp

lemma restored_ok:
  assumes "saved_ok rows"
  shows "map_ok (restored_rows clock rows)" and "lists_ok (restored_rows clock rows)" and "counts_ok (restored_rows clock rows)"
    and "active_ids (restored_rows clock rows) = set (map jr_id (filter (\<lambda>r. job_active (row_job r)) rows))"
proof -
  let ?m = "restored_rows clock rows"
  have d: "distinct (map jr_id rows)" using assms by (simp add: saved_ok_def)
  have r: "jr_id r \<noteq> []" "jb_ID (row_job r) = jr_id r" "job_typed (row_job r)" if "r \<in> set rows" for r
    using assms that by (simp_all add: saved_ok_def)
  have at: "?m i = Some job \<longleftrightarrow> (\<exists>r \<in> set rows. i = jr_id r \<and> job = restored clock (row_job r))" for i job
    using map_of_eq_Some_iff [of "map (\<lambda>r. (jr_id r, restored clock (row_job r))) rows" i job] d by (auto simp: comp_def)
  have dom: "dom ?m = jr_id ` set rows" by (simp add: dom_map_of_conv_image_fst image_image)
  show "map_ok ?m" unfolding map_ok_def dom at using r by auto
  show act: "active_ids ?m = set (map jr_id (filter (\<lambda>r. job_active (row_job r)) rows))"
    unfolding active_ids_def at by auto
  show "lists_ok ?m"
    unfolding lists_ok_def
  proof (rule inj_onI)
    fix i i' assume i: "i \<in> active_ids ?m" "i' \<in> active_ids ?m" and eq: "jb_ListID (the (?m i)) = jb_ListID (the (?m i'))"
    obtain r r' where rr: "r \<in> set rows" "job_active (row_job r)" "i = jr_id r" "r' \<in> set rows" "job_active (row_job r')" "i' = jr_id r'"
      using i unfolding act by auto
    have "?m i = Some (restored clock (row_job r))" "?m i' = Some (restored clock (row_job r'))" using at rr by blast+
    then have "jb_ListID (row_job r) = jb_ListID (row_job r')" using eq by simp
    then have "r = r'" using assms rr(1,2,4,5) by (simp add: saved_ok_def)
    then show "i = i'" using rr by simp
  qed
  have "card (active_ids ?m) \<le> length (filter (\<lambda>r. job_active (row_job r)) rows)"
    unfolding act by (metis card_length length_map)
  moreover have "card (dom ?m) \<le> length rows" unfolding dom by (metis card_length length_map set_map)
  ultimately show "counts_ok ?m" using assms by (simp add: counts_ok_def saved_ok_def)
qed

text \<open>A start on such rows, whatever calls of the driver fail, gives a queue in good order or an error.\<close>

lemma NewRefreshJobs_saved:
  assumes "NewRefreshJobs clock db = (Inr j0, db')" and "rows_of db = None \<or> (\<exists>rows. rows_of db = Some rows \<and> saved_ok rows)"
  shows "jobs_ok (j0, AtSelect)"
proof (cases db)
  case None
  then show ?thesis using NewRefreshJobs_empty [OF assms(1)] by (simp add: rows_of_def)
next
  case (Some d)
  let ?rows = "db_tables d" and ?act = "\<lambda>r. job_active (row_job r)"
  let ?rec = "map (\<lambda>r. requeued clock (row_job r)) (filter ?act ?rows)" and ?m = "restored_rows clock ?rows"
  have sv: "saved_ok ?rows" using assms(2) Some by (simp add: rows_of_def)
  have d: "distinct (map jr_id ?rows)"
    and r: "\<forall>r \<in> set ?rows. Unmarshal_job (jr_payload r) = Inr (row_job r) \<and> jb_ID (row_job r) = jr_id r \<and> job_typed (row_job r) \<and> job_writable (row_job r)"
    using sv by (simp_all add: saved_ok_def)
  have rec: "recover_rows clock (map jr_payload ?rows) (Map.empty, [], []) = Inr (?m, map jr_id (filter ?act ?rows), ?rec)"
    using recover_rows_ok [of ?rows clock Map.empty "[]" "[]"] r d by simp
  let ?load = "then_do (sql_poll db_error) (\<lambda>_. then_do (get_state (\<lambda>d. map jr_payload (db_tables d))) (\<lambda>payloads.
     then_do (lift_result (recover_rows clock payloads (Map.empty, [], []))) (\<lambda>acc. then_do (sql_poll db_error) (\<lambda>_. ret acc))))"
  obtain x d1 where x: "?load d = (x, d1)" by fastforce
  obtain acc where acc: "x = Inr acc" using assms(1) Some x by (cases x) (simp_all add: NewRefreshJobs_def)
  obtain u d0 where "sql_poll db_error d = (Inr u, d0)" and "recover_rows clock (map jr_payload (db_tables d0)) (Map.empty, [], []) = Inr acc"
    and "sql_poll db_error d0 = (Inr (), d1)"
    using x acc by (auto simp: then_do_eq_Inr get_state_def lift_result_def)
  then have t: "db_tables d1 = ?rows" and acc': "acc = (?m, map jr_id (filter ?act ?rows), ?rec)"
    using rec by (auto simp: sql_poll_def split: prod.splits if_splits)
  obtain us where s: "for_each job_save ?rec (Some d1) = (Inr us, rj_db j0)"
    and j0: "rj_jobs j0 = ?m" "rj_queue j0 = map jr_id (filter ?act ?rows)" "rj_wake j0" "\<not> rj_cancelled j0"
    using assms(1) Some x acc acc' by (auto simp: NewRefreshJobs_def Let_def split: prod.splits sum.splits)
  let ?old = "map_of (map (\<lambda>r. (jr_id r, row_job r)) ?rows)"
  have old: "?old (jr_id r) = Some (row_job r)" if "r \<in> set ?rows" for r
    by (rule map_of_is_SomeI) (use d that in \<open>auto simp: comp_def\<close>)
  have "store_ok ?old (rows_of (Some d1))"
    using r d old t by (auto simp: store_ok_def rows_of_def row_ok_def dom_map_of_conv_image_fst image_image)
  moreover have "\<forall>job \<in> set ?rec. job_typed job" using r by auto
  ultimately have st: "store_ok (fold put_job ?rec ?old) (rows_of (rj_db j0))" using saves_store [OF s] by blast
  have ids: "map jb_ID ?rec = map jr_id (filter ?act ?rows)" using r by simp
  have "distinct (map jb_ID ?rec)" unfolding ids using d by (simp add: distinct_map_filter)
  note f = fold_updates [OF this, of ?old]
  have keys: "map (\<lambda>job. (jb_ID job, job)) ?rec = map (\<lambda>r. (jr_id r, requeued clock (row_job r))) (filter ?act ?rows)" using r by simp
  have "fold put_job ?rec ?old = ?m"
    unfolding f keys using map_of_override [OF d, of row_job "\<lambda>r. requeued clock (row_job r)" ?act] by (simp add: restored_def [abs_def] if_distrib)
  then have "state_ok (rj_jobs j0) (rows_of (rj_db j0))" using st restored_ok [OF sv, of clock] j0 by (simp add: state_ok_def)
  moreover have "position_ok (rj_jobs j0) (rj_queue j0) AtSelect"
    using restored_ok(4) [OF sv, of clock] d j0 by (simp add: position_ok_def distinct_map_filter)
  ultimately show ?thesis using j0 by (simp add: jobs_ok_def wake_ok_def)
qed

text \<open>The rows of a run that holds no job otherwise than its row are again rows to start on.\<close>

lemma agreeing_rows_saved:
  assumes "state_ok jobs (Some rows)" and "\<forall>r \<in> set rows. jobs (jr_id r) = Some (row_job r)"
  shows "saved_ok rows"
proof -
  have m: "map_ok jobs" and l: "lists_ok jobs" and c: "counts_ok jobs" and d: "distinct (map jr_id rows)" and dom: "jr_id ` set rows = dom jobs"
    and ok: "\<forall>r \<in> set rows. row_ok jobs r"
    using assms(1) by (simp_all add: state_ok_def store_ok_def)
  have one: "jr_id r \<noteq> [] \<and> Unmarshal_job (jr_payload r) = Inr (row_job r) \<and> jb_ID (row_job r) = jr_id r \<and>
      job_typed (row_job r) \<and> job_writable (row_job r)" if r: "r \<in> set rows" for r
  proof -
    obtain saved where "Unmarshal_job (jr_payload r) = Inr saved" "job_writable saved" using ok r by (auto simp: row_ok_def)
    then have "Unmarshal_job (jr_payload r) = Inr (row_job r)" "job_writable (row_job r)" by (simp_all add: row_job_def)
    then show ?thesis using m assms(2) r by (auto simp: map_ok_def)
  qed
  have same: "r = r'" if "r \<in> set rows" "r' \<in> set rows" "job_active (row_job r)" "job_active (row_job r')"
      "jb_ListID (row_job r) = jb_ListID (row_job r')" for r r'
    using lists_unique [OF l] assms(2) that d by (metis distinct_map inj_on_eq_iff)
  have "set (map jr_id (filter (\<lambda>r. job_active (row_job r)) rows)) \<subseteq> active_ids jobs" using assms(2) by (auto simp: active_ids_def)
  moreover have "finite (active_ids jobs)" using m by (auto simp: map_ok_def active_ids_def dom_def elim: rev_finite_subset)
  ultimately have "card (set (map jr_id (filter (\<lambda>r. job_active (row_job r)) rows))) \<le> card (active_ids jobs)" by (rule card_mono [rotated])
  moreover have "card (set (map jr_id rows)) = length rows" using d distinct_card by force
  moreover have "card (set (map jr_id (filter (\<lambda>r. job_active (row_job r)) rows))) = length (filter (\<lambda>r. job_active (row_job r)) rows)"
    using distinct_card [OF distinct_map_filter [OF d]] by simp
  ultimately have "length (filter (\<lambda>r. job_active (row_job r)) rows) \<le> 64" "length rows \<le> 256"
    using c dom by (simp_all add: counts_ok_def)
  then show ?thesis using d one same by (auto simp: saved_ok_def)
qed

section \<open>The worker comes to an end\<close>

fun stage :: "job_worker \<Rightarrow> nat" where
  "stage Exited = 0"
| "stage AtSelect = 1"
| "stage AtPop = 2"
| "stage AtLoop = 3"
| "stage (Finishing _ _) = 4"
| "stage (Reloading _) = 5"
| "stage (Refreshing _) = 6"
| "stage (Taken _) = 7"

definition work_left :: "job_state \<Rightarrow> nat" where
  "work_left s = (case s of (j, pc) \<Rightarrow> 8 * length (rj_queue j) + (if rj_wake j then 3 else 0) + stage pc)"

inductive job_moves :: "bool \<Rightarrow> nat \<Rightarrow> job_state \<Rightarrow> job_state \<Rightarrow> bool" for has_reloader :: bool where
  no_move: "job_moves has_reloader 0 s s"
| one_more: "job_moves has_reloader n s s' \<Longrightarrow> job_move has_reloader s' s'' \<Longrightarrow> job_moves has_reloader (Suc n) s s''"

lemma move_work: "job_move has_reloader s s' \<Longrightarrow> work_left s' < work_left s"
proof (induction rule: job_move.induct)
  case (taken j job clock)
  obtain r j1 where u: "job_update clock (job\<lparr>jb_Status := ''running'', jb_Phase := ''refreshing''\<rparr>) j = (r, j1)" by fastforce
  show ?case using update_fields [OF u] by (cases r) (simp_all add: job_taken_def work_left_def u)
next
  case (refreshed result j job clock)
  obtain lst err where res: "result = (lst, err)" by fastforce
  obtain r j1 where u: "job_update clock (job\<lparr>jb_Result := Some lst, jb_Phase := ''reloading''\<rparr>) j = (r, j1)" by fastforce
  show ?case using update_fields [OF u] by (cases err; cases r) (simp_all add: job_refreshed_def work_left_def u res Let_def)
next
  case (finished j job err clock)
  obtain r j1 where u: "job_update clock (job\<lparr>jb_Status := ''succeeded'', jb_Phase := ''complete''\<rparr>) j = (r, j1)" by fastforce
  obtain r2 j2 where u2: "job_update clock (job\<lparr>jb_Status := ''queued'', jb_Phase := ''queued'', jb_Error := []\<rparr>) j = (r2, j2)" by fastforce
  show ?case using update_fields [OF u] update_fields [OF u2]
    by (cases "rj_cancelled j"; cases err; cases r) (simp_all add: job_finished_def work_left_def u u2 Let_def)
qed (simp_all add: work_left_def)

lemma moves_work: "job_moves has_reloader n s s' \<Longrightarrow> n + work_left s' \<le> work_left s"
  by (induction rule: job_moves.induct) (auto dest!: move_work)

lemma moves_ok: "job_moves has_reloader n s s' \<Longrightarrow> jobs_ok s \<Longrightarrow> jobs_ok s'"
  by (induction rule: job_moves.induct) (auto intro: move_ok)

text \<open>The worker neither adds nor removes a job, and does not cancel.\<close>

definition same_ids :: "refresh_jobs \<Rightarrow> refresh_jobs \<Rightarrow> bool" where
  "same_ids j j' \<longleftrightarrow> dom (rj_jobs j') = dom (rj_jobs j) \<and> rj_cancelled j' = rj_cancelled j"

lemma same_ids_trans: "same_ids j j' \<Longrightarrow> same_ids j' j'' \<Longrightarrow> same_ids j j''"
  by (simp add: same_ids_def)

lemma update_same: "job_update clock job j = (r, j') \<Longrightarrow> jb_ID job \<in> dom (rj_jobs j) \<Longrightarrow> same_ids j j'"
  unfolding same_ids_def using update_fields(3,5) [of clock job j r j'] by (metis insert_absorb)

lemma fail_same: "jb_ID job \<in> dom (rj_jobs j) \<Longrightarrow> same_ids j (job_fail clock job err j)"
  by (simp add: same_ids_def insert_absorb del: domIff)

lemma move_ids: "job_move has_reloader s s' \<Longrightarrow> jobs_ok s \<Longrightarrow> same_ids (fst s) (fst s')"
proof (induction rule: job_move.induct)
  case (taken j job clock)
  let ?job = "job\<lparr>jb_Status := ''running'', jb_Phase := ''refreshing''\<rparr>"
  have i: "jb_ID job \<in> dom (rj_jobs j)" using taken by (auto simp: jobs_ok_def position_ok_def held_ok_def)
  obtain r j1 where u: "job_update clock ?job j = (r, j1)" by fastforce
  have s: "same_ids j j1" using update_same [OF u] i by simp
  then have "same_ids j (job_fail clock ?job e j1)" for e
    using fail_same [of ?job j1 clock e] i same_ids_trans by (simp add: same_ids_def)
  then show ?case using s by (cases r) (simp_all add: job_taken_def u)
next
  case (refreshed result j job clock)
  have i: "jb_ID job \<in> dom (rj_jobs j)" using refreshed by (auto simp: jobs_ok_def position_ok_def held_ok_def)
  obtain lst err where res: "result = (lst, err)" by fastforce
  obtain r j1 where u: "job_update clock (job\<lparr>jb_Result := Some lst, jb_Phase := ''reloading''\<rparr>) j = (r, j1)" by fastforce
  have s: "same_ids j j1" using update_same [OF u] i by simp
  show ?case using s by (cases err; cases r) (simp_all add: job_refreshed_def res u Let_def same_ids_def)
next
  case (finished j job err clock)
  let ?job = "job\<lparr>jb_Status := ''succeeded'', jb_Phase := ''complete''\<rparr>"
  have i: "jb_ID job \<in> dom (rj_jobs j)" using finished by (auto simp: jobs_ok_def position_ok_def held_ok_def)
  obtain r j1 where u: "job_update clock ?job j = (r, j1)" by fastforce
  obtain r2 j2 where u2: "job_update clock (job\<lparr>jb_Status := ''queued'', jb_Phase := ''queued'', jb_Error := []\<rparr>) j = (r2, j2)" by fastforce
  have s: "same_ids j j1" using update_same [OF u] i by simp
  have s2: "same_ids j (j2\<lparr>rj_done := True\<rparr>)" using update_same [OF u2] i by (simp add: same_ids_def)
  have f: "same_ids j (job_fail clock job e j)" for e using fail_same i by blast
  have f1: "same_ids j (job_fail clock ?job e j1)" for e
    using fail_same [of ?job j1 clock e] i s by (simp add: same_ids_def)
  show ?case using s s2 f f1 by (cases "rj_cancelled j"; cases err; cases r) (simp_all add: job_finished_def u u2 Let_def)
qed (simp_all add: same_ids_def)

lemma moves_ids: "job_moves has_reloader n s s' \<Longrightarrow> jobs_ok s \<Longrightarrow> same_ids (fst s) (fst s')"
proof (induction rule: job_moves.induct)
  case (one_more n s s' s'')
  show ?case using one_more.IH [OF one_more.prems] move_ids [OF one_more(2) moves_ok [OF one_more(1) one_more.prems]] by (rule same_ids_trans)
qed (simp add: same_ids_def)

lemma int64_zero: "int64_range 0"
  by (simp add: int64_range_def)

lemma stuck_cases:
  assumes "\<nexists>s'. job_move has_reloader (j, pc) s'"
  shows "pc = Exited \<or> (pc = AtSelect \<and> \<not> rj_wake j \<and> \<not> rj_cancelled j)"
proof (cases pc)
  case AtSelect
  then show ?thesis using assms job_move.select_wake job_move.select_done by blast
next
  case AtLoop
  then show ?thesis using assms job_move.loop_cancelled job_move.loop_on by blast
next
  case AtPop
  then show ?thesis using assms job_move.pop_empty [of j] job_move.pop [of j] by (cases "rj_queue j") blast+
next
  case (Taken job)
  then show ?thesis using assms job_move.taken by blast
next
  case (Refreshing job)
  have "job_move has_reloader (j, Refreshing job) (job_refreshed 0 has_reloader job (zero_list, None) j)"
    by (rule job_move.refreshed) (simp add: zero_list_def int64_zero)
  then show ?thesis using assms Refreshing by blast
next
  case (Reloading job)
  then show ?thesis using assms job_move.reloaded by blast
next
  case (Finishing job err)
  then show ?thesis using assms job_move.finished by blast
qed simp

end
