(* ===== verification/Refresh_Properties.thy ===== *)
theory Refresh_Properties
  imports Refresh_Jobs_Runs
begin

text \<open>
  The properties of the refresh jobs of \<open>internal/admin/filter_jobs.go\<close>, for every interleaving of submissions, the worker and a
  cancellation, with any failures of the driver.
\<close>

section \<open>The queue\<close>

text \<open>
  C32: From a start without a database, on an empty one, or on the rows of an earlier run whose jobs were all saved as they were (no two active ones of one list, at most
  64 active and 256 in all), whatever is submitted then, whatever the refreshes return and whichever writes fail: every active job is in the queue or
  held by the worker, until the worker has stopped; the queue has no job twice and only active ones; no list has two active jobs; at most 64 jobs are active
  and 256 kept; and a worker that waits for work while the queue is not empty has a wake-up pending. Every row holds its job as it is in memory unless
  the job has failed and that could not be saved; where no row is such, the rows are again rows to start on, so the statement carries over restarts.
  A start on rows with a job whose failure could not be saved is outside the statement: such a row says that the job is still active.
\<close>

theorem refresh_jobs_invariant:
  assumes "NewRefreshJobs clock db = (Inr j0, db')" and "rows_of db = None \<or> (\<exists>rows. rows_of db = Some rows \<and> saved_ok rows)"
    and "job_reachable has_reloader j0 (j, pc)"
  shows "(\<forall>i job. rj_jobs j i = Some job \<and> job_active job \<longrightarrow>
        i \<in> set (rj_queue j) \<or> (\<exists>h. held pc = Some h \<and> jb_ID h = i) \<or> pc = Exited) \<and>
    distinct (rj_queue j) \<and> (\<forall>i \<in> set (rj_queue j). \<exists>job. rj_jobs j i = Some job \<and> job_active job) \<and>
    (\<forall>i i' job job'. rj_jobs j i = Some job \<and> rj_jobs j i' = Some job' \<and> job_active job \<and> job_active job' \<and>
        jb_ListID job = jb_ListID job' \<longrightarrow> i = i') \<and>
    card {i. \<exists>job. rj_jobs j i = Some job \<and> job_active job} \<le> 64 \<and> card (dom (rj_jobs j)) \<le> 256 \<and>
    (pc = AtSelect \<and> rj_queue j \<noteq> [] \<and> \<not> rj_cancelled j \<longrightarrow> rj_wake j) \<and>
    (\<forall>rows. rows_of (rj_db j) = Some rows \<longrightarrow>
       (\<forall>r \<in> set rows. \<exists>job. rj_jobs j (jr_id r) = Some job \<and> (job = row_job r \<or> jb_Status job = ''failed'')) \<and>
       ((\<forall>r \<in> set rows. rj_jobs j (jr_id r) = Some (row_job r)) \<longrightarrow> saved_ok rows))"
proof -
  have ok: "jobs_ok (j, pc)" using reachable_ok [OF assms(3) NewRefreshJobs_saved [OF assms(1,2)]] .
  have s: "state_ok (rj_jobs j) (rows_of (rj_db j))" and p: "position_ok (rj_jobs j) (rj_queue j) pc" and w: "wake_ok (j, pc)"
    using jobs_okD [OF ok] by simp_all
  have "i \<in> set (rj_queue j) \<or> (\<exists>h. held pc = Some h \<and> jb_ID h = i) \<or> pc = Exited" if "rj_jobs j i = Some job" "job_active job" for i job
  proof -
    have "i \<in> active_ids (rj_jobs j)" using that by (auto simp: active_ids_def)
    then show ?thesis using p by (cases "held pc") (auto simp: position_ok_def)
  qed
  moreover have "distinct (rj_queue j)" "\<forall>i \<in> set (rj_queue j). \<exists>job. rj_jobs j i = Some job \<and> job_active job"
    using p by (auto simp: position_ok_def active_ids_def)
  moreover have "lists_ok (rj_jobs j)" using s by (simp add: state_ok_def)
  note lists_unique [OF this]
  moreover have "card {i. \<exists>job. rj_jobs j i = Some job \<and> job_active job} \<le> 64" "card (dom (rj_jobs j)) \<le> 256"
    using s by (simp_all add: state_ok_def counts_ok_def active_ids_def)
  moreover have "pc = AtSelect \<and> rj_queue j \<noteq> [] \<and> \<not> rj_cancelled j \<longrightarrow> rj_wake j" using w by (simp add: wake_ok_def)
  moreover have "saved_ok rows" if "rows_of (rj_db j) = Some rows" "\<forall>r \<in> set rows. rj_jobs j (jr_id r) = Some (row_job r)" for rows
    using agreeing_rows_saved s that by simp
  moreover have "\<exists>job. rj_jobs j (jr_id r) = Some job \<and> (job = row_job r \<or> jb_Status job = ''failed'')"
    if "rows_of (rj_db j) = Some rows" "r \<in> set rows" for rows r
    using s that by (fastforce simp: state_ok_def store_ok_def row_ok_def row_job_def)
  ultimately show ?thesis by blast
qed

text \<open>A queue with one submitted job.\<close>

definition fresh_jobs :: "jobs_db option \<Rightarrow> refresh_jobs" where
  "fresh_jobs db = \<lparr>rj_jobs = Map.empty, rj_queue = [], rj_wake = True, rj_done = False, rj_cancelled = False, rj_db = db\<rparr>"

definition demo_token :: string where
  "demo_token = EncodeToString [1, 2]"

definition demo_job :: refresh_job where
  "demo_job = new_job 7 demo_token 5"

definition one_job :: "jobs_db option \<Rightarrow> refresh_jobs" where
  "one_job db = \<lparr>rj_jobs = [demo_token \<mapsto> demo_job], rj_queue = [demo_token], rj_wake = True, rj_done = False, rj_cancelled = False, rj_db = db\<rparr>"

lemma fresh_start: "NewRefreshJobs 7 None = (Inr (fresh_jobs None), None)"
  by (simp add: NewRefreshJobs_def fresh_jobs_def)

lemma demo_job_id [simp]: "jb_ID demo_job = demo_token" "jb_ListID demo_job = 5" "job_active demo_job" "demo_token \<noteq> []"
  by (simp_all add: demo_job_def new_job_def job_active_def demo_token_def id_text)

lemma one_job_submitted:
  assumes "job_save demo_job db = (Inr (), db')"
  shows "job_reachable has_reloader (fresh_jobs db) (one_job db', AtSelect)"
proof (rule job_reachable.step [OF job_reachable.start])
  have "Submit 7 (Inr [1, 2]) [] 5 (fresh_jobs db) = (Inr demo_job, one_job db')"
    using assms by (simp add: Submit_def fresh_jobs_def then_do_def evict_def one_job_def demo_job_def demo_token_def new_job_def Let_def)
  then show "job_step has_reloader (fresh_jobs db, AtSelect) (one_job db', AtSelect)"
    by (rule job_step.submit [rotated 3]) (simp_all add: fresh_jobs_def jobs_order_def int64_range_def)
qed

theorem refresh_jobs_invariant_witness:
  "demo_token \<in> set (rj_queue (one_job None)) \<and> card (dom (rj_jobs (one_job None))) \<le> 256"
proof -
  have "job_save demo_job None = (Inr (), None)" by (simp add: job_save_def)
  from refresh_jobs_invariant [OF fresh_start _ one_job_submitted [OF this]]
  show ?thesis by (simp add: rows_of_def one_job_def)
qed

text \<open>
  \<open>Submit\<close> never makes a second active job for a list: it returns the one there is and changes nothing. Otherwise it refuses when 64 jobs
  are active; and a job that it accepts is active, is kept under its id, and when it is new it is at the end of the queue with a
  wake-up sent to the worker. No submission changes an active job, even when it fails or evicts a finished one.
\<close>

theorem submitted_once:
  assumes "NewRefreshJobs clock db = (Inr j0, db')" and "rows_of db = None \<or> rows_of db = Some []"
    and "job_reachable has_reloader j0 (j, pc)" and "\<not> rj_cancelled j"
    and "jobs_order (rj_jobs j) order" and "int64_range listID"
    and "\<forall>token. random = Inr token \<longrightarrow> token \<noteq> [] \<and> rj_jobs j (EncodeToString token) = None"
    and "Submit clock' random order listID j = (r, j')"
  shows "(\<forall>i job. rj_jobs j i = Some job \<and> job_active job \<and> jb_ListID job = listID \<longrightarrow> r = Inr job \<and> j' = j) \<and>
    (64 \<le> card {i. \<exists>job. rj_jobs j i = Some job \<and> job_active job} \<longrightarrow> j' = j \<and> (\<forall>job. r = Inr job \<longrightarrow> rj_jobs j (jb_ID job) = Some job)) \<and>
    (\<forall>job. r = Inr job \<longrightarrow> jb_ListID job = listID \<and> job_active job \<and> rj_jobs j' (jb_ID job) = Some job \<and>
       (rj_jobs j (jb_ID job) = None \<longrightarrow> rj_queue j' = rj_queue j @ [jb_ID job] \<and> rj_wake j')) \<and>
    (\<forall>i job. rj_jobs j i = Some job \<and> job_active job \<longrightarrow> rj_jobs j' i = Some job)"
proof -
  have ok: "jobs_ok (j, pc)" using reachable_ok [OF assms(3) NewRefreshJobs_empty [OF assms(1,2)]] .
  have l: "lists_ok (rj_jobs j)" and c: "counts_ok (rj_jobs j)" using jobs_okD(1) [OF ok] by (simp_all add: state_ok_def)
  note same = lists_unique [OF l]
  have active: "i \<in> active_ids (rj_jobs j)" if "rj_jobs j i = Some job" "job_active job" for i job
    using that by (auto simp: active_ids_def)
  note a = active_ids_def [of "rj_jobs j", symmetric]
  from assms(8) ok assms(5,6,7) show ?thesis
  proof (cases rule: Submit_cases)
    case cancelled
    then show ?thesis using assms(4) by simp
  next
    case (present job)
    have e: "r = Inr job" "j' = j" by (rule present)+
    have "job = job'" if "rj_jobs j i = Some job'" "job_active job'" "jb_ListID job' = listID" for i job'
    proof -
      have "jb_ListID job = jb_ListID job'" using present(4) that(3) by simp
      then have "jb_ID job = i" using same [OF present(6) that(1) present(5) that(2)] by blast
      then show ?thesis using present(6) that(1) by simp
    qed
    then have "\<forall>i job'. rj_jobs j i = Some job' \<and> job_active job' \<and> jb_ListID job' = listID \<longrightarrow> (Inr job :: refresh_job result) = Inr job' \<and> j = j"
      by blast
    then show ?thesis unfolding e by (rule conjI) (use present(4-6) in auto)
  next
    case full
    have e: "r = Inl errRefreshQueueFull" "j' = j" by (rule full)+
    have "False" if "rj_jobs j i = Some job" "job_active job" "jb_ListID job = listID" for i job
      using full(5) active [OF that(1,2)] that by auto
    then show ?thesis unfolding e by auto
  next
    case (refused e)
    have r: "r = Inl e" by (rule refused)
    have no: "False" if "rj_jobs j i = Some job" "job_active job" "jb_ListID job = listID" for i job
      using refused(6) active [OF that(1,2)] that by auto
    have kept: "rj_jobs j' i = Some job" if "rj_jobs j i = Some job" "job_active job" for i job
      using refused(4) active [OF that] that(1) by simp
    show ?thesis using refused(5) unfolding r a by (intro conjI allI impI) (use no kept in auto)
  next
    case (accepted job)
    have r: "r = Inr job" by (rule accepted)
    have no: "False" if "rj_jobs j i = Some job" "job_active job" "jb_ListID job = listID" for i job
      using accepted(12) active [OF that(1,2)] that by auto
    have kept: "rj_jobs j' i = Some job'" if "rj_jobs j i = Some job'" "job_active job'" for i job'
      using accepted(8) active [OF that] that(1) by simp
    have "job_active job" using accepted(5) by (simp add: job_active_def)
    then show ?thesis using accepted(11) unfolding r a by (intro conjI allI impI) (use no kept accepted(4,6,7,9,10) in auto)
  qed
qed

theorem submitted_once_witness:
  "Submit 8 (Inr [3]) [demo_job] 5 (one_job None) = (Inr demo_job, one_job None)"
proof -
  have s: "job_save demo_job None = (Inr (), None)" by (simp add: job_save_def)
  obtain r j' where e: "Submit 8 (Inr [3]) [demo_job] 5 (one_job None) = (r, j')" by fastforce
  have "EncodeToString [3] \<noteq> demo_token" by (simp add: EncodeToString_def demo_token_def)
  then have f: "\<forall>token. (Inr [3] :: 8 word list result) = Inr token \<longrightarrow> token \<noteq> [] \<and> rj_jobs (one_job None) (EncodeToString token) = None"
    by (simp add: one_job_def)
  have o: "jobs_order (rj_jobs (one_job None)) [demo_job]" by (simp add: jobs_order_def one_job_def)
  have i: "int64_range 5" by (simp add: int64_range_def)
  have c: "\<not> rj_cancelled (one_job None)" by (simp add: one_job_def)
  have d: "rows_of None = None \<or> rows_of None = Some []" by (simp add: rows_of_def)
  have "rj_jobs (one_job None) demo_token = Some demo_job \<and> job_active demo_job \<and> jb_ListID demo_job = 5" by (simp add: one_job_def)
  with submitted_once [OF fresh_start d one_job_submitted [OF s] c o i f e] have "r = Inr demo_job \<and> j' = one_job None" by blast
  then show ?thesis using e by simp
qed

section \<open>The end of the work\<close>


text \<open>The moves that bring the one job to its end.\<close>

definition done_job :: refresh_job where
  "done_job = demo_job\<lparr>jb_Result := Some zero_list, jb_Status := ''succeeded'', jb_Phase := ''complete'', jb_UpdatedAt := time_of 9\<rparr>"

definition done_jobs :: refresh_jobs where
  "done_jobs = (one_job None)\<lparr>rj_jobs := [demo_token \<mapsto> done_job], rj_queue := [], rj_wake := False\<rparr>"

lemma one_job_done: "job_moves False 8 (one_job None, AtSelect) (done_jobs, AtSelect)"
proof -
  let ?j = "\<lambda>queue job. \<lparr>rj_jobs = [demo_token \<mapsto> job], rj_queue = queue, rj_wake = False, rj_done = False, rj_cancelled = False, rj_db = None\<rparr>"
  let ?run = "demo_job\<lparr>jb_Status := ''running'', jb_Phase := ''refreshing''\<rparr>"
  let ?rel = "?run\<lparr>jb_Result := Some zero_list, jb_Phase := ''reloading''\<rparr>"
  note save = job_update_def job_save_def Let_def
  have 1: "job_move False (one_job None, AtSelect) (?j [demo_token] demo_job, AtLoop)"
    using job_move.select_wake [of "one_job None" False] by (simp add: one_job_def)
  have 2: "job_move False (?j [demo_token] demo_job, AtLoop) (?j [demo_token] demo_job, AtPop)"
    by (rule job_move.loop_on) simp
  have 3: "job_move False (?j [demo_token] demo_job, AtPop) (?j [] demo_job, Taken demo_job)"
    using job_move.pop [of "?j [demo_token] demo_job" demo_token "[]" False] by (simp add: job_named_def)
  have 4: "job_move False (?j [] demo_job, Taken demo_job) (?j [] (stamped_job 8 ?run), Refreshing ?run)"
    using job_move.taken [of False "?j [] demo_job" demo_job 8] by (simp add: job_taken_def save)
  have 5: "job_move False (?j [] (stamped_job 8 ?run), Refreshing ?run) (?j [] (stamped_job 8 ?rel), Finishing ?rel None)"
    using job_move.refreshed [of "(zero_list, None)" False "?j [] (stamped_job 8 ?run)" ?run 8]
    by (simp add: job_refreshed_def save zero_list_def int64_zero)
  have 6: "job_move False (?j [] (stamped_job 8 ?rel), Finishing ?rel None) (?j [] done_job, AtLoop)"
    using job_move.finished [of False "?j [] (stamped_job 8 ?rel)" ?rel None 9] by (simp add: job_finished_def save done_job_def)
  have 7: "job_move False (?j [] done_job, AtLoop) (?j [] done_job, AtPop)" by (rule job_move.loop_on) simp
  have 8: "job_move False (?j [] done_job, AtPop) (?j [] done_job, AtSelect)" by (rule job_move.pop_empty) simp
  have "done_jobs = ?j [] done_job" by (simp add: done_jobs_def one_job_def)
  then show ?thesis
    using job_moves.one_more [OF job_moves.one_more [OF job_moves.one_more [OF job_moves.one_more [OF job_moves.one_more
      [OF job_moves.one_more [OF job_moves.one_more [OF job_moves.one_more [OF job_moves.no_move 1] 2] 3] 4] 5] 6] 7] 8]
    by (simp add: numeral_eq_Suc)
qed


section \<open>Restarts\<close>

lemma store_rows:
  assumes "store_ok jobs (Some rows)"
  shows "\<forall>r \<in> set rows. Unmarshal_job (jr_payload r) = Inr (row_job r) \<and> jb_ID (row_job r) = jr_id r \<and> job_writable (row_job r)"
    and "distinct (map jr_id rows)" and "jr_id ` set rows = dom jobs"
    and "jobs i = Some job \<Longrightarrow> jb_Status job \<noteq> ''failed'' \<Longrightarrow> \<exists>r \<in> set rows. jr_id r = i \<and> row_job r = job"
proof -
  have r: "\<forall>r \<in> set rows. row_ok jobs r" and d: "distinct (map jr_id rows)" and i: "jr_id ` set rows = dom jobs"
    using assms by (simp_all add: store_ok_def)
  show "\<forall>r \<in> set rows. Unmarshal_job (jr_payload r) = Inr (row_job r) \<and> jb_ID (row_job r) = jr_id r \<and> job_writable (row_job r)"
    using r by (auto simp: row_ok_def row_job_def)
  show "distinct (map jr_id rows)" "jr_id ` set rows = dom jobs" by (rule d i)+
  show "\<exists>r \<in> set rows. jr_id r = i \<and> row_job r = job" if "jobs i = Some job" "jb_Status job \<noteq> ''failed''"
  proof -
    have "i \<in> jr_id ` set rows" using i that(1) by blast
    then obtain r' where r': "r' \<in> set rows" "jr_id r' = i" by blast
    then have "row_ok jobs r'" using r by blast
    then have "row_job r' = job" using r'(2) that by (auto simp: row_ok_def row_job_def)
    with r' show ?thesis by blast
  qed
qed


definition stored_db :: jobs_db where
  "stored_db = \<lparr>db_tables = [\<lparr>jr_id = demo_token, jr_payload = Marshal (encode_struct job_fields demo_job)\<rparr>], db_faults = []\<rparr>"

lemma demo_writable: "job_writable demo_job" "time_writable (time_of 9)"
proof -
  have "time_writable (time_of 7)" "time_writable (time_of 9)" by code_simp+
  then show "job_writable demo_job" "time_writable (time_of 9)" by (simp_all add: job_writable_def demo_job_def new_job_def)
qed


end
