(* ===== verification/Go_Encoding.thy ===== *)
theory Go_Encoding
  imports Go_Prelude "HOL-Library.Word"
begin

text \<open>
  What the administration uses of \<open>encoding/base64\<close> and \<open>encoding/hex\<close>: the two unpadded alphabets, the encoder and the
  decoder, which skips line ends and ignores the unused bits of the last group.
\<close>

type_synonym byte = "8 word"

definition byte_of :: "nat \<Rightarrow> byte" where
  "byte_of n = word_of_nat n"

definition bytes_of :: "string \<Rightarrow> byte list" where
  "bytes_of s = map (\<lambda>c. byte_of (of_char c)) s"

section \<open>Alphabets\<close>

definition base64_letters :: string where
  "base64_letters = ''ABCDEFGHIJKLMNOPQRSTUVWXYZabcdefghijklmnopqrstuvwxyz0123456789''"

definition std_alphabet :: string where
  "std_alphabet = base64_letters @ ''+/''"

definition url_alphabet :: string where
  "url_alphabet = base64_letters @ ''-_''"

definition sextet_value :: "string \<Rightarrow> char \<Rightarrow> nat option" where
  "sextet_value alphabet c = map_of (zip alphabet [0..<64]) c"

section \<open>Encoding and decoding\<close>

fun base64_encode :: "string \<Rightarrow> byte list \<Rightarrow> string" where
  "base64_encode al [] = []"
| "base64_encode al [a] =
     [al ! (unat a div 4), al ! ((unat a mod 4) * 16)]"
| "base64_encode al [a, b] =
     [al ! (unat a div 4), al ! ((unat a mod 4) * 16 + unat b div 16), al ! ((unat b mod 16) * 4)]"
| "base64_encode al (a # b # c # rest) =
     [al ! (unat a div 4), al ! ((unat a mod 4) * 16 + unat b div 16), al ! ((unat b mod 16) * 4 + unat c div 64), al ! (unat c mod 64)] @
     base64_encode al rest"

fun sextets_bytes :: "nat list \<Rightarrow> byte list option" where
  "sextets_bytes [] = Some []"
| "sextets_bytes [v] = None"
| "sextets_bytes [v, w] = Some [byte_of (v * 4 + w div 16)]"
| "sextets_bytes [v, w, x] = Some [byte_of (v * 4 + w div 16), byte_of ((w mod 16) * 16 + x div 4)]"
| "sextets_bytes (v # w # x # y # rest) =
     map_option (\<lambda>bs. byte_of (v * 4 + w div 16) # byte_of ((w mod 16) * 16 + x div 4) # byte_of ((x mod 4) * 64 + y) # bs)
       (sextets_bytes rest)"

definition base64_decode :: "string \<Rightarrow> string \<Rightarrow> byte list option" where
  "base64_decode al s =
     (let values = map (sextet_value al) (filter (\<lambda>c. c \<noteq> CHR 0x0A \<and> c \<noteq> CHR 0x0D) s) in
      if None \<in> set values then None else sextets_bytes (map the values))"

abbreviation RawStdEncode :: "byte list \<Rightarrow> string" where
  "RawStdEncode \<equiv> base64_encode std_alphabet"

abbreviation RawStdDecode :: "string \<Rightarrow> byte list option" where
  "RawStdDecode \<equiv> base64_decode std_alphabet"

abbreviation RawURLEncode :: "byte list \<Rightarrow> string" where
  "RawURLEncode \<equiv> base64_encode url_alphabet"

section \<open>The round trip\<close>

definition alphabet_ok :: "string \<Rightarrow> bool" where
  "alphabet_ok al \<longleftrightarrow> length al = 64 \<and> distinct al \<and> CHR 0x0A \<notin> set al \<and> CHR 0x0D \<notin> set al"

lemma alphabets_ok: "alphabet_ok std_alphabet" "alphabet_ok url_alphabet"
  by code_simp+

lemma sextet_value_nth: "alphabet_ok al \<Longrightarrow> n < 64 \<Longrightarrow> sextet_value al (al ! n) = Some n"
  by (simp add: sextet_value_def alphabet_ok_def map_of_zip_nth)

lemma unat_byte: "unat (b :: byte) < 256"
  using unsigned_less [of b, where ?'a = nat] by simp

lemma byte_of_unat: "byte_of (unat b) = b"
  by (simp add: byte_of_def)

text \<open>The values of the letters of an encoding.\<close>

fun bytes_sextets :: "byte list \<Rightarrow> nat list" where
  "bytes_sextets [] = []"
| "bytes_sextets [a] = [unat a div 4, (unat a mod 4) * 16]"
| "bytes_sextets [a, b] = [unat a div 4, (unat a mod 4) * 16 + unat b div 16, (unat b mod 16) * 4]"
| "bytes_sextets (a # b # c # rest) =
     [unat a div 4, (unat a mod 4) * 16 + unat b div 16, (unat b mod 16) * 4 + unat c div 64, unat c mod 64] @ bytes_sextets rest"

lemma encode_sextets: "base64_encode al bs = map ((!) al) (bytes_sextets bs)"
  by (induction al bs rule: base64_encode.induct) simp_all

lemma sextets_small: "\<forall>v \<in> set (bytes_sextets bs). v < 64"
proof (induction bs rule: bytes_sextets.induct)
  case (2 a)
  then show ?case using unat_byte [of a] by (auto simp: less_mult_imp_div_less)
next
  case (3 a b)
  then show ?case using unat_byte [of a] unat_byte [of b] by auto
next
  case (4 a b c rest)
  then show ?case using unat_byte [of a] unat_byte [of b] unat_byte [of c] by auto
qed simp

lemma byte_parts [simp]:
  fixes b :: byte
  shows "unat b div 16 div 16 = 0" "unat b div 16 mod 16 = unat b div 16" "unat b div 64 div 4 = 0" "unat b div 64 mod 4 = unat b div 64"
  using unat_byte [of b] by (simp_all add: div_mult2_eq [symmetric] less_mult_imp_div_less)

lemma sextets_bytes_back: "sextets_bytes (bytes_sextets bs) = Some bs"
  by (induction bs rule: bytes_sextets.induct) (simp_all add: byte_of_unat)

lemma base64_decode_encode:
  assumes "alphabet_ok al"
  shows "base64_decode al (base64_encode al bs) = Some bs"
proof -
  let ?s = "base64_encode al bs"
  have small: "\<And>v. v \<in> set (bytes_sextets bs) \<Longrightarrow> v < 64" using sextets_small by blast
  have "\<forall>c \<in> set ?s. c \<in> set al" using small assms by (auto simp: encode_sextets alphabet_ok_def)
  then have "filter (\<lambda>c. c \<noteq> CHR 0x0A \<and> c \<noteq> CHR 0x0D) ?s = ?s" using assms by (auto simp: filter_id_conv alphabet_ok_def)
  moreover have "map (sextet_value al) ?s = map Some (bytes_sextets bs)"
    using small sextet_value_nth [OF assms] by (simp add: encode_sextets)
  ultimately show ?thesis by (auto simp: base64_decode_def Let_def comp_def sextets_bytes_back)
qed

lemma encode_no_char: "alphabet_ok al \<Longrightarrow> c \<notin> set al \<Longrightarrow> c \<notin> set (base64_encode al bs)"
  using sextets_small [of bs] by (auto simp: encode_sextets alphabet_ok_def)

lemma base64_encode_inject:
  assumes "alphabet_ok al" and "base64_encode al bs = base64_encode al cs"
  shows "bs = cs"
  using assms base64_decode_encode by (metis option.inject)

end
