(* ===== verification/Admin_Sessions.thy ===== *)
theory Admin_Sessions
  imports Sha256 Go_Time_Order Sql_Table
begin

text \<open>
  \<open>internal/admin/session.go\<close>: the sessions of the administration. A session is known by the digest of its token only. The memory store keeps
  them in a map, the SQLite store in a table with a map as a cache before it. The bytes of \<open>rand.Read\<close> and the clock are arguments. The stored
  times are those the program wrote, so \<open>time.Parse\<close> is used on the texts of \<open>Format\<close> only.
\<close>

section \<open>Tokens\<close>

definition tokenDigest :: "string \<Rightarrow> byte list" where
  "tokenDigest token = Sum256 (bytes_of token)"

definition tokenDigestKey :: "byte list \<Rightarrow> string" where
  "tokenDigestKey digest = RawStdEncode digest"

definition ConstantTimeCompare :: "byte list \<Rightarrow> byte list \<Rightarrow> int" where
  "ConstantTimeCompare x y = (if length x \<noteq> length y then 0 else if x = y then 1 else 0)"

record memory_session =
  ms_digest :: "byte list"
  ms_expires :: instant

type_synonym session_map = "string \<rightharpoonup> memory_session"

section \<open>The store in memory\<close>

definition NewMemorySessionStore :: session_map where
  "NewMemorySessionStore = Map.empty"

definition memory_Create :: "instant \<Rightarrow> int \<Rightarrow> byte list result \<Rightarrow> (session_map, string) step" where
  "memory_Create now ttl random =
     then_do (lift_result random) (\<lambda>tokenBytes s.
       let token = RawURLEncode tokenBytes; digest = tokenDigest token in
       (Inr token, s(tokenDigestKey digest \<mapsto> \<lparr>ms_digest = digest, ms_expires = now + ttl\<rparr>)))"

text \<open>The loops over the map visit its keys in an order that Go does not fix; a deletion during the loop is of the key just visited.\<close>

definition map_visits :: "session_map \<Rightarrow> string list \<Rightarrow> bool" where
  "map_visits s order \<longleftrightarrow> distinct order \<and> set order = dom s"

fun valid_loop :: "byte list \<Rightarrow> instant \<Rightarrow> string list \<Rightarrow> session_map \<Rightarrow> bool \<times> session_map" where
  "valid_loop digest now [] s = (False, s)"
| "valid_loop digest now (key # keys) s =
     (case s key of
        None \<Rightarrow> valid_loop digest now keys s
      | Some session \<Rightarrow>
          if \<not> now < ms_expires session then valid_loop digest now keys (s(key := None))
          else if ConstantTimeCompare digest (ms_digest session) = 1 then (True, s)
          else valid_loop digest now keys s)"

definition memory_Valid :: "string list \<Rightarrow> string \<Rightarrow> instant \<Rightarrow> session_map \<Rightarrow> bool \<times> session_map" where
  "memory_Valid order token now s = valid_loop (tokenDigest token) now order s"

fun delete_loop :: "byte list \<Rightarrow> string list \<Rightarrow> session_map \<Rightarrow> session_map" where
  "delete_loop digest [] s = s"
| "delete_loop digest (key # keys) s =
     (case s key of
        None \<Rightarrow> delete_loop digest keys s
      | Some session \<Rightarrow>
          if ConstantTimeCompare digest (ms_digest session) = 1 then s(key := None) else delete_loop digest keys s)"

definition memory_Delete :: "string list \<Rightarrow> string \<Rightarrow> session_map \<Rightarrow> session_map" where
  "memory_Delete order token s = delete_loop (tokenDigest token) order s"

section \<open>The store that is not available\<close>

definition unavailable_Create :: "instant \<Rightarrow> int \<Rightarrow> byte list result \<Rightarrow> (unit, string) step" where
  "unavailable_Create now ttl random = fail (ErrorString ''session storage unavailable'')"

definition unavailable_Valid :: "unit \<Rightarrow> string \<Rightarrow> instant \<Rightarrow> unit \<Rightarrow> bool \<times> unit" where
  "unavailable_Valid order token now s = (False, s)"

definition unavailable_Delete :: "unit \<Rightarrow> string \<Rightarrow> unit \<Rightarrow> unit" where
  "unavailable_Delete order token s = s"

section \<open>The SQLite store\<close>

record session_row =
  sr_token_hash :: string
  sr_created_at :: string
  sr_expires_at :: string

record session_tables =
  st_sessions :: "session_row list"
  st_metadata :: "string list"

text \<open>The reader is the database itself or another handle on the same file.\<close>

record session_store =
  ss_db :: "session_tables db option"
  ss_sessions :: session_map

definition NewSQLiteSessionStore :: "session_tables db option \<Rightarrow> session_store" where
  "NewSQLiteSessionStore db = \<lparr>ss_db = db, ss_sessions = Map.empty\<rparr>"

definition insert_session :: "session_row \<Rightarrow> session_tables \<Rightarrow> (unit \<times> session_tables) result" where
  "insert_session row tb =
     (if sr_token_hash row \<in> sr_token_hash ` set (st_sessions tb) then Inl (constraint_error ''UNIQUE admin_sessions.token_hash'')
      else Inr ((), tb\<lparr>st_sessions := st_sessions tb @ [row]\<rparr>))"

definition delete_session :: "string \<Rightarrow> session_tables \<Rightarrow> (unit \<times> session_tables) result" where
  "delete_session key tb = Inr ((), tb\<lparr>st_sessions := filter (\<lambda>r. sr_token_hash r \<noteq> key) (st_sessions tb)\<rparr>)"

definition insert_row :: "string \<Rightarrow> instant \<Rightarrow> instant \<Rightarrow> (session_store, unit) step" where
  "insert_row key now expires s =
     (case ss_db s of
        None \<Rightarrow> (Inr (), s)
      | Some d \<Rightarrow>
          (case sql_run (insert_session \<lparr>sr_token_hash = key, sr_created_at = format_RFC3339Nano now, sr_expires_at = format_RFC3339Nano expires\<rparr>) d of
             (r, d) \<Rightarrow> (r, s\<lparr>ss_db := Some d\<rparr>)))"

definition cache_session :: "byte list \<Rightarrow> instant \<Rightarrow> session_store \<Rightarrow> session_store" where
  "cache_session digest expires s =
     s\<lparr>ss_sessions := (ss_sessions s)(tokenDigestKey digest \<mapsto> \<lparr>ms_digest = digest, ms_expires = expires\<rparr>)\<rparr>"

definition sqlite_Create :: "instant \<Rightarrow> int \<Rightarrow> byte list result \<Rightarrow> (session_store, string) step" where
  "sqlite_Create now ttl random =
     then_do (lift_result random) (\<lambda>tokenBytes.
       let token = RawURLEncode tokenBytes; digest = tokenDigest token in
       then_do (insert_row (tokenDigestKey digest) now (now + ttl)) (\<lambda>_ s. (Inr token, cache_session digest (now + ttl) s)))"

text \<open>\<open>validCached\<close> removes every expired session from the map, in whatever order, and looks the key up.\<close>

definition purge_expired :: "instant \<Rightarrow> session_map \<Rightarrow> session_map" where
  "purge_expired now m = (\<lambda>key. case m key of None \<Rightarrow> None | Some session \<Rightarrow> if \<not> now < ms_expires session then None else Some session)"

definition validCached :: "string \<Rightarrow> byte list \<Rightarrow> instant \<Rightarrow> session_store \<Rightarrow> bool \<times> session_store" where
  "validCached key digest now s =
     (let m = purge_expired now (ss_sessions s) in
      (case m key of None \<Rightarrow> False | Some session \<Rightarrow> ConstantTimeCompare digest (ms_digest session) = 1, s\<lparr>ss_sessions := m\<rparr>))"

text \<open>\<open>QueryRow\<close> and \<open>Scan\<close>: an error, or no row, is \<^term>\<open>None\<close>.\<close>

definition read_row :: "string \<Rightarrow> session_store \<Rightarrow> string option \<times> session_store" where
  "read_row key s =
     (case ss_db s of
        None \<Rightarrow> (None, s)
      | Some d \<Rightarrow>
          (case sql_query_row (\<lambda>tb. map_option sr_expires_at (find (\<lambda>r. sr_token_hash r = key) (st_sessions tb))) d of
             (Inl _, d) \<Rightarrow> (None, s\<lparr>ss_db := Some d\<rparr>)
           | (Inr raw, d) \<Rightarrow> (raw, s\<lparr>ss_db := Some d\<rparr>)))"

definition live_until :: "string \<Rightarrow> instant \<Rightarrow> instant option" where
  "live_until raw now = (case parseRFC3339 raw of None \<Rightarrow> None | Some expires \<Rightarrow> if \<not> now < expires then None else Some expires)"

definition uncache_session :: "string \<Rightarrow> session_store \<Rightarrow> session_store" where
  "uncache_session key s = s\<lparr>ss_sessions := (ss_sessions s)(key := None)\<rparr>"

definition delete_row :: "string \<Rightarrow> session_store \<Rightarrow> session_store" where
  "delete_row key s = (case ss_db s of None \<Rightarrow> s | Some d \<Rightarrow> s\<lparr>ss_db := Some (snd (sql_run (delete_session key) d))\<rparr>)"

definition sqlite_Delete :: "unit \<Rightarrow> string \<Rightarrow> session_store \<Rightarrow> session_store" where
  "sqlite_Delete order token s =
     (let key = tokenDigestKey (tokenDigest token) in delete_row key (uncache_session key s))"

definition sqlite_Valid :: "unit \<Rightarrow> string \<Rightarrow> instant \<Rightarrow> session_store \<Rightarrow> bool \<times> session_store" where
  "sqlite_Valid order token now s =
     (let digest = tokenDigest token; key = tokenDigestKey digest in
      case validCached key digest now s of
        (True, s) \<Rightarrow> (True, s)
      | (False, s) \<Rightarrow>
          (case read_row key s of
             (None, s) \<Rightarrow> (False, s)
           | (Some raw, s) \<Rightarrow>
               (case live_until raw now of
                  None \<Rightarrow> (False, sqlite_Delete order token s)
                | Some expires \<Rightarrow> (True, cache_session digest expires s))))"

text \<open>A restart of the process keeps the table and loses the map.\<close>

definition reopen_store :: "session_store \<Rightarrow> session_store" where
  "reopen_store s = NewSQLiteSessionStore (ss_db s)"

section \<open>The copy of the sessions of the old database\<close>

definition legacy_marker :: string where
  "legacy_marker = ''legacy_imported''"

definition insert_or_ignore :: "session_row \<Rightarrow> session_tables \<Rightarrow> (unit \<times> session_tables) result" where
  "insert_or_ignore row tb =
     Inr ((), if sr_token_hash row \<in> sr_token_hash ` set (st_sessions tb) then tb else tb\<lparr>st_sessions := st_sessions tb @ [row]\<rparr>)"

definition insert_marker :: "session_tables \<Rightarrow> (unit \<times> session_tables) result" where
  "insert_marker tb =
     (if legacy_marker \<in> set (st_metadata tb) then Inl (constraint_error ''UNIQUE session_metadata.key'')
      else Inr ((), tb\<lparr>st_metadata := st_metadata tb @ [legacy_marker]\<rparr>))"

text \<open>A transaction whose errors are returned as they are.\<close>

definition run_tx :: "(session_tables db, 'a) step \<Rightarrow> (session_tables db, 'a) step" where
  "run_tx body d =
     (case then_do (sql_poll db_error) (\<lambda>_. then_do body (\<lambda>a. then_do (sql_poll db_error) (\<lambda>_. ret a))) d of
        (Inl e, d') \<Rightarrow> (Inl e, d'\<lparr>db_tables := db_tables d\<rparr>)
      | (Inr a, d') \<Rightarrow> (Inr a, d'))"

definition on_source :: "('s, 'a) step \<Rightarrow> ('s \<times> 't, 'a) step" where
  "on_source m st = (case m (fst st) of (r, s) \<Rightarrow> (r, (s, snd st)))"

definition on_target :: "('t, 'a) step \<Rightarrow> ('s \<times> 't, 'a) step" where
  "on_target m st = (case m (snd st) of (r, t) \<Rightarrow> (r, (fst st, t)))"

definition CopyLegacySessions :: "instant \<Rightarrow> (session_tables db \<times> session_tables db, unit) step" where
  "CopyLegacySessions now =
     then_do (on_target (sql_query_row (\<lambda>tb. length (filter (\<lambda>k. k = legacy_marker) (st_metadata tb))))) (\<lambda>imported.
     if imported \<noteq> 0 then ret ()
     else
       then_do (on_source (sql_poll db_error)) (\<lambda>_.
       then_do (on_source (get_state (\<lambda>d. filter (\<lambda>r. format_RFC3339Nano now < sr_expires_at r) (st_sessions (db_tables d))))) (\<lambda>sessions.
       then_do (on_source (sql_poll db_error)) (\<lambda>_.
       on_target (run_tx
         (then_do (for_each (\<lambda>s. sql_run (insert_or_ignore s)) sessions) (\<lambda>_. sql_run insert_marker)))))))"

end
