(* ===== verification/Session_Contract.thy ===== *)
theory Session_Contract
  imports Admin_Sessions
begin

text \<open>
  The interface \<open>SessionStore\<close> of \<open>internal/admin/session.go\<close> as a locale. What a store promises is stated over \<open>expiry\<close>, the sessions
  it knows by the digests of their tokens; the client's lemma is that the answers along a run are those of the history of the run.
  The three stores interpret it, the SQLite store without failures of the driver; it also keeps its sessions over a restart.
\<close>

section \<open>Histories\<close>

datatype session_event =
    Issued string instant
  | Refused
  | Checked string instant bool
  | LoggedOut string
  | Restarted

text \<open>When the token with this digest expires after a history, the latest event first.\<close>

fun expiry_of :: "session_event list \<Rightarrow> byte list \<Rightarrow> instant option" where
  "expiry_of [] d = None"
| "expiry_of (Issued token e # evs) d = (if d = tokenDigest token then Some e else expiry_of evs d)"
| "expiry_of (LoggedOut token # evs) d = (if d = tokenDigest token then None else expiry_of evs d)"
| "expiry_of (Refused # evs) d = expiry_of evs d"
| "expiry_of (Checked token now b # evs) d = expiry_of evs d"
| "expiry_of (Restarted # evs) d = expiry_of evs d"

definition live_at :: "(byte list \<Rightarrow> instant option) \<Rightarrow> string \<Rightarrow> instant \<Rightarrow> bool" where
  "live_at ex token now \<longleftrightarrow> (case ex (tokenDigest token) of None \<Rightarrow> False | Some e \<Rightarrow> now < e)"

text \<open>The runs of a store: the checks come with a clock that does not go back.\<close>

inductive session_run ::
  "(instant \<Rightarrow> int \<Rightarrow> byte list result \<Rightarrow> ('s, string) step) \<Rightarrow> ('o \<Rightarrow> string \<Rightarrow> instant \<Rightarrow> 's \<Rightarrow> bool \<times> 's) \<Rightarrow>
   ('o \<Rightarrow> string \<Rightarrow> 's \<Rightarrow> 's) \<Rightarrow> ('s \<Rightarrow> 'o \<Rightarrow> bool) \<Rightarrow> ('s \<Rightarrow> 's) option \<Rightarrow> 's \<Rightarrow> session_event list \<Rightarrow> instant \<Rightarrow> 's \<Rightarrow> bool"
  for create valid delete visits restart s0 where
  begun: "session_run create valid delete visits restart s0 [] clock s0"
| issued: "session_run create valid delete visits restart s0 evs clock s \<Longrightarrow> in_range (now + ttl) \<Longrightarrow>
    create now ttl random s = (Inr token, s') \<Longrightarrow> session_run create valid delete visits restart s0 (Issued token (now + ttl) # evs) clock s'"
| refused: "session_run create valid delete visits restart s0 evs clock s \<Longrightarrow> in_range (now + ttl) \<Longrightarrow>
    create now ttl random s = (Inl err, s') \<Longrightarrow> session_run create valid delete visits restart s0 (Refused # evs) clock s'"
| checked: "session_run create valid delete visits restart s0 evs clock s \<Longrightarrow> clock \<le> now \<Longrightarrow> visits s order \<Longrightarrow>
    valid order token now s = (b, s') \<Longrightarrow> session_run create valid delete visits restart s0 (Checked token now b # evs) now s'"
| logged_out: "session_run create valid delete visits restart s0 evs clock s \<Longrightarrow> visits s order \<Longrightarrow>
    session_run create valid delete visits restart s0 (LoggedOut token # evs) clock (delete order token s)"
| restarted: "session_run create valid delete visits restart s0 evs clock s \<Longrightarrow> restart = Some f \<Longrightarrow>
    session_run create valid delete visits restart s0 (Restarted # evs) clock (f s)"

section \<open>The contract\<close>

locale session_contract =
  fixes create :: "instant \<Rightarrow> int \<Rightarrow> byte list result \<Rightarrow> ('s, string) step"
    and valid :: "'o \<Rightarrow> string \<Rightarrow> instant \<Rightarrow> 's \<Rightarrow> bool \<times> 's"
    and delete :: "'o \<Rightarrow> string \<Rightarrow> 's \<Rightarrow> 's"
    and visits :: "'s \<Rightarrow> 'o \<Rightarrow> bool"
    and ok :: "'s \<Rightarrow> bool"
    and expiry :: "'s \<Rightarrow> byte list \<Rightarrow> instant option"
  assumes create_fails: "\<lbrakk>ok s; create now ttl random s = (Inl err, s')\<rbrakk> \<Longrightarrow> ok s' \<and> expiry s' = expiry s"
    and create_makes: "\<lbrakk>ok s; in_range (now + ttl); create now ttl random s = (Inr token, s')\<rbrakk> \<Longrightarrow>
      ok s' \<and> expiry s' = (expiry s)(tokenDigest token \<mapsto> now + ttl)"
    and valid_answers: "\<lbrakk>ok s; visits s order; valid order token now s = (b, s')\<rbrakk> \<Longrightarrow>
      ok s' \<and> (b \<longleftrightarrow> live_at (expiry s) token now) \<and> (\<forall>d e. now < e \<longrightarrow> (expiry s' d = Some e \<longleftrightarrow> expiry s d = Some e))"
    and delete_forgets: "\<lbrakk>ok s; visits s order\<rbrakk> \<Longrightarrow>
      ok (delete order token s) \<and> expiry (delete order token s) = (expiry s)(tokenDigest token := None)"
begin

text \<open>What a store may forget is what has expired.\<close>

definition agrees :: "session_event list \<Rightarrow> instant \<Rightarrow> 's \<Rightarrow> bool" where
  "agrees evs clock s \<longleftrightarrow> ok s \<and> (\<forall>d e. clock < e \<longrightarrow> (expiry s d = Some e \<longleftrightarrow> expiry_of evs d = Some e))"

lemma agrees_live: "agrees evs clock s \<Longrightarrow> clock \<le> now \<Longrightarrow> live_at (expiry s) token now = live_at (expiry_of evs) token now"
  by (auto simp: agrees_def live_at_def split: option.splits) (metis option.distinct(1) option.inject le_less_trans)+

definition answers_right :: "session_event list \<Rightarrow> bool" where
  "answers_right evs \<longleftrightarrow> (\<forall>later token now b earlier. evs = later @ Checked token now b # earlier \<longrightarrow> b = live_at (expiry_of earlier) token now)"

lemma answers_right_Cons:
  "answers_right evs \<Longrightarrow> (\<forall>token now b. ev = Checked token now b \<longrightarrow> b = live_at (expiry_of evs) token now) \<Longrightarrow> answers_right (ev # evs)"
  unfolding answers_right_def by (metis append_eq_Cons_conv list.inject)

lemma run_agrees:
  assumes "session_run create valid delete visits restart s0 evs clock s" and "ok s0" and "expiry s0 = Map.empty"
    and "\<And>f s. restart = Some f \<Longrightarrow> ok s \<Longrightarrow> ok (f s) \<and> expiry (f s) = expiry s"
  shows "agrees evs clock s \<and> answers_right evs"
  using assms(1)
proof induction
  case (begun clock)
  then show ?case using assms(2,3) by (simp add: agrees_def answers_right_def)
next
  case (issued evs clock s now ttl random token s')
  then show ?case using create_makes [OF _ issued.hyps(2,3)] by (auto simp: agrees_def intro: answers_right_Cons)
next
  case (refused evs clock s now ttl random err s')
  then show ?case using create_fails [OF _ refused.hyps(3)] by (auto simp: agrees_def intro: answers_right_Cons)
next
  case (checked evs clock s now order token b s')
  have a: "agrees evs clock s" using checked.IH by simp
  then have "ok s" by (simp add: agrees_def)
  note v = valid_answers [OF this checked.hyps(3,4)]
  have "b = live_at (expiry_of evs) token now" using v agrees_live [OF a checked.hyps(2)] by simp
  moreover have "agrees (Checked token now b # evs) now s'" using v a checked.hyps(2) by (auto simp: agrees_def)
  ultimately show ?case using checked.IH by (auto intro: answers_right_Cons)
next
  case (logged_out evs clock s order token)
  then show ?case using delete_forgets [OF _ logged_out.hyps(2)] by (auto simp: agrees_def intro: answers_right_Cons)
next
  case (restarted evs clock s f)
  then show ?case using assms(4) [of f s] by (auto simp: agrees_def intro: answers_right_Cons)
qed

end

text \<open>A store that keeps its sessions over a restart.\<close>

locale durable_sessions = session_contract create valid delete visits ok expiry
  for create :: "instant \<Rightarrow> int \<Rightarrow> byte list result \<Rightarrow> ('s, string) step" and valid :: "'o \<Rightarrow> string \<Rightarrow> instant \<Rightarrow> 's \<Rightarrow> bool \<times> 's"
    and delete :: "'o \<Rightarrow> string \<Rightarrow> 's \<Rightarrow> 's" and visits :: "'s \<Rightarrow> 'o \<Rightarrow> bool" and ok :: "'s \<Rightarrow> bool"
    and expiry :: "'s \<Rightarrow> byte list \<Rightarrow> instant option" +
  fixes restart :: "'s \<Rightarrow> 's"
  assumes restart_keeps: "ok s \<Longrightarrow> ok (restart s) \<and> expiry (restart s) = expiry s"
begin

lemma durable_run:
  assumes "session_run create valid delete visits (Some restart) s0 evs clock s" and "ok s0" and "expiry s0 = Map.empty"
    and "evs = later @ Checked token now b # earlier"
  shows "b \<longleftrightarrow> live_at (expiry_of earlier) token now"
proof -
  have "answers_right evs" using run_agrees [OF assms(1-3)] restart_keeps by auto
  then show ?thesis using assms(4) unfolding answers_right_def by blast
qed

end

end
