(* ===== verification/Session_Stores.thy ===== *)
theory Session_Stores
  imports Session_Contract
begin

text \<open>
  The stores of \<open>internal/admin/session.go\<close> keep the contract: the memory store, the store that is not available, and the SQLite store
  without failures of the driver, which keeps its sessions over a restart when it has a database.
\<close>

lemma key_inject: "tokenDigestKey d = tokenDigestKey d' \<longleftrightarrow> d = d'"
  using base64_encode_inject [OF alphabets_ok(1)] by (auto simp: tokenDigestKey_def)

lemma compare_digests [simp]: "ConstantTimeCompare x y = 1 \<longleftrightarrow> x = y"
  by (simp add: ConstantTimeCompare_def)

definition map_ok :: "session_map \<Rightarrow> bool" where
  "map_ok m \<longleftrightarrow> (\<forall>key session. m key = Some session \<longrightarrow> key = tokenDigestKey (ms_digest session))"

definition map_expiry :: "session_map \<Rightarrow> byte list \<Rightarrow> instant option" where
  "map_expiry m d = map_option ms_expires (m (tokenDigestKey d))"

lemma map_ok_update: "map_ok m \<Longrightarrow> map_ok (m(tokenDigestKey d \<mapsto> \<lparr>ms_digest = d, ms_expires = e\<rparr>))"
  by (auto simp: map_ok_def)

lemma map_ok_remove: "map_ok m \<Longrightarrow> map_ok (m(key := None))"
  by (auto simp: map_ok_def)

lemma map_ok_at: "map_ok m \<Longrightarrow> m (tokenDigestKey d) = Some session \<Longrightarrow> ms_digest session = d"
  by (metis key_inject map_ok_def)

lemma map_expiry_update: "map_expiry (m(tokenDigestKey d \<mapsto> \<lparr>ms_digest = d, ms_expires = e\<rparr>)) = (map_expiry m)(d \<mapsto> e)"
  by (rule ext) (simp add: map_expiry_def key_inject)

lemma map_expiry_remove: "map_expiry (m(tokenDigestKey d := None)) = (map_expiry m)(d := None)"
  by (rule ext) (simp add: map_expiry_def key_inject)

section \<open>The memory store\<close>

lemma valid_loop_spec:
  assumes "valid_loop digest now order s = (b, s')" and "distinct order"
  shows "(\<forall>key. s' key = s key \<or> (s' key = None \<and> (\<exists>session. s key = Some session \<and> \<not> now < ms_expires session))) \<and>
    (b \<longleftrightarrow> (\<exists>key \<in> set order. \<exists>session. s key = Some session \<and> now < ms_expires session \<and> ms_digest session = digest))"
  using assms
proof (induction digest now order s arbitrary: b s' rule: valid_loop.induct)
  case (1 digest now s)
  then show ?case by simp
next
  case (2 digest now key keys s)
  have d: "key \<notin> set keys" "distinct keys" using 2(5) by simp_all
  show ?case
  proof (cases "s key")
    case None
    then show ?thesis using 2(1) [OF None _ d(2)] 2(4) by simp
  next
    case (Some session)
    show ?thesis
    proof (cases "now < ms_expires session")
      case expired: False
      let ?s = "s(key := None)"
      have r: "valid_loop digest now keys ?s = (b, s')" using 2(4) Some expired by simp
      have ih: "\<forall>k. s' k = ?s k \<or> (s' k = None \<and> (\<exists>session. ?s k = Some session \<and> \<not> now < ms_expires session))"
        "b \<longleftrightarrow> (\<exists>k \<in> set keys. \<exists>session. ?s k = Some session \<and> now < ms_expires session \<and> ms_digest session = digest)"
        using 2(2) [OF Some expired r d(2)] by blast+
      have "\<forall>k. s' k = s k \<or> (s' k = None \<and> (\<exists>session. s k = Some session \<and> \<not> now < ms_expires session))"
        using ih(1) Some expired by (metis fun_upd_apply)
      moreover have "b \<longleftrightarrow> (\<exists>k \<in> set (key # keys). \<exists>session. s k = Some session \<and> now < ms_expires session \<and> ms_digest session = digest)"
        unfolding ih(2) using d(1) Some expired by auto
      ultimately show ?thesis by blast
    next
      case live: True
      show ?thesis
      proof (cases "digest = ms_digest session")
        case True
        then show ?thesis using 2(4) Some live by auto
      next
        case False
        then have "valid_loop digest now keys s = (b, s')" using 2(4) Some live by simp
        then show ?thesis using 2(3) [OF Some _ _ _ d(2)] Some live False by auto
      qed
    qed
  qed
qed

lemma delete_loop_spec:
  "distinct order \<Longrightarrow> map_ok s \<Longrightarrow> dom s = set order \<union> seen \<Longrightarrow> tokenDigestKey digest \<notin> seen \<Longrightarrow>
    delete_loop digest order s = s(tokenDigestKey digest := None)"
proof (induction digest order s arbitrary: seen rule: delete_loop.induct)
  case (1 digest s)
  then show ?case by (auto simp: fun_upd_idem_iff domIff)
next
  case (2 digest key keys s)
  then have "key \<in> dom s" by simp
  then obtain session where at: "s key = Some session" by blast
  show ?case
  proof (cases "digest = ms_digest session")
    case True
    then show ?thesis using at 2(4) by (simp add: map_ok_def)
  next
    case False
    then have "tokenDigestKey digest \<noteq> key" using at 2(4) map_ok_at by blast
    then show ?thesis using 2(2) [OF at, of "insert key seen"] 2(3-6) False at by auto
  qed
qed

lemma memory_valid_law:
  assumes "map_ok s" and "map_visits s order" and "memory_Valid order token now s = (b, s')"
  shows "map_ok s' \<and> (b \<longleftrightarrow> live_at (map_expiry s) token now) \<and>
    (\<forall>d e. now < e \<longrightarrow> (map_expiry s' d = Some e \<longleftrightarrow> map_expiry s d = Some e))"
proof -
  have v: "distinct order" "set order = dom s" using assms(2) by (simp_all add: map_visits_def)
  have l: "\<forall>key. s' key = s key \<or> (s' key = None \<and> (\<exists>session. s key = Some session \<and> \<not> now < ms_expires session))"
    and b: "b \<longleftrightarrow> (\<exists>key \<in> set order. \<exists>session. s key = Some session \<and> now < ms_expires session \<and> ms_digest session = tokenDigest token)"
    using valid_loop_spec [OF _ v(1), of "tokenDigest token" now s b s'] assms(3) unfolding memory_Valid_def by blast+
  have "map_ok s'" using l assms(1) unfolding map_ok_def by (metis option.distinct(1))
  moreover have "b \<longleftrightarrow> (\<exists>session. s (tokenDigestKey (tokenDigest token)) = Some session \<and> now < ms_expires session)"
    unfolding b v(2) using assms(1) map_ok_at [OF assms(1)] unfolding map_ok_def by (metis domI)
  then have "b \<longleftrightarrow> live_at (map_expiry s) token now" by (simp add: live_at_def map_expiry_def split: option.split)
  moreover have "map_expiry s' d = Some e \<longleftrightarrow> map_expiry s d = Some e" if "now < e" for d e
    using spec [OF l, of "tokenDigestKey d"] that unfolding map_expiry_def by (elim disjE) auto
  ultimately show ?thesis by blast
qed

interpretation memory: session_contract memory_Create memory_Valid memory_Delete map_visits map_ok map_expiry
proof unfold_locales
  show "map_ok s' \<and> map_expiry s' = map_expiry s" if "map_ok s" "memory_Create now ttl random s = (Inl err, s')" for s now ttl random err s'
    using that by (auto simp: memory_Create_def then_do_def Let_def split: sum.splits)
  show "map_ok s' \<and> map_expiry s' = (map_expiry s)(tokenDigest token \<mapsto> now + ttl)"
    if "map_ok s" "memory_Create now ttl random s = (Inr token, s')" for s now ttl random token s'
    using that by (auto simp: memory_Create_def then_do_def Let_def map_ok_update map_expiry_update split: sum.splits)
  show "map_ok (memory_Delete order token s) \<and> map_expiry (memory_Delete order token s) = (map_expiry s)(tokenDigest token := None)"
    if "map_ok s" "map_visits s order" for s order token
    using that delete_loop_spec [of order s "{}" "tokenDigest token"]
    by (simp add: memory_Delete_def map_visits_def map_ok_remove map_expiry_remove)
  show "map_ok s' \<and> (b \<longleftrightarrow> live_at (map_expiry s) token now) \<and> (\<forall>d e. now < e \<longrightarrow> (map_expiry s' d = Some e \<longleftrightarrow> map_expiry s d = Some e))"
    if "map_ok s" "map_visits s order" "memory_Valid order token now s = (b, s')" for s order token now b s'
    by (rule memory_valid_law [OF that])
qed

interpretation unavailable: session_contract unavailable_Create unavailable_Valid unavailable_Delete "\<lambda>s order. True" "\<lambda>s. True" "\<lambda>s d. None"
  by unfold_locales (auto simp: unavailable_Create_def unavailable_Valid_def unavailable_Delete_def live_at_def)

section \<open>The SQLite store\<close>

definition row_expiry :: "session_tables \<Rightarrow> string \<Rightarrow> instant option" where
  "row_expiry tb key =
     (case find (\<lambda>r. sr_token_hash r = key) (st_sessions tb) of None \<Rightarrow> None | Some r \<Rightarrow> parseRFC3339 (sr_expires_at r))"

definition sqlite_ok :: "session_store \<Rightarrow> bool" where
  "sqlite_ok s \<longleftrightarrow> map_ok (ss_sessions s) \<and>
     (case ss_db s of
        None \<Rightarrow> True
      | Some d \<Rightarrow> db_faults d = [] \<and>
          (\<forall>key session. ss_sessions s key = Some session \<longrightarrow> row_expiry (db_tables d) key = Some (ms_expires session)))"

definition sqlite_expiry :: "session_store \<Rightarrow> byte list \<Rightarrow> instant option" where
  "sqlite_expiry s d =
     (case ss_db s of None \<Rightarrow> map_expiry (ss_sessions s) d | Some db \<Rightarrow> row_expiry (db_tables db) (tokenDigestKey d))"

lemma find_filter_other: "find (\<lambda>r. f r = k) (filter (\<lambda>r. f r \<noteq> k') rs) = (if k = k' then None else find (\<lambda>r. f r = k) rs)"
  by (induction rs) auto



lemma find_append_at: "f r \<notin> f ` set rs \<Longrightarrow> find (\<lambda>x. f x = k) (rs @ [r]) = (if f r = k then Some r else find (\<lambda>x. f x = k) rs)"
  by (induction rs) auto

lemma row_expiry_insert:
  assumes "in_range e" and "insert_session \<lparr>sr_token_hash = key, sr_created_at = c, sr_expires_at = format_RFC3339Nano e\<rparr> tb = Inr (u, tb')"
  shows "row_expiry tb' = (row_expiry tb)(key \<mapsto> e)"
proof -
  let ?row = "\<lparr>sr_token_hash = key, sr_created_at = c, sr_expires_at = format_RFC3339Nano e\<rparr>"
  have new: "sr_token_hash ?row \<notin> sr_token_hash ` set (st_sessions tb)" and tb': "tb' = tb\<lparr>st_sessions := st_sessions tb @ [?row]\<rparr>"
    using assms(2) by (auto simp: insert_session_def split: if_splits)
  have "parseRFC3339 (format_RFC3339Nano e) = Some e" using assms(1) parse_format_RFC3339Nano by (simp add: in_range_def)
  then show ?thesis using find_append_at [OF new] by (intro ext) (simp add: row_expiry_def tb')
qed

lemma row_expiry_delete: "delete_session key tb = Inr (u, tb') \<Longrightarrow> row_expiry tb' = (row_expiry tb)(key := None)"
  by (intro ext) (auto simp: delete_session_def row_expiry_def find_filter_other)

lemma sqlite_delete_law:
  assumes "sqlite_ok s"
  shows "sqlite_ok (sqlite_Delete order token s) \<and> sqlite_expiry (sqlite_Delete order token s) = (sqlite_expiry s)(tokenDigest token := None)"
proof (cases "ss_db s")
  case None
  then show ?thesis using assms
    by (auto simp: sqlite_Delete_def uncache_session_def delete_row_def sqlite_ok_def sqlite_expiry_def [abs_def] map_ok_remove map_expiry_remove)
next
  case (Some d)
  let ?key = "tokenDigestKey (tokenDigest token)"
  obtain tb' where del: "delete_session ?key (db_tables d) = Inr ((), tb')" by (simp add: delete_session_def)
  have f: "db_faults d = []" using assms Some by (simp add: sqlite_ok_def)
  have e: "sqlite_Delete order token s = s\<lparr>ss_sessions := (ss_sessions s)(?key := None), ss_db := Some (d\<lparr>db_tables := tb'\<rparr>)\<rparr>"
    using Some f del by (simp add: sqlite_Delete_def uncache_session_def delete_row_def sql_run_no_fault)
  show ?thesis unfolding e using assms Some f row_expiry_delete [OF del]
    by (auto simp: sqlite_ok_def sqlite_expiry_def map_ok_remove key_inject)
qed

lemma sqlite_create_law:
  assumes "sqlite_ok s" and "sqlite_Create now ttl random s = (r, s')"
  shows "(case r of
      Inl err \<Rightarrow> sqlite_ok s' \<and> sqlite_expiry s' = sqlite_expiry s
    | Inr token \<Rightarrow> in_range (now + ttl) \<longrightarrow> sqlite_ok s' \<and> sqlite_expiry s' = (sqlite_expiry s)(tokenDigest token \<mapsto> now + ttl))"
proof (cases "ss_db s")
  case None
  then show ?thesis using assms
    by (auto simp: sqlite_Create_def then_do_def insert_row_def cache_session_def Let_def sqlite_ok_def sqlite_expiry_def [abs_def] map_ok_update
        map_expiry_update split: sum.splits)
next
  case (Some d)
  have f: "db_faults d = []" using assms Some by (simp add: sqlite_ok_def)
  show ?thesis
  proof (cases random)
    case (Inl err)
    then show ?thesis using assms by (auto simp: sqlite_Create_def then_do_def)
  next
    case (Inr tokenBytes)
    let ?token = "RawURLEncode tokenBytes"
    let ?digest = "tokenDigest ?token"
    let ?row = "\<lparr>sr_token_hash = tokenDigestKey ?digest, sr_created_at = format_RFC3339Nano now, sr_expires_at = format_RFC3339Nano (now + ttl)\<rparr>"
    show ?thesis
    proof (cases "insert_session ?row (db_tables d)")
      case (Inl err)
      have "s\<lparr>ss_db := Some d\<rparr> = s" using Some by (cases s) simp
      moreover have "r = Inl err" "s' = s\<lparr>ss_db := Some d\<rparr>" using assms(2) Some f Inr Inl
        by (simp_all add: sqlite_Create_def then_do_def Let_def insert_row_def sql_run_no_fault)
      ultimately have "r = Inl err" "s' = s" by simp_all
      then show ?thesis using assms(1) by simp
    next
      case ins: (Inr res)
      obtain tb' where res: "res = ((), tb')" by (cases res) simp
      have e: "r = Inr ?token" "s' = s\<lparr>ss_db := Some (d\<lparr>db_tables := tb'\<rparr>), ss_sessions := (ss_sessions s)(tokenDigestKey ?digest \<mapsto> \<lparr>ms_digest = ?digest, ms_expires = now + ttl\<rparr>)\<rparr>"
        using assms(2) Some f Inr ins res
        by (auto simp: sqlite_Create_def then_do_def Let_def insert_row_def sql_run_no_fault cache_session_def)
      show ?thesis
      proof (cases "in_range (now + ttl)")
        case True
        have x: "row_expiry tb' = (row_expiry (db_tables d))(tokenDigestKey ?digest \<mapsto> now + ttl)"
          using row_expiry_insert [OF True] ins res by blast
        then show ?thesis unfolding e using assms(1) Some f
          by (auto simp: sqlite_ok_def sqlite_expiry_def key_inject map_ok_update)
      qed (simp add: e)
    qed
  qed
qed

lemma validCached_spec:
  assumes "validCached (tokenDigestKey (tokenDigest token)) (tokenDigest token) now s = (b, s')" and "map_ok (ss_sessions s)"
  shows "s' = s\<lparr>ss_sessions := purge_expired now (ss_sessions s)\<rparr>" and "b \<longleftrightarrow> live_at (map_expiry (ss_sessions s)) token now"
  using assms map_ok_at [OF assms(2)]
  by (auto simp: validCached_def purge_expired_def live_at_def map_expiry_def Let_def split: option.splits if_splits)

lemma map_ok_purge: "map_ok m \<Longrightarrow> map_ok (purge_expired now m)"
  by (auto simp: map_ok_def purge_expired_def split: option.splits if_splits)

lemma purge_Some: "purge_expired now m key = Some session \<Longrightarrow> m key = Some session"
  by (auto simp: purge_expired_def split: option.splits if_splits)

lemma map_expiry_purge: "now < e \<Longrightarrow> map_expiry (purge_expired now m) d = Some e \<longleftrightarrow> map_expiry m d = Some e"
  by (auto simp: map_expiry_def purge_expired_def split: option.splits if_splits)

lemma read_row_no_fault:
  "db_faults d = [] \<Longrightarrow> ss_db s = Some d \<Longrightarrow>
    read_row key s = (map_option sr_expires_at (find (\<lambda>r. sr_token_hash r = key) (st_sessions (db_tables d))), s)"
  by (cases s) (simp add: read_row_def)

lemma sqlite_purge:
  assumes "sqlite_ok s"
  shows "sqlite_ok (s\<lparr>ss_sessions := purge_expired now (ss_sessions s)\<rparr>)"
    and "now < e \<Longrightarrow> sqlite_expiry (s\<lparr>ss_sessions := purge_expired now (ss_sessions s)\<rparr>) d = Some e \<longleftrightarrow> sqlite_expiry s d = Some e"
  using assms by (auto simp: sqlite_ok_def sqlite_expiry_def map_ok_purge map_expiry_purge split: option.splits dest: purge_Some)

lemma sqlite_valid_law:
  assumes ok: "sqlite_ok s" and v: "sqlite_Valid order token now s = (b, s')"
  shows "sqlite_ok s' \<and> (b \<longleftrightarrow> live_at (sqlite_expiry s) token now) \<and>
    (\<forall>d e. now < e \<longrightarrow> (sqlite_expiry s' d = Some e \<longleftrightarrow> sqlite_expiry s d = Some e))"
proof -
  let ?digest = "tokenDigest token"
  let ?key = "tokenDigestKey ?digest"
  let ?s = "s\<lparr>ss_sessions := purge_expired now (ss_sessions s)\<rparr>"
  obtain hit where c: "validCached ?key ?digest now s = (hit, ?s)" and h: "hit \<longleftrightarrow> live_at (map_expiry (ss_sessions s)) token now"
  proof -
    obtain hit s1 where e: "validCached ?key ?digest now s = (hit, s1)" by fastforce
    have "map_ok (ss_sessions s)" using ok by (simp add: sqlite_ok_def)
    from validCached_spec [OF e this] show ?thesis using e that by simp
  qed
  note p = sqlite_purge [OF ok, of now]
  show ?thesis
  proof (cases hit)
    case True
    have "live_at (sqlite_expiry s) token now" using h True ok
      by (auto simp: live_at_def map_expiry_def sqlite_expiry_def sqlite_ok_def split: option.splits)
    moreover have "b" "s' = ?s" using v c True by (simp_all add: sqlite_Valid_def Let_def)
    ultimately show ?thesis using p by simp
  next
    case miss: False
    show ?thesis
    proof (cases "ss_db s")
      case None
      have "\<not> b" "s' = ?s" using v c miss None by (simp_all add: sqlite_Valid_def Let_def read_row_def)
      moreover have "\<not> live_at (sqlite_expiry s) token now" using h miss None by (simp add: live_at_def sqlite_expiry_def)
      ultimately show ?thesis using p by simp
    next
      case (Some d)
      have f: "db_faults d = []" using ok Some by (simp add: sqlite_ok_def)
      have r: "read_row ?key ?s = (map_option sr_expires_at (find (\<lambda>r. sr_token_hash r = ?key) (st_sessions (db_tables d))), ?s)"
        using read_row_no_fault [OF f, of ?s] Some by simp
      have x: "sqlite_expiry s ?digest = row_expiry (db_tables d) ?key" using Some by (simp add: sqlite_expiry_def)
      show ?thesis
      proof (cases "find (\<lambda>r. sr_token_hash r = ?key) (st_sessions (db_tables d))")
        case None
        then have "\<not> b" "s' = ?s" using v c miss r by (simp_all add: sqlite_Valid_def Let_def)
        moreover have "\<not> live_at (sqlite_expiry s) token now" using x None by (simp add: live_at_def row_expiry_def)
        ultimately show ?thesis using p by simp
      next
        case row: (Some row)
        show ?thesis
        proof (cases "live_until (sr_expires_at row) now")
          case None
          then have b: "\<not> b" and s': "s' = sqlite_Delete order token ?s" using v c miss r row by (simp_all add: sqlite_Valid_def Let_def)
          have dead: "\<not> live_at (sqlite_expiry s) token now"
            using x row None by (auto simp: live_at_def row_expiry_def live_until_def split: option.splits if_splits)
          then have "sqlite_expiry s ?digest \<noteq> Some e" if "now < e" for e using that by (auto simp: live_at_def)
          then show ?thesis using b dead p sqlite_delete_law [OF p(1), of order token] unfolding s' by simp
        next
          case (Some e)
          then have b: "b" and s': "s' = cache_session ?digest e ?s" using v c miss r row by (simp_all add: sqlite_Valid_def Let_def)
          have e: "sqlite_expiry s ?digest = Some e" "now < e"
            using x row Some by (auto simp: row_expiry_def live_until_def split: option.splits if_splits)
          have "sqlite_ok s'" using p(1) \<open>ss_db s = Some d\<close> e(1) x map_ok_update [of "purge_expired now (ss_sessions s)" ?digest e]
            unfolding s' by (auto simp: sqlite_ok_def cache_session_def)
          moreover have "sqlite_expiry s' = sqlite_expiry s" using \<open>ss_db s = Some d\<close> unfolding s'
            by (intro ext) (simp add: sqlite_expiry_def cache_session_def)
          ultimately show ?thesis using b e by (simp add: live_at_def)
        qed
      qed
    qed
  qed
qed

definition durable_ok :: "session_store \<Rightarrow> bool" where
  "durable_ok s \<longleftrightarrow> sqlite_ok s \<and> ss_db s \<noteq> None"

lemma has_db:
  "ss_db (snd (sqlite_Create now ttl random s)) = None \<longleftrightarrow> ss_db s = None"
  "ss_db (snd (sqlite_Valid order token now s)) = None \<longleftrightarrow> ss_db s = None"
  "ss_db (sqlite_Delete order token s) = None \<longleftrightarrow> ss_db s = None"
  by (auto simp: sqlite_Create_def sqlite_Valid_def sqlite_Delete_def then_do_def insert_row_def cache_session_def validCached_def read_row_def
      uncache_session_def delete_row_def Let_def split: sum.splits option.splits prod.splits bool.splits)

interpretation sqlite: session_contract sqlite_Create sqlite_Valid sqlite_Delete "\<lambda>s order. True" sqlite_ok sqlite_expiry
proof unfold_locales
  show "sqlite_ok s' \<and> sqlite_expiry s' = sqlite_expiry s" if "sqlite_ok s" "sqlite_Create now ttl random s = (Inl err, s')" for s now ttl random err s'
    using sqlite_create_law [OF that] by simp
  show "sqlite_ok s' \<and> sqlite_expiry s' = (sqlite_expiry s)(tokenDigest token \<mapsto> now + ttl)"
    if "sqlite_ok s" "in_range (now + ttl)" "sqlite_Create now ttl random s = (Inr token, s')" for s now ttl random token s'
    using sqlite_create_law [OF that(1,3)] that(2) by simp
  show "sqlite_ok s' \<and> (b \<longleftrightarrow> live_at (sqlite_expiry s) token now) \<and> (\<forall>d e. now < e \<longrightarrow> (sqlite_expiry s' d = Some e \<longleftrightarrow> sqlite_expiry s d = Some e))"
    if "sqlite_ok s" "True" "sqlite_Valid order token now s = (b, s')" for s order token now b s'
    by (rule sqlite_valid_law [OF that(1,3)])
  show "sqlite_ok (sqlite_Delete order token s) \<and> sqlite_expiry (sqlite_Delete order token s) = (sqlite_expiry s)(tokenDigest token := None)"
    if "sqlite_ok s" "True" for s order token
    by (rule sqlite_delete_law [OF that(1)])
qed

interpretation durable: durable_sessions sqlite_Create sqlite_Valid sqlite_Delete "\<lambda>s order. True" durable_ok sqlite_expiry reopen_store
proof unfold_locales
  show "durable_ok s' \<and> sqlite_expiry s' = sqlite_expiry s" if "durable_ok s" "sqlite_Create now ttl random s = (Inl err, s')" for s now ttl random err s'
    using sqlite.create_fails [of s] that has_db(1) [of now ttl random s] by (simp add: durable_ok_def)
  show "durable_ok s' \<and> sqlite_expiry s' = (sqlite_expiry s)(tokenDigest token \<mapsto> now + ttl)"
    if "durable_ok s" "in_range (now + ttl)" "sqlite_Create now ttl random s = (Inr token, s')" for s now ttl random token s'
    using sqlite.create_makes [of s] that has_db(1) [of now ttl random s] by (simp add: durable_ok_def)
  show "durable_ok s' \<and> (b \<longleftrightarrow> live_at (sqlite_expiry s) token now) \<and> (\<forall>d e. now < e \<longrightarrow> (sqlite_expiry s' d = Some e \<longleftrightarrow> sqlite_expiry s d = Some e))"
    if "durable_ok s" "True" "sqlite_Valid order token now s = (b, s')" for s order token now b s'
    using sqlite_valid_law [of s order token now b s'] that has_db(2) [of order token now s] by (simp add: durable_ok_def)
  show "durable_ok (sqlite_Delete order token s) \<and> sqlite_expiry (sqlite_Delete order token s) = (sqlite_expiry s)(tokenDigest token := None)"
    if "durable_ok s" "True" for s order token
    using sqlite_delete_law [of s order token] that has_db(3) [of order token s] by (simp add: durable_ok_def)
  show "durable_ok (reopen_store s) \<and> sqlite_expiry (reopen_store s) = sqlite_expiry s" if "durable_ok s" for s
    using that by (auto simp: durable_ok_def sqlite_ok_def reopen_store_def NewSQLiteSessionStore_def map_ok_def sqlite_expiry_def [abs_def])
qed

end
