(* ===== verification/Session_Steps.thy ===== *)
theory Session_Steps
  imports Session_Stores
begin

text \<open>
  The SQLite store of \<open>internal/admin/session.go\<close> under concurrent requests: between the cache, which the mutex guards, and the statements on
  the database other requests run. \<open>session_move\<close> has a rule for each such piece of \<open>Create\<close>, \<open>Valid\<close> and \<open>Delete\<close>, with any
  failures of the driver; a restart ends every request. The log has the answers, the latest first; a session counts as issued when its row is in the table.
\<close>

datatype session_task =
    Creating string instant
  | Looking string instant
  | Found string instant instant
  | Stale string instant
  | Dropping string "instant option"

record session_world =
  sw_store :: session_store
  sw_tasks :: "session_task list"
  sw_log :: "session_event list"

abbreviation key_of :: "string \<Rightarrow> string" where
  "key_of token \<equiv> tokenDigestKey (tokenDigest token)"

text \<open>A task takes its next step: the store, what the task goes on with, and what is logged.\<close>

definition task_step :: "session_task \<Rightarrow> session_task list \<Rightarrow> session_event list \<Rightarrow> session_store \<Rightarrow> session_world \<Rightarrow> session_world" where
  "task_step t next events s w = \<lparr>sw_store = s, sw_tasks = next @ remove1 t (sw_tasks w), sw_log = events @ sw_log w\<rparr>"

definition new_step :: "session_task list \<Rightarrow> session_event list \<Rightarrow> session_store \<Rightarrow> session_world \<Rightarrow> session_world" where
  "new_step next events s w = \<lparr>sw_store = s, sw_tasks = next @ sw_tasks w, sw_log = events @ sw_log w\<rparr>"

inductive session_move :: "session_world \<Rightarrow> session_world \<Rightarrow> bool" where
  insert: "token = RawURLEncode tokenBytes \<Longrightarrow> in_range (now + ttl) \<Longrightarrow> insert_row (key_of token) now (now + ttl) (sw_store w) = (Inr (), s) \<Longrightarrow>
    session_move w (new_step [Creating token (now + ttl)] [Issued token (now + ttl)] s w)"
| not_inserted: "token = RawURLEncode tokenBytes \<Longrightarrow> insert_row (key_of token) now (now + ttl) (sw_store w) = (Inl err, s) \<Longrightarrow>
    session_move w (new_step [] [Refused] s w)"
| created: "Creating token e \<in> set (sw_tasks w) \<Longrightarrow>
    session_move w (task_step (Creating token e) [] [] (cache_session (tokenDigest token) e (sw_store w)) w)"
| hit: "validCached (key_of token) (tokenDigest token) now (sw_store w) = (True, s) \<Longrightarrow>
    session_move w (new_step [] [Checked token now True] s w)"
| miss: "validCached (key_of token) (tokenDigest token) now (sw_store w) = (False, s) \<Longrightarrow>
    session_move w (new_step [Looking token now] [] s w)"
| absent: "Looking token now \<in> set (sw_tasks w) \<Longrightarrow> read_row (key_of token) (sw_store w) = (None, s) \<Longrightarrow>
    session_move w (task_step (Looking token now) [] [Checked token now False] s w)"
| found: "Looking token now \<in> set (sw_tasks w) \<Longrightarrow> read_row (key_of token) (sw_store w) = (Some raw, s) \<Longrightarrow> live_until raw now = Some e \<Longrightarrow>
    session_move w (task_step (Looking token now) [Found token now e] [] s w)"
| cached: "Found token now e \<in> set (sw_tasks w) \<Longrightarrow>
    session_move w (task_step (Found token now e) [] [Checked token now True] (cache_session (tokenDigest token) e (sw_store w)) w)"
| expired: "Looking token now \<in> set (sw_tasks w) \<Longrightarrow> read_row (key_of token) (sw_store w) = (Some raw, s) \<Longrightarrow> live_until raw now = None \<Longrightarrow>
    session_move w (task_step (Looking token now) [Stale token now] [] s w)"
| uncached: "Stale token now \<in> set (sw_tasks w) \<Longrightarrow>
    session_move w (task_step (Stale token now) [Dropping token (Some now)] [] (uncache_session (key_of token) (sw_store w)) w)"
| logout: "session_move w (new_step [Dropping token None] [] (uncache_session (key_of token) (sw_store w)) w)"
| dropped: "Dropping token checked \<in> set (sw_tasks w) \<Longrightarrow>
    session_move w (task_step (Dropping token checked) []
      [case checked of None \<Rightarrow> LoggedOut token | Some now \<Rightarrow> Checked token now False] (delete_row (key_of token) (sw_store w)) w)"
| restart: "session_move w \<lparr>sw_store = reopen_store (sw_store w), sw_tasks = [], sw_log = Restarted # sw_log w\<rparr>"

inductive session_moves :: "session_world \<Rightarrow> session_world \<Rightarrow> bool" where
  none: "session_moves w w"
| more: "session_moves w w' \<Longrightarrow> session_move w' w'' \<Longrightarrow> session_moves w w''"

definition new_world :: "session_tables db option \<Rightarrow> session_world" where
  "new_world db = \<lparr>sw_store = NewSQLiteSessionStore db, sw_tasks = [], sw_log = []\<rparr>"

section \<open>Every session was issued\<close>

definition backed :: "session_event list \<Rightarrow> byte list \<Rightarrow> instant \<Rightarrow> bool" where
  "backed log d e \<longleftrightarrow> (\<exists>token. Issued token e \<in> set log \<and> tokenDigest token = d)"

lemma backed_mono: "backed log d e \<Longrightarrow> backed (evs @ log) d e"
  by (auto simp: backed_def)

fun task_ok :: "session_event list \<Rightarrow> session_task \<Rightarrow> bool" where
  "task_ok log (Creating token e) \<longleftrightarrow> backed log (tokenDigest token) e"
| "task_ok log (Found token now e) \<longleftrightarrow> backed log (tokenDigest token) e \<and> now < e"
| "task_ok log _ \<longleftrightarrow> True"

definition store_backed :: "session_event list \<Rightarrow> session_store \<Rightarrow> bool" where
  "store_backed log s \<longleftrightarrow>
     (\<forall>key session. ss_sessions s key = Some session \<longrightarrow> key = tokenDigestKey (ms_digest session) \<and> backed log (ms_digest session) (ms_expires session)) \<and>
     (\<forall>d. ss_db s = Some d \<longrightarrow> (\<forall>r \<in> set (st_sessions (db_tables d)). \<forall>e. parseRFC3339 (sr_expires_at r) = Some e \<longrightarrow>
        (\<exists>digest. sr_token_hash r = tokenDigestKey digest \<and> backed log digest e)))"

definition log_ok :: "session_event list \<Rightarrow> bool" where
  "log_ok log \<longleftrightarrow> (\<forall>later token now earlier. log = later @ Checked token now True # earlier \<longrightarrow>
     (\<exists>e. backed earlier (tokenDigest token) e \<and> now < e))"

definition world_ok :: "session_world \<Rightarrow> bool" where
  "world_ok w \<longleftrightarrow> store_backed (sw_log w) (sw_store w) \<and> (\<forall>t \<in> set (sw_tasks w). task_ok (sw_log w) t) \<and> log_ok (sw_log w)"

lemma task_ok_mono: "task_ok log t \<Longrightarrow> task_ok (evs @ log) t"
  by (cases t) (auto intro: backed_mono)

lemma store_backed_mono: "store_backed log s \<Longrightarrow> store_backed (evs @ log) s"
  unfolding store_backed_def by (meson backed_mono)

lemma log_ok_Cons: "log_ok log \<Longrightarrow> (\<forall>token now. ev = Checked token now True \<longrightarrow> (\<exists>e. backed log (tokenDigest token) e \<and> now < e)) \<Longrightarrow> log_ok (ev # log)"
proof -
  assume ok: "log_ok log" and ev: "\<forall>token now. ev = Checked token now True \<longrightarrow> (\<exists>e. backed log (tokenDigest token) e \<and> now < e)"
  have "\<exists>e. backed earlier (tokenDigest token) e \<and> now < e" if "ev # log = later @ Checked token now True # earlier" for later token now earlier
    using that ok ev unfolding log_ok_def by (cases later) auto
  then show ?thesis unfolding log_ok_def by blast
qed

lemma store_backed_cache: "store_backed log s \<Longrightarrow> backed log d e \<Longrightarrow> store_backed log (cache_session d e s)"
  unfolding store_backed_def cache_session_def by simp

lemma store_backed_uncache: "store_backed log s \<Longrightarrow> store_backed log (uncache_session key s)"
  by (auto simp: store_backed_def uncache_session_def)

lemma store_backed_tables:
  "store_backed log s \<Longrightarrow> ss_db s = Some d \<Longrightarrow> set (st_sessions (db_tables d')) \<subseteq> set (st_sessions (db_tables d)) \<Longrightarrow> store_backed log (s\<lparr>ss_db := Some d'\<rparr>)"
  by (auto simp: store_backed_def)

lemma store_backed_delete: "store_backed log s \<Longrightarrow> store_backed log (delete_row key s)"
  by (auto simp: delete_row_def delete_session_def sql_run_def then_do_def sql_poll_def intro!: store_backed_tables split: option.splits sum.splits prod.splits)

lemma find_row: "find P xs = Some x \<Longrightarrow> x \<in> set xs \<and> P x"
  by (metis find_Some_iff nth_mem)

lemma store_backed_read:
  assumes "store_backed log s" and "read_row key s = (r, s')"
  shows "store_backed log s'"
    and "r = Some raw \<Longrightarrow> parseRFC3339 raw = Some e \<Longrightarrow> key = tokenDigestKey d \<Longrightarrow> backed log d e"
proof -
  show "store_backed log s'" using assms
    by (auto simp: read_row_def sql_query_row_def then_do_def sql_poll_def intro!: store_backed_tables split: option.splits sum.splits prod.splits)
  assume r: "r = Some raw" and e: "parseRFC3339 raw = Some e" and k: "key = tokenDigestKey d"
  obtain db row where row: "ss_db s = Some db" "row \<in> set (st_sessions (db_tables db))" "sr_token_hash row = key" "sr_expires_at row = raw"
    using assms(2) r by (auto simp: read_row_def sql_query_row_def then_do_def sql_poll_def dest!: find_row split: option.splits sum.splits prod.splits if_splits)
  with assms(1) e obtain digest where "sr_token_hash row = tokenDigestKey digest" "backed log digest e" unfolding store_backed_def by blast
  then show "backed log d e" using row(3) k key_inject by simp
qed

lemma store_backed_cached:
  assumes "store_backed log s" and "validCached (key_of token) (tokenDigest token) now s = (b, s')"
  shows "store_backed log s'" and "b \<Longrightarrow> \<exists>e. backed log (tokenDigest token) e \<and> now < e"
proof -
  have m: "map_ok (ss_sessions s)" using assms(1) by (auto simp: store_backed_def map_ok_def)
  note v = validCached_spec [OF assms(2) m]
  show "store_backed log s'" using assms(1) unfolding v(1) by (auto simp: store_backed_def dest: purge_Some)
  assume b
  then obtain session where "ss_sessions s (key_of token) = Some session" "now < ms_expires session"
    using v(2) by (auto simp: live_at_def map_expiry_def split: option.splits)
  then show "\<exists>e. backed log (tokenDigest token) e \<and> now < e"
    using assms(1) map_ok_at [OF m] unfolding store_backed_def by metis
qed

lemma store_backed_insert:
  assumes "store_backed log s" and "insert_row (key_of token) now e s = (r, s')"
  shows "r = Inr () \<Longrightarrow> in_range e \<Longrightarrow> store_backed (Issued token e # log) s'" and "r = Inl err \<Longrightarrow> store_backed log s'"
proof -
  show "store_backed log s'" if "r = Inl err" using assms that
    by (auto simp: insert_row_def insert_session_def sql_run_def then_do_def sql_poll_def intro!: store_backed_tables split: option.splits sum.splits prod.splits if_splits)
  assume r: "r = Inr ()" and e: "in_range e"
  have m: "store_backed (Issued token e # log) s" using store_backed_mono [OF assms(1), of "[Issued token e]"] by simp
  show "store_backed (Issued token e # log) s'"
  proof (cases "ss_db s")
    case None
    then show ?thesis using assms(2) m by (simp add: insert_row_def)
  next
    case (Some d)
    let ?row = "\<lparr>sr_token_hash = key_of token, sr_created_at = format_RFC3339Nano now, sr_expires_at = format_RFC3339Nano e\<rparr>"
    obtain d' where s': "s' = s\<lparr>ss_db := Some d'\<rparr>" and rows: "st_sessions (db_tables d') = st_sessions (db_tables d) @ [?row]"
      using assms(2) r Some
      by (auto simp: insert_row_def insert_session_def sql_run_def then_do_def sql_poll_def split: sum.splits prod.splits if_splits)
    have p: "parseRFC3339 (format_RFC3339Nano e) = Some e" using e parse_format_RFC3339Nano by (simp add: in_range_def)
    have "backed (Issued token e # log) (tokenDigest token) e" by (auto simp: backed_def)
    then show ?thesis using m Some p unfolding s' store_backed_def by (auto simp: rows)
  qed
qed

lemma session_step_ok:
  assumes "world_ok w" and "store_backed (events @ sw_log w) s" and "log_ok (events @ sw_log w)" and "\<forall>t \<in> set next. task_ok (events @ sw_log w) t"
  shows "world_ok (new_step next events s w)" and "world_ok (task_step t next events s w)"
  using assms by (auto simp: world_ok_def new_step_def task_step_def dest: notin_set_remove1 intro: task_ok_mono)

lemma other_log_ok: "log_ok log \<Longrightarrow> (\<forall>token now. ev \<noteq> Checked token now True) \<Longrightarrow> log_ok (ev # log)"
  by (rule log_ok_Cons) auto

lemma session_move_ok:
  assumes "session_move w w'" and ok: "world_ok w"
  shows "world_ok w'"
proof -
  have s: "store_backed (sw_log w) (sw_store w)" and t: "\<forall>t \<in> set (sw_tasks w). task_ok (sw_log w) t" and l: "log_ok (sw_log w)"
    using ok by (simp_all add: world_ok_def)
  note more = store_backed_mono [where evs = "[ev]" for ev, simplified]
  show ?thesis
    using assms(1)
  proof cases
    case (insert token tokenBytes now ttl s')
    show ?thesis unfolding insert(1)
      by (rule session_step_ok [OF ok]) (use store_backed_insert(1) [OF s insert(4)] insert(3) l in \<open>auto simp: backed_def intro: other_log_ok\<close>)
  next
    case (not_inserted token tokenBytes now ttl err s')
    show ?thesis unfolding not_inserted(1)
      by (rule session_step_ok [OF ok]) (use store_backed_insert(2) [OF s not_inserted(3)] l more in \<open>auto intro: other_log_ok\<close>)
  next
    case (created token e)
    have "backed (sw_log w) (tokenDigest token) e" using t created(2) by fastforce
    then show ?thesis unfolding created(1) by (intro session_step_ok [OF ok]) (use s l store_backed_cache in auto)
  next
    case (hit token now s')
    note c = store_backed_cached [OF s hit(2)]
    show ?thesis unfolding hit(1) by (rule session_step_ok [OF ok]) (use c l more in \<open>auto intro: log_ok_Cons\<close>)
  next
    case (miss token now s')
    show ?thesis unfolding miss(1) by (rule session_step_ok [OF ok]) (use store_backed_cached(1) [OF s miss(2)] l in auto)
  next
    case (absent token now s')
    show ?thesis unfolding absent(1) by (rule session_step_ok [OF ok]) (use store_backed_read(1) [OF s absent(3)] l more in \<open>auto intro: other_log_ok\<close>)
  next
    case (found token now raw s' e)
    have e: "parseRFC3339 raw = Some e" "now < e" using found(4) by (auto simp: live_until_def split: option.splits if_splits)
    then have "backed (sw_log w) (tokenDigest token) e" using store_backed_read(2) [OF s found(3)] by blast
    then show ?thesis unfolding found(1) by (intro session_step_ok [OF ok]) (use store_backed_read(1) [OF s found(3)] e l in auto)
  next
    case (cached token now e)
    have b: "backed (sw_log w) (tokenDigest token) e" "now < e" using t cached(2) by fastforce+
    show ?thesis unfolding cached(1)
      by (rule session_step_ok [OF ok]) (use b l more [OF store_backed_cache [OF s b(1)]] in \<open>auto intro: log_ok_Cons\<close>)
  next
    case (expired token now raw s')
    show ?thesis unfolding expired(1) by (rule session_step_ok [OF ok]) (use store_backed_read(1) [OF s expired(3)] l in auto)
  next
    case (uncached token now)
    show ?thesis unfolding uncached(1) by (rule session_step_ok [OF ok]) (use store_backed_uncache [OF s] l in auto)
  next
    case (logout token)
    show ?thesis unfolding logout by (rule session_step_ok [OF ok]) (use store_backed_uncache [OF s] l in auto)
  next
    case (dropped token checked)
    show ?thesis unfolding dropped(1)
      by (rule session_step_ok [OF ok]) (use more [OF store_backed_delete [OF s]] l in \<open>auto intro: other_log_ok split: option.split\<close>)
  next
    case restart
    have "store_backed (sw_log w) (reopen_store (sw_store w))"
      using s by (simp add: store_backed_def reopen_store_def NewSQLiteSessionStore_def)
    then show ?thesis unfolding restart using more other_log_ok [OF l] by (simp add: world_ok_def)
  qed
qed

lemma moves_ok_world: "session_moves w w' \<Longrightarrow> world_ok w \<Longrightarrow> world_ok w'"
  by (induction rule: session_moves.induct) (blast intro: session_move_ok)+

lemma new_world_ok: "(\<forall>d. db = Some d \<longrightarrow> st_sessions (db_tables d) = []) \<Longrightarrow> world_ok (new_world db)"
  by (auto simp: world_ok_def new_world_def store_backed_def NewSQLiteSessionStore_def log_ok_def)

end
