(* ===== verification/Session_Properties.thy ===== *)
theory Session_Properties
  imports Session_Steps
begin

text \<open>
  The properties of the sessions of \<open>internal/admin/session.go\<close>: the answers of the SQLite store are those of the history, no token passes that
  was not issued, whatever runs at the same time and whatever fails; and two ways in which a logout does not end a session.
\<close>

section \<open>Answers\<close>

definition no_sessions :: "session_tables db" where
  "no_sessions = \<lparr>db_tables = \<lparr>st_sessions = [], st_metadata = []\<rparr>, db_faults = []\<rparr>"

text \<open>
  C35: As long as the driver does not fail, the SQLite store answers by the history of its operations, over any restarts: a token is valid
  exactly when the last issue of its digest comes after the last logout of it and has not expired. Expiry is to the nanosecond although the times are kept
  as texts, and neither the cache nor the removal of expired sessions shows.
\<close>

theorem sessions_answer_history:
  assumes "session_run sqlite_Create sqlite_Valid sqlite_Delete (\<lambda>s order. True) (Some reopen_store) (NewSQLiteSessionStore (Some no_sessions)) evs clock s"
    and "evs = later @ Checked token now b # earlier"
  shows "b \<longleftrightarrow> (\<exists>e. expiry_of earlier (tokenDigest token) = Some e \<and> now < e)"
proof -
  let ?s = "NewSQLiteSessionStore (Some no_sessions)"
  have "durable_ok ?s" by (simp add: durable_ok_def sqlite_ok_def NewSQLiteSessionStore_def no_sessions_def map_ok_def)
  moreover have "sqlite_expiry ?s = Map.empty"
    by (rule ext) (simp add: sqlite_expiry_def NewSQLiteSessionStore_def no_sessions_def row_expiry_def)
  ultimately have "b \<longleftrightarrow> live_at (expiry_of earlier) token now" using durable.durable_run [OF assms(1) _ _ assms(2)] by simp
  then show ?thesis by (simp add: live_at_def split: option.splits)
qed

text \<open>A session of ten nanoseconds that is issued before and checked after a restart.\<close>

definition demo_bytes :: "byte list" where
  "demo_bytes = [1, 2, 3]"

definition issued_store :: session_store where
  "issued_store = snd (sqlite_Create 0 10 (Inr demo_bytes) (NewSQLiteSessionStore (Some no_sessions)))"

lemma dated_10: "in_range 10"
  unfolding in_range_def by code_simp

lemma issued: "sqlite_Create 0 10 (Inr demo_bytes) (NewSQLiteSessionStore (Some no_sessions)) = (Inr (RawURLEncode demo_bytes), issued_store)"
  by (simp add: issued_store_def sqlite_Create_def then_do_def Let_def insert_row_def NewSQLiteSessionStore_def no_sessions_def sql_run_no_fault
      insert_session_def)

theorem sessions_answer_history_witness:
  "fst (sqlite_Valid () (RawURLEncode demo_bytes) 9 (reopen_store issued_store)) \<and>
   \<not> fst (sqlite_Valid () (RawURLEncode demo_bytes) 9 (sqlite_Delete () (RawURLEncode demo_bytes) (reopen_store issued_store)))"
proof -
  let ?t = "RawURLEncode demo_bytes"
  let ?run = "session_run sqlite_Create sqlite_Valid sqlite_Delete (\<lambda>s order. True) (Some reopen_store) (NewSQLiteSessionStore (Some no_sessions))"
  have d: "in_range (0 + 10)" using dated_10 by simp
  have r: "?run [Restarted, Issued ?t 10] 0 (reopen_store issued_store)"
  proof -
    have "?run [Issued ?t (0 + 10)] 0 issued_store" using session_run.issued [OF session_run.begun d, where create = sqlite_Create] issued by blast
    from session_run.restarted [OF this] show ?thesis by simp
  qed
  obtain b s where v: "sqlite_Valid () ?t 9 (reopen_store issued_store) = (b, s)" by fastforce
  have "?run [Checked ?t 9 b, Restarted, Issued ?t 10] 9 s" by (rule session_run.checked [OF r _ _ v]) simp_all
  from sessions_answer_history [OF this, of "[]" ?t 9 b] have 1: b by simp
  obtain b' s' where v': "sqlite_Valid () ?t 9 (sqlite_Delete () ?t (reopen_store issued_store)) = (b', s')" by fastforce
  have "?run [LoggedOut ?t, Restarted, Issued ?t 10] 0 (sqlite_Delete () ?t (reopen_store issued_store))"
    by (rule session_run.logged_out [OF r]) simp
  from session_run.checked [OF this _ _ v'] have "?run [Checked ?t 9 b', LoggedOut ?t, Restarted, Issued ?t 10] 9 s'" by simp
  from sessions_answer_history [OF this, of "[]" ?t 9 b'] have "\<not> b'" by simp
  with 1 v v' show ?thesis by simp
qed

section \<open>Safety\<close>

text \<open>
  C36: No session is made up. Whatever requests are interleaved, restarted over or hit by failures of the database, when a token is found valid then a token with its
  SHA-256 digest had been issued before, with an expiry after the time of the check.
\<close>

theorem no_forged_session:
  assumes "session_moves (new_world db) w" and "\<forall>d. db = Some d \<longrightarrow> st_sessions (db_tables d) = []"
    and "sw_log w = later @ Checked token now True # earlier"
  shows "\<exists>token' e. Issued token' e \<in> set earlier \<and> Sum256 (bytes_of token') = Sum256 (bytes_of token) \<and> now < e"
proof -
  have "log_ok (sw_log w)" using moves_ok_world [OF assms(1) new_world_ok [OF assms(2)]] by (simp add: world_ok_def)
  then have "\<exists>e. backed earlier (tokenDigest token) e \<and> now < e" using assms(3) unfolding log_ok_def by blast
  then show ?thesis by (auto simp: backed_def tokenDigest_def)
qed

text \<open>A store without a database, a session that is issued and found in the cache.\<close>

definition checked_world :: session_world where
  "checked_world =
     \<lparr>sw_store = cache_session (tokenDigest (RawURLEncode demo_bytes)) 10 (NewSQLiteSessionStore None), sw_tasks = [],
      sw_log = [Checked (RawURLEncode demo_bytes) 9 True, Issued (RawURLEncode demo_bytes) 10]\<rparr>"

lemma checked_moves: "session_moves (new_world None) checked_world"
proof -
  let ?t = "RawURLEncode demo_bytes"
  let ?empty = "NewSQLiteSessionStore None"
  let ?s = "cache_session (tokenDigest ?t) 10 ?empty"
  let ?w1 = "\<lparr>sw_store = ?empty, sw_tasks = [Creating ?t 10], sw_log = [Issued ?t 10]\<rparr>"
  let ?w2 = "\<lparr>sw_store = ?s, sw_tasks = [], sw_log = [Issued ?t 10]\<rparr>"
  have d: "in_range (0 + 10)" using dated_10 by simp
  have 1: "session_move (new_world None) ?w1"
    using session_move.insert [OF refl d, where w = "new_world None" and s = ?empty and tokenBytes = demo_bytes]
    by (simp add: new_world_def new_step_def insert_row_def NewSQLiteSessionStore_def)
  have 2: "session_move ?w1 ?w2" using session_move.created [of ?t 10 ?w1] by (simp add: task_step_def)
  have "validCached (key_of ?t) (tokenDigest ?t) 9 ?s = (True, ?s)"
    by (auto simp: validCached_def cache_session_def NewSQLiteSessionStore_def purge_expired_def Let_def)
  then have 3: "session_move ?w2 checked_world"
    using session_move.hit [of ?t 9 ?w2 ?s] by (simp add: new_step_def checked_world_def)
  show ?thesis by (rule session_moves.more [OF session_moves.more [OF session_moves.more [OF session_moves.none 1] 2] 3])
qed

theorem no_forged_session_witness:
  "\<exists>token' e. Issued token' e \<in> set [Issued (RawURLEncode demo_bytes) 10] \<and>
     Sum256 (bytes_of token') = Sum256 (bytes_of (RawURLEncode demo_bytes)) \<and> 9 < e"
  using no_forged_session [OF checked_moves, of "[]" "RawURLEncode demo_bytes" 9 "[Issued (RawURLEncode demo_bytes) 10]"]
  by (simp add: checked_world_def)

section \<open>Logouts\<close>

text \<open>A token that the table knows and the cache does not, as after a restart.\<close>

definition in_table :: "session_store \<Rightarrow> string \<Rightarrow> instant \<Rightarrow> bool" where
  "in_table s token e \<longleftrightarrow> ss_sessions s (key_of token) = None \<and>
     (\<exists>d. ss_db s = Some d \<and> db_faults d = [] \<and> row_expiry (db_tables d) (key_of token) = Some e)"

lemma purge_absent: "m key = None \<Longrightarrow> purge_expired now m key = None"
  by (simp add: purge_expired_def)

lemma cached_hit:
  "now < e \<Longrightarrow> fst (validCached (tokenDigestKey d) d now (cache_session d e s))"
  by (simp add: validCached_def cache_session_def purge_expired_def Let_def)

text \<open>
  A logout can be undone by a request that runs beside it. A check of the token that has read the row before the logout deletes it puts the session
  back into the cache when the logout has returned; from then on the token is valid again until it expires, although the logout did not fail.
\<close>

theorem logout_can_be_undone:
  assumes "in_table (sw_store w) token e" and "now < e" and "now' < e"
  shows "\<exists>w'. session_moves w w' \<and>
    sw_log w' = [Checked token now' True, Checked token now True, LoggedOut token] @ sw_log w"
proof -
  let ?d = "tokenDigest token"
  let ?key = "key_of token"
  let ?s = "sw_store w"
  obtain d where c: "ss_sessions ?s ?key = None" and d: "ss_db ?s = Some d" "db_faults d = []" "row_expiry (db_tables d) ?key = Some e"
    using assms(1) by (auto simp: in_table_def)
  obtain row where row: "find (\<lambda>r. sr_token_hash r = ?key) (st_sessions (db_tables d)) = Some row" "parseRFC3339 (sr_expires_at row) = Some e"
    using d(3) by (auto simp: row_expiry_def split: option.splits)
  let ?s1 = "?s\<lparr>ss_sessions := purge_expired now (ss_sessions ?s)\<rparr>"
  have v: "validCached ?key ?d now ?s = (False, ?s1)" using purge_absent [where m = "ss_sessions ?s" and key = ?key] c by (simp add: validCached_def Let_def)
  have r: "read_row ?key ?s1 = (Some (sr_expires_at row), ?s1)" using read_row_no_fault [of d ?s1 ?key] d row by simp
  have u: "live_until (sr_expires_at row) now = Some e" using row(2) assms(2) by (simp add: live_until_def)
  let ?s2 = "delete_row ?key (uncache_session ?key ?s1)"
  obtain s4 where v': "validCached ?key ?d now' (cache_session ?d e ?s2) = (True, s4)"
    using cached_hit [OF assms(3), of ?d ?s2] by (metis prod.collapse)
  define w1 where "w1 = new_step [Looking token now] [] ?s1 w"
  define w2 where "w2 = task_step (Looking token now) [Found token now e] [] ?s1 w1"
  define w3 where "w3 = new_step [Dropping token None] [] (uncache_session ?key ?s1) w2"
  define w4 where "w4 = task_step (Dropping token None) [] [LoggedOut token] ?s2 w3"
  define w5 where "w5 = task_step (Found token now e) [] [Checked token now True] (cache_session ?d e ?s2) w4"
  define w6 where "w6 = new_step [] [Checked token now' True] s4 w5"
  note w = w1_def w2_def w3_def w4_def w5_def w6_def new_step_def task_step_def
  have 1: "session_move w w1" unfolding w1_def by (rule session_move.miss [OF v])
  have 2: "session_move w1 w2" unfolding w2_def by (rule session_move.found [OF _ _ u]) (simp_all add: w r)
  have 3: "session_move w2 w3" using session_move.logout [of w2 token] by (simp add: w)
  have 4: "session_move w3 w4" using session_move.dropped [of token None w3] by (simp add: w)
  have 5: "session_move w4 w5" using session_move.cached [of token now e w4] by (simp add: w)
  have 6: "session_move w5 w6" unfolding w6_def by (rule session_move.hit) (use v' in \<open>simp add: w5_def task_step_def\<close>)
  have "session_moves w w6"
    by (rule session_moves.more [OF session_moves.more [OF session_moves.more [OF session_moves.more [OF session_moves.more [OF session_moves.more
      [OF session_moves.none 1] 2] 3] 4] 5] 6])
  moreover have "sw_log w6 = [Checked token now' True, Checked token now True, LoggedOut token] @ sw_log w" by (simp add: w)
  ultimately show ?thesis by blast
qed

text \<open>A logout whose statement fails leaves the row; \<open>Delete\<close> has no result that would say so.\<close>

lemma failed_logout_keeps_session:
  assumes "ss_db s = Some d" and "db_faults d = [True]" and "row_expiry (db_tables d) (key_of token) = Some e" and "now < e"
  shows "fst (sqlite_Valid () token now (sqlite_Delete () token s))"
proof -
  obtain row where row: "find (\<lambda>r. sr_token_hash r = key_of token) (st_sessions (db_tables d)) = Some row" "parseRFC3339 (sr_expires_at row) = Some e"
    using assms(3) by (auto simp: row_expiry_def split: option.splits)
  let ?s = "sqlite_Delete () token s"
  have db: "ss_db ?s = Some (d\<lparr>db_faults := []\<rparr>)" and c: "ss_sessions ?s (key_of token) = None"
    using assms(1,2) by (simp_all add: sqlite_Delete_def uncache_session_def delete_row_def sql_run_def then_do_def sql_poll_def)
  let ?s1 = "?s\<lparr>ss_sessions := purge_expired now (ss_sessions ?s)\<rparr>"
  have "validCached (key_of token) (tokenDigest token) now ?s = (False, ?s1)"
    using purge_absent [where m = "ss_sessions ?s" and key = "key_of token"] c by (simp add: validCached_def Let_def)
  moreover have "read_row (key_of token) ?s1 = (Some (sr_expires_at row), ?s1)"
    using read_row_no_fault [of "d\<lparr>db_faults := []\<rparr>" ?s1 "key_of token"] db row by simp
  moreover have "live_until (sr_expires_at row) now = Some e" using row(2) assms(4) by (simp add: live_until_def)
  ultimately show ?thesis by (simp add: sqlite_Valid_def Let_def)
qed

lemma issued_in_table: "in_table (reopen_store issued_store) (RawURLEncode demo_bytes) 10"
proof -
  let ?e = "format_RFC3339Nano 10"
  have "parseRFC3339 ?e = Some 10" using dated_10 parse_format_RFC3339Nano by (simp add: in_range_def)
  then show ?thesis
    by (simp add: in_table_def issued_store_def reopen_store_def sqlite_Create_def then_do_def Let_def insert_row_def NewSQLiteSessionStore_def
        no_sessions_def sql_run_no_fault insert_session_def cache_session_def row_expiry_def)
qed

theorem logout_can_be_undone_witness:
  "\<exists>w'. session_moves \<lparr>sw_store = reopen_store issued_store, sw_tasks = [], sw_log = []\<rparr> w' \<and>
    sw_log w' = [Checked (RawURLEncode demo_bytes) 9 True, Checked (RawURLEncode demo_bytes) 5 True, LoggedOut (RawURLEncode demo_bytes)]"
  using logout_can_be_undone [of "\<lparr>sw_store = reopen_store issued_store, sw_tasks = [], sw_log = []\<rparr>" "RawURLEncode demo_bytes" 10 5 9] issued_in_table
  by simp

section \<open>The copy of the old sessions\<close>

lemma on_target_eq: "on_target m st = (r, st') \<longleftrightarrow> (\<exists>t. m (snd st) = (r, t) \<and> st' = (fst st, t))"
  by (auto simp: on_target_def split: prod.splits)

lemma on_source_eq: "on_source m st = (r, st') \<longleftrightarrow> (\<exists>s. m (fst st) = (r, s) \<and> st' = (s, snd st))"
  by (auto simp: on_source_def split: prod.splits)

lemma poll_tables: "sql_poll err d = (r, d') \<Longrightarrow> db_tables d' = db_tables d"
  by (auto simp: sql_poll_def split: prod.splits)

lemma insert_marker_marks: "insert_marker tb = Inr (u, tb') \<Longrightarrow> legacy_marker \<in> set (st_metadata tb')"
  by (auto simp: insert_marker_def split: if_splits)

lemma run_tx_Inr:
  assumes "run_tx body d = (Inr a, d')"
  shows "\<exists>d1 d2. body d1 = (Inr a, d2) \<and> db_tables d' = db_tables d2"
proof -
  have "then_do (sql_poll db_error) (\<lambda>_. then_do body (\<lambda>a. then_do (sql_poll db_error) (\<lambda>_. ret a))) d = (Inr a, d')"
    using assms by (simp add: run_tx_def split: prod.splits sum.splits)
  then obtain d1 d2 a' u where b: "body d1 = (Inr a', d2)" and c: "sql_poll db_error d2 = (Inr u, d')" "a' = a" by (auto simp: then_do_eq_Inr)
  then show ?thesis using poll_tables [OF c(1)] by blast
qed

text \<open>
  The sessions of the old database are copied once. After a copy that succeeded the marker is set, and no later copy, from whatever source, changes the
  target: a session that was deleted in between stays deleted.
\<close>

theorem legacy_sessions_copied_once:
  assumes "CopyLegacySessions now (source, target) = (Inr (), (source', target'))"
  shows "legacy_marker \<in> set (st_metadata (db_tables target')) \<and>
    (\<forall>other t now'. st_metadata (db_tables t) = st_metadata (db_tables target') \<longrightarrow>
       db_tables (snd (snd (CopyLegacySessions now' (other, t)))) = db_tables t)"
proof
  let ?q = "\<lambda>tb. length (filter (\<lambda>k. k = legacy_marker) (st_metadata tb))"
  show marked: "legacy_marker \<in> set (st_metadata (db_tables target'))"
  proof -
    obtain imported t where q: "sql_query_row ?q target = (Inr imported, t)" and rest:
      "(if imported \<noteq> 0 then ret ()
        else then_do (on_source (sql_poll db_error)) (\<lambda>_.
          then_do (on_source (get_state (\<lambda>d. filter (\<lambda>r. format_RFC3339Nano now < sr_expires_at r) (st_sessions (db_tables d))))) (\<lambda>sessions.
          then_do (on_source (sql_poll db_error)) (\<lambda>_.
          on_target (run_tx (then_do (for_each (\<lambda>s. sql_run (insert_or_ignore s)) sessions) (\<lambda>_. sql_run insert_marker)))))))
        (source, t) = (Inr (), (source', target'))"
      using assms unfolding CopyLegacySessions_def then_do_eq_Inr [of "on_target m" for m] on_target_eq by auto
    have n: "imported = ?q (db_tables target)" "db_tables t = db_tables target" using sql_query_row_ok [OF q] by simp_all
    show ?thesis
    proof (cases "imported = 0")
      case False
      then have "target' = t" using rest by simp
      moreover have "filter (\<lambda>k. k = legacy_marker) (st_metadata (db_tables target)) \<noteq> []" using False n(1) by simp
      ultimately show ?thesis using n(2) by (auto simp: filter_empty_conv)
    next
      case True
      obtain rows t1 where "run_tx (then_do (for_each (\<lambda>s. sql_run (insert_or_ignore s)) rows) (\<lambda>_. sql_run insert_marker)) t1 = (Inr (), target')"
        using rest True by (auto simp: then_do_eq_Inr on_target_eq on_source_eq)
      from run_tx_Inr [OF this] obtain t2 t3 where "sql_run insert_marker t2 = (Inr (), t3)" "db_tables target' = db_tables t3"
        unfolding then_do_eq_Inr by blast
      moreover from this have "insert_marker (db_tables t2) = Inr ((), db_tables t3)" using sql_run_ok [of insert_marker t2 "()" t3] by simp
      ultimately show ?thesis using insert_marker_marks by simp
    qed
  qed
  have "db_tables (snd (snd (CopyLegacySessions now' (other, t)))) = db_tables t"
    if "st_metadata (db_tables t) = st_metadata (db_tables target')" for other t now'
  proof -
    have pos: "?q (db_tables t) \<noteq> 0" using marked that by (auto simp: filter_empty_conv)
    obtain r t' where q: "sql_query_row ?q t = (r, t')" by fastforce
    show ?thesis
    proof (cases r)
      case (Inl err)
      then show ?thesis using q by (auto simp: CopyLegacySessions_def then_do_def on_target_def sql_query_row_def sql_poll_def split: prod.splits sum.splits if_splits)
    next
      case (Inr n)
      then have "n \<noteq> 0" "db_tables t' = db_tables t" using sql_query_row_ok [of ?q t n t'] q pos by simp_all
      then show ?thesis using q Inr by (simp add: CopyLegacySessions_def then_do_def on_target_def)
    qed
  qed
  then show "\<forall>other t now'. st_metadata (db_tables t) = st_metadata (db_tables target') \<longrightarrow>
       db_tables (snd (snd (CopyLegacySessions now' (other, t)))) = db_tables t" by blast
qed

theorem legacy_sessions_copied_once_witness:
  "legacy_marker \<in> set (st_metadata (db_tables (snd (snd (CopyLegacySessions 5 (no_sessions, no_sessions))))))"
proof -
  have "CopyLegacySessions 5 (no_sessions, no_sessions) =
    (Inr (), (no_sessions, no_sessions\<lparr>db_tables := \<lparr>st_sessions = [], st_metadata = [legacy_marker]\<rparr>\<rparr>))"
    by (simp add: CopyLegacySessions_def then_do_def on_target_def on_source_def no_sessions_def run_tx_def sql_run_no_fault insert_marker_def)
  from legacy_sessions_copied_once [OF this] this show ?thesis by simp
qed

end
