(* ===== verification/Admin_Password.thy ===== *)
theory Admin_Password
  imports Go_Encoding Go_Json Go_Effects
begin

text \<open>
  \<open>internal/admin/password.go\<close>: password hashes in the format of the Argon2 reference program. The derivation \<open>argon2.IDKey\<close> is a third-party
  package: it is the argument \<open>IDKey\<close> of the definitions, and all that is used of it is that it returns as many bytes as it is asked for. The
  hashes are parsed by \<open>fmt.Sscanf\<close>, which stops at the end of the format and leaves the rest of its input alone.
\<close>

section \<open>Scanning\<close>

definition sscan_literal :: "string \<Rightarrow> string \<Rightarrow> string option" where
  "sscan_literal lit s = (if HasPrefix s lit then Some (TrimPrefix s lit) else None)"

text \<open>A verb skips blanks; a line end is an error.\<close>

definition SkipSpace :: "string \<Rightarrow> string option" where
  "SkipSpace s =
     (let rest = dropWhile (\<lambda>c. is_space c \<and> c \<noteq> CHR 0x0A \<and> c \<noteq> CHR 0x0D) s in
      if rest \<noteq> [] \<and> (hd rest = CHR 0x0A \<or> hd rest = CHR 0x0D) then None else Some rest)"

definition sscan_digits :: "string \<Rightarrow> (nat \<times> string) option" where
  "sscan_digits s =
     (let ds = takeWhile is_digit s in
      if ds = [] then None else Some (foldl (\<lambda>n d. 10 * n + (of_char d - 48)) 0 ds, dropWhile is_digit s))"

definition sscan_uint :: "nat \<Rightarrow> string \<Rightarrow> (nat \<times> string) option" where
  "sscan_uint bits s =
     (case SkipSpace s of None \<Rightarrow> None | Some s \<Rightarrow>
        (case sscan_digits s of None \<Rightarrow> None | Some (n, rest) \<Rightarrow> if n < 2 ^ bits then Some (n, rest) else None))"

definition sscan_int :: "string \<Rightarrow> (int \<times> string) option" where
  "sscan_int s =
     (case SkipSpace s of None \<Rightarrow> None | Some s \<Rightarrow>
        let neg = (s \<noteq> [] \<and> hd s = CHR ''-'');
            digits = (if s \<noteq> [] \<and> (hd s = CHR ''-'' \<or> hd s = CHR ''+'') then tl s else s) in
        (case sscan_digits digits of None \<Rightarrow> None
         | Some (n, rest) \<Rightarrow>
             let i = (if neg then - int n else int n) in
             if - (2 ^ 63) \<le> i \<and> i < 2 ^ 63 then Some (i, rest) else None))"

section \<open>Hashes\<close>

record argon2id_params =
  ap_Memory :: nat
  ap_Time :: nat
  ap_Parallelism :: nat
  ap_SaltLength :: nat
  ap_KeyLength :: nat

text \<open>The fields are a \<open>uint32\<close> each, the parallelism a \<open>uint8\<close>.\<close>

definition params_range :: "argon2id_params \<Rightarrow> bool" where
  "params_range p \<longleftrightarrow> ap_Memory p < 2 ^ 32 \<and> ap_Time p < 2 ^ 32 \<and> ap_Parallelism p < 2 ^ 8 \<and> ap_SaltLength p < 2 ^ 32 \<and> ap_KeyLength p < 2 ^ 32"

definition NewArgon2idHasher :: "argon2id_params \<Rightarrow> argon2id_params" where
  "NewArgon2idHasher params =
     (let params = (if ap_Memory params = 0 then params\<lparr>ap_Memory := 64 * 1024\<rparr> else params);
          params = (if ap_Time params = 0 then params\<lparr>ap_Time := 3\<rparr> else params);
          params = (if ap_Parallelism params = 0 then params\<lparr>ap_Parallelism := 1\<rparr> else params);
          params = (if ap_SaltLength params = 0 then params\<lparr>ap_SaltLength := 16\<rparr> else params);
          params = (if ap_KeyLength params = 0 then params\<lparr>ap_KeyLength := 32\<rparr> else params) in
      params)"

type_synonym id_key = "byte list \<Rightarrow> byte list \<Rightarrow> nat \<Rightarrow> nat \<Rightarrow> nat \<Rightarrow> nat \<Rightarrow> byte list"

definition params_text :: "argon2id_params \<Rightarrow> string" where
  "params_text p = ''m='' @ decimal (ap_Memory p) @ '',t='' @ decimal (ap_Time p) @ '',p='' @ decimal (ap_Parallelism p)"

text \<open>\<open>random\<close> is what \<open>rand.Read\<close> puts into the salt.\<close>

definition Hash :: "id_key \<Rightarrow> argon2id_params \<Rightarrow> byte list result \<Rightarrow> byte list \<Rightarrow> string result" where
  "Hash IDKey params random password =
     (case random of
        Inl err \<Rightarrow> Inl err
      | Inr salt \<Rightarrow>
          let hash = IDKey password salt (ap_Time params) (ap_Memory params) (ap_Parallelism params) (ap_KeyLength params) in
          Inr (''$argon2id$v=19$'' @ params_text params @ ''$'' @ RawStdEncode salt @ ''$'' @ RawStdEncode hash))"

definition argon2_Version :: int where
  "argon2_Version = 19"

definition scan_version :: "string \<Rightarrow> int option" where
  "scan_version s = (case sscan_literal ''v='' s of None \<Rightarrow> None | Some s \<Rightarrow> map_option fst (sscan_int s))"

definition scan_params :: "string \<Rightarrow> (nat \<times> nat \<times> nat) option" where
  "scan_params s =
     (case sscan_literal ''m='' s of None \<Rightarrow> None | Some s \<Rightarrow>
      (case sscan_uint 32 s of None \<Rightarrow> None | Some (m, s) \<Rightarrow>
      (case sscan_literal '',t='' s of None \<Rightarrow> None | Some s \<Rightarrow>
      (case sscan_uint 32 s of None \<Rightarrow> None | Some (t, s) \<Rightarrow>
      (case sscan_literal '',p='' s of None \<Rightarrow> None | Some s \<Rightarrow>
      (case sscan_uint 8 s of None \<Rightarrow> None | Some (p, s) \<Rightarrow> Some (m, t, p)))))))"

definition parseArgon2idHash :: "string \<Rightarrow> (argon2id_params \<times> byte list \<times> byte list) result" where
  "parseArgon2idHash encoded =
     (let parts = Split CHR ''$'' encoded in
      if length parts \<noteq> 6 \<or> parts ! 0 \<noteq> [] \<or> parts ! 1 \<noteq> ''argon2id'' then Inl (ErrorString ''invalid argon2id hash'')
      else
        (case scan_version (parts ! 2) of
           None \<Rightarrow> Inl (ErrorString ''invalid argon2id version'')
         | Some version \<Rightarrow>
             if version \<noteq> argon2_Version then Inl (ErrorString ''unsupported argon2id version'')
             else
               (case scan_params (parts ! 3) of
                  None \<Rightarrow> Inl (ErrorString ''invalid argon2id parameters'')
                | Some (m, t, p) \<Rightarrow>
                    (case RawStdDecode (parts ! 4) of
                       None \<Rightarrow> Inl (ErrorString ''invalid argon2id salt'')
                     | Some salt \<Rightarrow>
                         (case RawStdDecode (parts ! 5) of
                            None \<Rightarrow> Inl (ErrorString ''invalid argon2id hash bytes'')
                          | Some hash \<Rightarrow>
                              if salt = [] \<or> hash = [] then Inl (ErrorString ''invalid argon2id hash'')
                              else Inr (\<lparr>ap_Memory = m, ap_Time = t, ap_Parallelism = p,
                                ap_SaltLength = length salt mod 2 ^ 32, ap_KeyLength = length hash mod 2 ^ 32\<rparr>, salt, hash))))))"

definition Compare :: "id_key \<Rightarrow> string \<Rightarrow> byte list \<Rightarrow> bool result" where
  "Compare IDKey encoded password =
     (case parseArgon2idHash encoded of
        Inl err \<Rightarrow> Inl err
      | Inr (params, salt, expected) \<Rightarrow>
          let actual = IDKey password salt (ap_Time params) (ap_Memory params) (ap_Parallelism params) (length expected mod 2 ^ 32) in
          Inr (actual = expected))"

section \<open>The round trip\<close>

lemma digit_no_blank: "is_digit c \<Longrightarrow> \<not> is_space c \<and> c \<noteq> CHR 0x0A \<and> c \<noteq> CHR 0x0D"
  by (auto simp: is_digit_def is_space_def)

lemma digits_span:
  assumes "list_all is_digit ds" and "rest = [] \<or> \<not> is_digit (hd rest)"
  shows "takeWhile is_digit (ds @ rest) = ds" and "dropWhile is_digit (ds @ rest) = rest"
  using assms by (induction ds) (auto simp: takeWhile_eq_Nil_iff dropWhile_eq_self_iff)

lemma foldl_decimal: "foldl (\<lambda>n d. 10 * n + (of_char d - 48)) 0 (decimal n) = (n::nat)"
proof (induction n rule: decimal.induct)
  case (1 n)
  have "n = 10 * (n div 10) + n mod 10" by simp
  then show ?case using 1 by (cases "n < 10") (simp_all add: decimal.simps [of n])
qed

lemma sscan_decimal: "rest = [] \<or> \<not> is_digit (hd rest) \<Longrightarrow> sscan_digits (decimal n @ rest) = Some (n, rest)"
  using decimal_digits [of n] digits_span [of "decimal n" rest] by (simp add: sscan_digits_def Let_def foldl_decimal)

lemma SkipSpace_decimal: "SkipSpace (decimal n @ rest) = Some (decimal n @ rest)"
  using decimal_digits [of n] digit_no_blank by (cases "decimal n") (auto simp: SkipSpace_def)

lemma sscan_uint_decimal: "rest = [] \<or> \<not> is_digit (hd rest) \<Longrightarrow> n < 2 ^ bits \<Longrightarrow> sscan_uint bits (decimal n @ rest) = Some (n, rest)"
  by (simp add: sscan_uint_def SkipSpace_decimal sscan_decimal)

lemma scan_params_text:
  assumes "params_range p"
  shows "scan_params (params_text p) = Some (ap_Memory p, ap_Time p, ap_Parallelism p)"
  using assms sscan_uint_decimal [of "[]" "ap_Parallelism p" 8]
  by (simp add: scan_params_def params_text_def params_range_def sscan_literal_def HasPrefix_def TrimPrefix_def sscan_uint_decimal is_digit_def)

lemma scan_version_19: "scan_version ''v=19'' = Some 19"
  by code_simp

lemma params_no_dollar: "CHR ''$'' \<notin> set (params_text p)"
proof -
  have "CHR ''$'' \<notin> set (decimal n)" for n using decimal_digits [of n] by (auto simp: list_all_iff is_digit_def)
  then show ?thesis by (simp add: params_text_def)
qed

lemma std_no_dollar: "CHR ''$'' \<notin> set (RawStdEncode bs)"
  by (rule encode_no_char [OF alphabets_ok(1)]) (simp add: std_alphabet_def base64_letters_def)

lemma hash_parts:
  "Split CHR ''$'' (''$argon2id$v=19$'' @ params_text p @ ''$'' @ RawStdEncode salt @ ''$'' @ RawStdEncode hash) =
     [[], ''argon2id'', ''v=19'', params_text p, RawStdEncode salt, RawStdEncode hash]"
  using Split_append_sep [of "CHR ''$''" "params_text p" "RawStdEncode salt @ CHR ''$'' # RawStdEncode hash"]
    Split_append_sep [of "CHR ''$''" "RawStdEncode salt" "RawStdEncode hash"]
    Split_no_sep [OF params_no_dollar] Split_no_sep [OF std_no_dollar]
  by simp

text \<open>The text that \<open>Hash\<close> writes gives back its parameters, its salt and its key.\<close>

lemma parse_hash:
  assumes "params_range p" and "salt \<noteq> []" and "hash \<noteq> []" and "length salt = ap_SaltLength p" and "length hash = ap_KeyLength p"
  shows "parseArgon2idHash (''$argon2id$v=19$'' @ params_text p @ ''$'' @ RawStdEncode salt @ ''$'' @ RawStdEncode hash) = Inr (p, salt, hash)"
  unfolding parseArgon2idHash_def hash_parts
  using assms base64_decode_encode [OF alphabets_ok(1)]
  by (simp add: scan_version_19 argon2_Version_def scan_params_text params_range_def)

section \<open>Passwords\<close>

definition length_ok :: "id_key \<Rightarrow> bool" where
  "length_ok IDKey \<longleftrightarrow> (\<forall>password salt t m p n. length (IDKey password salt t m p n) = n)"

lemma hash_compared:
  assumes "params_range params" and "length_ok IDKey" and "length salt = ap_SaltLength (NewArgon2idHasher params)"
    and "Hash IDKey (NewArgon2idHasher params) (Inr salt) password = Inr encoded"
  shows "Compare IDKey encoded other =
    Inr (let h = NewArgon2idHasher params in
         IDKey other salt (ap_Time h) (ap_Memory h) (ap_Parallelism h) (ap_KeyLength h) =
         IDKey password salt (ap_Time h) (ap_Memory h) (ap_Parallelism h) (ap_KeyLength h))"
proof -
  let ?h = "NewArgon2idHasher params"
  let ?key = "IDKey password salt (ap_Time ?h) (ap_Memory ?h) (ap_Parallelism ?h) (ap_KeyLength ?h)"
  have r: "params_range ?h" and pos: "0 < ap_SaltLength ?h" "0 < ap_KeyLength ?h"
    using assms(1) by (auto simp: NewArgon2idHasher_def params_range_def Let_def)
  have l: "length ?key = ap_KeyLength ?h" using assms(2) by (simp add: length_ok_def)
  have "salt \<noteq> []" "?key \<noteq> []" using pos assms(3) l by (metis length_0_conv less_irrefl)+
  from parse_hash [OF r this assms(3) l] assms(4)
  have "parseArgon2idHash encoded = Inr (?h, salt, ?key)" by (simp add: Hash_def Let_def)
  moreover have "length ?key mod 2 ^ 32 = ap_KeyLength ?h" using l r by (simp add: params_range_def)
  ultimately show ?thesis by (simp add: Compare_def Let_def)
qed

text \<open>
  The encoded hash of a password accepts that password, and any other exactly when \<open>argon2.IDKey\<close> derives the same key from it, for any parameters given to
  \<open>NewArgon2idHasher\<close>, which replaces zeros, and any salt of the configured length: nothing is lost between the hash that is written and the one that is read.
\<close>

theorem hash_accepts_password:
  assumes "params_range params" and "length_ok IDKey" and "length salt = ap_SaltLength (NewArgon2idHasher params)"
    and "Hash IDKey (NewArgon2idHasher params) (Inr salt) password = Inr encoded"
  shows "Compare IDKey encoded other =
    Inr (let h = NewArgon2idHasher params in
         IDKey other salt (ap_Time h) (ap_Memory h) (ap_Parallelism h) (ap_KeyLength h) =
         IDKey password salt (ap_Time h) (ap_Memory h) (ap_Parallelism h) (ap_KeyLength h))"
  by (rule hash_compared [OF assms])

text \<open>A derivation that only depends on the length of the password.\<close>

definition length_key :: id_key where
  "length_key password salt t m p n = replicate n (byte_of (length password))"

theorem hash_accepts_password_witness:
  "Compare length_key (''$argon2id$v=19$'' @ params_text (NewArgon2idHasher \<lparr>ap_Memory = 0, ap_Time = 1, ap_Parallelism = 0, ap_SaltLength = 2, ap_KeyLength = 2\<rparr>)
     @ ''$'' @ RawStdEncode [7, 8] @ ''$'' @ RawStdEncode [3, 3]) [1, 2, 3] = Inr True"
proof -
  let ?p = "\<lparr>ap_Memory = 0, ap_Time = 1, ap_Parallelism = 0, ap_SaltLength = 2, ap_KeyLength = 2\<rparr>"
  let ?h = "NewArgon2idHasher ?p"
  have r: "params_range ?p" by (simp add: params_range_def)
  have l: "length_ok length_key" by (simp add: length_ok_def length_key_def)
  have s: "length [7, 8 :: byte] = ap_SaltLength ?h" by (simp add: NewArgon2idHasher_def Let_def)
  have three: "byte_of (Suc (Suc (Suc 0))) = 3" by (simp add: byte_of_def)
  have two: "replicate 2 x = [x, x]" for x :: byte by (simp add: numeral_2_eq_2)
  have "ap_KeyLength ?h = 2" by (simp add: NewArgon2idHasher_def Let_def)
  then have "Hash length_key ?h (Inr [7, 8]) [4, 5, 6] =
    Inr (''$argon2id$v=19$'' @ params_text ?h @ ''$'' @ RawStdEncode [7, 8] @ ''$'' @ RawStdEncode [3, 3])"
    by (simp add: Hash_def length_key_def three two)
  from hash_accepts_password [OF r l s this, of "[1, 2, 3]"] show ?thesis by (simp add: length_key_def)
qed

end
