(* ===== verification/Admin_Users.thy ===== *)
theory Admin_Users
  imports Sql_Table Go_Time_Order Go_Encoding "HOL-Library.Product_Lexorder"
begin

text \<open>
  \<open>internal/admin/store.go\<close> and \<open>internal/admin/api_key_store.go\<close>: the administrator and the API keys, in memory and in SQLite. Times are
  in UTC; the texts of the time columns are those that \<open>formatAPIKeyTime\<close> writes.
\<close>

section \<open>The interfaces\<close>

definition ErrAlreadySetup :: go_error where
  "ErrAlreadySetup = ErrorString ''admin user is already set up''"

definition ErrNotSetup :: go_error where
  "ErrNotSetup = ErrorString ''admin user is not set up''"

definition ErrAPIKeyNotFound :: go_error where
  "ErrAPIKeyNotFound = ErrorString ''api key not found''"

record api_key =
  ak_ID :: int
  ak_Name :: string
  ak_Prefix :: string
  ak_Last4 :: string
  ak_CreatedAt :: instant
  ak_LastUsedAt :: "instant option"
  ak_RevokedAt :: "instant option"
  ak_Disabled :: bool

record stored_key =
  sk_APIKey :: api_key
  sk_KeyHash :: string

definition new_key :: "int \<Rightarrow> string \<Rightarrow> string \<Rightarrow> string \<Rightarrow> instant \<Rightarrow> api_key" where
  "new_key i name kprefix last4 createdAt =
     \<lparr>ak_ID = i, ak_Name = name, ak_Prefix = kprefix, ak_Last4 = last4, ak_CreatedAt = createdAt,
      ak_LastUsedAt = None, ak_RevokedAt = None, ak_Disabled = False\<rparr>"

section \<open>In memory\<close>

record memory_users =
  mu_adminPasswordHash :: string
  mu_nextAPIKeyID :: int
  mu_apiKeys :: "int \<rightharpoonup> stored_key"

definition NewMemoryUserStore :: memory_users where
  "NewMemoryUserStore = \<lparr>mu_adminPasswordHash = [], mu_nextAPIKeyID = 1, mu_apiKeys = Map.empty\<rparr>"

definition memory_IsSetup :: "(memory_users, bool) step" where
  "memory_IsSetup s = (Inr (mu_adminPasswordHash s \<noteq> []), s)"

definition memory_CreateAdmin :: "instant \<Rightarrow> string \<Rightarrow> (memory_users, unit) step" where
  "memory_CreateAdmin now passwordHash s =
     (if mu_adminPasswordHash s \<noteq> [] then (Inl ErrAlreadySetup, s) else (Inr (), s\<lparr>mu_adminPasswordHash := passwordHash\<rparr>))"

definition memory_AdminPasswordHash :: "(memory_users, string) step" where
  "memory_AdminPasswordHash s =
     (if mu_adminPasswordHash s = [] then (Inl ErrNotSetup, s) else (Inr (mu_adminPasswordHash s), s))"

text \<open>The loops over the map visit its identifiers in an order that Go does not fix.\<close>

definition keys_visits :: "memory_users \<Rightarrow> int list \<Rightarrow> bool" where
  "keys_visits s order \<longleftrightarrow> distinct order \<and> set order = dom (mu_apiKeys s)"

definition keys_in :: "int list \<Rightarrow> memory_users \<Rightarrow> stored_key list" where
  "keys_in order s = List.map_filter (mu_apiKeys s) order"

definition memory_ListAPIKeys :: "int list \<Rightarrow> (memory_users, api_key list) step" where
  "memory_ListAPIKeys order s =
     (Inr (sort_key (\<lambda>k. (- ak_CreatedAt k, - ak_ID k)) (map sk_APIKey (keys_in order s))), s)"

definition memory_CreateAPIKey ::
  "int list \<Rightarrow> string \<Rightarrow> string \<Rightarrow> string \<Rightarrow> string \<Rightarrow> instant \<Rightarrow> (memory_users, api_key) step" where
  "memory_CreateAPIKey order name keyHash kprefix last4 createdAt s =
     (if \<exists>k \<in> set (keys_in order s). sk_KeyHash k = keyHash then (Inl (ErrorString ''create api key: duplicate key hash''), s)
      else
        let key = new_key (mu_nextAPIKeyID s) name kprefix last4 createdAt in
        (Inr key, s\<lparr>mu_nextAPIKeyID := mu_nextAPIKeyID s + 1,
           mu_apiKeys := (mu_apiKeys s)(ak_ID key \<mapsto> \<lparr>sk_APIKey = key, sk_KeyHash = keyHash\<rparr>)\<rparr>))"

definition memory_FindValidAPIKeyByHash :: "int list \<Rightarrow> string \<Rightarrow> (memory_users, api_key) step" where
  "memory_FindValidAPIKeyByHash order keyHash s =
     (case find (\<lambda>k. sk_KeyHash k = keyHash \<and> \<not> ak_Disabled (sk_APIKey k) \<and> ak_RevokedAt (sk_APIKey k) = None) (keys_in order s) of
        None \<Rightarrow> (Inl ErrAPIKeyNotFound, s)
      | Some k \<Rightarrow> (Inr (sk_APIKey k), s))"

definition memory_MarkAPIKeyUsed :: "int \<Rightarrow> instant \<Rightarrow> (memory_users, unit) step" where
  "memory_MarkAPIKeyUsed i usedAt s =
     (case mu_apiKeys s i of
        None \<Rightarrow> (Inl ErrAPIKeyNotFound, s)
      | Some key \<Rightarrow> (Inr (), s\<lparr>mu_apiKeys := (mu_apiKeys s)(i \<mapsto> key\<lparr>sk_APIKey := (sk_APIKey key)\<lparr>ak_LastUsedAt := Some usedAt\<rparr>\<rparr>)\<rparr>))"

definition memory_RevokeAPIKey :: "int \<Rightarrow> instant \<Rightarrow> (memory_users, unit) step" where
  "memory_RevokeAPIKey i revokedAt s =
     (case mu_apiKeys s i of
        None \<Rightarrow> (Inl ErrAPIKeyNotFound, s)
      | Some key \<Rightarrow>
          (Inr (), s\<lparr>mu_apiKeys := (mu_apiKeys s)(i \<mapsto> key\<lparr>sk_APIKey := (sk_APIKey key)\<lparr>ak_Disabled := True, ak_RevokedAt := Some revokedAt\<rparr>\<rparr>)\<rparr>))"

section \<open>In SQLite\<close>

record admin_row =
  ar_password_hash :: string
  ar_created_at :: string

record key_row =
  kr_id :: int
  kr_name :: string
  kr_key_hash :: string
  kr_prefix :: string
  kr_last4 :: string
  kr_created_at :: string
  kr_last_used_at :: string
  kr_revoked_at :: string
  kr_disabled :: int

text \<open>The table of the administrator has at most the row with the identifier 1.\<close>

record users_tables =
  ut_admin :: "admin_row option"
  ut_keys :: "key_row sql_table"

definition set_kr_id :: "int \<Rightarrow> key_row \<Rightarrow> key_row" where
  "set_kr_id i r = r\<lparr>kr_id := i\<rparr>"

interpretation keys: id_table kr_id set_kr_id
  by unfold_locales (simp_all add: set_kr_id_def)

type_synonym 'a users_step = "(users_tables db, 'a) step"

definition sqlite_IsSetup :: "bool users_step" where
  "sqlite_IsSetup =
     then_do (wrap_err (Wrapf ''check admin setup'') (sql_query_row (\<lambda>tb. if ut_admin tb = None then 0 else 1 :: int))) (\<lambda>count.
     ret (0 < count))"

text \<open>\<open>INSERT OR IGNORE\<close>: the number of rows inserted.\<close>

definition insert_admin :: "admin_row \<Rightarrow> users_tables \<Rightarrow> (int \<times> users_tables) result" where
  "insert_admin row tb = Inr (if ut_admin tb \<noteq> None then (0, tb) else (1, tb\<lparr>ut_admin := Some row\<rparr>))"

definition sqlite_CreateAdmin :: "instant \<Rightarrow> string \<Rightarrow> unit users_step" where
  "sqlite_CreateAdmin now passwordHash =
     then_do (wrap_err (Wrapf ''create admin user'')
        (sql_run (insert_admin \<lparr>ar_password_hash = passwordHash, ar_created_at = format_RFC3339Nano now\<rparr>))) (\<lambda>rows.
     then_do (wrap_err (Wrapf ''check admin user creation'') (sql_poll db_error)) (\<lambda>_.
     if rows = 0 then fail ErrAlreadySetup else ret ()))"

definition sqlite_AdminPasswordHash :: "string users_step" where
  "sqlite_AdminPasswordHash =
     then_do (wrap_err (Wrapf ''load admin password hash'') (sql_query_row (\<lambda>tb. map_option ar_password_hash (ut_admin tb)))) (\<lambda>row.
     case row of None \<Rightarrow> fail ErrNotSetup | Some passwordHash \<Rightarrow> ret passwordHash)"

definition formatAPIKeyTime :: "instant \<Rightarrow> string" where
  "formatAPIKeyTime t = format_RFC3339Nano t"

definition parse_error :: go_error where
  "parse_error = ErrorString ''parsing time''"

definition parseAPIKeyTime :: "string \<Rightarrow> instant result" where
  "parseAPIKeyTime value = (case parseRFC3339 value of None \<Rightarrow> Inl parse_error | Some t \<Rightarrow> Inr t)"

definition parseOptionalAPIKeyTime :: "string \<Rightarrow> instant option result" where
  "parseOptionalAPIKeyTime value = (if value = [] then Inr None else map_sum id Some (parseAPIKeyTime value))"

definition scanAPIKey :: "key_row \<Rightarrow> api_key result" where
  "scanAPIKey r =
     (case parseAPIKeyTime (kr_created_at r) of
        Inl err \<Rightarrow> Inl (Wrapf ''parse api key created_at'' err)
      | Inr created \<Rightarrow>
          (case parseOptionalAPIKeyTime (kr_last_used_at r) of
             Inl err \<Rightarrow> Inl (Wrapf ''parse api key last_used_at'' err)
           | Inr used \<Rightarrow>
               (case parseOptionalAPIKeyTime (kr_revoked_at r) of
                  Inl err \<Rightarrow> Inl (Wrapf ''parse api key revoked_at'' err)
                | Inr revoked \<Rightarrow>
                    Inr \<lparr>ak_ID = kr_id r, ak_Name = kr_name r, ak_Prefix = kr_prefix r, ak_Last4 = kr_last4 r, ak_CreatedAt = created,
                      ak_LastUsedAt = used, ak_RevokedAt = revoked, ak_Disabled = (kr_disabled r \<noteq> 0)\<rparr>)))"

text \<open>The order \<open>created_at DESC, id DESC\<close> compares texts.\<close>

definition keys_listed :: "key_row sql_table \<Rightarrow> key_row list" where
  "keys_listed t = rev (sort_key (\<lambda>r. (kr_created_at r, kr_id r)) (t_rows t))"

definition sqlite_ListAPIKeys :: "unit \<Rightarrow> api_key list users_step" where
  "sqlite_ListAPIKeys order =
     then_do (wrap_err (Wrapf ''list api keys'') (sql_poll db_error)) (\<lambda>_.
     then_do (get_state (\<lambda>d. keys_listed (ut_keys (db_tables d)))) (\<lambda>rows.
     then_do (for_each (\<lambda>r. lift_result (scanAPIKey r)) rows) (\<lambda>keys.
     then_do (wrap_err (Wrapf ''list api keys rows'') (sql_poll db_error)) (\<lambda>_.
     ret keys))))"

definition insert_key :: "key_row \<Rightarrow> users_tables \<Rightarrow> (int \<times> users_tables) result" where
  "insert_key row tb =
     (if kr_key_hash row \<in> kr_key_hash ` set (t_rows (ut_keys tb)) then Inl (constraint_error ''UNIQUE api_keys.key_hash'')
      else (case tbl_insert set_kr_id row (ut_keys tb) of (i, t) \<Rightarrow> Inr (i, tb\<lparr>ut_keys := t\<rparr>)))"

definition sqlite_CreateAPIKey :: "unit \<Rightarrow> string \<Rightarrow> string \<Rightarrow> string \<Rightarrow> string \<Rightarrow> instant \<Rightarrow> api_key users_step" where
  "sqlite_CreateAPIKey order name keyHash kprefix last4 createdAt =
     then_do (wrap_err (Wrapf ''create api key'')
        (sql_run (insert_key
           \<lparr>kr_id = 0, kr_name = name, kr_key_hash = keyHash, kr_prefix = kprefix, kr_last4 = last4,
            kr_created_at = formatAPIKeyTime createdAt, kr_last_used_at = [], kr_revoked_at = [], kr_disabled = 0\<rparr>))) (\<lambda>i.
     then_do (wrap_err (Wrapf ''load created api key id'') (sql_poll db_error)) (\<lambda>_.
     ret (new_key i name kprefix last4 createdAt)))"

definition key_active :: "key_row \<Rightarrow> bool" where
  "key_active r \<longleftrightarrow> kr_disabled r = 0 \<and> kr_revoked_at r = []"

definition sqlite_FindValidAPIKeyByHash :: "unit \<Rightarrow> string \<Rightarrow> api_key users_step" where
  "sqlite_FindValidAPIKeyByHash order keyHash =
     then_do (sql_query_row (\<lambda>tb. tbl_find (\<lambda>r. kr_key_hash r = keyHash \<and> key_active r) (ut_keys tb))) (\<lambda>row.
     case row of
       None \<Rightarrow> fail ErrAPIKeyNotFound
     | Some r \<Rightarrow> lift_result (scanAPIKey r))"

definition update_keys :: "(key_row \<Rightarrow> bool) \<Rightarrow> (key_row \<Rightarrow> key_row) \<Rightarrow> users_tables \<Rightarrow> (nat \<times> users_tables) result" where
  "update_keys p f tb = (case tbl_update p f (ut_keys tb) of (n, t) \<Rightarrow> Inr (n, tb\<lparr>ut_keys := t\<rparr>))"

definition sqlite_MarkAPIKeyUsed :: "int \<Rightarrow> instant \<Rightarrow> unit users_step" where
  "sqlite_MarkAPIKeyUsed i usedAt =
     then_do (wrap_err (Wrapf ''mark api key used'')
        (sql_run (update_keys (\<lambda>r. kr_id r = i) (\<lambda>r. r\<lparr>kr_last_used_at := formatAPIKeyTime usedAt\<rparr>)))) (\<lambda>_.
     ret ())"

definition sqlite_RevokeAPIKey :: "int \<Rightarrow> instant \<Rightarrow> unit users_step" where
  "sqlite_RevokeAPIKey i revokedAt =
     then_do (wrap_err (Wrapf ''revoke api key'')
        (sql_run (update_keys (\<lambda>r. kr_id r = i \<and> key_active r)
          (\<lambda>r. r\<lparr>kr_disabled := 1, kr_revoked_at := formatAPIKeyTime revokedAt\<rparr>)))) (\<lambda>rows.
     then_do (wrap_err (Wrapf ''check api key revoke'') (sql_poll db_error)) (\<lambda>_.
     if rows = 0 then fail ErrAPIKeyNotFound else ret ()))"

end
