(* ===== verification/Key_Contract.thy ===== *)
theory Key_Contract
  imports Admin_Users
begin

text \<open>
  The interface \<open>APIKeyStore\<close> of \<open>internal/admin/api_key_store.go\<close> as a locale: what it promises about the identifiers of the hashes and the
  identifiers that are active, with failures of the driver. Both stores interpret it. A store that keeps the locale
  \<open>reliable_keys\<close> also finds the keys that are active, when the driver does not fail.
\<close>

text \<open>The steps of a store, with the identifier that a step revokes.\<close>

inductive key_step ::
  "('o \<Rightarrow> string \<Rightarrow> string \<Rightarrow> string \<Rightarrow> string \<Rightarrow> instant \<Rightarrow> ('s, api_key) step) \<Rightarrow> ('o \<Rightarrow> string \<Rightarrow> ('s, api_key) step) \<Rightarrow>
   (int \<Rightarrow> instant \<Rightarrow> ('s, unit) step) \<Rightarrow> (int \<Rightarrow> instant \<Rightarrow> ('s, unit) step) \<Rightarrow> ('s \<Rightarrow> 'o \<Rightarrow> bool) \<Rightarrow> 's \<Rightarrow> int option \<Rightarrow> 's \<Rightarrow> bool"
  for create found mark revoke visits where
  created: "visits s order \<Longrightarrow> in_range now \<Longrightarrow> create order name hash kprefix last4 now s = (r, s') \<Longrightarrow>
    key_step create found mark revoke visits s None s'"
| looked_up: "visits s order \<Longrightarrow> found order hash s = (r, s') \<Longrightarrow> key_step create found mark revoke visits s None s'"
| marked: "in_range now \<Longrightarrow> mark i now s = (r, s') \<Longrightarrow> key_step create found mark revoke visits s None s'"
| revoked: "in_range now \<Longrightarrow> revoke i now s = (r, s') \<Longrightarrow> key_step create found mark revoke visits s (Some i) s'"

inductive key_steps ::
  "('o \<Rightarrow> string \<Rightarrow> string \<Rightarrow> string \<Rightarrow> string \<Rightarrow> instant \<Rightarrow> ('s, api_key) step) \<Rightarrow> ('o \<Rightarrow> string \<Rightarrow> ('s, api_key) step) \<Rightarrow>
   (int \<Rightarrow> instant \<Rightarrow> ('s, unit) step) \<Rightarrow> (int \<Rightarrow> instant \<Rightarrow> ('s, unit) step) \<Rightarrow> ('s \<Rightarrow> 'o \<Rightarrow> bool) \<Rightarrow> 's \<Rightarrow> int option list \<Rightarrow> 's \<Rightarrow> bool"
  for create found mark revoke visits s where
  no_step: "key_steps create found mark revoke visits s [] s"
| next_step: "key_steps create found mark revoke visits s ls s' \<Longrightarrow> key_step create found mark revoke visits s' l s'' \<Longrightarrow>
    key_steps create found mark revoke visits s (l # ls) s''"

locale key_contract =
  fixes create :: "'o \<Rightarrow> string \<Rightarrow> string \<Rightarrow> string \<Rightarrow> string \<Rightarrow> instant \<Rightarrow> ('s, api_key) step"
    and found :: "'o \<Rightarrow> string \<Rightarrow> ('s, api_key) step"
    and mark :: "int \<Rightarrow> instant \<Rightarrow> ('s, unit) step"
    and revoke :: "int \<Rightarrow> instant \<Rightarrow> ('s, unit) step"
    and visits :: "'s \<Rightarrow> 'o \<Rightarrow> bool"
    and ok :: "'s \<Rightarrow> bool"
    and ids :: "'s \<Rightarrow> string \<Rightarrow> int option"
    and active :: "'s \<Rightarrow> int \<Rightarrow> bool"
  assumes create_law: "\<lbrakk>ok s; visits s order; in_range now; create order name hash kprefix last4 now s = (r, s')\<rbrakk> \<Longrightarrow> ok s' \<and>
      (ids s' = ids s \<and> active s' = active s \<and> is_ok r = False \<or>
       (\<exists>i. ids s hash = None \<and> i \<notin> ran (ids s) \<and> ids s' = (ids s)(hash \<mapsto> i) \<and> active s' = (active s)(i := True) \<and>
          (\<forall>key. r = Inr key \<longrightarrow> ak_ID key = i)))"
    and found_law: "\<lbrakk>ok s; visits s order; found order hash s = (r, s')\<rbrakk> \<Longrightarrow> ok s' \<and> ids s' = ids s \<and> active s' = active s \<and>
      (\<forall>key. r = Inr key \<longrightarrow> ids s hash = Some (ak_ID key) \<and> active s (ak_ID key))"
    and mark_law: "\<lbrakk>ok s; in_range now; mark i now s = (u, s')\<rbrakk> \<Longrightarrow> ok s' \<and> ids s' = ids s \<and> active s' = active s"
    and revoke_law: "\<lbrakk>ok s; in_range now; revoke i now s = (u, s')\<rbrakk> \<Longrightarrow> ok s' \<and> ids s' = ids s \<and>
      (active s' = (active s)(i := False) \<or> active s' = active s \<and> is_ok u = False)"
begin

lemma step_law:
  assumes "key_step create found mark revoke visits s l s'" and "ok s" and "ids s hash = Some i"
  shows "ok s' \<and> ids s' hash = Some i \<and> (active s' i \<longrightarrow> active s i) \<and> (active s i \<and> l \<noteq> Some i \<longrightarrow> active s' i)"
proof -
  have i: "i \<in> ran (ids s)" using assms(3) by (rule ranI)
  show ?thesis
    using assms(1)
  proof cases
    case (created order now name hash' kprefix last4 r)
    from create_law [OF assms(2) created(2-4)] show ?thesis using i assms(3) by (auto split: if_splits)
  next
    case (looked_up order hash' r)
    from found_law [OF assms(2) looked_up(2,3)] show ?thesis using assms(3) by simp
  next
    case (marked now j r)
    from mark_law [OF assms(2) marked(2,3)] show ?thesis using assms(3) by simp
  next
    case (revoked now j r)
    from revoke_law [OF assms(2) revoked(2,3)] show ?thesis using assms(3) revoked(1) by (auto split: if_splits)
  qed
qed

lemma steps_law:
  assumes "key_steps create found mark revoke visits s ls s'" and "ok s" and "ids s hash = Some i"
  shows "ok s' \<and> ids s' hash = Some i \<and> (active s' i \<longrightarrow> active s i) \<and> (active s i \<and> Some i \<notin> set ls \<longrightarrow> active s' i)"
  using assms(1)
proof induction
  case no_step
  then show ?case using assms(2,3) by simp
next
  case (next_step ls s' l s'')
  have o: "ok s'" "ids s' hash = Some i" using next_step.IH by simp_all
  from step_law [OF next_step.hyps(2) o] next_step.IH show ?case by fastforce
qed

text \<open>A key that was revoked is refused for ever.\<close>

lemma revoked_refused:
  assumes "ok s" and "ids s hash = Some i" and "in_range now" and "revoke i now s = (Inr (), s1)"
    and "key_steps create found mark revoke visits s1 ls s2" and "visits s2 order"
  shows "\<not> is_ok (fst (found order hash s2))"
proof -
  have 1: "ok s1" "ids s1 hash = Some i" "\<not> active s1 i" using revoke_law [OF assms(1,3,4)] assms(2) by auto
  have 2: "ok s2" "ids s2 hash = Some i" "\<not> active s2 i" using steps_law [OF assms(5) 1(1,2)] 1(3) by auto
  obtain r s3 where f: "found order hash s2 = (r, s3)" by fastforce
  have "r \<noteq> Inr key" for key using found_law [OF 2(1) assms(6) f] 2(2,3) by auto
  then show ?thesis using f by (cases r) auto
qed

end

locale reliable_keys = key_contract create found mark revoke visits ok ids active
  for create :: "'o \<Rightarrow> string \<Rightarrow> string \<Rightarrow> string \<Rightarrow> string \<Rightarrow> instant \<Rightarrow> ('s, api_key) step" and found :: "'o \<Rightarrow> string \<Rightarrow> ('s, api_key) step"
    and mark :: "int \<Rightarrow> instant \<Rightarrow> ('s, unit) step" and revoke :: "int \<Rightarrow> instant \<Rightarrow> ('s, unit) step" and visits :: "'s \<Rightarrow> 'o \<Rightarrow> bool"
    and ok :: "'s \<Rightarrow> bool" and ids :: "'s \<Rightarrow> string \<Rightarrow> int option" and active :: "'s \<Rightarrow> int \<Rightarrow> bool" +
  fixes calm :: "'s \<Rightarrow> bool"
  assumes found_finds: "\<lbrakk>ok s; calm s; visits s order; ids s hash = Some i; active s i\<rbrakk> \<Longrightarrow>
    \<exists>key. found order hash s = (Inr key, s) \<and> ak_ID key = i"
begin

text \<open>A key that was made is found until it is revoked.\<close>

lemma created_found:
  assumes "ok s" and "visits s order" and "in_range now" and "create order name hash kprefix last4 now s = (Inr key, s1)"
    and "key_steps create found mark revoke visits s1 ls s2" and "Some (ak_ID key) \<notin> set ls" and "calm s2" and "visits s2 order2"
  shows "\<exists>key2. found order2 hash s2 = (Inr key2, s2) \<and> ak_ID key2 = ak_ID key"
proof -
  have 1: "ok s1" "ids s1 hash = Some (ak_ID key)" "active s1 (ak_ID key)" using create_law [OF assms(1-4)] by auto
  have "ok s2" "ids s2 hash = Some (ak_ID key)" "active s2 (ak_ID key)" using steps_law [OF assms(5) 1(1,2)] 1(3) assms(6) by auto
  then show ?thesis using found_finds [OF _ assms(7,8)] by blast
qed

end

end
