(* ===== verification/Key_Stores.thy ===== *)
theory Key_Stores
  imports Key_Contract
begin

text \<open>
  The two stores of \<open>internal/admin/api_key_store.go\<close> keep the contract of the interface: in memory, and in SQLite whatever fails.
\<close>

text \<open>A relation as a map, where it is one.\<close>

definition as_map :: "('a \<Rightarrow> 'b \<Rightarrow> bool) \<Rightarrow> 'a \<Rightarrow> 'b option" where
  "as_map P a = (if \<exists>b. P a b then Some (THE b. P a b) else None)"

lemma as_map_eqI: "(\<And>a b. P a b \<longleftrightarrow> f a = Some b) \<Longrightarrow> as_map P = f"
  by (rule ext) (auto simp: as_map_def not_Some_eq)

lemma as_map_Some: "(\<And>a b b'. P a b \<Longrightarrow> P a b' \<Longrightarrow> b = b') \<Longrightarrow> as_map P a = Some b \<longleftrightarrow> P a b"
  unfolding as_map_def by (auto intro: the_equality theI2)

lemma as_map_None: "as_map P a = None \<longleftrightarrow> (\<forall>b. \<not> P a b)"
  by (simp add: as_map_def)

section \<open>In memory\<close>

definition memory_holds :: "memory_users \<Rightarrow> string \<Rightarrow> int \<Rightarrow> bool" where
  "memory_holds s hash i \<longleftrightarrow> (\<exists>k. mu_apiKeys s i = Some k \<and> sk_KeyHash k = hash)"

definition memory_ids :: "memory_users \<Rightarrow> string \<Rightarrow> int option" where
  "memory_ids s = as_map (memory_holds s)"

definition memory_active :: "memory_users \<Rightarrow> int \<Rightarrow> bool" where
  "memory_active s i \<longleftrightarrow> (\<exists>k. mu_apiKeys s i = Some k \<and> \<not> ak_Disabled (sk_APIKey k) \<and> ak_RevokedAt (sk_APIKey k) = None)"

definition memory_keys_ok :: "memory_users \<Rightarrow> bool" where
  "memory_keys_ok s \<longleftrightarrow> (\<forall>i k. mu_apiKeys s i = Some k \<longrightarrow> ak_ID (sk_APIKey k) = i \<and> i < mu_nextAPIKeyID s) \<and>
     (\<forall>hash i j. memory_holds s hash i \<longrightarrow> memory_holds s hash j \<longrightarrow> i = j)"

lemma memory_ids_Some: "memory_keys_ok s \<Longrightarrow> memory_ids s hash = Some i \<longleftrightarrow> memory_holds s hash i"
  unfolding memory_ids_def by (rule as_map_Some) (auto simp: memory_keys_ok_def)

lemma set_keys_in: "keys_visits s order \<Longrightarrow> k \<in> set (keys_in order s) \<longleftrightarrow> (\<exists>i. mu_apiKeys s i = Some k)"
  by (force simp: keys_visits_def keys_in_def List.map_filter_def)

lemma memory_create_law:
  assumes "memory_keys_ok s" and "keys_visits s order" and "memory_CreateAPIKey order name hash kprefix last4 now s = (r, s')"
  shows "memory_keys_ok s' \<and>
      (memory_ids s' = memory_ids s \<and> memory_active s' = memory_active s \<and> is_ok r = False \<or>
       (\<exists>i. memory_ids s hash = None \<and> i \<notin> ran (memory_ids s) \<and> memory_ids s' = (memory_ids s)(hash \<mapsto> i) \<and>
          memory_active s' = (memory_active s)(i := True) \<and> (\<forall>key. r = Inr key \<longrightarrow> ak_ID key = i)))"
proof (cases "\<exists>k \<in> set (keys_in order s). sk_KeyHash k = hash")
  case True
  then show ?thesis using assms(1,3) by (auto simp: memory_CreateAPIKey_def)
next
  case False
  let ?i = "mu_nextAPIKeyID s"
  let ?key = "new_key ?i name kprefix last4 now"
  have s': "s' = s\<lparr>mu_nextAPIKeyID := ?i + 1, mu_apiKeys := (mu_apiKeys s)(?i \<mapsto> \<lparr>sk_APIKey = ?key, sk_KeyHash = hash\<rparr>)\<rparr>" and r: "r = Inr ?key"
    using assms(3) False by (auto simp: memory_CreateAPIKey_def Let_def new_key_def split: if_splits)
  have new: "\<not> memory_holds s hash j" for j using False set_keys_in [OF assms(2)] by (auto simp: memory_holds_def)
  have fresh: "mu_apiKeys s ?i = None" using assms(1) by (metis memory_keys_ok_def less_irrefl not_None_eq)
  have h: "memory_holds s' h j \<longleftrightarrow> (if j = ?i then h = hash else memory_holds s h j)" for h j
    by (auto simp: s' memory_holds_def)
  have no: "\<not> memory_holds s h ?i" for h using fresh by (simp add: memory_holds_def)
  have "memory_keys_ok s'"
    unfolding memory_keys_ok_def h using assms(1) new
    by (auto simp: s' new_key_def memory_keys_ok_def split: if_splits) (meson less_imp_le)
  moreover have "memory_ids s' = (memory_ids s)(hash \<mapsto> ?i)"
    unfolding memory_ids_def [of s'] by (rule as_map_eqI) (use h no new memory_ids_Some [OF assms(1)] in auto)
  moreover have "memory_active s' = (memory_active s)(?i := True)"
    by (rule ext) (auto simp: memory_active_def s' new_key_def)
  moreover have "memory_ids s hash = None" using new by (simp add: memory_ids_def as_map_None)
  moreover have "?i \<notin> ran (memory_ids s)" using no memory_ids_Some [OF assms(1)] by (auto simp: ran_def)
  ultimately show ?thesis using r by (auto simp: new_key_def)
qed

text \<open>An update of one key that keeps its identifier and its hash.\<close>

lemma memory_update:
  assumes "memory_keys_ok s" and "mu_apiKeys s i = Some k" and "ak_ID (sk_APIKey k') = i" and "sk_KeyHash k' = sk_KeyHash k"
    and "s' = s\<lparr>mu_apiKeys := (mu_apiKeys s)(i \<mapsto> k')\<rparr>"
  shows "memory_keys_ok s'" and "memory_ids s' = memory_ids s"
    and "memory_active s' = (memory_active s)(i := \<not> ak_Disabled (sk_APIKey k') \<and> ak_RevokedAt (sk_APIKey k') = None)"
proof -
  have h: "memory_holds s' = memory_holds s" using assms(2,4) by (intro ext) (auto simp: memory_holds_def assms(5))
  show "memory_keys_ok s'" using assms(1-3) unfolding memory_keys_ok_def h by (auto simp: assms(5))
  show "memory_ids s' = memory_ids s" by (simp add: memory_ids_def h)
  show "memory_active s' = (memory_active s)(i := \<not> ak_Disabled (sk_APIKey k') \<and> ak_RevokedAt (sk_APIKey k') = None)"
    by (rule ext) (auto simp: memory_active_def assms(5))
qed

lemma memory_found_iff:
  assumes "memory_keys_ok s" and "keys_visits s order"
  shows "(case memory_FindValidAPIKeyByHash order hash s of (r, s') \<Rightarrow> s' = s \<and>
    (\<forall>key. r = Inr key \<longrightarrow> memory_ids s hash = Some (ak_ID key) \<and> memory_active s (ak_ID key)) \<and>
    (\<forall>i. memory_ids s hash = Some i \<and> memory_active s i \<longrightarrow> (\<exists>key. r = Inr key \<and> ak_ID key = i)))"
proof (cases "find (\<lambda>k. sk_KeyHash k = hash \<and> \<not> ak_Disabled (sk_APIKey k) \<and> ak_RevokedAt (sk_APIKey k) = None) (keys_in order s)")
  case None
  then have no: "\<not> (\<exists>i k. mu_apiKeys s i = Some k \<and> sk_KeyHash k = hash \<and> \<not> ak_Disabled (sk_APIKey k) \<and> ak_RevokedAt (sk_APIKey k) = None)"
    using set_keys_in [OF assms(2)] unfolding find_None_iff by blast
  then have "\<not> (memory_ids s hash = Some i \<and> memory_active s i)" for i
    unfolding memory_ids_Some [OF assms(1)] memory_holds_def memory_active_def by force
  then show ?thesis using None by (simp add: memory_FindValidAPIKeyByHash_def)
next
  case (Some k)
  then have "k \<in> set (keys_in order s)" and k: "sk_KeyHash k = hash" "\<not> ak_Disabled (sk_APIKey k)" "ak_RevokedAt (sk_APIKey k) = None"
    unfolding find_Some_iff by auto
  then obtain i where i: "mu_apiKeys s i = Some k" using set_keys_in [OF assms(2)] by blast
  have id: "ak_ID (sk_APIKey k) = i" using i assms(1) by (simp add: memory_keys_ok_def)
  have "memory_ids s hash = Some i" "memory_active s i"
    unfolding memory_ids_Some [OF assms(1)] memory_holds_def memory_active_def using i k by auto
  then show ?thesis using Some id by (simp add: memory_FindValidAPIKeyByHash_def)
qed

interpretation memory_keys: reliable_keys memory_CreateAPIKey memory_FindValidAPIKeyByHash memory_MarkAPIKeyUsed memory_RevokeAPIKey
  keys_visits memory_keys_ok memory_ids memory_active "\<lambda>s. True"
proof unfold_locales
  fix s s' order now name hash kprefix last4 and r :: "api_key result"
  assume ok: "memory_keys_ok s"
  show "memory_keys_ok s' \<and>
      (memory_ids s' = memory_ids s \<and> memory_active s' = memory_active s \<and> is_ok r = False \<or>
       (\<exists>i. memory_ids s hash = None \<and> i \<notin> ran (memory_ids s) \<and> memory_ids s' = (memory_ids s)(hash \<mapsto> i) \<and>
          memory_active s' = (memory_active s)(i := True) \<and> (\<forall>key. r = Inr key \<longrightarrow> ak_ID key = i)))"
    if "keys_visits s order" "memory_CreateAPIKey order name hash kprefix last4 now s = (r, s')"
    by (rule memory_create_law [OF ok that])
  show "memory_keys_ok s' \<and> memory_ids s' = memory_ids s \<and> memory_active s' = memory_active s \<and>
      (\<forall>key. r = Inr key \<longrightarrow> memory_ids s hash = Some (ak_ID key) \<and> memory_active s (ak_ID key))"
    if "keys_visits s order" "memory_FindValidAPIKeyByHash order hash s = (r, s')"
    using memory_found_iff [OF ok that(1), of hash] that(2) ok by simp
  show "\<exists>key. memory_FindValidAPIKeyByHash order hash s = (Inr key, s) \<and> ak_ID key = i"
    if "True" "keys_visits s order" "memory_ids s hash = Some i" "memory_active s i" for i
    using memory_found_iff [OF ok that(2), of hash] that(3,4) by (auto split: prod.splits)
next
  fix s s' i now and u :: "unit result"
  assume ok: "memory_keys_ok s"
  show "memory_keys_ok s' \<and> memory_ids s' = memory_ids s \<and> memory_active s' = memory_active s"
    if m: "memory_MarkAPIKeyUsed i now s = (u, s')"
  proof (cases "mu_apiKeys s i")
    case None
    then show ?thesis using m ok by (simp add: memory_MarkAPIKeyUsed_def)
  next
    case (Some k)
    let ?k = "k\<lparr>sk_APIKey := (sk_APIKey k)\<lparr>ak_LastUsedAt := Some now\<rparr>\<rparr>"
    have s': "s' = s\<lparr>mu_apiKeys := (mu_apiKeys s)(i \<mapsto> ?k)\<rparr>" using m Some by (simp add: memory_MarkAPIKeyUsed_def)
    have "ak_ID (sk_APIKey ?k) = i" using ok Some by (simp add: memory_keys_ok_def)
    note u = memory_update [OF ok Some this _ s']
    have "memory_active s i = (\<not> ak_Disabled (sk_APIKey k) \<and> ak_RevokedAt (sk_APIKey k) = None)" using Some by (simp add: memory_active_def)
    then show ?thesis using u by (simp add: fun_upd_idem_iff)
  qed
  show "memory_keys_ok s' \<and> memory_ids s' = memory_ids s \<and>
      (memory_active s' = (memory_active s)(i := False) \<or> memory_active s' = memory_active s \<and> is_ok u = False)"
    if m: "memory_RevokeAPIKey i now s = (u, s')"
  proof (cases "mu_apiKeys s i")
    case None
    then show ?thesis using m ok by (auto simp: memory_RevokeAPIKey_def)
  next
    case (Some k)
    let ?k = "k\<lparr>sk_APIKey := (sk_APIKey k)\<lparr>ak_Disabled := True, ak_RevokedAt := Some now\<rparr>\<rparr>"
    have s': "s' = s\<lparr>mu_apiKeys := (mu_apiKeys s)(i \<mapsto> ?k)\<rparr>" using m Some by (simp add: memory_RevokeAPIKey_def)
    have "ak_ID (sk_APIKey ?k) = i" using ok Some by (simp add: memory_keys_ok_def)
    from memory_update [OF ok Some this _ s'] show ?thesis by simp
  qed
qed

section \<open>In SQLite\<close>

definition table_holds :: "key_row sql_table \<Rightarrow> string \<Rightarrow> int \<Rightarrow> bool" where
  "table_holds t hash i \<longleftrightarrow> (\<exists>r \<in> set (t_rows t). kr_key_hash r = hash \<and> kr_id r = i)"

definition table_active :: "key_row sql_table \<Rightarrow> int \<Rightarrow> bool" where
  "table_active t i \<longleftrightarrow> (\<exists>r \<in> set (t_rows t). kr_id r = i \<and> key_active r)"

definition table_keys_ok :: "key_row sql_table \<Rightarrow> bool" where
  "table_keys_ok t \<longleftrightarrow> table_ok kr_id t \<and> distinct (map kr_key_hash (t_rows t)) \<and> (\<forall>r \<in> set (t_rows t). is_ok (scanAPIKey r))"

definition keys_of :: "users_tables db \<Rightarrow> key_row sql_table" where
  "keys_of d = ut_keys (db_tables d)"

lemma table_hash_unique: "table_keys_ok t \<Longrightarrow> r \<in> set (t_rows t) \<Longrightarrow> r' \<in> set (t_rows t) \<Longrightarrow> kr_key_hash r = kr_key_hash r' \<Longrightarrow> r = r'"
  by (auto simp: table_keys_ok_def distinct_map dest: inj_onD)

lemma table_id_unique: "table_keys_ok t \<Longrightarrow> r \<in> set (t_rows t) \<Longrightarrow> r' \<in> set (t_rows t) \<Longrightarrow> kr_id r = kr_id r' \<Longrightarrow> r = r'"
  by (auto simp: table_keys_ok_def table_ok_def strict_sorted_iff distinct_map dest: inj_onD)

lemma table_ids_Some: "table_keys_ok t \<Longrightarrow> as_map (table_holds t) hash = Some i \<longleftrightarrow> table_holds t hash i"
  by (rule as_map_Some) (auto simp: table_holds_def dest: table_hash_unique)

lemma scan_ok_created:
  "in_range now \<Longrightarrow> is_ok (scanAPIKey (set_kr_id i \<lparr>kr_id = 0, kr_name = n, kr_key_hash = h, kr_prefix = p, kr_last4 = l,
     kr_created_at = formatAPIKeyTime now, kr_last_used_at = [], kr_revoked_at = [], kr_disabled = 0\<rparr>))"
  using parse_format_RFC3339Nano [of now]
  by (simp add: scanAPIKey_def parseAPIKeyTime_def formatAPIKeyTime_def parseOptionalAPIKeyTime_def in_range_def set_kr_id_def)

lemma optional_time: "in_range now \<Longrightarrow> parseOptionalAPIKeyTime (formatAPIKeyTime now) = Inr (if formatAPIKeyTime now = [] then None else Some now)"
  using parse_format_RFC3339Nano [of now] by (simp add: parseOptionalAPIKeyTime_def parseAPIKeyTime_def formatAPIKeyTime_def in_range_def)

lemma scan_ok_used: "in_range now \<Longrightarrow> is_ok (scanAPIKey r) \<Longrightarrow> is_ok (scanAPIKey (r\<lparr>kr_last_used_at := formatAPIKeyTime now\<rparr>))"
  by (auto simp: scanAPIKey_def optional_time split: sum.splits)

lemma scan_ok_revoked:
  "in_range now \<Longrightarrow> is_ok (scanAPIKey r) \<Longrightarrow> is_ok (scanAPIKey (r\<lparr>kr_disabled := x, kr_revoked_at := formatAPIKeyTime now\<rparr>))"
  by (auto simp: scanAPIKey_def optional_time split: sum.splits)

lemma table_insert:
  assumes "table_keys_ok t" and "kr_key_hash row \<notin> kr_key_hash ` set (t_rows t)" and "tbl_insert set_kr_id row t = (i, t')"
    and "is_ok (scanAPIKey (set_kr_id i row))" and "key_active row"
  shows "table_keys_ok t'" and "as_map (table_holds t') = (as_map (table_holds t))(kr_key_hash row \<mapsto> i)"
    and "table_active t' = (table_active t)(i := True)"
    and "as_map (table_holds t) (kr_key_hash row) = None" and "i \<notin> ran (as_map (table_holds t))"
proof -
  have i: "i = t_seq t + 1" and rows: "t_rows t' = t_rows t @ [set_kr_id i row]" using assms(3) by (auto simp: tbl_insert_def)
  have small: "kr_id r \<noteq> i" if "r \<in> set (t_rows t)" for r using that assms(1) i by (auto simp: table_keys_ok_def table_ok_def)
  have hash [simp]: "kr_key_hash (set_kr_id i row) = kr_key_hash row" "key_active (set_kr_id i row) = key_active row"
    by (simp_all add: set_kr_id_def key_active_def)
  have "table_ok kr_id t'" using keys.insert_ok [of t row] assms(1,3) by (simp add: table_keys_ok_def)
  then show "table_keys_ok t'" using assms(1,2,4) by (auto simp: table_keys_ok_def rows)
  have other: "\<forall>r \<in> set (t_rows t). kr_key_hash r \<noteq> kr_key_hash row" using assms(2) by (metis imageI)
  then show none: "as_map (table_holds t) (kr_key_hash row) = None" by (auto simp: as_map_None table_holds_def)
  show "as_map (table_holds t') = (as_map (table_holds t))(kr_key_hash row \<mapsto> i)"
  proof (rule as_map_eqI)
    show "table_holds t' h j \<longleftrightarrow> ((as_map (table_holds t))(kr_key_hash row \<mapsto> i)) h = Some j" for h j
      using table_ids_Some [OF assms(1), of h j] other by (auto simp: table_holds_def rows)
  qed
  show "table_active t' = (table_active t)(i := True)"
    using small assms(5) by (intro ext) (auto simp: table_active_def rows)
  show "i \<notin> ran (as_map (table_holds t))" using small table_ids_Some [OF assms(1)] by (auto simp: ran_def table_holds_def)
qed

lemma table_update:
  assumes "table_keys_ok t" and "\<And>r. kr_id (f r) = kr_id r \<and> kr_key_hash (f r) = kr_key_hash r"
    and "\<And>r. is_ok (scanAPIKey r) \<Longrightarrow> is_ok (scanAPIKey (f r))" and "tbl_update p f t = (n, t')"
  shows "table_keys_ok t'" and "as_map (table_holds t') = as_map (table_holds t)"
proof -
  have rows: "t_rows t' = map (\<lambda>r. if p r then f r else r) (t_rows t)" using assms(4) by (auto simp: tbl_update_def)
  have "table_ok kr_id t'" using keys.update_ok [of t p f] assms(1,2,4) by (simp add: table_keys_ok_def)
  moreover have "map kr_key_hash (t_rows t') = map kr_key_hash (t_rows t)" using assms(2) by (simp add: rows)
  moreover have "\<forall>r \<in> set (t_rows t'). is_ok (scanAPIKey r)" using assms(1,3) by (auto simp: rows table_keys_ok_def)
  ultimately show "table_keys_ok t'" using assms(1) unfolding table_keys_ok_def by (simp only:)
  have "table_holds t' = table_holds t" using assms(2) by (intro ext) (auto simp: table_holds_def rows)
  then show "as_map (table_holds t') = as_map (table_holds t)" by simp
qed

lemma key_run_tables:
  "sql_run stmt d = (r, d') \<Longrightarrow> (\<exists>a. r = Inr a \<and> stmt (db_tables d) = Inr (a, db_tables d')) \<or> is_ok r = False \<and> db_tables d' = db_tables d"
  by (auto simp: sql_run_def then_do_def sql_poll_def split: prod.splits sum.splits if_splits)

lemma wrap_poll_tables: "wrap_err w (sql_poll err) d = (r, d') \<Longrightarrow> db_tables d' = db_tables d"
  by (auto simp: wrap_err_def sql_poll_def split: prod.splits if_splits)

text \<open>A wrapped statement and what follows it: the tables are those of the statement, or it failed and they are as before.\<close>

lemma run_then:
  assumes "then_do (wrap_err w (sql_run stmt)) f d = (r, d')" and "\<forall>a d r d'. f a d = (r, d') \<longrightarrow> db_tables d' = db_tables d"
  shows "is_ok r = False \<and> db_tables d' = db_tables d \<or>
    (\<exists>a d1. stmt (db_tables d) = Inr (a, db_tables d') \<and> f a d1 = (r, d'))"
proof -
  obtain q d1 where q: "sql_run stmt d = (q, d1)" by fastforce
  show ?thesis
  proof (cases q)
    case (Inl e)
    then show ?thesis using assms(1) q key_run_tables [OF q] by (auto simp: then_do_def wrap_err_def)
  next
    case (Inr a)
    then have "f a d1 = (r, d')" using assms(1) q by (simp add: then_do_def wrap_err_def)
    then show ?thesis using Inr key_run_tables [OF q] assms(2) by fastforce
  qed
qed

lemma poll_then:
  assumes "then_do (wrap_err w (sql_poll err)) (\<lambda>_. ret x) d = (r, d')"
  shows "db_tables d' = db_tables d \<and> (\<forall>y. r = Inr y \<longrightarrow> y = x)"
proof -
  obtain q d1 where q: "wrap_err w (sql_poll err) d = (q, d1)" by fastforce
  show ?thesis using assms wrap_poll_tables [OF q] q by (cases q) (auto simp: then_do_def)
qed

lemma insert_key_table:
  "insert_key row tb = Inr (i, tb') \<Longrightarrow>
    kr_key_hash row \<notin> kr_key_hash ` set (t_rows (ut_keys tb)) \<and> tbl_insert set_kr_id row (ut_keys tb) = (i, ut_keys tb')"
  by (auto simp: insert_key_def split: if_splits prod.splits)

lemma tbl_update_rows: "tbl_update p f t = (n, t') \<Longrightarrow> t_rows t' = map (\<lambda>r. if p r then f r else r) (t_rows t)"
  by (auto simp: tbl_update_def)

lemma active_update:
  assumes "tbl_update p f t = (n, t')" and "\<And>r. kr_id (f r) = kr_id r"
  shows "table_active t' i \<longleftrightarrow> (\<exists>r \<in> set (t_rows t). kr_id r = i \<and> (if p r then key_active (f r) else key_active r))"
proof -
  have "table_active t' i \<longleftrightarrow> (\<exists>r \<in> set (t_rows t). kr_id (if p r then f r else r) = i \<and> key_active (if p r then f r else r))"
    by (simp only: table_active_def tbl_update_rows [OF assms(1)] set_map bex_simps)
  then show ?thesis using assms(2) by (simp add: if_distrib cong: if_cong)
qed

lemma update_keys_table: "update_keys p f tb = Inr (n, tb') \<Longrightarrow> tbl_update p f (ut_keys tb) = (n, ut_keys tb')"
  by (auto simp: update_keys_def split: prod.splits)

lemma sqlite_create_key_law:
  assumes "table_keys_ok (keys_of d)" and "in_range now" and "sqlite_CreateAPIKey order name hash kprefix last4 now d = (r, d')"
  shows "table_keys_ok (keys_of d') \<and>
    (as_map (table_holds (keys_of d')) = as_map (table_holds (keys_of d)) \<and> table_active (keys_of d') = table_active (keys_of d) \<and> is_ok r = False \<or>
     (\<exists>i. as_map (table_holds (keys_of d)) hash = None \<and> i \<notin> ran (as_map (table_holds (keys_of d))) \<and>
        as_map (table_holds (keys_of d')) = (as_map (table_holds (keys_of d)))(hash \<mapsto> i) \<and>
        table_active (keys_of d') = (table_active (keys_of d))(i := True) \<and> (\<forall>key. r = Inr key \<longrightarrow> ak_ID key = i)))"
proof -
  let ?row = "\<lparr>kr_id = 0, kr_name = name, kr_key_hash = hash, kr_prefix = kprefix, kr_last4 = last4,
    kr_created_at = formatAPIKeyTime now, kr_last_used_at = [], kr_revoked_at = [], kr_disabled = 0\<rparr>"
  let ?f = "\<lambda>i. then_do (wrap_err (Wrapf ''load created api key id'') (sql_poll db_error)) (\<lambda>_. ret (new_key i name kprefix last4 now))"
  have f: "\<forall>a d r d'. ?f a d = (r, d') \<longrightarrow> db_tables d' = db_tables d"
    by (intro allI impI) (rule poll_then [THEN conjunct1])
  from run_then [OF assms(3) [unfolded sqlite_CreateAPIKey_def] f]
  consider "is_ok r = False" "db_tables d' = db_tables d"
    | i d1 where "insert_key ?row (db_tables d) = Inr (i, db_tables d')" "?f i d1 = (r, d')" by blast
  then show ?thesis
  proof cases
    case 1
    then show ?thesis using assms(1) by (simp add: keys_of_def)
  next
    case 2
    have key: "\<forall>key. r = Inr key \<longrightarrow> ak_ID key = i"
      using poll_then [OF 2(2)] by (auto simp: new_key_def)
    have new: "hash \<notin> kr_key_hash ` set (t_rows (keys_of d))" and t': "tbl_insert set_kr_id ?row (keys_of d) = (i, keys_of d')"
      using insert_key_table [OF 2(1)] by (simp_all add: keys_of_def)
    have act: "key_active ?row" by (simp add: key_active_def)
    from table_insert [OF assms(1) _ t' scan_ok_created [OF assms(2)] act] new key
    show ?thesis by (intro conjI disjI2 exI [of _ i]) simp_all
  qed
qed

lemma sqlite_found_law:
  assumes ok: "table_keys_ok (keys_of d)" and f: "sqlite_FindValidAPIKeyByHash order hash d = (r, d')"
  shows "db_tables d' = db_tables d \<and>
    (\<forall>key. r = Inr key \<longrightarrow> as_map (table_holds (keys_of d)) hash = Some (ak_ID key) \<and> table_active (keys_of d) (ak_ID key))"
    and "db_faults d = [] \<Longrightarrow> as_map (table_holds (keys_of d)) hash = Some i \<Longrightarrow> table_active (keys_of d) i \<Longrightarrow>
      d' = d \<and> (\<exists>key. r = Inr key \<and> ak_ID key = i)"
proof -
  let ?q = "\<lambda>tb. tbl_find (\<lambda>r. kr_key_hash r = hash \<and> key_active r) (ut_keys tb)"
  let ?next = "\<lambda>row. case row of None \<Rightarrow> fail ErrAPIKeyNotFound | Some r \<Rightarrow> lift_result (scanAPIKey r)"
  have scan_id: "ak_ID key = kr_id row" if "scanAPIKey row = Inr key" for row key
    using that by (auto simp: scanAPIKey_def split: sum.splits)
  have hit: "row \<in> set (t_rows (keys_of d)) \<and> kr_key_hash row = hash \<and> key_active row" if "?q (db_tables d) = Some row" for row
    using that by (auto simp: tbl_find_def keys_of_def find_Some_iff)
  obtain q d1 where q: "sql_query_row ?q d = (q, d1)" by fastforce
  show "db_tables d' = db_tables d \<and>
    (\<forall>key. r = Inr key \<longrightarrow> as_map (table_holds (keys_of d)) hash = Some (ak_ID key) \<and> table_active (keys_of d) (ak_ID key))"
  proof (cases q)
    case (Inl e)
    then have "r = Inl e" "d' = d1" using f q by (simp_all add: sqlite_FindValidAPIKeyByHash_def then_do_def)
    moreover have "db_tables d1 = db_tables d" using q Inl
      by (auto simp: sql_query_row_def then_do_def sql_poll_def split: prod.splits sum.splits if_splits)
    ultimately show ?thesis by simp
  next
    case (Inr row)
    then have row: "row = ?q (db_tables d)" and d1: "db_tables d1 = db_tables d" using sql_query_row_ok [of ?q d row d1] q by simp_all
    have n: "?next row d1 = (r, d')" using f q Inr by (simp add: sqlite_FindValidAPIKeyByHash_def then_do_def)
    show ?thesis
    proof (cases row)
      case None
      then show ?thesis using n d1 by auto
    next
      case (Some kr)
      then have "?q (db_tables d) = Some kr" using row by simp
      then have kr: "kr \<in> set (t_rows (keys_of d))" "kr_key_hash kr = hash" "key_active kr" using hit [of kr] by blast+
      then have a: "table_holds (keys_of d) hash (kr_id kr)" "table_active (keys_of d) (kr_id kr)"
        by (auto simp: table_holds_def table_active_def)
      have r: "scanAPIKey kr = r" "d' = d1" using n Some by simp_all
      have "as_map (table_holds (keys_of d)) hash = Some (ak_ID key) \<and> table_active (keys_of d) (ak_ID key)" if "r = Inr key" for key
        using scan_id [of kr key] a r(1) that table_ids_Some [OF ok, of hash "kr_id kr"] by simp
      then show ?thesis using r(2) d1 by simp
    qed
  qed
  assume calm: "db_faults d = []" and i: "as_map (table_holds (keys_of d)) hash = Some i" and a: "table_active (keys_of d) i"
  obtain kr where kr: "kr \<in> set (t_rows (keys_of d))" "kr_key_hash kr = hash" "kr_id kr = i"
    using i table_ids_Some [OF ok] by (auto simp: table_holds_def)
  obtain kr2 where kr2: "kr2 \<in> set (t_rows (keys_of d))" "kr_id kr2 = i" "key_active kr2" using a by (auto simp: table_active_def)
  have "kr2 = kr" using table_id_unique [OF ok kr2(1) kr(1)] kr2(2) kr(3) by simp
  then have act: "key_active kr" using kr2(3) by simp
  then have "?q (db_tables d) \<noteq> None" using kr by (auto simp: tbl_find_def keys_of_def find_None_iff)
  then obtain kr' where q': "?q (db_tables d) = Some kr'" by blast
  then have "kr' \<in> set (t_rows (keys_of d))" "kr_key_hash kr' = kr_key_hash kr" using hit [OF q'] kr(2) by simp_all
  from table_hash_unique [OF ok this(1) kr(1) this(2)] have "kr' = kr" .
  moreover obtain key where key: "scanAPIKey kr = Inr key" using ok kr(1) unfolding table_keys_ok_def by (cases "scanAPIKey kr") auto
  ultimately have "sqlite_FindValidAPIKeyByHash order hash d = (Inr key, d)"
    using q' calm by (simp add: sqlite_FindValidAPIKeyByHash_def then_do_def)
  then show "d' = d \<and> (\<exists>key. r = Inr key \<and> ak_ID key = i)" using f scan_id [OF key] kr(3) by auto
qed

lemma sqlite_mark_law:
  assumes ok: "table_keys_ok (keys_of d)" and "in_range now" and m: "sqlite_MarkAPIKeyUsed i now d = (u, d')"
  shows "table_keys_ok (keys_of d') \<and> as_map (table_holds (keys_of d')) = as_map (table_holds (keys_of d)) \<and>
    table_active (keys_of d') = table_active (keys_of d)"
proof -
  let ?f = "\<lambda>r. r\<lparr>kr_last_used_at := formatAPIKeyTime now\<rparr>"
  from run_then [OF m [unfolded sqlite_MarkAPIKeyUsed_def]]
  consider "db_tables d' = db_tables d" | n where "update_keys (\<lambda>r. kr_id r = i) ?f (db_tables d) = Inr (n, db_tables d')" by fastforce
  then show ?thesis
  proof cases
    case 1
    then show ?thesis using ok by (simp add: keys_of_def)
  next
    case 2
    have t: "tbl_update (\<lambda>r. kr_id r = i) ?f (keys_of d) = (n, keys_of d')" using update_keys_table [OF 2] by (simp add: keys_of_def)
    have "table_active (keys_of d') = table_active (keys_of d)"
    proof
      have "key_active (?f r) = key_active r" for r by (simp add: key_active_def)
      then show "table_active (keys_of d') j = table_active (keys_of d) j" for j
        using active_update [OF t, of j] by (simp only: table_active_def if_cancel) simp
    qed
    then show ?thesis using table_update [OF ok _ _ t] scan_ok_used [OF assms(2)] by simp
  qed
qed

lemma sqlite_revoke_law:
  assumes ok: "table_keys_ok (keys_of d)" and "in_range now" and m: "sqlite_RevokeAPIKey i now d = (u, d')"
  shows "table_keys_ok (keys_of d') \<and> as_map (table_holds (keys_of d')) = as_map (table_holds (keys_of d)) \<and>
    (table_active (keys_of d') = (table_active (keys_of d))(i := False) \<or> table_active (keys_of d') = table_active (keys_of d) \<and> is_ok u = False)"
proof -
  let ?f = "\<lambda>r. r\<lparr>kr_disabled := 1, kr_revoked_at := formatAPIKeyTime now\<rparr>"
  let ?p = "\<lambda>r. kr_id r = i \<and> key_active r"
  let ?next = "\<lambda>rows. then_do (wrap_err (Wrapf ''check api key revoke'') (sql_poll db_error)) (\<lambda>_. if rows = 0 then fail ErrAPIKeyNotFound else ret ())"
  have "db_tables d' = db_tables d" if "?next a d = (r, d')" for a :: nat and d d' :: "users_tables db" and r
  proof -
    obtain q d1 where q: "wrap_err (Wrapf ''check api key revoke'') (sql_poll db_error) d = (q, d1)" by fastforce
    show ?thesis using that wrap_poll_tables [OF q] q by (cases q) (auto simp: then_do_def split: if_splits)
  qed
  then have f: "\<forall>(a :: nat) (d :: users_tables db) r d'. ?next a d = (r, d') \<longrightarrow> db_tables d' = db_tables d" by blast
  from run_then [OF m [unfolded sqlite_RevokeAPIKey_def] f]
  consider "is_ok u = False" "db_tables d' = db_tables d" | n where "update_keys ?p ?f (db_tables d) = Inr (n, db_tables d')" by blast
  then show ?thesis
  proof cases
    case 1
    then show ?thesis using ok by (simp add: keys_of_def)
  next
    case 2
    have t: "tbl_update ?p ?f (keys_of d) = (n, keys_of d')" using update_keys_table [OF 2] by (simp add: keys_of_def)
    have "table_active (keys_of d') = (table_active (keys_of d))(i := False)"
      using active_update [OF t] by (intro ext) (auto simp: table_active_def key_active_def)
    then show ?thesis using table_update [OF ok _ _ t] scan_ok_revoked [OF assms(2)] by simp
  qed
qed

interpretation sqlite_keys: reliable_keys sqlite_CreateAPIKey sqlite_FindValidAPIKeyByHash sqlite_MarkAPIKeyUsed sqlite_RevokeAPIKey
  "\<lambda>d order. True" "\<lambda>d. table_keys_ok (keys_of d)" "\<lambda>d. as_map (table_holds (keys_of d))" "\<lambda>d. table_active (keys_of d)" "\<lambda>d. db_faults d = []"
proof unfold_locales
  fix d d' order now name hash kprefix last4 and r :: "api_key result"
  assume ok: "table_keys_ok (keys_of d)"
  show "table_keys_ok (keys_of d') \<and> as_map (table_holds (keys_of d')) = as_map (table_holds (keys_of d)) \<and>
      table_active (keys_of d') = table_active (keys_of d) \<and>
      (\<forall>key. r = Inr key \<longrightarrow> as_map (table_holds (keys_of d)) hash = Some (ak_ID key) \<and> table_active (keys_of d) (ak_ID key))"
    if "sqlite_FindValidAPIKeyByHash order hash d = (r, d')"
    using sqlite_found_law(1) [OF ok that] ok by (simp add: keys_of_def)
  show "\<exists>key. sqlite_FindValidAPIKeyByHash order hash d = (Inr key, d) \<and> ak_ID key = i"
    if "db_faults d = []" "as_map (table_holds (keys_of d)) hash = Some i" "table_active (keys_of d) i" for i
  proof -
    obtain r d' where e: "sqlite_FindValidAPIKeyByHash order hash d = (r, d')" by fastforce
    from sqlite_found_law(2) [OF ok e that] show ?thesis using e by auto
  qed
qed (erule sqlite_create_key_law sqlite_mark_law sqlite_revoke_law; assumption)+

end
