(* ===== verification/Admin_Server.thy ===== *)
theory Admin_Server
  imports Admin_Password Key_Stores Session_Steps Refresh_Jobs
begin

text \<open>
  \<open>internal/admin/server.go\<close> and \<open>internal/admin/api_key.go\<close>: requests, the authentication before the handlers, setup, login, logout, and the
  handlers of the API keys, over the SQLite stores as \<open>internal/app/app.go\<close> wires them. A request has the values of the two headers and of the session cookie that the
  server reads. The clock is read once per request; the random bytes are arguments. Logging and the
  counting of bytes in \<open>ServeHTTP\<close> are left out, and so is what \<open>http.ServeMux\<close> does with paths that are not clean.
\<close>

section \<open>Requests and responses\<close>

record request =
  rq_Method :: string
  rq_Path :: string
  rq_Cookie :: "string option"
  rq_Authorization :: string
  rq_APIKey :: string
  rq_Body :: string

record cookie =
  ck_Name :: string
  ck_Value :: string
  ck_Path :: string
  ck_HttpOnly :: bool
  ck_Secure :: bool
  ck_SameSiteStrict :: bool
  ck_MaxAge :: int
  ck_Expires :: instant

datatype response_body =
    NoBody
  | ErrorCode string
  | Flags "(string \<times> bool) list"
  | KeyList "api_key list"
  | CreatedKey api_key string

record response =
  rs_Status :: nat
  rs_Cookies :: "cookie list"
  rs_Body :: response_body

definition writeJSON :: "nat \<Rightarrow> response_body \<Rightarrow> response" where
  "writeJSON status v = \<lparr>rs_Status = status, rs_Cookies = [], rs_Body = v\<rparr>"

definition writeError :: "nat \<Rightarrow> string \<Rightarrow> response" where
  "writeError status code = writeJSON status (ErrorCode code)"

definition methodNotAllowed :: response where
  "methodNotAllowed = writeError 405 ''method_not_allowed''"

text \<open>
  \<open>decodeJSON\<close>: the first value of the body, over the zero value; a name that no field has is an error, like a value of the wrong type.
\<close>

definition known_members :: "'a json_field list \<Rightarrow> json \<Rightarrow> bool" where
  "known_members fs v = (case v of JObj ms \<Rightarrow> list_all (\<lambda>m. field_named fs (fst m) \<noteq> None) ms | _ \<Rightarrow> True)"

definition decodeJSON :: "'a json_field list \<Rightarrow> 'a \<Rightarrow> string \<Rightarrow> 'a option" where
  "decodeJSON fs zero body =
     (case scan_value (length body) body of
        None \<Rightarrow> None
      | Some (v, _) \<Rightarrow>
          (case decode_struct fs v zero of Inl _ \<Rightarrow> None | Inr x \<Rightarrow> if known_members fs v then Some x else None))"

section \<open>The server\<close>

record server_config =
  sc_hasher :: argon2id_params
  sc_cookieName :: string
  sc_sessionTTL :: int
  sc_secureCookie :: bool

record server =
  sv_users :: "users_tables db"
  sv_sessions :: session_store

text \<open>The time of the request and what \<open>rand.Read\<close> yields for the salt, the session token and the API key.\<close>

record request_env =
  en_now :: instant
  en_salt :: "byte list result"
  en_token :: "byte list result"
  en_key :: "byte list result"

type_synonym handler = "request \<Rightarrow> server \<Rightarrow> response \<times> server"

definition defaultSessionCookieName :: string where
  "defaultSessionCookieName = ''corehole_admin_session''"

text \<open>\<open>NewServer\<close> with the options of the application.\<close>

definition NewServer :: server_config where
  "NewServer =
     \<lparr>sc_hasher = NewArgon2idHasher \<lparr>ap_Memory = 0, ap_Time = 0, ap_Parallelism = 0, ap_SaltLength = 0, ap_KeyLength = 0\<rparr>,
      sc_cookieName = defaultSessionCookieName, sc_sessionTTL = 24 * 3600 * second_ns, sc_secureCookie = False\<rparr>"

definition on_users :: "(users_tables db, 'a) step \<Rightarrow> server \<Rightarrow> 'a result \<times> server" where
  "on_users m sv = (case m (sv_users sv) of (r, u) \<Rightarrow> (r, sv\<lparr>sv_users := u\<rparr>))"

definition sessionCookie :: "server_config \<Rightarrow> instant \<Rightarrow> string \<Rightarrow> cookie" where
  "sessionCookie cfg now token =
     \<lparr>ck_Name = sc_cookieName cfg, ck_Value = token, ck_Path = ''/'', ck_HttpOnly = True, ck_Secure = sc_secureCookie cfg, ck_SameSiteStrict = True,
      ck_MaxAge = sc_sessionTTL cfg div second_ns, ck_Expires = now + sc_sessionTTL cfg\<rparr>"

definition expiredCookie :: "server_config \<Rightarrow> cookie" where
  "expiredCookie cfg =
     \<lparr>ck_Name = sc_cookieName cfg, ck_Value = [], ck_Path = ''/'', ck_HttpOnly = True, ck_Secure = sc_secureCookie cfg, ck_SameSiteStrict = True,
      ck_MaxAge = -1, ck_Expires = 0\<rparr>"

definition setSessionCookie :: "server_config \<Rightarrow> request_env \<Rightarrow> server \<Rightarrow> cookie result \<times> server" where
  "setSessionCookie cfg env sv =
     (case sqlite_Create (en_now env) (sc_sessionTTL cfg) (en_token env) (sv_sessions sv) of
        (Inl err, s) \<Rightarrow> (Inl err, sv\<lparr>sv_sessions := s\<rparr>)
      | (Inr token, s) \<Rightarrow> (Inr (sessionCookie cfg (en_now env) token), sv\<lparr>sv_sessions := s\<rparr>))"

section \<open>API keys\<close>

definition apiKeySecretPrefix :: string where
  "apiKeySecretPrefix = ''ch_''"

definition EqualFold :: "string \<Rightarrow> string \<Rightarrow> bool" where
  "EqualFold s t \<longleftrightarrow> ToLower s = ToLower t"

definition apiKeyFromRequest :: "request \<Rightarrow> string" where
  "apiKeyFromRequest r =
     (let auth = TrimSpace (rq_Authorization r); parts = Fields auth in
      if auth \<noteq> [] \<and> length parts = 2 \<and> EqualFold (parts ! 0) ''Bearer'' then TrimSpace (parts ! 1)
      else TrimSpace (rq_APIKey r))"

definition generateAPIKey :: "byte list result \<Rightarrow> string result" where
  "generateAPIKey random = map_sum id (\<lambda>keyBytes. apiKeySecretPrefix @ RawURLEncode keyBytes) random"

definition hashAPIKey :: "string \<Rightarrow> string" where
  "hashAPIKey rawKey = EncodeToString (Sum256 (bytes_of rawKey))"

definition apiKeyPrefix :: "string \<Rightarrow> string" where
  "apiKeyPrefix rawKey = (if length rawKey \<le> 12 then rawKey else take 12 rawKey)"

definition apiKeyLast4 :: "string \<Rightarrow> string" where
  "apiKeyLast4 rawKey = (if length rawKey \<le> 4 then rawKey else drop (length rawKey - 4) rawKey)"

definition authenticatedByAPIKey :: "request_env \<Rightarrow> request \<Rightarrow> server \<Rightarrow> bool \<times> server" where
  "authenticatedByAPIKey env r sv =
     (let rawKey = apiKeyFromRequest r in
      if rawKey = [] then (False, sv)
      else
        (case on_users (sqlite_FindValidAPIKeyByHash () (hashAPIKey rawKey)) sv of
           (Inl _, sv) \<Rightarrow> (False, sv)
         | (Inr key, sv) \<Rightarrow> (True, snd (on_users (sqlite_MarkAPIKeyUsed (ak_ID key) (en_now env)) sv))))"

section \<open>Authentication\<close>

definition authenticatedBySession :: "request_env \<Rightarrow> request \<Rightarrow> server \<Rightarrow> bool \<times> server" where
  "authenticatedBySession env r sv =
     (case rq_Cookie r of
        None \<Rightarrow> (False, sv)
      | Some value \<Rightarrow>
          if value = [] then (False, sv)
          else (case sqlite_Valid () value (en_now env) (sv_sessions sv) of (b, s) \<Rightarrow> (b, sv\<lparr>sv_sessions := s\<rparr>)))"

definition authenticated :: "request_env \<Rightarrow> request \<Rightarrow> server \<Rightarrow> bool \<times> server" where
  "authenticated env r sv =
     (case authenticatedBySession env r sv of (True, sv) \<Rightarrow> (True, sv) | (False, sv) \<Rightarrow> authenticatedByAPIKey env r sv)"

definition requireSession :: "request_env \<Rightarrow> handler \<Rightarrow> handler" where
  "requireSession env next r sv =
     (case authenticated env r sv of
        (False, sv) \<Rightarrow> (writeError 401 ''authentication_required'', sv)
      | (True, sv) \<Rightarrow> next r sv)"

section \<open>Setup, login and logout\<close>

definition password_fields :: "string json_field list" where
  "password_fields = [string_field ''password'' id (\<lambda>v _. v)]"

definition handleStatus :: "request_env \<Rightarrow> handler" where
  "handleStatus env r sv =
     (if rq_Method r \<noteq> ''GET'' then (methodNotAllowed, sv)
      else
        (case on_users sqlite_IsSetup sv of
           (Inl _, sv) \<Rightarrow> (writeError 500 ''status_unavailable'', sv)
         | (Inr setup, sv) \<Rightarrow>
             (case authenticated env r sv of
                (b, sv) \<Rightarrow> (writeJSON 200 (Flags [(''setup_required'', \<not> setup), (''authenticated'', b)]), sv))))"

text \<open>The answer to a setup or a login that went well: a session and its cookie.\<close>

definition answer_session :: "server_config \<Rightarrow> request_env \<Rightarrow> nat \<Rightarrow> server \<Rightarrow> response \<times> server" where
  "answer_session cfg env status sv =
     (case setSessionCookie cfg env sv of
        (Inl _, sv) \<Rightarrow> (writeError 500 ''session_failed'', sv)
      | (Inr c, sv) \<Rightarrow> ((writeJSON status (Flags [(''ok'', True)]))\<lparr>rs_Cookies := [c]\<rparr>, sv))"

text \<open>What \<open>handleSetup\<close> does after it has found that there is no administrator; other requests may run in between.\<close>

definition setup_create :: "id_key \<Rightarrow> server_config \<Rightarrow> request_env \<Rightarrow> string \<Rightarrow> server \<Rightarrow> response \<times> server" where
  "setup_create IDKey cfg env password sv =
     (case Hash IDKey (sc_hasher cfg) (en_salt env) (bytes_of password) of
        Inl _ \<Rightarrow> (writeError 500 ''password_hash_failed'', sv)
      | Inr passwordHash \<Rightarrow>
          (case on_users (sqlite_CreateAdmin (en_now env) passwordHash) sv of
             (Inl err, sv) \<Rightarrow>
               (if errors_Is err ErrAlreadySetup then writeError 409 ''already_setup'' else writeError 500 ''setup_failed'', sv)
           | (Inr _, sv) \<Rightarrow> answer_session cfg env 201 sv))"

definition handleSetup :: "id_key \<Rightarrow> server_config \<Rightarrow> request_env \<Rightarrow> handler" where
  "handleSetup IDKey cfg env r sv =
     (if rq_Method r \<noteq> ''POST'' then (methodNotAllowed, sv)
      else
        (case decodeJSON password_fields [] (rq_Body r) of
           None \<Rightarrow> (writeError 400 ''invalid_json'', sv)
         | Some password \<Rightarrow>
             if password = [] then (writeError 400 ''password_required'', sv)
             else
               (case on_users sqlite_IsSetup sv of
                  (Inl _, sv) \<Rightarrow> (writeError 500 ''setup_unavailable'', sv)
                | (Inr True, sv) \<Rightarrow> (writeError 409 ''already_setup'', sv)
                | (Inr False, sv) \<Rightarrow> setup_create IDKey cfg env password sv)))"

definition handleLogin :: "id_key \<Rightarrow> server_config \<Rightarrow> request_env \<Rightarrow> handler" where
  "handleLogin IDKey cfg env r sv =
     (if rq_Method r \<noteq> ''POST'' then (methodNotAllowed, sv)
      else
        (case decodeJSON password_fields [] (rq_Body r) of
           None \<Rightarrow> (writeError 400 ''invalid_json'', sv)
         | Some password \<Rightarrow>
             if password = [] then (writeError 400 ''password_required'', sv)
             else
               (case on_users sqlite_AdminPasswordHash sv of
                  (Inl err, sv) \<Rightarrow>
                    (if errors_Is err ErrNotSetup then writeError 409 ''setup_required'' else writeError 500 ''login_unavailable'', sv)
                | (Inr passwordHash, sv) \<Rightarrow>
                    (case Compare IDKey passwordHash (bytes_of password) of
                       Inl _ \<Rightarrow> (writeError 500 ''password_verify_failed'', sv)
                     | Inr same \<Rightarrow> if \<not> same then (writeError 401 ''invalid_credentials'', sv) else answer_session cfg env 200 sv))))"

definition handleLogout :: "server_config \<Rightarrow> handler" where
  "handleLogout cfg r sv =
     (if rq_Method r \<noteq> ''POST'' then (methodNotAllowed, sv)
      else
        (\<lparr>rs_Status = 204, rs_Cookies = [expiredCookie cfg], rs_Body = NoBody\<rparr>,
         case rq_Cookie r of None \<Rightarrow> sv | Some value \<Rightarrow> sv\<lparr>sv_sessions := sqlite_Delete () value (sv_sessions sv)\<rparr>))"

section \<open>The handlers of the API keys\<close>

text \<open>\<open>strconv.ParseInt\<close> in base ten.\<close>

definition ParseInt :: "string \<Rightarrow> int option" where
  "ParseInt s =
     (let signed = (s \<noteq> [] \<and> (hd s = CHR ''-'' \<or> hd s = CHR ''+'')); digits = (if signed then tl s else s) in
      if digits = [] then None
      else
        (case parse_digits 0 digits of
           None \<Rightarrow> None
         | Some n \<Rightarrow> let i = (if signed \<and> hd s = CHR ''-'' then - n else n) in if int64_range i then Some i else None))"

definition handleAPIKey :: "request_env \<Rightarrow> handler" where
  "handleAPIKey env r sv =
     (if rq_Method r \<noteq> ''DELETE'' then (methodNotAllowed, sv)
      else
        let idText = TrimPrefix (rq_Path r) ''/api/api-keys/'' in
        if idText = [] \<or> Contains idText ''/'' then (writeError 404 ''api_key_not_found'', sv)
        else
          (case ParseInt idText of
             None \<Rightarrow> (writeError 404 ''api_key_not_found'', sv)
           | Some i \<Rightarrow>
               if i \<le> 0 then (writeError 404 ''api_key_not_found'', sv)
               else
                 (case on_users (sqlite_RevokeAPIKey i (en_now env)) sv of
                    (Inl err, sv) \<Rightarrow>
                      (if errors_Is err ErrAPIKeyNotFound then writeError 404 ''api_key_not_found'' else writeError 500 ''api_key_revoke_failed'', sv)
                  | (Inr _, sv) \<Rightarrow> (\<lparr>rs_Status = 204, rs_Cookies = [], rs_Body = NoBody\<rparr>, sv))))"

definition handleListAPIKeys :: handler where
  "handleListAPIKeys r sv =
     (case on_users (sqlite_ListAPIKeys ()) sv of
        (Inl _, sv) \<Rightarrow> (writeError 500 ''api_key_list_failed'', sv)
      | (Inr keys, sv) \<Rightarrow> (writeJSON 200 (KeyList keys), sv))"

definition create_fields :: "string json_field list" where
  "create_fields = [string_field ''name'' id (\<lambda>v _. v)]"

definition handleCreateAPIKey :: "request_env \<Rightarrow> handler" where
  "handleCreateAPIKey env r sv =
     (case decodeJSON create_fields [] (rq_Body r) of
        None \<Rightarrow> (writeError 400 ''invalid_json'', sv)
      | Some reqName \<Rightarrow>
          let name = TrimSpace reqName in
          if name = [] then (writeError 400 ''name_required'', sv)
          else
            (case generateAPIKey (en_key env) of
               Inl _ \<Rightarrow> (writeError 500 ''api_key_generation_failed'', sv)
             | Inr rawKey \<Rightarrow>
                 (case on_users (sqlite_CreateAPIKey () name (hashAPIKey rawKey) (apiKeyPrefix rawKey) (apiKeyLast4 rawKey) (en_now env)) sv of
                    (Inl _, sv) \<Rightarrow> (writeError 500 ''api_key_create_failed'', sv)
                  | (Inr key, sv) \<Rightarrow> (writeJSON 201 (CreatedKey key rawKey), sv))))"

definition handleAPIKeys :: "request_env \<Rightarrow> handler" where
  "handleAPIKeys env r sv =
     (if rq_Method r = ''GET'' then handleListAPIKeys r sv
      else if rq_Method r = ''POST'' then handleCreateAPIKey env r sv
      else (methodNotAllowed, sv))"

section \<open>Routes\<close>

text \<open>A pattern, whether \<open>requireSession\<close> guards it, and the name of its handler.\<close>

definition routes :: "(string \<times> bool \<times> string) list" where
  "routes =
     [(''/'', False, ''handleConsole''),
      (''/api/status'', False, ''handleStatus''),
      (''/api/setup'', False, ''handleSetup''),
      (''/api/login'', False, ''handleLogin''),
      (''/api/logout'', True, ''handleLogout''),
      (''/api/api-keys'', True, ''handleAPIKeys''),
      (''/api/api-keys/'', True, ''handleAPIKey''),
      (''/api/dashboard'', True, ''handleDashboard''),
      (''/api/queries'', True, ''handleQueries''),
      (''/api/analytics/queries'', True, ''handleAnalyticsQueries''),
      (''/api/analytics/summary'', True, ''handleAnalyticsSummary''),
      (''/api/analytics/settings'', True, ''handleAnalyticsSettings''),
      (''/api/analytics/cleanup'', True, ''handleAnalyticsCleanup''),
      (''/api/config'', True, ''handleConfig''),
      (''/api/blocking/status'', True, ''handleBlockingStatus''),
      (''/api/custom-dns/records'', True, ''handleCustomDNSRecords''),
      (''/api/custom-dns/records/'', True, ''handleCustomDNSRecord''),
      (''/api/filter/lists'', True, ''handleFilterLists''),
      (''/api/filter/jobs'', True, ''handleFilterJobs''),
      (''/api/filter/jobs/'', True, ''handleFilterJobs''),
      (''/api/filter/lists/'', True, ''handleFilterList''),
      (''/api/filter/list-entries/'', True, ''handleFilterListEntry''),
      (''/api/filter/rules'', True, ''handleFilterRules''),
      (''/api/filter/rules/'', True, ''handleFilterRule''),
      (''/api/filter/clients/suggestions'', True, ''handleFilterClientSuggestions''),
      (''/api/filter/clients'', True, ''handleFilterClients''),
      (''/api/filter/clients/'', True, ''handleFilterClient''),
      (''/api/filter/groups'', True, ''handleFilterGroups''),
      (''/api/filter/groups/'', True, ''handleFilterGroup'')]"

text \<open>A pattern that ends in a slash matches what it is a prefix of; the longest pattern wins.\<close>

definition pattern_matches :: "string \<Rightarrow> string \<Rightarrow> bool" where
  "pattern_matches pattern path \<longleftrightarrow> pattern = path \<or> HasSuffix pattern ''/'' \<and> HasPrefix path pattern"

fun longest_match :: "string \<Rightarrow> (string \<times> bool \<times> string) list \<Rightarrow> (string \<times> bool \<times> string) option" where
  "longest_match path [] = None"
| "longest_match path (r # rs) =
     (case longest_match path rs of
        None \<Rightarrow> if pattern_matches (fst r) path then Some r else None
      | Some r' \<Rightarrow> if pattern_matches (fst r) path \<and> length (fst r') < length (fst r) then Some r else Some r')"

text \<open>
  The handlers by their names; \<open>others\<close> are those of the console and of the rest of the API. A path without a pattern does not arise: the console's pattern matches them all.
\<close>

definition handler_named :: "id_key \<Rightarrow> server_config \<Rightarrow> request_env \<Rightarrow> (string \<Rightarrow> handler) \<Rightarrow> string \<Rightarrow> handler" where
  "handler_named IDKey cfg env others name =
     (if name = ''handleStatus'' then handleStatus env
      else if name = ''handleSetup'' then handleSetup IDKey cfg env
      else if name = ''handleLogin'' then handleLogin IDKey cfg env
      else if name = ''handleLogout'' then handleLogout cfg
      else if name = ''handleAPIKeys'' then handleAPIKeys env
      else if name = ''handleAPIKey'' then handleAPIKey env
      else others name)"

definition ServeHTTP :: "id_key \<Rightarrow> server_config \<Rightarrow> request_env \<Rightarrow> (string \<Rightarrow> handler) \<Rightarrow> handler" where
  "ServeHTTP IDKey cfg env others r sv =
     (case longest_match (rq_Path r) routes of
        None \<Rightarrow> (writeError 404 [], sv)
      | Some (pattern, guarded, name) \<Rightarrow>
          if guarded then requireSession env (handler_named IDKey cfg env others name) r sv
          else handler_named IDKey cfg env others name r sv)"

end
