(* ===== verification/Server_Properties.thy ===== *)
theory Server_Properties
  imports Admin_Server
begin

text \<open>
  The properties of the authentication of \<open>internal/admin/server.go\<close>, put together from the contracts of the stores: which requests reach a guarded handler,
  that the administrator is set once, that a login accepts the password of the setup, and the life of an API key.
\<close>

section \<open>Credentials\<close>

definition session_credential :: "request \<Rightarrow> instant \<Rightarrow> server \<Rightarrow> bool" where
  "session_credential r now sv \<longleftrightarrow>
     (case rq_Cookie r of None \<Rightarrow> False | Some token \<Rightarrow> token \<noteq> [] \<and> live_at (sqlite_expiry (sv_sessions sv)) token now)"

definition key_credential :: "request \<Rightarrow> server \<Rightarrow> bool" where
  "key_credential r sv \<longleftrightarrow> apiKeyFromRequest r \<noteq> [] \<and>
     (\<exists>i. table_holds (keys_of (sv_users sv)) (hashAPIKey (apiKeyFromRequest r)) i \<and> table_active (keys_of (sv_users sv)) i)"

text \<open>What an authentication leaves as it was.\<close>

definition same_credentials :: "instant \<Rightarrow> server \<Rightarrow> server \<Rightarrow> bool" where
  "same_credentials now sv sv' \<longleftrightarrow> ut_admin (db_tables (sv_users sv')) = ut_admin (db_tables (sv_users sv)) \<and>
     as_map (table_holds (keys_of (sv_users sv'))) = as_map (table_holds (keys_of (sv_users sv))) \<and>
     table_active (keys_of (sv_users sv')) = table_active (keys_of (sv_users sv)) \<and>
     (\<forall>d e. now < e \<longrightarrow> (sqlite_expiry (sv_sessions sv') d = Some e \<longleftrightarrow> sqlite_expiry (sv_sessions sv) d = Some e))"

lemma bySession:
  assumes "sqlite_ok (sv_sessions sv)" and "authenticatedBySession env r sv = (b, sv')"
  shows "(b \<longleftrightarrow> session_credential r (en_now env) sv) \<and> sv_users sv' = sv_users sv \<and> same_credentials (en_now env) sv sv'"
proof (cases "rq_Cookie r")
  case None
  then show ?thesis using assms(2) by (auto simp: authenticatedBySession_def session_credential_def same_credentials_def)
next
  case (Some token)
  show ?thesis
  proof (cases "token = []")
    case True
    then show ?thesis using assms(2) Some by (auto simp: authenticatedBySession_def session_credential_def same_credentials_def)
  next
    case False
    obtain s where v: "sqlite_Valid () token (en_now env) (sv_sessions sv) = (b, s)" and sv': "sv' = sv\<lparr>sv_sessions := s\<rparr>"
      using assms(2) Some False by (auto simp: authenticatedBySession_def split: prod.splits)
    from sqlite.valid_answers [OF assms(1) _ v] Some False show ?thesis
      unfolding sv' by (simp add: session_credential_def same_credentials_def)
  qed
qed

lemma mark_admin: "sqlite_MarkAPIKeyUsed i now d = (r, d') \<Longrightarrow> ut_admin (db_tables d') = ut_admin (db_tables d)"
proof -
  assume m: "sqlite_MarkAPIKeyUsed i now d = (r, d')"
  let ?f = "\<lambda>r. r\<lparr>kr_last_used_at := formatAPIKeyTime now\<rparr>"
  have "\<forall>a d r d'. (\<lambda>_. ret ()) a d = (r, d') \<longrightarrow> db_tables d' = db_tables d" by simp
  from run_then [OF m [unfolded sqlite_MarkAPIKeyUsed_def], of] this
  consider "db_tables d' = db_tables d" | n where "update_keys (\<lambda>r. kr_id r = i) ?f (db_tables d) = Inr (n, db_tables d')" by fastforce
  then show ?thesis
  proof cases
    case (2 n)
    have "update_keys p f tb = Inr (n, tb') \<Longrightarrow> ut_admin tb' = ut_admin tb" for p f tb tb' by (auto simp: update_keys_def split: prod.splits)
    from this [OF 2] show ?thesis .
  qed simp
qed

lemma byAPIKey:
  assumes ok: "table_keys_ok (keys_of (sv_users sv))" and calm: "db_faults (sv_users sv) = []" and now: "in_range (en_now env)"
    and a: "authenticatedByAPIKey env r sv = (b, sv')"
  shows "(b \<longleftrightarrow> key_credential r sv) \<and> same_credentials (en_now env) sv sv'"
proof (cases "apiKeyFromRequest r = []")
  case True
  then show ?thesis using a by (auto simp: authenticatedByAPIKey_def key_credential_def same_credentials_def)
next
  case False
  let ?hash = "hashAPIKey (apiKeyFromRequest r)"
  obtain q u where f: "sqlite_FindValidAPIKeyByHash () ?hash (sv_users sv) = (q, u)" by fastforce
  have law: "table_keys_ok (keys_of u)" "ut_admin (db_tables u) = ut_admin (db_tables (sv_users sv))" "keys_of u = keys_of (sv_users sv)"
    using sqlite_found_law(1) [OF ok f] ok by (simp_all add: keys_of_def)
  show ?thesis
  proof (cases q)
    case (Inl e)
    have "\<not> key_credential r sv"
    proof
      assume "key_credential r sv"
      then obtain i where "table_holds (keys_of (sv_users sv)) ?hash i" "table_active (keys_of (sv_users sv)) i" by (auto simp: key_credential_def)
      then show False using sqlite_found_law(2) [OF ok f calm, of i] table_ids_Some [OF ok] Inl by simp
    qed
    moreover have "b = False" "sv' = sv\<lparr>sv_users := u\<rparr>" using a f Inl False by (simp_all add: authenticatedByAPIKey_def on_users_def Let_def)
    ultimately show ?thesis using law by (simp add: same_credentials_def)
  next
    case (Inr key)
    have "key_credential r sv"
      using sqlite_found_law(1) [OF ok f] Inr False table_ids_Some [OF ok] by (auto simp: key_credential_def)
    moreover obtain m u' where m: "sqlite_MarkAPIKeyUsed (ak_ID key) (en_now env) u = (m, u')" by fastforce
    moreover have "b = True" "sv' = sv\<lparr>sv_users := u'\<rparr>" using a f Inr False m by (simp_all add: authenticatedByAPIKey_def on_users_def Let_def)
    ultimately show ?thesis using law sqlite_mark_law [OF law(1) now m] mark_admin [OF m] by (simp add: same_credentials_def)
  qed
qed

lemma authenticated_iff:
  assumes "sqlite_ok (sv_sessions sv)" and "table_keys_ok (keys_of (sv_users sv))" and "db_faults (sv_users sv) = []" and "in_range (en_now env)"
    and "authenticated env r sv = (b, sv')"
  shows "(b \<longleftrightarrow> session_credential r (en_now env) sv \<or> key_credential r sv) \<and> same_credentials (en_now env) sv sv'"
proof -
  obtain b1 sv1 where s: "authenticatedBySession env r sv = (b1, sv1)" by fastforce
  note 1 = bySession [OF assms(1) s]
  show ?thesis
  proof (cases b1)
    case True
    then show ?thesis using 1 s assms(5) by (auto simp: authenticated_def)
  next
    case False
    then have k: "authenticatedByAPIKey env r sv1 = (b, sv')" using s assms(5) by (simp add: authenticated_def)
    have u: "sv_users sv1 = sv_users sv" using 1 by simp
    note 2 = byAPIKey [OF _ _ assms(4) k, unfolded u, OF assms(2,3)]
    have "key_credential r sv1 = key_credential r sv" by (simp add: key_credential_def u)
    then show ?thesis using 1 2 False by (simp add: same_credentials_def)
  qed
qed

text \<open>
  C37: A guarded handler runs exactly for the requests with the cookie of a session that was issued, not logged out and has not expired, or with an API key that was
  created and not revoked; every other request gets a 401 response. The check itself neither makes nor ends a session that is live nor changes the
  administrator or which keys are active. Every route below /api/ is guarded but the status, the setup and the login.
\<close>

theorem guarded_by_credentials:
  assumes "longest_match (rq_Path r) routes = Some (pattern, True, name)"
    and "sqlite_ok (sv_sessions sv)" and "table_keys_ok (keys_of (sv_users sv))" and "db_faults (sv_users sv) = []" and "in_range (en_now env)"
  shows "(\<exists>sv'. same_credentials (en_now env) sv sv' \<and>
      ServeHTTP IDKey cfg env others r sv =
        (if session_credential r (en_now env) sv \<or> key_credential r sv then handler_named IDKey cfg env others name r sv'
         else (writeError 401 ''authentication_required'', sv'))) \<and>
    (\<forall>(p, guarded, n) \<in> set routes. guarded \<or> p \<in> {''/'', ''/api/status'', ''/api/setup'', ''/api/login''})"
proof -
  obtain b sv' where a: "authenticated env r sv = (b, sv')" by fastforce
  note l = authenticated_iff [OF assms(2-5) a]
  have "ServeHTTP IDKey cfg env others r sv = (if b then handler_named IDKey cfg env others name r sv' else (writeError 401 ''authentication_required'', sv'))"
    using assms(1) a by (simp add: ServeHTTP_def requireSession_def)
  with l have part1: "\<exists>sv'. same_credentials (en_now env) sv sv' \<and>
      ServeHTTP IDKey cfg env others r sv =
        (if session_credential r (en_now env) sv \<or> key_credential r sv then handler_named IDKey cfg env others name r sv'
         else (writeError 401 ''authentication_required'', sv'))" by auto
  have part2: "\<forall>(p, guarded, n) \<in> set routes. guarded \<or> p \<in> {''/'', ''/api/status'', ''/api/setup'', ''/api/login''}"
    by (simp add: routes_def)
  show ?thesis by (rule conjI [OF part1 part2])
qed

text \<open>A server with a session and no key.\<close>

definition no_users :: "users_tables db" where
  "no_users = \<lparr>db_tables = \<lparr>ut_admin = None, ut_keys = empty_table\<rparr>, db_faults = []\<rparr>"

definition cached_sessions :: session_store where
  "cached_sessions = cache_session (tokenDigest ''token'') 10 (NewSQLiteSessionStore None)"

definition demo_env :: request_env where
  "demo_env = \<lparr>en_now = 5, en_salt = Inr [7, 8], en_token = Inr [1, 2, 3], en_key = Inr [1]\<rparr>"

definition demo_request :: "string \<Rightarrow> string option \<Rightarrow> string \<Rightarrow> request" where
  "demo_request path token body =
     \<lparr>rq_Method = ''POST'', rq_Path = path, rq_Cookie = token, rq_Authorization = [], rq_APIKey = [], rq_Body = body\<rparr>"

lemma small_in_range: "in_range 5" "in_range 10" "in_range 15"
  unfolding in_range_def by code_simp+

lemma no_users_ok: "table_keys_ok (keys_of no_users)"
  by (simp add: no_users_def keys_of_def table_keys_ok_def table_ok_def empty_table_def)

lemma cached_ok: "sqlite_ok cached_sessions" "sqlite_expiry cached_sessions = [tokenDigest ''token'' \<mapsto> 10]"
  using map_ok_update [of Map.empty "tokenDigest ''token''" 10] map_expiry_update [of Map.empty "tokenDigest ''token''" 10]
  by (auto simp: cached_sessions_def sqlite_ok_def cache_session_def NewSQLiteSessionStore_def sqlite_expiry_def [abs_def] map_ok_def map_expiry_def [abs_def])

theorem guarded_by_credentials_witness:
  "\<exists>sv'. ServeHTTP length_key NewServer demo_env (\<lambda>_ _ sv. (writeError 500 [], sv)) (demo_request ''/api/config'' (Some ''token'') []) \<lparr>sv_users = no_users, sv_sessions = cached_sessions\<rparr>
     = (writeError 500 [], sv')"
proof -
  let ?r = "demo_request ''/api/config'' (Some ''token'') []"
  let ?sv = "\<lparr>sv_users = no_users, sv_sessions = cached_sessions\<rparr>"
  have m: "longest_match (rq_Path ?r) routes = Some (''/api/config'', True, ''handleConfig'')" by code_simp
  have c: "session_credential ?r (en_now demo_env) ?sv"
    by (simp add: session_credential_def demo_request_def demo_env_def cached_ok live_at_def)
  have "in_range (en_now demo_env)" using small_in_range by (simp add: demo_env_def)
  moreover have "db_faults no_users = []" by (simp add: no_users_def)
  ultimately show ?thesis
    using guarded_by_credentials [of ?r "''/api/config''" "''handleConfig''" ?sv demo_env length_key NewServer "\<lambda>_ _ sv. (writeError 500 [], sv)", OF m] c
      cached_ok(1) no_users_ok by (auto simp: handler_named_def)
qed

section \<open>The setup\<close>

lemma create_admin_set:
  assumes "sqlite_CreateAdmin now h d = (r, d')" and "ut_admin (db_tables d) \<noteq> None"
  shows "is_ok r = False \<and> db_tables d' = db_tables d"
proof -
  let ?next = "\<lambda>rows. then_do (wrap_err (Wrapf ''check admin user creation'') (sql_poll db_error)) (\<lambda>_. if rows = 0 then fail ErrAlreadySetup else ret ())"
  have "db_tables d' = db_tables d \<and> (a = 0 \<longrightarrow> is_ok r = False)" if "?next a d = (r, d')" for a :: int and d d' :: "users_tables db" and r
  proof -
    obtain q d1 where q: "wrap_err (Wrapf ''check admin user creation'') (sql_poll db_error) d = (q, d1)" by fastforce
    show ?thesis using that wrap_poll_tables [OF q] q by (cases q) (auto simp: then_do_def split: if_splits)
  qed
  then have f: "\<forall>(a :: int) (d :: users_tables db) r d'. ?next a d = (r, d') \<longrightarrow> db_tables d' = db_tables d"
    and z: "\<forall>(d :: users_tables db) r d'. ?next (0 :: int) d = (r, d') \<longrightarrow> is_ok r = False" by blast+
  from run_then [OF assms(1) [unfolded sqlite_CreateAdmin_def] f]
  consider "is_ok r = False" "db_tables d' = db_tables d"
    | n d1 where "insert_admin \<lparr>ar_password_hash = h, ar_created_at = format_RFC3339Nano now\<rparr> (db_tables d) = Inr (n, db_tables d')" "?next n d1 = (r, d')"
    by blast
  then show ?thesis
  proof cases
    case (2 n d1)
    then have "n = 0" "db_tables d' = db_tables d" using assms(2) by (simp_all add: insert_admin_def)
    then show ?thesis using 2(2) z by blast
  qed simp
qed

text \<open>
  C38: The administrator is set once. When there is one, no setup changes the tables or opens a session, whatever fails; nor does a setup that had
  found none before another request made it: it comes to \<open>CreateAdmin\<close>, which answers with a conflict or an error.
\<close>

theorem administrator_set_once:
  assumes "ut_admin (db_tables (sv_users sv)) \<noteq> None"
  shows "(case handleSetup IDKey cfg env r sv of (resp, sv') \<Rightarrow>
      rs_Status resp \<in> {400, 405, 409, 500} \<and> rs_Cookies resp = [] \<and>
      db_tables (sv_users sv') = db_tables (sv_users sv) \<and> sv_sessions sv' = sv_sessions sv) \<and>
    (case setup_create IDKey cfg env password sv of (resp, sv') \<Rightarrow>
      rs_Status resp \<in> {409, 500} \<and> rs_Cookies resp = [] \<and>
      db_tables (sv_users sv') = db_tables (sv_users sv) \<and> sv_sessions sv' = sv_sessions sv)"
proof -
  have create: "case setup_create IDKey cfg env password sv of (resp, sv') \<Rightarrow>
      rs_Status resp \<in> {409, 500} \<and> rs_Cookies resp = [] \<and>
      db_tables (sv_users sv') = db_tables (sv_users sv) \<and> sv_sessions sv' = sv_sessions sv"
    if set: "ut_admin (db_tables (sv_users sv)) \<noteq> None" for sv password
  proof (cases "Hash IDKey (sc_hasher cfg) (en_salt env) (bytes_of password)")
    case (Inr h)
    obtain q u where c: "sqlite_CreateAdmin (en_now env) h (sv_users sv) = (q, u)" by fastforce
    obtain err where "q = Inl err" using create_admin_set [OF c set] by (cases q) simp_all
    then show ?thesis using Inr c create_admin_set [OF c set]
      by (simp add: setup_create_def on_users_def writeError_def writeJSON_def)
  qed (simp add: setup_create_def writeError_def writeJSON_def)
  have part2: "case setup_create IDKey cfg env password sv of (resp, sv') \<Rightarrow>
      rs_Status resp \<in> {409, 500} \<and> rs_Cookies resp = [] \<and>
      db_tables (sv_users sv') = db_tables (sv_users sv) \<and> sv_sessions sv' = sv_sessions sv" by (rule create [OF assms])
  obtain q u where i: "sqlite_IsSetup (sv_users sv) = (q, u)" by fastforce
  have u: "db_tables u = db_tables (sv_users sv)" and q: "\<forall>b. q = Inr b \<longrightarrow> b"
    using i assms by (auto simp: sqlite_IsSetup_def then_do_def wrap_err_def sql_query_row_def sql_poll_def split: prod.splits sum.splits if_splits)
  have part1: "case handleSetup IDKey cfg env r sv of (resp, sv') \<Rightarrow>
      rs_Status resp \<in> {400, 405, 409, 500} \<and> rs_Cookies resp = [] \<and>
      db_tables (sv_users sv') = db_tables (sv_users sv) \<and> sv_sessions sv' = sv_sessions sv"
    using i u q
    by (cases q) (auto simp: handleSetup_def methodNotAllowed_def writeError_def writeJSON_def on_users_def split: option.split)
  show ?thesis by (rule conjI [OF part1 part2])
qed

definition set_users :: "users_tables db" where
  "set_users = \<lparr>db_tables = \<lparr>ut_admin = Some \<lparr>ar_password_hash = ''hash'', ar_created_at = []\<rparr>, ut_keys = empty_table\<rparr>, db_faults = []\<rparr>"

theorem administrator_set_once_witness:
  "rs_Cookies (fst (handleSetup length_key NewServer demo_env (demo_request ''/api/setup'' None [CHR 0x7B, CHR 0x7D])
     \<lparr>sv_users = set_users, sv_sessions = cached_sessions\<rparr>)) = []"
proof -
  let ?sv = "\<lparr>sv_users = set_users, sv_sessions = cached_sessions\<rparr>"
  have "ut_admin (db_tables (sv_users ?sv)) \<noteq> None" by (simp add: set_users_def)
  from administrator_set_once [OF this, THEN conjunct1] show ?thesis by (simp add: case_prod_beta)
qed

section \<open>The login\<close>

lemma create_admin_stores:
  assumes "sqlite_CreateAdmin now h d = (Inr (), d')"
  shows "ut_admin (db_tables d') = Some \<lparr>ar_password_hash = h, ar_created_at = format_RFC3339Nano now\<rparr>"
proof -
  let ?row = "\<lparr>ar_password_hash = h, ar_created_at = format_RFC3339Nano now\<rparr>"
  obtain n d1 where i: "sql_run (insert_admin ?row) d = (Inr n, d1)" and
    after: "then_do (wrap_err (Wrapf ''check admin user creation'') (sql_poll db_error)) (\<lambda>_. if n = 0 then fail ErrAlreadySetup else ret ()) d1 = (Inr (), d')"
    using assms unfolding sqlite_CreateAdmin_def then_do_eq_Inr [of "wrap_err w m" for w m] wrap_err_Inr by blast
  obtain q d2 where q: "wrap_err (Wrapf ''check admin user creation'') (sql_poll db_error) d1 = (q, d2)" by fastforce
  have rest: "n \<noteq> 0" "db_tables d' = db_tables d1"
    using after wrap_poll_tables [OF q] q by (cases q; auto simp: then_do_def split: if_splits)+
  have "insert_admin ?row (db_tables d) = Inr (n, db_tables d1)" using sql_run_ok [OF i] .
  moreover have "insert_admin row tb = Inr (n, tb') \<Longrightarrow> n \<noteq> 0 \<Longrightarrow> ut_admin tb' = Some row" for row tb tb'
    by (auto simp: insert_admin_def split: if_splits)
  ultimately show ?thesis using rest by simp
qed

lemma setup_stores:
  assumes "handleSetup IDKey cfg env r sv = (resp, sv')" and "rs_Status resp = 201" and "decodeJSON password_fields [] (rq_Body r) = Some password"
  shows "\<exists>h row. Hash IDKey (sc_hasher cfg) (en_salt env) (bytes_of password) = Inr h \<and>
    ut_admin (db_tables (sv_users sv')) = Some row \<and> ar_password_hash row = h"
proof -
  have c: "\<exists>sv1. setup_create IDKey cfg env password sv1 = (resp, sv')"
    using assms
    by (auto simp: handleSetup_def methodNotAllowed_def writeError_def writeJSON_def split: if_splits prod.splits sum.splits bool.splits)
  then obtain sv1 where c: "setup_create IDKey cfg env password sv1 = (resp, sv')" by blast
  obtain h where h: "Hash IDKey (sc_hasher cfg) (en_salt env) (bytes_of password) = Inr h"
    using c assms(2) by (auto simp: setup_create_def writeError_def writeJSON_def split: sum.splits)
  obtain q u where a: "sqlite_CreateAdmin (en_now env) h (sv_users sv1) = (q, u)" by fastforce
  have q: "q = Inr ()" using c h a assms(2)
    by (cases q) (auto simp: setup_create_def on_users_def writeError_def writeJSON_def split: if_splits)
  then have "answer_session cfg env 201 (sv1\<lparr>sv_users := u\<rparr>) = (resp, sv')" using c h a by (simp add: setup_create_def on_users_def)
  then have "sv_users sv' = u" by (auto simp: answer_session_def setSessionCookie_def split: prod.splits sum.splits)
  then show ?thesis using create_admin_stores [of _ h _ u] a q h by auto
qed

text \<open>
  C39: A login accepts the password of the setup. After a setup that answered 201, a login, however much later, opens a session exactly when
  \<open>argon2.IDKey\<close> derives the same key from its password, and then the cookie that it sets is a credential until the session expires; with any other
  password it answers 401, sets no cookie and changes nothing.
\<close>

theorem login_accepts_setup_password:
  assumes "handleSetup IDKey cfg env r sv = (resp, sv1)" and "rs_Status resp = 201" and "decodeJSON password_fields [] (rq_Body r) = Some password"
    and "sc_hasher cfg = NewArgon2idHasher params" and "params_range params" and "length_ok IDKey"
    and "en_salt env = Inr salt" and "length salt = ap_SaltLength (sc_hasher cfg)"
    and "ut_admin (db_tables (sv_users sv2)) = ut_admin (db_tables (sv_users sv1))" and "db_faults (sv_users sv2) = []" and "sqlite_ok (sv_sessions sv2)"
    and "rq_Method r2 = ''POST''" and "decodeJSON password_fields [] (rq_Body r2) = Some other" and "other \<noteq> []"
    and "sqlite_Create (en_now env2) (sc_sessionTTL cfg) (en_token env2) (sv_sessions sv2) = (Inr token, s)" and "token \<noteq> []"
    and "in_range (en_now env2 + sc_sessionTTL cfg)"
    and "handleLogin IDKey cfg env2 r2 sv2 = (resp2, sv3)"
  shows "let h = sc_hasher cfg;
             key = (\<lambda>p. IDKey (bytes_of p) salt (ap_Time h) (ap_Memory h) (ap_Parallelism h) (ap_KeyLength h)) in
    if key other = key password
    then rs_Status resp2 = 200 \<and> rs_Cookies resp2 = [sessionCookie cfg (en_now env2) token] \<and>
      (\<forall>r' now. rq_Cookie r' = Some token \<and> now < en_now env2 + sc_sessionTTL cfg \<longrightarrow> session_credential r' now sv3)
    else resp2 = writeError 401 ''invalid_credentials'' \<and> sv3 = sv2"
proof -
  let ?h = "sc_hasher cfg"
  let ?key = "\<lambda>p. IDKey (bytes_of p) salt (ap_Time ?h) (ap_Memory ?h) (ap_Parallelism ?h) (ap_KeyLength ?h)"
  obtain hash row where hash: "Hash IDKey ?h (Inr salt) (bytes_of password) = Inr hash"
    and row: "ut_admin (db_tables (sv_users sv2)) = Some row" "ar_password_hash row = hash"
    using setup_stores [OF assms(1-3)] assms(7,9) by auto
  have cmp: "Compare IDKey hash (bytes_of other) = Inr (?key other = ?key password)"
    using hash_compared [OF assms(5,6) _ hash [unfolded assms(4)], of "bytes_of other"] assms(4,8) by (simp add: Let_def)
  have load: "on_users sqlite_AdminPasswordHash sv2 = (Inr hash, sv2)"
    using row assms(10) by (simp add: on_users_def sqlite_AdminPasswordHash_def then_do_def wrap_err_def)
  have login: "handleLogin IDKey cfg env2 r2 sv2 =
      (if ?key other = ?key password then answer_session cfg env2 200 sv2 else (writeError 401 ''invalid_credentials'', sv2))"
    using assms(12-14) load cmp by (simp add: handleLogin_def)
  show ?thesis
  proof (cases "?key other = ?key password")
    case True
    have e: "resp2 = (writeJSON 200 (Flags [(''ok'', True)]))\<lparr>rs_Cookies := [sessionCookie cfg (en_now env2) token]\<rparr>" "sv3 = sv2\<lparr>sv_sessions := s\<rparr>"
      using login True assms(15,18) by (simp_all add: answer_session_def setSessionCookie_def)
    have "sqlite_expiry s = (sqlite_expiry (sv_sessions sv2))(tokenDigest token \<mapsto> en_now env2 + sc_sessionTTL cfg)"
      using sqlite.create_makes [OF assms(11,17,15)] by simp
    then show ?thesis using True e assms(16) by (simp add: session_credential_def live_at_def writeJSON_def)
  next
    case False
    then show ?thesis using login assms(18) by (simp add: Let_def)
  qed
qed

definition demo_cfg :: server_config where
  "demo_cfg =
     \<lparr>sc_hasher = NewArgon2idHasher \<lparr>ap_Memory = 0, ap_Time = 1, ap_Parallelism = 0, ap_SaltLength = 2, ap_KeyLength = 2\<rparr>,
      sc_cookieName = ''session'', sc_sessionTTL = 10, sc_secureCookie = False\<rparr>"

definition password_request :: "string \<Rightarrow> string \<Rightarrow> request" where
  "password_request path password = demo_request path None (Marshal (encode_struct password_fields password))"

definition demo_server :: server where
  "demo_server = snd (handleSetup length_key demo_cfg demo_env (password_request ''/api/setup'' ''abc'') \<lparr>sv_users = no_users, sv_sessions = cached_sessions\<rparr>)"

lemma demo_bodies:
  "decodeJSON password_fields [] (Marshal (encode_struct password_fields ''abc'')) = Some ''abc''"
  "decodeJSON password_fields [] (Marshal (encode_struct password_fields ''xyz'')) = Some ''xyz''"
  by code_simp+

lemma demo_create: "sqlite_Create 5 10 (Inr [1, 2, 3]) s0 = (Inr (RawURLEncode [1, 2, 3]), snd (sqlite_Create 5 10 (Inr [1, 2, 3]) s0))" if "ss_db s0 = None"
  using that by (simp add: sqlite_Create_def then_do_def Let_def insert_row_def)

lemma demo_setup:
  "\<exists>resp. handleSetup length_key demo_cfg demo_env (password_request ''/api/setup'' ''abc'') \<lparr>sv_users = no_users, sv_sessions = cached_sessions\<rparr> = (resp, demo_server) \<and>
     rs_Status resp = 201 \<and> db_faults (sv_users demo_server) = [] \<and> sv_sessions demo_server = snd (sqlite_Create 5 10 (Inr [1, 2, 3]) cached_sessions)"
proof -
  let ?sv = "\<lparr>sv_users = no_users, sv_sessions = cached_sessions\<rparr>"
  obtain h where h: "Hash length_key (sc_hasher demo_cfg) (Inr [7, 8]) (bytes_of ''abc'') = Inr h" by (simp add: Hash_def Let_def)
  have db: "ss_db cached_sessions = None" by (simp add: cached_sessions_def cache_session_def NewSQLiteSessionStore_def)
  let ?u = "no_users\<lparr>db_tables := \<lparr>ut_admin = Some \<lparr>ar_password_hash = h, ar_created_at = format_RFC3339Nano 5\<rparr>, ut_keys = empty_table\<rparr>\<rparr>"
  have i: "on_users sqlite_IsSetup ?sv = (Inr False, ?sv)"
    by (simp add: on_users_def sqlite_IsSetup_def then_do_def wrap_err_def no_users_def)
  have c: "on_users (sqlite_CreateAdmin 5 h) ?sv = (Inr (), ?sv\<lparr>sv_users := ?u\<rparr>)"
    by (simp add: on_users_def sqlite_CreateAdmin_def then_do_def wrap_err_def no_users_def sql_run_no_fault insert_admin_def)
  let ?sv1 = "?sv\<lparr>sv_users := ?u\<rparr>"
  have a: "answer_session demo_cfg demo_env 201 ?sv1 =
    ((writeJSON 201 (Flags [(''ok'', True)]))\<lparr>rs_Cookies := [sessionCookie demo_cfg 5 (RawURLEncode [1, 2, 3])]\<rparr>,
     ?sv1\<lparr>sv_sessions := snd (sqlite_Create 5 10 (Inr [1, 2, 3]) cached_sessions)\<rparr>)"
  proof -
    obtain s1 where "sqlite_Create 5 10 (Inr [1, 2, 3]) cached_sessions = (Inr (RawURLEncode [1, 2, 3]), s1)" using demo_create [OF db] by blast
    then show ?thesis by (simp add: answer_session_def setSessionCookie_def demo_env_def demo_cfg_def)
  qed
  have e: "handleSetup length_key demo_cfg demo_env (password_request ''/api/setup'' ''abc'') ?sv = answer_session demo_cfg demo_env 201 ?sv1"
    using demo_bodies(1) i c h by (simp add: handleSetup_def password_request_def demo_request_def setup_create_def demo_env_def)
  then show ?thesis unfolding a by (simp add: demo_server_def writeJSON_def no_users_def)
qed

lemma demo_keys: "length_key (bytes_of ''xyz'') = length_key (bytes_of ''abc'')"
  by (intro ext) (simp add: length_key_def bytes_of_def)

theorem login_accepts_setup_password_witness:
  "rs_Status (fst (handleLogin length_key demo_cfg demo_env (password_request ''/api/login'' ''xyz'') demo_server)) = 200"
proof -
  let ?p = "\<lparr>ap_Memory = 0, ap_Time = 1, ap_Parallelism = 0, ap_SaltLength = 2, ap_KeyLength = 2\<rparr>"
  let ?r = "password_request ''/api/setup'' ''abc''" and ?r2 = "password_request ''/api/login'' ''xyz''"
  obtain resp where s: "handleSetup length_key demo_cfg demo_env ?r \<lparr>sv_users = no_users, sv_sessions = cached_sessions\<rparr> = (resp, demo_server)" "rs_Status resp = 201"
    and f: "db_faults (sv_users demo_server) = []" and ss: "sv_sessions demo_server = snd (sqlite_Create 5 10 (Inr [1, 2, 3]) cached_sessions)"
    using demo_setup by (elim exE conjE) (rule that)
  have b: "decodeJSON password_fields [] (rq_Body ?r) = Some ''abc''" "decodeJSON password_fields [] (rq_Body ?r2) = Some ''xyz''" "rq_Method ?r2 = ''POST''"
    by (simp_all only: password_request_def demo_request_def request.select_convs demo_bodies)
  have p: "sc_hasher demo_cfg = NewArgon2idHasher ?p" "params_range ?p" "length_ok length_key"
    by (simp_all add: demo_cfg_def params_range_def length_ok_def length_key_def)
  have salt: "en_salt demo_env = Inr [7, 8]" "length [7, 8 :: byte] = ap_SaltLength (sc_hasher demo_cfg)"
    by (simp_all add: demo_env_def demo_cfg_def NewArgon2idHasher_def Let_def)
  have db: "ss_db cached_sessions = None" by (simp add: cached_sessions_def cache_session_def NewSQLiteSessionStore_def)
  have ok: "sqlite_ok (sv_sessions demo_server)" unfolding ss
    using sqlite.create_makes [OF cached_ok(1) _ demo_create [OF db]] small_in_range by simp
  have db2: "ss_db (sv_sessions demo_server) = None" using db unfolding ss by (simp add: has_db)
  have c: "sqlite_Create (en_now demo_env) (sc_sessionTTL demo_cfg) (en_token demo_env) (sv_sessions demo_server) =
      (Inr (RawURLEncode [1, 2, 3]), snd (sqlite_Create 5 10 (Inr [1, 2, 3]) (sv_sessions demo_server)))"
    using demo_create [OF db2] by (simp add: demo_env_def demo_cfg_def)
  have t: "RawURLEncode [1, 2, 3] \<noteq> []" by simp
  have i: "in_range (en_now demo_env + sc_sessionTTL demo_cfg)" using small_in_range by (simp add: demo_env_def demo_cfg_def)
  obtain resp2 sv3 where l: "handleLogin length_key demo_cfg demo_env ?r2 demo_server = (resp2, sv3)" by fastforce
  have o: "''xyz'' \<noteq> []" by simp
  from login_accepts_setup_password [OF s b(1) p salt refl f ok b(3,2) o c t i l]
  have "rs_Status resp2 = 200" unfolding Let_def demo_keys by simp
  with l show ?thesis by simp
qed

section \<open>Logouts\<close>

lemma logout_ends_session:
  assumes "sqlite_ok (sv_sessions sv)" and "rq_Method r = ''POST''" and "rq_Cookie r = Some token" and "handleLogout cfg r sv = (resp, sv')"
    and "rq_Cookie r' = Some token"
  shows "\<not> session_credential r' now sv'"
  using assms sqlite.delete_forgets [OF assms(1), of "()" token]
  by (auto simp: handleLogout_def session_credential_def live_at_def)

section \<open>API keys\<close>

abbreviation user_steps :: "users_tables db \<Rightarrow> int option list \<Rightarrow> users_tables db \<Rightarrow> bool" where
  "user_steps \<equiv> key_steps sqlite_CreateAPIKey sqlite_FindValidAPIKeyByHash sqlite_MarkAPIKeyUsed sqlite_RevokeAPIKey (\<lambda>d order. True)"

lemma generated_key: "generateAPIKey random = Inr rawKey \<Longrightarrow> rawKey \<noteq> []"
  by (cases random) (auto simp: generateAPIKey_def apiKeySecretPrefix_def)

lemma byAPIKey_found:
  assumes "apiKeyFromRequest r = rawKey" and "rawKey \<noteq> []"
  shows "fst (authenticatedByAPIKey env r sv) \<longleftrightarrow> is_ok (fst (sqlite_FindValidAPIKeyByHash () (hashAPIKey rawKey) (sv_users sv)))"
  using assms by (auto simp: authenticatedByAPIKey_def on_users_def Let_def split: prod.splits sum.splits)

text \<open>
  C40: The life of an API key. A request with a key that \<open>handleCreateAPIKey\<close> returned is authenticated whatever else happens to the keys, as long
  as it is not revoked and the database answers; once a revocation has succeeded no request with it is ever authenticated again,
  whatever keys are created, used or revoked afterwards and whatever fails: no later key can take its hash.
\<close>

theorem api_key_lifecycle:
  assumes "table_keys_ok (keys_of (sv_users sv))" and "in_range (en_now env)" and "handleCreateAPIKey env r sv = (resp, sv1)"
    and "rs_Body resp = CreatedKey key rawKey" and "user_steps (sv_users sv1) ls d2" and "apiKeyFromRequest r2 = rawKey"
  shows "(db_faults d2 = [] \<and> Some (ak_ID key) \<notin> set ls \<longrightarrow> fst (authenticatedByAPIKey env2 r2 (sv1\<lparr>sv_users := d2\<rparr>))) \<and>
    (\<forall>now d3 ls' d4. in_range now \<and> sqlite_RevokeAPIKey (ak_ID key) now d2 = (Inr (), d3) \<and> user_steps d3 ls' d4 \<longrightarrow>
      \<not> fst (authenticatedByAPIKey env2 r2 (sv1\<lparr>sv_users := d4\<rparr>)))"
proof -
  obtain name where c: "sqlite_CreateAPIKey () name (hashAPIKey rawKey) (apiKeyPrefix rawKey) (apiKeyLast4 rawKey) (en_now env) (sv_users sv) = (Inr key, sv_users sv1)"
    and raw: "rawKey \<noteq> []"
    using assms(3,4) generated_key
    by (auto simp: handleCreateAPIKey_def on_users_def writeError_def writeJSON_def Let_def split: option.splits sum.splits prod.splits if_splits)
  note auth = byAPIKey_found [OF assms(6) raw]
  have part1: "db_faults d2 = [] \<and> Some (ak_ID key) \<notin> set ls \<longrightarrow> fst (authenticatedByAPIKey env2 r2 (sv1\<lparr>sv_users := d2\<rparr>))"
    using sqlite_keys.created_found [OF assms(1) _ assms(2) c assms(5), of "()"] unfolding auth by auto
  have 1: "table_keys_ok (keys_of (sv_users sv1))" "as_map (table_holds (keys_of (sv_users sv1))) (hashAPIKey rawKey) = Some (ak_ID key)"
    using sqlite_keys.create_law [OF assms(1) _ assms(2) c] by auto
  have 2: "table_keys_ok (keys_of d2)" "as_map (table_holds (keys_of d2)) (hashAPIKey rawKey) = Some (ak_ID key)"
    using sqlite_keys.steps_law [OF assms(5) 1] by simp_all
  have part2: "\<forall>now d3 ls' d4. in_range now \<and> sqlite_RevokeAPIKey (ak_ID key) now d2 = (Inr (), d3) \<and> user_steps d3 ls' d4 \<longrightarrow>
      \<not> fst (authenticatedByAPIKey env2 r2 (sv1\<lparr>sv_users := d4\<rparr>))"
    using sqlite_keys.revoked_refused [OF 2] unfolding auth by auto
  show ?thesis by (rule conjI [OF part1 part2])
qed

text \<open>The key that is made of one byte.\<close>

definition demo_key :: string where
  "demo_key = ''ch_'' @ RawURLEncode [1]"

definition create_request :: request where
  "create_request = demo_request ''/api/api-keys'' None (Marshal (encode_struct create_fields ''phone''))"

definition bearer_request :: request where
  "bearer_request = (demo_request ''/api/config'' None [])\<lparr>rq_Authorization := ''bearer '' @ demo_key\<rparr>"

definition keyed_server :: server where
  "keyed_server = snd (handleCreateAPIKey demo_env create_request \<lparr>sv_users = no_users, sv_sessions = cached_sessions\<rparr>)"

lemma demo_created:
  "\<exists>resp key. handleCreateAPIKey demo_env create_request \<lparr>sv_users = no_users, sv_sessions = cached_sessions\<rparr> = (resp, keyed_server) \<and>
     rs_Body resp = CreatedKey key demo_key \<and> db_faults (sv_users keyed_server) = []"
proof -
  have b: "decodeJSON create_fields [] (Marshal (encode_struct create_fields ''phone'')) = Some ''phone''" by code_simp
  have n: "TrimSpace ''phone'' = ''phone''" by code_simp
  show ?thesis
    using b n
    by (simp add: keyed_server_def handleCreateAPIKey_def create_request_def demo_request_def generateAPIKey_def demo_env_def Let_def on_users_def
        sqlite_CreateAPIKey_def then_do_def wrap_err_def no_users_def sql_run_no_fault insert_key_def empty_table_def tbl_insert_def
        apiKeySecretPrefix_def writeJSON_def demo_key_def)
qed

theorem api_key_lifecycle_witness: "fst (authenticatedByAPIKey demo_env bearer_request keyed_server)"
proof -
  let ?sv = "\<lparr>sv_users = no_users, sv_sessions = cached_sessions\<rparr>"
  obtain resp key where c: "handleCreateAPIKey demo_env create_request ?sv = (resp, keyed_server)" "rs_Body resp = CreatedKey key demo_key"
    and f: "db_faults (sv_users keyed_server) = []" using demo_created by blast
  have ok: "table_keys_ok (keys_of (sv_users ?sv))" using no_users_ok by simp
  have i: "in_range (en_now demo_env)" using small_in_range by (simp add: demo_env_def)
  have "apiKeyFromRequest bearer_request = demo_key" by code_simp
  from api_key_lifecycle [OF ok i c key_steps.no_step this, of demo_env] f show ?thesis by simp
qed

end
