(* ===== verification/Config_Update.thy ===== *)
theory Config_Update
  imports App_Properties
begin

text \<open>
  \<open>internal/admin/api.go\<close>: the changes of the configuration that the administration accepts. A request has a pointer for each setting, here an
  option; \<open>applyConfigUpdate\<close> overwrites what the request has. \<open>configStoreManager.Update\<close> loads the stored configuration, validates the
  changed one, reloads CoreDNS, saves, applies the blocking response and the level of the log. Whether an empty slice is nil matters to
  \<open>reflect.DeepEqual\<close>: a configuration goes with a \<open>nil_slices\<close> that says it.
\<close>

section \<open>Requests\<close>

record storage_update =
  su_MainReadConnections :: "int option"
  su_AuditReadConnections :: "int option"
  su_SessionReadConnections :: "int option"

record dnssec_update =
  du_Enabled :: "bool option"
  du_Mode :: "string option"

record resolver_update =
  vu_Name :: string
  vu_Address :: string
  vu_Protocol :: string
  vu_TLSServerName :: string
  vu_Enabled :: "bool option"

record conditional_update =
  cu_Enabled :: "bool option"
  cu_Domain :: "string option"
  cu_Resolver :: "string option"
  cu_Protocol :: "string option"
  cu_TLSServerName :: "string option"

record dns_update =
  dn_Listen :: "string option"
  dn_Resolvers :: "resolver_update list option"
  dn_CacheTTL :: "int option"
  dn_CacheSuccessTTL :: "int option"
  dn_CacheDenialTTL :: "int option"
  dn_CacheSuccessCapacity :: "int option"
  dn_CacheDenialCapacity :: "int option"
  dn_CachePrefetchAmount :: "int option"
  dn_CachePrefetchDuration :: "int option"
  dn_CachePrefetchPercent :: "int option"
  dn_Rewrites :: "rewrite_rule list option"
  dn_DNSSEC :: "dnssec_update option"
  dn_ConditionalForwarding :: "conditional_update option"

record blocking_update =
  bu_Response :: "string option"
  bu_Bundled :: "bool option"
  bu_Blocklists :: "string list option"

record logging_update =
  lu_Level :: "string option"
  lu_Format :: "string option"

record config_update =
  up_Storage :: "storage_update option"
  up_DNS :: "dns_update option"
  up_AdminListen :: "string option option"
  up_Blocking :: "blocking_update option"
  up_Logging :: "logging_update option"

text \<open>\<open>if p != nil { field = *p }\<close>\<close>

definition override :: "'a option \<Rightarrow> 'a \<Rightarrow> 'a" where
  "override p old = (case p of None \<Rightarrow> old | Some v \<Rightarrow> v)"

lemma override_simps [simp]: "override None old = old" "override (Some v) old = v"
  by (simp_all add: override_def)

section \<open>Applying a request\<close>

definition loggingUpdateToConfig :: "logging_config \<Rightarrow> logging_update \<Rightarrow> logging_config" where
  "loggingUpdateToConfig current update =
     \<lparr>lc_Level = override (map_option lower_trim (lu_Level update)) (lc_Level current),
      lc_Format = override (map_option lower_trim (lu_Format update)) (lc_Format current)\<rparr>"

definition dnssecUpdateToConfig :: "dnssec_config \<Rightarrow> dnssec_update \<Rightarrow> dnssec_config" where
  "dnssecUpdateToConfig current update =
     (let current = current\<lparr>ds_Enabled := override (du_Enabled update) (ds_Enabled current)\<rparr>;
          current = (case du_Mode update of
              None \<Rightarrow> current
            | Some raw \<Rightarrow>
                let mode = lower_trim raw; current = current\<lparr>ds_Mode := mode\<rparr> in
                if du_Enabled update \<noteq> None then current
                else if mode = DNSSECModeUpstream then current\<lparr>ds_Enabled := True\<rparr>
                else if mode = DNSSECModeOff then current\<lparr>ds_Enabled := False\<rparr>
                else current)
      in case du_Enabled update of
           Some enabled \<Rightarrow>
             if du_Mode update = None then current\<lparr>ds_Mode := (if enabled then DNSSECModeUpstream else DNSSECModeOff)\<rparr> else current
         | None \<Rightarrow> current)"

definition conditionalForwardingUpdateToConfig :: "conditional_forwarding \<Rightarrow> conditional_update \<Rightarrow> conditional_forwarding" where
  "conditionalForwardingUpdateToConfig current update =
     (let current = \<lparr>cf_Enabled = override (cu_Enabled update) (cf_Enabled current),
                     cf_Domain = override (cu_Domain update) (cf_Domain current),
                     cf_Resolver = override (cu_Resolver update) (cf_Resolver current),
                     cf_Protocol = override (cu_Protocol update) (cf_Protocol current),
                     cf_TLSServerName = override (cu_TLSServerName update) (cf_TLSServerName current)\<rparr>
      in if \<not> cf_Enabled current
         then current\<lparr>cf_Domain := [], cf_Resolver := [], cf_Protocol := [], cf_TLSServerName := []\<rparr>
         else current)"

definition resolverUpdatesToConfig :: "resolver_update list \<Rightarrow> resolver list" where
  "resolverUpdatesToConfig updates =
     map (\<lambda>u. \<lparr>rs_Name = vu_Name u, rs_Address = vu_Address u, rs_Protocol = vu_Protocol u, rs_TLSServerName = vu_TLSServerName u,
               rs_Enabled = override (vu_Enabled u) True\<rparr>) updates"

definition apply_storage :: "storage_update \<Rightarrow> storage_config \<Rightarrow> storage_config" where
  "apply_storage u s =
     s\<lparr>sc_MainReadConnections := override (su_MainReadConnections u) (sc_MainReadConnections s),
       sc_AuditReadConnections := override (su_AuditReadConnections u) (sc_AuditReadConnections s),
       sc_SessionReadConnections := override (su_SessionReadConnections u) (sc_SessionReadConnections s)\<rparr>"

text \<open>\<open>cache_ttl\<close> sets the two other times as well, before they are overwritten by their own fields.\<close>

definition apply_dns :: "dns_update \<Rightarrow> dns_config \<Rightarrow> dns_config" where
  "apply_dns u d =
     (let d = d\<lparr>dc_Listen := override (dn_Listen u) (dc_Listen d),
                dc_Resolvers := override (map_option resolverUpdatesToConfig (dn_Resolvers u)) (dc_Resolvers d)\<rparr>;
          d = (case dn_CacheTTL u of None \<Rightarrow> d | Some ttl \<Rightarrow> d\<lparr>dc_CacheTTL := ttl, dc_CacheSuccessTTL := ttl, dc_CacheDenialTTL := ttl\<rparr>)
      in d\<lparr>dc_CacheSuccessTTL := override (dn_CacheSuccessTTL u) (dc_CacheSuccessTTL d),
           dc_CacheDenialTTL := override (dn_CacheDenialTTL u) (dc_CacheDenialTTL d),
           dc_CacheSuccessCapacity := override (dn_CacheSuccessCapacity u) (dc_CacheSuccessCapacity d),
           dc_CacheDenialCapacity := override (dn_CacheDenialCapacity u) (dc_CacheDenialCapacity d),
           dc_CachePrefetchAmount := override (dn_CachePrefetchAmount u) (dc_CachePrefetchAmount d),
           dc_CachePrefetchDuration := override (dn_CachePrefetchDuration u) (dc_CachePrefetchDuration d),
           dc_CachePrefetchPercent := override (dn_CachePrefetchPercent u) (dc_CachePrefetchPercent d),
           dc_Rewrites := override (dn_Rewrites u) (dc_Rewrites d),
           dc_DNSSEC := (case dn_DNSSEC u of None \<Rightarrow> dc_DNSSEC d | Some x \<Rightarrow> dnssecUpdateToConfig (dc_DNSSEC d) x),
           dc_ConditionalForwarding :=
             (case dn_ConditionalForwarding u of
                None \<Rightarrow> dc_ConditionalForwarding d
              | Some x \<Rightarrow> conditionalForwardingUpdateToConfig (dc_ConditionalForwarding d) x)\<rparr>)"

definition apply_blocking :: "blocking_update \<Rightarrow> blocking_config \<Rightarrow> blocking_config" where
  "apply_blocking u b =
     b\<lparr>bc_Response := override (bu_Response u) (bc_Response b),
       bc_Bundled := override (bu_Bundled u) (bc_Bundled b),
       bc_Blocklists := override (bu_Blocklists u) (bc_Blocklists b)\<rparr>"

definition applyConfigUpdate :: "config \<Rightarrow> config_update \<Rightarrow> config" where
  "applyConfigUpdate cfg req =
     \<lparr>cfg_DNS = (case up_DNS req of None \<Rightarrow> cfg_DNS cfg | Some u \<Rightarrow> apply_dns u (cfg_DNS cfg)),
      cfg_AdminListen = (case up_AdminListen req of None \<Rightarrow> cfg_AdminListen cfg | Some listen \<Rightarrow> override listen (cfg_AdminListen cfg)),
      cfg_Storage = (case up_Storage req of None \<Rightarrow> cfg_Storage cfg | Some u \<Rightarrow> apply_storage u (cfg_Storage cfg)),
      cfg_Blocking = (case up_Blocking req of None \<Rightarrow> cfg_Blocking cfg | Some u \<Rightarrow> apply_blocking u (cfg_Blocking cfg)),
      cfg_Logging = (case up_Logging req of None \<Rightarrow> cfg_Logging cfg | Some u \<Rightarrow> loggingUpdateToConfig (cfg_Logging cfg) u)\<rparr>"

text \<open>The slices of a request are copied, and a copy is not nil.\<close>

definition next_nils :: "nil_slices \<Rightarrow> config_update \<Rightarrow> nil_slices" where
  "next_nils nils req =
     \<lparr>nil_Resolvers = nil_Resolvers nils \<and> Option.bind (up_DNS req) dn_Resolvers = None,
      nil_Rewrites = nil_Rewrites nils \<and> Option.bind (up_DNS req) dn_Rewrites = None,
      nil_Blocklists = nil_Blocklists nils \<and> Option.bind (up_Blocking req) bu_Blocklists = None\<rparr>"

section \<open>Updating\<close>

definition deep_equal_slice :: "bool \<Rightarrow> 'a list \<Rightarrow> bool \<Rightarrow> 'a list \<Rightarrow> bool" where
  "deep_equal_slice nil1 xs nil2 ys \<longleftrightarrow> xs = ys \<and> (xs = [] \<longrightarrow> nil1 = nil2)"

definition deep_equal_dns :: "nil_slices \<Rightarrow> dns_config \<Rightarrow> nil_slices \<Rightarrow> dns_config \<Rightarrow> bool" where
  "deep_equal_dns n1 d1 n2 d2 \<longleftrightarrow>
     d1 = d2 \<and> deep_equal_slice (nil_Resolvers n1) (dc_Resolvers d1) (nil_Resolvers n2) (dc_Resolvers d2) \<and>
     deep_equal_slice (nil_Rewrites n1) (dc_Rewrites d1) (nil_Rewrites n2) (dc_Rewrites d2)"

definition coreDNSLoggingChanged :: "logging_config \<Rightarrow> logging_config \<Rightarrow> bool" where
  "coreDNSLoggingChanged current next =
     (let currentLevel = EffectiveLevel current; nextLevel = EffectiveLevel next in
      if currentLevel \<noteq> nextLevel then True
      else currentLevel = LoggingLevelDebug \<and> EffectiveFormat current \<noteq> EffectiveFormat next)"

definition shouldReloadDNSImmediately :: "nil_slices \<Rightarrow> config \<Rightarrow> nil_slices \<Rightarrow> config \<Rightarrow> bool \<Rightarrow> bool" where
  "shouldReloadDNSImmediately n1 current n2 next has_reloader \<longleftrightarrow>
     has_reloader \<and> dc_Listen (cfg_DNS current) = dc_Listen (cfg_DNS next) \<and>
     (\<not> deep_equal_dns n1 (cfg_DNS current) n2 (cfg_DNS next) \<or> coreDNSLoggingChanged (cfg_Logging current) (cfg_Logging next))"

definition restartRequired :: "nil_slices \<Rightarrow> config \<Rightarrow> nil_slices \<Rightarrow> config \<Rightarrow> bool \<Rightarrow> bool" where
  "restartRequired n1 current n2 next dnsReloaded =
     (let dnsRestartRequired = (\<not> deep_equal_dns n1 (cfg_DNS current) n2 (cfg_DNS next) \<and> \<not> dnsReloaded);
          corednsLoggingRestartRequired = (coreDNSLoggingChanged (cfg_Logging current) (cfg_Logging next) \<and> \<not> dnsReloaded)
      in dnsRestartRequired \<or> cfg_Storage current \<noteq> cfg_Storage next \<or> corednsLoggingRestartRequired \<or>
         cfg_AdminListen current \<noteq> cfg_AdminListen next \<or>
         \<not> deep_equal_slice (nil_Blocklists n1) (bc_Blocklists (cfg_Blocking current)) (nil_Blocklists n2) (bc_Blocklists (cfg_Blocking next)))"

record config_snapshot =
  cs_Storage :: storage_config
  cs_DNSListen :: string
  cs_AdminListen :: string
  cs_Upstreams :: "resolver list"
  cs_CacheTTL :: int
  cs_CacheSuccessTTL :: int
  cs_CacheDenialTTL :: int
  cs_CacheSuccessCapacity :: int
  cs_CacheDenialCapacity :: int
  cs_CachePrefetchAmount :: int
  cs_CachePrefetchDuration :: int
  cs_CachePrefetchPercent :: int
  cs_Rewrites :: "rewrite_rule list"
  cs_DNSSEC :: dnssec_config
  cs_ConditionalForwarding :: conditional_forwarding
  cs_BlockingResponse :: string
  cs_BlockingBundled :: bool
  cs_BlockingPaused :: bool
  cs_BlockingPauseUntil :: string
  cs_Logging :: logging_config
  cs_Blocklists :: "string list"
  cs_StoragePath :: string
  cs_AuditStoragePath :: string

definition loggingSnapshotFromConfig :: "logging_config \<Rightarrow> logging_config" where
  "loggingSnapshotFromConfig l = \<lparr>lc_Level = EffectiveLevel l, lc_Format = EffectiveFormat l\<rparr>"

text \<open>The types of the upstreams, the conditional forwarding and the two others have the fields of the configuration's.\<close>

definition snapshotFromConfig :: "config \<Rightarrow> config_snapshot" where
  "snapshotFromConfig cfg =
     (let d = cfg_DNS cfg; b = cfg_Blocking cfg in
      \<lparr>cs_Storage = cfg_Storage cfg, cs_DNSListen = dc_Listen d, cs_AdminListen = cfg_AdminListen cfg, cs_Upstreams = dc_Resolvers d,
       cs_CacheTTL = dc_CacheTTL d, cs_CacheSuccessTTL = EffectiveCacheSuccessTTL d, cs_CacheDenialTTL = EffectiveCacheDenialTTL d,
       cs_CacheSuccessCapacity = dc_CacheSuccessCapacity d, cs_CacheDenialCapacity = dc_CacheDenialCapacity d,
       cs_CachePrefetchAmount = dc_CachePrefetchAmount d, cs_CachePrefetchDuration = dc_CachePrefetchDuration d,
       cs_CachePrefetchPercent = dc_CachePrefetchPercent d, cs_Rewrites = dc_Rewrites d,
       cs_DNSSEC = \<lparr>ds_Enabled = ds_Enabled (dc_DNSSEC d), ds_Mode = dnssec_EffectiveMode (dc_DNSSEC d)\<rparr>,
       cs_ConditionalForwarding = dc_ConditionalForwarding d, cs_BlockingResponse = bc_Response b, cs_BlockingBundled = bc_Bundled b,
       cs_BlockingPaused = bc_Paused b, cs_BlockingPauseUntil = bc_PauseUntil b, cs_Logging = loggingSnapshotFromConfig (cfg_Logging cfg),
       cs_Blocklists = bc_Blocklists b, cs_StoragePath = sc_Path (cfg_Storage cfg), cs_AuditStoragePath = sc_AuditPath (cfg_Storage cfg)\<rparr>)"

definition store_Snapshot :: "('s, config) step \<Rightarrow> ('s, config_snapshot) step" where
  "store_Snapshot Load = then_do Load (\<lambda>cfg. ret (snapshotFromConfig cfg))"

definition errInvalidConfigUpdate :: go_error where
  "errInvalidConfigUpdate = ErrorString ''invalid config update''"

text \<open>
  The world of an update: the store, the CoreDNS server behind the reloader, the runtime of the plugin, and the level and format the
  process logs with.
\<close>

record ('s, 'sv, 'pw) admin_world =
  aw_store :: 's
  aw_server :: "'sv option"
  aw_plugin :: 'pw
  aw_log :: "string \<times> string"

text \<open>The manager with its store, and whether it has a reloader and a runtime.\<close>

record ('s, 'sv) config_manager =
  cm_load :: "('s, config) step"
  cm_save :: "nil_slices \<Rightarrow> config \<Rightarrow> ('s, unit) step"
  cm_reload :: "(config \<Rightarrow> 'sv \<Rightarrow> unit result \<times> 'sv) option"
  cm_runtime :: bool

definition log_configured :: "config \<Rightarrow> config \<Rightarrow> string \<times> string \<Rightarrow> string \<times> string" where
  "log_configured current next l =
     (if lc_Level (cfg_Logging current) \<noteq> lc_Level (cfg_Logging next) \<or> lc_Format (cfg_Logging current) \<noteq> lc_Format (cfg_Logging next)
      then (EffectiveLevel (cfg_Logging next), EffectiveFormat (cfg_Logging next)) else l)"

type_synonym ('s, 'sv, 'st, 'r, 'w) app_world = "('s, 'sv, ('st, 'r, 'w) plugin_world) admin_world"

text \<open>The reload of CoreDNS, when it is due; the result says whether it was.\<close>

definition update_reload ::
  "('s, 'sv) config_manager \<Rightarrow> bool \<Rightarrow> config \<Rightarrow> (('s, 'sv, 'st, 'r, 'w) app_world, bool) step" where
  "update_reload cm due next w =
     (case cm_reload cm of
        None \<Rightarrow> (Inr False, w)
      | Some reload \<Rightarrow>
          if \<not> due then (Inr False, w)
          else (case ReloadDNS reload next (aw_server w) (aw_plugin w) of
              (Inl err, sv, pw) \<Rightarrow> (Inl err, w\<lparr>aw_server := sv, aw_plugin := pw\<rparr>)
            | (Inr _, sv, pw) \<Rightarrow> (Inr True, w\<lparr>aw_server := sv, aw_plugin := pw\<rparr>)))"

definition update_runtime :: "('s, 'sv) config_manager \<Rightarrow> config \<Rightarrow> (('s, 'sv, 'st, 'r, 'w) app_world, unit) step" where
  "update_runtime cm next w =
     (if \<not> cm_runtime cm then (Inr (), w)
      else (case ApplyRuntimeConfig next (aw_plugin w) of (r, pw) \<Rightarrow> (r, w\<lparr>aw_plugin := pw\<rparr>)))"

definition on_store :: "('s, 'a) step \<Rightarrow> (('s, 'sv, 'pw) admin_world, 'a) step" where
  "on_store m w = (case m (aw_store w) of (r, s) \<Rightarrow> (r, w\<lparr>aw_store := s\<rparr>))"

definition on_log :: "(string \<times> string \<Rightarrow> string \<times> string) \<Rightarrow> (('s, 'sv, 'pw) admin_world, unit) step" where
  "on_log f w = (Inr (), w\<lparr>aw_log := f (aw_log w)\<rparr>)"

definition manager_Update ::
  "config_lib \<Rightarrow> ('s, 'sv) config_manager \<Rightarrow> nil_slices \<Rightarrow> config_update
     \<Rightarrow> (('s, 'sv, 'st, 'r, 'w) app_world, config_snapshot \<times> bool) step" where
  "manager_Update lib cm nils req =
     then_do (on_store (cm_load cm)) (\<lambda>current.
       let next = applyConfigUpdate current req; nils' = next_nils nils req;
           due = shouldReloadDNSImmediately nils current nils' next (cm_reload cm \<noteq> None) in
       case Validate lib next of
         Inl _ \<Rightarrow> fail errInvalidConfigUpdate
       | Inr _ \<Rightarrow>
           then_do (update_reload cm due next) (\<lambda>dnsReloaded.
           then_do (on_store (cm_save cm nils' next)) (\<lambda>_.
           then_do (update_runtime cm next) (\<lambda>_.
           then_do (on_log (log_configured current next)) (\<lambda>_.
             ret (snapshotFromConfig next, restartRequired nils current nils' next dnsReloaded))))))"

end
