(* ===== verification/Config_Update_Properties.thy ===== *)
theory Config_Update_Properties
  imports Config_Update
begin

text \<open>
  What an update of the configuration guarantees: what is stored is valid and is what the request asks for; when no restart is asked for, the
  running process already does what is stored; and an update that fails leaves the stored configuration as it was.
\<close>

section \<open>Numbers\<close>

definition ints_option :: "int option list \<Rightarrow> bool" where
  "ints_option ps \<longleftrightarrow> list_all (\<lambda>p. case p of None \<Rightarrow> True | Some i \<Rightarrow> int64_range i) ps"

text \<open>The numbers of a request are those of its \<open>int\<close> pointers.\<close>

definition update_ints :: "config_update \<Rightarrow> bool" where
  "update_ints req \<longleftrightarrow>
     (case up_Storage req of
        None \<Rightarrow> True
      | Some u \<Rightarrow> ints_option [su_MainReadConnections u, su_AuditReadConnections u, su_SessionReadConnections u]) \<and>
     (case up_DNS req of
        None \<Rightarrow> True
      | Some u \<Rightarrow> ints_option [dn_CacheTTL u, dn_CacheSuccessTTL u, dn_CacheDenialTTL u, dn_CacheSuccessCapacity u, dn_CacheDenialCapacity u,
          dn_CachePrefetchAmount u, dn_CachePrefetchDuration u, dn_CachePrefetchPercent u])"

lemma override_range:
  "int64_range old \<Longrightarrow> (case p of None \<Rightarrow> True | Some i \<Rightarrow> int64_range i) \<Longrightarrow> int64_range (override p old)"
  by (cases p) simp_all

lemma apply_dns_ints:
  assumes "dns_ints_ok d" and "ints_option [dn_CacheTTL u, dn_CacheSuccessTTL u, dn_CacheDenialTTL u, dn_CacheSuccessCapacity u, dn_CacheDenialCapacity u,
          dn_CachePrefetchAmount u, dn_CachePrefetchDuration u, dn_CachePrefetchPercent u]"
  shows "dns_ints_ok (apply_dns u d)"
  using assms by (cases "dn_CacheTTL u") (simp_all add: apply_dns_def dns_ints_ok_def ints_option_def Let_def override_range)

lemma applied_ints:
  assumes "ints_ok c" and "update_ints req"
  shows "ints_ok (applyConfigUpdate c req)"
  using assms apply_dns_ints
  by (auto simp: ints_ok_parts applyConfigUpdate_def update_ints_def apply_storage_def storage_ints_ok_def ints_option_def override_range
      split: option.splits)

section \<open>The steps of an update\<close>

lemma Corefile_unchanged:
  assumes "cfg_DNS c = cfg_DNS c'" and "\<not> coreDNSLoggingChanged (cfg_Logging c) (cfg_Logging c')"
  shows "Corefile c' = Corefile c"
  using assms by (auto simp: Corefile_def coreDNSLoggingChanged_def Let_def)

definition sqlite_manager ::
  "config_lib \<Rightarrow> string \<Rightarrow> ('i \<Rightarrow> caddyfile \<Rightarrow> 'i result) \<Rightarrow> bool \<Rightarrow> (config_db, 'i dns_server) config_manager" where
  "sqlite_manager lib now restart cancelled =
     \<lparr>cm_load = store_Load lib True, cm_save = (\<lambda>nils. store_Save lib nils True now),
      cm_reload = Some (\<lambda>cfg s. case server_Reload restart cancelled cfg (Some s) of (r, s') \<Rightarrow> (r, the s')), cm_runtime = True\<rparr>"

text \<open>
  What runs: a CoreDNS instance, whose configuration \<open>serves\<close> tells, the cells of the plugin that the configuration sets, and the log.
\<close>

definition dns_in_force :: "('i \<Rightarrow> string) \<Rightarrow> config \<Rightarrow> (config_db, 'i dns_server, 'st, 'r, 'w) app_world \<Rightarrow> bool" where
  "dns_in_force serves c w \<longleftrightarrow>
     (\<exists>i. aw_server w = Some \<lparr>ds_instance = Some i\<rparr> \<and> serves i = Corefile c) \<and> rt_cache (pw_runtime (aw_plugin w)) = CacheEnabled (cfg_DNS c)"

definition in_force :: "('i \<Rightarrow> string) \<Rightarrow> config \<Rightarrow> (config_db, 'i dns_server, 'st, 'r, 'w) app_world \<Rightarrow> bool" where
  "in_force serves c w \<longleftrightarrow>
     dns_in_force serves c w \<and> rt_mode (pw_runtime (aw_plugin w)) = bc_Response (cfg_Blocking c) \<and>
     aw_log w = (EffectiveLevel (cfg_Logging c), EffectiveFormat (cfg_Logging c))"

text \<open>Caddy's restart: the new instance serves the new configuration.\<close>

definition restart_law :: "('i \<Rightarrow> caddyfile \<Rightarrow> 'i result) \<Rightarrow> ('i \<Rightarrow> string) \<Rightarrow> bool" where
  "restart_law restart serves \<longleftrightarrow> (\<forall>i f i'. restart i f = Inr i' \<longrightarrow> serves i' = cd_Contents f)"

lemma update_reload_cases:
  assumes "update_reload (sqlite_manager lib now restart cancelled) due next w = (r, w1)" and "restart_law restart serves"
    and "pw_env (aw_plugin w) = []" and "aw_server w = Some \<lparr>ds_instance = Some i\<rparr>"
  shows "aw_store w1 = aw_store w \<and> aw_log w1 = aw_log w \<and> pw_env (aw_plugin w1) = [] \<and>
    rt_mode (pw_runtime (aw_plugin w1)) = rt_mode (pw_runtime (aw_plugin w)) \<and>
    (case r of Inl _ \<Rightarrow> due \<and> w1 = w | Inr b \<Rightarrow> b = due \<and> (if due then dns_in_force serves next w1 else w1 = w))"
proof (cases due)
  case False
  then show ?thesis using assms(1,3) by (auto simp: update_reload_def sqlite_manager_def)
next
  case True
  show ?thesis
  proof (cases "cancelled")
    case c: True
    then show ?thesis using assms True
      by (auto simp: update_reload_def sqlite_manager_def ReloadDNS_def server_Reload_def)
  next
    case c: False
    show ?thesis
    proof (cases "restart i (caddyfileInput next)")
      case (Inl e)
      then show ?thesis using assms True c
        by (auto simp: update_reload_def sqlite_manager_def ReloadDNS_def server_Reload_def)
    next
      case (Inr i')
      then have "serves i' = Corefile next" using assms(2) by (auto simp: restart_law_def caddyfileInput_def)
      then show ?thesis using assms True c Inr
        by (auto simp: update_reload_def sqlite_manager_def ReloadDNS_def server_Reload_def dns_in_force_def SetCacheEnabled_def quiet_store)
    qed
  qed
qed

lemma validate_response: "Validate lib c = ok \<Longrightarrow> bc_Response (cfg_Blocking c) \<noteq> []"
  by (auto simp: Validate_ok_iff config_checks_def BlockingResponseNXDOMAIN_def BlockingResponseNullIP_def BlockingResponseRefused_def)

text \<open>An update by its outcome: it failed before or in the reload, in the save after the reload, or it went well.\<close>

lemma manager_Update_cases:
  assumes "manager_Update lib (sqlite_manager lib now restart cancelled) nils req w = (r, w')" and "restart_law restart serves"
    and "pw_env (aw_plugin w) = []" and "in_force serves c w" and "stored_config lib (aw_store w) = Some c" and "update_ints req"
    and nx: "next = applyConfigUpdate c req" and due: "due = shouldReloadDNSImmediately nils c (next_nils nils req) next True"
  obtains (not_started) err where "r = Inl err" and "stored_config lib (aw_store w') = Some c" and "in_force serves c w'"
  | (not_saved) err where "r = Inl err" and "stored_config lib (aw_store w') = Some c" and "dns_in_force serves (if due then next else c) w'"
      and "Validate lib next = ok" and "rt_mode (pw_runtime (aw_plugin w')) = bc_Response (cfg_Blocking c)" and "aw_log w' = aw_log w"
  | (updated) "r = Inr (snapshotFromConfig next, restartRequired nils c (next_nils nils req) next due)"
      and "stored_config lib (aw_store w') = Some next" and "Validate lib next = ok" and "dns_in_force serves (if due then next else c) w'"
      and "rt_mode (pw_runtime (aw_plugin w')) = bc_Response (cfg_Blocking next)" and "aw_log w' = log_configured c next (aw_log w)"
proof -
  let ?cm = "sqlite_manager lib now restart cancelled" and ?n2 = "next_nils nils req"
  have cm: "cm_load ?cm = store_Load lib True" "cm_save ?cm = (\<lambda>nils. store_Save lib nils True now)" "cm_reload ?cm \<noteq> None" "cm_runtime ?cm"
    by (simp_all add: sqlite_manager_def)
  obtain i where i: "aw_server w = Some \<lparr>ds_instance = Some i\<rparr>" using assms(4) by (auto simp: in_force_def dns_in_force_def)
  obtain l d1 where l: "store_Load lib True (aw_store w) = (l, d1)" by fastforce
  let ?w1 = "w\<lparr>aw_store := d1\<rparr>"
  have d1: "stored_config lib d1 = Some c" using sqlite_config.load_same [of lib True "aw_store w"] l assms(5) by simp
  have f1: "in_force serves c ?w1" using assms(4) by (simp add: in_force_def dns_in_force_def)
  note run = assms(1) [unfolded manager_Update_def then_do_def on_store_def cm l prod.case]
  show thesis
  proof (cases l)
    case (Inl e)
    then have w': "r = Inl e" "w' = ?w1" using run by auto
    show thesis by (rule not_started [of e]) (use w' d1 f1 in simp_all)
  next
    case l_ok: (Inr c')
    then have c': "c' = c" using sqlite_config.load_ok [of lib True "aw_store w" c'] l assms(5) by simp
    show thesis
    proof (cases "Validate lib next")
      case (Inl e)
      then have w': "r = Inl errInvalidConfigUpdate" "w' = ?w1" using run l_ok c' nx by (auto simp: Let_def)
      show thesis by (rule not_started [of errInvalidConfigUpdate]) (use w' d1 f1 in simp_all)
    next
      case v: (Inr u)
      then have valid: "Validate lib next = ok" by simp
      obtain q w2 where q: "update_reload ?cm due next ?w1 = (q, w2)" by fastforce
      have q_facts: "aw_store w2 = d1" "aw_log w2 = aw_log w" "pw_env (aw_plugin w2) = []"
        "rt_mode (pw_runtime (aw_plugin w2)) = bc_Response (cfg_Blocking c)"
        "case q of Inl _ \<Rightarrow> w2 = ?w1 | Inr b \<Rightarrow> b = due \<and> dns_in_force serves (if due then next else c) w2"
        using update_reload_cases [OF q assms(2)] assms(3,4) f1 i by (auto simp: in_force_def split: sum.splits if_splits)
      show thesis
      proof (cases q)
        case (Inl e)
        then have w': "w' = w2" "r = Inl e" using run l_ok c' nx v due q cm(3) by (simp_all add: Let_def)
        show thesis by (rule not_started [of e]) (use w' q_facts(5) Inl d1 f1 in simp_all)
      next
        case q_ok: (Inr b)
        then have b: "b = due" and force: "dns_in_force serves (if due then next else c) w2" using q_facts(5) by simp_all
        obtain s d2 where s: "store_Save lib ?n2 True now next d1 = (s, d2)" by fastforce
        note run' = run [unfolded l_ok c' sum.case Let_def nx [symmetric] due [symmetric] v]
        show thesis
        proof (cases s)
          case (Inl e)
          have d2: "stored_config lib d2 = Some c" using sqlite_config.save_error [of lib ?n2 True now "next" d1 e d2] s Inl d1 by simp
          have "dns_in_force serves (if due then next else c) (w2\<lparr>aw_store := d2\<rparr>)" using force by (simp add: dns_in_force_def)
          moreover have "r = Inl e" "w' = w2\<lparr>aw_store := d2\<rparr>" using run' due nx q q_ok s Inl q_facts(1) cm(3) by (auto simp: Let_def)
          ultimately show thesis by (intro not_saved [of e]) (use q_facts d2 valid in simp_all)
        next
          case s_ok: (Inr u')
          have "ints_ok next" using applied_ints [OF stored_ints [OF assms(5)] assms(6)] nx by simp
          then have d2: "stored_config lib d2 = Some next" using sqlite_config.save_ok [of lib ?n2 True now "next" d1 u' d2] s s_ok by simp
          let ?pw = "SetBlockingResponse (bc_Response (cfg_Blocking next)) (aw_plugin w2)"
          let ?w' = "w2\<lparr>aw_store := d2, aw_plugin := ?pw, aw_log := log_configured c next (aw_log w)\<rparr>"
          have w': "w' = ?w'" "r = Inr (snapshotFromConfig next, restartRequired nils c ?n2 next due)"
            using run' due nx q q_ok s s_ok q_facts cm b
            by (simp_all add: Let_def update_runtime_def ApplyRuntimeConfig_def on_log_def)
          have "dns_in_force serves (if due then next else c) w'"
            using force q_facts(3) w' by (simp add: dns_in_force_def SetBlockingResponse_def quiet_store)
          moreover have "rt_mode (pw_runtime (aw_plugin w')) = bc_Response (cfg_Blocking next)"
            using q_facts(3) w' validate_response [OF valid] by (simp add: SetBlockingResponse_def quiet_store)
          ultimately show thesis by (intro updated) (use w' d2 valid in simp_all)
        qed
      qed
    qed
  qed
qed

section \<open>Properties\<close>

lemma no_restart:
  assumes "\<not> restartRequired nils c n2 next due" and "due = shouldReloadDNSImmediately nils c n2 next True" and "\<not> due"
  shows "cfg_DNS next = cfg_DNS c" and "\<not> coreDNSLoggingChanged (cfg_Logging c) (cfg_Logging next)"
  using assms by (auto simp: restartRequired_def Let_def deep_equal_dns_def)

lemma log_in_force:
  "l = (EffectiveLevel (cfg_Logging c), EffectiveFormat (cfg_Logging c)) \<Longrightarrow>
     log_configured c next l = (EffectiveLevel (cfg_Logging next), EffectiveFormat (cfg_Logging next))"
  by (simp add: log_configured_def EffectiveLevel_def EffectiveFormat_def)

text \<open>What a request cannot change.\<close>

definition same_pause_and_paths :: "config \<Rightarrow> config \<Rightarrow> bool" where
  "same_pause_and_paths c c' \<longleftrightarrow>
     bc_Paused (cfg_Blocking c') = bc_Paused (cfg_Blocking c) \<and> bc_PauseUntil (cfg_Blocking c') = bc_PauseUntil (cfg_Blocking c) \<and>
     sc_Path (cfg_Storage c') = sc_Path (cfg_Storage c) \<and> sc_AuditPath (cfg_Storage c') = sc_AuditPath (cfg_Storage c)"

lemma update_same_pause_and_paths: "same_pause_and_paths c (applyConfigUpdate c req)"
  by (simp add: same_pause_and_paths_def applyConfigUpdate_def apply_blocking_def apply_storage_def split: option.split)

text \<open>What is read only when the process starts, besides the Corefile: the pools, the address of the administration and the paths.\<close>

definition same_start :: "config \<Rightarrow> config \<Rightarrow> bool" where
  "same_start c c' \<longleftrightarrow> cfg_Storage c' = cfg_Storage c \<and> cfg_AdminListen c' = cfg_AdminListen c \<and>
     bc_Blocklists (cfg_Blocking c') = bc_Blocklists (cfg_Blocking c)"

text \<open>
  C21: In a process that does what is stored, an update that succeeds stores exactly the configuration that the request makes of the stored one, which
  satisfies the invariant of \<open>Validate\<close> and keeps the pause and the paths of the databases; and when it does not ask for a restart, the process
  again does what is stored, at once: CoreDNS serves its Corefile, the cells of the plugin and the log have its values, and of the settings
  that only a start reads none changed but, possibly, \<open>blocking.bundled\<close>, which the update compares with nothing and a start alone puts in force.
  That the process did what was stored before is assumed (\<open>in_force\<close>): after an update that asked for a restart, and before that restart, it does
  not, and a later update may not ask again (\<open>restart_forgotten\<close>).
\<close>

theorem update_takes_effect:
  assumes "manager_Update lib (sqlite_manager lib now restart cancelled) nils req w = (Inr (snapshot, needs_restart), w')"
    and "restart_law restart serves" and "pw_env (aw_plugin w) = []" and "in_force serves c w"
    and "stored_config lib (aw_store w) = Some c" and "update_ints req"
  shows "stored_config lib (aw_store w') = Some (applyConfigUpdate c req) \<and> config_ok lib (applyConfigUpdate c req) \<and>
    same_pause_and_paths c (applyConfigUpdate c req) \<and> snapshot = snapshotFromConfig (applyConfigUpdate c req) \<and>
    (needs_restart \<or> in_force serves (applyConfigUpdate c req) w' \<and> same_start c (applyConfigUpdate c req))"
proof (cases rule: manager_Update_cases [OF assms refl refl, case_names not_started not_saved updated])
  case updated
  let ?next = "applyConfigUpdate c req" and ?n2 = "next_nils nils req"
  let ?due = "shouldReloadDNSImmediately nils c ?n2 ?next True"
  have "in_force serves ?next w'" if nr: "\<not> needs_restart"
  proof -
    have "\<not> restartRequired nils c ?n2 ?next ?due" using nr updated(1) by simp
    then have "dns_in_force serves ?next w'"
      using updated(4) no_restart [of nils c ?n2 ?next ?due] Corefile_unchanged [of c ?next]
      by (auto simp: dns_in_force_def split: if_splits)
    then show ?thesis using updated(5,6) assms(4) log_in_force [of "aw_log w" c ?next] by (simp add: in_force_def)
  qed
  moreover have "same_start c ?next" if "\<not> needs_restart"
    using updated(1) that by (simp add: restartRequired_def same_start_def deep_equal_slice_def Let_def)
  moreover have "config_ok lib ?next" using updated(3) by (simp add: Validate_config_ok)
  ultimately show ?thesis using updated(1,2) update_same_pause_and_paths by blast
qed simp_all

text \<open>
  C22: An update that fails leaves the stored configuration as it was, and the process as it was, with one exception: when CoreDNS was reloaded and the
  save failed after that, CoreDNS serves the valid configuration that was not stored, until the next start.
\<close>

theorem failed_update_keeps_stored:
  assumes "manager_Update lib (sqlite_manager lib now restart cancelled) nils req w = (Inl err, w')"
    and "restart_law restart serves" and "pw_env (aw_plugin w) = []" and "in_force serves c w"
    and "stored_config lib (aw_store w) = Some c" and "update_ints req"
  shows "stored_config lib (aw_store w') = Some c \<and>
    (in_force serves c w' \<or> dns_in_force serves (applyConfigUpdate c req) w' \<and> config_ok lib (applyConfigUpdate c req))"
proof (cases rule: manager_Update_cases [OF assms refl refl, case_names not_started not_saved updated])
  case not_saved
  then show ?thesis using assms(4) by (auto simp: in_force_def Validate_config_ok split: if_splits)
qed simp_all

text \<open>
  A change of \<open>blocking.bundled\<close> alone asks for no restart, although the bundled list is read only when the process starts; and the request after one
  that asked for a restart asks for none, when it changes nothing more, although the process was not restarted: only the stored configurations are compared.
\<close>

definition no_update :: config_update where
  "no_update = \<lparr>up_Storage = None, up_DNS = None, up_AdminListen = None, up_Blocking = None, up_Logging = None\<rparr>"

definition bundled_update :: "bool \<Rightarrow> config_update" where
  "bundled_update b = no_update\<lparr>up_Blocking := Some \<lparr>bu_Response = None, bu_Bundled = Some b, bu_Blocklists = None\<rparr>\<rparr>"

lemma bundled_needs_no_restart:
  "bc_Bundled (cfg_Blocking (applyConfigUpdate c (bundled_update b))) = b \<and>
   \<not> restartRequired nils c (next_nils nils (bundled_update b)) (applyConfigUpdate c (bundled_update b)) due"
  by (simp add: bundled_update_def no_update_def applyConfigUpdate_def apply_blocking_def next_nils_def restartRequired_def Let_def
      deep_equal_dns_def deep_equal_slice_def coreDNSLoggingChanged_def)

lemma restart_forgotten:
  "applyConfigUpdate c no_update = c \<and> \<not> restartRequired nils c (next_nils nils no_update) (applyConfigUpdate c no_update) due"
  by (simp add: no_update_def applyConfigUpdate_def next_nils_def restartRequired_def Let_def
      deep_equal_dns_def deep_equal_slice_def coreDNSLoggingChanged_def)

section \<open>An update of the default configuration\<close>

definition no_dns_update :: dns_update where
  "no_dns_update =
     \<lparr>dn_Listen = None, dn_Resolvers = None, dn_CacheTTL = None, dn_CacheSuccessTTL = None, dn_CacheDenialTTL = None,
      dn_CacheSuccessCapacity = None, dn_CacheDenialCapacity = None, dn_CachePrefetchAmount = None, dn_CachePrefetchDuration = None,
      dn_CachePrefetchPercent = None, dn_Rewrites = None, dn_DNSSEC = None, dn_ConditionalForwarding = None\<rparr>"

definition prefetch_update :: config_update where
  "prefetch_update = no_update\<lparr>up_DNS := Some (no_dns_update\<lparr>dn_CachePrefetchAmount := Some 7\<rparr>)\<rparr>"

definition demo_restart :: "string \<Rightarrow> caddyfile \<Rightarrow> string result" where
  "demo_restart i f = Inr (cd_Contents f)"

lemma demo_restart_law: "restart_law demo_restart id"
  by (simp add: restart_law_def demo_restart_def)

definition stored_default :: "bool list \<Rightarrow> config_db" where
  "stored_default faults = \<lparr>db_tables = Some \<lparr>ac_payload = encode_config no_nils Default, ac_updated_at = []\<rparr>, db_faults = faults\<rparr>"

definition default_world :: "bool list \<Rightarrow> (config_db, string dns_server, unit, unit, unit) app_world" where
  "default_world faults =
     \<lparr>aw_store = stored_default faults, aw_server = Some \<lparr>ds_instance = Some (Corefile Default)\<rparr>,
      aw_plugin = quiet_world\<lparr>pw_runtime := NewRuntime\<lparr>rt_cache := True\<rparr>\<rparr>, aw_log = (LoggingLevelInfo, LoggingFormatText)\<rparr>"

lemma default_ints: "ints_ok Default" by code_simp

lemma default_stored: "stored_config demo_lib (aw_store (default_world faults)) = Some Default"
  by (simp add: default_world_def stored_default_def stored_config_def decode_encode_payload [OF Default_valid default_ints])

lemma default_loads:
  "store_Load demo_lib True (stored_default (False # faults)) = (Inr Default, stored_default faults)"
  "store_Load demo_lib True (stored_default []) = (Inr Default, stored_default [])"
  by (simp_all add: store_Load_def then_do_def wrap_err_def stored_default_def sql_query_row_def sql_poll_def poll_def
      decode_encode_payload [OF Default_valid default_ints])

lemma default_runs: "in_force id Default (default_world faults)"
  by (simp add: in_force_def dns_in_force_def default_world_def NewRuntime_def) code_simp

lemma prefetch_valid: "Validate demo_lib (applyConfigUpdate Default prefetch_update) = ok"
  by code_simp

abbreviation prefetch_manager :: "(config_db, string dns_server) config_manager" where
  "prefetch_manager \<equiv> sqlite_manager demo_lib [] demo_restart False"

abbreviation eager :: config where
  "eager \<equiv> applyConfigUpdate Default prefetch_update"

lemma prefetch_due:
  "shouldReloadDNSImmediately no_nils Default (next_nils no_nils prefetch_update) eager True"
  "\<not> restartRequired no_nils Default (next_nils no_nils prefetch_update) eager True"
  by code_simp+

definition reloaded_world :: "config_db \<Rightarrow> (config_db, string dns_server, unit, unit, unit) app_world" where
  "reloaded_world d = (default_world [])\<lparr>aw_store := d, aw_server := Some \<lparr>ds_instance = Some (Corefile eager)\<rparr>,
     aw_plugin := SetCacheEnabled (CacheEnabled (cfg_DNS eager)) (aw_plugin (default_world []))\<rparr>"

lemma prefetch_reload:
  "update_reload prefetch_manager True eager ((default_world fs)\<lparr>aw_store := d\<rparr>) = (Inr True, reloaded_world d)"
  by (simp add: update_reload_def sqlite_manager_def default_world_def ReloadDNS_def server_Reload_def demo_restart_def caddyfileInput_def reloaded_world_def)

lemma manager_parts:
  "cm_load (sqlite_manager lib now restart cancelled) = store_Load lib True"
  "cm_save (sqlite_manager lib now restart cancelled) n = store_Save lib n True now"
  "cm_reload (sqlite_manager lib now restart cancelled) \<noteq> None" "cm_runtime (sqlite_manager lib now restart cancelled)"
  by (simp_all add: sqlite_manager_def)

lemmas update_eval = Let_def manager_Update_def on_store_def then_do_def manager_parts prefetch_due prefetch_valid prefetch_reload

lemma default_store: "aw_store (default_world fs) = stored_default fs"
  by (simp add: default_world_def)

lemma prefetch_Corefile: "Corefile eager \<noteq> Corefile Default"
proof -
  have d: "cfg_DNS eager = (cfg_DNS Default)\<lparr>dc_CachePrefetchAmount := 7\<rparr>" "cfg_Logging eager = cfg_Logging Default" by code_simp+
  have i: "Itoa 7 = ''7''" "Itoa 5 = ''5''" "dc_CachePrefetchAmount (cfg_DNS Default) = 5" by code_simp+
  have e: "CacheEnabled (cfg_DNS Default)" "CacheEnabled ((cfg_DNS Default)\<lparr>dc_CachePrefetchAmount := 7\<rparr>)" by code_simp+
  have "writeCache ((cfg_DNS Default)\<lparr>dc_CachePrefetchAmount := 7\<rparr>) \<noteq> writeCache (cfg_DNS Default)"
    by (simp only: writeCache_def e not_True_eq_False if_False dns_config.select_convs dns_config.update_convs i) (simp add: i)
  then show ?thesis by (simp add: Corefile_def d Let_def)
qed

theorem update_takes_effect_witness:
  "\<exists>w'. manager_Update demo_lib prefetch_manager no_nils prefetch_update (default_world []) = (Inr (snapshotFromConfig eager, False), w') \<and>
     stored_config demo_lib (aw_store w') = Some eager \<and> in_force id eager w'"
proof -
  obtain w' where u: "manager_Update demo_lib prefetch_manager no_nils prefetch_update (default_world []) = (Inr (snapshotFromConfig eager, False), w')"
    by (simp add: update_eval default_store default_loads)
      (simp add: store_Save_def then_do_def wrap_err_def sql_run_no_fault prefetch_valid reloaded_world_def stored_default_def update_runtime_def
        manager_parts ApplyRuntimeConfig_def on_log_def prefetch_due)
  have "pw_env (aw_plugin (default_world [])) = []" by (simp add: default_world_def quiet_world_def)
  moreover have "update_ints prefetch_update"
    by (simp add: update_ints_def prefetch_update_def no_update_def no_dns_update_def ints_option_def int64_range_def)
  ultimately show ?thesis
    using update_takes_effect [OF u demo_restart_law _ default_runs default_stored] u by simp
qed

theorem failed_update_keeps_stored_witness:
  "\<exists>w'. manager_Update demo_lib prefetch_manager no_nils prefetch_update (default_world [False, True]) =
     (Inl (Wrapf ''save persisted config'' db_error), w') \<and>
     stored_config demo_lib (aw_store w') = Some Default \<and> dns_in_force id eager w' \<and> \<not> dns_in_force id Default w'"
proof -
  let ?w' = "reloaded_world (stored_default [])"
  have u: "manager_Update demo_lib prefetch_manager no_nils prefetch_update (default_world [False, True]) =
     (Inl (Wrapf ''save persisted config'' db_error), ?w')"
    by (simp add: update_eval default_store default_loads)
      (simp add: store_Save_def then_do_def wrap_err_def sql_run_def sql_poll_def poll_def prefetch_valid reloaded_world_def stored_default_def)
  have "pw_env (aw_plugin (default_world [False, True])) = []" by (simp add: default_world_def quiet_world_def)
  moreover have "update_ints prefetch_update"
    by (simp add: update_ints_def prefetch_update_def no_update_def no_dns_update_def ints_option_def int64_range_def)
  moreover have "\<not> dns_in_force id Default ?w'"
    by (simp add: dns_in_force_def reloaded_world_def prefetch_Corefile)
  ultimately show ?thesis
    using failed_update_keeps_stored [OF u demo_restart_law _ default_runs default_stored] u by (auto simp: in_force_def)
qed

end
