(* ===== verification/Config_Api.thy ===== *)
theory Config_Api
  imports Config_Update_Properties Admin_Server
begin

text \<open>
  \<open>internal/admin/api.go\<close>: the handlers of the configuration and of the pause of blocking, from the body of a request to the response. Requests are
  decoded with \<open>DisallowUnknownFields\<close>, in nested structs too; a pointer field is an option, which null clears.
\<close>

section \<open>Decoding requests\<close>

definition unknown_field :: go_error where
  "unknown_field = ErrorString ''json: unknown field''"

definition decode_ptr :: "'v \<Rightarrow> (json \<Rightarrow> 'v \<Rightarrow> 'v result) \<Rightarrow> json \<Rightarrow> 'v option \<Rightarrow> 'v option result" where
  "decode_ptr zero dec v old =
     (if v = JNull then Inr None else map_sum id Some (dec v (case old of None \<Rightarrow> zero | Some x \<Rightarrow> x)))"

definition strict_struct :: "'a json_field list \<Rightarrow> json \<Rightarrow> 'a \<Rightarrow> 'a result" where
  "strict_struct fs v x = (if known_members fs v then decode_struct fs v x else Inl unknown_field)"

text \<open>A field of a request is only decoded.\<close>

definition request_field :: "string \<Rightarrow> (json \<Rightarrow> 'v \<Rightarrow> 'v result) \<Rightarrow> ('a \<Rightarrow> 'v) \<Rightarrow> ('v \<Rightarrow> 'a \<Rightarrow> 'a) \<Rightarrow> 'a json_field" where
  "request_field name dec get put = field name True (\<lambda>_. True) (\<lambda>_. JNull) dec get put"

abbreviation string_ptr :: "string \<Rightarrow> ('a \<Rightarrow> string option) \<Rightarrow> (string option \<Rightarrow> 'a \<Rightarrow> 'a) \<Rightarrow> 'a json_field" where
  "string_ptr name \<equiv> request_field name (decode_ptr [] decode_string)"

abbreviation bool_ptr :: "string \<Rightarrow> ('a \<Rightarrow> bool option) \<Rightarrow> (bool option \<Rightarrow> 'a \<Rightarrow> 'a) \<Rightarrow> 'a json_field" where
  "bool_ptr name \<equiv> request_field name (decode_ptr False decode_bool)"

abbreviation int_ptr :: "string \<Rightarrow> ('a \<Rightarrow> int option) \<Rightarrow> (int option \<Rightarrow> 'a \<Rightarrow> 'a) \<Rightarrow> 'a json_field" where
  "int_ptr name \<equiv> request_field name (decode_ptr 0 decode_int)"

abbreviation struct_ptr :: "string \<Rightarrow> 'v \<Rightarrow> 'v json_field list \<Rightarrow> ('a \<Rightarrow> 'v option) \<Rightarrow> ('v option \<Rightarrow> 'a \<Rightarrow> 'a) \<Rightarrow> 'a json_field" where
  "struct_ptr name zero fs \<equiv> request_field name (decode_ptr zero (strict_struct fs))"

definition storage_update_fields :: "storage_update json_field list" where
  "storage_update_fields =
     [int_ptr ''main_read_connections'' su_MainReadConnections (\<lambda>v u. u\<lparr>su_MainReadConnections := v\<rparr>),
      int_ptr ''audit_read_connections'' su_AuditReadConnections (\<lambda>v u. u\<lparr>su_AuditReadConnections := v\<rparr>),
      int_ptr ''session_read_connections'' su_SessionReadConnections (\<lambda>v u. u\<lparr>su_SessionReadConnections := v\<rparr>)]"

definition dnssec_update_fields :: "dnssec_update json_field list" where
  "dnssec_update_fields =
     [bool_ptr ''enabled'' du_Enabled (\<lambda>v u. u\<lparr>du_Enabled := v\<rparr>), string_ptr ''mode'' du_Mode (\<lambda>v u. u\<lparr>du_Mode := v\<rparr>)]"

definition resolver_update_fields :: "resolver_update json_field list" where
  "resolver_update_fields =
     [request_field ''name'' decode_string vu_Name (\<lambda>v u. u\<lparr>vu_Name := v\<rparr>),
      request_field ''address'' decode_string vu_Address (\<lambda>v u. u\<lparr>vu_Address := v\<rparr>),
      request_field ''protocol'' decode_string vu_Protocol (\<lambda>v u. u\<lparr>vu_Protocol := v\<rparr>),
      request_field ''tls_server_name'' decode_string vu_TLSServerName (\<lambda>v u. u\<lparr>vu_TLSServerName := v\<rparr>),
      bool_ptr ''enabled'' vu_Enabled (\<lambda>v u. u\<lparr>vu_Enabled := v\<rparr>)]"

definition conditional_update_fields :: "conditional_update json_field list" where
  "conditional_update_fields =
     [bool_ptr ''enabled'' cu_Enabled (\<lambda>v u. u\<lparr>cu_Enabled := v\<rparr>),
      string_ptr ''domain'' cu_Domain (\<lambda>v u. u\<lparr>cu_Domain := v\<rparr>),
      string_ptr ''resolver'' cu_Resolver (\<lambda>v u. u\<lparr>cu_Resolver := v\<rparr>),
      string_ptr ''protocol'' cu_Protocol (\<lambda>v u. u\<lparr>cu_Protocol := v\<rparr>),
      string_ptr ''tls_server_name'' cu_TLSServerName (\<lambda>v u. u\<lparr>cu_TLSServerName := v\<rparr>)]"

definition zero_resolver_update :: resolver_update where
  "zero_resolver_update = \<lparr>vu_Name = [], vu_Address = [], vu_Protocol = [], vu_TLSServerName = [], vu_Enabled = None\<rparr>"

definition zero_conditional_update :: conditional_update where
  "zero_conditional_update = \<lparr>cu_Enabled = None, cu_Domain = None, cu_Resolver = None, cu_Protocol = None, cu_TLSServerName = None\<rparr>"

definition dns_update_fields :: "dns_update json_field list" where
  "dns_update_fields =
     [string_ptr ''listen'' dn_Listen (\<lambda>v u. u\<lparr>dn_Listen := v\<rparr>),
      request_field ''resolvers'' (decode_ptr [] (decode_slice (strict_struct resolver_update_fields) zero_resolver_update))
        dn_Resolvers (\<lambda>v u. u\<lparr>dn_Resolvers := v\<rparr>),
      int_ptr ''cache_ttl'' dn_CacheTTL (\<lambda>v u. u\<lparr>dn_CacheTTL := v\<rparr>),
      int_ptr ''cache_success_ttl'' dn_CacheSuccessTTL (\<lambda>v u. u\<lparr>dn_CacheSuccessTTL := v\<rparr>),
      int_ptr ''cache_denial_ttl'' dn_CacheDenialTTL (\<lambda>v u. u\<lparr>dn_CacheDenialTTL := v\<rparr>),
      int_ptr ''cache_success_capacity'' dn_CacheSuccessCapacity (\<lambda>v u. u\<lparr>dn_CacheSuccessCapacity := v\<rparr>),
      int_ptr ''cache_denial_capacity'' dn_CacheDenialCapacity (\<lambda>v u. u\<lparr>dn_CacheDenialCapacity := v\<rparr>),
      int_ptr ''cache_prefetch_amount'' dn_CachePrefetchAmount (\<lambda>v u. u\<lparr>dn_CachePrefetchAmount := v\<rparr>),
      int_ptr ''cache_prefetch_duration'' dn_CachePrefetchDuration (\<lambda>v u. u\<lparr>dn_CachePrefetchDuration := v\<rparr>),
      int_ptr ''cache_prefetch_percent'' dn_CachePrefetchPercent (\<lambda>v u. u\<lparr>dn_CachePrefetchPercent := v\<rparr>),
      request_field ''rewrites'' (decode_ptr [] (decode_slice (strict_struct rewrite_fields) zero_rewrite))
        dn_Rewrites (\<lambda>v u. u\<lparr>dn_Rewrites := v\<rparr>),
      struct_ptr ''dnssec'' \<lparr>du_Enabled = None, du_Mode = None\<rparr> dnssec_update_fields dn_DNSSEC (\<lambda>v u. u\<lparr>dn_DNSSEC := v\<rparr>),
      struct_ptr ''conditional_forwarding'' zero_conditional_update conditional_update_fields
        dn_ConditionalForwarding (\<lambda>v u. u\<lparr>dn_ConditionalForwarding := v\<rparr>)]"

definition blocking_update_fields :: "blocking_update json_field list" where
  "blocking_update_fields =
     [string_ptr ''response'' bu_Response (\<lambda>v u. u\<lparr>bu_Response := v\<rparr>),
      bool_ptr ''bundled'' bu_Bundled (\<lambda>v u. u\<lparr>bu_Bundled := v\<rparr>),
      request_field ''blocklists'' (decode_ptr [] (decode_slice decode_string [])) bu_Blocklists (\<lambda>v u. u\<lparr>bu_Blocklists := v\<rparr>)]"

definition logging_update_fields :: "logging_update json_field list" where
  "logging_update_fields =
     [string_ptr ''level'' lu_Level (\<lambda>v u. u\<lparr>lu_Level := v\<rparr>), string_ptr ''format'' lu_Format (\<lambda>v u. u\<lparr>lu_Format := v\<rparr>)]"

text \<open>\<open>AdminConfigUpdate\<close> has one field, the pointer itself.\<close>

definition admin_update_fields :: "string option json_field list" where
  "admin_update_fields = [string_ptr ''listen'' id (\<lambda>v _. v)]"

definition update_fields :: "config_update json_field list" where
  "update_fields =
     [struct_ptr ''storage'' \<lparr>su_MainReadConnections = None, su_AuditReadConnections = None, su_SessionReadConnections = None\<rparr> storage_update_fields
        up_Storage (\<lambda>v u. u\<lparr>up_Storage := v\<rparr>),
      struct_ptr ''dns'' no_dns_update dns_update_fields up_DNS (\<lambda>v u. u\<lparr>up_DNS := v\<rparr>),
      struct_ptr ''admin'' None admin_update_fields up_AdminListen (\<lambda>v u. u\<lparr>up_AdminListen := v\<rparr>),
      struct_ptr ''blocking'' \<lparr>bu_Response = None, bu_Bundled = None, bu_Blocklists = None\<rparr> blocking_update_fields
        up_Blocking (\<lambda>v u. u\<lparr>up_Blocking := v\<rparr>),
      struct_ptr ''logging'' \<lparr>lu_Level = None, lu_Format = None\<rparr> logging_update_fields up_Logging (\<lambda>v u. u\<lparr>up_Logging := v\<rparr>)]"

section \<open>The configuration\<close>

datatype config_body =
    ConfigError string
  | ConfigBody config_snapshot
  | UpdatedBody config_snapshot bool
  | StatusBody blocking_status

type_synonym config_response = "nat \<times> config_body"

definition configError :: "nat \<Rightarrow> string \<Rightarrow> config_response" where
  "configError status code = (status, ConfigError code)"

definition handleGetConfig :: "('s, 'sv) config_manager \<Rightarrow> ('s, 'sv, 'st, 'r, 'w) app_world \<Rightarrow> config_response \<times> ('s, 'sv, 'st, 'r, 'w) app_world" where
  "handleGetConfig cm w =
     (case on_store (store_Snapshot (cm_load cm)) w of
        (Inl _, w) \<Rightarrow> (configError 500 ''config_unavailable'', w)
      | (Inr snapshot, w) \<Rightarrow> ((200, ConfigBody snapshot), w))"

definition handlePutConfig ::
  "config_lib \<Rightarrow> ('s, 'sv) config_manager \<Rightarrow> nil_slices \<Rightarrow> string \<Rightarrow> ('s, 'sv, 'st, 'r, 'w) app_world
     \<Rightarrow> config_response \<times> ('s, 'sv, 'st, 'r, 'w) app_world" where
  "handlePutConfig lib cm nils body w =
     (case decodeJSON update_fields no_update body of
        None \<Rightarrow> (configError 400 ''invalid_json'', w)
      | Some req \<Rightarrow>
          (case manager_Update lib cm nils req w of
             (Inl err, w) \<Rightarrow>
               (if errors_Is err config_ErrNotFound \<or> errors_Is err errInvalidConfigUpdate then configError 400 ''invalid_config''
                else configError 500 ''config_update_failed'', w)
           | (Inr (snapshot, restart), w) \<Rightarrow> ((200, UpdatedBody snapshot restart), w)))"

definition handleConfig ::
  "config_lib \<Rightarrow> ('s, 'sv) config_manager \<Rightarrow> nil_slices \<Rightarrow> request \<Rightarrow> ('s, 'sv, 'st, 'r, 'w) app_world
     \<Rightarrow> config_response \<times> ('s, 'sv, 'st, 'r, 'w) app_world" where
  "handleConfig lib cm nils r w =
     (if rq_Method r = ''GET'' then handleGetConfig cm w
      else if rq_Method r = ''PUT'' then handlePutConfig lib cm nils (rq_Body r) w
      else (configError 405 ''method_not_allowed'', w))"

section \<open>The pause of blocking\<close>

record blocking_request =
  br_Paused :: "bool option"
  br_DurationSeconds :: "int option"
  br_PauseUntil :: "string option"

definition blocking_request_fields :: "blocking_request json_field list" where
  "blocking_request_fields =
     [bool_ptr ''paused'' br_Paused (\<lambda>v q. q\<lparr>br_Paused := v\<rparr>),
      int_ptr ''duration_seconds'' br_DurationSeconds (\<lambda>v q. q\<lparr>br_DurationSeconds := v\<rparr>),
      string_ptr ''pause_until'' br_PauseUntil (\<lambda>v q. q\<lparr>br_PauseUntil := v\<rparr>)]"

definition no_request :: blocking_request where
  "no_request = \<lparr>br_Paused = None, br_DurationSeconds = None, br_PauseUntil = None\<rparr>"

text \<open>\<open>time.Duration(n) * time.Second\<close> in 64 bits.\<close>

definition seconds_duration :: "int \<Rightarrow> duration" where
  "seconds_duration n = sint (of_int n * of_int second_ns :: 64 word)"

text \<open>The end that a request asks for, the zero time for a pause without end; \<^term>\<open>None\<close> when the request is refused.\<close>

definition parseBlockingPauseUntil ::
  "config_lib \<Rightarrow> blocking_request \<Rightarrow> ('st, 'r, 'w) plugin_world \<Rightarrow> time option \<times> ('st, 'r, 'w) plugin_world" where
  "parseBlockingPauseUntil lib req pw =
     (case (br_DurationSeconds req, br_PauseUntil req) of
        (Some n, p) \<Rightarrow>
          if (case p of None \<Rightarrow> False | Some raw \<Rightarrow> TrimSpace raw \<noteq> []) then (None, pw)
          else if n \<le> 0 then (None, pw)
          else (case time_Now pw of (now, pw) \<Rightarrow> (Some (time_of (now + seconds_duration n)), pw))
      | (None, Some text) \<Rightarrow>
          let raw = TrimSpace text in
          if raw = [] then (Some None, pw)
          else (case time_Parse (lib_lenientNano lib) raw of
              None \<Rightarrow> (None, pw)
            | Some until \<Rightarrow>
                (case time_Now pw of (now, pw) \<Rightarrow>
                   (if (case until of None \<Rightarrow> False | Some u \<Rightarrow> u > now) then Some until else None, pw)))
      | (None, None) \<Rightarrow> (Some None, pw))"

definition answer_status ::
  "string \<Rightarrow> blocking_status result \<times> 's \<times> ('st, 'r, 'w) plugin_world \<Rightarrow> ('s, 'sv, 'st, 'r, 'w) app_world
     \<Rightarrow> config_response \<times> ('s, 'sv, 'st, 'r, 'w) app_world" where
  "answer_status code result w =
     (case result of (r, s, pw) \<Rightarrow>
        (case r of Inl _ \<Rightarrow> configError 500 code | Inr status \<Rightarrow> (200, StatusBody status), w\<lparr>aw_store := s, aw_plugin := pw\<rparr>))"

definition put_blocking ::
  "config_lib \<Rightarrow> 's store_ops \<Rightarrow> string \<Rightarrow> ('s, 'sv, 'st, 'r, 'w) app_world \<Rightarrow> config_response \<times> ('s, 'sv, 'st, 'r, 'w) app_world" where
  "put_blocking lib ops body w =
     (case decodeJSON blocking_request_fields no_request body of
        None \<Rightarrow> (configError 400 ''invalid_json'', w)
      | Some req \<Rightarrow>
          (case br_Paused req of
             None \<Rightarrow> (configError 400 ''paused_required'', w)
           | Some False \<Rightarrow> answer_status ''blocking_resume_failed'' (controller_Resume ops (aw_store w) (aw_plugin w)) w
           | Some True \<Rightarrow>
               (case parseBlockingPauseUntil lib req (aw_plugin w) of
                  (None, pw) \<Rightarrow> (configError 400 ''invalid_pause_duration'', w\<lparr>aw_plugin := pw\<rparr>)
                | (Some until, pw) \<Rightarrow> answer_status ''blocking_pause_failed'' (controller_Pause ops until (aw_store w) pw) w)))"

text \<open>\<open>controller\<close>: the server was made with a controller; \<open>ops\<close> is its store.\<close>

definition handleBlockingStatus ::
  "config_lib \<Rightarrow> 's store_ops option \<Rightarrow> request \<Rightarrow> ('s, 'sv, 'st, 'r, 'w) app_world \<Rightarrow> config_response \<times> ('s, 'sv, 'st, 'r, 'w) app_world" where
  "handleBlockingStatus lib controller r w =
     (case controller of
        None \<Rightarrow> (configError 503 ''blocking_control_unavailable'', w)
      | Some ops \<Rightarrow>
          if rq_Method r = ''GET'' then
            (case time_Now (aw_plugin w) of (now, pw) \<Rightarrow>
             case controller_Status (Some now) pw of (status, pw) \<Rightarrow> ((200, StatusBody status), w\<lparr>aw_plugin := pw\<rparr>))
          else if rq_Method r = ''PUT'' then put_blocking lib ops (rq_Body r) w
          else (configError 405 ''method_not_allowed'', w))"

end
