(* ===== verification/Audit_Api.thy ===== *)
theory Audit_Api
  imports Config_Api Audit_Sink
begin

text \<open>
  \<open>internal/admin/api.go\<close> and \<open>internal/admin/analytics_api.go\<close>: the query log and its analytics over HTTP. The query string of a request is the
  list of its decoded names and values, as \<open>url.Values\<close> has them; \<open>Get\<close> takes the first. The reader of the audit log is the SQLite sink, or none
  when the audit database could not be opened, as \<open>internal/app/app.go\<close> wires it.
\<close>

section \<open>Query strings\<close>

type_synonym url_values = "(string \<times> string) list"

definition values_Get :: "url_values \<Rightarrow> string \<Rightarrow> string" where
  "values_Get values name = (case map_of values name of None \<Rightarrow> [] | Some v \<Rightarrow> v)"

fun firstQueryValue :: "url_values \<Rightarrow> string list \<Rightarrow> string" where
  "firstQueryValue values [] = []"
| "firstQueryValue values (name # names) =
     (let raw = values_Get values name in if raw \<noteq> [] then raw else firstQueryValue values names)"

definition defaultQueriesLimit :: int where "defaultQueriesLimit = 100"
definition maxQueriesLimit :: int where "maxQueriesLimit = 500"

text \<open>\<open>strconv.Atoi\<close> is \<open>strconv.ParseInt\<close> for an \<open>int\<close> of 64 bits.\<close>

definition Atoi :: "string \<Rightarrow> int option" where
  "Atoi s = ParseInt s"

definition parseQueriesLimit :: "url_values \<Rightarrow> int option" where
  "parseQueriesLimit values =
     (let raw = values_Get values ''limit'' in
      if raw = [] then Some defaultQueriesLimit
      else (case Atoi raw of
          None \<Rightarrow> None
        | Some limit \<Rightarrow> if limit \<le> 0 then None else if limit > maxQueriesLimit then Some maxQueriesLimit else Some limit))"

definition parseQueriesOffset :: "url_values \<Rightarrow> int option" where
  "parseQueriesOffset values =
     (let raw = values_Get values ''offset'' in
      if raw = [] then Some 0
      else (case Atoi raw of None \<Rightarrow> None | Some offset \<Rightarrow> if offset < 0 then None else Some offset))"

definition sort_names :: "(string \<times> string) list" where
  "sort_names =
     [([], []), (''timestamp'', ''timestamp''), (''time'', ''timestamp''), (''client_ip'', ''client_ip''), (''client'', ''client_ip''),
      (''query_name'', ''query_name''), (''domain'', ''query_name''), (''query_type'', ''query_type''), (''type'', ''query_type''),
      (''action'', ''action''), (''response'', ''response''), (''rule_id'', ''rule_id''), (''blocklist_id'', ''blocklist_id''),
      (''duration_ns'', ''duration_ns''), (''duration_ms'', ''duration_ms''), (''duration'', ''duration_ms''),
      (''upstream_resolver'', ''upstream_resolver''), (''upstream'', ''upstream_resolver''), (''cache_status'', ''cache_status''),
      (''cache'', ''cache_status''), (''forward_duration_ns'', ''forward_duration_ns''), (''forward_duration_ms'', ''forward_duration_ms''),
      (''forward_duration'', ''forward_duration_ms''), (''forward'', ''forward_duration_ms''), (''retry_count'', ''retry_count''),
      (''retries'', ''retry_count''), (''forward_error'', ''forward_error''), (''upstream_error'', ''forward_error'')]"

definition parseQuerySort :: "string \<Rightarrow> string option" where
  "parseQuerySort raw = map_of sort_names (ToLower (TrimSpace raw))"

definition parseQueryOrder :: "string \<Rightarrow> string option" where
  "parseQueryOrder raw =
     map_of [([], []), (''asc'', ''asc''), (''ascending'', ''asc''), (''desc'', ''desc''), (''descending'', ''desc'')] (ToLower (TrimSpace raw))"

definition canonicalQuerySort :: "string \<Rightarrow> string" where
  "canonicalQuerySort column = (if column = [] then ''timestamp'' else column)"

definition canonicalQueryOrder :: "string \<Rightarrow> string" where
  "canonicalQueryOrder order = (if order = [] then ''desc'' else order)"

text \<open>Both layouts of \<open>time.Parse\<close>, with their scanners as in \<open>config_lib\<close>.\<close>

definition parseOptionalQueryTime :: "config_lib \<Rightarrow> string \<Rightarrow> time option" where
  "parseOptionalQueryTime lib text =
     (let raw = TrimSpace text in
      if raw = [] then Some None
      else (case time_Parse (lib_lenientNano lib) raw of Some t \<Rightarrow> Some t | None \<Rightarrow> time_Parse (lib_lenient lib) raw))"

definition query_type_names :: "(string \<times> int) list" where
  "query_type_names =
     [(''A'', 1), (''NS'', 2), (''CNAME'', 5), (''SOA'', 6), (''PTR'', 12), (''MX'', 15), (''TXT'', 16), (''AAAA'', 28), (''SRV'', 33), (''HTTPS'', 65)]"

text \<open>\<open>strconv.ParseUint\<close> in base ten with 16 bits.\<close>

definition ParseUint16 :: "string \<Rightarrow> int option" where
  "ParseUint16 s = (if s = [] then None else (case parse_digits 0 s of None \<Rightarrow> None | Some n \<Rightarrow> if n \<le> 65535 then Some n else None))"

definition parseQueryType :: "string \<Rightarrow> 16 word option" where
  "parseQueryType text =
     (let raw = ToUpper (TrimSpace text) in
      map_option of_int
        (case map_of query_type_names raw of Some n \<Rightarrow> Some n | None \<Rightarrow> ParseUint16 (TrimPrefix raw ''TYPE'')))"

definition parseNonNegativeInt64 :: "string \<Rightarrow> int option" where
  "parseNonNegativeInt64 raw = (case ParseInt (TrimSpace raw) of None \<Rightarrow> None | Some v \<Rightarrow> if v < 0 then None else Some v)"

definition millisecond_ns :: int where
  "millisecond_ns = 1000000"

definition parseDurationMS :: "string \<Rightarrow> int option" where
  "parseDurationMS raw =
     (case parseNonNegativeInt64 raw of
        None \<Rightarrow> None
      | Some v \<Rightarrow> if v > (2 ^ 63 - 1) div millisecond_ns then None else Some (v * millisecond_ns))"

text \<open>\<open>if raw := ...; strings.TrimSpace(raw) != "" { ... }\<close>: a parameter that is parsed when it is there, and refused when it cannot be.\<close>

definition with_param :: "string \<Rightarrow> (string \<Rightarrow> 'v option) \<Rightarrow> ('v \<Rightarrow> 'o \<Rightarrow> 'o) \<Rightarrow> 'o \<Rightarrow> 'o option" where
  "with_param raw parse put opts =
     (if TrimSpace raw = [] then Some opts else map_option (\<lambda>v. put v opts) (parse raw))"

text \<open>The parameters in the order of the code: a later one overwrites what an earlier one has set.\<close>

definition number_params :: "url_values \<Rightarrow> (query_options \<Rightarrow> query_options option) list" where
  "number_params values =
     [with_param (values_Get values ''rule_id'') parseNonNegativeInt64 (\<lambda>v o'. o'\<lparr>qo_RuleID := v, qo_HasRuleID := True\<rparr>),
      with_param (values_Get values ''blocklist_id'') parseNonNegativeInt64 (\<lambda>v o'. o'\<lparr>qo_BlocklistID := v, qo_HasBlocklistID := True\<rparr>),
      with_param (values_Get values ''duration_ns'') parseNonNegativeInt64 (\<lambda>v o'. o'\<lparr>qo_DurationNS := v, qo_HasDurationNS := True\<rparr>),
      with_param (values_Get values ''duration_ms'') parseDurationMS (\<lambda>v o'. o'\<lparr>qo_DurationNS := v, qo_HasDurationNS := True\<rparr>),
      with_param (values_Get values ''duration_min_ns'') parseNonNegativeInt64 (\<lambda>v o'. o'\<lparr>qo_DurationMinNS := v, qo_HasDurationMin := True\<rparr>),
      with_param (firstQueryValue values [''duration_min_ms'', ''duration_min'']) parseDurationMS
        (\<lambda>v o'. o'\<lparr>qo_DurationMinNS := v, qo_HasDurationMin := True\<rparr>),
      with_param (values_Get values ''duration_max_ns'') parseNonNegativeInt64 (\<lambda>v o'. o'\<lparr>qo_DurationMaxNS := v, qo_HasDurationMax := True\<rparr>),
      with_param (firstQueryValue values [''duration_max_ms'', ''duration_max'']) parseDurationMS
        (\<lambda>v o'. o'\<lparr>qo_DurationMaxNS := v, qo_HasDurationMax := True\<rparr>)]"

definition forward_params :: "url_values \<Rightarrow> (query_options \<Rightarrow> query_options option) list" where
  "forward_params values =
     [with_param (firstQueryValue values [''forward_duration_min_ns'', ''forward_min_ns'']) parseNonNegativeInt64
        (\<lambda>v o'. o'\<lparr>qo_ForwardMinNS := v, qo_HasForwardMin := True\<rparr>),
      with_param (firstQueryValue values [''forward_duration_min_ms'', ''forward_min'']) parseDurationMS
        (\<lambda>v o'. o'\<lparr>qo_ForwardMinNS := v, qo_HasForwardMin := True\<rparr>),
      with_param (firstQueryValue values [''forward_duration_max_ns'', ''forward_max_ns'']) parseNonNegativeInt64
        (\<lambda>v o'. o'\<lparr>qo_ForwardMaxNS := v, qo_HasForwardMax := True\<rparr>),
      with_param (firstQueryValue values [''forward_duration_max_ms'', ''forward_max'']) parseDurationMS
        (\<lambda>v o'. o'\<lparr>qo_ForwardMaxNS := v, qo_HasForwardMax := True\<rparr>),
      with_param (values_Get values ''retry_count'') (\<lambda>raw. case Atoi (TrimSpace raw) of None \<Rightarrow> None | Some n \<Rightarrow> if n < -1 then None else Some n)
        (\<lambda>v o'. o'\<lparr>qo_RetryCount := v, qo_HasRetryCount := True\<rparr>)]"

fun apply_params :: "('o \<Rightarrow> 'o option) list \<Rightarrow> 'o \<Rightarrow> 'o option" where
  "apply_params [] opts = Some opts"
| "apply_params (p # ps) opts = Option.bind (p opts) (apply_params ps)"

definition parseQueryOptions :: "config_lib \<Rightarrow> url_values \<Rightarrow> int \<Rightarrow> int \<Rightarrow> query_options option" where
  "parseQueryOptions lib values limit offset =
     Option.bind (parseQuerySort (values_Get values ''sort'')) (\<lambda>sort.
     Option.bind (parseQueryOrder (values_Get values ''order'')) (\<lambda>order.
     Option.bind (parseOptionalQueryTime lib (firstQueryValue values [''from'', ''since''])) (\<lambda>from.
     Option.bind (parseOptionalQueryTime lib (values_Get values ''to'')) (\<lambda>upto.
     let opts = no_options\<lparr>qo_Limit := limit, qo_Offset := offset, qo_Sort := sort, qo_Order := order, qo_From := from, qo_To := upto,
           qo_ClientIP := TrimSpace (values_Get values ''client_ip''),
           qo_QueryName := TrimSpace (firstQueryValue values [''query_name'', ''domain''])\<rparr> in
     Option.bind (with_param (firstQueryValue values [''query_type'', ''type'']) parseQueryType
         (\<lambda>v o'. o'\<lparr>qo_QueryType := v, qo_HasQueryType := True\<rparr>) opts) (\<lambda>opts.
     let opts = opts\<lparr>qo_Action := ToLower (TrimSpace (values_Get values ''action'')),
           qo_Response := ToUpper (TrimSpace (values_Get values ''response''))\<rparr> in
     Option.bind (apply_params (number_params values) opts) (\<lambda>opts.
     let opts = opts\<lparr>qo_Upstream := TrimSpace (firstQueryValue values [''upstream_resolver'', ''upstream'']),
           qo_CacheStatus := ToLower (TrimSpace (firstQueryValue values [''cache_status'', ''cache'']))\<rparr> in
     Option.bind (apply_params (forward_params values) opts) (\<lambda>opts.
       Some (opts\<lparr>qo_ForwardError := TrimSpace (firstQueryValue values [''forward_error'', ''upstream_error''])\<rparr>))))))))"

section \<open>The log, page by page\<close>

type_synonym audit_reader = "sqlite_sink option"

definition on_sink :: "(audit_db, 'a) step \<Rightarrow> sqlite_sink \<Rightarrow> 'a result \<times> sqlite_sink" where
  "on_sink m s = (case m (sk_db s) of (r, d) \<Rightarrow> (r, s\<lparr>sk_db := d\<rparr>))"

text \<open>A call of the reader, with the answer when there is none.\<close>

definition with_reader :: "'a \<Rightarrow> (sqlite_sink \<Rightarrow> 'a result \<times> sqlite_sink) \<Rightarrow> (audit_reader, 'a) step" where
  "with_reader none call rd =
     (case rd of None \<Rightarrow> (Inr none, None) | Some s \<Rightarrow> (case call s of (r, s) \<Rightarrow> (r, Some s)))"

definition queryAuditEvents :: "(string \<Rightarrow> instant option) \<Rightarrow> query_options \<Rightarrow> (audit_reader, audit_event list) step" where
  "queryAuditEvents lenient opts = with_reader [] (on_sink (QueryEvents lenient True opts))"

definition auditSettings :: "(audit_reader, settings) step" where
  "auditSettings = with_reader DefaultSettings (on_sink (SettingsFromDB True))"

definition recentAuditEvents :: "(string \<Rightarrow> instant option) \<Rightarrow> int \<Rightarrow> (audit_reader, audit_event list) step" where
  "recentAuditEvents lenient limit = with_reader [] (on_sink (RecentEvents lenient True limit))"

definition auditStats :: "(audit_reader, audit_stats) step" where
  "auditStats = with_reader \<lparr>ss_Totals = zero_totals, ss_DroppedEvents = 0\<rparr> sink_Stats"

record query_page =
  pg_Limit :: int
  pg_Offset :: int
  pg_NextOffset :: "int option"
  pg_PreviousOffset :: "int option"
  pg_HasNext :: bool
  pg_HasPrevious :: bool
  pg_Sort :: string
  pg_Order :: string

definition first_page :: "query_options \<Rightarrow> int \<Rightarrow> query_page" where
  "first_page opts requestedLimit =
     \<lparr>pg_Limit = requestedLimit, pg_Offset = qo_Offset opts, pg_NextOffset = None,
      pg_PreviousOffset = (if qo_Offset opts > 0 then Some (max 0 (qo_Offset opts - requestedLimit)) else None),
      pg_HasNext = False, pg_HasPrevious = qo_Offset opts > 0,
      pg_Sort = canonicalQuerySort (qo_Sort opts), pg_Order = canonicalQueryOrder (qo_Order opts)\<rparr>"

text \<open>One event more than the limit is asked for, to know whether there is a next page.\<close>

definition queryAuditEventsPage ::
  "(string \<Rightarrow> instant option) \<Rightarrow> query_options \<Rightarrow> int \<Rightarrow> (audit_reader, audit_event list \<times> query_page) step" where
  "queryAuditEventsPage lenient opts requestedLimit =
     then_do (queryAuditEvents lenient (opts\<lparr>qo_Limit := requestedLimit + 1\<rparr>)) (\<lambda>events.
       let page = first_page opts requestedLimit in
       if int (length events) > requestedLimit
       then ret (take (nat requestedLimit) events, page\<lparr>pg_HasNext := True, pg_NextOffset := Some (qo_Offset opts + requestedLimit)\<rparr>)
       else ret (events, page))"

section \<open>The handlers\<close>

record query_event_response =
  qr_Timestamp :: time
  qr_ClientIP :: string
  qr_QueryName :: string
  qr_QueryType :: "16 word"
  qr_Action :: string
  qr_Reason :: string
  qr_Response :: string
  qr_DurationMS :: int
  qr_RuleID :: int
  qr_BlocklistID :: int
  qr_Upstream :: string
  qr_CacheStatus :: string
  qr_ForwardDurationMS :: int
  qr_RetryCount :: int
  qr_ForwardError :: string

definition clientIPString :: "audit_event \<Rightarrow> string" where
  "clientIPString e = (if \<not> addr_IsValid (ev_ClientIP e) then [] else addr_String (ev_ClientIP e))"

text \<open>\<open>Milliseconds\<close> truncates towards zero.\<close>

definition Milliseconds :: "duration \<Rightarrow> int" where
  "Milliseconds d = sgn d * (\<bar>d\<bar> div millisecond_ns)"

definition queryEventResponse :: "audit_event \<Rightarrow> query_event_response" where
  "queryEventResponse e =
     \<lparr>qr_Timestamp = ev_Timestamp e, qr_ClientIP = clientIPString e, qr_QueryName = ev_QueryName e, qr_QueryType = ev_QueryType e,
      qr_Action = ev_Action e, qr_Reason = ev_Reason e, qr_Response = ev_Response e, qr_DurationMS = Milliseconds (ev_Duration e),
      qr_RuleID = ev_RuleID e, qr_BlocklistID = ev_BlocklistID e, qr_Upstream = ev_Upstream e, qr_CacheStatus = ev_CacheStatus e,
      qr_ForwardDurationMS = Milliseconds (ev_ForwardDuration e), qr_RetryCount = ev_RetryCount e, qr_ForwardError = ev_ForwardError e\<rparr>"

definition queryEventResponses :: "audit_event list \<Rightarrow> query_event_response list" where
  "queryEventResponses events = map queryEventResponse events"

record settings_response =
  sr_PrivacyLevel :: int
  sr_RetentionDurationSeconds :: int
  sr_RetentionEnabled :: bool

datatype audit_body =
    AuditError string
  | QueriesBody "query_event_response list" query_page
  | SummaryBody int summary
  | SettingsBody settings_response
  | DeletedBody int

type_synonym audit_response = "nat \<times> audit_body"

definition auditError :: "nat \<Rightarrow> string \<Rightarrow> audit_response" where
  "auditError status code = (status, AuditError code)"

text \<open>
  \<open>handleQueries\<close> and \<open>handleAnalyticsQueries\<close>, which differ in the code of the error of the reader. A handler is a step whose error is the response of an error.
\<close>

definition or_fail :: "audit_response \<Rightarrow> ('s, 'a) step \<Rightarrow> 's \<Rightarrow> (audit_response + 'a) \<times> 's" where
  "or_fail res m s = (case m s of (Inl _, s) \<Rightarrow> (Inl res, s) | (Inr x, s) \<Rightarrow> (Inr x, s))"

definition list_queries :: "config_lib \<Rightarrow> string \<Rightarrow> string \<Rightarrow> url_values \<Rightarrow> audit_reader \<Rightarrow> audit_response \<times> audit_reader" where
  "list_queries lib unavailable meth values rd =
     (if meth \<noteq> ''GET'' then (auditError 405 ''method_not_allowed'', rd)
      else case parseQueriesLimit values of
        None \<Rightarrow> (auditError 400 ''invalid_limit'', rd)
      | Some limit \<Rightarrow>
      (case parseQueriesOffset values of
         None \<Rightarrow> (auditError 400 ''invalid_offset'', rd)
       | Some offset \<Rightarrow>
      (case parseQueryOptions lib values limit offset of
         None \<Rightarrow> (auditError 400 ''invalid_query_options'', rd)
       | Some opts \<Rightarrow>
      (case or_fail (auditError 500 unavailable) (queryAuditEventsPage (lib_lenientNano lib) opts limit) rd of
         (Inl res, rd) \<Rightarrow> (res, rd)
       | (Inr (events, pg), rd) \<Rightarrow>
      (case or_fail (auditError 500 unavailable) auditSettings rd of
         (Inl res, rd) \<Rightarrow> (res, rd)
       | (Inr settings, rd) \<Rightarrow>
           ((200, QueriesBody (queryEventResponses (ProjectEvents (st_PrivacyLevel settings) events)) pg), rd))))))"

definition handleQueries :: "config_lib \<Rightarrow> string \<Rightarrow> url_values \<Rightarrow> audit_reader \<Rightarrow> audit_response \<times> audit_reader" where
  "handleQueries lib = list_queries lib ''queries_unavailable''"

definition handleAnalyticsQueries :: "config_lib \<Rightarrow> string \<Rightarrow> url_values \<Rightarrow> audit_reader \<Rightarrow> audit_response \<times> audit_reader" where
  "handleAnalyticsQueries lib = list_queries lib ''analytics_unavailable''"

definition positive_param :: "string \<Rightarrow> (int \<Rightarrow> 'o \<Rightarrow> 'o) \<Rightarrow> 'o \<Rightarrow> 'o option" where
  "positive_param raw put opts =
     (if raw = [] then Some opts
      else (case Atoi raw of None \<Rightarrow> None | Some n \<Rightarrow> if n \<le> 0 then None else Some (put n opts)))"

definition parseSummaryOptions :: "config_lib \<Rightarrow> url_values \<Rightarrow> summary_options option" where
  "parseSummaryOptions lib query =
     apply_params
       [positive_param (values_Get query ''limit'') (\<lambda>n o'. o'\<lparr>so_TopLimit := n\<rparr>),
        positive_param (values_Get query ''bucket_count'') (\<lambda>n o'. o'\<lparr>so_BucketCount := n\<rparr>),
        positive_param (values_Get query ''bucket_seconds'') (\<lambda>n o'. o'\<lparr>so_BucketInterval := seconds_duration n\<rparr>),
        (\<lambda>o'. let raw = values_Get query ''since'' in
           if raw = [] then Some o' else map_option (\<lambda>t. o'\<lparr>so_Since := t\<rparr>) (time_Parse (lib_lenient lib) raw))]
       \<lparr>so_Since = None, so_TopLimit = 0, so_BucketCount = 0, so_BucketInterval = 0, so_Now = None\<rparr>"

text \<open>
  \<open>Summary\<close> is a call of the reader, through the cache when the options are the zero value; it is the argument \<open>read_summary\<close>.
\<close>

definition handleAnalyticsSummary ::
  "config_lib \<Rightarrow> (summary_options \<Rightarrow> sqlite_sink \<Rightarrow> summary result \<times> sqlite_sink) \<Rightarrow> string \<Rightarrow> url_values \<Rightarrow> audit_reader \<Rightarrow> audit_response \<times> audit_reader" where
  "handleAnalyticsSummary lib read_summary meth query rd =
     (if meth \<noteq> ''GET'' then (auditError 405 ''method_not_allowed'', rd)
      else case rd of
        None \<Rightarrow> (auditError 503 ''analytics_unavailable'', rd)
      | Some s \<Rightarrow>
      (case parseSummaryOptions lib query of
         None \<Rightarrow> (auditError 400 ''invalid_analytics_options'', rd)
       | Some opts \<Rightarrow>
      (case read_summary opts s of
         (Inl _, s) \<Rightarrow> (auditError 500 ''analytics_unavailable'', Some s)
       | (Inr summary, s) \<Rightarrow>
      (case or_fail (auditError 500 ''analytics_unavailable'') auditSettings (Some s) of
         (Inl res, rd) \<Rightarrow> (res, rd)
       | (Inr settings, rd) \<Rightarrow>
           ((200, SummaryBody (st_PrivacyLevel settings) (ProjectSummary (st_PrivacyLevel settings) summary)), rd)))))"

definition analyticsSettingsResponseFromAudit :: "settings \<Rightarrow> settings_response" where
  "analyticsSettingsResponseFromAudit st =
     \<lparr>sr_PrivacyLevel = st_PrivacyLevel st, sr_RetentionDurationSeconds = sgn (st_RetentionDuration st) * (\<bar>st_RetentionDuration st\<bar> div second_ns),
      sr_RetentionEnabled = st_RetentionDuration st > 0\<rparr>"

record settings_request =
  sq_PrivacyLevel :: "int option"
  sq_RetentionDurationSeconds :: "int option"

definition settings_request_fields :: "settings_request json_field list" where
  "settings_request_fields =
     [int_ptr ''privacy_level'' sq_PrivacyLevel (\<lambda>v q. q\<lparr>sq_PrivacyLevel := v\<rparr>),
      int_ptr ''retention_duration_seconds'' sq_RetentionDurationSeconds (\<lambda>v q. q\<lparr>sq_RetentionDurationSeconds := v\<rparr>)]"

text \<open>The settings that a request makes of the stored ones; \<^term>\<open>None\<close> when it is refused.\<close>

definition requested_settings :: "settings_request \<Rightarrow> settings \<Rightarrow> settings option" where
  "requested_settings req st =
     (let st = (case sq_PrivacyLevel req of None \<Rightarrow> st | Some level \<Rightarrow> st\<lparr>st_PrivacyLevel := level\<rparr>) in
      case sq_RetentionDurationSeconds req of
        None \<Rightarrow> Some st
      | Some n \<Rightarrow> if n < 0 then None else Some (st\<lparr>st_RetentionDuration := seconds_duration n\<rparr>))"

definition put_settings :: "instant \<Rightarrow> string \<Rightarrow> audit_reader \<Rightarrow> audit_response \<times> audit_reader" where
  "put_settings clock body rd =
     (if rd = None then (auditError 503 ''analytics_settings_unavailable'', rd)
      else case or_fail (auditError 500 ''analytics_settings_unavailable'') auditSettings rd of
        (Inl res, rd) \<Rightarrow> (res, rd)
      | (Inr st, rd) \<Rightarrow>
      (case decodeJSON settings_request_fields \<lparr>sq_PrivacyLevel = None, sq_RetentionDurationSeconds = None\<rparr> body of
         None \<Rightarrow> (auditError 400 ''invalid_json'', rd)
       | Some req \<Rightarrow>
      (case requested_settings req st of
         None \<Rightarrow> (auditError 400 ''invalid_analytics_settings'', rd)
       | Some st \<Rightarrow>
      (case or_fail (auditError 400 ''invalid_analytics_settings'') (with_reader () (sink_SetSettings clock st)) rd of
         (Inl res, rd) \<Rightarrow> (res, rd)
       | (Inr _, rd) \<Rightarrow> ((200, SettingsBody (analyticsSettingsResponseFromAudit st)), rd)))))"

definition handleAnalyticsSettings :: "instant \<Rightarrow> string \<Rightarrow> string \<Rightarrow> audit_reader \<Rightarrow> audit_response \<times> audit_reader" where
  "handleAnalyticsSettings clock meth body rd =
     (if meth = ''GET'' then
        (case or_fail (auditError 500 ''analytics_settings_unavailable'') auditSettings rd of
           (Inl res, rd) \<Rightarrow> (res, rd)
         | (Inr st, rd) \<Rightarrow> ((200, SettingsBody (analyticsSettingsResponseFromAudit st)), rd))
      else if meth = ''PUT'' then put_settings clock body rd
      else (auditError 405 ''method_not_allowed'', rd))"

definition handleAnalyticsCleanup :: "instant \<Rightarrow> string \<Rightarrow> audit_reader \<Rightarrow> audit_response \<times> audit_reader" where
  "handleAnalyticsCleanup clock meth rd =
     (if meth \<noteq> ''POST'' then (auditError 405 ''method_not_allowed'', rd)
      else case rd of
        None \<Rightarrow> (auditError 503 ''analytics_cleanup_unavailable'', rd)
      | Some s \<Rightarrow>
          (case sink_CleanupExpired clock (time_of clock) s of
             ((_, Some _), s) \<Rightarrow> (auditError 500 ''analytics_cleanup_unavailable'', Some s)
           | ((deleted, None), s) \<Rightarrow> ((200, DeletedBody deleted), Some s)))"

end
