(* ===== verification/Api_Properties.thy ===== *)
theory Api_Properties
  imports Audit_Api
begin

text \<open>
  What the handlers of \<open>internal/admin/api.go\<close> and \<open>internal/admin/analytics_api.go\<close> guarantee: a pause lasts as long as asked for, following the
  pages reaches every event, the settings are stored as asked for; and what a number of seconds does that does not fit.
\<close>

section \<open>Seconds\<close>

lemma seconds_wrap: "seconds_duration n = signed_take_bit 63 (n * second_ns)"
proof -
  have "(of_int n * of_int second_ns :: 64 word) = word_of_int (n * second_ns)" by simp
  then show ?thesis unfolding seconds_duration_def by (simp only: sint_sbintrunc') simp
qed

lemma seconds_fit:
  assumes "0 \<le> n" and "n * second_ns < 2 ^ 63"
  shows "seconds_duration n = n * second_ns"
  using assms by (simp add: seconds_wrap signed_take_bit_int_eq_self second_ns_def)

section \<open>The pause\<close>

lemma controller_Pause_ok:
  assumes "controller_Pause (Some (store_Load lib True, store_Save lib nils True written)) until d pw = (Inr st, d', pw')"
    and "pw_env pw = []" and "pw_ticks pw = []"
  shows "rt_pause (pw_runtime pw') =
      (case until of None \<Rightarrow> \<lparr>bp_Enabled = True, bp_Until = None\<rparr> | Some u \<Rightarrow> if u > pw_now pw then pause_until u else no_pause)"
    and "\<exists>c. stored_config lib d = Some c \<and> stored_config lib d' = Some (set_pause True (pause_text until) c)"
proof -
  have stored: "then_do (store_Load lib True) (\<lambda>c. store_Save lib nils True written (set_pause True (pause_text until) c)) d = (Inr (), d')"
    using assms(1) by (auto simp: controller_Pause_def controller_update_def split: prod.splits sum.splits)
  have "ints_ok (set_pause True (pause_text until) c)" if "stored_config lib d = Some c" for c
    using stored_ints [OF that] by (simp add: ints_ok_parts set_pause_def)
  then show "\<exists>c. stored_config lib d = Some c \<and> stored_config lib d' = Some (set_pause True (pause_text until) c)"
    by (rule sqlite_config.modify_stores [OF stored])
  let ?pw = "pw\<lparr>pw_runtime := (pw_runtime pw)\<lparr>rt_pause := \<lparr>bp_Enabled = True, bp_Until = until\<rparr>\<rparr>\<rparr>"
  have p: "PauseBlocking until pw = ?pw" using assms(2) by (simp add: PauseBlocking_def quiet_store)
  have b: "BlockingPause ?pw =
      (case until of
         None \<Rightarrow> (\<lparr>bp_Enabled = True, bp_Until = None\<rparr>, ?pw)
       | Some u \<Rightarrow> if u > pw_now pw then (pause_until u, ?pw) else (no_pause, ?pw\<lparr>pw_runtime := (pw_runtime ?pw)\<lparr>rt_pause := no_pause\<rparr>\<rparr>))"
    using assms(2,3) by (simp add: BlockingPause_def load_def interfere_def Let_def time_Now_def ResumeBlocking_def quiet_store pause_until_def split: option.split)
  have "pw' = snd (BlockingPause ?pw)"
    using assms(1,3) by (auto simp: controller_Pause_def controller_update_def p time_Now_def controller_Status_def case_prod_beta split: sum.splits)
  then show "rt_pause (pw_runtime pw') =
      (case until of None \<Rightarrow> \<lparr>bp_Enabled = True, bp_Until = None\<rparr> | Some u \<Rightarrow> if u > pw_now pw then pause_until u else no_pause)"
    unfolding b by (simp add: pause_until_def split: option.split)
qed

text \<open>
  C24: A pause of \<open>n\<close> seconds lasts \<open>n\<close> seconds, for every \<open>n\<close> up to 9223372036: when the request is answered with 200, the runtime
  does not block until \<open>n\<close> seconds from the time of the request, and the stored configuration has that pause and is otherwise unchanged.
\<close>

theorem pause_request_obeyed:
  assumes "handleBlockingStatus lib (Some (Some (store_Load lib True, store_Save lib nils True written))) r w = ((200, body), w')"
    and "rq_Method r = ''PUT''"
    and "decodeJSON blocking_request_fields no_request (rq_Body r) = Some \<lparr>br_Paused = Some True, br_DurationSeconds = Some n, br_PauseUntil = None\<rparr>"
    and "n \<le> 9223372036" and "pw_env (aw_plugin w) = []" and "pw_ticks (aw_plugin w) = []" and "0 \<le> pw_now (aw_plugin w)"
    and "until = pw_now (aw_plugin w) + n * second_ns"
  shows "rt_pause (pw_runtime (aw_plugin w')) = pause_until until \<and>
    (\<exists>c. stored_config lib (aw_store w) = Some c \<and> stored_config lib (aw_store w') = Some (set_pause True (format_RFC3339 until) c))"
proof -
  have n: "0 < n"
    using assms(1-3) by (auto simp: handleBlockingStatus_def put_blocking_def parseBlockingPauseUntil_def configError_def split: if_splits)
  then have d: "seconds_duration n = n * second_ns" using assms(4) by (intro seconds_fit) (simp_all add: second_ns_def)
  have u: "0 < n * second_ns" using n by (simp add: second_ns_def)
  then have t: "time_of until = Some until" using assms(7,8) by (simp add: time_of_def epoch_days_def second_ns_def)
  have p: "parseBlockingPauseUntil lib \<lparr>br_Paused = Some True, br_DurationSeconds = Some n, br_PauseUntil = None\<rparr> (aw_plugin w) =
      (Some (Some until), aw_plugin w)"
    using n d t assms(6,8) by (simp add: parseBlockingPauseUntil_def time_Now_def)
  obtain st d' pw' where run: "controller_Pause (Some (store_Load lib True, store_Save lib nils True written)) (Some until) (aw_store w) (aw_plugin w) =
      (Inr st, d', pw')" and w': "w' = w\<lparr>aw_store := d', aw_plugin := pw'\<rparr>"
    using assms(1-3) p by (auto simp: handleBlockingStatus_def put_blocking_def answer_status_def configError_def split: prod.splits sum.splits)
  show ?thesis
    using controller_Pause_ok [OF run assms(5,6)] u assms(8) w' by (simp add: pause_text_def)
qed

text \<open>Ten billion seconds are a negative duration: the pause is stored and the answer is 200, and blocking goes on.\<close>

lemma long_pause_is_none:
  assumes "handleBlockingStatus lib (Some (Some (store_Load lib True, store_Save lib nils True written))) r w = ((200, body), w')"
    and "rq_Method r = ''PUT''"
    and "decodeJSON blocking_request_fields no_request (rq_Body r) =
      Some \<lparr>br_Paused = Some True, br_DurationSeconds = Some 10000000000, br_PauseUntil = None\<rparr>"
    and "pw_env (aw_plugin w) = []" and "pw_ticks (aw_plugin w) = []" and "0 \<le> pw_now (aw_plugin w)"
  shows "rt_pause (pw_runtime (aw_plugin w')) = no_pause"
proof -
  have d: "seconds_duration 10000000000 = - 8446744073709551616"
    by (simp add: seconds_wrap second_ns_def signed_take_bit_eq_take_bit_shift take_bit_eq_mod)
  let ?u = "pw_now (aw_plugin w) - 8446744073709551616"
  have t: "time_of ?u = Some ?u" using assms(6) by (simp add: time_of_def epoch_days_def second_ns_def)
  have p: "parseBlockingPauseUntil lib \<lparr>br_Paused = Some True, br_DurationSeconds = Some 10000000000, br_PauseUntil = None\<rparr> (aw_plugin w) =
      (Some (Some ?u), aw_plugin w)"
    using d t assms(5) by (simp add: parseBlockingPauseUntil_def time_Now_def)
  obtain st d' pw' where run: "controller_Pause (Some (store_Load lib True, store_Save lib nils True written)) (Some ?u) (aw_store w) (aw_plugin w) =
      (Inr st, d', pw')" and w': "w' = w\<lparr>aw_store := d', aw_plugin := pw'\<rparr>"
    using assms(1-3) p by (auto simp: handleBlockingStatus_def put_blocking_def answer_status_def configError_def split: prod.splits sum.splits)
  show ?thesis using controller_Pause_ok(1) [OF run assms(4,5)] w' by simp
qed

definition minute_pause :: request where
  "minute_pause = \<lparr>rq_Method = ''PUT'', rq_Path = ''/api/blocking/status'', rq_Cookie = None, rq_Authorization = [], rq_APIKey = [],
     rq_Body = Marshal (JObj [(''paused'', JBool True), (''duration_seconds'', JNum ''60'')])\<rparr>"

abbreviation default_ops :: "config_db store_ops" where
  "default_ops \<equiv> Some (store_Load demo_lib True, store_Save demo_lib no_nils True [])"

lemma minute_pause_decoded:
  "decodeJSON blocking_request_fields no_request (rq_Body minute_pause) = Some \<lparr>br_Paused = Some True, br_DurationSeconds = Some 60, br_PauseUntil = None\<rparr>"
  by code_simp

theorem pause_request_obeyed_witness:
  "\<exists>body w'. handleBlockingStatus demo_lib (Some default_ops) minute_pause (default_world []) = ((200, body), w') \<and>
     rt_pause (pw_runtime (aw_plugin w')) = pause_until 60000000100"
proof -
  let ?c = "set_pause True (format_RFC3339 60000000100) Default"
  have y: "year_of 60000000100 = 1970" by code_simp
  have v: "Validate demo_lib ?c = ok" by (rule validate_pause [OF Default_valid]) (simp_all add: y)
  have sv: "store_Save demo_lib no_nils True [] ?c (stored_default []) =
      (Inr (), (stored_default [])\<lparr>db_tables := Some \<lparr>ac_payload = encode_config no_nils ?c, ac_updated_at = []\<rparr>\<rparr>)"
    by (simp add: store_Save_def then_do_def wrap_err_def sql_run_no_fault v stored_default_def)
  have d: "seconds_duration 60 = 60 * second_ns" by (rule seconds_fit) (simp_all add: second_ns_def)
  have quiet: "pw_env (aw_plugin (default_world [])) = []" "pw_ticks (aw_plugin (default_world [])) = []" "pw_now (aw_plugin (default_world [])) = 100"
    by (simp_all add: default_world_def quiet_world_def)
  have p: "parseBlockingPauseUntil demo_lib \<lparr>br_Paused = Some True, br_DurationSeconds = Some 60, br_PauseUntil = None\<rparr> (aw_plugin (default_world [])) =
      (Some (Some 60000000100), aw_plugin (default_world []))"
    using d quiet by (simp add: parseBlockingPauseUntil_def time_Now_def time_of_def epoch_days_def second_ns_def)
  have m: "rq_Method minute_pause = ''PUT''" by (simp add: minute_pause_def)
  obtain body w' where run: "handleBlockingStatus demo_lib (Some default_ops) minute_pause (default_world []) = ((200, body), w')"
    using minute_pause_decoded p
    by (simp add: handleBlockingStatus_def put_blocking_def controller_Pause_def controller_update_def then_do_def default_store default_loads
        pause_text_def sv answer_status_def case_prod_beta m)
  show ?thesis
    using pause_request_obeyed [OF run _ minute_pause_decoded _ quiet(1,2)] run quiet(3) m by (simp add: second_ns_def)
qed

section \<open>Pages\<close>

text \<open>A client that follows the offsets: the pages it gets, none when a request fails or the fuel ends.\<close>

fun follow_pages :: "nat \<Rightarrow> (string \<Rightarrow> instant option) \<Rightarrow> query_options \<Rightarrow> int \<Rightarrow> audit_reader \<Rightarrow> audit_event list list option" where
  "follow_pages 0 lenient opts limit rd = None"
| "follow_pages (Suc fuel) lenient opts limit rd =
     (case queryAuditEventsPage lenient opts limit rd of
        (Inl _, _) \<Rightarrow> None
      | (Inr (events, pg), rd) \<Rightarrow>
          (case pg_NextOffset pg of
             None \<Rightarrow> Some [events]
           | Some offset \<Rightarrow> map_option ((#) events) (follow_pages fuel lenient (opts\<lparr>qo_Offset := offset\<rparr>) limit rd)))"

definition whole_log :: "(string \<Rightarrow> instant option) \<Rightarrow> string \<Rightarrow> string \<Rightarrow> query_options \<Rightarrow> audit_db \<Rightarrow> audit_event list" where
  "whole_log lenient column order opts d = map (row_event lenient) (ordered column order (filter (selected opts) (event_rows d)))"

lemma selected_limit [simp]: "selected (qo\<lparr>qo_Limit := l\<rparr>) = selected qo" "selected (qo\<lparr>qo_Offset := off\<rparr>) = selected qo"
  by (simp_all add: fun_eq_iff selected_def conditions_def)

lemma one_more:
  assumes "0 < limit"
  shows "int (length (take (Suc (nat limit)) xs)) > limit \<longleftrightarrow> int (length xs) > limit"
    and "take (nat limit) (take (Suc (nat limit)) xs) = take (nat limit) xs"
    and "\<not> int (length xs) > limit \<Longrightarrow> take (Suc (nat limit)) xs = xs"
  using assms by auto

lemma page_at:
  assumes "db_faults (sk_db s) = []" and "0 < limit" and "0 \<le> qo_Offset opts"
    and "querySortColumn (qo_Sort opts) = Inr column" and "querySortOrder (qo_Order opts) = Inr order"
    and "list_all (readable lenient) (event_rows (sk_db s))"
  shows "queryAuditEventsPage lenient opts limit (Some s) =
    (let rest = drop (nat (qo_Offset opts)) (whole_log lenient column order opts (sk_db s)) in
     if int (length rest) > limit
     then (Inr (take (nat limit) rest, (first_page opts limit)\<lparr>pg_HasNext := True, pg_NextOffset := Some (qo_Offset opts + limit)\<rparr>), Some s)
     else (Inr (rest, first_page opts limit), Some s))"
proof -
  let ?opts = "opts\<lparr>qo_Limit := limit + 1\<rparr>"
  let ?rest = "drop (nat (qo_Offset opts)) (whole_log lenient column order opts (sk_db s))"
  have n: "nat (limit + 1) = Suc (nat limit)" using assms(2) by simp
  have q: "QueryEvents lenient True ?opts (sk_db s) = (Inr (take (Suc (nat limit)) ?rest), sk_db s)"
    using QueryEvents_readable [of "sk_db s" ?opts column order lenient] assms
    by (simp add: query_rows_def page_def n whole_log_def take_map drop_map event_rows_def)
  have "queryAuditEvents lenient ?opts (Some s) = (Inr (take (Suc (nat limit)) ?rest), Some s)"
    by (simp add: queryAuditEvents_def with_reader_def on_sink_def q)
  then show ?thesis
    using one_more [OF assms(2), of ?rest] by (simp add: queryAuditEventsPage_def then_do_def Let_def del: take_Suc length_take take_take length_drop)
qed

lemma whole_log_offset [simp]: "whole_log lenient column order (opts\<lparr>qo_Offset := off\<rparr>) d = whole_log lenient column order opts d"
  by (simp add: whole_log_def)

lemma follow_pages_rest:
  assumes "db_faults (sk_db s) = []" and "0 < limit"
    and "querySortColumn (qo_Sort opts) = Inr column" and "querySortOrder (qo_Order opts) = Inr order"
    and "list_all (readable lenient) (event_rows (sk_db s))"
    and "0 \<le> qo_Offset opts" and "length (drop (nat (qo_Offset opts)) (whole_log lenient column order opts (sk_db s))) < fuel"
  shows "\<exists>pages. follow_pages fuel lenient opts limit (Some s) = Some pages \<and>
    concat pages = drop (nat (qo_Offset opts)) (whole_log lenient column order opts (sk_db s)) \<and> list_all (\<lambda>p. int (length p) \<le> limit) pages"
  using assms(3-7)
proof (induction fuel arbitrary: opts)
  case (Suc fuel)
  let ?M = "whole_log lenient column order opts (sk_db s)" and ?off = "qo_Offset opts"
  let ?rest = "drop (nat ?off) ?M"
  note at = page_at [OF assms(1,2) Suc.prems(4,1-3), unfolded Let_def]
  show ?case
  proof (cases "int (length ?rest) > limit")
    case False
    then show ?thesis by (simp add: at first_page_def del: length_drop)
  next
    case True
    let ?next = "opts\<lparr>qo_Offset := ?off + limit\<rparr>"
    have n: "nat (?off + limit) = nat limit + nat ?off" using assms(2) Suc.prems(4) by simp
    have rest: "drop (nat (?off + limit)) ?M = drop (nat limit) ?rest" by (simp add: n)
    have "0 < nat limit" using assms(2) by simp
    then have "length (drop (nat (?off + limit)) ?M) < fuel"
      using Suc.prems(5) True unfolding rest length_drop [of "nat limit"] by linarith
    then obtain pages where p: "follow_pages fuel lenient ?next limit (Some s) = Some pages" "concat pages = drop (nat (?off + limit)) ?M"
      "list_all (\<lambda>p. int (length p) \<le> limit) pages"
      using Suc.IH [of ?next] Suc.prems(1-4) assms(2) by auto
    have "follow_pages (Suc fuel) lenient opts limit (Some s) = Some (take (nat limit) ?rest # pages)"
      using True p(1) by (simp add: at del: length_drop)
    moreover have "concat (take (nat limit) ?rest # pages) = ?rest" unfolding concat.simps p(2) rest by (rule append_take_drop_id)
    moreover have "int (length (take (nat limit) ?rest)) \<le> limit" using assms(2) by simp
    ultimately show ?thesis using p(3) by auto
  qed
qed simp

text \<open>
  C23: Following the pages of the query log reaches every event: a client that starts at the beginning and goes on with \<open>next_offset\<close> gets, with any limit,
  finitely many pages of at most that many events, which put together are the whole of the selected events in the order asked for, when the log does not change meanwhile.
\<close>

theorem pages_reach_every_event:
  assumes "db_faults (sk_db s) = []" and "0 < limit" and "qo_Offset opts = 0"
    and "querySortColumn (qo_Sort opts) = Inr column" and "querySortOrder (qo_Order opts) = Inr order"
    and "list_all (readable lenient) (event_rows (sk_db s))"
  shows "\<exists>pages. follow_pages (Suc (length (event_rows (sk_db s)))) lenient opts limit (Some s) = Some pages \<and>
    concat pages = map (row_event lenient) (ordered column order (filter (selected opts) (event_rows (sk_db s)))) \<and>
    list_all (\<lambda>p. int (length p) \<le> limit) pages"
proof -
  have "length (ordered column order rows) = length rows" for rows by (simp add: ordered_def Let_def)
  then have "length (whole_log lenient column order opts (sk_db s)) \<le> length (event_rows (sk_db s))" by (simp add: whole_log_def)
  then show ?thesis using follow_pages_rest [OF assms(1,2,4-6), of "Suc (length (event_rows (sk_db s)))"] assms(3) by (simp add: whole_log_def)
qed

definition demo_sink :: "audit_db \<Rightarrow> sqlite_sink" where
  "demo_sink d = projr (NewSQLiteSink (Some d) [])"

lemma demo_sink_db [simp]: "sk_db (demo_sink d) = d"
  by (simp add: demo_sink_def NewSQLiteSink_def)

theorem pages_reach_every_event_witness:
  "\<exists>pages. follow_pages 3 (\<lambda>_. None) no_options 1 (Some (demo_sink demo_log)) = Some pages \<and> length (concat pages) = 2"
proof -
  have rows: "length (event_rows demo_log) = 2"
    using demo_tables by (simp add: event_rows_def batch_tables_def append_rows_def empty_audit_def empty_table_def)
  have o: "qo_Offset no_options = 0" "querySortColumn (qo_Sort no_options) = Inr ''timestamp''" "querySortOrder (qo_Order no_options) = Inr ''DESC''"
    by (simp_all add: no_options_def querySortColumn_def sort_columns_def querySortOrder_def)
  have n: "Suc (length (event_rows (sk_db (demo_sink demo_log)))) = 3" using rows by simp
  have d: "db_faults (sk_db (demo_sink demo_log)) = []" "list_all (readable (\<lambda>_. None)) (event_rows (sk_db (demo_sink demo_log)))"
    using demo_insert demo_readable by (simp_all add: event_rows_def)
  obtain pages where p: "follow_pages 3 (\<lambda>_. None) no_options 1 (Some (demo_sink demo_log)) = Some pages"
    and c: "concat pages = map (row_event (\<lambda>_. None)) (ordered ''timestamp'' ''DESC'' (filter (selected no_options) (event_rows demo_log)))"
    using pages_reach_every_event [OF d(1) _ o d(2), of 1, unfolded n] by auto
  have "selected no_options = (\<lambda>_. True)" by (simp add: fun_eq_iff selected_def conditions_def condition_def no_options_def)
  moreover have "length (ordered column order xs) = length xs" for column order xs by (simp add: ordered_def Let_def)
  ultimately show ?thesis using p c rows by simp
qed

section \<open>The retention\<close>

lemma auditSettings_read:
  assumes "auditSettings (Some s) = (Inr st, rd)"
  shows "\<exists>s1. rd = Some s1 \<and> db_tables (sk_db s1) = db_tables (sk_db s) \<and>
      st = (case au_settings (db_tables (sk_db s)) of
                 None \<Rightarrow> DefaultSettings
               | Some row \<Rightarrow> \<lparr>st_RetentionDuration = as_retention_duration_ns row, st_PrivacyLevel = as_privacy_level row\<rparr>)"
proof -
  obtain d1 where f: "SettingsFromDB True (sk_db s) = (Inr st, d1)" and rd: "rd = Some (s\<lparr>sk_db := d1\<rparr>)"
    using assms by (auto simp: auditSettings_def with_reader_def on_sink_def split: prod.splits)
  then obtain row d2 where q: "sql_query_row au_settings (sk_db s) = (Inr row, d2)"
    and rest: "(case row of None \<Rightarrow> ret DefaultSettings
        | Some r \<Rightarrow> then_do (lift_result (validateSettings \<lparr>st_RetentionDuration = as_retention_duration_ns r, st_PrivacyLevel = as_privacy_level r\<rparr>))
            (\<lambda>_. ret \<lparr>st_RetentionDuration = as_retention_duration_ns r, st_PrivacyLevel = as_privacy_level r\<rparr>)) d2 = (Inr st, d1)"
    by (auto simp: SettingsFromDB_def Let_def then_do_eq_Inr wrap_err_Inr)
  have "db_tables d1 = db_tables d2" "st = (case row of
                 None \<Rightarrow> DefaultSettings
               | Some row \<Rightarrow> \<lparr>st_RetentionDuration = as_retention_duration_ns row, st_PrivacyLevel = as_privacy_level row\<rparr>)"
    using rest by (cases row; auto simp: then_do_eq_Inr)+
  then show ?thesis using rd sql_query_row_ok [OF q] by simp
qed

abbreviation no_settings_request :: settings_request where
  "no_settings_request \<equiv> \<lparr>sq_PrivacyLevel = None, sq_RetentionDurationSeconds = None\<rparr>"

text \<open>A request for settings that went well: the row it leaves.\<close>

lemma put_settings_ok:
  assumes "handleAnalyticsSettings clock ''PUT'' body (Some s) = ((200, b), rd')"
    and "decodeJSON settings_request_fields no_settings_request body =
      Some \<lparr>sq_PrivacyLevel = p, sq_RetentionDurationSeconds = Some n\<rparr>"
  shows "\<exists>s' level stamp. rd' = Some s' \<and> 0 \<le> n \<and> 0 \<le> seconds_duration n \<and>
      db_tables (sk_db s') = (db_tables (sk_db s))\<lparr>au_settings :=
      Some \<lparr>as_retention_duration_ns = seconds_duration n, as_privacy_level = level, as_updated_at = stamp\<rparr>\<rparr>"
proof -
  obtain st rd1 where a: "auditSettings (Some s) = (Inr st, rd1)"
    using assms(1) by (auto simp: handleAnalyticsSettings_def put_settings_def or_fail_def auditError_def split: prod.splits sum.splits)
  obtain s1 where s1: "rd1 = Some s1" "db_tables (sk_db s1) = db_tables (sk_db s)" using auditSettings_read [OF a] by blast
  let ?st = "(case p of None \<Rightarrow> st | Some level \<Rightarrow> st\<lparr>st_PrivacyLevel := level\<rparr>)\<lparr>st_RetentionDuration := seconds_duration n\<rparr>"
  have n: "0 \<le> n" and r: "requested_settings \<lparr>sq_PrivacyLevel = p, sq_RetentionDurationSeconds = Some n\<rparr> st = Some ?st"
    using assms a s1 by (auto simp: handleAnalyticsSettings_def put_settings_def or_fail_def auditError_def requested_settings_def Let_def
        split: if_splits)
  obtain d' where set: "SetSettings True clock ?st (sk_db s1) = (Inr (), d')"
    and rd': "rd' = Some (s1\<lparr>sk_db := d', sk_cache := cache_invalidate (sk_cache s1)\<rparr>)"
    using assms a s1 r
    by (auto simp: handleAnalyticsSettings_def put_settings_def or_fail_def auditError_def with_reader_def sink_SetSettings_def split: prod.splits sum.splits)
  have v: "validateSettings ?st = Inr ()"
    and w: "sql_run (\<lambda>tb. let r = \<lparr>as_retention_duration_ns = seconds_duration n, as_privacy_level = st_PrivacyLevel ?st,
                     as_updated_at = format_RFC3339Nano clock\<rparr> in
            if check_settings r then Inr ((), tb\<lparr>au_settings := Some r\<rparr>) else Inl (constraint_error ''audit_settings'')) (sk_db s1) = (Inr (), d')"
    using set by (auto simp: SetSettings_def then_do_eq_Inr wrap_err_Inr lift_result_def Let_def split: sum.splits)
  have "0 \<le> seconds_duration n" using v by (simp add: validateSettings_def split: if_splits)
  moreover have "db_tables d' = (db_tables (sk_db s1))\<lparr>au_settings := Some \<lparr>as_retention_duration_ns = seconds_duration n,
      as_privacy_level = st_PrivacyLevel ?st, as_updated_at = format_RFC3339Nano clock\<rparr>\<rparr>"
    using sql_run_ok [OF w] by (auto simp: Let_def split: if_splits)
  ultimately show ?thesis using rd' n s1(2) by simp blast
qed

lemma cleanup_with_settings:
  assumes "handleAnalyticsCleanup now ''POST'' (Some s) = ((200, b), rd')"
    and "au_settings (db_tables (sk_db s)) = Some row"
  shows "\<exists>s' k d. rd' = Some s' \<and> db_tables d = db_tables (sk_db s) \<and>
    CleanupOlderThan True now (as_retention_duration_ns row) (time_of now) d = ((k, None), sk_db s')"
proof -
  obtain k s' where "sink_CleanupExpired now (time_of now) s = ((k, None), s')" and rd': "rd' = Some s'"
    using assms(1) by (auto simp: handleAnalyticsCleanup_def auditError_def split: prod.splits option.splits)
  then have c: "CleanupExpired True now (time_of now) (sk_db s) = ((k, None), sk_db s')"
    by (auto simp: sink_CleanupExpired_def split: prod.splits)
  then obtain st d where st: "SettingsFromDB True (sk_db s) = (Inr st, d)"
    and older: "CleanupOlderThan True now (st_RetentionDuration st) (time_of now) d = ((k, None), sk_db s')"
    by (auto simp: CleanupExpired_def split: prod.splits sum.splits)
  have "auditSettings (Some s) = (Inr st, Some (s\<lparr>sk_db := d\<rparr>))" by (simp add: auditSettings_def with_reader_def on_sink_def st)
  from auditSettings_read [OF this] have "db_tables d = db_tables (sk_db s)" "st_RetentionDuration st = as_retention_duration_ns row"
    using assms(2) by auto
  then show ?thesis using older rd' by metis
qed

text \<open>
  C25: A retention of \<open>n\<close> seconds keeps the log for \<open>n\<close> seconds, for every \<open>n\<close> up to 9223372036, to whole seconds: when the settings were answered
  with 200, a cleanup that is answered with 200 later deletes every event of a whole second before that of the cutoff, which is \<open>n\<close>
  seconds before the cleanup, and no event of a whole second after it. An event in the very second of the cutoff can go either
  way, so one that is younger by less than a second can be deleted (\<open>cleanup_deletes_younger_event\<close>).
\<close>

theorem retention_request_obeyed:
  assumes "handleAnalyticsSettings clock ''PUT'' body (Some s) = ((200, b), Some s1)"
    and "decodeJSON settings_request_fields no_settings_request body =
      Some \<lparr>sq_PrivacyLevel = p, sq_RetentionDurationSeconds = Some n\<rparr>"
    and "handleAnalyticsCleanup now ''POST'' (Some s1) = ((200, b'), Some s2)"
    and "0 < n" and "n \<le> 9223372036" and "0 \<le> now" and "table_ok ar_id (au_events (db_tables (sk_db s)))"
    and "cutoff = now - n * second_ns" and "in_range cutoff" and "r \<in> set (event_rows (sk_db s))" and "row_at r t"
  shows "(r \<in> set (event_rows (sk_db s2)) \<or> t div second_ns \<le> cutoff div second_ns) \<and>
    (r \<notin> set (event_rows (sk_db s2)) \<or> cutoff div second_ns \<le> t div second_ns)"
proof -
  obtain level stamp where t1: "db_tables (sk_db s1) = (db_tables (sk_db s))\<lparr>au_settings :=
      Some \<lparr>as_retention_duration_ns = seconds_duration n, as_privacy_level = level, as_updated_at = stamp\<rparr>\<rparr>"
    using put_settings_ok [OF assms(1,2)] by auto
  have d: "seconds_duration n = n * second_ns" using assms(4,5) by (intro seconds_fit) (simp_all add: second_ns_def)
  obtain k d where d1: "db_tables d = db_tables (sk_db s1)"
    and run: "CleanupOlderThan True now (n * second_ns) (time_of now) d = ((k, None), sk_db s2)"
    using cleanup_with_settings [OF assms(3), of "\<lparr>as_retention_duration_ns = seconds_duration n, as_privacy_level = level, as_updated_at = stamp\<rparr>"]
      t1 d by auto
  have now: "time_of now = Some now" using assms(6) by (simp add: time_of_def epoch_days_def second_ns_def)
  have "table_ok ar_id (au_events (db_tables d))" "r \<in> set (event_rows d)" using d1 t1 assms(7,10) by (simp_all add: event_rows_def)
  moreover have "cutoff = stamped now (time_of now) - n * second_ns" using assms(8) now by (simp add: stamped_def)
  ultimately show ?thesis
    using cleanup_keeps_retention [OF _ run _ _ assms(9) _ assms(11)] assms(4) by (force simp: second_ns_def)
qed

text \<open>18446744074 seconds, 584 years, are stored as three tenths of a second, and the answer is 200.\<close>

lemma long_retention_is_short:
  assumes "handleAnalyticsSettings clock ''PUT'' body (Some s) = ((200, b), Some s1)"
    and "decodeJSON settings_request_fields no_settings_request body =
      Some \<lparr>sq_PrivacyLevel = p, sq_RetentionDurationSeconds = Some 18446744074\<rparr>"
  shows "\<exists>row. au_settings (db_tables (sk_db s1)) = Some row \<and> as_retention_duration_ns row = 290448384"
proof -
  have "seconds_duration 18446744074 = 290448384"
    by (simp add: seconds_wrap second_ns_def signed_take_bit_eq_take_bit_shift take_bit_eq_mod)
  then show ?thesis using put_settings_ok [OF assms] by fastforce
qed

definition second_body :: string where
  "second_body = Marshal (JObj [(''retention_duration_seconds'', JNum ''1'')])"

definition kept_second :: audit_db where
  "kept_second = (sample_db [second_ns, 5 * second_ns])\<lparr>db_tables := (db_tables (sample_db [second_ns, 5 * second_ns]))\<lparr>au_settings :=
     Some \<lparr>as_retention_duration_ns = second_ns, as_privacy_level = 0, as_updated_at = format_RFC3339Nano 0\<rparr>\<rparr>\<rparr>"

lemma second_body_decoded:
  "decodeJSON settings_request_fields no_settings_request second_body = Some \<lparr>sq_PrivacyLevel = None, sq_RetentionDurationSeconds = Some 1\<rparr>"
  by code_simp

lemma second_put:
  "\<exists>b s1. handleAnalyticsSettings 0 ''PUT'' second_body (Some (demo_sink (sample_db [second_ns, 5 * second_ns]))) = ((200, b), Some s1) \<and>
     sk_db s1 = kept_second"
proof -
  let ?d = "sample_db [second_ns, 5 * second_ns]"
  have none: "au_settings (db_tables ?d) = None" by (simp add: sample_db_def)
  have "seconds_duration 1 = second_ns" by (simp add: seconds_fit second_ns_def)
  then have r: "requested_settings \<lparr>sq_PrivacyLevel = None, sq_RetentionDurationSeconds = Some 1\<rparr> DefaultSettings =
      Some \<lparr>st_RetentionDuration = second_ns, st_PrivacyLevel = 0\<rparr>"
    by (simp add: requested_settings_def DefaultSettings_def)
  have f: "SettingsFromDB True ?d = (Inr DefaultSettings, ?d)"
    by (simp add: SettingsFromDB_def then_do_def wrap_err_def sample_db_ok none)
  have w: "SetSettings True 0 \<lparr>st_RetentionDuration = second_ns, st_PrivacyLevel = 0\<rparr> ?d = (Inr (), kept_second)"
    by (simp add: SetSettings_def then_do_def wrap_err_def sql_run_no_fault sample_db_ok Let_def validateSettings_def check_settings_def second_ns_def
        PrivacyLevelFull_def PrivacyLevelHideClientAndDomain_def kept_second_def)
  show ?thesis
    by (simp add: handleAnalyticsSettings_def put_settings_def or_fail_def auditSettings_def with_reader_def on_sink_def f second_body_decoded r
        sink_SetSettings_def w)
qed

theorem retention_request_obeyed_witness:
  "\<exists>b s1 b' s2. handleAnalyticsSettings 0 ''PUT'' second_body (Some (demo_sink (sample_db [second_ns, 5 * second_ns]))) = ((200, b), Some s1) \<and>
     handleAnalyticsCleanup (3 * second_ns) ''POST'' (Some s1) = ((200, b'), Some s2) \<and>
     sample_row 1 second_ns \<notin> set (event_rows (sk_db s2)) \<and> sample_row 2 (5 * second_ns) \<in> set (event_rows (sk_db s2))"
proof -
  let ?s = "demo_sink (sample_db [second_ns, 5 * second_ns])" and ?now = "3 * second_ns"
  obtain b s1 where put: "handleAnalyticsSettings 0 ''PUT'' second_body (Some ?s) = ((200, b), Some s1)" and k: "sk_db s1 = kept_second"
    using second_put by blast
  have k_facts: "db_faults kept_second = []"
    "au_settings (db_tables kept_second) = Some \<lparr>as_retention_duration_ns = second_ns, as_privacy_level = 0, as_updated_at = format_RFC3339Nano 0\<rparr>"
    by (simp_all add: kept_second_def sample_db_ok)
  have f: "SettingsFromDB True kept_second = (Inr \<lparr>st_RetentionDuration = second_ns, st_PrivacyLevel = 0\<rparr>, kept_second)"
    by (simp add: SettingsFromDB_def then_do_def wrap_err_def k_facts validateSettings_def second_ns_def PrivacyLevelFull_def PrivacyLevelHideClientAndDomain_def)
  obtain n d' where "CleanupOlderThan True ?now second_ns (time_of ?now) kept_second = ((n, None), d')"
    using cleanup_loop_no_fault [OF k_facts(1), of "format_RFC3339Nano (stamped ?now (time_of ?now) - second_ns)" 0]
    by (auto simp: CleanupOlderThan_def cleanupOlderThan_def second_ns_def)
  then obtain b' s2 where cl: "handleAnalyticsCleanup ?now ''POST'' (Some s1) = ((200, b'), Some s2)"
    by (simp add: handleAnalyticsCleanup_def sink_CleanupExpired_def CleanupExpired_def k f)
  have rows: "sample_row 1 second_ns \<in> set (event_rows (sk_db ?s))" "sample_row 2 (5 * second_ns) \<in> set (event_rows (sk_db ?s))"
    by (simp_all add: sample_db_def event_rows_def)
  have at: "row_at (sample_row i t) t" if "in_range t" for i t
    using that by (simp add: row_at_def sample_row_def event_row_def set_row_id_def stamped_def)
  have range: "in_range second_ns" "in_range (2 * second_ns)" "in_range (5 * second_ns)" by code_simp+
  have c: "2 * second_ns = ?now - 1 * second_ns" by simp
  have ok: "table_ok ar_id (au_events (db_tables (sk_db ?s)))" by (simp add: sample_db_ok)
  have now: "0 \<le> ?now" by (simp add: second_ns_def)
  note obeyed = retention_request_obeyed [OF put second_body_decoded cl _ _ now ok c range(2)]
  show ?thesis
    using put cl obeyed [OF _ _ rows(1) at [OF range(1)]] obeyed [OF _ _ rows(2) at [OF range(3)]] by (auto simp: second_ns_def)
qed

end
