(* ===== verification/Filter_Api.thy ===== *)
theory Filter_Api
  imports Audit_Api Filter_Crud Refresh_Jobs
begin

text \<open>
  \<open>internal/admin/filter_api.go\<close> and the handlers of \<open>filter_jobs.go\<close>: the filters over HTTP. A handler decodes the request, calls the service, and
  reloads the deciders of the running process before it answers a change; the refresh of a list is submitted to the queue of the refresh jobs.
  \<open>filterService\<close> and \<open>filterReloader\<close> may be nil; the environment says it. A nil \<open>*time.Time\<close> and a pointer to the zero time are one value. Headers
  other than the status are left out.
\<close>

section \<open>The world of the handlers\<close>

record ('r, 'w) filter_world =
  fa_io :: "filter_db db io"
  fa_rl :: reloader
  fa_pw :: "(decider_ref, 'r, 'w) plugin_world"
  fa_jobs :: "refresh_jobs option"

text \<open>
  \<open>fe_clock\<close>, \<open>fe_random\<close> and \<open>fe_order\<close> are what the queue of refreshes reads: the clock, \<open>rand.Read\<close> and the order in which Go visits the jobs.
\<close>

record filter_api_env =
  fe_rx :: regexp_engine
  fe_now :: time
  fe_lib :: config_lib
  fe_service :: bool
  fe_reloader :: bool
  fe_jobs_provided :: bool
  fe_clock :: instant
  fe_random :: "8 word list result"
  fe_order :: "refresh_job list"

datatype filter_body =
    FilterError string
  | PlainNotFound
  | NoContent
  | ListBody filter_list
  | ListsBody "filter_list list"
  | EntryBody list_entry
  | EntriesBody "list_entry list"
  | RuleBody rule
  | RulesBody "rule list"
  | ClientBody client
  | ClientsBody "client list"
  | GroupBody group
  | GroupsBody "group list"
  | JobBody refresh_job
  | JobsBody "refresh_job list"

type_synonym filter_response = "nat \<times> filter_body"
type_synonym ('r, 'w) filter_handler = "('r, 'w) filter_world \<Rightarrow> filter_response \<times> ('r, 'w) filter_world"

definition filterError :: "nat \<Rightarrow> string \<Rightarrow> filter_response" where
  "filterError status code = (status, FilterError code)"

definition NotFound :: filter_response where
  "NotFound = (404, PlainNotFound)"

definition answer :: "filter_response \<Rightarrow> ('r, 'w) filter_handler" where
  "answer res w = (res, w)"

definition writeFilterError :: "go_error \<Rightarrow> string \<Rightarrow> filter_response" where
  "writeFilterError err fallback =
     (if errors_Is err ErrInvalidInput then filterError 400 ''invalid_filter''
      else if errors_Is err ErrNotFound then filterError 404 ''filter_not_found''
      else filterError 500 fallback)"

text \<open>A call of the service whose error is the response, and what follows a success.\<close>

definition serve ::
  "'a repo \<Rightarrow> string \<Rightarrow> ('a \<Rightarrow> ('r, 'w) filter_handler) \<Rightarrow> ('r, 'w) filter_handler" where
  "serve m fallback k w =
     (case m (io_world (fa_io w)) of
        (Inl err, d) \<Rightarrow> (writeFilterError err fallback, w\<lparr>fa_io := (fa_io w)\<lparr>io_world := d\<rparr>\<rparr>)
      | (Inr x, d) \<Rightarrow> k x (w\<lparr>fa_io := (fa_io w)\<lparr>io_world := d\<rparr>\<rparr>))"

definition reloadFilterRuntime :: "filter_api_env \<Rightarrow> ('r, 'w) filter_world \<Rightarrow> unit result \<times> ('r, 'w) filter_world" where
  "reloadFilterRuntime env w =
     (if \<not> fe_reloader env then (Inr (), w)
      else (case filters_Reload (fe_rx env) (fe_now env) (fa_rl w) (fa_io w) (fa_pw w) of
          (r, rl, io, pw) \<Rightarrow> (r, w\<lparr>fa_rl := rl, fa_io := io, fa_pw := pw\<rparr>)))"

definition reloaded :: "filter_api_env \<Rightarrow> filter_response \<Rightarrow> ('r, 'w) filter_handler" where
  "reloaded env res w =
     (case reloadFilterRuntime env w of
        (Inl _, w) \<Rightarrow> (filterError 500 ''filter_reload_failed'', w)
      | (Inr _, w) \<Rightarrow> (res, w))"

definition decoded :: "'q json_field list \<Rightarrow> 'q \<Rightarrow> request \<Rightarrow> ('q \<Rightarrow> ('r, 'w) filter_handler) \<Rightarrow> ('r, 'w) filter_handler" where
  "decoded fs zero r k =
     (case decodeJSON fs zero (rq_Body r) of None \<Rightarrow> answer (filterError 400 ''invalid_json'') | Some req \<Rightarrow> k req)"

definition with_service :: "filter_api_env \<Rightarrow> ('r, 'w) filter_handler \<Rightarrow> ('r, 'w) filter_handler" where
  "with_service env k = (if \<not> fe_service env then answer (filterError 503 ''filter_unavailable'') else k)"

definition not_allowed :: "('r, 'w) filter_handler" where
  "not_allowed = answer (filterError 405 ''method_not_allowed'')"

definition boolDefault :: "bool option \<Rightarrow> bool \<Rightarrow> bool" where
  "boolDefault v fallback = (case v of None \<Rightarrow> fallback | Some b \<Rightarrow> b)"

section \<open>Paths\<close>

definition trim_slashes :: "string \<Rightarrow> string" where
  "trim_slashes s = TrimRightFunc (\<lambda>c. c = CHR ''/'') (TrimLeftFunc (\<lambda>c. c = CHR ''/'') s)"

definition parseFilterIDPath :: "string \<Rightarrow> string \<Rightarrow> filter_response + int \<times> string" where
  "parseFilterIDPath path pfx =
     (let rest = TrimPrefix path pfx in
      if rest = path \<or> rest = [] then Inl NotFound
      else
        let part = takeWhile (\<lambda>c. c \<noteq> CHR ''/'') rest; more = drop (length part) rest in
        (case ParseInt part of
           None \<Rightarrow> Inl (filterError 400 ''invalid_filter_id'')
         | Some i \<Rightarrow>
             if i \<le> 0 then Inl (filterError 400 ''invalid_filter_id'')
             else Inr (i, if more = [] then [] else trim_slashes (tl more))))"

definition parseFilterGroupAssignmentTail :: "string \<Rightarrow> filter_response + int" where
  "parseFilterGroupAssignmentTail tail =
     (if tail = ''groups'' then Inr 0
      else if \<not> HasPrefix tail ''groups/'' then Inl NotFound
      else
        let rest = TrimPrefix tail ''groups/'' in
        if rest = [] \<or> Contains rest ''/'' then Inl NotFound
        else
          (case ParseInt rest of
             None \<Rightarrow> Inl (filterError 400 ''invalid_filter_group_id'')
           | Some i \<Rightarrow> if i \<le> 0 then Inl (filterError 400 ''invalid_filter_group_id'') else Inr i))"

definition on_path :: "string \<Rightarrow> request \<Rightarrow> (int \<Rightarrow> string \<Rightarrow> ('r, 'w) filter_handler) \<Rightarrow> ('r, 'w) filter_handler" where
  "on_path pfx r k = (case parseFilterIDPath (rq_Path r) pfx of Inl res \<Rightarrow> answer res | Inr (i, tail) \<Rightarrow> k i tail)"

definition is_groups :: "string \<Rightarrow> bool" where
  "is_groups tail \<longleftrightarrow> tail = ''groups'' \<or> HasPrefix tail ''groups/''"

section \<open>Requests\<close>

record list_request =
  lq_URL :: string
  lq_Path :: string
  lq_Kind :: string
  lq_Enabled :: "bool option"
  lq_LastUpdatedAt :: "string option"
  lq_LastError :: string

definition list_request_fields :: "list_request json_field list" where
  "list_request_fields =
     [request_field ''url'' decode_string lq_URL (\<lambda>v q. q\<lparr>lq_URL := v\<rparr>),
      request_field ''path'' decode_string lq_Path (\<lambda>v q. q\<lparr>lq_Path := v\<rparr>),
      request_field ''kind'' decode_string lq_Kind (\<lambda>v q. q\<lparr>lq_Kind := v\<rparr>),
      bool_ptr ''enabled'' lq_Enabled (\<lambda>v q. q\<lparr>lq_Enabled := v\<rparr>),
      string_ptr ''last_updated_at'' lq_LastUpdatedAt (\<lambda>v q. q\<lparr>lq_LastUpdatedAt := v\<rparr>),
      request_field ''last_error'' decode_string lq_LastError (\<lambda>v q. q\<lparr>lq_LastError := v\<rparr>)]"

definition no_list_request :: list_request where
  "no_list_request = \<lparr>lq_URL = [], lq_Path = [], lq_Kind = [], lq_Enabled = None, lq_LastUpdatedAt = None, lq_LastError = []\<rparr>"

text \<open>The identifier is only in the request that changes an entry, beside the embedded fields.\<close>

record entry_request =
  eq_Pattern :: string
  eq_MatchType :: string
  eq_Enabled :: "bool option"
  eq_ListID :: int

definition entry_request_fields :: "entry_request json_field list" where
  "entry_request_fields =
     [request_field ''pattern'' decode_string eq_Pattern (\<lambda>v q. q\<lparr>eq_Pattern := v\<rparr>),
      request_field ''match_type'' decode_string eq_MatchType (\<lambda>v q. q\<lparr>eq_MatchType := v\<rparr>),
      bool_ptr ''enabled'' eq_Enabled (\<lambda>v q. q\<lparr>eq_Enabled := v\<rparr>)]"

definition changed_entry_fields :: "entry_request json_field list" where
  "changed_entry_fields = request_field ''list_id'' decode_int eq_ListID (\<lambda>v q. q\<lparr>eq_ListID := v\<rparr>) # entry_request_fields"

definition no_entry_request :: entry_request where
  "no_entry_request = \<lparr>eq_Pattern = [], eq_MatchType = [], eq_Enabled = None, eq_ListID = 0\<rparr>"

record rule_request =
  rr_Pattern :: string
  rr_Kind :: string
  rr_MatchType :: string
  rr_Enabled :: "bool option"
  rr_Comment :: string

definition rule_request_fields :: "rule_request json_field list" where
  "rule_request_fields =
     [request_field ''pattern'' decode_string rr_Pattern (\<lambda>v q. q\<lparr>rr_Pattern := v\<rparr>),
      request_field ''kind'' decode_string rr_Kind (\<lambda>v q. q\<lparr>rr_Kind := v\<rparr>),
      request_field ''match_type'' decode_string rr_MatchType (\<lambda>v q. q\<lparr>rr_MatchType := v\<rparr>),
      bool_ptr ''enabled'' rr_Enabled (\<lambda>v q. q\<lparr>rr_Enabled := v\<rparr>),
      request_field ''comment'' decode_string rr_Comment (\<lambda>v q. q\<lparr>rr_Comment := v\<rparr>)]"

definition no_rule_request :: rule_request where
  "no_rule_request = \<lparr>rr_Pattern = [], rr_Kind = [], rr_MatchType = [], rr_Enabled = None, rr_Comment = []\<rparr>"

record client_request =
  cq_Name :: string
  cq_Address :: string
  cq_Comment :: string
  cq_Enabled :: "bool option"

definition client_request_fields :: "client_request json_field list" where
  "client_request_fields =
     [request_field ''name'' decode_string cq_Name (\<lambda>v q. q\<lparr>cq_Name := v\<rparr>),
      request_field ''address'' decode_string cq_Address (\<lambda>v q. q\<lparr>cq_Address := v\<rparr>),
      request_field ''comment'' decode_string cq_Comment (\<lambda>v q. q\<lparr>cq_Comment := v\<rparr>),
      bool_ptr ''enabled'' cq_Enabled (\<lambda>v q. q\<lparr>cq_Enabled := v\<rparr>)]"

definition no_client_request :: client_request where
  "no_client_request = \<lparr>cq_Name = [], cq_Address = [], cq_Comment = [], cq_Enabled = None\<rparr>"

record group_request =
  gq_Name :: string
  gq_Comment :: string
  gq_Enabled :: "bool option"

definition group_request_fields :: "group_request json_field list" where
  "group_request_fields =
     [request_field ''name'' decode_string gq_Name (\<lambda>v q. q\<lparr>gq_Name := v\<rparr>),
      request_field ''comment'' decode_string gq_Comment (\<lambda>v q. q\<lparr>gq_Comment := v\<rparr>),
      bool_ptr ''enabled'' gq_Enabled (\<lambda>v q. q\<lparr>gq_Enabled := v\<rparr>)]"

definition no_group_request :: group_request where
  "no_group_request = \<lparr>gq_Name = [], gq_Comment = [], gq_Enabled = None\<rparr>"

definition assignment_fields :: "int json_field list" where
  "assignment_fields = [request_field ''group_id'' decode_int id (\<lambda>v _. v)]"

definition parseOptionalFilterTime :: "filter_api_env \<Rightarrow> string option \<Rightarrow> (time \<Rightarrow> ('r, 'w) filter_handler) \<Rightarrow> ('r, 'w) filter_handler" where
  "parseOptionalFilterTime env val k =
     (case val of
        None \<Rightarrow> k None
      | Some text \<Rightarrow>
          if TrimSpace text = [] then k None
          else (case time_Parse (lib_lenientNano (fe_lib env)) (TrimSpace text) of
              None \<Rightarrow> answer (filterError 400 ''invalid_filter_time'')
            | Some parsed \<Rightarrow> k parsed))"

definition decodeFilterGroupAssignment :: "request \<Rightarrow> (int \<Rightarrow> ('r, 'w) filter_handler) \<Rightarrow> ('r, 'w) filter_handler" where
  "decodeFilterGroupAssignment r k =
     decoded assignment_fields 0 r (\<lambda>i. if i \<le> 0 then answer (filterError 400 ''invalid_filter_group_id'') else k i)"

section \<open>Groups of an owner\<close>

text \<open>\<open>handleFilterListGroups\<close>, \<open>handleFilterRuleGroups\<close> and \<open>handleFilterClientGroups\<close> are one handler of their three operations and the codes of their errors.\<close>

definition handle_groups ::
  "filter_api_env \<Rightarrow> group list repo \<Rightarrow> (int \<Rightarrow> unit repo) \<Rightarrow> (int \<Rightarrow> unit repo) \<Rightarrow> string \<Rightarrow> string \<Rightarrow> string \<Rightarrow> request \<Rightarrow> string
     \<Rightarrow> ('r, 'w) filter_handler" where
  "handle_groups env listing add remove unavailable add_failed remove_failed r tail =
     (case parseFilterGroupAssignmentTail tail of
        Inl res \<Rightarrow> answer res
      | Inr groupID \<Rightarrow>
          if rq_Method r = ''GET'' then
            (if groupID \<noteq> 0 then answer NotFound else serve listing unavailable (\<lambda>groups. answer (200, GroupsBody groups)))
          else if rq_Method r = ''POST'' then
            (if groupID \<noteq> 0 then answer NotFound
             else decodeFilterGroupAssignment r (\<lambda>groupID. serve (add groupID) add_failed (\<lambda>_. reloaded env (204, NoContent))))
          else if rq_Method r = ''DELETE'' then
            (if groupID = 0 then answer NotFound
             else serve (remove groupID) remove_failed (\<lambda>_. reloaded env (204, NoContent)))
          else not_allowed)"

definition handleFilterListGroups :: "filter_api_env \<Rightarrow> request \<Rightarrow> int \<Rightarrow> string \<Rightarrow> ('r, 'w) filter_handler" where
  "handleFilterListGroups env r listID =
     handle_groups env (ListListGroups listID) (service_AddListGroup listID) (service_RemoveListGroup listID)
       ''filter_list_groups_unavailable'' ''filter_list_group_add_failed'' ''filter_list_group_remove_failed'' r"

definition handleFilterRuleGroups :: "filter_api_env \<Rightarrow> request \<Rightarrow> int \<Rightarrow> string \<Rightarrow> ('r, 'w) filter_handler" where
  "handleFilterRuleGroups env r ruleID =
     handle_groups env (ListRuleGroups ruleID) (service_AddRuleGroup ruleID) (service_RemoveRuleGroup ruleID)
       ''filter_rule_groups_unavailable'' ''filter_rule_group_add_failed'' ''filter_rule_group_remove_failed'' r"

definition handleFilterClientGroups :: "filter_api_env \<Rightarrow> request \<Rightarrow> int \<Rightarrow> string \<Rightarrow> ('r, 'w) filter_handler" where
  "handleFilterClientGroups env r clientID =
     handle_groups env (ListClientGroups clientID) (service_AddClientGroup clientID) (service_RemoveClientGroup clientID)
       ''filter_client_groups_unavailable'' ''filter_client_group_add_failed'' ''filter_client_group_remove_failed'' r"

section \<open>Lists\<close>

definition handleFilterLists :: "filter_api_env \<Rightarrow> request \<Rightarrow> ('r, 'w) filter_handler" where
  "handleFilterLists env r =
     with_service env
       (if rq_Method r = ''GET'' then serve ListLists ''filter_lists_unavailable'' (\<lambda>lists. answer (200, ListsBody lists))
        else if rq_Method r = ''POST'' then
          decoded list_request_fields no_list_request r (\<lambda>req.
          parseOptionalFilterTime env (lq_LastUpdatedAt req) (\<lambda>lastUpdatedAt.
          serve (CreateList \<lparr>l_ID = 0, l_URL = lq_URL req, l_Path = lq_Path req, l_Kind = lq_Kind req, l_Enabled = boolDefault (lq_Enabled req) True,
              l_LastUpdatedAt = lastUpdatedAt, l_LastError = lq_LastError req\<rparr>) ''filter_list_create_failed'' (\<lambda>lst.
            answer (201, ListBody lst))))
        else not_allowed)"

definition handleFilterListEntries :: "filter_api_env \<Rightarrow> request \<Rightarrow> int \<Rightarrow> ('r, 'w) filter_handler" where
  "handleFilterListEntries env r listID =
     (if rq_Method r = ''GET'' then
        serve (ListListEntries listID) ''filter_list_entries_unavailable'' (\<lambda>entries. answer (200, EntriesBody entries))
      else if rq_Method r = ''POST'' then
        decoded entry_request_fields no_entry_request r (\<lambda>req.
        serve (CreateListEntry (fe_rx env) \<lparr>le_ID = 0, le_ListID = listID, le_Pattern = eq_Pattern req, le_MatchType = eq_MatchType req,
            le_Enabled = boolDefault (eq_Enabled req) True\<rparr>) ''filter_list_entry_create_failed'' (\<lambda>entry.
          reloaded env (201, EntryBody entry)))
      else not_allowed)"

text \<open>A server that was given no queue makes one without a database when it is first asked for.\<close>

definition server_refreshJobs :: "filter_api_env \<Rightarrow> ('r, 'w) filter_world \<Rightarrow> refresh_jobs result \<times> ('r, 'w) filter_world" where
  "server_refreshJobs env w =
     (case fa_jobs w of
        Some j \<Rightarrow> (Inr j, w)
      | None \<Rightarrow>
          if fe_jobs_provided env then (Inl (ErrorString ''refresh jobs unavailable''), w)
          else (case fst (NewRefreshJobs (fe_clock env) None) of
              Inl err \<Rightarrow> (Inl err, w)
            | Inr j \<Rightarrow> (Inr j, w\<lparr>fa_jobs := Some j\<rparr>)))"

definition handleFilterListRefresh :: "filter_api_env \<Rightarrow> request \<Rightarrow> int \<Rightarrow> ('r, 'w) filter_handler" where
  "handleFilterListRefresh env r i =
     (if rq_Method r \<noteq> ''POST'' then not_allowed
      else serve (GetList i) ''filter_list_unavailable'' (\<lambda>_ w.
        case server_refreshJobs env w of
          (Inl _, w) \<Rightarrow> (filterError 503 ''refresh_jobs_unavailable'', w)
        | (Inr j, w) \<Rightarrow>
            (case Submit (fe_clock env) (fe_random env) (fe_order env) i j of
               (Inl _, j) \<Rightarrow> (filterError 503 ''refresh_queue_unavailable'', w\<lparr>fa_jobs := Some j\<rparr>)
             | (Inr job, j) \<Rightarrow> ((202, JobBody job), w\<lparr>fa_jobs := Some j\<rparr>))))"

text \<open>\<open>active\<close> is the parameter of the query of the URL.\<close>

definition handleFilterJobs :: "filter_api_env \<Rightarrow> string \<Rightarrow> request \<Rightarrow> ('r, 'w) filter_handler" where
  "handleFilterJobs env active r w =
     (if rq_Method r \<noteq> ''GET'' then not_allowed w
      else case server_refreshJobs env w of
        (Inl _, w) \<Rightarrow> (filterError 503 ''refresh_jobs_unavailable'', w)
      | (Inr j, w) \<Rightarrow>
          if rq_Path r = ''/api/filter/jobs'' then ((200, JobsBody (jobs_List (active = ''true'') (fe_order env))), w)
          else (case jobs_Get (TrimPrefix (rq_Path r) ''/api/filter/jobs/'') j of
              None \<Rightarrow> (filterError 404 ''refresh_job_not_found'', w)
            | Some job \<Rightarrow> ((200, JobBody job), w)))"

definition handleFilterList :: "filter_api_env \<Rightarrow> request \<Rightarrow> ('r, 'w) filter_handler" where
  "handleFilterList env r =
     with_service env (on_path ''/api/filter/lists/'' r (\<lambda>i tail.
       if tail = ''entries'' then handleFilterListEntries env r i
       else if tail = ''refresh'' then handleFilterListRefresh env r i
       else if is_groups tail then handleFilterListGroups env r i tail
       else if tail \<noteq> [] then answer NotFound
       else if rq_Method r = ''GET'' then serve (GetList i) ''filter_list_unavailable'' (\<lambda>lst. answer (200, ListBody lst))
       else if rq_Method r = ''PUT'' then
         serve (GetList i) ''filter_list_unavailable'' (\<lambda>current.
         decoded list_request_fields no_list_request r (\<lambda>req.
         parseOptionalFilterTime env (lq_LastUpdatedAt req) (\<lambda>lastUpdatedAt.
         serve (UpdateList (current\<lparr>l_URL := lq_URL req, l_Path := lq_Path req, l_Kind := lq_Kind req,
             l_Enabled := boolDefault (lq_Enabled req) (l_Enabled current), l_LastUpdatedAt := lastUpdatedAt, l_LastError := lq_LastError req\<rparr>))
           ''filter_list_update_failed'' (\<lambda>lst. reloaded env (200, ListBody lst)))))
       else if rq_Method r = ''DELETE'' then
         serve (DeleteList i) ''filter_list_delete_failed'' (\<lambda>_. reloaded env (204, NoContent))
       else not_allowed))"

definition handleFilterListEntry :: "filter_api_env \<Rightarrow> request \<Rightarrow> ('r, 'w) filter_handler" where
  "handleFilterListEntry env r =
     with_service env (on_path ''/api/filter/list-entries/'' r (\<lambda>i tail.
       if tail \<noteq> [] then answer NotFound
       else if rq_Method r = ''PUT'' then
         decoded changed_entry_fields no_entry_request r (\<lambda>req.
         serve (UpdateListEntry (fe_rx env) \<lparr>le_ID = i, le_ListID = eq_ListID req, le_Pattern = eq_Pattern req, le_MatchType = eq_MatchType req,
             le_Enabled = boolDefault (eq_Enabled req) True\<rparr>) ''filter_list_entry_update_failed'' (\<lambda>entry.
           reloaded env (200, EntryBody entry)))
       else if rq_Method r = ''DELETE'' then
         serve (DeleteListEntry i) ''filter_list_entry_delete_failed'' (\<lambda>_. reloaded env (204, NoContent))
       else not_allowed))"

section \<open>Rules\<close>

definition handleFilterRules :: "filter_api_env \<Rightarrow> request \<Rightarrow> ('r, 'w) filter_handler" where
  "handleFilterRules env r =
     with_service env
       (if rq_Method r = ''GET'' then serve ListRules ''filter_rules_unavailable'' (\<lambda>rules. answer (200, RulesBody rules))
        else if rq_Method r = ''POST'' then
          decoded rule_request_fields no_rule_request r (\<lambda>req.
          serve (CreateRule (fe_rx env) \<lparr>ru_ID = 0, ru_Pattern = rr_Pattern req, ru_Kind = rr_Kind req, ru_MatchType = rr_MatchType req,
              ru_Enabled = boolDefault (rr_Enabled req) True, ru_Comment = rr_Comment req\<rparr>) ''filter_rule_create_failed'' (\<lambda>rl.
            reloaded env (201, RuleBody rl)))
        else not_allowed)"

definition handleFilterRule :: "filter_api_env \<Rightarrow> request \<Rightarrow> ('r, 'w) filter_handler" where
  "handleFilterRule env r =
     with_service env (on_path ''/api/filter/rules/'' r (\<lambda>i tail.
       if is_groups tail then handleFilterRuleGroups env r i tail
       else if tail \<noteq> [] then answer NotFound
       else if rq_Method r = ''GET'' then serve (GetRule i) ''filter_rule_unavailable'' (\<lambda>rl. answer (200, RuleBody rl))
       else if rq_Method r = ''PUT'' then
         serve (GetRule i) ''filter_rule_unavailable'' (\<lambda>current.
         decoded rule_request_fields no_rule_request r (\<lambda>req.
         serve (UpdateRule (fe_rx env) (current\<lparr>ru_Pattern := rr_Pattern req, ru_Kind := rr_Kind req, ru_MatchType := rr_MatchType req,
             ru_Enabled := boolDefault (rr_Enabled req) (ru_Enabled current), ru_Comment := rr_Comment req\<rparr>))
           ''filter_rule_update_failed'' (\<lambda>rl. reloaded env (200, RuleBody rl))))
       else if rq_Method r = ''DELETE'' then
         serve (DeleteRule i) ''filter_rule_delete_failed'' (\<lambda>_. reloaded env (204, NoContent))
       else not_allowed))"

section \<open>Clients\<close>

definition handleFilterClients :: "filter_api_env \<Rightarrow> request \<Rightarrow> ('r, 'w) filter_handler" where
  "handleFilterClients env r =
     with_service env
       (if rq_Method r = ''GET'' then serve ListClients ''filter_clients_unavailable'' (\<lambda>clients. answer (200, ClientsBody clients))
        else if rq_Method r = ''POST'' then
          decoded client_request_fields no_client_request r (\<lambda>req.
          serve (CreateClient \<lparr>c_ID = 0, c_Name = cq_Name req, c_Address = cq_Address req, c_Comment = cq_Comment req,
              c_Enabled = boolDefault (cq_Enabled req) True\<rparr>) ''filter_client_create_failed'' (\<lambda>cl.
            reloaded env (201, ClientBody cl)))
        else not_allowed)"

definition handleFilterClient :: "filter_api_env \<Rightarrow> request \<Rightarrow> ('r, 'w) filter_handler" where
  "handleFilterClient env r =
     with_service env (on_path ''/api/filter/clients/'' r (\<lambda>i tail.
       if is_groups tail then handleFilterClientGroups env r i tail
       else if tail \<noteq> [] then answer NotFound
       else if rq_Method r = ''GET'' then serve (GetClient i) ''filter_client_unavailable'' (\<lambda>cl. answer (200, ClientBody cl))
       else if rq_Method r = ''PUT'' then
         serve (GetClient i) ''filter_client_unavailable'' (\<lambda>current.
         decoded client_request_fields no_client_request r (\<lambda>req.
         serve (UpdateClient (current\<lparr>c_Name := cq_Name req, c_Address := cq_Address req, c_Comment := cq_Comment req,
             c_Enabled := boolDefault (cq_Enabled req) (c_Enabled current)\<rparr>)) ''filter_client_update_failed'' (\<lambda>cl.
           reloaded env (200, ClientBody cl))))
       else if rq_Method r = ''DELETE'' then
         serve (DeleteClient i) ''filter_client_delete_failed'' (\<lambda>_. reloaded env (204, NoContent))
       else not_allowed))"

section \<open>Groups\<close>

definition handleFilterGroups :: "filter_api_env \<Rightarrow> request \<Rightarrow> ('r, 'w) filter_handler" where
  "handleFilterGroups env r =
     with_service env
       (if rq_Method r = ''GET'' then serve ListGroups ''filter_groups_unavailable'' (\<lambda>groups. answer (200, GroupsBody groups))
        else if rq_Method r = ''POST'' then
          decoded group_request_fields no_group_request r (\<lambda>req.
          serve (CreateGroup \<lparr>g_ID = 0, g_Name = gq_Name req, g_Comment = gq_Comment req, g_Enabled = boolDefault (gq_Enabled req) True\<rparr>)
            ''filter_group_create_failed'' (\<lambda>grp. reloaded env (201, GroupBody grp)))
        else not_allowed)"

definition handleFilterGroup :: "filter_api_env \<Rightarrow> request \<Rightarrow> ('r, 'w) filter_handler" where
  "handleFilterGroup env r =
     with_service env (on_path ''/api/filter/groups/'' r (\<lambda>i tail.
       if tail \<noteq> [] then answer NotFound
       else if rq_Method r = ''GET'' then serve (GetGroup i) ''filter_group_unavailable'' (\<lambda>grp. answer (200, GroupBody grp))
       else if rq_Method r = ''PUT'' then
         serve (GetGroup i) ''filter_group_unavailable'' (\<lambda>current.
         decoded group_request_fields no_group_request r (\<lambda>req.
         serve (UpdateGroup (current\<lparr>g_Name := gq_Name req, g_Comment := gq_Comment req,
             g_Enabled := boolDefault (gq_Enabled req) (g_Enabled current)\<rparr>)) ''filter_group_update_failed'' (\<lambda>grp.
           reloaded env (200, GroupBody grp))))
       else if rq_Method r = ''DELETE'' then
         serve (DeleteGroup i) ''filter_group_delete_failed'' (\<lambda>_. reloaded env (204, NoContent))
       else not_allowed))"

section \<open>The handlers by their names\<close>

definition filter_handler_named :: "filter_api_env \<Rightarrow> string \<Rightarrow> (request \<Rightarrow> ('r, 'w) filter_handler) option" where
  "filter_handler_named env name =
     map_of
       [(''handleFilterLists'', handleFilterLists env), (''handleFilterList'', handleFilterList env),
        (''handleFilterListEntry'', handleFilterListEntry env), (''handleFilterRules'', handleFilterRules env),
        (''handleFilterRule'', handleFilterRule env), (''handleFilterClients'', handleFilterClients env),
        (''handleFilterClient'', handleFilterClient env), (''handleFilterGroups'', handleFilterGroups env),
        (''handleFilterGroup'', handleFilterGroup env)] name"

section \<open>Suggestions of clients\<close>

definition defaultClientSuggestionLimit :: int where "defaultClientSuggestionLimit = 20"
definition maxClientSuggestionLimit :: int where "maxClientSuggestionLimit = 100"

definition parseClientSuggestionLimit :: "url_values \<Rightarrow> int option" where
  "parseClientSuggestionLimit values =
     (let raw = TrimSpace (values_Get values ''limit'') in
      if raw = [] then Some defaultClientSuggestionLimit
      else (case Atoi raw of
          None \<Rightarrow> None
        | Some parsed \<Rightarrow> if parsed \<le> 0 then None else Some (if parsed > maxClientSuggestionLimit then maxClientSuggestionLimit else parsed)))"

datatype suggestions_body = SuggestionsError string | Suggestions "client_suggestion list" int

text \<open>The response repeats the address as \<open>client_ip\<close>.\<close>

definition handleFilterClientSuggestions ::
  "config_lib \<Rightarrow> string \<Rightarrow> url_values \<Rightarrow> audit_reader \<Rightarrow> (nat \<times> suggestions_body) \<times> audit_reader" where
  "handleFilterClientSuggestions lib meth values rd =
     (if meth \<noteq> ''GET'' then ((405, SuggestionsError ''method_not_allowed''), rd)
      else case auditSettings rd of
        (Inl _, rd) \<Rightarrow> ((500, SuggestionsError ''client_suggestions_unavailable''), rd)
      | (Inr st, rd) \<Rightarrow>
          if st_PrivacyLevel st \<ge> PrivacyLevelHideClient then ((200, Suggestions [] (st_PrivacyLevel st)), rd)
          else (case rd of
              None \<Rightarrow> ((503, SuggestionsError ''client_suggestions_unavailable''), rd)
            | Some s \<Rightarrow>
                (case parseClientSuggestionLimit values of
                   None \<Rightarrow> ((400, SuggestionsError ''invalid_limit''), rd)
                 | Some limit \<Rightarrow>
                     (case on_sink (RecentClients (lib_lenientNano lib) True limit) s of
                        (Inl _, s) \<Rightarrow> ((500, SuggestionsError ''client_suggestions_unavailable''), Some s)
                      | (Inr suggestions, s) \<Rightarrow> ((200, Suggestions suggestions (st_PrivacyLevel st)), Some s)))))"

end
