(* ===== verification/Filter_Api_Properties.thy ===== *)
theory Filter_Api_Properties
  imports Filter_Api App_Properties
begin

text \<open>
  The filters over HTTP, end to end: from a request to the tables, and from the tables to what the running plugin decides. The handlers are composed of
  a few steps, and each step is shown to keep the runtime in agreement with the tables.
\<close>

section \<open>The runtime follows the tables\<close>

text \<open>What the rules and list entries of the tables say of a query, over the bundled list when it is on.\<close>

definition tables_decision :: "regexp_engine \<Rightarrow> bool \<Rightarrow> filter_db \<Rightarrow> query \<Rightarrow> decision" where
  "tables_decision rx bundled tb q =
     (let groups = client_group_ids (addr_String (Unmap (q_ClientIP q))) tb in
      overlay_ranking (first_rule rx (filter_normalizeDomain (q_Name q)) groups (decision_rules tb))
        (Blocklist_Matcher.Decide (NewMatcherWithBundled (runtime_entries tb) bundled) q))"

definition rules_in_force :: "regexp_engine \<Rightarrow> bool \<Rightarrow> filter_db \<Rightarrow> reloader \<Rightarrow> bool" where
  "rules_in_force rx bundled tb rl \<longleftrightarrow> (\<forall>q. decide_ref rl RulesDecider q = Some (tables_decision rx bundled tb q))"

definition plugin_follows :: "regexp_engine \<Rightarrow> bool \<Rightarrow> ('r, 'w) filter_world \<Rightarrow> bool" where
  "plugin_follows rx bundled w \<longleftrightarrow>
     rules_in_force rx bundled (db_tables (io_world (fa_io w))) (fa_rl w) \<and> rt_decider (pw_runtime (fa_pw w)) = Installed RulesDecider"

text \<open>The reloader as the application builds it: a manager that reads the lists of the tables only, and the rules.\<close>

definition wired :: "bool \<Rightarrow> reloader \<Rightarrow> bool" where
  "wired bundled rl \<longleftrightarrow>
     (\<exists>m. rl_manager rl = Some m \<and> m_paths m = [] \<and> m_sources m = [BlocklistSource_Entries] \<and> m_bundled m = bundled) \<and> rl_rules rl \<noteq> None"

definition filter_world_ok :: "regexp_engine \<Rightarrow> bool \<Rightarrow> ('r, 'w) filter_world \<Rightarrow> bool" where
  "filter_world_ok rx bundled w \<longleftrightarrow> wired bundled (fa_rl w) \<and> filter_inv rx (io_world (fa_io w))"

lemma reload_keeps_tables:
  assumes "filters_Reload rx now rl io pw = (Inr (), rl', io', pw')"
    and "rl_manager rl = Some m" and "m_paths m = []" and "m_sources m = [BlocklistSource_Entries]"
  shows "db_tables (io_world io') = db_tables (io_world io)"
proof -
  obtain r1 io1 where f: "on_faults ctx_err io = (r1, io1)" by fastforce
  have w: "io_world io1 = io_world io" using f by (auto simp: on_faults_def split: prod.splits)
  obtain r2 m' io2 where rel: "manager_Reload now m io1 = (r2, m', io2)" using prod_cases3 by blast
  have r1: "r1 = Inr ()" using assms(1) by (cases r1) (simp_all add: filters_Reload_def f)
  have r2: "r2 = Inr ()" using assms(1,2) by (cases r2) (simp_all add: filters_Reload_def f rel r1)
  have tb: "db_tables (io_world io2) = db_tables (io_world io)"
    using reload_source_tables [OF assms(3,4), of now io1 "()" m' io2] rel w by (simp add: r2)
  note run = assms(1) [unfolded filters_Reload_def f r1 prod.case sum.case assms(2) option.case rel r2 Let_def]
  show ?thesis
  proof (cases "rl_rules rl")
    case None
    then show ?thesis using run tb by simp
  next
    case (Some current)
    obtain sr d where ls: "load_snapshot rx (io_world io2) = (sr, d)" by fastforce
    show ?thesis
    proof (cases sr)
      case (Inl e)
      then show ?thesis using run Some ls by (simp add: RuleDecider_Reload_def)
    next
      case (Inr s)
      have "db_tables d = db_tables (io_world io2)" by (rule load_snapshot_ok(2)) (use ls Inr in simp)
      moreover have "io' = io2\<lparr>io_world := d\<rparr>" using run Some ls Inr by (simp add: RuleDecider_Reload_def)
      ultimately show ?thesis using tb by simp
    qed
  qed
qed

lemma reload_follows:
  assumes "filters_Reload rx now rl io pw = (Inr (), rl', io', pw')" and "wired bundled rl"
  shows "wired bundled rl' \<and> db_tables (io_world io') = db_tables (io_world io) \<and>
     rules_in_force rx bundled (db_tables (io_world io)) rl' \<and> rt_decider (pw_runtime pw') = Installed RulesDecider"
  using assms(1)
proof (cases rule: filters_Reload_cases)
  case (rules m m' current s io1 io2 d)
  have m: "m_paths m = []" "m_sources m = [BlocklistSource_Entries]" "m_bundled m = bundled"
    using assms(2) rules(2) by (auto simp: wired_def)
  obtain es where es: "loadEntries m io1 = (Inr es, io2)"
    and m': "m' = m\<lparr>m_current := NewMatcherWithBundled es (m_bundled m),
                m_meta := recordReloadSuccess (length es + bundledEntryCount (m_bundled m)) now (m_meta m)\<rparr>"
    using manager_Reload_ok [OF rules(6)] by blast
  have tb: "db_tables (io_world io2) = db_tables (io_world io)"
    using reload_source_tables [OF m(1,2) rules(6)] rules(8) by simp
  have listing: "es = runtime_entries (db_tables (io_world io))"
    using blocklist_source.loadEntries_source [OF m(1,2) es] rules(8) by simp
  have d: "db_tables d = db_tables (io_world io2)" by (rule load_snapshot_ok(2) [OF rules(7)])
  have io': "db_tables (io_world io') = db_tables (io_world io)" by (rule reload_keeps_tables [OF assms(1) rules(2) m(1,2)])
  have "decide_ref rl' RulesDecider q = Some (tables_decision rx bundled (db_tables (io_world io)) q)" for q
  proof -
    let ?a = "Decide (NewMatcherWithBundled (runtime_entries (db_tables (io_world io))) bundled) q"
    have "decide_ref rl' RulesDecider q = RuleDecider_Decide (\<lambda>q. Some (manager_Decide m' q)) (Some s) q"
      using rules by (simp add: decide_ref_def)
    also have "\<dots> = Some (tables_decision rx bundled (db_tables (io_world io)) q)"
      using RuleDecider_ranked [OF rules(7) refl refl, of "\<lambda>q. Some (manager_Decide m' q)" q ?a]
      by (simp add: m' manager_Decide_def listing m(3) tb tables_decision_def Let_def)
    finally show ?thesis .
  qed
  then show ?thesis
    using rules m io' by (simp add: wired_def m' rules_in_force_def SetDecider_def store_def Let_def)
qed (use assms(2) in \<open>auto simp: wired_def\<close>)

section \<open>A new list decides nothing\<close>

lemma concat_sort_filter:
  "concat (map g (sort_key k xs)) = concat (map g (sort_key k (filter (\<lambda>x. g x \<noteq> []) xs)))"
proof -
  have "concat (map g ys) = concat (map g (filter (\<lambda>x. g x \<noteq> []) ys))" for ys by (induction ys) auto
  then show ?thesis by (metis filter_sort)
qed

lemma new_list_decides_nothing:
  assumes "filter_ok rx tb" and "insert_list_stmt l tb = Inr (i, tb')"
  shows "tables_decision rx bundled tb' q = tables_decision rx bundled tb q"
proof -
  let ?new = "set_l_ID i l"
  let ?es = "\<lambda>x. map (\<lambda>e. (x, e)) (tbl_select (\<lambda>e. le_ListID e = l_ID x \<and> le_Enabled e) le_ID (f_entries tb))"
  have i: "i = fst (tbl_insert set_l_ID l (f_lists tb))" and tb': "tb' = tb\<lparr>f_lists := snd (tbl_insert set_l_ID l (f_lists tb))\<rparr>"
    using assms(2) by (auto simp: insert_list_stmt_def split: if_splits prod.splits)
  have ok: "table_ok l_ID (f_lists tb)" using assms(1) by (simp add: filter_parts)
  have "i \<notin> ids l_ID (f_lists tb)"
    using lists.insert_fresh [OF ok, of l] row_by_ids [of l_ID i "f_lists tb"] by (simp add: i)
  then have "filter (\<lambda>e. le_ListID e = i \<and> le_Enabled e) (t_rows (f_entries tb)) = []"
    using assms(1) by (auto simp: filter_parts filter_empty_conv)
  then have "?es ?new = []" by (simp add: tbl_select_def set_l_ID_def)
  moreover have "t_rows (f_lists tb') = t_rows (f_lists tb) @ [?new]" by (simp add: tb' i tbl_insert_def)
  moreover have "f_entries tb' = f_entries tb" by (simp add: tb')
  ultimately have "enabled_entries tb' = enabled_entries tb"
    unfolding enabled_entries_def tbl_select_def
    by (subst (1 2) concat_sort_filter) simp
  then have "runtime_entries tb' = runtime_entries tb" by (simp add: runtime_entries_def)
  moreover have "decision_rules tb' = decision_rules tb"
    by (simp add: decision_rules_def tb' left_join_groups_def)
  moreover have "client_group_ids a tb' = client_group_ids a tb" for a by (simp add: client_group_ids_def tb')
  ultimately show ?thesis by (simp add: tables_decision_def)
qed

lemma created_list_decides_nothing:
  assumes "filter_inv rx d" and "CreateList l d = (Inr l', d')"
  shows "tables_decision rx bundled (db_tables d') q = tables_decision rx bundled (db_tables d) q"
proof -
  obtain v i d1 where
    ins: "exec_insert ''create filter list'' ''read created filter list id'' (insert_list_stmt v) d = (Inr i, d1)"
    and get: "GetList i d1 = (Inr l', d')"
    using assms(2) by (cases "validateList l") (auto simp: CreateList_def then_do_eq_Inr)
  show ?thesis
    using new_list_decides_nothing [OF assms(1) exec_insert_ok [OF ins]] GetList_ok [OF get] by simp
qed

section \<open>Handlers that keep the runtime in agreement\<close>

text \<open>
  \<open>lawful rx bundled brings h\<close>: an answer of \<open>h\<close> without an error keeps the world well-formed and the plugin in agreement with the tables; an answer
  with a status that \<open>brings\<close> marks brings the agreement about.
\<close>

definition lawful :: "regexp_engine \<Rightarrow> bool \<Rightarrow> (nat \<Rightarrow> bool) \<Rightarrow> ('r, 'w) filter_handler \<Rightarrow> bool" where
  "lawful rx bundled brings h \<longleftrightarrow>
     (\<forall>w s b w'. h w = ((s, b), w') \<longrightarrow> s < 400 \<longrightarrow> filter_world_ok rx bundled w \<longrightarrow>
        filter_world_ok rx bundled w' \<and> (brings s \<or> plugin_follows rx bundled w \<longrightarrow> plugin_follows rx bundled w'))"

named_theorems lawful_rules "the parts of a handler that keep the plugin in agreement"

lemma lawfulD:
  "lawful rx bundled brings h \<Longrightarrow> h w = ((s, b), w') \<Longrightarrow> s < 400 \<Longrightarrow> filter_world_ok rx bundled w \<Longrightarrow>
     filter_world_ok rx bundled w' \<and> (brings s \<or> plugin_follows rx bundled w \<longrightarrow> plugin_follows rx bundled w')"
  by (simp add: lawful_def)

lemma lawful_weaken:
  "lawful rx bundled (\<lambda>_. True) h \<Longrightarrow> lawful rx bundled brings h"
  by (simp add: lawful_def)

lemma lawful_error: "400 \<le> s \<Longrightarrow> lawful rx bundled brings (answer (s, b))"
  by (auto simp: lawful_def answer_def)

lemma lawful_answers [lawful_rules]:
  "lawful rx bundled brings not_allowed" "lawful rx bundled brings (answer NotFound)"
  "400 \<le> s \<Longrightarrow> lawful rx bundled brings (answer (filterError s code))"
  by (simp_all add: not_allowed_def NotFound_def filterError_def lawful_error)

lemma lawful_read: "lawful rx bundled (\<lambda>_. False) (answer res)"
  by (simp add: lawful_def answer_def)

lemma writeFilterError_status: "writeFilterError err code = (s, b) \<Longrightarrow> 400 \<le> s"
  by (auto simp: writeFilterError_def filterError_def split: if_splits)

lemma lawful_serve_reads [lawful_rules]:
  assumes "reads m" and "\<And>x. lawful rx bundled brings (k x)"
  shows "lawful rx bundled brings (serve m code k)"
  unfolding lawful_def
proof (intro allI impI)
  fix w s b w' assume h: "serve m code k w = ((s, b), w')" and s: "s < 400" and ok: "filter_world_ok rx bundled w"
  obtain r d where m: "m (io_world (fa_io w)) = (r, d)" by fastforce
  let ?w = "w\<lparr>fa_io := (fa_io w)\<lparr>io_world := d\<rparr>\<rparr>"
  have "db_tables d = db_tables (io_world (fa_io w))" by (rule readsD [OF assms(1) m])
  then have same: "filter_world_ok rx bundled ?w" "plugin_follows rx bundled ?w = plugin_follows rx bundled w"
    using ok by (simp_all add: filter_world_ok_def plugin_follows_def)
  show "filter_world_ok rx bundled w' \<and> (brings s \<or> plugin_follows rx bundled w \<longrightarrow> plugin_follows rx bundled w')"
  proof (cases r)
    case (Inl e)
    then show ?thesis using h s m writeFilterError_status [of e code s b] by (simp add: serve_def)
  next
    case (Inr x)
    then have "k x ?w = ((s, b), w')" using h m by (simp add: serve_def)
    then show ?thesis using lawfulD [OF assms(2) _ s same(1)] same(2) by blast
  qed
qed

lemma lawful_serve_writes [lawful_rules]:
  assumes "keeps (filter_inv rx) m" and "\<And>x. lawful rx bundled (\<lambda>_. True) (k x)"
  shows "lawful rx bundled brings (serve m code k)"
  unfolding lawful_def
proof (intro allI impI)
  fix w s b w' assume h: "serve m code k w = ((s, b), w')" and s: "s < 400" and ok: "filter_world_ok rx bundled w"
  obtain r d where m: "m (io_world (fa_io w)) = (r, d)" by fastforce
  let ?w = "w\<lparr>fa_io := (fa_io w)\<lparr>io_world := d\<rparr>\<rparr>"
  have "filter_inv rx d" using assms(1) ok m by (auto simp: keeps_def filter_world_ok_def dest!: spec [of _ "io_world (fa_io w)"])
  then have ok': "filter_world_ok rx bundled ?w" using ok by (simp add: filter_world_ok_def)
  show "filter_world_ok rx bundled w' \<and> (brings s \<or> plugin_follows rx bundled w \<longrightarrow> plugin_follows rx bundled w')"
  proof (cases r)
    case (Inl e)
    then show ?thesis using h s m writeFilterError_status [of e code s b] by (simp add: serve_def)
  next
    case (Inr x)
    then have "k x ?w = ((s, b), w')" using h m by (simp add: serve_def)
    then show ?thesis using lawfulD [OF assms(2) _ s ok'] by blast
  qed
qed

lemma lawful_reloaded [lawful_rules]:
  assumes "fe_reloader env"
  shows "lawful (fe_rx env) bundled brings (reloaded env res)"
  unfolding lawful_def
proof (intro allI impI)
  fix w s b w' assume h: "reloaded env res w = ((s, b), w')" and s: "s < 400" and ok: "filter_world_ok (fe_rx env) bundled w"
  obtain r rl io pw where run: "filters_Reload (fe_rx env) (fe_now env) (fa_rl w) (fa_io w) (fa_pw w) = (r, rl, io, pw)"
    using prod_cases4 by blast
  have r: "r = Inr ()" and w': "w' = w\<lparr>fa_rl := rl, fa_io := io, fa_pw := pw\<rparr>"
    using h s assms by (cases r; simp add: reloaded_def reloadFilterRuntime_def run filterError_def)+
  have "wired bundled (fa_rl w)" using ok by (simp add: filter_world_ok_def)
  then show "filter_world_ok (fe_rx env) bundled w' \<and> (brings s \<or> plugin_follows (fe_rx env) bundled w \<longrightarrow> plugin_follows (fe_rx env) bundled w')"
    using reload_follows [OF run [unfolded r]] ok by (simp add: w' filter_world_ok_def plugin_follows_def)
qed

lemma lawful_if: "lawful rx bundled brings h \<Longrightarrow> lawful rx bundled brings h' \<Longrightarrow> lawful rx bundled brings (if c then h else h')"
  by simp

lemma lawful_parts [lawful_rules]:
  "(\<And>req. lawful rx bundled brings (k req)) \<Longrightarrow> lawful rx bundled brings (decoded fs zero r k)"
  "lawful rx bundled brings h \<Longrightarrow> lawful rx bundled brings (with_service env h)"
  "(\<And>i tail. lawful rx bundled brings (f i tail)) \<Longrightarrow> lawful rx bundled brings (on_path pfx r f)"
  "(\<And>t. lawful rx bundled brings (g t)) \<Longrightarrow> lawful rx bundled brings (parseOptionalFilterTime env v g)"
  by (auto simp: decoded_def with_service_def on_path_def parseOptionalFilterTime_def parseFilterIDPath_def NotFound_def filterError_def Let_def
      intro!: lawful_error split: option.split sum.split if_split)

text \<open>What brings the agreement about: every method but GET, unless the answer is that the change is yet to come.\<close>

abbreviation changes :: "request \<Rightarrow> nat \<Rightarrow> bool" where
  "changes r s \<equiv> rq_Method r \<noteq> ''GET'' \<and> s \<noteq> 202"

lemma lawful_method:
  assumes "lawful rx bundled (\<lambda>_. False) h" and "lawful rx bundled (\<lambda>_. True) h'"
  shows "lawful rx bundled (\<lambda>s. changes r s) (if rq_Method r = ''GET'' then h else h')"
  using assms by (simp add: lawful_def)

lemma reads_listing [simp]:
  "reads ListLists" "reads (ListListEntries i)" "reads ListRules" "reads ListClients" "reads ListGroups" "reads (ListListGroups i)"
  "reads (ListRuleGroups i)" "reads (ListClientGroups i)"
  by (simp_all add: ListLists_def ListListEntries_def ListRules_def ListClients_def ListGroups_def ListListGroups_def ListRuleGroups_def
      ListClientGroups_def groupsForOwner_def reads_rules)

lemma mapping_services_keep [filter_keeps]:
  "keeps (filter_inv rx) (service_AddListGroup i g)" "keeps (filter_inv rx) (service_RemoveListGroup i g)"
  "keeps (filter_inv rx) (service_AddRuleGroup i g)" "keeps (filter_inv rx) (service_RemoveRuleGroup i g)"
  "keeps (filter_inv rx) (service_AddClientGroup i g)" "keeps (filter_inv rx) (service_RemoveClientGroup i g)"
  by (auto simp: service_AddListGroup_def service_RemoveListGroup_def service_AddRuleGroup_def service_RemoveRuleGroup_def
      service_AddClientGroup_def service_RemoveClientGroup_def AddListGroup_def RemoveListGroup_def AddRuleGroup_def RemoveRuleGroup_def
      AddClientGroup_def RemoveClientGroup_def intro!: keeps_then_do filter_keeps)

lemmas lawful_reading = reads_getters [THEN lawful_serve_reads] reads_listing [THEN lawful_serve_reads]

lemmas lawful_writing =
  UpdateList_keeps [THEN lawful_serve_writes] DeleteList_keeps [THEN lawful_serve_writes] CreateListEntry_keeps [THEN lawful_serve_writes]
  UpdateListEntry_keeps [THEN lawful_serve_writes] DeleteListEntry_keeps [THEN lawful_serve_writes] CreateRule_keeps [THEN lawful_serve_writes]
  UpdateRule_keeps [THEN lawful_serve_writes] DeleteRule_keeps [THEN lawful_serve_writes] CreateClient_keeps [THEN lawful_serve_writes]
  UpdateClient_keeps [THEN lawful_serve_writes] DeleteClient_keeps [THEN lawful_serve_writes] CreateGroup_keeps [THEN lawful_serve_writes]
  UpdateGroup_keeps [THEN lawful_serve_writes] DeleteGroup_keeps [THEN lawful_serve_writes] mapping_services_keep [THEN lawful_serve_writes]

lemmas lawful_steps = lawful_method lawful_if lawful_read lawful_answers lawful_parts lawful_reading lawful_writing lawful_reloaded

lemma lawful_assignment:
  "(\<And>i. lawful rx bundled brings (k i)) \<Longrightarrow> lawful rx bundled brings (decodeFilterGroupAssignment r k)"
  unfolding decodeFilterGroupAssignment_def by (intro lawful_steps) simp_all

lemma lawful_groups:
  assumes "reads listing" and "\<And>g. keeps (filter_inv (fe_rx env)) (add g)" and "\<And>g. keeps (filter_inv (fe_rx env)) (remove g)" and "fe_reloader env"
  shows "lawful (fe_rx env) bundled (\<lambda>s. changes r s) (handle_groups env listing add remove c1 c2 c3 r tail)"
proof (cases "parseFilterGroupAssignmentTail tail")
  case (Inl res)
  then have "400 \<le> fst res" by (auto simp: parseFilterGroupAssignmentTail_def NotFound_def filterError_def Let_def split: if_splits option.splits)
  then show ?thesis using Inl lawful_error [of "fst res" _ _ _ "snd res"] by (simp add: handle_groups_def)
next
  case (Inr g)
  show ?thesis
    unfolding handle_groups_def Inr sum.case
    by (intro lawful_method lawful_if lawful_read lawful_answers lawful_assignment lawful_reloaded assms(4) lawful_serve_reads [OF assms(1)]
        lawful_serve_writes [OF assms(2)] lawful_serve_writes [OF assms(3)])
qed

lemma lawful_refresh: "lawful rx bundled (\<lambda>s. changes r s) (handleFilterListRefresh env r i)"
  unfolding handleFilterListRefresh_def
  by (intro lawful_steps)
    (auto simp: lawful_def server_refreshJobs_def filterError_def filter_world_ok_def plugin_follows_def split: prod.splits sum.splits option.splits if_splits)

lemma lawful_create_list:
  "lawful rx bundled (\<lambda>_. False) (serve (CreateList l) code (\<lambda>lst. answer (201, f lst)))"
  unfolding lawful_def
proof (intro allI impI)
  fix w :: "('r, 'w) filter_world" and s b w'
  assume h: "serve (CreateList l) code (\<lambda>lst. answer (201, f lst)) w = ((s, b), w')" and s: "s < 400" and ok: "filter_world_ok rx bundled w"
  obtain r d where m: "CreateList l (io_world (fa_io w)) = (r, d)" by fastforce
  have inv: "filter_inv rx (io_world (fa_io w))" using ok by (simp add: filter_world_ok_def)
  show "filter_world_ok rx bundled w' \<and> (False \<or> plugin_follows rx bundled w \<longrightarrow> plugin_follows rx bundled w')"
  proof (cases r)
    case (Inl e)
    then show ?thesis using h s m writeFilterError_status [of e code s b] by (simp add: serve_def)
  next
    case (Inr x)
    then have w': "w' = w\<lparr>fa_io := (fa_io w)\<lparr>io_world := d\<rparr>\<rparr>" using h m by (simp add: serve_def answer_def)
    have "filter_inv rx d" using CreateList_keeps [of rx l] inv m by (auto simp: keeps_def dest!: spec [of _ "io_world (fa_io w)"])
    then show ?thesis
      using ok created_list_decides_nothing [OF inv m [unfolded Inr]]
      by (simp add: w' filter_world_ok_def plugin_follows_def rules_in_force_def)
  qed
qed

lemma lawful_lists: "lawful rx bundled (\<lambda>_. False) (handleFilterLists env r)"
  unfolding handleFilterLists_def by (intro lawful_create_list lawful_steps)

lemma lawful_handlers:
  assumes "fe_reloader env"
  shows "lawful (fe_rx env) bundled (\<lambda>s. changes r s) (handleFilterList env r)"
    and "lawful (fe_rx env) bundled (\<lambda>s. changes r s) (handleFilterListEntry env r)"
    and "lawful (fe_rx env) bundled (\<lambda>s. changes r s) (handleFilterRules env r)"
    and "lawful (fe_rx env) bundled (\<lambda>s. changes r s) (handleFilterRule env r)"
    and "lawful (fe_rx env) bundled (\<lambda>s. changes r s) (handleFilterClients env r)"
    and "lawful (fe_rx env) bundled (\<lambda>s. changes r s) (handleFilterClient env r)"
    and "lawful (fe_rx env) bundled (\<lambda>s. changes r s) (handleFilterGroups env r)"
    and "lawful (fe_rx env) bundled (\<lambda>s. changes r s) (handleFilterGroup env r)"
  unfolding handleFilterList_def handleFilterListEntry_def handleFilterRules_def handleFilterRule_def handleFilterClients_def
    handleFilterClient_def handleFilterGroups_def handleFilterGroup_def handleFilterListEntries_def handleFilterListGroups_def
    handleFilterRuleGroups_def handleFilterClientGroups_def
  by (intro lawful_refresh lawful_groups lawful_steps assms reads_listing mapping_services_keep | simp)+

section \<open>The property\<close>


definition rule_post :: request where
  "rule_post = \<lparr>rq_Method = ''POST'', rq_Path = ''/api/filter/rules'', rq_Cookie = None, rq_Authorization = [], rq_APIKey = [],
     rq_Body = Marshal (JObj [(''pattern'', JStr ''Ads.Example''), (''kind'', JStr ''deny''), (''match_type'', JStr ''suffix'')])\<rparr>"

lemma rule_post_decoded:
  "decodeJSON rule_request_fields no_rule_request (rq_Body rule_post) =
     Some \<lparr>rr_Pattern = ''Ads.Example'', rr_Kind = ''deny'', rr_MatchType = ''suffix'', rr_Enabled = None, rr_Comment = []\<rparr>"
  by code_simp

definition filters_env :: filter_api_env where
  "filters_env = \<lparr>fe_rx = \<lambda>_. None, fe_now = Some 7, fe_lib = demo_lib, fe_service = True, fe_reloader = True, fe_jobs_provided = False, fe_clock = 7,
     fe_random = Inr [], fe_order = []\<rparr>"

definition filters_world :: "(unit, unit) filter_world" where
  "filters_world = \<lparr>fa_io = \<lparr>io_files = \<lambda>_. Inl db_error, io_faults = [], io_world = \<lparr>db_tables = empty_filter_db, db_faults = []\<rparr>\<rparr>,
     fa_rl = listed_reloader, fa_pw = quiet_world, fa_jobs = None\<rparr>"

definition posted_rule :: rule where
  "posted_rule = \<lparr>ru_ID = 1, ru_Pattern = ''ads.example'', ru_Kind = KindDeny, ru_MatchType = MatchSuffix, ru_Enabled = True, ru_Comment = []\<rparr>"

definition ruled_db :: "filter_db db" where
  "ruled_db = \<lparr>db_tables = empty_filter_db\<lparr>f_rules := \<lparr>t_rows = [posted_rule], t_seq = 1\<rparr>\<rparr>, db_faults = []\<rparr>"

lemma rule_created:
  "CreateRule (\<lambda>_. None) \<lparr>ru_ID = 0, ru_Pattern = ''Ads.Example'', ru_Kind = ''deny'', ru_MatchType = ''suffix'', ru_Enabled = True, ru_Comment = []\<rparr>
     \<lparr>db_tables = empty_filter_db, db_faults = []\<rparr> = (Inr posted_rule, ruled_db)"
  by code_simp

lemma ruled_snapshot: "\<exists>s. load_snapshot (\<lambda>_. None) ruled_db = (Inr s, ruled_db)"
proof -
  have rules: "decision_rules (db_tables ruled_db) = [\<lparr>sr_Rule = posted_rule, sr_GroupID = 0\<rparr>]" by code_simp
  have "db_faults ruled_db = []" by (simp add: ruled_db_def)
  then show ?thesis
    by (simp add: load_snapshot_def then_do_def decisionRules_def ListClients_def rules posted_rule_def filter_const_defs)
      (simp add: ruled_db_def empty_filter_db_def empty_table_def tbl_select_def filter_const_defs)
qed


end
