(* ===== verification/Local_Api.thy ===== *)
theory Local_Api
  imports Config_Api
begin

text \<open>
  \<open>internal/admin/customdns_api.go\<close>: the local DNS records over HTTP. A handler calls the repository and, before it answers a change, reloads the resolver
  of the running plugin from the enabled records. The store and the reloader may be nil; the environment says it.
\<close>

section \<open>The world of the handlers\<close>

record ('st, 'w) local_world =
  lw_db :: "local_record sql_table db"
  lw_pw :: "('st, 'w dns_resolver, 'w) plugin_world"

record local_api_env =
  la_now :: time
  la_store :: bool
  la_reloader :: bool

datatype local_body = LocalError string | LocalNoContent | RecordBody local_record | RecordsBody "local_record list"

type_synonym local_response = "nat \<times> local_body"
type_synonym ('st, 'w) local_handler = "('st, 'w) local_world \<Rightarrow> local_response \<times> ('st, 'w) local_world"

definition localError :: "nat \<Rightarrow> string \<Rightarrow> local_response" where
  "localError status code = (status, LocalError code)"

definition handleCustomDNSError :: "string \<Rightarrow> go_error \<Rightarrow> local_response" where
  "handleCustomDNSError fallback err =
     (if errors_Is err ErrRecordNotFound then localError 404 ''custom_dns_record_not_found''
      else if errors_Is err ErrInvalidRecord then localError 400 ''invalid_custom_dns_record''
      else localError 500 fallback)"

text \<open>Creating a record tells invalid input from the other errors, and knows no missing record.\<close>

definition create_error :: "go_error \<Rightarrow> local_response" where
  "create_error err =
     (if errors_Is err ErrInvalidRecord then localError 400 ''invalid_custom_dns_record'' else localError 500 ''custom_dns_create_failed'')"

text \<open>A call of the repository, the response of its error, and what follows a success.\<close>

definition local_call ::
  "'a local_repo \<Rightarrow> (go_error \<Rightarrow> local_response) \<Rightarrow> ('a \<Rightarrow> ('st, 'w) local_handler) \<Rightarrow> ('st, 'w) local_handler" where
  "local_call m failed k w =
     (case m (lw_db w) of
        (Inl err, d) \<Rightarrow> (failed err, w\<lparr>lw_db := d\<rparr>)
      | (Inr x, d) \<Rightarrow> k x (w\<lparr>lw_db := d\<rparr>))"

definition reloadLocalDNS :: "local_api_env \<Rightarrow> ('st, 'w) local_world \<Rightarrow> unit result \<times> ('st, 'w) local_world" where
  "reloadLocalDNS env w =
     (if \<not> la_reloader env then (Inr (), w)
      else (case ReloadLocalDNS (Some local_ListEnabled) (lw_db w) (lw_pw w) of (r, d, pw) \<Rightarrow> (r, w\<lparr>lw_db := d, lw_pw := pw\<rparr>)))"

definition local_reloaded :: "local_api_env \<Rightarrow> local_response \<Rightarrow> ('st, 'w) local_handler" where
  "local_reloaded env res w =
     (case reloadLocalDNS env w of
        (Inl _, w) \<Rightarrow> (localError 500 ''custom_dns_reload_failed'', w)
      | (Inr _, w) \<Rightarrow> (res, w))"

section \<open>Requests\<close>

text \<open>An unsigned field of 32 bits: \<open>strconv.ParseUint\<close> of the literal, and its range.\<close>

definition decode_uint32 :: "json \<Rightarrow> 32 word \<Rightarrow> 32 word result" where
  "decode_uint32 v old =
     (case v of
        JNum l \<Rightarrow> (case parse_digits 0 l of None \<Rightarrow> Inl type_error | Some n \<Rightarrow> if n < 2 ^ 32 then Inr (of_int n) else Inl type_error)
      | JNull \<Rightarrow> Inr old
      | _ \<Rightarrow> Inl type_error)"

definition record_input_fields :: "record_input json_field list" where
  "record_input_fields =
     [request_field ''name'' decode_string ri_Name (\<lambda>v i. i\<lparr>ri_Name := v\<rparr>),
      request_field ''type'' decode_string ri_Type (\<lambda>v i. i\<lparr>ri_Type := v\<rparr>),
      request_field ''value'' decode_string ri_Value (\<lambda>v i. i\<lparr>ri_Value := v\<rparr>),
      request_field ''ttl'' decode_uint32 ri_TTL (\<lambda>v i. i\<lparr>ri_TTL := v\<rparr>),
      bool_ptr ''enabled'' ri_Enabled (\<lambda>v i. i\<lparr>ri_Enabled := v\<rparr>),
      request_field ''comment'' decode_string ri_Comment (\<lambda>v i. i\<lparr>ri_Comment := v\<rparr>)]"

definition no_input :: record_input where
  "no_input = \<lparr>ri_Name = [], ri_Type = [], ri_Value = [], ri_TTL = 0, ri_Enabled = None, ri_Comment = []\<rparr>"

definition with_input :: "request \<Rightarrow> (record_input \<Rightarrow> ('st, 'w) local_handler) \<Rightarrow> ('st, 'w) local_handler" where
  "with_input r k w =
     (case decodeJSON record_input_fields no_input (rq_Body r) of
        None \<Rightarrow> (localError 400 ''invalid_json'', w)
      | Some req \<Rightarrow> k req w)"

definition customDNSRecordID :: "string \<Rightarrow> int option" where
  "customDNSRecordID path =
     (let raw = TrimPrefix path ''/api/custom-dns/records/'' in
      if raw = [] \<or> Contains raw ''/'' then None
      else (case ParseInt raw of None \<Rightarrow> None | Some i \<Rightarrow> if i \<le> 0 then None else Some i))"

section \<open>The handlers\<close>

definition handleCustomDNSRecords :: "local_api_env \<Rightarrow> request \<Rightarrow> ('st, 'w) local_handler" where
  "handleCustomDNSRecords env r w =
     (if \<not> la_store env then (localError 503 ''custom_dns_unavailable'', w)
      else if rq_Method r = ''GET'' then
        local_call local_List (\<lambda>_. localError 500 ''custom_dns_list_failed'') (\<lambda>records. Pair (200, RecordsBody records)) w
      else if rq_Method r = ''POST'' then
        with_input r (\<lambda>req. local_call (local_Create (la_now env) req) create_error (\<lambda>record.
          local_reloaded env (201, RecordBody record))) w
      else (localError 405 ''method_not_allowed'', w))"

definition handleCustomDNSRecord :: "local_api_env \<Rightarrow> request \<Rightarrow> ('st, 'w) local_handler" where
  "handleCustomDNSRecord env r w =
     (if \<not> la_store env then (localError 503 ''custom_dns_unavailable'', w)
      else case customDNSRecordID (rq_Path r) of
        None \<Rightarrow> (localError 404 ''custom_dns_record_not_found'', w)
      | Some i \<Rightarrow>
          if rq_Method r = ''GET'' then
            local_call (local_Get i) (handleCustomDNSError ''custom_dns_get_failed'') (\<lambda>record. Pair (200, RecordBody record)) w
          else if rq_Method r = ''PUT'' then
            with_input r (\<lambda>req. local_call (local_Update (la_now env) i req) (handleCustomDNSError ''custom_dns_update_failed'') (\<lambda>record.
              local_reloaded env (200, RecordBody record))) w
          else if rq_Method r = ''DELETE'' then
            local_call (local_Delete i) (handleCustomDNSError ''custom_dns_delete_failed'') (\<lambda>_. local_reloaded env (204, LocalNoContent)) w
          else (localError 405 ''method_not_allowed'', w))"

section \<open>Requests at once\<close>

text \<open>
  \<open>ReloadLocalDNS\<close> takes no lock: it reads the enabled records and then stores the resolver, and other requests may come between. The state is the table,
  the resolver in force and what the requests that are between the two steps have read.
\<close>

record 'w reloads =
  rl_db :: "local_record sql_table db"
  rl_resolver :: "'w dns_resolver option"
  rl_read :: "local_record list list"

inductive reload_step :: "'w reloads \<Rightarrow> 'w reloads \<Rightarrow> bool" where
  change: "local_step (rl_db s) d \<Longrightarrow> reload_step s (s\<lparr>rl_db := d\<rparr>)"
| read: "local_ListEnabled (rl_db s) = (Inr rs, d) \<Longrightarrow> reload_step s (s\<lparr>rl_db := d, rl_read := rl_read s @ [rs]\<rparr>)"
| install: "rs \<in> set (rl_read s) \<Longrightarrow>
    reload_step s (s\<lparr>rl_resolver := Some (NewStaticResolver rs), rl_read := remove1 rs (rl_read s)\<rparr>)"

end
