(* ===== verification/Local_Api_Properties.thy ===== *)
theory Local_Api_Properties
  imports Local_Api
begin

text \<open>
  The local DNS records over HTTP, from a request to the resolver of the running plugin; and what two requests at once can do to it.
\<close>

text \<open>The plugin answers by the enabled records of the table.\<close>

definition serves_table :: "('st, 'w) local_world \<Rightarrow> bool" where
  "serves_table w \<longleftrightarrow>
     rt_local (pw_runtime (lw_pw w)) = Some (NewStaticResolver (list_records lr_Enabled (db_tables (lw_db w))))"

lemma reloaded_serves:
  assumes "local_reloaded env res w = ((s, b), w')" and "s < 400" and "la_reloader env"
  shows "(s, b) = res \<and> db_tables (lw_db w') = db_tables (lw_db w) \<and> serves_table w'"
proof -
  obtain r d where l: "local_ListEnabled (lw_db w) = (r, d)" by fastforce
  have r: "\<exists>rs. r = Inr rs"
    using assms l by (cases r) (auto simp: local_reloaded_def reloadLocalDNS_def ReloadLocalDNS_def localError_def)
  then obtain rs where rs: "r = Inr rs" by blast
  have "rs = list_records lr_Enabled (db_tables (lw_db w))" and "db_tables d = db_tables (lw_db w)"
    using record_source.read_ok [OF l [unfolded rs]] by auto
  then show ?thesis
    using assms l rs
    by (auto simp: local_reloaded_def reloadLocalDNS_def ReloadLocalDNS_def serves_table_def SetLocalResolver_def store_def Let_def)
qed

lemma change_serves:
  assumes "local_call m failed (\<lambda>x. local_reloaded env (res x)) w = ((s, b), w')" and "s < 400" and "la_reloader env"
    and "keeps local_inv m" and "\<And>e. 400 \<le> fst (failed e)" and "local_inv (lw_db w)"
  shows "local_inv (lw_db w') \<and> serves_table w'"
proof -
  obtain r d where m: "m (lw_db w) = (r, d)" by fastforce
  have d: "local_inv d" using assms(4,6) m by (auto simp: keeps_def dest!: spec [of _ "lw_db w"])
  show ?thesis
  proof (cases r)
    case (Inl e)
    then show ?thesis using assms(1,2) assms(5) [of e] m by (simp add: local_call_def)
  next
    case (Inr x)
    then have "local_reloaded env (res x) (w\<lparr>lw_db := d\<rparr>) = ((s, b), w')" using assms(1) m by (simp add: local_call_def)
    then show ?thesis using reloaded_serves [OF _ assms(2,3)] d by fastforce
  qed
qed

lemma read_serves:
  assumes "local_call m failed (\<lambda>x. Pair (res x)) w = ((s, b), w')" and "reads m"
  shows "db_tables (lw_db w') = db_tables (lw_db w) \<and> lw_pw w' = lw_pw w"
  using assms(1) readsD [OF assms(2), of "lw_db w"] by (auto simp: local_call_def split: prod.splits sum.splits)

lemma error_statuses [simp]: "400 \<le> fst (create_error e)" "400 \<le> fst (handleCustomDNSError c e)"
  by (simp_all add: create_error_def handleCustomDNSError_def localError_def)

lemma reads_local_List [simp]: "reads local_List"
  by (simp add: local_List_def local_list_def)

definition is_custom_dns :: "local_api_env \<Rightarrow> (request \<Rightarrow> ('st, 'w) local_handler) \<Rightarrow> bool" where
  "is_custom_dns env h \<longleftrightarrow> h = handleCustomDNSRecords env \<or> h = handleCustomDNSRecord env"

text \<open>
  C13: A change of the local records that is answered without an error is served: after its answer the plugin resolves by exactly the enabled records of the
  table as it is now, and so it does after every other request answered without an error if it did before. The records of the table stay valid.
\<close>

theorem custom_dns_changes_served:
  assumes "is_custom_dns env h" and "h r w = ((status, body), w')" and "status < 400" and "la_reloader env" and "local_inv (lw_db w)"
    and "rq_Method r \<noteq> ''GET'' \<or> serves_table w"
  shows "local_inv (lw_db w') \<and> serves_table w'"
proof (cases "rq_Method r = ''GET''")
  case True
  have "db_tables (lw_db w') = db_tables (lw_db w) \<and> lw_pw w' = lw_pw w"
    using assms(1-3) True
    by (auto simp: is_custom_dns_def handleCustomDNSRecords_def handleCustomDNSRecord_def localError_def split: if_splits option.splits
        dest!: read_serves)
  then show ?thesis using assms(5,6) True by (simp add: serves_table_def)
next
  case False
  note change = change_serves [OF _ assms(3,4) _ _ assms(5)]
  show ?thesis
    using assms(1-3) False
    by (auto simp: is_custom_dns_def handleCustomDNSRecords_def handleCustomDNSRecord_def with_input_def localError_def
        split: if_splits option.splits dest!: change simp: local_Create_keeps local_Update_keeps local_Delete_keeps)
qed

definition record_post :: request where
  "record_post = \<lparr>rq_Method = ''POST'', rq_Path = ''/api/custom-dns/records'', rq_Cookie = None, rq_Authorization = [], rq_APIKey = [],
     rq_Body = Marshal (JObj [(''name'', JStr ''nas.home''), (''type'', JStr ''A''), (''value'', JStr ''192.168.1.20''), (''ttl'', JNum ''60'')])\<rparr>"

definition local_env :: local_api_env where
  "local_env = \<lparr>la_now = Some 1, la_store = True, la_reloader = True\<rparr>"

definition posted_record :: local_record where
  "posted_record = \<lparr>lr_ID = 1, lr_Name = ''nas.home'', lr_Type = ''A'', lr_Value = ''192.168.1.20'', lr_TTL = 60, lr_Enabled = True, lr_Comment = [],
     lr_CreatedAt = Some 1, lr_UpdatedAt = Some 1\<rparr>"

lemma record_post_decoded:
  "decodeJSON record_input_fields no_input (rq_Body record_post) =
     Some \<lparr>ri_Name = ''nas.home'', ri_Type = ''A'', ri_Value = ''192.168.1.20'', ri_TTL = 60, ri_Enabled = None, ri_Comment = []\<rparr>"
  by code_simp

definition one_record :: "local_record sql_table db" where
  "one_record = \<lparr>db_tables = \<lparr>t_rows = [posted_record], t_seq = 1\<rparr>, db_faults = []\<rparr>"

lemma record_created:
  "local_Create (Some 1) \<lparr>ri_Name = ''nas.home'', ri_Type = ''A'', ri_Value = ''192.168.1.20'', ri_TTL = 60, ri_Enabled = None, ri_Comment = []\<rparr>
     \<lparr>db_tables = empty_table, db_faults = []\<rparr> = (Inr posted_record, one_record)"
  by code_simp

lemma one_record_listed: "local_ListEnabled one_record = (Inr [posted_record], one_record)"
  by (simp add: local_ListEnabled_def local_list_def one_record_def list_records_def tbl_select_def posted_record_def)

theorem custom_dns_changes_served_witness:
  "\<exists>w'. handleCustomDNSRecords local_env record_post
      \<lparr>lw_db = \<lparr>db_tables = empty_table, db_faults = []\<rparr>, lw_pw = (quiet_world :: (unit, unit dns_resolver, unit) plugin_world)\<rparr> =
        ((201, RecordBody posted_record), w') \<and> lw_db w' = one_record \<and> serves_table w'"
proof -
  let ?w = "\<lparr>lw_db = \<lparr>db_tables = empty_table, db_faults = []\<rparr>, lw_pw = (quiet_world :: (unit, unit dns_resolver, unit) plugin_world)\<rparr>"
  have env: "la_now local_env = Some 1" "la_store local_env" "la_reloader local_env" by (simp_all add: local_env_def)
  have r: "rq_Method record_post = ''POST''" by (simp add: record_post_def)
  obtain w' where h: "handleCustomDNSRecords local_env record_post ?w = ((201, RecordBody posted_record), w')" and d: "lw_db w' = one_record"
    by (simp add: handleCustomDNSRecords_def env r with_input_def record_post_decoded local_call_def record_created local_reloaded_def
        reloadLocalDNS_def ReloadLocalDNS_def one_record_listed)
  have ok: "local_inv (lw_db ?w)" by (simp add: local_ok_def records.empty_ok) (simp add: empty_table_def)
  have c: "is_custom_dns local_env (handleCustomDNSRecords local_env :: request \<Rightarrow> (unit, unit) local_handler)" by (simp add: is_custom_dns_def)
  show ?thesis using custom_dns_changes_served [OF c h _ env(3) ok] h d r by simp
qed

text \<open>
  Two requests at once: one has read the records when another deletes one of them and reloads, and then stores its own resolver. No request is left, the
  table is empty, and the deleted record is served.
\<close>

lemma deleted_record_served:
  "\<exists>s :: unit reloads.
     reload_step\<^sup>*\<^sup>* \<lparr>rl_db = one_record, rl_resolver = Some (NewStaticResolver [posted_record]), rl_read = []\<rparr> s \<and> rl_read s = [] \<and>
     t_rows (db_tables (rl_db s)) = [] \<and> rl_resolver s = Some (NewStaticResolver [posted_record])"
proof -
  let ?s = "\<lambda>d res rs. \<lparr>rl_db = d, rl_resolver = Some (NewStaticResolver res), rl_read = rs\<rparr> :: unit reloads"
  let ?d = "\<lparr>db_tables = \<lparr>t_rows = [], t_seq = 1\<rparr>, db_faults = []\<rparr> :: local_record sql_table db"
  have del: "snd (local_Delete 1 one_record) = ?d" by code_simp
  have empty: "local_ListEnabled ?d = (Inr [], ?d)" by (simp add: local_ListEnabled_def local_list_def list_records_def tbl_select_def)
  have "reload_step\<^sup>*\<^sup>* (?s one_record [posted_record] []) (?s one_record [posted_record] [])" by simp
  also have "reload_step (?s one_record [posted_record] []) (?s one_record [posted_record] [[posted_record]])"
    using reload_step.read [of "?s one_record [posted_record] []" "[posted_record]" one_record] one_record_listed by simp
  also (rtranclp.rtrancl_into_rtrancl) have "reload_step (?s one_record [posted_record] [[posted_record]]) (?s ?d [posted_record] [[posted_record]])"
    using reload_step.change [of "?s one_record [posted_record] [[posted_record]]" ?d] local_step.delete [of one_record 1] del by simp
  also (rtranclp.rtrancl_into_rtrancl) have "reload_step (?s ?d [posted_record] [[posted_record]]) (?s ?d [posted_record] [[posted_record], []])"
    using reload_step.read [of "?s ?d [posted_record] [[posted_record]]" "[]" ?d] empty by simp
  also (rtranclp.rtrancl_into_rtrancl) have "reload_step (?s ?d [posted_record] [[posted_record], []]) (?s ?d [] [[posted_record]])"
    using reload_step.install [of "[]" "?s ?d [posted_record] [[posted_record], []]"] by simp
  also (rtranclp.rtrancl_into_rtrancl) have "reload_step (?s ?d [] [[posted_record]]) (?s ?d [posted_record] [])"
    using reload_step.install [of "[posted_record]" "?s ?d [] [[posted_record]]"] by simp
  finally (rtranclp.rtrancl_into_rtrancl) show ?thesis by fastforce
qed

end
