(* ===== verification/Dashboard_Api.thy ===== *)
theory Dashboard_Api
  imports Audit_Api
begin

text \<open>
  \<open>internal/admin/api.go\<close>: the dashboard, which puts together what the other parts know: the administrator, the audit log with its totals and the
  configuration. The source of the configuration may be nil.
\<close>

record 's dashboard_world =
  dw_server :: server
  dw_reader :: audit_reader
  dw_store :: 's

record dashboard =
  dh_SetupRequired :: bool
  dh_Authenticated :: bool
  dh_TotalQueries :: int
  dh_BlockedQueries :: int
  dh_AllowedQueries :: int
  dh_TotalRecentQueries :: int
  dh_BlockedRecentQueries :: int
  dh_AllowedRecentQueries :: int
  dh_DroppedAuditEvents :: "64 word"
  dh_Upstreams :: "resolver list"
  dh_Blocklists :: "string list"
  dh_BlocklistCount :: int
  dh_DNSListen :: string
  dh_AdminListen :: string
  dh_BlockingResponse :: string
  dh_BlockingBundled :: bool
  dh_BlockingPaused :: bool
  dh_BlockingPauseUntil :: string

datatype dashboard_body = DashboardError string | DashboardBody dashboard

text \<open>The snapshot of the defaults, when the server was made without a source.\<close>

definition default_snapshot :: config_snapshot where
  "default_snapshot =
     (let d = cfg_DNS Default; b = cfg_Blocking Default; s = cfg_Storage Default in
      \<lparr>cs_Storage = \<lparr>sc_Path = [], sc_AuditPath = [], sc_MainReadConnections = 0, sc_AuditReadConnections = 0, sc_SessionReadConnections = 0\<rparr>,
       cs_DNSListen = [], cs_AdminListen = [], cs_Upstreams = [],
       cs_CacheTTL = dc_CacheTTL d, cs_CacheSuccessTTL = EffectiveCacheSuccessTTL d, cs_CacheDenialTTL = EffectiveCacheDenialTTL d,
       cs_CacheSuccessCapacity = dc_CacheSuccessCapacity d, cs_CacheDenialCapacity = dc_CacheDenialCapacity d,
       cs_CachePrefetchAmount = dc_CachePrefetchAmount d, cs_CachePrefetchDuration = dc_CachePrefetchDuration d,
       cs_CachePrefetchPercent = dc_CachePrefetchPercent d, cs_Rewrites = [],
       cs_DNSSEC = \<lparr>ds_Enabled = False, ds_Mode = DNSSECModeOff\<rparr>,
       cs_ConditionalForwarding = \<lparr>cf_Enabled = False, cf_Domain = [], cf_Resolver = [], cf_Protocol = [], cf_TLSServerName = []\<rparr>,
       cs_BlockingResponse = bc_Response b, cs_BlockingBundled = bc_Bundled b, cs_BlockingPaused = False, cs_BlockingPauseUntil = [],
       cs_Logging = loggingSnapshotFromConfig (cfg_Logging Default), cs_Blocklists = [], cs_StoragePath = sc_Path s, cs_AuditStoragePath = sc_AuditPath s\<rparr>)"

definition configSnapshot :: "('s, config) step option \<Rightarrow> ('s, config_snapshot) step" where
  "configSnapshot source = (case source of None \<Rightarrow> ret default_snapshot | Some Load \<Rightarrow> store_Snapshot Load)"

text \<open>The calls of the three parts, and the counts of the recent events by their action.\<close>

definition on_server :: "(server \<Rightarrow> 'a result \<times> server) \<Rightarrow> ('s dashboard_world, 'a) step" where
  "on_server m w = (case m (dw_server w) of (r, sv) \<Rightarrow> (r, w\<lparr>dw_server := sv\<rparr>))"

definition on_reader :: "(audit_reader, 'a) step \<Rightarrow> ('s dashboard_world, 'a) step" where
  "on_reader m w = (case m (dw_reader w) of (r, rd) \<Rightarrow> (r, w\<lparr>dw_reader := rd\<rparr>))"

definition on_config_source :: "('s, 'a) step \<Rightarrow> ('s dashboard_world, 'a) step" where
  "on_config_source m w = (case m (dw_store w) of (r, s) \<Rightarrow> (r, w\<lparr>dw_store := s\<rparr>))"

definition recent_count :: "string \<Rightarrow> audit_event list \<Rightarrow> int" where
  "recent_count action events = int (length (filter (\<lambda>e. ev_Action e = action) events))"

definition dashboard_of :: "bool \<Rightarrow> bool \<Rightarrow> audit_event list \<Rightarrow> audit_stats \<Rightarrow> config_snapshot \<Rightarrow> dashboard" where
  "dashboard_of setup authed events stats snap =
     \<lparr>dh_SetupRequired = (\<not> setup), dh_Authenticated = authed, dh_TotalQueries = tt_TotalQueries (ss_Totals stats),
      dh_BlockedQueries = tt_BlockedQueries (ss_Totals stats), dh_AllowedQueries = tt_AllowedQueries (ss_Totals stats),
      dh_TotalRecentQueries = int (length events), dh_BlockedRecentQueries = recent_count ''block'' events,
      dh_AllowedRecentQueries = recent_count ''allow'' events, dh_DroppedAuditEvents = ss_DroppedEvents stats,
      dh_Upstreams = cs_Upstreams snap, dh_Blocklists = cs_Blocklists snap, dh_BlocklistCount = int (length (cs_Blocklists snap)),
      dh_DNSListen = cs_DNSListen snap, dh_AdminListen = cs_AdminListen snap, dh_BlockingResponse = cs_BlockingResponse snap,
      dh_BlockingBundled = cs_BlockingBundled snap, dh_BlockingPaused = cs_BlockingPaused snap, dh_BlockingPauseUntil = cs_BlockingPauseUntil snap\<rparr>"

text \<open>Every failing part gives the same answer; the request is authenticated once more for the answer.\<close>

definition handleDashboard ::
  "config_lib \<Rightarrow> request_env \<Rightarrow> ('s, config) step option \<Rightarrow> request \<Rightarrow> 's dashboard_world \<Rightarrow> (nat \<times> dashboard_body) \<times> 's dashboard_world" where
  "handleDashboard lib env source r w =
     (if rq_Method r \<noteq> ''GET'' then ((405, DashboardError ''method_not_allowed''), w)
      else case
         then_do (on_server (on_users sqlite_IsSetup)) (\<lambda>setup.
         then_do (on_reader (recentAuditEvents (lib_lenientNano lib) defaultQueriesLimit)) (\<lambda>events.
         then_do (on_reader auditStats) (\<lambda>stats.
         then_do (on_config_source (configSnapshot source)) (\<lambda>snapshot.
         then_do (on_server (\<lambda>sv. case authenticated env r sv of (b, sv) \<Rightarrow> (Inr b, sv))) (\<lambda>authed.
           ret (dashboard_of setup authed events stats snapshot)))))) w of
        (Inl _, w) \<Rightarrow> ((500, DashboardError ''dashboard_unavailable''), w)
      | (Inr res, w) \<Rightarrow> ((200, DashboardBody res), w))"

end
