(* ===== verification/Storage_Schema.thy ===== *)
theory Storage_Schema
  imports Sql_Table Config
begin

text \<open>
  \<open>internal/storage/storage.go\<close>: the migrations that build the tables of a database file, and how they are applied. Of the schema the tables with their
  columns and the indexes are kept; of the rows those that a migration reads or writes, the settings of the query log, the actions of its events and the
  totals. The times in the rows of settings and totals are left out, and so are the constraints of the columns, which the theories of the tables have.
\<close>

section \<open>Statements\<close>

definition defaultAuditRetentionNS :: int where
  "defaultAuditRetentionNS = 48 * 3600 * 1000000000"

datatype statement =
    CreateTable string "string list"
  | CreateIndex string string "string list"
  | AddColumn string string
  | DefaultSettings int
  | ClearTotals
  | CountTotals
  | BoundRetention int

type_synonym layout = "(string \<times> string list) list \<times> string list"

record audit_data =
  ad_settings :: "(int \<times> int) option"
  ad_actions :: "string list"
  ad_totals :: "(string \<times> int) list"

record stored =
  sd_layout :: layout
  sd_applied :: "(int \<times> string \<times> string) list"
  sd_data :: audit_data

definition has_columns :: "layout \<Rightarrow> string \<Rightarrow> string list \<Rightarrow> bool" where
  "has_columns l name columns \<longleftrightarrow> (case map_of (fst l) name of None \<Rightarrow> False | Some cs \<Rightarrow> list_all (\<lambda>c. c \<in> set cs) columns)"

text \<open>
  What a statement makes of the tables and indexes, \<^term>\<open>None\<close> when it fails: \<open>IF NOT EXISTS\<close> passes over what is there, a column is added only once, and an
  index or a row needs its table.
\<close>

fun layout_step :: "statement \<Rightarrow> layout \<Rightarrow> layout option" where
  "layout_step (CreateTable name columns) l = Some (if map_of (fst l) name = None then (fst l @ [(name, columns)], snd l) else l)"
| "layout_step (CreateIndex name tab columns) l =
     (if \<not> has_columns l tab [] then None
      else if name \<in> set (snd l) then Some l
      else if has_columns l tab columns then Some (fst l, snd l @ [name]) else None)"
| "layout_step (AddColumn tab column) l =
     (if \<not> has_columns l tab [] \<or> has_columns l tab [column] then None
      else Some (map (\<lambda>(n, cs). (n, if n = tab then cs @ [column] else cs)) (fst l), snd l))"
| "layout_step (DefaultSettings _) l = (if has_columns l ''audit_settings'' [''retention_duration_ns'', ''privacy_level''] then Some l else None)"
| "layout_step ClearTotals l = (if has_columns l ''audit_action_totals'' [] then Some l else None)"
| "layout_step CountTotals l =
     (if has_columns l ''audit_action_totals'' [''action'', ''count'', ''updated_at''] \<and> has_columns l ''audit_events'' [''action''] then Some l else None)"
| "layout_step (BoundRetention _) l = (if has_columns l ''audit_settings'' [''retention_duration_ns''] then Some l else None)"

fun data_step :: "statement \<Rightarrow> audit_data \<Rightarrow> audit_data result" where
  "data_step (DefaultSettings retention) d =
     Inr (d\<lparr>ad_settings := (case ad_settings d of None \<Rightarrow> Some (retention, 0) | Some s \<Rightarrow> Some s)\<rparr>)"
| "data_step ClearTotals d = Inr (d\<lparr>ad_totals := []\<rparr>)"
| "data_step CountTotals d =
     (if list_ex (\<lambda>(a, n). a \<in> set (ad_actions d)) (ad_totals d) then Inl (constraint_error ''audit_action_totals'')
      else Inr (d\<lparr>ad_totals := ad_totals d @ map (\<lambda>a. (a, int (length (filter (\<lambda>b. b = a) (ad_actions d))))) (remdups (ad_actions d))\<rparr>))"
| "data_step (BoundRetention retention) d =
     Inr (d\<lparr>ad_settings := map_option (\<lambda>(r, p). (if r = 0 then retention else r, p)) (ad_settings d)\<rparr>)"
| "data_step _ d = Inr d"

definition exec_statement :: "statement \<Rightarrow> stored \<Rightarrow> (unit \<times> stored) result" where
  "exec_statement st tb =
     (case layout_step st (sd_layout tb) of
        None \<Rightarrow> Inl db_error
      | Some l \<Rightarrow> map_sum id (\<lambda>d. ((), tb\<lparr>sd_layout := l, sd_data := d\<rparr>)) (data_step st (sd_data tb)))"

section \<open>Migrations\<close>

record migration =
  mg_version :: int
  mg_name :: string
  mg_statements :: "statement list"

definition allMigrations :: "migration list" where
  "allMigrations =
     [\<lparr>mg_version = 1, mg_name = ''create audit_events'', mg_statements =
        [CreateTable ''audit_events'' [''id'', ''timestamp'', ''client_ip'', ''query_name'', ''query_type'', ''action'', ''reason'', ''rule_id'', ''blocklist_id'', ''response'', ''duration_ns''],
         CreateIndex ''audit_events_timestamp_idx'' ''audit_events'' [''timestamp'', ''id'']]\<rparr>,
      \<lparr>mg_version = 2, mg_name = ''create admin_users'', mg_statements =
        [CreateTable ''admin_users'' [''id'', ''password_hash'', ''created_at'']]\<rparr>,
      \<lparr>mg_version = 3, mg_name = ''create app_config'', mg_statements =
        [CreateTable ''app_config'' [''id'', ''payload'', ''updated_at'']]\<rparr>,
      \<lparr>mg_version = 4, mg_name = ''create local_dns_records'', mg_statements =
        [CreateTable ''local_dns_records'' [''id'', ''name'', ''type'', ''value'', ''ttl'', ''enabled'', ''comment'', ''created_at'', ''updated_at''],
         CreateIndex ''local_dns_records_lookup_idx'' ''local_dns_records'' [''enabled'', ''name'', ''type''],
         CreateIndex ''local_dns_records_updated_at_idx'' ''local_dns_records'' [''updated_at'', ''id'']]\<rparr>,
      \<lparr>mg_version = 5, mg_name = ''create filter tables'', mg_statements =
        [CreateTable ''filter_lists'' [''id'', ''url'', ''path'', ''kind'', ''enabled'', ''last_updated_at'', ''last_error''],
         CreateIndex ''filter_lists_kind_enabled_idx'' ''filter_lists'' [''kind'', ''enabled''],
         CreateTable ''filter_list_entries'' [''id'', ''list_id'', ''pattern'', ''match_type'', ''enabled''],
         CreateIndex ''filter_list_entries_list_idx'' ''filter_list_entries'' [''list_id'', ''enabled''],
         CreateTable ''filter_rules'' [''id'', ''pattern'', ''kind'', ''match_type'', ''enabled'', ''comment''],
         CreateIndex ''filter_rules_kind_match_enabled_idx'' ''filter_rules'' [''kind'', ''match_type'', ''enabled''],
         CreateTable ''filter_clients'' [''id'', ''name'', ''address'', ''comment'', ''enabled''],
         CreateTable ''filter_groups'' [''id'', ''name'', ''comment'', ''enabled''],
         CreateTable ''filter_client_groups'' [''client_id'', ''group_id''],
         CreateTable ''filter_list_groups'' [''list_id'', ''group_id''],
         CreateTable ''filter_rule_groups'' [''rule_id'', ''group_id'']]\<rparr>,
      \<lparr>mg_version = 6, mg_name = ''create audit settings'', mg_statements =
        [CreateTable ''audit_settings'' [''id'', ''retention_duration_ns'', ''privacy_level'', ''updated_at''],
         DefaultSettings defaultAuditRetentionNS]\<rparr>,
      \<lparr>mg_version = 7, mg_name = ''create api_keys'', mg_statements =
        [CreateTable ''api_keys'' [''id'', ''name'', ''key_hash'', ''prefix'', ''last4'', ''created_at'', ''last_used_at'', ''revoked_at'', ''disabled''],
         CreateIndex ''api_keys_hash_active_idx'' ''api_keys'' [''key_hash'', ''disabled'', ''revoked_at''],
         CreateIndex ''api_keys_created_at_idx'' ''api_keys'' [''created_at'', ''id'']]\<rparr>,
      \<lparr>mg_version = 8, mg_name = ''index audit event query fields'', mg_statements =
        [CreateIndex ''audit_events_client_ip_idx'' ''audit_events'' [''client_ip''],
         CreateIndex ''audit_events_query_name_idx'' ''audit_events'' [''query_name''],
         CreateIndex ''audit_events_query_type_idx'' ''audit_events'' [''query_type''],
         CreateIndex ''audit_events_action_idx'' ''audit_events'' [''action''],
         CreateIndex ''audit_events_response_idx'' ''audit_events'' [''response''],
         CreateIndex ''audit_events_rule_id_idx'' ''audit_events'' [''rule_id''],
         CreateIndex ''audit_events_blocklist_id_idx'' ''audit_events'' [''blocklist_id''],
         CreateIndex ''audit_events_duration_ns_idx'' ''audit_events'' [''duration_ns''],
         CreateIndex ''audit_events_client_ip_timestamp_idx'' ''audit_events'' [''client_ip'', ''timestamp'', ''id''],
         CreateIndex ''audit_events_query_name_timestamp_idx'' ''audit_events'' [''query_name'', ''timestamp'', ''id''],
         CreateIndex ''audit_events_action_timestamp_idx'' ''audit_events'' [''action'', ''timestamp'', ''id'']]\<rparr>,
      \<lparr>mg_version = 9, mg_name = ''create audit action totals'', mg_statements =
        [CreateTable ''audit_action_totals'' [''action'', ''count'', ''updated_at''],
         ClearTotals,
         CountTotals]\<rparr>,
      \<lparr>mg_version = 10, mg_name = ''add audit upstream diagnostics'', mg_statements =
        [AddColumn ''audit_events'' ''upstream_resolver'',
         AddColumn ''audit_events'' ''cache_status'',
         AddColumn ''audit_events'' ''forward_duration_ns'',
         AddColumn ''audit_events'' ''retry_count'',
         AddColumn ''audit_events'' ''forward_error'',
         CreateIndex ''audit_events_upstream_resolver_idx'' ''audit_events'' [''upstream_resolver''],
         CreateIndex ''audit_events_cache_status_idx'' ''audit_events'' [''cache_status''],
         CreateIndex ''audit_events_forward_duration_ns_idx'' ''audit_events'' [''forward_duration_ns''],
         CreateIndex ''audit_events_retry_count_idx'' ''audit_events'' [''retry_count'']]\<rparr>,
      \<lparr>mg_version = 11, mg_name = ''create admin sessions'', mg_statements =
        [CreateTable ''admin_sessions'' [''token_hash'', ''created_at'', ''expires_at''],
         CreateIndex ''admin_sessions_expires_at_idx'' ''admin_sessions'' [''expires_at'']]\<rparr>,
      \<lparr>mg_version = 12, mg_name = ''add analytics summary covering indexes'', mg_statements =
        [CreateIndex ''audit_events_timestamp_action_idx'' ''audit_events'' [''timestamp'', ''action''],
         CreateIndex ''audit_events_timestamp_cache_status_idx'' ''audit_events'' [''timestamp'', ''cache_status''],
         CreateIndex ''audit_events_timestamp_query_name_idx'' ''audit_events'' [''timestamp'', ''query_name''],
         CreateIndex ''audit_events_timestamp_action_query_name_idx'' ''audit_events'' [''timestamp'', ''action'', ''query_name''],
         CreateIndex ''audit_events_timestamp_client_ip_idx'' ''audit_events'' [''timestamp'', ''client_ip''],
         CreateIndex ''audit_events_timestamp_action_client_ip_idx'' ''audit_events'' [''timestamp'', ''action'', ''client_ip'']]\<rparr>,
      \<lparr>mg_version = 13, mg_name = ''default bounded audit retention'', mg_statements =
        [BoundRetention defaultAuditRetentionNS]\<rparr>]"

definition filterMigrations :: "int list \<Rightarrow> migration list" where
  "filterMigrations versions = filter (\<lambda>m. mg_version m \<in> set versions) allMigrations"

definition mainMigrations :: "migration list" where
  "mainMigrations = filterMigrations [2, 3, 4, 5, 7, 11]"

definition auditMigrations :: "migration list" where
  "auditMigrations = filterMigrations [1, 6, 8, 9, 10, 12, 13]"

text \<open>The migrations of \<open>OpenSessions\<close> and \<open>OpenJobs\<close>.\<close>

definition sessionMigrations :: "migration list" where
  "sessionMigrations =
     [\<lparr>mg_version = 1, mg_name = ''create sessions'', mg_statements =
         [CreateTable ''admin_sessions'' [''token_hash'', ''created_at'', ''expires_at''],
          CreateIndex ''admin_sessions_expires_at_idx'' ''admin_sessions'' [''expires_at''],
          CreateTable ''session_metadata'' [''key'']]\<rparr>]"

definition jobMigrations :: "migration list" where
  "jobMigrations =
     [\<lparr>mg_version = 1, mg_name = ''create refresh jobs'', mg_statements = [CreateTable ''refresh_jobs'' [''id'', ''payload'']]\<rparr>]"

section \<open>Applying them\<close>

definition on_migration :: "string \<Rightarrow> migration \<Rightarrow> string" where
  "on_migration what m = what @ '' migration '' @ Itoa (mg_version m)"

definition record_migration :: "string \<Rightarrow> migration \<Rightarrow> stored \<Rightarrow> (unit \<times> stored) result" where
  "record_migration at m tb =
     (if mg_version m \<in> fst ` set (sd_applied tb) then Inl (constraint_error ''schema_migrations'')
      else Inr ((), tb\<lparr>sd_applied := sd_applied tb @ [(mg_version m, mg_name m, at)]\<rparr>))"

definition migration_body :: "string \<Rightarrow> migration \<Rightarrow> (stored db, unit) step" where
  "migration_body at m =
     then_do (wrap_err (Wrapf (on_migration ''check'' m))
        (sql_query_row (\<lambda>tb. length (filter (\<lambda>r. fst r = mg_version m) (sd_applied tb))))) (\<lambda>exists.
     if exists > 0 then ret ()
     else
       then_do (for_each (\<lambda>st. wrap_err (Wrapf (on_migration ''apply'' m)) (sql_run (exec_statement st))) (mg_statements m)) (\<lambda>_.
       wrap_err (Wrapf (on_migration ''record'' m)) (sql_run (record_migration at m))))"

text \<open>A transaction whose commit returns its error as it is; the deferred rollback undoes what was not committed.\<close>

definition applyMigration :: "string \<Rightarrow> migration \<Rightarrow> (stored db, unit) step" where
  "applyMigration at m d =
     (case then_do (wrap_err (Wrapf (on_migration ''begin'' m)) (sql_poll db_error)) (\<lambda>_.
           then_do (migration_body at m) (\<lambda>_. sql_poll db_error)) d of
        (Inl e, d') \<Rightarrow> (Inl e, d'\<lparr>db_tables := db_tables d\<rparr>)
      | (Inr _, d') \<Rightarrow> (Inr (), d'))"

text \<open>The table of the migrations is created when it is not there; it is empty until then.\<close>

definition migrate :: "string \<Rightarrow> migration list \<Rightarrow> (stored db, unit) step" where
  "migrate at ms =
     then_do (wrap_err (Wrapf ''create schema_migrations'') (sql_run (\<lambda>tb. Inr ((), tb)))) (\<lambda>_.
     then_do (for_each (applyMigration at) ms) (\<lambda>_. ret ()))"

section \<open>Paths\<close>

definition siblingPath :: "string \<Rightarrow> string \<Rightarrow> string" where
  "siblingPath mainPath name = TrimSuffix mainPath (filepath_Ext mainPath) @ ''-'' @ name @ filepath_Ext mainPath"

definition JobsPath :: "string \<Rightarrow> string" where
  "JobsPath mainPath = siblingPath mainPath ''jobs''"

definition SessionsPath :: "string \<Rightarrow> string" where
  "SessionsPath mainPath = siblingPath mainPath ''sessions''"

end
