(* ===== verification/Storage_Properties.thy ===== *)
theory Storage_Properties
  imports Storage_Schema
begin

text \<open>
  The migrations of the database files: whatever fails while a file is opened, and however often, each migration is applied at most once, as a whole and in
  order, and an opening that meets no failure completes them. A completed file is not touched again.
\<close>

section \<open>Layouts\<close>

fun layout_run :: "statement list \<Rightarrow> layout \<Rightarrow> layout option" where
  "layout_run [] l = Some l"
| "layout_run (st # sts) l = Option.bind (layout_step st l) (layout_run sts)"

definition layout_after :: "migration list \<Rightarrow> layout option" where
  "layout_after ms = layout_run (concat (map mg_statements ms)) ([], [])"

lemma layout_run_append: "layout_run (xs @ ys) l = Option.bind (layout_run xs l) (layout_run ys)"
  by (induction xs arbitrary: l) (simp_all split: bind_split)

text \<open>Totals are counted only when they were cleared before.\<close>

fun guarded :: "bool \<Rightarrow> statement list \<Rightarrow> bool" where
  "guarded cleared [] = True"
| "guarded cleared (st # sts) =
     ((st \<noteq> CountTotals \<or> cleared) \<and> guarded (st = ClearTotals \<or> cleared \<and> st \<noteq> CountTotals) sts)"

definition migrations_ok :: "migration list \<Rightarrow> bool" where
  "migrations_ok ms \<longleftrightarrow> distinct (map mg_version ms) \<and> layout_after ms \<noteq> None \<and> list_all (\<lambda>m. guarded False (mg_statements m)) ms"

lemma known_migrations_ok:
  "migrations_ok allMigrations" "migrations_ok mainMigrations" "migrations_ok auditMigrations" "migrations_ok sessionMigrations" "migrations_ok jobMigrations"
  by code_simp+

lemma layout_step_prefix:
  assumes "migrations_ok ms" and "k < length ms" and "layout_after (take k ms) = Some l"
  shows "layout_run (mg_statements (ms ! k)) l = layout_after (take (Suc k) ms) \<and> layout_after (take (Suc k) ms) \<noteq> None"
proof -
  have step: "layout_after (take (Suc k) ms) = layout_run (mg_statements (ms ! k)) l"
    using assms(3) by (simp add: layout_after_def take_Suc_conv_app_nth [OF assms(2)] layout_run_append)
  have "ms = take (Suc k) ms @ drop (Suc k) ms" by simp
  then have "layout_after ms = Option.bind (layout_after (take (Suc k) ms)) (layout_run (concat (map mg_statements (drop (Suc k) ms))))"
    by (metis concat_append layout_after_def layout_run_append map_append)
  then have "layout_after (take (Suc k) ms) \<noteq> None" using assms(1) by (cases "layout_after (take (Suc k) ms)") (simp_all add: migrations_ok_def del: append_take_drop_id)
  then show ?thesis using step by simp
qed

section \<open>One migration\<close>

abbreviation exec_all :: "migration \<Rightarrow> statement list \<Rightarrow> (stored db, unit list) step" where
  "exec_all m \<equiv> for_each (\<lambda>st. wrap_err (Wrapf (on_migration ''apply'' m)) (sql_run (exec_statement st)))"

lemma exec_one:
  assumes "wrap_err (Wrapf w) (sql_run (exec_statement st)) d = (Inr u, d')"
  shows "layout_step st (sd_layout (db_tables d)) = Some (sd_layout (db_tables d')) \<and> sd_applied (db_tables d') = sd_applied (db_tables d)"
proof -
  have "sql_run (exec_statement st) d = (Inr u, d')" using assms by (auto simp: wrap_err_def split: prod.splits sum.splits)
  then have "exec_statement st (db_tables d) = Inr (u, db_tables d')" by (rule sql_run_ok)
  then have "\<exists>l x. layout_step st (sd_layout (db_tables d)) = Some l \<and> db_tables d' = (db_tables d)\<lparr>sd_layout := l, sd_data := x\<rparr>"
    by (cases "layout_step st (sd_layout (db_tables d))"; cases "data_step st (sd_data (db_tables d))") (auto simp: exec_statement_def dest!: sym [of _ "db_tables d'"])
  then show ?thesis by auto
qed

lemma exec_all_ok:
  assumes "exec_all m sts d = (Inr us, d')"
  shows "layout_run sts (sd_layout (db_tables d)) = Some (sd_layout (db_tables d')) \<and> sd_applied (db_tables d') = sd_applied (db_tables d)"
  using assms
proof (induction sts arbitrary: d us)
  case (Cons st sts)
  then obtain u d1 us' where "wrap_err (Wrapf (on_migration ''apply'' m)) (sql_run (exec_statement st)) d = (Inr u, d1)"
    and "exec_all m sts d1 = (Inr us', d')"
    by (auto simp: then_do_eq_Inr)
  then show ?case using exec_one Cons.IH by fastforce
qed simp

lemma data_step_total: "st \<noteq> CountTotals \<Longrightarrow> \<exists>d'. data_step st d = Inr d'"
  by (cases st) simp_all

lemma exec_one_no_fault:
  assumes "db_faults d = []" and "layout_step st (sd_layout (db_tables d)) = Some l" and "st \<noteq> CountTotals \<or> ad_totals (sd_data (db_tables d)) = []"
  shows "\<exists>d'. wrap_err (Wrapf w) (sql_run (exec_statement st)) d = (Inr (), d') \<and> db_faults d' = [] \<and> sd_layout (db_tables d') = l \<and>
     (st = ClearTotals \<or> ad_totals (sd_data (db_tables d)) = [] \<and> st \<noteq> CountTotals \<longrightarrow> ad_totals (sd_data (db_tables d')) = [])"
proof -
  obtain x where x: "data_step st (sd_data (db_tables d)) = Inr x"
    using assms(3) data_step_total [of st] by (cases "st = CountTotals") auto
  have "st = ClearTotals \<or> ad_totals (sd_data (db_tables d)) = [] \<and> st \<noteq> CountTotals \<longrightarrow> ad_totals x = []"
    using x by (cases st) (auto split: if_splits)
  then show ?thesis
    using assms(1,2) x by (simp add: wrap_err_def sql_run_no_fault exec_statement_def del: layout_step.simps)
qed

lemma exec_all_no_fault:
  assumes "guarded cleared sts" and "db_faults d = []" and "layout_run sts (sd_layout (db_tables d)) \<noteq> None"
    and "cleared \<longrightarrow> ad_totals (sd_data (db_tables d)) = []"
  shows "\<exists>us d'. exec_all m sts d = (Inr us, d') \<and> db_faults d' = []"
  using assms
proof (induction sts arbitrary: d cleared)
  case (Cons st sts)
  obtain l where l: "layout_step st (sd_layout (db_tables d)) = Some l" and rest: "layout_run sts l \<noteq> None"
    using Cons.prems(3) by (cases "layout_step st (sd_layout (db_tables d))") auto
  have "st \<noteq> CountTotals \<or> ad_totals (sd_data (db_tables d)) = []" using Cons.prems(1,4) by auto
  from exec_one_no_fault [OF Cons.prems(2) l this, of "on_migration ''apply'' m"]
  obtain d1 where d1: "wrap_err (Wrapf (on_migration ''apply'' m)) (sql_run (exec_statement st)) d = (Inr (), d1)" "db_faults d1 = []"
    "sd_layout (db_tables d1) = l"
    "st = ClearTotals \<or> ad_totals (sd_data (db_tables d)) = [] \<and> st \<noteq> CountTotals \<longrightarrow> ad_totals (sd_data (db_tables d1)) = []" by blast
  have "\<exists>us d'. exec_all m sts d1 = (Inr us, d') \<and> db_faults d' = []"
    by (rule Cons.IH [of "st = ClearTotals \<or> cleared \<and> st \<noteq> CountTotals"]) (use Cons.prems d1 rest in \<open>auto simp del: layout_step.simps\<close>)
  then show ?case using d1(1) by (auto simp: then_do_def simp del: wrap_err_Inr)
qed simp

section \<open>The invariant\<close>

text \<open>A file in which the first \<open>k\<close> migrations are applied.\<close>

definition at_version :: "migration list \<Rightarrow> nat \<Rightarrow> stored \<Rightarrow> bool" where
  "at_version ms k tb \<longleftrightarrow>
     k \<le> length ms \<and> Some (sd_layout tb) = layout_after (take k ms) \<and> map fst (sd_applied tb) = map mg_version (take k ms)"

lemma applied_iff:
  assumes "migrations_ok ms" and "at_version ms k tb" and "j < length ms"
  shows "(mg_version (ms ! j) \<in> fst ` set (sd_applied tb)) = (j < k)"
proof -
  have "fst ` set (sd_applied tb) = mg_version ` set (take k ms)"
    using assms(2) by (metis at_version_def list.set_map)
  moreover have "(mg_version (ms ! j) \<in> mg_version ` set (take k ms)) = (j < k)"
  proof
    assume "mg_version (ms ! j) \<in> mg_version ` set (take k ms)"
    then obtain i where "i < length ms" "i < k" and "mg_version (ms ! i) = mg_version (ms ! j)" by (auto simp: in_set_conv_nth)
    then show "j < k"
      using assms nth_eq_iff_index_eq [of "map mg_version ms" i j] by (simp add: migrations_ok_def)
  next
    assume "j < k"
    then have "ms ! j \<in> set (take k ms)" using assms(3) by (auto simp: in_set_conv_nth intro!: exI [of _ j])
    then show "mg_version (ms ! j) \<in> mg_version ` set (take k ms)" by blast
  qed
  ultimately show ?thesis by simp
qed

lemma applied_count:
  "length (filter (\<lambda>r. fst r = v) rows) > 0 \<longleftrightarrow> v \<in> fst ` set rows"
  by (induction rows) auto

lemma body_cases:
  assumes "migrations_ok ms" and "at_version ms k (db_tables d)" and "j < length ms" and "j \<le> k"
    and "migration_body at (ms ! j) d = (Inr u, d')"
  shows "if j < k then db_tables d' = db_tables d else at_version ms (Suc k) (db_tables d')"
proof -
  let ?m = "ms ! j"
  obtain n d1 where q: "wrap_err (Wrapf (on_migration ''check'' ?m)) (sql_query_row (\<lambda>tb. length (filter (\<lambda>r. fst r = mg_version ?m) (sd_applied tb)))) d = (Inr n, d1)"
    and rest: "(if n > 0 then ret () else then_do (exec_all ?m (mg_statements ?m)) (\<lambda>_. wrap_err (Wrapf (on_migration ''record'' ?m)) (sql_run (record_migration at ?m)))) d1 = (Inr u, d')"
    using assms(5) by (auto simp: migration_body_def then_do_eq_Inr)
  have n: "n = length (filter (\<lambda>r. fst r = mg_version ?m) (sd_applied (db_tables d)))" and d1: "db_tables d1 = db_tables d"
    using q sql_query_row_ok by (fastforce simp: wrap_err_def split: prod.splits sum.splits)+
  have exists: "(n > 0) = (j < k)" unfolding n applied_count by (rule applied_iff [OF assms(1-3)])
  show ?thesis
  proof (cases "j < k")
    case True
    then show ?thesis using rest exists d1 by simp
  next
    case False
    then have k: "k < length ms" "j = k" using assms(3,4) by simp_all
    obtain us d2 where ex: "exec_all ?m (mg_statements ?m) d1 = (Inr us, d2)"
      and rec: "sql_run (record_migration at ?m) d2 = (Inr u, d')"
      using rest exists False by (auto simp: then_do_eq_Inr)
    have "layout_run (mg_statements ?m) (sd_layout (db_tables d)) = Some (sd_layout (db_tables d2))"
      and a2: "sd_applied (db_tables d2) = sd_applied (db_tables d)"
      using exec_all_ok [OF ex] d1 by simp_all
    moreover have "layout_run (mg_statements ?m) (sd_layout (db_tables d)) = layout_after (take (Suc k) ms)"
      using layout_step_prefix [OF assms(1) k(1)] assms(2) k by (simp add: at_version_def)
    moreover have "db_tables d' = (db_tables d2)\<lparr>sd_applied := sd_applied (db_tables d2) @ [(mg_version ?m, mg_name ?m, at)]\<rparr>"
      using sql_run_ok [OF rec] by (auto simp: record_migration_def split: if_splits)
    ultimately have "at_version ms (Suc k) (db_tables d')"
      using assms(2) k by (simp add: at_version_def a2 take_Suc_conv_app_nth)
    then show ?thesis using False by simp
  qed
qed

lemma apply_cases:
  assumes "migrations_ok ms" and "at_version ms k (db_tables d)" and "j < length ms" and "j \<le> k"
    and "applyMigration at (ms ! j) d = (r, d')"
  shows "if r = Inr () \<and> j = k then at_version ms (Suc k) (db_tables d') else db_tables d' = db_tables d"
proof -
  let ?m = "ms ! j"
  obtain r' d1 where run: "then_do (wrap_err (Wrapf (on_migration ''begin'' ?m)) (sql_poll db_error)) (\<lambda>_.
      then_do (migration_body at ?m) (\<lambda>_. sql_poll db_error)) d = (r', d1)" by fastforce
  show ?thesis
  proof (cases r')
    case (Inl e)
    then show ?thesis using assms(5) run by (auto simp: applyMigration_def)
  next
    case (Inr u)
    then have r: "r = Inr ()" "d' = d1" using assms(5) run by (auto simp: applyMigration_def)
    obtain d2 d3 where b: "wrap_err (Wrapf (on_migration ''begin'' ?m)) (sql_poll db_error) d = (Inr (), d2)"
      and body: "migration_body at ?m d2 = (Inr (), d3)" and c: "sql_poll db_error d3 = (Inr (), d1)"
      using run Inr by (auto simp: then_do_eq_Inr)
    have same: "db_tables d2 = db_tables d" "db_tables d1 = db_tables d3"
      using readsD [OF reads_wrap_err [OF reads_poll] b] readsD [OF reads_poll c] by simp_all
    show ?thesis
      using body_cases [OF assms(1) _ assms(3,4) body] assms(2,4) same r by (auto split: if_splits)
  qed
qed

lemma migrations_cases:
  assumes "migrations_ok ms" and "at_version ms k (db_tables d)" and "j \<le> k" and "j \<le> length ms"
    and "for_each (applyMigration at) (drop j ms) d = (r, d')"
  shows "\<exists>k'. k \<le> k' \<and> at_version ms k' (db_tables d') \<and> ((\<exists>e. r = Inl e) \<or> k' = length ms) \<and> (k = length ms \<longrightarrow> db_tables d' = db_tables d)"
  using assms(2-)
proof (induction "length ms - j" arbitrary: j k d r)
  case 0
  then have "k = length ms" by (simp add: at_version_def)
  then show ?case using 0 by (intro exI [of _ k]) simp
next
  case (Suc n)
  then have j: "j < length ms" by simp
  obtain r1 d1 where a: "applyMigration at (ms ! j) d = (r1, d1)" by fastforce
  note step = apply_cases [OF assms(1) Suc.prems(1) j Suc.prems(2) a]
  have run: "then_do (applyMigration at (ms ! j)) (\<lambda>y. then_do (for_each (applyMigration at) (drop (Suc j) ms)) (\<lambda>ys. ret (y # ys))) d = (r, d')"
    using Suc.prems(4) by (simp add: Cons_nth_drop_Suc [OF j, symmetric])
  show ?case
  proof (cases r1)
    case (Inl e)
    then show ?thesis using run a step Suc.prems(1) by (auto simp: then_do_def)
  next
    case (Inr u)
    let ?k = "if j = k then Suc k else k"
    have k: "at_version ms ?k (db_tables d1)" and full: "k = length ms \<longrightarrow> db_tables d1 = db_tables d"
      using step Inr Suc.prems(1) j by (auto split: if_splits)
    obtain r2 where rest: "for_each (applyMigration at) (drop (Suc j) ms) d1 = (r2, d')" and r: "(\<exists>e. r = Inl e) = (\<exists>e. r2 = Inl e)"
      using run a Inr by (auto simp: then_do_def split: sum.splits prod.splits)
    have "\<exists>k'. ?k \<le> k' \<and> at_version ms k' (db_tables d') \<and> ((\<exists>e. r2 = Inl e) \<or> k' = length ms) \<and> (?k = length ms \<longrightarrow> db_tables d' = db_tables d1)"
      by (rule Suc.hyps(1) [OF _ k _ _ rest]) (use Suc.hyps(2) Suc.prems(2) j in auto)
    then obtain k' where k': "?k \<le> k'" "at_version ms k' (db_tables d')" "(\<exists>e. r = Inl e) \<or> k' = length ms"
      and same: "?k = length ms \<longrightarrow> db_tables d' = db_tables d1"
      using r by blast
    have "k \<le> k'" using k'(1) by (auto split: if_splits)
    moreover have "k = length ms \<longrightarrow> db_tables d' = db_tables d"
    proof
      assume "k = length ms"
      moreover then have "?k = length ms" using j by auto
      ultimately show "db_tables d' = db_tables d" using same full by simp
    qed
    ultimately show ?thesis using k'(2,3) by blast
  qed
qed

lemma migrate_cases:
  assumes "migrations_ok ms" and "at_version ms k (db_tables d)" and "migrate at ms d = (r, d')"
  shows "\<exists>k'. k \<le> k' \<and> at_version ms k' (db_tables d') \<and> ((\<exists>e. r = Inl e) \<or> k' = length ms) \<and> (k = length ms \<longrightarrow> db_tables d' = db_tables d)"
proof -
  obtain r1 d1 where c: "wrap_err (Wrapf ''create schema_migrations'') (sql_run (\<lambda>tb. Inr ((), tb))) d = (r1, d1)" by fastforce
  have "keeps (\<lambda>x. db_tables x = db_tables d) (wrap_err (Wrapf ''create schema_migrations'') (sql_run (\<lambda>tb. Inr ((), tb))))"
    by (intro keeps_wrap_err sql_run_keeps [of "\<lambda>tb. tb = db_tables d"]) simp
  then have t: "db_tables d1 = db_tables d" using c by (force simp: keeps_def)
  show ?thesis
  proof (cases r1)
    case (Inl e)
    then show ?thesis using assms(2,3) c t by (auto simp: migrate_def then_do_def)
  next
    case (Inr u)
    obtain r2 d2 where f: "for_each (applyMigration at) (drop 0 ms) d1 = (r2, d2)" by fastforce
    then have "d' = d2" "(\<exists>e. r = Inl e) = (\<exists>e. r2 = Inl e)"
      using assms(3) c Inr by (auto simp: migrate_def then_do_def split: sum.splits)
    then show ?thesis using migrations_cases [OF assms(1) _ _ _ f, of k] assms(2) t by auto
  qed
qed

section \<open>Opening without a failure\<close>

lemma apply_no_fault:
  assumes "migrations_ok ms" and "at_version ms k (db_tables d)" and "j < length ms" and "j \<le> k" and "db_faults d = []"
  shows "\<exists>d'. applyMigration at (ms ! j) d = (Inr (), d') \<and> db_faults d' = []"
proof -
  let ?m = "ms ! j"
  have "\<exists>d'. migration_body at ?m d = (Inr (), d') \<and> db_faults d' = []"
  proof (cases "j < k")
    case True
    then have "0 < length (filter (\<lambda>r. fst r = mg_version ?m) (sd_applied (db_tables d)))"
      unfolding applied_count using applied_iff [OF assms(1-3)] by simp
    then show ?thesis using assms(5) by (auto simp: migration_body_def then_do_def wrap_err_def)
  next
    case False
    then have k: "j = k" using assms(4) by simp
    have new: "mg_version ?m \<notin> fst ` set (sd_applied (db_tables d))" using applied_iff [OF assms(1-3)] False by simp
    then have none: "filter (\<lambda>r. fst r = mg_version ?m) (sd_applied (db_tables d)) = []" by (force simp: filter_empty_conv)
    have "layout_run (mg_statements ?m) (sd_layout (db_tables d)) \<noteq> None"
      using layout_step_prefix [OF assms(1,3), of "sd_layout (db_tables d)"] assms(2) k by (auto simp: at_version_def)
    moreover have "guarded False (mg_statements ?m)" using assms(1,3) by (simp add: migrations_ok_def list_all_length)
    ultimately obtain us d1 where ex: "exec_all ?m (mg_statements ?m) d = (Inr us, d1)" and f: "db_faults d1 = []"
      using exec_all_no_fault assms(5) by blast
    have "sd_applied (db_tables d1) = sd_applied (db_tables d)" using exec_all_ok [OF ex] by simp
    then have "\<exists>d'. sql_run (record_migration at ?m) d1 = (Inr (), d') \<and> db_faults d' = []"
      using new f by (simp add: sql_run_no_fault record_migration_def)
    then obtain d2 where "sql_run (record_migration at ?m) d1 = (Inr (), d2)" "db_faults d2 = []" by blast
    then show ?thesis using assms(5) ex none by (intro exI [of _ d2]) (simp add: migration_body_def then_do_def wrap_err_def [of _ "sql_query_row _"] wrap_err_def [of _ "sql_run (record_migration at ?m)"])
  qed
  then obtain d1 where "migration_body at ?m d = (Inr (), d1)" "db_faults d1 = []" by blast
  then show ?thesis using assms(5) by (intro exI [of _ d1]) (simp add: applyMigration_def then_do_def wrap_err_def)
qed

lemma migrations_no_fault:
  assumes "migrations_ok ms" and "at_version ms k (db_tables d)" and "j \<le> k" and "j \<le> length ms" and "db_faults d = []"
  shows "\<exists>us d'. for_each (applyMigration at) (drop j ms) d = (Inr us, d')"
  using assms(2-)
proof (induction "length ms - j" arbitrary: j k d)
  case (Suc n)
  then have j: "j < length ms" by simp
  obtain d1 where a: "applyMigration at (ms ! j) d = (Inr (), d1)" and f: "db_faults d1 = []"
    using apply_no_fault [OF assms(1) Suc.prems(1) j Suc.prems(2,4)] by blast
  have k: "at_version ms (if j = k then Suc k else k) (db_tables d1)"
    using apply_cases [OF assms(1) Suc.prems(1) j Suc.prems(2) a] Suc.prems(1) by (auto split: if_splits)
  have "\<exists>us d'. for_each (applyMigration at) (drop (Suc j) ms) d1 = (Inr us, d')"
    by (rule Suc.hyps(1) [OF _ k _ _ f]) (use Suc.hyps(2) Suc.prems(2) j in auto)
  then show ?case using a by (auto simp: Cons_nth_drop_Suc [OF j, symmetric] then_do_def)
qed simp

lemma migrate_no_fault:
  assumes "migrations_ok ms" and "at_version ms k (db_tables d)" and "db_faults d = []"
  shows "\<exists>d'. migrate at ms d = (Inr (), d')"
proof -
  obtain us d' where "for_each (applyMigration at) (drop 0 ms) d = (Inr us, d')"
    using migrations_no_fault [OF assms(1,2) _ _ assms(3)] by blast
  then show ?thesis using assms(3) by (auto simp: migrate_def then_do_def wrap_err_def sql_run_no_fault)
qed

section \<open>The life of a file\<close>

text \<open>
  A file starts empty. Every start of the program migrates it, with the time it has then and whatever faults the driver meets; between the starts the program
  changes the rows and leaves the tables, indexes and applied migrations as they are.
\<close>

definition empty_file :: stored where
  "empty_file = \<lparr>sd_layout = ([], []), sd_applied = [], sd_data = \<lparr>ad_settings = None, ad_actions = [], ad_totals = []\<rparr>\<rparr>"

inductive opened :: "migration list \<Rightarrow> stored \<Rightarrow> bool" for ms where
  opened_new: "opened ms empty_file"
| opened_start: "opened ms tb \<Longrightarrow> migrate at ms \<lparr>db_tables = tb, db_faults = fs\<rparr> = (r, d) \<Longrightarrow> opened ms (db_tables d)"
| opened_use: "opened ms tb \<Longrightarrow> opened ms (tb\<lparr>sd_data := x\<rparr>)"

lemma opened_at_version:
  assumes "migrations_ok ms" and "opened ms tb"
  shows "\<exists>k. at_version ms k tb"
  using assms(2)
proof induction
  case opened_new
  show ?case by (intro exI [of _ 0]) (simp add: at_version_def empty_file_def layout_after_def)
next
  case (opened_start tb at fs r d)
  then obtain k where "at_version ms k (db_tables \<lparr>db_tables = tb, db_faults = fs\<rparr>)" by auto
  from migrate_cases [OF assms(1) this opened_start.hyps(2)] show ?case by blast
next
  case (opened_use tb x)
  then show ?case by (simp add: at_version_def)
qed

text \<open>The migrations that \<open>Open\<close>, \<open>OpenMain\<close>, \<open>OpenAudit\<close>, \<open>OpenSessions\<close> and \<open>OpenJobs\<close> pass to \<open>open\<close>.\<close>

definition open_migrations :: "migration list list" where
  "open_migrations = [allMigrations, mainMigrations, auditMigrations, sessionMigrations, jobMigrations]"

lemma open_migrations_ok: "ms \<in> set open_migrations \<Longrightarrow> migrations_ok ms"
  using known_migrations_ok by (auto simp: open_migrations_def)

lemma at_version_complete:
  assumes "at_version ms k tb"
  shows "(map fst (sd_applied tb) = map mg_version ms) = (k = length ms)"
proof
  assume "map fst (sd_applied tb) = map mg_version ms"
  then have "length (take k ms) = length ms" using assms by (metis at_version_def length_map)
  then show "k = length ms" using assms by (simp add: at_version_def)
qed (use assms in \<open>simp add: at_version_def\<close>)

text \<open>An opening computed on the file of the jobs: the commit of its migration fails, and the file stays empty.\<close>

lemma file_steps:
  "sql_poll e \<lparr>db_tables = t, db_faults = b # fs\<rparr> = (if b then Inl e else Inr (), \<lparr>db_tables = t, db_faults = fs\<rparr>)"
  "sql_run stmt \<lparr>db_tables = t, db_faults = False # fs\<rparr> =
     (case stmt t of Inl err \<Rightarrow> (Inl err, \<lparr>db_tables = t, db_faults = fs\<rparr>) | Inr (a, t') \<Rightarrow> (Inr a, \<lparr>db_tables = t', db_faults = fs\<rparr>))"
  "sql_query_row q \<lparr>db_tables = t, db_faults = False # fs\<rparr> = (Inr (q t), \<lparr>db_tables = t, db_faults = fs\<rparr>)"
  by (simp_all add: sql_poll_def sql_run_def sql_query_row_def get_state_def then_do_def split: sum.splits)

lemma first_opening_fails:
  "migrate at jobMigrations \<lparr>db_tables = empty_file, db_faults = [False, False, False, False, False, True]\<rparr> =
     (Inl db_error, \<lparr>db_tables = empty_file, db_faults = []\<rparr>)"
proof -
  have "applyMigration at (hd jobMigrations) \<lparr>db_tables = empty_file, db_faults = [False, False, False, False, True]\<rparr> =
      (Inl db_error, \<lparr>db_tables = empty_file, db_faults = []\<rparr>)"
    by (simp add: jobMigrations_def applyMigration_def migration_body_def then_do_def wrap_err_def file_steps exec_statement_def record_migration_def empty_file_def)
  then show ?thesis by (simp add: migrate_def jobMigrations_def then_do_def wrap_err_def file_steps)
qed

text \<open>
  C26: migrations are atomic, ordered and applied once. However often a database file was opened, whatever failed on the way and whatever the program wrote to
  its rows in between, its tables and indexes are those of some number of complete migrations, the first ones in their order, and these are the ones recorded
  as applied, each once; opening it again only goes forward. An opening that reports no error has applied them all, an opening that meets no fault reports no
  error, and opening a file that has them all changes nothing in it, neither its rows nor the records of the migrations.
\<close>
theorem migrations_apply_once:
  assumes "ms \<in> set open_migrations" and "opened ms (db_tables d)" and "migrate at ms d = (r, d')"
  shows "\<exists>j k. j \<le> k \<and> k \<le> length ms \<and>
      map fst (sd_applied (db_tables d)) = map mg_version (take j ms) \<and> map fst (sd_applied (db_tables d')) = map mg_version (take k ms) \<and>
      Some (sd_layout (db_tables d')) = layout_run (concat (map mg_statements (take k ms))) ([], []) \<and>
      (r = Inr () \<longrightarrow> k = length ms) \<and> (db_faults d = [] \<longrightarrow> r = Inr ()) \<and> (j = length ms \<longrightarrow> db_tables d' = db_tables d)"
proof -
  have ok: "migrations_ok ms" using assms(1) by (rule open_migrations_ok)
  obtain j where j: "at_version ms j (db_tables d)" using opened_at_version [OF ok assms(2)] by blast
  obtain k where k: "j \<le> k" "at_version ms k (db_tables d')" "(\<exists>e. r = Inl e) \<or> k = length ms" "j = length ms \<longrightarrow> db_tables d' = db_tables d"
    using migrate_cases [OF ok j assms(3)] by blast
  have "db_faults d = [] \<longrightarrow> r = Inr ()" using migrate_no_fault [OF ok j, of at] assms(3) by auto
  then show ?thesis using j k by (intro exI [of _ j] exI [of _ k]) (auto simp: at_version_def layout_after_def)
qed

text \<open>The file of the jobs whose first opening fails when the migration is committed, opened again.\<close>

definition failed_jobs_file :: stored where
  "failed_jobs_file = db_tables (snd (migrate ''t0'' jobMigrations \<lparr>db_tables = empty_file, db_faults = [False, False, False, False, False, True]\<rparr>))"

lemma migrations_apply_once_witness:
  "fst (migrate ''t0'' jobMigrations \<lparr>db_tables = empty_file, db_faults = [False, False, False, False, False, True]\<rparr>) = Inl db_error \<and>
   failed_jobs_file = empty_file \<and>
   fst (migrate ''t1'' jobMigrations \<lparr>db_tables = failed_jobs_file, db_faults = []\<rparr>) = Inr () \<and>
   map fst (sd_applied (db_tables (snd (migrate ''t1'' jobMigrations \<lparr>db_tables = failed_jobs_file, db_faults = []\<rparr>)))) = [1]"
proof -
  have first: "fst (migrate ''t0'' jobMigrations \<lparr>db_tables = empty_file, db_faults = [False, False, False, False, False, True]\<rparr>) = Inl db_error"
    and empty: "failed_jobs_file = empty_file" using first_opening_fails by (simp_all add: failed_jobs_file_def)
  let ?d = "\<lparr>db_tables = failed_jobs_file, db_faults = []\<rparr>"
  obtain r d' where m: "migrate ''t1'' jobMigrations ?d = (r, d')" by (rule prod.exhaust)
  have known: "jobMigrations \<in> set open_migrations" by (simp add: open_migrations_def)
  have op: "opened jobMigrations (db_tables ?d)"
    unfolding failed_jobs_file_def db.simps by (rule opened_start [OF opened_new]) (rule surjective_pairing)
  obtain k where "r = Inr ()" "k = length jobMigrations" "map fst (sd_applied (db_tables d')) = map mg_version (take k jobMigrations)"
    using migrations_apply_once [OF known op m] by fastforce
  then have "map fst (sd_applied (db_tables d')) = [1]" by (simp add: jobMigrations_def)
  with \<open>r = Inr ()\<close> show ?thesis unfolding m using first empty by (simp only: fst_conv snd_conv simp_thms)
qed

text \<open>
  The versions of the files overlap: in a file that the audit log has completed, the migration of the jobs counts as applied, and its table is not created.
\<close>

lemma audit_file_hides_jobs:
  assumes "map fst (sd_applied tb) = map mg_version auditMigrations"
  shows "migrate at jobMigrations \<lparr>db_tables = tb, db_faults = []\<rparr> = (Inr (), \<lparr>db_tables = tb, db_faults = []\<rparr>)"
proof -
  have "set (map fst (sd_applied tb)) = mg_version ` set auditMigrations" unfolding assms by simp
  moreover have "1 \<in> mg_version ` set auditMigrations" by code_simp
  ultimately have "1 \<in> fst ` set (sd_applied tb)" by simp
  then have "0 < length (filter (\<lambda>r. fst r = 1) (sd_applied tb))" unfolding applied_count .
  then show ?thesis by (simp add: migrate_def jobMigrations_def applyMigration_def migration_body_def then_do_def wrap_err_def sql_run_no_fault)
qed

section \<open>Paths\<close>

text \<open>The files of the jobs and the sessions are not the main file, nor each other.\<close>

lemma rev_split: "rev path = t @ r \<Longrightarrow> r \<noteq> [] \<Longrightarrow> path = rev (tl r) @ hd r # rev t"
  by (cases r) (simp_all add: rev_swap)

lemma filepath_Ext_suffix: "\<exists>stem. path = stem @ filepath_Ext path"
proof -
  define r where "r = takeWhile (\<lambda>c. c \<noteq> CHR ''/'') (rev path)"
  let ?tail = "takeWhile (\<lambda>c. c \<noteq> CHR ''.'') r" and ?rest = "dropWhile (\<lambda>c. c \<noteq> CHR ''.'') r"
  show ?thesis
  proof (cases "CHR ''.'' \<in> set r")
    case True
    then have ne: "?rest \<noteq> []" and h: "hd ?rest = CHR ''.''"
      using hd_dropWhile [of "\<lambda>c. c \<noteq> CHR ''.''" r] by (auto simp: dropWhile_eq_Nil_conv)
    have "rev path = ?tail @ (?rest @ dropWhile (\<lambda>c. c \<noteq> CHR ''/'') (rev path))"
      unfolding append_assoc [symmetric] takeWhile_dropWhile_id r_def ..
    from rev_split [OF this] have "path = (rev (dropWhile (\<lambda>c. c \<noteq> CHR ''/'') (rev path)) @ rev (tl ?rest)) @ filepath_Ext path"
      using ne h True by (simp add: filepath_Ext_def Let_def r_def [symmetric])
    then show ?thesis by blast
  next
    case False
    then show ?thesis by (simp add: filepath_Ext_def Let_def r_def [symmetric])
  qed
qed

lemma siblingPath_eq: "\<exists>stem. path = stem @ filepath_Ext path \<and> (\<forall>name. siblingPath path name = stem @ ''-'' @ name @ filepath_Ext path)"
proof -
  obtain stem where stem: "path = stem @ filepath_Ext path" using filepath_Ext_suffix by blast
  then have "TrimSuffix path (filepath_Ext path) = stem" by (metis TrimSuffix_append)
  then show ?thesis using stem by (intro exI [of _ stem]) (simp add: siblingPath_def)
qed

lemma siblings_differ: "JobsPath path \<noteq> path" "SessionsPath path \<noteq> path" "JobsPath path \<noteq> SessionsPath path"
proof -
  obtain stem where stem: "path = stem @ filepath_Ext path" and sib: "\<And>name. siblingPath path name = stem @ ''-'' @ name @ filepath_Ext path"
    using siblingPath_eq by blast
  have len: "length path = length stem + length (filepath_Ext path)" using arg_cong [OF stem, of length] by simp
  have longer: "length (siblingPath path name) > length path" for name unfolding sib len by simp
  show "JobsPath path \<noteq> path" "SessionsPath path \<noteq> path" unfolding JobsPath_def SessionsPath_def using longer by (metis less_irrefl)+
  show "JobsPath path \<noteq> SessionsPath path" by (simp add: JobsPath_def SessionsPath_def sib)
qed

end
