(* ===== verification/Spec2Isabelle.thy ===== *)
theory Spec2Isabelle
  imports Filter_Crud Filter_Refresh Filter_Reachable Plugin_Serving Corefile Dnssec_Upstream App_Properties Audit_Sink
    Refresh_Properties Session_Properties Server_Properties Api_Properties Filter_Api_Properties Local_Api_Properties Dashboard_Api
    Storage_Properties
begin

text \<open>
  Corehole is a DNS server that blocks names: a CoreDNS plugin that answers, blocks or forwards each query, with an administration over HTTP that
  changes what the plugin does while it runs. This library models the program in \<open>src/internal\<close>, component by component, and proves what makes each
  component and their composition correct. Every definition is executable where the code is, and names the file it models in the text of its theory.

  \<^bold>\<open>The program and its theories.\<close>

  Go and its standard library. \<open>Go_Prelude\<close> (strings, words, numbers), \<open>Go_Effects\<close> (errors as values, steps that thread a state, contexts), \<open>Go_Time\<close>,
  \<open>Go_Time_Nano\<close> and \<open>Go_Time_Order\<close> (the two text forms of an instant and how they sort), \<open>Go_Json\<close> and \<open>Json_Fields\<close> (\<open>encoding/json\<close> for trees and for
  structs described by their fields), \<open>Go_Encoding\<close> (base64, hex), \<open>Netip\<close>, \<open>Netip_Facts\<close> and \<open>Net_Hostport\<close> (\<open>net/netip\<close>, \<open>net\<close>), \<open>Sha256\<close>
  (\<open>crypto/sha256\<close>), \<open>Sql_Table\<close> (SQLite tables with identifiers, connections whose calls may fail, transactions).

  Deciding. \<open>Dns_Decision\<close> (\<open>dns/decision.go\<close>, with the interface \<open>Decider\<close> as the locale \<open>decider\<close>), \<open>Blocklist_Parser\<close>, \<open>Blocklist_Matcher\<close>,
  \<open>Blocklist_Manager\<close> (\<open>blocklist/\<close>), \<open>Filter_Types\<close>, \<open>Filter_Repository\<close>, \<open>Filter_Service\<close>, \<open>Filter_Runtime\<close> (\<open>filter/\<close>; the state is the
  tables of the schema in \<open>storage/storage.go\<close>), with the invariant in \<open>Filter_Invariant\<close>, the reachable states in \<open>Filter_Reachable\<close>, refreshes in
  \<open>Filter_Refresh\<close> and single rows in \<open>Filter_Crud\<close>.

  Answering. \<open>Local_Records\<close>, \<open>Local_Repository\<close>, \<open>Local_Resolver\<close> (\<open>localdns/\<close>), \<open>Core_Plugin\<close> and \<open>Plugin_Serving\<close> (\<open>coreplugin/\<close>: the atomic
  cells of the runtime, and \<open>ServeDNS\<close> under every interleaving with changes of them), \<open>Corefile\<close> and \<open>Dnssec_Upstream\<close> (\<open>coredns/\<close>).

  Configuration and process. \<open>Config\<close> and \<open>Config_Store\<close> (\<open>config/\<close>), \<open>App_Runtime\<close> and \<open>App_Properties\<close> (\<open>app/app.go\<close>, \<open>coredns/server.go\<close>: the reloaders,
  the controller of the pause, the preparation of the runtime), \<open>Storage_Schema\<close> and \<open>Storage_Properties\<close> (\<open>storage/\<close>: the migrations of the database files).

  The query log. \<open>Audit_Log\<close>, \<open>Audit_Sink\<close> (the queue and its worker), \<open>Audit_Cleanup\<close>, \<open>Audit_Query\<close>, \<open>Audit_Analytics\<close>, \<open>Audit_Reports\<close>,
  \<open>Audit_Cache\<close> (\<open>audit/\<close>).

  The administration. \<open>Admin_Password\<close>, \<open>Admin_Users\<close>, \<open>Admin_Sessions\<close>, \<open>Admin_Server\<close> (\<open>admin/password.go\<close>, \<open>store.go\<close>, \<open>api_key_store.go\<close>, \<open>session.go\<close>,
  \<open>server.go\<close>, \<open>api_key.go\<close>) with \<open>Session_*\<close>, \<open>Key_*\<close> and \<open>Server_Properties\<close>; \<open>Refresh_*\<close> (\<open>admin/filter_jobs.go\<close>); \<open>Config_Update\<close>, \<open>Config_Api\<close>,
  \<open>Audit_Api\<close>, \<open>Dashboard_Api\<close> (\<open>admin/api.go\<close>, \<open>analytics_api.go\<close>), \<open>Filter_Api\<close> (\<open>admin/filter_api.go\<close>), \<open>Local_Api\<close> (\<open>admin/customdns_api.go\<close>), with
  their properties in \<open>Config_Update_Properties\<close>, \<open>Api_Properties\<close>, \<open>Filter_Api_Properties\<close> and \<open>Local_Api_Properties\<close>.

  \<^bold>\<open>How the state corresponds.\<close> A struct is a record with the fields of the struct, an enumeration its constants, a fallible call a sum with the error
  first. A method that changes its receiver is a step \<open>'s \<Rightarrow> 'a result \<times> 's\<close>. A table is the list of its rows with the last identifier; a connection
  carries the list of the calls that are to fail, so a theorem over all connections speaks of every failing write, read and commit. Goroutines that share state
  are step relations or carry the changes that other goroutines make between their atomic operations; the theorems quantify over both.

  \<^bold>\<open>Interfaces.\<close> The locales state what one component promises another, and each is interpreted on the definitions of the provider: \<open>decider\<close> (the
  matcher, the manager, the rules over the manager, what the application installs), \<open>local_resolver\<close>, \<open>read_source\<close> and \<open>entry_source\<close> (the enabled
  records, the entries of the enabled lists), \<open>id_table\<close> (every table), \<open>config_store\<close>, \<open>session_contract\<close> and \<open>durable_sessions\<close> (three stores of
  sessions), \<open>key_contract\<close> and \<open>reliable_keys\<close> (both stores of keys).

  \<^bold>\<open>What the theorems show.\<close> Deciding: the parser takes no entry that a line does not spell, the matcher implements the label-based specification, the
  overlay of the rules and the service implement one ranking. Serving: each query is answered or forwarded exactly once with one audit event, a blocked
  query is not forwarded, local names follow at most eight aliases. Tables: invariants of all reachable states, atomic refreshes. Configuration: validation is
  its specification, the generated Corefile reads back, a stored configuration survives a restart. The query log: every event is accounted for under every
  interleaving, cleanups end, pages reach every event. Database files: each migration is applied once, whole and in order, whatever fails. The administration: guarded handlers need a live credential, sessions and keys follow their
  history, one administrator. Composition: an answered change of the filters or of the local records is what the plugin does from then on, an update of
  the configuration is served or asks for a restart, a pause and a retention last as long as asked for.

  \<^bold>\<open>Bounds and fuel.\<close> \<open>maxCNAMEChain\<close> is 8, and the resolver's loop counts it down. The scanner of JSON has the length of the text as fuel, one unit for
  each value, enough as each value has a character. A cleanup deletes batches of \<open>cleanupBatchSize\<close> (5000) rows and its loop is shown to end. At most 64 jobs
  are active and 256 kept; the worker's moves are bounded by a measure. The client that follows pages has the length of the log and one as fuel, and every page
  but the last takes an event.

  \<^bold>\<open>Parameters.\<close> \<open>argon2.IDKey\<close>, the compiler of regular expressions, the YAML decoder, caddy and the forwarding plugins of CoreDNS are third-party code and
  arguments of the definitions that call them. The clock, \<open>rand.Read\<close>, the order in which Go visits a map, files and HTTP responses are arguments too. What
  \<open>time.Parse\<close> does with texts that \<open>Format\<close> does not write is a parameter of \<open>config_lib\<close>.

  \<^bold>\<open>Assumptions.\<close> Letter case and white space are those of ASCII. Durations fit 64 bits except where the product with \<open>time.Second\<close> is written out with its
  wrap-around. A handler reads the clock once where the code reads it several times for one purpose. The separate reader connections see the tables of the
  writer. Nil and empty slices are told apart where \<open>reflect.DeepEqual\<close> does.

  \<^bold>\<open>Not modelled.\<close> The output of the log (\<open>logging/\<close>), the console's static files, the connection strings and pools of the database files, the start and
  shutdown of the process around the prepared runtime, the JSON of the responses, response headers other than the cookie, the import of the legacy
  metadata of the audit database.
\<close>

end
